(* ===== verification/Rust_Base.thy ===== *)
theory Rust_Base
  imports Main "HOL-Library.Word" "HOL-Library.Monad_Syntax"
begin

text \<open>
  The prelude of the development. It names the machine types the Rust code uses,
  gives the little-endian conversions of the standard library
  (\<open>to_le_bytes\<close>, \<open>from_le_bytes\<close>), the rotations (\<open>rotate_right\<close>,
  \<open>rotate_left\<close>), and the slice operations (\<open>&xs[o..o + n]\<close>,
  \<open>copy_from_slice\<close>) on byte lists, with the generic lemmas the component theories
  share. The collection \<open>rust_len\<close> holds the length equations of all list-valued
  operations, so that \<open>simp add: rust_len\<close> settles the shape of fixed-size arrays.
\<close>

unbundle bit_operations_syntax

section \<open>Machine types\<close>

type_synonym u8 = "8 word"
type_synonym u16 = "16 word"
type_synonym u32 = "32 word"
type_synonym u64 = "64 word"
type_synonym u128 = "128 word"

text \<open>\<open>usize\<close> values (lengths, indices) never come near \<open>2 ^ 64\<close>; they are \<open>nat\<close>.\<close>

type_synonym bytes = "u8 list"

named_theorems rust_len

section \<open>Rotations, as the standard library has them\<close>

definition rotate_right :: "nat \<Rightarrow> u64 \<Rightarrow> u64" where
  "rotate_right n x = word_rotr n x"

definition rotate_left :: "nat \<Rightarrow> u64 \<Rightarrow> u64" where
  "rotate_left n x = word_rotl n x"

lemma rotate_left_right: "rotate_left n (rotate_right n x) = x"
  by (simp add: rotate_left_def rotate_right_def word_rot_gal)

lemma rotate_right_left: "rotate_right n (rotate_left n x) = x"
  by (simp add: rotate_left_def rotate_right_def word_rot_gal)

section \<open>Little-endian bytes\<close>

text \<open>\<open>w.to_le_bytes()\<close> of an \<open>n\<close>-byte integer and \<open>from_le_bytes\<close>.\<close>

definition le_bytes :: "nat \<Rightarrow> 'a::len word \<Rightarrow> bytes" where
  "le_bytes n w = map (\<lambda>i. ucast (drop_bit (8 * i) w)) [0..<n]"

fun from_le :: "bytes \<Rightarrow> 'a::len word" where
  "from_le [] = 0"
| "from_le (b # bs) = ucast b OR push_bit 8 (from_le bs)"

lemma length_le_bytes [simp, rust_len]: "length (le_bytes n w) = n"
  by (simp add: le_bytes_def)

lemma le_bytes_0 [simp]: "le_bytes 0 w = []"
  by (simp add: le_bytes_def)

lemma le_bytes_Suc: "le_bytes (Suc n) w = ucast w # le_bytes n (drop_bit 8 w)"
  by (simp add: le_bytes_def upt_conv_Cons map_Suc_upt [symmetric] del: upt_Suc)
    (simp add: o_def add.commute)

lemma bit_from_le:
  "bit (from_le bs :: 'a::len word) i \<longleftrightarrow>
     i < LENGTH('a) \<and> i < 8 * length bs \<and> bit (bs ! (i div 8)) (i mod 8)"
proof (induction bs arbitrary: i)
  case Nil
  then show ?case by simp
next
  case (Cons b bs)
  show ?case
  proof (cases "i < 8")
    case True
    then show ?thesis by (auto simp: bit_simps)
  next
    case False
    then have "i div 8 = Suc ((i - 8) div 8)" "i mod 8 = (i - 8) mod 8"
      by (simp_all add: le_div_geq le_mod_geq)
    moreover have "\<not> bit (ucast b :: 'a word) i"
      using False by (auto simp: bit_simps dest: bit_imp_le_length)
    ultimately show ?thesis
      using False Cons.IH [of "i - 8"] by (auto simp: bit_simps)
  qed
qed

lemma le_bytes_from_le:
  assumes "8 * length bs \<le> LENGTH('a)"
  shows "le_bytes (length bs) (from_le bs :: 'a::len word) = bs"
proof (rule nth_equalityI)
  show "length (le_bytes (length bs) (from_le bs :: 'a word)) = length bs" by simp
next
  fix i assume "i < length (le_bytes (length bs) (from_le bs :: 'a word))"
  then have i: "i < length bs" by simp
  show "le_bytes (length bs) (from_le bs :: 'a word) ! i = bs ! i"
  proof (rule bit_word_eqI)
    fix n assume "n < LENGTH(8)"
    then have n: "n < 8" by simp
    have "8 * i + n < 8 * length bs" using i n by simp
    then show "bit (le_bytes (length bs) (from_le bs :: 'a word) ! i) n = bit (bs ! i) n"
      using i n assms by (simp add: le_bytes_def bit_simps bit_from_le)
  qed
qed

lemma from_le_le_bytes: "from_le (le_bytes n w) = take_bit (8 * n) (w :: 'a::len word)"
proof (rule bit_word_eqI)
  fix i assume i: "i < LENGTH('a)"
  show "bit (from_le (le_bytes n w) :: 'a word) i = bit (take_bit (8 * n) w) i"
  proof (cases "i < 8 * n")
    case True
    then have "i div 8 < n" by auto
    moreover have "8 * (i div 8) + i mod 8 = i" by simp
    ultimately show ?thesis using i True
      by (simp add: bit_from_le le_bytes_def bit_simps)
  next
    case False
    then show ?thesis by (simp add: bit_from_le bit_simps)
  qed
qed

lemma take_bit_full: "LENGTH('a) \<le> n \<Longrightarrow> take_bit n (w :: 'a::len word) = w"
  by (rule bit_word_eqI) (simp add: bit_simps)

lemma from_le_le_bytes_u64 [simp]: "from_le (le_bytes 8 (w :: u64)) = w"
  by (simp add: from_le_le_bytes take_bit_full)

lemma from_le_le_bytes_u32 [simp]: "from_le (le_bytes 4 (w :: u32)) = w"
  by (simp add: from_le_le_bytes take_bit_full)

lemma le_bytes_from_le_u64: "length bs = 8 \<Longrightarrow> le_bytes 8 (from_le bs :: u64) = bs"
  using le_bytes_from_le [of bs, where 'a = 64] by simp

lemma le_bytes_from_le_u32: "length bs = 4 \<Longrightarrow> le_bytes 4 (from_le bs :: u32) = bs"
  using le_bytes_from_le [of bs, where 'a = 32] by simp

section \<open>Slices\<close>

text \<open>\<open>&xs[off..off + n]\<close> and \<open>xs[off..off + ys.len()].copy_from_slice(ys)\<close>; both need
  \<open>off + n \<le> xs.len()\<close>, which the lemmas carry as a premise.\<close>

definition slice :: "nat \<Rightarrow> nat \<Rightarrow> 'a list \<Rightarrow> 'a list" where
  "slice off n xs = take n (drop off xs)"

definition splice :: "nat \<Rightarrow> 'a list \<Rightarrow> 'a list \<Rightarrow> 'a list" where
  "splice off ys xs = take off xs @ ys @ drop (off + length ys) xs"

lemma length_slice [simp, rust_len]: "off + n \<le> length xs \<Longrightarrow> length (slice off n xs) = n"
  by (simp add: slice_def)

lemma length_splice [simp, rust_len]:
  "off + length ys \<le> length xs \<Longrightarrow> length (splice off ys xs) = length xs"
  by (simp add: splice_def)

lemma slice_full [simp]: "slice 0 (length xs) xs = xs"
  by (simp add: slice_def)

lemma nth_slice: "off + n \<le> length xs \<Longrightarrow> i < n \<Longrightarrow> slice off n xs ! i = xs ! (off + i)"
  by (simp add: slice_def)

lemma nth_splice:
  "off + length ys \<le> length xs \<Longrightarrow> i < length xs \<Longrightarrow>
     splice off ys xs ! i = (if off \<le> i \<and> i < off + length ys then ys ! (i - off) else xs ! i)"
  by (auto simp: splice_def nth_append min_def)

lemma slice_splice_same:
  "off + length ys \<le> length xs \<Longrightarrow> slice off (length ys) (splice off ys xs) = ys"
  by (simp add: slice_def splice_def)

lemma slice_splice_other:
  assumes "off + length ys \<le> length xs" "o' + n \<le> length xs"
    "o' + n \<le> off \<or> off + length ys \<le> o'"
  shows "slice o' n (splice off ys xs) = slice o' n xs"
proof (rule nth_equalityI)
  show "length (slice o' n (splice off ys xs)) = length (slice o' n xs)"
    using assms by simp
next
  fix i assume "i < length (slice o' n (splice off ys xs))"
  then have "i < n" using assms by simp
  then show "slice o' n (splice off ys xs) ! i = slice o' n xs ! i"
    using assms by (auto simp: nth_slice nth_splice)
qed

section \<open>Words as numbers\<close>

lemma word_and_mask_le: "x AND m \<le> (m :: 'a::len word)"
  by (rule word_and_le1)

lemma unat_and_le: "unat (x AND (m :: 'a::len word)) \<le> unat m"
  by (simp add: word_and_le1 word_le_nat_alt [symmetric])

lemma unat_mod_less: "0 < m \<Longrightarrow> unat (x mod (m :: 'a::len word)) < unat m"
  by (simp add: unat_mod word_gt_0_no unat_gt_0)

lemma unat_lt: "unat (w :: 'a::len word) < 2 ^ LENGTH('a)"
  by (rule unsigned_less)

lemma unat_ucast_up:
  "LENGTH('a) \<le> LENGTH('b) \<Longrightarrow> unat (ucast (x :: 'a::len word) :: 'b::len word) = unat x"
  by (simp add: unsigned_ucast_eq take_bit_nat_eq_self_iff)
    (rule less_le_trans [OF unat_lt], simp)

lemma unat_u8_lt: "unat (b :: u8) < 256"
  using unat_lt [of b] by simp

lemma u8_and_0xf: "(b :: u8) AND 0xf = take_bit 4 b"
  by (simp add: take_bit_eq_mask mask_eq_exp_minus_1)

lemma unat_take_bit_less: "unat (take_bit n (w :: 'a::len word)) < 2 ^ n"
  by (simp add: unsigned_take_bit_eq)

lemma take_bit_if_less: "unat w < 2 ^ n \<Longrightarrow> take_bit n w = (w :: 'a::len word)"
  by (metis unsigned_take_bit_eq take_bit_nat_eq_self word_unat_eq_iff)

section \<open>Results\<close>

text \<open>
  A computation that may panic returns \<open>'e + 'a\<close>, an error on the left; \<open>and_then\<close> chains
  two of them. \<open>post Q E m\<close> says that the value satisfies \<open>Q\<close> or the error satisfies \<open>E\<close>;
  its rules push a postcondition through a chain. \<open>opt_post\<close> does the same for \<open>option\<close>,
  without a condition on \<open>None\<close>; \<open>returns Q m\<close> also rules \<open>None\<close> out.
\<close>

fun and_then :: "'e + 'a \<Rightarrow> ('a \<Rightarrow> 'e + 'b) \<Rightarrow> 'e + 'b" where
  "and_then (Inl e) f = Inl e"
| "and_then (Inr x) f = f x"

fun post :: "('a \<Rightarrow> bool) \<Rightarrow> ('e \<Rightarrow> bool) \<Rightarrow> 'e + 'a \<Rightarrow> bool" where
  "post Q E (Inl e) = E e"
| "post Q E (Inr x) = Q x"

fun returns :: "('a \<Rightarrow> bool) \<Rightarrow> 'a option \<Rightarrow> bool" where
  "returns Q None = False"
| "returns Q (Some x) = Q x"

lemma post_and_then:
  "post R E m \<Longrightarrow> (\<And>x. R x \<Longrightarrow> post Q E (f x)) \<Longrightarrow> post Q E (and_then m f)"
  by (cases m) auto

lemma post_mono:
  "post R D m \<Longrightarrow> (\<And>x. R x \<Longrightarrow> Q x) \<Longrightarrow> (\<And>e. D e \<Longrightarrow> E e) \<Longrightarrow> post Q E m"
  by (cases m) auto

lemma returns_iff: "returns Q m \<longleftrightarrow> (\<exists>x. m = Some x \<and> Q x)"
  by (cases m) auto

lemma returns_bind:
  "returns R m \<Longrightarrow> (\<And>x. R x \<Longrightarrow> returns Q (f x)) \<Longrightarrow> returns Q (Option.bind m f)"
  by (cases m) auto

lemma returns_mono: "returns R m \<Longrightarrow> (\<And>x. R x \<Longrightarrow> Q x) \<Longrightarrow> returns Q m"
  by (cases m) auto

end
