(* ===== verification/Hex.thy ===== *)
theory Hex
  imports Rust_Base
begin

text \<open>
  \<open>src/hex.rs\<close>: hex encoding and decoding. A Rust \<open>&str\<close> is its UTF-8 byte list here
  (\<open>hex_decode\<close> works over \<open>as_bytes()\<close> and \<open>hex_encode\<close> only pushes ASCII), so the
  model covers strings with multi-byte characters as well. The lemmas give the round trips
  in both directions, the exact set of accepted inputs, and the case insensitivity.
\<close>

section \<open>hex_encode\<close>

text \<open>The table \<open>b"0123456789abcdef"\<close>.\<close>

definition HEX :: bytes where
  "HEX = [0x30, 0x31, 0x32, 0x33, 0x34, 0x35, 0x36, 0x37, 0x38, 0x39,
          0x61, 0x62, 0x63, 0x64, 0x65, 0x66]"

fun hex_encode :: "bytes \<Rightarrow> bytes" where
  "hex_encode [] = []"
| "hex_encode (b # bs) = HEX ! unat (drop_bit 4 b) # HEX ! unat (b AND 0xf) # hex_encode bs"

section \<open>hex_decode\<close>

definition nibble :: "u8 \<Rightarrow> u8 option" where
  "nibble c =
     (if 0x30 \<le> c \<and> c \<le> 0x39 then Some (c - 0x30)
      else if 0x61 \<le> c \<and> c \<le> 0x66 then Some (c - 0x61 + 10)
      else if 0x41 \<le> c \<and> c \<le> 0x46 then Some (c - 0x41 + 10)
      else None)"

text \<open>The loop over \<open>chunks_exact(2)\<close>; a trailing single byte is not a chunk.\<close>

fun hex_pairs :: "bytes \<Rightarrow> bytes option" where
  "hex_pairs (a # b # rest) =
     (case nibble a of None \<Rightarrow> None
      | Some hi \<Rightarrow> (case nibble b of None \<Rightarrow> None
        | Some lo \<Rightarrow> map_option (\<lambda>bs. (push_bit 4 hi OR lo) # bs) (hex_pairs rest)))"
| "hex_pairs _ = Some []"

definition hex_decode :: "bytes \<Rightarrow> bytes option" where
  "hex_decode h = (if even (length h) then hex_pairs h else None)"

section \<open>Digits\<close>

lemma word8_cases: "\<exists>n < 256. (c :: u8) = of_nat n"
  by (rule exI [of _ "unat c"]) (use unat_u8_lt [of c] in simp)

lemma nibble_HEX_all: "\<forall>n \<in> set [0..<16]. nibble (HEX ! n) = Some (of_nat n)"
  by code_simp

lemma nibble_HEX: "n < 16 \<Longrightarrow> nibble (HEX ! n) = Some (of_nat n)"
  using nibble_HEX_all by simp

lemma unat_nibble_hi: "unat (drop_bit 4 (b :: u8)) < 16"
proof -
  have "unat (drop_bit 4 b) = drop_bit 4 (unat b)" by (rule unat_drop_bit_eq)
  also have "\<dots> = unat b div 16" unfolding drop_bit_eq_div by simp
  finally show ?thesis using unat_u8_lt [of b] by linarith
qed

lemma unat_nibble_lo: "unat ((b :: u8) AND 0xf) < 16"
  using unat_and_le [of b "0xf"] by simp

lemma nibbles_join: "push_bit 4 (drop_bit 4 b) OR (b AND 0xf) = (b :: u8)"
proof (rule bit_word_eqI)
  fix n assume "n < LENGTH(8)"
  then have "n < 8" by simp
  then show "bit (push_bit 4 (drop_bit 4 b) OR (b AND 0xf)) n = bit b n"
    unfolding u8_and_0xf by (auto simp: bit_simps)
qed

section \<open>Round trips\<close>

lemma length_hex_encode [simp, rust_len]: "length (hex_encode bs) = 2 * length bs"
  by (induction bs) auto

lemma hex_pairs_encode: "hex_pairs (hex_encode bs) = Some bs"
  by (induction bs)
    (simp_all add: nibble_HEX unat_nibble_hi unat_nibble_lo nibbles_join)

lemma hex_decode_encode_gen: "hex_decode (hex_encode bs) = Some bs"
  by (simp add: hex_decode_def hex_pairs_encode)

text \<open>The hex digits as characters, whatever \<open>nibble\<close> makes of them: \<open>0\<close> to \<open>9\<close>, \<open>a\<close> to \<open>f\<close> and
  \<open>A\<close> to \<open>F\<close>.\<close>

definition hex_digit :: "u8 \<Rightarrow> bool" where
  "hex_digit c \<longleftrightarrow> c \<in> {0x30..0x39} \<or> c \<in> {0x61..0x66} \<or> c \<in> {0x41..0x46}"

lemma hex_digit_nibble: "hex_digit c \<longleftrightarrow> nibble c \<noteq> None"
  by (auto simp: hex_digit_def nibble_def)

lemma hex_pairs_Some_iff:
  "even (length h) \<Longrightarrow> (\<exists>bs. hex_pairs h = Some bs) \<longleftrightarrow> list_all hex_digit h"
  by (induction h rule: hex_pairs.induct) (auto simp: hex_digit_nibble split: option.splits)

lemma length_hex_pairs: "even (length h) \<Longrightarrow> hex_pairs h = Some bs \<Longrightarrow> length h = 2 * length bs"
  by (induction h arbitrary: bs rule: hex_pairs.induct) (auto split: option.splits)

text \<open>\<open>to_ascii_lowercase\<close> on one byte; decoding then encoding normalises to it.\<close>

definition to_lower :: "u8 \<Rightarrow> u8" where
  "to_lower c = (if 0x41 \<le> c \<and> c \<le> 0x5a then c + 0x20 else c)"

lemma nibble_lower_all:
  "\<forall>n \<in> set [0..<256].
     (case nibble (of_nat n) of None \<Rightarrow> True
      | Some v \<Rightarrow> unat v < 16 \<and> HEX ! unat v = to_lower (of_nat n))"
  by code_simp

lemma nibble_lower: "nibble c = Some v \<Longrightarrow> unat v < 16 \<and> HEX ! unat v = to_lower c"
  using nibble_lower_all word8_cases [of c] by force

lemma join_nibbles_hi:
  assumes "unat hi < 16" "unat lo < 16"
  shows "drop_bit 4 (push_bit 4 hi) OR drop_bit 4 lo = (hi :: u8)"
proof (rule bit_word_eqI)
  have hi: "take_bit 4 hi = hi" and lo: "take_bit 4 lo = lo"
    using assms by (simp_all add: take_bit_if_less)
  fix n
  have "\<not> bit lo (4 + n)" by (subst lo [symmetric]) (simp add: bit_simps)
  moreover have "bit hi n \<Longrightarrow> n < 4" by (subst (asm) hi [symmetric]) (simp add: bit_simps)
  ultimately show "bit (drop_bit 4 (push_bit 4 hi) OR drop_bit 4 lo) n = bit hi n"
    by (auto simp: bit_simps)
qed

lemma join_nibbles_lo:
  assumes "unat lo < 16"
  shows "(push_bit 4 hi OR lo) AND 0xf = (lo :: u8)"
proof (rule bit_word_eqI)
  have lo: "take_bit 4 lo = lo"
    using assms by (simp add: take_bit_if_less)
  fix n
  have "bit lo n \<Longrightarrow> n < 4" by (subst (asm) lo [symmetric]) (simp add: bit_simps)
  then show "bit ((push_bit 4 hi OR lo) AND 0xf) n = bit lo n"
    unfolding u8_and_0xf by (auto simp: bit_simps)
qed

lemma hex_encode_pairs:
  "even (length h) \<Longrightarrow> hex_pairs h = Some bs \<Longrightarrow> hex_encode bs = map to_lower h"
  by (induction h arbitrary: bs rule: hex_pairs.induct)
    (auto split: option.splits dest!: nibble_lower simp: join_nibbles_hi join_nibbles_lo)

end
