(* ===== verification/Donate.thy ===== *)
theory Donate
  imports Rust_Base
begin

text \<open>
  \<open>src/donate.rs\<close>: the donation schedule. The level is a \<open>u8\<close>, the times are \<open>u64\<close>
  seconds; both are natural numbers here (\<open>6000 * 100\<close> and \<open>elapsed mod 6000\<close> stay far
  below \<open>2 ^ 64\<close>). The lemmas show that the clamped level is always in range, that each
  slice of the 6000-second cycle has the promised length, and that the schedule is periodic.
\<close>

definition DEFAULT_DONATE_LEVEL :: nat where "DEFAULT_DONATE_LEVEL = 5"
definition MIN_DONATE_LEVEL :: nat where "MIN_DONATE_LEVEL = 1"
definition MAX_DONATE_LEVEL :: nat where "MAX_DONATE_LEVEL = 100"
definition CYCLE_SECS :: nat where "CYCLE_SECS = 100 * 60"

lemmas donate_consts =
  DEFAULT_DONATE_LEVEL_def MIN_DONATE_LEVEL_def MAX_DONATE_LEVEL_def CYCLE_SECS_def

text \<open>\<open>level.clamp(MIN, MAX)\<close>.\<close>

definition clamp_level :: "nat \<Rightarrow> nat" where
  "clamp_level level =
     (if level < MIN_DONATE_LEVEL then MIN_DONATE_LEVEL
      else if MAX_DONATE_LEVEL < level then MAX_DONATE_LEVEL else level)"

datatype beneficiary = User | Author | Xmrig

record donation_schedule =
  sched_level :: nat

definition donation_new :: "nat \<Rightarrow> donation_schedule" where
  "donation_new level = \<lparr>sched_level = clamp_level level\<rparr>"

definition beneficiary_at :: "donation_schedule \<Rightarrow> nat \<Rightarrow> beneficiary" where
  "beneficiary_at s elapsed_secs =
     (let t = elapsed_secs mod CYCLE_SECS;
          donate = CYCLE_SECS * sched_level s div 100;
          author = donate div 2;
          user = CYCLE_SECS - donate
      in if t < user then User
         else if t < user + author then Author
         else Xmrig)"

section \<open>The clamp\<close>

lemma clamp_level_range: "MIN_DONATE_LEVEL \<le> clamp_level n \<and> clamp_level n \<le> MAX_DONATE_LEVEL"
  by (simp add: clamp_level_def donate_consts)

lemma clamp_level_id:
  "MIN_DONATE_LEVEL \<le> n \<Longrightarrow> n \<le> MAX_DONATE_LEVEL \<Longrightarrow> clamp_level n = n"
  by (simp add: clamp_level_def)

lemma sched_level_new [simp]: "sched_level (donation_new n) = clamp_level n"
  by (simp add: donation_new_def)

section \<open>The slices of one cycle\<close>

text \<open>\<open>cycle_share s w\<close> counts the seconds of one cycle that belong to \<open>w\<close>.\<close>

definition cycle_share :: "donation_schedule \<Rightarrow> beneficiary \<Rightarrow> nat" where
  "cycle_share s w = card {t. t < CYCLE_SECS \<and> beneficiary_at s t = w}"

lemma beneficiary_in_cycle:
  assumes "sched_level s \<le> 100" "t < CYCLE_SECS"
  shows "beneficiary_at s t =
     (if t < 6000 - 60 * sched_level s then User
      else if t < 6000 - 60 * sched_level s + 30 * sched_level s then Author else Xmrig)"
  using assms by (simp add: beneficiary_at_def Let_def CYCLE_SECS_def)

lemma cycle_share_user:
  assumes "sched_level s \<le> 100"
  shows "cycle_share s User = 6000 - 60 * sched_level s"
proof -
  have "{t. t < CYCLE_SECS \<and> beneficiary_at s t = User} = {..<6000 - 60 * sched_level s}"
    using assms by (auto simp: beneficiary_in_cycle CYCLE_SECS_def split: if_splits)
  then show ?thesis by (simp add: cycle_share_def)
qed

lemma cycle_share_author:
  assumes "sched_level s \<le> 100"
  shows "cycle_share s Author = 30 * sched_level s"
proof -
  have "{t. t < CYCLE_SECS \<and> beneficiary_at s t = Author} =
      {6000 - 60 * sched_level s..<6000 - 60 * sched_level s + 30 * sched_level s}"
    using assms by (auto simp: beneficiary_in_cycle CYCLE_SECS_def split: if_splits)
  then show ?thesis by (simp add: cycle_share_def)
qed

lemma cycle_share_xmrig:
  assumes "sched_level s \<le> 100"
  shows "cycle_share s Xmrig = 30 * sched_level s"
proof -
  have "{t. t < CYCLE_SECS \<and> beneficiary_at s t = Xmrig} =
      {6000 - 60 * sched_level s + 30 * sched_level s..<6000}"
    using assms by (auto simp: beneficiary_in_cycle CYCLE_SECS_def split: if_splits)
  moreover have "60 * sched_level s \<le> 6000" using assms by simp
  ultimately show ?thesis by (simp add: cycle_share_def)
qed

lemma beneficiary_periodic: "beneficiary_at s (t + CYCLE_SECS * k) = beneficiary_at s t"
  by (simp add: beneficiary_at_def Let_def)

end
