(* ===== verification/Aes_Spec.thy ===== *)
theory Aes_Spec
  imports Soft_Aes
begin

text \<open>
  The AES round of FIPS-197 on the 16 state bytes in column order, and the proof that the
  table look-ups of \<open>soft_aes.rs\<close> compute it: \<open>soft_aesenc\<close> is SubBytes, ShiftRows,
  MixColumns, AddRoundKey, and \<open>soft_aesdec\<close> the inverse cipher's round (InvShiftRows,
  InvSubBytes, InvMixColumns, AddRoundKey), the two rounds of the \<open>AESENC\<close> and \<open>AESDEC\<close>
  instructions. The multiplications by 2, 3, 9, 11, 13 and 14 are those of
  GF(2^8) modulo \<open>x^8 + x^4 + x^3 + x + 1\<close>.
\<close>

section \<open>The substitution boxes\<close>

definition SBOX :: "u8 list" where
  "SBOX =
    [0x63, 0x7c, 0x77, 0x7b, 0xf2, 0x6b, 0x6f, 0xc5, 0x30, 0x01, 0x67, 0x2b, 0xfe, 0xd7, 0xab, 0x76,
     0xca, 0x82, 0xc9, 0x7d, 0xfa, 0x59, 0x47, 0xf0, 0xad, 0xd4, 0xa2, 0xaf, 0x9c, 0xa4, 0x72, 0xc0,
     0xb7, 0xfd, 0x93, 0x26, 0x36, 0x3f, 0xf7, 0xcc, 0x34, 0xa5, 0xe5, 0xf1, 0x71, 0xd8, 0x31, 0x15,
     0x04, 0xc7, 0x23, 0xc3, 0x18, 0x96, 0x05, 0x9a, 0x07, 0x12, 0x80, 0xe2, 0xeb, 0x27, 0xb2, 0x75,
     0x09, 0x83, 0x2c, 0x1a, 0x1b, 0x6e, 0x5a, 0xa0, 0x52, 0x3b, 0xd6, 0xb3, 0x29, 0xe3, 0x2f, 0x84,
     0x53, 0xd1, 0x00, 0xed, 0x20, 0xfc, 0xb1, 0x5b, 0x6a, 0xcb, 0xbe, 0x39, 0x4a, 0x4c, 0x58, 0xcf,
     0xd0, 0xef, 0xaa, 0xfb, 0x43, 0x4d, 0x33, 0x85, 0x45, 0xf9, 0x02, 0x7f, 0x50, 0x3c, 0x9f, 0xa8,
     0x51, 0xa3, 0x40, 0x8f, 0x92, 0x9d, 0x38, 0xf5, 0xbc, 0xb6, 0xda, 0x21, 0x10, 0xff, 0xf3, 0xd2,
     0xcd, 0x0c, 0x13, 0xec, 0x5f, 0x97, 0x44, 0x17, 0xc4, 0xa7, 0x7e, 0x3d, 0x64, 0x5d, 0x19, 0x73,
     0x60, 0x81, 0x4f, 0xdc, 0x22, 0x2a, 0x90, 0x88, 0x46, 0xee, 0xb8, 0x14, 0xde, 0x5e, 0x0b, 0xdb,
     0xe0, 0x32, 0x3a, 0x0a, 0x49, 0x06, 0x24, 0x5c, 0xc2, 0xd3, 0xac, 0x62, 0x91, 0x95, 0xe4, 0x79,
     0xe7, 0xc8, 0x37, 0x6d, 0x8d, 0xd5, 0x4e, 0xa9, 0x6c, 0x56, 0xf4, 0xea, 0x65, 0x7a, 0xae, 0x08,
     0xba, 0x78, 0x25, 0x2e, 0x1c, 0xa6, 0xb4, 0xc6, 0xe8, 0xdd, 0x74, 0x1f, 0x4b, 0xbd, 0x8b, 0x8a,
     0x70, 0x3e, 0xb5, 0x66, 0x48, 0x03, 0xf6, 0x0e, 0x61, 0x35, 0x57, 0xb9, 0x86, 0xc1, 0x1d, 0x9e,
     0xe1, 0xf8, 0x98, 0x11, 0x69, 0xd9, 0x8e, 0x94, 0x9b, 0x1e, 0x87, 0xe9, 0xce, 0x55, 0x28, 0xdf,
     0x8c, 0xa1, 0x89, 0x0d, 0xbf, 0xe6, 0x42, 0x68, 0x41, 0x99, 0x2d, 0x0f, 0xb0, 0x54, 0xbb, 0x16]"

definition INV_SBOX :: "u8 list" where
  "INV_SBOX =
    [0x52, 0x09, 0x6a, 0xd5, 0x30, 0x36, 0xa5, 0x38, 0xbf, 0x40, 0xa3, 0x9e, 0x81, 0xf3, 0xd7, 0xfb,
     0x7c, 0xe3, 0x39, 0x82, 0x9b, 0x2f, 0xff, 0x87, 0x34, 0x8e, 0x43, 0x44, 0xc4, 0xde, 0xe9, 0xcb,
     0x54, 0x7b, 0x94, 0x32, 0xa6, 0xc2, 0x23, 0x3d, 0xee, 0x4c, 0x95, 0x0b, 0x42, 0xfa, 0xc3, 0x4e,
     0x08, 0x2e, 0xa1, 0x66, 0x28, 0xd9, 0x24, 0xb2, 0x76, 0x5b, 0xa2, 0x49, 0x6d, 0x8b, 0xd1, 0x25,
     0x72, 0xf8, 0xf6, 0x64, 0x86, 0x68, 0x98, 0x16, 0xd4, 0xa4, 0x5c, 0xcc, 0x5d, 0x65, 0xb6, 0x92,
     0x6c, 0x70, 0x48, 0x50, 0xfd, 0xed, 0xb9, 0xda, 0x5e, 0x15, 0x46, 0x57, 0xa7, 0x8d, 0x9d, 0x84,
     0x90, 0xd8, 0xab, 0x00, 0x8c, 0xbc, 0xd3, 0x0a, 0xf7, 0xe4, 0x58, 0x05, 0xb8, 0xb3, 0x45, 0x06,
     0xd0, 0x2c, 0x1e, 0x8f, 0xca, 0x3f, 0x0f, 0x02, 0xc1, 0xaf, 0xbd, 0x03, 0x01, 0x13, 0x8a, 0x6b,
     0x3a, 0x91, 0x11, 0x41, 0x4f, 0x67, 0xdc, 0xea, 0x97, 0xf2, 0xcf, 0xce, 0xf0, 0xb4, 0xe6, 0x73,
     0x96, 0xac, 0x74, 0x22, 0xe7, 0xad, 0x35, 0x85, 0xe2, 0xf9, 0x37, 0xe8, 0x1c, 0x75, 0xdf, 0x6e,
     0x47, 0xf1, 0x1a, 0x71, 0x1d, 0x29, 0xc5, 0x89, 0x6f, 0xb7, 0x62, 0x0e, 0xaa, 0x18, 0xbe, 0x1b,
     0xfc, 0x56, 0x3e, 0x4b, 0xc6, 0xd2, 0x79, 0x20, 0x9a, 0xdb, 0xc0, 0xfe, 0x78, 0xcd, 0x5a, 0xf4,
     0x1f, 0xdd, 0xa8, 0x33, 0x88, 0x07, 0xc7, 0x31, 0xb1, 0x12, 0x10, 0x59, 0x27, 0x80, 0xec, 0x5f,
     0x60, 0x51, 0x7f, 0xa9, 0x19, 0xb5, 0x4a, 0x0d, 0x2d, 0xe5, 0x7a, 0x9f, 0x93, 0xc9, 0x9c, 0xef,
     0xa0, 0xe0, 0x3b, 0x4d, 0xae, 0x2a, 0xf5, 0xb0, 0xc8, 0xeb, 0xbb, 0x3c, 0x83, 0x53, 0x99, 0x61,
     0x17, 0x2b, 0x04, 0x7e, 0xba, 0x77, 0xd6, 0x26, 0xe1, 0x69, 0x14, 0x63, 0x55, 0x21, 0x0c, 0x7d]"

lemma length_SBOX [simp]: "length SBOX = 256" by (simp add: SBOX_def)
lemma length_INV_SBOX [simp]: "length INV_SBOX = 256" by (simp add: INV_SBOX_def)

definition sub_byte :: "u8 \<Rightarrow> u8" where "sub_byte b = SBOX ! unat b"
definition inv_sub_byte :: "u8 \<Rightarrow> u8" where "inv_sub_byte b = INV_SBOX ! unat b"

section \<open>Multiplication in GF(2^8)\<close>

definition xtime :: "u8 \<Rightarrow> u8" where
  "xtime b = (if bit b 7 then push_bit 1 b XOR 0x1b else push_bit 1 b)"

definition mul3 :: "u8 \<Rightarrow> u8" where "mul3 b = xtime b XOR b"
definition mul9 :: "u8 \<Rightarrow> u8" where "mul9 b = xtime (xtime (xtime b)) XOR b"
definition mul11 :: "u8 \<Rightarrow> u8" where "mul11 b = xtime (xtime (xtime b) XOR b) XOR b"
definition mul13 :: "u8 \<Rightarrow> u8" where "mul13 b = xtime (xtime (xtime b XOR b)) XOR b"
definition mul14 :: "u8 \<Rightarrow> u8" where "mul14 b = xtime (xtime (xtime b XOR b) XOR b)"

section \<open>The round\<close>

definition xor_bytes :: "bytes \<Rightarrow> bytes \<Rightarrow> bytes" where
  "xor_bytes a b = map2 (\<lambda>x y. x XOR y) a b"

definition sub_bytes :: "bytes \<Rightarrow> bytes" where
  "sub_bytes s = map sub_byte s"

definition inv_sub_bytes :: "bytes \<Rightarrow> bytes" where
  "inv_sub_bytes s = map inv_sub_byte s"

text \<open>Byte \<open>4 * c + r\<close> is row \<open>r\<close> of column \<open>c\<close>.\<close>

definition shift_rows :: "bytes \<Rightarrow> bytes" where
  "shift_rows s = map (\<lambda>i. s ! (4 * ((i div 4 + i mod 4) mod 4) + i mod 4)) [0..<16]"

definition inv_shift_rows :: "bytes \<Rightarrow> bytes" where
  "inv_shift_rows s = map (\<lambda>i. s ! (4 * ((i div 4 + 4 - i mod 4) mod 4) + i mod 4)) [0..<16]"

fun mix_column :: "bytes \<Rightarrow> bytes" where
  "mix_column [a, b, c, d] =
     [xtime a XOR mul3 b XOR c XOR d, a XOR xtime b XOR mul3 c XOR d,
      a XOR b XOR xtime c XOR mul3 d, mul3 a XOR b XOR c XOR xtime d]"
| "mix_column s = s"

fun inv_mix_column :: "bytes \<Rightarrow> bytes" where
  "inv_mix_column [a, b, c, d] =
     [mul14 a XOR mul11 b XOR mul13 c XOR mul9 d, mul9 a XOR mul14 b XOR mul11 c XOR mul13 d,
      mul13 a XOR mul9 b XOR mul14 c XOR mul11 d, mul11 a XOR mul13 b XOR mul9 c XOR mul14 d]"
| "inv_mix_column s = s"

definition mix_columns :: "bytes \<Rightarrow> bytes" where
  "mix_columns s = concat (map (\<lambda>c. mix_column (slice (4 * c) 4 s)) [0..<4])"

definition inv_mix_columns :: "bytes \<Rightarrow> bytes" where
  "inv_mix_columns s = concat (map (\<lambda>c. inv_mix_column (slice (4 * c) 4 s)) [0..<4])"

definition aes_enc_round :: "bytes \<Rightarrow> bytes \<Rightarrow> bytes" where
  "aes_enc_round s k = xor_bytes (mix_columns (shift_rows (sub_bytes s))) k"

definition aes_dec_round :: "bytes \<Rightarrow> bytes \<Rightarrow> bytes" where
  "aes_dec_round s k = xor_bytes (inv_mix_columns (inv_sub_bytes (inv_shift_rows s))) k"

section \<open>The tables\<close>

text \<open>Each entry is the column that one byte contributes, little-endian. \<open>inv_col\<close> computes
  the four products of a column with shared doublings.\<close>

definition enc_col :: "u8 \<Rightarrow> bytes" where
  "enc_col s = [xtime s, s, s, mul3 s]"

definition inv_col :: "u8 \<Rightarrow> bytes" where
  "inv_col s =
     (let s2 = xtime s; s4 = xtime s2; s8 = xtime s4
      in [s8 XOR s4 XOR s2, s8 XOR s, s8 XOR s4 XOR s, s8 XOR s2 XOR s])"

lemma TE0_map: "TE0 = map (\<lambda>s. from_le (enc_col s)) SBOX" by code_simp
lemma TD0_map: "TD0 = map (\<lambda>s. from_le (inv_col s)) INV_SBOX" by code_simp

text \<open>The other tables are byte rotations of the first.\<close>

lemma TE1_rot: "TE1 = map (word_rotl 8) TE0" by code_simp
lemma TE2_rot: "TE2 = map (word_rotl 8) TE1" by code_simp
lemma TE3_rot: "TE3 = map (word_rotl 8) TE2" by code_simp
lemma TD1_rot: "TD1 = map (word_rotl 8) TD0" by code_simp
lemma TD2_rot: "TD2 = map (word_rotl 8) TD1" by code_simp
lemma TD3_rot: "TD3 = map (word_rotl 8) TD2" by code_simp

lemma INV_SBOX_SBOX: "map (\<lambda>s. unat (INV_SBOX ! unat s)) SBOX = [0..<256]"
  by code_simp

lemma xtime_xor: "xtime (a XOR b) = xtime a XOR xtime b"
proof (rule bit_word_eqI)
  fix n assume "n < LENGTH(8)"
  show "bit (xtime (a XOR b)) n = bit (xtime a XOR xtime b) n"
    by (auto simp: xtime_def bit_simps)
qed

lemma inv_col_mul: "inv_col s = [mul14 s, mul9 s, mul13 s, mul11 s]"
  by (simp add: inv_col_def mul9_def mul11_def mul13_def mul14_def xtime_xor Let_def xor.assoc)

lemma enc_col_def': "enc_col s = [xtime s, s, s, mul3 s]"
  by (simp add: enc_col_def)

lemma word_rotl_from_le:
  "word_rotl 8 (from_le [a, b, c, d] :: u32) = from_le [d, a, b, c]"
proof (rule bit_word_eqI)
  fix n assume "n < LENGTH(32)"
  then have n: "n < 32" by simp
  define q r where "q = n div 8" and "r = n mod 8"
  have nqr: "n = 8 * q + r" "r < 8" "q < 4"
    using n by (auto simp: q_def r_def)
  then have "q = 0 \<or> q = 1 \<or> q = 2 \<or> q = 3" by auto
  moreover have "(n + 24) mod 32 = (if q = 0 then r + 24 else 8 * (q - 1) + r)"
  proof (cases "q = 0")
    case True
    then show ?thesis using nqr by simp
  next
    case False
    then have "n + 24 = 32 + (8 * (q - 1) + r)" using nqr by (cases q) auto
    moreover have "8 * (q - 1) + r < 32" using nqr by auto
    ultimately show ?thesis using False by simp
  qed
  moreover have "(r + 24) mod 8 = r" using nqr(2) by presburger
  ultimately show "bit (word_rotl 8 (from_le [a, b, c, d] :: u32)) n =
      bit (from_le [d, a, b, c] :: u32) n"
    using nqr by (auto simp: bit_word_rotl_iff bit_from_le simp del: from_le.simps)
qed

section \<open>Look-ups give columns\<close>

lemma byte_of_from_le:
  "byte0 (from_le [a, b, c, d]) = unat a" "byte1 (from_le [a, b, c, d]) = unat b"
  "byte2 (from_le [a, b, c, d]) = unat c" "byte3 (from_le [a, b, c, d]) = unat d"
proof -
  have and_ff: "x AND 0xff = take_bit 8 x" for x :: u32
    by (simp add: take_bit_eq_mask mask_eq_exp_minus_1)
  have ext: "unat (take_bit 8 (drop_bit (8 * i) (from_le [a, b, c, d] :: u32))) = unat ([a, b, c, d] ! i)"
    if "i < 4" for i
  proof -
    have "take_bit 8 (drop_bit (8 * i) (from_le [a, b, c, d] :: u32)) = ucast ([a, b, c, d] ! i)"
    proof (rule bit_word_eqI)
      fix j assume "j < LENGTH(32)"
      show "bit (take_bit 8 (drop_bit (8 * i) (from_le [a, b, c, d] :: u32))) j =
          bit (ucast ([a, b, c, d] ! i) :: u32) j"
      proof (cases "j < 8")
        case True
        then have "(8 * i + j) div 8 = i" "(8 * i + j) mod 8 = j" "8 * i + j < 32"
          using that by simp_all
        then show ?thesis
          using True by (simp add: bit_take_bit_iff bit_drop_bit_eq bit_from_le bit_ucast_iff
              del: from_le.simps)
      next
        case False
        then show ?thesis by (auto simp: bit_simps dest: bit_imp_le_length)
      qed
    qed
    then show ?thesis by (simp add: unat_ucast_up)
  qed
  have d24: "drop_bit 24 x = take_bit 8 (drop_bit 24 x)" for x :: u32
    by (rule bit_word_eqI) (auto simp: bit_simps dest: bit_imp_le_length)
  show "byte0 (from_le [a, b, c, d]) = unat a" "byte1 (from_le [a, b, c, d]) = unat b"
    "byte2 (from_le [a, b, c, d]) = unat c"
    unfolding byte0_def byte1_def byte2_def and_ff using ext [of 0] ext [of 1] ext [of 2] by auto
  show "byte3 (from_le [a, b, c, d]) = unat d"
    unfolding byte3_def using ext [of 3] by (subst d24) auto
qed

lemma TE_lookup:
  fixes b :: u8
  defines "s \<equiv> sub_byte b"
  shows "TE0 ! unat b = from_le [xtime s, s, s, mul3 s]"
    "TE1 ! unat b = from_le [mul3 s, xtime s, s, s]"
    "TE2 ! unat b = from_le [s, mul3 s, xtime s, s]"
    "TE3 ! unat b = from_le [s, s, mul3 s, xtime s]"
  using unat_u8_lt [of b]
  by (simp_all add: TE3_rot TE2_rot TE1_rot TE0_map enc_col_def word_rotl_from_le s_def sub_byte_def
      del: from_le.simps)

lemma TD_lookup:
  fixes b :: u8
  defines "s \<equiv> inv_sub_byte b"
  shows "TD0 ! unat b = from_le [mul14 s, mul9 s, mul13 s, mul11 s]"
    "TD1 ! unat b = from_le [mul11 s, mul14 s, mul9 s, mul13 s]"
    "TD2 ! unat b = from_le [mul13 s, mul11 s, mul14 s, mul9 s]"
    "TD3 ! unat b = from_le [mul9 s, mul13 s, mul11 s, mul14 s]"
  using unat_u8_lt [of b]
  by (simp_all add: TD3_rot TD2_rot TD1_rot TD0_map inv_col_mul word_rotl_from_le s_def
      inv_sub_byte_def del: from_le.simps)

text \<open>XOR of words is XOR of their bytes.\<close>

lemma from_le_xor_map2:
  assumes "length xs = length ys"
  shows "from_le xs XOR from_le ys = (from_le (map2 (\<lambda>x y. x XOR y) xs ys) :: 'a::len word)"
proof (rule bit_word_eqI)
  fix i assume "i < LENGTH('a)"
  moreover have "i < 8 * length ys \<Longrightarrow> i div 8 < length ys" by auto
  ultimately show "bit (from_le xs XOR from_le ys :: 'a word) i =
      bit (from_le (map2 (\<lambda>x y. x XOR y) xs ys) :: 'a word) i"
    using assms by (auto simp: bit_xor_iff bit_from_le)
qed

lemma from_le_xor:
  "from_le [a, b, c, d] XOR from_le [a', b', c', d'] =
     (from_le [a XOR a', b XOR b', c XOR c', d XOR d'] :: u32)"
  by (subst from_le_xor_map2) simp_all

lemma le_bytes_from_le4: "le_bytes 4 (from_le [a, b, c, d] :: u32) = [a, b, c, d]"
  using le_bytes_from_le_u32 [of "[a, b, c, d]"] by simp

lemma splice_list4:
  "splice 0 [a0, a1, a2, a3] (splice 4 [a4, a5, a6, a7] (splice 8 [a8, a9, a10, a11]
     (splice 12 [a12, a13, a14, a15] (replicate 16 (0 :: u8))))) =
   [a0, a1, a2, a3, a4, a5, a6, a7, a8, a9, a10, a11, a12, a13, a14, a15]"
  by (simp add: splice_def numeral_eq_Suc)

lemma list16:
  assumes "length xs = 16"
  shows "\<exists>a0 a1 a2 a3 a4 a5 a6 a7 a8 a9 a10 a11 a12 a13 a14 a15.
    xs = [a0, a1, a2, a3, a4, a5, a6, a7, a8, a9, a10, a11, a12, a13, a14, a15]"
  using assms by (simp add: numeral_eq_Suc length_Suc_conv) blast

lemma word_at_list:
  "word_at [a0, a1, a2, a3, a4, a5, a6, a7, a8, a9, a10, a11, a12, a13, a14, a15] 0 =
     from_le [a0, a1, a2, a3]"
  "word_at [a0, a1, a2, a3, a4, a5, a6, a7, a8, a9, a10, a11, a12, a13, a14, a15] 4 =
     from_le [a4, a5, a6, a7]"
  "word_at [a0, a1, a2, a3, a4, a5, a6, a7, a8, a9, a10, a11, a12, a13, a14, a15] 8 =
     from_le [a8, a9, a10, a11]"
  "word_at [a0, a1, a2, a3, a4, a5, a6, a7, a8, a9, a10, a11, a12, a13, a14, a15] 12 =
     from_le [a12, a13, a14, a15]"
  by (simp_all add: word_at_def del: from_le.simps)

section \<open>The table rounds are the AES rounds\<close>

lemma upt_4: "[0..<4] = [0, 1, 2, 3 :: nat]" by (simp add: upt_rec)
lemma upt_16: "[0..<16] = [0, 1, 2, 3, 4, 5, 6, 7, 8, 9, 10, 11, 12, 13, 14, 15 :: nat]"
  by (simp add: upt_rec)

lemmas round_list_simps = splice_list4 le_bytes_from_le4 from_le_xor byte_of_from_le word_at_list
  xor_bytes_def slice_def upt_4 upt_16

lemma soft_aesenc_round:
  assumes "length s = 16" "length k = 16"
  shows "soft_aesenc s k = aes_enc_round s k"
  using list16 [OF assms(1)] list16 [OF assms(2)]
  by (auto simp: soft_aesenc_def aes_enc_round_def mix_columns_def shift_rows_def sub_bytes_def
      Let_def round_list_simps TE_lookup xor.assoc simp del: from_le.simps) (simp_all add: ac_simps)?

lemma soft_aesdec_round:
  assumes "length s = 16" "length k = 16"
  shows "soft_aesdec s k = aes_dec_round s k"
  using list16 [OF assms(1)] list16 [OF assms(2)]
  by (auto simp: soft_aesdec_def aes_dec_round_def inv_mix_columns_def inv_shift_rows_def
      inv_sub_bytes_def Let_def round_list_simps TD_lookup xor.assoc simp del: from_le.simps)
    (simp_all add: ac_simps)?

end
