(* ===== verification/Aes_Hash.thy ===== *)
theory Aes_Hash
  imports Aes_Spec
begin

text \<open>
  \<open>src/randomx/aes_hash.rs\<close>: the AES generators and the AES hash, in the three versions of
  the code: by tables, with the NEON intrinsics and with the AES-NI intrinsics. The
  intrinsics are given by their instruction descriptions in terms of the rounds of
  \<open>Aes_Spec\<close>. The bodies of the three versions are the same up to the round function and
  the loop counter (a byte offset, or for AES-NI an index of 64-byte groups), so they share
  their loop bodies here; \<open>aes_rounds\<close> is the interface of a pair of round functions.
  Mutable slices are passed in and returned.
\<close>

section \<open>Constants\<close>

definition key_from_u32s :: "u32 \<Rightarrow> u32 \<Rightarrow> u32 \<Rightarrow> u32 \<Rightarrow> bytes" where
  "key_from_u32s a b c d = le_bytes 4 d @ le_bytes 4 c @ le_bytes 4 b @ le_bytes 4 a"

definition GEN_1R_KEY0 :: bytes where
  "GEN_1R_KEY0 = key_from_u32s 0xb4f44917 0xdbb5552b 0x62716609 0x6daca553"
definition GEN_1R_KEY1 :: bytes where
  "GEN_1R_KEY1 = key_from_u32s 0x0da1dc4e 0x1725d378 0x846a710d 0x6d7caf07"
definition GEN_1R_KEY2 :: bytes where
  "GEN_1R_KEY2 = key_from_u32s 0x3e20e345 0xf4c0794f 0x9f947ec6 0x3f1262f1"
definition GEN_1R_KEY3 :: bytes where
  "GEN_1R_KEY3 = key_from_u32s 0x49169154 0x16314c88 0xb1ba317c 0x6aef8135"

definition GEN_4R_KEY0 :: bytes where
  "GEN_4R_KEY0 = key_from_u32s 0x99e5d23f 0x2f546d2b 0xd1833ddb 0x6421aadd"
definition GEN_4R_KEY1 :: bytes where
  "GEN_4R_KEY1 = key_from_u32s 0xa5dfcde5 0x06f79d53 0xb6913f55 0xb20e3450"
definition GEN_4R_KEY2 :: bytes where
  "GEN_4R_KEY2 = key_from_u32s 0x171c02bf 0x0aa4679f 0x515e7baf 0x5c3ed904"
definition GEN_4R_KEY3 :: bytes where
  "GEN_4R_KEY3 = key_from_u32s 0xd8ded291 0xcd673785 0xe78f5d08 0x85623763"
definition GEN_4R_KEY4 :: bytes where
  "GEN_4R_KEY4 = key_from_u32s 0x229effb4 0x3d518b6d 0xe3d6a7a6 0xb5826f73"
definition GEN_4R_KEY5 :: bytes where
  "GEN_4R_KEY5 = key_from_u32s 0xb272b7d2 0xe9024d4e 0x9c10b3d9 0xc7566bf3"
definition GEN_4R_KEY6 :: bytes where
  "GEN_4R_KEY6 = key_from_u32s 0xf63befa7 0x2ba9660a 0xf765a38b 0xf273c9e7"
definition GEN_4R_KEY7 :: bytes where
  "GEN_4R_KEY7 = key_from_u32s 0xc0b0762d 0x0c06d1fd 0x915839de 0x7a7cd609"

definition HASH_1R_STATE0 :: bytes where
  "HASH_1R_STATE0 = key_from_u32s 0xd7983aad 0xcc82db47 0x9fa856de 0x92b52c0d"
definition HASH_1R_STATE1 :: bytes where
  "HASH_1R_STATE1 = key_from_u32s 0xace78057 0xf59e125a 0x15c7b798 0x338d996e"
definition HASH_1R_STATE2 :: bytes where
  "HASH_1R_STATE2 = key_from_u32s 0xe8a07ce4 0x5079506b 0xae62c7d0 0x6a770017"
definition HASH_1R_STATE3 :: bytes where
  "HASH_1R_STATE3 = key_from_u32s 0x7e994948 0x79a10005 0x07ad828d 0x630a240c"

definition HASH_1R_XKEY0 :: bytes where
  "HASH_1R_XKEY0 = key_from_u32s 0x06890201 0x90dc56bf 0x8b24949f 0xf6fa8389"
definition HASH_1R_XKEY1 :: bytes where
  "HASH_1R_XKEY1 = key_from_u32s 0xed18f99b 0xee1043c6 0x51f4e03c 0x61b263d1"

lemma length_key_from_u32s [simp, rust_len]: "length (key_from_u32s a b c d) = 16"
  by (simp add: key_from_u32s_def)

lemma length_aes_keys [simp, rust_len]:
  "length GEN_1R_KEY0 = 16" "length GEN_1R_KEY1 = 16" "length GEN_1R_KEY2 = 16"
  "length GEN_1R_KEY3 = 16" "length GEN_4R_KEY0 = 16" "length GEN_4R_KEY1 = 16"
  "length GEN_4R_KEY2 = 16" "length GEN_4R_KEY3 = 16" "length GEN_4R_KEY4 = 16"
  "length GEN_4R_KEY5 = 16" "length GEN_4R_KEY6 = 16" "length GEN_4R_KEY7 = 16"
  "length HASH_1R_STATE0 = 16" "length HASH_1R_STATE1 = 16" "length HASH_1R_STATE2 = 16"
  "length HASH_1R_STATE3 = 16" "length HASH_1R_XKEY0 = 16" "length HASH_1R_XKEY1 = 16"
  by (simp_all add: GEN_1R_KEY0_def GEN_1R_KEY1_def GEN_1R_KEY2_def GEN_1R_KEY3_def
      GEN_4R_KEY0_def GEN_4R_KEY1_def GEN_4R_KEY2_def GEN_4R_KEY3_def GEN_4R_KEY4_def
      GEN_4R_KEY5_def GEN_4R_KEY6_def GEN_4R_KEY7_def HASH_1R_STATE0_def HASH_1R_STATE1_def
      HASH_1R_STATE2_def HASH_1R_STATE3_def HASH_1R_XKEY0_def HASH_1R_XKEY1_def)

section \<open>Intrinsics\<close>

text \<open>NEON: \<open>AESE\<close> and \<open>AESD\<close> add the key first; the mixing is a separate instruction.\<close>

definition veorq_u8 :: "bytes \<Rightarrow> bytes \<Rightarrow> bytes" where
  "veorq_u8 a b = xor_bytes a b"
definition vmovq_n_u8 :: "u8 \<Rightarrow> bytes" where
  "vmovq_n_u8 b = replicate 16 b"
definition vaeseq_u8 :: "bytes \<Rightarrow> bytes \<Rightarrow> bytes" where
  "vaeseq_u8 s k = sub_bytes (shift_rows (xor_bytes s k))"
definition vaesdq_u8 :: "bytes \<Rightarrow> bytes \<Rightarrow> bytes" where
  "vaesdq_u8 s k = inv_sub_bytes (inv_shift_rows (xor_bytes s k))"
definition vaesmcq_u8 :: "bytes \<Rightarrow> bytes" where
  "vaesmcq_u8 s = mix_columns s"
definition vaesimcq_u8 :: "bytes \<Rightarrow> bytes" where
  "vaesimcq_u8 s = inv_mix_columns s"

text \<open>AES-NI: one round per instruction.\<close>

definition mm_aesenc_si128 :: "bytes \<Rightarrow> bytes \<Rightarrow> bytes" where
  "mm_aesenc_si128 s k = xor_bytes (mix_columns (sub_bytes (shift_rows s))) k"
definition mm_aesdec_si128 :: "bytes \<Rightarrow> bytes \<Rightarrow> bytes" where
  "mm_aesdec_si128 s k = xor_bytes (inv_mix_columns (inv_sub_bytes (inv_shift_rows s))) k"

text \<open>The two compositions the NEON code uses for a round.\<close>

definition neon_enc :: "bytes \<Rightarrow> bytes \<Rightarrow> bytes" where
  "neon_enc s k = veorq_u8 (vaesmcq_u8 (vaeseq_u8 s (vmovq_n_u8 0))) k"
definition neon_dec :: "bytes \<Rightarrow> bytes \<Rightarrow> bytes" where
  "neon_dec s k = veorq_u8 (vaesimcq_u8 (vaesdq_u8 s (vmovq_n_u8 0))) k"

section \<open>Blocks and loops\<close>

type_synonym aes4 = "bytes \<times> bytes \<times> bytes \<times> bytes"

definition load_block :: "bytes \<Rightarrow> nat \<Rightarrow> bytes" where
  "load_block data offset = slice offset 16 data"

definition store_block :: "bytes \<Rightarrow> nat \<Rightarrow> bytes \<Rightarrow> bytes" where
  "store_block data offset block = splice offset block data"

definition load4 :: "bytes \<Rightarrow> nat \<Rightarrow> aes4" where
  "load4 data offset =
     (load_block data offset, load_block data (offset + 16), load_block data (offset + 32),
      load_block data (offset + 48))"

fun store4 :: "bytes \<Rightarrow> nat \<Rightarrow> aes4 \<Rightarrow> bytes" where
  "store4 data offset (s0, s1, s2, s3) =
     store_block (store_block (store_block (store_block data offset s0)
       (offset + 16) s1) (offset + 32) s2) (offset + 48) s3"

text \<open>\<open>while offset < len { body; offset += 64 }\<close> and
  \<open>while i * 64 < len { body; i += 1 }\<close>.\<close>

function offset_loop :: "(nat \<Rightarrow> 'a \<Rightarrow> 'a) \<Rightarrow> nat \<Rightarrow> nat \<Rightarrow> 'a \<Rightarrow> 'a" where
  "offset_loop body len offset x =
     (if offset < len then offset_loop body len (offset + 64) (body offset x) else x)"
  by pat_completeness auto
termination by (relation "measure (\<lambda>(b, len, offset, x). len - offset)") auto

function index_loop :: "(nat \<Rightarrow> 'a \<Rightarrow> 'a) \<Rightarrow> nat \<Rightarrow> nat \<Rightarrow> 'a \<Rightarrow> 'a" where
  "index_loop body len i x =
     (if i * 64 < len then index_loop body len (i + 1) (body i x) else x)"
  by pat_completeness auto
termination by (relation "measure (\<lambda>(b, len, i, x). len - i * 64)") auto

declare offset_loop.simps [simp del] index_loop.simps [simp del]

lemma index_loop_offset:
  "index_loop (\<lambda>i. body (i * 64)) len i x = offset_loop body len (i * 64) x"
proof (induction "\<lambda>i. body (i * 64)" len i x rule: index_loop.induct)
  case (1 len i x)
  then show ?case
    by (subst index_loop.simps, subst offset_loop.simps) (simp add: add.commute)
qed

section \<open>One step of each loop\<close>

type_synonym aes_fn = "bytes \<Rightarrow> bytes \<Rightarrow> bytes"

fun step_1rx4 :: "aes_fn \<Rightarrow> aes_fn \<Rightarrow> aes4 \<Rightarrow> aes4" where
  "step_1rx4 enc dec (s0, s1, s2, s3) =
     (dec s0 GEN_1R_KEY0, enc s1 GEN_1R_KEY1, dec s2 GEN_1R_KEY2, enc s3 GEN_1R_KEY3)"

fun step_4rx4 :: "aes_fn \<Rightarrow> aes_fn \<Rightarrow> aes4 \<Rightarrow> aes4" where
  "step_4rx4 enc dec (s0, s1, s2, s3) =
     (let s0 = dec s0 GEN_4R_KEY0; s1 = enc s1 GEN_4R_KEY0;
          s2 = dec s2 GEN_4R_KEY4; s3 = enc s3 GEN_4R_KEY4;
          s0 = dec s0 GEN_4R_KEY1; s1 = enc s1 GEN_4R_KEY1;
          s2 = dec s2 GEN_4R_KEY5; s3 = enc s3 GEN_4R_KEY5;
          s0 = dec s0 GEN_4R_KEY2; s1 = enc s1 GEN_4R_KEY2;
          s2 = dec s2 GEN_4R_KEY6; s3 = enc s3 GEN_4R_KEY6;
          s0 = dec s0 GEN_4R_KEY3; s1 = enc s1 GEN_4R_KEY3;
          s2 = dec s2 GEN_4R_KEY7; s3 = enc s3 GEN_4R_KEY7
      in (s0, s1, s2, s3))"

fun step_hash :: "aes_fn \<Rightarrow> aes_fn \<Rightarrow> aes4 \<Rightarrow> aes4 \<Rightarrow> aes4" where
  "step_hash enc dec (in0, in1, in2, in3) (s0, s1, s2, s3) =
     (enc s0 in0, dec s1 in1, enc s2 in2, dec s3 in3)"

definition hash_start :: aes4 where
  "hash_start = (HASH_1R_STATE0, HASH_1R_STATE1, HASH_1R_STATE2, HASH_1R_STATE3)"

text \<open>The two closing rounds of the hash.\<close>

definition hash_finish :: "aes_fn \<Rightarrow> aes_fn \<Rightarrow> aes4 \<Rightarrow> aes4" where
  "hash_finish enc dec s =
     (let x0 = HASH_1R_XKEY0; x1 = HASH_1R_XKEY1;
          s = step_hash enc dec (x0, x0, x0, x0) s
      in step_hash enc dec (x1, x1, x1, x1) s)"

definition fill_body :: "(aes4 \<Rightarrow> aes4) \<Rightarrow> nat \<Rightarrow> aes4 \<times> bytes \<Rightarrow> aes4 \<times> bytes" where
  "fill_body step offset = (\<lambda>(s, output). let s = step s in (s, store4 output offset s))"

definition hash_body :: "aes_fn \<Rightarrow> aes_fn \<Rightarrow> bytes \<Rightarrow> nat \<Rightarrow> aes4 \<Rightarrow> aes4" where
  "hash_body enc dec input offset s = step_hash enc dec (load4 input offset) s"

definition hash_fill_body ::
  "aes_fn \<Rightarrow> aes_fn \<Rightarrow> nat \<Rightarrow> aes4 \<times> aes4 \<times> bytes \<Rightarrow> aes4 \<times> aes4 \<times> bytes" where
  "hash_fill_body enc dec offset = (\<lambda>(hs, fs, scratchpad).
     let ins = load4 scratchpad offset;
         hs = step_hash enc dec ins hs;
         fs = step_1rx4 enc dec fs
     in (hs, fs, store4 scratchpad offset fs))"

section \<open>The functions, by loop\<close>

text \<open>Results: (state, output) for the 1R generator, the output for the 4R generator, the
  digest for the hash, (scratchpad, digest, fill state) for the combined pass.\<close>

type_synonym 'a aes_loop = "(nat \<Rightarrow> 'a \<Rightarrow> 'a) \<Rightarrow> nat \<Rightarrow> nat \<Rightarrow> 'a \<Rightarrow> 'a"

definition fill_1rx4_by ::
  "(aes4 \<times> bytes) aes_loop \<Rightarrow> (nat \<Rightarrow> nat) \<Rightarrow> aes_fn \<Rightarrow> aes_fn \<Rightarrow> bytes \<Rightarrow> bytes \<Rightarrow> bytes \<times> bytes" where
  "fill_1rx4_by loop addr enc dec state output =
     (case loop (\<lambda>i. fill_body (step_1rx4 enc dec) (addr i)) (length output) 0
             (load4 state 0, output) of
        (s, output') \<Rightarrow> (store4 state 0 s, output'))"

definition fill_4rx4_by ::
  "(aes4 \<times> bytes) aes_loop \<Rightarrow> (nat \<Rightarrow> nat) \<Rightarrow> aes_fn \<Rightarrow> aes_fn \<Rightarrow> bytes \<Rightarrow> bytes \<Rightarrow> bytes" where
  "fill_4rx4_by loop addr enc dec state output =
     snd (loop (\<lambda>i. fill_body (step_4rx4 enc dec) (addr i)) (length output) 0
            (load4 state 0, output))"

definition hash_1rx4_by ::
  "aes4 aes_loop \<Rightarrow> (nat \<Rightarrow> nat) \<Rightarrow> aes_fn \<Rightarrow> aes_fn \<Rightarrow> bytes \<Rightarrow> bytes" where
  "hash_1rx4_by loop addr enc dec input =
     store4 (replicate 64 0) 0 (hash_finish enc dec
       (loop (\<lambda>i. hash_body enc dec input (addr i)) (length input) 0 hash_start))"

definition hash_fill_by ::
  "(aes4 \<times> aes4 \<times> bytes) aes_loop \<Rightarrow> (nat \<Rightarrow> nat) \<Rightarrow> aes_fn \<Rightarrow> aes_fn \<Rightarrow>
     bytes \<Rightarrow> bytes \<Rightarrow> bytes \<Rightarrow> bytes \<times> bytes \<times> bytes" where
  "hash_fill_by loop addr enc dec scratchpad hash_out fill_state =
     (case loop (\<lambda>i. hash_fill_body enc dec (addr i)) (length scratchpad) 0
             (hash_start, load4 fill_state 0, scratchpad) of
        (hs, fs, scratchpad') \<Rightarrow>
          (scratchpad', store4 hash_out 0 (hash_finish enc dec hs), store4 fill_state 0 fs))"

definition aes_mix_fe_by :: "aes_fn \<Rightarrow> aes_fn \<Rightarrow> aes4 \<Rightarrow> bytes list \<Rightarrow> aes4" where
  "aes_mix_fe_by enc dec f e =
     foldl (\<lambda>(f0, f1, f2, f3) key. (enc f0 key, dec f1 key, enc f2 key, dec f3 key)) f e"

section \<open>The three versions\<close>

abbreviation (input) at_offset :: "nat \<Rightarrow> nat" where "at_offset offset \<equiv> offset"
abbreviation (input) at_group :: "nat \<Rightarrow> nat" where "at_group i \<equiv> i * 64"

definition fill_aes_1rx4_soft where
  "fill_aes_1rx4_soft = fill_1rx4_by offset_loop at_offset soft_aesenc soft_aesdec"
definition fill_aes_4rx4_soft where
  "fill_aes_4rx4_soft = fill_4rx4_by offset_loop at_offset soft_aesenc soft_aesdec"
definition hash_aes_1rx4_soft where
  "hash_aes_1rx4_soft = hash_1rx4_by offset_loop at_offset soft_aesenc soft_aesdec"
definition hash_and_fill_aes_1rx4_soft where
  "hash_and_fill_aes_1rx4_soft = hash_fill_by offset_loop at_offset soft_aesenc soft_aesdec"
definition aes_mix_fe_soft where
  "aes_mix_fe_soft = aes_mix_fe_by soft_aesenc soft_aesdec"

definition fill_aes_1rx4_neon where
  "fill_aes_1rx4_neon = fill_1rx4_by offset_loop at_offset neon_enc neon_dec"
definition fill_aes_4rx4_neon where
  "fill_aes_4rx4_neon = fill_4rx4_by offset_loop at_offset neon_enc neon_dec"
definition hash_aes_1rx4_neon where
  "hash_aes_1rx4_neon = hash_1rx4_by offset_loop at_offset neon_enc neon_dec"
definition hash_and_fill_aes_1rx4_neon where
  "hash_and_fill_aes_1rx4_neon = hash_fill_by offset_loop at_offset neon_enc neon_dec"
definition aes_mix_fe_neon where
  "aes_mix_fe_neon = aes_mix_fe_by neon_enc neon_dec"

definition fill_aes_1rx4_aesni where
  "fill_aes_1rx4_aesni = fill_1rx4_by index_loop at_group mm_aesenc_si128 mm_aesdec_si128"
definition fill_aes_4rx4_aesni where
  "fill_aes_4rx4_aesni = fill_4rx4_by index_loop at_group mm_aesenc_si128 mm_aesdec_si128"
definition hash_aes_1rx4_aesni where
  "hash_aes_1rx4_aesni = hash_1rx4_by index_loop at_group mm_aesenc_si128 mm_aesdec_si128"
definition hash_and_fill_aes_1rx4_aesni where
  "hash_and_fill_aes_1rx4_aesni = hash_fill_by index_loop at_group mm_aesenc_si128 mm_aesdec_si128"
definition aes_mix_fe_aesni where
  "aes_mix_fe_aesni = aes_mix_fe_by mm_aesenc_si128 mm_aesdec_si128"

section \<open>The public functions\<close>

text \<open>The target architecture is fixed at compile time, the \<open>aes\<close> feature is detected at
  run time. \<open>None\<close> is the panic of \<open>assert!(len.is_multiple_of(64))\<close>.\<close>

datatype arch = Aarch64 | X86_64 | Other_Arch

record cpu =
  cpu_arch :: arch
  cpu_aes :: bool

definition by_cpu :: "cpu \<Rightarrow> 'a \<Rightarrow> 'a \<Rightarrow> 'a \<Rightarrow> 'a" where
  "by_cpu cpu neon aesni soft =
     (if cpu_arch cpu = Aarch64 \<and> cpu_aes cpu then neon
      else if cpu_arch cpu = X86_64 \<and> cpu_aes cpu then aesni
      else soft)"

definition fill_aes_1rx4 :: "cpu \<Rightarrow> bytes \<Rightarrow> bytes \<Rightarrow> (bytes \<times> bytes) option" where
  "fill_aes_1rx4 cpu state output =
     (if length output mod 64 = 0
      then Some (by_cpu cpu fill_aes_1rx4_neon fill_aes_1rx4_aesni fill_aes_1rx4_soft state output)
      else None)"

definition fill_aes_4rx4 :: "cpu \<Rightarrow> bytes \<Rightarrow> bytes \<Rightarrow> bytes option" where
  "fill_aes_4rx4 cpu state output =
     (if length output mod 64 = 0
      then Some (by_cpu cpu fill_aes_4rx4_neon fill_aes_4rx4_aesni fill_aes_4rx4_soft state output)
      else None)"

definition hash_aes_1rx4 :: "cpu \<Rightarrow> bytes \<Rightarrow> bytes option" where
  "hash_aes_1rx4 cpu input =
     (if length input mod 64 = 0
      then Some (by_cpu cpu hash_aes_1rx4_neon hash_aes_1rx4_aesni hash_aes_1rx4_soft input)
      else None)"

definition hash_and_fill_aes_1rx4 ::
  "cpu \<Rightarrow> bytes \<Rightarrow> bytes \<Rightarrow> bytes \<Rightarrow> (bytes \<times> bytes \<times> bytes) option" where
  "hash_and_fill_aes_1rx4 cpu scratchpad hash_out fill_state =
     (if length scratchpad mod 64 = 0
      then Some (by_cpu cpu hash_and_fill_aes_1rx4_neon hash_and_fill_aes_1rx4_aesni
             hash_and_fill_aes_1rx4_soft scratchpad hash_out fill_state)
      else None)"

definition aes_mix_fe :: "cpu \<Rightarrow> aes4 \<Rightarrow> bytes list \<Rightarrow> aes4" where
  "aes_mix_fe cpu f e = by_cpu cpu aes_mix_fe_neon aes_mix_fe_aesni aes_mix_fe_soft f e"

end
