(* ===== verification/Aes_Hash_Props.thy ===== *)
theory Aes_Hash_Props
  imports Aes_Hash
begin

text \<open>
  What the AES generators and hashes promise, proved once for any pair of round functions
  on 16-byte blocks (locale \<open>aes_rounds\<close>) and interpreted for the table, NEON and AES-NI
  rounds: the combined pass is the hash followed by the fill; a fill does not depend on the
  old contents; and the three versions agree (locale \<open>aes_agree\<close>).
\<close>

section \<open>Loops\<close>

lemma offset_loop_step:
  "off < len \<Longrightarrow> offset_loop f len off x = offset_loop f len (off + 64) (f off x)"
  by (subst offset_loop.simps) simp

lemma offset_loop_end: "len \<le> off \<Longrightarrow> offset_loop f len off x = x"
  by (subst offset_loop.simps) simp

text \<open>The loop visits whole 64-byte groups. Two loops whose bodies are related give related
  results.\<close>

lemma offset_loop_rel:
  assumes step: "\<And>off x y. R off x y \<Longrightarrow> off + 64 \<le> len \<Longrightarrow> R (off + 64) (f off x) (g off y)"
    and len: "len mod 64 = 0"
  shows "R off x y \<Longrightarrow> off mod 64 = 0 \<Longrightarrow> off \<le> len \<Longrightarrow>
     R len (offset_loop f len off x) (offset_loop g len off y)"
proof (induction "len - off" arbitrary: off x y rule: less_induct)
  case less
  show ?case
  proof (cases "off < len")
    case True
    then have "off + 64 \<le> len"
      using less.prems(2) len by (metis add.commute mod_eq_dvd_iff_nat less_imp_le dvd_imp_le
          zero_less_diff le_diff_conv2)
    moreover have "(off + 64) mod 64 = 0" using less.prems(2) by simp
    ultimately have "R len (offset_loop f len (off + 64) (f off x)) (offset_loop g len (off + 64) (g off y))"
      using less.hyps [of "off + 64"] step less.prems(1) by auto
    then show ?thesis using True by (simp only: offset_loop_step)
  next
    case False
    then show ?thesis using less.prems by (simp add: offset_loop_end)
  qed
qed

lemma offset_loop_inv:
  assumes "\<And>off x. P off x \<Longrightarrow> off + 64 \<le> len \<Longrightarrow> P (off + 64) (f off x)"
    and "len mod 64 = 0" "P off x" "off mod 64 = 0" "off \<le> len"
  shows "P len (offset_loop f len off x)"
  by (rule offset_loop_rel [where R = "\<lambda>off x y. P off x" and g = f,
        OF assms(1) assms(2) assms(3) assms(4) assms(5)])

section \<open>Four blocks\<close>

fun ok4 :: "aes4 \<Rightarrow> bool" where
  "ok4 (s0, s1, s2, s3) = (length s0 = 16 \<and> length s1 = 16 \<and> length s2 = 16 \<and> length s3 = 16)"

lemma load4_ok: "off + 64 \<le> length data \<Longrightarrow> ok4 (load4 data off)"
  by (simp add: load4_def load_block_def)

lemma length_store4 [rust_len]:
  "ok4 s \<Longrightarrow> off + 64 \<le> length data \<Longrightarrow> length (store4 data off s) = length data"
  by (cases s) (simp add: store_block_def)

text \<open>Storing four blocks replaces one 64-byte group.\<close>

fun flat4 :: "aes4 \<Rightarrow> bytes" where
  "flat4 (s0, s1, s2, s3) = s0 @ s1 @ s2 @ s3"

lemma store4_flat:
  assumes "ok4 s" "off + 64 \<le> length data"
  shows "store4 data off s = take off data @ flat4 s @ drop (off + 64) data"
proof -
  obtain s0 s1 s2 s3 where s: "s = (s0, s1, s2, s3)" by (rule prod_cases4)
  then have l: "length s0 = 16" "length s1 = 16" "length s2 = 16" "length s3 = 16"
    using assms(1) by simp_all
  show ?thesis
    using assms(2) l
    by (simp add: s store_block_def splice_def min_def) (simp add: add.commute)
qed

lemma length_flat4 [simp]: "ok4 s \<Longrightarrow> length (flat4 s) = 64"
  by (cases s) simp

lemma drop_store4:
  "ok4 s \<Longrightarrow> off + 64 \<le> length data \<Longrightarrow> drop (off + 64) (store4 data off s) = drop (off + 64) data"
  by (simp add: store4_flat)

lemma store4_full: "ok4 s \<Longrightarrow> length data = 64 \<Longrightarrow> store4 data 0 s = flat4 s"
  by (simp add: store4_flat)

lemma load4_flat: "ok4 s \<Longrightarrow> load4 (flat4 s) 0 = s"
  by (cases s) (simp add: load4_def load_block_def slice_def)

lemma load4_drop: "drop off d = drop off d' \<Longrightarrow> load4 d off = load4 d' off"
proof -
  assume eq: "drop off d = drop off d'"
  have "drop (off + k) d = drop (off + k) d'" for k
    using arg_cong [OF eq, of "drop k"] by (simp add: add.commute)
  then show ?thesis using eq by (simp add: load4_def load_block_def slice_def)
qed

lemma hash_start_ok: "ok4 hash_start"
  by (simp add: hash_start_def)

section \<open>The interface of a pair of rounds\<close>

locale aes_rounds =
  fixes enc dec :: aes_fn
  assumes length_enc: "length s = 16 \<Longrightarrow> length k = 16 \<Longrightarrow> length (enc s k) = 16"
    and length_dec: "length s = 16 \<Longrightarrow> length k = 16 \<Longrightarrow> length (dec s k) = 16"
begin

lemma step_1rx4_ok: "ok4 s \<Longrightarrow> ok4 (step_1rx4 enc dec s)"
  by (cases s) (simp add: length_enc length_dec)

lemma step_4rx4_ok: "ok4 s \<Longrightarrow> ok4 (step_4rx4 enc dec s)"
  by (cases s) (simp add: length_enc length_dec)

lemma step_hash_ok: "ok4 i \<Longrightarrow> ok4 s \<Longrightarrow> ok4 (step_hash enc dec i s)"
  by (cases s; cases i) (simp add: length_enc length_dec)

lemma hash_finish_ok: "ok4 s \<Longrightarrow> ok4 (hash_finish enc dec s)"
  by (simp add: hash_finish_def Let_def step_hash_ok)

lemma length_hash: "length (hash_1rx4_by loop addr enc dec input) = 64"
  if "ok4 (loop (\<lambda>i. hash_body enc dec input (addr i)) (length input) 0 hash_start)"
  using that by (simp add: hash_1rx4_by_def length_store4 hash_finish_ok)

text \<open>The fill loop keeps the states 16 bytes wide and the length of the output.\<close>

lemma fill_loop_ok:
  assumes "ok4 s" "length out mod 64 = 0" "\<And>s. ok4 s \<Longrightarrow> ok4 (step s)"
  shows "case offset_loop (fill_body step) (length out) 0 (s, out) of
     (s', out') \<Rightarrow> ok4 s' \<and> length out' = length out"
  by (rule offset_loop_inv
      [where P = "\<lambda>off x. case x of (s, o') \<Rightarrow> ok4 s \<and> length o' = length out"])
    (use assms in \<open>auto simp: fill_body_def Let_def length_store4\<close>)

text \<open>Fills that start from the same state agree, whatever was in the buffer.\<close>

lemma fill_loop_fresh:
  assumes s: "ok4 s" and len: "length out mod 64 = 0" "length out' = length out"
    and step: "\<And>s. ok4 s \<Longrightarrow> ok4 (step s)"
  shows "offset_loop (fill_body step) (length out) 0 (s, out) =
     offset_loop (fill_body step) (length out) 0 (s, out')"
proof -
  let ?R = "\<lambda>off x y. fst x = fst y \<and> ok4 (fst x) \<and> length (snd x) = length out \<and>
      length (snd y) = length out \<and> take off (snd x) = take off (snd y)"
  have "?R (length out) (offset_loop (fill_body step) (length out) 0 (s, out))
      (offset_loop (fill_body step) (length out) 0 (s, out'))"
    by (rule offset_loop_rel [where R = ?R])
      (use s len step in \<open>auto simp: fill_body_def Let_def length_store4 store4_flat split_beta\<close>)
  then show ?thesis by (auto simp: prod_eq_iff)
qed

text \<open>The combined pass, from any group on: the scratchpad ahead is still the input.\<close>

lemma hash_fill_loop:
  assumes len: "length inp mod 64 = 0" and ok: "ok4 hs" "ok4 fs"
  shows "offset_loop (hash_fill_body enc dec) (length inp) 0 (hs, fs, inp) =
     (offset_loop (hash_body enc dec inp) (length inp) 0 hs,
      offset_loop (fill_body (step_1rx4 enc dec)) (length inp) 0 (fs, inp))"
proof -
  let ?R = "\<lambda>off x y. ok4 (fst y) \<and> ok4 (fst (snd y)) \<and> x = y \<and>
     length (snd (snd y)) = length inp \<and> drop off (snd (snd y)) = drop off inp"
  let ?g = "\<lambda>off (hs, fs, sp). (hash_body enc dec inp off hs, fill_body (step_1rx4 enc dec) off (fs, sp))"
  have "?R (length inp) (offset_loop (hash_fill_body enc dec) (length inp) 0 (hs, fs, inp))
     (offset_loop ?g (length inp) 0 (hs, fs, inp))"
  proof (rule offset_loop_rel [where R = ?R])
    fix off x y
    assume R: "?R off x y" and off: "off + 64 \<le> length inp"
    obtain h f sp where y: "y = (h, f, sp)" by (rule prod_cases3)
    have load: "load4 sp off = load4 inp off" using R y by (auto intro: load4_drop)
    have okf: "ok4 (step_1rx4 enc dec f)" using R y by (simp add: step_1rx4_ok)
    have "drop off sp = drop off inp" using R y by simp
    from arg_cong [OF this, of "drop 64"] have "drop (off + 64) sp = drop (off + 64) inp"
      by (simp add: add.commute)
    then show "?R (off + 64) (hash_fill_body enc dec off x) (?g off y)"
      using R y load off okf
      by (simp add: hash_fill_body_def fill_body_def hash_body_def Let_def length_store4 drop_store4
          step_hash_ok load4_ok)
  qed (use assms in auto)
  moreover have "offset_loop ?g len off (h, x) =
      (offset_loop (hash_body enc dec inp) len off h,
       offset_loop (fill_body (step_1rx4 enc dec)) len off x)" for len off h x
  proof (induction "len - off" arbitrary: off h x rule: less_induct)
    case less
    then show ?case
      by (cases "off < len") (simp_all add: offset_loop_step offset_loop_end split: prod.split)
  qed
  ultimately show ?thesis by simp
qed

lemma hash_fill_gen:
  assumes "length sp mod 64 = 0" "length fs = 64" "length ho = 64"
  shows "hash_fill_by offset_loop (\<lambda>i. i) enc dec sp ho fs =
     (snd (fill_1rx4_by offset_loop (\<lambda>i. i) enc dec fs sp),
      hash_1rx4_by offset_loop (\<lambda>i. i) enc dec sp,
      fst (fill_1rx4_by offset_loop (\<lambda>i. i) enc dec fs sp))"
proof -
  have ok: "ok4 (load4 fs 0)" using assms(2) by (simp add: load4_ok)
  have "ok4 (offset_loop (hash_body enc dec sp) (length sp) 0 hash_start)"
    by (rule offset_loop_inv [where P = "\<lambda>off. ok4"])
      (use assms(1) in \<open>auto simp: hash_body_def step_hash_ok load4_ok hash_start_ok\<close>)
  then have fin: "ok4 (hash_finish enc dec
      (offset_loop (hash_body enc dec sp) (length sp) 0 hash_start))"
    by (rule hash_finish_ok)
  show ?thesis
    using assms(3) fin
    by (simp add: hash_fill_by_def fill_1rx4_by_def hash_1rx4_by_def
        hash_fill_loop [OF assms(1) hash_start_ok ok] store4_full split: prod.split)
qed

end

section \<open>Two pairs of rounds that agree\<close>

locale aes_agree = aes_rounds enc dec for enc dec +
  fixes enc' dec' :: aes_fn
  assumes enc_agree: "length s = 16 \<Longrightarrow> length k = 16 \<Longrightarrow> enc' s k = enc s k"
    and dec_agree: "length s = 16 \<Longrightarrow> length k = 16 \<Longrightarrow> dec' s k = dec s k"
begin

lemma step_1rx4_agree: "ok4 s \<Longrightarrow> step_1rx4 enc' dec' s = step_1rx4 enc dec s"
  by (cases s) (simp add: enc_agree dec_agree)

lemma step_4rx4_agree: "ok4 s \<Longrightarrow> step_4rx4 enc' dec' s = step_4rx4 enc dec s"
  by (cases s) (simp add: enc_agree dec_agree length_enc length_dec)

lemma step_hash_agree: "ok4 i \<Longrightarrow> ok4 s \<Longrightarrow> step_hash enc' dec' i s = step_hash enc dec i s"
  by (cases s; cases i) (simp add: enc_agree dec_agree)

lemma hash_finish_agree: "ok4 s \<Longrightarrow> hash_finish enc' dec' s = hash_finish enc dec s"
  by (simp add: hash_finish_def Let_def step_hash_agree step_hash_ok)

lemma fill_loop_agree:
  assumes s: "ok4 s" and len: "length out mod 64 = 0"
    and step: "\<And>s. ok4 s \<Longrightarrow> ok4 (step s)" "\<And>s. ok4 s \<Longrightarrow> step' s = step s"
  shows "offset_loop (fill_body step') (length out) 0 (s, out) =
     offset_loop (fill_body step) (length out) 0 (s, out)"
proof -
  let ?R = "\<lambda>off x y. x = y \<and> ok4 (fst x)"
  have "?R (length out) (offset_loop (fill_body step') (length out) 0 (s, out))
      (offset_loop (fill_body step) (length out) 0 (s, out))"
    by (rule offset_loop_rel [where R = ?R])
      (use s len step in \<open>auto simp: fill_body_def Let_def split_beta\<close>)
  then show ?thesis by simp
qed

lemma fill_1rx4_agree:
  assumes "length st = 64" "length out mod 64 = 0"
  shows "fill_1rx4_by offset_loop (\<lambda>i. i) enc' dec' st out =
     fill_1rx4_by offset_loop (\<lambda>i. i) enc dec st out"
proof -
  have "ok4 (load4 st 0)" using assms(1) by (simp add: load4_ok)
  then show ?thesis
    using fill_loop_agree [of "load4 st 0" out "step_1rx4 enc dec" "step_1rx4 enc' dec'"] assms(2)
    by (simp add: fill_1rx4_by_def step_1rx4_ok step_1rx4_agree)
qed

lemma fill_4rx4_agree:
  assumes "length st = 64" "length out mod 64 = 0"
  shows "fill_4rx4_by offset_loop (\<lambda>i. i) enc' dec' st out =
     fill_4rx4_by offset_loop (\<lambda>i. i) enc dec st out"
proof -
  have "ok4 (load4 st 0)" using assms(1) by (simp add: load4_ok)
  then show ?thesis
    using fill_loop_agree [of "load4 st 0" out "step_4rx4 enc dec" "step_4rx4 enc' dec'"] assms(2)
    by (simp add: fill_4rx4_by_def step_4rx4_ok step_4rx4_agree)
qed

lemma hash_1rx4_agree:
  assumes "length inp mod 64 = 0"
  shows "hash_1rx4_by offset_loop (\<lambda>i. i) enc' dec' inp = hash_1rx4_by offset_loop (\<lambda>i. i) enc dec inp"
proof -
  let ?R = "\<lambda>off x y. x = y \<and> ok4 x"
  have "?R (length inp) (offset_loop (hash_body enc' dec' inp) (length inp) 0 hash_start)
      (offset_loop (hash_body enc dec inp) (length inp) 0 hash_start)"
    by (rule offset_loop_rel [where R = ?R])
      (use assms hash_start_ok in
        \<open>auto simp: hash_body_def step_hash_agree step_hash_ok load4_ok\<close>)
  then have "ok4 (offset_loop (hash_body enc dec inp) (length inp) 0 hash_start)"
    and "offset_loop (hash_body enc' dec' inp) (length inp) 0 hash_start =
      offset_loop (hash_body enc dec inp) (length inp) 0 hash_start"
    by auto
  then show ?thesis by (simp add: hash_1rx4_by_def hash_finish_agree)
qed

lemma rounds': "aes_rounds enc' dec'"
  by unfold_locales (simp_all add: enc_agree dec_agree length_enc length_dec)

lemma mix_fe_agree:
  "ok4 f \<Longrightarrow> \<forall>k \<in> set e. length k = 16 \<Longrightarrow> aes_mix_fe_by enc' dec' f e = aes_mix_fe_by enc dec f e"
proof (induction e arbitrary: f)
  case (Cons k e)
  obtain f0 f1 f2 f3 where f: "f = (f0, f1, f2, f3)" by (rule prod_cases4)
  show ?case
    using Cons.IH [of "(enc f0 k, dec f1 k, enc f2 k, dec f3 k)"] Cons.prems
    by (simp add: aes_mix_fe_by_def f enc_agree dec_agree length_enc length_dec)
qed (simp add: aes_mix_fe_by_def)

end

text \<open>The index loop of the AES-NI versions is the offset loop.\<close>

lemma index_versions:
  "fill_1rx4_by index_loop (\<lambda>i. i * 64) e d st out = fill_1rx4_by offset_loop (\<lambda>i. i) e d st out"
  "fill_4rx4_by index_loop (\<lambda>i. i * 64) e d st out = fill_4rx4_by offset_loop (\<lambda>i. i) e d st out"
  "hash_1rx4_by index_loop (\<lambda>i. i * 64) e d inp = hash_1rx4_by offset_loop (\<lambda>i. i) e d inp"
  "hash_fill_by index_loop (\<lambda>i. i * 64) e d sp ho fs = hash_fill_by offset_loop (\<lambda>i. i) e d sp ho fs"
  using index_loop_offset [where i = 0 and body = "fill_body (step_1rx4 e d)"]
    index_loop_offset [where i = 0 and body = "fill_body (step_4rx4 e d)"]
    index_loop_offset [where i = 0 and body = "hash_body e d inp"]
    index_loop_offset [where i = 0 and body = "hash_fill_body e d"]
  by (simp_all add: fill_1rx4_by_def fill_4rx4_by_def hash_1rx4_by_def hash_fill_by_def)

section \<open>The code's rounds\<close>

lemma length_xor_bytes [simp, rust_len]: "length (xor_bytes a b) = min (length a) (length b)"
  by (simp add: xor_bytes_def)

lemma length_sub_bytes [simp, rust_len]: "length (sub_bytes s) = length s"
  by (simp add: sub_bytes_def)
lemma length_inv_sub_bytes [simp, rust_len]: "length (inv_sub_bytes s) = length s"
  by (simp add: inv_sub_bytes_def)
lemma length_shift_rows [simp, rust_len]: "length (shift_rows s) = 16"
  by (simp add: shift_rows_def)
lemma length_inv_shift_rows [simp, rust_len]: "length (inv_shift_rows s) = 16"
  by (simp add: inv_shift_rows_def)

text \<open>ShiftRows moves bytes, SubBytes changes them one by one: the order does not matter.\<close>

lemma sub_shift_swap: "length s = 16 \<Longrightarrow> sub_bytes (shift_rows s) = shift_rows (sub_bytes s)"
  by (rule nth_equalityI) (simp_all add: sub_bytes_def shift_rows_def)

lemma xor_bytes_zero: "length s = 16 \<Longrightarrow> xor_bytes s (replicate 16 0) = s"
  by (rule nth_equalityI) (simp_all add: xor_bytes_def)

lemma neon_enc_round: "length s = 16 \<Longrightarrow> neon_enc s k = aes_enc_round s k"
  by (simp add: neon_enc_def veorq_u8_def vaesmcq_u8_def vaeseq_u8_def vmovq_n_u8_def
      xor_bytes_zero aes_enc_round_def sub_shift_swap)

lemma neon_dec_round: "length s = 16 \<Longrightarrow> neon_dec s k = aes_dec_round s k"
  by (simp add: neon_dec_def veorq_u8_def vaesimcq_u8_def vaesdq_u8_def vmovq_n_u8_def
      xor_bytes_zero aes_dec_round_def)

lemma mm_aesenc_round: "length s = 16 \<Longrightarrow> mm_aesenc_si128 s k = aes_enc_round s k"
  by (simp add: mm_aesenc_si128_def aes_enc_round_def sub_shift_swap)

lemma mm_aesdec_round: "mm_aesdec_si128 s k = aes_dec_round s k"
  by (simp add: mm_aesdec_si128_def aes_dec_round_def)

lemmas round_agree = soft_aesenc_round soft_aesdec_round neon_enc_round neon_dec_round
  mm_aesenc_round mm_aesdec_round

interpretation soft: aes_rounds soft_aesenc soft_aesdec
  by unfold_locales simp_all

interpretation neon: aes_agree soft_aesenc soft_aesdec neon_enc neon_dec
  by unfold_locales (simp_all add: round_agree)

interpretation aesni: aes_agree soft_aesenc soft_aesdec mm_aesenc_si128 mm_aesdec_si128
  by unfold_locales (simp_all add: round_agree)

lemma by_cpu_eq: "n = s \<Longrightarrow> a = s \<Longrightarrow> by_cpu cpu n a s = s"
  by (simp add: by_cpu_def)

lemma by_cpu_app:
  "by_cpu cpu n a s x = by_cpu cpu (n x) (a x) (s x)"
  by (simp add: by_cpu_def)

section \<open>The public functions, whatever the processor\<close>

lemma fill_aes_1rx4_soft_gen:
  assumes "length st = 64"
  shows "fill_aes_1rx4 cpu st out =
     (if length out mod 64 = 0 then Some (fill_aes_1rx4_soft st out) else None)"
  using assms
  by (auto simp: fill_aes_1rx4_def by_cpu_app fill_aes_1rx4_soft_def fill_aes_1rx4_neon_def
      fill_aes_1rx4_aesni_def index_versions neon.fill_1rx4_agree aesni.fill_1rx4_agree by_cpu_eq)

lemma fill_aes_4rx4_soft_gen:
  assumes "length st = 64"
  shows "fill_aes_4rx4 cpu st out =
     (if length out mod 64 = 0 then Some (fill_aes_4rx4_soft st out) else None)"
  using assms
  by (auto simp: fill_aes_4rx4_def by_cpu_app fill_aes_4rx4_soft_def fill_aes_4rx4_neon_def
      fill_aes_4rx4_aesni_def index_versions neon.fill_4rx4_agree aesni.fill_4rx4_agree by_cpu_eq)

lemma hash_aes_1rx4_soft_gen:
  "hash_aes_1rx4 cpu inp =
     (if length inp mod 64 = 0 then Some (hash_aes_1rx4_soft inp) else None)"
  by (auto simp: hash_aes_1rx4_def by_cpu_app hash_aes_1rx4_soft_def hash_aes_1rx4_neon_def
      hash_aes_1rx4_aesni_def index_versions neon.hash_1rx4_agree aesni.hash_1rx4_agree by_cpu_eq)

text \<open>The combined pass is the hash of the old contents and the fill.\<close>

lemma hash_and_fill_soft_gen:
  assumes "length fs = 64" "length ho = 64"
  shows "hash_and_fill_aes_1rx4 cpu sp ho fs =
     (if length sp mod 64 = 0
      then Some (snd (fill_aes_1rx4_soft fs sp), hash_aes_1rx4_soft sp, fst (fill_aes_1rx4_soft fs sp))
      else None)"
proof -
  have "hash_and_fill_aes_1rx4_soft sp ho fs =
      (snd (fill_aes_1rx4_soft fs sp), hash_aes_1rx4_soft sp, fst (fill_aes_1rx4_soft fs sp))"
    and "hash_and_fill_aes_1rx4_neon sp ho fs = hash_and_fill_aes_1rx4_soft sp ho fs"
    and "hash_and_fill_aes_1rx4_aesni sp ho fs = hash_and_fill_aes_1rx4_soft sp ho fs"
    if "length sp mod 64 = 0"
    using assms that aes_rounds.hash_fill_gen [OF neon.rounds'] aes_rounds.hash_fill_gen [OF aesni.rounds']
    by (simp_all add: hash_and_fill_aes_1rx4_soft_def hash_and_fill_aes_1rx4_neon_def
        hash_and_fill_aes_1rx4_aesni_def fill_aes_1rx4_soft_def hash_aes_1rx4_soft_def
        index_versions soft.hash_fill_gen neon.fill_1rx4_agree aesni.fill_1rx4_agree
        neon.hash_1rx4_agree aesni.hash_1rx4_agree)
  then show ?thesis
    by (auto simp: hash_and_fill_aes_1rx4_def by_cpu_app by_cpu_eq)
qed

lemma aes_mix_fe_soft_gen:
  "ok4 f \<Longrightarrow> \<forall>k \<in> set e. length k = 16 \<Longrightarrow> aes_mix_fe cpu f e = aes_mix_fe_soft f e"
  by (simp add: aes_mix_fe_def by_cpu_app aes_mix_fe_soft_def aes_mix_fe_neon_def
      aes_mix_fe_aesni_def neon.mix_fe_agree aesni.mix_fe_agree by_cpu_eq)

section \<open>Lengths\<close>

lemma fill_aes_1rx4_soft_length:
  assumes "length st = 64" "length out mod 64 = 0"
  shows "length (fst (fill_aes_1rx4_soft st out)) = 64 \<and>
     length (snd (fill_aes_1rx4_soft st out)) = length out"
proof -
  have ok: "ok4 (load4 st 0)" using assms(1) by (simp add: load4_ok)
  obtain s o' where l: "offset_loop (fill_body (step_1rx4 soft_aesenc soft_aesdec)) (length out) 0
      (load4 st 0, out) = (s, o')" by (rule prod.exhaust)
  have "ok4 s \<and> length o' = length out"
    using soft.fill_loop_ok [OF ok assms(2), of "step_1rx4 soft_aesenc soft_aesdec"]
    by (simp add: soft.step_1rx4_ok l)
  then show ?thesis
    using assms(1) by (simp add: fill_aes_1rx4_soft_def fill_1rx4_by_def l length_store4)
qed

lemma fill_aes_4rx4_soft_length:
  assumes "length st = 64" "length out mod 64 = 0"
  shows "length (fill_aes_4rx4_soft st out) = length out"
proof -
  have "ok4 (load4 st 0)" using assms(1) by (simp add: load4_ok)
  then show ?thesis
    using soft.fill_loop_ok [of "load4 st 0" out "step_4rx4 soft_aesenc soft_aesdec"] assms
    by (auto simp: fill_aes_4rx4_soft_def fill_4rx4_by_def soft.step_4rx4_ok split: prod.splits)
qed

lemma hash_aes_1rx4_soft_length:
  assumes "length inp mod 64 = 0"
  shows "length (hash_aes_1rx4_soft inp) = 64"
proof -
  have "ok4 (offset_loop (hash_body soft_aesenc soft_aesdec inp) (length inp) 0 hash_start)"
    by (rule offset_loop_inv [where P = "\<lambda>off. ok4"])
      (use assms in \<open>auto simp: hash_body_def soft.step_hash_ok load4_ok hash_start_ok\<close>)
  then show ?thesis unfolding hash_aes_1rx4_soft_def by (rule soft.length_hash)
qed

text \<open>The fill ignores the old contents of the buffer.\<close>

lemma fill_aes_1rx4_soft_fresh:
  assumes "length st = 64" "length out mod 64 = 0" "length out' = length out"
  shows "fill_aes_1rx4_soft st out = fill_aes_1rx4_soft st out'"
proof -
  have "ok4 (load4 st 0)" using assms(1) by (simp add: load4_ok)
  then show ?thesis
    using soft.fill_loop_fresh [of "load4 st 0" out out' "step_1rx4 soft_aesenc soft_aesdec"] assms
    by (simp add: fill_aes_1rx4_soft_def fill_1rx4_by_def soft.step_1rx4_ok)
qed

end
