(* ===== verification/Rust_Loops.thy ===== *)
theory Rust_Loops
  imports Rust_Base
begin

text \<open>
  Loops that may panic and checked arithmetic, shared by the Argon2d, dataset and VM theories.
  \<open>for_each f xs s\<close> is \<open>for x in xs { ... }\<close> over a state \<open>s\<close>; \<open>None\<close> is a panic.
  \<open>u32_add\<close>, \<open>u32_sub\<close>, \<open>u32_mul\<close>, \<open>u32_rem\<close> are \<open>+ - * %\<close> on \<open>u32\<close> values (as naturals)
  with the overflow checks of a debug build: where they are \<open>Some\<close>, debug and release builds
  agree.
\<close>

section \<open>For loops\<close>

fun for_each :: "('b \<Rightarrow> 'a \<Rightarrow> 'a option) \<Rightarrow> 'b list \<Rightarrow> 'a \<Rightarrow> 'a option" where
  "for_each f [] s = Some s"
| "for_each f (x # xs) s = Option.bind (f x s) (for_each f xs)"

lemma for_each_append:
  "for_each f (xs @ ys) s = Option.bind (for_each f xs s) (for_each f ys)"
  by (induction xs arbitrary: s) (auto split: Option.bind_splits)

lemma returns_for_each:
  "I s \<Longrightarrow> (\<And>x s. x \<in> set xs \<Longrightarrow> I s \<Longrightarrow> returns I (f x s)) \<Longrightarrow> returns I (for_each f xs s)"
  by (induction xs arbitrary: s) (auto intro!: returns_bind)

lemma returns_for_upt:
  assumes "\<And>i s. a \<le> i \<Longrightarrow> i < b \<Longrightarrow> I i s \<Longrightarrow> returns (I (Suc i)) (f i s)"
    and "I a s" "a \<le> b"
  shows "returns (I b) (for_each f [a..<b] s)"
  using assms
proof (induction "b - a" arbitrary: a s)
  case 0
  then show ?case by simp
next
  case (Suc d)
  then have ab: "a < b" by simp
  have "returns (I b) (Option.bind (f a s) (for_each f [Suc a..<b]))"
  proof (rule returns_bind)
    show "returns (I (Suc a)) (f a s)" using Suc.prems ab by blast
  next
    fix x assume "I (Suc a) x"
    then show "returns (I b) (for_each f [Suc a..<b] x)"
      using Suc.hyps(1) [of "Suc a" x] Suc.hyps(2) Suc.prems(1) ab by simp
  qed
  then show ?case using ab by (simp add: upt_conv_Cons)
qed

text \<open>Loops whose bodies agree on the states the loop visits.\<close>

lemma for_each_cong:
  assumes "I s" "\<And>x s. x \<in> set xs \<Longrightarrow> I s \<Longrightarrow> f x s = g x s"
    and "\<And>x s s'. x \<in> set xs \<Longrightarrow> I s \<Longrightarrow> f x s = Some s' \<Longrightarrow> I s'"
  shows "for_each f xs s = for_each g xs s"
  using assms
proof (induction xs arbitrary: s)
  case (Cons x xs)
  have eq: "g x s = f x s" using Cons.prems by simp
  show ?case
  proof (cases "f x s")
    case (Some s')
    then have "I s'" using Cons.prems(1, 3) by (meson list.set_intros(1))
    then have "for_each f xs s' = for_each g xs s'"
      by (rule Cons.IH) (use Cons.prems in \<open>meson list.set_intros(2)\<close>)+
    then show ?thesis using eq Some by simp
  qed (simp add: eq)
qed simp

text \<open>\<open>Iterator::map(..).collect()\<close> of a function that may panic.\<close>

fun map_all :: "('a \<Rightarrow> 'b option) \<Rightarrow> 'a list \<Rightarrow> 'b list option" where
  "map_all f [] = Some []"
| "map_all f (x # xs) = Option.bind (f x) (\<lambda>y. map_option ((#) y) (map_all f xs))"

lemma map_all_append:
  "map_all f (xs @ ys) = Option.bind (map_all f xs) (\<lambda>as. map_option ((@) as) (map_all f ys))"
proof (induction xs)
  case Nil
  show ?case by (cases "map_all f ys") simp_all
next
  case (Cons x xs)
  show ?case
    using Cons by (cases "f x"; cases "map_all f xs"; cases "map_all f ys") simp_all
qed

lemma map_all_Some:
  "(\<And>x. x \<in> set xs \<Longrightarrow> f x \<noteq> None) \<Longrightarrow> map_all f xs = Some (map (\<lambda>x. the (f x)) xs)"
proof (induction xs)
  case (Cons x xs)
  have "f x \<noteq> None" using Cons.prems by simp
  then obtain y where "f x = Some y" by blast
  then show ?case using Cons by simp
qed simp

lemma map_all_SomeD: "map_all f xs = Some ys \<Longrightarrow> length ys = length xs \<and> (\<forall>i < length xs. f (xs ! i) = Some (ys ! i))"
proof (induction xs arbitrary: ys)
  case (Cons x xs)
  then show ?case
    by (auto simp: nth_Cons split: Option.bind_splits nat.splits)
qed simp

section \<open>Indexing\<close>

text \<open>\<open>xs[i]\<close> and \<open>xs[i] = x\<close>, with the panic out of range; also the unchecked accesses,
  where \<open>None\<close> is undefined behaviour.\<close>

definition at_index :: "'a list \<Rightarrow> nat \<Rightarrow> 'a option" where
  "at_index xs i = (if i < length xs then Some (xs ! i) else None)"

definition put_index :: "'a list \<Rightarrow> nat \<Rightarrow> 'a \<Rightarrow> 'a list option" where
  "put_index xs i x = (if i < length xs then Some (xs[i := x]) else None)"

lemma at_index_Some [simp]: "i < length xs \<Longrightarrow> at_index xs i = Some (xs ! i)"
  by (simp add: at_index_def)

lemma put_index_Some [simp]: "i < length xs \<Longrightarrow> put_index xs i x = Some (xs[i := x])"
  by (simp add: put_index_def)

section \<open>Checked u32 arithmetic\<close>

definition u32_add :: "nat \<Rightarrow> nat \<Rightarrow> nat option" where
  "u32_add a b = (if a + b < 2 ^ 32 then Some (a + b) else None)"
definition u32_sub :: "nat \<Rightarrow> nat \<Rightarrow> nat option" where
  "u32_sub a b = (if b \<le> a then Some (a - b) else None)"
definition u32_mul :: "nat \<Rightarrow> nat \<Rightarrow> nat option" where
  "u32_mul a b = (if a * b < 2 ^ 32 then Some (a * b) else None)"
definition u32_rem :: "nat \<Rightarrow> nat \<Rightarrow> nat option" where
  "u32_rem a b = (if b = 0 then None else Some (a mod b))"

lemma u32_add_Some [simp]: "a + b < 2 ^ 32 \<Longrightarrow> u32_add a b = Some (a + b)"
  by (simp add: u32_add_def)
lemma u32_sub_Some [simp]: "b \<le> a \<Longrightarrow> u32_sub a b = Some (a - b)"
  by (simp add: u32_sub_def)
lemma u32_mul_Some [simp]: "a * b < 2 ^ 32 \<Longrightarrow> u32_mul a b = Some (a * b)"
  by (simp add: u32_mul_def)
lemma u32_rem_Some [simp]: "0 < b \<Longrightarrow> u32_rem a b = Some (a mod b)"
  by (simp add: u32_rem_def)

end
