(* ===== verification/Jit_A64.thy ===== *)
theory Jit_A64
  imports Rust_Loops
begin

text \<open>
  The instruction encoder of the JIT, \<open>src/randomx/jit/aarch64.rs\<close>. An \<open>Emitter\<close> is the
  list of words it has collected; a method that pushes one word is that word as a function of
  its operands, the others are lists. Register numbers and immediates are \<open>u32\<close>, signed byte
  and word offsets are \<open>int\<close>, as \<open>i32\<close> values. The \<open>debug_assert\<close>s on immediates are the
  hypotheses of the lemmas that say what a word decodes to. Methods whose names are variables
  or constants of HOL have a suffix.
\<close>

section \<open>Registers\<close>

abbreviation (input) X0 :: u32 where "X0 \<equiv> 0"
abbreviation (input) X1 :: u32 where "X1 \<equiv> 1"
abbreviation (input) X2 :: u32 where "X2 \<equiv> 2"
abbreviation (input) X3 :: u32 where "X3 \<equiv> 3"
abbreviation (input) X4 :: u32 where "X4 \<equiv> 4"
abbreviation (input) X5 :: u32 where "X5 \<equiv> 5"
abbreviation (input) X6 :: u32 where "X6 \<equiv> 6"
abbreviation (input) X7 :: u32 where "X7 \<equiv> 7"
abbreviation (input) X8 :: u32 where "X8 \<equiv> 8"
abbreviation (input) X9 :: u32 where "X9 \<equiv> 9"
abbreviation (input) X10 :: u32 where "X10 \<equiv> 10"
abbreviation (input) X11 :: u32 where "X11 \<equiv> 11"
abbreviation (input) X12 :: u32 where "X12 \<equiv> 12"
abbreviation (input) X13 :: u32 where "X13 \<equiv> 13"
abbreviation (input) X14 :: u32 where "X14 \<equiv> 14"
abbreviation (input) X15 :: u32 where "X15 \<equiv> 15"
abbreviation (input) X16 :: u32 where "X16 \<equiv> 16"
abbreviation (input) X17 :: u32 where "X17 \<equiv> 17"
abbreviation (input) X19 :: u32 where "X19 \<equiv> 19"
abbreviation (input) X20 :: u32 where "X20 \<equiv> 20"
abbreviation (input) X21 :: u32 where "X21 \<equiv> 21"
abbreviation (input) X22 :: u32 where "X22 \<equiv> 22"
abbreviation (input) X23 :: u32 where "X23 \<equiv> 23"
abbreviation (input) X24 :: u32 where "X24 \<equiv> 24"
abbreviation (input) X25 :: u32 where "X25 \<equiv> 25"
abbreviation (input) X26 :: u32 where "X26 \<equiv> 26"
abbreviation (input) X27 :: u32 where "X27 \<equiv> 27"
abbreviation (input) X28 :: u32 where "X28 \<equiv> 28"
abbreviation (input) FP :: u32 where "FP \<equiv> 29"
abbreviation (input) LR :: u32 where "LR \<equiv> 30"
abbreviation (input) SP :: u32 where "SP \<equiv> 31"
abbreviation (input) XZR :: u32 where "XZR \<equiv> 31"
abbreviation (input) D0 :: u32 where "D0 \<equiv> 0"
abbreviation (input) D1 :: u32 where "D1 \<equiv> 1"
abbreviation (input) D2 :: u32 where "D2 \<equiv> 2"
abbreviation (input) D3 :: u32 where "D3 \<equiv> 3"
abbreviation (input) D4 :: u32 where "D4 \<equiv> 4"
abbreviation (input) D5 :: u32 where "D5 \<equiv> 5"
abbreviation (input) D6 :: u32 where "D6 \<equiv> 6"
abbreviation (input) D7 :: u32 where "D7 \<equiv> 7"
abbreviation (input) D8 :: u32 where "D8 \<equiv> 8"
abbreviation (input) D9 :: u32 where "D9 \<equiv> 9"
abbreviation (input) D10 :: u32 where "D10 \<equiv> 10"
abbreviation (input) D11 :: u32 where "D11 \<equiv> 11"
abbreviation (input) D12 :: u32 where "D12 \<equiv> 12"
abbreviation (input) D13 :: u32 where "D13 \<equiv> 13"
abbreviation (input) D14 :: u32 where "D14 \<equiv> 14"
abbreviation (input) D15 :: u32 where "D15 \<equiv> 15"
abbreviation (input) D16 :: u32 where "D16 \<equiv> 16"
abbreviation (input) D17 :: u32 where "D17 \<equiv> 17"
abbreviation (input) D18 :: u32 where "D18 \<equiv> 18"
abbreviation (input) D19 :: u32 where "D19 \<equiv> 19"
abbreviation (input) D20 :: u32 where "D20 \<equiv> 20"
abbreviation (input) D21 :: u32 where "D21 \<equiv> 21"
abbreviation (input) D22 :: u32 where "D22 \<equiv> 22"
abbreviation (input) D23 :: u32 where "D23 \<equiv> 23"
abbreviation (input) D24 :: u32 where "D24 \<equiv> 24"
abbreviation (input) D25 :: u32 where "D25 \<equiv> 25"
abbreviation (input) D26 :: u32 where "D26 \<equiv> 26"

section \<open>Integer arithmetic\<close>

definition add_reg :: "u32 \<Rightarrow> u32 \<Rightarrow> u32 \<Rightarrow> u32" where
  "add_reg rd rn rm = 0x8B000000 OR push_bit 16 rm OR push_bit 5 rn OR rd"
definition add_reg_shifted :: "u32 \<Rightarrow> u32 \<Rightarrow> u32 \<Rightarrow> u32 \<Rightarrow> u32" where
  "add_reg_shifted rd rn rm shift =
     0x8B000000 OR push_bit 16 rm OR push_bit 10 (shift AND 0x3F) OR push_bit 5 rn OR rd"
definition add_imm :: "u32 \<Rightarrow> u32 \<Rightarrow> u32 \<Rightarrow> u32" where
  "add_imm rd rn imm12 = 0x91000000 OR push_bit 10 (imm12 AND 0xFFF) OR push_bit 5 rn OR rd"
definition sub_reg :: "u32 \<Rightarrow> u32 \<Rightarrow> u32 \<Rightarrow> u32" where
  "sub_reg rd rn rm = 0xCB000000 OR push_bit 16 rm OR push_bit 5 rn OR rd"
definition sub_imm :: "u32 \<Rightarrow> u32 \<Rightarrow> u32 \<Rightarrow> u32" where
  "sub_imm rd rn imm12 = 0xD1000000 OR push_bit 10 (imm12 AND 0xFFF) OR push_bit 5 rn OR rd"
definition subs_imm :: "u32 \<Rightarrow> u32 \<Rightarrow> u32 \<Rightarrow> u32" where
  "subs_imm rd rn imm12 = 0xF1000000 OR push_bit 10 (imm12 AND 0xFFF) OR push_bit 5 rn OR rd"
definition eor_reg_w :: "u32 \<Rightarrow> u32 \<Rightarrow> u32 \<Rightarrow> u32" where
  "eor_reg_w rd rn rm = 0x4A000000 OR push_bit 16 rm OR push_bit 5 rn OR rd"

text \<open>The signed 7-bit field of the pair instructions: \<open>(byte_offset / 8) as u32 & 0x7F\<close>, with
  division truncating as in Rust.\<close>

definition imm7 :: "int \<Rightarrow> u32" where
  "imm7 byte_offset = word_of_int (sgn byte_offset * (\<bar>byte_offset\<bar> div 8)) AND 0x7F"

definition prfm_reg :: "u32 \<Rightarrow> u32 \<Rightarrow> u32" where
  "prfm_reg rn rm = 0xF8A06800 OR push_bit 16 rm OR push_bit 5 rn"
definition prfm_imm :: "u32 \<Rightarrow> u32 \<Rightarrow> u32" where
  "prfm_imm rn byte_offset = 0xF9800000 OR push_bit 10 (byte_offset div 8) OR push_bit 5 rn"
definition stp_fp_imm :: "u32 \<Rightarrow> u32 \<Rightarrow> u32 \<Rightarrow> int \<Rightarrow> u32" where
  "stp_fp_imm dt1 dt2 rn byte_offset = 0x6D000000 OR push_bit 15 (imm7 byte_offset) OR push_bit 10 dt2 OR push_bit 5 rn OR dt1"
definition ldp_fp_imm :: "u32 \<Rightarrow> u32 \<Rightarrow> u32 \<Rightarrow> int \<Rightarrow> u32" where
  "ldp_fp_imm dt1 dt2 rn byte_offset = 0x6D400000 OR push_bit 15 (imm7 byte_offset) OR push_bit 10 dt2 OR push_bit 5 rn OR dt1"
definition neg_reg :: "u32 \<Rightarrow> u32 \<Rightarrow> u32" where
  "neg_reg rd rn = sub_reg rd XZR rn"
definition mul_reg :: "u32 \<Rightarrow> u32 \<Rightarrow> u32 \<Rightarrow> u32" where
  "mul_reg rd rn rm = 0x9B007C00 OR push_bit 16 rm OR push_bit 5 rn OR rd"
definition umulh_reg :: "u32 \<Rightarrow> u32 \<Rightarrow> u32 \<Rightarrow> u32" where
  "umulh_reg rd rn rm = 0x9BC07C00 OR push_bit 16 rm OR push_bit 5 rn OR rd"
definition smulh_reg :: "u32 \<Rightarrow> u32 \<Rightarrow> u32 \<Rightarrow> u32" where
  "smulh_reg rd rn rm = 0x9B407C00 OR push_bit 16 rm OR push_bit 5 rn OR rd"

section \<open>Bitwise operations, shifts and rotates\<close>

definition eor_reg :: "u32 \<Rightarrow> u32 \<Rightarrow> u32 \<Rightarrow> u32" where
  "eor_reg rd rn rm = 0xCA000000 OR push_bit 16 rm OR push_bit 5 rn OR rd"
definition and_reg :: "u32 \<Rightarrow> u32 \<Rightarrow> u32 \<Rightarrow> u32" where
  "and_reg rd rn rm = 0x8A000000 OR push_bit 16 rm OR push_bit 5 rn OR rd"
definition and_imm :: "u32 \<Rightarrow> u32 \<Rightarrow> u32 \<Rightarrow> u32 \<Rightarrow> u32 \<Rightarrow> u32" where
  "and_imm rd rn n immr imms =
     0x92000000 OR push_bit 22 n OR push_bit 16 immr OR push_bit 10 imms OR push_bit 5 rn OR rd"
definition tst_imm :: "u32 \<Rightarrow> u32 \<Rightarrow> u32 \<Rightarrow> u32 \<Rightarrow> u32" where
  "tst_imm rn n immr imms =
     0xF2000000 OR push_bit 22 n OR push_bit 16 immr OR push_bit 10 imms OR push_bit 5 rn OR XZR"
definition orr_reg :: "u32 \<Rightarrow> u32 \<Rightarrow> u32 \<Rightarrow> u32" where
  "orr_reg rd rn rm = 0xAA000000 OR push_bit 16 rm OR push_bit 5 rn OR rd"
definition rorv :: "u32 \<Rightarrow> u32 \<Rightarrow> u32 \<Rightarrow> u32" where
  "rorv rd rn rm = 0x9AC02C00 OR push_bit 16 rm OR push_bit 5 rn OR rd"
definition ror_imm :: "u32 \<Rightarrow> u32 \<Rightarrow> u32 \<Rightarrow> u32" where
  "ror_imm rd rs imm6 =
     0x93C00000 OR push_bit 16 rs OR push_bit 10 (imm6 AND 0x3F) OR push_bit 5 rs OR rd"
definition lsrv :: "u32 \<Rightarrow> u32 \<Rightarrow> u32 \<Rightarrow> u32" where
  "lsrv rd rn rm = 0x9AC02400 OR push_bit 16 rm OR push_bit 5 rn OR rd"
definition lsr_imm :: "u32 \<Rightarrow> u32 \<Rightarrow> u32 \<Rightarrow> u32" where
  "lsr_imm rd rn imm6 = 0xD340FC00 OR push_bit 16 (imm6 AND 0x3F) OR push_bit 5 rn OR rd"
definition lsl_imm :: "u32 \<Rightarrow> u32 \<Rightarrow> u32 \<Rightarrow> u32" where
  "lsl_imm rd rn imm6 =
     0xD3400000 OR push_bit 16 ((64 - imm6) AND 0x3F) OR push_bit 10 ((63 - imm6) AND 0x3F) OR
     push_bit 5 rn OR rd"

section \<open>Moves\<close>

definition mov_reg :: "u32 \<Rightarrow> u32 \<Rightarrow> u32" where
  "mov_reg rd rn = orr_reg rd XZR rn"

definition movz :: "u32 \<Rightarrow> u32 \<Rightarrow> u32 \<Rightarrow> u32" where
  "movz rd imm16 shift = 0xD2800000 OR push_bit 21 (shift div 16) OR push_bit 5 (imm16 AND 0xFFFF) OR rd"
definition movk :: "u32 \<Rightarrow> u32 \<Rightarrow> u32 \<Rightarrow> u32" where
  "movk rd imm16 shift = 0xF2800000 OR push_bit 21 (shift div 16) OR push_bit 5 (imm16 AND 0xFFFF) OR rd"
definition movn :: "u32 \<Rightarrow> u32 \<Rightarrow> u32 \<Rightarrow> u32" where
  "movn rd imm16 shift = 0x92800000 OR push_bit 21 (shift div 16) OR push_bit 5 (imm16 AND 0xFFFF) OR rd"

text \<open>\<open>mov_imm64\<close>: the four 16-bit chunks of the immediate and of its complement, then one of
  two loops over the chunk index; \<open>first\<close> is the code's flag. In the \<open>MOVN\<close> loop the two
  \<open>continue\<close>s are inside \<open>if first\<close>.\<close>

definition chunk16 :: "u64 \<Rightarrow> nat \<Rightarrow> u32" where
  "chunk16 imm i = ucast (drop_bit (16 * i) imm AND 0xFFFF)"

definition movn_step :: "u32 \<Rightarrow> u64 \<Rightarrow> bool \<times> u32 list \<Rightarrow> nat \<Rightarrow> bool \<times> u32 list" where
  "movn_step rd imm = (\<lambda>(first, out) i.
     if chunk16 (NOT imm) i \<noteq> 0 \<or> first then
       (let idx = (case find (\<lambda>j. chunk16 (NOT imm) j \<noteq> 0) [0..<4] of Some j \<Rightarrow> j | None \<Rightarrow> 0);
            out = (if first then out @ [movn rd (chunk16 (NOT imm) idx) (of_nat idx * 16)] else out)
        in if first \<and> i \<le> idx then (False, out)
           else if chunk16 imm i \<noteq> 0xFFFF then (False, out @ [movk rd (chunk16 imm i) (of_nat i * 16)])
           else (False, out))
     else (first, out))"

definition movz_step :: "u32 \<Rightarrow> u64 \<Rightarrow> bool \<times> u32 list \<Rightarrow> nat \<Rightarrow> bool \<times> u32 list" where
  "movz_step rd imm = (\<lambda>(first, out) i.
     if chunk16 imm i \<noteq> 0 \<or> (first \<and> i = 3) then
       (if first then (False, out @ [movz rd (chunk16 imm i) (of_nat i * 16)])
        else (first, out @ [movk rd (chunk16 imm i) (of_nat i * 16)]))
     else (first, out))"

definition mov_imm64 :: "u32 \<Rightarrow> u64 \<Rightarrow> u32 list" where
  "mov_imm64 rd imm =
     (if imm = 0 then [movz rd 0 0]
      else
        let nz_count = length (filter (\<lambda>i. chunk16 imm i \<noteq> 0) [0..<4]);
            inv_nz_count = length (filter (\<lambda>i. chunk16 (NOT imm) i \<noteq> 0) [0..<4])
        in if inv_nz_count < nz_count then snd (foldl (movn_step rd imm) (True, []) [0..<4])
           else snd (foldl (movz_step rd imm) (True, []) [0..<4]))"

section \<open>Loads and stores\<close>

definition ldr_reg :: "u32 \<Rightarrow> u32 \<Rightarrow> u32 \<Rightarrow> u32" where
  "ldr_reg rt rn rm = 0xF8606800 OR push_bit 16 rm OR push_bit 5 rn OR rt"
definition ldr_imm :: "u32 \<Rightarrow> u32 \<Rightarrow> u32 \<Rightarrow> u32" where
  "ldr_imm rt rn byte_offset = 0xF9400000 OR push_bit 10 (byte_offset div 8) OR push_bit 5 rn OR rt"
definition str_reg :: "u32 \<Rightarrow> u32 \<Rightarrow> u32 \<Rightarrow> u32" where
  "str_reg rt rn rm = 0xF8206800 OR push_bit 16 rm OR push_bit 5 rn OR rt"
definition str_imm :: "u32 \<Rightarrow> u32 \<Rightarrow> u32 \<Rightarrow> u32" where
  "str_imm rt rn byte_offset = 0xF9000000 OR push_bit 10 (byte_offset div 8) OR push_bit 5 rn OR rt"
definition ldr_fp_imm :: "u32 \<Rightarrow> u32 \<Rightarrow> u32 \<Rightarrow> u32" where
  "ldr_fp_imm dt rn byte_offset = 0xFD400000 OR push_bit 10 (byte_offset div 8) OR push_bit 5 rn OR dt"
definition str_fp_imm :: "u32 \<Rightarrow> u32 \<Rightarrow> u32 \<Rightarrow> u32" where
  "str_fp_imm dt rn byte_offset = 0xFD000000 OR push_bit 10 (byte_offset div 8) OR push_bit 5 rn OR dt"
definition stp_pre :: "u32 \<Rightarrow> u32 \<Rightarrow> u32 \<Rightarrow> int \<Rightarrow> u32" where
  "stp_pre rt1 rt2 rn byte_offset = 0xA9800000 OR push_bit 15 (imm7 byte_offset) OR push_bit 10 rt2 OR push_bit 5 rn OR rt1"
definition ldp_post :: "u32 \<Rightarrow> u32 \<Rightarrow> u32 \<Rightarrow> int \<Rightarrow> u32" where
  "ldp_post rt1 rt2 rn byte_offset = 0xA8C00000 OR push_bit 15 (imm7 byte_offset) OR push_bit 10 rt2 OR push_bit 5 rn OR rt1"
definition stp_fp_pre :: "u32 \<Rightarrow> u32 \<Rightarrow> u32 \<Rightarrow> int \<Rightarrow> u32" where
  "stp_fp_pre dt1 dt2 rn byte_offset = 0x6D800000 OR push_bit 15 (imm7 byte_offset) OR push_bit 10 dt2 OR push_bit 5 rn OR dt1"
definition ldp_fp_post :: "u32 \<Rightarrow> u32 \<Rightarrow> u32 \<Rightarrow> int \<Rightarrow> u32" where
  "ldp_fp_post dt1 dt2 rn byte_offset = 0x6CC00000 OR push_bit 15 (imm7 byte_offset) OR push_bit 10 dt2 OR push_bit 5 rn OR dt1"
definition ldr_w_reg :: "u32 \<Rightarrow> u32 \<Rightarrow> u32 \<Rightarrow> u32" where
  "ldr_w_reg rt rn rm = 0xB8606800 OR push_bit 16 rm OR push_bit 5 rn OR rt"
definition ldrsw_reg :: "u32 \<Rightarrow> u32 \<Rightarrow> u32 \<Rightarrow> u32" where
  "ldrsw_reg rt rn rm = 0xB8A06800 OR push_bit 16 rm OR push_bit 5 rn OR rt"

section \<open>Floating point\<close>

definition fadd :: "u32 \<Rightarrow> u32 \<Rightarrow> u32 \<Rightarrow> u32" where
  "fadd rd rn rm = 0x1E602800 OR push_bit 16 rm OR push_bit 5 rn OR rd"
definition fsub :: "u32 \<Rightarrow> u32 \<Rightarrow> u32 \<Rightarrow> u32" where
  "fsub rd rn rm = 0x1E603800 OR push_bit 16 rm OR push_bit 5 rn OR rd"
definition fmul :: "u32 \<Rightarrow> u32 \<Rightarrow> u32 \<Rightarrow> u32" where
  "fmul rd rn rm = 0x1E600800 OR push_bit 16 rm OR push_bit 5 rn OR rd"
definition fdiv :: "u32 \<Rightarrow> u32 \<Rightarrow> u32 \<Rightarrow> u32" where
  "fdiv rd rn rm = 0x1E601800 OR push_bit 16 rm OR push_bit 5 rn OR rd"
definition fsqrt :: "u32 \<Rightarrow> u32 \<Rightarrow> u32" where
  "fsqrt rd rn = 0x1E61C000 OR push_bit 5 rn OR rd"
definition fmov_dd :: "u32 \<Rightarrow> u32 \<Rightarrow> u32" where
  "fmov_dd rd rn = 0x1E604000 OR push_bit 5 rn OR rd"
definition fmov_xd :: "u32 \<Rightarrow> u32 \<Rightarrow> u32" where
  "fmov_xd rd dn = 0x9E660000 OR push_bit 5 dn OR rd"
definition fmov_dx :: "u32 \<Rightarrow> u32 \<Rightarrow> u32" where
  "fmov_dx dd rn = 0x9E670000 OR push_bit 5 rn OR dd"
definition scvtf_dx :: "u32 \<Rightarrow> u32 \<Rightarrow> u32" where
  "scvtf_dx dd xn = 0x9E620000 OR push_bit 5 xn OR dd"
definition scvtf_dw :: "u32 \<Rightarrow> u32 \<Rightarrow> u32" where
  "scvtf_dw dd wn = 0x1E620000 OR push_bit 5 wn OR dd"
definition eor_v8b :: "u32 \<Rightarrow> u32 \<Rightarrow> u32 \<Rightarrow> u32" where
  "eor_v8b vd vn vm = 0x2E201C00 OR push_bit 16 vm OR push_bit 5 vn OR vd"

section \<open>Branches and system registers\<close>

definition b_cond :: "u32 \<Rightarrow> int \<Rightarrow> u32" where
  "b_cond cond offset_words = 0x54000000 OR push_bit 5 (word_of_int offset_words AND 0x7FFFF) OR cond"
definition b_jump :: "int \<Rightarrow> u32" where
  "b_jump offset_words = 0x14000000 OR (word_of_int offset_words AND 0x3FFFFFF)"
definition bl_jump :: "int \<Rightarrow> u32" where
  "bl_jump offset_words = 0x94000000 OR (word_of_int offset_words AND 0x3FFFFFF)"
definition ret_lr :: u32 where
  "ret_lr = 0xD65F03C0"
definition br_jump :: "u32 \<Rightarrow> u32" where
  "br_jump rn = 0xD61F0000 OR push_bit 5 rn"
definition msr_fpcr :: "u32 \<Rightarrow> u32" where
  "msr_fpcr rn = 0xD51B4400 OR rn"
definition mrs_fpcr :: "u32 \<Rightarrow> u32" where
  "mrs_fpcr rd = 0xD53B4400 OR rd"

section \<open>Bitmask immediates\<close>

text \<open>\<open>u64::trailing_ones\<close>, and the masks \<open>if n >= 64 { !0 } else { (1 << n) - 1 }\<close>.\<close>

definition trailing_ones :: "u64 \<Rightarrow> nat" where
  "trailing_ones w = length (takeWhile (bit w) [0..<64])"

definition low_mask :: "nat \<Rightarrow> u64" where
  "low_mask n = (if 64 \<le> n then NOT 0 else push_bit n 1 - 1)"

text \<open>The loop that halves the element size while the halves agree.\<close>

function element_size :: "nat \<Rightarrow> u64 \<Rightarrow> nat" where
  "element_size esize tmp =
     (if 2 < esize then
        (let half = esize div 2; mask = low_mask half
         in if tmp AND mask = drop_bit half tmp AND mask then element_size half (tmp AND mask) else esize)
      else esize)"
  by auto
termination by (relation "measure fst") auto

declare element_size.simps [simp del]

text \<open>The loop over the rotations: the first that makes the pattern a run of ones from bit 0,
  as \<open>(ones, rotation)\<close>.\<close>

definition rotated_pattern :: "nat \<Rightarrow> u64 \<Rightarrow> nat \<Rightarrow> u64" where
  "rotated_pattern esize pattern rot =
     (if rot = 0 then pattern
      else (drop_bit rot pattern OR push_bit (esize - rot) pattern) AND low_mask esize)"

fun find_rotation :: "nat \<Rightarrow> u64 \<Rightarrow> nat list \<Rightarrow> (nat \<times> nat) option" where
  "find_rotation esize pattern [] = None"
| "find_rotation esize pattern (rot # rots) =
     (let rotated = rotated_pattern esize pattern rot;
          trail = min (trailing_ones rotated) esize
      in if rotated = low_mask trail AND low_mask esize \<and> 0 < trail then Some (trail, rot)
         else find_rotation esize pattern rots)"

definition encode_bitmask_imm :: "u64 \<Rightarrow> (u32 \<times> u32 \<times> u32) option" where
  "encode_bitmask_imm value =
     (if value = 0 \<or> value = NOT 0 then None
      else
        let esize = element_size 64 value;
            pattern = value AND low_mask esize
        in case find_rotation esize pattern [0..<esize] of
             None \<Rightarrow> None
           | Some (ones, rotation) \<Rightarrow>
               (let n = (if esize = 64 then 1 else 0);
                    immr = (if rotation = 0 then 0 else of_nat (esize - rotation) AND of_nat (esize - 1));
                    size_encoding = NOT (of_nat (esize * 2 - 1)) AND 0x3F;
                    imms = size_encoding OR of_nat (ones - 1)
                in Some (n, immr, imms AND 0x3F)))"

definition and_bitmask :: "u32 \<Rightarrow> u32 \<Rightarrow> u64 \<Rightarrow> u32 \<Rightarrow> u32 list" where
  "and_bitmask rd rn value tmp =
     (case encode_bitmask_imm value of
        Some (n, immr, imms) \<Rightarrow> [and_imm rd rn n immr imms]
      | None \<Rightarrow> mov_imm64 tmp value @ [and_reg rd rn tmp])"

definition tst_bitmask :: "u32 \<Rightarrow> u64 \<Rightarrow> u32 \<Rightarrow> u32 list" where
  "tst_bitmask rn value tmp =
     (case encode_bitmask_imm value of
        Some (n, immr, imms) \<Rightarrow> [tst_imm rn n immr imms]
      | None \<Rightarrow> mov_imm64 tmp value @ [0xEA000000 OR push_bit 16 tmp OR push_bit 5 rn OR XZR])"

end
