(* ===== verification/Superscalar_Exec.thy ===== *)
theory Superscalar_Exec
  imports Rust_Base
begin

text \<open>
  \<open>src/randomx/superscalar.rs\<close>, the data of a SuperscalarHash program and its execution:
  \<open>SuperscalarInstruction\<close>, \<open>SuperscalarProgram\<close>, \<open>randomx_reciprocal\<close>,
  \<open>execute_superscalar\<close>. A panic (a zero divisor, a register index out of range of the
  \<open>[u64; 8]\<close>) is \<open>None\<close>. The lemmas characterise the reciprocal as the truncated
  quotient of a power of two and show that a well-formed program never panics.
\<close>

section \<open>Programs\<close>

record ss_instruction =
  ssi_opcode :: u8
  ssi_dst :: u8
  ssi_src :: u8
  ssi_mod :: u8
  ssi_imm32 :: u32

record ss_program =
  ssp_instructions :: "ss_instruction list"
  ssp_address_register :: nat

section \<open>The reciprocal\<close>

text \<open>\<open>64 - leading_zeros\<close> is the number of significant bits.\<close>

fun bit_len :: "nat \<Rightarrow> nat" where
  "bit_len n = (if n = 0 then 0 else Suc (bit_len (n div 2)))"

declare bit_len.simps [simp del]

definition leading_zeros :: "u64 \<Rightarrow> nat" where
  "leading_zeros x = 64 - bit_len (unat x)"

definition randomx_reciprocal :: "u32 \<Rightarrow> u64 option" where
  "randomx_reciprocal divisor =
     (if divisor = 0 then None
      else let d = ucast divisor :: u64;
               p2exp63 = push_bit 63 1 :: u64;
               q = p2exp63 div d;
               r = p2exp63 mod d;
               shift = 64 - leading_zeros d
           in Some (push_bit shift q + push_bit shift r div d))"

definition is_zero_or_power_of_2 :: "u32 \<Rightarrow> bool" where
  "is_zero_or_power_of_2 x \<longleftrightarrow> x = 0 \<or> x AND (x - 1) = 0"

section \<open>Execution\<close>

definition umulh :: "u64 \<Rightarrow> u64 \<Rightarrow> u64" where
  "umulh a b = ucast (drop_bit 64 (ucast a * ucast b :: u128))"

definition smulh64 :: "u64 \<Rightarrow> u64 \<Rightarrow> u64" where
  "smulh64 a b = ucast (signed_drop_bit 64 (scast a * scast b :: u128))"

definition sext32 :: "u32 \<Rightarrow> u64" where
  "sext32 x = scast x"

text \<open>One iteration of \<open>execute_superscalar\<close>; the arms in the order of the \<open>match\<close>.\<close>

definition ss_step :: "u64 list \<Rightarrow> ss_instruction \<Rightarrow> u64 list option" where
  "ss_step r inst =
     (let dst = unat (ssi_dst inst); src = unat (ssi_src inst);
          op = ssi_opcode inst
      in if dst < 8 \<and> src < 8 then
           (if op = 0 then Some (r[dst := r ! dst - r ! src])
            else if op = 1 then Some (r[dst := r ! dst XOR r ! src])
            else if op = 2 then
              Some (r[dst := r ! dst + push_bit (unat (drop_bit 2 (ssi_mod inst) mod 4)) (r ! src)])
            else if op = 3 then Some (r[dst := r ! dst * r ! src])
            else if op = 4 then Some (r[dst := rotate_right (unat (ssi_imm32 inst)) (r ! dst)])
            else if op = 5 \<or> op = 7 \<or> op = 9 then
              Some (r[dst := r ! dst + sext32 (ssi_imm32 inst)])
            else if op = 6 \<or> op = 8 \<or> op = 10 then
              Some (r[dst := r ! dst XOR sext32 (ssi_imm32 inst)])
            else if op = 11 then Some (r[dst := umulh (r ! dst) (r ! src)])
            else if op = 12 then Some (r[dst := smulh64 (r ! dst) (r ! src)])
            else if op = 13 then
              map_option (\<lambda>rcp. r[dst := r ! dst * rcp]) (randomx_reciprocal (ssi_imm32 inst))
            else Some r)
         else None)"

fun execute_instructions :: "u64 list \<Rightarrow> ss_instruction list \<Rightarrow> u64 list option" where
  "execute_instructions r [] = Some r"
| "execute_instructions r (inst # rest) =
     (case ss_step r inst of None \<Rightarrow> None | Some r' \<Rightarrow> execute_instructions r' rest)"

definition execute_superscalar :: "u64 list \<Rightarrow> ss_program \<Rightarrow> u64 list option" where
  "execute_superscalar r prog = execute_instructions r (ssp_instructions prog)"

section \<open>Bit length\<close>

lemma bit_len_0 [simp]: "bit_len 0 = 0"
  by (simp add: bit_len.simps)

lemma bit_len_pos: "0 < n \<Longrightarrow> bit_len n = Suc (bit_len (n div 2))"
  by (subst bit_len.simps) simp

lemma less_exp_bit_len: "n < 2 ^ bit_len n"
proof (induction n rule: bit_len.induct)
  case (1 n)
  show ?case
  proof (cases "n = 0")
    case False
    with 1 have "n div 2 < 2 ^ bit_len (n div 2)" by simp
    with False show ?thesis by (simp add: bit_len_pos)
  qed simp
qed

lemma exp_bit_len_le: "0 < n \<Longrightarrow> 2 ^ (bit_len n - 1) \<le> n"
proof (induction n rule: bit_len.induct)
  case (1 n)
  show ?case
  proof (cases "n div 2 = 0")
    case True
    with 1 show ?thesis by (simp add: bit_len_pos)
  next
    case False
    with 1 have "2 ^ (bit_len (n div 2) - 1) \<le> n div 2" by simp
    moreover have "bit_len (n div 2) = Suc (bit_len (n div 2) - 1)"
      using False by (simp add: bit_len_pos)
    ultimately have "2 ^ bit_len (n div 2) \<le> 2 * (n div 2)"
      by (metis mult_le_mono2 power_Suc)
    also have "\<dots> \<le> n" by simp
    finally show ?thesis using 1(2) by (simp add: bit_len_pos)
  qed
qed

lemma bit_len_le: "n < 2 ^ k \<Longrightarrow> bit_len n \<le> k"
proof (rule ccontr)
  assume n: "n < 2 ^ k" and "\<not> bit_len n \<le> k"
  then have k: "k \<le> bit_len n - 1" and "0 < n" by (auto intro: ccontr)
  have "(2 :: nat) ^ k \<le> 2 ^ (bit_len n - 1)" using k by simp
  also have "\<dots> \<le> n" by (rule exp_bit_len_le [OF \<open>0 < n\<close>])
  finally show False using n by simp
qed

section \<open>What the reciprocal is\<close>

text \<open>The number-theoretic core: splitting \<open>2 ^ 63\<close> by the divisor loses nothing.\<close>

lemma reciprocal_split:
  fixes d s :: nat
  assumes "0 < d"
  shows "2 ^ (63 + s) div d = (2 ^ 63 div d) * 2 ^ s + (2 ^ 63 mod d) * 2 ^ s div d"
proof -
  have "(2 :: nat) ^ (63 + s) = (d * (2 ^ 63 div d) + 2 ^ 63 mod d) * 2 ^ s"
    by (simp add: power_add)
  also have "\<dots> = d * ((2 ^ 63 div d) * 2 ^ s) + (2 ^ 63 mod d) * 2 ^ s"
    by (simp only: distrib_right mult.assoc)
  finally show ?thesis using assms by (simp only: div_mult_self4)
qed

lemma reciprocal_bound:
  fixes d s :: nat
  assumes "2 ^ (s - 1) < d" "0 < s"
  shows "2 ^ (63 + s) div d < 2 ^ 64"
proof -
  have "(2 :: nat) ^ (63 + s) = 2 ^ 64 * 2 ^ (s - 1)"
    using assms(2) by (simp only: power_add [symmetric]) simp
  also have "\<dots> < 2 ^ 64 * d" using assms(1) by simp
  finally show ?thesis
    by (simp add: less_mult_imp_div_less mult.commute)
qed

text \<open>The value of the code's expression, before any condition on the divisor.\<close>

lemma reciprocal_value:
  assumes "divisor \<noteq> 0" "randomx_reciprocal divisor = Some rcp"
  shows "unat rcp = (2 ^ (63 + bit_len (unat divisor)) div unat divisor) mod 2 ^ 64"
proof -
  define n s where "n = unat divisor" and "s = bit_len n"
  have n: "0 < n" "n < 2 ^ 32"
    using assms(1) unat_lt [of divisor] by (auto simp: n_def unat_gt_0 word_gt_0_no)
  have s: "s \<le> 32" "n < 2 ^ s" unfolding s_def
    using bit_len_le [OF n(2)] less_exp_bit_len by auto
  have d: "unat (ucast divisor :: u64) = n" by (simp add: n_def unsigned_ucast_eq take_bit_nat_eq_self unat_lt [THEN less_trans])
  let ?q = "push_bit 63 1 div ucast divisor :: u64"
  let ?r = "push_bit 63 1 mod ucast divisor :: u64"
  have q: "unat ?q = 2 ^ 63 div n" and r: "unat ?r = 2 ^ 63 mod n"
    by (simp_all add: unat_div unat_mod d)
  have "2 ^ 63 mod n * 2 ^ s < 2 ^ s * 2 ^ s"
    using less_trans [OF mod_less_divisor [OF n(1), of "2 ^ 63"] s(2)]
    by (simp only: mult_less_cancel2) simp
  also have "\<dots> = 2 ^ (s + s)" by (rule power_add [symmetric])
  also have "\<dots> \<le> 2 ^ 64" by (rule power_increasing) (use s(1) in simp_all)
  finally have rs: "unat (push_bit s ?r) = 2 ^ 63 mod n * 2 ^ s"
    by (simp only: unsigned_push_bit_eq r) (simp add: take_bit_nat_eq_self push_bit_eq_mult)
  have qs: "unat (push_bit s ?q) = (2 ^ 63 div n) * 2 ^ s mod 2 ^ 64"
    by (simp only: unsigned_push_bit_eq q) (simp add: take_bit_eq_mod push_bit_eq_mult)
  have "rcp = push_bit s ?q + push_bit s ?r div ucast divisor"
    using assms s(1)
    by (simp add: randomx_reciprocal_def Let_def leading_zeros_def d flip: s_def)
  then have "unat rcp =
      (unat (push_bit s ?q) + unat (push_bit s ?r) div unat (ucast divisor :: u64)) mod 2 ^ 64"
    by (simp only: unat_word_ariths unat_div) (simp add: mod_add_right_eq)
  also have "\<dots> = ((2 ^ 63 div n) * 2 ^ s mod 2 ^ 64 + (2 ^ 63 mod n) * 2 ^ s div n) mod 2 ^ 64"
    by (simp only: rs d qs)
  also have "\<dots> = ((2 ^ 63 div n) * 2 ^ s + (2 ^ 63 mod n) * 2 ^ s div n) mod 2 ^ 64"
    by (simp only: mod_add_left_eq)
  also have "\<dots> = 2 ^ (63 + s) div n mod 2 ^ 64"
    by (simp only: reciprocal_split [OF n(1)])
  finally show ?thesis by (simp only: n_def s_def)
qed

lemma bit_word_unat: "bit (x :: 'a::len word) k \<longleftrightarrow> odd (unat x div 2 ^ k)"
  by (simp add: bit_unsigned_iff flip: bit_iff_odd)

lemma div_eq_1: "(b :: nat) \<le> a \<Longrightarrow> a < 2 * b \<Longrightarrow> a div b = 1"
  by (rule div_nat_eqI) simp_all

lemma power_of_2_iff:
  fixes x :: u32
  assumes "x \<noteq> 0"
  shows "x AND (x - 1) = 0 \<longleftrightarrow> unat x = 2 ^ (bit_len (unat x) - 1)"
proof -
  define n s where "n = unat x" and "s = bit_len n - 1"
  have n: "0 < n" "n < 2 ^ 32"
    using assms(1) unat_lt [of x] by (auto simp: n_def unat_gt_0 word_gt_0_no)
  have lo: "2 ^ s \<le> n" using exp_bit_len_le [OF n(1)] by (simp add: s_def)
  have hi: "n < 2 * 2 ^ s" using less_exp_bit_len [of n] n(1) by (simp add: s_def bit_len_pos)
  have pred: "unat (x - 1) = n - 1"
    using assms by (simp add: n_def unat_minus_one)
  show ?thesis
  proof
    assume and0: "x AND (x - 1) = 0"
    show "unat x = 2 ^ (bit_len (unat x) - 1)"
    proof (rule ccontr)
      assume "\<not> ?thesis"
      then have "2 ^ s < n" using lo by (simp add: n_def s_def)
      then have "bit x s" "bit (x - 1) s"
        using hi div_eq_1 [of "2 ^ s" n] div_eq_1 [of "2 ^ s" "n - 1"]
        by (simp_all add: bit_word_unat pred flip: n_def)
      then have "bit (x AND (x - 1)) s" by (simp add: bit_and_iff)
      then show False by (simp add: and0)
    qed
  next
    assume "unat x = 2 ^ (bit_len (unat x) - 1)"
    then have x: "unat x = 2 ^ s" by (simp only: n_def s_def)
    have "x = of_nat (unat x)" by simp
    also have "\<dots> = 2 ^ s" by (simp add: x)
    finally have "x AND (x - 1) = 2 ^ s AND mask s" by (simp only: mask_eq_exp_minus_1)
    also have "\<dots> = 0" by (rule bit_word_eqI) (auto simp: bit_simps)
    finally show "x AND (x - 1) = 0" .
  qed
qed

text \<open>For the divisors the generator accepts, the reciprocal is
  \<open>2 ^ (63 + k) div divisor\<close> with \<open>k\<close> the bit length of the divisor, and it has its top bit
  set. For a power of two the true quotient is \<open>2 ^ 64\<close>, and the code's result wraps to 0.\<close>

lemma reciprocal_lower:
  fixes d s :: nat
  assumes "d < 2 ^ s" "0 < d"
  shows "2 ^ 63 \<le> 2 ^ (63 + s) div d"
proof -
  have "2 ^ 63 * d \<le> 2 ^ 63 * (2 :: nat) ^ s" using assms(1) by simp
  also have "\<dots> = 2 ^ (63 + s)" by (rule power_add [symmetric])
  finally show ?thesis using assms(2) by (simp only: less_eq_div_iff_mult_less_eq)
qed

lemma reciprocal_general:
  assumes "\<not> is_zero_or_power_of_2 divisor" "randomx_reciprocal divisor = Some rcp"
  shows "unat rcp = 2 ^ (63 + bit_len (unat divisor)) div unat divisor \<and> 2 ^ 63 \<le> unat rcp"
proof -
  have nz: "divisor \<noteq> 0" and "unat divisor \<noteq> 2 ^ (bit_len (unat divisor) - 1)"
    using assms(1) power_of_2_iff [of divisor] by (auto simp: is_zero_or_power_of_2_def)
  moreover have pos: "0 < unat divisor" using nz by (simp add: unat_gt_0 word_gt_0_no)
  ultimately have "2 ^ (bit_len (unat divisor) - 1) < unat divisor"
    using exp_bit_len_le [of "unat divisor"] by linarith
  then have "2 ^ (63 + bit_len (unat divisor)) div unat divisor < 2 ^ 64"
    by (rule reciprocal_bound) (use pos in \<open>simp add: bit_len_pos\<close>)
  then show ?thesis
    using reciprocal_value [OF nz assms(2)] reciprocal_lower [OF less_exp_bit_len pos]
    by (simp only: mod_less)
qed

lemma reciprocal_power_of_2:
  assumes "divisor \<noteq> 0" "is_zero_or_power_of_2 divisor"
  shows "randomx_reciprocal divisor = Some 0"
proof -
  obtain rcp where rcp: "randomx_reciprocal divisor = Some rcp"
    using assms(1) by (auto simp: randomx_reciprocal_def Let_def)
  define s where "s = bit_len (unat divisor)"
  have "unat divisor = 2 ^ (s - 1)"
    using assms power_of_2_iff [of divisor] by (simp add: is_zero_or_power_of_2_def s_def)
  moreover have "2 ^ (63 + s) = 2 ^ 64 * (2 :: nat) ^ (s - 1)"
  proof -
    have "0 < unat divisor" using assms(1) by (simp add: unat_gt_0 word_gt_0_no)
    then have "63 + s = 64 + (s - 1)" by (simp add: s_def bit_len_pos)
    then show ?thesis by (simp only: power_add)
  qed
  ultimately have "unat rcp = 0"
    using reciprocal_value [OF assms(1) rcp] by (simp add: s_def)
  then show ?thesis using rcp by (simp add: unat_eq_zero)
qed

section \<open>Well-formed programs never panic\<close>

definition ssi_ok :: "ss_instruction \<Rightarrow> bool" where
  "ssi_ok i \<longleftrightarrow>
     ssi_dst i < 8 \<and> ssi_src i < 8 \<and> ssi_opcode i \<le> 13 \<and>
     (ssi_opcode i \<in> {0, 1, 2, 3} \<longrightarrow> ssi_src i \<noteq> ssi_dst i) \<and>
     (ssi_opcode i = 2 \<longrightarrow> ssi_dst i \<noteq> 5) \<and>
     (ssi_opcode i = 4 \<longrightarrow> 0 < ssi_imm32 i \<and> ssi_imm32 i < 64) \<and>
     (ssi_opcode i = 13 \<longrightarrow> \<not> is_zero_or_power_of_2 (ssi_imm32 i))"

definition ssp_ok :: "ss_program \<Rightarrow> bool" where
  "ssp_ok p \<longleftrightarrow>
     list_all ssi_ok (ssp_instructions p) \<and> length (ssp_instructions p) \<le> 512 \<and>
     ssp_address_register p < 8"

lemma unat_reg_less: "(x :: u8) < 8 \<Longrightarrow> unat x < 8"
  by (simp add: word_less_nat_alt)

lemma ss_step_ok:
  assumes "ssi_ok i" "length r = 8"
  shows "\<exists>r'. ss_step r i = Some r' \<and> length r' = 8"
proof -
  have "unat (ssi_dst i) < 8" "unat (ssi_src i) < 8"
    using assms(1) unat_reg_less by (auto simp: ssi_ok_def)
  moreover have "ssi_opcode i = 13 \<Longrightarrow> ssi_imm32 i \<noteq> 0"
    using assms(1) by (auto simp: ssi_ok_def is_zero_or_power_of_2_def)
  ultimately show ?thesis
    using assms(2) by (auto simp: ss_step_def Let_def randomx_reciprocal_def)
qed

lemma execute_instructions_ok:
  "list_all ssi_ok is \<Longrightarrow> length r = 8 \<Longrightarrow>
     \<exists>r'. execute_instructions r is = Some r' \<and> length r' = 8"
proof (induction "is" arbitrary: r)
  case (Cons i "is")
  then obtain r' where "ss_step r i = Some r'" "length r' = 8"
    using ss_step_ok by fastforce
  then show ?case using Cons by simp
qed simp

lemma execute_superscalar_ok:
  "ssp_ok p \<Longrightarrow> length r = 8 \<Longrightarrow> \<exists>r'. execute_superscalar r p = Some r' \<and> length r' = 8"
  by (simp add: execute_superscalar_def ssp_ok_def execute_instructions_ok)

text \<open>An instruction changes its destination register at most.\<close>

lemma ss_step_frame:
  "ss_step r i = Some r' \<Longrightarrow> j \<noteq> unat (ssi_dst i) \<Longrightarrow> r' ! j = r ! j"
  by (auto simp: ss_step_def Let_def split: if_splits)

end
