(* ===== verification/Vm_Bytecode.thy ===== *)
theory Vm_Bytecode
  imports Superscalar_Exec
begin

text \<open>
  \<open>src/randomx/vm.rs\<close>, first part: constants, instruction decoding and \<open>compile_program\<close>,
  which turns the raw program into bytecode. Register numbers and the instruction index are
  \<open>nat\<close>; \<open>register_usage\<close> (an \<open>[i32; 8]\<close> with \<open>-1\<close> for never) and the branch target are
  \<open>int\<close>. \<open>compile_instr\<close> is one iteration of the loop, its arms in the order of the code.
\<close>

section \<open>Constants\<close>

definition RANDOMX_PROGRAM_SIZE :: nat where "RANDOMX_PROGRAM_SIZE = 256"
definition RANDOMX_PROGRAM_SIZE_V2 :: nat where "RANDOMX_PROGRAM_SIZE_V2 = 384"
definition RANDOMX_PROGRAM_SIZE_MAX :: nat where "RANDOMX_PROGRAM_SIZE_MAX = 384"
definition RANDOMX_PROGRAM_ITERATIONS :: nat where "RANDOMX_PROGRAM_ITERATIONS = 2048"
definition RANDOMX_PROGRAM_COUNT :: nat where "RANDOMX_PROGRAM_COUNT = 8"
definition REGISTERS_COUNT :: nat where "REGISTERS_COUNT = 8"
definition REGISTER_COUNT_FLT :: nat where "REGISTER_COUNT_FLT = 4"

definition SCRATCHPAD_L3_SIZE :: nat where "SCRATCHPAD_L3_SIZE = 2097152"
definition SCRATCHPAD_L2_SIZE :: nat where "SCRATCHPAD_L2_SIZE = 262144"
definition SCRATCHPAD_L1_SIZE :: nat where "SCRATCHPAD_L1_SIZE = 16384"

definition SCRATCHPAD_L1_MASK :: u32 where
  "SCRATCHPAD_L1_MASK = of_nat (SCRATCHPAD_L1_SIZE div 8 - 1) * 8"
definition SCRATCHPAD_L2_MASK :: u32 where
  "SCRATCHPAD_L2_MASK = of_nat (SCRATCHPAD_L2_SIZE div 8 - 1) * 8"
definition SCRATCHPAD_L3_MASK :: u32 where
  "SCRATCHPAD_L3_MASK = of_nat (SCRATCHPAD_L3_SIZE div 8 - 1) * 8"
definition SCRATCHPAD_L3_MASK64 :: u32 where
  "SCRATCHPAD_L3_MASK64 = of_nat (SCRATCHPAD_L3_SIZE div 64 - 1) * 64"

definition CACHE_LINE_SIZE :: nat where "CACHE_LINE_SIZE = 64"
definition CACHE_LINE_ALIGN_MASK :: u32 where "CACHE_LINE_ALIGN_MASK = 0x7FFFFFC0"
definition DATASET_EXTRA_ITEMS :: u64 where "DATASET_EXTRA_ITEMS = 524287"

definition CONDITION_OFFSET :: nat where "CONDITION_OFFSET = 8"
definition CONDITION_MASK :: u32 where "CONDITION_MASK = push_bit 8 1 - 1"
definition STORE_L3_CONDITION :: nat where "STORE_L3_CONDITION = 14"

definition MANTISSA_SIZE :: nat where "MANTISSA_SIZE = 52"
definition EXPONENT_SIZE :: nat where "EXPONENT_SIZE = 11"
definition MANTISSA_MASK :: u64 where "MANTISSA_MASK = push_bit MANTISSA_SIZE 1 - 1"
definition EXPONENT_MASK :: u64 where "EXPONENT_MASK = push_bit EXPONENT_SIZE 1 - 1"
definition EXPONENT_BIAS :: u64 where "EXPONENT_BIAS = 1023"
definition DYNAMIC_EXPONENT_BITS :: nat where "DYNAMIC_EXPONENT_BITS = 4"
definition STATIC_EXPONENT_BITS :: nat where "STATIC_EXPONENT_BITS = 4"
definition CONST_EXPONENT_BITS :: u64 where "CONST_EXPONENT_BITS = 0x300"
definition DYNAMIC_MANTISSA_MASK :: u64 where
  "DYNAMIC_MANTISSA_MASK = push_bit (MANTISSA_SIZE + DYNAMIC_EXPONENT_BITS) 1 - 1"

definition ENTROPY_OFFSET :: nat where "ENTROPY_OFFSET = 0"
definition INSTRUCTIONS_OFFSET :: nat where "INSTRUCTIONS_OFFSET = 16 * 8"

lemmas vm_sizes = RANDOMX_PROGRAM_SIZE_def RANDOMX_PROGRAM_SIZE_V2_def
  RANDOMX_PROGRAM_SIZE_MAX_def REGISTERS_COUNT_def REGISTER_COUNT_FLT_def
  ENTROPY_OFFSET_def INSTRUCTIONS_OFFSET_def

lemmas scratchpad_masks = SCRATCHPAD_L1_MASK_def SCRATCHPAD_L2_MASK_def SCRATCHPAD_L3_MASK_def
  SCRATCHPAD_L3_MASK64_def SCRATCHPAD_L1_SIZE_def SCRATCHPAD_L2_SIZE_def SCRATCHPAD_L3_SIZE_def

datatype rx_version = V1 | V2

fun program_size :: "rx_version \<Rightarrow> nat" where
  "program_size V1 = RANDOMX_PROGRAM_SIZE"
| "program_size V2 = RANDOMX_PROGRAM_SIZE_V2"

definition program_bytes_size :: "rx_version \<Rightarrow> nat" where
  "program_bytes_size v = INSTRUCTIONS_OFFSET + program_size v * 8"

section \<open>Instructions\<close>

datatype instruction_type = IaddRs | IaddM | IsubR | IsubM | ImulR | ImulM | ImulhR | ImulhM
  | IsmulhR | IsmulhM | InegR | IxorR | IxorM | IrorR | IrolR | IswapR | FswapR | FaddR | FaddM
  | FsubR | FsubM | FscalR | FmulR | FdivM | FsqrtR | Cbranch | Cfround | Istore | Nop

record raw_instruction =
  raw_opcode :: u8
  raw_dst :: u8
  raw_src :: u8
  raw_mod :: u8
  raw_imm32 :: u32

definition raw_from_bytes :: "bytes \<Rightarrow> raw_instruction" where
  "raw_from_bytes data =
     \<lparr>raw_opcode = data ! 0, raw_dst = data ! 1, raw_src = data ! 2, raw_mod = data ! 3,
      raw_imm32 = from_le [data ! 4, data ! 5, data ! 6, data ! 7]\<rparr>"

definition get_mod_mem :: "raw_instruction \<Rightarrow> nat" where
  "get_mod_mem i = unat (raw_mod i mod 4)"
definition get_mod_shift :: "raw_instruction \<Rightarrow> nat" where
  "get_mod_shift i = unat (drop_bit 2 (raw_mod i) mod 4)"
definition get_mod_cond :: "raw_instruction \<Rightarrow> nat" where
  "get_mod_cond i = unat (drop_bit 4 (raw_mod i))"

record bytecode_instruction =
  bi_itype :: instruction_type
  bi_dst :: nat
  bi_src :: nat
  bi_imm :: u64
  bi_mem_mask :: u32
  bi_shift :: nat
  bi_target :: int
  bi_dst_is_e :: bool
  bi_fswap_is_e :: bool

definition bi_new :: bytecode_instruction where
  "bi_new = \<lparr>bi_itype = Nop, bi_dst = 0, bi_src = 0, bi_imm = 0, bi_mem_mask = 0, bi_shift = 0,
     bi_target = 0, bi_dst_is_e = False, bi_fswap_is_e = False\<rparr>"

definition sign_extend_2s_compl :: "u32 \<Rightarrow> u64" where
  "sign_extend_2s_compl x = scast x"

definition is_zero_or_power_of_2_u64 :: "u64 \<Rightarrow> bool" where
  "is_zero_or_power_of_2_u64 x \<longleftrightarrow> x AND (x - 1) = 0"

section \<open>Opcode ranges\<close>

text \<open>The cumulative frequencies, with the instruction each range stands for. \<open>IMUL_RCP\<close>
  has no bytecode of its own: it compiles to \<open>ImulR\<close> or \<open>Nop\<close>.\<close>

datatype opcode_class = Op instruction_type | Imul_Rcp

definition opcode_ceilings :: "(nat \<times> opcode_class) list" where
  "opcode_ceilings =
     [(16, Op IaddRs), (23, Op IaddM), (39, Op IsubR), (46, Op IsubM), (62, Op ImulR),
      (66, Op ImulM), (70, Op ImulhR), (71, Op ImulhM), (75, Op IsmulhR), (76, Op IsmulhM),
      (84, Imul_Rcp), (86, Op InegR), (101, Op IxorR), (106, Op IxorM), (114, Op IrorR),
      (116, Op IrolR), (120, Op IswapR), (124, Op FswapR), (140, Op FaddR), (145, Op FaddM),
      (161, Op FsubR), (166, Op FsubM), (172, Op FscalR), (204, Op FmulR), (208, Op FdivM),
      (214, Op FsqrtR), (239, Op Cbranch), (240, Op Cfround)]"

text \<open>The chain of comparisons \<open>if opcode < CEIL_... else if ... else ISTORE\<close>.\<close>

fun classify :: "(nat \<times> opcode_class) list \<Rightarrow> nat \<Rightarrow> opcode_class" where
  "classify [] opcode = Op Istore"
| "classify ((ceil, c) # rest) opcode = (if opcode < ceil then c else classify rest opcode)"

section \<open>Compiling one instruction\<close>

definition mem_level :: "raw_instruction \<Rightarrow> u32" where
  "mem_level i = (if get_mod_mem i \<noteq> 0 then SCRATCHPAD_L1_MASK else SCRATCHPAD_L2_MASK)"

text \<open>The register operands.\<close>

definition reg8 :: "u8 \<Rightarrow> nat" where "reg8 b = unat (b mod 8)"
definition reg4 :: "u8 \<Rightarrow> nat" where "reg4 b = unat (b mod 4)"

text \<open>\<open>I..._M\<close>: source register, or address \<open>imm\<close> in the whole scratchpad.\<close>

definition compile_int_mem :: "instruction_type \<Rightarrow> raw_instruction \<Rightarrow> bytecode_instruction" where
  "compile_int_mem t i =
     (let dst = reg8 (raw_dst i); src = reg8 (raw_src i);
          ibc = bi_new\<lparr>bi_itype := t, bi_dst := dst, bi_imm := sign_extend_2s_compl (raw_imm32 i)\<rparr>
      in if src \<noteq> dst then ibc\<lparr>bi_src := src, bi_mem_mask := mem_level i\<rparr>
         else ibc\<lparr>bi_src := 8, bi_mem_mask := SCRATCHPAD_L3_MASK\<rparr>)"

text \<open>\<open>I..._R\<close> with an immediate when source and destination coincide.\<close>

definition compile_int_reg ::
  "instruction_type \<Rightarrow> (u32 \<Rightarrow> u64) \<Rightarrow> raw_instruction \<Rightarrow> bytecode_instruction" where
  "compile_int_reg t ext i =
     (let dst = reg8 (raw_dst i); src = reg8 (raw_src i);
          ibc = bi_new\<lparr>bi_itype := t, bi_dst := dst\<rparr>
      in if src \<noteq> dst then ibc\<lparr>bi_src := src\<rparr>
         else ibc\<lparr>bi_src := 8, bi_imm := ext (raw_imm32 i)\<rparr>)"

definition compile_high_mul :: "instruction_type \<Rightarrow> raw_instruction \<Rightarrow> bytecode_instruction" where
  "compile_high_mul t i =
     bi_new\<lparr>bi_itype := t, bi_dst := reg8 (raw_dst i), bi_src := reg8 (raw_src i)\<rparr>"

definition compile_flt_reg :: "instruction_type \<Rightarrow> raw_instruction \<Rightarrow> bytecode_instruction" where
  "compile_flt_reg t i =
     bi_new\<lparr>bi_itype := t, bi_dst := reg4 (raw_dst i), bi_src := reg4 (raw_src i)\<rparr>"

definition compile_flt_mem :: "instruction_type \<Rightarrow> raw_instruction \<Rightarrow> bytecode_instruction" where
  "compile_flt_mem t i =
     bi_new\<lparr>bi_itype := t, bi_dst := reg4 (raw_dst i), bi_src := reg8 (raw_src i),
            bi_mem_mask := mem_level i, bi_imm := sign_extend_2s_compl (raw_imm32 i)\<rparr>"

definition compile_cbranch :: "raw_instruction \<Rightarrow> int list \<Rightarrow> bytecode_instruction" where
  "compile_cbranch i usage =
     (let creg = reg8 (raw_dst i);
          shift = get_mod_cond i + CONDITION_OFFSET;
          imm = sign_extend_2s_compl (raw_imm32 i) OR push_bit shift 1;
          imm = (if CONDITION_OFFSET > 0 \<or> shift > 0 then imm AND NOT (push_bit (shift - 1) 1)
                 else imm)
      in bi_new\<lparr>bi_itype := Cbranch, bi_dst := creg, bi_target := usage ! creg, bi_imm := imm,
                bi_mem_mask := push_bit shift CONDITION_MASK\<rparr>)"

text \<open>The arms, in three groups chained like the \<open>else if\<close>s they model; each gives the bytecode
  and the new \<open>register_usage\<close>, \<open>k\<close> the instruction index.\<close>

definition compile_flt_arms ::
  "instruction_type \<Rightarrow> raw_instruction \<Rightarrow> nat \<Rightarrow> int list \<Rightarrow> bytecode_instruction \<times> int list" where
  "compile_flt_arms t i k usage =
     (let dst = reg8 (raw_dst i); src = reg8 (raw_src i)
      in case t of
           FswapR \<Rightarrow>
             (if dst < REGISTER_COUNT_FLT
              then (bi_new\<lparr>bi_itype := FswapR, bi_dst := dst, bi_fswap_is_e := False\<rparr>, usage)
              else (bi_new\<lparr>bi_itype := FswapR, bi_dst := dst - REGISTER_COUNT_FLT,
                           bi_fswap_is_e := True\<rparr>, usage))
         | FaddR \<Rightarrow> (compile_flt_reg FaddR i, usage)
         | FaddM \<Rightarrow> (compile_flt_mem FaddM i, usage)
         | FsubR \<Rightarrow> (compile_flt_reg FsubR i, usage)
         | FsubM \<Rightarrow> (compile_flt_mem FsubM i, usage)
         | FscalR \<Rightarrow> (bi_new\<lparr>bi_itype := FscalR, bi_dst := reg4 (raw_dst i)\<rparr>, usage)
         | FmulR \<Rightarrow> ((compile_flt_reg FmulR i)\<lparr>bi_dst_is_e := True\<rparr>, usage)
         | FdivM \<Rightarrow> ((compile_flt_mem FdivM i)\<lparr>bi_dst_is_e := True\<rparr>, usage)
         | FsqrtR \<Rightarrow> (bi_new\<lparr>bi_itype := FsqrtR, bi_dst := reg4 (raw_dst i), bi_dst_is_e := True\<rparr>, usage)
         | Cbranch \<Rightarrow> (compile_cbranch i usage, map (\<lambda>_. int k) usage)
         | Cfround \<Rightarrow> (bi_new\<lparr>bi_itype := Cfround, bi_src := src,
                              bi_imm := ucast (raw_imm32 i AND 63)\<rparr>, usage)
         | Istore \<Rightarrow> (bi_new\<lparr>bi_itype := Istore, bi_dst := dst, bi_src := src,
               bi_imm := sign_extend_2s_compl (raw_imm32 i),
               bi_mem_mask := (if get_mod_cond i < STORE_L3_CONDITION then mem_level i
                               else SCRATCHPAD_L3_MASK)\<rparr>, usage)
         | _ \<Rightarrow> (bi_new, usage))"

definition compile_bit_arms ::
  "instruction_type \<Rightarrow> raw_instruction \<Rightarrow> nat \<Rightarrow> int list \<Rightarrow> bytecode_instruction \<times> int list" where
  "compile_bit_arms t i k usage =
     (let dst = reg8 (raw_dst i); src = reg8 (raw_src i);
          used = usage[dst := int k]
      in case t of
           InegR \<Rightarrow> (bi_new\<lparr>bi_itype := InegR, bi_dst := dst\<rparr>, used)
         | IxorR \<Rightarrow> (compile_int_reg IxorR sign_extend_2s_compl i, used)
         | IxorM \<Rightarrow> (compile_int_mem IxorM i, used)
         | IrorR \<Rightarrow> (compile_int_reg IrorR ucast i, used)
         | IrolR \<Rightarrow> (compile_int_reg IrolR ucast i, used)
         | IswapR \<Rightarrow>
             (if src \<noteq> dst
              then (bi_new\<lparr>bi_itype := IswapR, bi_dst := dst, bi_src := src\<rparr>,
                    usage[dst := int k, src := int k])
              else (bi_new, usage))
         | _ \<Rightarrow> compile_flt_arms t i k usage)"

definition compile_int_arms ::
  "instruction_type \<Rightarrow> raw_instruction \<Rightarrow> nat \<Rightarrow> int list \<Rightarrow> bytecode_instruction \<times> int list" where
  "compile_int_arms t i k usage =
     (let dst = reg8 (raw_dst i); src = reg8 (raw_src i);
          used = usage[dst := int k]
      in case t of
           IaddRs \<Rightarrow> (bi_new\<lparr>bi_itype := IaddRs, bi_dst := dst, bi_src := src,
               bi_shift := get_mod_shift i,
               bi_imm := (if dst = 5 then sign_extend_2s_compl (raw_imm32 i) else 0)\<rparr>, used)
         | IaddM \<Rightarrow> (compile_int_mem IaddM i, used)
         | IsubR \<Rightarrow> (compile_int_reg IsubR sign_extend_2s_compl i, used)
         | IsubM \<Rightarrow> (compile_int_mem IsubM i, used)
         | ImulR \<Rightarrow> (compile_int_reg ImulR sign_extend_2s_compl i, used)
         | ImulM \<Rightarrow> (compile_int_mem ImulM i, used)
         | ImulhR \<Rightarrow> (compile_high_mul ImulhR i, used)
         | ImulhM \<Rightarrow> (compile_int_mem ImulhM i, used)
         | IsmulhR \<Rightarrow> (compile_high_mul IsmulhR i, used)
         | IsmulhM \<Rightarrow> (compile_int_mem IsmulhM i, used)
         | _ \<Rightarrow> compile_bit_arms t i k usage)"

text \<open>One iteration. \<open>None\<close> is a panic of \<open>randomx_reciprocal\<close>.\<close>

definition compile_instr ::
  "raw_instruction \<Rightarrow> nat \<Rightarrow> int list \<Rightarrow> (bytecode_instruction \<times> int list) option" where
  "compile_instr i k usage =
     (case classify opcode_ceilings (unat (raw_opcode i)) of
        Imul_Rcp \<Rightarrow>
          (let dst = reg8 (raw_dst i) in
           if \<not> is_zero_or_power_of_2_u64 (ucast (raw_imm32 i)) then
             (case randomx_reciprocal (raw_imm32 i) of
                None \<Rightarrow> None
              | Some rcp \<Rightarrow> Some (bi_new\<lparr>bi_itype := ImulR, bi_dst := dst, bi_src := 8,
                                       bi_imm := rcp\<rparr>, usage[dst := int k]))
           else Some (bi_new, usage))
      | Op t \<Rightarrow> Some (compile_int_arms t i k usage))"

section \<open>Compiling a program\<close>

definition raw_at :: "bytes \<Rightarrow> nat \<Rightarrow> raw_instruction" where
  "raw_at program_bytes k = raw_from_bytes (slice (INSTRUCTIONS_OFFSET + k * 8) 8 program_bytes)"

fun compile_loop ::
  "bytes \<Rightarrow> nat list \<Rightarrow> int list \<Rightarrow> bytecode_instruction list \<Rightarrow>
     (bytecode_instruction list \<times> int list) option" where
  "compile_loop program_bytes [] usage bytecode = Some (bytecode, usage)"
| "compile_loop program_bytes (k # ks) usage bytecode =
     (if INSTRUCTIONS_OFFSET + k * 8 + 8 \<le> length program_bytes then
        (case compile_instr (raw_at program_bytes k) k usage of
           None \<Rightarrow> None
         | Some (ibc, usage') \<Rightarrow> compile_loop program_bytes ks usage' (bytecode @ [ibc]))
      else None)"

text \<open>The first \<open>program_size\<close> entries of the bytecode buffer; the entries beyond are left
  stale by the code and never read. The buffer has \<open>RANDOMX_PROGRAM_SIZE_MAX\<close> entries: a larger
  program fails the assertion at the top, or the index of the first entry beyond it.\<close>

definition compile_program :: "bytes \<Rightarrow> nat \<Rightarrow> (bytecode_instruction list \<times> int list) option" where
  "compile_program program_bytes size' =
     (if size' \<le> RANDOMX_PROGRAM_SIZE_MAX
      then compile_loop program_bytes [0..<size'] (replicate REGISTERS_COUNT (-1)) [] else None)"

end
