(* ===== verification/Vm_Compile.thy ===== *)
theory Vm_Compile
  imports Vm_Bytecode
begin

text \<open>
  What \<open>compile_program\<close> guarantees (\<open>src/randomx/vm.rs\<close>): every bytecode instruction uses
  registers and scratchpad masks within bounds (\<open>bi_ok\<close>), which the unchecked accesses of
  the interpreter and of the JIT rely on, and every branch jumps back over a stretch that
  neither branches nor writes its condition register (\<open>branch_ok\<close>).
\<close>

section \<open>Well-formed bytecode\<close>

definition mask_ok :: "u32 \<Rightarrow> bool" where
  "mask_ok m \<longleftrightarrow> m \<in> {SCRATCHPAD_L1_MASK, SCRATCHPAD_L2_MASK, SCRATCHPAD_L3_MASK}"

text \<open>The increment of a branch has bit \<open>s\<close> set and bit \<open>s - 1\<close> clear, \<open>s\<close> the lowest of the
  eight condition bits.\<close>

definition cond_ok :: "u64 \<Rightarrow> u32 \<Rightarrow> bool" where
  "cond_ok imm m \<longleftrightarrow>
     (\<exists>s. 8 \<le> s \<and> s \<le> 23 \<and> m = push_bit s 0xff \<and> bit imm s \<and> \<not> bit imm (s - 1))"

definition bi_ok :: "bytecode_instruction \<Rightarrow> bool" where
  "bi_ok b \<longleftrightarrow> (case bi_itype b of
       IaddRs \<Rightarrow> bi_dst b < 8 \<and> bi_src b < 8 \<and> bi_shift b < 4
     | ImulhR \<Rightarrow> bi_dst b < 8 \<and> bi_src b < 8
     | IsmulhR \<Rightarrow> bi_dst b < 8 \<and> bi_src b < 8
     | IswapR \<Rightarrow> bi_dst b < 8 \<and> bi_src b < 8
     | IsubR \<Rightarrow> bi_dst b < 8 | ImulR \<Rightarrow> bi_dst b < 8 | IxorR \<Rightarrow> bi_dst b < 8
     | IrorR \<Rightarrow> bi_dst b < 8 | IrolR \<Rightarrow> bi_dst b < 8 | InegR \<Rightarrow> bi_dst b < 8
     | IaddM \<Rightarrow> bi_dst b < 8 \<and> mask_ok (bi_mem_mask b)
     | IsubM \<Rightarrow> bi_dst b < 8 \<and> mask_ok (bi_mem_mask b)
     | ImulM \<Rightarrow> bi_dst b < 8 \<and> mask_ok (bi_mem_mask b)
     | ImulhM \<Rightarrow> bi_dst b < 8 \<and> mask_ok (bi_mem_mask b)
     | IsmulhM \<Rightarrow> bi_dst b < 8 \<and> mask_ok (bi_mem_mask b)
     | IxorM \<Rightarrow> bi_dst b < 8 \<and> mask_ok (bi_mem_mask b)
     | FswapR \<Rightarrow> bi_dst b < 4 | FscalR \<Rightarrow> bi_dst b < 4 | FsqrtR \<Rightarrow> bi_dst b < 4
     | FaddR \<Rightarrow> bi_dst b < 4 \<and> bi_src b < 4
     | FsubR \<Rightarrow> bi_dst b < 4 \<and> bi_src b < 4
     | FmulR \<Rightarrow> bi_dst b < 4 \<and> bi_src b < 4
     | FaddM \<Rightarrow> bi_dst b < 4 \<and> bi_src b < 8 \<and> mask_ok (bi_mem_mask b)
     | FsubM \<Rightarrow> bi_dst b < 4 \<and> bi_src b < 8 \<and> mask_ok (bi_mem_mask b)
     | FdivM \<Rightarrow> bi_dst b < 4 \<and> bi_src b < 8 \<and> mask_ok (bi_mem_mask b)
     | Cbranch \<Rightarrow> bi_dst b < 8 \<and> cond_ok (bi_imm b) (bi_mem_mask b)
     | Cfround \<Rightarrow> bi_src b < 8 \<and> bi_imm b < 64
     | Istore \<Rightarrow> bi_dst b < 8 \<and> bi_src b < 8 \<and> mask_ok (bi_mem_mask b)
     | Nop \<Rightarrow> True)"

text \<open>The integer registers an instruction may change.\<close>

definition writes_reg :: "bytecode_instruction \<Rightarrow> nat \<Rightarrow> bool" where
  "writes_reg b c \<longleftrightarrow>
     bi_itype b \<in> {IaddRs, IaddM, IsubR, IsubM, ImulR, ImulM, ImulhR, ImulhM, IsmulhR, IsmulhM,
                   InegR, IxorR, IxorM, IrorR, IrolR, IswapR, Cbranch} \<and> bi_dst b = c \<or>
     bi_itype b = IswapR \<and> bi_src b = c"

definition is_branch :: "bytecode_instruction \<Rightarrow> bool" where
  "is_branch b \<longleftrightarrow> bi_itype b = Cbranch"

text \<open>Since instruction \<open>t\<close>, up to \<open>k\<close>, nothing branched or wrote register \<open>c\<close>.\<close>

definition quiet :: "bytecode_instruction list \<Rightarrow> int \<Rightarrow> nat \<Rightarrow> nat \<Rightarrow> bool" where
  "quiet bc t k c \<longleftrightarrow>
     -1 \<le> t \<and> t < int k \<and>
     (\<forall>j < k. t < int j \<longrightarrow> \<not> is_branch (bc ! j) \<and> \<not> writes_reg (bc ! j) c)"

definition branch_ok :: "bytecode_instruction list \<Rightarrow> nat \<Rightarrow> bool" where
  "branch_ok bc k \<longleftrightarrow>
     (is_branch (bc ! k) \<longrightarrow> quiet bc (bi_target (bc ! k)) k (bi_dst (bc ! k)))"

definition bytecode_ok :: "bytecode_instruction list \<Rightarrow> bool" where
  "bytecode_ok bc \<longleftrightarrow> (\<forall>k < length bc. bi_ok (bc ! k) \<and> branch_ok bc k)"

section \<open>Operands\<close>

lemma reg8_less [simp]: "reg8 b < 8"
  using unat_mod_less [of "8 :: u8" b] by (simp add: reg8_def)

lemma reg4_less [simp]: "reg4 b < 4"
  using unat_mod_less [of "4 :: u8" b] by (simp add: reg4_def)

lemma reg4_less8 [simp]: "reg4 b < 8"
  using reg4_less [of b] by linarith

lemma reg8_high [simp]: "reg8 b - 4 < 4"
  using reg8_less [of b] by linarith

lemma mem_level_ok [simp]: "mask_ok (mem_level i)"
  by (simp add: mem_level_def mask_ok_def)

lemma mask_L3_ok [simp]: "mask_ok SCRATCHPAD_L3_MASK"
  by (simp add: mask_ok_def)

lemma get_mod_shift_less [simp]: "get_mod_shift i < 4"
  using unat_mod_less [of "4 :: u8"] by (simp add: get_mod_shift_def)

lemma get_mod_cond_less: "get_mod_cond i < 16"
proof -
  have "unat (drop_bit 4 (raw_mod i)) = drop_bit 4 (unat (raw_mod i))" by (rule unat_drop_bit_eq)
  also have "\<dots> = unat (raw_mod i) div 16" unfolding drop_bit_eq_div by simp
  finally show ?thesis using unat_u8_lt [of "raw_mod i"] by (simp add: get_mod_cond_def)
qed

section \<open>One instruction\<close>

text \<open>What one iteration does to \<open>register_usage\<close>: a register is either marked with the
  current index, or keeps its mark and is not written.\<close>

definition marks :: "nat \<Rightarrow> int list \<Rightarrow> bytecode_instruction \<Rightarrow> int list \<Rightarrow> bool" where
  "marks k usage b usage' \<longleftrightarrow>
     length usage' = length usage \<and>
     (\<forall>c < length usage. usage' ! c = int k \<or>
        usage' ! c = usage ! c \<and> \<not> writes_reg b c \<and> \<not> is_branch b)"

lemma compile_cbranch_ok:
  "bi_itype (compile_cbranch i usage) = Cbranch \<and> bi_ok (compile_cbranch i usage) \<and>
   bi_target (compile_cbranch i usage) = usage ! bi_dst (compile_cbranch i usage)"
proof -
  define s where "s = get_mod_cond i + 8"
  have s: "8 \<le> s" "s \<le> 23" using get_mod_cond_less [of i] by (simp_all add: s_def)
  define imm where "imm = (sign_extend_2s_compl (raw_imm32 i) OR push_bit s 1) AND
      NOT (push_bit (s - 1) 1)"
  have bits: "bit imm s" "\<not> bit imm (s - 1)"
    using s by (auto simp: imm_def bit_simps)
  have "(CONDITION_MASK :: u32) = 0xff" by (simp add: CONDITION_MASK_def)
  then have eq: "compile_cbranch i usage = bi_new\<lparr>bi_itype := Cbranch, bi_dst := reg8 (raw_dst i),
      bi_target := usage ! reg8 (raw_dst i), bi_imm := imm, bi_mem_mask := push_bit s 0xff\<rparr>"
    by (simp add: compile_cbranch_def Let_def CONDITION_OFFSET_def imm_def s_def)
  have "cond_ok imm (push_bit s 0xff)"
    unfolding cond_ok_def using s bits by blast
  then show ?thesis by (simp add: eq bi_ok_def)
qed

lemma marks_dst:
  "length usage = 8 \<Longrightarrow> d < 8 \<Longrightarrow> bi_itype b \<noteq> Cbranch \<Longrightarrow> bi_itype b \<noteq> IswapR \<Longrightarrow> bi_dst b = d \<Longrightarrow>
     marks k usage b (usage[d := int k])"
  by (auto simp: marks_def nth_list_update writes_reg_def is_branch_def)

lemma marks_none:
  "(\<And>c. \<not> writes_reg b c) \<Longrightarrow> \<not> is_branch b \<Longrightarrow> marks k usage b usage"
  by (auto simp: marks_def)

lemmas compile_arms = compile_instr_def compile_int_arms_def compile_bit_arms_def compile_flt_arms_def

lemmas compile_shapes = compile_int_mem_def compile_int_reg_def compile_high_mul_def
  compile_flt_reg_def compile_flt_mem_def

lemma rcp_total:
  "\<not> is_zero_or_power_of_2_u64 (ucast (x :: u32)) \<Longrightarrow> x \<noteq> 0"
  by (auto simp: is_zero_or_power_of_2_u64_def)

lemma u32_and_63: "(ucast (x AND 63 :: u32) :: u64) < 64"
proof -
  have "x AND 63 = take_bit 6 x" by (simp add: take_bit_eq_mask mask_eq_exp_minus_1)
  then have "unat (x AND 63) < 64" using unat_take_bit_less [of 6 x] by simp
  moreover have "unat (ucast (x AND 63) :: u64) = unat (x AND 63)" by (simp add: unat_ucast_up)
  ultimately show ?thesis by (simp add: word_less_nat_alt)
qed

lemma compile_op_ok:
  assumes "length usage = 8" "classify opcode_ceilings (unat (raw_opcode i)) = Op t"
  shows "\<exists>b usage'. compile_instr i k usage = Some (b, usage') \<and> bi_ok b \<and> marks k usage b usage' \<and>
    (is_branch b \<longrightarrow> bi_target b = usage ! bi_dst b)"
proof -
  have flt: "bi_itype b \<in> {FswapR, FaddR, FaddM, FsubR, FsubM, FscalR, FmulR, FdivM, FsqrtR, Cfround,
      Istore, Nop} \<Longrightarrow> marks k usage b usage" for b
    by (rule marks_none) (auto simp: writes_reg_def is_branch_def)
  have new: "marks k usage bi_new usage" by (rule flt) (simp add: bi_new_def)
  show ?thesis
  proof (cases t)
    case Cbranch
    have m: "marks k usage (compile_cbranch i usage) (map (\<lambda>_. int k) usage)"
      by (auto simp: marks_def)
    show ?thesis
      using compile_cbranch_ok [of i usage] m
      by (simp add: compile_arms Let_def assms(2) Cbranch)
  next
    case IswapR
    then show ?thesis
      using new assms
      by (auto simp: compile_arms Let_def bi_ok_def is_branch_def marks_def nth_list_update
          writes_reg_def bi_new_def)
  qed (auto simp: compile_arms Let_def assms compile_shapes bi_ok_def is_branch_def
      bi_new_def REGISTER_COUNT_FLT_def u32_and_63 intro!: marks_dst flt)
qed

lemma compile_instr_ok:
  assumes "length usage = 8"
  shows "\<exists>b usage'. compile_instr i k usage = Some (b, usage') \<and> bi_ok b \<and> marks k usage b usage' \<and>
    (is_branch b \<longrightarrow> bi_target b = usage ! bi_dst b)"
proof (cases "classify opcode_ceilings (unat (raw_opcode i))")
  case (Op t)
  then show ?thesis by (rule compile_op_ok [OF assms])
next
  case Imul_Rcp
  have new: "marks k usage bi_new usage"
    by (rule marks_none) (auto simp: writes_reg_def is_branch_def bi_new_def)
  show ?thesis
    using assms Imul_Rcp new rcp_total [of "raw_imm32 i"]
    by (auto simp: compile_instr_def Let_def randomx_reciprocal_def bi_ok_def is_branch_def bi_new_def
        intro!: marks_dst)
qed

section \<open>The whole program\<close>

definition usage_ok :: "bytecode_instruction list \<Rightarrow> int list \<Rightarrow> bool" where
  "usage_ok bc usage \<longleftrightarrow> length usage = 8 \<and> (\<forall>c < 8. quiet bc (usage ! c) (length bc) c)"

lemma quiet_append:
  "quiet bc t k c \<Longrightarrow> k \<le> length bc \<Longrightarrow> quiet (bc @ bs) t k c"
  by (auto simp: quiet_def nth_append)

lemma bytecode_ok_snoc:
  assumes "bytecode_ok bc" "usage_ok bc usage" "bi_ok b" "is_branch b \<longrightarrow> bi_target b = usage ! bi_dst b"
  shows "bytecode_ok (bc @ [b])"
proof -
  have "branch_ok (bc @ [b]) (length bc)"
    using assms(2-4)
    by (auto simp: branch_ok_def usage_ok_def is_branch_def bi_ok_def intro!: quiet_append)
  moreover have "bi_ok ((bc @ [b]) ! k) \<and> branch_ok (bc @ [b]) k" if "k < length bc" for k
    using assms(1) that by (auto simp: bytecode_ok_def branch_ok_def nth_append intro: quiet_append)
  ultimately show ?thesis
    using assms(3) by (auto simp: bytecode_ok_def less_Suc_eq)
qed

lemma usage_ok_snoc:
  assumes "usage_ok bc usage" "marks (length bc) usage b usage'"
  shows "usage_ok (bc @ [b]) usage'"
proof -
  have "quiet (bc @ [b]) (usage' ! c) (Suc (length bc)) c" if c: "c < 8" for c
  proof (cases "usage' ! c = int (length bc)")
    case True
    then show ?thesis by (auto simp: quiet_def)
  next
    case False
    then have "usage' ! c = usage ! c" "\<not> writes_reg b c" "\<not> is_branch b"
      using assms c by (auto simp: marks_def usage_ok_def)
    moreover have "quiet bc (usage ! c) (length bc) c" using assms(1) c by (simp add: usage_ok_def)
    ultimately show ?thesis by (auto simp: quiet_def nth_append less_Suc_eq)
  qed
  then show ?thesis using assms by (auto simp: usage_ok_def marks_def)
qed

lemma compile_loop_ok:
  "bytecode_ok bc \<Longrightarrow> usage_ok bc usage \<Longrightarrow> INSTRUCTIONS_OFFSET + n * 8 \<le> length pb \<Longrightarrow>
     length bc \<le> n \<Longrightarrow>
     \<exists>bc' usage'. compile_loop pb [length bc..<n] usage bc = Some (bc', usage') \<and>
       bytecode_ok bc' \<and> length bc' = n"
proof (induction "n - length bc" arbitrary: bc usage)
  case 0
  then show ?case by simp
next
  case (Suc d)
  then have k: "length bc < n" by simp
  obtain b usage' where b: "compile_instr (raw_at pb (length bc)) (length bc) usage = Some (b, usage')"
    "bi_ok b" "marks (length bc) usage b usage'" "is_branch b \<longrightarrow> bi_target b = usage ! bi_dst b"
    using compile_instr_ok [of usage "raw_at pb (length bc)" "length bc"] Suc.prems(2)
    by (auto simp: usage_ok_def)
  have "length bc * 8 + 8 \<le> n * 8" using k by simp
  then have room: "INSTRUCTIONS_OFFSET + length bc * 8 + 8 \<le> length pb"
    using Suc.prems(3) by linarith
  have "\<exists>bc' usage''. compile_loop pb [length (bc @ [b])..<n] usage' (bc @ [b]) = Some (bc', usage'') \<and>
       bytecode_ok bc' \<and> length bc' = n"
    by (rule Suc.hyps(1))
      (use Suc k b in \<open>auto intro: bytecode_ok_snoc usage_ok_snoc\<close>)
  then show ?case using k room b(1) by (simp add: upt_conv_Cons)
qed

theorem compile_program_gen:
  assumes "INSTRUCTIONS_OFFSET + n * 8 \<le> length pb" "n \<le> RANDOMX_PROGRAM_SIZE_MAX"
  shows "returns (\<lambda>(bc, usage). bytecode_ok bc \<and> length bc = n) (compile_program pb n)"
proof -
  have "bytecode_ok []" "usage_ok [] (replicate REGISTERS_COUNT (-1))"
    by (auto simp: bytecode_ok_def usage_ok_def quiet_def REGISTERS_COUNT_def)
  from compile_loop_ok [OF this assms(1)] assms(2) show ?thesis
    by (auto simp: returns_iff compile_program_def)
qed

lemma program_size_fits: "program_size version \<le> RANDOMX_PROGRAM_SIZE_MAX"
  by (cases version) (simp_all add: RANDOMX_PROGRAM_SIZE_def RANDOMX_PROGRAM_SIZE_V2_def RANDOMX_PROGRAM_SIZE_MAX_def)

end
