(* ===== verification/Vm_Exec.thy ===== *)
theory Vm_Exec
  imports Vm_Compile Rust_Loops
begin

text \<open>
  \<open>src/randomx/vm.rs\<close>: the register file, the scratchpad accesses and the bytecode
  interpreter \<open>execute_bytecode\<close>. A \<open>f64\<close> is its 64-bit pattern. The floating-point unit
  (\<open>fpu\<close>: the rounded operations of the hardware, by rounding mode, with the flush-to-zero
  setting the code installs) is a parameter; the exact conversion from \<open>i32\<close> and all bit
  manipulation is concrete. The code reads and writes registers and the scratchpad without
  checks; here an access out of range is \<open>None\<close>, so a result \<open>Some\<close> says that the run stayed
  in bounds.
\<close>

section \<open>The machine\<close>

type_synonym f64 = u64
type_synonym f128 = "f64 \<times> f64"

record fpu =
  fp_add :: "nat \<Rightarrow> f64 \<Rightarrow> f64 \<Rightarrow> f64"
  fp_sub :: "nat \<Rightarrow> f64 \<Rightarrow> f64 \<Rightarrow> f64"
  fp_mul :: "nat \<Rightarrow> f64 \<Rightarrow> f64 \<Rightarrow> f64"
  fp_div :: "nat \<Rightarrow> f64 \<Rightarrow> f64 \<Rightarrow> f64"
  fp_sqrt :: "nat \<Rightarrow> f64 \<Rightarrow> f64"

record native_register_file =
  rf_r :: "u64 list"
  rf_f :: "f128 list"
  rf_e :: "f128 list"
  rf_a :: "f128 list"

definition nreg_new :: native_register_file where
  "nreg_new = \<lparr>rf_r = replicate REGISTERS_COUNT 0, rf_f = replicate REGISTER_COUNT_FLT (0, 0),
     rf_e = replicate REGISTER_COUNT_FLT (0, 0), rf_a = replicate REGISTER_COUNT_FLT (0, 0)\<rparr>"

record program_configuration =
  e_mask :: "u64 \<times> u64"
  read_reg0 :: nat
  read_reg1 :: nat
  read_reg2 :: nat
  read_reg3 :: nat

text \<open>What the interpreter works on: registers, scratchpad, and the rounding mode of the
  floating-point control register (0 nearest, 1 down, 2 up, 3 towards zero).\<close>

record machine =
  m_nreg :: native_register_file
  m_sp :: bytes
  m_rm :: nat

section \<open>Unchecked accesses\<close>

definition get_r :: "machine \<Rightarrow> nat \<Rightarrow> u64 option" where
  "get_r m i = at_index (rf_r (m_nreg m)) i"
definition get_f :: "machine \<Rightarrow> nat \<Rightarrow> f128 option" where
  "get_f m i = at_index (rf_f (m_nreg m)) i"
definition get_e :: "machine \<Rightarrow> nat \<Rightarrow> f128 option" where
  "get_e m i = at_index (rf_e (m_nreg m)) i"
definition get_a :: "machine \<Rightarrow> nat \<Rightarrow> f128 option" where
  "get_a m i = at_index (rf_a (m_nreg m)) i"

definition put_r :: "machine \<Rightarrow> nat \<Rightarrow> u64 \<Rightarrow> machine option" where
  "put_r m i v =
     map_option (\<lambda>xs. m\<lparr>m_nreg := (m_nreg m)\<lparr>rf_r := xs\<rparr>\<rparr>) (put_index (rf_r (m_nreg m)) i v)"
definition put_f :: "machine \<Rightarrow> nat \<Rightarrow> f128 \<Rightarrow> machine option" where
  "put_f m i v =
     map_option (\<lambda>xs. m\<lparr>m_nreg := (m_nreg m)\<lparr>rf_f := xs\<rparr>\<rparr>) (put_index (rf_f (m_nreg m)) i v)"
definition put_e :: "machine \<Rightarrow> nat \<Rightarrow> f128 \<Rightarrow> machine option" where
  "put_e m i v =
     map_option (\<lambda>xs. m\<lparr>m_nreg := (m_nreg m)\<lparr>rf_e := xs\<rparr>\<rparr>) (put_index (rf_e (m_nreg m)) i v)"

definition load64 :: "bytes \<Rightarrow> nat \<Rightarrow> u64 option" where
  "load64 sp offset = (if offset + 8 \<le> length sp then Some (from_le (slice offset 8 sp)) else None)"

definition store64 :: "bytes \<Rightarrow> nat \<Rightarrow> u64 \<Rightarrow> bytes option" where
  "store64 sp offset v =
     (if offset + 8 \<le> length sp then Some (splice offset (le_bytes 8 v) sp) else None)"

section \<open>Arithmetic helpers\<close>

definition mulh :: "u64 \<Rightarrow> u64 \<Rightarrow> u64" where
  "mulh a b = ucast (drop_bit 64 (ucast a * ucast b :: u128))"

definition smulh :: "u64 \<Rightarrow> u64 \<Rightarrow> u64" where
  "smulh a b = ucast (signed_drop_bit 64 (scast a * scast b :: u128))"

definition rotr64 :: "u64 \<Rightarrow> u64 \<Rightarrow> u64" where
  "rotr64 val count = rotate_right (unat (count AND 63)) val"

definition rotl64 :: "u64 \<Rightarrow> u64 \<Rightarrow> u64" where
  "rotl64 val count = rotate_left (unat (count AND 63)) val"

text \<open>\<open>x as f64\<close> of an \<open>i32\<close>: exact, since the magnitude has at most 32 bits.\<close>

definition i32_to_f64 :: "u32 \<Rightarrow> f64" where
  "i32_to_f64 w =
     (let v = sint w; mag = nat \<bar>v\<bar>; n = bit_len mag
      in if v = 0 then 0
         else push_bit 63 (if v < 0 then 1 else 0) OR
              push_bit 52 (of_nat (1023 + (n - 1))) OR
              take_bit 52 (push_bit (52 - (n - 1)) (of_nat mag)))"

definition cvt_packed_int_vec_f128 :: "bytes \<Rightarrow> nat \<Rightarrow> f128 option" where
  "cvt_packed_int_vec_f128 sp offset =
     (if offset + 8 \<le> length sp
      then Some (i32_to_f64 (from_le (slice offset 4 sp)), i32_to_f64 (from_le (slice (offset + 4) 4 sp)))
      else None)"

definition get_small_positive_float_bits :: "u64 \<Rightarrow> u64" where
  "get_small_positive_float_bits entropy =
     (let exponent = drop_bit 59 entropy;
          mantissa = entropy AND MANTISSA_MASK;
          exp = exponent + EXPONENT_BIAS;
          exp = exp AND EXPONENT_MASK;
          exp = push_bit MANTISSA_SIZE exp
      in exp OR mantissa)"

definition get_static_exponent :: "u64 \<Rightarrow> u64" where
  "get_static_exponent entropy =
     (let exponent = CONST_EXPONENT_BITS OR
            push_bit DYNAMIC_EXPONENT_BITS (drop_bit (64 - STATIC_EXPONENT_BITS) entropy)
      in push_bit MANTISSA_SIZE exponent)"

definition get_float_mask :: "u64 \<Rightarrow> u64" where
  "get_float_mask entropy =
     (let mask22bit = push_bit 22 1 - 1 in (entropy AND mask22bit) OR get_static_exponent entropy)"

definition mask_register_exponent_mantissa :: "program_configuration \<Rightarrow> f128 \<Rightarrow> f128" where
  "mask_register_exponent_mantissa config x =
     ((fst x AND DYNAMIC_MANTISSA_MASK) OR fst (e_mask config),
      (snd x AND DYNAMIC_MANTISSA_MASK) OR snd (e_mask config))"

definition xor_f128 :: "f128 \<Rightarrow> f128 \<Rightarrow> f128" where
  "xor_f128 a b = (fst a XOR fst b, snd a XOR snd b)"

definition swap_f128 :: "f128 \<Rightarrow> f128" where
  "swap_f128 a = (snd a, fst a)"

definition store_f128 :: "bytes \<Rightarrow> nat \<Rightarrow> f128 \<Rightarrow> bytes option" where
  "store_f128 sp offset v = do {
     sp \<leftarrow> store64 sp offset (fst v);
     store64 sp (offset + 8) (snd v)
   }"

section \<open>One instruction\<close>

text \<open>The operands of the integer instructions: \<open>if ibc.src < 8 { r[src] } else { imm or 0 }\<close>,
  and the masked scratchpad address.\<close>

definition src_or_imm :: "machine \<Rightarrow> bytecode_instruction \<Rightarrow> u64 option" where
  "src_or_imm m b = (if bi_src b < 8 then get_r m (bi_src b) else Some (bi_imm b))"

definition src_or_zero :: "machine \<Rightarrow> bytecode_instruction \<Rightarrow> u64 option" where
  "src_or_zero m b = (if bi_src b < 8 then get_r m (bi_src b) else Some 0)"

definition masked_addr :: "u64 \<Rightarrow> bytecode_instruction \<Rightarrow> nat" where
  "masked_addr base b = unat ((ucast (base + bi_imm b) :: u32) AND bi_mem_mask b)"

definition mem_operand :: "machine \<Rightarrow> bytecode_instruction \<Rightarrow> u64 option" where
  "mem_operand m b = do {
     base \<leftarrow> src_or_zero m b;
     load64 (m_sp m) (masked_addr base b)
   }"

definition mem_f128 :: "machine \<Rightarrow> bytecode_instruction \<Rightarrow> f128 option" where
  "mem_f128 m b = do {
     base \<leftarrow> get_r m (bi_src b);
     cvt_packed_int_vec_f128 (m_sp m) (masked_addr base b)
   }"

text \<open>\<open>r[dst] = f(r[dst], operand)\<close> and the like for \<open>f\<close> and \<open>e\<close> registers.\<close>

definition int_op :: "machine \<Rightarrow> bytecode_instruction \<Rightarrow> u64 option \<Rightarrow> (u64 \<Rightarrow> u64 \<Rightarrow> u64) \<Rightarrow> machine option" where
  "int_op m b operand f = do {
     x \<leftarrow> operand;
     d \<leftarrow> get_r m (bi_dst b);
     put_r m (bi_dst b) (f d x)
   }"

definition flt_op_f :: "machine \<Rightarrow> bytecode_instruction \<Rightarrow> f128 option \<Rightarrow> (f64 \<Rightarrow> f64 \<Rightarrow> f64) \<Rightarrow> machine option" where
  "flt_op_f m b operand op = do {
     x \<leftarrow> operand;
     d \<leftarrow> get_f m (bi_dst b);
     put_f m (bi_dst b) (op (fst d) (fst x), op (snd d) (snd x))
   }"

definition flt_op_e :: "machine \<Rightarrow> bytecode_instruction \<Rightarrow> f128 option \<Rightarrow> (f64 \<Rightarrow> f64 \<Rightarrow> f64) \<Rightarrow> machine option" where
  "flt_op_e m b operand op = do {
     x \<leftarrow> operand;
     d \<leftarrow> get_e m (bi_dst b);
     put_e m (bi_dst b) (op (fst d) (fst x), op (snd d) (snd x))
   }"

text \<open>The arms of the \<open>match\<close>, the branch apart.\<close>

definition exec_plain ::
  "fpu \<Rightarrow> rx_version \<Rightarrow> program_configuration \<Rightarrow> bytecode_instruction \<Rightarrow> machine \<Rightarrow> machine option" where
  "exec_plain fpu version config b m =
     (let rm = m_rm m in
      case bi_itype b of
        IaddRs \<Rightarrow> int_op m b (get_r m (bi_src b)) (\<lambda>d s. d + (push_bit (bi_shift b) s + bi_imm b))
      | IaddM \<Rightarrow> int_op m b (mem_operand m b) (\<lambda>d s. d + s)
      | IsubR \<Rightarrow> int_op m b (src_or_imm m b) (\<lambda>d s. d - s)
      | IsubM \<Rightarrow> int_op m b (mem_operand m b) (\<lambda>d s. d - s)
      | ImulR \<Rightarrow> int_op m b (src_or_imm m b) (\<lambda>d s. d * s)
      | ImulM \<Rightarrow> int_op m b (mem_operand m b) (\<lambda>d s. d * s)
      | ImulhR \<Rightarrow> int_op m b (get_r m (bi_src b)) mulh
      | ImulhM \<Rightarrow> int_op m b (mem_operand m b) mulh
      | IsmulhR \<Rightarrow> int_op m b (get_r m (bi_src b)) smulh
      | IsmulhM \<Rightarrow> int_op m b (mem_operand m b) smulh
      | InegR \<Rightarrow> int_op m b (Some 0) (\<lambda>d s. NOT d + 1)
      | IxorR \<Rightarrow> int_op m b (src_or_imm m b) (\<lambda>d s. d XOR s)
      | IxorM \<Rightarrow> int_op m b (mem_operand m b) (\<lambda>d s. d XOR s)
      | IrorR \<Rightarrow> int_op m b (src_or_imm m b) rotr64
      | IrolR \<Rightarrow> int_op m b (src_or_imm m b) rotl64
      | IswapR \<Rightarrow> do {
          tmp \<leftarrow> get_r m (bi_dst b);
          s \<leftarrow> get_r m (bi_src b);
          m \<leftarrow> put_r m (bi_dst b) s;
          put_r m (bi_src b) tmp
        }
      | FswapR \<Rightarrow>
          (if bi_fswap_is_e b
           then do { v \<leftarrow> get_e m (bi_dst b); put_e m (bi_dst b) (swap_f128 v) }
           else do { v \<leftarrow> get_f m (bi_dst b); put_f m (bi_dst b) (swap_f128 v) })
      | FaddR \<Rightarrow> flt_op_f m b (get_a m (bi_src b)) (fp_add fpu rm)
      | FaddM \<Rightarrow> flt_op_f m b (mem_f128 m b) (fp_add fpu rm)
      | FsubR \<Rightarrow> flt_op_f m b (get_a m (bi_src b)) (fp_sub fpu rm)
      | FsubM \<Rightarrow> flt_op_f m b (mem_f128 m b) (fp_sub fpu rm)
      | FscalR \<Rightarrow> flt_op_f m b (Some (0x80F0000000000000, 0x80F0000000000000)) (\<lambda>d mask. d XOR mask)
      | FmulR \<Rightarrow> flt_op_e m b (get_a m (bi_src b)) (fp_mul fpu rm)
      | FdivM \<Rightarrow> flt_op_e m b
          (map_option (mask_register_exponent_mantissa config) (mem_f128 m b)) (fp_div fpu rm)
      | FsqrtR \<Rightarrow> flt_op_e m b (Some (0, 0)) (\<lambda>d s. fp_sqrt fpu rm d)
      | Cbranch \<Rightarrow> Some m
      | Cfround \<Rightarrow> do {
          v \<leftarrow> get_r m (bi_src b);
          let rotated = rotate_right (unat (bi_imm b)) v;
          Some (if version = V1 \<or> rotated AND 60 = 0
                then m\<lparr>m_rm := unat (rotated AND 3)\<rparr> else m)
        }
      | Istore \<Rightarrow> do {
          base \<leftarrow> get_r m (bi_dst b);
          v \<leftarrow> get_r m (bi_src b);
          sp \<leftarrow> store64 (m_sp m) (masked_addr base b) v;
          Some (m\<lparr>m_sp := sp\<rparr>)
        }
      | Nop \<Rightarrow> Some m)"

text \<open>One iteration of the \<open>while\<close> loop: the new program counter and machine.\<close>

definition exec_instr ::
  "fpu \<Rightarrow> rx_version \<Rightarrow> program_configuration \<Rightarrow> bytecode_instruction \<Rightarrow> int \<times> machine
     \<Rightarrow> (int \<times> machine) option" where
  "exec_instr fpu version config b s =
     (let (pc, m) = s in
      if bi_itype b = Cbranch then do {
        d \<leftarrow> get_r m (bi_dst b);
        let d = d + bi_imm b;
        m \<leftarrow> put_r m (bi_dst b) d;
        let pc = (if d AND ucast (bi_mem_mask b) = 0 then bi_target b else pc);
        Some (pc + 1, m)
      }
      else map_option (\<lambda>m. (pc + 1, m)) (exec_plain fpu version config b m))"

section \<open>The interpreter\<close>

text \<open>The loop as written may not end, so it is a \<open>partial_function\<close>; that it always ends is
  a theorem.\<close>

partial_function (option) bytecode_loop ::
  "fpu \<Rightarrow> rx_version \<Rightarrow> program_configuration \<Rightarrow> bytecode_instruction list \<Rightarrow> int \<times> machine
     \<Rightarrow> machine option" where
  "bytecode_loop fpu version config bc s =
     (if fst s < int (length bc) then
        (if 0 \<le> fst s
         then Option.bind (exec_instr fpu version config (bc ! nat (fst s)) s)
                (\<lambda>s'. bytecode_loop fpu version config bc s')
         else None)
      else Some (snd s))"

declare bytecode_loop.simps [code]

definition execute_bytecode ::
  "fpu \<Rightarrow> rx_version \<Rightarrow> program_configuration \<Rightarrow> bytecode_instruction list \<Rightarrow> machine \<Rightarrow> machine option" where
  "execute_bytecode fpu version config bc m = bytecode_loop fpu version config bc (0, m)"

text \<open>The same loop with a bound on the number of instructions executed.\<close>

fun bytecode_fuel ::
  "fpu \<Rightarrow> rx_version \<Rightarrow> program_configuration \<Rightarrow> bytecode_instruction list \<Rightarrow> nat \<Rightarrow> int \<times> machine
     \<Rightarrow> machine option" where
  "bytecode_fuel fpu version config bc n s =
     (if fst s < int (length bc) then
        (if 0 \<le> fst s then
           (case n of 0 \<Rightarrow> None
            | Suc n' \<Rightarrow> Option.bind (exec_instr fpu version config (bc ! nat (fst s)) s)
                (\<lambda>s'. bytecode_fuel fpu version config bc n' s'))
         else None)
      else Some (snd s))"

declare bytecode_fuel.simps [simp del]

end
