(* ===== verification/A64.thy ===== *)
theory A64
  imports Jit_A64 Vm_Exec
begin

text \<open>
  The processor the JIT emits code for: the fragment of the A64 instruction set that the
  encoder uses, as the Arm Architecture Reference Manual gives it. \<open>decode\<close> reads an
  instruction word, \<open>exec_a64\<close> is the effect of an instruction on the registers and memory,
  \<open>a64_step\<close> fetches, decodes and executes. Memory is a partial map from addresses to bytes:
  an access to an address that is not mapped has no result, so a run with a result accessed
  mapped memory only. A word outside the fragment has no result either.
\<close>

section \<open>Instructions\<close>

text \<open>Register 31 is the zero register, or the stack pointer as a base address.\<close>

datatype fp_op = FpAdd | FpSub | FpMul | FpDiv

datatype a64 =
    ADDx nat nat nat nat
  | ADDi nat nat u64
  | SUBx nat nat nat
  | SUBi nat nat u64
  | SUBSi nat nat u64
  | EORw nat nat nat
  | PRFM
  | STPd nat nat nat u64
  | LDPd nat nat nat u64
  | MULx nat nat nat
  | UMULHx nat nat nat
  | SMULHx nat nat nat
  | EORx nat nat nat
  | ANDx nat nat nat
  | ANDSx nat nat nat
  | ORRx nat nat nat
  | ANDi nat nat u64
  | ANDSi nat nat u64
  | RORVx nat nat nat
  | EXTR nat nat nat nat
  | UBFM nat nat nat nat
  | MOVZx nat u64 nat
  | MOVKx nat u64 nat
  | MOVNx nat u64 nat
  | LDRx nat nat nat
  | LDRi nat nat u64
  | STRx nat nat nat
  | STRi nat nat u64
  | LDRd nat nat u64
  | STRd nat nat u64
  | STPx_pre nat nat nat u64
  | LDPx_post nat nat nat u64
  | STPd_pre nat nat nat u64
  | LDPd_post nat nat nat u64
  | LDRSWi nat nat u64
  | FOPd fp_op nat nat nat
  | FSQRTd nat nat
  | FMOVdd nat nat
  | FMOVxd nat nat
  | FMOVdx nat nat
  | SCVTFdx nat nat
  | EOR8b nat nat nat
  | MSR_FPCR nat
  | Bcond nat int
  | CBZx nat int
  | RETx nat

section \<open>Decoding\<close>

text \<open>\<open>fld lo n w\<close> is the field of \<open>n\<close> bits at position \<open>lo\<close>.\<close>

definition fld :: "nat \<Rightarrow> nat \<Rightarrow> u32 \<Rightarrow> u32" where
  "fld lo n w = take_bit n (drop_bit lo w)"

text \<open>Sign-extended fields: a byte offset scaled by 8, and a word offset.\<close>

definition offset7 :: "u32 \<Rightarrow> u64" where
  "offset7 x = push_bit 3 (word_of_int (signed_take_bit 6 (uint x)))"

definition offset19 :: "u32 \<Rightarrow> int" where
  "offset19 x = signed_take_bit 18 (uint x)"

definition scaled8 :: "u32 \<Rightarrow> u64" where
  "scaled8 x = push_bit 3 (ucast x)"

text \<open>The word whose bits below 64 satisfy a predicate, and \<open>DecodeBitMasks\<close> for logical
  immediates: an element of \<open>2 ^ len\<close> bits, \<open>S + 1\<close> ones rotated right by \<open>R\<close>, replicated.\<close>

definition word_of_pred :: "(nat \<Rightarrow> bool) \<Rightarrow> u64" where
  "word_of_pred P = foldr (\<lambda>i w. if P i then set_bit i w else w) [0..<64] 0"

definition decode_bit_masks :: "u32 \<Rightarrow> u32 \<Rightarrow> u32 \<Rightarrow> u64 option" where
  "decode_bit_masks n imms immr =
     (let sel = unat (push_bit 6 n OR (NOT imms AND 0x3F));
          len = bit_len sel - 1;
          esize = 2 ^ len;
          s = unat imms mod esize;
          r = unat immr mod esize
      in if sel < 2 \<or> s = esize - 1 then None
         else Some (word_of_pred (\<lambda>i. (i + r) mod esize \<le> s)))"

definition decode_ldst :: "u32 \<Rightarrow> nat \<Rightarrow> nat \<Rightarrow> nat \<Rightarrow> a64 option" where
  "decode_ldst w t n m =
     (let top = fld 24 8 w; opc = fld 22 2 w
      in if top = 0xF9 then
           (if opc = 0 then Some (STRi t n (scaled8 (fld 10 12 w)))
            else if opc = 1 then Some (LDRi t n (scaled8 (fld 10 12 w)))
            else if opc = 2 \<and> t = 0 then Some PRFM else None)
         else if top = 0xFD then
           (if opc = 0 then Some (STRd t n (scaled8 (fld 10 12 w)))
            else if opc = 1 then Some (LDRd t n (scaled8 (fld 10 12 w))) else None)
         else if top = 0xB9 \<and> opc = 2 then Some (LDRSWi t n (push_bit 2 (ucast (fld 10 12 w))))
         else if top = 0xF8 \<and> fld 21 1 w = 1 \<and> fld 10 6 w = 0x1A then
           (if opc = 0 then Some (STRx t n m)
            else if opc = 1 then Some (LDRx t n m)
            else if opc = 2 \<and> t = 0 then Some PRFM else None)
         else None)"

definition decode_pair :: "u32 \<Rightarrow> nat \<Rightarrow> nat \<Rightarrow> nat \<Rightarrow> a64 option" where
  "decode_pair w t n t2 =
     (let top = fld 24 8 w; opc = fld 22 2 w; off = offset7 (fld 15 7 w)
      in if top = 0xA9 \<and> opc = 2 then Some (STPx_pre t t2 n off)
         else if top = 0xA8 \<and> opc = 3 then Some (LDPx_post t t2 n off)
         else if top = 0x6D \<and> opc = 0 then Some (STPd t t2 n off)
         else if top = 0x6D \<and> opc = 1 then Some (LDPd t t2 n off)
         else if top = 0x6D \<and> opc = 2 then Some (STPd_pre t t2 n off)
         else if top = 0x6C \<and> opc = 3 then Some (LDPd_post t t2 n off)
         else None)"

definition decode_fp :: "u32 \<Rightarrow> nat \<Rightarrow> nat \<Rightarrow> nat \<Rightarrow> a64 option" where
  "decode_fp w d n m =
     (let top = fld 24 8 w; o21 = fld 21 3 w; o10 = fld 10 6 w
      in if top = 0x1E \<and> o21 = 3 \<and> o10 = 0x0A then Some (FOPd FpAdd d n m)
         else if top = 0x1E \<and> o21 = 3 \<and> o10 = 0x0E then Some (FOPd FpSub d n m)
         else if top = 0x1E \<and> o21 = 3 \<and> o10 = 0x02 then Some (FOPd FpMul d n m)
         else if top = 0x1E \<and> o21 = 3 \<and> o10 = 0x06 then Some (FOPd FpDiv d n m)
         else if top = 0x1E \<and> o21 = 3 \<and> o10 = 0x30 \<and> m = 1 then Some (FSQRTd d n)
         else if top = 0x1E \<and> o21 = 3 \<and> o10 = 0x10 \<and> m = 0 then Some (FMOVdd d n)
         else if top = 0x9E \<and> o21 = 3 \<and> o10 = 0 \<and> m = 6 then Some (FMOVxd d n)
         else if top = 0x9E \<and> o21 = 3 \<and> o10 = 0 \<and> m = 7 then Some (FMOVdx d n)
         else if top = 0x9E \<and> o21 = 3 \<and> o10 = 0 \<and> m = 2 then Some (SCVTFdx d n)
         else if top = 0x2E \<and> o21 = 1 \<and> o10 = 7 then Some (EOR8b d n m)
         else None)"

definition decode_data :: "u32 \<Rightarrow> nat \<Rightarrow> nat \<Rightarrow> nat \<Rightarrow> a64 option" where
  "decode_data w d n m =
     (let top = fld 24 8 w; o22 = fld 22 2 w; o21 = fld 21 3 w; o10 = fld 10 6 w
      in if top = 0x8B \<and> o21 = 0 then Some (ADDx d n m (unat o10))
         else if top = 0xCB \<and> o21 = 0 \<and> o10 = 0 then Some (SUBx d n m)
         else if top = 0x91 \<and> o22 = 0 then Some (ADDi d n (ucast (fld 10 12 w)))
         else if top = 0xD1 \<and> o22 = 0 then Some (SUBi d n (ucast (fld 10 12 w)))
         else if top = 0xF1 \<and> o22 = 0 then Some (SUBSi d n (ucast (fld 10 12 w)))
         else if top = 0x4A \<and> o21 = 0 \<and> o10 = 0 then Some (EORw d n m)
         else if top = 0xCA \<and> o21 = 0 \<and> o10 = 0 then Some (EORx d n m)
         else if top = 0x8A \<and> o21 = 0 \<and> o10 = 0 then Some (ANDx d n m)
         else if top = 0xEA \<and> o21 = 0 \<and> o10 = 0 then Some (ANDSx d n m)
         else if top = 0xAA \<and> o21 = 0 \<and> o10 = 0 then Some (ORRx d n m)
         else if top = 0x9B \<and> o21 = 0 \<and> o10 = 0x1F then Some (MULx d n m)
         else if top = 0x9B \<and> o21 = 6 \<and> o10 = 0x1F then Some (UMULHx d n m)
         else if top = 0x9B \<and> o21 = 2 \<and> o10 = 0x1F then Some (SMULHx d n m)
         else if top = 0x9A \<and> o21 = 6 \<and> o10 = 0x0B then Some (RORVx d n m)
         else if top = 0x93 \<and> o21 = 6 then Some (EXTR d n m (unat o10))
         else if top = 0xD3 \<and> o22 = 1 then Some (UBFM d n (unat (fld 16 6 w)) (unat o10))
         else if top = 0xD2 \<and> fld 23 1 w = 1 then
           Some (MOVZx d (ucast (fld 5 16 w)) (16 * unat (fld 21 2 w)))
         else if top = 0xF2 \<and> fld 23 1 w = 1 then
           Some (MOVKx d (ucast (fld 5 16 w)) (16 * unat (fld 21 2 w)))
         else if top = 0x92 \<and> fld 23 1 w = 1 then
           Some (MOVNx d (ucast (fld 5 16 w)) (16 * unat (fld 21 2 w)))
         else if top = 0x92 then
           map_option (ANDi d n) (decode_bit_masks (fld 22 1 w) o10 (fld 16 6 w))
         else if top = 0xF2 then
           map_option (ANDSi d n) (decode_bit_masks (fld 22 1 w) o10 (fld 16 6 w))
         else None)"

definition decode_branch :: "u32 \<Rightarrow> nat \<Rightarrow> nat \<Rightarrow> a64 option" where
  "decode_branch w d n =
     (let top = fld 24 8 w
      in if top = 0x54 \<and> fld 4 1 w = 0 then Some (Bcond (unat (fld 0 4 w)) (offset19 (fld 5 19 w)))
         else if top = 0xB4 then Some (CBZx d (offset19 (fld 5 19 w)))
         else if top = 0xD6 \<and> fld 10 14 w = 0x17C0 \<and> d = 0 then Some (RETx n)
         else if top = 0xD5 \<and> fld 5 19 w = 0xDA20 then Some (MSR_FPCR d)
         else None)"

definition decode :: "u32 \<Rightarrow> a64 option" where
  "decode w =
     (let top = fld 24 8 w; d = unat (fld 0 5 w); n = unat (fld 5 5 w);
          m = unat (fld 16 5 w); t2 = unat (fld 10 5 w)
      in if top \<in> {0xF8, 0xF9, 0xFD, 0xB9} then decode_ldst w d n m
         else if top \<in> {0xA9, 0xA8, 0x6D, 0x6C} then decode_pair w d n t2
         else if top \<in> {0x1E, 0x9E, 0x2E} then decode_fp w d n m
         else if top \<in> {0x54, 0xB4, 0xD6, 0xD5} then decode_branch w d n
         else decode_data w d n m)"

section \<open>State\<close>

record a64_state =
  xr :: "nat \<Rightarrow> u64"
  dr :: "nat \<Rightarrow> f64"
  zflag :: bool
  fpcr :: u64
  memory :: "u64 \<Rightarrow> u8 option"

definition set_x :: "nat \<Rightarrow> u64 \<Rightarrow> a64_state \<Rightarrow> a64_state" where
  "set_x r v s = s\<lparr>xr := (xr s)(r := v)\<rparr>"
definition set_d :: "nat \<Rightarrow> f64 \<Rightarrow> a64_state \<Rightarrow> a64_state" where
  "set_d r v s = s\<lparr>dr := (dr s)(r := v)\<rparr>"
definition set_z :: "bool \<Rightarrow> a64_state \<Rightarrow> a64_state" where
  "set_z b s = s\<lparr>zflag := b\<rparr>"
definition set_mode :: "u64 \<Rightarrow> a64_state \<Rightarrow> a64_state" where
  "set_mode v s = s\<lparr>fpcr := v\<rparr>"
definition set_mem :: "(u64 \<Rightarrow> u8 option) \<Rightarrow> a64_state \<Rightarrow> a64_state" where
  "set_mem m s = s\<lparr>memory := m\<rparr>"

text \<open>An operand and a result of a data-processing instruction.\<close>

definition get_x :: "a64_state \<Rightarrow> nat \<Rightarrow> u64" where
  "get_x s r = (if r = 31 then 0 else xr s r)"
definition put_x :: "nat \<Rightarrow> u64 \<Rightarrow> a64_state \<Rightarrow> a64_state" where
  "put_x r v s = (if r = 31 then s else set_x r v s)"

definition load_mem :: "(u64 \<Rightarrow> u8 option) \<Rightarrow> u64 \<Rightarrow> nat \<Rightarrow> bytes option" where
  "load_mem mem a n = map_all (\<lambda>i. mem (a + of_nat i)) [0..<n]"

definition store_mem :: "(u64 \<Rightarrow> u8 option) \<Rightarrow> u64 \<Rightarrow> bytes \<Rightarrow> (u64 \<Rightarrow> u8 option) option" where
  "store_mem mem a bs =
     (if list_all (\<lambda>i. mem (a + of_nat i) \<noteq> None) [0..<length bs]
      then Some (\<lambda>x. if unat (x - a) < length bs then Some (bs ! unat (x - a)) else mem x)
      else None)"

definition load_word :: "a64_state \<Rightarrow> u64 \<Rightarrow> u64 option" where
  "load_word s a = map_option from_le (load_mem (memory s) a 8)"
definition store_word :: "u64 \<Rightarrow> u64 \<Rightarrow> a64_state \<Rightarrow> a64_state option" where
  "store_word a v s = map_option (\<lambda>mem. set_mem mem s) (store_mem (memory s) a (le_bytes 8 v))"

section \<open>Floating point\<close>

text \<open>The rounding field of the control register holds the mode in the processor's coding. The
  arithmetic instructions have a result here when the register has flush-to-zero and a mode and
  nothing else, the setting \<open>set_rounding_mode\<close> and \<open>CFROUND\<close> install; \<open>fpu\<close> is indexed by
  the mode in RandomX's coding.\<close>

definition arm_mode :: "nat \<Rightarrow> u64" where
  "arm_mode rm = (if rm = 0 then 0 else if rm = 1 then 2 else if rm = 2 then 1 else 3)"

definition rx_fpcr :: "nat \<Rightarrow> u64" where
  "rx_fpcr rm = push_bit 24 1 OR push_bit 22 (arm_mode rm)"

definition fp_mode :: "u64 \<Rightarrow> nat option" where
  "fp_mode v = find (\<lambda>rm. v = rx_fpcr rm) [0..<4]"

fun fp_apply :: "fpu \<Rightarrow> fp_op \<Rightarrow> nat \<Rightarrow> f64 \<Rightarrow> f64 \<Rightarrow> f64" where
  "fp_apply fpu FpAdd = fp_add fpu"
| "fp_apply fpu FpSub = fp_sub fpu"
| "fp_apply fpu FpMul = fp_mul fpu"
| "fp_apply fpu FpDiv = fp_div fpu"

text \<open>\<open>SCVTF\<close> of an integer of at most 32 bits is exact; the code converts no other.\<close>

definition scvtf :: "u64 \<Rightarrow> f64 option" where
  "scvtf v = (if v = scast (ucast v :: u32) then Some (i32_to_f64 (ucast v)) else None)"

section \<open>Execution\<close>

definition ubfm :: "u64 \<Rightarrow> nat \<Rightarrow> nat \<Rightarrow> u64" where
  "ubfm x immr imms =
     (if immr \<le> imms then take_bit (imms - immr + 1) (drop_bit immr x)
      else push_bit (64 - immr) (take_bit (imms + 1) x))"

fun exec_a64 :: "fpu \<Rightarrow> a64 \<Rightarrow> a64_state \<Rightarrow> a64_state option" where
  "exec_a64 fpu (ADDx d n m k) s = Some (put_x d (get_x s n + push_bit k (get_x s m)) s)"
| "exec_a64 fpu (ADDi d n i) s = Some (set_x d (xr s n + i) s)"
| "exec_a64 fpu (SUBx d n m) s = Some (put_x d (get_x s n - get_x s m) s)"
| "exec_a64 fpu (SUBi d n i) s = Some (set_x d (xr s n - i) s)"
| "exec_a64 fpu (SUBSi d n i) s = Some (set_z (xr s n - i = 0) (put_x d (xr s n - i) s))"
| "exec_a64 fpu (EORw d n m) s =
     Some (put_x d (ucast ((ucast (get_x s n) :: u32) XOR ucast (get_x s m))) s)"
| "exec_a64 fpu PRFM s = Some s"
| "exec_a64 fpu (STPd t t2 n i) s = do {
     s' \<leftarrow> store_word (xr s n + i) (dr s t) s;
     store_word (xr s n + i + 8) (dr s t2) s'
   }"
| "exec_a64 fpu (LDPd t t2 n i) s = do {
     v \<leftarrow> load_word s (xr s n + i);
     v2 \<leftarrow> load_word s (xr s n + i + 8);
     Some (set_d t2 v2 (set_d t v s))
   }"
| "exec_a64 fpu (MULx d n m) s = Some (put_x d (get_x s n * get_x s m) s)"
| "exec_a64 fpu (UMULHx d n m) s = Some (put_x d (mulh (get_x s n) (get_x s m)) s)"
| "exec_a64 fpu (SMULHx d n m) s = Some (put_x d (smulh (get_x s n) (get_x s m)) s)"
| "exec_a64 fpu (EORx d n m) s = Some (put_x d (get_x s n XOR get_x s m) s)"
| "exec_a64 fpu (ANDx d n m) s = Some (put_x d (get_x s n AND get_x s m) s)"
| "exec_a64 fpu (ANDSx d n m) s =
     Some (set_z (get_x s n AND get_x s m = 0) (put_x d (get_x s n AND get_x s m) s))"
| "exec_a64 fpu (ORRx d n m) s = Some (put_x d (get_x s n OR get_x s m) s)"
| "exec_a64 fpu (ANDi d n i) s = Some (set_x d (get_x s n AND i) s)"
| "exec_a64 fpu (ANDSi d n i) s = Some (set_z (get_x s n AND i = 0) (put_x d (get_x s n AND i) s))"
| "exec_a64 fpu (RORVx d n m) s = Some (put_x d (rotate_right (unat (get_x s m) mod 64) (get_x s n)) s)"
| "exec_a64 fpu (EXTR d n m k) s =
     Some (put_x d (drop_bit k (get_x s m) OR push_bit (64 - k) (get_x s n)) s)"
| "exec_a64 fpu (UBFM d n r i) s = Some (put_x d (ubfm (get_x s n) r i) s)"
| "exec_a64 fpu (MOVZx d i k) s = Some (put_x d (push_bit k i) s)"
| "exec_a64 fpu (MOVKx d i k) s =
     Some (put_x d ((get_x s d AND NOT (push_bit k 0xFFFF)) OR push_bit k i) s)"
| "exec_a64 fpu (MOVNx d i k) s = Some (put_x d (NOT (push_bit k i)) s)"
| "exec_a64 fpu (LDRx t n m) s =
     map_option (\<lambda>v. put_x t v s) (load_word s (xr s n + get_x s m))"
| "exec_a64 fpu (LDRi t n i) s = map_option (\<lambda>v. put_x t v s) (load_word s (xr s n + i))"
| "exec_a64 fpu (STRx t n m) s = store_word (xr s n + get_x s m) (get_x s t) s"
| "exec_a64 fpu (STRi t n i) s = store_word (xr s n + i) (get_x s t) s"
| "exec_a64 fpu (LDRd t n i) s = map_option (\<lambda>v. set_d t v s) (load_word s (xr s n + i))"
| "exec_a64 fpu (STRd t n i) s = store_word (xr s n + i) (dr s t) s"
| "exec_a64 fpu (STPx_pre t t2 n i) s = do {
     let a = xr s n + i;
     s' \<leftarrow> store_word a (get_x s t) s;
     s'' \<leftarrow> store_word (a + 8) (get_x s t2) s';
     Some (set_x n a s'')
   }"
| "exec_a64 fpu (LDPx_post t t2 n i) s = do {
     let a = xr s n;
     v \<leftarrow> load_word s a;
     v2 \<leftarrow> load_word s (a + 8);
     Some (set_x n (a + i) (put_x t2 v2 (put_x t v s)))
   }"
| "exec_a64 fpu (STPd_pre t t2 n i) s = do {
     let a = xr s n + i;
     s' \<leftarrow> store_word a (dr s t) s;
     s'' \<leftarrow> store_word (a + 8) (dr s t2) s';
     Some (set_x n a s'')
   }"
| "exec_a64 fpu (LDPd_post t t2 n i) s = do {
     let a = xr s n;
     v \<leftarrow> load_word s a;
     v2 \<leftarrow> load_word s (a + 8);
     Some (set_x n (a + i) (set_d t2 v2 (set_d t v s)))
   }"
| "exec_a64 fpu (LDRSWi t n i) s =
     map_option (\<lambda>bs. put_x t (scast (from_le bs :: u32)) s) (load_mem (memory s) (xr s n + i) 4)"
| "exec_a64 fpu (FOPd op d n m) s =
     map_option (\<lambda>rm. set_d d (fp_apply fpu op rm (dr s n) (dr s m)) s) (fp_mode (fpcr s))"
| "exec_a64 fpu (FSQRTd d n) s =
     map_option (\<lambda>rm. set_d d (fp_sqrt fpu rm (dr s n)) s) (fp_mode (fpcr s))"
| "exec_a64 fpu (FMOVdd d n) s = Some (set_d d (dr s n) s)"
| "exec_a64 fpu (FMOVxd d n) s = Some (put_x d (dr s n) s)"
| "exec_a64 fpu (FMOVdx d n) s = Some (set_d d (get_x s n) s)"
| "exec_a64 fpu (SCVTFdx d n) s = map_option (\<lambda>v. set_d d v s) (scvtf (get_x s n))"
| "exec_a64 fpu (EOR8b d n m) s = Some (set_d d (dr s n XOR dr s m) s)"
| "exec_a64 fpu (MSR_FPCR t) s = Some (set_mode (get_x s t) s)"
| "exec_a64 fpu (Bcond c i) s = None"
| "exec_a64 fpu (CBZx t i) s = None"
| "exec_a64 fpu (RETx n) s = None"

text \<open>Where the control goes: the word index after the instruction, or out by \<open>RET\<close>. Of the
  condition codes the emitter uses \<open>EQ\<close> and \<open>NE\<close>.\<close>

datatype control = At int | Returned u64

definition holds_cond :: "nat \<Rightarrow> a64_state \<Rightarrow> bool option" where
  "holds_cond c s = (if c = 0 then Some (zflag s) else if c = 1 then Some (\<not> zflag s) else None)"

definition exec_at :: "fpu \<Rightarrow> int \<Rightarrow> a64 \<Rightarrow> a64_state \<Rightarrow> (control \<times> a64_state) option" where
  "exec_at fpu pc i s =
     (case i of
        Bcond c off \<Rightarrow> map_option (\<lambda>t. (At (if t then pc + off else pc + 1), s)) (holds_cond c s)
      | CBZx t off \<Rightarrow> Some (At (if get_x s t = 0 then pc + off else pc + 1), s)
      | RETx n \<Rightarrow> Some (Returned (get_x s n), s)
      | _ \<Rightarrow> map_option (\<lambda>s'. (At (pc + 1), s')) (exec_a64 fpu i s))"

definition a64_step :: "fpu \<Rightarrow> u32 list \<Rightarrow> control \<times> a64_state \<Rightarrow> (control \<times> a64_state) option" where
  "a64_step fpu code = (\<lambda>(c, s). case c of
     At pc \<Rightarrow> (if 0 \<le> pc \<and> pc < int (length code)
              then Option.bind (decode (code ! nat pc)) (\<lambda>i. exec_at fpu pc i s) else None)
   | Returned a \<Rightarrow> None)"

fun a64_steps :: "fpu \<Rightarrow> u32 list \<Rightarrow> nat \<Rightarrow> control \<times> a64_state \<Rightarrow> (control \<times> a64_state) option" where
  "a64_steps fpu code 0 c = Some c"
| "a64_steps fpu code (Suc n) c = Option.bind (a64_step fpu code c) (a64_steps fpu code n)"

text \<open>A straight piece of code.\<close>

fun exec_words :: "fpu \<Rightarrow> u32 list \<Rightarrow> a64_state \<Rightarrow> a64_state option" where
  "exec_words fpu [] s = Some s"
| "exec_words fpu (w # ws) s =
     Option.bind (decode w) (\<lambda>i. Option.bind (exec_a64 fpu i s) (exec_words fpu ws))"

end
