(* ===== verification/Jit_Words.thy ===== *)
theory Jit_Words
  imports A64
begin

text \<open>
  What the words of the encoder (\<open>src/randomx/jit/aarch64.rs\<close>) mean: every method emits the
  instruction its comment names, for operands in range (\<open>jit_decode\<close>).
\<close>

named_theorems jit_decode
named_theorems fld_simps

section \<open>Fields\<close>

lemma fld_or [fld_simps]: "fld lo n (a OR b) = fld lo n a OR fld lo n b"
  by (simp add: fld_def drop_bit_or take_bit_or)

lemma bit_less_exp: "x < 2 ^ n \<Longrightarrow> bit (x :: 'a::len word) i \<Longrightarrow> i < n"
  by (metis bit_take_bit_iff less_mask_eq take_bit_eq_mask mask_eq_exp_minus_1)

lemma fld_below: "x < 2 ^ m \<Longrightarrow> k + m \<le> lo \<Longrightarrow> fld lo n (push_bit k x) = 0"
  by (rule bit_word_eqI) (auto simp: fld_def bit_simps dest!: bit_less_exp)

lemma fld_above: "lo + n \<le> k \<Longrightarrow> fld lo n (push_bit k x) = 0"
  by (rule bit_word_eqI) (auto simp: fld_def bit_simps)

lemma fld_here: "x < 2 ^ n \<Longrightarrow> k + n \<le> 32 \<Longrightarrow> fld k n (push_bit k x) = x"
  by (rule bit_word_eqI) (auto simp: fld_def bit_simps dest: bit_less_exp)

text \<open>The widths of the fields: flags, registers, rotations, pair offsets, immediates.\<close>

lemmas fld_width =
  fld_below [where m = 1, simplified] fld_below [where m = 2, simplified]
  fld_below [where m = 5, simplified] fld_below [where m = 6, simplified]
  fld_below [where m = 7, simplified] fld_below [where m = 12, simplified]
  fld_below [where m = 16, simplified] fld_below [where m = 19, simplified]
  fld_here [where n = 1, simplified] fld_here [where n = 2, simplified]
  fld_here [where n = 5, simplified] fld_here [where n = 6, simplified]
  fld_here [where n = 7, simplified] fld_here [where n = 12, simplified]
  fld_here [where n = 16, simplified] fld_here [where n = 19, simplified]

lemmas fld_low = fld_below [where k = 0 and m = 5, simplified] fld_here [where k = 0 and n = 5, simplified]
  fld_below [where k = 0 and m = 4, simplified] fld_here [where k = 0 and n = 4, simplified]

declare fld_above [fld_simps]
declare fld_width [fld_simps]
declare fld_low [fld_simps]

lemma fld_numeral [fld_simps]: "fld lo n (numeral k) = take_bit n (drop_bit lo (numeral k))"
  by (simp add: fld_def)

lemma fld_0_1 [fld_simps]: "fld lo n 0 = 0" "fld lo n 1 = take_bit n (drop_bit lo 1)"
  by (simp_all add: fld_def)

lemma and_low_bits [fld_simps]:
  "(x :: u32) < 4096 \<Longrightarrow> x AND 0xFFF = x" "x < 64 \<Longrightarrow> x AND 0x3F = x" "x < 128 \<Longrightarrow> x AND 0x7F = x"
  "x < 65536 \<Longrightarrow> x AND 0xFFFF = x" "x < 0x80000 \<Longrightarrow> x AND 0x7FFFF = x"
  using less_mask_eq [of x 12] less_mask_eq [of x 6] less_mask_eq [of x 7] less_mask_eq [of x 16] less_mask_eq [of x 19]
  by (simp_all add: mask_eq_exp_minus_1)

section \<open>Arithmetic and logic\<close>

lemma decode_add_reg [jit_decode]:
  "rd < 32 \<Longrightarrow> rn < 32 \<Longrightarrow> rm < 32 \<Longrightarrow>
   decode (add_reg rd rn rm) =
     Some (ADDx (unat rd) (unat rn) (unat rm) 0)"
  by (simp add: add_reg_def decode_def decode_data_def fld_simps Let_def)

lemma decode_add_reg_shifted [jit_decode]:
  "rd < 32 \<Longrightarrow> rn < 32 \<Longrightarrow> rm < 32 \<Longrightarrow> shift < 64 \<Longrightarrow>
   decode (add_reg_shifted rd rn rm shift) =
     Some (ADDx (unat rd) (unat rn) (unat rm) (unat shift))"
  by (simp add: add_reg_shifted_def decode_def decode_data_def fld_simps Let_def)

lemma decode_add_imm [jit_decode]:
  "rd < 32 \<Longrightarrow> rn < 32 \<Longrightarrow> imm12 < 4096 \<Longrightarrow>
   decode (add_imm rd rn imm12) =
     Some (ADDi (unat rd) (unat rn) (ucast imm12))"
  by (simp add: add_imm_def decode_def decode_data_def fld_simps Let_def)

lemma decode_sub_imm [jit_decode]:
  "rd < 32 \<Longrightarrow> rn < 32 \<Longrightarrow> imm12 < 4096 \<Longrightarrow>
   decode (sub_imm rd rn imm12) =
     Some (SUBi (unat rd) (unat rn) (ucast imm12))"
  by (simp add: sub_imm_def decode_def decode_data_def fld_simps Let_def)

lemma decode_subs_imm [jit_decode]:
  "rd < 32 \<Longrightarrow> rn < 32 \<Longrightarrow> imm12 < 4096 \<Longrightarrow>
   decode (subs_imm rd rn imm12) =
     Some (SUBSi (unat rd) (unat rn) (ucast imm12))"
  by (simp add: subs_imm_def decode_def decode_data_def fld_simps Let_def)

lemma decode_sub_reg [jit_decode]:
  "rd < 32 \<Longrightarrow> rn < 32 \<Longrightarrow> rm < 32 \<Longrightarrow>
   decode (sub_reg rd rn rm) =
     Some (SUBx (unat rd) (unat rn) (unat rm))"
  by (simp add: sub_reg_def decode_def decode_data_def fld_simps Let_def)

lemma decode_eor_reg_w [jit_decode]:
  "rd < 32 \<Longrightarrow> rn < 32 \<Longrightarrow> rm < 32 \<Longrightarrow>
   decode (eor_reg_w rd rn rm) =
     Some (EORw (unat rd) (unat rn) (unat rm))"
  by (simp add: eor_reg_w_def decode_def decode_data_def fld_simps Let_def)

lemma decode_neg_reg [jit_decode]:
  "rd < 32 \<Longrightarrow> rn < 32 \<Longrightarrow>
   decode (neg_reg rd rn) =
     Some (SUBx (unat rd) 31 (unat rn))"
  by (simp add: neg_reg_def sub_reg_def decode_def decode_data_def fld_simps Let_def)

lemma decode_mul_reg [jit_decode]:
  "rd < 32 \<Longrightarrow> rn < 32 \<Longrightarrow> rm < 32 \<Longrightarrow>
   decode (mul_reg rd rn rm) =
     Some (MULx (unat rd) (unat rn) (unat rm))"
  by (simp add: mul_reg_def decode_def decode_data_def fld_simps Let_def)

lemma decode_umulh_reg [jit_decode]:
  "rd < 32 \<Longrightarrow> rn < 32 \<Longrightarrow> rm < 32 \<Longrightarrow>
   decode (umulh_reg rd rn rm) =
     Some (UMULHx (unat rd) (unat rn) (unat rm))"
  by (simp add: umulh_reg_def decode_def decode_data_def fld_simps Let_def)

lemma decode_smulh_reg [jit_decode]:
  "rd < 32 \<Longrightarrow> rn < 32 \<Longrightarrow> rm < 32 \<Longrightarrow>
   decode (smulh_reg rd rn rm) =
     Some (SMULHx (unat rd) (unat rn) (unat rm))"
  by (simp add: smulh_reg_def decode_def decode_data_def fld_simps Let_def)

lemma decode_eor_reg [jit_decode]:
  "rd < 32 \<Longrightarrow> rn < 32 \<Longrightarrow> rm < 32 \<Longrightarrow>
   decode (eor_reg rd rn rm) =
     Some (EORx (unat rd) (unat rn) (unat rm))"
  by (simp add: eor_reg_def decode_def decode_data_def fld_simps Let_def)

lemma decode_and_reg [jit_decode]:
  "rd < 32 \<Longrightarrow> rn < 32 \<Longrightarrow> rm < 32 \<Longrightarrow>
   decode (and_reg rd rn rm) =
     Some (ANDx (unat rd) (unat rn) (unat rm))"
  by (simp add: and_reg_def decode_def decode_data_def fld_simps Let_def)

lemma decode_orr_reg [jit_decode]:
  "rd < 32 \<Longrightarrow> rn < 32 \<Longrightarrow> rm < 32 \<Longrightarrow>
   decode (orr_reg rd rn rm) =
     Some (ORRx (unat rd) (unat rn) (unat rm))"
  by (simp add: orr_reg_def decode_def decode_data_def fld_simps Let_def)

lemma decode_rorv [jit_decode]:
  "rd < 32 \<Longrightarrow> rn < 32 \<Longrightarrow> rm < 32 \<Longrightarrow>
   decode (rorv rd rn rm) =
     Some (RORVx (unat rd) (unat rn) (unat rm))"
  by (simp add: rorv_def decode_def decode_data_def fld_simps Let_def)

lemma decode_tst_reg [jit_decode]:
  "rn < 32 \<Longrightarrow> tmp < 32 \<Longrightarrow>
   decode (0xEA000000 OR push_bit 16 tmp OR push_bit 5 rn OR XZR) =
     Some (ANDSx 31 (unat rn) (unat tmp))"
  by (simp add: and_reg_def decode_def decode_data_def fld_simps Let_def)

lemma decode_ror_imm [jit_decode]:
  "rd < 32 \<Longrightarrow> rs < 32 \<Longrightarrow> k < 64 \<Longrightarrow>
   decode (ror_imm rd rs k) =
     Some (EXTR (unat rd) (unat rs) (unat rs) (unat k))"
  by (simp add: ror_imm_def decode_def decode_data_def fld_simps Let_def)

lemma decode_lsr_imm [jit_decode]:
  "rd < 32 \<Longrightarrow> rn < 32 \<Longrightarrow> k < 64 \<Longrightarrow>
   decode (lsr_imm rd rn k) =
     Some (UBFM (unat rd) (unat rn) (unat k) 63)"
  by (simp add: lsr_imm_def decode_def decode_data_def fld_simps Let_def)

lemma decode_ubfm:
  "rd < 32 \<Longrightarrow> rn < 32 \<Longrightarrow> immr < 64 \<Longrightarrow> imms < 64 \<Longrightarrow>
   decode (0xD3400000 OR push_bit 16 immr OR push_bit 10 imms OR push_bit 5 rn OR rd) =
     Some (UBFM (unat rd) (unat rn) (unat immr) (unat imms))"
  by (simp add: decode_def decode_data_def fld_simps Let_def)

lemma decode_lsl_imm [jit_decode]:
  "rd < 32 \<Longrightarrow> rn < 32 \<Longrightarrow> (64 - k) AND 0x3F < 64 \<Longrightarrow> (63 - k) AND 0x3F < 64 \<Longrightarrow> decode (lsl_imm rd rn k) =
     Some (UBFM (unat rd) (unat rn) (unat ((64 - k) AND 0x3F)) (unat ((63 - k) AND 0x3F)))"
  unfolding lsl_imm_def by (rule decode_ubfm)

lemma decode_mov_reg [jit_decode]:
  "rd < 32 \<Longrightarrow> rn < 32 \<Longrightarrow>
   decode (mov_reg rd rn) =
     Some (ORRx (unat rd) 31 (unat rn))"
  by (simp add: mov_reg_def orr_reg_def decode_def decode_data_def fld_simps Let_def)

lemma decode_movz [jit_decode]:
  "rd < 32 \<Longrightarrow> x < 65536 \<Longrightarrow> shift div 16 < 4 \<Longrightarrow>
   decode (movz rd x shift) =
     Some (MOVZx (unat rd) (ucast x) (16 * unat (shift div 16)))"
  by (simp add: movz_def decode_def decode_data_def fld_simps Let_def)

lemma decode_movk [jit_decode]:
  "rd < 32 \<Longrightarrow> x < 65536 \<Longrightarrow> shift div 16 < 4 \<Longrightarrow>
   decode (movk rd x shift) =
     Some (MOVKx (unat rd) (ucast x) (16 * unat (shift div 16)))"
  by (simp add: movk_def decode_def decode_data_def fld_simps Let_def)

lemma decode_movn [jit_decode]:
  "rd < 32 \<Longrightarrow> x < 65536 \<Longrightarrow> shift div 16 < 4 \<Longrightarrow>
   decode (movn rd x shift) =
     Some (MOVNx (unat rd) (ucast x) (16 * unat (shift div 16)))"
  by (simp add: movn_def decode_def decode_data_def fld_simps Let_def)

lemma decode_and_imm [jit_decode]:
  "rd < 32 \<Longrightarrow> rn < 32 \<Longrightarrow> n < 2 \<Longrightarrow> immr < 64 \<Longrightarrow> imms < 64 \<Longrightarrow> decode (and_imm rd rn n immr imms) =
     map_option (ANDi (unat rd) (unat rn)) (decode_bit_masks n imms immr)"
  by (simp add: and_imm_def decode_def decode_data_def fld_simps Let_def)

lemma decode_tst_imm [jit_decode]:
  "rn < 32 \<Longrightarrow> n < 2 \<Longrightarrow> immr < 64 \<Longrightarrow> imms < 64 \<Longrightarrow> decode (tst_imm rn n immr imms) =
     map_option (ANDSi 31 (unat rn)) (decode_bit_masks n imms immr)"
  by (simp add: tst_imm_def decode_def decode_data_def fld_simps Let_def)

section \<open>Loads and stores\<close>

lemma decode_ldr_reg [jit_decode]:
  "rt < 32 \<Longrightarrow> rn < 32 \<Longrightarrow> rm < 32 \<Longrightarrow>
   decode (ldr_reg rt rn rm) =
     Some (LDRx (unat rt) (unat rn) (unat rm))"
  by (simp add: ldr_reg_def decode_def decode_ldst_def fld_simps Let_def)

lemma decode_str_reg [jit_decode]:
  "rt < 32 \<Longrightarrow> rn < 32 \<Longrightarrow> rm < 32 \<Longrightarrow>
   decode (str_reg rt rn rm) =
     Some (STRx (unat rt) (unat rn) (unat rm))"
  by (simp add: str_reg_def decode_def decode_ldst_def fld_simps Let_def)

lemma decode_ldr_imm [jit_decode]:
  "rt < 32 \<Longrightarrow> rn < 32 \<Longrightarrow> byte_offset div 8 < 4096 \<Longrightarrow>
   decode (ldr_imm rt rn byte_offset) =
     Some (LDRi (unat rt) (unat rn) (scaled8 (byte_offset div 8)))"
  by (simp add: ldr_imm_def decode_def decode_ldst_def fld_simps Let_def)

lemma decode_str_imm [jit_decode]:
  "rt < 32 \<Longrightarrow> rn < 32 \<Longrightarrow> byte_offset div 8 < 4096 \<Longrightarrow>
   decode (str_imm rt rn byte_offset) =
     Some (STRi (unat rt) (unat rn) (scaled8 (byte_offset div 8)))"
  by (simp add: str_imm_def decode_def decode_ldst_def fld_simps Let_def)

lemma decode_ldr_fp_imm [jit_decode]:
  "dt < 32 \<Longrightarrow> rn < 32 \<Longrightarrow> byte_offset div 8 < 4096 \<Longrightarrow>
   decode (ldr_fp_imm dt rn byte_offset) =
     Some (LDRd (unat dt) (unat rn) (scaled8 (byte_offset div 8)))"
  by (simp add: ldr_fp_imm_def decode_def decode_ldst_def fld_simps Let_def)

lemma decode_str_fp_imm [jit_decode]:
  "dt < 32 \<Longrightarrow> rn < 32 \<Longrightarrow> byte_offset div 8 < 4096 \<Longrightarrow>
   decode (str_fp_imm dt rn byte_offset) =
     Some (STRd (unat dt) (unat rn) (scaled8 (byte_offset div 8)))"
  by (simp add: str_fp_imm_def decode_def decode_ldst_def fld_simps Let_def)

lemma decode_prfm_reg [jit_decode]:
  "rn < 32 \<Longrightarrow> rm < 32 \<Longrightarrow>
   decode (prfm_reg rn rm) =
     Some (PRFM)"
  by (simp add: prfm_reg_def decode_def decode_ldst_def fld_simps Let_def)

lemma decode_prfm_imm [jit_decode]:
  "rn < 32 \<Longrightarrow> byte_offset div 8 < 4096 \<Longrightarrow>
   decode (prfm_imm rn byte_offset) =
     Some (PRFM)"
  by (simp add: prfm_imm_def decode_def decode_ldst_def fld_simps Let_def)

lemma decode_ldrsw_0 [jit_decode]:
  "rn < 32 \<Longrightarrow> rt < 32 \<Longrightarrow>
   decode (0xB9800000 OR push_bit 5 rn OR rt) =
     Some (LDRSWi (unat rt) (unat rn) 0)"
  by (simp add: fld_def [symmetric] decode_def decode_ldst_def fld_simps Let_def)

lemma decode_ldrsw_4 [jit_decode]:
  "rn < 32 \<Longrightarrow> rt < 32 \<Longrightarrow>
   decode (0xB9800400 OR push_bit 5 rn OR rt) =
     Some (LDRSWi (unat rt) (unat rn) 4)"
  by (simp add: fld_def [symmetric] decode_def decode_ldst_def fld_simps Let_def)

lemma decode_stp_fp_imm [jit_decode]:
  "dt1 < 32 \<Longrightarrow> dt2 < 32 \<Longrightarrow> rn < 32 \<Longrightarrow> imm7 off < 128 \<Longrightarrow>
   decode (stp_fp_imm dt1 dt2 rn off) =
     Some (STPd (unat dt1) (unat dt2) (unat rn) (offset7 (imm7 off)))"
  by (simp add: stp_fp_imm_def decode_def decode_pair_def fld_simps Let_def)

lemma decode_ldp_fp_imm [jit_decode]:
  "dt1 < 32 \<Longrightarrow> dt2 < 32 \<Longrightarrow> rn < 32 \<Longrightarrow> imm7 off < 128 \<Longrightarrow>
   decode (ldp_fp_imm dt1 dt2 rn off) =
     Some (LDPd (unat dt1) (unat dt2) (unat rn) (offset7 (imm7 off)))"
  by (simp add: ldp_fp_imm_def decode_def decode_pair_def fld_simps Let_def)

lemma decode_stp_pre [jit_decode]:
  "rt1 < 32 \<Longrightarrow> rt2 < 32 \<Longrightarrow> rn < 32 \<Longrightarrow> imm7 off < 128 \<Longrightarrow>
   decode (stp_pre rt1 rt2 rn off) =
     Some (STPx_pre (unat rt1) (unat rt2) (unat rn) (offset7 (imm7 off)))"
  by (simp add: stp_pre_def decode_def decode_pair_def fld_simps Let_def)

lemma decode_ldp_post [jit_decode]:
  "rt1 < 32 \<Longrightarrow> rt2 < 32 \<Longrightarrow> rn < 32 \<Longrightarrow> imm7 off < 128 \<Longrightarrow>
   decode (ldp_post rt1 rt2 rn off) =
     Some (LDPx_post (unat rt1) (unat rt2) (unat rn) (offset7 (imm7 off)))"
  by (simp add: ldp_post_def decode_def decode_pair_def fld_simps Let_def)

lemma decode_stp_fp_pre [jit_decode]:
  "dt1 < 32 \<Longrightarrow> dt2 < 32 \<Longrightarrow> rn < 32 \<Longrightarrow> imm7 off < 128 \<Longrightarrow>
   decode (stp_fp_pre dt1 dt2 rn off) =
     Some (STPd_pre (unat dt1) (unat dt2) (unat rn) (offset7 (imm7 off)))"
  by (simp add: stp_fp_pre_def decode_def decode_pair_def fld_simps Let_def)

lemma decode_ldp_fp_post [jit_decode]:
  "dt1 < 32 \<Longrightarrow> dt2 < 32 \<Longrightarrow> rn < 32 \<Longrightarrow> imm7 off < 128 \<Longrightarrow>
   decode (ldp_fp_post dt1 dt2 rn off) =
     Some (LDPd_post (unat dt1) (unat dt2) (unat rn) (offset7 (imm7 off)))"
  by (simp add: ldp_fp_post_def decode_def decode_pair_def fld_simps Let_def)

section \<open>Floating point\<close>

lemma decode_fadd [jit_decode]:
  "rd < 32 \<Longrightarrow> rn < 32 \<Longrightarrow> rm < 32 \<Longrightarrow>
   decode (fadd rd rn rm) =
     Some (FOPd FpAdd (unat rd) (unat rn) (unat rm))"
  by (simp add: fadd_def decode_def decode_fp_def fld_simps Let_def)

lemma decode_fsub [jit_decode]:
  "rd < 32 \<Longrightarrow> rn < 32 \<Longrightarrow> rm < 32 \<Longrightarrow>
   decode (fsub rd rn rm) =
     Some (FOPd FpSub (unat rd) (unat rn) (unat rm))"
  by (simp add: fsub_def decode_def decode_fp_def fld_simps Let_def)

lemma decode_fmul [jit_decode]:
  "rd < 32 \<Longrightarrow> rn < 32 \<Longrightarrow> rm < 32 \<Longrightarrow>
   decode (fmul rd rn rm) =
     Some (FOPd FpMul (unat rd) (unat rn) (unat rm))"
  by (simp add: fmul_def decode_def decode_fp_def fld_simps Let_def)

lemma decode_fdiv [jit_decode]:
  "rd < 32 \<Longrightarrow> rn < 32 \<Longrightarrow> rm < 32 \<Longrightarrow>
   decode (fdiv rd rn rm) =
     Some (FOPd FpDiv (unat rd) (unat rn) (unat rm))"
  by (simp add: fdiv_def decode_def decode_fp_def fld_simps Let_def)

lemma decode_eor_v8b [jit_decode]:
  "vd < 32 \<Longrightarrow> vn < 32 \<Longrightarrow> vm < 32 \<Longrightarrow>
   decode (eor_v8b vd vn vm) =
     Some (EOR8b (unat vd) (unat vn) (unat vm))"
  by (simp add: eor_v8b_def decode_def decode_fp_def fld_simps Let_def)

lemma decode_fsqrt [jit_decode]:
  "rd < 32 \<Longrightarrow> rn < 32 \<Longrightarrow>
   decode (fsqrt rd rn) =
     Some (FSQRTd (unat rd) (unat rn))"
  by (simp add: fsqrt_def decode_def decode_fp_def fld_simps Let_def)

lemma decode_fmov_dd [jit_decode]:
  "rd < 32 \<Longrightarrow> rn < 32 \<Longrightarrow>
   decode (fmov_dd rd rn) =
     Some (FMOVdd (unat rd) (unat rn))"
  by (simp add: fmov_dd_def decode_def decode_fp_def fld_simps Let_def)

lemma decode_fmov_xd [jit_decode]:
  "rd < 32 \<Longrightarrow> dn < 32 \<Longrightarrow>
   decode (fmov_xd rd dn) =
     Some (FMOVxd (unat rd) (unat dn))"
  by (simp add: fmov_xd_def decode_def decode_fp_def fld_simps Let_def)

lemma decode_fmov_dx [jit_decode]:
  "dd < 32 \<Longrightarrow> rn < 32 \<Longrightarrow>
   decode (fmov_dx dd rn) =
     Some (FMOVdx (unat dd) (unat rn))"
  by (simp add: fmov_dx_def decode_def decode_fp_def fld_simps Let_def)

lemma decode_scvtf_dx [jit_decode]:
  "dd < 32 \<Longrightarrow> xn < 32 \<Longrightarrow>
   decode (scvtf_dx dd xn) =
     Some (SCVTFdx (unat dd) (unat xn))"
  by (simp add: scvtf_dx_def decode_def decode_fp_def fld_simps Let_def)

section \<open>Control\<close>

lemma decode_b_cond_word [jit_decode]:
  "cond < 16 \<Longrightarrow> x < 0x80000 \<Longrightarrow> decode (0x54000000 OR push_bit 5 x OR cond) = Some (Bcond (unat cond) (offset19 x))"
  by (simp add: decode_def decode_branch_def fld_simps Let_def)

lemma decode_b_cond [jit_decode]:
  "cond < 16 \<Longrightarrow> word_of_int off AND 0x7FFFF < (0x80000 :: u32) \<Longrightarrow> decode (b_cond cond off) =
     Some (Bcond (unat cond) (offset19 (word_of_int off AND 0x7FFFF)))"
  unfolding b_cond_def by (rule decode_b_cond_word)

lemma decode_cbz [jit_decode]:
  "rt < 32 \<Longrightarrow> x < 0x80000 \<Longrightarrow>
   decode (0xB4000000 OR push_bit 5 x OR rt) =
     Some (CBZx (unat rt) (offset19 x))"
  by (simp add: fld_def [symmetric] decode_def decode_branch_def fld_simps Let_def)

lemma decode_ret_lr [jit_decode]:
  "decode (ret_lr) =
     Some (RETx 30)"
  by (simp add: ret_lr_def decode_def decode_branch_def fld_simps Let_def)

lemma decode_msr_fpcr [jit_decode]:
  "rt < 32 \<Longrightarrow>
   decode (msr_fpcr rt) =
     Some (MSR_FPCR (unat rt))"
  by (simp add: msr_fpcr_def decode_def decode_branch_def fld_simps Let_def)

end
