(* ===== verification/Jit_Imm.thy ===== *)
theory Jit_Imm
  imports Jit_Words
begin

text \<open>
  Constants in code (\<open>src/randomx/jit/aarch64.rs\<close>): \<open>mov_imm64\<close> puts any 64-bit value in its
  register, \<open>encode_bitmask_imm\<close> gives an encoding of the value it is asked for, and so
  \<open>and_bitmask\<close> and \<open>tst_bitmask\<close> work for every mask, with or without an encoding.
\<close>

section \<open>Reading and writing the state\<close>

lemma a64_reads [simp]:
  "xr (set_x r v s) = (xr s)(r := v)" "dr (set_x r v s) = dr s" "zflag (set_x r v s) = zflag s"
  "fpcr (set_x r v s) = fpcr s" "memory (set_x r v s) = memory s"
  "xr (set_d q w s) = xr s" "dr (set_d q w s) = (dr s)(q := w)" "zflag (set_d q w s) = zflag s"
  "fpcr (set_d q w s) = fpcr s" "memory (set_d q w s) = memory s"
  "xr (set_z z s) = xr s" "dr (set_z z s) = dr s" "zflag (set_z z s) = z"
  "fpcr (set_z z s) = fpcr s" "memory (set_z z s) = memory s"
  "xr (set_mode f s) = xr s" "dr (set_mode f s) = dr s" "zflag (set_mode f s) = zflag s"
  "fpcr (set_mode f s) = f" "memory (set_mode f s) = memory s"
  "xr (set_mem mem s) = xr s" "dr (set_mem mem s) = dr s" "zflag (set_mem mem s) = zflag s"
  "fpcr (set_mem mem s) = fpcr s" "memory (set_mem mem s) = mem"
  by (simp_all add: set_x_def set_d_def set_z_def set_mode_def set_mem_def)

lemma set_x_again [simp]: "set_x r v (set_x r w s) = set_x r v s"
  by (simp add: set_x_def)

lemma put_x_reg: "r \<noteq> 31 \<Longrightarrow> put_x r v s = set_x r v s"
  by (simp add: put_x_def)

lemma get_x_reg: "r \<noteq> 31 \<Longrightarrow> get_x s r = xr s r"
  by (simp add: get_x_def)

lemma put_x_31 [simp]: "put_x 31 v s = s"
  by (simp add: put_x_def)

lemma get_x_31 [simp]: "get_x s 31 = 0"
  by (simp add: get_x_def)

lemma exec_words_append:
  "exec_words fpu (as @ bs) s = Option.bind (exec_words fpu as s) (exec_words fpu bs)"
  by (induction as arbitrary: s) (auto split: Option.bind_splits)

section \<open>Sixteen-bit chunks\<close>

lemma chunk16_alt: "chunk16 imm i = take_bit 16 (ucast (drop_bit (16 * i) imm))"
proof -
  have "(0xFFFF :: u64) = mask 16" by (simp add: mask_eq_exp_minus_1)
  then have "chunk16 imm i = ucast (take_bit 16 (drop_bit (16 * i) imm))"
    by (simp add: chunk16_def take_bit_eq_mask)
  also have "\<dots> = take_bit 16 (ucast (drop_bit (16 * i) imm))"
    by (rule bit_word_eqI) (auto simp: bit_simps)
  finally show ?thesis .
qed

lemma chunk16_less [simp]: "chunk16 imm i < 65536"
  using and_mask_less_size [of 16 "ucast (drop_bit (16 * i) imm) :: u32"]
  by (simp add: chunk16_alt take_bit_eq_mask word_size)

lemma bit_chunk16: "bit (chunk16 imm i) n \<longleftrightarrow> n < 16 \<and> bit imm (16 * i + n)"
  by (auto simp: chunk16_alt bit_simps dest: bit_imp_le_length)

lemma bit_ucast_chunk16: "bit (ucast (chunk16 imm i) :: u64) n \<longleftrightarrow> n < 16 \<and> bit imm (16 * i + n)"
  by (auto simp: bit_simps bit_chunk16)

lemma chunk16_0: "chunk16 imm i = 0 \<longleftrightarrow> (\<forall>n < 16. \<not> bit imm (16 * i + n))"
  by (auto simp: bit_eq_iff bit_chunk16)

lemma chunk16_ffff: "chunk16 imm i = 0xFFFF \<longleftrightarrow> (\<forall>n < 16. bit imm (16 * i + n))"
proof -
  have m: "(0xFFFF :: u32) = mask 16" by (simp add: mask_eq_exp_minus_1)
  show ?thesis
  proof
    assume h: "chunk16 imm i = 0xFFFF"
    show "\<forall>n < 16. bit imm (16 * i + n)"
    proof (intro allI impI)
      fix n :: nat assume n: "n < 16"
      then have "bit (chunk16 imm i) n" by (simp add: h m bit_mask_iff)
      then show "bit imm (16 * i + n)" by (simp add: bit_chunk16)
    qed
  next
    assume "\<forall>n < 16. bit imm (16 * i + n)"
    then show "chunk16 imm i = 0xFFFF"
      unfolding m by (intro bit_word_eqI) (auto simp: bit_chunk16 bit_simps)
  qed
qed

lemma below_four:
  assumes "k < 4"
  shows "of_nat k * 16 div 16 = (of_nat k :: u32)" "(of_nat k :: u32) < 4" "unat (of_nat k :: u32) = k"
proof -
  have "k = 0 \<or> k = 1 \<or> k = 2 \<or> k = 3" using assms by arith
  then show "of_nat k * 16 div 16 = (of_nat k :: u32)" "(of_nat k :: u32) < 4" "unat (of_nat k :: u32) = k"
    by (elim disjE; simp)+
qed

lemma exec_wide:
  assumes "rd < 31" "c < 65536" "k < 4"
  shows "exec_words fpu [movz rd c (of_nat k * 16)] s = Some (set_x (unat rd) (push_bit (16 * k) (ucast c)) s)"
    and "exec_words fpu [movn rd c (of_nat k * 16)] s = Some (set_x (unat rd) (NOT (push_bit (16 * k) (ucast c))) s)"
    and "exec_words fpu [movk rd c (of_nat k * 16)] s = Some (set_x (unat rd)
      ((xr s (unat rd) AND NOT (push_bit (16 * k) 0xFFFF)) OR push_bit (16 * k) (ucast c)) s)"
proof -
  have "rd < 32" "unat rd < 31" using assms(1) by (auto simp: word_less_nat_alt)
  then show "exec_words fpu [movz rd c (of_nat k * 16)] s = Some (set_x (unat rd) (push_bit (16 * k) (ucast c)) s)"
    and "exec_words fpu [movn rd c (of_nat k * 16)] s = Some (set_x (unat rd) (NOT (push_bit (16 * k) (ucast c))) s)"
    and "exec_words fpu [movk rd c (of_nat k * 16)] s = Some (set_x (unat rd)
      ((xr s (unat rd) AND NOT (push_bit (16 * k) 0xFFFF)) OR push_bit (16 * k) (ucast c)) s)"
    using assms by (simp_all add: jit_decode below_four put_x_reg get_x_reg)
qed

text \<open>A prefix of the code that has filled in the bits of the chunks in \<open>K\<close>, the others
  being all \<open>d\<close>.\<close>

definition fills :: "u32 \<Rightarrow> u64 \<Rightarrow> bool \<Rightarrow> (nat \<Rightarrow> bool) \<Rightarrow> u32 list \<Rightarrow> bool" where
  "fills rd imm d K out \<longleftrightarrow> (\<forall>fpu s. \<exists>v. exec_words fpu out s = Some (set_x (unat rd) v s) \<and>
     (\<forall>n < 64. bit v n = (if K (n div 16) then bit imm n else d)))"

lemma fills_movk:
  assumes "fills rd imm d K out" "rd < 31" "k < 4"
  shows "fills rd imm d (\<lambda>j. K j \<or> j = k) (out @ [movk rd (chunk16 imm k) (of_nat k * 16)])"
  unfolding fills_def
proof (intro allI)
  fix fpu s
  obtain v where v: "exec_words fpu out s = Some (set_x (unat rd) v s)"
    "\<forall>n < 64. bit v n = (if K (n div 16) then bit imm n else d)"
    using assms(1) unfolding fills_def by blast
  define w where "w = (v AND NOT (push_bit (16 * k) 0xFFFF)) OR push_bit (16 * k) (ucast (chunk16 imm k))"
  have m: "(0xFFFF :: u64) = mask 16" by (simp add: mask_eq_exp_minus_1)
  have "bit w n = (if K (n div 16) \<or> n div 16 = k then bit imm n else d)" if n: "n < 64" for n
  proof (cases "n div 16 = k")
    case True
    then have "16 * k \<le> n" "n - 16 * k < 16" by auto
    then show ?thesis using True n by (simp add: w_def m bit_simps bit_ucast_chunk16 bit_chunk16)
  next
    case False
    then have "n < 16 * k \<or> 16 \<le> n - 16 * k" by auto
    then show ?thesis using False n v(2) by (auto simp: w_def m bit_simps bit_chunk16)
  qed
  then show "\<exists>v. exec_words fpu (out @ [movk rd (chunk16 imm k) (of_nat k * 16)]) s =
        Some (set_x (unat rd) v s) \<and>
      (\<forall>n < 64. bit v n = (if K (n div 16) \<or> n div 16 = k then bit imm n else d))"
    using exec_wide(3) [OF assms(2) chunk16_less assms(3)] v(1)
    by (intro exI [where x = w]) (simp add: exec_words_append w_def del: exec_words.simps)
qed

lemma fills_skip:
  assumes "fills rd imm d K out" "\<forall>n < 16. bit imm (16 * k + n) = d"
  shows "fills rd imm d (\<lambda>j. K j \<or> j = k) out"
proof -
  have "bit imm n = d" if "n div 16 = k" for n
    using assms(2) [rule_format, of "n mod 16"] that by (auto simp: mult_div_mod_eq)
  then show ?thesis using assms(1) unfolding fills_def by (metis (mono_tags, lifting))
qed

lemma fills_all:
  assumes "fills rd imm d K out" "\<forall>j < 4. K j"
  shows "exec_words fpu out s = Some (set_x (unat rd) imm s)"
proof -
  obtain v where v: "exec_words fpu out s = Some (set_x (unat rd) v s)"
    "\<forall>n < 64. bit v n = (if K (n div 16) then bit imm n else d)"
    using assms(1) unfolding fills_def by blast
  have "v = imm"
    by (rule bit_word_eqI) (use v(2) assms(2) in \<open>simp add: less_mult_imp_div_less\<close>)
  then show ?thesis using v(1) by simp
qed

lemma fills_cong: "fills rd imm d K out \<Longrightarrow> (\<And>j. j < 4 \<Longrightarrow> K j = L j) \<Longrightarrow> fills rd imm d L out"
proof -
  assume f: "fills rd imm d K out" and KL: "\<And>j. j < 4 \<Longrightarrow> K j = L j"
  have "K (n div 16) = L (n div 16)" if "n < 64" for n using that by (intro KL) simp
  then show ?thesis using f unfolding fills_def by (metis (no_types, lifting))
qed

lemma fills_movz:
  assumes "rd < 31" "k < 4"
  shows "fills rd imm False (\<lambda>j. j = k) [movz rd (chunk16 imm k) (of_nat k * 16)]"
  unfolding fills_def
proof (intro allI)
  fix fpu s
  have "bit (push_bit (16 * k) (ucast (chunk16 imm k)) :: u64) n = (if n div 16 = k then bit imm n else False)"
    if "n < 64" for n
  proof (cases "16 * k \<le> n \<and> n - 16 * k < 16")
    case True
    then have "n div 16 = k" by auto
    then show ?thesis using that True by (simp add: bit_simps bit_chunk16)
  next
    case False
    then have "n div 16 \<noteq> k" by auto
    then show ?thesis using that False by (auto simp: bit_simps bit_chunk16)
  qed
  then show "\<exists>v. exec_words fpu [movz rd (chunk16 imm k) (of_nat k * 16)] s = Some (set_x (unat rd) v s) \<and>
      (\<forall>n < 64. bit v n = (if n div 16 = k then bit imm n else False))"
    using exec_wide(1) [OF assms(1) chunk16_less assms(2)] by blast
qed

lemma fills_movn:
  assumes "rd < 31" "k < 4"
  shows "fills rd imm True (\<lambda>j. j = k) [movn rd (chunk16 (NOT imm) k) (of_nat k * 16)]"
  unfolding fills_def
proof (intro allI)
  fix fpu s
  have "bit (NOT (push_bit (16 * k) (ucast (chunk16 (NOT imm) k))) :: u64) n = (if n div 16 = k then bit imm n else True)"
    if "n < 64" for n
  proof (cases "16 * k \<le> n \<and> n - 16 * k < 16")
    case True
    then have "n div 16 = k" by auto
    then show ?thesis using that True by (simp add: bit_simps bit_chunk16)
  next
    case False
    then have "n div 16 \<noteq> k" by auto
    then show ?thesis using that False by (auto simp: bit_simps bit_chunk16)
  qed
  then show "\<exists>v. exec_words fpu [movn rd (chunk16 (NOT imm) k) (of_nat k * 16)] s = Some (set_x (unat rd) v s) \<and>
      (\<forall>n < 64. bit v n = (if n div 16 = k then bit imm n else True))"
    using exec_wide(2) [OF assms(1) chunk16_less assms(2)] by blast
qed

section \<open>The two loops\<close>

definition movz_inv :: "u32 \<Rightarrow> u64 \<Rightarrow> nat \<Rightarrow> bool \<times> u32 list \<Rightarrow> bool" where
  "movz_inv rd imm i = (\<lambda>(first, out).
     if first then out = [] \<and> (\<forall>j < i. chunk16 imm j = 0) else fills rd imm False (\<lambda>j. j < i) out)"

lemma movz_step_inv:
  assumes "movz_inv rd imm i st" "rd < 31" "i < 4"
  shows "movz_inv rd imm (Suc i) (movz_step rd imm st i)"
proof -
  obtain first out where st: "st = (first, out)" by (cases st)
  have skip: "fills rd imm False (\<lambda>j. j < Suc i) out" if "fills rd imm False (\<lambda>j. j < i) out" "chunk16 imm i = 0"
    by (rule fills_cong [OF fills_skip [OF that(1)]]) (use that(2) in \<open>auto simp: chunk16_0\<close>)
  have more: "fills rd imm False (\<lambda>j. j < Suc i) (out @ [movk rd (chunk16 imm i) (of_nat i * 16)])"
    if "fills rd imm False (\<lambda>j. j < i) out"
    by (rule fills_cong [OF fills_movk [OF that assms(2, 3)]]) auto
  have start: "fills rd imm False (\<lambda>j. j < Suc i) [movz rd (chunk16 imm i) (of_nat i * 16)]"
    if zero: "\<forall>j < i. chunk16 imm j = 0"
  proof -
    have "fills rd imm False (\<lambda>j. j = i \<or> j < k) [movz rd (chunk16 imm i) (of_nat i * 16)]" if "k \<le> i" for k
      using that
    proof (induction k)
      case 0
      show ?case by (rule fills_cong [OF fills_movz [OF assms(2, 3)]]) simp
    next
      case (Suc k)
      then have "fills rd imm False (\<lambda>j. j = i \<or> j < k) [movz rd (chunk16 imm i) (of_nat i * 16)]" "k < i" by simp_all
      from fills_skip [OF this(1), of k] show ?case
        by (rule fills_cong) (use zero \<open>k < i\<close> in \<open>auto simp: chunk16_0\<close>)
    qed
    from this [OF order_refl] show ?thesis by (rule fills_cong) auto
  qed
  show ?thesis
    using assms(1) skip more start by (auto simp: st movz_inv_def movz_step_def less_Suc_eq split: if_splits)
qed

definition first_chunk :: "u64 \<Rightarrow> nat" where
  "first_chunk imm = (case find (\<lambda>j. chunk16 imm j \<noteq> 0) [0..<4] of Some j \<Rightarrow> j | None \<Rightarrow> 0)"

lemma first_chunk_props:
  "first_chunk imm < 4" "0 < first_chunk imm \<Longrightarrow> chunk16 imm 0 = 0"
  by (auto simp: first_chunk_def find_Some_iff find_None_iff split: option.splits)

definition movn_inv :: "u32 \<Rightarrow> u64 \<Rightarrow> nat \<Rightarrow> bool \<times> u32 list \<Rightarrow> bool" where
  "movn_inv rd imm i = (\<lambda>(first, out).
     if i = 0 then first \<and> out = []
     else \<not> first \<and> fills rd imm True (\<lambda>j. j < i \<or> j = first_chunk (NOT imm)) out)"

lemma chunk16_not: "chunk16 (NOT imm) i = 0 \<Longrightarrow> i < 4 \<Longrightarrow> \<forall>n < 16. bit imm (16 * i + n) = True"
  by (simp add: chunk16_0 bit_simps)

lemma movn_step_inv:
  assumes "movn_inv rd imm i st" "rd < 31" "i < 4"
  shows "movn_inv rd imm (Suc i) (movn_step rd imm st i)"
proof (cases "i = 0")
  case True
  let ?k = "first_chunk (NOT imm)"
  have st: "st = (True, [])" using assms(1) True by (cases st) (simp add: movn_inv_def)
  note f = fills_movn [OF assms(2) first_chunk_props(1), of imm "NOT imm"]
  have "fills rd imm True (\<lambda>j. j < Suc 0 \<or> j = ?k) [movn rd (chunk16 (NOT imm) ?k) (of_nat ?k * 16)]"
  proof (cases "?k = 0")
    case True
    show ?thesis by (rule fills_cong [OF f]) (simp add: True)
  next
    case False
    then have "chunk16 (NOT imm) 0 = 0" using first_chunk_props(2) by simp
    from fills_skip [OF f chunk16_not [OF this]] show ?thesis by (rule fills_cong) auto
  qed
  then show ?thesis
    using True by (simp add: st movn_inv_def movn_step_def Let_def flip: first_chunk_def)
next
  case False
  obtain out where st: "st = (False, out)" and out: "fills rd imm True (\<lambda>j. j < i \<or> j = first_chunk (NOT imm)) out"
    using assms(1) False by (cases st) (simp add: movn_inv_def)
  have "fills rd imm True (\<lambda>j. j < Suc i \<or> j = first_chunk (NOT imm)) out"
    if "chunk16 (NOT imm) i = 0 \<or> chunk16 imm i = 0xFFFF"
    by (rule fills_cong [OF fills_skip [OF out, of i]])
      (use that chunk16_not [OF _ assms(3)] in \<open>auto simp: chunk16_ffff\<close>)
  moreover have "fills rd imm True (\<lambda>j. j < Suc i \<or> j = first_chunk (NOT imm))
      (out @ [movk rd (chunk16 imm i) (of_nat i * 16)])"
    by (rule fills_cong [OF fills_movk [OF out assms(2, 3)]]) auto
  ultimately show ?thesis by (simp add: st movn_inv_def movn_step_def Let_def)
qed

lemma foldl_upt_inv:
  "P 0 x \<Longrightarrow> (\<And>i x. i < n \<Longrightarrow> P i x \<Longrightarrow> P (Suc i) (f x i)) \<Longrightarrow> P n (foldl f x [0..<n])"
  by (induction n) auto

lemma mov_imm64_exec:
  assumes "rd < 31"
  shows "exec_words fpu (mov_imm64 rd imm) s = Some (set_x (unat rd) imm s)"
proof (cases "imm = 0")
  case True
  then show ?thesis using exec_wide(1) [OF assms, of 0 0] by (simp add: mov_imm64_def)
next
  case False
  have z: "movz_inv rd imm 4 (foldl (movz_step rd imm) (True, []) [0..<4])"
  proof (rule foldl_upt_inv)
    show "movz_inv rd imm 0 (True, [])" by (simp add: movz_inv_def)
  qed (rule movz_step_inv [OF _ assms])
  have n: "movn_inv rd imm 4 (foldl (movn_step rd imm) (True, []) [0..<4])"
  proof (rule foldl_upt_inv)
    show "movn_inv rd imm 0 (True, [])" by (simp add: movn_inv_def)
  qed (rule movn_step_inv [OF _ assms])
  have "\<not> fst (foldl (movz_step rd imm) (True, []) [0..<4])"
  proof
    assume "fst (foldl (movz_step rd imm) (True, []) [0..<4])"
    with z have zero: "\<forall>j < 4. chunk16 imm j = 0" by (auto simp: movz_inv_def split: prod.splits if_splits)
    have "imm = 0"
    proof (rule bit_word_eqI)
      fix n assume "n < LENGTH(64)"
      then have "n div 16 < 4" by simp
      then have "\<not> bit imm (16 * (n div 16) + n mod 16)"
        using zero unfolding chunk16_0 by (metis mod_less_divisor zero_less_numeral)
      then show "bit imm n = bit 0 n" by simp
    qed
    then show False using False by simp
  qed
  then have "fills rd imm False (\<lambda>j. j < 4) (snd (foldl (movz_step rd imm) (True, []) [0..<4]))"
    using z by (auto simp: movz_inv_def split: prod.splits)
  from fills_all [OF this] have "exec_words fpu (snd (foldl (movz_step rd imm) (True, []) [0..<4])) s = Some (set_x (unat rd) imm s)"
    by simp
  moreover have "fills rd imm True (\<lambda>j. j < 4 \<or> j = first_chunk (NOT imm)) (snd (foldl (movn_step rd imm) (True, []) [0..<4]))"
    using n by (auto simp: movn_inv_def split: prod.splits)
  from fills_all [OF this] have "exec_words fpu (snd (foldl (movn_step rd imm) (True, []) [0..<4])) s = Some (set_x (unat rd) imm s)"
    by simp
  ultimately show ?thesis using False by (simp add: mov_imm64_def Let_def del: upt_Suc)
qed

end
