(* ===== verification/Jit_Bitmask.thy ===== *)
theory Jit_Bitmask
  imports Jit_Imm
begin

text \<open>
  \<open>Emitter::encode_bitmask_imm\<close> (\<open>src/randomx/jit/aarch64.rs\<close>): when it gives an encoding of a
  mask, the processor decodes that encoding to the same mask, for every 64-bit value. With the
  fallback through a temporary register, \<open>and_bitmask\<close> and \<open>tst_bitmask\<close> are then correct for
  all masks.
\<close>

section \<open>Masks and predicates\<close>

lemma bit_word_of_pred: "bit (word_of_pred P) n \<longleftrightarrow> n < 64 \<and> P n"
proof -
  have "bit (foldr (\<lambda>i w. if P i then set_bit i w else w) xs (0 :: u64)) n \<longleftrightarrow> n \<in> set xs \<and> P n \<and> n < 64" for xs
    by (induction xs) (auto simp: bit_simps)
  then show ?thesis by (auto simp: word_of_pred_def)
qed

lemma bit_low_mask: "bit (low_mask n) i \<longleftrightarrow> i < n \<and> i < 64"
  by (auto simp: low_mask_def bit_simps push_bit_of_1 simp flip: mask_eq_exp_minus_1)

definition sizes :: "nat set" where
  "sizes = {2, 4, 8, 16, 32, 64}"

lemma sizes_half: "sz \<in> sizes \<Longrightarrow> 2 < sz \<Longrightarrow> sz div 2 \<in> sizes \<and> sz = 2 * (sz div 2)"
  by (auto simp: sizes_def)

lemma sizes_le: "sz \<in> sizes \<Longrightarrow> 0 < sz \<and> sz \<le> 64"
  by (auto simp: sizes_def)

section \<open>The element size\<close>

definition periodic :: "u64 \<Rightarrow> nat \<Rightarrow> bool" where
  "periodic v sz \<longleftrightarrow> (\<forall>i < 64. bit v i = bit v (i mod sz))"

lemma periodic_half:
  assumes "periodic v (2 * h)" "\<And>i. i < h \<Longrightarrow> bit v i = bit v (i + h)" "0 < h"
  shows "periodic v h"
  unfolding periodic_def
proof (intro allI impI)
  fix i :: nat assume i: "i < 64"
  then have v: "bit v i = bit v (i mod (2 * h))" using assms(1) by (simp add: periodic_def)
  have m: "i mod (2 * h) = i mod h \<or> i mod (2 * h) = i mod h + h"
    using mod_mult2_eq [of i h 2] assms(3) by (cases "(i div h) mod 2 = 0") (auto simp: mult.commute)
  show "bit v i = bit v (i mod h)"
    using m assms(2) [of "i mod h"] assms(3) by (auto simp: v)
qed

lemma element_size_ok:
  assumes "sz \<in> sizes" "periodic v sz" "tmp = v AND low_mask sz"
  shows "element_size sz tmp \<in> sizes \<and> periodic v (element_size sz tmp)"
  using assms
proof (induction sz tmp rule: element_size.induct)
  case (1 sz tmp)
  let ?h = "sz div 2"
  show ?case
  proof (cases "2 < sz \<and> tmp AND low_mask ?h = drop_bit ?h tmp AND low_mask ?h")
    case False
    then show ?thesis using "1.prems" by (subst (1 2) element_size.simps) (auto simp: Let_def)
  next
    case True
    note half = sizes_half [OF "1.prems"(1)] sizes_le [OF "1.prems"(1)]
    have h: "sz = 2 * ?h" "?h \<in> sizes" "0 < ?h" "sz \<le> 64" using True half by auto
    have agree: "bit v i = bit v (i + ?h)" if "i < ?h" for i
    proof -
      have "bit (tmp AND low_mask ?h) i = bit (drop_bit ?h tmp AND low_mask ?h) i"
        using True by simp
      then show ?thesis using that h "1.prems"(3) by (simp add: bit_simps bit_low_mask add.commute)
    qed
    have "periodic v ?h"
      by (rule periodic_half [OF _ agree h(3)]) (use h(1) "1.prems"(2) in simp_all)
    moreover have "tmp AND low_mask ?h = v AND low_mask ?h"
      using "1.prems"(3) by (intro bit_word_eqI) (auto simp: bit_simps bit_low_mask)
    ultimately have "element_size ?h (tmp AND low_mask ?h) \<in> sizes \<and>
        periodic v (element_size ?h (tmp AND low_mask ?h))"
      using "1.IH" True h(2) by blast
    then show ?thesis using True by (subst (1 2) element_size.simps) (simp add: Let_def)
  qed
qed

section \<open>The rotation\<close>

lemma find_rotation_ok:
  "find_rotation sz pat rots = Some (ones, rot) \<Longrightarrow>
     rot \<in> set rots \<and> 0 < ones \<and> ones \<le> sz \<and> rotated_pattern sz pat rot = low_mask ones AND low_mask sz"
proof (induction rots)
  case (Cons r rots)
  show ?case
  proof (cases "rotated_pattern sz pat r = low_mask (min (trailing_ones (rotated_pattern sz pat r)) sz) AND low_mask sz \<and>
      0 < min (trailing_ones (rotated_pattern sz pat r)) sz")
    case True
    then show ?thesis using Cons.prems by (auto simp: Let_def)
  next
    case False
    then have "find_rotation sz pat (r # rots) = find_rotation sz pat rots"
      unfolding find_rotation.simps Let_def by (rule if_not_P)
    then show ?thesis using Cons by simp
  qed
qed simp

lemma bit_rotated:
  assumes "rot < sz" "sz \<le> 64" "j < sz"
  shows "bit (rotated_pattern sz (v AND low_mask sz) rot) j = bit v ((j + rot) mod sz)"
proof (cases "j + rot < sz")
  case True
  then show ?thesis using assms
    by (auto simp: rotated_pattern_def bit_simps bit_low_mask add.commute)
next
  case False
  then have "(j + rot) mod sz = j + rot - sz" using assms by (simp add: mod_if)
  moreover have "j - (sz - rot) = j + rot - sz" "sz - rot \<le> j" "0 < rot" using False assms by auto
  ultimately show ?thesis using assms False
    by (auto simp: rotated_pattern_def bit_simps bit_low_mask)
qed

section \<open>The fields\<close>

definition enc_n :: "nat \<Rightarrow> u32" where
  "enc_n sz = (if sz = 64 then 1 else 0)"
definition enc_imms :: "nat \<Rightarrow> nat \<Rightarrow> u32" where
  "enc_imms sz ones = ((NOT (of_nat (sz * 2 - 1)) AND 0x3F) OR of_nat (ones - 1)) AND 0x3F"
definition enc_immr :: "nat \<Rightarrow> nat \<Rightarrow> u32" where
  "enc_immr sz rot = (if rot = 0 then 0 else of_nat (sz - rot) AND of_nat (sz - 1))"

lemma enc_imms_table:
  "list_all (\<lambda>sz. list_all (\<lambda>ones. enc_imms sz ones < 64 \<and>
     (let sel = unat (push_bit 6 (enc_n sz) OR (NOT (enc_imms sz ones) AND 0x3F))
      in 2 \<le> sel \<and> 2 ^ (bit_len sel - 1) = sz \<and> unat (enc_imms sz ones) mod sz = ones - 1))
     [1..<sz]) [2, 4, 8, 16, 32, 64]"
  by code_simp

lemma enc_immr_table:
  "list_all (\<lambda>sz. list_all (\<lambda>rot. enc_immr sz rot < 64 \<and> unat (enc_immr sz rot) mod sz = (sz - rot) mod sz)
     [0..<sz]) [2, 4, 8, 16, 32, 64]"
  by code_simp

lemma enc_decodes:
  assumes "sz \<in> sizes" "1 \<le> ones" "ones < sz" "rot < sz"
  shows "enc_imms sz ones < 64" "enc_immr sz rot < 64" "enc_n sz < 2"
    and "decode_bit_masks (enc_n sz) (enc_imms sz ones) (enc_immr sz rot) =
      Some (word_of_pred (\<lambda>i. (i + (sz - rot) mod sz) mod sz \<le> ones - 1))"
proof -
  have sz: "sz \<in> set [2, 4, 8, 16, 32, 64]" using assms(1) by (simp add: sizes_def)
  define sel where "sel = unat (push_bit 6 (enc_n sz) OR (NOT (enc_imms sz ones) AND 0x3F))"
  have s: "enc_imms sz ones < 64" "2 \<le> sel" "2 ^ (bit_len sel - 1) = sz"
    "unat (enc_imms sz ones) mod sz = ones - 1"
    using enc_imms_table sz assms unfolding list_all_iff Let_def sel_def by auto
  have r: "enc_immr sz rot < 64" "unat (enc_immr sz rot) mod sz = (sz - rot) mod sz"
    using enc_immr_table sz assms unfolding list_all_iff by auto
  show "enc_imms sz ones < 64" "enc_immr sz rot < 64" "enc_n sz < 2"
    using s r by (simp_all add: enc_n_def)
  show "decode_bit_masks (enc_n sz) (enc_imms sz ones) (enc_immr sz rot) =
      Some (word_of_pred (\<lambda>i. (i + (sz - rot) mod sz) mod sz \<le> ones - 1))"
    using s r assms unfolding decode_bit_masks_def Let_def sel_def [symmetric] by simp
qed

lemma encode_bitmask_imm_ok:
  assumes "encode_bitmask_imm v = Some (n, immr, imms)"
  shows "n < 2 \<and> immr < 64 \<and> imms < 64 \<and> decode_bit_masks n imms immr = Some v"
proof -
  define sz where "sz = element_size 64 v"
  have v: "v \<noteq> 0" "v \<noteq> NOT 0" using assms by (auto simp: encode_bitmask_imm_def split: if_splits)
  have "v = v AND low_mask 64" "periodic v 64" by (simp_all add: low_mask_def periodic_def)
  then have sz: "sz \<in> sizes" "periodic v sz"
    using element_size_ok [of 64 v v] by (simp_all add: sz_def sizes_def)
  obtain ones rot where f: "find_rotation sz (v AND low_mask sz) [0..<sz] = Some (ones, rot)"
    and enc: "n = enc_n sz" "immr = enc_immr sz rot" "imms = enc_imms sz ones"
    using assms v by (auto simp: encode_bitmask_imm_def Let_def enc_n_def enc_immr_def enc_imms_def
        simp flip: sz_def split: option.splits)
  note fr = find_rotation_ok [OF f]
  have rot: "rot < sz" "1 \<le> ones" "ones \<le> sz" using fr by auto
  have le: "0 < sz" "sz \<le> 64" using sizes_le [OF sz(1)] by auto
  have run: "bit v ((j + rot) mod sz) = (j < ones)" if "j < sz" for j
    using bit_rotated [OF rot(1) le(2) that, of v] fr rot le that by (auto simp: bit_low_mask bit_simps)
  have bits: "bit v i = ((i + (sz - rot) mod sz) mod sz \<le> ones - 1)" if "i < 64" for i
  proof -
    define j where "j = (i + (sz - rot) mod sz) mod sz"
    have "(j + rot) mod sz = (i + (sz - rot) + rot) mod sz"
      by (simp add: j_def mod_simps)
    also have "\<dots> = (i + sz) mod sz" using rot(1) by simp
    also have "\<dots> = i mod sz" by simp
    finally have "bit v (i mod sz) = (j < ones)" using run [of j] le by (simp add: j_def)
    moreover have "bit v i = bit v (i mod sz)" using sz(2) that by (simp add: periodic_def)
    moreover have "(j < ones) = (j \<le> ones - 1)" using rot(2) by auto
    ultimately show ?thesis by (simp add: j_def)
  qed
  have "ones \<noteq> sz"
  proof
    assume o: "ones = sz"
    have "v = NOT 0"
    proof (rule bit_word_eqI)
      fix i assume i: "i < LENGTH(64)"
      then have "bit v i = ((i + (sz - rot) mod sz) mod sz \<le> sz - 1)" using bits o by simp
      moreover have "(i + (sz - rot) mod sz) mod sz < sz" using le by simp
      ultimately have "bit v i" by linarith
      then show "bit v i = bit (NOT 0 :: u64) i" using i by (simp add: bit_simps)
    qed
    then show False using v by simp
  qed
  then have "ones < sz" using rot by simp
  note dec = enc_decodes [OF sz(1) rot(2) this rot(1)]
  have "word_of_pred (\<lambda>i. (i + (sz - rot) mod sz) mod sz \<le> ones - 1) = v"
    by (rule bit_word_eqI) (use bits in \<open>simp add: bit_word_of_pred\<close>)
  then show ?thesis using dec by (simp add: enc)
qed

section \<open>Masking in code\<close>

lemma and_bitmask_exec:
  assumes "rd < 31" "rn < 31" "tmp < 31" "rn \<noteq> tmp"
  shows "\<exists>v. exec_words fpu (and_bitmask rd rn msk tmp) s =
     Some (set_x (unat rd) (xr s (unat rn) AND msk) (if encode_bitmask_imm msk = None then set_x (unat tmp) v s else s))"
proof (cases "encode_bitmask_imm msk")
  case None
  have r: "rd < 32" "rn < 32" "tmp < 32" "unat rd < 31" "unat rn < 31" "unat tmp < 31" "unat rn \<noteq> unat tmp"
    using assms by (auto simp: word_less_nat_alt word_unat_eq_iff)
  then show ?thesis
    using None by (intro exI [where x = msk])
      (simp add: and_bitmask_def exec_words_append mov_imm64_exec [OF assms(3)] jit_decode put_x_reg get_x_reg)
next
  case (Some e)
  then obtain n immr imms where e: "encode_bitmask_imm msk = Some (n, immr, imms)" by (cases e) auto
  have r: "rd < 32" "rn < 32" "unat rd < 31" "unat rn < 31"
    using assms by (auto simp: word_less_nat_alt)
  then show ?thesis
    using encode_bitmask_imm_ok [OF e] by (simp add: and_bitmask_def e jit_decode get_x_reg)
qed

lemma tst_bitmask_exec:
  assumes "rn < 31" "tmp < 31" "rn \<noteq> tmp"
  shows "\<exists>v. exec_words fpu (tst_bitmask rn msk tmp) s =
     Some (set_z (xr s (unat rn) AND msk = 0) (if encode_bitmask_imm msk = None then set_x (unat tmp) v s else s))"
proof (cases "encode_bitmask_imm msk")
  case None
  have r: "rn < 32" "tmp < 32" "unat rn < 31" "unat tmp < 31" "unat rn \<noteq> unat tmp"
    using assms by (auto simp: word_less_nat_alt word_unat_eq_iff)
  then show ?thesis
    using None by (intro exI [where x = msk])
      (simp add: tst_bitmask_def exec_words_append mov_imm64_exec [OF assms(2)] jit_decode put_x_reg get_x_reg)
next
  case (Some e)
  then obtain n immr imms where e: "encode_bitmask_imm msk = Some (n, immr, imms)" by (cases e) auto
  have r: "rn < 32" "unat rn < 31" using assms by (auto simp: word_less_nat_alt)
  then show ?thesis
    using encode_bitmask_imm_ok [OF e] by (simp add: tst_bitmask_def e jit_decode get_x_reg)
qed

end
