(* ===== verification/Vm_Run.thy ===== *)
theory Vm_Run
  imports Vm_Exec
begin

text \<open>
  The interpreter on compiled programs (\<open>src/randomx/vm.rs\<close>): every access stays in bounds,
  and the run ends, after at most three times as many instructions as the program has. The
  reason is the shape of the branches: a taken branch returns to a stretch that leaves its
  condition register alone, and adding the increment three times cannot leave all eight
  condition bits zero each time.
\<close>

section \<open>The invariant of the machine\<close>

definition machine_ok :: "machine \<Rightarrow> bool" where
  "machine_ok m \<longleftrightarrow>
     length (rf_r (m_nreg m)) = 8 \<and> length (rf_f (m_nreg m)) = 4 \<and>
     length (rf_e (m_nreg m)) = 4 \<and> length (rf_a (m_nreg m)) = 4 \<and>
     length (m_sp m) = SCRATCHPAD_L3_SIZE \<and> m_rm m < 4"

abbreviation reg :: "machine \<Rightarrow> nat \<Rightarrow> u64" where
  "reg m c \<equiv> rf_r (m_nreg m) ! c"

text \<open>\<open>steps m S m'\<close>: \<open>m'\<close> is well formed and differs from \<open>m\<close> in integer registers of \<open>S\<close>
  only.\<close>

definition changes :: "machine \<Rightarrow> nat set \<Rightarrow> machine \<Rightarrow> bool" where
  "changes m S m' \<longleftrightarrow> machine_ok m' \<and> (\<forall>c. c \<notin> S \<longrightarrow> reg m' c = reg m c)"

lemma get_r_Some: "machine_ok m \<Longrightarrow> i < 8 \<Longrightarrow> get_r m i = Some (reg m i)"
  by (simp add: get_r_def at_index_def machine_ok_def)

lemma get_f_Some: "machine_ok m \<Longrightarrow> i < 4 \<Longrightarrow> get_f m i = Some (rf_f (m_nreg m) ! i)"
  by (simp add: get_f_def at_index_def machine_ok_def)

lemma get_e_Some: "machine_ok m \<Longrightarrow> i < 4 \<Longrightarrow> get_e m i = Some (rf_e (m_nreg m) ! i)"
  by (simp add: get_e_def at_index_def machine_ok_def)

lemma get_a_Some: "machine_ok m \<Longrightarrow> i < 4 \<Longrightarrow> get_a m i = Some (rf_a (m_nreg m) ! i)"
  by (simp add: get_a_def at_index_def machine_ok_def)

lemmas get_Some = get_r_Some get_f_Some get_e_Some get_a_Some

lemma put_r_changes:
  "machine_ok m \<Longrightarrow> i < 8 \<Longrightarrow> returns (\<lambda>m'. changes m {i} m' \<and> reg m' i = v) (put_r m i v)"
  by (simp add: put_r_def put_index_def machine_ok_def changes_def)

lemma put_f_changes: "machine_ok m \<Longrightarrow> i < 4 \<Longrightarrow> returns (changes m {}) (put_f m i v)"
  by (simp add: put_f_def put_index_def machine_ok_def changes_def)

lemma put_e_changes: "machine_ok m \<Longrightarrow> i < 4 \<Longrightarrow> returns (changes m {}) (put_e m i v)"
  by (simp add: put_e_def put_index_def machine_ok_def changes_def)

section \<open>Scratchpad addresses\<close>

lemma mask_ok_bound: "mask_ok m \<Longrightarrow> unat m \<le> 2097144"
  by (auto simp: mask_ok_def scratchpad_masks)

lemma masked_addr_bound: "mask_ok (bi_mem_mask b) \<Longrightarrow> masked_addr base b + 8 \<le> SCRATCHPAD_L3_SIZE"
  using unat_and_le [of "ucast (base + bi_imm b)" "bi_mem_mask b"] mask_ok_bound [of "bi_mem_mask b"]
  by (simp add: masked_addr_def SCRATCHPAD_L3_SIZE_def)

lemma src_or_imm_returns: "machine_ok m \<Longrightarrow> returns (\<lambda>_. True) (src_or_imm m b)"
  by (simp add: src_or_imm_def get_r_Some)

lemma src_or_zero_returns: "machine_ok m \<Longrightarrow> returns (\<lambda>_. True) (src_or_zero m b)"
  by (simp add: src_or_zero_def get_r_Some)

lemma mem_operand_returns:
  assumes "machine_ok m" "mask_ok (bi_mem_mask b)"
  shows "returns (\<lambda>_. True) (mem_operand m b)"
  unfolding mem_operand_def
  by (rule returns_bind [OF src_or_zero_returns [OF assms(1)]])
    (use assms masked_addr_bound in \<open>simp add: load64_def machine_ok_def\<close>)

lemma mem_f128_returns:
  assumes "machine_ok m" "mask_ok (bi_mem_mask b)" "bi_src b < 8"
  shows "returns (\<lambda>_. True) (mem_f128 m b)"
  using assms masked_addr_bound [of b]
  by (simp add: mem_f128_def get_r_Some cvt_packed_int_vec_f128_def machine_ok_def)

section \<open>Every arm\<close>

lemma int_op_changes:
  assumes "machine_ok m" "bi_dst b < 8" "returns (\<lambda>_. True) x"
  shows "returns (changes m {bi_dst b}) (int_op m b x f)"
  unfolding int_op_def
  by (rule returns_bind [OF assms(3)])
    (use assms in \<open>auto simp: get_r_Some intro: returns_mono [OF put_r_changes]\<close>)

lemma flt_op_f_changes:
  assumes "machine_ok m" "bi_dst b < 4" "returns (\<lambda>_. True) x"
  shows "returns (changes m {}) (flt_op_f m b x f)"
  unfolding flt_op_f_def
  by (rule returns_bind [OF assms(3)]) (use assms in \<open>simp add: get_f_Some put_f_changes\<close>)

lemma flt_op_e_changes:
  assumes "machine_ok m" "bi_dst b < 4" "returns (\<lambda>_. True) x"
  shows "returns (changes m {}) (flt_op_e m b x f)"
  unfolding flt_op_e_def
  by (rule returns_bind [OF assms(3)]) (use assms in \<open>simp add: get_e_Some put_e_changes\<close>)

lemma changes_mono: "changes m S m' \<Longrightarrow> S \<subseteq> T \<Longrightarrow> changes m T m'"
  by (auto simp: changes_def)

lemma changes_trans: "changes m S m' \<Longrightarrow> changes m' S m'' \<Longrightarrow> changes m S m''"
  by (simp add: changes_def)

lemma returns_map: "returns (\<lambda>_. True) x \<Longrightarrow> returns (\<lambda>_. True) (map_option f x)"
  by (cases x) auto

lemma returns_changes_mono:
  "returns (changes m S) x \<Longrightarrow> S \<subseteq> T \<Longrightarrow> returns (changes m T) x"
  by (cases x) (auto intro: changes_mono)

lemma swap_changes:
  assumes "machine_ok m" "bi_dst b < 8" "bi_src b < 8"
  shows "returns (changes m {bi_dst b, bi_src b})
     (Option.bind (put_r m (bi_dst b) s) (\<lambda>m. put_r m (bi_src b) tmp))"
proof (rule returns_bind [OF put_r_changes [OF assms(1, 2)]])
  fix m' assume m': "changes m {bi_dst b} m' \<and> reg m' (bi_dst b) = s"
  then have "machine_ok m'" by (simp add: changes_def)
  then show "returns (changes m {bi_dst b, bi_src b}) (put_r m' (bi_src b) tmp)"
    by (rule returns_mono [OF put_r_changes])
      (use assms(3) m' in \<open>auto simp: changes_def\<close>)
qed

lemma store_changes:
  assumes "machine_ok m" "mask_ok (bi_mem_mask b)"
  shows "returns (changes m {})
     (Option.bind (store64 (m_sp m) (masked_addr base b) v) (\<lambda>sp. Some (m\<lparr>m_sp := sp\<rparr>)))"
  using assms masked_addr_bound [OF assms(2)]
  by (simp add: store64_def machine_ok_def changes_def)

text \<open>The registers an instruction may write, as a set.\<close>

definition written :: "bytecode_instruction \<Rightarrow> nat set" where
  "written b = {c. writes_reg b c}"

lemma written_dst:
  "bi_itype b \<in> {IaddRs, IaddM, IsubR, IsubM, ImulR, ImulM, ImulhR, ImulhM, IsmulhR, IsmulhM,
      InegR, IxorR, IxorM, IrorR, IrolR, IswapR, Cbranch} \<Longrightarrow> {bi_dst b} \<subseteq> written b"
  "bi_itype b = IswapR \<Longrightarrow> {bi_dst b, bi_src b} \<subseteq> written b"
  by (auto simp: written_def writes_reg_def)

lemma exec_plain_changes:
  assumes ok: "bi_ok b" "machine_ok m"
  shows "returns (changes m (written b)) (exec_plain fpu version config b m)"
proof -
  note int = returns_changes_mono [OF int_op_changes written_dst(1)]
  note fltf = returns_changes_mono [OF flt_op_f_changes empty_subsetI]
  note flte = returns_changes_mono [OF flt_op_e_changes empty_subsetI]
  note swap = returns_changes_mono [OF swap_changes written_dst(2)]
  note store = returns_changes_mono [OF store_changes empty_subsetI]
  have puts: "i < 4 \<Longrightarrow> returns (changes m (written b)) (put_f m i v)"
    "i < 4 \<Longrightarrow> returns (changes m (written b)) (put_e m i v)" for i v
    using ok(2) by (blast intro: returns_changes_mono [OF put_f_changes]
        returns_changes_mono [OF put_e_changes])+
  have mode: "unat (x AND 3 :: u64) < 4" for x using unat_and_le [of x 3] by simp
  have same: "changes m (written b) m" "changes m (written b) (m\<lparr>m_rm := unat (x AND 3 :: u64)\<rparr>)" for x
    using ok(2) mode [of x] by (auto simp: changes_def machine_ok_def)
  note oks = src_or_imm_returns mem_operand_returns mem_f128_returns returns_map
  show ?thesis
    using ok
    by (cases "bi_itype b")
      (auto simp: exec_plain_def Let_def bi_ok_def get_Some puts same
        intro!: int fltf flte swap store oks)
qed

section \<open>The branch condition\<close>

text \<open>Counting in units of \<open>2 ^ s\<close>: the eight condition bits of \<open>x\<close> are zero when
  \<open>x mod 2 ^ (s + 8) < 2 ^ s\<close>.\<close>

lemma cond_bits_zero:
  fixes x :: u64
  assumes "s \<le> 23"
  shows "x AND ucast (push_bit s 0xff :: u32) = 0 \<longleftrightarrow> unat x mod 2 ^ (s + 8) < 2 ^ s"
proof -
  have "(0xff :: u32) = mask 8" by (simp add: mask_eq_exp_minus_1)
  then have ff: "bit (0xff :: u32) n \<longleftrightarrow> n < 8" for n
    by (simp only: bit_mask_iff) auto
  have m: "bit (ucast (push_bit s 0xff :: u32) :: u64) n \<longleftrightarrow> s \<le> n \<and> n < s + 8" for n
    unfolding bit_ucast_iff bit_push_bit_iff ff using assms by auto
  have "x AND ucast (push_bit s 0xff :: u32) = 0 \<longleftrightarrow> (\<forall>n. s \<le> n \<and> n < s + 8 \<longrightarrow> \<not> bit x n)"
  proof
    assume zero: "x AND ucast (push_bit s 0xff :: u32) = 0"
    have "\<not> bit (x AND ucast (push_bit s 0xff :: u32)) n" for n by (simp only: zero bit_0_eq) simp
    then show "\<forall>n. s \<le> n \<and> n < s + 8 \<longrightarrow> \<not> bit x n" unfolding bit_and_iff m by blast
  next
    assume "\<forall>n. s \<le> n \<and> n < s + 8 \<longrightarrow> \<not> bit x n"
    then show "x AND ucast (push_bit s 0xff :: u32) = 0"
      by (auto simp: bit_and_iff m intro!: bit_word_eqI)
  qed
  also have "\<dots> \<longleftrightarrow> take_bit (s + 8) (unat x) = take_bit s (unat x)"
  proof
    assume zero: "\<forall>n. s \<le> n \<and> n < s + 8 \<longrightarrow> \<not> bit x n"
    show "take_bit (s + 8) (unat x) = take_bit s (unat x)"
    proof (rule bit_eqI)
      fix n
      show "bit (take_bit (s + 8) (unat x)) n \<longleftrightarrow> bit (take_bit s (unat x)) n"
        using zero [rule_format, of n]
        by (cases "s \<le> n") (auto simp: bit_take_bit_iff bit_unsigned_iff)
    qed
  next
    assume eq: "take_bit (s + 8) (unat x) = take_bit s (unat x)"
    show "\<forall>n. s \<le> n \<and> n < s + 8 \<longrightarrow> \<not> bit x n"
    proof (intro allI impI)
      fix n
      assume n: "s \<le> n \<and> n < s + 8"
      have "bit (take_bit (s + 8) (unat x)) n \<longleftrightarrow> bit (take_bit s (unat x)) n" by (simp only: eq)
      then show "\<not> bit x n" using n assms by (auto simp: bit_take_bit_iff bit_unsigned_iff)
    qed
  qed
  also have "\<dots> \<longleftrightarrow> unat x mod 2 ^ (s + 8) < 2 ^ s"
  proof
    assume "unat x mod 2 ^ (s + 8) < 2 ^ s"
    then have "take_bit s (take_bit (s + 8) (unat x)) = take_bit (s + 8) (unat x)"
      by (simp add: take_bit_nat_eq_self_iff take_bit_eq_mod)
    then show "take_bit (s + 8) (unat x) = take_bit s (unat x)" by simp
  next
    assume "take_bit (s + 8) (unat x) = take_bit s (unat x)"
    then show "unat x mod 2 ^ (s + 8) < 2 ^ s"
      by (simp add: take_bit_eq_mod)
  qed
  finally show ?thesis .
qed

text \<open>The arithmetic: with the condition bits of \<open>a\<close>, \<open>a + d\<close> and \<open>a + 2 d\<close> all zero, the
  increment could have neither bit \<open>s\<close> set nor bit \<open>s - 1\<close> clear.\<close>

lemma three_zero_impossible:
  fixes a d s :: nat
  assumes s: "1 \<le> s"
    and odd: "odd (d div 2 ^ s)" and low: "even (d div 2 ^ (s - 1))"
    and z1: "a mod 2 ^ (s + 8) < 2 ^ s"
    and z2: "(a + d) mod 2 ^ (s + 8) < 2 ^ s"
    and z3: "(a + d + d) mod 2 ^ (s + 8) < 2 ^ s"
  shows False
proof -
  define B where "B = (2 :: nat) ^ (s - 1)"
  have B: "(2 :: nat) ^ s = 2 * B" "(2 :: nat) ^ (s + 8) = 512 * B" "0 < B"
    using s by (auto simp: B_def power_add simp flip: power_Suc)
  define a0 d0 where "a0 = a mod (512 * B)" and "d0 = d mod (512 * B)"
  have a0: "a0 < 2 * B" using z1 B by (simp add: a0_def)
  have z2': "(a0 + d0) mod (512 * B) < 2 * B"
    using z2 B by (simp add: a0_def d0_def mod_add_eq)
  have z3': "((a0 + d0) mod (512 * B) + d0) mod (512 * B) < 2 * B"
    using z3 B by (simp add: a0_def d0_def mod_simps)
  define q l where "q = d0 div (2 * B)" and "l = d0 mod (2 * B)"
  have d0: "d0 = 2 * B * q + l" "l < 2 * B" using B by (simp_all add: q_def l_def)
  have d0_less: "d0 < 512 * B" using B by (simp add: d0_def)
  have q256: "q < 256" using d0_less by (simp add: q_def less_mult_imp_div_less)
  define k where "k = d div (512 * B)"
  have dk: "d = 512 * B * k + d0" by (simp add: d0_def k_def)
  have "odd q"
  proof -
    have "d div (2 * B) = (d0 + 256 * k * (2 * B)) div (2 * B)"
      by (subst dk) (simp add: algebra_simps)
    also have "\<dots> = 256 * k + q"
      unfolding q_def by (rule div_mult_self1) (use B(3) in simp)
    finally have "d div 2 ^ s = 256 * k + q" by (simp only: B(1))
    then show ?thesis using odd by simp
  qed
  then have q1: "2 * B \<le> 2 * B * q" by (cases q) auto
  have l: "l < B"
  proof -
    have "d div B = (l + (512 * k + 2 * q) * B) div B"
      by (subst dk, subst d0(1)) (simp add: algebra_simps)
    also have "\<dots> = 512 * k + 2 * q + l div B"
      by (rule div_mult_self1) (use B(3) in simp)
    finally have "d div B = 512 * k + 2 * q + l div B" .
    then have "even (l div B)" using low by (simp add: B_def)
    moreover have "l div B < 2" using d0(2) by (simp add: less_mult_imp_div_less)
    ultimately have "l div B = 0" by (cases "l div B") auto
    then show ?thesis using B(3) by (simp add: div_eq_0_iff)
  qed
  have q255: "2 * B * q \<le> 510 * B" using q256 by (simp add: algebra_simps)
  show False
  proof (cases "a0 + l < 2 * B")
    case True
    then have "a0 + d0 < 512 * B" using q255 d0(1) by linarith
    then have "(a0 + d0) mod (512 * B) = a0 + d0" by (rule mod_less)
    then show False using z2' q1 d0(1) by linarith
  next
    case False
    define r where "r = a0 + l - 2 * B"
    have r: "a0 + l = 2 * B + r" using False by (simp add: r_def)
    have "r < B" using r a0 l by linarith
    have sum: "a0 + d0 = 2 * B * (q + 1) + r" using r d0(1) by (simp add: algebra_simps)
    have "q = 255"
    proof (rule ccontr)
      assume "q \<noteq> 255"
      then have "2 * B * (q + 1) \<le> 2 * B * 255" using q256 by (intro mult_le_mono2) simp
      then have "a0 + d0 < 512 * B" using sum \<open>r < B\<close> by linarith
      then have "(a0 + d0) mod (512 * B) = a0 + d0" by (rule mod_less)
      then show False using z2' sum by (simp add: algebra_simps)
    qed
    then have "a0 + d0 = 512 * B + r" using sum by simp
    then have "(a0 + d0) mod (512 * B) = r" using \<open>r < B\<close> by simp
    then have "(r + d0) mod (512 * B) < 2 * B" using z3' by simp
    moreover have "r + d0 < 512 * B" using \<open>r < B\<close> l q255 d0(1) by linarith
    then have "(r + d0) mod (512 * B) = r + d0" by (rule mod_less)
    ultimately show False using q1 d0(1) by linarith
  qed
qed

text \<open>So a branch compiled from a program is taken at most twice in a row, whatever its
  register holds.\<close>

abbreviation taken :: "u32 \<Rightarrow> u64 \<Rightarrow> bool" where
  "taken mk x \<equiv> x AND ucast mk = 0"

lemma unat_mod_add:
  fixes x y :: u64
  assumes "n \<le> 64"
  shows "unat (x + y) mod 2 ^ n = (unat x + unat y) mod 2 ^ n"
proof -
  have "unat (x + y) = (unat x + unat y) mod 2 ^ 64" by (simp add: unat_word_ariths)
  moreover have "(2 :: nat) ^ n dvd 2 ^ 64" by (rule le_imp_power_dvd [OF assms])
  ultimately show ?thesis by (simp only: mod_mod_cancel)
qed

lemma not_taken_thrice:
  assumes "cond_ok imm mk" "taken mk x" "taken mk (x + imm)"
  shows "\<not> taken mk (x + imm + imm)"
proof
  assume t3: "taken mk (x + imm + imm)"
  obtain s where s: "8 \<le> s" "s \<le> 23" "mk = push_bit s 0xff" "bit imm s" "\<not> bit imm (s - 1)"
    using assms(1) by (auto simp: cond_ok_def)
  note zero = cond_bits_zero [OF s(2), folded s(3), THEN iffD1]
  have n: "s + 8 \<le> 64" using s(2) by simp
  show False
  proof (rule three_zero_impossible [of s "unat imm" "unat x"])
    show "1 \<le> s" using s(1) by simp
    have "bit (unat imm) s" "\<not> bit (unat imm) (s - 1)"
      using s by (auto simp: bit_unsigned_iff)
    then show "odd (unat imm div 2 ^ s)" "even (unat imm div 2 ^ (s - 1))"
      unfolding bit_iff_odd by simp_all
    show "unat x mod 2 ^ (s + 8) < 2 ^ s" by (rule zero [OF assms(2)])
    show "(unat x + unat imm) mod 2 ^ (s + 8) < 2 ^ s"
      using zero [OF assms(3)] by (simp only: unat_mod_add [OF n])
    have "unat (x + imm + imm) mod 2 ^ (s + 8) = (unat (x + imm) + unat imm) mod 2 ^ (s + 8)"
      by (rule unat_mod_add [OF n])
    also have "\<dots> = (unat (x + imm) mod 2 ^ (s + 8) + unat imm) mod 2 ^ (s + 8)"
      by (rule mod_add_left_eq [symmetric])
    also have "\<dots> = ((unat x + unat imm) mod 2 ^ (s + 8) + unat imm) mod 2 ^ (s + 8)"
      by (simp only: unat_mod_add [OF n])
    also have "\<dots> = (unat x + unat imm + unat imm) mod 2 ^ (s + 8)" by (rule mod_add_left_eq)
    finally show "(unat x + unat imm + unat imm) mod 2 ^ (s + 8) < 2 ^ s"
      using zero [OF t3] by simp
  qed
qed

section \<open>Running\<close>

lemma bytecode_fuel_stop:
  "int (length bc) \<le> pc \<Longrightarrow> bytecode_fuel fpu v config bc n (pc, m) = Some m"
  by (subst bytecode_fuel.simps) simp

lemma bytecode_fuel_step:
  assumes "k < length bc"
  shows "bytecode_fuel fpu v config bc (Suc n) (int k, m) =
     Option.bind (exec_instr fpu v config (bc ! k) (int k, m)) (bytecode_fuel fpu v config bc n)"
  using assms by (subst bytecode_fuel.simps) simp

lemma bytecode_fuel_mono:
  "bytecode_fuel fpu v config bc n s = Some r \<Longrightarrow> n \<le> n' \<Longrightarrow> bytecode_fuel fpu v config bc n' s = Some r"
proof (induction n arbitrary: s n')
  case 0
  then show ?case
    by (subst (asm) bytecode_fuel.simps, subst bytecode_fuel.simps) (simp split: if_splits)
next
  case (Suc n)
  then obtain n'' where n': "n' = Suc n''" "n \<le> n''" by (cases n') auto
  from Suc.prems(1) show ?case
    unfolding n'(1)
    by (subst (asm) bytecode_fuel.simps, subst bytecode_fuel.simps)
      (auto split: if_splits Option.bind_splits intro: Suc.IH n'(2))
qed

lemma bytecode_fuel_more:
  "returns Q (bytecode_fuel fpu v config bc n s) \<Longrightarrow> n \<le> n' \<Longrightarrow>
     returns Q (bytecode_fuel fpu v config bc n' s)"
  by (auto simp: returns_iff dest: bytecode_fuel_mono)

text \<open>The fuelled run is the loop.\<close>

lemma bytecode_fuel_loop:
  "bytecode_fuel fpu v config bc n s = Some r \<Longrightarrow> bytecode_loop fpu v config bc s = Some r"
proof (induction n arbitrary: s)
  case 0
  then show ?case
    by (subst (asm) bytecode_fuel.simps, subst bytecode_loop.simps) (simp split: if_splits)
next
  case (Suc n)
  from Suc.prems show ?case
    by (subst (asm) bytecode_fuel.simps, subst bytecode_loop.simps)
      (auto split: if_splits Option.bind_splits intro: Suc.IH)
qed

lemma exec_plain_step:
  assumes "bi_ok b" "machine_ok m" "\<not> is_branch b"
  shows "returns (\<lambda>(pc', m'). pc' = pc + 1 \<and> changes m (written b) m') (exec_instr fpu v config b (pc, m))"
  using exec_plain_changes [OF assms(1, 2), of fpu v config] assms(3)
  by (auto simp: exec_instr_def is_branch_def returns_iff)

lemma exec_branch_step:
  assumes "bi_ok b" "machine_ok m" "is_branch b"
  shows "returns (\<lambda>(pc', m'). machine_ok m' \<and> reg m' (bi_dst b) = reg m (bi_dst b) + bi_imm b \<and>
      pc' = (if taken (bi_mem_mask b) (reg m (bi_dst b) + bi_imm b) then bi_target b else pc) + 1)
    (exec_instr fpu v config b (pc, m))"
proof -
  have "bi_itype b = Cbranch" "bi_dst b < 8" using assms(1, 3) by (auto simp: is_branch_def bi_ok_def)
  then show ?thesis
    using assms(2) put_r_changes [OF assms(2), of "bi_dst b" "reg m (bi_dst b) + bi_imm b"]
    by (auto simp: exec_instr_def get_r_Some Let_def returns_iff changes_def)
qed

text \<open>A stretch without branches that leaves register \<open>c\<close> alone.\<close>

lemma run_quiet:
  assumes "bytecode_ok bc" "k < length bc" "quiet bc t k c" "machine_ok m" "j \<le> k" "t < int (k - j)"
    and fin: "\<And>m'. machine_ok m' \<Longrightarrow> reg m' c = reg m c \<Longrightarrow>
      returns Q (bytecode_fuel fpu v config bc f (int k, m'))"
  shows "returns Q (bytecode_fuel fpu v config bc (j + f) (int (k - j), m))"
  using assms(4-)
proof (induction j arbitrary: m)
  case 0
  then show ?case by simp
next
  case (Suc j)
  define i where "i = k - Suc j"
  have i: "i < k" "Suc i = k - j" "t < int i" using Suc.prems by (auto simp: i_def)
  have b: "bi_ok (bc ! i)" "\<not> is_branch (bc ! i)" "\<not> writes_reg (bc ! i) c"
    using assms(1-3) i by (auto simp: bytecode_ok_def quiet_def)
  show ?case
    unfolding i_def [symmetric] add_Suc bytecode_fuel_step [OF less_trans [OF i(1) assms(2)]]
  proof (rule returns_bind [OF exec_plain_step [OF b(1) Suc.prems(1) b(2)]], clarify)
    fix m'
    assume "changes m (written (bc ! i)) m'"
    then have m': "machine_ok m'" "reg m' c = reg m c"
      using b(3) by (auto simp: changes_def written_def)
    have "returns Q (bytecode_fuel fpu v config bc (j + f) (int (k - j), m'))"
      by (rule Suc.IH) (use m' Suc.prems in auto)
    moreover have "int (k - j) = int i + 1" by (simp flip: i(2))
    ultimately show "returns Q (bytecode_fuel fpu v config bc (j + f) (int i + 1, m'))" by simp
  qed
qed

text \<open>One evaluation of the branch at \<open>k\<close>: out of the loop, or once more round it.\<close>

lemma run_branch:
  assumes "bytecode_ok bc" "k < length bc" "is_branch (bc ! k)" "machine_ok m"
    and t: "bi_target (bc ! k) + 1 = int l" "l \<le> k"
    and d: "d = reg m (bi_dst (bc ! k)) + bi_imm (bc ! k)"
    and out: "\<And>m'. \<not> taken (bi_mem_mask (bc ! k)) d \<Longrightarrow> machine_ok m' \<Longrightarrow>
      returns Q (bytecode_fuel fpu v config bc g (int (Suc k), m'))"
    and g: "taken (bi_mem_mask (bc ! k)) d \<Longrightarrow> g = k - l + f"
    and again: "\<And>m'. taken (bi_mem_mask (bc ! k)) d \<Longrightarrow> machine_ok m' \<Longrightarrow> reg m' (bi_dst (bc ! k)) = d \<Longrightarrow>
      returns Q (bytecode_fuel fpu v config bc f (int k, m'))"
  shows "returns Q (bytecode_fuel fpu v config bc (Suc g) (int k, m))"
proof -
  have b: "bi_ok (bc ! k)" using assms(1, 2) by (simp add: bytecode_ok_def)
  have quiet: "quiet bc (bi_target (bc ! k)) k (bi_dst (bc ! k))"
    using assms(1-3) by (simp add: bytecode_ok_def branch_ok_def)
  have "returns Q (bytecode_fuel fpu v config bc g
      ((if taken (bi_mem_mask (bc ! k)) (reg m (bi_dst (bc ! k)) + bi_imm (bc ! k))
        then bi_target (bc ! k) else int k) + 1, m'))"
    if m': "machine_ok m'" "reg m' (bi_dst (bc ! k)) = reg m (bi_dst (bc ! k)) + bi_imm (bc ! k)" for m'
  proof (cases "taken (bi_mem_mask (bc ! k)) d")
    case True
    have "returns Q (bytecode_fuel fpu v config bc (k - l + f) (int (k - (k - l)), m'))"
      by (rule run_quiet [OF assms(1, 2) quiet m'(1)]) (use t m' d True again in auto)
    then show ?thesis using True t g by (simp add: d)
  next
    case False
    then show ?thesis using out [OF False m'(1)] by (simp add: d algebra_simps)
  qed
  then show ?thesis
    unfolding bytecode_fuel_step [OF assms(2)]
    by (intro returns_bind [OF exec_branch_step [OF b assms(4, 3)]]) auto
qed

theorem bytecode_run_bounded:
  assumes "bytecode_ok bc" "k \<le> length bc" "machine_ok m"
    and "l \<le> k" "l = 0 \<or> is_branch (bc ! (l - 1))"
  shows "returns machine_ok
     (bytecode_fuel fpu v config bc (length bc - k + 2 * (length bc - l)) (int k, m))"
  using assms(2-)
proof (induction "length bc - k" arbitrary: k l m)
  case 0
  then show ?case by (simp add: bytecode_fuel_stop)
next
  case (Suc d)
  let ?run = "bytecode_fuel fpu v config bc"
  have k: "k < length bc" "d = length bc - Suc k" using Suc.hyps(2) by auto
  have b: "bi_ok (bc ! k)" using assms(1) k by (simp add: bytecode_ok_def)
  show ?case
  proof (cases "is_branch (bc ! k)")
    case False
    have next_ok: "returns machine_ok (?run (d + 2 * (length bc - l)) (int k + 1, m'))"
      if "machine_ok m'" for m'
      using Suc.hyps(1) [OF k(2), of m' l] that Suc.prems k by (simp add: algebra_simps)
    show ?thesis
      unfolding Suc.hyps(2) [symmetric] add_Suc bytecode_fuel_step [OF k(1)]
      by (rule returns_bind [OF exec_plain_step [OF b Suc.prems(2) False]])
        (auto simp: changes_def intro: next_ok)
  next
    case True
    define c imm mk where "c = bi_dst (bc ! k)" and "imm = bi_imm (bc ! k)" and "mk = bi_mem_mask (bc ! k)"
    have q: "quiet bc (bi_target (bc ! k)) k c"
      using assms(1) k True by (simp add: bytecode_ok_def branch_ok_def c_def)
    have cond: "cond_ok imm mk" using b True by (simp add: bi_ok_def is_branch_def imm_def mk_def)
    define t where "t = nat (bi_target (bc ! k) + 1)"
    have t: "bi_target (bc ! k) + 1 = int t" "t \<le> k" using q by (auto simp: t_def quiet_def)
    have lt: "l \<le> t"
    proof (rule ccontr)
      assume "\<not> l \<le> t"
      then have "l \<noteq> 0" "l - 1 < k" "bi_target (bc ! k) < int (l - 1)" using t Suc.prems by auto
      then show False using q Suc.prems(4) by (auto simp: quiet_def)
    qed
    define F where "F = d + 2 * d"
    have out: "returns machine_ok (?run f (int (Suc k), m'))" if "machine_ok m'" "F \<le> f" for f m'
      by (rule bytecode_fuel_more [OF _ that(2)])
        (use Suc.hyps(1) [OF k(2), of m' "Suc k"] that k True in \<open>simp add: F_def\<close>)
    note branch = run_branch [OF assms(1) k(1) True _ t, folded c_def imm_def mk_def,
        where Q = machine_ok]
    have "returns machine_ok (?run (Suc (k - t + Suc (k - t + Suc F))) (int k, m))"
    proof (rule branch [OF Suc.prems(2) refl _ refl])
      fix m1 assume m1: "taken mk (reg m c + imm)" "machine_ok m1" "reg m1 c = reg m c + imm"
      show "returns machine_ok (?run (Suc (k - t + Suc F)) (int k, m1))"
      proof (rule branch [OF m1(2) refl _ refl])
        fix m2 assume m2: "taken mk (reg m1 c + imm)" "machine_ok m2" "reg m2 c = reg m1 c + imm"
        have last: "\<not> taken mk (reg m2 c + imm)"
          using not_taken_thrice [OF cond m1(1)] m1 m2 by simp
        show "returns machine_ok (?run (Suc F) (int k, m2))"
          by (rule branch [OF m2(2) refl, where f = 0]) (use last out in auto)
      qed (rule out; simp)
    qed (rule out; simp)
    then show ?thesis
      by (rule bytecode_fuel_more) (use k lt t in \<open>simp add: F_def\<close>)
  qed
qed

text \<open>The run of a compiled program, from its first instruction.\<close>

lemma execute_bytecode_returns:
  assumes "bytecode_ok bc" "machine_ok m"
  shows "returns machine_ok (execute_bytecode fpu v config bc m)"
proof -
  have "returns machine_ok (bytecode_fuel fpu v config bc (3 * length bc) (0, m))"
    using bytecode_run_bounded [OF assms(1) le0 assms(2) le0, of fpu v config] by simp
  then obtain m' where m': "bytecode_fuel fpu v config bc (3 * length bc) (0, m) = Some m'" "machine_ok m'"
    by (auto simp: returns_iff)
  show ?thesis
    using bytecode_fuel_loop [OF m'(1)] m'(2) by (simp add: execute_bytecode_def)
qed

end
