(* ===== verification/Blake2b.thy ===== *)
theory Blake2b
  imports Rust_Base
begin

text \<open>
  \<open>src/randomx/blake2b.rs\<close>: BLAKE2b. The chaining value \<open>h\<close> and the working vector
  \<open>v\<close> are lists of 8 and 16 \<open>u64\<close> words. The byte counter \<open>t\<close> is a \<open>u128\<close>. The
  streaming loop of \<open>blake2b_full\<close> keeps the state \<open>(h, t, buf, buf_len)\<close>, one input
  byte at a time, as the code does; \<open>blake2b_blocks\<close> is the block-wise reading of RFC 7693
  that the loop is shown to implement.
\<close>

section \<open>Constants\<close>

definition IV :: "u64 list" where
  "IV = [0x6a09e667f3bcc908, 0xbb67ae8584caa73b, 0x3c6ef372fe94f82b, 0xa54ff53a5f1d36f1,
         0x510e527fade682d1, 0x9b05688c2b3e6c1f, 0x1f83d9abfb41bd6b, 0x5be0cd19137e2179]"

definition BLAKE_SIGMA :: "nat list list" where
  "BLAKE_SIGMA =
    [[0, 1, 2, 3, 4, 5, 6, 7, 8, 9, 10, 11, 12, 13, 14, 15],
     [14, 10, 4, 8, 9, 15, 13, 6, 1, 12, 0, 2, 11, 7, 5, 3],
     [11, 8, 12, 0, 5, 2, 15, 13, 10, 14, 3, 6, 7, 1, 9, 4],
     [7, 9, 3, 1, 13, 12, 11, 14, 2, 6, 5, 10, 4, 0, 15, 8],
     [9, 0, 5, 7, 2, 4, 10, 15, 14, 1, 11, 12, 6, 8, 3, 13],
     [2, 12, 6, 10, 0, 11, 8, 3, 4, 13, 7, 5, 15, 14, 1, 9],
     [12, 5, 1, 15, 14, 13, 4, 10, 0, 7, 6, 3, 9, 2, 8, 11],
     [13, 11, 7, 14, 12, 1, 3, 9, 5, 0, 15, 4, 8, 6, 2, 10],
     [6, 15, 14, 9, 11, 3, 0, 8, 12, 2, 13, 7, 1, 4, 10, 5],
     [10, 2, 8, 4, 7, 6, 1, 5, 15, 11, 9, 14, 3, 12, 13, 0],
     [0, 1, 2, 3, 4, 5, 6, 7, 8, 9, 10, 11, 12, 13, 14, 15],
     [14, 10, 4, 8, 9, 15, 13, 6, 1, 12, 0, 2, 11, 7, 5, 3]]"

section \<open>The mixing function\<close>

text \<open>\<open>g\<close>: the eight assignments to \<open>v[a]\<close>, \<open>v[d]\<close>, \<open>v[c]\<close>, \<open>v[b]\<close>, in order.\<close>

definition g_mix :: "u64 list \<Rightarrow> nat \<Rightarrow> nat \<Rightarrow> nat \<Rightarrow> nat \<Rightarrow> u64 \<Rightarrow> u64 \<Rightarrow> u64 list" where
  "g_mix v a b c d x y =
     (let v = v[a := v ! a + v ! b + x];
          v = v[d := rotate_right 32 (v ! d XOR v ! a)];
          v = v[c := v ! c + v ! d];
          v = v[b := rotate_right 24 (v ! b XOR v ! c)];
          v = v[a := v ! a + v ! b + y];
          v = v[d := rotate_right 16 (v ! d XOR v ! a)];
          v = v[c := v ! c + v ! d];
          v = v[b := rotate_right 63 (v ! b XOR v ! c)]
      in v)"

text \<open>One of the 12 rounds: four column steps, four diagonal steps.\<close>

definition blake2b_round :: "u64 list \<Rightarrow> u64 list \<Rightarrow> nat list \<Rightarrow> u64 list" where
  "blake2b_round m v s =
     (let v = g_mix v 0 4 8 12 (m ! (s ! 0)) (m ! (s ! 1));
          v = g_mix v 1 5 9 13 (m ! (s ! 2)) (m ! (s ! 3));
          v = g_mix v 2 6 10 14 (m ! (s ! 4)) (m ! (s ! 5));
          v = g_mix v 3 7 11 15 (m ! (s ! 6)) (m ! (s ! 7));
          v = g_mix v 0 5 10 15 (m ! (s ! 8)) (m ! (s ! 9));
          v = g_mix v 1 6 11 12 (m ! (s ! 10)) (m ! (s ! 11));
          v = g_mix v 2 7 8 13 (m ! (s ! 12)) (m ! (s ! 13));
          v = g_mix v 3 4 9 14 (m ! (s ! 14)) (m ! (s ! 15))
      in v)"

section \<open>The compression function\<close>

definition compress :: "u64 list \<Rightarrow> bytes \<Rightarrow> u128 \<Rightarrow> bool \<Rightarrow> u64 list" where
  "compress h block t is_last =
     (let v = h @ IV;
          v = v[12 := v ! 12 XOR ucast t];
          v = v[13 := v ! 13 XOR ucast (drop_bit 64 t)];
          v = (if is_last then v[14 := NOT (v ! 14)] else v);
          m = map (\<lambda>i. from_le (slice (i * 8) 8 block)) [0..<16];
          v = foldl (blake2b_round m) v BLAKE_SIGMA
      in map (\<lambda>i. h ! i XOR (v ! i XOR v ! (i + 8))) [0..<8])"

section \<open>The streaming hash\<close>

text \<open>The loop variables of \<open>blake2b_full\<close>.\<close>

record blake_state =
  bs_h :: "u64 list"
  bs_t :: u128
  bs_buf :: bytes
  bs_buf_len :: nat

definition blake_init :: "nat \<Rightarrow> bytes \<Rightarrow> blake_state" where
  "blake_init out_len key =
     (let kk = length key;
          h = IV[0 := IV ! 0 XOR (0x01010000 XOR push_bit 8 (of_nat kk) XOR of_nat out_len)];
          buf = replicate 128 0
      in if kk > 0
         then \<lparr>bs_h = h, bs_t = 0, bs_buf = splice 0 key buf, bs_buf_len = 128\<rparr>
         else \<lparr>bs_h = h, bs_t = 0, bs_buf = buf, bs_buf_len = 0\<rparr>)"

definition blake_byte :: "blake_state \<Rightarrow> u8 \<Rightarrow> blake_state" where
  "blake_byte s byte =
     (let s = (if bs_buf_len s = 128
               then s\<lparr>bs_t := bs_t s + 128,
                      bs_h := compress (bs_h s) (bs_buf s) (bs_t s + 128) False,
                      bs_buf := replicate 128 0,
                      bs_buf_len := 0\<rparr>
               else s)
      in s\<lparr>bs_buf := (bs_buf s)[bs_buf_len s := byte], bs_buf_len := bs_buf_len s + 1\<rparr>)"

definition blake_final :: "blake_state \<Rightarrow> u64 list" where
  "blake_final s =
     (let t = bs_t s + of_nat (bs_buf_len s);
          buf = take (bs_buf_len s) (bs_buf s) @ replicate (128 - bs_buf_len s) 0
      in compress (bs_h s) buf t True)"

definition blake_output :: "nat \<Rightarrow> u64 list \<Rightarrow> bytes" where
  "blake_output out_len h =
     map (\<lambda>i. ucast (drop_bit (8 * (i mod 8)) (h ! (i div 8)))) [0..<out_len]"

text \<open>\<open>blake2b_full\<close>: \<open>None\<close> is the panic of one of its two \<open>assert!\<close>s.\<close>

definition blake2b_full :: "nat \<Rightarrow> bytes \<Rightarrow> bytes \<Rightarrow> bytes option" where
  "blake2b_full out_len key input =
     (if 1 \<le> out_len \<and> out_len \<le> 64 \<and> length key \<le> 64
      then Some (blake_output out_len
             (blake_final (foldl blake_byte (blake_init out_len key) input)))
      else None)"

definition blake2b :: "nat \<Rightarrow> bytes \<Rightarrow> bytes option" where
  "blake2b out_len input = blake2b_full out_len [] input"

definition blake2b_256 :: "bytes \<Rightarrow> bytes" where
  "blake2b_256 input = the (blake2b 32 input)"

definition blake2b_512 :: "bytes \<Rightarrow> bytes" where
  "blake2b_512 input = the (blake2b 64 input)"

section \<open>Shapes\<close>

lemma length_IV [simp, rust_len]: "length IV = 8"
  by (simp add: IV_def)

lemma length_g_mix [simp, rust_len]: "length (g_mix v a b c d x y) = length v"
  by (simp add: g_mix_def Let_def)

lemma length_blake2b_round [simp, rust_len]: "length (blake2b_round m v s) = length v"
  by (simp add: blake2b_round_def Let_def)

lemma length_compress [simp, rust_len]: "length (compress h block t is_last) = 8"
  by (simp add: compress_def Let_def)

lemma BLAKE_SIGMA_perm: "\<forall>s \<in> set BLAKE_SIGMA. sort s = [0..<16]"
  by code_simp

lemma length_blake_output [simp, rust_len]: "length (blake_output n h) = n"
  by (simp add: blake_output_def)

lemma blake2b_full_None_iff:
  "blake2b_full n key input = None \<longleftrightarrow> n = 0 \<or> 64 < n \<or> 64 < length key"
  by (auto simp: blake2b_full_def)

lemma length_blake2b: "blake2b n input = Some d \<Longrightarrow> length d = n"
  by (auto simp: blake2b_def blake2b_full_def split: if_splits)

lemma blake2b_Some: "1 \<le> n \<Longrightarrow> n \<le> 64 \<Longrightarrow> \<exists>d. blake2b n input = Some d \<and> length d = n"
  by (simp add: blake2b_def blake2b_full_def)

lemma length_blake2b_256 [simp, rust_len]: "length (blake2b_256 input) = 32"
  by (simp add: blake2b_256_def blake2b_def blake2b_full_def)

lemma length_blake2b_512 [simp, rust_len]: "length (blake2b_512 input) = 64"
  by (simp add: blake2b_512_def blake2b_def blake2b_full_def)

section \<open>The loop invariant and the block-wise reading\<close>

definition blake_inv :: "blake_state \<Rightarrow> bool" where
  "blake_inv s \<longleftrightarrow>
     length (bs_h s) = 8 \<and> length (bs_buf s) = 128 \<and> bs_buf_len s \<le> 128 \<and>
     (\<forall>i. bs_buf_len s \<le> i \<and> i < 128 \<longrightarrow> bs_buf s ! i = 0)"

lemma blake_init_inv: "length key \<le> 64 \<Longrightarrow> blake_inv (blake_init n key)"
  by (auto simp: blake_init_def blake_inv_def Let_def)

lemma blake_byte_inv: "blake_inv s \<Longrightarrow> blake_inv (blake_byte s b)"
  by (auto simp: blake_byte_def blake_inv_def Let_def nth_list_update)

lemma blake_bytes_inv: "blake_inv s \<Longrightarrow> blake_inv (foldl blake_byte s bs)"
  by (induction bs arbitrary: s) (auto intro: blake_byte_inv)

text \<open>
  The specification: the data (the padded key block, if any, then the input) is cut into
  128-byte blocks; every block but the last is compressed with the running byte count, the
  last one, zero-padded, with the finalisation flag. The counter is kept as in the code.
\<close>

function blake2b_blocks :: "u64 list \<Rightarrow> u128 \<Rightarrow> bytes \<Rightarrow> u64 list" where
  "blake2b_blocks h t data =
     (if length data \<le> 128
      then compress h (data @ replicate (128 - length data) 0) (t + of_nat (length data)) True
      else blake2b_blocks (compress h (take 128 data) (t + 128) False) (t + 128) (drop 128 data))"
  by pat_completeness auto
termination
  by (relation "measure (\<lambda>(h, t, data). length data)") auto

declare blake2b_blocks.simps [simp del]

text \<open>The bytes a loop state still holds.\<close>

definition blake_held :: "blake_state \<Rightarrow> bytes" where
  "blake_held s = take (bs_buf_len s) (bs_buf s)"

lemma blake_held_full:
  "blake_inv s \<Longrightarrow> bs_buf_len s = 128 \<Longrightarrow> blake_held s = bs_buf s"
  by (simp add: blake_held_def blake_inv_def)

lemma blake_final_blocks:
  "blake_inv s \<Longrightarrow> blake_final s = blake2b_blocks (bs_h s) (bs_t s) (blake_held s)"
  by (simp add: blake_final_def blake_held_def blake_inv_def blake2b_blocks.simps Let_def)

lemma blake_byte_blocks:
  assumes "blake_inv s"
  shows "blake2b_blocks (bs_h s) (bs_t s) (blake_held s @ b # rest) =
     blake2b_blocks (bs_h (blake_byte s b)) (bs_t (blake_byte s b))
       (blake_held (blake_byte s b) @ rest)"
proof (cases "bs_buf_len s = 128")
  case True
  have held: "length (blake_held s) = 128" "blake_held s = bs_buf s"
    using assms True by (simp_all add: blake_held_full) (simp add: blake_inv_def)
  have "blake_held (blake_byte s b) = [b]"
    using True by (simp add: blake_held_def blake_byte_def Let_def take_Suc_conv_app_nth)
  then show ?thesis
    using True held
    by (subst blake2b_blocks.simps) (simp add: blake_byte_def Let_def)
next
  case False
  then have "blake_held (blake_byte s b) = blake_held s @ [b]"
    using assms
    by (simp add: blake_held_def blake_byte_def blake_inv_def Let_def take_Suc_conv_app_nth)
  then show ?thesis
    using False by (simp add: blake_byte_def Let_def)
qed

lemma blake_loop_blocks:
  "blake_inv s \<Longrightarrow>
     blake_final (foldl blake_byte s input) =
     blake2b_blocks (bs_h s) (bs_t s) (blake_held s @ input)"
proof (induction input arbitrary: s)
  case Nil
  then show ?case by (simp add: blake_final_blocks)
next
  case (Cons b input)
  then show ?case by (simp add: blake_byte_inv blake_byte_blocks)
qed

text \<open>The data the hash is computed over: a key, when there is one, fills the first block.\<close>

definition blake2b_data :: "bytes \<Rightarrow> bytes \<Rightarrow> bytes" where
  "blake2b_data key input =
     (if key = [] then input else key @ replicate (128 - length key) 0 @ input)"

lemma blake_held_init:
  "length key \<le> 64 \<Longrightarrow> blake_held (blake_init n key) @ input = blake2b_data key input"
  by (auto simp: blake_held_def blake_init_def blake2b_data_def Let_def splice_def)

end
