(* ===== verification/Argon2d.thy ===== *)
theory Argon2d
  imports Rust_Loops Blake2b
begin

text \<open>
  \<open>src/randomx/argon2d.rs\<close>: the Argon2d fill of the RandomX cache. A \<open>Block\<close> is its list of
  128 words, the memory a list of blocks. \<open>u32\<close> positions are naturals with checked
  arithmetic (\<open>u32_add\<close> and the like); an index out of range, or a failed overflow check, is
  \<open>None\<close>.
\<close>

section \<open>Parameters\<close>

definition ARGON2_BLOCK_SIZE :: nat where "ARGON2_BLOCK_SIZE = 1024"
definition ARGON2_QWORDS_IN_BLOCK :: nat where "ARGON2_QWORDS_IN_BLOCK = ARGON2_BLOCK_SIZE div 8"
definition ARGON2_SYNC_POINTS :: nat where "ARGON2_SYNC_POINTS = 4"
definition ARGON2_PREHASH_DIGEST_LENGTH :: nat where "ARGON2_PREHASH_DIGEST_LENGTH = 64"
definition ARGON2_PREHASH_SEED_LENGTH :: nat where "ARGON2_PREHASH_SEED_LENGTH = 72"
definition ARGON2_VERSION :: u32 where "ARGON2_VERSION = 0x13"
definition RANDOMX_ARGON_MEMORY :: nat where "RANDOMX_ARGON_MEMORY = 262144"
definition RANDOMX_ARGON_ITERATIONS :: nat where "RANDOMX_ARGON_ITERATIONS = 3"
definition RANDOMX_ARGON_LANES :: nat where "RANDOMX_ARGON_LANES = 1"
definition RANDOMX_ARGON_SALT :: bytes where
  "RANDOMX_ARGON_SALT = [0x52, 0x61, 0x6e, 0x64, 0x6f, 0x6d, 0x58, 0x03]"

lemmas argon2_params = ARGON2_BLOCK_SIZE_def ARGON2_QWORDS_IN_BLOCK_def ARGON2_SYNC_POINTS_def
  ARGON2_PREHASH_DIGEST_LENGTH_def ARGON2_PREHASH_SEED_LENGTH_def RANDOMX_ARGON_MEMORY_def
  RANDOMX_ARGON_ITERATIONS_def RANDOMX_ARGON_LANES_def

section \<open>Blocks\<close>

type_synonym block = "u64 list"

definition block_new :: block where
  "block_new = replicate ARGON2_QWORDS_IN_BLOCK 0"

definition xor_with :: "block \<Rightarrow> block \<Rightarrow> block" where
  "xor_with b other = map2 (XOR) b other"

definition load_from_bytes :: "bytes \<Rightarrow> block option" where
  "load_from_bytes bs =
     (if ARGON2_BLOCK_SIZE \<le> length bs
      then Some (map (\<lambda>i. from_le (slice (i * 8) 8 bs)) [0..<ARGON2_QWORDS_IN_BLOCK])
      else None)"

definition store_to_bytes :: "block \<Rightarrow> bytes" where
  "store_to_bytes b = concat (map (le_bytes 8) b)"

section \<open>Compression\<close>

definition f_bla_mka :: "u64 \<Rightarrow> u64 \<Rightarrow> u64" where
  "f_bla_mka x y =
     (let m = 0xFFFFFFFF; xy = (x AND m) * (y AND m) in x + y + 2 * xy)"

definition g_blamka :: "nat \<Rightarrow> nat \<Rightarrow> nat \<Rightarrow> nat \<Rightarrow> u64 list \<Rightarrow> u64 list" where
  "g_blamka a b c d v =
     (let v = v[a := f_bla_mka (v ! a) (v ! b)];
          v = v[d := rotate_right 32 (v ! d XOR v ! a)];
          v = v[c := f_bla_mka (v ! c) (v ! d)];
          v = v[b := rotate_right 24 (v ! b XOR v ! c)];
          v = v[a := f_bla_mka (v ! a) (v ! b)];
          v = v[d := rotate_right 16 (v ! d XOR v ! a)];
          v = v[c := f_bla_mka (v ! c) (v ! d)]
      in v[b := rotate_right 63 (v ! b XOR v ! c)])"

definition blake2_round_nomsg :: "u64 list \<Rightarrow> u64 list" where
  "blake2_round_nomsg v =
     (let v = g_blamka 0 4 8 12 v;
          v = g_blamka 1 5 9 13 v;
          v = g_blamka 2 6 10 14 v;
          v = g_blamka 3 7 11 15 v;
          v = g_blamka 0 5 10 15 v;
          v = g_blamka 1 6 11 12 v;
          v = g_blamka 2 7 8 13 v
      in g_blamka 3 4 9 14 v)"

text \<open>The sixteen positions the two loops of \<open>fill_block\<close> work on, and one iteration: the
  words are copied out, mixed, and copied back.\<close>

definition column_ix :: "nat \<Rightarrow> nat list" where
  "column_ix i = map (\<lambda>j. 16 * i + j) [0..<16]"

definition row_ix :: "nat \<Rightarrow> nat list" where
  "row_ix i = concat (map (\<lambda>k. [2 * i + 16 * k, 2 * i + 16 * k + 1]) [0..<8])"

definition scatter :: "nat list \<Rightarrow> 'a list \<Rightarrow> 'a list \<Rightarrow> 'a list" where
  "scatter ixs vs xs = foldl (\<lambda>xs (i, v). xs[i := v]) xs (zip ixs vs)"

definition mix_at :: "nat list \<Rightarrow> block \<Rightarrow> block" where
  "mix_at ixs b = scatter ixs (blake2_round_nomsg (map ((!) b) ixs)) b"

definition fill_block :: "block \<Rightarrow> block \<Rightarrow> block \<Rightarrow> bool \<Rightarrow> block" where
  "fill_block prev_block ref_block next_block with_xor =
     (let block_r = xor_with ref_block prev_block;
          block_tmp = (if with_xor then xor_with block_r next_block else block_r);
          block_r = foldl (\<lambda>b i. mix_at (column_ix i) b) block_r [0..<8];
          block_r = foldl (\<lambda>b i. mix_at (row_ix i) b) block_r [0..<8]
      in xor_with block_tmp block_r)"

section \<open>The variable-length hash\<close>

function blake2b_long_loop :: "nat \<Rightarrow> bytes \<Rightarrow> bytes \<Rightarrow> nat \<times> bytes \<times> bytes" where
  "blake2b_long_loop toproduce out_buffer out =
     (if 64 < toproduce
      then let out_buffer = blake2b_512 out_buffer
           in blake2b_long_loop (toproduce - 32) out_buffer (out @ take 32 out_buffer)
      else (toproduce, out_buffer, out))"
  by pat_completeness auto
termination by (relation "measure fst") auto

declare blake2b_long_loop.simps [simp del]

definition blake2b_long :: "nat \<Rightarrow> bytes \<Rightarrow> bytes option" where
  "blake2b_long out_len input =
     (let data = le_bytes 4 (of_nat out_len :: u32) @ input
      in if out_len \<le> 64 then blake2b out_len data
         else let out_buffer = blake2b_512 data;
                  (toproduce, out_buffer, out) =
                    blake2b_long_loop (out_len - 32) out_buffer (take 32 out_buffer)
              in map_option (\<lambda>final_hash. out @ final_hash) (blake2b toproduce out_buffer))"

section \<open>The reference position\<close>

definition reference_area_size :: "nat \<Rightarrow> nat \<Rightarrow> nat \<Rightarrow> bool \<Rightarrow> nat \<Rightarrow> nat \<Rightarrow> nat option" where
  "reference_area_size pass slice' index same_lane lane_length segment_length =
     (if pass = 0 then
        (if slice' = 0 then u32_sub index 1
         else if same_lane then do {
           s \<leftarrow> u32_mul slice' segment_length;
           s \<leftarrow> u32_add s index;
           u32_sub s 1
         }
         else do {
           s \<leftarrow> u32_mul slice' segment_length;
           u32_add s (if index = 0 then 2 ^ 32 - 1 else 0)
         })
      else if same_lane then do {
        s \<leftarrow> u32_sub lane_length segment_length;
        s \<leftarrow> u32_add s index;
        u32_sub s 1
      }
      else do {
        s \<leftarrow> u32_sub lane_length segment_length;
        u32_add s (if index = 0 then 2 ^ 32 - 1 else 0)
      })"

definition relative_position :: "nat \<Rightarrow> nat \<Rightarrow> nat" where
  "relative_position area pseudo_rand =
     (let rp = of_nat pseudo_rand :: u64;
          rp = drop_bit 32 (rp * rp);
          area = of_nat area :: u64
      in unat (ucast (area - drop_bit 32 (area * rp) - 1) :: u32))"

definition start_position :: "nat \<Rightarrow> nat \<Rightarrow> nat \<Rightarrow> nat option" where
  "start_position pass slice' segment_length =
     (if pass \<noteq> 0 then
        (if slice' = ARGON2_SYNC_POINTS - 1 then Some 0
         else do { s \<leftarrow> u32_add slice' 1; u32_mul s segment_length })
      else Some 0)"

definition index_alpha ::
  "nat \<Rightarrow> nat \<Rightarrow> nat \<Rightarrow> nat \<Rightarrow> bool \<Rightarrow> nat \<Rightarrow> nat \<Rightarrow> nat option" where
  "index_alpha pass slice' index pseudo_rand same_lane lane_length segment_length = do {
     area \<leftarrow> reference_area_size pass slice' index same_lane lane_length segment_length;
     start \<leftarrow> start_position pass slice' segment_length;
     s \<leftarrow> u32_add start (relative_position area pseudo_rand);
     u32_rem s lane_length
   }"

section \<open>Filling\<close>

text \<open>The loop variables of \<open>fill_segment\<close>.\<close>

record seg_state =
  seg_memory :: "block list"
  seg_curr :: nat
  seg_prev :: nat

definition segment_step ::
  "nat \<Rightarrow> nat \<Rightarrow> nat \<Rightarrow> nat \<Rightarrow> nat \<Rightarrow> nat \<Rightarrow> nat \<Rightarrow> seg_state \<Rightarrow> seg_state option" where
  "segment_step pass lane slice' lanes lane_length segment_length i s = do {
     let curr = seg_curr s;
     r \<leftarrow> u32_rem curr lane_length;
     prev \<leftarrow> (if r = 1 then u32_sub curr 1 else Some (seg_prev s));
     prev_block \<leftarrow> at_index (seg_memory s) prev;
     pseudo_rand \<leftarrow> at_index prev_block 0;
     ref_lane \<leftarrow> u32_rem (unat (ucast (drop_bit 32 pseudo_rand) :: u32)) lanes;
     let actual_ref_lane = (if pass = 0 \<and> slice' = 0 then lane else ref_lane);
     ref_index \<leftarrow> index_alpha pass slice' i (unat (ucast (pseudo_rand AND 0xFFFFFFFF) :: u32))
       (actual_ref_lane = lane) lane_length segment_length;
     base \<leftarrow> u32_mul actual_ref_lane lane_length;
     ref_offset \<leftarrow> u32_add base ref_index;
     ref_block \<leftarrow> at_index (seg_memory s) ref_offset;
     curr_block \<leftarrow> at_index (seg_memory s) curr;
     memory \<leftarrow> put_index (seg_memory s) curr (fill_block prev_block ref_block curr_block (0 < pass));
     curr' \<leftarrow> u32_add curr 1;
     prev' \<leftarrow> u32_add prev 1;
     Some \<lparr>seg_memory = memory, seg_curr = curr', seg_prev = prev'\<rparr>
   }"

definition fill_segment ::
  "nat \<Rightarrow> nat \<Rightarrow> nat \<Rightarrow> nat \<Rightarrow> nat \<Rightarrow> nat \<Rightarrow> block list \<Rightarrow> block list option" where
  "fill_segment pass lane slice' lanes lane_length segment_length memory = do {
     let starting_index = (if pass = 0 \<and> slice' = 0 then 2 else 0);
     l \<leftarrow> u32_mul lane lane_length;
     s \<leftarrow> u32_mul slice' segment_length;
     curr \<leftarrow> u32_add l s;
     curr \<leftarrow> u32_add curr starting_index;
     r \<leftarrow> u32_rem curr lane_length;
     prev \<leftarrow> (if r = 0 then do { c \<leftarrow> u32_add curr lane_length; u32_sub c 1 } else u32_sub curr 1);
     s \<leftarrow> for_each (segment_step pass lane slice' lanes lane_length segment_length)
       [starting_index..<segment_length]
       \<lparr>seg_memory = memory, seg_curr = curr, seg_prev = prev\<rparr>;
     Some (seg_memory s)
   }"

section \<open>The cache\<close>

definition initial_hash :: "bytes \<Rightarrow> bytes option" where
  "initial_hash key =
     (let le = le_bytes 4 :: u32 \<Rightarrow> bytes
      in blake2b ARGON2_PREHASH_DIGEST_LENGTH
        (le (of_nat RANDOMX_ARGON_LANES) @ le 0 @ le (of_nat RANDOMX_ARGON_MEMORY) @
         le (of_nat RANDOMX_ARGON_ITERATIONS) @ le ARGON2_VERSION @ le 0 @
         le (of_nat (length key)) @ key @
         le (of_nat (length RANDOMX_ARGON_SALT)) @ RANDOMX_ARGON_SALT @ le 0 @ le 0))"

definition first_block :: "bytes \<Rightarrow> nat \<Rightarrow> nat \<Rightarrow> block option" where
  "first_block blockhash n lane = do {
     bs \<leftarrow> blake2b_long ARGON2_BLOCK_SIZE
       (blockhash @ le_bytes 4 (of_nat n :: u32) @ le_bytes 4 (of_nat lane :: u32));
     load_from_bytes bs
   }"

definition fill_first_blocks ::
  "bytes \<Rightarrow> nat \<Rightarrow> nat \<Rightarrow> block list \<Rightarrow> block list option" where
  "fill_first_blocks blockhash lanes lane_length memory =
     for_each (\<lambda>l memory. do {
       b \<leftarrow> first_block blockhash 0 l;
       o0 \<leftarrow> u32_mul l lane_length;
       memory \<leftarrow> put_index memory o0 b;
       b \<leftarrow> first_block blockhash 1 l;
       o1 \<leftarrow> u32_add o0 1;
       put_index memory o1 b
     }) [0..<lanes] memory"

text \<open>The three nested loops, then the whole function.\<close>

definition fill_memory :: "nat \<Rightarrow> nat \<Rightarrow> nat \<Rightarrow> block list \<Rightarrow> block list option" where
  "fill_memory lanes lane_length segment_length =
     for_each (\<lambda>pass. for_each (\<lambda>slice'. for_each (\<lambda>lane.
         fill_segment pass lane slice' lanes lane_length segment_length)
       [0..<lanes]) [0..<ARGON2_SYNC_POINTS]) [0..<RANDOMX_ARGON_ITERATIONS]"

definition argon2d_cache :: "bytes \<Rightarrow> bytes option" where
  "argon2d_cache key = do {
     let memory_blocks = RANDOMX_ARGON_MEMORY;
     let lanes = RANDOMX_ARGON_LANES;
     let segment_length = memory_blocks div (lanes * ARGON2_SYNC_POINTS);
     let lane_length = segment_length * ARGON2_SYNC_POINTS;
     let memory = replicate (lanes * lane_length) block_new;
     blockhash \<leftarrow> initial_hash key;
     memory \<leftarrow> fill_first_blocks blockhash lanes lane_length memory;
     memory \<leftarrow> fill_memory lanes lane_length segment_length memory;
     Some (concat (map store_to_bytes memory))
   }"

end
