(* ===== verification/Argon2d_Props.thy ===== *)
theory Argon2d_Props
  imports Argon2d
begin

text \<open>
  The Argon2d fill (\<open>src/randomx/argon2d.rs\<close>) never panics and gives 256 MiB: the shape of
  blocks, the variable-length hash, the window of reference positions, and the segments and
  passes built from them.
\<close>

section \<open>Blocks\<close>

definition block_ok :: "block \<Rightarrow> bool" where
  "block_ok b \<longleftrightarrow> length b = 128"

lemma block_new_ok [simp]: "block_ok block_new"
  by (simp add: block_ok_def block_new_def argon2_params)

lemma length_xor_with [simp, rust_len]: "length (xor_with a b) = min (length a) (length b)"
  by (simp add: xor_with_def)

lemma length_scatter [simp, rust_len]: "length (scatter ixs vs xs) = length xs"
proof -
  have "length (foldl (\<lambda>xs (i, v). xs[i := v]) xs ps) = length xs" for ps
    by (induction ps arbitrary: xs) auto
  then show ?thesis by (simp add: scatter_def)
qed

lemma length_mix_at [simp, rust_len]: "length (mix_at ixs b) = length b"
  by (simp add: mix_at_def)

lemma length_foldl_mix [simp, rust_len]: "length (foldl (\<lambda>b i. mix_at (f i) b) b is) = length b"
  by (induction "is" arbitrary: b) auto

lemma fill_block_ok:
  "block_ok p \<Longrightarrow> block_ok r \<Longrightarrow> block_ok n \<Longrightarrow> block_ok (fill_block p r n x)"
  by (simp add: block_ok_def fill_block_def Let_def)

lemma fill_block_fresh: "fill_block p r n False = fill_block p r n' False"
  by (simp add: fill_block_def)

lemma length_store_to_bytes [rust_len]: "length (store_to_bytes b) = 8 * length b"
  by (induction b) (simp_all add: store_to_bytes_def)

lemma slice_concat:
  "(\<And>x. x \<in> set xs \<Longrightarrow> length x = n) \<Longrightarrow> i < length xs \<Longrightarrow> slice (i * n) n (concat xs) = xs ! i"
proof (induction xs arbitrary: i)
  case (Cons x xs)
  show ?case
  proof (cases i)
    case 0
    then show ?thesis using Cons.prems by (simp add: slice_def)
  next
    case (Suc j)
    then have "slice (i * n) n (concat (x # xs)) = slice (j * n) n (concat xs)"
      using Cons.prems by (simp add: slice_def)
    then show ?thesis using Cons.IH [of j] Cons.prems Suc by simp
  qed
qed simp

lemma load_store_gen: "block_ok b \<Longrightarrow> load_from_bytes (store_to_bytes b) = Some b"
proof -
  assume b: "block_ok b"
  have "slice (i * 8) 8 (store_to_bytes b) = le_bytes 8 (b ! i)" if "i < 128" for i
    unfolding store_to_bytes_def
    by (subst slice_concat) (use b that in \<open>auto simp: block_ok_def\<close>)
  then have "map (\<lambda>i. from_le (slice (i * 8) 8 (store_to_bytes b))) [0..<128] = b"
    using b by (intro nth_equalityI) (auto simp: block_ok_def)
  then show ?thesis
    using b by (simp add: load_from_bytes_def length_store_to_bytes block_ok_def argon2_params)
qed

lemma load_from_bytes_ok: "1024 \<le> length bs \<Longrightarrow> returns block_ok (load_from_bytes bs)"
  by (simp add: load_from_bytes_def block_ok_def argon2_params)

section \<open>The variable-length hash\<close>

lemma blake2b_long_loop_ok:
  "33 \<le> t \<Longrightarrow> case blake2b_long_loop t buf out of
     (t', buf', out') \<Rightarrow> 33 \<le> t' \<and> t' \<le> 64 \<and> length out' + t' = length out + t"
proof (induction t buf out rule: blake2b_long_loop.induct)
  case (1 t buf out)
  show ?case
  proof (cases "64 < t")
    case True
    have len: "length (take 32 (blake2b_512 buf)) = 32" by simp
    then show ?thesis
      using 1(1) [OF True refl] True by (subst blake2b_long_loop.simps) (simp add: Let_def split: prod.splits)
  next
    case False
    then show ?thesis using 1(2) by (subst blake2b_long_loop.simps) simp
  qed
qed

lemma blake2b_long_length:
  assumes "1 \<le> n"
  shows "returns (\<lambda>d. length d = n) (blake2b_long n input)"
proof (cases "n \<le> 64")
  case True
  then show ?thesis
    using blake2b_Some [OF assms] by (auto simp: blake2b_long_def returns_iff)
next
  case False
  define buf where "buf = blake2b_512 (le_bytes 4 (of_nat n :: u32) @ input)"
  obtain t b out where l: "blake2b_long_loop (n - 32) buf (take 32 buf) = (t, b, out)"
    by (rule prod_cases3)
  have "33 \<le> n - 32" using False by simp
  from blake2b_long_loop_ok [OF this, where buf = buf and out = "take 32 buf"]
  have t: "33 \<le> t" "t \<le> 64" "length out + t = 32 + (n - 32)"
    using l by (simp_all add: buf_def)
  have "1 \<le> t" using t by simp
  from blake2b_Some [OF this t(2)] obtain d where "blake2b t b = Some d" "length d = t" by blast
  then show ?thesis
    using False l t by (simp add: blake2b_long_def Let_def flip: buf_def)
qed

section \<open>Reference positions\<close>

lemma drop_bit_of_nat_u64:
  "n < 2 ^ 64 \<Longrightarrow> drop_bit 32 (of_nat n :: u64) = of_nat (n div 2 ^ 32)"
proof -
  assume n: "n < 2 ^ 64"
  then have "n div 2 ^ 32 < 2 ^ 64" by (meson div_le_dividend le_less_trans)
  then have "unat (of_nat (n div 2 ^ 32) :: u64) = n div 2 ^ 32"
    by (simp add: unat_of_nat)
  moreover have "unat (drop_bit 32 (of_nat n :: u64)) = n div 2 ^ 32"
    unfolding unat_drop_bit_eq
    using n by (simp add: unat_of_nat drop_bit_eq_div)
  ultimately show ?thesis by (simp only: word_unat_eq_iff)
qed

lemma unat_narrow: "n < 2 ^ 32 \<Longrightarrow> unat (ucast (of_nat n :: u64) :: u32) = n"
  by (simp add: unsigned_ucast_eq unat_of_nat take_bit_eq_mod)

lemma relative_position_value:
  assumes "1 \<le> area" "area < 2 ^ 32" "pr < 2 ^ 32"
  shows "relative_position area pr = area - area * (pr * pr div 2 ^ 32) div 2 ^ 32 - 1"
    and "area * (pr * pr div 2 ^ 32) div 2 ^ 32 < area"
proof -
  define x where "x = pr * pr div 2 ^ 32"
  define t where "t = area * x div 2 ^ 32"
  have "pr * pr < 2 ^ 32 * 2 ^ 32" using assms(3) by (intro mult_strict_mono) auto
  then have pp: "pr * pr < 2 ^ 64" by simp
  then have x: "x < 2 ^ 32" by (simp add: x_def less_mult_imp_div_less)
  have le: "area * x < area * 2 ^ 32" using x assms(1) by (intro mult_strict_left_mono) auto
  from le show t: "area * (pr * pr div 2 ^ 32) div 2 ^ 32 < area"
    unfolding x_def [symmetric] by (rule less_mult_imp_div_less)
  have ax: "area * x < 2 ^ 64"
  proof -
    have "area * 2 ^ 32 < 2 ^ 32 * 2 ^ (32 :: nat)"
      using assms(2) by (intro mult_strict_right_mono) auto
    with le have "area * x < 2 ^ 32 * 2 ^ (32 :: nat)" by (rule less_trans)
    then show ?thesis by (simp flip: power_add)
  qed
  have s1: "drop_bit 32 ((of_nat pr :: u64) * of_nat pr) = of_nat x"
    using drop_bit_of_nat_u64 [OF pp] by (simp add: x_def)
  have s2: "drop_bit 32 ((of_nat area :: u64) * of_nat x) = of_nat t"
    using drop_bit_of_nat_u64 [OF ax] by (simp add: t_def)
  have "t < area" using t by (simp add: t_def x_def)
  then have s3: "(of_nat area :: u64) - of_nat t - 1 = of_nat (area - t - 1)"
    by (simp add: of_nat_diff)
  have s4: "unat (ucast (of_nat (area - t - 1) :: u64) :: u32) = area - t - 1"
    by (rule unat_narrow) (use assms(2) in simp)
  have "relative_position area pr = area - t - 1"
    by (simp only: relative_position_def Let_def s1 s2 s3 s4)
  then show "relative_position area pr = area - area * (pr * pr div 2 ^ 32) div 2 ^ 32 - 1"
    by (simp only: t_def x_def)
qed

lemma relative_position_less:
  "1 \<le> area \<Longrightarrow> area < 2 ^ 32 \<Longrightarrow> pr < 2 ^ 32 \<Longrightarrow> relative_position area pr < area"
  using relative_position_value [of area pr] by simp


section \<open>One lane\<close>

lemma for_upt_rel:
  assumes "\<And>i s t. a \<le> i \<Longrightarrow> i < b \<Longrightarrow> R i s t \<Longrightarrow> rel_option (R (Suc i)) (f i s) (g i t)"
    and "R a s t" "a \<le> b"
  shows "rel_option (R b) (for_each f [a..<b] s) (for_each g [a..<b] t)"
  using assms
proof (induction "b - a" arbitrary: a s t)
  case (Suc d)
  then have ab: "a < b" by simp
  have step: "rel_option (R (Suc a)) (f a s) (g a t)" using Suc.prems ab by blast
  show ?case
  proof (cases "f a s")
    case None
    then show ?thesis using step ab by (simp add: upt_conv_Cons)
  next
    case (Some s')
    then obtain t' where t': "g a t = Some t'" "R (Suc a) s' t'"
      using step by (auto simp: option_rel_Some1)
    have "rel_option (R b) (for_each f [Suc a..<b] s') (for_each g [Suc a..<b] t')"
      using Suc.hyps(1) [of "Suc a" s' t'] Suc.hyps(2) Suc.prems(1) t'(2) ab by simp
    then show ?thesis using Some t'(1) ab by (simp add: upt_conv_Cons)
  qed
qed simp

lemma bind_Some_map: "Option.bind m (\<lambda>x. Some (f x)) = map_option f m"
  by (cases m) auto

text \<open>The shape of a single lane: four segments of at least two blocks, positions well below
  \<open>2 ^ 32\<close>.\<close>

locale one_lane =
  fixes segment_length :: nat
  assumes seg_two: "2 \<le> segment_length" and seg_bound: "segment_length < 2 ^ 24"
begin

abbreviation lane_length :: nat where
  "lane_length \<equiv> segment_length * ARGON2_SYNC_POINTS"

lemma lane: "lane_length = 4 * segment_length"
  by (simp add: ARGON2_SYNC_POINTS_def)

lemma seg_pos [simp]: "segment_length \<noteq> 0" "0 < segment_length" "0 < ARGON2_SYNC_POINTS"
  using seg_two by (auto simp: ARGON2_SYNC_POINTS_def)

text \<open>Where block \<open>i\<close> of segment \<open>k\<close> may look: inside the lane, not at itself or at the block
  before it, and in the first pass at blocks already written.\<close>

definition window :: "nat \<Rightarrow> nat \<Rightarrow> nat \<Rightarrow> bool" where
  "window pass pos r \<longleftrightarrow>
     r < lane_length \<and> r \<noteq> pos \<and> (r + 1) mod lane_length \<noteq> pos \<and> (pass = 0 \<longrightarrow> r + 1 < pos)"

definition start_ok :: "nat \<Rightarrow> nat \<Rightarrow> nat \<Rightarrow> bool" where
  "start_ok pass k i \<longleftrightarrow> k < 4 \<and> i < segment_length \<and> (pass = 0 \<and> k = 0 \<longrightarrow> 2 \<le> i)"

definition area :: "nat \<Rightarrow> nat \<Rightarrow> nat \<Rightarrow> nat" where
  "area pass k i = (if pass = 0 then k * segment_length + i - 1 else 3 * segment_length + i - 1)"

lemma slice_cases: "k < 4 \<Longrightarrow> k \<in> {0, 1, 2, 3 :: nat}"
  by auto

lemma area_range:
  assumes "start_ok pass k i"
  shows "1 \<le> area pass k i" "area pass k i < 2 ^ 27"
  using assms slice_cases [of k] seg_two seg_bound
  by (auto simp: start_ok_def area_def)

lemma reference_area:
  assumes "start_ok pass k i"
  shows "reference_area_size pass k i True lane_length segment_length = Some (area pass k i)"
  using assms slice_cases [of k] seg_two seg_bound
  by (auto simp: start_ok_def area_def reference_area_size_def lane)

lemma index_alpha_window:
  assumes "start_ok pass k i" "pr < 2 ^ 32"
  shows "returns (window pass (k * segment_length + i))
     (index_alpha pass k i pr True lane_length segment_length)"
proof -
  define p where "p = relative_position (area pass k i) pr"
  have p: "p < area pass k i"
    using area_range [OF assms(1)] assms(2) relative_position_less [of "area pass k i" pr]
    by (simp add: p_def)
  define start where "start = (if pass \<noteq> 0 \<and> k \<noteq> 3 then (k + 1) * segment_length else 0)"
  have k: "k \<in> {0, 1, 2, 3}" and i: "i < segment_length"
    using assms(1) slice_cases by (auto simp: start_ok_def)
  have st: "start_position pass k segment_length = Some start"
    using k seg_bound by (auto simp: start_position_def start_def ARGON2_SYNC_POINTS_def)
  have sum: "start + p < 2 * lane_length" "start + p < 2 ^ 32"
    using k p area_range [OF assms(1)] seg_bound i
    by (auto simp: start_def area_def lane split: if_splits)
  have "window pass (k * segment_length + i) ((start + p) mod lane_length)"
  proof (cases "start + p < lane_length")
    case True
    then show ?thesis
      using k i p seg_two assms(1)
      by (auto simp: window_def start_ok_def start_def area_def lane mod_Suc split: if_splits)
  next
    case False
    then have "(start + p) mod lane_length = start + p - lane_length"
      using sum by (simp add: le_mod_geq)
    then show ?thesis
      using False sum k i p seg_two
      by (auto simp: window_def start_def area_def lane mod_Suc split: if_splits)
  qed
  moreover have "index_alpha pass k i pr True lane_length segment_length = Some ((start + p) mod lane_length)"
  proof -
    have "0 < lane_length" using seg_two by (simp add: lane)
    then show ?thesis
      using sum(2) by (simp add: index_alpha_def reference_area [OF assms(1)] st flip: p_def)
  qed
  ultimately show ?thesis by simp
qed


text \<open>The state of the loop of a segment, and one iteration in closed form.\<close>

definition mem_ok :: "block list \<Rightarrow> bool" where
  "mem_ok mem \<longleftrightarrow> length mem = lane_length \<and> (\<forall>b \<in> set mem. block_ok b)"

definition prev_pos :: "nat \<Rightarrow> nat" where
  "prev_pos pos = (if pos = 0 then lane_length - 1 else pos - 1)"

definition seg_inv :: "nat \<Rightarrow> nat \<Rightarrow> seg_state \<Rightarrow> bool" where
  "seg_inv k i s \<longleftrightarrow>
     mem_ok (seg_memory s) \<and> seg_curr s = k * segment_length + i \<and>
     (seg_curr s \<noteq> 1 \<longrightarrow> seg_prev s = prev_pos (seg_curr s))"

definition ref_pos :: "nat \<Rightarrow> nat \<Rightarrow> nat \<Rightarrow> block \<Rightarrow> nat" where
  "ref_pos pass k i b =
     the (index_alpha pass k i (unat (ucast (b ! 0 AND 0xFFFFFFFF) :: u32)) True lane_length segment_length)"

lemma ref_pos_window:
  assumes "start_ok pass k i"
  shows "index_alpha pass k i (unat (ucast (b ! 0 AND 0xFFFFFFFF) :: u32)) True lane_length segment_length
      = Some (ref_pos pass k i b)"
    and "window pass (k * segment_length + i) (ref_pos pass k i b)"
  using index_alpha_window [OF assms, of "unat (ucast (b ! 0 AND 0xFFFFFFFF) :: u32)"]
    unat_lt [of "ucast (b ! 0 AND 0xFFFFFFFF) :: u32"]
  by (auto simp: ref_pos_def returns_iff)

lemma pos_less: "start_ok pass k i \<Longrightarrow> k * segment_length + i < lane_length"
  using slice_cases [of k] by (auto simp: start_ok_def lane)

lemma mem_ok_nth: "mem_ok mem \<Longrightarrow> i < lane_length \<Longrightarrow> block_ok (mem ! i)"
  by (simp add: mem_ok_def)

lemma mem_ok_update: "mem_ok mem \<Longrightarrow> block_ok b \<Longrightarrow> mem_ok (mem[i := b])"
  by (auto simp: mem_ok_def dest: set_update_subset_insert [THEN subsetD])

lemma segment_step_eq:
  assumes st: "start_ok pass k i" and inv: "seg_inv k i s"
  defines "pos \<equiv> k * segment_length + i"
  defines "prev \<equiv> seg_memory s ! prev_pos pos"
  shows "segment_step pass 0 k 1 lane_length segment_length i s =
     Some \<lparr>seg_memory = (seg_memory s)[pos :=
         fill_block prev (seg_memory s ! ref_pos pass k i prev) (seg_memory s ! pos) (0 < pass)],
       seg_curr = pos + 1, seg_prev = prev_pos pos + 1\<rparr>"
proof -
  have pos: "pos < lane_length" using pos_less [OF st] by (simp add: pos_def)
  have L: "8 \<le> lane_length" "lane_length < 2 ^ 26"
    using seg_two seg_bound by (simp_all add: lane)
  have pp: "prev_pos pos < lane_length" using pos by (auto simp: prev_pos_def)
  have mem: "mem_ok (seg_memory s)" "length (seg_memory s) = lane_length" "seg_curr s = pos"
    using inv by (simp_all add: seg_inv_def mem_ok_def pos_def)
  have p: "(if pos = 1 then u32_sub pos 1 else Some (seg_prev s)) = Some (prev_pos pos)"
    using inv by (auto simp: seg_inv_def pos_def prev_pos_def)
  have b: "block_ok prev" using mem_ok_nth [OF mem(1) pp] by (simp add: prev_def)
  note ref = ref_pos_window [OF st, of prev]
  have r: "ref_pos pass k i prev < lane_length" using ref(2) by (simp add: window_def)
  have "pos + 1 < 2 ^ 32" "prev_pos pos + 1 < 2 ^ 32" "ref_pos pass k i prev < 2 ^ 32"
    using pos pp r L by simp_all
  moreover have "u32_rem pos lane_length = Some pos" using pos L by (auto simp: u32_rem_def)
  moreover have "u32_rem x 1 = Some 0" for x by (simp add: u32_rem_def)
  ultimately show ?thesis
    unfolding segment_step_def Let_def mem(3)
    using pos pp r b mem p ref(1)
    by (simp add: block_ok_def flip: prev_def)
qed

lemma segment_step_ok:
  assumes st: "start_ok pass k i" and inv: "seg_inv k i s"
  shows "returns (seg_inv k (Suc i)) (segment_step pass 0 k 1 lane_length segment_length i s)"
proof -
  let ?pos = "k * segment_length + i"
  have mem: "mem_ok (seg_memory s)" using inv by (simp add: seg_inv_def)
  have pos: "?pos < lane_length" "prev_pos ?pos < lane_length"
    using pos_less [OF st] by (auto simp: prev_pos_def)
  have r: "ref_pos pass k i b < lane_length" for b
    using ref_pos_window(2) [OF st, of b] by (simp add: window_def)
  let ?b = "fill_block (seg_memory s ! prev_pos ?pos)
      (seg_memory s ! ref_pos pass k i (seg_memory s ! prev_pos ?pos)) (seg_memory s ! ?pos) (0 < pass)"
  have "block_ok ?b"
    by (intro fill_block_ok mem_ok_nth [OF mem] r pos)
  with mem have "mem_ok ((seg_memory s)[?pos := ?b])" by (rule mem_ok_update)
  then show ?thesis
    unfolding segment_step_eq [OF assms] returns.simps seg_inv_def
    by (auto simp: prev_pos_def)
qed

lemma segment_start:
  fixes pass k :: nat
  assumes "k < 4" "mem_ok mem"
  defines "i \<equiv> if pass = 0 \<and> k = 0 then 2 else 0"
  shows "fill_segment pass 0 k 1 lane_length segment_length mem =
     map_option seg_memory (for_each (segment_step pass 0 k 1 lane_length segment_length) [i..<segment_length]
       \<lparr>seg_memory = mem, seg_curr = k * segment_length + i, seg_prev = prev_pos (k * segment_length + i)\<rparr>)"
    and "seg_inv k i \<lparr>seg_memory = mem, seg_curr = k * segment_length + i,
      seg_prev = prev_pos (k * segment_length + i)\<rparr>"
proof -
  have "k * segment_length + i < lane_length" "k * segment_length + i + lane_length < 2 ^ 32"
    using slice_cases [OF assms(1)] seg_two seg_bound by (auto simp: i_def lane)
  moreover have "u32_sub (k * segment_length + j) 1 = Some (k * segment_length + j - 1)"
    if "k \<noteq> 0 \<or> j \<noteq> 0" for j
    using that by (intro u32_sub_Some) (auto simp: Suc_le_eq)
  moreover have "u32_sub lane_length 1 = Some (lane_length - 1)"
    by (intro u32_sub_Some) (simp add: Suc_le_eq)
  ultimately show "fill_segment pass 0 k 1 lane_length segment_length mem =
     map_option seg_memory (for_each (segment_step pass 0 k 1 lane_length segment_length) [i..<segment_length]
       \<lparr>seg_memory = mem, seg_curr = k * segment_length + i, seg_prev = prev_pos (k * segment_length + i)\<rparr>)"
    by (simp add: fill_segment_def Let_def prev_pos_def bind_Some_map flip: i_def)
  show "seg_inv k i \<lparr>seg_memory = mem, seg_curr = k * segment_length + i,
      seg_prev = prev_pos (k * segment_length + i)\<rparr>"
    using assms(2) by (simp add: seg_inv_def)
qed

lemma fill_segment_ok:
  assumes "k < 4" "mem_ok mem"
  shows "returns mem_ok (fill_segment pass 0 k 1 lane_length segment_length mem)"
proof -
  let ?i = "if pass = 0 \<and> k = 0 then 2 else 0"
  have "returns (seg_inv k segment_length)
     (for_each (segment_step pass 0 k 1 lane_length segment_length) [?i..<segment_length]
       \<lparr>seg_memory = mem, seg_curr = k * segment_length + ?i, seg_prev = prev_pos (k * segment_length + ?i)\<rparr>)"
  proof (rule returns_for_upt [where I = "seg_inv k"])
    fix i s
    assume "?i \<le> i" "i < segment_length" "seg_inv k i s"
    then show "returns (seg_inv k (Suc i)) (segment_step pass 0 k 1 lane_length segment_length i s)"
      by (intro segment_step_ok) (use assms(1) in \<open>auto simp: start_ok_def\<close>)
  qed (use segment_start(2) [OF assms, of pass] seg_two in auto)
  then obtain s where "for_each (segment_step pass 0 k 1 lane_length segment_length) [?i..<segment_length]
       \<lparr>seg_memory = mem, seg_curr = k * segment_length + ?i, seg_prev = prev_pos (k * segment_length + ?i)\<rparr>
       = Some s" "mem_ok (seg_memory s)"
    unfolding returns_iff seg_inv_def by blast
  then show ?thesis unfolding segment_start(1) [OF assms] by simp
qed

lemma fill_memory_ok:
  assumes "mem_ok mem"
  shows "returns mem_ok (fill_memory 1 lane_length segment_length mem)"
  unfolding fill_memory_def
proof (intro returns_for_each assms)
  fix pass k lane mem
  assume "k \<in> set [0..<ARGON2_SYNC_POINTS]" "lane \<in> set [0..<1 :: nat]" "mem_ok mem"
  then have "k < 4" "lane = 0" by (auto simp: ARGON2_SYNC_POINTS_def)
  then show "returns mem_ok (fill_segment pass lane k 1 lane_length segment_length mem)"
    using fill_segment_ok \<open>mem_ok mem\<close> by simp
qed


text \<open>In the first pass a segment depends only on the blocks before it.\<close>

definition agree :: "nat \<Rightarrow> block list \<Rightarrow> block list \<Rightarrow> bool" where
  "agree n mem mem' \<longleftrightarrow> mem_ok mem \<and> mem_ok mem' \<and> take n mem = take n mem'"

definition seg_agree :: "nat \<Rightarrow> nat \<Rightarrow> seg_state \<Rightarrow> seg_state \<Rightarrow> bool" where
  "seg_agree k i s t \<longleftrightarrow> seg_inv k i s \<and> seg_inv k i t \<and>
     take (k * segment_length + i) (seg_memory s) = take (k * segment_length + i) (seg_memory t)"

lemma prev_pos_less: "0 < p \<Longrightarrow> prev_pos p < p"
  by (simp add: prev_pos_def)

lemma segment_step_agree:
  assumes st: "start_ok 0 k i" and s: "seg_agree k i s t"
  shows "rel_option (seg_agree k (Suc i)) (segment_step 0 0 k 1 lane_length segment_length i s)
     (segment_step 0 0 k 1 lane_length segment_length i t)"
proof -
  let ?pos = "k * segment_length + i"
  let ?step = "segment_step 0 0 k 1 lane_length segment_length i"
  have inv: "seg_inv k i s" "seg_inv k i t" using s by (simp_all add: seg_agree_def)
  have "2 \<le> ?pos"
    using st seg_two by (cases k) (auto simp: start_ok_def)
  then have prev: "prev_pos ?pos < ?pos" by (intro prev_pos_less) linarith
  have ref: "ref_pos 0 k i b < ?pos" for b
    using ref_pos_window(2) [OF st, of b] by (simp add: window_def)
  have same: "seg_memory s ! j = seg_memory t ! j" if "j < ?pos" for j
    using s that by (metis nth_take seg_agree_def)
  have len: "length (seg_memory s) = lane_length" "length (seg_memory t) = lane_length"
    using inv by (simp_all add: seg_inv_def mem_ok_def)
  obtain s' t' where st': "?step s = Some s'" "?step t = Some t'" "seg_inv k (Suc i) s'" "seg_inv k (Suc i) t'"
    using segment_step_ok [OF st inv(1)] segment_step_ok [OF st inv(2)] by (auto simp: returns_iff)
  have pos: "?pos < lane_length" by (rule pos_less [OF st])
  have "take (Suc ?pos) (seg_memory s') = take (Suc ?pos) (seg_memory t')"
    using st'(1,2) s pos len same [OF prev] same [OF ref]
    unfolding segment_step_eq [OF st inv(1)] segment_step_eq [OF st inv(2)]
    by (auto simp: take_Suc_conv_app_nth seg_agree_def intro: fill_block_fresh)
  then show ?thesis using st' by (simp add: seg_agree_def)
qed

lemma fill_segment_agree:
  assumes k: "k < 4" and a: "agree (if k = 0 then 2 else k * segment_length) mem mem'"
  shows "rel_option (agree (Suc k * segment_length))
     (fill_segment 0 0 k 1 lane_length segment_length mem)
     (fill_segment 0 0 k 1 lane_length segment_length mem')"
proof -
  have ok: "mem_ok mem" "mem_ok mem'" using a by (simp_all add: agree_def)
  let ?i = "if (0 :: nat) = 0 \<and> k = 0 then 2 else 0"
  let ?s = "\<lambda>mem. \<lparr>seg_memory = mem, seg_curr = k * segment_length + ?i, seg_prev = prev_pos (k * segment_length + ?i)\<rparr>"
  let ?run = "\<lambda>mem. for_each (segment_step 0 0 k 1 lane_length segment_length) [?i..<segment_length] (?s mem)"
  have "rel_option (seg_agree k segment_length) (?run mem) (?run mem')"
  proof (rule for_upt_rel [where R = "seg_agree k"])
    fix i s t
    assume "?i \<le> i" "i < segment_length" "seg_agree k i s t"
    then show "rel_option (seg_agree k (Suc i)) (segment_step 0 0 k 1 lane_length segment_length i s)
       (segment_step 0 0 k 1 lane_length segment_length i t)"
      by (intro segment_step_agree) (use k in \<open>auto simp: start_ok_def\<close>)
  next
    show "seg_agree k ?i (?s mem) (?s mem')"
      using segment_start(2) [OF k ok(1), of 0] segment_start(2) [OF k ok(2), of 0] a
      by (cases "k = 0") (simp_all add: seg_agree_def agree_def numeral_2_eq_2)
  qed (use seg_two in simp)
  then have "rel_option (agree (Suc k * segment_length)) (map_option seg_memory (?run mem))
      (map_option seg_memory (?run mem'))"
    unfolding option.rel_map
    by (rule option.rel_mono_strong) (auto simp: seg_agree_def agree_def seg_inv_def add.commute)
  then show ?thesis
    by (simp only: segment_start(1) [OF k ok(1)] segment_start(1) [OF k ok(2)])
qed

lemma for_one: "for_each f [0..<1] s = f 0 s"
  by (cases "f 0 s") simp_all

text \<open>So the memory after the first pass is a function of its first two blocks.\<close>

lemma fill_memory_agree:
  assumes "agree 2 mem mem'"
  shows "fill_memory 1 lane_length segment_length mem = fill_memory 1 lane_length segment_length mem'"
proof -
  let ?seg = "\<lambda>pass k. fill_segment pass 0 k 1 lane_length segment_length"
  have "rel_option (\<lambda>m m'. agree (if 4 = (0 :: nat) then 2 else 4 * segment_length) m m')
     (for_each (?seg 0) [0..<4] mem) (for_each (?seg 0) [0..<4] mem')"
  proof (rule for_upt_rel [where R = "\<lambda>k. agree (if k = 0 then 2 else k * segment_length)"])
    fix k m m'
    assume "k < 4" "agree (if k = 0 then 2 else k * segment_length) m m'"
    then show "rel_option (agree (if Suc k = 0 then 2 else Suc k * segment_length)) (?seg 0 k m) (?seg 0 k m')"
      using fill_segment_agree by simp
  qed (use assms in simp_all)
  then have "for_each (?seg 0) [0..<4] mem = for_each (?seg 0) [0..<4] mem'"
    by (cases "for_each (?seg 0) [0..<4] mem"; cases "for_each (?seg 0) [0..<4] mem'")
      (auto simp: agree_def mem_ok_def lane)
  moreover have "[0..<RANDOMX_ARGON_ITERATIONS] = 0 # [1, 2]"
    by (simp add: RANDOMX_ARGON_ITERATIONS_def upt_rec)
  ultimately show ?thesis
    unfolding fill_memory_def for_one by (simp add: ARGON2_SYNC_POINTS_def)
qed

end

section \<open>The RandomX cache\<close>

interpretation randomx_lane: one_lane 65536
  by unfold_locales auto

definition CACHE_BYTES :: nat where "CACHE_BYTES = 268435456"

lemma initial_hash_ok: "returns (\<lambda>h. length h = 64) (initial_hash key)"
proof -
  have "1 \<le> (64 :: nat)" "(64 :: nat) \<le> 64" by simp_all
  from blake2b_Some [OF this] show ?thesis
    unfolding initial_hash_def Let_def ARGON2_PREHASH_DIGEST_LENGTH_def returns_iff by blast
qed

lemma first_block_ok: "returns block_ok (first_block h n l)"
  unfolding first_block_def
  by (rule returns_bind [OF blake2b_long_length]) (auto intro: load_from_bytes_ok simp: argon2_params)

lemma fill_first_blocks_ok:
  "randomx_lane.mem_ok mem \<Longrightarrow> returns randomx_lane.mem_ok (fill_first_blocks h 1 262144 mem)"
proof -
  assume mem: "randomx_lane.mem_ok mem"
  show ?thesis
    unfolding fill_first_blocks_def
  proof (intro returns_for_each mem)
    fix l m
    assume l: "l \<in> set [0..<1 :: nat]" and m: "randomx_lane.mem_ok m"
    have len: "length m = 262144" using m by (simp add: randomx_lane.mem_ok_def ARGON2_SYNC_POINTS_def)
    show "returns randomx_lane.mem_ok (Option.bind (first_block h 0 l) (\<lambda>b.
        Option.bind (u32_mul l 262144) (\<lambda>o0. Option.bind (put_index m o0 b) (\<lambda>m.
        Option.bind (first_block h 1 l) (\<lambda>b. Option.bind (u32_add o0 1) (\<lambda>o1. put_index m o1 b))))))"
      by (rule returns_bind [OF first_block_ok])
        (use l m len in \<open>auto intro!: returns_bind [OF first_block_ok] randomx_lane.mem_ok_update\<close>)
  qed
qed

lemma concat_store_length:
  "\<forall>b \<in> set mem. block_ok b \<Longrightarrow> length (concat (map store_to_bytes mem)) = 1024 * length mem"
  by (induction mem) (auto simp: length_store_to_bytes block_ok_def)

lemma argon2d_cache_ok: "returns (\<lambda>c. length c = CACHE_BYTES) (argon2d_cache key)"
proof -
  have geo: "262144 div ARGON2_SYNC_POINTS = (65536 :: nat)"
    "65536 * ARGON2_SYNC_POINTS = (262144 :: nat)"
    by (simp_all add: ARGON2_SYNC_POINTS_def)
  have new: "randomx_lane.mem_ok (replicate 262144 block_new)"
    by (auto simp: randomx_lane.mem_ok_def geo)
  show ?thesis
    unfolding argon2d_cache_def Let_def RANDOMX_ARGON_MEMORY_def RANDOMX_ARGON_LANES_def mult_1 geo
  proof (rule returns_bind [OF initial_hash_ok], rule returns_bind [OF fill_first_blocks_ok [OF new]])
    fix mem assume "randomx_lane.mem_ok mem"
    from randomx_lane.fill_memory_ok [OF this]
    show "returns (\<lambda>c. length c = CACHE_BYTES)
       (Option.bind (fill_memory 1 262144 65536 mem) (\<lambda>mem. Some (concat (map store_to_bytes mem))))"
      unfolding geo
      by (rule returns_bind)
        (simp add: concat_store_length randomx_lane.mem_ok_def geo CACHE_BYTES_def)
  qed
qed

end
