(* ===== verification/Dataset.thy ===== *)
theory Dataset
  imports Argon2d_Props Superscalar_Exec
begin

text \<open>
  \<open>src/randomx/dataset.rs\<close>: the dataset items, computed on the fly from the cache (light
  mode) or looked up in the generated dataset (full mode). A panic is \<open>None\<close>. The locale
  \<open>item_source\<close> is what the VM relies on: every item number below the item count has eight
  words. It is interpreted on both modes.
\<close>

section \<open>Light mode\<close>

definition CACHE_SIZE :: nat where "CACHE_SIZE = 262144 * 1024"
definition CACHE_LINE_MASK :: u64 where "CACHE_LINE_MASK = of_nat (CACHE_SIZE div 64 - 1)"
definition CACHE_ACCESSES :: nat where "CACHE_ACCESSES = 8"
definition SUPERSCALAR_MUL0 :: u64 where "SUPERSCALAR_MUL0 = 6364136223846793005"
definition SUPERSCALAR_ADD :: "u64 list" where
  "SUPERSCALAR_ADD = [9298411001130361340, 12065312585734608966, 9306329213124626780,
     5281919268842080866, 10536153434571861004, 3398623926847679864, 9549104520008361294]"

definition DATASET_BASE_SIZE :: nat where "DATASET_BASE_SIZE = 2147483648"
definition DATASET_EXTRA_SIZE :: nat where "DATASET_EXTRA_SIZE = 33554432"
definition DATASET_ITEM_COUNT :: nat where
  "DATASET_ITEM_COUNT = (DATASET_BASE_SIZE + DATASET_EXTRA_SIZE) div 64"

lemma DATASET_ITEM_COUNT_value: "DATASET_ITEM_COUNT = 34078720"
  by (simp add: DATASET_ITEM_COUNT_def DATASET_BASE_SIZE_def DATASET_EXTRA_SIZE_def)

text \<open>Native byte order: both targets are little-endian.\<close>

definition load64_native :: "bytes \<Rightarrow> nat \<Rightarrow> u64 option" where
  "load64_native memory offset =
     (if offset + 8 \<le> length memory then Some (from_le (slice offset 8 memory)) else None)"

definition get_mix_block_offset :: "u64 \<Rightarrow> nat" where
  "get_mix_block_offset register_value = unat (register_value AND CACHE_LINE_MASK) * 64"

text \<open>One of the eight rounds, on the registers and the current \<open>register_value\<close>.\<close>

definition dataset_round ::
  "bytes \<Rightarrow> ss_program list \<Rightarrow> nat \<Rightarrow> u64 list \<times> u64 \<Rightarrow> (u64 list \<times> u64) option" where
  "dataset_round cache_memory programs i = (\<lambda>(rl, register_value). do {
     let mix_offset = get_mix_block_offset register_value;
     program \<leftarrow> at_index programs i;
     rl \<leftarrow> execute_superscalar rl program;
     rl \<leftarrow> for_each (\<lambda>q rl. do {
         w \<leftarrow> load64_native cache_memory (mix_offset + 8 * q);
         x \<leftarrow> at_index rl q;
         put_index rl q (x XOR w)
       }) [0..<8] rl;
     v \<leftarrow> at_index rl (ssp_address_register program);
     Some (rl, v)
   })"

definition item_start :: "u64 \<Rightarrow> u64 list" where
  "item_start item_number =
     (let r0 = (item_number + 1) * SUPERSCALAR_MUL0
      in r0 # map (\<lambda>c. r0 XOR c) SUPERSCALAR_ADD)"

definition init_dataset_item :: "bytes \<Rightarrow> ss_program list \<Rightarrow> u64 \<Rightarrow> u64 list option" where
  "init_dataset_item cache_memory programs item_number =
     map_option fst (for_each (dataset_round cache_memory programs) [0..<CACHE_ACCESSES]
       (item_start item_number, item_number))"

section \<open>Full mode\<close>

text \<open>\<open>chunks_mut(chunk_size)\<close> with \<open>enumerate\<close> hands each thread one chunk and its index; the
  threads write disjoint chunks, so the joined result is the chunks in order. A thread that
  panics makes \<open>scope\<close> panic.\<close>

function chunks :: "nat \<Rightarrow> 'a list \<Rightarrow> 'a list list" where
  "chunks n xs = (if xs = [] \<or> n = 0 then [] else take n xs # chunks n (drop n xs))"
  by pat_completeness auto
termination by (relation "measure (\<lambda>(n, xs). length xs)") auto

declare chunks.simps [simp del]

definition thread_fill :: "bytes \<Rightarrow> ss_program list \<Rightarrow> nat \<Rightarrow> nat \<Rightarrow> nat \<Rightarrow> u64 list list option" where
  "thread_fill cache_memory programs chunk_size thread_idx chunk_len =
     (let start_item = thread_idx * chunk_size
      in map_all (\<lambda>i. init_dataset_item cache_memory programs (of_nat (start_item + i))) [0..<chunk_len])"

definition div_ceil :: "nat \<Rightarrow> nat \<Rightarrow> nat" where
  "div_ceil a b = (if a mod b = 0 then a div b else a div b + 1)"

definition dataset_generate ::
  "nat \<Rightarrow> bytes \<Rightarrow> ss_program list \<Rightarrow> nat \<Rightarrow> u64 list list option" where
  "dataset_generate item_count cache_memory programs num_threads =
     (if cache_memory = [] then None
      else let items = replicate item_count (replicate 8 (0 :: u64));
               num_threads = max num_threads 1;
               chunk_size = div_ceil item_count num_threads;
               lens = map length (chunks chunk_size items)
           in map_option concat
                (map_all (\<lambda>(thread_idx, len). thread_fill cache_memory programs chunk_size thread_idx len)
                  (enumerate 0 lens)))"

definition generate :: "bytes \<Rightarrow> ss_program list \<Rightarrow> nat \<Rightarrow> u64 list list option" where
  "generate = dataset_generate DATASET_ITEM_COUNT"

definition get_item :: "u64 list list \<Rightarrow> u64 \<Rightarrow> u64 list option" where
  "get_item items item_number = at_index items (unat item_number)"

section \<open>Items in bounds\<close>

definition programs_ok :: "ss_program list \<Rightarrow> bool" where
  "programs_ok ps \<longleftrightarrow> length ps = 8 \<and> (\<forall>p \<in> set ps. ssp_ok p)"

definition cache_ok :: "bytes \<Rightarrow> bool" where
  "cache_ok cache \<longleftrightarrow> length cache = CACHE_SIZE"

lemma mix_offset_bound: "get_mix_block_offset v + 64 \<le> CACHE_SIZE"
proof -
  have "unat (v AND CACHE_LINE_MASK) \<le> unat CACHE_LINE_MASK" by (rule unat_and_le)
  also have "\<dots> = 4194303" by (simp add: CACHE_LINE_MASK_def CACHE_SIZE_def)
  finally show ?thesis by (simp add: get_mix_block_offset_def CACHE_SIZE_def)
qed

lemma mix_loop_ok:
  assumes "cache_ok cache" "length rl = 8"
  shows "returns (\<lambda>rl. length rl = 8) (for_each (\<lambda>q rl. do {
         w \<leftarrow> load64_native cache (get_mix_block_offset v + 8 * q);
         x \<leftarrow> at_index rl q;
         put_index rl q (x XOR w)
       }) [0..<8] rl)"
proof (intro returns_for_each assms(2))
  fix q and rl :: "u64 list"
  assume "q \<in> set [0..<8]" "length rl = 8"
  then show "returns (\<lambda>rl. length rl = 8) (do {
         w \<leftarrow> load64_native cache (get_mix_block_offset v + 8 * q);
         x \<leftarrow> at_index rl q;
         put_index rl q (x XOR w) })"
    using mix_offset_bound [of v] assms(1) by (simp add: load64_native_def cache_ok_def)
qed

lemma dataset_round_ok:
  assumes "cache_ok cache" "programs_ok programs" "i < 8" "length rl = 8"
  shows "returns (\<lambda>(rl, v). length rl = 8) (dataset_round cache programs i (rl, v))"
proof -
  have p: "ssp_ok (programs ! i)" "ssp_address_register (programs ! i) < 8" "at_index programs i = Some (programs ! i)"
    using assms(2,3) by (auto simp: programs_ok_def ssp_ok_def)
  have ex: "returns (\<lambda>rl. length rl = 8) (execute_superscalar rl (programs ! i))"
    using execute_superscalar_ok [OF p(1) assms(4)] by (auto simp: returns_iff)
  show ?thesis
    unfolding dataset_round_def Let_def prod.case p(3) bind.simps
    by (rule returns_bind [OF ex], rule returns_bind [OF mix_loop_ok [OF assms(1)]]) (use p(2) in auto)
qed

lemma init_dataset_item_ok:
  assumes "cache_ok cache" "programs_ok programs"
  shows "returns (\<lambda>rl. length rl = 8) (init_dataset_item cache programs n)"
proof -
  have "returns (\<lambda>(rl, v). length rl = 8) (for_each (dataset_round cache programs) [0..<CACHE_ACCESSES]
       (item_start n, n))"
  proof (rule returns_for_each)
    show "case (item_start n, n) of (rl, v) \<Rightarrow> length rl = 8"
      by (simp add: item_start_def SUPERSCALAR_ADD_def Let_def)
  qed (use dataset_round_ok [OF assms] in \<open>auto simp: CACHE_ACCESSES_def\<close>)
  then show ?thesis by (auto simp: init_dataset_item_def returns_iff)
qed

section \<open>Generation in threads is the sequential map\<close>

lemma map_all_comp: "map_all (\<lambda>x. f (g x)) xs = map_all f (map g xs)"
  by (induction xs) auto

lemma shifted_piece: "map_all (\<lambda>i. f (b + i)) [0..<len] = map_all f [b..<b + len]"
proof -
  have "map (\<lambda>i. b + i) [0..<len] = [b..<b + len]"
    using map_add_upt [of b len] by (simp add: add.commute)
  then show ?thesis by (simp only: map_all_comp [where g = "\<lambda>i. b + i" and f = f])
qed

lemma map_option_concat_Cons:
  "map_option concat (Option.bind x (\<lambda>y. map_option ((#) y) z)) =
     Option.bind x (\<lambda>y. map_option ((@) y) (map_option concat z))"
  by (cases x; cases z) auto

lemma chunk_pieces:
  assumes "0 < n"
  shows "map_option concat (map_all (\<lambda>(t, len). map_all (\<lambda>i. f (t * n + i)) [0..<len])
       (enumerate t0 (map length (chunks n xs)))) = map_all f [t0 * n..<t0 * n + length xs]"
  using assms
proof (induction n xs arbitrary: t0 rule: chunks.induct)
  case (1 n xs)
  show ?case
  proof (cases "xs = [] \<or> n = 0")
    case True
    then show ?thesis using 1(2) by (subst chunks.simps) simp
  next
    case False
    have "map_option concat (map_all (\<lambda>(t, len). map_all (\<lambda>i. f (t * n + i)) [0..<len])
        (enumerate (Suc t0) (map length (chunks n (drop n xs))))) =
      map_all f [Suc t0 * n..<Suc t0 * n + length (drop n xs)]"
      by (rule 1) (use False 1(2) in simp_all)
    moreover have "[t0 * n..<t0 * n + length xs] =
        [t0 * n..<t0 * n + min n (length xs)] @ [Suc t0 * n..<Suc t0 * n + length (drop n xs)]"
    proof (cases "n \<le> length xs")
      case True
      then have "length xs = n + (length xs - n)" by simp
      then show ?thesis
        using upt_add_eq_append [of "t0 * n" "t0 * n + n" "length xs - n"]
        by (simp add: add.commute add.left_commute min_absorb1)
    qed simp
    ultimately show ?thesis
      using False by (subst chunks.simps)
        (simp add: map_option_concat_Cons shifted_piece map_all_append min.commute)
  qed
qed

lemma div_ceil_pos: "0 < a \<Longrightarrow> 0 < b \<Longrightarrow> 0 < div_ceil a b"
  by (auto simp: div_ceil_def div_greater_zero_iff dvd_imp_le)

text \<open>Whatever the number of threads, every item is its own \<open>init_dataset_item\<close>.\<close>

lemma dataset_generate_sequential:
  assumes "cache_memory \<noteq> []" "0 < item_count"
  shows "dataset_generate item_count cache_memory programs num_threads =
    map_all (\<lambda>i. init_dataset_item cache_memory programs (of_nat i)) [0..<item_count]"
proof -
  let ?n = "div_ceil item_count (max num_threads 1)"
  have "0 < ?n" using assms(2) by (intro div_ceil_pos) auto
  from chunk_pieces [OF this, of "\<lambda>i. init_dataset_item cache_memory programs (of_nat i)" 0
      "replicate item_count (replicate 8 (0 :: u64))"]
  show ?thesis using assms(1) by (simp add: dataset_generate_def thread_fill_def [abs_def] Let_def)
qed

definition dataset_ok :: "u64 list list \<Rightarrow> bool" where
  "dataset_ok items \<longleftrightarrow> length items = DATASET_ITEM_COUNT \<and> (\<forall>l \<in> set items. length l = 8)"

lemma generate_ok:
  assumes "cache_ok cache" "programs_ok programs"
  shows "returns (\<lambda>items. dataset_ok items \<and>
      (\<forall>n. unat n < DATASET_ITEM_COUNT \<longrightarrow> get_item items n = init_dataset_item cache programs n))
    (generate cache programs num_threads)"
proof -
  have item: "init_dataset_item cache programs n \<noteq> None" for n
    using init_dataset_item_ok [OF assms, of n] by (auto simp: returns_iff)
  let ?item = "\<lambda>i. the (init_dataset_item cache programs (of_nat i))"
  have "cache \<noteq> []" using assms(1) by (auto simp: cache_ok_def CACHE_SIZE_def)
  then have gen: "generate cache programs num_threads = Some (map ?item [0..<DATASET_ITEM_COUNT])"
    unfolding generate_def
    by (subst dataset_generate_sequential) (simp_all add: DATASET_ITEM_COUNT_value map_all_Some [OF item])
  have len: "length (?item i) = 8" for i
    using init_dataset_item_ok [OF assms, of "of_nat i"] by (auto simp: returns_iff)
  have "get_item (map ?item [0..<DATASET_ITEM_COUNT]) n = init_dataset_item cache programs n"
    if "unat n < DATASET_ITEM_COUNT" for n
    using that item [of n] by (simp add: get_item_def)
  then show ?thesis by (auto simp: gen dataset_ok_def len)
qed

section \<open>What the VM relies on\<close>

locale item_source =
  fixes item :: "'s \<Rightarrow> u64 \<Rightarrow> u64 list option" and source_ok :: "'s \<Rightarrow> bool"
  assumes item_ok: "source_ok s \<Longrightarrow> unat n < DATASET_ITEM_COUNT \<Longrightarrow>
    returns (\<lambda>line. length line = 8) (item s n)"

interpretation light_mode: item_source "\<lambda>(cache, programs). init_dataset_item cache programs"
    "\<lambda>(cache, programs). cache_ok cache \<and> programs_ok programs"
  by unfold_locales (auto intro: init_dataset_item_ok)

interpretation full_mode: item_source get_item dataset_ok
  by unfold_locales (auto simp: get_item_def dataset_ok_def)

end
