(* ===== verification/Vm_Loop.thy ===== *)
theory Vm_Loop
  imports Vm_Run Dataset Aes_Hash_Props
begin

text \<open>
  \<open>src/randomx/vm.rs\<close>, one program: \<open>derive_program_params\<close> and the loop of
  \<open>execute_vm_inner\<close> with the interpreter as the body, for both versions. The state is the \<open>machine\<close> (registers,
  scratchpad, rounding mode) and the four loop-carried words \<open>LoopState\<close>. The prefetches have
  no effect on it. An access out of bounds is \<open>None\<close>; the lemmas of the last section show that
  there is none, for any program bytes, with any source of dataset items.
\<close>

section \<open>Program parameters\<close>

definition entropy :: "bytes \<Rightarrow> nat \<Rightarrow> u64" where
  "entropy program_bytes idx = from_le (slice (ENTROPY_OFFSET + idx * 8) 8 program_bytes)"

definition address_register :: "u64 \<Rightarrow> nat \<Rightarrow> nat" where
  "address_register address_registers k = 2 * k + unat (drop_bit k address_registers AND 1)"

text \<open>\<open>None\<close> is the slice panic on fewer than 128 bytes.\<close>

definition derive_program_params ::
  "bytes \<Rightarrow> (program_configuration \<times> u32 \<times> u32 \<times> u64) option" where
  "derive_program_params program_bytes =
     (if INSTRUCTIONS_OFFSET \<le> length program_bytes
      then let entropy = entropy program_bytes;
               ma = ucast (entropy 8) AND CACHE_LINE_ALIGN_MASK;
               mx = ucast (entropy 10);
               address_registers = entropy 12;
               config = \<lparr>e_mask = (get_float_mask (entropy 14), get_float_mask (entropy 15)),
                         read_reg0 = address_register address_registers 0,
                         read_reg1 = address_register address_registers 1,
                         read_reg2 = address_register address_registers 2,
                         read_reg3 = address_register address_registers 3\<rparr>;
               dataset_offset = (entropy 13 mod (DATASET_EXTRA_ITEMS + 1)) * of_nat CACHE_LINE_SIZE
           in Some (config, ma, mx, dataset_offset)
      else None)"

record loop_state =
  ls_ma :: u32
  ls_mx :: u32
  ls_sp_addr0 :: u32
  ls_sp_addr1 :: u32

section \<open>One iteration\<close>

text \<open>Before the body: the two scratchpad addresses, then the registers.\<close>

definition load_registers ::
  "program_configuration \<Rightarrow> loop_state \<Rightarrow> machine \<Rightarrow> (machine \<times> loop_state) option" where
  "load_registers config ls m = do {
     r0 \<leftarrow> get_r m (read_reg0 config);
     r1 \<leftarrow> get_r m (read_reg1 config);
     let sp_mix = r0 XOR r1;
     let sp_addr0 = (ls_sp_addr0 ls XOR ucast sp_mix) AND SCRATCHPAD_L3_MASK64;
     let sp_addr1 = (ls_sp_addr1 ls XOR ucast (drop_bit 32 sp_mix)) AND SCRATCHPAD_L3_MASK64;
     m \<leftarrow> for_each (\<lambda>i m. do {
         x \<leftarrow> get_r m i;
         w \<leftarrow> load64 (m_sp m) (unat sp_addr0 + 8 * i);
         put_r m i (x XOR w)
       }) [0..<REGISTERS_COUNT] m;
     m \<leftarrow> for_each (\<lambda>i m. do {
         v \<leftarrow> cvt_packed_int_vec_f128 (m_sp m) (unat sp_addr1 + 8 * i);
         put_f m i v
       }) [0..<REGISTER_COUNT_FLT] m;
     m \<leftarrow> for_each (\<lambda>i m. do {
         v \<leftarrow> cvt_packed_int_vec_f128 (m_sp m) (unat sp_addr1 + 8 * (REGISTER_COUNT_FLT + i));
         put_e m i (mask_register_exponent_mantissa config v)
       }) [0..<REGISTER_COUNT_FLT] m;
     Some (m, ls\<lparr>ls_sp_addr0 := sp_addr0, ls_sp_addr1 := sp_addr1\<rparr>)
   }"

text \<open>After the body: the dataset item is read at the old \<open>ma\<close>, and \<open>mx\<close> or \<open>ma\<close> is updated
  before the two are swapped.\<close>

definition mix_dataset ::
  "rx_version \<Rightarrow> (u64 \<Rightarrow> u64 list option) \<Rightarrow> program_configuration \<Rightarrow> u64 \<Rightarrow> loop_state \<Rightarrow> machine
     \<Rightarrow> (machine \<times> loop_state) option" where
  "mix_dataset version item config dataset_offset ls m = do {
     let read_ptr = dataset_offset + (ucast (ls_ma ls) AND ucast CACHE_LINE_ALIGN_MASK);
     r2 \<leftarrow> get_r m (read_reg2 config);
     r3 \<leftarrow> get_r m (read_reg3 config);
     let sp_mix2 = ucast (r2 XOR r3);
     let (mem_mx, mem_ma) = (case version of
         V1 \<Rightarrow> (ls_mx ls XOR sp_mix2, ls_ma ls)
       | V2 \<Rightarrow> (ls_mx ls, ls_ma ls XOR sp_mix2));
     let item_number = read_ptr div of_nat CACHE_LINE_SIZE;
     dataset_line \<leftarrow> item item_number;
     m \<leftarrow> for_each (\<lambda>i m. do {
         x \<leftarrow> get_r m i;
         w \<leftarrow> at_index dataset_line i;
         put_r m i (x XOR w)
       }) [0..<REGISTERS_COUNT] m;
     Some (m, ls\<lparr>ls_ma := mem_mx, ls_mx := mem_ma\<rparr>)
   }"

definition f128_to_bytes :: "f128 \<Rightarrow> bytes" where
  "f128_to_bytes v = le_bytes 8 (fst v) @ le_bytes 8 (snd v)"

definition bytes_to_f128 :: "bytes \<Rightarrow> f128" where
  "bytes_to_f128 b = (from_le (take 8 b), from_le (drop 8 b))"

definition aes_mix_f_e :: "cpu \<Rightarrow> machine \<Rightarrow> machine option" where
  "aes_mix_f_e cpu m = do {
     f0 \<leftarrow> get_f m 0; f1 \<leftarrow> get_f m 1; f2 \<leftarrow> get_f m 2; f3 \<leftarrow> get_f m 3;
     e0 \<leftarrow> get_e m 0; e1 \<leftarrow> get_e m 1; e2 \<leftarrow> get_e m 2; e3 \<leftarrow> get_e m 3;
     let (g0, g1, g2, g3) =
       aes_mix_fe cpu (f128_to_bytes f0, f128_to_bytes f1, f128_to_bytes f2, f128_to_bytes f3)
         [f128_to_bytes e0, f128_to_bytes e1, f128_to_bytes e2, f128_to_bytes e3];
     m \<leftarrow> put_f m 0 (bytes_to_f128 g0);
     m \<leftarrow> put_f m 1 (bytes_to_f128 g1);
     m \<leftarrow> put_f m 2 (bytes_to_f128 g2);
     put_f m 3 (bytes_to_f128 g3)
   }"

definition set_sp :: "machine \<Rightarrow> bytes option \<Rightarrow> machine option" where
  "set_sp m sp = map_option (\<lambda>sp. m\<lparr>m_sp := sp\<rparr>) sp"

definition store_registers ::
  "cpu \<Rightarrow> rx_version \<Rightarrow> loop_state \<Rightarrow> machine \<Rightarrow> (machine \<times> loop_state) option" where
  "store_registers cpu version ls m = do {
     m \<leftarrow> for_each (\<lambda>i m. do {
         v \<leftarrow> get_r m i;
         set_sp m (store64 (m_sp m) (unat (ls_sp_addr1 ls) + 8 * i) v)
       }) [0..<REGISTERS_COUNT] m;
     m \<leftarrow> (case version of
         V1 \<Rightarrow> for_each (\<lambda>i m. do {
             f \<leftarrow> get_f m i;
             e \<leftarrow> get_e m i;
             put_f m i (xor_f128 f e)
           }) [0..<REGISTER_COUNT_FLT] m
       | V2 \<Rightarrow> aes_mix_f_e cpu m);
     m \<leftarrow> for_each (\<lambda>i m. do {
         f \<leftarrow> get_f m i;
         set_sp m (store_f128 (m_sp m) (unat (ls_sp_addr0 ls) + 16 * i) f)
       }) [0..<REGISTER_COUNT_FLT] m;
     Some (m, ls\<lparr>ls_sp_addr0 := 0, ls_sp_addr1 := 0\<rparr>)
   }"

text \<open>\<open>body\<close> is the execution of the bytecode: the interpreter, or the compiled code.\<close>

definition vm_iteration ::
  "cpu \<Rightarrow> rx_version \<Rightarrow> (u64 \<Rightarrow> u64 list option) \<Rightarrow> (machine \<Rightarrow> machine option) \<Rightarrow>
     program_configuration \<Rightarrow> u64 \<Rightarrow> machine \<times> loop_state \<Rightarrow> (machine \<times> loop_state) option" where
  "vm_iteration cpu version item body config dataset_offset = (\<lambda>(m, ls). do {
     (m, ls) \<leftarrow> load_registers config ls m;
     m \<leftarrow> body m;
     (m, ls) \<leftarrow> mix_dataset version item config dataset_offset ls m;
     store_registers cpu version ls m
   })"

section \<open>One program\<close>

definition init_registers :: "bytes \<Rightarrow> machine \<Rightarrow> machine" where
  "init_registers program_bytes m =
     m\<lparr>m_nreg := (m_nreg m)\<lparr>rf_r := replicate REGISTERS_COUNT 0,
        rf_a := map (\<lambda>i. (get_small_positive_float_bits (entropy program_bytes (i * 2)),
                          get_small_positive_float_bits (entropy program_bytes (i * 2 + 1))))
                  [0..<REGISTER_COUNT_FLT]\<rparr>\<rparr>"

text \<open>\<open>execute_vm_inner\<close> where it runs the interpreter; the dispatch to compiled code is in
  \<open>Vm_Execute\<close>.\<close>

definition interpret_vm ::
  "fpu \<Rightarrow> cpu \<Rightarrow> rx_version \<Rightarrow> nat \<Rightarrow> (u64 \<Rightarrow> u64 list option) \<Rightarrow> bytes \<Rightarrow> machine
     \<Rightarrow> (machine \<times> loop_state) option" where
  "interpret_vm fpu cpu version iterations item program_bytes m = do {
     (config, ma, mx, dataset_offset) \<leftarrow> derive_program_params program_bytes;
     let m = init_registers program_bytes m;
     (bytecode, usage) \<leftarrow> compile_program program_bytes (program_size version);
     for_each (\<lambda>_. vm_iteration cpu version item (execute_bytecode fpu version config bytecode)
         config dataset_offset) [0..<iterations]
       (m, \<lparr>ls_ma = ma, ls_mx = mx, ls_sp_addr0 = mx, ls_sp_addr1 = ma\<rparr>)
   }"

text \<open>Where the items come from: the dataset when there is one, else the cache.\<close>

definition dataset_line ::
  "bytes \<Rightarrow> ss_program list \<Rightarrow> u64 list list option \<Rightarrow> u64 \<Rightarrow> u64 list option" where
  "dataset_line cache_memory programs dataset item_number =
     (case dataset of
        Some ds \<Rightarrow> get_item ds item_number
      | None \<Rightarrow> init_dataset_item cache_memory programs item_number)"

definition line_source_ok :: "bytes \<times> ss_program list \<times> u64 list list option \<Rightarrow> bool" where
  "line_source_ok = (\<lambda>(cache, programs, dataset). case dataset of
       Some ds \<Rightarrow> dataset_ok ds
     | None \<Rightarrow> cache_ok cache \<and> programs_ok programs)"

interpretation vm_lines: item_source "\<lambda>(cache, programs, dataset). dataset_line cache programs dataset"
    line_source_ok
  using light_mode.item_ok full_mode.item_ok
  by unfold_locales (auto simp: dataset_line_def line_source_ok_def split: option.splits)

section \<open>Parameters in range\<close>

definition config_ok :: "program_configuration \<Rightarrow> bool" where
  "config_ok c \<longleftrightarrow> read_reg0 c < 8 \<and> read_reg1 c < 8 \<and> read_reg2 c < 8 \<and> read_reg3 c < 8"

lemma address_register_less: "k < 4 \<Longrightarrow> address_register a k < 8"
  using unat_and_le [of "drop_bit k a" 1] by (simp add: address_register_def)

definition offset_ok :: "u64 \<Rightarrow> bool" where
  "offset_ok d \<longleftrightarrow> unat d \<le> 524287 * 64"

lemma derive_params_ok:
  assumes "INSTRUCTIONS_OFFSET \<le> length pb"
  shows "returns (\<lambda>(config, ma, mx, d). config_ok config \<and> offset_ok d) (derive_program_params pb)"
proof -
  have "unat (entropy pb 13 mod (DATASET_EXTRA_ITEMS + 1)) \<le> 524287"
    using unat_mod_less [of "DATASET_EXTRA_ITEMS + 1" "entropy pb 13"]
    by (simp add: DATASET_EXTRA_ITEMS_def)
  then have "unat ((entropy pb 13 mod (DATASET_EXTRA_ITEMS + 1)) * of_nat CACHE_LINE_SIZE) \<le> 524287 * 64"
    by (subst unat_mult_lem [THEN iffD1]) (simp_all add: CACHE_LINE_SIZE_def)
  then show ?thesis
    using assms by (simp add: derive_program_params_def Let_def config_ok_def offset_ok_def address_register_less)
qed

text \<open>The worst case of the dataset read, which the code asserts at compile time.\<close>

lemma item_number_bound:
  assumes "offset_ok d"
  shows "unat ((d + (ucast (ma :: u32) AND ucast CACHE_LINE_ALIGN_MASK)) div of_nat CACHE_LINE_SIZE)
     < DATASET_ITEM_COUNT"
proof -
  let ?a = "ucast ma AND ucast CACHE_LINE_ALIGN_MASK :: u64"
  have a: "unat ?a \<le> 0x7FFFFFC0"
    using unat_and_le [of "ucast ma" "ucast CACHE_LINE_ALIGN_MASK :: u64"]
    by (simp add: CACHE_LINE_ALIGN_MASK_def)
  have "unat (d + ?a) = unat d + unat ?a"
    using a assms by (subst unat_add_lem [THEN iffD1]) (simp_all add: offset_ok_def)
  then have "unat (d + ?a) \<le> 524287 * 64 + 0x7FFFFFC0"
    using a assms by (simp add: offset_ok_def)
  then have "unat (d + ?a) div 64 \<le> (524287 * 64 + 0x7FFFFFC0) div 64"
    by (rule div_le_mono)
  then show ?thesis
    by (simp add: unat_div CACHE_LINE_SIZE_def DATASET_ITEM_COUNT_value)
qed

lemma sp_addr_bound: "unat (x AND SCRATCHPAD_L3_MASK64) + 64 \<le> SCRATCHPAD_L3_SIZE"
  using unat_and_le [of x SCRATCHPAD_L3_MASK64] by (simp add: scratchpad_masks)

section \<open>The loop stays in bounds and ends\<close>

lemma put_ok:
  "machine_ok m \<Longrightarrow> i < 8 \<Longrightarrow> returns machine_ok (put_r m i v)"
  "machine_ok m \<Longrightarrow> i < 4 \<Longrightarrow> returns machine_ok (put_f m i w)"
  "machine_ok m \<Longrightarrow> i < 4 \<Longrightarrow> returns machine_ok (put_e m i w)"
  using put_r_changes [of m i v] put_f_changes [of m i w] put_e_changes [of m i w]
  by (auto simp: returns_iff changes_def)

lemma load64_Some: "off + 8 \<le> length sp \<Longrightarrow> load64 sp off = Some (from_le (slice off 8 sp))"
  by (simp add: load64_def)

lemma cvt_Some: "off + 8 \<le> length sp \<Longrightarrow> \<exists>v. cvt_packed_int_vec_f128 sp off = Some v"
  by (simp add: cvt_packed_int_vec_f128_def)

lemma store64_ok: "machine_ok m \<Longrightarrow> off + 8 \<le> SCRATCHPAD_L3_SIZE \<Longrightarrow>
    returns machine_ok (set_sp m (store64 (m_sp m) off v))"
  by (simp add: set_sp_def store64_def machine_ok_def)

lemma store_f128_ok: "machine_ok m \<Longrightarrow> off + 16 \<le> SCRATCHPAD_L3_SIZE \<Longrightarrow>
    returns machine_ok (set_sp m (store_f128 (m_sp m) off v))"
  by (simp add: set_sp_def store_f128_def store64_def machine_ok_def)

lemma machine_ok_sp: "machine_ok m \<Longrightarrow> length (m_sp m) = SCRATCHPAD_L3_SIZE"
  by (simp add: machine_ok_def)

lemmas reg_counts = REGISTERS_COUNT_def REGISTER_COUNT_FLT_def

lemma load_registers_ok:
  assumes "machine_ok m" "config_ok config"
  shows "returns (\<lambda>(m', ls'). machine_ok m' \<and> ls_ma ls' = ls_ma ls \<and> ls_mx ls' = ls_mx ls \<and>
      unat (ls_sp_addr0 ls') + 64 \<le> SCRATCHPAD_L3_SIZE \<and> unat (ls_sp_addr1 ls') + 64 \<le> SCRATCHPAD_L3_SIZE)
    (load_registers config ls m)"
proof -
  obtain r0 r1 where r: "get_r m (read_reg0 config) = Some r0" "get_r m (read_reg1 config) = Some r1"
    using assms by (simp add: get_r_Some config_ok_def)
  define a0 where "a0 = (ls_sp_addr0 ls XOR ucast (r0 XOR r1)) AND SCRATCHPAD_L3_MASK64"
  define a1 where "a1 = (ls_sp_addr1 ls XOR ucast (drop_bit 32 (r0 XOR r1))) AND SCRATCHPAD_L3_MASK64"
  have a: "unat a0 + 64 \<le> SCRATCHPAD_L3_SIZE" "unat a1 + 64 \<le> SCRATCHPAD_L3_SIZE"
    by (simp_all only: a0_def a1_def sp_addr_bound)
  have loop: "returns machine_ok (for_each (\<lambda>i m. do {
         x \<leftarrow> get_r m i; w \<leftarrow> load64 (m_sp m) (unat a0 + 8 * i); put_r m i (x XOR w) }) [0..<8] m)"
    by (intro returns_for_each assms(1))
      (use a in \<open>auto simp: get_r_Some load64_Some machine_ok_sp intro: put_ok\<close>)
  have f: "returns machine_ok (for_each (\<lambda>i m. do {
         v \<leftarrow> cvt_packed_int_vec_f128 (m_sp m) (unat a1 + 8 * i); put_f m i v }) [0..<4] m)"
    if "machine_ok m" for m
  proof (intro returns_for_each that)
    fix i m assume "i \<in> set [0..<4 :: nat]" "machine_ok m"
    moreover from this obtain v where "cvt_packed_int_vec_f128 (m_sp m) (unat a1 + 8 * i) = Some v"
      using a cvt_Some [of "unat a1 + 8 * i" "m_sp m"] by (auto simp: machine_ok_sp)
    ultimately show "returns machine_ok (do {
         v \<leftarrow> cvt_packed_int_vec_f128 (m_sp m) (unat a1 + 8 * i); put_f m i v })"
      by (simp add: put_ok)
  qed
  have e: "returns machine_ok (for_each (\<lambda>i m. do {
         v \<leftarrow> cvt_packed_int_vec_f128 (m_sp m) (unat a1 + 8 * (4 + i));
         put_e m i (mask_register_exponent_mantissa config v) }) [0..<4] m)"
    if "machine_ok m" for m
  proof (intro returns_for_each that)
    fix i m assume "i \<in> set [0..<4 :: nat]" "machine_ok m"
    moreover from this obtain v where "cvt_packed_int_vec_f128 (m_sp m) (unat a1 + 8 * (4 + i)) = Some v"
      using a cvt_Some [of "unat a1 + 8 * (4 + i)" "m_sp m"] by (auto simp: machine_ok_sp)
    ultimately show "returns machine_ok (do {
         v \<leftarrow> cvt_packed_int_vec_f128 (m_sp m) (unat a1 + 8 * (4 + i));
         put_e m i (mask_register_exponent_mantissa config v) })"
      by (simp add: put_ok)
  qed
  show ?thesis
    unfolding load_registers_def r bind.simps Let_def reg_counts a0_def [symmetric] a1_def [symmetric]
    by (intro returns_bind [OF loop] returns_bind [OF f] returns_bind [OF e]) (use a in simp_all)
qed

lemma store_registers_ok:
  assumes "machine_ok m" "unat (ls_sp_addr0 ls) + 64 \<le> SCRATCHPAD_L3_SIZE"
    "unat (ls_sp_addr1 ls) + 64 \<le> SCRATCHPAD_L3_SIZE"
  shows "returns (\<lambda>(m', ls'). machine_ok m') (store_registers cpu version ls m)"
proof -
  have r: "returns machine_ok (for_each (\<lambda>i m. do {
         v \<leftarrow> get_r m i; set_sp m (store64 (m_sp m) (unat (ls_sp_addr1 ls) + 8 * i) v) }) [0..<8] m)"
    by (intro returns_for_each assms(1))
      (use assms(3) in \<open>auto simp: get_r_Some intro!: store64_ok\<close>)
  have v1: "returns machine_ok (for_each (\<lambda>i m. do {
         f \<leftarrow> get_f m i; e \<leftarrow> get_e m i; put_f m i (xor_f128 f e) }) [0..<4] m)"
    if "machine_ok m" for m
    by (intro returns_for_each that) (auto simp: get_Some intro: put_ok)
  have v2: "returns machine_ok (aes_mix_f_e cpu m)" if m: "machine_ok m" for m
    unfolding aes_mix_f_e_def Let_def
    by (simp add: get_Some m split: prod.split) (intro allI impI returns_bind [OF put_ok(2)] put_ok(2); simp add: m)
  have f: "returns machine_ok (for_each (\<lambda>i m. do {
         f \<leftarrow> get_f m i; set_sp m (store_f128 (m_sp m) (unat (ls_sp_addr0 ls) + 16 * i) f) }) [0..<4] m)"
    if "machine_ok m" for m
    by (intro returns_for_each that)
      (use assms(2) in \<open>auto simp: get_f_Some intro!: store_f128_ok\<close>)
  show ?thesis
    unfolding store_registers_def reg_counts
    by (intro returns_bind [OF r] returns_bind [where R = machine_ok] f)
      (auto intro: v1 v2 split: rx_version.split)
qed

context item_source
begin

lemma mix_dataset_ok:
  assumes "source_ok s" "machine_ok m" "config_ok config" "offset_ok d"
  shows "returns (\<lambda>(m', ls'). machine_ok m' \<and> ls_sp_addr0 ls' = ls_sp_addr0 ls \<and> ls_sp_addr1 ls' = ls_sp_addr1 ls)
    (mix_dataset version (item s) config d ls m)"
proof -
  obtain r2 r3 where r: "get_r m (read_reg2 config) = Some r2" "get_r m (read_reg3 config) = Some r3"
    using assms by (simp add: get_r_Some config_ok_def)
  have line: "returns (\<lambda>l. length l = 8)
      (item s ((d + (ucast (ls_ma ls) AND ucast CACHE_LINE_ALIGN_MASK)) div of_nat CACHE_LINE_SIZE))"
    by (rule item_ok [OF assms(1) item_number_bound [OF assms(4)]])
  have mix: "returns machine_ok (for_each (\<lambda>i m. do {
         x \<leftarrow> get_r m i; w \<leftarrow> at_index l i; put_r m i (x XOR w) }) [0..<8] m)"
    if "length l = 8" for l
    by (intro returns_for_each assms(2)) (use that in \<open>auto simp: get_r_Some intro: put_ok\<close>)
  show ?thesis
    unfolding mix_dataset_def r bind.simps Let_def reg_counts
    by (cases version; simp) (intro returns_bind [OF line] returns_bind [OF mix]; simp)+
qed

lemma vm_iteration_ok:
  assumes "source_ok s" "config_ok config" "offset_ok d" "machine_ok m"
    and body: "\<And>m. machine_ok m \<Longrightarrow> returns machine_ok (body m)"
  shows "returns (\<lambda>(m', ls'). machine_ok m') (vm_iteration cpu version (item s) body config d (m, ls))"
  unfolding vm_iteration_def prod.case
proof (rule returns_bind [OF load_registers_ok [OF assms(4,2)]], clarify)
  fix m' and ls' :: loop_state
  assume m': "machine_ok m'" and a: "unat (ls_sp_addr0 ls') + 64 \<le> SCRATCHPAD_L3_SIZE"
    "unat (ls_sp_addr1 ls') + 64 \<le> SCRATCHPAD_L3_SIZE"
  show "returns (\<lambda>(m', ls'). machine_ok m') (do {
     m \<leftarrow> body m'; (m, ls) \<leftarrow> mix_dataset version (item s) config d ls' m;
     store_registers cpu version ls m })"
    by (rule returns_bind [OF body [OF m']], rule returns_bind [OF mix_dataset_ok])
      (use assms a in \<open>auto intro!: store_registers_ok\<close>)
qed

text \<open>Any program of the right size runs to its end.\<close>

lemma interpret_vm_ok:
  assumes "source_ok s" "machine_ok m" "length pb = program_bytes_size version"
  shows "returns (\<lambda>(m', ls'). machine_ok m') (interpret_vm fpu cpu version iterations (item s) pb m)"
proof -
  have len: "INSTRUCTIONS_OFFSET + program_size version * 8 \<le> length pb" "INSTRUCTIONS_OFFSET \<le> length pb"
    using assms(3) by (simp_all add: program_bytes_size_def)
  have m: "machine_ok (init_registers pb m)"
    using assms(2) by (simp add: init_registers_def machine_ok_def reg_counts)
  show ?thesis
    unfolding interpret_vm_def Let_def
  proof (rule returns_bind [OF derive_params_ok [OF len(2)]], clarify,
      rule returns_bind [OF compile_program_gen [OF len(1) program_size_fits]], clarify)
    fix config ma mx d bc and usage :: "int list"
    assume ok: "config_ok config" "offset_ok d" "bytecode_ok bc"
    show "returns (\<lambda>(m', ls'). machine_ok m') (for_each (\<lambda>_. vm_iteration cpu version (item s)
          (execute_bytecode fpu version config bc) config d) [0..<iterations]
        (init_registers pb m, \<lparr>ls_ma = ma, ls_mx = mx, ls_sp_addr0 = mx, ls_sp_addr1 = ma\<rparr>))"
      by (rule returns_for_each)
        (use m assms(1) ok in \<open>auto intro!: vm_iteration_ok execute_bytecode_returns\<close>)
  qed
qed

end

lemmas execute_vm_ok = vm_lines.interpret_vm_ok

end
