(* ===== verification/Jit_Compile.thy ===== *)
theory Jit_Compile
  imports Jit_A64 Vm_Loop
begin

text \<open>
  The JIT compiler, \<open>src/randomx/jit/compiler.rs\<close>: from bytecode to A64 words. A function that
  emits code is the list of words it appends; where it looks at the position in the buffer
  (\<open>e.len()\<close>) the position is an argument. \<open>None\<close> is a failed assertion, the \<open>debug_assert\<close>s
  included, or an index out of range. The memory of \<open>JitMemory\<close> is the list of words written.
\<close>

section \<open>Register allocation\<close>

definition FSCAL_MASK :: u64 where "FSCAL_MASK = 0x80F0000000000000"

definition r_reg :: "nat \<Rightarrow> u32" where
  "r_reg idx = of_nat idx + 8"
definition f_regs :: "nat \<Rightarrow> u32 \<times> u32" where
  "f_regs idx = (let base = of_nat idx * 2 in (base, base + 1))"
definition e_regs :: "nat \<Rightarrow> u32 \<times> u32" where
  "e_regs idx = (let base = 8 + of_nat idx * 2 in (base, base + 1))"
definition a_regs :: "nat \<Rightarrow> u32 \<times> u32" where
  "a_regs idx = (let base = 16 + of_nat idx * 2 in (base, base + 1))"

section \<open>Prologue and epilogue of the body function\<close>

definition save_registers :: "u32 list" where
  "save_registers =
     [stp_pre FP LR SP (-16), stp_pre X19 X20 SP (-16), stp_pre X21 X22 SP (-16),
      stp_pre X23 X24 SP (-16), stp_pre X25 X26 SP (-16), stp_pre X27 X28 SP (-16),
      stp_fp_pre D8 D9 SP (-16), stp_fp_pre D10 D11 SP (-16),
      stp_fp_pre D12 D13 SP (-16), stp_fp_pre D14 D15 SP (-16)]"

definition restore_registers :: "u32 list" where
  "restore_registers =
     [ldp_fp_post D14 D15 SP 16, ldp_fp_post D12 D13 SP 16,
      ldp_fp_post D10 D11 SP 16, ldp_fp_post D8 D9 SP 16,
      ldp_post X27 X28 SP 16, ldp_post X25 X26 SP 16, ldp_post X23 X24 SP 16,
      ldp_post X21 X22 SP 16, ldp_post X19 X20 SP 16, ldp_post FP LR SP 16, ret_lr]"

definition emit_prologue :: "u32 list" where
  "emit_prologue =
     save_registers @
     [mov_reg X21 X0, mov_reg X16 X1, ldr_imm X19 X2 0, ldr_imm X20 X2 8] @
     map (\<lambda>i. ldr_imm (8 + of_nat i) X0 (of_nat i * 8)) [0..<8] @
     map (\<lambda>i. ldr_fp_imm (of_nat i) X0 (64 + of_nat i * 8)) [0..<8] @
     map (\<lambda>i. ldr_fp_imm (8 + of_nat i) X0 (128 + of_nat i * 8)) [0..<8] @
     map (\<lambda>i. ldr_fp_imm (16 + of_nat i) X0 (192 + of_nat i * 8)) [0..<8] @
     mov_imm64 X0 FSCAL_MASK @ [fmov_dx D24 X0]"

definition store_register_file :: "u32 list" where
  "store_register_file =
     map (\<lambda>i. str_imm (8 + of_nat i) X21 (of_nat i * 8)) [0..<8] @
     map (\<lambda>i. str_fp_imm (of_nat i) X21 (64 + of_nat i * 8)) [0..<8] @
     map (\<lambda>i. str_fp_imm (8 + of_nat i) X21 (128 + of_nat i * 8)) [0..<8]"

definition emit_epilogue :: "u32 list" where
  "emit_epilogue = store_register_file @ restore_registers"

section \<open>Scratchpad operands\<close>

definition emit_mem_addr :: "bytecode_instruction \<Rightarrow> u32 list" where
  "emit_mem_addr b =
     (if bi_src b < 8 then mov_imm64 X0 (bi_imm b) @ [add_reg X0 (r_reg (bi_src b)) X0]
      else mov_imm64 X0 (bi_imm b)) @
     and_bitmask X0 X0 (ucast (bi_mem_mask b)) X1"

definition emit_mem_load :: "u32 list" where
  "emit_mem_load = [ldr_reg X0 X16 X0]"

definition emit_cvt_packed_int :: "u32 list" where
  "emit_cvt_packed_int =
     [add_reg X1 X16 X0, 0xB9800000 OR push_bit 5 X1 OR X0, scvtf_dx 25 X0,
      0xB9800400 OR push_bit 5 X1 OR X0, scvtf_dx 26 X0]"

section \<open>Integer instructions\<close>

definition emit_iadd_rs :: "bytecode_instruction \<Rightarrow> u32 list" where
  "emit_iadd_rs b =
     (let dst = r_reg (bi_dst b); src = r_reg (bi_src b) in
      (if 0 < bi_shift b then [add_reg_shifted dst dst src (of_nat (bi_shift b))]
       else [add_reg dst dst src]) @
      (if bi_imm b \<noteq> 0 then
         (if bi_imm b < 4096 then [add_imm dst dst (ucast (bi_imm b))]
          else if NOT (bi_imm b) + 1 < 4096 then [sub_imm dst dst (ucast (NOT (bi_imm b) + 1))]
          else mov_imm64 X0 (bi_imm b) @ [add_reg dst dst X0])
       else []))"

text \<open>\<open>I..._M\<close>: address, load, operation with \<open>x0\<close>. \<open>I..._R\<close> with a register or an immediate.\<close>

definition emit_mem_op :: "(u32 \<Rightarrow> u32 \<Rightarrow> u32 \<Rightarrow> u32) \<Rightarrow> bytecode_instruction \<Rightarrow> u32 list" where
  "emit_mem_op oper b =
     emit_mem_addr b @ emit_mem_load @ [oper (r_reg (bi_dst b)) (r_reg (bi_dst b)) X0]"

definition emit_reg_op :: "(u32 \<Rightarrow> u32 \<Rightarrow> u32 \<Rightarrow> u32) \<Rightarrow> bytecode_instruction \<Rightarrow> u32 list" where
  "emit_reg_op oper b =
     (let dst = r_reg (bi_dst b) in
      if bi_src b < 8 then [oper dst dst (r_reg (bi_src b))]
      else mov_imm64 X0 (bi_imm b) @ [oper dst dst X0])"

definition emit_iadd_m :: "bytecode_instruction \<Rightarrow> u32 list" where
  "emit_iadd_m = emit_mem_op add_reg"
definition emit_isub_r :: "bytecode_instruction \<Rightarrow> u32 list" where
  "emit_isub_r = emit_reg_op sub_reg"
definition emit_isub_m :: "bytecode_instruction \<Rightarrow> u32 list" where
  "emit_isub_m = emit_mem_op sub_reg"
definition emit_imul_r :: "bytecode_instruction \<Rightarrow> u32 list" where
  "emit_imul_r = emit_reg_op mul_reg"
definition emit_imul_m :: "bytecode_instruction \<Rightarrow> u32 list" where
  "emit_imul_m = emit_mem_op mul_reg"
definition emit_imulh_r :: "bytecode_instruction \<Rightarrow> u32 list" where
  "emit_imulh_r b = [umulh_reg (r_reg (bi_dst b)) (r_reg (bi_dst b)) (r_reg (bi_src b))]"
definition emit_imulh_m :: "bytecode_instruction \<Rightarrow> u32 list" where
  "emit_imulh_m = emit_mem_op umulh_reg"
definition emit_ismulh_r :: "bytecode_instruction \<Rightarrow> u32 list" where
  "emit_ismulh_r b = [smulh_reg (r_reg (bi_dst b)) (r_reg (bi_dst b)) (r_reg (bi_src b))]"
definition emit_ismulh_m :: "bytecode_instruction \<Rightarrow> u32 list" where
  "emit_ismulh_m = emit_mem_op smulh_reg"
definition emit_ineg_r :: "bytecode_instruction \<Rightarrow> u32 list" where
  "emit_ineg_r b = [neg_reg (r_reg (bi_dst b)) (r_reg (bi_dst b))]"
definition emit_ixor_r :: "bytecode_instruction \<Rightarrow> u32 list" where
  "emit_ixor_r = emit_reg_op eor_reg"
definition emit_ixor_m :: "bytecode_instruction \<Rightarrow> u32 list" where
  "emit_ixor_m = emit_mem_op eor_reg"

definition emit_iror_r :: "bytecode_instruction \<Rightarrow> u32 list" where
  "emit_iror_r b =
     (let dst = r_reg (bi_dst b) in
      if bi_src b < 8 then [rorv dst dst (r_reg (bi_src b))]
      else [ror_imm dst dst (ucast (bi_imm b AND 63))])"

definition emit_irol_r :: "bytecode_instruction \<Rightarrow> u32 list" where
  "emit_irol_r b =
     (let dst = r_reg (bi_dst b) in
      if bi_src b < 8 then [neg_reg X0 (r_reg (bi_src b)), rorv dst dst X0]
      else [ror_imm dst dst (ucast (64 - (bi_imm b AND 63)) AND 63)])"

definition emit_iswap_r :: "bytecode_instruction \<Rightarrow> u32 list" where
  "emit_iswap_r b =
     (let dst = r_reg (bi_dst b); src = r_reg (bi_src b)
      in [mov_reg X0 dst, mov_reg dst src, mov_reg src X0])"

section \<open>Floating-point instructions\<close>

definition emit_fswap_r :: "bytecode_instruction \<Rightarrow> u32 list" where
  "emit_fswap_r b =
     (let (lo, hi) = (if bi_fswap_is_e b then e_regs (bi_dst b) else f_regs (bi_dst b))
      in [fmov_dd 25 lo, fmov_dd lo hi, fmov_dd hi 25])"

text \<open>\<open>F..._R\<close> combines a pair with an \<open>a\<close> register, \<open>F..._M\<close> with the converted integers.\<close>

definition emit_pair_op :: "(u32 \<Rightarrow> u32 \<Rightarrow> u32 \<Rightarrow> u32) \<Rightarrow> u32 \<times> u32 \<Rightarrow> u32 \<times> u32 \<Rightarrow> u32 list" where
  "emit_pair_op oper d s = [oper (fst d) (fst d) (fst s), oper (snd d) (snd d) (snd s)]"

definition emit_fadd_r :: "bytecode_instruction \<Rightarrow> u32 list" where
  "emit_fadd_r b = emit_pair_op fadd (f_regs (bi_dst b)) (a_regs (bi_src b))"
definition emit_fadd_m :: "bytecode_instruction \<Rightarrow> u32 list" where
  "emit_fadd_m b = emit_mem_addr b @ emit_cvt_packed_int @ emit_pair_op fadd (f_regs (bi_dst b)) (25, 26)"
definition emit_fsub_r :: "bytecode_instruction \<Rightarrow> u32 list" where
  "emit_fsub_r b = emit_pair_op fsub (f_regs (bi_dst b)) (a_regs (bi_src b))"
definition emit_fsub_m :: "bytecode_instruction \<Rightarrow> u32 list" where
  "emit_fsub_m b = emit_mem_addr b @ emit_cvt_packed_int @ emit_pair_op fsub (f_regs (bi_dst b)) (25, 26)"
definition emit_fscal_r :: "bytecode_instruction \<Rightarrow> u32 list" where
  "emit_fscal_r b = emit_pair_op eor_v8b (f_regs (bi_dst b)) (D24, D24)"
definition emit_fmul_r :: "bytecode_instruction \<Rightarrow> u32 list" where
  "emit_fmul_r b = emit_pair_op fmul (e_regs (bi_dst b)) (a_regs (bi_src b))"

definition emit_mask_lane :: "u32 \<Rightarrow> u32 \<Rightarrow> u32 \<Rightarrow> u32 list" where
  "emit_mask_lane lane mask_reg out =
     [fmov_xd X0 lane] @ and_bitmask X0 X0 DYNAMIC_MANTISSA_MASK X1 @
     [orr_reg X0 X0 mask_reg, fmov_dx out X0]"

definition emit_fdiv_m :: "bytecode_instruction \<Rightarrow> u32 list" where
  "emit_fdiv_m b =
     emit_mem_addr b @ emit_cvt_packed_int @
     emit_mask_lane 25 X19 25 @ emit_mask_lane 26 X20 26 @
     emit_pair_op fdiv (e_regs (bi_dst b)) (25, 26)"

definition emit_fsqrt_r :: "bytecode_instruction \<Rightarrow> u32 list" where
  "emit_fsqrt_r b =
     (let (elo, ehi) = e_regs (bi_dst b) in [fsqrt elo elo, fsqrt ehi ehi])"

section \<open>Control flow\<close>

definition emit_cbranch ::
  "bytecode_instruction \<Rightarrow> nat list \<Rightarrow> nat \<Rightarrow> nat \<Rightarrow> nat \<Rightarrow> u32 list option" where
  "emit_cbranch b offsets pc prog_size pos =
     (let dst = r_reg (bi_dst b);
          ws = mov_imm64 X0 (bi_imm b) @ [add_reg dst dst X0] @
               tst_bitmask dst (ucast (bi_mem_mask b)) X0;
          target_signed = bi_target b + 1;
          current = pos + length ws
      in if bi_target b < int pc then do {
           target_offset \<leftarrow>
             (if 0 \<le> target_signed \<and> nat target_signed < prog_size
              then at_index offsets (nat target_signed) else Some (current + 1));
           Some (ws @ [b_cond 0 (int target_offset - int current)])
         }
         else None)"

definition emit_cfround :: "bytecode_instruction \<Rightarrow> rx_version \<Rightarrow> u32 list" where
  "emit_cfround b version =
     (let src = r_reg (bi_src b); shift = ucast (bi_imm b AND 63);
          head = (if 0 < shift then [ror_imm X0 src shift] else [mov_reg X0 src]);
          block =
            and_bitmask X0 X0 3 X1 @
            [lsr_imm X1 X0 1, lsl_imm X2 X0 1] @
            and_bitmask X1 X1 1 X3 @ and_bitmask X2 X2 2 X3 @
            [orr_reg X0 X1 X2, lsl_imm X0 X0 22] @
            mov_imm64 X1 (push_bit 24 1) @ [orr_reg X0 X0 X1, msr_fpcr X0]
      in if version = V2 then
           (let test = tst_bitmask X0 0x3C X1;
                idx = length head + length test;
                ws = head @ test @ [b_cond 1 0] @ block;
                rel = of_nat (length ws - idx)
            in ws[idx := 0x54000000 OR push_bit 5 (rel AND 0x7FFFF) OR 1])
         else head @ block)"

definition emit_istore :: "bytecode_instruction \<Rightarrow> u32 list" where
  "emit_istore b =
     (if bi_imm b \<noteq> 0 then mov_imm64 X0 (bi_imm b) @ [add_reg X0 (r_reg (bi_dst b)) X0]
      else [mov_reg X0 (r_reg (bi_dst b))]) @
     and_bitmask X0 X0 (ucast (bi_mem_mask b)) X1 @
     [str_reg (r_reg (bi_src b)) X16 X0]"

section \<open>The body\<close>

definition emit_plain :: "bytecode_instruction \<Rightarrow> rx_version \<Rightarrow> u32 list" where
  "emit_plain b version =
     (case bi_itype b of
        IaddRs \<Rightarrow> emit_iadd_rs b
      | IaddM \<Rightarrow> emit_iadd_m b
      | IsubR \<Rightarrow> emit_isub_r b
      | IsubM \<Rightarrow> emit_isub_m b
      | ImulR \<Rightarrow> emit_imul_r b
      | ImulM \<Rightarrow> emit_imul_m b
      | ImulhR \<Rightarrow> emit_imulh_r b
      | ImulhM \<Rightarrow> emit_imulh_m b
      | IsmulhR \<Rightarrow> emit_ismulh_r b
      | IsmulhM \<Rightarrow> emit_ismulh_m b
      | InegR \<Rightarrow> emit_ineg_r b
      | IxorR \<Rightarrow> emit_ixor_r b
      | IxorM \<Rightarrow> emit_ixor_m b
      | IrorR \<Rightarrow> emit_iror_r b
      | IrolR \<Rightarrow> emit_irol_r b
      | IswapR \<Rightarrow> emit_iswap_r b
      | FswapR \<Rightarrow> emit_fswap_r b
      | FaddR \<Rightarrow> emit_fadd_r b
      | FaddM \<Rightarrow> emit_fadd_m b
      | FsubR \<Rightarrow> emit_fsub_r b
      | FsubM \<Rightarrow> emit_fsub_m b
      | FscalR \<Rightarrow> emit_fscal_r b
      | FmulR \<Rightarrow> emit_fmul_r b
      | FdivM \<Rightarrow> emit_fdiv_m b
      | FsqrtR \<Rightarrow> emit_fsqrt_r b
      | Cbranch \<Rightarrow> []
      | Cfround \<Rightarrow> emit_cfround b version
      | Istore \<Rightarrow> emit_istore b
      | Nop \<Rightarrow> [])"

definition jit_emit_instruction ::
  "bytecode_instruction \<Rightarrow> nat list \<Rightarrow> nat \<Rightarrow> nat \<Rightarrow> rx_version \<Rightarrow> nat \<Rightarrow> u32 list option" where
  "jit_emit_instruction b offsets pc prog_size version pos =
     (if bi_itype b = Cbranch then emit_cbranch b offsets pc prog_size pos
      else Some (emit_plain b version))"

text \<open>The buffer so far and the array of offsets.\<close>

definition emit_body_step ::
  "bytecode_instruction list \<Rightarrow> rx_version \<Rightarrow> nat \<Rightarrow> u32 list \<times> nat list \<Rightarrow> (u32 list \<times> nat list) option" where
  "emit_body_step bc version i = (\<lambda>(code, offsets). do {
     offsets \<leftarrow> put_index offsets i (length code);
     ws \<leftarrow> jit_emit_instruction (bc ! i) offsets i (length bc) version (length code);
     Some (code @ ws, offsets)
   })"

definition emit_body :: "u32 list \<Rightarrow> bytecode_instruction list \<Rightarrow> rx_version \<Rightarrow> u32 list option" where
  "emit_body code bc version =
     (if length bc \<le> RANDOMX_PROGRAM_SIZE_MAX
      then map_option fst (for_each (emit_body_step bc version) [0..<length bc]
             (code, replicate RANDOMX_PROGRAM_SIZE_MAX 0))
      else None)"

section \<open>The native loop\<close>

definition CACHE_LINE_ALIGN_MASK64 :: u64 where "CACHE_LINE_ALIGN_MASK64 = 0x7FFFFFC0"
definition JIT_L3_MASK64 :: u64 where "JIT_L3_MASK64 = 0x1FFFC0"
definition COND_NE :: u32 where "COND_NE = 1"

definition emit_loop_prologue ::
  "program_configuration \<Rightarrow> u32 \<Rightarrow> u32 \<Rightarrow> u64 \<Rightarrow> u32 list" where
  "emit_loop_prologue config init_ma init_mx dataset_offset =
     save_registers @
     [mov_reg X22 X2, mov_reg X28 X3, mov_reg X23 X4, mov_reg X21 X0, mov_reg X16 X1] @
     mov_imm64 X0 dataset_offset @ [add_reg X22 X22 X0] @
     map (\<lambda>i. ldr_imm (8 + of_nat i) X21 (of_nat i * 8)) [0..<8] @
     map (\<lambda>i. ldr_fp_imm (16 + of_nat i) X21 (192 + of_nat i * 8)) [0..<8] @
     mov_imm64 X19 (fst (e_mask config)) @ mov_imm64 X20 (snd (e_mask config)) @
     mov_imm64 X0 FSCAL_MASK @ [fmov_dx D24 X0] @
     mov_imm64 X24 (ucast init_ma) @ mov_imm64 X25 (ucast init_mx) @
     mov_imm64 X26 (ucast init_mx) @ mov_imm64 X27 (ucast init_ma)"

definition emit_iteration_pre :: "program_configuration \<Rightarrow> u32 list" where
  "emit_iteration_pre config =
     [eor_reg X0 (r_reg (read_reg0 config)) (r_reg (read_reg1 config)), eor_reg_w X26 X26 X0] @
     and_bitmask X26 X26 JIT_L3_MASK64 X1 @
     [lsr_imm X1 X0 32, eor_reg_w X27 X27 X1] @
     and_bitmask X27 X27 JIT_L3_MASK64 X1 @
     [add_reg X2 X16 X26] @
     concat (map (\<lambda>i. [ldr_imm X3 X2 (of_nat i * 8), eor_reg (r_reg i) (r_reg i) X3]) [0..<8]) @
     concat (map (\<lambda>i. [add_imm X0 X27 (of_nat i * 8)] @ emit_cvt_packed_int @
       [fmov_dd (fst (f_regs i)) D25, fmov_dd (snd (f_regs i)) D26]) [0..<4]) @
     concat (map (\<lambda>i. [add_imm X0 X27 (32 + of_nat i * 8)] @ emit_cvt_packed_int @
       emit_mask_lane D25 X19 (fst (e_regs i)) @ emit_mask_lane D26 X20 (snd (e_regs i))) [0..<4])"

definition emit_iteration_post :: "program_configuration \<Rightarrow> u32 list" where
  "emit_iteration_post config =
     and_bitmask X0 X24 CACHE_LINE_ALIGN_MASK64 X1 @
     [add_reg X0 X22 X0,
      eor_reg X1 (r_reg (read_reg2 config)) (r_reg (read_reg3 config)), eor_reg_w X25 X25 X1] @
     concat (map (\<lambda>i. [ldr_imm X2 X0 (of_nat i * 8), eor_reg (r_reg i) (r_reg i) X2]) [0..<8]) @
     [mov_reg X1 X24, mov_reg X24 X25, mov_reg X25 X1] @
     and_bitmask X0 X24 CACHE_LINE_ALIGN_MASK64 X1 @ [prfm_reg X22 X0] @
     [add_reg X0 X16 X27] @
     map (\<lambda>i. str_imm (r_reg i) X0 (of_nat i * 8)) [0..<8] @
     concat (map (\<lambda>i. emit_pair_op eor_v8b (f_regs i) (e_regs i)) [0..<4]) @
     [add_reg X0 X16 X26] @
     map (\<lambda>i. stp_fp_imm (fst (f_regs i)) (snd (f_regs i)) X0 (int i * 16)) [0..<4] @
     [eor_reg X0 (r_reg (read_reg0 config)) (r_reg (read_reg1 config))] @
     and_bitmask X1 X0 JIT_L3_MASK64 X2 @ [prfm_reg X16 X1, lsr_imm X1 X0 32] @
     and_bitmask X1 X1 JIT_L3_MASK64 X2 @ [prfm_reg X16 X1] @
     [movz X26 0 0, movz X27 0 0]"

definition emit_loop_epilogue :: "u32 list" where
  "emit_loop_epilogue =
     [str_imm X24 X23 0, str_imm X25 X23 8, str_imm X26 X23 16, str_imm X27 X23 24] @
     store_register_file @ restore_registers"

text \<open>The code of \<open>compile_native_loop\<close>, with the \<open>CBZ\<close> at \<open>zero_guard\<close> patched once the end of
  the loop is known. The range checks are the two \<open>debug_assert\<close>s on branch offsets.\<close>

definition native_loop_code ::
  "bytecode_instruction list \<Rightarrow> rx_version \<Rightarrow> program_configuration \<Rightarrow> u32 \<Rightarrow> u32 \<Rightarrow> u64 \<Rightarrow> u32 list option" where
  "native_loop_code bc version config init_ma init_mx dataset_offset =
     (if version = V1 \<and> dataset_offset \<le> DATASET_EXTRA_ITEMS * 64 then do {
        let code = emit_loop_prologue config init_ma init_mx dataset_offset;
        let zero_guard = length code;
        let code = code @ [0xB4000000 OR X28];
        let loop_head = length code;
        code \<leftarrow> emit_body (code @ emit_iteration_pre config) bc version;
        let code = code @ emit_iteration_post config @ [subs_imm X28 X28 1];
        let rel = int loop_head - int (length code);
        if - 0x40000 \<le> rel \<and> rel < 0x40000 then do {
          let code = code @ [b_cond COND_NE rel];
          let skip = length code - zero_guard;
          if skip < 0x40000
          then Some (code[zero_guard := 0xB4000000 OR push_bit 5 (of_nat skip AND 0x7FFFF) OR X28]
                     @ emit_loop_epilogue)
          else None
        }
        else None
      }
      else None)"

section \<open>The compiler object\<close>

datatype compiled_kind = Body | NativeLoop

text \<open>\<open>JitCompiler\<close> with its \<open>JitMemory\<close>: what the executable region holds, and for which
  interface.\<close>

definition JIT_CODE_SIZE :: nat where "JIT_CODE_SIZE = 64 * 1024"

record jit_compiler =
  jc_memory :: "u32 list"
  jc_kind :: "compiled_kind option"

definition jit_new :: jit_compiler where
  "jit_new = \<lparr>jc_memory = [], jc_kind = None\<rparr>"

text \<open>\<open>write_code\<close> asserts that the code fits.\<close>

definition write_code :: "u32 list \<Rightarrow> u32 list option" where
  "write_code code = (if length code * 4 \<le> JIT_CODE_SIZE then Some code else None)"

definition body_code :: "bytecode_instruction list \<Rightarrow> rx_version \<Rightarrow> u32 list option" where
  "body_code bc version =
     map_option (\<lambda>code. code @ emit_epilogue) (emit_body emit_prologue bc version)"

definition jit_compile ::
  "bytecode_instruction list \<Rightarrow> rx_version \<Rightarrow> jit_compiler \<Rightarrow> jit_compiler option" where
  "jit_compile bc version jc = do {
     code \<leftarrow> body_code bc version;
     mem \<leftarrow> write_code code;
     Some (jc\<lparr>jc_memory := mem, jc_kind := Some Body\<rparr>)
   }"

definition compile_native_loop ::
  "bytecode_instruction list \<Rightarrow> rx_version \<Rightarrow> program_configuration \<Rightarrow> u32 \<Rightarrow> u32 \<Rightarrow> u64 \<Rightarrow>
     jit_compiler \<Rightarrow> jit_compiler option" where
  "compile_native_loop bc version config init_ma init_mx dataset_offset jc = do {
     code \<leftarrow> native_loop_code bc version config init_ma init_mx dataset_offset;
     mem \<leftarrow> write_code code;
     Some (jc\<lparr>jc_memory := mem, jc_kind := Some NativeLoop\<rparr>)
   }"

text \<open>\<open>get_fn\<close> and \<open>get_loop_fn\<close> assert the kind; the function is the code in the region.\<close>

definition get_fn :: "jit_compiler \<Rightarrow> u32 list option" where
  "get_fn jc = (if jc_kind jc = Some Body then Some (jc_memory jc) else None)"

definition get_loop_fn :: "jit_compiler \<Rightarrow> u32 list option" where
  "get_loop_fn jc = (if jc_kind jc = Some NativeLoop then Some (jc_memory jc) else None)"

end
