(* ===== verification/Jit_Rel.thy ===== *)
theory Jit_Rel
  imports Jit_Bitmask Jit_Compile
begin

text \<open>
  The register allocation of \<open>src/randomx/jit/compiler.rs\<close> as a relation between the machine of
  the interpreter and the state of the processor (\<open>jit_rel\<close>), what emitted code may change
  besides (\<open>jit_frame\<close>), and scratchpad accesses on both sides.
\<close>

section \<open>Bytes in memory\<close>

definition mem_holds :: "(u64 \<Rightarrow> u8 option) \<Rightarrow> u64 \<Rightarrow> bytes \<Rightarrow> bool" where
  "mem_holds mem a bs \<longleftrightarrow> (\<forall>i < length bs. mem (a + of_nat i) = Some (bs ! i))"

lemma load_mem_holds:
  assumes "mem_holds mem a bs" "off + n \<le> length bs"
  shows "load_mem mem (a + of_nat off) n = Some (slice off n bs)"
proof -
  have at: "mem (a + of_nat off + of_nat i) = Some (bs ! (off + i))" if "i < n" for i
    using assms that unfolding mem_holds_def by (simp add: add.assoc flip: of_nat_add)
  have "load_mem mem (a + of_nat off) n = Some (map (\<lambda>i. the (mem (a + of_nat off + of_nat i))) [0..<n])"
    unfolding load_mem_def by (rule map_all_Some) (simp add: at)
  also have "map (\<lambda>i. the (mem (a + of_nat off + of_nat i))) [0..<n] = slice off n bs"
    by (rule nth_equalityI) (use assms(2) in \<open>simp_all add: at nth_slice\<close>)
  finally show ?thesis .
qed

definition outside :: "u64 \<Rightarrow> nat \<Rightarrow> u64 \<Rightarrow> bool" where
  "outside a n x \<longleftrightarrow> n \<le> unat (x - a)"

lemma unat_of_nat_64: "n < 2 ^ 64 \<Longrightarrow> unat (of_nat n :: u64) = n"
  by (simp add: unat_of_nat)

lemma unat_offset: "off < 2 ^ 64 \<Longrightarrow> unat (a + of_nat off - a :: u64) = off"
  by (simp add: unat_of_nat_64)

lemma store_mem_holds:
  assumes "mem_holds mem a bs" "off + length ys \<le> length bs" "length bs < 2 ^ 64"
  shows "\<exists>mem'. store_mem mem (a + of_nat off) ys = Some mem' \<and> mem_holds mem' a (splice off ys bs) \<and>
     (\<forall>x. outside a (length bs) x \<longrightarrow> mem' x = mem x)"
proof -
  define mem' where "mem' = (\<lambda>x. if unat (x - (a + of_nat off)) < length ys
      then Some (ys ! unat (x - (a + of_nat off))) else mem x)"
  have at: "mem (a + of_nat off + of_nat i) = Some (bs ! (off + i))" if "i < length ys" for i
    using assms that unfolding mem_holds_def by (simp add: add.assoc flip: of_nat_add)
  then have "store_mem mem (a + of_nat off) ys = Some mem'"
    by (simp add: store_mem_def mem'_def list_all_iff)
  moreover have dist: "unat (a + of_nat i - (a + of_nat off)) < length ys \<longleftrightarrow> off \<le> i \<and> i < off + length ys"
    "off \<le> i \<Longrightarrow> unat (a + of_nat i - (a + of_nat off)) = i - off" if "i < length bs" for i
  proof -
    have eq: "a + of_nat i - (a + of_nat off) = (of_nat i - of_nat off :: u64)" by simp
    show le: "off \<le> i \<Longrightarrow> unat (a + of_nat i - (a + of_nat off)) = i - off"
    proof -
      assume "off \<le> i"
      then have "of_nat i - of_nat off = (of_nat (i - off) :: u64)" by simp
      then show ?thesis using eq that assms(3) by (simp add: unat_of_nat_64)
    qed
    show "unat (a + of_nat i - (a + of_nat off)) < length ys \<longleftrightarrow> off \<le> i \<and> i < off + length ys"
    proof (cases "off \<le> i")
      case True
      then show ?thesis using le by auto
    next
      case False
      have o: "off < 2 ^ 64" "i < 2 ^ 64" using assms that by auto
      have "unat (of_nat i - of_nat off :: u64) = 2 ^ 64 + i - off"
        using False o by (subst unat_sub_if_size) (simp add: word_size unat_of_nat_64 word_le_nat_alt)
      moreover have "length ys \<le> 2 ^ 64 + i - off" using assms that False by auto
      ultimately show ?thesis using False eq by simp
    qed
  qed
  have "mem_holds mem' a (splice off ys bs)"
    unfolding mem_holds_def
  proof (intro allI impI)
    fix i assume "i < length (splice off ys bs)"
    then have i: "i < length bs" using assms(2) by simp
    have "mem (a + of_nat i) = Some (bs ! i)" using assms(1) i by (simp add: mem_holds_def)
    then show "mem' (a + of_nat i) = Some (splice off ys bs ! i)"
      using dist [OF i] i assms(2) by (auto simp: mem'_def nth_splice)
  qed
  moreover have "mem' x = mem x" if "outside a (length bs) x" for x
  proof -
    have "\<not> unat (x - (a + of_nat off)) < length ys"
    proof
      define k where "k = unat (x - (a + of_nat off))"
      assume "unat (x - (a + of_nat off)) < length ys"
      then have k: "k < length ys" by (simp add: k_def)
      have "x - a = of_nat k + of_nat off" by (simp add: k_def)
      then have "x - a = of_nat (k + off)" by simp
      then have "unat (x - a) = k + off" using k assms by (simp only: unat_of_nat_64)
      then show False using that k assms(2) by (simp add: outside_def)
    qed
    then show ?thesis by (simp add: mem'_def)
  qed
  ultimately show ?thesis by blast
qed

section \<open>The relation\<close>

text \<open>Where the registers live: \<open>r\<close> in \<open>x8 .. x15\<close>, \<open>f\<close>, \<open>e\<close> and \<open>a\<close> in \<open>d0 .. d23\<close>, two
  registers a pair; the scratchpad at the address in \<open>x16\<close>, the exponent masks in \<open>x19\<close> and
  \<open>x20\<close>, the constant of \<open>FSCAL_R\<close> in \<open>d24\<close>.\<close>

definition pair_at :: "a64_state \<Rightarrow> nat \<Rightarrow> f128" where
  "pair_at s k = (dr s k, dr s (k + 1))"

definition consts_rel :: "program_configuration \<Rightarrow> u64 \<Rightarrow> a64_state \<Rightarrow> bool" where
  "consts_rel config base s \<longleftrightarrow>
     xr s 16 = base \<and> xr s 19 = fst (e_mask config) \<and> xr s 20 = snd (e_mask config) \<and>
     dr s 24 = FSCAL_MASK"

definition jit_rel :: "program_configuration \<Rightarrow> u64 \<Rightarrow> machine \<Rightarrow> a64_state \<Rightarrow> bool" where
  "jit_rel config base m s \<longleftrightarrow>
     machine_ok m \<and> m_rm m < 4 \<and> consts_rel config base s \<and>
     (\<forall>i < 8. xr s (i + 8) = rf_r (m_nreg m) ! i) \<and>
     (\<forall>i < 4. pair_at s (2 * i) = rf_f (m_nreg m) ! i) \<and>
     (\<forall>i < 4. pair_at s (2 * i + 8) = rf_e (m_nreg m) ! i) \<and>
     (\<forall>i < 4. pair_at s (2 * i + 16) = rf_a (m_nreg m) ! i) \<and>
     fpcr s = rx_fpcr (m_rm m) \<and> mem_holds (memory s) base (m_sp m)"

text \<open>What the code of the body leaves alone: the registers from \<open>x16\<close> up and all memory but
  the scratchpad.\<close>

definition jit_frame :: "u64 \<Rightarrow> a64_state \<Rightarrow> a64_state \<Rightarrow> bool" where
  "jit_frame base s s' \<longleftrightarrow>
     (\<forall>r \<ge> 16. xr s' r = xr s r) \<and>
     (\<forall>x. outside base SCRATCHPAD_L3_SIZE x \<longrightarrow> memory s' x = memory s x)"

lemma jit_frame_refl: "jit_frame base s s"
  by (simp add: jit_frame_def)

lemma jit_frame_trans: "jit_frame base s s' \<Longrightarrow> jit_frame base s' s'' \<Longrightarrow> jit_frame base s s''"
  by (simp add: jit_frame_def)

text \<open>Only temporaries differ: \<open>x0 .. x7\<close>, \<open>d25\<close>, \<open>d26\<close> and the flag.\<close>

definition temps :: "a64_state \<Rightarrow> a64_state \<Rightarrow> bool" where
  "temps s s' \<longleftrightarrow> (\<forall>r \<ge> 8. xr s' r = xr s r) \<and> (\<forall>q. q \<noteq> 25 \<and> q \<noteq> 26 \<longrightarrow> dr s' q = dr s q) \<and>
     fpcr s' = fpcr s \<and> memory s' = memory s"

lemma temps_refl [simp]: "temps s s"
  by (simp add: temps_def)

lemma temps_trans: "temps s s' \<Longrightarrow> temps s' s'' \<Longrightarrow> temps s s''"
  by (simp add: temps_def)

lemma temps_set:
  "r < 8 \<Longrightarrow> temps s (set_x r v s') = temps s s'"
  "temps s (set_d 25 w s') = temps s s'" "temps s (set_d 26 w s') = temps s s'"
  "temps s (set_z z s') = temps s s'"
  by (auto simp: temps_def)

lemma temps_frame: "temps s s' \<Longrightarrow> jit_frame base s s'"
  by (simp add: temps_def jit_frame_def)

lemma temps_rel: "temps s s' \<Longrightarrow> jit_rel config base m s \<Longrightarrow> jit_rel config base m s'"
  by (simp add: temps_def jit_rel_def consts_rel_def pair_at_def)

section \<open>Writing a register on both sides\<close>

definition upd_r :: "nat \<Rightarrow> u64 \<Rightarrow> machine \<Rightarrow> machine" where
  "upd_r i v m = m\<lparr>m_nreg := (m_nreg m)\<lparr>rf_r := (rf_r (m_nreg m))[i := v]\<rparr>\<rparr>"
definition upd_f :: "nat \<Rightarrow> f128 \<Rightarrow> machine \<Rightarrow> machine" where
  "upd_f i v m = m\<lparr>m_nreg := (m_nreg m)\<lparr>rf_f := (rf_f (m_nreg m))[i := v]\<rparr>\<rparr>"
definition upd_e :: "nat \<Rightarrow> f128 \<Rightarrow> machine \<Rightarrow> machine" where
  "upd_e i v m = m\<lparr>m_nreg := (m_nreg m)\<lparr>rf_e := (rf_e (m_nreg m))[i := v]\<rparr>\<rparr>"

lemma put_upd:
  "machine_ok m \<Longrightarrow> i < 8 \<Longrightarrow> put_r m i v = Some (upd_r i v m)"
  "machine_ok m \<Longrightarrow> i < 4 \<Longrightarrow> put_f m i w = Some (upd_f i w m)"
  "machine_ok m \<Longrightarrow> i < 4 \<Longrightarrow> put_e m i w = Some (upd_e i w m)"
  by (simp_all add: put_r_def put_f_def put_e_def machine_ok_def upd_r_def upd_f_def upd_e_def)

lemma rel_set_r:
  "jit_rel config base m s \<Longrightarrow> i < 8 \<Longrightarrow> jit_rel config base (upd_r i v m) (set_x (i + 8) v s)"
  by (auto simp: jit_rel_def machine_ok_def upd_r_def consts_rel_def pair_at_def nth_list_update)

lemma rel_set_f:
  "jit_rel config base m s \<Longrightarrow> i < 4 \<Longrightarrow>
     jit_rel config base (upd_f i (lo, hi) m) (set_d (2 * i + 1) hi (set_d (2 * i) lo s))"
  by (auto simp: jit_rel_def machine_ok_def upd_f_def consts_rel_def pair_at_def nth_list_update)

lemma rel_set_e:
  "jit_rel config base m s \<Longrightarrow> i < 4 \<Longrightarrow>
     jit_rel config base (upd_e i (lo, hi) m) (set_d (2 * i + 9) hi (set_d (2 * i + 8) lo s))"
  by (auto simp: jit_rel_def machine_ok_def upd_e_def consts_rel_def pair_at_def nth_list_update)

lemma frame_set:
  "r < 16 \<Longrightarrow> jit_frame base s (set_x r v s') = jit_frame base s s'"
  "jit_frame base s (set_d q w s') = jit_frame base s s'"
  "jit_frame base s (set_z z s') = jit_frame base s s'"
  "jit_frame base s (set_mode f s') = jit_frame base s s'"
  by (auto simp: jit_frame_def)

lemma rel_reads:
  assumes "jit_rel config base m s"
  shows "i < 8 \<Longrightarrow> rf_r (m_nreg m) ! i = xr s (i + 8)"
    and "i < 4 \<Longrightarrow> rf_f (m_nreg m) ! i = (dr s (2 * i), dr s (2 * i + 1))"
    and "i < 4 \<Longrightarrow> rf_e (m_nreg m) ! i = (dr s (2 * i + 8), dr s (2 * i + 9))"
    and "i < 4 \<Longrightarrow> rf_a (m_nreg m) ! i = (dr s (2 * i + 16), dr s (2 * i + 17))"
  using assms by (auto simp: jit_rel_def pair_at_def add.commute)

lemma rel_get:
  assumes "jit_rel config base m s"
  shows "i < 8 \<Longrightarrow> get_r m i = Some (xr s (i + 8))"
    and "i < 4 \<Longrightarrow> get_f m i = Some (dr s (2 * i), dr s (2 * i + 1))"
    and "i < 4 \<Longrightarrow> get_e m i = Some (dr s (2 * i + 8), dr s (2 * i + 9))"
    and "i < 4 \<Longrightarrow> get_a m i = Some (dr s (2 * i + 16), dr s (2 * i + 17))"
  using assms rel_reads [OF assms] by (simp_all add: jit_rel_def get_Some)

section \<open>Register numbers\<close>

lemma of_nat_small:
  assumes "i < 8"
  shows "unat (of_nat i :: u32) = i" "(of_nat i :: u32) < 8"
  using assms by (simp_all add: unat_of_nat word_less_nat_alt)

lemma r_reg_props:
  assumes "i < 8"
  shows "r_reg i < 32" "r_reg i < 31" "unat (r_reg i) = i + 8" "8 \<le> r_reg i" "r_reg i \<noteq> 0" "r_reg i \<noteq> 1" "r_reg i \<noteq> 2" "r_reg i \<noteq> 3"
proof -
  have "i = 0 \<or> i = 1 \<or> i = 2 \<or> i = 3 \<or> i = 4 \<or> i = 5 \<or> i = 6 \<or> i = 7" using assms by arith
  then show "r_reg i < 32" "r_reg i < 31" "unat (r_reg i) = i + 8" "8 \<le> r_reg i" "r_reg i \<noteq> 0" "r_reg i \<noteq> 1" "r_reg i \<noteq> 2" "r_reg i \<noteq> 3"
    by (elim disjE; simp add: r_reg_def)+
qed

lemma pair_regs_props:
  assumes "i < 4"
  shows "fst (f_regs i) < 32" "snd (f_regs i) < 32" "unat (fst (f_regs i)) = 2 * i" "unat (snd (f_regs i)) = 2 * i + 1"
    and "fst (e_regs i) < 32" "snd (e_regs i) < 32" "unat (fst (e_regs i)) = 2 * i + 8" "unat (snd (e_regs i)) = 2 * i + 9"
    and "fst (a_regs i) < 32" "snd (a_regs i) < 32" "unat (fst (a_regs i)) = 2 * i + 16" "unat (snd (a_regs i)) = 2 * i + 17"
proof -
  have "i = 0 \<or> i = 1 \<or> i = 2 \<or> i = 3" using assms by arith
  then show "fst (f_regs i) < 32" "snd (f_regs i) < 32" "unat (fst (f_regs i)) = 2 * i" "unat (snd (f_regs i)) = 2 * i + 1"
    and "fst (e_regs i) < 32" "snd (e_regs i) < 32" "unat (fst (e_regs i)) = 2 * i + 8" "unat (snd (e_regs i)) = 2 * i + 9"
    and "fst (a_regs i) < 32" "snd (a_regs i) < 32" "unat (fst (a_regs i)) = 2 * i + 16" "unat (snd (a_regs i)) = 2 * i + 17"
    by (elim disjE; simp add: f_regs_def e_regs_def a_regs_def Let_def)+
qed

end
