(* ===== verification/Jit_Arms.thy ===== *)
theory Jit_Arms
  imports Jit_Rel
begin

text \<open>
  Instruction by instruction (\<open>src/randomx/jit/compiler.rs\<close> against \<open>src/randomx/vm.rs\<close>): the
  code emitted for a bytecode instruction, run in a state related to the machine, ends in a
  state related to what the interpreter makes of the machine. Branches are in \<open>Jit_Body\<close>.
\<close>

section \<open>Straight code\<close>

text \<open>\<open>runs_to fpu ws s Q\<close>: the words run and end in a state with \<open>Q\<close>.\<close>

definition runs_to :: "fpu \<Rightarrow> u32 list \<Rightarrow> a64_state \<Rightarrow> (a64_state \<Rightarrow> bool) \<Rightarrow> bool" where
  "runs_to fpu ws s Q \<longleftrightarrow> returns Q (exec_words fpu ws s)"

lemma runs_append:
  "runs_to fpu as s R \<Longrightarrow> (\<And>s'. R s' \<Longrightarrow> runs_to fpu bs s' Q) \<Longrightarrow> runs_to fpu (as @ bs) s Q"
  unfolding runs_to_def exec_words_append by (rule returns_bind)

lemma runs_mono: "runs_to fpu ws s R \<Longrightarrow> (\<And>s'. R s' \<Longrightarrow> Q s') \<Longrightarrow> runs_to fpu ws s Q"
  unfolding runs_to_def by (rule returns_mono)

lemma runs_words: "exec_words fpu ws s = Some s' \<Longrightarrow> Q s' \<Longrightarrow> runs_to fpu ws s Q"
  by (simp add: runs_to_def)

lemma runs_Cons: "exec_words fpu [w] s = Some s' \<Longrightarrow> runs_to fpu ws s' Q \<Longrightarrow> runs_to fpu (w # ws) s Q"
  by (cases "decode w") (auto simp: runs_to_def split: Option.bind_splits)

text \<open>Constants into a temporary, and masking.\<close>

lemma runs_mov: "rd < 31 \<Longrightarrow> Q (set_x (unat rd) imm s) \<Longrightarrow> runs_to fpu (mov_imm64 rd imm) s Q"
  by (simp add: runs_to_def mov_imm64_exec)

lemma runs_and:
  assumes "rd < 31" "rn < 31" "tmp < 8" "rn \<noteq> tmp"
    and "\<And>s'. temps s s' \<Longrightarrow> xr s' (unat rn) = xr s (unat rn) \<Longrightarrow>
      (\<forall>r. r \<noteq> unat tmp \<longrightarrow> xr s' r = xr s r) \<Longrightarrow> dr s' = dr s \<Longrightarrow>
      Q (set_x (unat rd) (xr s (unat rn) AND msk) s')"
  shows "runs_to fpu (and_bitmask rd rn msk tmp) s Q"
proof -
  have t: "tmp < 31" "unat tmp < 8" "unat rn \<noteq> unat tmp"
    using assms(3, 4) by (auto simp: word_less_nat_alt word_unat_eq_iff)
  obtain v where v: "exec_words fpu (and_bitmask rd rn msk tmp) s =
     Some (set_x (unat rd) (xr s (unat rn) AND msk) (if encode_bitmask_imm msk = None then set_x (unat tmp) v s else s))"
    using and_bitmask_exec [OF assms(1, 2) t(1) assms(4)] by blast
  show ?thesis
    by (rule runs_words [OF v], rule assms(5)) (use t in \<open>auto simp: temps_set\<close>)
qed

lemma runs_tst:
  assumes "rn < 31" "tmp < 8" "rn \<noteq> tmp"
    and "\<And>s'. temps s s' \<Longrightarrow> (\<forall>r. r \<noteq> unat tmp \<longrightarrow> xr s' r = xr s r) \<Longrightarrow>
      Q (set_z (xr s (unat rn) AND msk = 0) s')"
  shows "runs_to fpu (tst_bitmask rn msk tmp) s Q"
proof -
  have t: "tmp < 31" "unat tmp < 8" using assms(2) by (auto simp: word_less_nat_alt)
  obtain v where v: "exec_words fpu (tst_bitmask rn msk tmp) s =
     Some (set_z (xr s (unat rn) AND msk = 0) (if encode_bitmask_imm msk = None then set_x (unat tmp) v s else s))"
    using tst_bitmask_exec [OF assms(1) t(1) assms(3)] by blast
  show ?thesis
    by (rule runs_words [OF v], rule assms(4)) (use t in \<open>auto simp: temps_set\<close>)
qed

section \<open>Operations on registers\<close>

definition reg_op :: "(u32 \<Rightarrow> u32 \<Rightarrow> u32 \<Rightarrow> u32) \<Rightarrow> (u64 \<Rightarrow> u64 \<Rightarrow> u64) \<Rightarrow> bool" where
  "reg_op oper f \<longleftrightarrow> (\<forall>fpu rd rn rm s. rd < 31 \<longrightarrow> rn < 31 \<longrightarrow> rm < 31 \<longrightarrow>
     exec_words fpu [oper rd rn rm] s = Some (set_x (unat rd) (f (xr s (unat rn)) (xr s (unat rm))) s))"

lemma reg_less: "(r :: u32) < 31 \<Longrightarrow> r < 32 \<and> unat r \<noteq> 31"
  by (auto simp: word_less_nat_alt)

lemma reg_ops:
  "reg_op add_reg (+)" "reg_op sub_reg (-)" "reg_op mul_reg (*)" "reg_op umulh_reg mulh"
  "reg_op smulh_reg smulh" "reg_op eor_reg (XOR)" "reg_op orr_reg (OR)"
  "reg_op rorv rotr64"
proof -
  have m: "unat (x AND 63 :: u64) = unat x mod 64" for x
  proof -
    have "x AND 63 = take_bit 6 x" by (simp add: take_bit_eq_mask mask_eq_exp_minus_1)
    then show ?thesis by (simp add: unsigned_take_bit_eq take_bit_eq_mod unat_mod)
  qed
  show "reg_op add_reg (+)" "reg_op sub_reg (-)" "reg_op mul_reg (*)" "reg_op umulh_reg mulh"
    "reg_op smulh_reg smulh" "reg_op eor_reg (XOR)" "reg_op orr_reg (OR)" "reg_op rorv rotr64"
    by (auto simp: reg_op_def jit_decode put_x_reg get_x_reg rotr64_def m dest!: reg_less)
qed

lemma reg_opD:
  "reg_op oper f \<Longrightarrow> rd < 31 \<Longrightarrow> rn < 31 \<Longrightarrow> rm < 31 \<Longrightarrow>
     exec_words fpu [oper rd rn rm] s = Some (set_x (unat rd) (f (xr s (unat rn)) (xr s (unat rm))) s)"
  by (simp add: reg_op_def)

section \<open>Scratchpad addresses and loads\<close>

lemma mask_addr: "(x :: u64) AND ucast (mk :: u32) = of_nat (unat (ucast x AND mk))"
proof -
  have "of_nat (unat (ucast x AND mk)) = (ucast (ucast x AND mk) :: u64)" by simp
  also have "\<dots> = x AND ucast mk" by (rule bit_word_eqI) (auto simp: bit_simps dest: bit_imp_le_length)
  finally show ?thesis by simp
qed

lemma runs_mem_addr:
  assumes "\<And>s'. temps s s' \<Longrightarrow>
      xr s' 0 = of_nat (masked_addr (if bi_src b < 8 then xr s (bi_src b + 8) else 0) b) \<Longrightarrow> Q s'"
  shows "runs_to fpu (emit_mem_addr b) s Q"
proof -
  define x where "x = (if bi_src b < 8 then xr s (bi_src b + 8) else 0)"
  have first: "runs_to fpu
      (if bi_src b < 8 then mov_imm64 X0 (bi_imm b) @ [add_reg X0 (r_reg (bi_src b)) X0]
       else mov_imm64 X0 (bi_imm b)) s (\<lambda>s'. temps s s' \<and> xr s' 0 = x + bi_imm b)"
  proof (cases "bi_src b < 8")
    case True
    have "runs_to fpu (mov_imm64 X0 (bi_imm b) @ [add_reg X0 (r_reg (bi_src b)) X0]) s
        (\<lambda>s'. temps s s' \<and> xr s' 0 = x + bi_imm b)"
      by (rule runs_append [where R = "\<lambda>s'. s' = set_x 0 (bi_imm b) s"])
        (use True r_reg_props [OF True] in
          \<open>auto intro!: runs_mov runs_words [OF reg_opD [OF reg_ops(1)]] simp: temps_set x_def\<close>)
    then show ?thesis using True by simp
  next
    case False
    then show ?thesis by (auto intro!: runs_mov simp: temps_set x_def)
  qed
  show ?thesis
    unfolding emit_mem_addr_def
  proof (rule runs_append [OF first], elim conjE)
    fix s' assume s': "temps s s'" "xr s' 0 = x + bi_imm b"
    show "runs_to fpu (and_bitmask X0 X0 (ucast (bi_mem_mask b)) X1) s' Q"
    proof (rule runs_and)
      fix s'' assume "temps s' s''"
      then show "Q (set_x (unat X0) (xr s' (unat X0) AND ucast (bi_mem_mask b)) s'')"
        using s' by (intro assms) (auto simp: temps_set x_def masked_addr_def mask_addr intro: temps_trans)
    qed simp_all
  qed
qed

lemma rel_load64:
  assumes "jit_rel config base m s" "load64 (m_sp m) off = Some v"
  shows "load_word s (base + of_nat off) = Some v"
  using assms load_mem_holds [of "memory s" base "m_sp m" off 8]
  by (auto simp: jit_rel_def load64_def load_word_def split: if_splits)

lemma runs_load:
  assumes "jit_rel config base m s" "load64 (m_sp m) off = Some v" "xr s 0 = of_nat off"
    and "Q (set_x 0 v s)"
  shows "runs_to fpu emit_mem_load s Q"
  using assms rel_load64 [OF assms(1, 2)]
  by (intro runs_words) (auto simp: emit_mem_load_def jit_decode put_x_def get_x_def jit_rel_def consts_rel_def)

section \<open>Integer instructions\<close>

text \<open>What \<open>int_op\<close> does to the machine, on the side of the code.\<close>

definition int_result :: "nat \<Rightarrow> u64 \<Rightarrow> a64_state \<Rightarrow> a64_state \<Rightarrow> bool" where
  "int_result dst v s s' \<longleftrightarrow> (\<exists>s1. temps s s1 \<and> s' = set_x (dst + 8) v s1)"

lemma int_resultI: "temps s s1 \<Longrightarrow> s' = set_x (dst + 8) v s1 \<Longrightarrow> int_result dst v s s'"
  by (auto simp: int_result_def)

definition simulates :: "program_configuration \<Rightarrow> u64 \<Rightarrow> machine \<Rightarrow> a64_state \<Rightarrow> a64_state \<Rightarrow> bool" where
  "simulates config base m s s' \<longleftrightarrow> jit_rel config base m s' \<and> jit_frame base s s'"

lemma int_result_sim:
  assumes "jit_rel config base m s" "dst < 8" "int_result dst v s s'"
  shows "simulates config base (upd_r dst v m) s s'"
proof -
  obtain s1 where "temps s s1" "s' = set_x (dst + 8) v s1"
    using assms(3) by (auto simp: int_result_def)
  then show ?thesis
    using rel_set_r [OF temps_rel [OF _ assms(1)] assms(2)] temps_frame assms(2)
    by (auto simp: simulates_def frame_set)
qed

lemma int_op_Some:
  assumes "jit_rel config base m s" "bi_dst b < 8" "int_op m b x f = Some m'"
  shows "\<exists>v. x = Some v \<and> m' = upd_r (bi_dst b) (f (xr s (bi_dst b + 8)) v) m"
  using assms put_upd(1) [of m "bi_dst b"] rel_get(1) [OF assms(1)]
  by (auto simp: int_op_def jit_rel_def split: Option.bind_splits)

lemma int_op_sim:
  assumes "jit_rel config base m s" "bi_dst b < 8" "int_op m b x f = Some m'"
    and "\<And>v. x = Some v \<Longrightarrow> runs_to fpu ws s (int_result (bi_dst b) (f (xr s (bi_dst b + 8)) v) s)"
  shows "runs_to fpu ws s (simulates config base m' s)"
proof -
  obtain v where v: "x = Some v" "m' = upd_r (bi_dst b) (f (xr s (bi_dst b + 8)) v) m"
    using int_op_Some [OF assms(1-3)] by blast
  show ?thesis
    by (rule runs_mono [OF assms(4) [OF v(1)]]) (simp add: v(2) int_result_sim [OF assms(1, 2)])
qed

lemma runs_mem_op:
  assumes "reg_op oper f" "jit_rel config base m s" "bi_dst b < 8" "mem_operand m b = Some v"
  shows "runs_to fpu (emit_mem_op oper b) s (int_result (bi_dst b) (f (xr s (bi_dst b + 8)) v) s)"
  unfolding emit_mem_op_def
proof (rule runs_append [OF runs_mem_addr])
  fix s' assume s': "temps s s' \<and> xr s' 0 = of_nat (masked_addr (if bi_src b < 8 then xr s (bi_src b + 8) else 0) b)"
  have load: "load64 (m_sp m) (masked_addr (if bi_src b < 8 then xr s (bi_src b + 8) else 0) b) = Some v"
    using assms(4) rel_get(1) [OF assms(2)] by (auto simp: mem_operand_def src_or_zero_def split: if_splits)
  have rel: "jit_rel config base m s'" using s' temps_rel assms(2) by blast
  show "runs_to fpu (emit_mem_load @ [oper (r_reg (bi_dst b)) (r_reg (bi_dst b)) X0]) s'
      (int_result (bi_dst b) (f (xr s (bi_dst b + 8)) v) s)"
  proof (rule runs_append [OF runs_load [OF rel load, where Q = "\<lambda>x. x = set_x 0 v s'"]])
    fix x assume x: "x = set_x 0 v s'"
    have t: "temps s x" using x s' by (simp add: temps_set)
    then have "xr x (bi_dst b + 8) = xr s (bi_dst b + 8)" "xr x 0 = v" using x by (auto simp: temps_def)
    then show "runs_to fpu [oper (r_reg (bi_dst b)) (r_reg (bi_dst b)) X0] x
        (int_result (bi_dst b) (f (xr s (bi_dst b + 8)) v) s)"
      using r_reg_props [OF assms(3)]
      by (intro runs_words [OF reg_opD [OF assms(1)]]) (auto intro: int_resultI [OF t])
  qed (use s' in simp_all)
qed simp

lemma runs_reg_op:
  assumes "reg_op oper f" "jit_rel config base m s" "bi_dst b < 8" "src_or_imm m b = Some v"
  shows "runs_to fpu (emit_reg_op oper b) s (int_result (bi_dst b) (f (xr s (bi_dst b + 8)) v) s)"
proof (cases "bi_src b < 8")
  case True
  then have v: "v = xr s (bi_src b + 8)" using assms(4) rel_get(1) [OF assms(2)] by (simp add: src_or_imm_def)
  show ?thesis
    using True r_reg_props [OF assms(3)] r_reg_props [OF True] v
    by (auto simp: emit_reg_op_def int_result_def Let_def intro!: runs_words [OF reg_opD [OF assms(1)]] exI [of _ s])
next
  case False
  then have v: "v = bi_imm b" using assms(4) by (simp add: src_or_imm_def)
  have t: "temps s (set_x 0 (bi_imm b) s)" by (simp add: temps_set)
  have "runs_to fpu (mov_imm64 X0 (bi_imm b) @ [oper (r_reg (bi_dst b)) (r_reg (bi_dst b)) X0]) s
      (int_result (bi_dst b) (f (xr s (bi_dst b + 8)) v) s)"
    by (rule runs_append [where R = "\<lambda>s'. s' = set_x 0 (bi_imm b) s"])
      (use r_reg_props [OF assms(3)] v in
        \<open>auto intro!: runs_mov runs_words [OF reg_opD [OF assms(1)]] int_resultI [OF t]\<close>)
  then show ?thesis using False by (simp add: emit_reg_op_def Let_def)
qed

lemma runs_reg_reg:
  assumes "reg_op oper f" "bi_dst b < 8" "bi_src b < 8"
  shows "runs_to fpu [oper (r_reg (bi_dst b)) (r_reg (bi_dst b)) (r_reg (bi_src b))] s
     (int_result (bi_dst b) (f (xr s (bi_dst b + 8)) (xr s (bi_src b + 8))) s)"
  using r_reg_props [OF assms(2)] r_reg_props [OF assms(3)]
  by (auto intro!: runs_words [OF reg_opD [OF assms(1)]] int_resultI [OF temps_refl])

lemma small_imm:
  assumes "(x :: u64) < 4096"
  shows "(ucast x :: u32) < 4096" "ucast (ucast x :: u32) = x"
proof -
  have n: "unat x < 4096" using assms by (simp add: word_less_nat_alt)
  have u: "unat (ucast x :: u32) = unat x"
    using n by (simp only: unsigned_ucast_eq) (rule take_bit_nat_eq_self, simp)
  show "(ucast x :: u32) < 4096" using n u by (simp add: word_less_nat_alt)
  show "ucast (ucast x :: u32) = x"
    by (rule word_unat_eq_iff [THEN iffD2]) (simp add: unat_ucast_up u)
qed

lemma runs_iadd_rs:
  assumes "bi_dst b < 8" "bi_src b < 8" "bi_shift b < 4"
  shows "runs_to fpu (emit_iadd_rs b) s
     (int_result (bi_dst b) (xr s (bi_dst b + 8) + (push_bit (bi_shift b) (xr s (bi_src b + 8)) + bi_imm b)) s)"
proof -
  let ?d = "bi_dst b + 8"
  define dst where "dst = r_reg (bi_dst b)"
  define y where "y = xr s ?d + push_bit (bi_shift b) (xr s (bi_src b + 8))"
  note d = r_reg_props [OF assms(1), folded dst_def] and sr = r_reg_props [OF assms(2)]
  have ne: "?d \<noteq> 31" "bi_src b + 8 \<noteq> 31" using assms by simp_all
  have k: "(of_nat (bi_shift b) :: u32) < 64" "unat (of_nat (bi_shift b) :: u32) = bi_shift b"
    using assms(3) by (simp_all add: unat_of_nat word_less_nat_alt)
  have first: "exec_words fpu (if 0 < bi_shift b then [add_reg_shifted dst dst (r_reg (bi_src b)) (of_nat (bi_shift b))]
      else [add_reg dst dst (r_reg (bi_src b))]) s = Some (set_x ?d y s)"
    using d sr k ne by (auto simp: jit_decode put_x_reg get_x_reg y_def)
  have rest: "runs_to fpu (if bi_imm b \<noteq> 0 then
         (if bi_imm b < 4096 then [add_imm dst dst (ucast (bi_imm b))]
          else if NOT (bi_imm b) + 1 < 4096 then [sub_imm dst dst (ucast (NOT (bi_imm b) + 1))]
          else mov_imm64 X0 (bi_imm b) @ [add_reg dst dst X0]) else []) (set_x ?d y s)
      (int_result (bi_dst b) (y + bi_imm b) s)"
  proof -
    have "NOT (bi_imm b) + 1 = - bi_imm b" by (simp add: minus_eq_not_plus_1)
    then have neg: "y - (NOT (bi_imm b) + 1) = y + bi_imm b" by simp
    consider "bi_imm b = 0" | "bi_imm b \<noteq> 0" "bi_imm b < 4096"
      | "bi_imm b \<noteq> 0" "\<not> bi_imm b < 4096" "NOT (bi_imm b) + 1 < 4096"
      | "bi_imm b \<noteq> 0" "\<not> bi_imm b < 4096" "\<not> NOT (bi_imm b) + 1 < 4096" by blast
    then show ?thesis
    proof cases
      case 1
      then show ?thesis by (auto simp: runs_to_def intro: int_resultI [OF temps_refl])
    next
      case 2
      then show ?thesis using d small_imm [OF 2(2)]
        by (auto simp: runs_to_def jit_decode intro!: int_resultI [OF temps_refl])
    next
      case 3
      then show ?thesis using d small_imm [OF 3(3)]
        by (auto simp: runs_to_def jit_decode simp del: not_not intro!: int_resultI [OF temps_refl])
          (simp only: neg)
    next
      case 4
      have t: "temps s (set_x 0 (bi_imm b) s)" by (simp add: temps_set)
      have "runs_to fpu (mov_imm64 X0 (bi_imm b) @ [add_reg dst dst X0]) (set_x ?d y s)
          (int_result (bi_dst b) (y + bi_imm b) s)"
      proof (rule runs_append [where R = "\<lambda>s'. s' = set_x 0 (bi_imm b) (set_x ?d y s)"])
        show "runs_to fpu (mov_imm64 X0 (bi_imm b)) (set_x ?d y s) (\<lambda>s'. s' = set_x 0 (bi_imm b) (set_x ?d y s))"
          by (rule runs_mov) simp_all
        fix s' assume s': "s' = set_x 0 (bi_imm b) (set_x ?d y s)"
        have "set_x ?d (y + bi_imm b) s' = set_x ?d (y + bi_imm b) (set_x 0 (bi_imm b) s)"
          by (simp add: s' set_x_def fun_upd_twist)
        then show "runs_to fpu [add_reg dst dst X0] s' (int_result (bi_dst b) (y + bi_imm b) s)"
          using d by (intro runs_words [OF reg_opD [OF reg_ops(1)]]) (auto simp: s' intro!: int_resultI [OF t])
      qed
      then show ?thesis using 4 by simp
    qed
  qed
  have "runs_to fpu (emit_iadd_rs b) s (int_result (bi_dst b) (y + bi_imm b) s)"
    unfolding emit_iadd_rs_def Let_def dst_def [symmetric]
    by (rule runs_append [OF runs_words [OF first, where Q = "\<lambda>s'. s' = set_x ?d y s"]]) (use rest in simp_all)
  then show ?thesis by (simp add: y_def add.assoc)
qed

section \<open>Rotations\<close>

lemma ror_words:
  assumes "k < 64"
  shows "drop_bit k x OR push_bit (64 - k) (x :: u64) = rotate_right k x"
proof (rule bit_word_eqI)
  fix n assume "n < LENGTH(64)"
  then have n: "n < 64" by simp
  show "bit (drop_bit k x OR push_bit (64 - k) x) n = bit (rotate_right k x) n"
  proof (cases "n + k < 64")
    case True
    then show ?thesis using n assms by (auto simp: rotate_right_def bit_word_rotr_iff bit_simps ac_simps)
  next
    case False
    then have "(n + k) mod 64 = n + k - 64" "n - (64 - k) = n + k - 64" using n assms by (auto simp: mod_if)
    then show ?thesis using n assms False
      by (auto simp: rotate_right_def bit_word_rotr_iff bit_simps dest: bit_imp_le_length)
  qed
qed

lemma rotl_rotr:
  assumes "k < 64"
  shows "rotate_left k (x :: u64) = rotate_right ((64 - k) mod 64) x"
proof (cases "k = 0")
  case True
  then show ?thesis
    by (simp add: rotate_left_def rotate_right_def word_rotl_eq_word_rotr)
      (rule bit_word_eqI, simp add: bit_word_rotr_iff)
next
  case False
  then have "(64 - k) mod 64 = 64 - k" using assms by simp
  then show ?thesis
    using assms False by (simp add: rotate_left_def rotate_right_def word_rotl_eq_word_rotr)
qed

lemma and_63: "unat (x AND 63 :: u64) = unat x mod 64" "unat (y AND 63 :: u32) = unat y mod 64"
proof -
  have "x AND 63 = take_bit 6 x" "y AND 63 = take_bit 6 y"
    by (simp_all add: take_bit_eq_mask mask_eq_exp_minus_1)
  then show "unat (x AND 63) = unat x mod 64" "unat (y AND 63) = unat y mod 64"
    by (simp_all add: unsigned_take_bit_eq take_bit_eq_mod unat_mod)
qed

lemma unat_down: "unat (x :: u64) < 2 ^ 32 \<Longrightarrow> unat (ucast x :: u32) = unat x"
  by (simp only: unsigned_ucast_eq) (rule take_bit_nat_eq_self, simp)

lemma runs_ror_imm:
  assumes "bi_dst b < 8" "k < 64"
  shows "runs_to fpu [ror_imm (r_reg (bi_dst b)) (r_reg (bi_dst b)) k] s
     (int_result (bi_dst b) (rotate_right (unat k) (xr s (bi_dst b + 8))) s)"
proof -
  have "unat k < 64" using assms(2) by (simp add: word_less_nat_alt)
  then show ?thesis
    using r_reg_props [OF assms(1)] assms ror_words [of "unat k" "xr s (bi_dst b + 8)"]
    by (auto simp: runs_to_def jit_decode put_x_reg get_x_reg intro!: int_resultI [OF temps_refl])
qed

lemma runs_iror_r:
  assumes "jit_rel config base m s" "bi_dst b < 8" "src_or_imm m b = Some v"
  shows "runs_to fpu (emit_iror_r b) s (int_result (bi_dst b) (rotr64 (xr s (bi_dst b + 8)) v) s)"
proof (cases "bi_src b < 8")
  case True
  then have "v = xr s (bi_src b + 8)" using assms(3) rel_get(1) [OF assms(1)] by (simp add: src_or_imm_def)
  then show ?thesis using True runs_reg_reg [OF reg_ops(8) assms(2) True] by (simp add: emit_iror_r_def Let_def)
next
  case False
  have "unat (bi_imm b AND 63) < 2 ^ 32" by (simp add: and_63 less_le_trans [OF mod_less_divisor])
  then have "unat (ucast (bi_imm b AND 63) :: u32) = unat (bi_imm b AND 63)" by (rule unat_down)
  then show ?thesis
    using False assms(3) runs_ror_imm [OF assms(2), of "ucast (bi_imm b AND 63)" fpu s]
    by (simp add: emit_iror_r_def Let_def src_or_imm_def rotr64_def and_63 word_less_nat_alt)
qed

lemma unat_neg_mod: "unat (- x :: u64) mod 64 = (64 - unat x mod 64) mod 64"
proof -
  have d: "(64 :: nat) dvd 2 ^ 64" by (simp add: dvd_def)
  have "(unat x + unat (- x)) mod 2 ^ 64 = 0"
    using unat_word_ariths(1) [of x "- x"] by simp
  then have "(unat x + unat (- x)) mod 64 = 0" using d by (metis dvd_trans mod_eq_0_iff_dvd)
  then have "(unat x mod 64 + unat (- x) mod 64) mod 64 = 0" by (simp add: mod_add_eq)
  then have "64 dvd unat x mod 64 + unat (- x) mod 64" by (simp add: mod_eq_0_iff_dvd)
  then obtain q where q: "unat x mod 64 + unat (- x) mod 64 = 64 * q" by (rule dvdE)
  have "b = (64 - a) mod 64" if "a < 64" "b < 64" "a + b = 64 * q" for a b :: nat
  proof (cases "q = 0")
    case True
    then show ?thesis using that by simp
  next
    case False
    then have "q = 1" using that by linarith
    then have "b = 64 - a" "64 - a < 64" using that by linarith+
    then show ?thesis by simp
  qed
  from this [OF _ _ q] show ?thesis by simp
qed

lemma runs_irol_r:
  assumes "jit_rel config base m s" "bi_dst b < 8" "src_or_imm m b = Some v"
  shows "runs_to fpu (emit_irol_r b) s (int_result (bi_dst b) (rotl64 (xr s (bi_dst b + 8)) v) s)"
proof (cases "bi_src b < 8")
  case True
  note r = r_reg_props [OF assms(2)] r_reg_props [OF True]
  have v: "v = xr s (bi_src b + 8)"
    using assms(3) rel_get(1) [OF assms(1)] True by (simp add: src_or_imm_def)
  have t: "temps s (set_x 0 (- v) s)" by (simp add: temps_set)
  have "exec_words fpu [neg_reg X0 (r_reg (bi_src b))] s = Some (set_x 0 (- v) s)"
    using r True by (simp add: jit_decode put_x_reg get_x_reg v)
  note n = this
  have eq: "rotl64 (xr s (bi_dst b + 8)) v = rotr64 (xr s (bi_dst b + 8)) (- v)"
    by (simp add: rotl64_def rotr64_def and_63 rotl_rotr unat_neg_mod)
  show ?thesis
    unfolding emit_irol_r_def Let_def if_P [OF True] eq
    by (rule runs_Cons [OF n], rule runs_words [OF reg_opD [OF reg_ops(8)]])
      (use r in \<open>auto intro: int_resultI [OF t]\<close>)
next
  case False
  then have v: "v = bi_imm b" using assms(3) by (simp add: src_or_imm_def)
  define j where "j = unat v mod 64"
  have j: "j < 64" by (simp add: j_def)
  have "bi_imm b AND 63 = of_nat j"
    by (rule word_unat_eq_iff [THEN iffD2]) (use j in \<open>simp add: and_63 v j_def unat_of_nat\<close>)
  then have "64 - (bi_imm b AND 63) = of_nat (64 - j)" using j by simp
  then have "unat (64 - (bi_imm b AND 63)) = unat (of_nat (64 - j) :: u64)" by (rule arg_cong)
  also have "\<dots> = 64 - j" by (rule unat_of_nat_64) simp
  finally have "unat (ucast (64 - (bi_imm b AND 63)) :: u32) = 64 - j" using unat_down by simp
  then have k: "unat (ucast (64 - (bi_imm b AND 63)) AND 63 :: u32) = (64 - j) mod 64"
    by (simp only: and_63)
  then have "ucast (64 - (bi_imm b AND 63)) AND 63 < (64 :: u32)"
    by (simp only: word_less_nat_alt) simp
  from runs_ror_imm [OF assms(2) this, of fpu s] show ?thesis
    using False unfolding k emit_irol_r_def Let_def
    by (simp add: rotl64_def rotl_rotr and_63 v j_def)
qed

lemma runs_ineg_r:
  assumes "bi_dst b < 8"
  shows "runs_to fpu (emit_ineg_r b) s (int_result (bi_dst b) (NOT (xr s (bi_dst b + 8)) + 1) s)"
  using r_reg_props [OF assms] assms
  by (auto simp: runs_to_def emit_ineg_r_def jit_decode put_x_reg get_x_reg minus_eq_not_plus_1 intro!: int_resultI [OF temps_refl])

lemma mov_reg_exec:
  assumes "rd < 31" "rn < 31"
  shows "exec_words fpu [mov_reg rd rn] s = Some (set_x (unat rd) (xr s (unat rn)) s)"
  using assms by (auto simp: jit_decode put_x_reg get_x_reg dest!: reg_less)

lemma runs_iswap_r:
  assumes "jit_rel config base m s" "bi_dst b < 8" "bi_src b < 8"
  shows "runs_to fpu (emit_iswap_r b) s
     (simulates config base (upd_r (bi_src b) (xr s (bi_dst b + 8)) (upd_r (bi_dst b) (xr s (bi_src b + 8)) m)) s)"
proof -
  note r = r_reg_props [OF assms(2)] r_reg_props [OF assms(3)]
  define s0 where "s0 = set_x 0 (xr s (bi_dst b + 8)) s"
  have t: "temps s s0" by (simp add: s0_def temps_set)
  have rel: "jit_rel config base (upd_r (bi_src b) (xr s (bi_dst b + 8)) (upd_r (bi_dst b) (xr s (bi_src b + 8)) m))
      (set_x (bi_src b + 8) (xr s (bi_dst b + 8)) (set_x (bi_dst b + 8) (xr s (bi_src b + 8)) s0))"
    by (intro rel_set_r temps_rel [OF t] assms)
  have fr: "jit_frame base s (set_x (bi_src b + 8) (xr s (bi_dst b + 8)) (set_x (bi_dst b + 8) (xr s (bi_src b + 8)) s0))"
    using assms temps_frame [OF t] by (simp add: frame_set)
  show ?thesis
    unfolding emit_iswap_r_def Let_def
    using rel fr r assms(2, 3) by (simp add: runs_to_def jit_decode put_x_reg get_x_reg simulates_def s0_def)
qed

end
