(* ===== verification/Jit_Arms_Fp.thy ===== *)
theory Jit_Arms_Fp
  imports Jit_Arms
begin

text \<open>
  The floating-point instructions, \<open>CFROUND\<close> and \<open>ISTORE\<close>, as in \<open>Jit_Arms\<close>: the emitted code
  (\<open>src/randomx/jit/compiler.rs\<close>) simulates the interpreter (\<open>src/randomx/vm.rs\<close>).
\<close>

section \<open>Arithmetic on pairs\<close>

lemma fp_mode_rx: "rm < 4 \<Longrightarrow> fp_mode (rx_fpcr rm) = Some rm"
proof -
  assume "rm < 4"
  then have "rm = 0 \<or> rm = 1 \<or> rm = 2 \<or> rm = 3" by arith
  then show ?thesis by (elim disjE; simp only:; code_simp)
qed

definition pair_op :: "(u32 \<Rightarrow> u32 \<Rightarrow> u32 \<Rightarrow> u32) \<Rightarrow> (fpu \<Rightarrow> nat \<Rightarrow> f64 \<Rightarrow> f64 \<Rightarrow> f64) \<Rightarrow> bool" where
  "pair_op oper g \<longleftrightarrow> (\<forall>fpu rd rn rm s k. rd < 32 \<longrightarrow> rn < 32 \<longrightarrow> rm < 32 \<longrightarrow> fpcr s = rx_fpcr k \<longrightarrow> k < 4 \<longrightarrow>
     exec_words fpu [oper rd rn rm] s = Some (set_d (unat rd) (g fpu k (dr s (unat rn)) (dr s (unat rm))) s))"

lemma pair_ops:
  "pair_op fadd fp_add" "pair_op fsub fp_sub" "pair_op fmul fp_mul" "pair_op fdiv fp_div"
  "pair_op eor_v8b (\<lambda>fpu k a b. a XOR b)"
  by (auto simp: pair_op_def jit_decode fp_mode_rx)

lemma pair_opD:
  "pair_op oper g \<Longrightarrow> rd < 32 \<Longrightarrow> rn < 32 \<Longrightarrow> rm < 32 \<Longrightarrow> fpcr s = rx_fpcr k \<Longrightarrow> k < 4 \<Longrightarrow>
     exec_words fpu [oper rd rn rm] s = Some (set_d (unat rd) (g fpu k (dr s (unat rn)) (dr s (unat rm))) s)"
  by (simp add: pair_op_def)

lemma runs_pair:
  assumes "pair_op oper g" "fpcr s = rx_fpcr k" "k < 4"
    and "fst d < 32" "snd d < 32" "fst x < 32" "snd x < 32"
    and "unat (snd d) \<noteq> unat (fst d)" "unat (snd x) \<noteq> unat (fst d)"
    and "Q (set_d (unat (snd d)) (g fpu k (dr s (unat (snd d))) (dr s (unat (snd x))))
           (set_d (unat (fst d)) (g fpu k (dr s (unat (fst d))) (dr s (unat (fst x)))) s))"
  shows "runs_to fpu (emit_pair_op oper d x) s Q"
  unfolding emit_pair_op_def
  by (rule runs_Cons [OF pair_opD [OF assms(1)]], (rule assms)+,
      rule runs_words [OF pair_opD [OF assms(1)]]) (use assms in simp_all)

text \<open>What \<open>flt_op_f\<close> and \<open>flt_op_e\<close> do, on the side of the code: a pair of registers is set.\<close>

definition pair_result :: "nat \<Rightarrow> nat \<Rightarrow> f128 \<Rightarrow> a64_state \<Rightarrow> a64_state \<Rightarrow> bool" where
  "pair_result k k' v s s' \<longleftrightarrow> (\<exists>s1. temps s s1 \<and> s' = set_d k' (snd v) (set_d k (fst v) s1))"

lemma pair_resultI: "temps s s1 \<Longrightarrow> s' = set_d k' (snd v) (set_d k (fst v) s1) \<Longrightarrow> pair_result k k' v s s'"
  by (auto simp: pair_result_def)

lemma pair_result_f:
  assumes "jit_rel config base m s" "i < 4" "pair_result (2 * i) (2 * i + 1) v s s'"
  shows "simulates config base (upd_f i v m) s s'"
  using assms rel_set_f [OF temps_rel [OF _ assms(1)] assms(2), of _ "fst v" "snd v"] temps_frame [of s]
  by (auto simp: pair_result_def simulates_def frame_set)

lemma pair_result_e:
  assumes "jit_rel config base m s" "i < 4" "pair_result (2 * i + 8) (2 * i + 9) v s s'"
  shows "simulates config base (upd_e i v m) s s'"
  using assms rel_set_e [OF temps_rel [OF _ assms(1)] assms(2), of _ "fst v" "snd v"] temps_frame [of s]
  by (auto simp: pair_result_def simulates_def frame_set)

lemma flt_op_f_sim:
  assumes "jit_rel config base m s" "bi_dst b < 4" "flt_op_f m b x f = Some m'"
    and "\<And>v. x = Some v \<Longrightarrow> runs_to fpu ws s (pair_result (2 * bi_dst b) (2 * bi_dst b + 1)
      (f (dr s (2 * bi_dst b)) (fst v), f (dr s (2 * bi_dst b + 1)) (snd v)) s)"
  shows "runs_to fpu ws s (simulates config base m' s)"
proof -
  obtain v where v: "x = Some v"
    "m' = upd_f (bi_dst b) (f (dr s (2 * bi_dst b)) (fst v), f (dr s (2 * bi_dst b + 1)) (snd v)) m"
    using assms(1-3) put_upd(2) [of m "bi_dst b"] rel_get(2) [OF assms(1, 2)]
    by (auto simp: flt_op_f_def jit_rel_def split: Option.bind_splits)
  show ?thesis
    by (rule runs_mono [OF assms(4) [OF v(1)]]) (simp add: v(2) pair_result_f [OF assms(1, 2)])
qed

lemma flt_op_e_sim:
  assumes "jit_rel config base m s" "bi_dst b < 4" "flt_op_e m b x f = Some m'"
    and "\<And>v. x = Some v \<Longrightarrow> runs_to fpu ws s (pair_result (2 * bi_dst b + 8) (2 * bi_dst b + 9)
      (f (dr s (2 * bi_dst b + 8)) (fst v), f (dr s (2 * bi_dst b + 9)) (snd v)) s)"
  shows "runs_to fpu ws s (simulates config base m' s)"
proof -
  obtain v where v: "x = Some v"
    "m' = upd_e (bi_dst b) (f (dr s (2 * bi_dst b + 8)) (fst v), f (dr s (2 * bi_dst b + 9)) (snd v)) m"
    using assms(1-3) put_upd(3) [of m "bi_dst b"] rel_get(3) [OF assms(1, 2)]
    by (auto simp: flt_op_e_def jit_rel_def split: Option.bind_splits)
  show ?thesis
    by (rule runs_mono [OF assms(4) [OF v(1)]]) (simp add: v(2) pair_result_e [OF assms(1, 2)])
qed

lemma rel_mode: "jit_rel config base m s \<Longrightarrow> fpcr s = rx_fpcr (m_rm m) \<and> m_rm m < 4"
  by (simp add: jit_rel_def)

text \<open>With an \<open>a\<close> register, or with \<open>d25\<close> and \<open>d26\<close> after the temporaries are set.\<close>

lemma runs_f_a:
  assumes "pair_op oper g" "jit_rel config base m s" "i < 4" "j < 4"
  shows "runs_to fpu (emit_pair_op oper (f_regs i) (a_regs j)) s (pair_result (2 * i) (2 * i + 1)
     (g fpu (m_rm m) (dr s (2 * i)) (dr s (2 * j + 16)), g fpu (m_rm m) (dr s (2 * i + 1)) (dr s (2 * j + 17))) s)"
  using pair_regs_props [OF assms(3)] pair_regs_props [OF assms(4)] assms(3, 4)
  by (intro runs_pair [OF assms(1) rel_mode [OF assms(2), THEN conjunct1] rel_mode [OF assms(2), THEN conjunct2]])
    (auto intro!: pair_resultI [OF temps_refl])

lemma runs_e_a:
  assumes "pair_op oper g" "jit_rel config base m s" "i < 4" "j < 4"
  shows "runs_to fpu (emit_pair_op oper (e_regs i) (a_regs j)) s (pair_result (2 * i + 8) (2 * i + 9)
     (g fpu (m_rm m) (dr s (2 * i + 8)) (dr s (2 * j + 16)), g fpu (m_rm m) (dr s (2 * i + 9)) (dr s (2 * j + 17))) s)"
  using pair_regs_props [OF assms(3)] pair_regs_props [OF assms(4)] assms(3, 4)
  by (intro runs_pair [OF assms(1) rel_mode [OF assms(2), THEN conjunct1] rel_mode [OF assms(2), THEN conjunct2]])
    (auto intro!: pair_resultI [OF temps_refl])

lemma runs_f_tmp:
  assumes "pair_op oper g" "jit_rel config base m s" "temps s s'" "i < 4"
  shows "runs_to fpu (emit_pair_op oper (f_regs i) (25, 26)) s' (pair_result (2 * i) (2 * i + 1)
     (g fpu (m_rm m) (dr s (2 * i)) (dr s' 25), g fpu (m_rm m) (dr s (2 * i + 1)) (dr s' 26)) s)"
proof -
  have d: "dr s' (2 * i) = dr s (2 * i)" "dr s' (2 * i + 1) = dr s (2 * i + 1)" "2 * i \<noteq> 26"
    using assms(3, 4) by (auto simp: temps_def)
  note m = rel_mode [OF temps_rel [OF assms(3, 2)]]
  show ?thesis
    using pair_regs_props [OF assms(4)] d
    by (intro runs_pair [OF assms(1) m [THEN conjunct1] m [THEN conjunct2]])
      (auto intro!: pair_resultI [OF assms(3)])
qed

lemma runs_e_tmp:
  assumes "pair_op oper g" "jit_rel config base m s" "temps s s'" "i < 4"
  shows "runs_to fpu (emit_pair_op oper (e_regs i) (25, 26)) s' (pair_result (2 * i + 8) (2 * i + 9)
     (g fpu (m_rm m) (dr s (2 * i + 8)) (dr s' 25), g fpu (m_rm m) (dr s (2 * i + 9)) (dr s' 26)) s)"
proof -
  have d: "dr s' (2 * i + 8) = dr s (2 * i + 8)" "dr s' (2 * i + 9) = dr s (2 * i + 9)" "2 * i + 8 \<noteq> 26"
    using assms(3, 4) by (auto simp: temps_def)
  note m = rel_mode [OF temps_rel [OF assms(3, 2)]]
  show ?thesis
    using pair_regs_props [OF assms(4)] d
    by (intro runs_pair [OF assms(1) m [THEN conjunct1] m [THEN conjunct2]])
      (auto intro!: pair_resultI [OF assms(3)])
qed

section \<open>Integers from the scratchpad\<close>

lemma scvtf_scast: "scvtf (scast (w :: u32)) = Some (i32_to_f64 w)"
proof -
  have "(ucast (scast w :: u64) :: u32) = w" by (rule bit_word_eqI) (auto simp: bit_simps)
  then show ?thesis by (simp add: scvtf_def)
qed

lemma cvt_words:
  "decode (0xB9800000 OR push_bit 5 X1 OR X0) = Some (LDRSWi 0 1 0)"
  "decode (0xB9800400 OR push_bit 5 X1 OR X0) = Some (LDRSWi 0 1 4)"
  using decode_ldrsw_0 [of X1 X0] decode_ldrsw_4 [of X1 X0] by simp_all

lemma rel_load32:
  assumes "jit_rel config base m s" "cvt_packed_int_vec_f128 (m_sp m) off = Some v"
  shows "load_mem (memory s) (base + of_nat off) 4 = Some (slice off 4 (m_sp m))"
    and "load_mem (memory s) (base + of_nat off + 4) 4 = Some (slice (off + 4) 4 (m_sp m))"
    and "v = (i32_to_f64 (from_le (slice off 4 (m_sp m))), i32_to_f64 (from_le (slice (off + 4) 4 (m_sp m))))"
proof -
  have len: "off + 8 \<le> length (m_sp m)" and mem: "mem_holds (memory s) base (m_sp m)"
    using assms by (auto simp: cvt_packed_int_vec_f128_def jit_rel_def split: if_splits)
  show "load_mem (memory s) (base + of_nat off) 4 = Some (slice off 4 (m_sp m))"
    by (rule load_mem_holds [OF mem]) (use len in simp)
  have "base + of_nat off + 4 = base + of_nat (off + 4)" by simp
  then show "load_mem (memory s) (base + of_nat off + 4) 4 = Some (slice (off + 4) 4 (m_sp m))"
    by (simp only:) (rule load_mem_holds [OF mem], use len in simp)
  show "v = (i32_to_f64 (from_le (slice off 4 (m_sp m))), i32_to_f64 (from_le (slice (off + 4) 4 (m_sp m))))"
    using assms(2) len by (simp add: cvt_packed_int_vec_f128_def)
qed

lemma runs_cvt:
  assumes "jit_rel config base m s" "cvt_packed_int_vec_f128 (m_sp m) off = Some v" "xr s 0 = of_nat off"
    and "\<And>s'. temps s s' \<Longrightarrow> dr s' 25 = fst v \<Longrightarrow> dr s' 26 = snd v \<Longrightarrow> Q s'"
  shows "runs_to fpu emit_cvt_packed_int s Q"
proof -
  note ld = rel_load32 [OF assms(1, 2)]
  have base: "xr s 16 = base" using assms(1) by (simp add: jit_rel_def consts_rel_def)
  define s1 where "s1 = set_x 1 (base + of_nat off) s"
  define s2 where "s2 = set_x 0 (scast (from_le (slice off 4 (m_sp m)) :: u32)) s1"
  define s3 where "s3 = set_d 25 (fst v) s2"
  define s4 where "s4 = set_x 0 (scast (from_le (slice (off + 4) 4 (m_sp m)) :: u32)) s3"
  define s5 where "s5 = set_d 26 (snd v) s4"
  note defs = s1_def s2_def s3_def s4_def s5_def
  have "exec_words fpu [add_reg X1 X16 X0] s = Some s1"
    using assms(3) base by (simp add: jit_decode put_x_reg get_x_reg s1_def)
  moreover have "exec_words fpu [0xB9800000 OR push_bit 5 X1 OR X0] s1 = Some s2"
    by (simp only: exec_words.simps cvt_words exec_a64.simps) (simp add: s1_def s2_def ld put_x_reg)
  moreover have "exec_words fpu [scvtf_dx 25 X0] s2 = Some s3"
    by (simp add: jit_decode s2_def s3_def get_x_reg scvtf_scast ld(3))
  moreover have "exec_words fpu [0xB9800400 OR push_bit 5 X1 OR X0] s3 = Some s4"
    by (simp only: exec_words.simps cvt_words exec_a64.simps) (simp add: s1_def s2_def s3_def s4_def ld put_x_reg)
  moreover have "exec_words fpu [scvtf_dx 26 X0] s4 = Some s5"
    by (simp add: jit_decode s4_def s5_def get_x_reg scvtf_scast ld(3))
  moreover have "Q s5" by (rule assms(4)) (simp_all add: defs temps_set)
  ultimately show ?thesis
    unfolding emit_cvt_packed_int_def by (intro runs_Cons) (auto simp: runs_to_def)
qed

lemma runs_mem_f128:
  assumes "jit_rel config base m s" "bi_src b < 8" "mem_f128 m b = Some v"
    and "\<And>s'. temps s s' \<Longrightarrow> dr s' 25 = fst v \<Longrightarrow> dr s' 26 = snd v \<Longrightarrow> runs_to fpu rest s' Q"
  shows "runs_to fpu (emit_mem_addr b @ emit_cvt_packed_int @ rest) s Q"
proof (rule runs_append [OF runs_mem_addr])
  fix s' assume s': "temps s s' \<and> xr s' 0 = of_nat (masked_addr (if bi_src b < 8 then xr s (bi_src b + 8) else 0) b)"
  have cvt: "cvt_packed_int_vec_f128 (m_sp m) (masked_addr (xr s (bi_src b + 8)) b) = Some v"
    using assms(2, 3) rel_get(1) [OF assms(1)] by (simp add: mem_f128_def)
  have rel: "jit_rel config base m s'" using s' temps_rel assms(1) by blast
  show "runs_to fpu (emit_cvt_packed_int @ rest) s' Q"
  proof (rule runs_append [OF runs_cvt [OF rel cvt]])
    show "xr s' 0 = of_nat (masked_addr (xr s (bi_src b + 8)) b)" using s' assms(2) by simp
  next
    fix s'' assume "temps s' s''" "dr s'' 25 = fst v" "dr s'' 26 = snd v"
    then show "temps s s'' \<and> dr s'' 25 = fst v \<and> dr s'' 26 = snd v" using s' temps_trans by blast
  next
    fix s'' assume "temps s s'' \<and> dr s'' 25 = fst v \<and> dr s'' 26 = snd v"
    then show "runs_to fpu rest s'' Q" by (intro assms(4)) auto
  qed
qed simp

lemma runs_mask_lane:
  assumes "lane < 32" "out < 32" "mreg < 31" "8 \<le> mreg"
    and "\<And>s'. temps s s' \<Longrightarrow> dr s' = dr s \<Longrightarrow> Q (set_d (unat out) ((dr s (unat lane) AND DYNAMIC_MANTISSA_MASK) OR xr s (unat mreg)) s')"
  shows "runs_to fpu (emit_mask_lane lane mreg out) s Q"
proof -
  have m: "mreg < 32" "unat mreg \<noteq> 31" "8 \<le> unat mreg" "unat mreg \<noteq> 0"
    using assms(3, 4) by (auto simp: word_less_nat_alt word_le_nat_alt)
  define s0 where "s0 = set_x 0 (dr s (unat lane)) s"
  have e: "exec_words fpu [fmov_xd X0 lane] s = Some s0"
    using assms(1) by (simp add: jit_decode put_x_reg s0_def)
  show ?thesis
    unfolding emit_mask_lane_def
  proof (rule runs_append [OF runs_words [OF e, where Q = "\<lambda>x. x = s0"]], simp, clarify)
    show "runs_to fpu (and_bitmask X0 X0 DYNAMIC_MANTISSA_MASK X1 @ [orr_reg X0 X0 mreg, fmov_dx out X0]) s0 Q"
    proof (rule runs_append [OF runs_and])
      fix s' assume s': "temps s0 s'" "dr s' = dr s0"
      then show "temps s (set_x (unat X0) (xr s0 (unat X0) AND DYNAMIC_MANTISSA_MASK) s') \<and>
          dr (set_x (unat X0) (xr s0 (unat X0) AND DYNAMIC_MANTISSA_MASK) s') = dr s \<and>
          xr (set_x (unat X0) (xr s0 (unat X0) AND DYNAMIC_MANTISSA_MASK) s') 0 = dr s (unat lane) AND DYNAMIC_MANTISSA_MASK"
        by (simp add: temps_def s0_def)
    next
      fix x assume x: "temps s x \<and> dr x = dr s \<and> xr x 0 = dr s (unat lane) AND DYNAMIC_MANTISSA_MASK"
      have "xr x (unat mreg) = xr s (unat mreg)" using x m by (simp add: temps_def)
      then show "runs_to fpu [orr_reg X0 X0 mreg, fmov_dx out X0] x Q"
        using x m assms(2) by (simp add: runs_to_def jit_decode put_x_reg get_x_reg assms(5) temps_set)
    qed simp_all
  qed
qed

section \<open>The arms\<close>

lemma runs_fadd_m:
  assumes "pair_op oper g" "jit_rel config base m s" "bi_dst b < 4" "bi_src b < 8" "mem_f128 m b = Some v"
  shows "runs_to fpu (emit_mem_addr b @ emit_cvt_packed_int @ emit_pair_op oper (f_regs (bi_dst b)) (25, 26)) s
     (pair_result (2 * bi_dst b) (2 * bi_dst b + 1)
       (g fpu (m_rm m) (dr s (2 * bi_dst b)) (fst v), g fpu (m_rm m) (dr s (2 * bi_dst b + 1)) (snd v)) s)"
proof (rule runs_mem_f128 [OF assms(2, 4, 5)])
  fix s' assume "temps s s'" "dr s' 25 = fst v" "dr s' 26 = snd v"
  then show "runs_to fpu (emit_pair_op oper (f_regs (bi_dst b)) (25, 26)) s'
     (pair_result (2 * bi_dst b) (2 * bi_dst b + 1)
       (g fpu (m_rm m) (dr s (2 * bi_dst b)) (fst v), g fpu (m_rm m) (dr s (2 * bi_dst b + 1)) (snd v)) s)"
    using runs_f_tmp [OF assms(1, 2) _ assms(3), of s'] by simp
qed

lemma runs_fdiv_m:
  assumes "jit_rel config base m s" "bi_dst b < 4" "bi_src b < 8"
    and "map_option (mask_register_exponent_mantissa config) (mem_f128 m b) = Some v"
  shows "runs_to fpu (emit_fdiv_m b) s
     (pair_result (2 * bi_dst b + 8) (2 * bi_dst b + 9)
       (fp_div fpu (m_rm m) (dr s (2 * bi_dst b + 8)) (fst v), fp_div fpu (m_rm m) (dr s (2 * bi_dst b + 9)) (snd v)) s)"
proof -
  obtain w where w: "mem_f128 m b = Some w" "v = mask_register_exponent_mantissa config w" using assms(4) by auto
  have c: "xr s 19 = fst (e_mask config)" "xr s 20 = snd (e_mask config)"
    using assms(1) by (simp_all add: jit_rel_def consts_rel_def)
  let ?R = "pair_result (2 * bi_dst b + 8) (2 * bi_dst b + 9)
       (fp_div fpu (m_rm m) (dr s (2 * bi_dst b + 8)) (fst v), fp_div fpu (m_rm m) (dr s (2 * bi_dst b + 9)) (snd v)) s"
  show ?thesis
    unfolding emit_fdiv_m_def
  proof (rule runs_mem_f128 [OF assms(1, 3) w(1)])
    fix s' assume s': "temps s s'" "dr s' 25 = fst w" "dr s' 26 = snd w"
    have x: "xr s' 19 = fst (e_mask config)"
      using s'(1) c by (simp add: temps_def)
    have lo: "runs_to fpu (emit_mask_lane 25 X19 25) s' (\<lambda>x. temps s x \<and> dr x 25 = fst v \<and> dr x 26 = snd w)"
      by (rule runs_mask_lane)
        (use s' x w(2) temps_trans [OF s'(1)] in \<open>simp_all add: temps_set mask_register_exponent_mantissa_def\<close>)
    have hi: "runs_to fpu (emit_mask_lane 26 X20 26) x (\<lambda>x. temps s x \<and> dr x 25 = fst v \<and> dr x 26 = snd v)"
      if x: "temps s x \<and> dr x 25 = fst v \<and> dr x 26 = snd w" for x
    proof -
      have "xr x 20 = snd (e_mask config)" using x c by (simp add: temps_def)
      then show ?thesis
        by (intro runs_mask_lane)
          (use x w(2) temps_trans [of s x] in \<open>simp_all add: temps_set mask_register_exponent_mantissa_def\<close>)
    qed
    show "runs_to fpu (emit_mask_lane 25 X19 25 @ emit_mask_lane 26 X20 26 @
        emit_pair_op fdiv (e_regs (bi_dst b)) (25, 26)) s' ?R"
    proof (rule runs_append [OF lo], rule runs_append [OF hi], assumption)
      fix x assume "temps s x \<and> dr x 25 = fst v \<and> dr x 26 = snd v"
      then show "runs_to fpu (emit_pair_op fdiv (e_regs (bi_dst b)) (25, 26)) x ?R"
        using runs_e_tmp [OF pair_ops(4) assms(1) _ assms(2), of x] by simp
    qed
  qed
qed

text \<open>Without memory: \<open>FSCAL_R\<close>, \<open>FSQRT_R\<close>, \<open>FSWAP_R\<close>.\<close>

lemma runs_fscal_r:
  assumes "jit_rel config base m s" "bi_dst b < 4"
  shows "runs_to fpu (emit_fscal_r b) s (pair_result (2 * bi_dst b) (2 * bi_dst b + 1)
     (dr s (2 * bi_dst b) XOR 0x80F0000000000000, dr s (2 * bi_dst b + 1) XOR 0x80F0000000000000) s)"
proof -
  have d: "dr s 24 = 0x80F0000000000000" using assms(1) by (simp add: jit_rel_def consts_rel_def FSCAL_MASK_def)
  have ne: "2 * bi_dst b \<noteq> 24" using assms(2) by simp
  show ?thesis
    unfolding emit_fscal_r_def
    using pair_regs_props [OF assms(2)] d ne
    by (intro runs_pair [OF pair_ops(5) rel_mode [OF assms(1), THEN conjunct1] rel_mode [OF assms(1), THEN conjunct2]])
      (auto intro!: pair_resultI [OF temps_refl])
qed

lemma runs_fsqrt_r:
  assumes "jit_rel config base m s" "bi_dst b < 4"
  shows "runs_to fpu (emit_fsqrt_r b) s (pair_result (2 * bi_dst b + 8) (2 * bi_dst b + 9)
     (fp_sqrt fpu (m_rm m) (dr s (2 * bi_dst b + 8)), fp_sqrt fpu (m_rm m) (dr s (2 * bi_dst b + 9))) s)"
  using pair_regs_props [OF assms(2)] rel_mode [OF assms(1)]
  by (auto simp: emit_fsqrt_r_def runs_to_def jit_decode fp_mode_rx split: prod.splits intro!: pair_resultI [OF temps_refl])

lemma runs_swap:
  assumes "lo < 32" "hi < 32" "unat lo \<noteq> 25" "unat hi \<noteq> 25" "unat lo \<noteq> unat hi"
  shows "runs_to fpu [fmov_dd 25 lo, fmov_dd lo hi, fmov_dd hi 25] s
     (pair_result (unat lo) (unat hi) (dr s (unat hi), dr s (unat lo)) s)"
proof -
  have "temps s (set_d 25 (dr s (unat lo)) s)" by (simp add: temps_set)
  then show ?thesis
    using assms by (auto simp: runs_to_def jit_decode intro!: pair_resultI)
qed

lemma runs_fswap_r:
  assumes "jit_rel config base m s" "bi_dst b < 4"
    and "m' = (if bi_fswap_is_e b then upd_e (bi_dst b) (swap_f128 (rf_e (m_nreg m) ! bi_dst b)) m
               else upd_f (bi_dst b) (swap_f128 (rf_f (m_nreg m) ! bi_dst b)) m)"
  shows "runs_to fpu (emit_fswap_r b) s (simulates config base m' s)"
proof -
  note p = pair_regs_props [OF assms(2)] and rd = rel_reads [OF assms(1)]
  show ?thesis
  proof (cases "bi_fswap_is_e b")
    case True
    have ne: "2 * bi_dst b + 8 \<noteq> 25" "2 * bi_dst b + 9 \<noteq> 25" using assms(2) by arith+
    have "runs_to fpu (emit_fswap_r b) s (pair_result (2 * bi_dst b + 8) (2 * bi_dst b + 9)
        (dr s (2 * bi_dst b + 9), dr s (2 * bi_dst b + 8)) s)"
      using runs_swap [of "fst (e_regs (bi_dst b))" "snd (e_regs (bi_dst b))" fpu s] p ne True
      by (simp add: emit_fswap_r_def case_prod_unfold Let_def)
    then show ?thesis
      by (rule runs_mono) (use True rd(3) [OF assms(2)] pair_result_e [OF assms(1, 2)] in \<open>simp add: assms(3) swap_f128_def\<close>)
  next
    case False
    have ne: "2 * bi_dst b \<noteq> 25" "2 * bi_dst b + 1 \<noteq> 25" using assms(2) by arith+
    have "runs_to fpu (emit_fswap_r b) s (pair_result (2 * bi_dst b) (2 * bi_dst b + 1)
        (dr s (2 * bi_dst b + 1), dr s (2 * bi_dst b)) s)"
      using runs_swap [of "fst (f_regs (bi_dst b))" "snd (f_regs (bi_dst b))" fpu s] p ne False
      by (simp add: emit_fswap_r_def case_prod_unfold Let_def)
    then show ?thesis
      by (rule runs_mono) (use False rd(2) [OF assms(2)] pair_result_f [OF assms(1, 2)] in \<open>simp add: assms(3) swap_f128_def\<close>)
  qed
qed

section \<open>Rounding mode and stores\<close>

text \<open>The block of \<open>CFROUND\<close> after the rotated register is in \<open>x0\<close>: the two low bits are swapped
  into the processor's coding and written to the control register.\<close>

definition cfround_block :: "u32 list" where
  "cfround_block =
     and_bitmask X0 X0 3 X1 @ [lsr_imm X1 X0 1, lsl_imm X2 X0 1] @
     and_bitmask X1 X1 1 X3 @ and_bitmask X2 X2 2 X3 @ [orr_reg X0 X1 X2, lsl_imm X0 X0 22] @
     mov_imm64 X1 (push_bit 24 1) @ [orr_reg X0 X0 X1, msr_fpcr X0]"

definition arm_bits :: "u64 \<Rightarrow> u64" where
  "arm_bits y = push_bit 22 (take_bit 42 ((take_bit 63 (drop_bit 1 y) AND 1) OR (push_bit 1 (take_bit 63 y) AND 2))) OR push_bit 24 1"

lemma arm_bits_mode: "arm_bits (x AND 3) = rx_fpcr (unat (x AND 3))" "unat (x AND 3) < (4 :: nat)"
proof -
  have "x AND 3 = take_bit 2 x" by (simp add: take_bit_eq_mask mask_eq_exp_minus_1)
  then have l: "unat (x AND 3) < 4" by (metis num_double numeral_times_numeral power2_eq_square unat_take_bit_less)
  then show "unat (x AND 3) < (4 :: nat)" .
  have "unat (x AND 3) = 0 \<or> unat (x AND 3) = 1 \<or> unat (x AND 3) = 2 \<or> unat (x AND 3) = 3" using l by arith
  then have "x AND 3 = 0 \<or> x AND 3 = 1 \<or> x AND 3 = 2 \<or> x AND 3 = 3"
    by (auto simp: word_unat_eq_iff)
  then show "arm_bits (x AND 3) = rx_fpcr (unat (x AND 3))"
    by (elim disjE; simp only:; code_simp)
qed

lemma ubfm_shifts:
  "ubfm y (Suc 0) 63 = take_bit 63 (drop_bit (Suc 0) y)" "ubfm y 63 62 = push_bit 1 (take_bit 63 y)"
  "ubfm y 42 41 = push_bit 22 (take_bit 42 y)" "ubfm y 32 63 = take_bit 32 (drop_bit 32 y)"
  by (simp_all add: ubfm_def)

lemma shift_words:
  "rd < 31 \<Longrightarrow> rn < 31 \<Longrightarrow> exec_words fpu [lsr_imm rd rn 1] s = Some (set_x (unat rd) (take_bit 63 (drop_bit 1 (xr s (unat rn)))) s)"
  "rd < 31 \<Longrightarrow> rn < 31 \<Longrightarrow> exec_words fpu [lsl_imm rd rn 1] s = Some (set_x (unat rd) (push_bit 1 (take_bit 63 (xr s (unat rn)))) s)"
  "rd < 31 \<Longrightarrow> rn < 31 \<Longrightarrow> exec_words fpu [lsl_imm rd rn 22] s = Some (set_x (unat rd) (push_bit 22 (take_bit 42 (xr s (unat rn)))) s)"
  "rd < 31 \<Longrightarrow> rn < 31 \<Longrightarrow> exec_words fpu [lsr_imm rd rn 32] s = Some (set_x (unat rd) (take_bit 32 (drop_bit 32 (xr s (unat rn)))) s)"
  by (auto simp: jit_decode put_x_reg get_x_reg ubfm_shifts dest!: reg_less)

lemma runs_cfround_block:
  assumes "\<And>s'. temps s s' \<Longrightarrow> Q (set_mode (arm_bits (xr s 0 AND 3)) s')"
  shows "runs_to fpu cfround_block s Q"
proof -
  let ?y = "xr s 0 AND 3"
  let ?a = "take_bit 63 (drop_bit 1 ?y) AND 1" and ?b = "push_bit 1 (take_bit 63 ?y) AND 2"
  have 1: "runs_to fpu (and_bitmask X0 X0 3 X1) s (\<lambda>x. temps s x \<and> xr x 0 = ?y)"
    by (rule runs_and) (simp_all add: temps_set)
  have 2: "runs_to fpu [lsr_imm X1 X0 1, lsl_imm X2 X0 1] x
      (\<lambda>x. temps s x \<and> xr x 1 = take_bit 63 (drop_bit 1 ?y) \<and> xr x 2 = push_bit 1 (take_bit 63 ?y))"
    if "temps s x \<and> xr x 0 = ?y" for x
    by (rule runs_Cons [OF shift_words(1)], simp, simp, rule runs_words [OF shift_words(2)])
      (use that in \<open>simp_all add: temps_set\<close>)
  have 3: "runs_to fpu (and_bitmask X1 X1 1 X3) x
      (\<lambda>x. temps s x \<and> xr x 1 = ?a \<and> xr x 2 = push_bit 1 (take_bit 63 ?y))"
    if "temps s x \<and> xr x 1 = take_bit 63 (drop_bit 1 ?y) \<and> xr x 2 = push_bit 1 (take_bit 63 ?y)" for x
    by (rule runs_and) (use that temps_trans [of s x] in \<open>simp_all add: temps_set\<close>)
  have 4: "runs_to fpu (and_bitmask X2 X2 2 X3) x (\<lambda>x. temps s x \<and> xr x 1 = ?a \<and> xr x 2 = ?b)"
    if "temps s x \<and> xr x 1 = ?a \<and> xr x 2 = push_bit 1 (take_bit 63 ?y)" for x
    by (rule runs_and) (use that temps_trans [of s x] in \<open>simp_all add: temps_set\<close>)
  have 5: "runs_to fpu [orr_reg X0 X1 X2, lsl_imm X0 X0 22] x
      (\<lambda>x. temps s x \<and> xr x 0 = push_bit 22 (take_bit 42 (?a OR ?b)))"
    if "temps s x \<and> xr x 1 = ?a \<and> xr x 2 = ?b" for x
    by (rule runs_Cons [OF reg_opD [OF reg_ops(7)]], simp, simp, simp, rule runs_words [OF shift_words(3)])
      (use that in \<open>simp_all add: temps_set\<close>)
  have 6: "runs_to fpu (mov_imm64 X1 (push_bit 24 1)) x
      (\<lambda>x. temps s x \<and> xr x 0 = push_bit 22 (take_bit 42 (?a OR ?b)) \<and> xr x 1 = push_bit 24 1)"
    if "temps s x \<and> xr x 0 = push_bit 22 (take_bit 42 (?a OR ?b))" for x
    by (rule runs_mov) (use that in \<open>simp_all add: temps_set\<close>)
  have 7: "runs_to fpu [orr_reg X0 X0 X1, msr_fpcr X0] x Q"
    if "temps s x \<and> xr x 0 = push_bit 22 (take_bit 42 (?a OR ?b)) \<and> xr x 1 = push_bit 24 1" for x
  proof (rule runs_Cons [OF reg_opD [OF reg_ops(7)]], simp, simp, simp, rule runs_words)
    let ?x = "set_x (unat X0) (xr x (unat X0) OR xr x (unat X1)) x"
    show "exec_words fpu [msr_fpcr X0] ?x = Some (set_mode (arm_bits ?y) ?x)"
      using that by (simp add: jit_decode get_x_reg arm_bits_def)
    show "Q (set_mode (arm_bits ?y) ?x)"
      by (rule assms) (use that in \<open>simp add: temps_set\<close>)
  qed
  show ?thesis
    unfolding cfround_block_def
    by (rule runs_append [OF 1], rule runs_append [OF 2], assumption, rule runs_append [OF 3], assumption,
        rule runs_append [OF 4], assumption, rule runs_append [OF 5], assumption,
        rule runs_append [OF 6], assumption, rule 7)
qed

text \<open>The head: the source register, rotated.\<close>

lemma rotate_right_0: "rotate_right 0 x = x"
  by (rule bit_word_eqI) (simp add: rotate_right_def bit_word_rotr_iff)

definition cfround_head :: "bytecode_instruction \<Rightarrow> u32 list" where
  "cfround_head b =
     (let src = r_reg (bi_src b); shift = ucast (bi_imm b AND 63)
      in if 0 < shift then [ror_imm X0 src shift] else [mov_reg X0 src])"

lemma runs_cfround_head:
  assumes "bi_src b < 8" "bi_imm b < 64"
  shows "runs_to fpu (cfround_head b) s (\<lambda>s'. s' = set_x 0 (rotate_right (unat (bi_imm b)) (xr s (bi_src b + 8))) s)"
proof -
  note r = r_reg_props [OF assms(1)]
  define k :: u32 where "k = ucast (bi_imm b AND 63)"
  have n: "unat (bi_imm b) < 64" using assms(2) by (simp add: word_less_nat_alt)
  then have "unat (bi_imm b AND 63) = unat (bi_imm b)" by (simp add: and_63)
  then have k: "unat k = unat (bi_imm b)" using n unat_down [of "bi_imm b AND 63"] by (simp add: k_def)
  show ?thesis
  proof (cases "0 < k")
    case True
    have "k < 64" using k n by (simp add: word_less_nat_alt)
    then have "exec_words fpu [ror_imm X0 (r_reg (bi_src b)) k] s =
        Some (set_x 0 (rotate_right (unat (bi_imm b)) (xr s (bi_src b + 8))) s)"
      using r assms(1) ror_words [OF n, of "xr s (bi_src b + 8)"] by (simp add: jit_decode put_x_reg get_x_reg k)
    then show ?thesis using True by (simp only: runs_to_def cfround_head_def Let_def k_def [symmetric] if_True) simp
  next
    case False
    then have "k = 0" by (simp add: word_neq_0_conv [symmetric])
    then have "unat (bi_imm b) = 0" using k by simp
    then have "exec_words fpu [mov_reg X0 (r_reg (bi_src b))] s =
        Some (set_x 0 (rotate_right (unat (bi_imm b)) (xr s (bi_src b + 8))) s)"
      using r mov_reg_exec [of X0 "r_reg (bi_src b)" fpu s] by (simp add: rotate_right_0)
    then show ?thesis using False by (simp only: runs_to_def cfround_head_def Let_def k_def [symmetric] if_False) simp
  qed
qed

lemma rel_set_mode:
  "jit_rel config base m s \<Longrightarrow> k < 4 \<Longrightarrow> jit_rel config base (m\<lparr>m_rm := k\<rparr>) (set_mode (rx_fpcr k) s)"
  by (simp add: jit_rel_def machine_ok_def consts_rel_def pair_at_def)

lemma cfround_block_sim:
  assumes "jit_rel config base m s" "xr s 0 = x"
  shows "runs_to fpu cfround_block s (simulates config base (m\<lparr>m_rm := unat (x AND 3)\<rparr>) s)"
proof (rule runs_cfround_block)
  fix s' assume "temps s s'"
  then show "simulates config base (m\<lparr>m_rm := unat (x AND 3)\<rparr>) s (set_mode (arm_bits (xr s 0 AND 3)) s')"
    using rel_set_mode [OF temps_rel [OF _ assms(1)] arm_bits_mode(2) [of x], of s'] temps_frame [of s s' base]
    by (simp add: simulates_def frame_set assms(2) arm_bits_mode(1))
qed

text \<open>\<open>ISTORE\<close>.\<close>

lemma rel_store64:
  assumes "jit_rel config base m s" "store64 (m_sp m) off v = Some sp"
  shows "\<exists>mem. store_word (base + of_nat off) v s = Some (set_mem mem s) \<and>
     jit_rel config base (m\<lparr>m_sp := sp\<rparr>) (set_mem mem s) \<and> jit_frame base s (set_mem mem s)"
proof -
  have len: "off + 8 \<le> length (m_sp m)" "sp = splice off (le_bytes 8 v) (m_sp m)"
    "length (m_sp m) = SCRATCHPAD_L3_SIZE" and mem: "mem_holds (memory s) base (m_sp m)"
    using assms by (auto simp: store64_def jit_rel_def machine_ok_def split: if_splits)
  obtain mem' where m: "store_mem (memory s) (base + of_nat off) (le_bytes 8 v) = Some mem'"
    "mem_holds mem' base sp" "\<forall>x. outside base (length (m_sp m)) x \<longrightarrow> mem' x = memory s x"
    using store_mem_holds [OF mem, of off "le_bytes 8 v"] len by (auto simp: SCRATCHPAD_L3_SIZE_def)
  have "length sp = SCRATCHPAD_L3_SIZE" using len by (simp add: rust_len)
  then have "jit_rel config base (m\<lparr>m_sp := sp\<rparr>) (set_mem mem' s)"
    using assms(1) m(2) by (simp add: jit_rel_def machine_ok_def consts_rel_def pair_at_def)
  moreover have "jit_frame base s (set_mem mem' s)" using m(3) len(3) by (simp add: jit_frame_def)
  ultimately show ?thesis using m(1) by (intro exI [where x = mem']) (simp add: store_word_def)
qed

lemma runs_istore:
  assumes "jit_rel config base m s" "bi_dst b < 8" "bi_src b < 8"
    and "store64 (m_sp m) (masked_addr (xr s (bi_dst b + 8)) b) (xr s (bi_src b + 8)) = Some sp"
  shows "runs_to fpu (emit_istore b) s (simulates config base (m\<lparr>m_sp := sp\<rparr>) s)"
proof -
  note r = r_reg_props [OF assms(2)] r_reg_props [OF assms(3)]
  let ?x = "xr s (bi_dst b + 8) + bi_imm b"
  have 1: "runs_to fpu (if bi_imm b \<noteq> 0 then mov_imm64 X0 (bi_imm b) @ [add_reg X0 (r_reg (bi_dst b)) X0]
      else [mov_reg X0 (r_reg (bi_dst b))]) s (\<lambda>x. temps s x \<and> xr x 0 = ?x)"
  proof (cases "bi_imm b = 0")
    case True
    then show ?thesis
      using r by (auto intro!: runs_words [OF mov_reg_exec] simp: temps_set)
  next
    case False
    have "runs_to fpu (mov_imm64 X0 (bi_imm b) @ [add_reg X0 (r_reg (bi_dst b)) X0]) s (\<lambda>x. temps s x \<and> xr x 0 = ?x)"
      by (rule runs_append [where R = "\<lambda>s'. s' = set_x 0 (bi_imm b) s"])
        (use r in \<open>auto intro!: runs_mov runs_words [OF reg_opD [OF reg_ops(1)]] simp: temps_set\<close>)
    then show ?thesis using False by simp
  qed
  have 2: "runs_to fpu (and_bitmask X0 X0 (ucast (bi_mem_mask b)) X1) x
      (\<lambda>x. temps s x \<and> xr x 0 = of_nat (masked_addr (xr s (bi_dst b + 8)) b))"
    if "temps s x \<and> xr x 0 = ?x" for x
    by (rule runs_and) (use that temps_trans [of s x] in \<open>simp_all add: temps_set masked_addr_def mask_addr\<close>)
  have 3: "runs_to fpu [str_reg (r_reg (bi_src b)) X16 X0] x (simulates config base (m\<lparr>m_sp := sp\<rparr>) s)"
    if x: "temps s x \<and> xr x 0 = of_nat (masked_addr (xr s (bi_dst b + 8)) b)" for x
  proof -
    have rel: "jit_rel config base m x" using x temps_rel assms(1) by blast
    obtain mem where mem: "store_word (base + of_nat (masked_addr (xr s (bi_dst b + 8)) b)) (xr s (bi_src b + 8)) x = Some (set_mem mem x)"
      "jit_rel config base (m\<lparr>m_sp := sp\<rparr>) (set_mem mem x)" "jit_frame base x (set_mem mem x)"
      using rel_store64 [OF rel assms(4)] by blast
    have "xr x 16 = base" "xr x (bi_src b + 8) = xr s (bi_src b + 8)"
      using rel x by (simp_all add: jit_rel_def consts_rel_def temps_def)
    then have "exec_words fpu [str_reg (r_reg (bi_src b)) X16 X0] x = Some (set_mem mem x)"
      using r x mem(1) assms(3) by (simp add: jit_decode get_x_reg)
    moreover have "jit_frame base s (set_mem mem x)"
      using x mem(3) temps_frame jit_frame_trans by blast
    ultimately show ?thesis using mem(2) by (simp add: runs_to_def simulates_def)
  qed
  show ?thesis
    unfolding emit_istore_def
    by (rule runs_append [OF 1], rule runs_append [OF 2], assumption, rule 3)
qed

end
