(* ===== verification/Jit_Size.thy ===== *)
theory Jit_Size
  imports Jit_Imm Jit_Compile
begin

text \<open>
  How long emitted code is: a constant takes at most four words, a masking at most five, a
  bytecode instruction at most 33, so a program of any admitted length fits the region
  \<open>JitMemory\<close> allocates (\<open>src/randomx/jit/compiler.rs\<close>, \<open>src/randomx/jit/memory.rs\<close>).
\<close>

named_theorems code_len

lemma length_mov_imm64 [code_len]: "length (mov_imm64 rd imm) \<le> 4"
proof -
  have "case foldl (movz_step rd imm) (True, []) [0..<4] of (first, out) \<Rightarrow> length out \<le> 4"
    by (rule foldl_upt_inv [where P = "\<lambda>i (first, out). length out \<le> i"]) (auto simp: movz_step_def split: if_splits)
  moreover have "case foldl (movn_step rd imm) (True, []) [0..<4] of (first, out) \<Rightarrow> (first \<longrightarrow> 4 = (0 :: nat)) \<and> length out \<le> 4"
  proof (rule foldl_upt_inv [where P = "\<lambda>i (first, out). (first \<longrightarrow> i = 0) \<and> length out \<le> i"])
    fix i :: nat and st :: "bool \<times> u32 list"
    assume "case st of (first, out) \<Rightarrow> (first \<longrightarrow> i = 0) \<and> length out \<le> i"
    then show "case movn_step rd imm st i of (first, out) \<Rightarrow> (first \<longrightarrow> Suc i = 0) \<and> length out \<le> Suc i"
      by (cases st) (auto simp: movn_step_def Let_def split: if_splits)
  qed simp
  ultimately show ?thesis by (auto simp: mov_imm64_def Let_def split: prod.splits)
qed

lemma length_bitmask [code_len]:
  "length (and_bitmask rd rn msk tmp) \<le> 5" "length (tst_bitmask rn msk tmp) \<le> 5"
  using length_mov_imm64 [of tmp msk]
  by (auto simp: and_bitmask_def tst_bitmask_def split: option.splits)

lemma length_mem_addr [code_len]: "length (emit_mem_addr b) \<le> 10"
  using length_mov_imm64 [of X0 "bi_imm b"] length_bitmask(1) [of X0 X0 "ucast (bi_mem_mask b)" X1]
  by (simp add: emit_mem_addr_def)

lemma length_small [code_len]:
  "length emit_mem_load = 1" "length emit_cvt_packed_int = 5" "length (emit_pair_op f d s) = 2"
  by (simp_all add: emit_mem_load_def emit_cvt_packed_int_def emit_pair_op_def)

lemma length_mask_lane [code_len]: "length (emit_mask_lane l r k) \<le> 8"
  using length_bitmask(1) [of X0 X0 DYNAMIC_MANTISSA_MASK X1] by (simp add: emit_mask_lane_def)

lemma length_mem_op [code_len]: "length (emit_mem_op f b) \<le> 12"
  using length_mem_addr [of b] by (simp add: emit_mem_op_def length_small)

lemma length_reg_op [code_len]: "length (emit_reg_op f b) \<le> 5"
  using length_mov_imm64 [of X0 "bi_imm b"] by (simp add: emit_reg_op_def Let_def)

lemma length_cfround: "length (emit_cfround b version) \<le> 33"
  using length_mov_imm64 [of X1 "push_bit 24 1"] length_bitmask(1) [of X0 X0 3 X1]
    length_bitmask(1) [of X1 X1 1 X3] length_bitmask(1) [of X2 X2 2 X3] length_bitmask(2) [of X0 "0x3C" X1]
  by (simp add: emit_cfround_def Let_def)

lemma length_emit_plain: "length (emit_plain b version) \<le> 33"
proof -
  note l = length_mov_imm64 [of X0 "bi_imm b"] length_mem_addr [of b] length_cfround [of b version]
    length_mem_op [of _ b] length_reg_op [of _ b] length_bitmask(1) [of X0 X0 "ucast (bi_mem_mask b)" X1]
    length_mask_lane
  have fdiv: "length (emit_fdiv_m b) \<le> 33"
    using l(2) length_mask_lane [of 25 X19 25] length_mask_lane [of 26 X20 26]
    by (simp add: emit_fdiv_m_def length_small)
  have mem: "length (emit_mem_op f b) \<le> 33" "length (emit_reg_op f b) \<le> 33" for f
    using l(4) [of f] l(5) [of f] by simp_all
  have "length (emit_iadd_rs b) \<le> 33" "length (emit_istore b) \<le> 33"
    using l(1, 6) by (simp_all add: emit_iadd_rs_def emit_istore_def Let_def)
  then show ?thesis
    using fdiv mem l(2, 3)
    by (cases "bi_itype b") (simp_all add: emit_plain_def emit_iadd_m_def emit_isub_r_def emit_isub_m_def
        emit_imul_r_def emit_imul_m_def emit_imulh_r_def emit_imulh_m_def emit_ismulh_r_def emit_ismulh_m_def
        emit_ineg_r_def emit_ixor_r_def emit_ixor_m_def emit_iror_r_def emit_irol_r_def emit_iswap_r_def
        emit_fswap_r_def emit_fadd_r_def emit_fadd_m_def emit_fsub_r_def emit_fsub_m_def emit_fscal_r_def
        emit_fmul_r_def emit_fsqrt_r_def length_small Let_def case_prod_unfold)
qed

lemma length_cbranch: "emit_cbranch b offsets pc n pos = Some ws \<Longrightarrow> length ws \<le> 33"
  using length_mov_imm64 [of X0 "bi_imm b"] length_bitmask(2) [of "r_reg (bi_dst b)" "ucast (bi_mem_mask b)" X0]
  by (auto simp: emit_cbranch_def Let_def split: if_splits Option.bind_splits)

lemma length_emit_instruction: "jit_emit_instruction b offsets pc n version pos = Some ws \<Longrightarrow> length ws \<le> 33"
  using length_emit_plain [of b version] length_cbranch by (auto simp: jit_emit_instruction_def split: if_splits)


section \<open>The fixed parts\<close>

lemma length_registers [code_len]:
  "length save_registers = 10" "length restore_registers = 11" "length store_register_file = 24"
  by (simp_all add: save_registers_def restore_registers_def store_register_file_def)

lemma length_prologue: "length emit_prologue \<le> 51" "length emit_epilogue = 35"
  using length_mov_imm64 [of X0 FSCAL_MASK]
  by (simp_all add: emit_prologue_def emit_epilogue_def length_registers)

lemma length_concat_const: "(\<And>x. x \<in> set xs \<Longrightarrow> length (f x) \<le> k) \<Longrightarrow> length (concat (map f xs)) \<le> k * length xs"
  by (induction xs) fastforce+

lemma length_loop_prologue: "length (emit_loop_prologue config init_ma init_mx dataset_offset) \<le> 69"
  using length_mov_imm64 [of X0 dataset_offset] length_mov_imm64 [of X19 "fst (e_mask config)"]
    length_mov_imm64 [of X20 "snd (e_mask config)"] length_mov_imm64 [of X0 FSCAL_MASK]
    length_mov_imm64 [of X24 "ucast init_ma"] length_mov_imm64 [of X25 "ucast init_mx"]
    length_mov_imm64 [of X26 "ucast init_mx"] length_mov_imm64 [of X27 "ucast init_ma"]
  by (simp add: emit_loop_prologue_def length_registers)

lemma length_iteration_pre: "length (emit_iteration_pre config) \<le> 151"
proof -
  have r: "length (concat (map (\<lambda>i. [ldr_imm X3 X2 (of_nat i * 8), eor_reg (r_reg i) (r_reg i) X3]) [0..<8])) \<le> 2 * 8"
    by (rule order_trans [OF length_concat_const [where k = 2]]) simp_all
  have f: "length (concat (map (\<lambda>i. [add_imm X0 X27 (of_nat i * 8)] @ emit_cvt_packed_int @
       [fmov_dd (fst (f_regs i)) D25, fmov_dd (snd (f_regs i)) D26]) [0..<4])) \<le> 8 * 4"
    by (rule order_trans [OF length_concat_const [where k = 8]]) (simp_all add: length_small)
  have e: "length (concat (map (\<lambda>i. [add_imm X0 X27 (32 + of_nat i * 8)] @ emit_cvt_packed_int @
       emit_mask_lane D25 X19 (fst (e_regs i)) @ emit_mask_lane D26 X20 (snd (e_regs i))) [0..<4])) \<le> 22 * 4"
  proof (rule order_trans [OF length_concat_const [where k = 22]])
    fix i
    show "length ([add_imm X0 X27 (32 + of_nat i * 8)] @ emit_cvt_packed_int @
       emit_mask_lane D25 X19 (fst (e_regs i)) @ emit_mask_lane D26 X20 (snd (e_regs i))) \<le> 22"
      using length_mask_lane [of D25 X19 "fst (e_regs i)"] length_mask_lane [of D26 X20 "snd (e_regs i)"]
      by (simp add: length_small)
  qed simp
  show ?thesis
    unfolding emit_iteration_pre_def
    using r f e length_bitmask(1) [of X26 X26 JIT_L3_MASK64 X1] length_bitmask(1) [of X27 X27 JIT_L3_MASK64 X1]
    by (simp only: length_append list.size)
qed

lemma length_iteration_post: "length (emit_iteration_post config) \<le> 78"
proof -
  have r: "length (concat (map (\<lambda>i. [ldr_imm X2 X0 (of_nat i * 8), eor_reg (r_reg i) (r_reg i) X2]) [0..<8])) \<le> 2 * 8"
    by (rule order_trans [OF length_concat_const [where k = 2]]) simp_all
  have f: "length (concat (map (\<lambda>i. emit_pair_op eor_v8b (f_regs i) (e_regs i)) [0..<4])) \<le> 2 * 4"
    by (rule order_trans [OF length_concat_const [where k = 2]]) (simp_all add: length_small)
  show ?thesis
    unfolding emit_iteration_post_def
    using r f length_bitmask(1) [of X0 X24 CACHE_LINE_ALIGN_MASK64 X1] length_bitmask(1) [of X1 X0 JIT_L3_MASK64 X2]
      length_bitmask(1) [of X1 X1 JIT_L3_MASK64 X2]
    by (simp only: length_append list.size length_map length_upt)
qed

end
