(* ===== verification/Jit_Body.thy ===== *)
theory Jit_Body
  imports Jit_Arms_Fp Jit_Size
begin

text \<open>
  The body of a compiled program (\<open>emit_body\<close>, \<open>src/randomx/jit/compiler.rs\<close>): run on the
  processor from its first word, it leaves at its end the machine that \<open>execute_bytecode\<close>
  (\<open>src/randomx/vm.rs\<close>) computes, branches included.
\<close>

section \<open>Running code in place\<close>

definition a64_reaches :: "fpu \<Rightarrow> u32 list \<Rightarrow> control \<times> a64_state \<Rightarrow> control \<times> a64_state \<Rightarrow> bool" where
  "a64_reaches fpu code c c' \<longleftrightarrow> (\<exists>n. a64_steps fpu code n c = Some c')"

lemma a64_steps_add:
  "a64_steps fpu code (m + n) c = Option.bind (a64_steps fpu code m c) (a64_steps fpu code n)"
  by (induction m arbitrary: c) (auto split: Option.bind_splits)

lemma a64_reaches_refl: "a64_reaches fpu code c c"
  unfolding a64_reaches_def by (rule exI [where x = 0]) simp

lemma a64_reaches_trans: "a64_reaches fpu code c c' \<Longrightarrow> a64_reaches fpu code c' c'' \<Longrightarrow> a64_reaches fpu code c c''"
  unfolding a64_reaches_def by (metis a64_steps_add bind.bind_lunit)

lemma a64_reaches_step: "a64_step fpu code c = Some c' \<Longrightarrow> a64_reaches fpu code c c'"
  unfolding a64_reaches_def by (rule exI [where x = 1]) simp

text \<open>\<open>code_at code p ws\<close>: the words lie in the code from position \<open>p\<close> on.\<close>

definition code_at :: "u32 list \<Rightarrow> nat \<Rightarrow> u32 list \<Rightarrow> bool" where
  "code_at code p ws \<longleftrightarrow> (\<exists>pre rest. code = pre @ ws @ rest \<and> length pre = p)"

lemma code_at_append:
  "code_at code p (as @ bs) \<Longrightarrow> code_at code p as \<and> code_at code (p + length as) bs"
  unfolding code_at_def by (metis append.assoc length_append)

lemma code_at_Cons: "code_at code p (w # ws) \<Longrightarrow> code_at code p [w] \<and> code_at code (Suc p) ws"
  using code_at_append [of code p "[w]" ws] by simp

lemma step_at:
  assumes "code_at code p [w]" "decode w = Some i"
  shows "a64_step fpu code (At (int p), s) = exec_at fpu (int p) i s"
  using assms by (auto simp: code_at_def a64_step_def)

lemma exec_at_plain: "exec_a64 fpu i s = Some s' \<Longrightarrow> exec_at fpu pc i s = Some (At (pc + 1), s')"
  by (cases i) (simp_all add: exec_at_def)

lemma a64_reaches_straight:
  "code_at code p ws \<Longrightarrow> exec_words fpu ws s = Some s' \<Longrightarrow>
     a64_reaches fpu code (At (int p), s) (At (int (p + length ws)), s')"
proof (induction ws arbitrary: p s)
  case Nil
  then show ?case by (simp add: a64_reaches_refl)
next
  case (Cons w ws)
  then obtain i s1 where i: "decode w = Some i" "exec_a64 fpu i s = Some s1" "exec_words fpu ws s1 = Some s'"
    by (auto split: Option.bind_splits)
  note at = code_at_Cons [OF Cons.prems(1)]
  have "a64_step fpu code (At (int p), s) = Some (At (int (Suc p)), s1)"
    using step_at [OF conjunct1 [OF at] i(1)] exec_at_plain [OF i(2)] by (simp add: add.commute)
  moreover have "a64_reaches fpu code (At (int (Suc p)), s1) (At (int (Suc p + length ws)), s')"
    by (rule Cons.IH) (use at i(3) in auto)
  ultimately show ?case using a64_reaches_trans a64_reaches_step by fastforce
qed

lemma runs_reaches:
  assumes "code_at code p ws" "runs_to fpu ws s Q"
  shows "\<exists>s'. a64_reaches fpu code (At (int p), s) (At (int (p + length ws)), s') \<and> Q s'"
proof -
  obtain s' where s': "exec_words fpu ws s = Some s'" "Q s'" using assms(2) by (auto simp: runs_to_def returns_iff)
  from a64_reaches_straight [OF assms(1) s'(1)] show ?thesis using s'(2) by blast
qed

section \<open>Branch offsets\<close>

lemma offset19_ok:
  assumes "- 0x40000 \<le> off" "off < 0x40000"
  shows "offset19 (word_of_int off AND 0x7FFFF) = off" "word_of_int off AND 0x7FFFF < (0x80000 :: u32)"
proof -
  have m: "(0x7FFFF :: u32) = mask 19" by (simp add: mask_eq_exp_minus_1)
  then have w: "word_of_int off AND 0x7FFFF = (take_bit 19 (word_of_int off) :: u32)" by (simp add: take_bit_eq_mask)
  have "uint (take_bit 19 (word_of_int off) :: u32) = take_bit 19 off"
    by (simp add: unsigned_take_bit_eq unsigned_of_int)
  then show "offset19 (word_of_int off AND 0x7FFFF) = off"
    unfolding offset19_def w using assms by (simp add: signed_take_bit_take_bit signed_take_bit_int_eq_self)
  have "unat (take_bit 19 (word_of_int off) :: u32) < 2 ^ 19" by (rule unat_take_bit_less)
  then show "word_of_int off AND 0x7FFFF < (0x80000 :: u32)" unfolding w by (simp add: word_less_nat_alt)
qed

lemma b_cond_at:
  assumes "code_at code p [b_cond cond off]" "cond = 0 \<or> cond = 1" "- 0x40000 \<le> off" "off < 0x40000"
  shows "a64_reaches fpu code (At (int p), s)
     (At (if (if cond = 0 then zflag s else \<not> zflag s) then int p + off else int p + 1), s)"
proof (rule a64_reaches_step)
  have "decode (b_cond cond off) = Some (Bcond (unat cond) off)"
    using assms(2) offset19_ok [OF assms(3, 4)] by (auto simp: decode_b_cond)
  then have "a64_step fpu code (At (int p), s) = exec_at fpu (int p) (Bcond (unat cond) off) s"
    by (rule step_at [OF assms(1)])
  then show "a64_step fpu code (At (int p), s) = Some
     (At (if (if cond = 0 then zflag s else \<not> zflag s) then int p + off else int p + 1), s)"
    using assms(2) by (elim disjE) (simp_all add: exec_at_def holds_cond_def)
qed

section \<open>Every instruction but the branch\<close>

lemma rel_ok: "jit_rel config base m s \<Longrightarrow> machine_ok m"
  by (simp add: jit_rel_def)

lemma emit_cfround_V1: "emit_cfround b V1 = cfround_head b @ cfround_block"
  by (simp add: emit_cfround_def cfround_head_def cfround_block_def Let_def)

lemma emit_cfround_V2:
  "emit_cfround b V2 = cfround_head b @ tst_bitmask X0 0x3C X1 @ [b_cond 1 (int (length cfround_block + 1))] @ cfround_block"
proof -
  have "(word_of_int (int k) :: u32) = of_nat k" for k by simp
  then show ?thesis
    unfolding emit_cfround_def Let_def b_cond_def cfround_head_def [symmetric, unfolded Let_def] cfround_block_def [symmetric]
    by (simp add: list_update_append1 list_update_append cfround_head_def cfround_block_def Let_def)
qed

lemma exec_cfround:
  assumes "jit_rel config base m s" "bi_src b < 8" "bi_itype b = Cfround"
  shows "exec_plain fpu version config b m =
     Some (let x = rotate_right (unat (bi_imm b)) (xr s (bi_src b + 8))
           in if version = V1 \<or> x AND 60 = 0 then m\<lparr>m_rm := unat (x AND 3)\<rparr> else m)"
  using rel_get(1) [OF assms(1, 2)] assms(3) by (simp add: exec_plain_def Let_def)

text \<open>The arms that are straight code.\<close>

lemma int_arms:
  assumes rel: "jit_rel config base m s" and ok: "bi_ok b"
    and ex: "exec_plain fpu version config b m = Some m'"
    and t: "bi_itype b \<in> {IaddRs, IaddM, IsubR, IsubM, ImulR, ImulM, ImulhR, ImulhM, IsmulhR, IsmulhM,
        InegR, IxorR, IxorM, IrorR, IrolR}"
  shows "runs_to fpu (emit_plain b version) s (simulates config base m' s)"
proof -
  have d: "bi_dst b < 8" using t ok by (auto simp: bi_ok_def)
  have mem: "runs_to fpu (emit_mem_op oper b) s (simulates config base m' s)"
    if "int_op m b (mem_operand m b) f = Some m'" "reg_op oper f" for oper f
    by (rule int_op_sim [OF rel d that(1)]) (rule runs_mem_op [OF that(2) rel d])
  have reg: "runs_to fpu (emit_reg_op oper b) s (simulates config base m' s)"
    if "int_op m b (src_or_imm m b) f = Some m'" "reg_op oper f" for oper f
    by (rule int_op_sim [OF rel d that(1)]) (rule runs_reg_op [OF that(2) rel d])
  have rr: "runs_to fpu [oper (r_reg (bi_dst b)) (r_reg (bi_dst b)) (r_reg (bi_src b))] s (simulates config base m' s)"
    if "int_op m b (get_r m (bi_src b)) f = Some m'" "reg_op oper f" "bi_src b < 8" for oper f
    by (rule int_op_sim [OF rel d that(1)])
      (use runs_reg_reg [OF that(2) d that(3)] rel_get(1) [OF rel that(3)] in auto)
  have rs: "runs_to fpu (emit_iadd_rs b) s (simulates config base m' s)" if "bi_itype b = IaddRs"
    by (rule int_op_sim [OF rel d, of "get_r m (bi_src b)" "\<lambda>d s. d + (push_bit (bi_shift b) s + bi_imm b)"])
      (use that ok ex rel_get(1) [OF rel, of "bi_src b"] runs_iadd_rs [of b fpu s] in
        \<open>auto simp: exec_plain_def Let_def bi_ok_def\<close>)
  have ror: "runs_to fpu (emit_iror_r b) s (simulates config base m' s)" if "bi_itype b = IrorR"
    by (rule int_op_sim [OF rel d, of "src_or_imm m b" rotr64])
      (use that ex runs_iror_r [OF rel d] in \<open>auto simp: exec_plain_def Let_def\<close>)
  have rol: "runs_to fpu (emit_irol_r b) s (simulates config base m' s)" if "bi_itype b = IrolR"
    by (rule int_op_sim [OF rel d, of "src_or_imm m b" rotl64])
      (use that ex runs_irol_r [OF rel d] in \<open>auto simp: exec_plain_def Let_def\<close>)
  have neg: "runs_to fpu (emit_ineg_r b) s (simulates config base m' s)" if "bi_itype b = InegR"
    by (rule int_op_sim [OF rel d, of "Some 0" "\<lambda>d s. NOT d + 1"])
      (use that ex runs_ineg_r [OF d, of fpu s] in \<open>auto simp: exec_plain_def Let_def\<close>)
  note defs = emit_plain_def exec_plain_def Let_def emit_iadd_m_def emit_isub_r_def emit_isub_m_def
    emit_imul_r_def emit_imul_m_def emit_imulh_r_def emit_imulh_m_def emit_ismulh_r_def
    emit_ismulh_m_def emit_ixor_r_def emit_ixor_m_def
  show ?thesis
    using t
  proof (elim insertE emptyE)
    assume i: "bi_itype b = IaddRs" then show ?thesis using rs by (simp add: emit_plain_def)
  next
    assume i: "bi_itype b = IaddM" then show ?thesis using ex mem [OF _ reg_ops(1)] by (simp add: defs)
  next
    assume i: "bi_itype b = IsubR" then show ?thesis using ex reg [OF _ reg_ops(2)] by (simp add: defs)
  next
    assume i: "bi_itype b = IsubM" then show ?thesis using ex mem [OF _ reg_ops(2)] by (simp add: defs)
  next
    assume i: "bi_itype b = ImulR" then show ?thesis using ex reg [OF _ reg_ops(3)] by (simp add: defs)
  next
    assume i: "bi_itype b = ImulM" then show ?thesis using ex mem [OF _ reg_ops(3)] by (simp add: defs)
  next
    assume i: "bi_itype b = ImulhR" then show ?thesis using ex ok rr [OF _ reg_ops(4)] by (simp add: defs bi_ok_def)
  next
    assume i: "bi_itype b = ImulhM" then show ?thesis using ex mem [OF _ reg_ops(4)] by (simp add: defs)
  next
    assume i: "bi_itype b = IsmulhR" then show ?thesis using ex ok rr [OF _ reg_ops(5)] by (simp add: defs bi_ok_def)
  next
    assume i: "bi_itype b = IsmulhM" then show ?thesis using ex mem [OF _ reg_ops(5)] by (simp add: defs)
  next
    assume i: "bi_itype b = InegR" then show ?thesis using neg by (simp add: emit_plain_def)
  next
    assume i: "bi_itype b = IxorR" then show ?thesis using ex reg [OF _ reg_ops(6)] by (simp add: defs)
  next
    assume i: "bi_itype b = IxorM" then show ?thesis using ex mem [OF _ reg_ops(6)] by (simp add: defs)
  next
    assume i: "bi_itype b = IrorR" then show ?thesis using ror by (simp add: emit_plain_def)
  next
    assume i: "bi_itype b = IrolR" then show ?thesis using rol by (simp add: emit_plain_def)
  qed
qed

lemma flt_arms:
  assumes rel: "jit_rel config base m s" and ok: "bi_ok b"
    and ex: "exec_plain fpu version config b m = Some m'"
    and t: "bi_itype b \<in> {FaddR, FaddM, FsubR, FsubM, FscalR, FmulR, FdivM, FsqrtR}"
  shows "runs_to fpu (emit_plain b version) s (simulates config base m' s)"
proof -
  have d: "bi_dst b < 4" using t ok by (auto simp: bi_ok_def)
  note defs = emit_plain_def exec_plain_def Let_def emit_fadd_r_def emit_fsub_r_def emit_fmul_r_def
    emit_fadd_m_def emit_fsub_m_def
  have fr: "runs_to fpu (emit_pair_op oper (f_regs (bi_dst b)) (a_regs (bi_src b))) s (simulates config base m' s)"
    if "flt_op_f m b (get_a m (bi_src b)) (g fpu (m_rm m)) = Some m'" "pair_op oper g" "bi_src b < 4" for oper g
    by (rule flt_op_f_sim [OF rel d that(1)])
      (use runs_f_a [OF that(2) rel d that(3)] rel_get(4) [OF rel that(3)] in auto)
  have fm: "runs_to fpu (emit_mem_addr b @ emit_cvt_packed_int @ emit_pair_op oper (f_regs (bi_dst b)) (25, 26)) s
      (simulates config base m' s)"
    if "flt_op_f m b (mem_f128 m b) (g fpu (m_rm m)) = Some m'" "pair_op oper g" "bi_src b < 8" for oper g
    by (rule flt_op_f_sim [OF rel d that(1)]) (rule runs_fadd_m [OF that(2) rel d that(3)])
  show ?thesis
    using t
  proof (elim insertE emptyE)
    assume i: "bi_itype b = FaddR" then show ?thesis using ex ok fr [OF _ pair_ops(1)] by (simp add: defs bi_ok_def)
  next
    assume i: "bi_itype b = FaddM" then show ?thesis using ex ok fm [OF _ pair_ops(1)] by (simp add: defs bi_ok_def)
  next
    assume i: "bi_itype b = FsubR" then show ?thesis using ex ok fr [OF _ pair_ops(2)] by (simp add: defs bi_ok_def)
  next
    assume i: "bi_itype b = FsubM" then show ?thesis using ex ok fm [OF _ pair_ops(2)] by (simp add: defs bi_ok_def)
  next
    assume i: "bi_itype b = FscalR"
    have "runs_to fpu (emit_fscal_r b) s (simulates config base m' s)"
      by (rule flt_op_f_sim [OF rel d, of "Some (0x80F0000000000000, 0x80F0000000000000)" "\<lambda>d mask. d XOR mask"])
        (use i ex runs_fscal_r [OF rel d, of fpu] in \<open>auto simp: exec_plain_def Let_def\<close>)
    then show ?thesis using i by (simp add: emit_plain_def)
  next
    assume i: "bi_itype b = FmulR"
    then have sr: "bi_src b < 4" using ok by (simp add: bi_ok_def)
    have "runs_to fpu (emit_fmul_r b) s (simulates config base m' s)"
      unfolding emit_fmul_r_def
      by (rule flt_op_e_sim [OF rel d, of "get_a m (bi_src b)" "fp_mul fpu (m_rm m)"])
        (use i ex runs_e_a [OF pair_ops(3) rel d sr, of fpu] rel_get(4) [OF rel sr] in \<open>auto simp: exec_plain_def Let_def\<close>)
    then show ?thesis using i by (simp add: emit_plain_def)
  next
    assume i: "bi_itype b = FdivM"
    then have sr: "bi_src b < 8" using ok by (simp add: bi_ok_def)
    have "runs_to fpu (emit_fdiv_m b) s (simulates config base m' s)"
      by (rule flt_op_e_sim [OF rel d, of "map_option (mask_register_exponent_mantissa config) (mem_f128 m b)" "fp_div fpu (m_rm m)"])
        (use i ex runs_fdiv_m [OF rel d sr, of _ fpu] in \<open>auto simp: exec_plain_def Let_def\<close>)
    then show ?thesis using i by (simp add: emit_plain_def)
  next
    assume i: "bi_itype b = FsqrtR"
    have "runs_to fpu (emit_fsqrt_r b) s (simulates config base m' s)"
      by (rule flt_op_e_sim [OF rel d, of "Some (0, 0)" "\<lambda>d s. fp_sqrt fpu (m_rm m) d"])
        (use i ex runs_fsqrt_r [OF rel d, of fpu] in \<open>auto simp: exec_plain_def Let_def\<close>)
    then show ?thesis using i by (simp add: emit_plain_def)
  qed
qed

lemma other_arms:
  assumes rel: "jit_rel config base m s" and ok: "bi_ok b"
    and ex: "exec_plain fpu version config b m = Some m'"
    and t: "bi_itype b \<in> {IswapR, FswapR, Istore, Nop} \<or> bi_itype b = Cfround \<and> version = V1"
  shows "runs_to fpu (emit_plain b version) s (simulates config base m' s)"
proof -
  note m = rel_ok [OF rel]
  consider "bi_itype b = IswapR" | "bi_itype b = FswapR" | "bi_itype b = Istore" | "bi_itype b = Nop"
    | "bi_itype b = Cfround" "version = V1" using t by blast
  then show ?thesis
  proof cases
    case 1
    then have r: "bi_dst b < 8" "bi_src b < 8" using ok by (auto simp: bi_ok_def)
    have "machine_ok (upd_r (bi_dst b) (xr s (bi_src b + 8)) m)" using m by (simp add: upd_r_def machine_ok_def)
    then have "m' = upd_r (bi_src b) (xr s (bi_dst b + 8)) (upd_r (bi_dst b) (xr s (bi_src b + 8)) m)"
      using ex 1 rel_get(1) [OF rel] r put_upd(1) m by (simp add: exec_plain_def)
    then show ?thesis using 1 runs_iswap_r [OF rel r] by (simp add: emit_plain_def)
  next
    case 2
    then have r: "bi_dst b < 4" using ok by (auto simp: bi_ok_def)
    have "m' = (if bi_fswap_is_e b then upd_e (bi_dst b) (swap_f128 (rf_e (m_nreg m) ! bi_dst b)) m
               else upd_f (bi_dst b) (swap_f128 (rf_f (m_nreg m) ! bi_dst b)) m)"
      using ex 2 put_upd [OF m] get_Some [OF m] r by (simp add: exec_plain_def split: if_splits)
    from runs_fswap_r [OF rel r this] show ?thesis using 2 by (simp add: emit_plain_def)
  next
    case 3
    then have r: "bi_dst b < 8" "bi_src b < 8" using ok by (auto simp: bi_ok_def)
    obtain sp where "store64 (m_sp m) (masked_addr (xr s (bi_dst b + 8)) b) (xr s (bi_src b + 8)) = Some sp" "m' = m\<lparr>m_sp := sp\<rparr>"
      using ex 3 rel_get(1) [OF rel] r by (auto simp: exec_plain_def split: Option.bind_splits)
    then show ?thesis using 3 runs_istore [OF rel r] by (simp add: emit_plain_def)
  next
    case 4
    then show ?thesis using ex rel by (simp add: exec_plain_def emit_plain_def runs_to_def simulates_def jit_frame_refl)
  next
    case 5
    then have r: "bi_src b < 8" "bi_imm b < 64" using ok by (auto simp: bi_ok_def)
    let ?x = "rotate_right (unat (bi_imm b)) (xr s (bi_src b + 8))"
    have m': "m' = m\<lparr>m_rm := unat (?x AND 3)\<rparr>" using ex exec_cfround [OF rel r(1) 5(1), of fpu version] 5(2) by (simp add: Let_def)
    have "runs_to fpu (cfround_head b @ cfround_block) s (simulates config base m' s)"
    proof (rule runs_append [OF runs_cfround_head [OF r]])
      fix x assume x: "x = set_x 0 ?x s"
      then have t: "temps s x" by (simp add: temps_set)
      show "runs_to fpu cfround_block x (simulates config base m' s)"
        by (rule runs_mono [OF cfround_block_sim [OF temps_rel [OF t rel]]])
          (use x m' jit_frame_trans [OF temps_frame [OF t]] in \<open>auto simp: simulates_def\<close>)
    qed
    then show ?thesis using 5 by (simp add: emit_plain_def emit_cfround_V1)
  qed
qed

lemma straight_arms:
  assumes "jit_rel config base m s" "bi_ok b" "exec_plain fpu version config b m = Some m'"
    and "bi_itype b \<noteq> Cbranch" "bi_itype b = Cfround \<Longrightarrow> version = V1"
  shows "runs_to fpu (emit_plain b version) s (simulates config base m' s)"
  using int_arms [OF assms(1-3)] flt_arms [OF assms(1-3)] other_arms [OF assms(1-3)] assms(4, 5)
  by (cases "bi_itype b") auto

section \<open>One instruction in place\<close>

lemma simulates_trans:
  "jit_frame base s s1 \<Longrightarrow> simulates config base m s1 s2 \<Longrightarrow> simulates config base m s s2"
  unfolding simulates_def using jit_frame_trans by blast

text \<open>Version 2 jumps over the block of \<open>CFROUND\<close> unless four bits are zero.\<close>

lemma cfround_V2_reaches:
  assumes rel: "jit_rel config base m s" and r: "bi_src b < 8" "bi_imm b < 64"
    and at: "code_at code p (emit_cfround b V2)"
    and m': "m' = (let x = rotate_right (unat (bi_imm b)) (xr s (bi_src b + 8))
      in if x AND 60 = 0 then m\<lparr>m_rm := unat (x AND 3)\<rparr> else m)"
  shows "\<exists>s'. a64_reaches fpu code (At (int p), s) (At (int (p + length (emit_cfround b V2))), s') \<and>
     simulates config base m' s s'"
proof -
  let ?x = "rotate_right (unat (bi_imm b)) (xr s (bi_src b + 8))"
  let ?pre = "cfround_head b @ tst_bitmask X0 0x3C X1" and ?n = "length cfround_block"
  have n: "?n + 1 < 0x40000" using length_cfround [of b V2] by (simp add: emit_cfround_V2)
  note at' = at [unfolded emit_cfround_V2]
  have c: "code_at code p ?pre" "code_at code (p + length ?pre) [b_cond 1 (int (?n + 1))]"
    "code_at code (p + length ?pre + 1) cfround_block"
    using code_at_append [of code p ?pre] code_at_append [of code "p + length ?pre" "[b_cond 1 (int (?n + 1))]" cfround_block] at'
    by simp_all
  have "runs_to fpu ?pre s (\<lambda>x. temps s x \<and> xr x 0 = ?x \<and> zflag x = (?x AND 60 = 0))"
  proof (rule runs_append [OF runs_cfround_head [OF r]], clarify)
    show "runs_to fpu (tst_bitmask X0 0x3C X1) (set_x 0 ?x s) (\<lambda>x. temps s x \<and> xr x 0 = ?x \<and> zflag x = (?x AND 60 = 0))"
      by (rule runs_tst) (auto simp: temps_set temps_def)
  qed
  from runs_reaches [OF c(1) this] obtain s1 where
    s1: "a64_reaches fpu code (At (int p), s) (At (int (p + length ?pre)), s1)"
      "temps s s1" "xr s1 0 = ?x" "zflag s1 = (?x AND 60 = 0)" by blast
  have rel1: "jit_rel config base m s1" by (rule temps_rel [OF s1(2) rel])
  have jump: "a64_reaches fpu code (At (int (p + length ?pre)), s1)
      (At (if \<not> zflag s1 then int (p + length ?pre) + int (?n + 1) else int (p + length ?pre) + 1), s1)"
    using b_cond_at [OF c(2), of fpu s1] n by simp
  show ?thesis
  proof (cases "?x AND 60 = 0")
    case True
    have m'': "m' = m\<lparr>m_rm := unat (?x AND 3)\<rparr>" using m' True by (simp add: Let_def)
    from runs_reaches [OF c(3) cfround_block_sim [OF rel1 s1(3)]] obtain s2 where
      s2: "a64_reaches fpu code (At (int (p + length ?pre + 1)), s1) (At (int (p + length ?pre + 1 + ?n)), s2)"
        "simulates config base m' s1 s2" unfolding m'' by blast
    have "a64_reaches fpu code (At (int (p + length ?pre)), s1) (At (int (p + length ?pre + 1)), s1)"
      using jump True s1(4) by (simp add: add.commute)
    from a64_reaches_trans [OF s1(1) a64_reaches_trans [OF this s2(1)]]
    have "a64_reaches fpu code (At (int p), s) (At (int (p + length (emit_cfround b V2))), s2)"
      by (simp add: emit_cfround_V2 algebra_simps)
    then show ?thesis using simulates_trans [OF temps_frame [OF s1(2)] s2(2)] by blast
  next
    case False
    then have "a64_reaches fpu code (At (int (p + length ?pre)), s1) (At (int (p + length (emit_cfround b V2))), s1)"
      using jump s1(4) by (simp add: emit_cfround_V2 algebra_simps)
    from a64_reaches_trans [OF s1(1) this]
    have "a64_reaches fpu code (At (int p), s) (At (int (p + length (emit_cfround b V2))), s1)" .
    moreover have "simulates config base m' s s1"
      using False m' rel1 temps_frame [OF s1(2)] by (simp add: simulates_def Let_def)
    ultimately show ?thesis by blast
  qed
qed

lemma plain_reaches:
  assumes "jit_rel config base m s" "bi_ok b" "exec_plain fpu version config b m = Some m'"
    and "bi_itype b \<noteq> Cbranch" "code_at code p (emit_plain b version)"
  shows "\<exists>s'. a64_reaches fpu code (At (int p), s) (At (int (p + length (emit_plain b version))), s') \<and>
     simulates config base m' s s'"
proof (cases "bi_itype b = Cfround \<and> version = V2")
  case True
  then have r: "bi_src b < 8" "bi_imm b < 64" using assms(2) by (auto simp: bi_ok_def)
  have "m' = (let x = rotate_right (unat (bi_imm b)) (xr s (bi_src b + 8))
      in if x AND 60 = 0 then m\<lparr>m_rm := unat (x AND 3)\<rparr> else m)"
    using assms(3) exec_cfround [OF assms(1) r(1), of fpu version] True by (simp add: Let_def)
  from cfround_V2_reaches [OF assms(1) r _ this] assms(5) show ?thesis
    using True by (simp add: emit_plain_def)
next
  case False
  then have "runs_to fpu (emit_plain b version) s (simulates config base m' s)"
    by (intro straight_arms [OF assms(1-4)]) (cases version, auto)
  then show ?thesis by (rule runs_reaches [OF assms(5)])
qed

text \<open>A branch: to the offset recorded for the instruction after its target, or on.\<close>

lemma cbranch_reaches:
  assumes rel: "jit_rel config base m s" and ok: "bi_ok b" "bi_itype b = Cbranch"
    and ws: "emit_cbranch b offsets k n p = Some ws" and at: "code_at code p ws"
    and t: "0 \<le> bi_target b + 1" "k < n"
    and size: "length code < 0x40000" "offsets ! nat (bi_target b + 1) < 0x40000"
    and ex: "exec_instr fpu version config b (int k, m) = Some (pc', m')"
  shows "\<exists>s'. a64_reaches fpu code (At (int p), s)
       (At (if pc' = int k + 1 \<and> bi_target b \<noteq> int k then int (p + length ws) else int (offsets ! nat pc')), s') \<and>
     simulates config base m' s s'"
proof -
  have d: "bi_dst b < 8" using ok by (simp add: bi_ok_def)
  note r = r_reg_props [OF d]
  let ?dst = "r_reg (bi_dst b)" and ?v = "xr s (bi_dst b + 8) + bi_imm b"
  let ?pre = "mov_imm64 X0 (bi_imm b) @ [add_reg ?dst ?dst X0] @ tst_bitmask ?dst (ucast (bi_mem_mask b)) X0"
  let ?taken = "?v AND ucast (bi_mem_mask b) = 0"
  have tk: "bi_target b < int k" using ws by (auto simp: emit_cbranch_def Let_def split: if_splits)
  then have tn: "nat (bi_target b + 1) < n" "nat (bi_target b + 1) < length offsets"
    and ws': "ws = ?pre @ [b_cond 0 (int (offsets ! nat (bi_target b + 1)) - int (p + length ?pre))]"
    using ws t by (auto simp: emit_cbranch_def Let_def at_index_def algebra_simps split: if_splits)
  have m': "m' = upd_r (bi_dst b) ?v m" "pc' = (if ?taken then bi_target b + 1 else int k + 1)"
    using ex ok rel_get(1) [OF rel d] put_upd(1) [OF rel_ok [OF rel] d] by (auto simp: exec_instr_def Let_def)
  let ?off = "int (offsets ! nat (bi_target b + 1)) - int (p + length ?pre)"
  have c: "code_at code p ?pre" "code_at code (p + length ?pre) [b_cond 0 ?off]"
    using code_at_append [of code p ?pre "[b_cond 0 ?off]"] at by (simp_all add: ws')
  have "p + length ?pre \<le> length code" using c(1) by (auto simp: code_at_def)
  then have off: "- 0x40000 \<le> ?off" "?off < 0x40000" using size by auto
  have t0: "temps s (set_x 0 (bi_imm b) s)" by (simp add: temps_set)
  have "runs_to fpu ?pre s (\<lambda>x. simulates config base m' s x \<and> zflag x = ?taken)"
  proof (rule runs_append [where R = "\<lambda>x. x = set_x 0 (bi_imm b) s"])
    show "runs_to fpu (mov_imm64 X0 (bi_imm b)) s (\<lambda>x. x = set_x 0 (bi_imm b) s)"
      by (rule runs_mov) simp_all
  next
    fix x assume x: "x = set_x 0 (bi_imm b) s"
    show "runs_to fpu ([add_reg ?dst ?dst X0] @ tst_bitmask ?dst (ucast (bi_mem_mask b)) X0) x
        (\<lambda>x. simulates config base m' s x \<and> zflag x = ?taken)"
    proof (rule runs_append [where R = "\<lambda>y. y = set_x (bi_dst b + 8) ?v x"])
      show "runs_to fpu [add_reg ?dst ?dst X0] x (\<lambda>y. y = set_x (bi_dst b + 8) ?v x)"
        by (rule runs_words [OF reg_opD [OF reg_ops(1)]]) (use r x in simp_all)
    next
      fix y assume y: "y = set_x (bi_dst b + 8) ?v x"
      have sim: "simulates config base m' s y"
        unfolding m'(1) by (rule int_result_sim [OF rel d]) (rule int_resultI [OF t0 y [unfolded x]])
      show "runs_to fpu (tst_bitmask ?dst (ucast (bi_mem_mask b)) X0) y
          (\<lambda>x. simulates config base m' s x \<and> zflag x = ?taken)"
      proof (rule runs_tst)
        fix z assume "temps y z"
        then have "temps y (set_z (xr y (unat ?dst) AND ucast (bi_mem_mask b) = 0) z)" by (simp add: temps_set)
        then have "simulates config base m' s (set_z (xr y (unat ?dst) AND ucast (bi_mem_mask b) = 0) z)"
          using sim temps_rel jit_frame_trans temps_frame unfolding simulates_def by blast
        then show "simulates config base m' s (set_z (xr y (unat ?dst) AND ucast (bi_mem_mask b) = 0) z) \<and>
            zflag (set_z (xr y (unat ?dst) AND ucast (bi_mem_mask b) = 0) z) = ?taken"
          using r y by simp
      qed (use r in simp_all)
    qed
  qed
  from runs_reaches [OF c(1) this] obtain s1 where
    s1: "a64_reaches fpu code (At (int p), s) (At (int (p + length ?pre)), s1)"
      "simulates config base m' s s1" "zflag s1 = ?taken" by blast
  have "a64_reaches fpu code (At (int (p + length ?pre)), s1)
      (At (if zflag s1 then int (p + length ?pre) + ?off else int (p + length ?pre) + 1), s1)"
    using b_cond_at [OF c(2) _ off, of fpu s1] by simp
  from a64_reaches_trans [OF s1(1) this] have go: "a64_reaches fpu code (At (int p), s)
      (At (if ?taken then int (offsets ! nat (bi_target b + 1)) else int (p + length ws)), s1)"
    by (simp add: s1(3) ws' split: if_splits)
  have "(if ?taken then int (offsets ! nat (bi_target b + 1)) else int (p + length ws)) =
      (if pc' = int k + 1 \<and> bi_target b \<noteq> int k then int (p + length ws) else int (offsets ! nat pc'))"
    using m'(2) tk by auto
  then show ?thesis using go s1(2) by auto
qed

section \<open>The layout of the body\<close>

text \<open>One segment of code per instruction, the recorded offset of an instruction being where its
  segment starts.\<close>

definition body_layout ::
  "bytecode_instruction list \<Rightarrow> rx_version \<Rightarrow> nat \<Rightarrow> u32 list list \<Rightarrow> nat list \<Rightarrow> nat \<Rightarrow> bool" where
  "body_layout bc version p segs offs n \<longleftrightarrow>
     length segs = n \<and> length offs = RANDOMX_PROGRAM_SIZE_MAX \<and>
     (\<forall>j < n. offs ! j = p + length (concat (take j segs)) \<and>
        jit_emit_instruction (bc ! j) offs j (length bc) version (offs ! j) = Some (segs ! j))"

lemma emit_instruction_cong:
  assumes "j < i"
  shows "jit_emit_instruction b (offs[i := x]) j n version pos = jit_emit_instruction b offs j n version pos"
proof -
  have "at_index (offs[i := x]) (nat (bi_target b + 1)) = at_index offs (nat (bi_target b + 1))"
    if "bi_target b < int j"
    using that assms by (simp add: at_index_def)
  then show ?thesis by (auto simp: jit_emit_instruction_def emit_cbranch_def Let_def)
qed

lemma for_upt_Some:
  "for_each f [0..<n] s = Some r \<Longrightarrow> I 0 s \<Longrightarrow>
     (\<And>i s s'. i < n \<Longrightarrow> I i s \<Longrightarrow> f i s = Some s' \<Longrightarrow> I (Suc i) s') \<Longrightarrow> I n r"
proof (induction n arbitrary: r)
  case (Suc n)
  from Suc.prems(1) obtain x where "for_each f [0..<n] s = Some x" "f n x = Some r"
    by (auto simp: for_each_append split: Option.bind_splits)
  then show ?case using Suc by (metis less_SucI lessI)
qed simp

lemma layout_step:
  assumes lay: "body_layout bc version (length pre) segs offs i" and code: "code = pre @ concat segs"
    and i: "i < length bc" "i < RANDOMX_PROGRAM_SIZE_MAX"
    and step: "jit_emit_instruction (bc ! i) (offs[i := length code]) i (length bc) version (length code) = Some ws"
  shows "body_layout bc version (length pre) (segs @ [ws]) (offs[i := length code]) (Suc i)"
proof -
  have l: "length segs = i" "length offs = RANDOMX_PROGRAM_SIZE_MAX" using lay by (auto simp: body_layout_def)
  have "offs[i := length code] ! j = length pre + length (concat (take j (segs @ [ws]))) \<and>
      jit_emit_instruction (bc ! j) (offs[i := length code]) j (length bc) version (offs[i := length code] ! j) = Some ((segs @ [ws]) ! j)"
    if "j < Suc i" for j
  proof (cases "j = i")
    case True
    then show ?thesis using l code step i by (simp add: nth_append)
  next
    case False
    then have j: "j < i" using that by simp
    then have "offs ! j = length pre + length (concat (take j segs))"
      "jit_emit_instruction (bc ! j) offs j (length bc) version (offs ! j) = Some (segs ! j)"
      using lay by (auto simp: body_layout_def)
    then show ?thesis using j l by (simp add: emit_instruction_cong nth_append)
  qed
  then show ?thesis
    unfolding body_layout_def using l by (intro conjI) (simp, simp, blast)
qed

lemma emit_body_layout:
  assumes "emit_body pre bc version = Some code"
  shows "\<exists>segs offs. code = pre @ concat segs \<and> body_layout bc version (length pre) segs offs (length bc)"
proof -
  obtain offs where f: "for_each (emit_body_step bc version) [0..<length bc] (pre, replicate RANDOMX_PROGRAM_SIZE_MAX 0) = Some (code, offs)"
    and n: "length bc \<le> RANDOMX_PROGRAM_SIZE_MAX"
    using assms by (auto simp: emit_body_def split: if_splits)
  define I where "I = (\<lambda>i (code, offs). \<exists>segs. code = pre @ concat segs \<and> body_layout bc version (length pre) segs offs i)"
  have "I (length bc) (code, offs)"
  proof (rule for_upt_Some [OF f])
    show "I 0 (pre, replicate RANDOMX_PROGRAM_SIZE_MAX 0)" by (simp add: I_def body_layout_def)
  next
    fix i st st' assume i: "i < length bc" and "I i st" and st': "emit_body_step bc version i st = Some st'"
    then obtain c offs segs where st: "st = (c, offs)" "c = pre @ concat segs" "body_layout bc version (length pre) segs offs i"
      by (cases st) (auto simp: I_def)
    obtain ws where ws: "jit_emit_instruction (bc ! i) (offs[i := length c]) i (length bc) version (length c) = Some ws"
      "st' = (c @ ws, offs[i := length c])"
      using st' by (auto simp: st(1) emit_body_step_def put_index_def split: Option.bind_splits if_splits)
    have "body_layout bc version (length pre) (segs @ [ws]) (offs[i := length c]) (Suc i)"
      by (rule layout_step [OF st(3, 2) i _ ws(1)]) (use i n in simp)
    then show "I (Suc i) st'"
      unfolding I_def ws(2) prod.case by (intro exI [where x = "segs @ [ws]"]) (simp add: st(2))
  qed
  then show ?thesis by (auto simp: I_def)
qed

lemma emit_instruction_total:
  assumes "bytecode_ok bc" "i < length bc" "length bc \<le> length offs"
  shows "\<exists>ws. jit_emit_instruction (bc ! i) offs i n version pos = Some ws"
proof -
  have "bi_itype (bc ! i) = Cbranch \<Longrightarrow> -1 \<le> bi_target (bc ! i) \<and> bi_target (bc ! i) < int i"
    using assms by (auto simp: bytecode_ok_def branch_ok_def quiet_def is_branch_def)
  then show ?thesis using assms by (auto simp: jit_emit_instruction_def emit_cbranch_def Let_def)
qed

lemma emit_body_total:
  assumes "bytecode_ok bc" "length bc \<le> RANDOMX_PROGRAM_SIZE_MAX"
  shows "\<exists>code. emit_body pre bc version = Some code \<and> length code \<le> length pre + 33 * length bc"
proof -
  have "returns (\<lambda>(code, offs). length offs = RANDOMX_PROGRAM_SIZE_MAX \<and> length code \<le> length pre + 33 * length bc)
      (for_each (emit_body_step bc version) [0..<length bc] (pre, replicate RANDOMX_PROGRAM_SIZE_MAX 0))"
  proof (rule returns_for_upt [where I = "\<lambda>i (code, offs). length offs = RANDOMX_PROGRAM_SIZE_MAX \<and> length code \<le> length pre + 33 * i"])
    fix i and st :: "u32 list \<times> nat list"
    assume i: "i < length bc" and st: "case st of (code, offs) \<Rightarrow> length offs = RANDOMX_PROGRAM_SIZE_MAX \<and> length code \<le> length pre + 33 * i"
    obtain c offs where s: "st = (c, offs)" by (cases st)
    obtain ws where ws: "jit_emit_instruction (bc ! i) (offs[i := length c]) i (length bc) version (length c) = Some ws"
      using emit_instruction_total [OF assms(1) i, of "offs[i := length c]" "length bc" version "length c"] st assms(2) s
      by auto
    have "length ws \<le> 33" by (rule length_emit_instruction [OF ws])
    then show "returns (\<lambda>(code, offs). length offs = RANDOMX_PROGRAM_SIZE_MAX \<and> length code \<le> length pre + 33 * Suc i) (emit_body_step bc version i st)"
      using st s ws i assms(2) by (simp add: emit_body_step_def)
  qed simp_all
  then show ?thesis using assms(2) by (auto simp: emit_body_def returns_iff)
qed

section \<open>The body simulates the program\<close>

lemma layout_at:
  assumes "body_layout bc version p segs offs n" "j < n" "length pre = p"
  shows "code_at (pre @ concat segs @ rest) (offs ! j) (segs ! j)"
    and "offs ! j + length (segs ! j) = p + length (concat (take (Suc j) segs))"
proof -
  have l: "length segs = n" "offs ! j = p + length (concat (take j segs))" using assms(1, 2) by (auto simp: body_layout_def)
  have "concat segs = concat (take j segs) @ segs ! j @ concat (drop (Suc j) segs)"
    by (metis assms(2) concat.simps(2) concat_append id_take_nth_drop l(1))
  then show "code_at (pre @ concat segs @ rest) (offs ! j) (segs ! j)"
    unfolding code_at_def l(2) using assms(3)
    by (intro exI [where x = "pre @ concat (take j segs)"] exI [where x = "concat (drop (Suc j) segs) @ rest"]) simp
  show "offs ! j + length (segs ! j) = p + length (concat (take (Suc j) segs))"
    using assms(2) l by (simp add: take_Suc_conv_app_nth)
qed

lemma body_simulates:
  assumes lay: "body_layout bc version (length pre) segs offs (length bc)" and ok: "bytecode_ok bc"
    and code: "code = pre @ concat segs @ rest" and size: "length code < 0x40000"
  shows "bytecode_fuel fpu version config bc n (int k, m) = Some m' \<Longrightarrow> k \<le> length bc \<Longrightarrow>
    jit_rel config base m s \<Longrightarrow>
    \<exists>s'. a64_reaches fpu code (At (int (length pre + length (concat (take k segs)))), s)
        (At (int (length pre + length (concat segs))), s') \<and> simulates config base m' s s'"
proof (induction n arbitrary: k m s)
  case 0
  have len: "length segs = length bc" using lay by (simp add: body_layout_def)
  have "k = length bc" "m' = m"
    using "0.prems"(1, 2) by (subst (asm) bytecode_fuel.simps, simp split: if_splits)+
  then show ?case using 0 len by (auto simp: simulates_def intro: a64_reaches_refl jit_frame_refl)
next
  case (Suc n)
  let ?pos = "\<lambda>j. length pre + length (concat (take j segs))"
  have len: "length segs = length bc" using lay by (simp add: body_layout_def)
  show ?case
  proof (cases "k < length bc")
    case False
    then have "k = length bc" using Suc.prems(2) by simp
    then have "m' = m" using Suc.prems(1) by (simp add: bytecode_fuel_stop)
    then show ?thesis using Suc.prems(3) \<open>k = length bc\<close> len
      by (auto simp: simulates_def intro: a64_reaches_refl jit_frame_refl)
  next
    case True
    let ?b = "bc ! k"
    have b: "bi_ok ?b" "branch_ok bc k" using ok True by (auto simp: bytecode_ok_def)
    have off: "offs ! j = ?pos j" "jit_emit_instruction (bc ! j) offs j (length bc) version (offs ! j) = Some (segs ! j)"
      if "j < length bc" for j using lay that by (auto simp: body_layout_def)
    have at: "code_at code (?pos k) (segs ! k)" "?pos k + length (segs ! k) = ?pos (Suc k)"
      using layout_at(1) [OF lay True refl, of rest] layout_at(2) [OF lay True refl] off(1) [OF True] by (simp_all add: code)
    obtain pc' m1 where st: "exec_instr fpu version config ?b (int k, m) = Some (pc', m1)"
      "bytecode_fuel fpu version config bc n (pc', m1) = Some m'"
      using Suc.prems(1) bytecode_fuel_step [OF True, of fpu version config n m] by (auto split: Option.bind_splits)
    have one: "\<exists>k' s1. pc' = int k' \<and> k' \<le> length bc \<and>
        a64_reaches fpu code (At (int (?pos k)), s) (At (int (?pos k')), s1) \<and> simulates config base m1 s s1"
    proof (cases "bi_itype ?b = Cbranch")
      case False
      have ex: "exec_plain fpu version config ?b m = Some m1" "pc' = int (Suc k)"
        using st(1) False by (auto simp: exec_instr_def)
      have seg: "segs ! k = emit_plain ?b version" using off(2) [OF True] False by (simp add: jit_emit_instruction_def)
      from plain_reaches [OF Suc.prems(3) b(1) ex(1) False at(1) [unfolded seg], folded seg] at(2) ex(2) True
      show ?thesis by (intro exI [where x = "Suc k"]) auto
    next
      case br: True
      have t: "-1 \<le> bi_target ?b" "bi_target ?b < int k"
        using b(2) br by (auto simp: branch_ok_def quiet_def is_branch_def)
      define l where "l = nat (bi_target ?b + 1)"
      have l: "int l = bi_target ?b + 1" "l \<le> k" using t by (auto simp: l_def)
      have pc: "pc' = int k + 1 \<or> pc' = int l"
        using st(1) br l by (auto simp: exec_instr_def Let_def split: Option.bind_splits if_splits)
      have "?pos l \<le> length code" using code by (simp add: trans_le_add1) (metis append_take_drop_id concat_append le_add1 length_append trans_le_add1)
      then have sz: "offs ! nat (bi_target ?b + 1) < 0x40000"
        using off(1) [of l] l(2) True size by (simp add: l_def [symmetric])
      have ws: "emit_cbranch ?b offs k (length bc) (?pos k) = Some (segs ! k)"
        using off [OF True] br by (simp add: jit_emit_instruction_def)
      obtain s1 where s1: "a64_reaches fpu code (At (int (?pos k)), s)
          (At (if pc' = int k + 1 \<and> bi_target ?b \<noteq> int k then int (?pos k + length (segs ! k)) else int (offs ! nat pc')), s1)"
        "simulates config base m1 s s1"
        using cbranch_reaches [OF Suc.prems(3) b(1) br ws at(1) _ True size sz st(1)] t by auto
      show ?thesis
      proof (cases "pc' = int k + 1")
        case True
        then show ?thesis using s1 t at(2) \<open>k < length bc\<close> by (intro exI [where x = "Suc k"] exI [where x = s1]) auto
      next
        case False
        then have "pc' = int l" using pc by simp
        moreover have "l < length bc" using l(2) True by simp
        ultimately show ?thesis using s1 False off(1) [of l]
          by (intro exI [where x = l] exI [where x = s1]) auto
      qed
    qed
    then obtain k' s1 where k': "pc' = int k'" "k' \<le> length bc"
      "a64_reaches fpu code (At (int (?pos k)), s) (At (int (?pos k')), s1)" "simulates config base m1 s s1" by blast
    have rel1: "jit_rel config base m1 s1" using k'(4) by (simp add: simulates_def)
    obtain s2 where s2: "a64_reaches fpu code (At (int (?pos k')), s1) (At (int (length pre + length (concat segs))), s2)"
      "simulates config base m' s1 s2"
      using Suc.IH [OF st(2) [unfolded k'(1)] k'(2) rel1] by blast
    have "simulates config base m' s s2"
      by (rule simulates_trans [OF _ s2(2)]) (use k'(4) in \<open>simp add: simulates_def\<close>)
    then show ?thesis using a64_reaches_trans [OF k'(3) s2(1)] by blast
  qed
qed

end
