(* ===== verification/Jit_Mem.thy ===== *)
theory Jit_Mem
  imports Jit_Body
begin

text \<open>
  Regions of memory around a call of compiled code: the register file (\<open>repr(C)\<close>), the stack,
  the configuration. A region is a list of 64-bit words; a store changes one word of it and
  nothing outside. The loops of the compiler that emit one load or store per register run as
  loops over words.
\<close>

section \<open>Regions\<close>

definition words_bytes :: "u64 list \<Rightarrow> bytes" where
  "words_bytes ws = concat (map (le_bytes 8) ws)"

lemma length_words_bytes [simp]: "length (words_bytes ws) = 8 * length ws"
  by (induction ws) (simp_all add: words_bytes_def)

lemma words_bytes_append: "words_bytes (as @ bs) = words_bytes as @ words_bytes bs"
  by (simp add: words_bytes_def)

lemma words_bytes_split:
  assumes "i < length ws"
  shows "words_bytes ws = words_bytes (take i ws) @ le_bytes 8 (ws ! i) @ words_bytes (drop (Suc i) ws)"
proof -
  have "ws = take i ws @ [ws ! i] @ drop (Suc i) ws" using assms by (simp add: id_take_nth_drop)
  then have "words_bytes ws = words_bytes (take i ws @ [ws ! i] @ drop (Suc i) ws)" by simp
  then show ?thesis by (simp add: words_bytes_def)
qed

lemma slice_words:
  assumes "i < length ws"
  shows "slice (8 * i) 8 (words_bytes ws) = le_bytes 8 (ws ! i)"
proof -
  have "slice (8 * i) 8 (as @ xs @ bs) = xs" if "length as = 8 * i" "length xs = 8" for as xs bs :: bytes
    using that by (simp add: slice_def)
  from this [of "words_bytes (take i ws)" "le_bytes 8 (ws ! i)" "words_bytes (drop (Suc i) ws)"] show ?thesis
    using assms words_bytes_split [OF assms] by simp
qed

lemma splice_words:
  assumes "i < length ws"
  shows "splice (8 * i) (le_bytes 8 v) (words_bytes ws) = words_bytes (ws[i := v])"
proof -
  have "words_bytes (ws[i := v]) = words_bytes (take i ws) @ le_bytes 8 v @ words_bytes (drop (Suc i) ws)"
    using words_bytes_split [of i "ws[i := v]"] assms by simp
  then show ?thesis
    by (subst words_bytes_split [OF assms]) (use assms in \<open>simp add: splice_def\<close>)
qed

definition region :: "(u64 \<Rightarrow> u8 option) \<Rightarrow> u64 \<Rightarrow> u64 list \<Rightarrow> bool" where
  "region mem a ws \<longleftrightarrow> mem_holds mem a (words_bytes ws)"

lemma region_load:
  assumes "region (memory s) a ws" "i < length ws"
  shows "load_word s (a + of_nat (8 * i)) = Some (ws ! i)"
  using load_mem_holds [of "memory s" a "words_bytes ws" "8 * i" 8] assms
  by (simp add: region_def load_word_def slice_words)

lemma region_store:
  assumes "region (memory s) a ws" "i < length ws" "8 * length ws < 2 ^ 64"
  shows "\<exists>mem. store_word (a + of_nat (8 * i)) v s = Some (set_mem mem s) \<and> region mem a (ws[i := v]) \<and>
     (\<forall>x. outside a (8 * length ws) x \<longrightarrow> mem x = memory s x)"
proof -
  have h: "mem_holds (memory s) a (words_bytes ws)" using assms(1) by (simp add: region_def)
  obtain mem' where "store_mem (memory s) (a + of_nat (8 * i)) (le_bytes 8 v) = Some mem'"
    "mem_holds mem' a (splice (8 * i) (le_bytes 8 v) (words_bytes ws))"
    "\<forall>x. outside a (length (words_bytes ws)) x \<longrightarrow> mem' x = memory s x"
    using store_mem_holds [OF h, of "8 * i" "le_bytes 8 v"] assms(2, 3) by auto
  then show ?thesis
    using splice_words [OF assms(2), of v] by (intro exI [where x = mem']) (simp add: region_def store_word_def)
qed

text \<open>Two ranges of addresses without a common byte.\<close>

definition apart :: "u64 \<Rightarrow> nat \<Rightarrow> u64 \<Rightarrow> nat \<Rightarrow> bool" where
  "apart a n b k \<longleftrightarrow> (\<forall>i < k. outside a n (b + of_nat i))"

lemma holds_apart:
  "mem_holds mem b bs \<Longrightarrow> apart a n b (length bs) \<Longrightarrow> (\<And>x. outside a n x \<Longrightarrow> mem' x = mem x) \<Longrightarrow>
     mem_holds mem' b bs"
  by (simp add: mem_holds_def apart_def)

lemma region_apart:
  "region mem b ws \<Longrightarrow> apart a n b (8 * length ws) \<Longrightarrow> (\<And>x. outside a n x \<Longrightarrow> mem' x = mem x) \<Longrightarrow>
     region mem' b ws"
  unfolding region_def by (rule holds_apart [of mem b _ a n]) simp_all

section \<open>Loops over registers\<close>

lemma runs_map:
  assumes "\<And>i s. i < n \<Longrightarrow> I i s \<Longrightarrow> runs_to fpu (f i) s (I (Suc i))" "I 0 s"
  shows "runs_to fpu (concat (map f [0..<n])) s (I n)"
  using assms
proof (induction n)
  case 0
  then show ?case by (simp add: runs_to_def)
next
  case (Suc n)
  have "runs_to fpu (concat (map f [0..<n]) @ f n) s (I (Suc n))"
    by (rule runs_append [OF Suc.IH]) (use Suc.prems in auto)
  then show ?case by simp
qed

lemma runs_map1:
  assumes "\<And>i s. i < n \<Longrightarrow> I i s \<Longrightarrow> runs_to fpu [f i] s (I (Suc i))" "I 0 s"
  shows "runs_to fpu (map f [0..<n]) s (I n)"
  using runs_map [of n I fpu "\<lambda>i. [f i]" s] assms by (simp add: map_concat concat_map_singleton)

lemma reg_index:
  assumes "i < 8"
  shows "(of_nat i * 8) div 8 = (of_nat i :: u32)" "(of_nat i :: u32) < 4096"
    and "unat (8 + of_nat i :: u32) = i + 8" "(8 + of_nat i :: u32) < 32"
    and "unat (of_nat i :: u32) = i" "(of_nat i :: u32) < 32"
    and "unat (16 + of_nat i :: u32) = i + 16" "(16 + of_nat i :: u32) < 32"
proof -
  have "i = 0 \<or> i = 1 \<or> i = 2 \<or> i = 3 \<or> i = 4 \<or> i = 5 \<or> i = 6 \<or> i = 7" using assms by arith
  then show "(of_nat i * 8) div 8 = (of_nat i :: u32)" "(of_nat i :: u32) < 4096"
    and "unat (8 + of_nat i :: u32) = i + 8" "(8 + of_nat i :: u32) < 32"
    and "unat (of_nat i :: u32) = i" "(of_nat i :: u32) < 32"
    and "unat (16 + of_nat i :: u32) = i + 16" "(16 + of_nat i :: u32) < 32"
    by (elim disjE; simp)+
qed

text \<open>The byte offset \<open>8 * (k + i)\<close> of the \<open>i\<close>-th word of the \<open>k\<close>-th group, as the code
  computes it.\<close>

lemma scaled_index:
  assumes "i < 8" "k = 0 \<or> k = 8 \<or> k = 16 \<or> k = 24"
  shows "(of_nat (8 * k) + of_nat i * 8) div 8 < (4096 :: u32)"
    and "scaled8 ((of_nat (8 * k) + of_nat i * 8) div 8) = of_nat (8 * (k + i))"
proof -
  have "i = 0 \<or> i = 1 \<or> i = 2 \<or> i = 3 \<or> i = 4 \<or> i = 5 \<or> i = 6 \<or> i = 7" using assms by arith
  then show "(of_nat (8 * k) + of_nat i * 8) div 8 < (4096 :: u32)"
    and "scaled8 ((of_nat (8 * k) + of_nat i * 8) div 8) = of_nat (8 * (k + i))"
    using assms(2) by (elim disjE; simp add: scaled8_def)+
qed

lemma runs_one: "exec_words fpu [w] s = Some s' \<Longrightarrow> Q s' \<Longrightarrow> runs_to fpu [w] s Q"
  by (rule runs_words)

text \<open>Loading a group of eight words into \<open>x8 .. x15\<close>, or into eight \<open>d\<close> registers.\<close>

lemma runs_load_x:
  assumes reg: "region (memory s) a ws" "length ws = 32" and base: "xr s (unat rn) = a" "rn < 31" "unat rn < 8 \<or> 16 \<le> unat rn"
    and Q: "\<And>s'. (\<forall>j < 8. xr s' (j + 8) = ws ! j) \<Longrightarrow> (\<forall>r. r < 8 \<or> 16 \<le> r \<longrightarrow> xr s' r = xr s r) \<Longrightarrow>
      dr s' = dr s \<Longrightarrow> fpcr s' = fpcr s \<Longrightarrow> memory s' = memory s \<Longrightarrow> Q s'"
  shows "runs_to fpu (map (\<lambda>i. ldr_imm (8 + of_nat i) rn (of_nat i * 8)) [0..<8]) s Q"
proof (rule runs_mono [OF runs_map1 [where I = "\<lambda>k (s' :: a64_state). (\<forall>j < k. xr s' (j + 8) = ws ! j) \<and> (\<forall>r. r < 8 \<or> 16 \<le> r \<longrightarrow> xr s' r = xr s r) \<and>
    dr s' = dr s \<and> fpcr s' = fpcr s \<and> memory s' = memory s"]])
  let ?I = "\<lambda>k (s' :: a64_state). (\<forall>j < k. xr s' (j + 8) = ws ! j) \<and> (\<forall>r. r < 8 \<or> 16 \<le> r \<longrightarrow> xr s' r = xr s r) \<and>
    dr s' = dr s \<and> fpcr s' = fpcr s \<and> memory s' = memory s"
  show "?I 0 s" by simp
  fix i and x :: a64_state assume i: "i < 8" and x: "?I i x"
  have rn: "rn < 32" "unat rn \<noteq> 31" using base(2) by (auto simp: word_less_nat_alt)
  have "xr x (unat rn) = a" using x base by auto
  moreover have "load_word x (a + of_nat (8 * i)) = Some (ws ! i)"
    by (rule region_load) (use x reg i in simp_all)
  ultimately have e: "exec_words fpu [ldr_imm (8 + of_nat i) rn (of_nat i * 8)] x = Some (set_x (i + 8) (ws ! i) x)"
    using scaled_index [OF i, of 0] reg_index [OF i] rn i by (simp add: jit_decode put_x_reg)
  show "runs_to fpu [ldr_imm (8 + of_nat i) rn (of_nat i * 8)] x (?I (Suc i))"
    by (rule runs_words [OF e]) (use x i in \<open>auto simp: less_Suc_eq\<close>)
qed (use Q in auto)

lemma runs_load_d:
  assumes reg: "region (memory s) a ws" "length ws = 32" and base: "xr s (unat rn) = a" "rn < 31"
    and k: "k = 8 \<or> k = 16 \<or> k = 24" and d: "\<And>i. i < 8 \<Longrightarrow> d i < 32" "\<And>i. i < 8 \<Longrightarrow> unat (d i) = q + i"
    and Q: "\<And>s'. (\<forall>j < 8. dr s' (q + j) = ws ! (k + j)) \<Longrightarrow> (\<forall>r. r < q \<or> q + 8 \<le> r \<longrightarrow> dr s' r = dr s r) \<Longrightarrow>
      xr s' = xr s \<Longrightarrow> fpcr s' = fpcr s \<Longrightarrow> memory s' = memory s \<Longrightarrow> Q s'"
  shows "runs_to fpu (map (\<lambda>i. ldr_fp_imm (d i) rn (of_nat (8 * k) + of_nat i * 8)) [0..<8]) s Q"
proof (rule runs_mono [OF runs_map1 [where I = "\<lambda>n (s' :: a64_state). (\<forall>j < n. dr s' (q + j) = ws ! (k + j)) \<and> (\<forall>r. r < q \<or> q + 8 \<le> r \<longrightarrow> dr s' r = dr s r) \<and>
    xr s' = xr s \<and> fpcr s' = fpcr s \<and> memory s' = memory s"]])
  let ?I = "\<lambda>n (s' :: a64_state). (\<forall>j < n. dr s' (q + j) = ws ! (k + j)) \<and> (\<forall>r. r < q \<or> q + 8 \<le> r \<longrightarrow> dr s' r = dr s r) \<and>
    xr s' = xr s \<and> fpcr s' = fpcr s \<and> memory s' = memory s"
  show "?I 0 s" by simp
  fix i and x :: a64_state assume i: "i < 8" and x: "?I i x"
  have rn: "rn < 32" "unat rn \<noteq> 31" using base(2) by (auto simp: word_less_nat_alt)
  have "xr x (unat rn) = a" using x base by auto
  moreover have "load_word x (a + of_nat (8 * (k + i))) = Some (ws ! (k + i))"
    by (rule region_load) (use x reg i k in auto)
  ultimately have e: "exec_words fpu [ldr_fp_imm (d i) rn (of_nat (8 * k) + of_nat i * 8)] x = Some (set_d (q + i) (ws ! (k + i)) x)"
    using scaled_index [OF i, of k] d [OF i] k rn by (simp add: jit_decode del: of_nat_mult of_nat_add)
  show "runs_to fpu [ldr_fp_imm (d i) rn (of_nat (8 * k) + of_nat i * 8)] x (?I (Suc i))"
    by (rule runs_words [OF e]) (use x i in \<open>auto simp: less_Suc_eq\<close>)
qed (use Q in auto)

text \<open>Storing a group: the words \<open>k .. k + 7\<close> of the region become the registers.\<close>

definition put_group :: "nat \<Rightarrow> nat \<Rightarrow> (nat \<Rightarrow> u64) \<Rightarrow> u64 list \<Rightarrow> u64 list" where
  "put_group k n g ws = map (\<lambda>j. if k \<le> j \<and> j < k + n then g (j - k) else ws ! j) [0..<length ws]"

lemma put_group_Suc:
  assumes "k + n < length ws"
  shows "(put_group k n g ws)[k + n := g n] = put_group k (Suc n) g ws"
  by (rule nth_equalityI) (use assms in \<open>auto simp: put_group_def nth_list_update\<close>)

lemma length_put_group [simp]: "length (put_group k n g ws) = length ws"
  by (simp add: put_group_def)

lemma put_group_0 [simp]: "put_group k 0 g ws = ws"
  by (rule nth_equalityI) (auto simp: put_group_def)

lemma runs_store_group:
  assumes reg: "region (memory s) a ws" "length ws = 32" and base: "xr s 21 = a"
    and k: "k = 0 \<or> k = 8 \<or> k = 16 \<or> k = 24"
    and w: "\<And>i x. i < 8 \<Longrightarrow> xr x = xr s \<Longrightarrow> dr x = dr s \<Longrightarrow>
      exec_words fpu [w i] x = store_word (a + of_nat (8 * (k + i))) (g i) x"
    and Q: "\<And>mem. region mem a (put_group k 8 g ws) \<Longrightarrow>
      (\<forall>x. outside a 256 x \<longrightarrow> mem x = memory s x) \<Longrightarrow> Q (set_mem mem s)"
  shows "runs_to fpu (map w [0..<8]) s Q"
proof (rule runs_mono [OF runs_map1 [where I = "\<lambda>n (s' :: a64_state). \<exists>mem. s' = set_mem mem s \<and> region mem a (put_group k n g ws) \<and>
    (\<forall>x. outside a 256 x \<longrightarrow> mem x = memory s x)"]])
  let ?I = "\<lambda>n (s' :: a64_state). \<exists>mem. s' = set_mem mem s \<and> region mem a (put_group k n g ws) \<and>
    (\<forall>x. outside a 256 x \<longrightarrow> mem x = memory s x)"
  have "set_mem (memory s) s = s" by (simp add: set_mem_def)
  then show "?I 0 s" using reg by (intro exI [where x = "memory s"]) simp
  fix i and x :: a64_state assume i: "i < 8" and "?I i x"
  then obtain mem where x: "x = set_mem mem s" "region mem a (put_group k i g ws)"
    "\<forall>y. outside a 256 y \<longrightarrow> mem y = memory s y" by blast
  have ki: "k + i < length (put_group k i g ws)" using k i reg(2) by auto
  obtain mem' where m: "store_word (a + of_nat (8 * (k + i))) (g i) x = Some (set_mem mem' x)"
    "region mem' a ((put_group k i g ws)[k + i := g i])" "\<forall>y. outside a 256 y \<longrightarrow> mem' y = memory x y"
    using region_store [of x a "put_group k i g ws" "k + i" "g i"] x(1, 2) ki reg(2) by auto
  have "exec_words fpu [w i] x = Some (set_mem mem' s)"
    using w [OF i, of x] m(1) x(1) by (simp add: set_mem_def)
  moreover have "region mem' a (put_group k (Suc i) g ws)"
    using m(2) put_group_Suc [of k i ws g] ki by simp
  ultimately show "runs_to fpu [w i] x (?I (Suc i))"
    using m(3) x by (intro runs_words) auto
qed (use Q in auto)

end
