(* ===== verification/Jit_Call.thy ===== *)
theory Jit_Call
  imports Jit_Mem
begin

text \<open>
  Calling compiled code (\<open>src/randomx/jit/compiler.rs\<close>): the prologue saves the callee-saved
  registers on the stack and loads the register file, the epilogue stores it back, restores and
  returns. A call of the body function has on the caller's \<open>NativeRegisterFile\<close> and scratchpad
  the effect of \<open>execute_bytecode\<close>, and keeps to the procedure call standard.
\<close>

section \<open>The stack\<close>

definition stack_at :: "a64_state \<Rightarrow> u64 \<Rightarrow> nat \<Rightarrow> u64 list \<Rightarrow> bool" where
  "stack_at s stk j vs \<longleftrightarrow> xr s 31 = stk + of_nat (8 * j) \<and> j \<le> 20 \<and>
     (\<exists>ws. length ws = 20 \<and> drop j ws = vs \<and> region (memory s) stk ws)"

lemma pair_offsets:
  "imm7 (-16) < 128" "offset7 (imm7 (-16)) = -16" "imm7 16 < 128" "offset7 (imm7 16) = 16"
  by code_simp+

lemma drop_two: "i + 1 < length ws \<Longrightarrow> drop i ws = ws ! i # ws ! (i + 1) # drop (i + 2) ws"
  by (simp add: Cons_nth_drop_Suc)

text \<open>After some pushes: only the stack and its pointer differ from the state at entry.\<close>

definition pushed :: "a64_state \<Rightarrow> u64 \<Rightarrow> nat \<Rightarrow> u64 list \<Rightarrow> a64_state \<Rightarrow> bool" where
  "pushed s stk j vs s' \<longleftrightarrow> (\<forall>r. r \<noteq> 31 \<longrightarrow> xr s' r = xr s r) \<and> dr s' = dr s \<and> fpcr s' = fpcr s \<and>
     (\<forall>x. outside stk 160 x \<longrightarrow> memory s' x = memory s x) \<and> stack_at s' stk j vs"

lemma push_two:
  assumes "pushed s stk (j + 2) vs x"
    and e: "exec_words fpu [w] x = Option.bind (store_word (xr x 31 - 16) a x)
      (\<lambda>y. Option.bind (store_word (xr x 31 - 16 + 8) b y) (\<lambda>z. Some (set_x 31 (xr x 31 - 16) z)))"
  shows "runs_to fpu [w] x (pushed s stk j (a # b # vs))"
proof -
  obtain ws where ws: "length ws = 20" "drop (j + 2) ws = vs" "region (memory x) stk ws"
    and sp: "xr x 31 = stk + of_nat (8 * (j + 2))" "j + 2 \<le> 20"
    using assms(1) by (auto simp: pushed_def stack_at_def)
  have a: "xr x 31 - 16 = stk + of_nat (8 * j)" "stk + of_nat (8 * j) + 8 = stk + of_nat (8 * (j + 1))"
    by (simp_all add: sp(1) algebra_simps)
  obtain m1 where m1: "store_word (stk + of_nat (8 * j)) a x = Some (set_mem m1 x)" "region m1 stk (ws[j := a])"
    "\<forall>y. outside stk 160 y \<longrightarrow> m1 y = memory x y"
    using region_store [OF ws(3), of j a] ws(1) sp(2) by auto
  have "region (memory (set_mem m1 x)) stk (ws[j := a])" using m1(2) by simp
  then obtain m2 where m2: "store_word (stk + of_nat (8 * (j + 1))) b (set_mem m1 x) = Some (set_mem m2 (set_mem m1 x))"
    "region m2 stk (ws[j := a, j + 1 := b])" "\<forall>y. outside stk 160 y \<longrightarrow> m2 y = m1 y"
    using region_store [of "set_mem m1 x" stk "ws[j := a]" "j + 1" b] ws(1) sp(2) by auto
  have ex: "exec_words fpu [w] x = Some (set_x 31 (stk + of_nat (8 * j)) (set_mem m2 (set_mem m1 x)))"
    unfolding e a by (simp only: m1(1) m2(1) bind.bind_lunit)
  have "drop j (ws[j := a, j + 1 := b]) = a # b # vs"
    using ws(1, 2) sp(2) by (subst drop_two) (simp_all add: nth_list_update)
  then have "stack_at (set_x 31 (stk + of_nat (8 * j)) (set_mem m2 (set_mem m1 x))) stk j (a # b # vs)"
    using m2(2) ws(1) sp(2) unfolding stack_at_def
    by (intro conjI exI [where x = "ws[j := a, j + 1 := b]"]) simp_all
  then show ?thesis
    by (intro runs_words [OF ex]) (use assms(1) m1(3) m2(3) in \<open>simp add: pushed_def\<close>)
qed

lemma push_x:
  assumes "rt1 < 31" "rt2 < 31" "pushed s stk (j + 2) vs x"
  shows "runs_to fpu [stp_pre rt1 rt2 SP (-16)] x (pushed s stk j (xr s (unat rt1) # xr s (unat rt2) # vs))"
proof -
  have r: "rt1 < 32" "rt2 < 32" "unat rt1 \<noteq> 31" "unat rt2 \<noteq> 31" using assms by (auto dest!: reg_less)
  have "xr x (unat rt1) = xr s (unat rt1)" "xr x (unat rt2) = xr s (unat rt2)"
    using assms(3) r by (simp_all add: pushed_def)
  then show ?thesis
    by (intro push_two [OF assms(3)]) (use r pair_offsets in \<open>simp add: jit_decode get_x_reg Let_def\<close>)
qed

lemma push_d:
  assumes "dt1 < 32" "dt2 < 32" "pushed s stk (j + 2) vs x"
  shows "runs_to fpu [stp_fp_pre dt1 dt2 SP (-16)] x (pushed s stk j (dr s (unat dt1) # dr s (unat dt2) # vs))"
proof -
  have "dr x = dr s" using assms(3) by (simp add: pushed_def)
  then show ?thesis
    by (intro push_two [OF assms(3)]) (use assms(1, 2) pair_offsets in \<open>simp add: jit_decode Let_def\<close>)
qed

definition saved :: "a64_state \<Rightarrow> u64 list" where
  "saved s = [dr s 14, dr s 15, dr s 12, dr s 13, dr s 10, dr s 11, dr s 8, dr s 9,
     xr s 27, xr s 28, xr s 25, xr s 26, xr s 23, xr s 24, xr s 21, xr s 22, xr s 19, xr s 20, xr s 29, xr s 30]"

lemma runs_Cons': "runs_to fpu [w] s R \<Longrightarrow> (\<And>x. R x \<Longrightarrow> runs_to fpu ws x Q) \<Longrightarrow> runs_to fpu (w # ws) s Q"
  using runs_append [of fpu "[w]" s R ws Q] by simp

lemma runs_save:
  assumes "stack_at s stk 20 []"
  shows "runs_to fpu save_registers s (pushed s stk 0 (saved s))"
proof -
  have s: "pushed s stk 20 [] s" using assms by (simp add: pushed_def)
  have x: "\<lbrakk>rt1 < 31; rt2 < 31; k = j + 2; pushed s stk k vs y;
      \<And>z. pushed s stk j (xr s (unat rt1) # xr s (unat rt2) # vs) z \<Longrightarrow> runs_to fpu ws z Q\<rbrakk> \<Longrightarrow>
      runs_to fpu (stp_pre rt1 rt2 SP (-16) # ws) y Q" for rt1 rt2 j k vs y ws Q
    by (rule runs_Cons' [OF push_x]) simp_all
  have d: "\<lbrakk>dt1 < 32; dt2 < 32; k = j + 2; pushed s stk k vs y;
      \<And>z. pushed s stk j (dr s (unat dt1) # dr s (unat dt2) # vs) z \<Longrightarrow> runs_to fpu ws z Q\<rbrakk> \<Longrightarrow>
      runs_to fpu (stp_fp_pre dt1 dt2 SP (-16) # ws) y Q" for dt1 dt2 j k vs y ws Q
    by (rule runs_Cons' [OF push_d]) simp_all
  have nil: "pushed s stk j vs y \<Longrightarrow> runs_to fpu [] y (pushed s stk j vs)" for j vs y
    by (simp add: runs_to_def)
  show ?thesis
    unfolding save_registers_def saved_def
    apply (rule x [where j = 18], simp, simp, simp, rule s)
    apply (rule x [where j = 16], simp, simp, simp, simp)
    apply (rule x [where j = 14], simp, simp, simp, simp)
    apply (rule x [where j = 12], simp, simp, simp, simp)
    apply (rule x [where j = 10], simp, simp, simp, simp)
    apply (rule x [where j = 8], simp, simp, simp, simp)
    apply (rule d [where j = 6], simp, simp, simp, simp)
    apply (rule d [where j = 4], simp, simp, simp, simp)
    apply (rule d [where j = 2], simp, simp, simp, simp)
    apply (rule d [where j = 0 and k = 2], simp, simp, simp, simp)
    apply (rule nil, simp)
    done
qed

section \<open>Taking them back\<close>

lemma pop_two:
  assumes "stack_at x stk j (a # b # vs)" and j: "j + 2 \<le> 20"
  shows "load_word x (xr x 31) = Some a" "load_word x (xr x 31 + 8) = Some b"
    and "xr x 31 + 16 = stk + of_nat (8 * (j + 2))"
    and "xr y 31 = stk + of_nat (8 * (j + 2)) \<Longrightarrow> memory y = memory x \<Longrightarrow> stack_at y stk (j + 2) vs"
proof -
  obtain ws where ws: "length ws = 20" "drop j ws = a # b # vs" "region (memory x) stk ws"
    and sp: "xr x 31 = stk + of_nat (8 * j)"
    using assms(1) by (auto simp: stack_at_def)
  have d: "drop j ws = ws ! j # ws ! (j + 1) # drop (j + 2) ws" by (rule drop_two) (use ws(1) j in simp)
  have v: "ws ! j = a" "ws ! (j + 1) = b" "drop (j + 2) ws = vs" using d ws(2) by simp_all
  have a: "xr x 31 + 8 = stk + of_nat (8 * (j + 1))" by (simp add: sp algebra_simps)
  show "load_word x (xr x 31) = Some a" unfolding sp by (subst region_load [OF ws(3)]) (use ws(1) j v in simp_all)
  show "load_word x (xr x 31 + 8) = Some b" unfolding a by (subst region_load [OF ws(3)]) (use ws(1) j v in simp_all)
  show "xr x 31 + 16 = stk + of_nat (8 * (j + 2))" by (simp add: sp algebra_simps)
  show "stack_at y stk (j + 2) vs" if "xr y 31 = stk + of_nat (8 * (j + 2))" "memory y = memory x"
    using that ws(1, 3) v(3) j by (auto simp: stack_at_def)
qed

lemma pop_x:
  assumes "rt1 < 31" "rt2 < 31" "k = j + 2" "k \<le> 20" "stack_at x stk j (a # b # vs)"
    and "stack_at (set_x 31 (stk + of_nat (8 * k)) (set_x (unat rt2) b (set_x (unat rt1) a x))) stk k vs \<Longrightarrow>
      runs_to fpu ws (set_x 31 (stk + of_nat (8 * k)) (set_x (unat rt2) b (set_x (unat rt1) a x))) Q"
  shows "runs_to fpu (ldp_post rt1 rt2 SP 16 # ws) x Q"
proof -
  have r: "rt1 < 32" "rt2 < 32" "unat rt1 \<noteq> 31" "unat rt2 \<noteq> 31" using assms by (auto dest!: reg_less)
  note p = pop_two [OF assms(5) assms(4) [unfolded assms(3)]]
  have "exec_words fpu [ldp_post rt1 rt2 SP 16] x =
      Some (set_x 31 (stk + of_nat (8 * k)) (set_x (unat rt2) b (set_x (unat rt1) a x)))"
    unfolding assms(3) p(3) [symmetric]
    using r pair_offsets p(1, 2) by (simp add: jit_decode Let_def put_x_reg)
  then show ?thesis
    by (rule runs_Cons, intro assms(6), unfold assms(3), intro p(4)) (simp_all add: assms(3))
qed

lemma pop_d:
  assumes "dt1 < 32" "dt2 < 32" "k = j + 2" "k \<le> 20" "stack_at x stk j (a # b # vs)"
    and "stack_at (set_x 31 (stk + of_nat (8 * k)) (set_d (unat dt2) b (set_d (unat dt1) a x))) stk k vs \<Longrightarrow>
      runs_to fpu ws (set_x 31 (stk + of_nat (8 * k)) (set_d (unat dt2) b (set_d (unat dt1) a x))) Q"
  shows "runs_to fpu (ldp_fp_post dt1 dt2 SP 16 # ws) x Q"
proof -
  note p = pop_two [OF assms(5) assms(4) [unfolded assms(3)]]
  have "exec_words fpu [ldp_fp_post dt1 dt2 SP 16] x =
      Some (set_x 31 (stk + of_nat (8 * k)) (set_d (unat dt2) b (set_d (unat dt1) a x)))"
    unfolding assms(3) p(3) [symmetric]
    using assms(1, 2) pair_offsets p(1, 2) by (simp add: jit_decode Let_def)
  then show ?thesis
    by (rule runs_Cons, intro assms(6), unfold assms(3), intro p(4)) (simp_all add: assms(3))
qed

text \<open>What a callee must leave as it found it: \<open>x19 .. x30\<close>, the stack pointer, \<open>d8 .. d15\<close>.\<close>

definition restored :: "a64_state \<Rightarrow> u64 \<Rightarrow> a64_state \<Rightarrow> bool" where
  "restored s sp s' \<longleftrightarrow> (\<forall>r. 19 \<le> r \<and> r \<le> 30 \<longrightarrow> xr s' r = xr s r) \<and> xr s' 31 = sp \<and>
     (\<forall>q. 8 \<le> q \<and> q < 16 \<longrightarrow> dr s' q = dr s q)"

lemma restored_all:
  assumes "\<And>r. r \<in> {19, 20, 21, 22, 23, 24, 25, 26, 27, 28, 29, 30} \<Longrightarrow> xr s' r = xr s r"
    "\<And>q. q \<in> {8, 9, 10, 11, 12, 13, 14, 15} \<Longrightarrow> dr s' q = dr s q" "xr s' 31 = sp"
  shows "restored s sp s'"
proof -
  have "{19 .. 30} = {19, 20, 21, 22, 23, 24, 25, 26, 27, 28, 29, 30 :: nat}"
    "{8 ..< 16} = {8, 9, 10, 11, 12, 13, 14, 15 :: nat}" by (auto; presburger)+
  then show ?thesis using assms unfolding restored_def by (metis atLeastAtMost_iff atLeastLessThan_iff)
qed

lemma runs_restore:
  assumes "stack_at x stk 0 (saved s)"
    and Q: "\<And>s'. restored s (stk + 160) s' \<Longrightarrow> (\<forall>r. r < 19 \<longrightarrow> xr s' r = xr x r) \<Longrightarrow>
      memory s' = memory x \<Longrightarrow> fpcr s' = fpcr x \<Longrightarrow> Q s'"
  shows "runs_to fpu (butlast restore_registers) x Q"
proof -
  have r: "butlast restore_registers = 
     [ldp_fp_post D14 D15 SP 16, ldp_fp_post D12 D13 SP 16,
      ldp_fp_post D10 D11 SP 16, ldp_fp_post D8 D9 SP 16,
      ldp_post X27 X28 SP 16, ldp_post X25 X26 SP 16, ldp_post X23 X24 SP 16,
      ldp_post X21 X22 SP 16, ldp_post X19 X20 SP 16, ldp_post FP LR SP 16]"
    by (simp add: restore_registers_def)
  show ?thesis
    unfolding r
    apply (rule pop_d [where j = 0 and k = 2, OF _ _ _ _ assms(1) [unfolded saved_def]], simp, simp, simp, simp)
    apply (rule pop_d [where j = 2 and k = 4], simp, simp, simp, simp, assumption)
    apply (rule pop_d [where j = 4 and k = 6], simp, simp, simp, simp, assumption)
    apply (rule pop_d [where j = 6 and k = 8], simp, simp, simp, simp, assumption)
    apply (rule pop_x [where j = 8 and k = 10], simp, simp, simp, simp, assumption)
    apply (rule pop_x [where j = 10 and k = 12], simp, simp, simp, simp, assumption)
    apply (rule pop_x [where j = 12 and k = 14], simp, simp, simp, simp, assumption)
    apply (rule pop_x [where j = 14 and k = 16], simp, simp, simp, simp, assumption)
    apply (rule pop_x [where j = 16 and k = 18], simp, simp, simp, simp, assumption)
    apply (rule pop_x [where j = 18 and k = 20], simp, simp, simp, simp, assumption)
    apply (rule runs_words [OF exec_words.simps(1)], rule Q, rule restored_all)
    apply auto
    done
qed

end
