(* ===== verification/Jit_Fn.thy ===== *)
theory Jit_Fn
  imports Jit_Call
begin

text \<open>
  The compiled body function (\<open>JitCompiler::compile\<close> and \<open>JitFn\<close> in
  \<open>src/randomx/jit/compiler.rs\<close>): called with a register file, a scratchpad and a
  configuration in memory, it returns with the register file and scratchpad that
  \<open>execute_bytecode\<close> computes, the rounding mode set, the callee-saved registers and all other
  memory as they were.
\<close>

section \<open>The register file in memory\<close>

text \<open>\<open>NativeRegisterFile\<close> is \<open>repr(C)\<close>: the integer registers, then the \<open>f\<close>, \<open>e\<close> and \<open>a\<close>
  pairs, 32 words.\<close>

definition pair_words :: "f128 list \<Rightarrow> u64 list" where
  "pair_words ps = concat (map (\<lambda>p. [fst p, snd p]) ps)"

definition nreg_words :: "native_register_file \<Rightarrow> u64 list" where
  "nreg_words nr = rf_r nr @ pair_words (rf_f nr) @ pair_words (rf_e nr) @ pair_words (rf_a nr)"

lemma length_pair_words [simp]: "length (pair_words ps) = 2 * length ps"
  by (induction ps) (simp_all add: pair_words_def)

lemma pair_words_nth:
  "i < length ps \<Longrightarrow> pair_words ps ! (2 * i) = fst (ps ! i) \<and> pair_words ps ! (2 * i + 1) = snd (ps ! i)"
proof (induction ps arbitrary: i)
  case (Cons p ps)
  show ?case using Cons.IH [of "i - 1"] Cons.prems by (cases i) (auto simp: pair_words_def)
qed simp

lemma nreg_words_nth:
  assumes "machine_ok m"
  shows "length (nreg_words (m_nreg m)) = 32"
    and "i < 8 \<Longrightarrow> nreg_words (m_nreg m) ! i = rf_r (m_nreg m) ! i"
    and "i < 8 \<Longrightarrow> nreg_words (m_nreg m) ! (8 + i) = pair_words (rf_f (m_nreg m)) ! i"
    and "i < 8 \<Longrightarrow> nreg_words (m_nreg m) ! (16 + i) = pair_words (rf_e (m_nreg m)) ! i"
    and "i < 8 \<Longrightarrow> nreg_words (m_nreg m) ! (24 + i) = pair_words (rf_a (m_nreg m)) ! i"
  using assms by (simp_all add: nreg_words_def machine_ok_def nth_append)

text \<open>The three register groups, loaded.\<close>

lemma pairs_loaded:
  assumes "length ps = 4" "\<forall>j < 8. dr s (q + j) = pair_words ps ! j" "i < 4"
  shows "pair_at s (2 * i + q) = ps ! i"
proof -
  have "dr s (q + 2 * i) = fst (ps ! i)" using assms pair_words_nth [of i ps] by simp
  moreover have "dr s (q + (2 * i + 1)) = snd (ps ! i)"
    using assms(2) [rule_format, of "2 * i + 1"] assms(1, 3) pair_words_nth [of i ps] by simp
  ultimately show ?thesis by (simp add: pair_at_def ac_simps prod_eq_iff)
qed

lemma pairs_stored:
  assumes "\<And>i. i < 4 \<Longrightarrow> pair_at s (2 * i + q) = ps ! i" "length ps = 4" "j < 8"
  shows "pair_words ps ! j = dr s (q + j)"
proof -
  have p: "pair_at s (2 * (j div 2) + q) = ps ! (j div 2)" using assms(1, 3) by simp
  have w: "pair_words ps ! (2 * (j div 2)) = fst (ps ! (j div 2))"
    "pair_words ps ! (2 * (j div 2) + 1) = snd (ps ! (j div 2))"
    using pair_words_nth [of "j div 2" ps] assms(2, 3) by simp_all
  show ?thesis
  proof (cases "even j")
    case True
    then have "2 * (j div 2) = j" by simp
    then show ?thesis using w(1) p [symmetric] by (simp add: pair_at_def add.commute)
  next
    case False
    then have j: "2 * (j div 2) + 1 = j" by simp
    then have "dr s (2 * (j div 2) + q + 1) = pair_words ps ! j"
      using w(2) p by (metis pair_at_def snd_conv)
    moreover have "2 * (j div 2) + q + 1 = q + j" using j by linarith
    ultimately show ?thesis by metis
  qed
qed

lemma stored_words:
  assumes ok: "machine_ok m" "rf_a (m_nreg m0) = rf_a (m_nreg m)" "machine_ok m0"
    and rel: "jit_rel config base m s"
  shows "put_group 16 8 (\<lambda>j. dr s (8 + j)) (put_group 8 8 (dr s) (put_group 0 8 (\<lambda>j. xr s (j + 8)) (nreg_words (m_nreg m0)))) =
    nreg_words (m_nreg m)"
proof (rule nth_equalityI)
  note l = nreg_words_nth(1) [OF ok(1)] nreg_words_nth(1) [OF ok(3)]
  show "length (put_group 16 8 (\<lambda>j. dr s (8 + j)) (put_group 8 8 (dr s) (put_group 0 8 (\<lambda>j. xr s (j + 8)) (nreg_words (m_nreg m0))))) =
    length (nreg_words (m_nreg m))" using l by simp
  fix i assume "i < length (put_group 16 8 (\<lambda>j. dr s (8 + j)) (put_group 8 8 (dr s) (put_group 0 8 (\<lambda>j. xr s (j + 8)) (nreg_words (m_nreg m0)))))"
  then have i: "i < 32" using l by simp
  have len: "length (rf_f (m_nreg m)) = 4" "length (rf_e (m_nreg m)) = 4" using ok(1) by (simp_all add: machine_ok_def)
  have f: "pair_words (rf_f (m_nreg m)) ! j = dr s j" if "j < 8" for j
    using pairs_stored [of s 0 "rf_f (m_nreg m)" j] rel that len by (simp add: jit_rel_def)
  have e: "pair_words (rf_e (m_nreg m)) ! j = dr s (8 + j)" if "j < 8" for j
    using pairs_stored [of s 8 "rf_e (m_nreg m)" j] rel that len by (simp add: jit_rel_def)
  consider "i < 8" | j where "i = 8 + j" "j < 8" | j where "i = 16 + j" "j < 8" | j where "i = 24 + j" "j < 8"
  proof -
    have "i < 8 \<or> (8 \<le> i \<and> i - 8 < 8) \<or> (16 \<le> i \<and> i - 16 < 8) \<or> (24 \<le> i \<and> i - 24 < 8)" using i by linarith
    then show ?thesis using that by (metis le_add_diff_inverse)
  qed
  then show "put_group 16 8 (\<lambda>j. dr s (8 + j)) (put_group 8 8 (dr s) (put_group 0 8 (\<lambda>j. xr s (j + 8)) (nreg_words (m_nreg m0)))) ! i =
    nreg_words (m_nreg m) ! i"
  proof cases
    case 1
    then show ?thesis using rel i l nreg_words_nth(2) [OF ok(1) 1] by (simp add: put_group_def jit_rel_def)
  next
    case 2
    then show ?thesis using i l nreg_words_nth(3) [OF ok(1) 2(2)] f by (simp add: put_group_def)
  next
    case 3
    then show ?thesis using i l nreg_words_nth(4) [OF ok(1) 3(2)] e by (simp add: put_group_def)
  next
    case 4
    then show ?thesis using i l nreg_words_nth(5) [OF ok(1) 4(2)] nreg_words_nth(5) [OF ok(3) 4(2)] ok(2) by (simp add: put_group_def)
  qed
qed

section \<open>The call\<close>

text \<open>What holds when the function is called: the arguments in \<open>x0 .. x2\<close>, 160 bytes of stack
  below the stack pointer, and the blocks of memory disjoint.\<close>

definition body_call :: "program_configuration \<Rightarrow> u64 \<Rightarrow> u64 \<Rightarrow> u64 \<Rightarrow> u64 \<Rightarrow> machine \<Rightarrow> a64_state \<Rightarrow> bool" where
  "body_call config nb base cb stk m s \<longleftrightarrow>
     machine_ok m \<and> m_rm m < 4 \<and> xr s 0 = nb \<and> xr s 1 = base \<and> xr s 2 = cb \<and>
     fpcr s = rx_fpcr (m_rm m) \<and> region (memory s) nb (nreg_words (m_nreg m)) \<and>
     mem_holds (memory s) base (m_sp m) \<and>
     region (memory s) cb [fst (e_mask config), snd (e_mask config)] \<and> stack_at s stk 20 [] \<and>
     apart stk 160 nb 256 \<and> apart stk 160 base SCRATCHPAD_L3_SIZE \<and> apart stk 160 cb 16 \<and>
     apart nb 256 base SCRATCHPAD_L3_SIZE \<and> apart nb 256 stk 160 \<and>
     apart base SCRATCHPAD_L3_SIZE nb 256 \<and> apart base SCRATCHPAD_L3_SIZE stk 160"

text \<open>After the prologue: related to the machine, with the caller's registers on the stack.\<close>

definition body_entered :: "program_configuration \<Rightarrow> u64 \<Rightarrow> u64 \<Rightarrow> u64 \<Rightarrow> machine \<Rightarrow> a64_state \<Rightarrow> a64_state \<Rightarrow> bool" where
  "body_entered config nb base stk m s s' \<longleftrightarrow>
     jit_rel config base m s' \<and> xr s' 21 = nb \<and> stack_at s' stk 0 (saved s) \<and>
     (\<forall>r. 17 \<le> r \<and> r < 19 \<longrightarrow> xr s' r = xr s r) \<and>
     (\<forall>x. outside stk 160 x \<longrightarrow> memory s' x = memory s x) \<and>
     region (memory s') nb (nreg_words (m_nreg m))"

lemma stack_at_cong:
  "stack_at s stk j vs \<Longrightarrow> xr s' 31 = xr s 31 \<Longrightarrow> memory s' = memory s \<Longrightarrow> stack_at s' stk j vs"
  by (simp add: stack_at_def)

lemma prologue_code:
  "emit_prologue = save_registers @ [mov_reg X21 X0, mov_reg X16 X1, ldr_imm X19 X2 0, ldr_imm X20 X2 8] @
     map (\<lambda>i. ldr_imm (8 + of_nat i) X0 (of_nat i * 8)) [0..<8] @
     map (\<lambda>i. ldr_fp_imm (of_nat i) X0 (of_nat (8 * 8) + of_nat i * 8)) [0..<8] @
     map (\<lambda>i. ldr_fp_imm (8 + of_nat i) X0 (of_nat (8 * 16) + of_nat i * 8)) [0..<8] @
     map (\<lambda>i. ldr_fp_imm (16 + of_nat i) X0 (of_nat (8 * 24) + of_nat i * 8)) [0..<8] @
     mov_imm64 X0 FSCAL_MASK @ [fmov_dx D24 X0]"
  by (simp add: emit_prologue_def)

lemma prologue_pointers:
  assumes p: "pushed s stk 0 (saved s) x" and call: "body_call config nb base cb stk m s"
  shows "exec_words fpu [mov_reg X21 X0, mov_reg X16 X1, ldr_imm X19 X2 0, ldr_imm X20 X2 8] x =
    Some (set_x 20 (snd (e_mask config)) (set_x 19 (fst (e_mask config)) (set_x 16 base (set_x 21 nb x))))"
proof -
  have r: "region (memory x) cb [fst (e_mask config), snd (e_mask config)]"
    by (rule region_apart [of "memory s" _ _ stk 160]) (use p call in \<open>simp_all add: body_call_def pushed_def\<close>)
  have "load_word x cb = Some (fst (e_mask config))" "load_word x (cb + 8) = Some (snd (e_mask config))"
    using region_load [OF r, of 0] region_load [OF r, of 1] by simp_all
  then have l: "load_word y cb = Some (fst (e_mask config))" "load_word y (cb + 8) = Some (snd (e_mask config))"
    if "memory y = memory x" for y using that by (simp_all add: load_word_def)
  have x: "xr x 0 = nb" "xr x 1 = base" "xr x 2 = cb" using p call by (simp_all add: pushed_def body_call_def)
  note x = x x(2) [unfolded One_nat_def]
  show ?thesis by (simp add: jit_decode put_x_reg get_x_reg x l scaled8_def)
qed

definition file_loaded :: "u64 list \<Rightarrow> a64_state \<Rightarrow> a64_state \<Rightarrow> bool" where
  "file_loaded ws s s' \<longleftrightarrow>
     (\<forall>j < 8. xr s' (j + 8) = ws ! j) \<and> (\<forall>j < 8. dr s' j = ws ! (8 + j)) \<and>
     (\<forall>j < 8. dr s' (8 + j) = ws ! (16 + j)) \<and> (\<forall>j < 8. dr s' (16 + j) = ws ! (24 + j)) \<and>
     (\<forall>r. r < 8 \<or> 16 \<le> r \<longrightarrow> xr s' r = xr s r) \<and> fpcr s' = fpcr s \<and> memory s' = memory s"

lemma runs_load_file:
  assumes reg: "region (memory s) a ws" "length ws = 32" and base: "xr s 0 = a"
    and Q: "\<And>s'. file_loaded ws s s' \<Longrightarrow> runs_to fpu rest s' Q"
  shows "runs_to fpu (map (\<lambda>i. ldr_imm (8 + of_nat i) X0 (of_nat i * 8)) [0..<8] @
     map (\<lambda>i. ldr_fp_imm (of_nat i) X0 (of_nat (8 * 8) + of_nat i * 8)) [0..<8] @
     map (\<lambda>i. ldr_fp_imm (8 + of_nat i) X0 (of_nat (8 * 16) + of_nat i * 8)) [0..<8] @
     map (\<lambda>i. ldr_fp_imm (16 + of_nat i) X0 (of_nat (8 * 24) + of_nat i * 8)) [0..<8] @ rest) s Q"
proof -
  have ok: "region (memory t) a ws \<and> xr t (unat (X0 :: u32)) = a" if "memory t = memory s" "\<forall>r. r < 8 \<or> 16 \<le> r \<longrightarrow> xr t r = xr s r" for t :: a64_state
    using that reg base by simp
  have d: "i < 8 \<Longrightarrow> (of_nat i :: u32) < 32" "i < 8 \<Longrightarrow> unat (of_nat i :: u32) = 0 + i"
    "i < 8 \<Longrightarrow> (8 + of_nat i :: u32) < 32" "i < 8 \<Longrightarrow> unat (8 + of_nat i :: u32) = 8 + i"
    "i < 8 \<Longrightarrow> (16 + of_nat i :: u32) < 32" "i < 8 \<Longrightarrow> unat (16 + of_nat i :: u32) = 16 + i" for i
    using reg_index [of i] by simp_all
  show ?thesis
  proof (rule runs_append [OF runs_load_x [where Q = "\<lambda>t. (\<forall>j < 8. xr t (j + 8) = ws ! j) \<and>
      (\<forall>r. r < 8 \<or> 16 \<le> r \<longrightarrow> xr t r = xr s r) \<and> dr t = dr s \<and> fpcr t = fpcr s \<and> memory t = memory s"]], rule reg(1), rule reg(2))
    fix t1 :: a64_state
    assume t1: "(\<forall>j < 8. xr t1 (j + 8) = ws ! j) \<and>
      (\<forall>r. r < 8 \<or> 16 \<le> r \<longrightarrow> xr t1 r = xr s r) \<and> dr t1 = dr s \<and> fpcr t1 = fpcr s \<and> memory t1 = memory s"
    then have ok1: "region (memory t1) a ws" "xr t1 (unat (X0 :: u32)) = a" using ok [of t1] by blast+
    show "runs_to fpu (map (\<lambda>i. ldr_fp_imm (of_nat i) X0 (of_nat (8 * 8) + of_nat i * 8)) [0..<8] @
     map (\<lambda>i. ldr_fp_imm (8 + of_nat i) X0 (of_nat (8 * 16) + of_nat i * 8)) [0..<8] @
     map (\<lambda>i. ldr_fp_imm (16 + of_nat i) X0 (of_nat (8 * 24) + of_nat i * 8)) [0..<8] @ rest) t1 Q"
    proof (rule runs_append [OF runs_load_d [where q = 0 and Q = "\<lambda>t. (\<forall>j < 8. dr t (0 + j) = ws ! (8 + j)) \<and>
      xr t = xr t1 \<and> fpcr t = fpcr s \<and> memory t = memory s"]], rule ok1(1), rule reg(2), rule ok1(2))
      fix t2 :: a64_state
      assume t2: "(\<forall>j < 8. dr t2 (0 + j) = ws ! (8 + j)) \<and> xr t2 = xr t1 \<and> fpcr t2 = fpcr s \<and> memory t2 = memory s"
      then have ok2: "region (memory t2) a ws" "xr t2 (unat (X0 :: u32)) = a" using ok1 t1 by simp_all
      show "runs_to fpu (map (\<lambda>i. ldr_fp_imm (8 + of_nat i) X0 (of_nat (8 * 16) + of_nat i * 8)) [0..<8] @
        map (\<lambda>i. ldr_fp_imm (16 + of_nat i) X0 (of_nat (8 * 24) + of_nat i * 8)) [0..<8] @ rest) t2 Q"
      proof (rule runs_append [OF runs_load_d [where q = 8 and Q = "\<lambda>t. (\<forall>j < 8. dr t (8 + j) = ws ! (16 + j)) \<and>
          (\<forall>j < 8. dr t j = ws ! (8 + j)) \<and> xr t = xr t1 \<and> fpcr t = fpcr s \<and> memory t = memory s"]], rule ok2(1), rule reg(2), rule ok2(2))
        fix t3 :: a64_state
        assume t3: "(\<forall>j < 8. dr t3 (8 + j) = ws ! (16 + j)) \<and>
          (\<forall>j < 8. dr t3 j = ws ! (8 + j)) \<and> xr t3 = xr t1 \<and> fpcr t3 = fpcr s \<and> memory t3 = memory s"
        then have ok3: "region (memory t3) a ws" "xr t3 (unat (X0 :: u32)) = a" using ok1 t1 by simp_all
        show "runs_to fpu (map (\<lambda>i. ldr_fp_imm (16 + of_nat i) X0 (of_nat (8 * 24) + of_nat i * 8)) [0..<8] @ rest) t3 Q"
        proof (rule runs_append [OF runs_load_d [where q = 16 and Q = "file_loaded ws s"]], rule ok3(1), rule reg(2), rule ok3(2))
          show "file_loaded ws s t" if "\<forall>j < 8. dr t (16 + j) = ws ! (24 + j)" "\<forall>r. r < 16 \<or> 16 + 8 \<le> r \<longrightarrow> dr t r = dr t3 r"
            "xr t = xr t3" "fpcr t = fpcr t3" "memory t = memory t3" for t :: a64_state
            unfolding file_loaded_def using that t3 t1 by simp
        qed (use d Q in simp_all)
      qed (use d t2 in simp_all)
    qed (use d t1 in simp_all)
  qed (use base in simp_all)
qed

lemma entered:
  assumes call: "body_call config nb base cb stk m s" and x: "pushed s stk 0 (saved s) x"
    and t: "file_loaded (nreg_words (m_nreg m))
      (set_x 20 (snd (e_mask config)) (set_x 19 (fst (e_mask config)) (set_x 16 base (set_x 21 nb x)))) t"
  shows "body_entered config nb base stk m s (set_d 24 FSCAL_MASK (set_x 0 FSCAL_MASK t))"
proof -
  let ?ws = "nreg_words (m_nreg m)"
  have c: "machine_ok m" "m_rm m < 4" "fpcr s = rx_fpcr (m_rm m)" using call by (simp_all add: body_call_def)
  note w = nreg_words_nth [OF c(1)]
  have len: "length (rf_f (m_nreg m)) = 4" "length (rf_e (m_nreg m)) = 4" "length (rf_a (m_nreg m)) = 4"
    using c(1) by (simp_all add: machine_ok_def)
  have mem: "region (memory x) nb ?ws" "mem_holds (memory x) base (m_sp m)"
    using call x holds_apart [of "memory s" base "m_sp m" stk 160 "memory x"]
      region_apart [of "memory s" nb ?ws stk 160 "memory x"] w(1)
    by (simp_all add: body_call_def pushed_def machine_ok_def)
  have d: "i < 4 \<Longrightarrow> pair_at t (2 * i + 0) = rf_f (m_nreg m) ! i" "i < 4 \<Longrightarrow> pair_at t (2 * i + 8) = rf_e (m_nreg m) ! i"
    "i < 4 \<Longrightarrow> pair_at t (2 * i + 16) = rf_a (m_nreg m) ! i" for i
    by (rule pairs_loaded; use t w len in \<open>simp add: file_loaded_def\<close>)+
  have p: "pair_at (set_d 24 v (set_x 0 v' t)) k = pair_at t k" if "k < 23" for k v v'
    using that by (simp add: pair_at_def)
  have x31: "stack_at x stk 0 (saved s)" "xr x 31 = xr t 31" "memory x = memory t" using x t by (auto simp: pushed_def file_loaded_def)
  have rel: "jit_rel config base m (set_d 24 FSCAL_MASK (set_x 0 FSCAL_MASK t))"
    unfolding jit_rel_def consts_rel_def
    using c t x w d mem by (simp add: p file_loaded_def pushed_def)
  have st: "stack_at (set_d 24 FSCAL_MASK (set_x 0 FSCAL_MASK t)) stk 0 (saved s)"
    by (rule stack_at_cong [OF x31(1)]) (use x31 in simp_all)
  show ?thesis
    unfolding body_entered_def
    using rel st t x mem by (simp add: file_loaded_def pushed_def)
qed

lemma runs_prologue:
  assumes call: "body_call config nb base cb stk m s"
  shows "runs_to fpu emit_prologue s (body_entered config nb base stk m s)"
proof -
  have c: "machine_ok m" "m_rm m < 4" "fpcr s = rx_fpcr (m_rm m)" "stack_at s stk 20 []"
    using call by (simp_all add: body_call_def)
  let ?ws = "nreg_words (m_nreg m)"
  show ?thesis
    unfolding prologue_code
  proof (rule runs_append [OF runs_save [OF c(4)]])
    fix x assume x: "pushed s stk 0 (saved s) x"
    let ?y = "set_x 20 (snd (e_mask config)) (set_x 19 (fst (e_mask config)) (set_x 16 base (set_x 21 nb x)))"
    have mem: "region (memory x) nb ?ws" "mem_holds (memory x) base (m_sp m)"
      using call x holds_apart [of "memory s" base "m_sp m" stk 160 "memory x"]
        region_apart [of "memory s" nb ?ws stk 160 "memory x"] nreg_words_nth(1) [OF c(1)]
      by (simp_all add: body_call_def pushed_def machine_ok_def)
    have x0: "xr x 0 = nb" using x call by (simp add: pushed_def body_call_def)
    show "runs_to fpu ([mov_reg X21 X0, mov_reg X16 X1, ldr_imm X19 X2 0, ldr_imm X20 X2 8] @
       map (\<lambda>i. ldr_imm (8 + of_nat i) X0 (of_nat i * 8)) [0..<8] @
       map (\<lambda>i. ldr_fp_imm (of_nat i) X0 (of_nat (8 * 8) + of_nat i * 8)) [0..<8] @
       map (\<lambda>i. ldr_fp_imm (8 + of_nat i) X0 (of_nat (8 * 16) + of_nat i * 8)) [0..<8] @
       map (\<lambda>i. ldr_fp_imm (16 + of_nat i) X0 (of_nat (8 * 24) + of_nat i * 8)) [0..<8] @
       mov_imm64 X0 FSCAL_MASK @ [fmov_dx D24 X0]) x (body_entered config nb base stk m s)"
    proof (rule runs_append [OF runs_words [OF prologue_pointers [OF x call], where Q = "\<lambda>y. y = ?y"]], rule refl, clarify)
      show "runs_to fpu (map (\<lambda>i. ldr_imm (8 + of_nat i) X0 (of_nat i * 8)) [0..<8] @
       map (\<lambda>i. ldr_fp_imm (of_nat i) X0 (of_nat (8 * 8) + of_nat i * 8)) [0..<8] @
       map (\<lambda>i. ldr_fp_imm (8 + of_nat i) X0 (of_nat (8 * 16) + of_nat i * 8)) [0..<8] @
       map (\<lambda>i. ldr_fp_imm (16 + of_nat i) X0 (of_nat (8 * 24) + of_nat i * 8)) [0..<8] @
       mov_imm64 X0 FSCAL_MASK @ [fmov_dx D24 X0]) ?y (body_entered config nb base stk m s)"
      proof (rule runs_load_file [of _ nb ?ws])
        show "region (memory ?y) nb ?ws" "length ?ws = 32" "xr ?y 0 = nb" using mem(1) x0 nreg_words_nth(1) [OF c(1)] by simp_all
        fix t assume t: "file_loaded ?ws ?y t"
        have "exec_words fpu [fmov_dx D24 X0] (set_x 0 FSCAL_MASK t) = Some (set_d 24 FSCAL_MASK (set_x 0 FSCAL_MASK t))"
          by (simp add: jit_decode get_x_reg)
        then have "runs_to fpu (mov_imm64 X0 FSCAL_MASK @ [fmov_dx D24 X0]) t (\<lambda>z. z = set_d 24 FSCAL_MASK (set_x 0 FSCAL_MASK t))"
          by (intro runs_append [OF runs_mov [where Q = "\<lambda>z. z = set_x 0 FSCAL_MASK t"]]) (auto intro: runs_words)
        then show "runs_to fpu (mov_imm64 X0 FSCAL_MASK @ [fmov_dx D24 X0]) t (body_entered config nb base stk m s)"
          by (rule runs_mono) (simp add: entered [OF call x t])
      qed
    qed
  qed
qed

section \<open>The return\<close>

definition file_stored :: "u64 \<Rightarrow> u64 list \<Rightarrow> a64_state \<Rightarrow> a64_state \<Rightarrow> bool" where
  "file_stored nb ws s s' \<longleftrightarrow> (\<exists>mem. s' = set_mem mem s \<and> region mem nb ws \<and>
     (\<forall>x. outside nb 256 x \<longrightarrow> mem x = memory s x))"

lemma set_mem_set_mem: "set_mem mem (set_mem mem' s) = set_mem mem s"
  by (simp add: set_mem_def)

lemma file_stored_again:
  assumes "file_stored nb ws s s'" "region mem nb ws'" "\<forall>x. outside nb 256 x \<longrightarrow> mem x = memory s' x"
  shows "file_stored nb ws' s (set_mem mem s')"
  using assms by (auto simp: file_stored_def set_mem_set_mem)

lemma exec_words_Nil: "exec_words fpu [] = Some"
  by (rule ext) simp

lemma runs_store_file:
  assumes reg: "region (memory s) nb ws" "length ws = 32" and base: "xr s 21 = nb"
  shows "runs_to fpu store_register_file s
     (file_stored nb (put_group 16 8 (\<lambda>j. dr s (8 + j)) (put_group 8 8 (dr s) (put_group 0 8 (\<lambda>j. xr s (j + 8)) ws))) s)"
proof -
  have code: "store_register_file = map (\<lambda>i. str_imm (8 + of_nat i) X21 (of_nat (8 * 0) + of_nat i * 8)) [0..<8] @
     map (\<lambda>i. str_fp_imm (of_nat i) X21 (of_nat (8 * 8) + of_nat i * 8)) [0..<8] @
     map (\<lambda>i. str_fp_imm (8 + of_nat i) X21 (of_nat (8 * 16) + of_nat i * 8)) [0..<8]"
    by (simp add: store_register_file_def)
  have x: "exec_words fpu [str_imm (8 + of_nat i) X21 (of_nat (8 * 0) + of_nat i * 8)] y =
      store_word (nb + of_nat (8 * (0 + i))) (xr s (i + 8)) y" if "i < 8" "xr y = xr s" "dr y = dr s" for i y
    using that base scaled_index [OF that(1), of 0] reg_index [OF that(1)]
    by (simp add: jit_decode get_x_reg exec_words_Nil del: exec_words.simps(1) of_nat_mult of_nat_add)
  have d: "exec_words fpu [str_fp_imm (of_nat i) X21 (of_nat (8 * 8) + of_nat i * 8)] y =
      store_word (nb + of_nat (8 * (8 + i))) (dr s i) y"
    "exec_words fpu [str_fp_imm (8 + of_nat i) X21 (of_nat (8 * 16) + of_nat i * 8)] y =
      store_word (nb + of_nat (8 * (16 + i))) (dr s (8 + i)) y" if "i < 8" "xr y = xr s" "dr y = dr s" for i y
    using that base scaled_index [OF that(1), of 8] scaled_index [OF that(1), of 16] reg_index [OF that(1)]
      add.commute [of i 8]
    by (simp_all add: jit_decode exec_words_Nil del: exec_words.simps(1) of_nat_mult of_nat_add)
  let ?w1 = "put_group 0 8 (\<lambda>j. xr s (j + 8)) ws"
  let ?w2 = "put_group 8 8 (dr s) ?w1"
  show ?thesis
    unfolding code
  proof (rule runs_append [OF runs_store_group [where k = 0 and Q = "file_stored nb ?w1 s", OF reg base _ x]])
    fix t assume t: "file_stored nb ?w1 s t"
    then have t': "region (memory t) nb ?w1" "xr t = xr s" "dr t = dr s" by (auto simp: file_stored_def)
    show "runs_to fpu (map (\<lambda>i. str_fp_imm (of_nat i) X21 (of_nat (8 * 8) + of_nat i * 8)) [0..<8] @
     map (\<lambda>i. str_fp_imm (8 + of_nat i) X21 (of_nat (8 * 16) + of_nat i * 8)) [0..<8]) t
     (file_stored nb (put_group 16 8 (\<lambda>j. dr s (8 + j)) ?w2) s)"
    proof (rule runs_append [OF runs_store_group [where k = 8 and Q = "file_stored nb ?w2 s", OF t'(1) _ _ _ d(1)]])
      fix u assume u: "file_stored nb ?w2 s u"
      then have u': "region (memory u) nb ?w2" "xr u = xr s" "dr u = dr s" by (auto simp: file_stored_def)
      show "runs_to fpu (map (\<lambda>i. str_fp_imm (8 + of_nat i) X21 (of_nat (8 * 16) + of_nat i * 8)) [0..<8]) u
        (file_stored nb (put_group 16 8 (\<lambda>j. dr s (8 + j)) ?w2) s)"
        by (rule runs_store_group [where k = 16, OF u'(1) _ _ _ d(2)])
          (use u u' reg base in \<open>auto intro: file_stored_again\<close>)
    qed (use t t' reg base in \<open>auto intro: file_stored_again\<close>)
  qed (use reg base in \<open>auto simp: file_stored_def\<close>)
qed

text \<open>What the call leaves behind.\<close>

definition body_result :: "u64 \<Rightarrow> u64 \<Rightarrow> u64 \<Rightarrow> machine \<Rightarrow> a64_state \<Rightarrow> a64_state \<Rightarrow> bool" where
  "body_result nb base stk m s s' \<longleftrightarrow>
     region (memory s') nb (nreg_words (m_nreg m)) \<and> mem_holds (memory s') base (m_sp m) \<and>
     fpcr s' = rx_fpcr (m_rm m) \<and> restored s (xr s 31) s' \<and>
     (\<forall>r. 17 \<le> r \<and> r < 19 \<longrightarrow> xr s' r = xr s r) \<and>
     (\<forall>x. outside stk 160 x \<and> outside nb 256 x \<and> outside base SCRATCHPAD_L3_SIZE x \<longrightarrow>
        memory s' x = memory s x)"

lemma stack_at_apart:
  assumes "stack_at s stk j vs" "apart a n stk 160" "xr s' 31 = xr s 31"
    and "\<And>x. outside a n x \<Longrightarrow> memory s' x = memory s x"
  shows "stack_at s' stk j vs"
proof -
  obtain ws where ws: "length ws = 20" "drop j ws = vs" "region (memory s) stk ws"
    using assms(1) by (auto simp: stack_at_def)
  have "region (memory s') stk ws"
    by (rule region_apart [OF ws(3), of a n]) (use assms(2, 4) ws(1) in simp_all)
  then show ?thesis using assms(1, 3) ws by (auto simp: stack_at_def)
qed

lemma runs_epilogue:
  assumes call: "body_call config nb base cb stk m0 s"
    and en: "body_entered config nb base stk m0 s y" and sim: "simulates config base m y z"
    and a: "rf_a (m_nreg m0) = rf_a (m_nreg m)"
  shows "runs_to fpu (store_register_file @ butlast restore_registers) z (body_result nb base stk m s)"
proof -
  have ok: "machine_ok m0" "machine_ok m" "m_rm m < 4" and rel: "jit_rel config base m z" and fr: "jit_frame base y z"
    using call sim by (simp_all add: body_call_def simulates_def jit_rel_def)
  have ap: "apart base SCRATCHPAD_L3_SIZE nb 256" "apart base SCRATCHPAD_L3_SIZE stk 160"
    "apart nb 256 base SCRATCHPAD_L3_SIZE" "apart nb 256 stk 160" "xr s 31 = stk + 160"
    using call by (simp_all add: body_call_def stack_at_def)
  have l: "length (nreg_words (m_nreg m0)) = 32" "length (m_sp m) = SCRATCHPAD_L3_SIZE"
    using nreg_words_nth(1) [OF ok(1)] ok(2) by (simp_all add: machine_ok_def)
  have z: "region (memory z) nb (nreg_words (m_nreg m0))"
    by (rule region_apart [of "memory y" _ _ base SCRATCHPAD_L3_SIZE])
      (use en ap fr l in \<open>simp_all add: body_entered_def jit_frame_def\<close>)
  have stz: "stack_at z stk 0 (saved s)"
    by (rule stack_at_apart [of y _ _ _ base SCRATCHPAD_L3_SIZE])
      (use en ap fr in \<open>simp_all add: body_entered_def jit_frame_def\<close>)
  have z21: "xr z 21 = nb" using en fr by (simp add: body_entered_def jit_frame_def)
  show ?thesis
  proof (rule runs_append [OF runs_store_file [OF z l(1) z21]])
    fix u assume "file_stored nb (put_group 16 8 (\<lambda>j. dr z (8 + j)) (put_group 8 8 (dr z)
      (put_group 0 8 (\<lambda>j. xr z (j + 8)) (nreg_words (m_nreg m0))))) z u"
    then have "file_stored nb (nreg_words (m_nreg m)) z u"
      by (simp only: stored_words [OF ok(2) a ok(1) rel])
    then obtain mem where u: "u = set_mem mem z" "region mem nb (nreg_words (m_nreg m))"
      "\<And>x. outside nb 256 x \<Longrightarrow> mem x = memory z x" by (auto simp: file_stored_def)
    have sp: "mem_holds mem base (m_sp m)"
      by (rule holds_apart [of "memory z" _ _ nb 256]) (use rel ap l u in \<open>simp_all add: jit_rel_def\<close>)
    have stu: "stack_at u stk 0 (saved s)"
      by (rule stack_at_apart [OF stz ap(4)]) (use u in simp_all)
    show "runs_to fpu (butlast restore_registers) u (body_result nb base stk m s)"
    proof (rule runs_restore [OF stu])
      fix s' assume s': "restored s (stk + 160) s'" "\<forall>r. r < 19 \<longrightarrow> xr s' r = xr u r"
        "memory s' = memory u" "fpcr s' = fpcr u"
      then show "body_result nb base stk m s s'"
        unfolding body_result_def
        using u sp rel ap(5) fr en by (simp add: jit_rel_def jit_frame_def body_entered_def)
    qed
  qed
qed

text \<open>No instruction writes an \<open>a\<close> register.\<close>

lemma put_a:
  "put_r m i v = Some m' \<Longrightarrow> rf_a (m_nreg m') = rf_a (m_nreg m)"
  "put_f m i w = Some m' \<Longrightarrow> rf_a (m_nreg m') = rf_a (m_nreg m)"
  "put_e m i w = Some m' \<Longrightarrow> rf_a (m_nreg m') = rf_a (m_nreg m)"
  by (auto simp: put_r_def put_f_def put_e_def split: Option.bind_splits)

lemma op_a:
  "int_op m b x f = Some m' \<Longrightarrow> rf_a (m_nreg m') = rf_a (m_nreg m)"
  "flt_op_f m b y g = Some m' \<Longrightarrow> rf_a (m_nreg m') = rf_a (m_nreg m)"
  "flt_op_e m b y g = Some m' \<Longrightarrow> rf_a (m_nreg m') = rf_a (m_nreg m)"
  unfolding int_op_def flt_op_f_def flt_op_e_def
  by (auto split: Option.bind_splits dest: put_a)

lemma exec_plain_a:
  assumes "exec_plain fpu version config b m = Some m'"
  shows "rf_a (m_nreg m') = rf_a (m_nreg m)"
  using assms unfolding exec_plain_def Let_def
  by (cases "bi_itype b")
    (simp_all add: op_a split: Option.bind_splits if_splits, auto dest!: put_a)

lemma exec_instr_a: "exec_instr fpu version config b (pc, m) = Some (pc', m') \<Longrightarrow> rf_a (m_nreg m') = rf_a (m_nreg m)"
  by (auto simp: exec_instr_def Let_def put_r_def exec_plain_a split: Option.bind_splits if_splits)

lemma bytecode_fuel_a:
  "bytecode_fuel fpu version config bc n (pc, m) = Some m' \<Longrightarrow> rf_a (m_nreg m') = rf_a (m_nreg m)"
proof (induction n arbitrary: pc m)
  case 0
  then show ?case by (subst (asm) bytecode_fuel.simps) (simp split: if_splits)
next
  case (Suc n)
  note unf = bytecode_fuel.simps [of fpu version config bc "Suc n" "(pc, m)"]
  show ?case
  proof (cases "pc < int (length bc)")
    case False
    then show ?thesis using Suc.prems unfolding unf by simp
  next
    case True
    then obtain pc1 m1 where m1: "exec_instr fpu version config (bc ! nat pc) (pc, m) = Some (pc1, m1)"
      "bytecode_fuel fpu version config bc n (pc1, m1) = Some m'"
      using Suc.prems unfolding unf by (auto simp del: bytecode_fuel.simps split: if_splits Option.bind_splits)
    show ?thesis using Suc.IH [OF m1(2)] exec_instr_a [OF m1(1)] by simp
  qed
qed

section \<open>The compiled function is the interpreter\<close>

lemma ret_step:
  assumes "code_at code p [ret_lr]"
  shows "a64_step fpu code (At (int p), s) = Some (Returned (xr s 30), s)"
proof -
  have "decode ret_lr = Some (RETx 30)" by code_simp
  then show ?thesis using step_at [OF assms] by (simp add: exec_at_def get_x_def)
qed

theorem body_runs:
  assumes ok: "bytecode_ok bc" and code: "body_code bc version = Some code" and size: "length code < 0x40000"
    and call: "body_call config nb base cb stk m s"
    and run: "execute_bytecode fpu version config bc m = Some m'"
  shows "\<exists>s'. a64_reaches fpu code (At 0, s) (Returned (xr s 30), s') \<and> body_result nb base stk m' s s'"
proof -
  obtain c where c: "emit_body emit_prologue bc version = Some c" "code = c @ emit_epilogue"
    using code by (auto simp: body_code_def)
  obtain segs offs where segs: "c = emit_prologue @ concat segs"
    "body_layout bc version (length emit_prologue) segs offs (length bc)"
    using emit_body_layout [OF c(1)] by blast
  have eq: "code = emit_prologue @ concat segs @ emit_epilogue" using c(2) segs(1) by simp
  have m: "machine_ok m" using call by (simp add: body_call_def)
  obtain f: "bytecode_fuel fpu version config bc (3 * length bc) (0, m) = Some m'"
  proof -
    have "returns machine_ok (bytecode_fuel fpu version config bc (3 * length bc) (0, m))"
      using bytecode_run_bounded [OF ok le0 m le0, of fpu version config] by simp
    then obtain x where "bytecode_fuel fpu version config bc (3 * length bc) (0, m) = Some x" by (auto simp: returns_iff)
    then show ?thesis using that bytecode_fuel_loop run by (fastforce simp: execute_bytecode_def)
  qed
  have all: "code_at code 0 (emit_prologue @ concat segs @ emit_epilogue)"
    unfolding code_at_def eq by (intro exI [where x = "[]"]) simp
  have at0: "code_at code 0 emit_prologue" using code_at_append [OF all] by simp
  obtain y where y: "a64_reaches fpu code (At 0, s) (At (int (length emit_prologue)), y)" "body_entered config nb base stk m s y"
    using runs_reaches [OF at0 runs_prologue [OF call]] by auto
  have rel: "jit_rel config base m y" using y(2) by (simp add: body_entered_def)
  let ?stop = "length emit_prologue + length (concat segs)"
  obtain z where z: "a64_reaches fpu code (At (int (length emit_prologue)), y) (At (int ?stop), z)" "simulates config base m' y z"
    using body_simulates [OF segs(2) ok eq size, of fpu config "3 * length bc" 0 m m' base y] f rel by auto
  have ep: "emit_epilogue = (store_register_file @ butlast restore_registers) @ [ret_lr]"
    by (simp add: emit_epilogue_def restore_registers_def)
  have "code_at code ?stop emit_epilogue"
    using code_at_append [OF conjunct2 [OF code_at_append [OF all]]] by simp
  note at = code_at_append [OF this [unfolded ep]]
  obtain u where u: "a64_reaches fpu code (At (int ?stop), z) (At (int (?stop + length (store_register_file @ butlast restore_registers))), u)"
    "body_result nb base stk m' s u"
    using runs_reaches [OF conjunct1 [OF at] runs_epilogue [OF call y(2) z(2)]] bytecode_fuel_a [OF f] by auto
  have "xr u 30 = xr s 30" using u(2) by (simp add: body_result_def restored_def)
  then have "a64_reaches fpu code (At (int (?stop + length (store_register_file @ butlast restore_registers))), u) (Returned (xr s 30), u)"
    using a64_reaches_step [OF ret_step [OF conjunct2 [OF at], of fpu u]] by simp
  then show ?thesis using u y(1) z(1) a64_reaches_trans by blast
qed

text \<open>The code of every program fits: a \<open>bytecode_ok\<close> program of at most 384 instructions
  takes at most \<open>51 + 33 * 384 + 35\<close> words, less than the 64 KiB of the region.\<close>

lemma body_code_fits:
  assumes "bytecode_ok bc" "length bc \<le> RANDOMX_PROGRAM_SIZE_MAX"
  shows "\<exists>code. body_code bc version = Some code \<and> length code * 4 \<le> JIT_CODE_SIZE"
proof -
  obtain c where c: "emit_body emit_prologue bc version = Some c" "length c \<le> length emit_prologue + 33 * length bc"
    using emit_body_total [OF assms] by blast
  have "length bc \<le> 384" using assms(2) by (simp add: RANDOMX_PROGRAM_SIZE_MAX_def)
  then have "length (c @ emit_epilogue) * 4 \<le> JIT_CODE_SIZE"
    using c(2) length_prologue by (simp add: JIT_CODE_SIZE_def)
  then show ?thesis using c(1) by (simp add: body_code_def)
qed

lemma compiled_body:
  assumes "bytecode_ok bc" "length bc \<le> RANDOMX_PROGRAM_SIZE_MAX"
  shows "\<exists>jc' code. jit_compile bc version jc = Some jc' \<and> get_fn jc' = Some code \<and>
     body_code bc version = Some code \<and> length code < 0x40000"
proof -
  obtain code where "body_code bc version = Some code" "length code * 4 \<le> JIT_CODE_SIZE"
    using body_code_fits [OF assms] by blast
  then show ?thesis by (simp add: jit_compile_def write_code_def get_fn_def JIT_CODE_SIZE_def)
qed

section \<open>A call with everything zero\<close>

text \<open>The hypotheses can hold: zeroed memory, the register file at \<open>0x1000\<close>, the configuration at
  \<open>0x2000\<close>, the stack at \<open>0x3000\<close>, the scratchpad from \<open>0x10000000\<close>.\<close>

lemma apart_far: "n \<le> unat (b - a) \<Longrightarrow> unat (b - a) + k \<le> 2 ^ 64 \<Longrightarrow> apart a n b k"
proof (unfold apart_def outside_def, intro allI impI)
  fix i assume a: "n \<le> unat (b - a)" "unat (b - a) + k \<le> 2 ^ 64" "i < k"
  have e: "b + of_nat i - a = b - a + of_nat i" by simp
  have "unat (b - a + of_nat i) = unat (b - a) + i"
    using a by (subst unat_add_lem [THEN iffD1]) (simp_all add: unat_of_nat_64)
  then show "n \<le> unat (b + of_nat i - a)" unfolding e using a(1) by simp
qed

lemma le_bytes_zero: "le_bytes 8 (0 :: u64) = replicate 8 0"
  by code_simp

lemma zero_region: "mem_holds (\<lambda>x. Some 0) a (replicate n 0)" "region (\<lambda>x. Some 0) a (replicate k 0)"
proof -
  have "words_bytes (replicate k 0) = replicate (8 * k) 0"
    by (induction k) (simp_all add: words_bytes_def le_bytes_zero replicate_add)
  then show "mem_holds (\<lambda>x. Some 0) a (replicate n 0)" "region (\<lambda>x. Some 0) a (replicate k 0)"
    by (simp_all add: mem_holds_def region_def)
qed

definition zero_machine :: machine where
  "zero_machine = \<lparr>m_nreg = nreg_new, m_sp = replicate SCRATCHPAD_L3_SIZE 0, m_rm = 0\<rparr>"

definition zero_state :: a64_state where
  "zero_state = \<lparr>xr = (\<lambda>r. 0)(0 := 0x1000, 1 := 0x10000000, 2 := 0x2000, 3 := 1, 4 := 0x4000, 31 := 0x30A0),
     dr = (\<lambda>q. 0), zflag = False, fpcr = rx_fpcr 0, memory = (\<lambda>x. Some 0)\<rparr>"

lemma nreg_words_zero: "nreg_words nreg_new = replicate 32 0"
  by code_simp

lemma zero_call:
  "e_mask config = (0, 0) \<Longrightarrow> body_call config 0x1000 0x10000000 0x2000 0x3000 zero_machine zero_state"
proof -
  assume c: "e_mask config = (0, 0)"
  have ok: "machine_ok zero_machine" by (simp add: machine_ok_def zero_machine_def nreg_new_def reg_counts)
  have st: "stack_at zero_state 0x3000 20 []"
    unfolding stack_at_def by (intro conjI exI [where x = "replicate 20 0"]) (simp_all add: zero_state_def zero_region)
  have cfg: "region (\<lambda>x. Some 0) 0x2000 [0, 0]" using zero_region(2) [of "0x2000" 2] by (simp add: numeral_2_eq_2)
  show ?thesis
    unfolding body_call_def
    using ok st cfg c
    by (intro conjI apart_far)
      (simp_all add: zero_machine_def zero_state_def nreg_words_zero zero_region SCRATCHPAD_L3_SIZE_def)
qed

end
