(* ===== verification/Jit_Iter.thy ===== *)
theory Jit_Iter
  imports Jit_Fn
begin

text \<open>
  One iteration of the native loop (\<open>emit_iteration_pre\<close>, \<open>emit_iteration_post\<close> in
  \<open>src/randomx/jit/compiler.rs\<close>) against \<open>load_registers\<close>, \<open>mix_dataset\<close> and \<open>store_registers\<close> of
  the loop in \<open>src/randomx/vm.rs\<close>.
\<close>

section \<open>A relation without the floating-point registers\<close>

text \<open>At the head of the loop \<open>f\<close> and \<open>e\<close> hold nothing yet: \<open>part_rel\<close> relates the first \<open>kf\<close> and
  \<open>ke\<close> of them.\<close>

definition part_rel :: "nat \<Rightarrow> nat \<Rightarrow> program_configuration \<Rightarrow> u64 \<Rightarrow> machine \<Rightarrow> a64_state \<Rightarrow> bool" where
  "part_rel kf ke config base m s \<longleftrightarrow>
     kf \<le> 4 \<and> ke \<le> 4 \<and> machine_ok m \<and> m_rm m < 4 \<and> consts_rel config base s \<and>
     (\<forall>i < 8. xr s (i + 8) = rf_r (m_nreg m) ! i) \<and>
     (\<forall>i < kf. pair_at s (2 * i) = rf_f (m_nreg m) ! i) \<and>
     (\<forall>i < ke. pair_at s (2 * i + 8) = rf_e (m_nreg m) ! i) \<and>
     (\<forall>i < 4. pair_at s (2 * i + 16) = rf_a (m_nreg m) ! i) \<and>
     fpcr s = rx_fpcr (m_rm m) \<and> mem_holds (memory s) base (m_sp m)"

lemma part_rel_full: "part_rel 4 4 config base m s = jit_rel config base m s"
  by (simp add: part_rel_def jit_rel_def)

lemma jit_rel_part: "jit_rel config base m s \<Longrightarrow> part_rel 0 0 config base m s"
  by (simp add: part_rel_def jit_rel_def)

lemma part_rel_some:
  assumes "part_rel kf ke config base m s"
  shows "\<exists>m'. jit_rel config base m' s \<and> m_sp m' = m_sp m"
  using assms
  by (intro exI [where x = "m\<lparr>m_nreg := (m_nreg m)\<lparr>rf_f := map (\<lambda>i. pair_at s (2 * i)) [0..<4],
      rf_e := map (\<lambda>i. pair_at s (2 * i + 8)) [0..<4]\<rparr>\<rparr>"])
    (auto simp: part_rel_def jit_rel_def machine_ok_def)

lemma part_rel_temps: "part_rel kf ke config base m s \<Longrightarrow> temps s s' \<Longrightarrow> part_rel kf ke config base m s'"
  by (simp add: part_rel_def temps_def consts_rel_def pair_at_def)

lemma part_set_r:
  "part_rel kf ke config base m s \<Longrightarrow> i < 8 \<Longrightarrow> part_rel kf ke config base (upd_r i v m) (set_x (i + 8) v s)"
  by (auto simp: part_rel_def machine_ok_def upd_r_def consts_rel_def pair_at_def nth_list_update)

lemma part_set_f:
  "part_rel i 0 config base m s \<Longrightarrow> i < 4 \<Longrightarrow>
     part_rel (Suc i) 0 config base (upd_f i (lo, hi) m) (set_d (2 * i + 1) hi (set_d (2 * i) lo s))"
  by (auto simp: part_rel_def machine_ok_def upd_f_def consts_rel_def pair_at_def nth_list_update less_Suc_eq)

lemma part_set_e:
  "part_rel 4 i config base m s \<Longrightarrow> i < 4 \<Longrightarrow>
     part_rel 4 (Suc i) config base (upd_e i (lo, hi) m) (set_d (2 * i + 9) hi (set_d (2 * i + 8) lo s))"
  by (auto simp: part_rel_def machine_ok_def upd_e_def consts_rel_def pair_at_def nth_list_update less_Suc_eq)

section \<open>Loops\<close>

lemma runs_for_each:
  assumes "\<And>i m m' s. i < n \<Longrightarrow> R i m s \<Longrightarrow> f i m = Some m' \<Longrightarrow> runs_to fpu (w i) s (R (Suc i) m')"
    and "for_each f [0..<n] m = Some m'" "R 0 m s"
  shows "runs_to fpu (concat (map w [0..<n])) s (R n m')"
  using assms
proof (induction n arbitrary: m')
  case 0
  then show ?case by (simp add: runs_to_def)
next
  case (Suc n)
  obtain m1 where m1: "for_each f [0..<n] m = Some m1" "f n m1 = Some m'"
    using Suc.prems(2) by (auto simp: for_each_append split: Option.bind_splits)
  have "runs_to fpu (concat (map w [0..<n]) @ w n) s (R (Suc n) m')"
    by (rule runs_append [OF Suc.IH [OF _ m1(1) Suc.prems(3)]]) (use Suc.prems(1) m1(2) in auto)
  then show ?case by simp
qed

text \<open>The four words of \<open>LoopState\<close> in \<open>x24 .. x27\<close>, and what an iteration leaves alone.\<close>

definition vars_at :: "loop_state \<Rightarrow> a64_state \<Rightarrow> bool" where
  "vars_at ls s \<longleftrightarrow> xr s 24 = ucast (ls_ma ls) \<and> xr s 25 = ucast (ls_mx ls) \<and>
     xr s 26 = ucast (ls_sp_addr0 ls) \<and> xr s 27 = ucast (ls_sp_addr1 ls)"

definition turn_frame :: "u64 \<Rightarrow> a64_state \<Rightarrow> a64_state \<Rightarrow> bool" where
  "turn_frame base s s' \<longleftrightarrow>
     (\<forall>r. 16 \<le> r \<and> (r < 24 \<or> 28 \<le> r) \<longrightarrow> xr s' r = xr s r) \<and>
     (\<forall>x. outside base SCRATCHPAD_L3_SIZE x \<longrightarrow> memory s' x = memory s x)"

lemma turn_frame_refl: "turn_frame base s s"
  by (simp add: turn_frame_def)

lemma turn_frame_trans: "turn_frame base s s' \<Longrightarrow> turn_frame base s' s'' \<Longrightarrow> turn_frame base s s''"
  by (simp add: turn_frame_def)

lemma jit_turn_frame: "jit_frame base s s' \<Longrightarrow> turn_frame base s s'"
  by (simp add: jit_frame_def turn_frame_def)

lemma vars_temps: "vars_at ls s \<Longrightarrow> temps s s' \<Longrightarrow> vars_at ls s'"
  by (simp add: vars_at_def temps_def)

section \<open>Addresses\<close>

lemma mix_mask:
  "ucast ((ucast (ucast (a :: u32) :: u64) :: u32) XOR ucast (mix :: u64)) AND JIT_L3_MASK64 =
     (ucast ((a XOR ucast mix) AND SCRATCHPAD_L3_MASK64) :: u64)"
proof -
  have m: "JIT_L3_MASK64 = ucast SCRATCHPAD_L3_MASK64" 
    by (simp add: JIT_L3_MASK64_def SCRATCHPAD_L3_MASK64_def SCRATCHPAD_L3_SIZE_def)
  have i: "ucast (ucast a :: u64) = a" by (rule bit_word_eqI) (simp add: bit_simps)
  have u: "ucast (x AND y) = (ucast x AND ucast y :: u64)" for x y :: u32
    by (rule bit_word_eqI) (auto simp: bit_simps)
  show ?thesis by (simp only: m i u)
qed

lemma high_half: "take_bit 32 (drop_bit 32 x) = drop_bit 32 (x :: u64)"
  by (rule bit_word_eqI) (auto simp: bit_simps dest: bit_imp_le_length)

lemma runs_addresses:
  assumes q: "q0 < 8" "q1 < 8" and x: "xr s 26 = ucast (a :: u32)" "xr s 27 = ucast (b :: u32)"
    and mix: "mix = xr s (q0 + 8) XOR xr s (q1 + 8)"
    and Q: "\<And>s'. (\<forall>r. 8 \<le> r \<and> r \<noteq> 26 \<and> r \<noteq> 27 \<longrightarrow> xr s' r = xr s r) \<Longrightarrow> dr s' = dr s \<Longrightarrow>
      fpcr s' = fpcr s \<Longrightarrow> memory s' = memory s \<Longrightarrow>
      xr s' 26 = ucast ((a XOR ucast mix) AND SCRATCHPAD_L3_MASK64) \<Longrightarrow>
      xr s' 27 = ucast ((b XOR ucast (drop_bit 32 mix)) AND SCRATCHPAD_L3_MASK64) \<Longrightarrow>
      xr s' 2 = xr s 16 + ucast ((a XOR ucast mix) AND SCRATCHPAD_L3_MASK64) \<Longrightarrow>
      runs_to fpu rest s' Q"
  shows "runs_to fpu ([eor_reg X0 (r_reg q0) (r_reg q1), eor_reg_w X26 X26 X0] @
     and_bitmask X26 X26 JIT_L3_MASK64 X1 @
     [lsr_imm X1 X0 32, eor_reg_w X27 X27 X1] @
     and_bitmask X27 X27 JIT_L3_MASK64 X1 @
     [add_reg X2 X16 X26] @ rest) s Q"
proof -
  note r = r_reg_props [OF q(1)] r_reg_props [OF q(2)]
  let ?a = "ucast ((a XOR ucast mix) AND SCRATCHPAD_L3_MASK64) :: u64"
  let ?b = "ucast ((b XOR ucast (drop_bit 32 mix)) AND SCRATCHPAD_L3_MASK64) :: u64"
  define s1 where "s1 = set_x 26 (ucast ((ucast (ucast a :: u64) :: u32) XOR ucast mix)) (set_x 0 mix s)"
  have e1: "exec_words fpu [eor_reg X0 (r_reg q0) (r_reg q1), eor_reg_w X26 X26 X0] s = Some s1"
    using r x q by (simp add: jit_decode put_x_reg get_x_reg s1_def mix)
  let ?P = "\<lambda>s' :: a64_state. (\<forall>r. 8 \<le> r \<and> r \<noteq> 26 \<and> r \<noteq> 27 \<longrightarrow> xr s' r = xr s r) \<and> dr s' = dr s \<and>
      fpcr s' = fpcr s \<and> memory s' = memory s \<and> xr s' 26 = ?a"
  show ?thesis
  proof (rule runs_append [OF runs_words [OF e1, where Q = "\<lambda>y. y = s1"]], rule refl, clarify)
    show "runs_to fpu (and_bitmask X26 X26 JIT_L3_MASK64 X1 @ [lsr_imm X1 X0 32, eor_reg_w X27 X27 X1] @
      and_bitmask X27 X27 JIT_L3_MASK64 X1 @ [add_reg X2 X16 X26] @ rest) s1 Q"
    proof (rule runs_append [OF runs_and [where Q = "\<lambda>y. ?P y \<and> xr y 0 = mix \<and> xr y 27 = ucast b"]], simp, simp, simp, simp)
      fix y assume "temps s1 y" "\<forall>r. r \<noteq> unat (X1 :: u32) \<longrightarrow> xr y r = xr s1 r" "dr y = dr s1"
      then show "?P (set_x (unat (X26 :: u32)) (xr s1 (unat (X26 :: u32)) AND JIT_L3_MASK64) y) \<and>
          xr (set_x (unat (X26 :: u32)) (xr s1 (unat (X26 :: u32)) AND JIT_L3_MASK64) y) 0 = mix \<and>
          xr (set_x (unat (X26 :: u32)) (xr s1 (unat (X26 :: u32)) AND JIT_L3_MASK64) y) 27 = ucast b"
        using x(2) by (simp add: s1_def temps_def mix_mask)
    next
      fix y assume y: "?P y \<and> xr y 0 = mix \<and> xr y 27 = ucast b"
      define y1 where "y1 = set_x 27 (ucast ((ucast (ucast b :: u64) :: u32) XOR ucast (drop_bit 32 mix))) (set_x 1 (drop_bit 32 mix) y)"
      have e2: "exec_words fpu [lsr_imm X1 X0 32, eor_reg_w X27 X27 X1] y = Some y1"
        using y by (simp add: jit_decode put_x_reg get_x_reg y1_def ubfm_shifts high_half)
      show "runs_to fpu ([lsr_imm X1 X0 32, eor_reg_w X27 X27 X1] @
        and_bitmask X27 X27 JIT_L3_MASK64 X1 @ [add_reg X2 X16 X26] @ rest) y Q"
      proof (rule runs_append [OF runs_words [OF e2, where Q = "\<lambda>z. z = y1"]], rule refl, clarify)
        show "runs_to fpu (and_bitmask X27 X27 JIT_L3_MASK64 X1 @ [add_reg X2 X16 X26] @ rest) y1 Q"
        proof (rule runs_append [OF runs_and [where Q = "\<lambda>z. ?P z \<and> xr z 27 = ?b"]], simp, simp, simp, simp)
          fix z assume "temps y1 z" "\<forall>r. r \<noteq> unat (X1 :: u32) \<longrightarrow> xr z r = xr y1 r" "dr z = dr y1"
          then show "?P (set_x (unat (X27 :: u32)) (xr y1 (unat (X27 :: u32)) AND JIT_L3_MASK64) z) \<and>
              xr (set_x (unat (X27 :: u32)) (xr y1 (unat (X27 :: u32)) AND JIT_L3_MASK64) z) 27 = ?b"
            using y by (simp add: y1_def temps_def mix_mask)
        next
          fix z assume z: "?P z \<and> xr z 27 = ?b"
          have e3: "exec_words fpu [add_reg X2 X16 X26] z = Some (set_x 2 (xr s 16 + ?a) z)"
            using z by (simp add: jit_decode put_x_reg get_x_reg)
          show "runs_to fpu ([add_reg X2 X16 X26] @ rest) z Q"
            by (rule runs_append [OF runs_words [OF e3, where Q = "\<lambda>y. y = set_x 2 (xr s 16 + ?a) z"]], rule refl, clarify, rule Q)
              (use z in simp_all)
        qed
      qed
    qed
  qed
qed

section \<open>The integer registers\<close>

text \<open>\<open>r[i] ^= word\<close>, the word from the scratchpad or from the dataset.\<close>

definition mem_only :: "a64_state \<Rightarrow> a64_state \<Rightarrow> bool" where
  "mem_only s s' \<longleftrightarrow> (\<forall>r \<ge> 16. xr s' r = xr s r) \<and> memory s' = memory s"

lemma mem_only_refl: "mem_only s s" and mem_only_trans: "mem_only s s' \<Longrightarrow> mem_only s' s'' \<Longrightarrow> mem_only s s''"
  by (simp_all add: mem_only_def)

lemma mem_only_temps: "temps s s' \<Longrightarrow> mem_only s s'"
  by (simp add: mem_only_def temps_def)

lemma mem_only_frame: "mem_only s s' \<Longrightarrow> turn_frame base s s'"
  by (simp add: mem_only_def turn_frame_def)

lemma runs_xor_word:
  assumes rel: "part_rel kf ke config base m s" and i: "i < 8" and t: "t < 8" "rn < 8" "t \<noteq> rn"
    and w: "load_word s (xr s (unat rn) + of_nat (8 * i)) = Some w"
  shows "runs_to fpu [ldr_imm t rn (of_nat i * 8), eor_reg (r_reg i) (r_reg i) t] s
    (\<lambda>s'. part_rel kf ke config base (upd_r i (reg m i XOR w) m) s' \<and> xr s' (unat rn) = xr s (unat rn) \<and> mem_only s s')"
proof -
  have u: "unat t < 8" "unat rn < 8" "unat t \<noteq> unat rn" "t < 32" "rn < 32"
    using t by (auto simp: word_less_nat_alt word_unat_eq_iff)
  note r = r_reg_props [OF i]
  have x: "xr s (i + 8) = reg m i" using rel i by (simp add: part_rel_def)
  have e1: "exec_words fpu [ldr_imm t rn (of_nat i * 8)] s = Some (set_x (unat t) w s)"
    using scaled_index [OF i, of 0] reg_index [OF i] u w i by (simp add: jit_decode put_x_reg del: of_nat_mult)
  have e2: "exec_words fpu [eor_reg (r_reg i) (r_reg i) t] (set_x (unat t) w s) =
      Some (set_x (i + 8) (reg m i XOR w) (set_x (unat t) w s))"
    using u r i x by (simp add: jit_decode put_x_reg get_x_reg)
  have "part_rel kf ke config base (upd_r i (reg m i XOR w) m) (set_x (i + 8) (reg m i XOR w) (set_x (unat t) w s))"
    by (rule part_set_r [OF part_rel_temps [OF rel] i]) (use u in \<open>simp add: temps_set\<close>)
  then show ?thesis
    by (intro runs_Cons [OF e1] runs_words [OF e2]) (use u i in \<open>simp_all add: mem_only_def\<close>)
qed

lemma runs_xor_line:
  assumes "part_rel kf ke config base m s" "t < 8" "rn < 8" "t \<noteq> rn" "xr s (unat rn) = addr"
    and L: "\<And>i m s' w. i < 8 \<Longrightarrow> part_rel kf ke config base m s' \<Longrightarrow> memory s' = memory s \<Longrightarrow> L m i = Some w \<Longrightarrow>
      load_word s' (addr + of_nat (8 * i)) = Some w"
    and run: "for_each (\<lambda>i m. do { x \<leftarrow> get_r m i; w \<leftarrow> L m i; put_r m i (x XOR w) }) [0..<8] m = Some m'"
    and Q: "\<And>s'. part_rel kf ke config base m' s' \<Longrightarrow> mem_only s s' \<Longrightarrow> runs_to fpu rest s' Q"
  shows "runs_to fpu (concat (map (\<lambda>i. [ldr_imm t rn (of_nat i * 8), eor_reg (r_reg i) (r_reg i) t]) [0..<8]) @ rest) s Q"
proof (rule runs_append)
  show "runs_to fpu (concat (map (\<lambda>i. [ldr_imm t rn (of_nat i * 8), eor_reg (r_reg i) (r_reg i) t]) [0..<8])) s
    (\<lambda>s'. part_rel kf ke config base m' s' \<and> xr s' (unat rn) = addr \<and> mem_only s s')"
  proof (rule runs_for_each [where R = "\<lambda>i m s'. part_rel kf ke config base m s' \<and> xr s' (unat rn) = addr \<and> mem_only s s'", OF _ run])
    fix i m m' s'
    assume i: "i < 8" and R: "part_rel kf ke config base m s' \<and> xr s' (unat rn) = addr \<and> mem_only s s'"
      and st: "(do { x \<leftarrow> get_r m i; w \<leftarrow> L m i; put_r m i (x XOR w) }) = Some m'"
    have ok: "machine_ok m" using R by (simp add: part_rel_def)
    obtain w where w: "L m i = Some w" "m' = upd_r i (reg m i XOR w) m"
      using st get_r_Some [OF ok i] put_upd(1) [OF ok i] by (auto split: Option.bind_splits)
    have "load_word s' (xr s' (unat rn) + of_nat (8 * i)) = Some w"
      using L [OF i _ _ w(1), of s'] R by (simp add: mem_only_def)
    then show "runs_to fpu [ldr_imm t rn (of_nat i * 8), eor_reg (r_reg i) (r_reg i) t] s'
      (\<lambda>s'. part_rel kf ke config base m' s' \<and> xr s' (unat rn) = addr \<and> mem_only s s')"
      using R unfolding w(2)
      by (intro runs_mono [OF runs_xor_word [OF _ i assms(2-4)]]) (auto intro: mem_only_trans)
  qed (use assms(1, 5) mem_only_refl in auto)
qed (use Q in auto)

section \<open>The floating-point registers\<close>

lemma fp_index:
  assumes "i < 4"
  shows "(of_nat i * 8 :: u32) < 4096" "(32 + of_nat i * 8 :: u32) < 4096"
    and "ucast (of_nat i * 8 :: u32) = (of_nat (8 * i) :: u64)" "ucast (32 + of_nat i * 8 :: u32) = (of_nat (8 * (4 + i)) :: u64)"
proof -
  have "i = 0 \<or> i = 1 \<or> i = 2 \<or> i = 3" using assms by arith
  then show "(of_nat i * 8 :: u32) < 4096" "(32 + of_nat i * 8 :: u32) < 4096"
    and "ucast (of_nat i * 8 :: u32) = (of_nat (8 * i) :: u64)" "ucast (32 + of_nat i * 8 :: u32) = (of_nat (8 * (4 + i)) :: u64)"
    by (elim disjE; simp)+
qed

text \<open>The conversion of the two integers at offset \<open>x27 + k\<close>.\<close>

lemma runs_cvt_at:
  assumes rel: "part_rel kf ke config base m s" and k: "imm < 4096" "ucast imm = (of_nat k :: u64)"
    and b: "xr s 27 = of_nat off" and v: "cvt_packed_int_vec_f128 (m_sp m) (off + k) = Some v"
    and Q: "\<And>s'. temps s s' \<Longrightarrow> dr s' 25 = fst v \<Longrightarrow> dr s' 26 = snd v \<Longrightarrow> runs_to fpu rest s' Q"
  shows "runs_to fpu ([add_imm X0 X27 imm] @ emit_cvt_packed_int @ rest) s Q"
proof -
  obtain m' where m': "jit_rel config base m' s" "m_sp m' = m_sp m" using part_rel_some [OF rel] by blast
  define s1 where "s1 = set_x 0 (of_nat (off + k)) s"
  have e: "exec_words fpu [add_imm X0 X27 imm] s = Some s1" using k b by (simp add: jit_decode s1_def)
  have t: "temps s s1" by (simp add: s1_def temps_set)
  show ?thesis
  proof (rule runs_append [OF runs_words [OF e, where Q = "\<lambda>y. y = s1"]], rule refl, clarify,
      rule runs_append [OF runs_cvt [OF temps_rel [OF t m'(1)], where off = "off + k" and v = v]])
    show "cvt_packed_int_vec_f128 (m_sp m') (off + k) = Some v" using v m'(2) by simp
    show "xr s1 0 = of_nat (off + k)" by (simp add: s1_def)
    fix y assume "temps s1 y" "dr y 25 = fst v" "dr y 26 = snd v"
    then show "temps s y \<and> dr y 25 = fst v \<and> dr y 26 = snd v" using temps_trans [OF t] by blast
  next
    fix y assume "temps s y \<and> dr y 25 = fst v \<and> dr y 26 = snd v"
    then show "runs_to fpu rest y Q" using Q by blast
  qed
qed

lemma runs_f_load:
  assumes rel: "part_rel i 0 config base m s" and i: "i < 4" and b: "xr s 27 = of_nat off"
    and st: "(do { v \<leftarrow> cvt_packed_int_vec_f128 (m_sp m) (off + 8 * i); put_f m i v }) = Some m'"
  shows "runs_to fpu ([add_imm X0 X27 (of_nat i * 8)] @ emit_cvt_packed_int @
       [fmov_dd (fst (f_regs i)) D25, fmov_dd (snd (f_regs i)) D26]) s
     (\<lambda>s'. part_rel (Suc i) 0 config base m' s' \<and> mem_only s s')"
proof -
  have ok: "machine_ok m" using rel by (simp add: part_rel_def)
  obtain v where v: "cvt_packed_int_vec_f128 (m_sp m) (off + 8 * i) = Some v" "m' = upd_f i v m"
    using st put_upd(2) [OF ok i] by (auto split: Option.bind_splits)
  note f = pair_regs_props [OF i]
  show ?thesis
  proof (rule runs_cvt_at [OF rel fp_index(1, 3) [OF i] b v(1)])
    fix y assume y: "temps s y" "dr y 25 = fst v" "dr y 26 = snd v"
    let ?z = "set_d (2 * i + 1) (snd v) (set_d (2 * i) (fst v) y)"
    have e1: "exec_words fpu [fmov_dd (fst (f_regs i)) D25] y = Some (set_d (2 * i) (fst v) y)"
      using f y by (simp add: jit_decode)
    have e2: "exec_words fpu [fmov_dd (snd (f_regs i)) D26] (set_d (2 * i) (fst v) y) = Some ?z"
      using f y i by (simp add: jit_decode)
    have "part_rel (Suc i) 0 config base (upd_f i v m) ?z"
      using part_set_f [OF part_rel_temps [OF rel y(1)] i, of "fst v" "snd v"] by simp
    then show "runs_to fpu [fmov_dd (fst (f_regs i)) D25, fmov_dd (snd (f_regs i)) D26] y
        (\<lambda>s'. part_rel (Suc i) 0 config base m' s' \<and> mem_only s s')"
      unfolding v(2)
      by (intro runs_Cons [OF e1] runs_words [OF e2]) (use mem_only_temps [OF y(1)] in \<open>simp add: mem_only_def\<close>)
  qed
qed

lemma runs_e_load:
  assumes rel: "part_rel 4 i config base m s" and i: "i < 4" and b: "xr s 27 = of_nat off"
    and st: "(do { v \<leftarrow> cvt_packed_int_vec_f128 (m_sp m) (off + 8 * (4 + i));
      put_e m i (mask_register_exponent_mantissa config v) }) = Some m'"
  shows "runs_to fpu ([add_imm X0 X27 (32 + of_nat i * 8)] @ emit_cvt_packed_int @
       emit_mask_lane D25 X19 (fst (e_regs i)) @ emit_mask_lane D26 X20 (snd (e_regs i))) s
     (\<lambda>s'. part_rel 4 (Suc i) config base m' s' \<and> mem_only s s')"
proof -
  have ok: "machine_ok m" and c: "consts_rel config base s" using rel by (simp_all add: part_rel_def)
  obtain v where v: "cvt_packed_int_vec_f128 (m_sp m) (off + 8 * (4 + i)) = Some v"
    "m' = upd_e i (mask_register_exponent_mantissa config v) m"
    using st put_upd(3) [OF ok i] by (auto split: Option.bind_splits)
  note e = pair_regs_props [OF i]
  let ?v = "mask_register_exponent_mantissa config v"
  show ?thesis
  proof (rule runs_cvt_at [OF rel fp_index(2, 4) [OF i] b v(1)])
    fix y assume y: "temps s y" "dr y 25 = fst v" "dr y 26 = snd v"
    have c': "xr y 19 = fst (e_mask config)" "xr y 20 = snd (e_mask config)"
      using c y(1) by (simp_all add: consts_rel_def temps_def)
    have cong: "temps s z \<Longrightarrow> temps (set_d (2 * i + 8) w s) (set_d (2 * i + 8) w z)" for z w by (simp add: temps_def)
    show "runs_to fpu (emit_mask_lane D25 X19 (fst (e_regs i)) @ emit_mask_lane D26 X20 (snd (e_regs i))) y
        (\<lambda>s'. part_rel 4 (Suc i) config base m' s' \<and> mem_only s s')"
    proof (rule runs_append [OF runs_mask_lane [where
          Q = "\<lambda>z. \<exists>x. z = set_d (2 * i + 8) (fst ?v) x \<and> temps s x \<and> dr x 26 = snd v"]])
      fix x assume "temps y x" "dr x = dr y"
      then show "\<exists>x'. set_d (unat (fst (e_regs i))) (dr y (unat (D25 :: u32)) AND DYNAMIC_MANTISSA_MASK OR xr y (unat (X19 :: u32))) x =
          set_d (2 * i + 8) (fst ?v) x' \<and> temps s x' \<and> dr x' 26 = snd v"
        using e y c' temps_trans [OF y(1)] by (intro exI [where x = x]) (simp add: mask_register_exponent_mantissa_def)
    next
      fix z assume "\<exists>x. z = set_d (2 * i + 8) (fst ?v) x \<and> temps s x \<and> dr x 26 = snd v"
      then obtain x where x: "z = set_d (2 * i + 8) (fst ?v) x" "temps s x" "dr x 26 = snd v" by blast
      have c'': "xr z 20 = snd (e_mask config)" using x c by (simp add: consts_rel_def temps_def)
      show "runs_to fpu (emit_mask_lane D26 X20 (snd (e_regs i))) z (\<lambda>s'. part_rel 4 (Suc i) config base m' s' \<and> mem_only s s')"
      proof (rule runs_mask_lane)
        fix u assume u: "temps z u" "dr u = dr z"
        define x' where "x' = set_d (2 * i + 8) (dr x (2 * i + 8)) u"
        have x': "temps s x'" "set_d (2 * i + 8) (fst ?v) x' = u"
          using u x by (auto simp: x'_def temps_def set_d_def)
        have d26: "dr z 26 = snd v" using x(1, 3) i by simp
        have z: "set_d (unat (snd (e_regs i))) (dr z (unat (D26 :: u32)) AND DYNAMIC_MANTISSA_MASK OR xr z (unat (X20 :: u32))) u =
            set_d (2 * i + 9) (snd ?v) (set_d (2 * i + 8) (fst ?v) x')"
          using e d26 c'' by (subst x'(2)) (simp add: mask_register_exponent_mantissa_def)
        have "part_rel 4 (Suc i) config base (upd_e i ?v m) (set_d (2 * i + 9) (snd ?v) (set_d (2 * i + 8) (fst ?v) x'))"
          using part_set_e [OF part_rel_temps [OF rel x'(1)] i, of "fst ?v" "snd ?v"] by simp
        moreover have "mem_only s (set_d (2 * i + 9) (snd ?v) (set_d (2 * i + 8) (fst ?v) x'))"
          using mem_only_temps [OF x'(1)] by (simp add: mem_only_def)
        ultimately show "part_rel 4 (Suc i) config base m' (set_d (unat (snd (e_regs i)))
            (dr z (unat (D26 :: u32)) AND DYNAMIC_MANTISSA_MASK OR xr z (unat (X20 :: u32))) u) \<and>
          mem_only s (set_d (unat (snd (e_regs i))) (dr z (unat (D26 :: u32)) AND DYNAMIC_MANTISSA_MASK OR xr z (unat (X20 :: u32))) u)"
          unfolding z v(2) by blast
      qed (use e in simp_all)
    qed (use e in simp_all)
  qed
qed

section \<open>Before the body\<close>

lemma ucast_unat: "ucast (a :: u32) = (of_nat (unat a) :: u64)"
  by simp

lemma runs_iteration_pre:
  assumes rel: "part_rel 0 0 config base m s" and vars: "vars_at ls s" and c: "config_ok config"
    and run: "load_registers config ls m = Some (m', ls')"
  shows "runs_to fpu (emit_iteration_pre config) s
    (\<lambda>s'. jit_rel config base m' s' \<and> vars_at ls' s' \<and> turn_frame base s s')"
proof -
  have ok: "machine_ok m" and b: "xr s 16 = base" using rel by (simp_all add: part_rel_def consts_rel_def)
  have q: "read_reg0 config < 8" "read_reg1 config < 8" using c by (simp_all add: config_ok_def)
  define mix where "mix = reg m (read_reg0 config) XOR reg m (read_reg1 config)"
  have mix: "mix = xr s (read_reg0 config + 8) XOR xr s (read_reg1 config + 8)"
    using rel q by (simp add: part_rel_def mix_def)
  define a0 where "a0 = (ls_sp_addr0 ls XOR ucast mix) AND SCRATCHPAD_L3_MASK64"
  define a1 where "a1 = (ls_sp_addr1 ls XOR ucast (drop_bit 32 mix)) AND SCRATCHPAD_L3_MASK64"
  let ?F = "\<lambda>i m. do { v \<leftarrow> cvt_packed_int_vec_f128 (m_sp m) (unat a1 + 8 * i); put_f m i v }"
  let ?E = "\<lambda>i m. do { v \<leftarrow> cvt_packed_int_vec_f128 (m_sp m) (unat a1 + 8 * (4 + i));
      put_e m i (mask_register_exponent_mantissa config v) }"
  obtain m1 m2 where m: "for_each (\<lambda>i m. do { x \<leftarrow> get_r m i; w \<leftarrow> load64 (m_sp m) (unat a0 + 8 * i); put_r m i (x XOR w) }) [0..<8] m = Some m1"
      "for_each ?F [0..<4] m1 = Some m2" "for_each ?E [0..<4] m2 = Some m'"
    and ls': "ls' = ls\<lparr>ls_sp_addr0 := a0, ls_sp_addr1 := a1\<rparr>"
    using run get_r_Some [OF ok q(1)] get_r_Some [OF ok q(2)]
    unfolding load_registers_def Let_def reg_counts a0_def a1_def mix_def
    by (auto split: Option.bind_splits)
  define I where "I s' \<longleftrightarrow> xr s' 27 = of_nat (unat a1) \<and> vars_at ls' s' \<and> turn_frame base s s'" for s'
  have I27: "xr s' 27 = of_nat (unat a1)" if "I s'" for s' using that by (simp add: I_def)
  have inv: "I s''" if "I s'" "mem_only s' s''" for s' s''
    using that turn_frame_trans mem_only_frame by (auto simp: I_def vars_at_def mem_only_def)
  show ?thesis
    unfolding emit_iteration_pre_def
  proof (rule runs_addresses [OF q _ _ mix])
    show "xr s 26 = ucast (ls_sp_addr0 ls)" "xr s 27 = ucast (ls_sp_addr1 ls)" using vars by (simp_all add: vars_at_def)
    fix s1 :: a64_state
    assume s1: "\<forall>r. 8 \<le> r \<and> r \<noteq> 26 \<and> r \<noteq> 27 \<longrightarrow> xr s1 r = xr s r" "dr s1 = dr s" "fpcr s1 = fpcr s" "memory s1 = memory s"
      "xr s1 26 = ucast ((ls_sp_addr0 ls XOR ucast mix) AND SCRATCHPAD_L3_MASK64)"
      "xr s1 27 = ucast ((ls_sp_addr1 ls XOR ucast (drop_bit 32 mix)) AND SCRATCHPAD_L3_MASK64)"
      "xr s1 2 = xr s 16 + ucast ((ls_sp_addr0 ls XOR ucast mix) AND SCRATCHPAD_L3_MASK64)"
    have rel1: "part_rel 0 0 config base m s1" using rel s1(1-4) by (simp add: part_rel_def consts_rel_def pair_at_def)
    have i1: "I s1" using vars s1 by (auto simp: I_def vars_at_def turn_frame_def ls' a0_def [symmetric] a1_def [symmetric])
    have x2: "xr s1 (unat (X2 :: u32)) = base + of_nat (unat a0)" using s1(7) b by (simp add: a0_def [symmetric])
    show "runs_to fpu (concat (map (\<lambda>i. [ldr_imm X3 X2 (of_nat i * 8), eor_reg (r_reg i) (r_reg i) X3]) [0..<8]) @
      concat (map (\<lambda>i. [add_imm X0 X27 (of_nat i * 8)] @ emit_cvt_packed_int @
        [fmov_dd (fst (f_regs i)) D25, fmov_dd (snd (f_regs i)) D26]) [0..<4]) @
      concat (map (\<lambda>i. [add_imm X0 X27 (32 + of_nat i * 8)] @ emit_cvt_packed_int @
        emit_mask_lane D25 X19 (fst (e_regs i)) @ emit_mask_lane D26 X20 (snd (e_regs i))) [0..<4])) s1
      (\<lambda>s'. jit_rel config base m' s' \<and> vars_at ls' s' \<and> turn_frame base s s')"
    proof (rule runs_xor_line [OF rel1 _ _ _ x2 _ m(1)])
      fix i m s' w
      assume "part_rel 0 0 config base m s'" and l: "load64 (m_sp m) (unat a0 + 8 * i) = Some w"
      then obtain m' where "jit_rel config base m' s'" "m_sp m' = m_sp m" using part_rel_some by blast
      then have "load_word s' (base + of_nat (unat a0 + 8 * i)) = Some w" using rel_load64 l by metis
      then show "load_word s' (base + of_nat (unat a0) + of_nat (8 * i)) = Some w" by (simp add: add.assoc)
    next
      fix s2 assume s2: "part_rel 0 0 config base m1 s2" "mem_only s1 s2"
      show "runs_to fpu (concat (map (\<lambda>i. [add_imm X0 X27 (of_nat i * 8)] @ emit_cvt_packed_int @
          [fmov_dd (fst (f_regs i)) D25, fmov_dd (snd (f_regs i)) D26]) [0..<4]) @
        concat (map (\<lambda>i. [add_imm X0 X27 (32 + of_nat i * 8)] @ emit_cvt_packed_int @
          emit_mask_lane D25 X19 (fst (e_regs i)) @ emit_mask_lane D26 X20 (snd (e_regs i))) [0..<4])) s2
        (\<lambda>s'. jit_rel config base m' s' \<and> vars_at ls' s' \<and> turn_frame base s s')"
      proof (rule runs_append [OF runs_for_each [where R = "\<lambda>i m s'. part_rel i 0 config base m s' \<and> I s'", OF _ m(2)]])
        fix i m m' s' assume i: "i < 4" and R: "part_rel i 0 config base m s' \<and> I s'" and st: "?F i m = Some m'"
        show "runs_to fpu ([add_imm X0 X27 (of_nat i * 8)] @ emit_cvt_packed_int @
            [fmov_dd (fst (f_regs i)) D25, fmov_dd (snd (f_regs i)) D26]) s' (\<lambda>s'. part_rel (Suc i) 0 config base m' s' \<and> I s')"
          by (rule runs_mono [OF runs_f_load [OF conjunct1 [OF R] i I27 [OF conjunct2 [OF R]] st]])
            (blast intro: inv conjunct2 [OF R])
      next
        show "part_rel 0 0 config base m1 s2 \<and> I s2" using s2 inv [OF i1] by blast
      next
        fix s3 assume "part_rel 4 0 config base m2 s3 \<and> I s3"
        then show "runs_to fpu (concat (map (\<lambda>i. [add_imm X0 X27 (32 + of_nat i * 8)] @ emit_cvt_packed_int @
            emit_mask_lane D25 X19 (fst (e_regs i)) @ emit_mask_lane D26 X20 (snd (e_regs i))) [0..<4])) s3
          (\<lambda>s'. jit_rel config base m' s' \<and> vars_at ls' s' \<and> turn_frame base s s')"
        proof (intro runs_mono [OF runs_for_each [where R = "\<lambda>i m s'. part_rel 4 i config base m s' \<and> I s'", OF _ m(3)]])
          fix i m m' s' assume i: "i < 4" and R: "part_rel 4 i config base m s' \<and> I s'" and st: "?E i m = Some m'"
          show "runs_to fpu ([add_imm X0 X27 (32 + of_nat i * 8)] @ emit_cvt_packed_int @
              emit_mask_lane D25 X19 (fst (e_regs i)) @ emit_mask_lane D26 X20 (snd (e_regs i))) s'
              (\<lambda>s'. part_rel 4 (Suc i) config base m' s' \<and> I s')"
            by (rule runs_mono [OF runs_e_load [OF conjunct1 [OF R] i I27 [OF conjunct2 [OF R]] st]])
              (blast intro: inv conjunct2 [OF R])
        qed (auto simp: part_rel_full I_def)
      qed
    qed simp_all
  qed
qed

end
