(* ===== verification/Jit_Iter2.thy ===== *)
theory Jit_Iter2
  imports Jit_Iter
begin

text \<open>
  The second half of an iteration of the native loop (\<open>emit_iteration_post\<close> in
  \<open>src/randomx/jit/compiler.rs\<close>): the dataset item, the swap of \<open>mx\<close> and \<open>ma\<close>, and the stores.
\<close>

section \<open>The dataset in memory\<close>

definition ds_at :: "(u64 \<Rightarrow> u8 option) \<Rightarrow> u64 \<Rightarrow> (u64 \<Rightarrow> u64 list option) \<Rightarrow> bool" where
  "ds_at mem d item \<longleftrightarrow> (\<forall>k line. item k = Some line \<longrightarrow> length line = 8 \<and> region mem (d + 64 * k) line)"

lemma rel_regs:
  assumes "jit_rel config base m s" "\<forall>r. 8 \<le> r \<and> r \<le> 20 \<longrightarrow> xr s' r = xr s r" "\<forall>q \<le> 24. dr s' q = dr s q"
    and "fpcr s' = fpcr s" "memory s' = memory s"
  shows "jit_rel config base m s'"
  using assms by (simp add: jit_rel_def consts_rel_def pair_at_def)

lemma align_mask: "CACHE_LINE_ALIGN_MASK64 = ucast CACHE_LINE_ALIGN_MASK"
  by (simp add: CACHE_LINE_ALIGN_MASK64_def CACHE_LINE_ALIGN_MASK_def)

text \<open>Reading an aligned pointer is reading an item.\<close>

lemma aligned_item:
  assumes "64 dvd unat (d :: u64)" "offset_ok d"
  shows "d + (ucast (ma :: u32) AND ucast CACHE_LINE_ALIGN_MASK) =
     64 * ((d + (ucast ma AND ucast CACHE_LINE_ALIGN_MASK)) div of_nat CACHE_LINE_SIZE)"
proof -
  let ?a = "ucast ma AND ucast CACHE_LINE_ALIGN_MASK :: u64"
  have le: "unat ?a \<le> 0x7FFFFFC0"
    using unat_and_le [of "ucast ma" "ucast CACHE_LINE_ALIGN_MASK :: u64"]
    by (simp add: CACHE_LINE_ALIGN_MASK_def)
  have "?a AND mask 6 = 0"
  proof -
    have "(ucast CACHE_LINE_ALIGN_MASK :: u64) AND mask 6 = 0"
      by (simp add: CACHE_LINE_ALIGN_MASK_def mask_eq_exp_minus_1)
    then show ?thesis by (simp add: and.assoc)
  qed
  then have "take_bit 6 ?a = 0" by (simp add: take_bit_eq_mask)
  then have "unat (take_bit 6 ?a) = 0" by simp
  then have dv: "64 dvd unat ?a" by (simp add: take_bit_eq_mod unat_mod dvd_eq_mod_eq_0)
  have s: "unat (d + ?a) = unat d + unat ?a"
    using le assms(2) by (subst unat_add_lem [THEN iffD1]) (simp_all add: offset_ok_def)
  have "64 dvd unat (d + ?a)" using dv assms(1) s by (simp add: dvd_add)
  then have "64 * (unat (d + ?a) div 64) = unat (d + ?a)" by simp
  then have "unat (64 * ((d + ?a) div 64)) = unat (d + ?a)"
    by (simp add: unat_word_ariths unat_div mod_less)
  then show ?thesis by (simp add: word_unat_eq_iff CACHE_LINE_SIZE_def)
qed

section \<open>Reading the dataset\<close>

lemma runs_post_head:
  assumes rel: "jit_rel config base m s" and vars: "vars_at ls s" and q: "q2 < 8" "q3 < 8"
    and Q: "\<And>s'. jit_rel config base m s' \<Longrightarrow> turn_frame base s s' \<Longrightarrow>
      vars_at (ls\<lparr>ls_mx := ls_mx ls XOR ucast (reg m q2 XOR reg m q3)\<rparr>) s' \<Longrightarrow>
      xr s' 0 = xr s 22 + (ucast (ls_ma ls) AND ucast CACHE_LINE_ALIGN_MASK) \<Longrightarrow> memory s' = memory s \<Longrightarrow>
      runs_to fpu rest s' Q"
  shows "runs_to fpu (and_bitmask X0 X24 CACHE_LINE_ALIGN_MASK64 X1 @
     [add_reg X0 X22 X0, eor_reg X1 (r_reg q2) (r_reg q3), eor_reg_w X25 X25 X1] @ rest) s Q"
proof -
  note r = r_reg_props [OF q(1)] r_reg_props [OF q(2)]
  let ?p = "ucast (ls_ma ls) AND ucast CACHE_LINE_ALIGN_MASK :: u64"
  show ?thesis
  proof (rule runs_append [OF runs_and [where Q = "\<lambda>y. temps s y \<and> xr y 0 = ?p"]], simp, simp, simp, simp)
    fix y assume "temps s y"
    then show "temps s (set_x (unat (X0 :: u32)) (xr s (unat (X24 :: u32)) AND CACHE_LINE_ALIGN_MASK64) y) \<and>
        xr (set_x (unat (X0 :: u32)) (xr s (unat (X24 :: u32)) AND CACHE_LINE_ALIGN_MASK64) y) 0 = ?p"
      using vars by (simp add: temps_set align_mask vars_at_def)
  next
    fix y assume y: "temps s y \<and> xr y 0 = ?p"
    have xs: "xr y (q2 + 8) = reg m q2" "xr y (q3 + 8) = reg m q3" "xr y 22 = xr s 22" "xr y 25 = ucast (ls_mx ls)"
      using y rel q vars by (simp_all add: temps_def jit_rel_def vars_at_def)
    let ?mix = "reg m q2 XOR reg m q3"
    let ?z = "set_x 25 (ucast (ls_mx ls XOR ucast ?mix)) (set_x 1 ?mix (set_x 0 (xr s 22 + ?p) y))"
    have u: "(ucast (ucast (a :: u32) :: u64) :: u32) = a" for a by (rule bit_word_eqI) (simp add: bit_simps)
    have e: "exec_words fpu [add_reg X0 X22 X0, eor_reg X1 (r_reg q2) (r_reg q3), eor_reg_w X25 X25 X1] y = Some ?z"
      using xs r q y by (simp add: jit_decode put_x_reg get_x_reg u)
    have z: "jit_rel config base m ?z" "turn_frame base s ?z"
      by (rule rel_regs [OF rel]; use y in \<open>simp add: temps_def\<close>) (use y in \<open>simp add: temps_def turn_frame_def\<close>)
    show "runs_to fpu ([add_reg X0 X22 X0, eor_reg X1 (r_reg q2) (r_reg q3), eor_reg_w X25 X25 X1] @ rest) y Q"
      by (rule runs_append [OF runs_words [OF e, where Q = "\<lambda>x. x = ?z"]], rule refl, clarify, rule Q [OF z])
        (use y vars in \<open>simp_all add: vars_at_def temps_def\<close>)
  qed
qed

lemma mix_V1:
  assumes "machine_ok m" "config_ok config"
    and "mix_dataset V1 item config d ls m = Some (m', ls')"
  shows "\<exists>line. item ((d + (ucast (ls_ma ls) AND ucast CACHE_LINE_ALIGN_MASK)) div of_nat CACHE_LINE_SIZE) = Some line \<and>
    for_each (\<lambda>i m. do { x \<leftarrow> get_r m i; w \<leftarrow> at_index line i; put_r m i (x XOR w) }) [0..<8] m = Some m' \<and>
    ls' = ls\<lparr>ls_ma := ls_mx ls XOR ucast (reg m (read_reg2 config) XOR reg m (read_reg3 config)), ls_mx := ls_ma ls\<rparr>"
  using assms get_r_Some [OF assms(1)]
  by (auto simp: mix_dataset_def Let_def config_ok_def reg_counts split: Option.bind_splits)

text \<open>The three moves, the prefetch, and the address of the first stores.\<close>

lemma runs_swap_vars:
  assumes rel: "jit_rel config base m s" and vars: "vars_at ls s"
    and Q: "\<And>s'. jit_rel config base m s' \<Longrightarrow> turn_frame base s s' \<Longrightarrow>
      vars_at (ls\<lparr>ls_ma := ls_mx ls, ls_mx := ls_ma ls\<rparr>) s' \<Longrightarrow>
      xr s' 0 = base + of_nat (unat (ls_sp_addr1 ls)) \<Longrightarrow> runs_to fpu rest s' Q"
  shows "runs_to fpu ([mov_reg X1 X24, mov_reg X24 X25, mov_reg X25 X1] @
     and_bitmask X0 X24 CACHE_LINE_ALIGN_MASK64 X1 @ [prfm_reg X22 X0] @ [add_reg X0 X16 X27] @ rest) s Q"
proof -
  let ?y = "set_x 25 (xr s 24) (set_x 24 (xr s 25) (set_x 1 (xr s 24) s))"
  have e: "exec_words fpu [mov_reg X1 X24, mov_reg X24 X25, mov_reg X25 X1] s = Some ?y"
    by (simp add: jit_decode put_x_reg get_x_reg)
  show ?thesis
  proof (rule runs_append [OF runs_words [OF e, where Q = "\<lambda>x. x = ?y"]], rule refl, clarify,
      rule runs_append [OF runs_and [where Q = "temps ?y"]], simp, simp, simp, simp)
    show "temps ?y y \<Longrightarrow> temps ?y (set_x (unat (X0 :: u32)) v y)" for v y by (simp add: temps_set)
  next
    fix z assume z: "temps ?y z"
    let ?u = "set_x 0 (base + of_nat (unat (ls_sp_addr1 ls))) z"
    have b: "xr z 16 = base" "xr z 27 = of_nat (unat (ls_sp_addr1 ls))"
      using z rel vars by (simp_all add: temps_def jit_rel_def consts_rel_def vars_at_def)
    have e2: "exec_words fpu [prfm_reg X22 X0] z = Some z" by (simp add: jit_decode)
    have e3: "exec_words fpu [add_reg X0 X16 X27] z = Some ?u"
      using b by (simp add: jit_decode put_x_reg get_x_reg)
    have u: "jit_rel config base m ?u" "turn_frame base s ?u"
      by (rule rel_regs [OF rel]; use z in \<open>simp add: temps_def\<close>) (use z in \<open>simp add: temps_def turn_frame_def\<close>)
    show "runs_to fpu ([prfm_reg X22 X0] @ [add_reg X0 X16 X27] @ rest) z Q"
      by (rule runs_append [OF runs_words [OF e2, where Q = "\<lambda>x. x = z"]], rule refl, clarify,
          rule runs_append [OF runs_words [OF e3, where Q = "\<lambda>x. x = ?u"]], rule refl, clarify, rule Q [OF u])
        (use z vars in \<open>simp_all add: vars_at_def temps_def\<close>)
  qed
qed

section \<open>The stores\<close>

lemma map_words: "map f [0..<n] = concat (map (\<lambda>i. [f i]) [0..<n])"
  by (simp add: concat_map_singleton)

text \<open>What the loops keep: the addresses and words of the loop in the registers.\<close>

definition at_addr :: "u64 \<Rightarrow> loop_state \<Rightarrow> u64 \<Rightarrow> a64_state \<Rightarrow> a64_state \<Rightarrow> bool" where
  "at_addr base ls a s s' \<longleftrightarrow> turn_frame base s s' \<and> vars_at ls s' \<and> xr s' 0 = a"

lemma at_addr_mem: "at_addr base ls a s s' \<Longrightarrow> jit_frame base s' (set_mem mem s') \<Longrightarrow> at_addr base ls a s (set_mem mem s')"
  using turn_frame_trans jit_turn_frame by (auto simp: at_addr_def vars_at_def)

lemma runs_store_r:
  assumes rel: "jit_rel config base m s" and i: "i < 8" and a: "xr s 0 = base + of_nat off"
    and st: "(do { v \<leftarrow> get_r m i; set_sp m (store64 (m_sp m) (off + 8 * i) v) }) = Some m'"
  shows "runs_to fpu [str_imm (r_reg i) X0 (of_nat i * 8)] s
    (\<lambda>s'. jit_rel config base m' s' \<and> (\<exists>mem. s' = set_mem mem s \<and> jit_frame base s s'))"
proof -
  have g: "get_r m i = Some (xr s (i + 8))" by (rule rel_get(1) [OF rel i])
  obtain sp where sp: "store64 (m_sp m) (off + 8 * i) (xr s (i + 8)) = Some sp" "m' = m\<lparr>m_sp := sp\<rparr>"
    using st g by (auto simp: set_sp_def)
  obtain mem where mem: "store_word (base + of_nat (off + 8 * i)) (xr s (i + 8)) s = Some (set_mem mem s)"
    "jit_rel config base m' (set_mem mem s)" "jit_frame base s (set_mem mem s)"
    using rel_store64 [OF rel sp(1)] sp(2) by blast
  have ad: "base + of_nat (off + 8 * i) = base + of_nat off + of_nat (8 * i)" by simp
  have "exec_words fpu [str_imm (r_reg i) X0 (of_nat i * 8)] s = Some (set_mem mem s)"
    using mem(1) [unfolded ad] a r_reg_props [OF i] scaled_index [OF i, of 0] reg_index [OF i] i
    by (simp add: jit_decode get_x_reg del: of_nat_mult of_nat_add)
  then show ?thesis by (rule runs_words) (use mem in blast)
qed

lemma runs_store_rs:
  assumes rel: "jit_rel config base m s" and v: "at_addr base ls (base + of_nat off) s0 s"
    and run: "for_each (\<lambda>i m. do { v \<leftarrow> get_r m i; set_sp m (store64 (m_sp m) (off + 8 * i) v) }) [0..<8] m = Some m'"
  shows "runs_to fpu (map (\<lambda>i. str_imm (r_reg i) X0 (of_nat i * 8)) [0..<8]) s
    (\<lambda>s'. jit_rel config base m' s' \<and> at_addr base ls (base + of_nat off) s0 s')"
proof (subst map_words, rule runs_for_each [where R = "\<lambda>i m s'. jit_rel config base m s' \<and> at_addr base ls (base + of_nat off) s0 s'", OF _ run])
  fix i m m' s'
  assume i: "i < 8" and R: "jit_rel config base m s' \<and> at_addr base ls (base + of_nat off) s0 s'"
    and st: "(do { v \<leftarrow> get_r m i; set_sp m (store64 (m_sp m) (off + 8 * i) v) }) = Some m'"
  have a: "xr s' 0 = base + of_nat off" using R by (simp add: at_addr_def)
  show "runs_to fpu [str_imm (r_reg i) X0 (of_nat i * 8)] s'
    (\<lambda>s'. jit_rel config base m' s' \<and> at_addr base ls (base + of_nat off) s0 s')"
    by (rule runs_mono [OF runs_store_r [OF conjunct1 [OF R] i a st]]) (use R at_addr_mem in blast)
qed (use rel v in blast)

lemma runs_mix_fe:
  assumes rel: "jit_rel config base m s" and i: "i < 4"
    and st: "(do { f \<leftarrow> get_f m i; e \<leftarrow> get_e m i; put_f m i (xor_f128 f e) }) = Some m'"
  shows "runs_to fpu (emit_pair_op eor_v8b (f_regs i) (e_regs i)) s
    (\<lambda>s'. jit_rel config base m' s' \<and> xr s' = xr s \<and> memory s' = memory s)"
proof -
  have ok: "machine_ok m" and k: "fpcr s = rx_fpcr (m_rm m)" "m_rm m < 4" using rel by (simp_all add: jit_rel_def)
  have m': "m' = upd_f i (dr s (2 * i) XOR dr s (2 * i + 8), dr s (2 * i + 1) XOR dr s (2 * i + 9)) m"
    using st rel_get(2, 3) [OF rel i] put_upd(2) [OF ok i] by (simp add: xor_f128_def)
  show ?thesis
    unfolding m' by (rule runs_pair [OF pair_ops(5) k]) (use pair_regs_props [OF i] rel_set_f [OF rel i] in simp_all)
qed

lemma pair_index:
  assumes "i < 4"
  shows "imm7 (int i * 16) < 128" "offset7 (imm7 (int i * 16)) = of_nat (16 * i)"
proof -
  have "i = 0 \<or> i = 1 \<or> i = 2 \<or> i = 3" using assms by arith
  moreover have "imm7 0 < 128" "imm7 16 < 128" "imm7 32 < 128" "imm7 48 < 128"
    "offset7 (imm7 0) = 0" "offset7 (imm7 16) = 16" "offset7 (imm7 32) = 32" "offset7 (imm7 48) = 48" by code_simp+
  ultimately show "imm7 (int i * 16) < 128" "offset7 (imm7 (int i * 16)) = of_nat (16 * i)"
    by (elim disjE; simp)+
qed

lemma runs_store_f:
  assumes rel: "jit_rel config base m s" and i: "i < 4" and a: "xr s 0 = base + of_nat off"
    and st: "(do { f \<leftarrow> get_f m i; set_sp m (store_f128 (m_sp m) (off + 16 * i) f) }) = Some m'"
  shows "runs_to fpu [stp_fp_imm (fst (f_regs i)) (snd (f_regs i)) X0 (int i * 16)] s
    (\<lambda>s'. jit_rel config base m' s' \<and> (\<exists>mem. s' = set_mem mem s \<and> jit_frame base s s'))"
proof -
  have g: "get_f m i = Some (dr s (2 * i), dr s (2 * i + 1))" by (rule rel_get(2) [OF rel i])
  obtain sp sp' where sp: "store64 (m_sp m) (off + 16 * i) (dr s (2 * i)) = Some sp"
    "store64 sp (off + 16 * i + 8) (dr s (2 * i + 1)) = Some sp'" "m' = m\<lparr>m_sp := sp'\<rparr>"
    using st g by (auto simp: set_sp_def store_f128_def split: Option.bind_splits)
  obtain mem where mem: "store_word (base + of_nat (off + 16 * i)) (dr s (2 * i)) s = Some (set_mem mem s)"
    "jit_rel config base (m\<lparr>m_sp := sp\<rparr>) (set_mem mem s)" "jit_frame base s (set_mem mem s)"
    using rel_store64 [OF rel sp(1)] by blast
  have "store64 (m_sp (m\<lparr>m_sp := sp\<rparr>)) (off + 16 * i + 8) (dr s (2 * i + 1)) = Some sp'" using sp(2) by simp
  from rel_store64 [OF mem(2) this] obtain mem' where
    mem': "store_word (base + of_nat (off + 16 * i + 8)) (dr s (2 * i + 1)) (set_mem mem s) = Some (set_mem mem' (set_mem mem s))"
    "jit_rel config base m' (set_mem mem' (set_mem mem s))" "jit_frame base (set_mem mem s) (set_mem mem' (set_mem mem s))"
    using sp(3) by auto
  have ad: "base + of_nat off + of_nat (16 * i) = base + of_nat (off + 16 * i)"
    "base + of_nat (off + 16 * i) + 8 = base + of_nat (off + 16 * i + 8)" by simp_all
  have "exec_words fpu [stp_fp_imm (fst (f_regs i)) (snd (f_regs i)) X0 (int i * 16)] s = Some (set_mem mem' s)"
    using mem(1) mem'(1) a pair_regs_props [OF i] pair_index [OF i]
    by (simp add: jit_decode ad set_mem_set_mem del: of_nat_mult of_nat_add)
  moreover have "jit_frame base s (set_mem mem' s)"
    using jit_frame_trans [OF mem(3) mem'(3)] by (simp add: set_mem_set_mem)
  ultimately show ?thesis using mem'(2) by (intro runs_words) (auto simp: set_mem_set_mem)
qed

lemma runs_store_fs:
  assumes rel: "jit_rel config base m s" and v: "at_addr base ls (base + of_nat off) s0 s"
    and run: "for_each (\<lambda>i m. do { f \<leftarrow> get_f m i; set_sp m (store_f128 (m_sp m) (off + 16 * i) f) }) [0..<4] m = Some m'"
  shows "runs_to fpu (map (\<lambda>i. stp_fp_imm (fst (f_regs i)) (snd (f_regs i)) X0 (int i * 16)) [0..<4]) s
    (\<lambda>s'. jit_rel config base m' s' \<and> at_addr base ls (base + of_nat off) s0 s')"
proof (subst map_words, rule runs_for_each [where R = "\<lambda>i m s'. jit_rel config base m s' \<and> at_addr base ls (base + of_nat off) s0 s'", OF _ run])
  fix i m m' s'
  assume i: "i < 4" and R: "jit_rel config base m s' \<and> at_addr base ls (base + of_nat off) s0 s'"
    and st: "(do { f \<leftarrow> get_f m i; set_sp m (store_f128 (m_sp m) (off + 16 * i) f) }) = Some m'"
  have a: "xr s' 0 = base + of_nat off" using R by (simp add: at_addr_def)
  show "runs_to fpu [stp_fp_imm (fst (f_regs i)) (snd (f_regs i)) X0 (int i * 16)] s'
    (\<lambda>s'. jit_rel config base m' s' \<and> at_addr base ls (base + of_nat off) s0 s')"
    by (rule runs_mono [OF runs_store_f [OF conjunct1 [OF R] i a st]]) (use R at_addr_mem in blast)
qed (use rel v in blast)

section \<open>After the body\<close>

lemma runs_post_tail:
  assumes rel: "jit_rel config base m s" and vars: "vars_at ls s" and q: "q0 < 8" "q1 < 8"
  shows "runs_to fpu ([eor_reg X0 (r_reg q0) (r_reg q1)] @
     and_bitmask X1 X0 JIT_L3_MASK64 X2 @ [prfm_reg X16 X1, lsr_imm X1 X0 32] @
     and_bitmask X1 X1 JIT_L3_MASK64 X2 @ [prfm_reg X16 X1] @ [movz X26 0 0, movz X27 0 0]) s
   (\<lambda>s'. jit_rel config base m s' \<and> vars_at (ls\<lparr>ls_sp_addr0 := 0, ls_sp_addr1 := 0\<rparr>) s' \<and> turn_frame base s s')"
proof -
  note r = r_reg_props [OF q(1)] r_reg_props [OF q(2)]
  have e1: "exec_words fpu [eor_reg X0 (r_reg q0) (r_reg q1)] s = Some (set_x 0 (xr s (q0 + 8) XOR xr s (q1 + 8)) s)"
    using r q by (simp add: jit_decode put_x_reg get_x_reg)
  show ?thesis
  proof (rule runs_append [OF runs_words [OF e1, where Q = "temps s"]], simp add: temps_set,
      rule runs_append [OF runs_and [where Q = "temps s"]], simp, simp, simp, simp)
    show "temps s x \<Longrightarrow> temps x y \<Longrightarrow> temps s (set_x (unat (X1 :: u32)) v y)" for x y v
      using temps_trans by (simp add: temps_set)
  next
    fix x assume x: "temps s x"
    have e2: "exec_words fpu [prfm_reg X16 X1, lsr_imm X1 X0 32] x = Some (set_x 1 (ubfm (xr x 0) 32 63) x)"
      by (simp add: jit_decode put_x_reg get_x_reg)
    show "runs_to fpu ([prfm_reg X16 X1, lsr_imm X1 X0 32] @
        and_bitmask X1 X1 JIT_L3_MASK64 X2 @ [prfm_reg X16 X1] @ [movz X26 0 0, movz X27 0 0]) x
      (\<lambda>s'. jit_rel config base m s' \<and> vars_at (ls\<lparr>ls_sp_addr0 := 0, ls_sp_addr1 := 0\<rparr>) s' \<and> turn_frame base s s')"
    proof (rule runs_append [OF runs_words [OF e2, where Q = "temps s"]], simp add: temps_set x,
        rule runs_append [OF runs_and [where Q = "temps s"]], simp, simp, simp, simp)
      show "temps s x \<Longrightarrow> temps x y \<Longrightarrow> temps s (set_x (unat (X1 :: u32)) v y)" for x y v
        using temps_trans by (simp add: temps_set)
    next
      fix y assume y: "temps s y"
      have e3: "exec_words fpu ([prfm_reg X16 X1] @ [movz X26 0 0, movz X27 0 0]) y = Some (set_x 27 0 (set_x 26 0 y))"
        by (simp add: jit_decode put_x_reg)
      have "jit_rel config base m (set_x 27 0 (set_x 26 0 y))" by (rule rel_regs [OF rel]; use y in \<open>simp add: temps_def\<close>)
      then show "runs_to fpu ([prfm_reg X16 X1] @ [movz X26 0 0, movz X27 0 0]) y
        (\<lambda>s'. jit_rel config base m s' \<and> vars_at (ls\<lparr>ls_sp_addr0 := 0, ls_sp_addr1 := 0\<rparr>) s' \<and> turn_frame base s s')"
        by (intro runs_words [OF e3]) (use y vars in \<open>simp add: temps_def vars_at_def turn_frame_def\<close>)
    qed
  qed
qed

lemma store_V1:
  assumes "store_registers cpu V1 ls m = Some (m', ls')"
  obtains m1 m2 where
    "for_each (\<lambda>i m. do { v \<leftarrow> get_r m i; set_sp m (store64 (m_sp m) (unat (ls_sp_addr1 ls) + 8 * i) v) }) [0..<8] m = Some m1"
    "for_each (\<lambda>i m. do { f \<leftarrow> get_f m i; e \<leftarrow> get_e m i; put_f m i (xor_f128 f e) }) [0..<4] m1 = Some m2"
    "for_each (\<lambda>i m. do { f \<leftarrow> get_f m i; set_sp m (store_f128 (m_sp m) (unat (ls_sp_addr0 ls) + 16 * i) f) }) [0..<4] m2 = Some m'"
    "ls' = ls\<lparr>ls_sp_addr0 := 0, ls_sp_addr1 := 0\<rparr>"
  using assms by (auto simp: store_registers_def reg_counts split: Option.bind_splits)

lemma runs_stores:
  assumes rel: "jit_rel config base m s" and v: "at_addr base ls (base + of_nat (unat (ls_sp_addr1 ls))) s0 s"
    and q: "q0 < 8" "q1 < 8" and run: "store_registers cpu V1 ls m = Some (m', ls')"
  shows "runs_to fpu (map (\<lambda>i. str_imm (r_reg i) X0 (of_nat i * 8)) [0..<8] @
     concat (map (\<lambda>i. emit_pair_op eor_v8b (f_regs i) (e_regs i)) [0..<4]) @
     [add_reg X0 X16 X26] @
     map (\<lambda>i. stp_fp_imm (fst (f_regs i)) (snd (f_regs i)) X0 (int i * 16)) [0..<4] @
     [eor_reg X0 (r_reg q0) (r_reg q1)] @
     and_bitmask X1 X0 JIT_L3_MASK64 X2 @ [prfm_reg X16 X1, lsr_imm X1 X0 32] @
     and_bitmask X1 X1 JIT_L3_MASK64 X2 @ [prfm_reg X16 X1] @ [movz X26 0 0, movz X27 0 0]) s
   (\<lambda>s'. jit_rel config base m' s' \<and> vars_at ls' s' \<and> turn_frame base s0 s')"
proof -
  obtain m1 m2 where m:
    "for_each (\<lambda>i m. do { v \<leftarrow> get_r m i; set_sp m (store64 (m_sp m) (unat (ls_sp_addr1 ls) + 8 * i) v) }) [0..<8] m = Some m1"
    "for_each (\<lambda>i m. do { f \<leftarrow> get_f m i; e \<leftarrow> get_e m i; put_f m i (xor_f128 f e) }) [0..<4] m1 = Some m2"
    "for_each (\<lambda>i m. do { f \<leftarrow> get_f m i; set_sp m (store_f128 (m_sp m) (unat (ls_sp_addr0 ls) + 16 * i) f) }) [0..<4] m2 = Some m'"
    and ls': "ls' = ls\<lparr>ls_sp_addr0 := 0, ls_sp_addr1 := 0\<rparr>"
    using store_V1 [OF run] by blast
  define A where "A a x \<longleftrightarrow> at_addr base ls (base + of_nat (unat a)) s0 x" for a :: u32 and x
  show ?thesis
  proof (rule runs_append [OF runs_store_rs [OF rel v m(1), folded A_def]],
      rule runs_append [OF runs_for_each [where R = "\<lambda>i m x. jit_rel config base m x \<and> A (ls_sp_addr1 ls) x", OF _ m(2)]])
    fix i m m' x assume i: "i < 4" and R: "jit_rel config base m x \<and> A (ls_sp_addr1 ls) x"
      and st: "(do { f \<leftarrow> get_f m i; e \<leftarrow> get_e m i; put_f m i (xor_f128 f e) }) = Some m'"
    show "runs_to fpu (emit_pair_op eor_v8b (f_regs i) (e_regs i)) x (\<lambda>x. jit_rel config base m' x \<and> A (ls_sp_addr1 ls) x)"
      by (rule runs_mono [OF runs_mix_fe [OF conjunct1 [OF R] i st]])
        (use R in \<open>simp add: A_def at_addr_def vars_at_def turn_frame_def\<close>)
  next
    fix x assume x: "jit_rel config base m2 x \<and> A (ls_sp_addr1 ls) x"
    let ?y = "set_x 0 (base + of_nat (unat (ls_sp_addr0 ls))) x"
    have e: "exec_words fpu [add_reg X0 X16 X26] x = Some ?y"
      using x by (simp add: jit_decode put_x_reg get_x_reg jit_rel_def consts_rel_def A_def at_addr_def vars_at_def)
    have y: "jit_rel config base m2 ?y" "at_addr base ls (base + of_nat (unat (ls_sp_addr0 ls))) s0 ?y"
      using x temps_rel [of x ?y] by (auto simp: temps_set A_def at_addr_def vars_at_def turn_frame_def)
    show "runs_to fpu ([add_reg X0 X16 X26] @
        map (\<lambda>i. stp_fp_imm (fst (f_regs i)) (snd (f_regs i)) X0 (int i * 16)) [0..<4] @
        [eor_reg X0 (r_reg q0) (r_reg q1)] @
        and_bitmask X1 X0 JIT_L3_MASK64 X2 @ [prfm_reg X16 X1, lsr_imm X1 X0 32] @
        and_bitmask X1 X1 JIT_L3_MASK64 X2 @ [prfm_reg X16 X1] @ [movz X26 0 0, movz X27 0 0]) x
      (\<lambda>s'. jit_rel config base m' s' \<and> vars_at ls' s' \<and> turn_frame base s0 s')"
    proof (rule runs_append [OF runs_words [OF e, where Q = "\<lambda>z. z = ?y"]], rule refl, clarify,
        rule runs_append [OF runs_store_fs [OF y m(3)]])
      fix z assume z: "jit_rel config base m' z \<and> at_addr base ls (base + of_nat (unat (ls_sp_addr0 ls))) s0 z"
      show "runs_to fpu ([eor_reg X0 (r_reg q0) (r_reg q1)] @
          and_bitmask X1 X0 JIT_L3_MASK64 X2 @ [prfm_reg X16 X1, lsr_imm X1 X0 32] @
          and_bitmask X1 X1 JIT_L3_MASK64 X2 @ [prfm_reg X16 X1] @ [movz X26 0 0, movz X27 0 0]) z
        (\<lambda>s'. jit_rel config base m' s' \<and> vars_at ls' s' \<and> turn_frame base s0 s')"
        unfolding ls' by (rule runs_mono [OF runs_post_tail [OF _ _ q]])
          (use z turn_frame_trans in \<open>auto simp: at_addr_def\<close>)
    qed
  qed (use A_def in auto)
qed

lemma runs_iteration_post:
  assumes rel: "jit_rel config base m s" and vars: "vars_at ls s" and c: "config_ok config"
    and ds: "ds_at (memory s) dsb item" "xr s 22 = dsb + d" "64 dvd unat d" "offset_ok d"
    and mix: "mix_dataset V1 item config d ls m = Some (m1, ls1)"
    and store: "store_registers cpu V1 ls1 m1 = Some (m', ls')"
  shows "runs_to fpu (emit_iteration_post config) s
    (\<lambda>s'. jit_rel config base m' s' \<and> vars_at ls' s' \<and> turn_frame base s s')"
proof -
  have ok: "machine_ok m" using rel by (simp add: jit_rel_def)
  have q: "read_reg0 config < 8" "read_reg1 config < 8" "read_reg2 config < 8" "read_reg3 config < 8"
    using c by (simp_all add: config_ok_def)
  let ?p = "d + (ucast (ls_ma ls) AND ucast CACHE_LINE_ALIGN_MASK)"
  let ?mix = "ucast (reg m (read_reg2 config) XOR reg m (read_reg3 config))"
  obtain line where line: "item (?p div of_nat CACHE_LINE_SIZE) = Some line"
    "for_each (\<lambda>i m. do { x \<leftarrow> get_r m i; w \<leftarrow> at_index line i; put_r m i (x XOR w) }) [0..<8] m = Some m1"
    "ls1 = ls\<lparr>ls_ma := ls_mx ls XOR ?mix, ls_mx := ls_ma ls\<rparr>"
    using mix_V1 [OF ok c mix] by blast
  have l64: "length line = 8" "region (memory s) (dsb + 64 * (?p div of_nat CACHE_LINE_SIZE)) line"
    using ds(1) line(1) unfolding ds_at_def by blast+
  note l = l64(1) l64(2) [folded aligned_item [OF ds(3, 4), of "ls_ma ls"]]
  show ?thesis
    unfolding emit_iteration_post_def
  proof (rule runs_post_head [OF rel vars q(3, 4)])
    fix x assume x: "jit_rel config base m x" "turn_frame base s x" "vars_at (ls\<lparr>ls_mx := ls_mx ls XOR ?mix\<rparr>) x"
      "xr x 0 = xr s 22 + (ucast (ls_ma ls) AND ucast CACHE_LINE_ALIGN_MASK)" "memory x = memory s"
    let ?rest = "[mov_reg X1 X24, mov_reg X24 X25, mov_reg X25 X1] @
      and_bitmask X0 X24 CACHE_LINE_ALIGN_MASK64 X1 @ [prfm_reg X22 X0] @ [add_reg X0 X16 X27] @
      map (\<lambda>i. str_imm (r_reg i) X0 (of_nat i * 8)) [0..<8] @
      concat (map (\<lambda>i. emit_pair_op eor_v8b (f_regs i) (e_regs i)) [0..<4]) @
      [add_reg X0 X16 X26] @
      map (\<lambda>i. stp_fp_imm (fst (f_regs i)) (snd (f_regs i)) X0 (int i * 16)) [0..<4] @
      [eor_reg X0 (r_reg (read_reg0 config)) (r_reg (read_reg1 config))] @
      and_bitmask X1 X0 JIT_L3_MASK64 X2 @ [prfm_reg X16 X1, lsr_imm X1 X0 32] @
      and_bitmask X1 X1 JIT_L3_MASK64 X2 @ [prfm_reg X16 X1] @ [movz X26 0 0, movz X27 0 0]"
    have x0: "xr x (unat (X0 :: u32)) = dsb + ?p" using x(4) ds(2) by (simp add: add.assoc)
    have xp: "part_rel 4 4 config base m x" using x(1) by (simp add: part_rel_full)
    show "runs_to fpu (concat (map (\<lambda>i. [ldr_imm X2 X0 (of_nat i * 8), eor_reg (r_reg i) (r_reg i) X2]) [0..<8]) @ ?rest) x
      (\<lambda>s'. jit_rel config base m' s' \<and> vars_at ls' s' \<and> turn_frame base s s')"
    proof (rule runs_xor_line [OF xp _ _ _ x0 _ line(2)], simp, simp, simp)
      fix i m w and y :: a64_state assume "i < 8" "memory y = memory x" "at_index line i = Some w"
      then show "load_word y (dsb + ?p + of_nat (8 * i)) = Some w"
        using region_load [of y "dsb + ?p" line i] l x(5) by (auto simp: at_index_def split: if_splits)
    next
      fix y assume y: "part_rel 4 4 config base m1 y" "mem_only x y"
      have yv: "jit_rel config base m1 y" "vars_at (ls\<lparr>ls_mx := ls_mx ls XOR ?mix\<rparr>) y" "turn_frame base s y"
        using y x(2, 3) turn_frame_trans mem_only_frame by (auto simp: part_rel_full mem_only_def vars_at_def)
      have l1: "ls1 = (ls\<lparr>ls_mx := ls_mx ls XOR ?mix\<rparr>)
          \<lparr>ls_ma := ls_mx (ls\<lparr>ls_mx := ls_mx ls XOR ?mix\<rparr>), ls_mx := ls_ma (ls\<lparr>ls_mx := ls_mx ls XOR ?mix\<rparr>)\<rparr>"
        using line(3) by simp
      show "runs_to fpu ?rest y (\<lambda>s'. jit_rel config base m' s' \<and> vars_at ls' s' \<and> turn_frame base s s')"
      proof (rule runs_swap_vars [OF yv(1, 2), folded l1])
        fix z assume z: "jit_rel config base m1 z" "turn_frame base y z" "vars_at ls1 z"
          "xr z 0 = base + of_nat (unat (ls_sp_addr1 (ls\<lparr>ls_mx := ls_mx ls XOR ?mix\<rparr>)))"
        have "at_addr base ls1 (base + of_nat (unat (ls_sp_addr1 ls1))) s z"
          using z yv(3) turn_frame_trans line(3) by (auto simp: at_addr_def)
        from runs_stores [OF z(1) this q(1, 2) store]
        show "runs_to fpu (map (\<lambda>i. str_imm (r_reg i) X0 (of_nat i * 8)) [0..<8] @
          concat (map (\<lambda>i. emit_pair_op eor_v8b (f_regs i) (e_regs i)) [0..<4]) @
          [add_reg X0 X16 X26] @
          map (\<lambda>i. stp_fp_imm (fst (f_regs i)) (snd (f_regs i)) X0 (int i * 16)) [0..<4] @
          [eor_reg X0 (r_reg (read_reg0 config)) (r_reg (read_reg1 config))] @
          and_bitmask X1 X0 JIT_L3_MASK64 X2 @ [prfm_reg X16 X1, lsr_imm X1 X0 32] @
          and_bitmask X1 X1 JIT_L3_MASK64 X2 @ [prfm_reg X16 X1] @ [movz X26 0 0, movz X27 0 0]) z
          (\<lambda>s'. jit_rel config base m' s' \<and> vars_at ls' s' \<and> turn_frame base s s')" .
      qed
    qed
  qed
qed

end
