(* ===== verification/Jit_Loop.thy ===== *)
theory Jit_Loop
  imports Jit_Iter2
begin

text \<open>
  The native loop (\<open>compile_native_loop\<close> in \<open>src/randomx/jit/compiler.rs\<close>): the shape of its code,
  one turn as \<open>vm_iteration\<close>, and the counted loop as the loop of \<open>interpret_vm\<close>.
\<close>

section \<open>The shape of the code\<close>

definition cbz_word :: "nat \<Rightarrow> u32" where
  "cbz_word skip = 0xB4000000 OR push_bit 5 (of_nat skip AND 0x7FFFF) OR X28"

definition loop_shape ::
  "bytecode_instruction list \<Rightarrow> program_configuration \<Rightarrow> u32 list \<Rightarrow> u32 list list \<Rightarrow> u32 list \<Rightarrow> bool" where
  "loop_shape bc config pro segs code \<longleftrightarrow>
     (\<exists>offs skip rel. code = pro @ [cbz_word skip] @ emit_iteration_pre config @ concat segs @
        emit_iteration_post config @ [subs_imm X28 X28 1, b_cond COND_NE rel] @ emit_loop_epilogue \<and>
      body_layout bc V1 (length (pro @ [cbz_word skip] @ emit_iteration_pre config)) segs offs (length bc) \<and>
      rel = int (length pro + 1) - int (length pro + 1 + length (emit_iteration_pre config @ concat segs @
        emit_iteration_post config @ [subs_imm X28 X28 1])) \<and> - 0x40000 \<le> rel)"

lemma native_loop_shape:
  assumes "native_loop_code bc version config ma mx d = Some code"
  shows "\<exists>segs. loop_shape bc config (emit_loop_prologue config ma mx d) segs code"
proof -
  let ?pro = "emit_loop_prologue config ma mx d" and ?pre = "emit_iteration_pre config"
  let ?post = "emit_iteration_post config"
  have v: "version = V1" using assms by (auto simp: native_loop_code_def split: if_splits)
  obtain c where c: "emit_body ((?pro @ [0xB4000000 OR X28]) @ ?pre) bc V1 = Some c"
    using assms v by (auto simp: native_loop_code_def Let_def split: if_splits Option.bind_splits)
  obtain segs offs where s: "c = ((?pro @ [0xB4000000 OR X28]) @ ?pre) @ concat segs"
    "body_layout bc V1 (length ((?pro @ [0xB4000000 OR X28]) @ ?pre)) segs offs (length bc)"
    using emit_body_layout [OF c] by blast
  define rel where "rel = int (length ?pro + 1) - int (length ?pro + 1 + length (?pre @ concat segs @ ?post @ [subs_imm X28 X28 1]))"
  define skip where "skip = length (c @ ?post @ [subs_imm X28 X28 1] @ [b_cond COND_NE rel]) - length ?pro"
  have up: "(xs @ x # ys)[length xs := y] = xs @ y # ys" for xs ys :: "u32 list" and x y by simp
  have code: "- 0x40000 \<le> rel"
    "code = (c @ ?post @ [subs_imm X28 X28 1] @ [b_cond COND_NE rel])[length ?pro := cbz_word skip] @ emit_loop_epilogue"
    using assms c v s(1)
    by (auto simp: native_loop_code_def Let_def rel_def skip_def cbz_word_def algebra_simps split: if_splits)
  have "code = ?pro @ [cbz_word skip] @ ?pre @ concat segs @ ?post @ [subs_imm X28 X28 1, b_cond COND_NE rel] @ emit_loop_epilogue"
    unfolding code(2) s(1) using up [of ?pro] by simp
  moreover have "body_layout bc V1 (length (?pro @ [cbz_word skip] @ ?pre)) segs offs (length bc)" using s(2) by simp
  ultimately show ?thesis unfolding loop_shape_def using code(1) rel_def by blast
qed

text \<open>Compilation succeeds for every program of version 1.\<close>

lemma native_loop_total:
  assumes "bytecode_ok bc" "length bc \<le> RANDOMX_PROGRAM_SIZE_MAX" "d \<le> DATASET_EXTRA_ITEMS * 64"
  shows "\<exists>code. native_loop_code bc V1 config ma mx d = Some code \<and> length code * 4 \<le> JIT_CODE_SIZE"
proof -
  let ?pro = "emit_loop_prologue config ma mx d" and ?pre = "emit_iteration_pre config"
  let ?post = "emit_iteration_post config"
  have le: "length ?pro \<le> 69" "length ?pre \<le> 151" "length ?post \<le> 78" "length bc \<le> 384"
    using length_loop_prologue [of config ma mx d] length_iteration_pre [of config] length_iteration_post [of config] assms(2)
    by (simp_all add: RANDOMX_PROGRAM_SIZE_MAX_def)
  have ep: "length emit_loop_epilogue = 39" by (simp add: emit_loop_epilogue_def length_registers)
  obtain c where c: "emit_body ((?pro @ [0xB4000000 OR X28]) @ ?pre) bc V1 = Some c"
    "length c \<le> length ((?pro @ [0xB4000000 OR X28]) @ ?pre) + 33 * length bc"
    using emit_body_total [OF assms(1, 2)] by blast
  have l: "length c \<le> 221 + 33 * 384" using c(2) le by simp
  let ?rel = "int (length (?pro @ [0xB4000000 OR X28])) - int (length (c @ ?post @ [subs_imm X28 X28 1]))"
  have rel: "- 0x40000 \<le> ?rel" "?rel < 0x40000" using l le by (simp_all del: of_nat_add)
  let ?c3 = "(c @ ?post @ [subs_imm X28 X28 1]) @ [b_cond COND_NE ?rel]"
  have skip: "length ?c3 - length ?pro < 0x40000" using l le by simp
  have "native_loop_code bc V1 config ma mx d =
      Some (?c3[length ?pro := cbz_word (length ?c3 - length ?pro)] @ emit_loop_epilogue)"
    using assms(3) c(1) rel skip by (simp add: native_loop_code_def Let_def cbz_word_def)
  moreover have "length (?c3[length ?pro := cbz_word (length ?c3 - length ?pro)] @ emit_loop_epilogue) * 4 \<le> JIT_CODE_SIZE"
    using l le ep by (simp add: JIT_CODE_SIZE_def)
  ultimately show ?thesis by blast
qed

section \<open>One turn\<close>

definition ds_apart :: "u64 \<Rightarrow> nat \<Rightarrow> u64 \<Rightarrow> (u64 \<Rightarrow> u64 list option) \<Rightarrow> bool" where
  "ds_apart a n dsb item \<longleftrightarrow> (\<forall>k line. item k = Some line \<longrightarrow> apart a n (dsb + 64 * k) 64)"

lemma ds_at_apart:
  assumes "ds_at mem dsb item" "ds_apart a n dsb item" "\<And>x. outside a n x \<Longrightarrow> mem' x = mem x"
  shows "ds_at mem' dsb item"
  unfolding ds_at_def
proof (intro allI impI conjI)
  fix k line assume k: "item k = Some line"
  then have l: "length line = 8" "region mem (dsb + 64 * k) line" using assms(1) unfolding ds_at_def by blast+
  show "length line = 8" by (rule l)
  have "apart a n (dsb + 64 * k) 64" using assms(2) k unfolding ds_apart_def by blast
  then show "region mem' (dsb + 64 * k) line"
    by (intro region_apart [OF l(2), of a n]) (use l(1) assms(3) in simp_all)
qed

text \<open>What holds at the head of the loop: \<open>f\<close> and \<open>e\<close> need not be loaded.\<close>

definition loop_head :: "program_configuration \<Rightarrow> u64 \<Rightarrow> u64 \<Rightarrow> u64 \<Rightarrow> (u64 \<Rightarrow> u64 list option) \<Rightarrow>
    machine \<times> loop_state \<Rightarrow> a64_state \<Rightarrow> bool" where
  "loop_head config base dsb d item = (\<lambda>(m, ls) s. part_rel 0 0 config base m s \<and> vars_at ls s \<and>
     ds_at (memory s) dsb item \<and> xr s 22 = dsb + d)"

lemma loop_head_frame:
  assumes "loop_head config base dsb d item (m, ls) s" "ds_apart base SCRATCHPAD_L3_SIZE dsb item"
    and "jit_rel config base m' s'" "vars_at ls' s'" "turn_frame base s s'"
  shows "loop_head config base dsb d item (m', ls') s'"
proof -
  have "ds_at (memory s') dsb item"
    by (rule ds_at_apart [OF _ assms(2)]) (use assms(1, 5) in \<open>auto simp: loop_head_def turn_frame_def\<close>)
  then show ?thesis using assms by (simp add: loop_head_def jit_rel_part turn_frame_def)
qed

definition turn_end :: "program_configuration \<Rightarrow> u32 list \<Rightarrow> u32 list list \<Rightarrow> nat" where
  "turn_end config pro segs =
     length pro + 1 + length (emit_iteration_pre config) + length (concat segs) + length (emit_iteration_post config)"

lemma execute_bytecode_fuel:
  assumes "bytecode_ok bc" "machine_ok m" "execute_bytecode fpu version config bc m = Some m'"
  shows "bytecode_fuel fpu version config bc (3 * length bc) (0, m) = Some m'"
proof -
  have "returns machine_ok (bytecode_fuel fpu version config bc (3 * length bc) (0, m))"
    using bytecode_run_bounded [OF assms(1) le0 assms(2) le0, of fpu version config] by simp
  then obtain x where x: "bytecode_fuel fpu version config bc (3 * length bc) (0, m) = Some x" by (auto simp: returns_iff)
  then show ?thesis using bytecode_fuel_loop [OF x] assms(3) by (simp add: execute_bytecode_def)
qed

lemma loop_turn:
  assumes shape: "loop_shape bc config pro segs code" and ok: "bytecode_ok bc" "config_ok config"
    and size: "length code < 0x40000" and d: "64 dvd unat d" "offset_ok d"
    and ap: "ds_apart base SCRATCHPAD_L3_SIZE dsb item"
    and head: "loop_head config base dsb d item (m, ls) s"
    and run: "vm_iteration cpu V1 item (execute_bytecode fpu V1 config bc) config d (m, ls) = Some (m', ls')"
  shows "\<exists>s'. a64_reaches fpu code (At (int (length pro + 1)), s) (At (int (turn_end config pro segs)), s') \<and>
    loop_head config base dsb d item (m', ls') s' \<and> jit_rel config base m' s' \<and> turn_frame base s s'"
proof -
  let ?pre = "emit_iteration_pre config" and ?post = "emit_iteration_post config"
  obtain offs skip rel where code: "code = pro @ [cbz_word skip] @ ?pre @ concat segs @ ?post @
        [subs_imm X28 X28 1, b_cond COND_NE rel] @ emit_loop_epilogue"
      and lay: "body_layout bc V1 (length (pro @ [cbz_word skip] @ ?pre)) segs offs (length bc)"
    using shape unfolding loop_shape_def by blast
  let ?tail = "[subs_imm X28 X28 1, b_cond COND_NE rel] @ emit_loop_epilogue"
  have all: "code_at code 0 ((pro @ [cbz_word skip]) @ ?pre @ concat segs @ ?post @ ?tail)"
    unfolding code_at_def code by (intro exI [where x = "[]"]) simp
  note a1 = conjunct2 [OF code_at_append [OF all]]
  note a2 = conjunct2 [OF code_at_append [OF a1]]
  note a3 = conjunct2 [OF code_at_append [OF a2]]
  have at: "code_at code (length pro + 1) ?pre"
    "code_at code (length pro + 1 + length ?pre + length (concat segs)) ?post"
    using conjunct1 [OF code_at_append [OF a1]] conjunct1 [OF code_at_append [OF a3]] by (simp_all add: add.assoc)
  obtain m1 ls1 m2 m3 ls3 where st: "load_registers config ls m = Some (m1, ls1)"
    "execute_bytecode fpu V1 config bc m1 = Some m2" "mix_dataset V1 item config d ls1 m2 = Some (m3, ls3)"
    "store_registers cpu V1 ls3 m3 = Some (m', ls')"
    using run by (auto simp: vm_iteration_def split: Option.bind_splits)
  have h: "part_rel 0 0 config base m s" "vars_at ls s" using head by (simp_all add: loop_head_def)
  obtain s1 where s1: "a64_reaches fpu code (At (int (length pro + 1)), s) (At (int (length pro + 1 + length ?pre)), s1)"
    "jit_rel config base m1 s1" "vars_at ls1 s1" "turn_frame base s s1"
    using runs_reaches [OF at(1) runs_iteration_pre [OF h ok(2) st(1)]] by blast
  have m1: "machine_ok m1" using s1(2) by (simp add: jit_rel_def)
  have eq: "code = (pro @ [cbz_word skip] @ ?pre) @ concat segs @ (?post @ ?tail)" by (simp add: code)
  obtain s2 where s2: "a64_reaches fpu code (At (int (length pro + 1 + length ?pre)), s1)
      (At (int (length pro + 1 + length ?pre + length (concat segs))), s2)" "simulates config base m2 s1 s2"
    using body_simulates [OF lay ok(1) eq size, of fpu config "3 * length bc" 0 m1 m2 base s1]
      execute_bytecode_fuel [OF ok(1) m1 st(2)] s1(2) by (auto simp: add.assoc)
  have fr: "jit_frame base s1 s2" "jit_rel config base m2 s2" using s2(2) by (simp_all add: simulates_def)
  have v2: "vars_at ls1 s2" using s1(3) fr(1) by (simp add: vars_at_def jit_frame_def)
  have f2: "turn_frame base s s2" using s1(4) fr(1) jit_turn_frame turn_frame_trans by blast
  have h2: "loop_head config base dsb d item (m2, ls1) s2" by (rule loop_head_frame [OF head ap fr(2) v2 f2])
  then have ds: "ds_at (memory s2) dsb item" "xr s2 22 = dsb + d" by (simp_all add: loop_head_def)
  obtain s3 where s3: "a64_reaches fpu code (At (int (length pro + 1 + length ?pre + length (concat segs))), s2)
      (At (int (turn_end config pro segs)), s3)" "jit_rel config base m' s3" "vars_at ls' s3" "turn_frame base s2 s3"
    using runs_reaches [OF at(2) runs_iteration_post [OF fr(2) v2 ok(2) ds d st(3, 4)]] by (auto simp: turn_end_def)
  have f3: "turn_frame base s s3" by (rule turn_frame_trans [OF f2 s3(4)])
  show ?thesis
    using s1(1) s2(1) s3(1, 2) f3 loop_head_frame [OF head ap s3(2, 3) f3] a64_reaches_trans by blast
qed

section \<open>The counted loop\<close>

lemma loop_tail_at:
  assumes "loop_shape bc config pro segs code"
  shows "\<exists>rel. code_at code (turn_end config pro segs) ([subs_imm X28 X28 1] @ [b_cond COND_NE rel] @ emit_loop_epilogue) \<and>
    rel = int (length pro + 1) - int (turn_end config pro segs + 1) \<and> - 0x40000 \<le> rel"
proof -
  let ?pre = "emit_iteration_pre config" and ?post = "emit_iteration_post config"
  obtain skip rel where code: "code = pro @ [cbz_word skip] @ ?pre @ concat segs @ ?post @
        [subs_imm X28 X28 1, b_cond COND_NE rel] @ emit_loop_epilogue"
      and rel: "rel = int (length pro + 1) - int (length pro + 1 + length (?pre @ concat segs @ ?post @ [subs_imm X28 X28 1]))"
        "- 0x40000 \<le> rel"
    using assms unfolding loop_shape_def by blast
  have "code_at code (turn_end config pro segs) ([subs_imm X28 X28 1] @ [b_cond COND_NE rel] @ emit_loop_epilogue)"
    unfolding code_at_def code turn_end_def
    by (intro exI [where x = "pro @ [cbz_word skip] @ ?pre @ concat segs @ ?post"] exI [where x = "[]"]) simp
  moreover have "rel = int (length pro + 1) - int (turn_end config pro segs + 1)"
    using rel(1) by (simp add: turn_end_def)
  ultimately show ?thesis using rel(2) by blast
qed

lemma head_set_x28:
  "loop_head config base dsb d item st (set_z z (set_x 28 v s)) = loop_head config base dsb d item st s"
  by (cases st) (simp add: loop_head_def part_rel_def consts_rel_def pair_at_def vars_at_def)

lemma loop_runs:
  assumes shape: "loop_shape bc config pro segs code" and ok: "bytecode_ok bc" "config_ok config"
    and size: "length code < 0x40000" and d: "64 dvd unat d" "offset_ok d"
    and ap: "ds_apart base SCRATCHPAD_L3_SIZE dsb item"
  shows "loop_head config base dsb d item (m, ls) s \<Longrightarrow>
    for_each (\<lambda>_. vm_iteration cpu V1 item (execute_bytecode fpu V1 config bc) config d) xs (m, ls) = Some (m', ls') \<Longrightarrow>
    xs \<noteq> [] \<Longrightarrow> xr s 28 = of_nat (length xs) \<Longrightarrow> length xs < 2 ^ 64 \<Longrightarrow>
    \<exists>s'. a64_reaches fpu code (At (int (length pro + 1)), s) (At (int (turn_end config pro segs + 2)), s') \<and>
      jit_rel config base m' s' \<and> vars_at ls' s' \<and>
      (\<forall>r. 16 \<le> r \<and> (r < 24 \<or> 28 < r) \<longrightarrow> xr s' r = xr s r) \<and>
      (\<forall>x. outside base SCRATCHPAD_L3_SIZE x \<longrightarrow> memory s' x = memory s x)"
proof (induction xs arbitrary: m ls s)
  case (Cons x xs)
  let ?K = "turn_end config pro segs"
  obtain m1 ls1 where it: "vm_iteration cpu V1 item (execute_bytecode fpu V1 config bc) config d (m, ls) = Some (m1, ls1)"
    "for_each (\<lambda>_. vm_iteration cpu V1 item (execute_bytecode fpu V1 config bc) config d) xs (m1, ls1) = Some (m', ls')"
    using Cons.prems(2) by (auto split: Option.bind_splits)
  obtain s1 where s1: "a64_reaches fpu code (At (int (length pro + 1)), s) (At (int ?K), s1)"
    "loop_head config base dsb d item (m1, ls1) s1" "jit_rel config base m1 s1" "turn_frame base s s1"
    using loop_turn [OF shape ok size d ap Cons.prems(1) it(1)] by blast
  obtain rel where tail: "code_at code ?K ([subs_imm X28 X28 1] @ [b_cond COND_NE rel] @ emit_loop_epilogue)"
    and rel: "rel = int (length pro + 1) - int (?K + 1)" "- 0x40000 \<le> rel"
    using loop_tail_at [OF shape] by blast
  have x28: "xr s1 28 = of_nat (length (x # xs))" using s1(4) Cons.prems(4) by (simp add: turn_frame_def)
  let ?z = "set_z (length xs = 0) (set_x 28 (of_nat (length xs)) s1)"
  have nz: "(of_nat (length xs) = (0 :: u64)) = (length xs = 0)"
    using Cons.prems(5) by (subst word_unat_eq_iff) (simp add: unat_of_nat_64)
  have sub: "exec_words fpu [subs_imm X28 X28 1] s1 = Some ?z"
    using x28 nz by (simp add: jit_decode put_x_reg)
  have r1: "a64_reaches fpu code (At (int ?K), s1) (At (int (?K + 1)), ?z)"
    using a64_reaches_straight [OF conjunct1 [OF code_at_append [OF tail]] sub] by simp
  have bat: "code_at code (?K + 1) [b_cond COND_NE rel]"
    using conjunct1 [OF code_at_append [OF conjunct2 [OF code_at_append [OF tail]]]] by simp
  have rl: "rel < 0x40000" using rel(1) by (simp add: turn_end_def)
  have r2: "a64_reaches fpu code (At (int (?K + 1)), ?z)
      (At (if xs \<noteq> [] then int (length pro + 1) else int (?K + 2)), ?z)"
    using b_cond_at [OF bat _ rel(2) rl, of fpu ?z] rel(1) by (simp add: COND_NE_def split: if_splits)
  have r12: "a64_reaches fpu code (At (int (length pro + 1)), s)
      (At (if xs \<noteq> [] then int (length pro + 1) else int (?K + 2)), ?z)"
    using s1(1) r1 r2 a64_reaches_trans by blast
  show ?case
  proof (cases "xs = []")
    case True
    then have "m' = m1" "ls' = ls1" using it(2) by simp_all
    moreover have "jit_rel config base m1 ?z" by (rule rel_regs [OF s1(3)]) simp_all
    moreover have "vars_at ls1 ?z" using s1(2) by (simp add: loop_head_def vars_at_def)
    ultimately show ?thesis using r12 True s1(4) by (intro exI [where x = ?z]) (auto simp: turn_frame_def)
  next
    case False
    have h: "loop_head config base dsb d item (m1, ls1) ?z" using s1(2) by (simp only: head_set_x28)
    obtain s' where s': "a64_reaches fpu code (At (int (length pro + 1)), ?z) (At (int (?K + 2)), s')"
      "jit_rel config base m' s'" "vars_at ls' s'"
      "\<forall>r. 16 \<le> r \<and> (r < 24 \<or> 28 < r) \<longrightarrow> xr s' r = xr ?z r"
      "\<forall>x. outside base SCRATCHPAD_L3_SIZE x \<longrightarrow> memory s' x = memory ?z x"
      using Cons.IH [OF h it(2) False] Cons.prems(5) by auto
    have "a64_reaches fpu code (At (int (length pro + 1)), s) (At (int (?K + 2)), s')"
      using r12 s'(1) False a64_reaches_trans by (auto split: if_splits)
    then show ?thesis using s'(2-5) s1(4) by (intro exI [where x = s']) (auto simp: turn_frame_def)
  qed
qed simp

end
