(* ===== verification/Jit_Native.thy ===== *)
theory Jit_Native
  imports Jit_Loop
begin

text \<open>
  A call of the native loop (\<open>compile_native_loop\<close>, \<open>get_loop_fn\<close> and \<open>JitLoopFn\<close> in
  \<open>src/randomx/jit/compiler.rs\<close>, called by \<open>execute_vm_inner\<close> in \<open>src/randomx/vm.rs\<close>): from the
  program bytes to the register file, the scratchpad and the four words of \<open>LoopState\<close> that it
  leaves in memory.
\<close>

section \<open>The call\<close>

text \<open>The blocks that are written: the stack, the scratchpad, the \<open>LoopState\<close> and the register
  file. Each is apart from everything that is read later.\<close>

definition blocks_apart ::
  "u64 \<Rightarrow> u64 \<Rightarrow> u64 \<Rightarrow> u64 \<Rightarrow> u64 \<Rightarrow> (u64 \<Rightarrow> u64 list option) \<Rightarrow> bool" where
  "blocks_apart nb base out stk dsb item \<longleftrightarrow>
     apart stk 160 nb 256 \<and> apart stk 160 base SCRATCHPAD_L3_SIZE \<and> apart stk 160 out 32 \<and>
     ds_apart stk 160 dsb item \<and>
     apart base SCRATCHPAD_L3_SIZE nb 256 \<and> apart base SCRATCHPAD_L3_SIZE out 32 \<and>
     apart base SCRATCHPAD_L3_SIZE stk 160 \<and> ds_apart base SCRATCHPAD_L3_SIZE dsb item \<and>
     apart out 32 nb 256 \<and> apart out 32 base SCRATCHPAD_L3_SIZE \<and> apart out 32 stk 160 \<and>
     apart nb 256 base SCRATCHPAD_L3_SIZE \<and> apart nb 256 out 32 \<and> apart nb 256 stk 160"

definition loop_call ::
  "u64 \<Rightarrow> u64 \<Rightarrow> u64 \<Rightarrow> u64 \<Rightarrow> u64 \<Rightarrow> (u64 \<Rightarrow> u64 list option) \<Rightarrow> nat \<Rightarrow> machine \<Rightarrow> a64_state \<Rightarrow> bool" where
  "loop_call nb base out stk dsb item n m s \<longleftrightarrow>
     machine_ok m \<and> m_rm m < 4 \<and> xr s 0 = nb \<and> xr s 1 = base \<and> xr s 2 = dsb \<and> xr s 3 = of_nat n \<and>
     xr s 4 = out \<and> fpcr s = rx_fpcr (m_rm m) \<and> region (memory s) nb (nreg_words (m_nreg m)) \<and>
     mem_holds (memory s) base (m_sp m) \<and> ds_at (memory s) dsb item \<and>
     (\<exists>ws. length ws = 4 \<and> region (memory s) out ws) \<and> stack_at s stk 20 [] \<and>
     blocks_apart nb base out stk dsb item"

definition loop_words :: "loop_state \<Rightarrow> u64 list" where
  "loop_words ls = [ucast (ls_ma ls), ucast (ls_mx ls), ucast (ls_sp_addr0 ls), ucast (ls_sp_addr1 ls)]"

definition loop_result ::
  "u64 \<Rightarrow> u64 \<Rightarrow> u64 \<Rightarrow> u64 \<Rightarrow> machine \<times> loop_state \<Rightarrow> a64_state \<Rightarrow> a64_state \<Rightarrow> bool" where
  "loop_result nb base out stk = (\<lambda>(m, ls) s s'.
     region (memory s') nb (nreg_words (m_nreg m)) \<and> mem_holds (memory s') base (m_sp m) \<and>
     region (memory s') out (loop_words ls) \<and>
     fpcr s' = rx_fpcr (m_rm m) \<and> restored s (xr s 31) s' \<and>
     (\<forall>r. 17 \<le> r \<and> r < 19 \<longrightarrow> xr s' r = xr s r) \<and>
     (\<forall>x. outside stk 160 x \<and> outside nb 256 x \<and> outside out 32 x \<and> outside base SCRATCHPAD_L3_SIZE x \<longrightarrow>
        memory s' x = memory s x))"

section \<open>No iteration writes an \<open>a\<close> register\<close>

lemma for_each_a:
  assumes "\<And>i m m'. f i m = Some m' \<Longrightarrow> rf_a (m_nreg m') = rf_a (m_nreg m)" "for_each f xs m = Some m'"
  shows "rf_a (m_nreg m') = rf_a (m_nreg m)"
  using assms(2)
proof (induction xs arbitrary: m)
  case (Cons x xs)
  then show ?case using assms(1) by (fastforce split: Option.bind_splits)
qed simp

lemma set_sp_a: "set_sp m sp = Some m' \<Longrightarrow> rf_a (m_nreg m') = rf_a (m_nreg m)"
  by (auto simp: set_sp_def)

lemma load_registers_a:
  assumes "load_registers config ls m = Some (m', ls')"
  shows "rf_a (m_nreg m') = rf_a (m_nreg m)"
  using assms unfolding load_registers_def Let_def
  by (auto split: Option.bind_splits dest!: for_each_a [rotated] dest: put_a)

lemma mix_dataset_a:
  assumes "mix_dataset V1 item config d ls m = Some (m', ls')"
  shows "rf_a (m_nreg m') = rf_a (m_nreg m)"
  using assms unfolding mix_dataset_def Let_def
  by (auto split: Option.bind_splits dest!: for_each_a [rotated] dest: put_a)

lemma store_registers_a:
  assumes "store_registers cpu V1 ls m = Some (m', ls')"
  shows "rf_a (m_nreg m') = rf_a (m_nreg m)"
  using assms unfolding store_registers_def Let_def
  by (auto split: Option.bind_splits dest!: for_each_a [rotated] dest: put_a set_sp_a)

lemma bytecode_loop_a:
  assumes "bytecode_loop fpu version config bc s = Some m'"
  shows "rf_a (m_nreg m') = rf_a (m_nreg (snd s))"
  using assms
proof (rule bytecode_loop.raw_induct [where P = "\<lambda>fpu version config bc s m'. rf_a (m_nreg m') = rf_a (m_nreg (snd s))", rotated])
  fix loop fpu version config bc s m'
  assume ih: "\<And>fpu version config bc s m'. loop fpu version config bc s = Some m' \<Longrightarrow> rf_a (m_nreg m') = rf_a (m_nreg (snd s))"
    and run: "(if fst s < int (length bc) then
        (if 0 \<le> fst s
         then Option.bind (exec_instr fpu version config (bc ! nat (fst s)) s) (loop fpu version config bc)
         else None)
      else Some (snd s)) = Some m'"
  show "rf_a (m_nreg m') = rf_a (m_nreg (snd s))"
  proof (cases "fst s < int (length bc) \<and> 0 \<le> fst s")
    case True
    then obtain pc1 m1 where s1: "exec_instr fpu version config (bc ! nat (fst s)) (fst s, snd s) = Some (pc1, m1)"
      "loop fpu version config bc (pc1, m1) = Some m'"
      using run by (auto split: Option.bind_splits)
    show ?thesis using ih [OF s1(2)] exec_instr_a [OF s1(1)] by simp
  qed (use run in \<open>simp split: if_splits\<close>)
qed

lemma vm_iteration_a:
  assumes "vm_iteration cpu V1 item (execute_bytecode fpu V1 config bc) config d (m, ls) = Some (m', ls')"
  shows "rf_a (m_nreg m') = rf_a (m_nreg m)"
proof -
  obtain m1 ls1 m2 m3 ls3 where st: "load_registers config ls m = Some (m1, ls1)"
    "execute_bytecode fpu V1 config bc m1 = Some m2" "mix_dataset V1 item config d ls1 m2 = Some (m3, ls3)"
    "store_registers cpu V1 ls3 m3 = Some (m', ls')"
    using assms by (auto simp: vm_iteration_def split: Option.bind_splits)
  show ?thesis
    using load_registers_a [OF st(1)] bytecode_loop_a [OF st(2) [unfolded execute_bytecode_def]]
      mix_dataset_a [OF st(3)] store_registers_a [OF st(4)] by simp
qed

lemma iterations_a:
  "for_each (\<lambda>_. vm_iteration cpu V1 item (execute_bytecode fpu V1 config bc) config d) xs (m, ls) = Some (m', ls') \<Longrightarrow>
     rf_a (m_nreg m') = rf_a (m_nreg m)"
proof (induction xs arbitrary: m ls)
  case (Cons x xs)
  then obtain m1 ls1 where "vm_iteration cpu V1 item (execute_bytecode fpu V1 config bc) config d (m, ls) = Some (m1, ls1)"
    "for_each (\<lambda>_. vm_iteration cpu V1 item (execute_bytecode fpu V1 config bc) config d) xs (m1, ls1) = Some (m', ls')"
    by (auto split: Option.bind_splits)
  then show ?case using Cons.IH vm_iteration_a by metis
qed simp

section \<open>The prologue\<close>

definition loop_entered ::
  "program_configuration \<Rightarrow> u64 \<Rightarrow> u64 \<Rightarrow> u64 \<Rightarrow> u64 \<Rightarrow> u64 \<Rightarrow> u64 \<Rightarrow> (u64 \<Rightarrow> u64 list option) \<Rightarrow> nat \<Rightarrow>
     machine \<times> loop_state \<Rightarrow> a64_state \<Rightarrow> a64_state \<Rightarrow> bool" where
  "loop_entered config nb base out stk dsb d item n = (\<lambda>(m, ls) s s'.
     loop_head config base dsb d item (m, ls) s' \<and> xr s' 28 = of_nat n \<and> xr s' 21 = nb \<and> xr s' 23 = out \<and>
     stack_at s' stk 0 (saved s) \<and> (\<forall>r. 17 \<le> r \<and> r < 19 \<longrightarrow> xr s' r = xr s r) \<and>
     (\<forall>x. outside stk 160 x \<longrightarrow> memory s' x = memory s x))"

lemma loop_pointers:
  assumes "pushed s stk 0 (saved s) x" "loop_call nb base out stk dsb item n m s"
  shows "exec_words fpu [mov_reg X22 X2, mov_reg X28 X3, mov_reg X23 X4, mov_reg X21 X0, mov_reg X16 X1] x =
    Some (set_x 16 base (set_x 21 nb (set_x 23 out (set_x 28 (of_nat n) (set_x 22 dsb x)))))"
proof -
  have x: "xr x 0 = nb" "xr x 1 = base" "xr x 2 = dsb" "xr x 3 = of_nat n" "xr x 4 = out"
    using assms by (simp_all add: pushed_def loop_call_def)
  note x = x x(2) [unfolded One_nat_def]
  show ?thesis by (simp add: jit_decode put_x_reg get_x_reg x)
qed

text \<open>The integer registers and the \<open>a\<close> pairs, loaded.\<close>

definition live_loaded :: "u64 list \<Rightarrow> a64_state \<Rightarrow> a64_state \<Rightarrow> bool" where
  "live_loaded ws s s' \<longleftrightarrow>
     (\<forall>j < 8. xr s' (j + 8) = ws ! j) \<and> (\<forall>j < 8. dr s' (16 + j) = ws ! (24 + j)) \<and>
     (\<forall>r. r < 8 \<or> 16 \<le> r \<longrightarrow> xr s' r = xr s r) \<and> fpcr s' = fpcr s \<and> memory s' = memory s"

lemma runs_load_live:
  assumes reg: "region (memory s) a ws" "length ws = 32" and base: "xr s 21 = a"
    and Q: "\<And>s'. live_loaded ws s s' \<Longrightarrow> runs_to fpu rest s' Q"
  shows "runs_to fpu (map (\<lambda>i. ldr_imm (8 + of_nat i) X21 (of_nat i * 8)) [0..<8] @
     map (\<lambda>i. ldr_fp_imm (16 + of_nat i) X21 (192 + of_nat i * 8)) [0..<8] @ rest) s Q"
proof (rule runs_append [OF runs_load_x [where Q = "\<lambda>t. (\<forall>j < 8. xr t (j + 8) = ws ! j) \<and>
      (\<forall>r. r < 8 \<or> 16 \<le> r \<longrightarrow> xr t r = xr s r) \<and> fpcr t = fpcr s \<and> memory t = memory s"]], rule reg(1), rule reg(2))
  fix t :: a64_state
  assume t: "(\<forall>j < 8. xr t (j + 8) = ws ! j) \<and> (\<forall>r. r < 8 \<or> 16 \<le> r \<longrightarrow> xr t r = xr s r) \<and> fpcr t = fpcr s \<and> memory t = memory s"
  have c: "(192 :: u32) = of_nat (8 * 24)" by simp
  have d: "i < 8 \<Longrightarrow> (16 + of_nat i :: u32) < 32" "i < 8 \<Longrightarrow> unat (16 + of_nat i :: u32) = 16 + i" for i
    using reg_index [of i] by simp_all
  show "runs_to fpu (map (\<lambda>i. ldr_fp_imm (16 + of_nat i) X21 (192 + of_nat i * 8)) [0..<8] @ rest) t Q"
    unfolding c
  proof (rule runs_append [OF runs_load_d [where q = 16 and a = a and ws = ws and Q = "live_loaded ws s"]])
    show "region (memory t) a ws" "length ws = 32" "xr t (unat (X21 :: u32)) = a" using t reg base by simp_all
    show "live_loaded ws s t'" if "\<forall>j < 8. dr t' (16 + j) = ws ! (24 + j)" "xr t' = xr t" "fpcr t' = fpcr t" "memory t' = memory t"
      for t' :: a64_state
      unfolding live_loaded_def using that t by simp
  qed (use d Q in simp_all)
qed (use base in simp_all)

definition first_state :: "u32 \<Rightarrow> u32 \<Rightarrow> loop_state" where
  "first_state ma mx = \<lparr>ls_ma = ma, ls_mx = mx, ls_sp_addr0 = mx, ls_sp_addr1 = ma\<rparr>"

lemma loop_is_entered:
  assumes call: "loop_call nb base out stk dsb item n m s" and x: "pushed s stk 0 (saved s) x"
    and t: "live_loaded (nreg_words (m_nreg m))
      (set_x 22 (dsb + d) (set_x 0 d (set_x 16 base (set_x 21 nb (set_x 23 out (set_x 28 (of_nat n) (set_x 22 dsb x))))))) t"
  shows "loop_entered config nb base out stk dsb d item n (m, first_state ma mx) s
    (set_x 27 (ucast ma) (set_x 26 (ucast mx) (set_x 25 (ucast mx) (set_x 24 (ucast ma)
      (set_d 24 FSCAL_MASK (set_x 0 FSCAL_MASK (set_x 20 (snd (e_mask config)) (set_x 19 (fst (e_mask config)) t))))))))"
    (is "loop_entered config nb base out stk dsb d item n (m, _) s ?z")
proof -
  let ?ws = "nreg_words (m_nreg m)"
  have c: "machine_ok m" "m_rm m < 4" "fpcr s = rx_fpcr (m_rm m)" using call by (simp_all add: loop_call_def)
  note w = nreg_words_nth [OF c(1)]
  have len: "length (rf_a (m_nreg m)) = 4" using c(1) by (simp add: machine_ok_def)
  have mem: "mem_holds (memory x) base (m_sp m)"
    using call x c(1) by (intro holds_apart [of "memory s" base "m_sp m" stk 160 "memory x"])
      (simp_all add: loop_call_def blocks_apart_def pushed_def machine_ok_def)
  have ds: "ds_at (memory x) dsb item"
    by (rule ds_at_apart [of "memory s" _ _ stk 160]) (use call x in \<open>simp_all add: loop_call_def blocks_apart_def pushed_def\<close>)
  have d: "pair_at t (2 * i + 16) = rf_a (m_nreg m) ! i" if "i < 4" for i
    by (rule pairs_loaded) (use t w len that in \<open>simp_all add: live_loaded_def\<close>)
  have p: "pair_at ?z k = pair_at t k" if "k < 23" for k using that by (simp add: pair_at_def)
  have x31: "stack_at x stk 0 (saved s)" "xr x 31 = xr t 31" "memory x = memory t" using x t by (auto simp: pushed_def live_loaded_def)
  have st: "stack_at ?z stk 0 (saved s)" by (rule stack_at_cong [OF x31(1)]) (use x31 in simp_all)
  have head: "loop_head config base dsb d item (m, first_state ma mx) ?z"
    unfolding loop_head_def prod.case part_rel_def consts_rel_def vars_at_def first_state_def
    using c t x w d mem ds by (simp add: p live_loaded_def pushed_def)
  show ?thesis
    unfolding loop_entered_def prod.case
    using head st t x by (simp add: live_loaded_def pushed_def)
qed

lemma runs_det:
  "exec_words fpu ws s = Some s' \<Longrightarrow> runs_to fpu rest s' Q \<Longrightarrow> runs_to fpu (ws @ rest) s Q"
  by (rule runs_append [OF runs_words [where Q = "\<lambda>y. y = s'"]]) simp_all

lemma runs_mov_then:
  "rd < 31 \<Longrightarrow> unat rd = k \<Longrightarrow> runs_to fpu rest (set_x k v s) Q \<Longrightarrow> runs_to fpu (mov_imm64 rd v @ rest) s Q"
  by (rule runs_append [OF runs_mov [where Q = "\<lambda>y. y = set_x k v s"]]) simp_all

lemma runs_loop_prologue:
  assumes call: "loop_call nb base out stk dsb item n m s"
  shows "runs_to fpu (emit_loop_prologue config ma mx d) s
    (loop_entered config nb base out stk dsb d item n (m, first_state ma mx) s)"
proof -
  let ?ws = "nreg_words (m_nreg m)"
  have c: "machine_ok m" "stack_at s stk 20 []" using call by (simp_all add: loop_call_def)
  show ?thesis
    unfolding emit_loop_prologue_def
  proof (rule runs_append [OF runs_save [OF c(2)]])
    fix x assume x: "pushed s stk 0 (saved s) x"
    let ?y = "set_x 16 base (set_x 21 nb (set_x 23 out (set_x 28 (of_nat n) (set_x 22 dsb x))))"
    let ?u = "set_x 22 (dsb + d) (set_x 0 d ?y)"
    have reg: "region (memory x) nb ?ws"
      by (rule region_apart [of "memory s" _ _ stk 160])
        (use call x nreg_words_nth(1) [OF c(1)] in \<open>simp_all add: loop_call_def blocks_apart_def pushed_def\<close>)
    have add: "exec_words fpu [add_reg X22 X22 X0] (set_x 0 d ?y) = Some ?u"
      by (simp add: jit_decode put_x_reg get_x_reg set_x_def)
    have fm: "exec_words fpu [fmov_dx D24 X0] (set_x 0 v y) = Some (set_d 24 v (set_x 0 v y))" for v y
      by (simp add: jit_decode get_x_reg)
    show "runs_to fpu ([mov_reg X22 X2, mov_reg X28 X3, mov_reg X23 X4, mov_reg X21 X0, mov_reg X16 X1] @
     mov_imm64 X0 d @ [add_reg X22 X22 X0] @
     map (\<lambda>i. ldr_imm (8 + of_nat i) X21 (of_nat i * 8)) [0..<8] @
     map (\<lambda>i. ldr_fp_imm (16 + of_nat i) X21 (192 + of_nat i * 8)) [0..<8] @
     mov_imm64 X19 (fst (e_mask config)) @ mov_imm64 X20 (snd (e_mask config)) @
     mov_imm64 X0 FSCAL_MASK @ [fmov_dx D24 X0] @
     mov_imm64 X24 (ucast ma) @ mov_imm64 X25 (ucast mx) @
     mov_imm64 X26 (ucast mx) @ mov_imm64 X27 (ucast ma)) x
     (loop_entered config nb base out stk dsb d item n (m, first_state ma mx) s)"
    proof (rule runs_det [OF loop_pointers [OF x call]], rule runs_mov_then [where k = 0], simp, simp,
        rule runs_det [OF add], rule runs_load_live)
      show "region (memory ?u) nb ?ws" "length ?ws = 32" "xr ?u 21 = nb" using reg nreg_words_nth(1) [OF c(1)] by simp_all
      fix t assume t: "live_loaded ?ws ?u t"
      show "runs_to fpu (mov_imm64 X19 (fst (e_mask config)) @ mov_imm64 X20 (snd (e_mask config)) @
          mov_imm64 X0 FSCAL_MASK @ [fmov_dx D24 X0] @
          mov_imm64 X24 (ucast ma) @ mov_imm64 X25 (ucast mx) @
          mov_imm64 X26 (ucast mx) @ mov_imm64 X27 (ucast ma)) t
          (loop_entered config nb base out stk dsb d item n (m, first_state ma mx) s)"
        by (rule runs_mov_then [where k = 19], simp, simp, rule runs_mov_then [where k = 20], simp, simp,
            rule runs_mov_then [where k = 0], simp, simp, rule runs_det, rule fm,
            rule runs_mov_then [where k = 24], simp, simp, rule runs_mov_then [where k = 25], simp, simp,
            rule runs_mov_then [where k = 26], simp, simp, rule runs_mov)
          (use loop_is_entered [OF call x t, where ma = ma and mx = mx] in simp_all)
    qed
  qed
qed

section \<open>The epilogue\<close>

lemma store_out:
  assumes reg: "region (memory s) a ws" "length ws = 4" "i < 4"
    and e: "exec_words fpu [w] s = store_word (a + of_nat (8 * i)) v s"
    and Q: "\<And>mem. region mem a (ws[i := v]) \<Longrightarrow> (\<forall>x. outside a 32 x \<longrightarrow> mem x = memory s x) \<Longrightarrow>
      runs_to fpu rest (set_mem mem s) Q"
  shows "runs_to fpu (w # rest) s Q"
proof -
  obtain mem where m: "store_word (a + of_nat (8 * i)) v s = Some (set_mem mem s)" "region mem a (ws[i := v])"
    "\<forall>x. outside a 32 x \<longrightarrow> mem x = memory s x"
    using region_store [OF reg(1), of i v] reg(2, 3) by auto
  then show ?thesis by (intro runs_Cons [OF e [unfolded m(1)]] Q)
qed

lemma runs_store_out:
  assumes reg: "region (memory s) a ws" "length ws = 4" and x: "xr s 23 = a" and vars: "vars_at ls s"
    and Q: "\<And>mem. region mem a (loop_words ls) \<Longrightarrow> (\<forall>x. outside a 32 x \<longrightarrow> mem x = memory s x) \<Longrightarrow>
      runs_to fpu rest (set_mem mem s) Q"
  shows "runs_to fpu ([str_imm X24 X23 0, str_imm X25 X23 8, str_imm X26 X23 16, str_imm X27 X23 24] @ rest) s Q"
proof -
  obtain w0 w1 w2 w3 where ws: "ws = [w0, w1, w2, w3]" using reg(2) by (auto simp: length_Suc_conv numeral_eq_Suc)
  have e: "exec_words fpu [str_imm X24 X23 0] y = store_word (a + of_nat (8 * 0)) (ucast (ls_ma ls)) y"
    "exec_words fpu [str_imm X25 X23 8] y = store_word (a + of_nat (8 * 1)) (ucast (ls_mx ls)) y"
    "exec_words fpu [str_imm X26 X23 16] y = store_word (a + of_nat (8 * 2)) (ucast (ls_sp_addr0 ls)) y"
    "exec_words fpu [str_imm X27 X23 24] y = store_word (a + of_nat (8 * 3)) (ucast (ls_sp_addr1 ls)) y"
    if "xr y = xr s" for y
    using that x vars by (simp_all add: vars_at_def jit_decode get_x_reg scaled8_def exec_words_Nil del: exec_words.simps(1))
  show ?thesis
    unfolding append.simps
    apply (rule store_out [OF reg _ e(1)], simp, simp)
    apply (rule store_out [where ws = "ws[0 := ucast (ls_ma ls)]", OF _ _ _ e(2)], simp, simp add: reg, simp, simp)
    apply (rule store_out [where ws = "ws[0 := ucast (ls_ma ls), 1 := ucast (ls_mx ls)]", OF _ _ _ e(3)], simp, simp add: reg, simp, simp)
    apply (rule store_out [where ws = "ws[0 := ucast (ls_ma ls), 1 := ucast (ls_mx ls), 2 := ucast (ls_sp_addr0 ls)]", OF _ _ _ e(4)],
        simp, simp add: reg, simp, simp)
    apply (simp only: set_mem_set_mem)
    apply (rule Q)
     apply (simp add: ws loop_words_def)
    apply simp
    done
qed

lemma runs_loop_epilogue:
  assumes call: "loop_call nb base out stk dsb item n m0 s"
    and rel: "jit_rel config base m z" and vars: "vars_at ls z" and st: "stack_at z stk 0 (saved s)"
    and regs: "xr z 21 = nb" "xr z 23 = out" "\<forall>r. 17 \<le> r \<and> r < 19 \<longrightarrow> xr z r = xr s r"
    and mem: "\<forall>x. outside stk 160 x \<and> outside base SCRATCHPAD_L3_SIZE x \<longrightarrow> memory z x = memory s x"
    and nb: "region (memory z) nb (nreg_words (m_nreg m0))" and out: "region (memory z) out ws" "length ws = 4"
    and a: "rf_a (m_nreg m0) = rf_a (m_nreg m)"
  shows "runs_to fpu (butlast emit_loop_epilogue) z (loop_result nb base out stk (m, ls) s)"
proof -
  have ok: "machine_ok m0" "machine_ok m" using call rel by (simp_all add: loop_call_def jit_rel_def)
  have ap: "blocks_apart nb base out stk dsb item" "xr s 31 = stk + 160"
    using call by (simp_all add: loop_call_def stack_at_def)
  note ap' = ap(1) [unfolded blocks_apart_def]
  have l: "length (nreg_words (m_nreg m0)) = 32" "length (m_sp m) = SCRATCHPAD_L3_SIZE" "length (loop_words ls) = 4"
    using nreg_words_nth(1) [OF ok(1)] ok(2) by (simp_all add: machine_ok_def loop_words_def)
  have code: "butlast emit_loop_epilogue = [str_imm X24 X23 0, str_imm X25 X23 8, str_imm X26 X23 16, str_imm X27 X23 24] @
      store_register_file @ butlast restore_registers"
    by (simp add: emit_loop_epilogue_def restore_registers_def butlast_append)
  show ?thesis
    unfolding code
  proof (rule runs_store_out [OF out regs(2) vars])
    fix mem1 assume m1: "region mem1 out (loop_words ls)" "\<forall>x. outside out 32 x \<longrightarrow> mem1 x = memory z x"
    let ?y = "set_mem mem1 z"
    have nb1: "region mem1 nb (nreg_words (m_nreg m0))"
      by (rule region_apart [OF nb, of out 32]) (use ap' l m1(2) in simp_all)
    have sp1: "mem_holds mem1 base (m_sp m)"
      by (rule holds_apart [of "memory z" _ _ out 32]) (use rel ap' l m1 in \<open>simp_all add: jit_rel_def\<close>)
    have st1: "stack_at ?y stk 0 (saved s)"
      by (rule stack_at_apart [OF st, of out 32]) (use ap' m1 in simp_all)
    show "runs_to fpu (store_register_file @ butlast restore_registers) ?y (loop_result nb base out stk (m, ls) s)"
    proof (rule runs_append [OF runs_store_file [of ?y nb "nreg_words (m_nreg m0)"]])
      show "region (memory ?y) nb (nreg_words (m_nreg m0))" "xr ?y 21 = nb" using nb1 regs(1) by simp_all
      show "length (nreg_words (m_nreg m0)) = 32" by (rule l)
      fix u assume "file_stored nb (put_group 16 8 (\<lambda>j. dr ?y (8 + j)) (put_group 8 8 (dr ?y)
        (put_group 0 8 (\<lambda>j. xr ?y (j + 8)) (nreg_words (m_nreg m0))))) ?y u"
      then have "file_stored nb (nreg_words (m_nreg m)) ?y u"
        using stored_words [OF ok(2) a ok(1) rel] by simp
      then obtain mem2 where u: "u = set_mem mem2 ?y" "region mem2 nb (nreg_words (m_nreg m))"
        "\<And>x. outside nb 256 x \<Longrightarrow> mem2 x = mem1 x" by (auto simp: file_stored_def)
      have sp2: "mem_holds mem2 base (m_sp m)"
        by (rule holds_apart [OF sp1, of nb 256]) (use ap' l u in simp_all)
      have out2: "region mem2 out (loop_words ls)"
        by (rule region_apart [OF m1(1), of nb 256]) (use ap' l u in simp_all)
      have st2: "stack_at u stk 0 (saved s)"
        by (rule stack_at_apart [OF st1, of nb 256]) (use ap' u in simp_all)
      show "runs_to fpu (butlast restore_registers) u (loop_result nb base out stk (m, ls) s)"
      proof (rule runs_restore [OF st2])
        fix s' assume s': "restored s (stk + 160) s'" "\<forall>r. r < 19 \<longrightarrow> xr s' r = xr u r"
          "memory s' = memory u" "fpcr s' = fpcr u"
        then show "loop_result nb base out stk (m, ls) s s'"
          unfolding loop_result_def prod.case
          using u sp2 out2 rel ap(2) regs(3) mem m1(2) by (simp add: jit_rel_def)
      qed
    qed
  qed
qed

section \<open>The whole call\<close>

lemma cbz_falls:
  assumes "code_at code p [cbz_word skip]" "xr s 28 \<noteq> 0"
  shows "a64_step fpu code (At (int p), s) = Some (At (int (p + 1)), s)"
proof -
  have "(of_nat skip AND 0x7FFFF :: u32) \<le> 0x7FFFF" by (rule word_and_le1)
  then have lt: "(of_nat skip AND 0x7FFFF :: u32) < 0x80000" by (rule le_less_trans) simp
  have "decode (cbz_word skip) = Some (CBZx 28 (offset19 (of_nat skip AND 0x7FFFF)))"
    unfolding cbz_word_def using decode_cbz [OF _ lt, of 28] by simp
  then show ?thesis using step_at [OF assms(1)] assms(2) by (simp add: exec_at_def get_x_def)
qed

lemma native_runs:
  assumes ok: "bytecode_ok bc" "config_ok config" and code: "native_loop_code bc V1 config ma mx d = Some code"
    and size: "length code < 0x40000" and d: "64 dvd unat d" "offset_ok d"
    and call: "loop_call nb base out stk dsb item n m s" and n: "0 < n" "n < 2 ^ 64"
    and run: "for_each (\<lambda>_. vm_iteration cpu V1 item (execute_bytecode fpu V1 config bc) config d) [0..<n]
       (m, first_state ma mx) = Some (m', ls')"
  shows "\<exists>s'. a64_reaches fpu code (At 0, s) (Returned (xr s 30), s') \<and> loop_result nb base out stk (m', ls') s s'"
proof -
  let ?pro = "emit_loop_prologue config ma mx d"
  obtain segs where shape: "loop_shape bc config ?pro segs code" using native_loop_shape [OF code] by blast
  let ?K = "turn_end config ?pro segs"
  obtain skip rest where eq: "code = ?pro @ [cbz_word skip] @ rest" using shape unfolding loop_shape_def by blast
  have all: "code_at code 0 (?pro @ [cbz_word skip] @ rest)" unfolding code_at_def eq by (intro exI [where x = "[]"]) simp
  note at0 = code_at_append [OF all]
  have ok0: "machine_ok m" and ap: "blocks_apart nb base out stk dsb item" using call by (simp_all add: loop_call_def)
  note ap' = ap [unfolded blocks_apart_def]
  obtain y where y: "a64_reaches fpu code (At 0, s) (At (int (length ?pro)), y)"
    "loop_entered config nb base out stk dsb d item n (m, first_state ma mx) s y"
    using runs_reaches [OF conjunct1 [OF at0] runs_loop_prologue [OF call]] by auto
  have en: "loop_head config base dsb d item (m, first_state ma mx) y" "xr y 28 = of_nat n" "xr y 21 = nb" "xr y 23 = out"
    "stack_at y stk 0 (saved s)" "\<forall>r. 17 \<le> r \<and> r < 19 \<longrightarrow> xr y r = xr s r" "\<forall>x. outside stk 160 x \<longrightarrow> memory y x = memory s x"
    using y(2) by (simp_all add: loop_entered_def)
  have "xr y 28 \<noteq> 0" using en(2) n by (simp add: word_unat_eq_iff unat_of_nat_64)
  then have step: "a64_reaches fpu code (At (int (length ?pro)), y) (At (int (length ?pro + 1)), y)"
    using conjunct1 [OF code_at_append [OF conjunct2 [OF at0]]]
    by (intro a64_reaches_step cbz_falls [where skip = skip]) simp_all
  obtain z where z: "a64_reaches fpu code (At (int (length ?pro + 1)), y) (At (int (?K + 2)), z)"
    "jit_rel config base m' z" "vars_at ls' z" "\<forall>r. 16 \<le> r \<and> (r < 24 \<or> 28 < r) \<longrightarrow> xr z r = xr y r"
    "\<forall>x. outside base SCRATCHPAD_L3_SIZE x \<longrightarrow> memory z x = memory y x"
    using loop_runs [OF shape ok size d _ en(1) run] ap' n en(2) by auto
  have nb: "region (memory z) nb (nreg_words (m_nreg m))"
  proof (rule region_apart [of "memory y" _ _ base SCRATCHPAD_L3_SIZE])
    show "region (memory y) nb (nreg_words (m_nreg m))"
      by (rule region_apart [of "memory s" _ _ stk 160])
        (use call ap' en(7) nreg_words_nth(1) [OF ok0] in \<open>simp_all add: loop_call_def\<close>)
  qed (use ap' z(5) nreg_words_nth(1) [OF ok0] in simp_all)
  obtain ws where ws: "length ws = 4" "region (memory s) out ws" using call by (auto simp: loop_call_def)
  have out: "region (memory z) out ws"
  proof (rule region_apart [of "memory y" _ _ base SCRATCHPAD_L3_SIZE])
    show "region (memory y) out ws" by (rule region_apart [OF ws(2), of stk 160]) (use ap' en(7) ws(1) in simp_all)
  qed (use ap' z(5) ws(1) in simp_all)
  have st: "stack_at z stk 0 (saved s)"
    by (rule stack_at_apart [OF en(5), of base SCRATCHPAD_L3_SIZE]) (use ap' z(4, 5) in simp_all)
  have ep: "runs_to fpu (butlast emit_loop_epilogue) z (loop_result nb base out stk (m', ls') s)"
    by (rule runs_loop_epilogue [OF call z(2, 3) st _ _ _ _ nb out ws(1)])
      (use z(4, 5) en iterations_a [OF run] in auto)
  obtain rel where tail: "code_at code ?K ([subs_imm X28 X28 1] @ [b_cond COND_NE rel] @ emit_loop_epilogue)"
    using loop_tail_at [OF shape] by blast
  have "emit_loop_epilogue = butlast emit_loop_epilogue @ [ret_lr]"
    by (simp add: emit_loop_epilogue_def restore_registers_def butlast_append)
  then have "code_at code (?K + 2) (butlast emit_loop_epilogue @ [ret_lr])"
    using conjunct2 [OF code_at_append [OF conjunct2 [OF code_at_append [OF tail]]]] by simp
  note at = code_at_append [OF this]
  obtain u where u: "a64_reaches fpu code (At (int (?K + 2)), z) (At (int (?K + 2 + length (butlast emit_loop_epilogue))), u)"
    "loop_result nb base out stk (m', ls') s u"
    using runs_reaches [OF conjunct1 [OF at] ep] by blast
  have "xr u 30 = xr s 30" using u(2) by (simp add: loop_result_def restored_def)
  then have "a64_reaches fpu code (At (int (?K + 2 + length (butlast emit_loop_epilogue))), u) (Returned (xr s 30), u)"
    using a64_reaches_step [OF ret_step [OF conjunct2 [OF at], of fpu u]] by simp
  then show ?thesis using u(2) y(1) step z(1) u(1) a64_reaches_trans by blast
qed

section \<open>From the program bytes\<close>

text \<open>The parameters that the prologue bakes in meet what the generated code relies on.\<close>

lemma program_params_ok:
  assumes "derive_program_params pb = Some (config, ma, mx, d)"
  shows "config_ok config" "offset_ok d" "64 dvd unat d" "d \<le> DATASET_EXTRA_ITEMS * 64"
proof -
  have l: "INSTRUCTIONS_OFFSET \<le> length pb" using assms by (simp add: derive_program_params_def split: if_splits)
  show "config_ok config" "offset_ok d" using derive_params_ok [OF l] assms by simp_all
  have d: "d = (entropy pb 13 mod (DATASET_EXTRA_ITEMS + 1)) * 64"
    using assms by (auto simp: derive_program_params_def Let_def CACHE_LINE_SIZE_def split: if_splits)
  have le: "unat (entropy pb 13 mod (DATASET_EXTRA_ITEMS + 1)) \<le> 524287"
    using unat_mod_less [of "DATASET_EXTRA_ITEMS + 1" "entropy pb 13"] by (simp add: DATASET_EXTRA_ITEMS_def)
  have u: "unat d = unat (entropy pb 13 mod (DATASET_EXTRA_ITEMS + 1)) * 64"
    unfolding d using le by (subst unat_mult_lem [THEN iffD1]) simp_all
  show "64 dvd unat d" by (simp add: u)
  show "d \<le> DATASET_EXTRA_ITEMS * 64" using le u by (simp add: word_le_nat_alt DATASET_EXTRA_ITEMS_def)
qed

text \<open>\<open>execute_vm_inner\<close> on its native path: the loop is compiled from the program, and called.\<close>

definition native_program ::
  "bytes \<Rightarrow> jit_compiler \<Rightarrow> (jit_compiler \<times> u32 list) option" where
  "native_program program_bytes jc = do {
     (config, ma, mx, dataset_offset) \<leftarrow> derive_program_params program_bytes;
     (bytecode, usage) \<leftarrow> compile_program program_bytes (program_size V1);
     jc \<leftarrow> compile_native_loop bytecode V1 config ma mx dataset_offset jc;
     f \<leftarrow> get_loop_fn jc;
     Some (jc, f)
   }"

definition loop_state_of :: "u64 list \<Rightarrow> loop_state" where
  "loop_state_of out = \<lparr>ls_ma = ucast (out ! 0), ls_mx = ucast (out ! 1),
     ls_sp_addr0 = ucast (out ! 2), ls_sp_addr1 = ucast (out ! 3)\<rparr>"

lemma loop_state_words: "loop_state_of (loop_words ls) = ls"
proof -
  have "ucast (ucast a :: u64) = a" for a :: u32 by (rule bit_word_eqI) (simp add: bit_simps)
  then show ?thesis by (simp add: loop_state_of_def loop_words_def)
qed

lemma native_program_runs:
  assumes "length pb = program_bytes_size V1" "dataset_ok ds"
    and call: "loop_call nb base out stk dsb (get_item ds) n (init_registers pb m) s" and n: "0 < n" "n < 2 ^ 64"
    and ok: "machine_ok m"
  shows "\<exists>jc' code m' ls' s'. native_program pb jc = Some (jc', code) \<and>
    interpret_vm fpu cpu V1 n (get_item ds) pb m = Some (m', ls') \<and>
    a64_reaches fpu code (At 0, s) (Returned (xr s 30), s') \<and> loop_result nb base out stk (m', ls') s s'"
proof -
  have len: "INSTRUCTIONS_OFFSET + program_size V1 * 8 \<le> length pb" "INSTRUCTIONS_OFFSET \<le> length pb"
    using assms(1) by (simp_all add: program_bytes_size_def)
  obtain config ma mx d where p: "derive_program_params pb = Some (config, ma, mx, d)"
    using derive_params_ok [OF len(2)] by (auto simp: returns_iff)
  obtain bc usage where c: "compile_program pb (program_size V1) = Some (bc, usage)"
    "bytecode_ok bc" "length bc = program_size V1"
    using compile_program_gen [OF len(1) program_size_fits] by (auto simp: returns_iff)
  have "length bc \<le> RANDOMX_PROGRAM_SIZE_MAX" using c(3) by (simp add: RANDOMX_PROGRAM_SIZE_def RANDOMX_PROGRAM_SIZE_MAX_def)
  then obtain code where code: "native_loop_code bc V1 config ma mx d = Some code" "length code * 4 \<le> JIT_CODE_SIZE"
    using native_loop_total [OF c(2) _ program_params_ok(4) [OF p]] by blast
  have np: "\<exists>jc'. native_program pb jc = Some (jc', code)"
    using p c(1) code by (simp add: native_program_def compile_native_loop_def write_code_def get_loop_fn_def)
  have size: "length code < 0x40000" using code(2) by (simp add: JIT_CODE_SIZE_def)
  have src: "line_source_ok ([], [], Some ds)" using assms(2) by (simp add: line_source_ok_def)
  have "dataset_line [] [] (Some ds) = get_item ds" by (rule ext) (simp add: dataset_line_def)
  then obtain m' ls' where run: "interpret_vm fpu cpu V1 n (get_item ds) pb m = Some (m', ls')"
    using execute_vm_ok [OF src ok assms(1), of fpu cpu n] by (auto simp: returns_iff)
  have "for_each (\<lambda>_. vm_iteration cpu V1 (get_item ds) (execute_bytecode fpu V1 config bc) config d) [0..<n]
      (init_registers pb m, first_state ma mx) = Some (m', ls')"
    using run p c(1) by (simp add: interpret_vm_def Let_def first_state_def)
  then show ?thesis
    using native_runs [OF c(2) program_params_ok(1) [OF p] code(1) size program_params_ok(3, 2) [OF p] call n] np run by blast
qed

section \<open>A call with everything zero\<close>

text \<open>The hypotheses can hold: memory is zero but for the register file at \<open>0x1000\<close>, a zero dataset
  lies at \<open>0x1000000000\<close>.\<close>

definition memory_with :: "u64 \<Rightarrow> u64 list \<Rightarrow> u64 \<Rightarrow> u8 option" where
  "memory_with a ws x = (if unat (x - a) < 8 * length ws then Some (words_bytes ws ! unat (x - a)) else Some 0)"

lemma memory_with_region:
  assumes "8 * length ws < 2 ^ 64"
  shows "region (memory_with a ws) a ws"
  unfolding region_def mem_holds_def
proof (intro allI impI)
  fix i assume "i < length (words_bytes ws)"
  then show "memory_with a ws (a + of_nat i) = Some (words_bytes ws ! i)"
    using assms by (simp add: memory_with_def unat_of_nat_64)
qed

lemma memory_with_zero:
  assumes "8 * length ws \<le> n"
  shows "apart a n b k \<Longrightarrow> mem_holds (memory_with a ws) b (replicate k 0)"
    and "apart a n b (8 * j) \<Longrightarrow> region (memory_with a ws) b (replicate j 0)"
proof -
  have o: "outside a n x \<Longrightarrow> memory_with a ws x = Some 0" for x using assms by (simp add: memory_with_def outside_def)
  show "apart a n b k \<Longrightarrow> mem_holds (memory_with a ws) b (replicate k 0)"
    by (rule holds_apart [OF zero_region(1), of a n]) (use o in simp_all)
  show "apart a n b (8 * j) \<Longrightarrow> region (memory_with a ws) b (replicate j 0)"
    by (rule region_apart [OF zero_region(2), of a n]) (use o in simp_all)
qed

definition zero_dataset :: "u64 list list" where
  "zero_dataset = replicate DATASET_ITEM_COUNT (replicate 8 0)"

lemma zero_dataset_ok: "dataset_ok zero_dataset"
  by (simp add: dataset_ok_def zero_dataset_def)

lemma zero_dataset_item: "get_item zero_dataset k = Some line \<Longrightarrow> line = replicate 8 0 \<and> unat k < DATASET_ITEM_COUNT"
  by (auto simp: get_item_def at_index_def zero_dataset_def split: if_splits)

lemma zero_dataset_apart:
  assumes "unat (0x1000000000 - a) + 64 * DATASET_ITEM_COUNT \<le> 2 ^ 64" "n \<le> unat (0x1000000000 - a)"
  shows "ds_apart a n 0x1000000000 (get_item zero_dataset)"
  unfolding ds_apart_def
proof (intro allI impI)
  fix k line assume "get_item zero_dataset k = Some line"
  then have k: "unat k < DATASET_ITEM_COUNT" by (rule zero_dataset_item [THEN conjunct2])
  have m: "unat (64 * k) = 64 * unat k" using k by (subst unat_mult_lem [THEN iffD1]) (simp_all add: DATASET_ITEM_COUNT_value)
  have e: "0x1000000000 + 64 * k - a = (0x1000000000 - a) + 64 * k" by simp
  have u: "unat (0x1000000000 + 64 * k - a) = unat (0x1000000000 - a) + 64 * unat k"
    unfolding e using k assms(1) m by (subst unat_add_lem [THEN iffD1]) simp_all
  show "apart a n (0x1000000000 + 64 * k) 64" by (rule apart_far) (use u k assms in simp_all)
qed

lemma zero_machine_ok: "machine_ok zero_machine"
  by (simp add: machine_ok_def zero_machine_def nreg_new_def reg_counts)

definition zero_loop_state :: "machine \<Rightarrow> nat \<Rightarrow> a64_state" where
  "zero_loop_state m n = zero_state\<lparr>xr := (xr zero_state)(2 := 0x1000000000, 3 := of_nat n),
     memory := memory_with 0x1000 (nreg_words (m_nreg m))\<rparr>"

lemma zero_loop_call:
  assumes "INSTRUCTIONS_OFFSET \<le> length pb"
  shows "loop_call 0x1000 0x10000000 0x4000 0x3000 0x1000000000 (get_item zero_dataset) n (init_registers pb zero_machine)
    (zero_loop_state (init_registers pb zero_machine) n)"
proof -
  let ?m = "init_registers pb zero_machine"
  have ok: "machine_ok ?m" 
    by (simp add: machine_ok_def zero_machine_def nreg_new_def reg_counts init_registers_def)
  have l: "length (nreg_words (m_nreg ?m)) = 32" by (rule nreg_words_nth(1) [OF ok])
  have r: "region (memory_with 0x1000 (nreg_words (m_nreg ?m))) 0x1000 (nreg_words (m_nreg ?m))"
    by (rule memory_with_region) (simp add: l)
  have z: "apart 0x1000 256 b k \<Longrightarrow> mem_holds (memory_with 0x1000 (nreg_words (m_nreg ?m))) b (replicate k 0)"
    "apart 0x1000 256 b (8 * j) \<Longrightarrow> region (memory_with 0x1000 (nreg_words (m_nreg ?m))) b (replicate j 0)" for b k j
    using memory_with_zero [of "nreg_words (m_nreg ?m)" 256 "0x1000" b] l by simp_all
  have far: "ds_apart 0x1000 256 0x1000000000 (get_item zero_dataset)"
    "ds_apart 0x3000 160 0x1000000000 (get_item zero_dataset)"
    "ds_apart 0x10000000 SCRATCHPAD_L3_SIZE 0x1000000000 (get_item zero_dataset)"
    by (rule zero_dataset_apart; simp add: DATASET_ITEM_COUNT_value SCRATCHPAD_L3_SIZE_def)+
  have ds: "ds_at (memory_with 0x1000 (nreg_words (m_nreg ?m))) 0x1000000000 (get_item zero_dataset)"
    unfolding ds_at_def
  proof (intro allI impI)
    fix k line assume k: "get_item zero_dataset k = Some line"
    then have "line = replicate 8 0" "apart 0x1000 256 (0x1000000000 + 64 * k) (8 * 8)"
      using zero_dataset_item [OF k] far(1) by (simp_all add: ds_apart_def)
    then show "length line = 8 \<and> region (memory_with 0x1000 (nreg_words (m_nreg ?m))) (0x1000000000 + 64 * k) line"
      using z(2) [of "0x1000000000 + 64 * k" 8] by simp
  qed
  have st: "stack_at (zero_loop_state ?m n) 0x3000 20 []"
    unfolding stack_at_def
    by (intro conjI exI [where x = "replicate 20 0"])
      (simp_all add: zero_loop_state_def zero_state_def z apart_far)
  have out: "\<exists>ws. length ws = 4 \<and> region (memory_with 0x1000 (nreg_words (m_nreg ?m))) 0x4000 ws"
    by (rule exI [where x = "replicate 4 0"]) (simp add: z apart_far)
  have sp: "mem_holds (memory_with 0x1000 (nreg_words (m_nreg ?m))) 0x10000000 (m_sp ?m)"
    using z(1) [of "0x10000000" SCRATCHPAD_L3_SIZE] by (simp add: init_registers_def zero_machine_def apart_far SCRATCHPAD_L3_SIZE_def)
  have ap: "blocks_apart 0x1000 0x10000000 0x4000 0x3000 0x1000000000 (get_item zero_dataset)"
    unfolding blocks_apart_def using far by (simp add: apart_far SCRATCHPAD_L3_SIZE_def)
  show ?thesis
    unfolding loop_call_def
    using ok r ds st out sp ap by (simp add: zero_loop_state_def zero_state_def init_registers_def zero_machine_def)
qed

end
