(* ===== verification/Vm_Execute.thy ===== *)
theory Vm_Execute
  imports Jit_Native
begin

text \<open>
  \<open>src/randomx/vm.rs\<close>: the floating-point control word (\<open>save_rounding_mode\<close>,
  \<open>set_rounding_mode\<close>, \<open>restore_rounding_mode\<close>) and \<open>execute_vm_inner\<close> as a whole, with its three
  ways to run a program: the native loop, the per-iteration body JIT and the interpreter. Compiled
  code runs on the processor model of \<open>A64\<close>: the objects the call passes by pointer are laid out
  in memory (\<open>placement\<close>), the code runs until it returns, and the objects are read back. A call
  that does not return, returns elsewhere or clobbers a callee-saved register is \<open>None\<close>. The
  theorem is that all three ways give what \<open>interpret_vm\<close> gives, \<open>LoopState\<close> included.
\<close>

section \<open>The control word\<close>

text \<open>FPCR on aarch64, MXCSR elsewhere; the upper half of FPCR is reserved, so the word has 32
  bits. (Targets other than these two do not build.)\<close>

definition RX_MXCSR_DEFAULT :: u32 where "RX_MXCSR_DEFAULT = 0x9FC0"

definition fpcr_rmode :: "u32 \<Rightarrow> u64" where
  "fpcr_rmode mode =
     (let m = mode AND 3 in if m = 0 then 0 else if m = 1 then 2 else if m = 2 then 1 else 3)"

definition save_rounding_mode :: "cpu \<Rightarrow> u32 \<Rightarrow> u32" where
  "save_rounding_mode cpu fp_control =
     (if cpu_arch cpu = Aarch64 then (let fpcr = ucast fp_control :: u64 in ucast fpcr) else fp_control)"

definition set_rounding_mode :: "cpu \<Rightarrow> u32 \<Rightarrow> u32 \<Rightarrow> u32" where
  "set_rounding_mode cpu mode fp_control =
     (if cpu_arch cpu = Aarch64
      then (let fpcr = ucast fp_control :: u64
            in ucast ((fpcr AND NOT (push_bit 22 7)) OR push_bit 24 1 OR push_bit 22 (fpcr_rmode mode)))
      else RX_MXCSR_DEFAULT OR push_bit 13 (mode AND 3))"

definition restore_rounding_mode :: "cpu \<Rightarrow> u32 \<Rightarrow> u32 \<Rightarrow> u32" where
  "restore_rounding_mode cpu saved_rm fp_control =
     (if cpu_arch cpu = Aarch64 then (let fpcr = ucast saved_rm :: u64 in ucast fpcr) else saved_rm)"

lemma restore_saved [simp]: "restore_rounding_mode cpu (save_rounding_mode cpu c) c' = c"
proof -
  have "ucast (ucast x :: u64) = x" for x :: u32 by (rule bit_word_eqI) (simp add: bit_simps)
  then show ?thesis by (simp add: save_rounding_mode_def restore_rounding_mode_def Let_def)
qed

text \<open>The mode in which the arithmetic of \<open>fpu\<close> runs under a control word; none when flushing to
  zero or the rounding field is not as \<open>set_rounding_mode\<close> leaves them. The exception flags of
  MXCSR and the bits of FPCR that the program never writes do not count.\<close>

definition control_field :: "cpu \<Rightarrow> u32" where
  "control_field cpu = (if cpu_arch cpu = Aarch64 then push_bit 22 7 else NOT 0x3F)"

definition control_mode :: "cpu \<Rightarrow> u32 \<Rightarrow> nat option" where
  "control_mode cpu fp_control =
     find (\<lambda>rm. fp_control AND control_field cpu = set_rounding_mode cpu (of_nat rm) 0 AND control_field cpu) [0..<4]"

lemma set_mode_field:
  "set_rounding_mode cpu mode c AND control_field cpu = set_rounding_mode cpu mode 0 AND control_field cpu"
proof (cases "cpu_arch cpu = Aarch64")
  case True
  have "((ucast ((ucast c :: u64) AND NOT (push_bit 22 7) OR x) :: u32)) AND push_bit 22 7 = ucast x AND push_bit 22 7" for x
    by (rule bit_word_eqI) (auto simp: bit_simps)
  note e = this [of "push_bit 24 1 OR push_bit 22 (fpcr_rmode mode)"]
  show ?thesis using True e by (simp add: set_rounding_mode_def control_field_def Let_def or.assoc)
qed (simp add: set_rounding_mode_def)

text \<open>Setting a mode makes it the mode of the arithmetic, whatever the word was.\<close>

lemma control_mode_set: "rm < 4 \<Longrightarrow> control_mode cpu (set_rounding_mode cpu (of_nat rm) c) = Some rm"
proof -
  assume "rm < 4"
  then have r: "rm = 0 \<or> rm = 1 \<or> rm = 2 \<or> rm = 3" by arith
  have d: "[0..<4] = [0, 1, 2, 3 :: nat]" by (simp add: upt_rec)
  show ?thesis
    using r unfolding control_mode_def set_mode_field [of cpu _ c] d
    by (elim disjE; cases "cpu_arch cpu = Aarch64")
      (simp_all add: set_rounding_mode_def control_field_def fpcr_rmode_def RX_MXCSR_DEFAULT_def Let_def)
qed

section \<open>Where the objects of a call lie\<close>

text \<open>The addresses of the register file, the scratchpad, the dataset, the configuration, the
  \<open>LoopState\<close> buffer and the free stack below the stack pointer, what that stack holds, and the
  caller's registers with the rest of its memory.\<close>

record place =
  pl_nreg :: u64
  pl_scratchpad :: u64
  pl_dataset :: u64
  pl_config :: u64
  pl_out :: u64
  pl_stack :: u64
  pl_frame :: "u64 list"
  pl_caller :: a64_state

definition apart2 :: "u64 \<Rightarrow> nat \<Rightarrow> u64 \<Rightarrow> nat \<Rightarrow> bool" where
  "apart2 a n b k \<longleftrightarrow> apart a n b k \<and> apart b k a n"

fun all_apart :: "(u64 \<times> nat) list \<Rightarrow> bool" where
  "all_apart [] = True"
| "all_apart ((a, n) # bs) = (list_all (\<lambda>(b, k). apart2 a n b k) bs \<and> all_apart bs)"

definition place_ok :: "place \<Rightarrow> bool" where
  "place_ok p \<longleftrightarrow> length (pl_frame p) = 20 \<and>
     all_apart [(pl_nreg p, 256), (pl_scratchpad p, SCRATCHPAD_L3_SIZE), (pl_dataset p, 64 * DATASET_ITEM_COUNT),
       (pl_config p, 48), (pl_out p, 32), (pl_stack p, 160)]"

text \<open>Rust's allocator and stack never hand out overlapping blocks, so a placement is one where
  they do not overlap. There is one: the addresses of the example call of \<open>Jit_Native\<close>.\<close>

definition zero_place :: place where
  "zero_place = \<lparr>pl_nreg = 0x1000, pl_scratchpad = 0x10000000, pl_dataset = 0x1000000000, pl_config = 0x2000,
     pl_out = 0x4000, pl_stack = 0x3000, pl_frame = replicate 20 0, pl_caller = zero_state\<rparr>"

lemma zero_place_ok: "place_ok zero_place"
  unfolding place_ok_def
  by (simp add: zero_place_def apart2_def apart_far SCRATCHPAD_L3_SIZE_def DATASET_ITEM_COUNT_value)

typedef placement = "{p. place_ok p}"
  morphisms place_of Placement
  using zero_place_ok by blast

lemma place_of_ok: "place_ok (place_of pl)"
  using place_of [of pl] by simp

section \<open>Memory with the objects in it\<close>

definition put_block :: "u64 \<Rightarrow> bytes \<Rightarrow> (u64 \<Rightarrow> u8 option) \<Rightarrow> u64 \<Rightarrow> u8 option" where
  "put_block a bs mem = (\<lambda>x. if unat (x - a) < length bs then Some (bs ! unat (x - a)) else mem x)"

fun put_blocks :: "(u64 \<times> bytes) list \<Rightarrow> (u64 \<Rightarrow> u8 option) \<Rightarrow> u64 \<Rightarrow> u8 option" where
  "put_blocks [] mem = mem"
| "put_blocks ((a, bs) # rest) mem = put_block a bs (put_blocks rest mem)"

lemma put_block_holds: "length bs < 2 ^ 64 \<Longrightarrow> mem_holds (put_block a bs mem) a bs"
  by (simp add: mem_holds_def put_block_def unat_of_nat_64)

lemma put_block_outside: "outside a (length bs) x \<Longrightarrow> put_block a bs mem x = mem x"
  by (simp add: put_block_def outside_def)

lemma put_blocks_holds:
  assumes "all_apart (map (\<lambda>(a, bs). (a, length bs)) blocks)" "(a, bs) \<in> set blocks" "length bs < 2 ^ 64"
  shows "mem_holds (put_blocks blocks mem) a bs"
  using assms(1, 2)
proof (induction blocks)
  case (Cons x blocks)
  obtain b cs where x: "x = (b, cs)" by (cases x)
  show ?case
  proof (cases "(a, bs) = (b, cs)")
    case True
    then show ?thesis using put_block_holds [OF assms(3)] by (simp add: x)
  next
    case False
    then have "(a, bs) \<in> set blocks" "all_apart (map (\<lambda>(a, bs). (a, length bs)) blocks)"
      using Cons.prems x by auto
    moreover from this have "apart b (length cs) a (length bs)"
      using Cons.prems x by (auto simp: list_all_iff apart2_def)
    ultimately show ?thesis
      using Cons.IH unfolding x put_blocks.simps by (intro holds_apart [OF _ _ put_block_outside])
  qed
qed simp

text \<open>The dataset is one block, item after item.\<close>

definition dataset_bytes :: "u64 list list \<Rightarrow> bytes" where
  "dataset_bytes ds = concat (map words_bytes ds)"

lemma concat_words:
  "list_all (\<lambda>l. length l = 8) ds \<Longrightarrow> length (dataset_bytes ds) = 64 * length ds \<and>
     (\<forall>j < length ds. \<forall>i < 64. dataset_bytes ds ! (64 * j + i) = words_bytes (ds ! j) ! i)"
proof (induction ds)
  case (Cons l ds)
  have "dataset_bytes (l # ds) ! (64 * j + i) = words_bytes ((l # ds) ! j) ! i"
    if "j < Suc (length ds)" "i < 64" for j i
  proof (cases j)
    case 0
    then show ?thesis using that Cons.prems by (simp add: dataset_bytes_def nth_append)
  next
    case (Suc k)
    then have "dataset_bytes (l # ds) ! (64 * j + i) = dataset_bytes ds ! (64 * k + i)"
      using Cons.prems by (simp add: dataset_bytes_def nth_append)
    then show ?thesis using that Suc Cons by simp
  qed
  then show ?case using Cons by (simp add: dataset_bytes_def)
qed (simp add: dataset_bytes_def)

lemma dataset_in_memory:
  assumes "dataset_ok ds" "mem_holds mem dsb (dataset_bytes ds)"
  shows "ds_at mem dsb (get_item ds)"
  unfolding ds_at_def
proof (intro allI impI)
  fix k line assume "get_item ds k = Some line"
  then have k: "unat k < length ds" "line = ds ! unat k"
    by (auto simp: get_item_def at_index_def split: if_splits)
  have len: "length line = 8" using assms(1) k by (simp add: dataset_ok_def)
  have all: "list_all (\<lambda>l. length l = 8) ds" using assms(1) by (simp add: dataset_ok_def list_all_iff)
  note cw = concat_words [OF all]
  have at: "mem (dsb + 64 * k + of_nat i) = Some (words_bytes line ! i)" if i: "i < 64" for i
  proof -
    have "mem (dsb + of_nat (64 * unat k + i)) = Some (dataset_bytes ds ! (64 * unat k + i))"
      using assms(2) [unfolded mem_holds_def, rule_format, of "64 * unat k + i"] cw k(1) i
      by (simp del: of_nat_add of_nat_mult)
    moreover have "dsb + of_nat (64 * unat k + i) = dsb + 64 * k + of_nat i" by simp
    moreover have "dataset_bytes ds ! (64 * unat k + i) = words_bytes line ! i"
      using cw k i by simp
    ultimately show ?thesis by (simp only:)
  qed
  show "length line = 8 \<and> region mem (dsb + 64 * k) line"
    using len at by (simp add: region_def mem_holds_def)
qed

lemma item_apart:
  assumes "apart a n dsb (64 * DATASET_ITEM_COUNT)" "dataset_ok ds"
  shows "ds_apart a n dsb (get_item ds)"
  unfolding ds_apart_def
proof (intro allI impI)
  fix k line assume "get_item ds k = Some line"
  then have k: "unat k < DATASET_ITEM_COUNT"
    using assms(2) by (auto simp: get_item_def at_index_def dataset_ok_def split: if_splits)
  have "outside a n (dsb + 64 * k + of_nat i)" if "i < 64" for i
  proof -
    have "outside a n (dsb + of_nat (64 * unat k + i))"
      using assms(1) [unfolded apart_def, rule_format, of "64 * unat k + i"] k that
      by (simp del: of_nat_add of_nat_mult)
    moreover have "dsb + of_nat (64 * unat k + i) = dsb + 64 * k + of_nat i" by simp
    ultimately show ?thesis by (simp only:)
  qed
  then show "apart a n (dsb + 64 * k) 64" by (simp add: apart_def)
qed

section \<open>Calling compiled code\<close>

text \<open>Running until the code returns; the loop may not end, so it is a \<open>partial_function\<close>.\<close>

partial_function (option) a64_run ::
  "fpu \<Rightarrow> u32 list \<Rightarrow> control \<times> a64_state \<Rightarrow> (u64 \<times> a64_state) option" where
  "a64_run fpu code c =
     (case fst c of
        Returned a \<Rightarrow> Some (a, snd c)
      | At pc \<Rightarrow> Option.bind (a64_step fpu code c) (\<lambda>c'. a64_run fpu code c'))"

declare a64_run.simps [code]

lemma a64_run_steps: "a64_steps fpu code n c = Some (Returned a, s') \<Longrightarrow> a64_run fpu code c = Some (a, s')"
proof (induction n arbitrary: c)
  case 0
  then show ?case by (simp add: a64_run.simps)
next
  case (Suc n)
  then obtain c' where c': "a64_step fpu code c = Some c'" "a64_steps fpu code n c' = Some (Returned a, s')"
    by (auto split: Option.bind_splits)
  obtain pc where "fst c = At pc" using c'(1) by (auto simp: a64_step_def split: control.splits prod.splits)
  then show ?case using c'(1) Suc.IH [OF c'(2)] by (subst a64_run.simps) simp
qed

lemma a64_run_reaches: "a64_reaches fpu code c (Returned a, s') \<Longrightarrow> a64_run fpu code c = Some (a, s')"
  unfolding a64_reaches_def using a64_run_steps by blast

text \<open>What the caller relies on: the callee-saved registers, the frame pointer, the link register
  and the stack pointer, and the lower halves of \<open>v8 .. v15\<close>.\<close>

definition abi_kept :: "a64_state \<Rightarrow> a64_state \<Rightarrow> bool" where
  "abi_kept s s' \<longleftrightarrow> list_all (\<lambda>r. xr s' r = xr s r) [19..<32] \<and> list_all (\<lambda>q. dr s' q = dr s q) [8..<16]"

definition call_code :: "fpu \<Rightarrow> u32 list \<Rightarrow> a64_state \<Rightarrow> a64_state option" where
  "call_code fpu code s = do {
     (a, s') \<leftarrow> a64_run fpu code (At 0, s);
     if a = xr s 30 \<and> abi_kept s s' then Some s' else None
   }"

lemma restored_abi: "restored s (xr s 31) s' \<Longrightarrow> abi_kept s s'"
proof -
  assume r: "restored s (xr s 31) s'"
  have "xr s' r = xr s r" if "19 \<le> r" "r < 32" for r
  proof (cases "r = 31")
    case False
    then show ?thesis using r that by (simp add: restored_def)
  qed (use r in \<open>simp add: restored_def\<close>)
  then show ?thesis using r by (simp add: abi_kept_def list_all_iff restored_def)
qed

lemma call_code_returns:
  "a64_reaches fpu code (At 0, s) (Returned (xr s 30), s') \<Longrightarrow> restored s (xr s 31) s' \<Longrightarrow>
     call_code fpu code s = Some s'"
  by (simp add: call_code_def a64_run_reaches restored_abi)

text \<open>The configuration as \<open>repr(C)\<close> lays it out.\<close>

definition config_words :: "program_configuration \<Rightarrow> u64 list" where
  "config_words config = [fst (e_mask config), snd (e_mask config), of_nat (read_reg0 config),
     of_nat (read_reg1 config), of_nat (read_reg2 config), of_nat (read_reg3 config)]"

definition loop_blocks :: "place \<Rightarrow> u64 list list \<Rightarrow> u64 list \<Rightarrow> machine \<Rightarrow> (u64 \<times> bytes) list" where
  "loop_blocks p ds out m =
     [(pl_nreg p, words_bytes (nreg_words (m_nreg m))), (pl_scratchpad p, m_sp m),
      (pl_dataset p, dataset_bytes ds), (pl_out p, words_bytes out), (pl_stack p, words_bytes (pl_frame p))]"

definition body_blocks :: "place \<Rightarrow> program_configuration \<Rightarrow> machine \<Rightarrow> (u64 \<times> bytes) list" where
  "body_blocks p config m =
     [(pl_nreg p, words_bytes (nreg_words (m_nreg m))), (pl_scratchpad p, m_sp m),
      (pl_config p, words_bytes (config_words config)), (pl_stack p, words_bytes (pl_frame p))]"

text \<open>The state when the function is entered: the arguments in \<open>x0\<close> and up.\<close>

definition entry_state :: "place \<Rightarrow> u64 list \<Rightarrow> (u64 \<times> bytes) list \<Rightarrow> machine \<Rightarrow> a64_state" where
  "entry_state p args blocks m =
     (pl_caller p)\<lparr>xr := (\<lambda>r. if r < length args then args ! r
                            else if r = 31 then pl_stack p + 160 else xr (pl_caller p) r),
       fpcr := rx_fpcr (m_rm m), memory := put_blocks blocks (memory (pl_caller p))\<rparr>"

definition read_words :: "a64_state \<Rightarrow> u64 \<Rightarrow> nat \<Rightarrow> u64 list option" where
  "read_words s a n = map_all (\<lambda>i. load_word s (a + of_nat (8 * i))) [0..<n]"

definition words_pairs :: "u64 list \<Rightarrow> f128 list" where
  "words_pairs ws = map (\<lambda>i. (ws ! (2 * i), ws ! (2 * i + 1))) [0..<4]"

definition nreg_of_words :: "u64 list \<Rightarrow> native_register_file" where
  "nreg_of_words ws = \<lparr>rf_r = take 8 ws, rf_f = words_pairs (drop 8 ws), rf_e = words_pairs (drop 16 ws),
     rf_a = words_pairs (drop 24 ws)\<rparr>"

definition read_machine :: "place \<Rightarrow> a64_state \<Rightarrow> machine option" where
  "read_machine p s = do {
     ws \<leftarrow> read_words s (pl_nreg p) 32;
     sp \<leftarrow> load_mem (memory s) (pl_scratchpad p) SCRATCHPAD_L3_SIZE;
     rm \<leftarrow> fp_mode (fpcr s);
     Some \<lparr>m_nreg = nreg_of_words ws, m_sp = sp, m_rm = rm\<rparr>
   }"

text \<open>\<open>f(nreg, scratchpad, ds.as_ptr(), iterations, out.as_mut_ptr())\<close> and
  \<open>f(nreg, scratchpad, &config)\<close>.\<close>

definition call_loop ::
  "fpu \<Rightarrow> placement \<Rightarrow> u32 list \<Rightarrow> u64 list list \<Rightarrow> nat \<Rightarrow> machine \<Rightarrow> (machine \<times> u64 list) option" where
  "call_loop fpu pl f ds iterations m = (let p = place_of pl; out = [0, 0, 0, 0] in do {
     s \<leftarrow> call_code fpu f (entry_state p
       [pl_nreg p, pl_scratchpad p, pl_dataset p, of_nat iterations, pl_out p] (loop_blocks p ds out m) m);
     m \<leftarrow> read_machine p s;
     out \<leftarrow> read_words s (pl_out p) 4;
     Some (m, out)
   })"

definition call_body ::
  "fpu \<Rightarrow> placement \<Rightarrow> u32 list \<Rightarrow> program_configuration \<Rightarrow> machine \<Rightarrow> machine option" where
  "call_body fpu pl f config m = (let p = place_of pl in do {
     s \<leftarrow> call_code fpu f (entry_state p [pl_nreg p, pl_scratchpad p, pl_config p] (body_blocks p config m) m);
     read_machine p s
   })"

section \<open>execute_vm_inner\<close>

definition native_loop_applies :: "bool \<Rightarrow> rx_version \<Rightarrow> bool \<Rightarrow> bool \<Rightarrow> bool" where
  "native_loop_applies use_native_loop version has_dataset has_jit \<longleftrightarrow>
     use_native_loop \<and> version = V1 \<and> has_dataset \<and> has_jit"

text \<open>The body function, where there is a compiler: aarch64 only.\<close>

definition compile_body ::
  "cpu \<Rightarrow> rx_version \<Rightarrow> bytecode_instruction list \<Rightarrow> jit_compiler option \<Rightarrow>
     (jit_compiler option \<times> u32 list option) option" where
  "compile_body cpu version bytecode jit =
     (if cpu_arch cpu = Aarch64 then
        (case jit of
           None \<Rightarrow> Some (None, None)
         | Some jc \<Rightarrow> do {
             jc \<leftarrow> jit_compile bytecode version jc;
             f \<leftarrow> get_fn jc;
             Some (Some jc, Some f)
           })
      else Some (jit, None))"

definition run_body ::
  "fpu \<Rightarrow> placement \<Rightarrow> rx_version \<Rightarrow> program_configuration \<Rightarrow> bytecode_instruction list \<Rightarrow>
     u32 list option \<Rightarrow> machine \<Rightarrow> machine option" where
  "run_body fpu pl version config bytecode jit_fn m =
     (case jit_fn of
        Some f \<Rightarrow> call_body fpu pl f config m
      | None \<Rightarrow> execute_bytecode fpu version config bytecode m)"

definition execute_vm_inner ::
  "fpu \<Rightarrow> cpu \<Rightarrow> placement \<Rightarrow> bytes \<Rightarrow> ss_program list \<Rightarrow> u64 list list option \<Rightarrow> jit_compiler option \<Rightarrow>
     rx_version \<Rightarrow> nat \<Rightarrow> bool \<Rightarrow> bytes \<Rightarrow> machine \<Rightarrow> (machine \<times> loop_state \<times> jit_compiler option) option"
  where
  "execute_vm_inner fpu cpu pl cache_memory ss_programs dataset jit version iterations use_native_loop
     program_bytes m = do {
     let m = init_registers program_bytes m;
     (config, ma, mx, dataset_offset) \<leftarrow> derive_program_params program_bytes;
     (bytecode, usage) \<leftarrow> compile_program program_bytes (program_size version);
     if cpu_arch cpu = Aarch64 \<and> native_loop_applies use_native_loop version (dataset \<noteq> None) (jit \<noteq> None)
     then do {
       ds \<leftarrow> dataset;
       jc \<leftarrow> jit;
       jc \<leftarrow> compile_native_loop bytecode version config ma mx dataset_offset jc;
       f \<leftarrow> get_loop_fn jc;
       (m, out) \<leftarrow> call_loop fpu pl f ds iterations m;
       Some (m, \<lparr>ls_ma = ucast (out ! 0), ls_mx = ucast (out ! 1), ls_sp_addr0 = ucast (out ! 2),
                ls_sp_addr1 = ucast (out ! 3)\<rparr>, Some jc)
     }
     else do {
       (jit, jit_fn) \<leftarrow> compile_body cpu version bytecode jit;
       (m, ls) \<leftarrow> for_each (\<lambda>_. vm_iteration cpu version (dataset_line cache_memory ss_programs dataset)
           (run_body fpu pl version config bytecode jit_fn) config dataset_offset) [0..<iterations]
         (m, \<lparr>ls_ma = ma, ls_mx = mx, ls_sp_addr0 = mx, ls_sp_addr1 = ma\<rparr>);
       Some (m, ls, jit)
     }
   }"

section \<open>The calls return what the interpreter computes\<close>

lemma read_words_region: "region (memory s) a ws \<Longrightarrow> read_words s a (length ws) = Some ws"
proof -
  assume r: "region (memory s) a ws"
  have "map_all (\<lambda>i. load_word s (a + of_nat (8 * i))) [0..<length ws] =
      Some (map (\<lambda>i. the (load_word s (a + of_nat (8 * i)))) [0..<length ws])"
    by (rule map_all_Some) (use region_load [OF r] in auto)
  also have "map (\<lambda>i. the (load_word s (a + of_nat (8 * i)))) [0..<length ws] = ws"
    by (rule nth_equalityI) (use region_load [OF r] in \<open>simp_all del: of_nat_mult\<close>)
  finally show ?thesis by (simp add: read_words_def)
qed

lemma words_pairs_words:
  assumes "length ps = 4"
  shows "words_pairs (pair_words ps @ rest) = ps"
  by (rule nth_equalityI) (use assms pair_words_nth [of _ ps] in \<open>simp_all add: words_pairs_def nth_append\<close>)

lemma nreg_words_back:
  assumes "machine_ok m"
  shows "nreg_of_words (nreg_words (m_nreg m)) = m_nreg m"
proof -
  have l: "length (rf_r (m_nreg m)) = 8" "length (rf_f (m_nreg m)) = 4" "length (rf_e (m_nreg m)) = 4"
    "length (rf_a (m_nreg m)) = 4" using assms by (simp_all add: machine_ok_def)
  have d: "drop 8 (nreg_words (m_nreg m)) = pair_words (rf_f (m_nreg m)) @ pair_words (rf_e (m_nreg m)) @ pair_words (rf_a (m_nreg m))"
    "drop 16 (nreg_words (m_nreg m)) = pair_words (rf_e (m_nreg m)) @ pair_words (rf_a (m_nreg m)) @ []"
    "drop 24 (nreg_words (m_nreg m)) = pair_words (rf_a (m_nreg m)) @ []"
    using l by (simp_all add: nreg_words_def)
  have t: "take 8 (nreg_words (m_nreg m)) = rf_r (m_nreg m)" using l by (simp add: nreg_words_def)
  show ?thesis unfolding nreg_of_words_def d t using l by (simp only: words_pairs_words) simp
qed

lemma read_machine_back:
  assumes "machine_ok m" "region (memory s) (pl_nreg p) (nreg_words (m_nreg m))"
    "mem_holds (memory s) (pl_scratchpad p) (m_sp m)" "fpcr s = rx_fpcr (m_rm m)"
  shows "read_machine p s = Some m"
proof -
  have "read_words s (pl_nreg p) 32 = Some (nreg_words (m_nreg m))"
    using read_words_region [OF assms(2)] nreg_words_nth(1) [OF assms(1)] by simp
  moreover have "load_mem (memory s) (pl_scratchpad p) SCRATCHPAD_L3_SIZE = Some (m_sp m)"
    using load_mem_holds [OF assms(3), of 0 SCRATCHPAD_L3_SIZE] assms(1) by (simp add: machine_ok_def slice_def)
  moreover have "fp_mode (fpcr s) = Some (m_rm m)" using assms(1, 4) by (simp add: fp_mode_rx machine_ok_def)
  ultimately show ?thesis using nreg_words_back [OF assms(1)] by (simp add: read_machine_def)
qed

lemma entry_args:
  "r < length args \<Longrightarrow> xr (entry_state p args blocks m) r = args ! r"
  "length args < 31 \<Longrightarrow> xr (entry_state p args blocks m) 31 = pl_stack p + 160"
  "fpcr (entry_state p args blocks m) = rx_fpcr (m_rm m)"
  "memory (entry_state p args blocks m) = put_blocks blocks (memory (pl_caller p))"
  by (simp_all add: entry_state_def)

lemma dataset_bytes_length: "dataset_ok ds \<Longrightarrow> length (dataset_bytes ds) = 64 * DATASET_ITEM_COUNT"
  using concat_words [of ds] by (simp add: dataset_ok_def list_all_iff)

lemma place_sizes:
  assumes "place_ok p" "machine_ok m"
  shows "dataset_ok ds \<Longrightarrow> length out = 4 \<Longrightarrow> all_apart (map (\<lambda>(a, bs). (a, length bs)) (loop_blocks p ds out m))"
    and "all_apart (map (\<lambda>(a, bs). (a, length bs)) (body_blocks p config m))"
  using assms nreg_words_nth(1) [OF assms(2)] dataset_bytes_length [of ds]
  by (simp_all add: place_ok_def loop_blocks_def body_blocks_def config_words_def machine_ok_def)

lemma loop_entry:
  assumes ok: "machine_ok m" and ds: "dataset_ok ds" and p: "place_ok p"
  shows "loop_call (pl_nreg p) (pl_scratchpad p) (pl_out p) (pl_stack p) (pl_dataset p) (get_item ds) n m
    (entry_state p [pl_nreg p, pl_scratchpad p, pl_dataset p, of_nat n, pl_out p]
      (loop_blocks p ds [0, 0, 0, 0] m) m)" (is "loop_call _ _ _ _ _ _ _ _ ?s")
proof -
  note l = nreg_words_nth(1) [OF ok]
  note mem = entry_args(4) [of p "[pl_nreg p, pl_scratchpad p, pl_dataset p, of_nat n, pl_out p]"
      "loop_blocks p ds [0, 0, 0, 0] m" m]
  have at: "mem_holds (memory ?s) a bs" if "(a, bs) \<in> set (loop_blocks p ds [0, 0, 0, 0] m)" "length bs < 2 ^ 64" for a bs
    unfolding mem by (rule put_blocks_holds [OF place_sizes(1) [OF p ok ds] that]) simp
  have frame: "length (pl_frame p) = 20" using p by (simp add: place_ok_def)
  have m: "mem_holds (memory ?s) (pl_nreg p) (words_bytes (nreg_words (m_nreg m)))"
    "mem_holds (memory ?s) (pl_scratchpad p) (m_sp m)"
    "mem_holds (memory ?s) (pl_dataset p) (dataset_bytes ds)"
    "mem_holds (memory ?s) (pl_out p) (words_bytes [0, 0, 0, 0])"
    "mem_holds (memory ?s) (pl_stack p) (words_bytes (pl_frame p))"
    by (rule at; use ok l frame dataset_bytes_length [OF ds] in
        \<open>simp add: loop_blocks_def machine_ok_def SCRATCHPAD_L3_SIZE_def DATASET_ITEM_COUNT_value\<close>)+
  have stack: "stack_at ?s (pl_stack p) 20 []"
    unfolding stack_at_def region_def
    by (intro conjI exI [where x = "pl_frame p"]) (use m(5) frame in \<open>simp_all add: entry_args\<close>)
  have ap: "blocks_apart (pl_nreg p) (pl_scratchpad p) (pl_out p) (pl_stack p) (pl_dataset p) (get_item ds)"
    unfolding blocks_apart_def
    using p by (simp add: place_ok_def apart2_def item_apart [OF _ ds])
  have out: "\<exists>ws. length ws = 4 \<and> region (memory ?s) (pl_out p) ws"
    using m(4) by (intro exI [where x = "[0, 0, 0, 0]"]) (simp add: region_def)
  have rm: "m_rm m < 4" using ok by (simp add: machine_ok_def)
  show ?thesis
    unfolding loop_call_def
    using ok rm m(1, 2) stack ap out dataset_in_memory [OF ds m(3)] by (simp add: entry_args region_def)
qed

lemma body_entry:
  assumes ok: "machine_ok m" and p: "place_ok p"
  shows "body_call config (pl_nreg p) (pl_scratchpad p) (pl_config p) (pl_stack p) m
    (entry_state p [pl_nreg p, pl_scratchpad p, pl_config p] (body_blocks p config m) m)"
    (is "body_call _ _ _ _ _ _ ?s")
proof -
  note l = nreg_words_nth(1) [OF ok]
  note mem = entry_args(4) [of p "[pl_nreg p, pl_scratchpad p, pl_config p]" "body_blocks p config m" m]
  have at: "mem_holds (memory ?s) a bs" if "(a, bs) \<in> set (body_blocks p config m)" "length bs < 2 ^ 64" for a bs
    unfolding mem by (rule put_blocks_holds [OF place_sizes(2) [OF p ok] that])
  have frame: "length (pl_frame p) = 20" using p by (simp add: place_ok_def)
  have m: "mem_holds (memory ?s) (pl_nreg p) (words_bytes (nreg_words (m_nreg m)))"
    "mem_holds (memory ?s) (pl_scratchpad p) (m_sp m)"
    "mem_holds (memory ?s) (pl_config p) (words_bytes (config_words config))"
    "mem_holds (memory ?s) (pl_stack p) (words_bytes (pl_frame p))"
    by (rule at; use ok l frame in
        \<open>simp add: body_blocks_def machine_ok_def SCRATCHPAD_L3_SIZE_def config_words_def\<close>)+
  have stack: "stack_at ?s (pl_stack p) 20 []"
    unfolding stack_at_def region_def
    by (intro conjI exI [where x = "pl_frame p"]) (use m(4) frame in \<open>simp_all add: entry_args\<close>)
  have cfg: "region (memory ?s) (pl_config p) [fst (e_mask config), snd (e_mask config)]"
    using m(3) by (auto simp: region_def mem_holds_def config_words_def words_bytes_def nth_append)
  have less: "apart a n b k \<Longrightarrow> j \<le> k \<Longrightarrow> apart a n b j" for a n b k j by (simp add: apart_def)
  have ap: "apart (pl_stack p) 160 (pl_nreg p) 256" "apart (pl_stack p) 160 (pl_scratchpad p) SCRATCHPAD_L3_SIZE"
    "apart (pl_stack p) 160 (pl_config p) 48" "apart (pl_nreg p) 256 (pl_scratchpad p) SCRATCHPAD_L3_SIZE"
    "apart (pl_nreg p) 256 (pl_stack p) 160" "apart (pl_scratchpad p) SCRATCHPAD_L3_SIZE (pl_nreg p) 256"
    "apart (pl_scratchpad p) SCRATCHPAD_L3_SIZE (pl_stack p) 160"
    using p by (simp_all add: place_ok_def apart2_def)
  have rm: "m_rm m < 4" using ok by (simp add: machine_ok_def)
  show ?thesis
    unfolding body_call_def
    using ok rm m(1, 2) stack cfg ap less [OF ap(3), of 16] by (simp add: entry_args region_def)
qed

lemma call_body_interprets:
  assumes "bytecode_ok bc" "body_code bc version = Some f" "length f < 0x40000" "machine_ok m"
    and run: "execute_bytecode fpu version config bc m = Some m'"
  shows "call_body fpu pl f config m = Some m'"
proof -
  let ?p = "place_of pl"
  let ?s = "entry_state ?p [pl_nreg ?p, pl_scratchpad ?p, pl_config ?p] (body_blocks ?p config m) m"
  obtain s' where s': "a64_reaches fpu f (At 0, ?s) (Returned (xr ?s 30), s')"
    "body_result (pl_nreg ?p) (pl_scratchpad ?p) (pl_stack ?p) m' ?s s'"
    using body_runs [OF assms(1-3) body_entry [OF assms(4) place_of_ok] run] by blast
  have ok: "machine_ok m'"
    using execute_bytecode_returns [OF assms(1, 4), of fpu version config] run by simp
  have "call_code fpu f ?s = Some s'"
    by (rule call_code_returns [OF s'(1)]) (use s'(2) in \<open>simp add: body_result_def\<close>)
  moreover have "read_machine ?p s' = Some m'"
    by (rule read_machine_back [OF ok]) (use s'(2) in \<open>simp_all add: body_result_def\<close>)
  ultimately show ?thesis by (simp add: call_body_def Let_def)
qed

lemma call_loop_interprets:
  assumes "length pb = program_bytes_size V1" "dataset_ok ds" "machine_ok m" "0 < n" "n < 2 ^ 64"
  obtains jc' f m' ls' where "native_program pb jc = Some (jc', f)"
    "interpret_vm fpu cpu V1 n (get_item ds) pb m = Some (m', ls')"
    "call_loop fpu pl f ds n (init_registers pb m) = Some (m', loop_words ls')"
proof -
  let ?p = "place_of pl" and ?m = "init_registers pb m"
  let ?s = "entry_state ?p [pl_nreg ?p, pl_scratchpad ?p, pl_dataset ?p, of_nat n, pl_out ?p]
    (loop_blocks ?p ds [0, 0, 0, 0] ?m) ?m"
  have ok: "machine_ok ?m" using assms(3) by (simp add: init_registers_def machine_ok_def reg_counts)
  obtain jc' f m' ls' s' where r: "native_program pb jc = Some (jc', f)"
    "interpret_vm fpu cpu V1 n (get_item ds) pb m = Some (m', ls')"
    "a64_reaches fpu f (At 0, ?s) (Returned (xr ?s 30), s')"
    "loop_result (pl_nreg ?p) (pl_scratchpad ?p) (pl_out ?p) (pl_stack ?p) (m', ls') ?s s'"
    using native_program_runs [OF assms(1, 2) loop_entry [OF ok assms(2) place_of_ok] assms(4, 5, 3), of jc fpu cpu pl]
    by blast
  have src: "line_source_ok ([], [], Some ds)" using assms(2) by (simp add: line_source_ok_def)
  have line: "dataset_line [] [] (Some ds) = get_item ds" by (rule ext) (simp add: dataset_line_def)
  have ok': "machine_ok m'" using execute_vm_ok [OF src assms(3, 1), of fpu cpu n] r(2) line by simp
  note res = r(4) [unfolded loop_result_def prod.case]
  have "call_code fpu f ?s = Some s'" by (rule call_code_returns [OF r(3)]) (use res in simp)
  moreover have "read_machine ?p s' = Some m'" by (rule read_machine_back [OF ok']) (use res in simp_all)
  moreover have "read_words s' (pl_out ?p) 4 = Some (loop_words ls')"
  proof -
    have "length (loop_words ls') = 4" by (simp add: loop_words_def)
    then show ?thesis using read_words_region [of s' "pl_out ?p" "loop_words ls'"] res by simp
  qed
  ultimately have "call_loop fpu pl f ds n ?m = Some (m', loop_words ls')" by (simp add: call_loop_def Let_def)
  then show ?thesis using that r(1, 2) by blast
qed

lemma for_each_agree:
  assumes "\<And>i x. I x \<Longrightarrow> f i x = g i x" "\<And>i x y. I x \<Longrightarrow> g i x = Some y \<Longrightarrow> I y" "I x"
  shows "for_each f xs x = for_each g xs x"
  using assms(3)
proof (induction xs arbitrary: x)
  case (Cons i xs)
  show ?case
  proof (cases "g i x")
    case (Some y)
    then show ?thesis using assms(1) [OF Cons.prems, of i] Cons.IH assms(2) [OF Cons.prems] by simp
  qed (use assms(1) [OF Cons.prems, of i] in simp)
qed simp

text \<open>The loop over the iterations with compiled code in the place of the interpreter.\<close>

lemma iterations_agree:
  assumes src: "line_source_ok (cache, programs, dataset)" and ok: "bytecode_ok bc" "config_ok config" "offset_ok d"
    "machine_ok m" and body: "\<And>m. machine_ok m \<Longrightarrow> body m = execute_bytecode fpu version config bc m"
  shows "for_each (\<lambda>_. vm_iteration cpu version (dataset_line cache programs dataset) body config d) xs (m, ls) =
    for_each (\<lambda>_. vm_iteration cpu version (dataset_line cache programs dataset)
      (execute_bytecode fpu version config bc) config d) xs (m, ls)"
proof (rule for_each_agree [where I = "\<lambda>(m, ls). machine_ok m"])
  fix x :: "machine \<times> loop_state" assume x: "case x of (m, ls) \<Rightarrow> machine_ok m"
  obtain m ls where m: "x = (m, ls)" "machine_ok m" using x by (cases x) simp
  have "Option.bind (body m1) k = Option.bind (execute_bytecode fpu version config bc m1) k"
    if "load_registers config ls m = Some (m1, ls1)" for m1 ls1 k
    using load_registers_ok [OF m(2) ok(2), of ls] body [of m1] that by simp
  then show "vm_iteration cpu version (dataset_line cache programs dataset) body config d x =
    vm_iteration cpu version (dataset_line cache programs dataset) (execute_bytecode fpu version config bc) config d x"
    unfolding vm_iteration_def m(1) prod.case by (cases "load_registers config ls m") auto
  show "case y of (m, ls) \<Rightarrow> machine_ok m"
    if "vm_iteration cpu version (dataset_line cache programs dataset) (execute_bytecode fpu version config bc) config d x = Some y" for y
    using vm_lines.vm_iteration_ok [OF src ok(2, 3) m(2), of "execute_bytecode fpu version config bc" cpu version ls]
      execute_bytecode_returns [OF ok(1)] that m(1) by (auto simp: returns_iff)
qed (use ok(4) in simp)

lemma compile_body_ok:
  assumes "bytecode_ok bc" "length bc \<le> RANDOMX_PROGRAM_SIZE_MAX"
  obtains jit' jit_fn where "compile_body cpu version bc jit = Some (jit', jit_fn)" "jit' = None \<longleftrightarrow> jit = None"
    "\<And>m config. machine_ok m \<Longrightarrow>
       run_body fpu pl version config bc jit_fn m = execute_bytecode fpu version config bc m"
proof (cases "cpu_arch cpu = Aarch64 \<and> jit \<noteq> None")
  case True
  then obtain jc where jc: "jit = Some jc" by blast
  obtain jc' f where c: "jit_compile bc version jc = Some jc'" "get_fn jc' = Some f"
    "body_code bc version = Some f" "length f < 0x40000"
    using compiled_body [OF assms] by blast
  have "call_body fpu pl f config m = execute_bytecode fpu version config bc m" if m: "machine_ok m" for m config
  proof -
    obtain m' where m': "execute_bytecode fpu version config bc m = Some m'"
      using execute_bytecode_returns [OF assms(1) m, of fpu version config] by (auto simp: returns_iff)
    show ?thesis using call_body_interprets [OF assms(1) c(3, 4) m m'] m' by simp
  qed
  then show ?thesis using that [of "Some jc'" "Some f"] True jc c(1, 2) by (simp add: compile_body_def run_body_def)
next
  case False
  then have "compile_body cpu version bc jit = Some (jit, None)" by (auto simp: compile_body_def)
  then show ?thesis using that [of jit None] by (simp add: run_body_def)
qed

text \<open>All three ways of running a program.\<close>

lemma execute_vm_inner_interprets:
  assumes src: "line_source_ok (cache, programs, dataset)" and ok: "machine_ok m"
    and len: "length pb = program_bytes_size version" and n: "0 < n" "n < 2 ^ 64"
  shows "\<exists>m' ls' jit'. execute_vm_inner fpu cpu pl cache programs dataset jit version n native pb m =
      Some (m', ls', jit') \<and>
    interpret_vm fpu cpu version n (dataset_line cache programs dataset) pb m = Some (m', ls') \<and>
    machine_ok m' \<and> (jit' = None \<longleftrightarrow> jit = None)"
proof -
  have room: "INSTRUCTIONS_OFFSET + program_size version * 8 \<le> length pb" "INSTRUCTIONS_OFFSET \<le> length pb"
    using len by (simp_all add: program_bytes_size_def)
  obtain config ma mx d where p: "derive_program_params pb = Some (config, ma, mx, d)" "config_ok config" "offset_ok d"
    using derive_params_ok [OF room(2)] by (auto simp: returns_iff)
  obtain bc usage where c: "compile_program pb (program_size version) = Some (bc, usage)"
    "bytecode_ok bc" "length bc = program_size version"
    using compile_program_gen [OF room(1) program_size_fits] by (auto simp: returns_iff)
  obtain m' ls' where run: "interpret_vm fpu cpu version n (dataset_line cache programs dataset) pb m = Some (m', ls')"
    "machine_ok m'"
    using execute_vm_ok [OF src ok len, of fpu cpu n] by (auto simp: returns_iff)
  have m0: "machine_ok (init_registers pb m)" using ok by (simp add: init_registers_def machine_ok_def reg_counts)
  show ?thesis
  proof (cases "cpu_arch cpu = Aarch64 \<and> native_loop_applies native version (dataset \<noteq> None) (jit \<noteq> None)")
    case True
    then obtain ds jc where v: "version = V1" "dataset = Some ds" "jit = Some jc"
      by (auto simp: native_loop_applies_def)
    have ds: "dataset_ok ds" using src v(2) by (simp add: line_source_ok_def)
    have line: "dataset_line cache programs (Some ds) = get_item ds" by (rule ext) (simp add: dataset_line_def)
    obtain jc' f m1 ls1 where r: "native_program pb jc = Some (jc', f)"
      "interpret_vm fpu cpu V1 n (get_item ds) pb m = Some (m1, ls1)"
      "call_loop fpu pl f ds n (init_registers pb m) = Some (m1, loop_words ls1)"
      using call_loop_interprets [OF len [unfolded v(1)] ds ok n, of jc fpu cpu pl] by blast
    have same: "m1 = m'" "ls1 = ls'" using r(2) run(1) v line by simp_all
    obtain jc1 where j: "compile_native_loop bc V1 config ma mx d jc = Some jc1" "get_loop_fn jc1 = Some f"
      using r(1) p(1) c(1) v(1) by (auto simp: native_program_def split: Option.bind_splits)
    show ?thesis
      using True p(1) c(1) v j r(3) run loop_state_words [of ls', unfolded loop_state_of_def]
      by (simp add: execute_vm_inner_def Let_def same)
  next
    case False
    obtain jit' jit_fn where b: "compile_body cpu version bc jit = Some (jit', jit_fn)" "jit' = None \<longleftrightarrow> jit = None"
      "\<And>m config. machine_ok m \<Longrightarrow> run_body fpu pl version config bc jit_fn m = execute_bytecode fpu version config bc m"
      using compile_body_ok [OF c(2)] c(3) program_size_fits by metis
    have "for_each (\<lambda>_. vm_iteration cpu version (dataset_line cache programs dataset)
        (run_body fpu pl version config bc jit_fn) config d) [0..<n] (init_registers pb m, first_state ma mx) = Some (m', ls')"
      using iterations_agree [OF src c(2) p(2, 3) m0, of "run_body fpu pl version config bc jit_fn" fpu version cpu
          "[0..<n]" "first_state ma mx"] b(3) run(1) p(1) c(1)
      by (simp add: interpret_vm_def Let_def first_state_def)
    then have "execute_vm_inner fpu cpu pl cache programs dataset jit version n native pb m = Some (m', ls', jit')"
      unfolding execute_vm_inner_def Let_def p(1) c(1) bind.simps prod.case if_not_P [OF False] b(1)
      by (simp add: first_state_def)
    then show ?thesis using b(2) run by blast
  qed
qed

end
