(* ===== verification/Blake2Gen.thy ===== *)
theory Blake2Gen
  imports Blake2b
begin

text \<open>
  \<open>src/randomx/blake2gen.rs\<close>: the deterministic generator behind the SuperscalarHash
  programs. Its state is 64 bytes and a read position; when fewer bytes are left than a
  read needs, the whole buffer is replaced by its BLAKE2b-512 digest. Every operation
  takes the generator and returns the value read with the new generator. The lemmas show
  that the state stays well formed and that no read leaves the 64-byte buffer, which the
  code relies on when it indexes \<open>self.data[self.data_index + 3]\<close>.
\<close>

record blake2_generator =
  gen_data :: bytes
  gen_index :: nat

definition gen_new :: "bytes \<Rightarrow> u32 \<Rightarrow> blake2_generator" where
  "gen_new seed nonce =
     (let data = replicate 64 0;
          copy_len = min (length seed) 60;
          data = splice 0 (take copy_len seed) data;
          data = splice 60 (le_bytes 4 nonce) data
      in \<lparr>gen_data = data, gen_index = 64\<rparr>)"

definition check_data :: "blake2_generator \<Rightarrow> nat \<Rightarrow> blake2_generator" where
  "check_data g bytes_needed =
     (if gen_index g + bytes_needed > 64
      then g\<lparr>gen_data := blake2b_512 (gen_data g), gen_index := 0\<rparr>
      else g)"

definition get_byte :: "blake2_generator \<Rightarrow> u8 \<times> blake2_generator" where
  "get_byte g =
     (let g = check_data g 1;
          b = gen_data g ! gen_index g
      in (b, g\<lparr>gen_index := gen_index g + 1\<rparr>))"

definition get_u32 :: "blake2_generator \<Rightarrow> u32 \<times> blake2_generator" where
  "get_u32 g =
     (let g = check_data g 4;
          val = from_le [gen_data g ! gen_index g, gen_data g ! (gen_index g + 1),
                         gen_data g ! (gen_index g + 2), gen_data g ! (gen_index g + 3)]
      in (val, g\<lparr>gen_index := gen_index g + 4\<rparr>))"

section \<open>The invariant\<close>

definition gen_inv :: "blake2_generator \<Rightarrow> bool" where
  "gen_inv g \<longleftrightarrow> length (gen_data g) = 64 \<and> gen_index g \<le> 64"

lemma gen_new_inv [simp, intro]: "gen_inv (gen_new seed nonce)"
  by (simp add: gen_new_def gen_inv_def Let_def)

lemma check_data_inv [intro]: "gen_inv g \<Longrightarrow> gen_inv (check_data g n)"
  by (simp add: check_data_def gen_inv_def)

text \<open>After \<open>check_data(n)\<close> there is room for \<open>n\<close> bytes.\<close>

lemma check_data_room:
  "gen_inv g \<Longrightarrow> n \<le> 64 \<Longrightarrow>
     gen_index (check_data g n) + n \<le> length (gen_data (check_data g n))"
  by (simp add: check_data_def gen_inv_def)

lemma get_byte_inv [intro]: "gen_inv g \<Longrightarrow> gen_inv (snd (get_byte g))"
  using check_data_room [of g 1] check_data_inv [of g 1]
  by (simp add: get_byte_def Let_def gen_inv_def)

lemma get_u32_inv [intro]: "gen_inv g \<Longrightarrow> gen_inv (snd (get_u32 g))"
  using check_data_room [of g 4] check_data_inv [of g 4]
  by (simp add: get_u32_def Let_def gen_inv_def)

text \<open>The four bytes a \<open>u32\<close> read consumes are exactly a slice of the buffer.\<close>

lemma get_u32_slice:
  assumes "gen_inv g"
  shows "fst (get_u32 g) =
    from_le (slice (gen_index (check_data g 4)) 4 (gen_data (check_data g 4)))"
proof -
  let ?g = "check_data g 4"
  have room: "gen_index ?g + 4 \<le> length (gen_data ?g)"
    by (rule check_data_room) (use assms in simp_all)
  have "slice (gen_index ?g) 4 (gen_data ?g) =
      map (\<lambda>i. gen_data ?g ! (gen_index ?g + i)) [0..<4]"
    by (rule nth_equalityI) (use room in \<open>simp_all add: nth_slice\<close>)
  then show ?thesis
    by (simp add: get_u32_def Let_def upt_rec numeral_3_eq_3)
qed

lemma gen_new_data:
  "length seed \<le> 60 \<Longrightarrow>
     gen_data (gen_new seed nonce) = seed @ replicate (60 - length seed) 0 @ le_bytes 4 nonce"
  by (simp add: gen_new_def Let_def splice_def)

end
