(* ===== verification/Superscalar_Gen.thy ===== *)
theory Superscalar_Gen
  imports Superscalar_Exec Blake2Gen
begin

text \<open>
  \<open>src/randomx/superscalar.rs\<close>, the generator of SuperscalarHash programs: the simulated
  superscalar CPU of \<open>generate_superscalar\<close>, with its decode buffers, slot selection,
  register selection and port scheduling. The local variables of the Rust function are the
  record \<open>ss_gen\<close>. \<open>i32\<close> values (cycles, counters, register numbers with \<open>-1\<close> for
  none) are \<open>int\<close>. A panic of the code (an index out of range, an \<open>unreachable!\<close>) is
  \<open>Inl Panic\<close>; the two rejection loops of \<open>create\<close>, which draw until a value is
  acceptable, take a bound on the number of draws and end in \<open>Inl No_return\<close> when it is
  exhausted. Every other loop is total.
\<close>

section \<open>Constants\<close>

definition RANDOMX_SUPERSCALAR_LATENCY :: int where
  "RANDOMX_SUPERSCALAR_LATENCY = 170"
definition SUPERSCALAR_MAX_SIZE :: int where
  "SUPERSCALAR_MAX_SIZE = 3 * RANDOMX_SUPERSCALAR_LATENCY + 2"
definition REGISTER_NEEDS_DISPLACEMENT :: int where
  "REGISTER_NEEDS_DISPLACEMENT = 5"
definition CYCLE_MAP_SIZE :: nat where
  "CYCLE_MAP_SIZE = nat (RANDOMX_SUPERSCALAR_LATENCY + 4)"
definition LOOK_FORWARD_CYCLES :: nat where
  "LOOK_FORWARD_CYCLES = 4"
definition MAX_THROWAWAY_COUNT :: int where
  "MAX_THROWAWAY_COUNT = 256"

definition PORT_NULL :: int where "PORT_NULL = 0"
definition PORT_P0 :: int where "PORT_P0 = 1"
definition PORT_P1 :: int where "PORT_P1 = 2"
definition PORT_P5 :: int where "PORT_P5 = 4"
definition PORT_P01 :: int where "PORT_P01 = PORT_P0 OR PORT_P1"
definition PORT_P05 :: int where "PORT_P05 = PORT_P0 OR PORT_P5"
definition PORT_P015 :: int where "PORT_P015 = PORT_P0 OR PORT_P1 OR PORT_P5"

lemmas ss_consts = RANDOMX_SUPERSCALAR_LATENCY_def SUPERSCALAR_MAX_SIZE_def
  REGISTER_NEEDS_DISPLACEMENT_def CYCLE_MAP_SIZE_def LOOK_FORWARD_CYCLES_def
  MAX_THROWAWAY_COUNT_def

section \<open>Instruction types and macro-operations\<close>

datatype ss_type = ISUB_R | IXOR_R | IADD_RS | IMUL_R | IROR_C | IADD_C7 | IXOR_C7 | IADD_C8
  | IXOR_C8 | IADD_C9 | IXOR_C9 | IMULH_R | ISMULH_R | IMUL_RCP | INVALID

text \<open>\<open>t as u8\<close> of the \<open>repr(i32)\<close> enumeration; \<open>INVALID = -1\<close> becomes 255.\<close>

fun ss_type_code :: "ss_type \<Rightarrow> u8" where
  "ss_type_code ISUB_R = 0" | "ss_type_code IXOR_R = 1" | "ss_type_code IADD_RS = 2"
| "ss_type_code IMUL_R = 3" | "ss_type_code IROR_C = 4" | "ss_type_code IADD_C7 = 5"
| "ss_type_code IXOR_C7 = 6" | "ss_type_code IADD_C8 = 7" | "ss_type_code IXOR_C8 = 8"
| "ss_type_code IADD_C9 = 9" | "ss_type_code IXOR_C9 = 10" | "ss_type_code IMULH_R = 11"
| "ss_type_code ISMULH_R = 12" | "ss_type_code IMUL_RCP = 13" | "ss_type_code INVALID = 255"

definition is_multiplication :: "ss_type \<Rightarrow> bool" where
  "is_multiplication t \<longleftrightarrow> t \<in> {IMUL_R, IMULH_R, ISMULH_R, IMUL_RCP}"

record macro_op =
  mop_size :: int
  mop_latency :: int
  mop_uop1 :: int
  mop_uop2 :: int
  mop_dependent :: bool

definition mop_new1 :: "int \<Rightarrow> int \<Rightarrow> int \<Rightarrow> macro_op" where
  "mop_new1 size' latency uop =
     \<lparr>mop_size = size', mop_latency = latency, mop_uop1 = uop, mop_uop2 = PORT_NULL,
      mop_dependent = False\<rparr>"
definition mop_new2 :: "int \<Rightarrow> int \<Rightarrow> int \<Rightarrow> int \<Rightarrow> macro_op" where
  "mop_new2 size' latency uop1 uop2 =
     \<lparr>mop_size = size', mop_latency = latency, mop_uop1 = uop1, mop_uop2 = uop2,
      mop_dependent = False\<rparr>"
definition mop_eliminated :: "int \<Rightarrow> macro_op" where
  "mop_eliminated size' =
     \<lparr>mop_size = size', mop_latency = 0, mop_uop1 = PORT_NULL, mop_uop2 = PORT_NULL,
      mop_dependent = False\<rparr>"
definition with_dependent :: "macro_op \<Rightarrow> macro_op" where
  "with_dependent m = m\<lparr>mop_dependent := True\<rparr>"
definition is_eliminated :: "macro_op \<Rightarrow> bool" where
  "is_eliminated m \<longleftrightarrow> mop_uop1 m = PORT_NULL"
definition is_simple :: "macro_op \<Rightarrow> bool" where
  "is_simple m \<longleftrightarrow> mop_uop2 m = PORT_NULL"

definition MOP_SUB_RR :: macro_op where "MOP_SUB_RR = mop_new1 3 1 PORT_P015"
definition MOP_XOR_RR :: macro_op where "MOP_XOR_RR = mop_new1 3 1 PORT_P015"
definition MOP_IMUL_R :: macro_op where "MOP_IMUL_R = mop_new2 3 4 PORT_P1 PORT_P5"
definition MOP_MUL_R :: macro_op where "MOP_MUL_R = mop_new2 3 4 PORT_P1 PORT_P5"
definition MOP_MOV_RR :: macro_op where "MOP_MOV_RR = mop_eliminated 3"
definition MOP_LEA_SIB :: macro_op where "MOP_LEA_SIB = mop_new1 4 1 PORT_P01"
definition MOP_IMUL_RR :: macro_op where "MOP_IMUL_RR = mop_new1 4 3 PORT_P1"
definition MOP_ROR_RI :: macro_op where "MOP_ROR_RI = mop_new1 4 1 PORT_P05"
definition MOP_ADD_RI :: macro_op where "MOP_ADD_RI = mop_new1 7 1 PORT_P015"
definition MOP_XOR_RI :: macro_op where "MOP_XOR_RI = mop_new1 7 1 PORT_P015"
definition MOP_MOV_RI64 :: macro_op where "MOP_MOV_RI64 = mop_new1 10 1 PORT_P015"

section \<open>Instruction infos\<close>

record instruction_info =
  info_type :: ss_type
  info_ops :: "macro_op list"
  info_result_op :: int
  info_dst_op :: int
  info_src_op :: int

definition mk_info :: "ss_type \<Rightarrow> macro_op list \<Rightarrow> int \<Rightarrow> int \<Rightarrow> int \<Rightarrow> instruction_info" where
  "mk_info t ops r d s =
     \<lparr>info_type = t, info_ops = ops, info_result_op = r, info_dst_op = d, info_src_op = s\<rparr>"

text \<open>The table of \<open>INFO_*\<close> constants.\<close>

fun info_of :: "ss_type \<Rightarrow> instruction_info" where
  "info_of ISUB_R = mk_info ISUB_R [MOP_SUB_RR] 0 0 0"
| "info_of IXOR_R = mk_info IXOR_R [MOP_XOR_RR] 0 0 0"
| "info_of IADD_RS = mk_info IADD_RS [MOP_LEA_SIB] 0 0 0"
| "info_of IMUL_R = mk_info IMUL_R [MOP_IMUL_RR] 0 0 0"
| "info_of IROR_C = mk_info IROR_C [MOP_ROR_RI] 0 0 (-1)"
| "info_of IADD_C7 = mk_info IADD_C7 [MOP_ADD_RI] 0 0 (-1)"
| "info_of IXOR_C7 = mk_info IXOR_C7 [MOP_XOR_RI] 0 0 (-1)"
| "info_of IADD_C8 = mk_info IADD_C8 [MOP_ADD_RI] 0 0 (-1)"
| "info_of IXOR_C8 = mk_info IXOR_C8 [MOP_XOR_RI] 0 0 (-1)"
| "info_of IADD_C9 = mk_info IADD_C9 [MOP_ADD_RI] 0 0 (-1)"
| "info_of IXOR_C9 = mk_info IXOR_C9 [MOP_XOR_RI] 0 0 (-1)"
| "info_of IMULH_R = mk_info IMULH_R [MOP_MOV_RR, MOP_MUL_R, MOP_MOV_RR] 1 0 1"
| "info_of ISMULH_R = mk_info ISMULH_R [MOP_MOV_RR, MOP_IMUL_R, MOP_MOV_RR] 1 0 1"
| "info_of IMUL_RCP = mk_info IMUL_RCP [MOP_MOV_RI64, with_dependent MOP_IMUL_RR] 1 1 (-1)"
| "info_of INVALID = mk_info INVALID [] 0 0 0"

section \<open>Decode buffers\<close>

record decode_buffer =
  buf_slots :: "int list"
  buf_index :: int

definition BUF_484 :: decode_buffer where "BUF_484 = \<lparr>buf_slots = [4, 8, 4], buf_index = 0\<rparr>"
definition BUF_7333 :: decode_buffer where
  "BUF_7333 = \<lparr>buf_slots = [7, 3, 3, 3], buf_index = 1\<rparr>"
definition BUF_3733 :: decode_buffer where
  "BUF_3733 = \<lparr>buf_slots = [3, 7, 3, 3], buf_index = 2\<rparr>"
definition BUF_493 :: decode_buffer where "BUF_493 = \<lparr>buf_slots = [4, 9, 3], buf_index = 3\<rparr>"
definition BUF_4444 :: decode_buffer where
  "BUF_4444 = \<lparr>buf_slots = [4, 4, 4, 4], buf_index = 4\<rparr>"
definition BUF_3310 :: decode_buffer where "BUF_3310 = \<lparr>buf_slots = [3, 3, 10], buf_index = 5\<rparr>"

definition DEFAULT_BUFFERS :: "decode_buffer list" where
  "DEFAULT_BUFFERS = [BUF_484, BUF_7333, BUF_3733, BUF_493]"

definition fetch_next ::
  "ss_type \<Rightarrow> int \<Rightarrow> int \<Rightarrow> blake2_generator \<Rightarrow> decode_buffer \<times> blake2_generator" where
  "fetch_next prev_type decode_cycle mul_count g =
     (if prev_type = IMULH_R \<or> prev_type = ISMULH_R then (BUF_3310, g)
      else if mul_count < decode_cycle + 1 then (BUF_4444, g)
      else if prev_type = IMUL_RCP then
        (case get_byte g of (b, g') \<Rightarrow> (if b AND 1 \<noteq> 0 then BUF_484 else BUF_493, g'))
      else (case get_byte g of (b, g') \<Rightarrow> (DEFAULT_BUFFERS ! unat (b AND 3), g')))"

section \<open>Slot selection\<close>

datatype ss_error = Panic | No_return

definition select_for_slot ::
  "blake2_generator \<Rightarrow> int \<Rightarrow> int \<Rightarrow> bool \<Rightarrow> ss_error + instruction_info \<times> blake2_generator" where
  "select_for_slot g slot_size fetch_type is_last =
     (let coin = (\<lambda>t f. case get_byte g of (b, g') \<Rightarrow>
            Inr (info_of (if b AND 1 = 0 then t else f), g'))
      in if slot_size = 3 then
           (if is_last then
              (case get_byte g of (b, g') \<Rightarrow>
                (let k = b AND 3
                 in if k = 0 then Inr (info_of ISUB_R, g')
                    else if k = 1 then Inr (info_of IXOR_R, g')
                    else if k = 2 then Inr (info_of IMULH_R, g')
                    else if k = 3 then Inr (info_of ISMULH_R, g')
                    else Inl Panic))
            else coin ISUB_R IXOR_R)
         else if slot_size = 4 then
           (if fetch_type = 4 \<and> \<not> is_last then Inr (info_of IMUL_R, g)
            else coin IROR_C IADD_RS)
         else if slot_size = 7 then coin IXOR_C7 IADD_C7
         else if slot_size = 8 then coin IXOR_C8 IADD_C8
         else if slot_size = 9 then coin IXOR_C9 IADD_C9
         else if slot_size = 10 then Inr (info_of IMUL_RCP, g)
         else Inl Panic)"

section \<open>Working instructions\<close>

record working_instruction =
  wi_info :: instruction_info
  wi_src :: int
  wi_dst :: int
  wi_mod :: u8
  wi_imm32 :: u32
  wi_op_group :: ss_type
  wi_op_group_par :: int
  wi_can_reuse :: bool
  wi_group_par_is_source :: bool

definition wi_new :: "instruction_info \<Rightarrow> working_instruction" where
  "wi_new info =
     \<lparr>wi_info = info, wi_src = -1, wi_dst = -1, wi_mod = 0, wi_imm32 = 0,
      wi_op_group = INVALID, wi_op_group_par = -1, wi_can_reuse = False,
      wi_group_par_is_source = False\<rparr>"

definition wi_null :: working_instruction where
  "wi_null = wi_new (info_of INVALID)"

text \<open>The two rejection loops: draw until the value is acceptable, at most \<open>fuel\<close> times.\<close>

fun draw_ror :: "nat \<Rightarrow> blake2_generator \<Rightarrow> ss_error + u32 \<times> blake2_generator" where
  "draw_ror 0 g = Inl No_return"
| "draw_ror (Suc fuel) g =
     (case get_byte g of (b, g') \<Rightarrow>
        let imm = ucast (b AND 63) in if imm \<noteq> 0 then Inr (imm, g') else draw_ror fuel g')"

fun draw_rcp :: "nat \<Rightarrow> blake2_generator \<Rightarrow> ss_error + u32 \<times> blake2_generator" where
  "draw_rcp 0 g = Inl No_return"
| "draw_rcp (Suc fuel) g =
     (case get_u32 g of (imm, g') \<Rightarrow>
        if \<not> is_zero_or_power_of_2 imm then Inr (imm, g') else draw_rcp fuel g')"

definition wi_create ::
  "nat \<Rightarrow> instruction_info \<Rightarrow> blake2_generator
     \<Rightarrow> ss_error + working_instruction \<times> blake2_generator" where
  "wi_create fuel info g =
     (let inst = wi_new info;
          with_imm = (\<lambda>grp. case get_u32 g of (v, g') \<Rightarrow>
            Inr (inst\<lparr>wi_imm32 := v, wi_op_group := grp, wi_op_group_par := -1\<rparr>, g'));
          with_par = (\<lambda>grp. case get_u32 g of (v, g') \<Rightarrow>
            Inr (inst\<lparr>wi_can_reuse := True, wi_op_group := grp, wi_op_group_par := sint v\<rparr>, g'))
      in case info_type info of
           ISUB_R \<Rightarrow> Inr (inst\<lparr>wi_op_group := IADD_RS, wi_group_par_is_source := True\<rparr>, g)
         | IXOR_R \<Rightarrow> Inr (inst\<lparr>wi_op_group := IXOR_R, wi_group_par_is_source := True\<rparr>, g)
         | IADD_RS \<Rightarrow>
             (case get_byte g of (b, g') \<Rightarrow>
               Inr (inst\<lparr>wi_mod := b, wi_op_group := IADD_RS, wi_group_par_is_source := True\<rparr>, g'))
         | IMUL_R \<Rightarrow> Inr (inst\<lparr>wi_op_group := IMUL_R, wi_group_par_is_source := True\<rparr>, g)
         | IROR_C \<Rightarrow>
             and_then (draw_ror fuel g) (\<lambda>(imm, g').
               Inr (inst\<lparr>wi_imm32 := imm, wi_op_group := IROR_C, wi_op_group_par := -1\<rparr>, g'))
         | IADD_C7 \<Rightarrow> with_imm IADD_C7 | IADD_C8 \<Rightarrow> with_imm IADD_C7 | IADD_C9 \<Rightarrow> with_imm IADD_C7
         | IXOR_C7 \<Rightarrow> with_imm IXOR_C7 | IXOR_C8 \<Rightarrow> with_imm IXOR_C7 | IXOR_C9 \<Rightarrow> with_imm IXOR_C7
         | IMULH_R \<Rightarrow> with_par IMULH_R
         | ISMULH_R \<Rightarrow> with_par ISMULH_R
         | IMUL_RCP \<Rightarrow>
             and_then (draw_rcp fuel g) (\<lambda>(imm, g').
               Inr (inst\<lparr>wi_imm32 := imm, wi_op_group := IMUL_RCP, wi_op_group_par := -1\<rparr>, g'))
         | INVALID \<Rightarrow> Inr (inst, g))"

record register_info =
  ri_latency :: int
  ri_last_op_group :: ss_type
  ri_last_op_par :: int

definition ri_new :: register_info where
  "ri_new = \<lparr>ri_latency = 0, ri_last_op_group = INVALID, ri_last_op_par = -1\<rparr>"

section \<open>Register selection\<close>

definition select_register ::
  "int list \<Rightarrow> blake2_generator \<Rightarrow> int option \<times> blake2_generator" where
  "select_register available g =
     (if available = [] then (None, g)
      else if length available > 1 then
        (case get_u32 g of (v, g') \<Rightarrow>
          (Some (available ! unat (v mod of_nat (length available))), g'))
      else (Some (available ! 0), g))"

definition available_sources :: "int \<Rightarrow> register_info list \<Rightarrow> int list" where
  "available_sources cycle registers =
     filter (\<lambda>i. ri_latency (registers ! nat i) \<le> cycle) [0..7]"

definition select_source ::
  "working_instruction \<Rightarrow> int \<Rightarrow> register_info list \<Rightarrow> blake2_generator
     \<Rightarrow> bool \<times> working_instruction \<times> blake2_generator" where
  "select_source w cycle registers g =
     (let available = available_sources cycle registers
      in if length available = 2 \<and> info_type (wi_info w) = IADD_RS \<and>
            (available ! 0 = REGISTER_NEEDS_DISPLACEMENT \<or>
             available ! 1 = REGISTER_NEEDS_DISPLACEMENT)
         then (True, w\<lparr>wi_op_group_par := REGISTER_NEEDS_DISPLACEMENT,
                       wi_src := REGISTER_NEEDS_DISPLACEMENT\<rparr>, g)
         else case select_register available g of
           (Some reg, g') \<Rightarrow>
             (True, (if wi_group_par_is_source w
                     then w\<lparr>wi_src := reg, wi_op_group_par := reg\<rparr>
                     else w\<lparr>wi_src := reg\<rparr>), g')
         | (None, g') \<Rightarrow> (False, w, g'))"

definition available_destinations ::
  "working_instruction \<Rightarrow> int \<Rightarrow> bool \<Rightarrow> register_info list \<Rightarrow> int list" where
  "available_destinations w cycle allow_chained_mul registers =
     filter (\<lambda>i. let r = registers ! nat i in
        ri_latency r \<le> cycle \<and>
        (wi_can_reuse w \<or> i \<noteq> wi_src w) \<and>
        (allow_chained_mul \<or> wi_op_group w \<noteq> IMUL_R \<or> ri_last_op_group r \<noteq> IMUL_R) \<and>
        (ri_last_op_group r \<noteq> wi_op_group w \<or> ri_last_op_par r \<noteq> wi_op_group_par w) \<and>
        (info_type (wi_info w) \<noteq> IADD_RS \<or> i \<noteq> REGISTER_NEEDS_DISPLACEMENT)) [0..7]"

definition select_destination ::
  "working_instruction \<Rightarrow> int \<Rightarrow> bool \<Rightarrow> register_info list \<Rightarrow> blake2_generator
     \<Rightarrow> bool \<times> working_instruction \<times> blake2_generator" where
  "select_destination w cycle allow_chained_mul registers g =
     (case select_register (available_destinations w cycle allow_chained_mul registers) g of
        (Some reg, g') \<Rightarrow> (True, w\<lparr>wi_dst := reg\<rparr>, g')
      | (None, g') \<Rightarrow> (False, w, g'))"

definition to_output :: "working_instruction \<Rightarrow> ss_instruction" where
  "to_output w =
     \<lparr>ssi_opcode = ss_type_code (info_type (wi_info w)),
      ssi_dst = of_int (wi_dst w),
      ssi_src = (if wi_src w \<ge> 0 then of_int (wi_src w) else of_int (wi_dst w)),
      ssi_mod = wi_mod w,
      ssi_imm32 = wi_imm32 w\<rparr>"

section \<open>Scheduling\<close>

text \<open>\<open>port_busy\<close> is the \<open>[[i32; 3]; 174]\<close> occupancy map. \<open>schedule_uop\<close> returns the cycle
  it found, or \<open>-1\<close>, and the map, changed only when \<open>commit\<close> is set.\<close>

function schedule_uop :: "int \<Rightarrow> int list list \<Rightarrow> nat \<Rightarrow> bool \<Rightarrow> int \<times> int list list" where
  "schedule_uop uop port_busy c commit =
     (let take_port = (\<lambda>p. (int c, if commit then port_busy[c := (port_busy ! c)[p := uop]]
                                   else port_busy))
      in if c < CYCLE_MAP_SIZE then
           (if uop AND PORT_P5 \<noteq> 0 \<and> port_busy ! c ! 2 = 0 then take_port 2
            else if uop AND PORT_P0 \<noteq> 0 \<and> port_busy ! c ! 0 = 0 then take_port 0
            else if uop AND PORT_P1 \<noteq> 0 \<and> port_busy ! c ! 1 = 0 then take_port 1
            else schedule_uop uop port_busy (c + 1) commit)
         else (-1, port_busy))"
  by pat_completeness auto
termination
  by (relation "measure (\<lambda>(u, p, c, b). CYCLE_MAP_SIZE - c)") auto

declare schedule_uop.simps [simp del]

text \<open>The loop for two micro-operations, which must issue in the same cycle.\<close>

function schedule_pair ::
  "int \<Rightarrow> int \<Rightarrow> int list list \<Rightarrow> nat \<Rightarrow> bool \<Rightarrow> int \<times> int list list" where
  "schedule_pair uop1 uop2 port_busy c commit =
     (if c < CYCLE_MAP_SIZE then
        (let c1 = fst (schedule_uop uop1 port_busy c False);
             c2 = fst (schedule_uop uop2 port_busy c False)
         in if c1 \<ge> 0 \<and> c1 = c2 then
              (c1, if commit
                   then snd (schedule_uop uop2
                          (snd (schedule_uop uop1 port_busy (nat c1) True)) (nat c2) True)
                   else port_busy)
            else schedule_pair uop1 uop2 port_busy (c + 1) commit)
      else (-1, port_busy))"
  by pat_completeness auto
termination
  by (relation "measure (\<lambda>(u, v, p, c, b). CYCLE_MAP_SIZE - c)") auto

declare schedule_pair.simps [simp del]

definition schedule_mop ::
  "macro_op \<Rightarrow> int list list \<Rightarrow> int \<Rightarrow> int \<Rightarrow> bool \<Rightarrow> int \<times> int list list" where
  "schedule_mop mop port_busy cycle dep_cycle commit =
     (let c = (if mop_dependent mop then max cycle dep_cycle else cycle)
      in if is_eliminated mop then (c, port_busy)
         else if is_simple mop then schedule_uop (mop_uop1 mop) port_busy (nat c) commit
         else schedule_pair (mop_uop1 mop) (mop_uop2 mop) port_busy (nat c) commit)"

end
