(* ===== verification/Superscalar_Loop.thy ===== *)
theory Superscalar_Loop
  imports Superscalar_Gen
begin

text \<open>
  The loops of \<open>generate_superscalar\<close> (\<open>src/randomx/superscalar.rs\<close>): at most 170 decode
  cycles, each filling the slots of one decode buffer. The invariant \<open>sg_inv\<close> ties the
  position within the current instruction (\<open>macro_op_index\<close>) to the operands already chosen;
  it gives that no index of the code is out of range and that every emitted instruction is
  well formed.
\<close>

section \<open>The state of the generator\<close>

record ss_gen =
  sg_blake :: blake2_generator
  sg_port_busy :: "int list list"
  sg_registers :: "register_info list"
  sg_current :: working_instruction
  sg_macro_op_index :: int
  sg_cycle :: int
  sg_dep_cycle :: int
  sg_retire_cycle :: int
  sg_ports_saturated :: bool
  sg_program_size :: int
  sg_mul_count :: int
  sg_throw_away_count :: int
  sg_output :: "ss_instruction list"

definition sg_init :: "blake2_generator \<Rightarrow> ss_gen" where
  "sg_init g =
     \<lparr>sg_blake = g, sg_port_busy = replicate CYCLE_MAP_SIZE [0, 0, 0],
      sg_registers = replicate 8 ri_new, sg_current = wi_null, sg_macro_op_index = 0,
      sg_cycle = 0, sg_dep_cycle = 0, sg_retire_cycle = 0, sg_ports_saturated = False,
      sg_program_size = 0, sg_mul_count = 0, sg_throw_away_count = 0, sg_output = []\<rparr>"

abbreviation cur_info :: "ss_gen \<Rightarrow> instruction_info" where
  "cur_info st \<equiv> wi_info (sg_current st)"
abbreviation cur_ops :: "ss_gen \<Rightarrow> macro_op list" where
  "cur_ops st \<equiv> info_ops (wi_info (sg_current st))"

text \<open>Where control goes after a part of the loop body: on, to the next iteration
  (\<open>continue\<close>), or out of the loop (\<open>break\<close>).\<close>

datatype 'a flow = Go 'a | Next ss_gen | Stop ss_gen

section \<open>The parts of the loop body\<close>

definition issue_new :: "nat \<Rightarrow> decode_buffer \<Rightarrow> nat \<Rightarrow> ss_gen \<Rightarrow> ss_error + ss_gen flow" where
  "issue_new fuel buffer buffer_index st =
     (if sg_macro_op_index st \<ge> int (length (cur_ops st)) then
        (if sg_ports_saturated st \<or> sg_program_size st \<ge> SUPERSCALAR_MAX_SIZE
         then Inr (Stop st)
         else
           (let slot_size = buf_slots buffer ! buffer_index;
                is_last = (buffer_index + 1 = length (buf_slots buffer))
            in and_then (select_for_slot (sg_blake st) slot_size (buf_index buffer) is_last)
                 (\<lambda>(info, g). and_then (wi_create fuel info g)
                   (\<lambda>(w, g'). Inr (Go (st\<lparr>sg_current := w, sg_blake := g',
                                         sg_macro_op_index := 0\<rparr>))))))
      else Inr (Go st))"

text \<open>The look-forward loops. They return whether a register was found, and the schedule
  cycle and state reached.\<close>

fun source_loop :: "nat \<Rightarrow> int \<Rightarrow> ss_gen \<Rightarrow> bool \<times> int \<times> ss_gen" where
  "source_loop 0 sc st = (False, sc, st)"
| "source_loop (Suc n) sc st =
     (case select_source (sg_current st) sc (sg_registers st) (sg_blake st) of
        (found, w, g) \<Rightarrow>
          let st = st\<lparr>sg_current := w, sg_blake := g\<rparr>
          in if found then (True, sc, st)
             else source_loop n (sc + 1) (st\<lparr>sg_cycle := sg_cycle st + 1\<rparr>))"

fun dest_loop :: "nat \<Rightarrow> int \<Rightarrow> ss_gen \<Rightarrow> bool \<times> int \<times> ss_gen" where
  "dest_loop 0 sc st = (False, sc, st)"
| "dest_loop (Suc n) sc st =
     (case select_destination (sg_current st) sc (sg_throw_away_count st > 0) (sg_registers st)
             (sg_blake st) of
        (found, w, g) \<Rightarrow>
          let st = st\<lparr>sg_current := w, sg_blake := g\<rparr>
          in if found then (True, sc, st)
             else dest_loop n (sc + 1) (st\<lparr>sg_cycle := sg_cycle st + 1\<rparr>))"

definition throw_away :: "ss_gen \<Rightarrow> (int \<times> ss_gen) flow" where
  "throw_away st =
     (if sg_throw_away_count st < MAX_THROWAWAY_COUNT
      then Next (st\<lparr>sg_throw_away_count := sg_throw_away_count st + 1,
                    sg_macro_op_index := int (length (cur_ops st))\<rparr>)
      else Stop (st\<lparr>sg_current := wi_null\<rparr>))"

definition choose_source :: "int \<Rightarrow> ss_gen \<Rightarrow> (int \<times> ss_gen) flow" where
  "choose_source sc st =
     (if sg_macro_op_index st = info_src_op (cur_info st) then
        (case source_loop LOOK_FORWARD_CYCLES sc st of
           (found, sc', st') \<Rightarrow> if found then Go (sc', st') else throw_away st')
      else Go (sc, st))"

definition choose_dest :: "int \<Rightarrow> ss_gen \<Rightarrow> (int \<times> ss_gen) flow" where
  "choose_dest sc st =
     (if sg_macro_op_index st = info_dst_op (cur_info st) then
        (case dest_loop LOOK_FORWARD_CYCLES sc st of
           (found, sc', st') \<Rightarrow> if found then Go (sc', st') else throw_away st')
      else Go (sc, st))"

text \<open>The update of the register table; \<open>current.dst as usize\<close> of a negative number is out
  of range.\<close>

definition record_result :: "ss_gen \<Rightarrow> ss_error + ss_gen" where
  "record_result st =
     (if sg_macro_op_index st = info_result_op (cur_info st) then
        (let w = sg_current st; dst = wi_dst w
         in if 0 \<le> dst \<and> dst < 8
            then Inr (st\<lparr>sg_retire_cycle := sg_dep_cycle st,
                         sg_registers := (sg_registers st)[nat dst :=
                           \<lparr>ri_latency = sg_dep_cycle st, ri_last_op_group = wi_op_group w,
                            ri_last_op_par = wi_op_group_par w\<rparr>]\<rparr>)
            else Inl Panic)
      else Inr st)"

definition emit_instruction :: "ss_gen \<Rightarrow> ss_gen" where
  "emit_instruction st =
     (if sg_macro_op_index st \<ge> int (length (cur_ops st))
      then st\<lparr>sg_output := sg_output st @ [to_output (sg_current st)],
              sg_program_size := sg_program_size st + 1,
              sg_mul_count := sg_mul_count st +
                (if is_multiplication (info_type (cur_info st)) then 1 else 0)\<rparr>
      else st)"

definition commit_mop :: "macro_op \<Rightarrow> int \<Rightarrow> int \<Rightarrow> ss_gen \<Rightarrow> ss_error + ss_gen flow" where
  "commit_mop mop top_cycle sc st =
     (let st = st\<lparr>sg_throw_away_count := 0\<rparr>
      in case schedule_mop mop (sg_port_busy st) sc sc True of
        (sc', busy) \<Rightarrow>
          (let st = st\<lparr>sg_port_busy := busy\<rparr>
           in if sc' < 0 then Inr (Stop (st\<lparr>sg_ports_saturated := True\<rparr>))
              else and_then (record_result (st\<lparr>sg_dep_cycle := sc' + mop_latency mop\<rparr>))
                (\<lambda>st. Inr (Go (emit_instruction
                   (st\<lparr>sg_macro_op_index := sg_macro_op_index st + 1,
                       sg_ports_saturated :=
                         (sg_ports_saturated st \<or> sc' \<ge> RANDOMX_SUPERSCALAR_LATENCY),
                       sg_cycle := top_cycle\<rparr>))))))"

definition run_mop :: "macro_op \<Rightarrow> int \<Rightarrow> int \<Rightarrow> ss_gen \<Rightarrow> ss_error + ss_gen flow" where
  "run_mop mop top_cycle sc st =
     (case choose_source sc st of
        Stop st \<Rightarrow> Inr (Stop st) | Next st \<Rightarrow> Inr (Next st) | Go (sc, st) \<Rightarrow>
          (case choose_dest sc st of
             Stop st \<Rightarrow> Inr (Stop st) | Next st \<Rightarrow> Inr (Next st)
           | Go (sc, st) \<Rightarrow> commit_mop mop top_cycle sc st))"

definition issue_mop :: "int \<Rightarrow> ss_gen \<Rightarrow> ss_error + ss_gen flow" where
  "issue_mop top_cycle st =
     (let i = sg_macro_op_index st
      in if \<not> (0 \<le> i \<and> i < int (length (cur_ops st))) then Inl Panic
         else
           (let mop = cur_ops st ! nat i;
                sc = fst (schedule_mop mop (sg_port_busy st) (sg_cycle st) (sg_dep_cycle st) False)
            in if sc < 0 then Inr (Stop (st\<lparr>sg_ports_saturated := True\<rparr>))
               else run_mop mop top_cycle sc st))"

text \<open>One iteration of the inner loop, \<open>buffer_index\<close> advancing exactly on \<open>Go\<close>.\<close>

definition slot_body :: "nat \<Rightarrow> decode_buffer \<Rightarrow> nat \<Rightarrow> ss_gen \<Rightarrow> ss_error + ss_gen flow" where
  "slot_body fuel buffer buffer_index st =
     and_then (issue_new fuel buffer buffer_index st) (\<lambda>fl.
       case fl of
         Stop st' \<Rightarrow> Inr (Stop st') | Next st' \<Rightarrow> Inr (Next st')
       | Go st' \<Rightarrow> issue_mop (sg_cycle st) st')"

section \<open>The loops\<close>

lemma throw_away_Next:
  "throw_away st = Next st' \<Longrightarrow> sg_throw_away_count st < MAX_THROWAWAY_COUNT \<and>
     sg_throw_away_count st' = sg_throw_away_count st + 1"
  by (auto simp: throw_away_def split: if_splits)

lemma source_loop_throw:
  "source_loop n sc st = (f, sc', st') \<Longrightarrow> sg_throw_away_count st' = sg_throw_away_count st"
  by (induction n sc st rule: source_loop.induct) (auto simp: Let_def split: prod.splits if_splits)

lemma dest_loop_throw:
  "dest_loop n sc st = (f, sc', st') \<Longrightarrow> sg_throw_away_count st' = sg_throw_away_count st"
  by (induction n sc st rule: dest_loop.induct) (auto simp: Let_def split: prod.splits if_splits)

lemma choose_source_throw:
  "choose_source sc st = Go (sc', st') \<Longrightarrow> sg_throw_away_count st' = sg_throw_away_count st"
  "choose_source sc st = Next st' \<Longrightarrow> sg_throw_away_count st < MAX_THROWAWAY_COUNT \<and>
     sg_throw_away_count st' = sg_throw_away_count st + 1"
  by (auto simp: choose_source_def throw_away_def split: prod.splits if_splits
      dest!: source_loop_throw)

lemma choose_dest_throw:
  "choose_dest sc st = Go (sc', st') \<Longrightarrow> sg_throw_away_count st' = sg_throw_away_count st"
  "choose_dest sc st = Next st' \<Longrightarrow> sg_throw_away_count st < MAX_THROWAWAY_COUNT \<and>
     sg_throw_away_count st' = sg_throw_away_count st + 1"
  by (auto simp: choose_dest_def throw_away_def split: prod.splits if_splits
      dest!: dest_loop_throw)

lemma and_then_Inr:
  "and_then m f = Inr y \<longleftrightarrow> (\<exists>x. m = Inr x \<and> f x = Inr y)"
  by (cases m) auto

lemma issue_new_throw:
  "issue_new fuel b i st = Inr (Go st') \<Longrightarrow> sg_throw_away_count st' = sg_throw_away_count st"
  "issue_new fuel b i st \<noteq> Inr (Next st')"
  by (auto simp: issue_new_def Let_def and_then_Inr split: if_splits prod.splits)

lemma commit_mop_no_Next: "commit_mop mop t sc st \<noteq> Inr (Next st')"
  by (auto simp: commit_mop_def Let_def and_then_Inr split: prod.split_asm if_split_asm)

text \<open>A \<open>continue\<close> always consumes one of the 256 throw-aways, so the loop ends.\<close>

lemma slot_body_Next:
  assumes "slot_body fuel b i st = Inr (Next st')"
  shows "sg_throw_away_count st < MAX_THROWAWAY_COUNT \<and>
     sg_throw_away_count st' = sg_throw_away_count st + 1"
proof -
  obtain fl where fl: "issue_new fuel b i st = Inr fl"
    using assms by (auto simp: slot_body_def and_then_Inr)
  show ?thesis
    using assms fl
    by (cases fl)
      (auto simp: slot_body_def issue_mop_def run_mop_def Let_def issue_new_throw(2) commit_mop_no_Next
        split: flow.split_asm if_split_asm prod.split_asm
        dest!: issue_new_throw(1) choose_source_throw choose_dest_throw)
qed

function slots_loop :: "nat \<Rightarrow> decode_buffer \<Rightarrow> nat \<Rightarrow> ss_gen \<Rightarrow> ss_error + ss_gen" where
  "slots_loop fuel buffer buffer_index st =
     (if buffer_index < length (buf_slots buffer) then
        (case slot_body fuel buffer buffer_index st of
           Inl e \<Rightarrow> Inl e
         | Inr (Stop st') \<Rightarrow> Inr st'
         | Inr (Next st') \<Rightarrow> slots_loop fuel buffer buffer_index st'
         | Inr (Go st') \<Rightarrow> slots_loop fuel buffer (buffer_index + 1) st')
      else Inr st)"
  by pat_completeness auto
termination
  by (relation "measures [\<lambda>(f, b, i, st). length (buf_slots b) - i,
        \<lambda>(f, b, i, st). nat (MAX_THROWAWAY_COUNT - sg_throw_away_count st)]")
    (auto dest!: slot_body_Next)

declare slots_loop.simps [simp del]

fun decode_loop :: "nat \<Rightarrow> int list \<Rightarrow> ss_gen \<Rightarrow> ss_error + ss_gen" where
  "decode_loop fuel [] st = Inr st"
| "decode_loop fuel (decode_cycle # rest) st =
     (if sg_ports_saturated st \<or> sg_program_size st \<ge> SUPERSCALAR_MAX_SIZE then Inr st
      else case fetch_next (info_type (cur_info st)) decode_cycle (sg_mul_count st)
             (sg_blake st) of
        (buffer, g) \<Rightarrow>
          and_then (slots_loop fuel buffer 0 (st\<lparr>sg_blake := g\<rparr>))
            (\<lambda>st. decode_loop fuel rest (st\<lparr>sg_cycle := sg_cycle st + 1\<rparr>)))"

section \<open>The address register\<close>

fun asic_latency_loop :: "int list \<Rightarrow> ss_instruction list \<Rightarrow> ss_error + int list" where
  "asic_latency_loop lat [] = Inr lat"
| "asic_latency_loop lat (inst # rest) =
     (let dst = unat (ssi_dst inst); src = unat (ssi_src inst)
      in if dst < 8 \<and> src < 8 then
           (let lat_dst = lat ! dst + 1;
                lat_src = (if dst \<noteq> src then lat ! src + 1 else 0)
            in asic_latency_loop (lat[dst := max lat_dst lat_src]) rest)
         else Inl Panic)"

definition find_address_register :: "int list \<Rightarrow> nat" where
  "find_address_register lat =
     snd (foldl (\<lambda>(max_latency, address_register) i.
        if lat ! i > max_latency then (lat ! i, i) else (max_latency, address_register))
        (0, 0) [0..<8])"

definition generate_superscalar ::
  "nat \<Rightarrow> blake2_generator \<Rightarrow> ss_error + ss_program \<times> blake2_generator" where
  "generate_superscalar fuel g =
     and_then (decode_loop fuel [0..RANDOMX_SUPERSCALAR_LATENCY - 1] (sg_init g)) (\<lambda>st.
       and_then (asic_latency_loop (replicate 8 0) (sg_output st)) (\<lambda>lat.
         Inr (\<lparr>ssp_instructions = sg_output st,
               ssp_address_register = find_address_register lat\<rparr>, sg_blake st)))"

end
