(* ===== verification/Superscalar_Safe.thy ===== *)
theory Superscalar_Safe
  imports Superscalar_Loop
begin

text \<open>
  The correctness of \<open>generate_superscalar\<close>: it never panics, whatever the generator state,
  and the program it returns is well formed (\<open>ssp_ok\<close>), so that \<open>execute_superscalar\<close> does
  not panic either. It fails to return only when one of its two rejection loops meets a
  reachable generator state from which every draw is rejected.
\<close>

section \<open>Generator states reached by drawing\<close>

inductive gen_reach :: "blake2_generator \<Rightarrow> blake2_generator \<Rightarrow> bool" for g where
  reach_refl: "gen_reach g g"
| reach_byte: "gen_reach g h \<Longrightarrow> gen_reach g (snd (get_byte h))"
| reach_u32: "gen_reach g h \<Longrightarrow> gen_reach g (snd (get_u32 h))"

lemmas gen_reach_intros [intro] = gen_reach.intros

lemma gen_reach_inv: "gen_reach g h \<Longrightarrow> gen_inv g \<Longrightarrow> gen_inv h"
  by (induction rule: gen_reach.induct) auto

lemma gen_reach_trans: "gen_reach h k \<Longrightarrow> gen_reach g h \<Longrightarrow> gen_reach g k"
  by (induction rule: gen_reach.induct) auto

lemma gen_reach_byte': "get_byte h = (b, k) \<Longrightarrow> gen_reach g h \<Longrightarrow> gen_reach g k"
  by (metis reach_byte snd_conv)

lemma gen_reach_u32': "get_u32 h = (b, k) \<Longrightarrow> gen_reach g h \<Longrightarrow> gen_reach g k"
  by (metis reach_u32 snd_conv)

text \<open>The next \<open>n\<close> draws are all rejected.\<close>

fun ror_rejected :: "nat \<Rightarrow> blake2_generator \<Rightarrow> bool" where
  "ror_rejected 0 g = True"
| "ror_rejected (Suc n) g =
     (fst (get_byte g) AND 63 = 0 \<and> ror_rejected n (snd (get_byte g)))"

fun rcp_rejected :: "nat \<Rightarrow> blake2_generator \<Rightarrow> bool" where
  "rcp_rejected 0 g = True"
| "rcp_rejected (Suc n) g =
     (is_zero_or_power_of_2 (fst (get_u32 g)) \<and> rcp_rejected n (snd (get_u32 g)))"

definition draws_rejected :: "nat \<Rightarrow> blake2_generator \<Rightarrow> bool" where
  "draws_rejected n g \<longleftrightarrow> (\<exists>h. gen_reach g h \<and> (ror_rejected n h \<or> rcp_rejected n h))"

text \<open>The only error: no return, because a run of draws was rejected.\<close>

definition only_rejection :: "nat \<Rightarrow> blake2_generator \<Rightarrow> ss_error \<Rightarrow> bool" where
  "only_rejection fuel g e \<longleftrightarrow> e = No_return \<and> draws_rejected fuel g"

lemma u8_and_63: "(b AND 63 :: u8) < 64"
proof -
  have "b AND 63 = take_bit 6 b" by (simp add: take_bit_eq_mask mask_eq_exp_minus_1)
  then show ?thesis by (simp add: word_less_nat_alt unat_take_bit_less [where n = 6, simplified])
qed

lemma draw_ror_post:
  "post (\<lambda>(imm, g'). 0 < imm \<and> imm < 64 \<and> gen_reach g g')
     (\<lambda>e. e = No_return \<and> ror_rejected fuel g) (draw_ror fuel g)"
proof (induction fuel g rule: draw_ror.induct)
  case (2 fuel g)
  obtain b g' where bg: "get_byte g = (b, g')" by force
  have r: "gen_reach g g'" using bg by (rule gen_reach_byte') auto
  show ?case
  proof (cases "b AND 63 = 0")
    case True
    then show ?thesis
      using 2 [OF bg [symmetric] refl] bg r
      by (auto elim!: post_mono intro: gen_reach_trans)
  next
    case False
    moreover have "unat (ucast (b AND 63) :: u32) = unat (b AND 63)"
      by (simp add: unat_ucast_up)
    moreover have "unat (b AND 63) < 64"
      using u8_and_63 [of b] by (simp add: word_less_nat_alt)
    ultimately have "0 < (ucast (b AND 63) :: u32)" "(ucast (b AND 63) :: u32) < 64"
      by (simp_all add: word_less_nat_alt unat_gt_0)
    then show ?thesis using bg r by (auto simp: Let_def)
  qed
qed simp

lemma draw_rcp_post:
  "post (\<lambda>(imm, g'). \<not> is_zero_or_power_of_2 imm \<and> gen_reach g g')
     (\<lambda>e. e = No_return \<and> rcp_rejected fuel g) (draw_rcp fuel g)"
proof (induction fuel g rule: draw_rcp.induct)
  case (2 fuel g)
  obtain v g' where vg: "get_u32 g = (v, g')" by force
  have r: "gen_reach g g'" using vg by (rule gen_reach_u32') auto
  show ?case
    using 2 [OF vg [symmetric]] vg r
    by (auto elim!: post_mono intro: gen_reach_trans)
qed simp

section \<open>Working instructions\<close>

definition wi_ok :: "working_instruction \<Rightarrow> bool" where
  "wi_ok w \<longleftrightarrow>
     (\<exists>t. wi_info w = info_of t) \<and>
     -1 \<le> wi_src w \<and> wi_src w \<le> 7 \<and> -1 \<le> wi_dst w \<and> wi_dst w \<le> 7 \<and>
     (info_type (wi_info w) = IROR_C \<longrightarrow> 0 < wi_imm32 w \<and> wi_imm32 w < 64) \<and>
     (info_type (wi_info w) = IMUL_RCP \<longrightarrow> \<not> is_zero_or_power_of_2 (wi_imm32 w)) \<and>
     (wi_can_reuse w \<longleftrightarrow> info_type (wi_info w) \<in> {IMULH_R, ISMULH_R}) \<and>
     (info_type (wi_info w) = IADD_RS \<longrightarrow> wi_dst w \<noteq> 5)"

lemma info_type_of [simp]: "info_type (info_of t) = t"
  by (cases t) (simp_all add: mk_info_def)

declare info_of.simps [simp del]

lemma wi_null_ok [simp]: "wi_ok wi_null"
  by (auto simp: wi_ok_def wi_null_def wi_new_def)

lemma wi_create_post:
  "post (\<lambda>(w, g'). wi_ok w \<and> wi_info w = info_of t \<and> gen_reach g g')
     (only_rejection fuel g) (wi_create fuel (info_of t) g)"
proof -
  have ror: "post (\<lambda>(w, g'). wi_ok w \<and> wi_info w = info_of IROR_C \<and> gen_reach g g')
     (only_rejection fuel g) (wi_create fuel (info_of IROR_C) g)"
    unfolding wi_create_def Let_def info_type_of ss_type.case
    by (rule post_and_then)
      (rule post_mono [OF draw_ror_post],
       auto simp: wi_ok_def wi_new_def only_rejection_def draws_rejected_def)
  have rcp: "post (\<lambda>(w, g'). wi_ok w \<and> wi_info w = info_of IMUL_RCP \<and> gen_reach g g')
     (only_rejection fuel g) (wi_create fuel (info_of IMUL_RCP) g)"
    unfolding wi_create_def Let_def info_type_of ss_type.case
    by (rule post_and_then)
      (rule post_mono [OF draw_rcp_post],
       auto simp: wi_ok_def wi_new_def only_rejection_def draws_rejected_def)
  show ?thesis
  proof (cases "t \<in> {IROR_C, IMUL_RCP}")
    case True
    then show ?thesis using ror rcp by auto
  next
    case False
    then show ?thesis
      by (cases t)
        (auto simp: wi_create_def wi_ok_def wi_new_def split: prod.split
          intro: gen_reach_byte' gen_reach_u32')
  qed
qed

lemma select_for_slot_post:
  assumes "slot \<in> {3, 4, 7, 8, 9, 10}"
  shows "post (\<lambda>(info, g'). (\<exists>t. info = info_of t \<and> t \<noteq> INVALID) \<and> gen_reach g g') (\<lambda>e. False)
     (select_for_slot g slot ft is_last)"
proof -
  have and3: "b AND 3 \<in> {0, 1, 2, 3}" for b :: u8
  proof -
    have "b AND 3 = take_bit 2 b" by (simp add: take_bit_eq_mask mask_eq_exp_minus_1)
    then have "unat (b AND 3) < 4" using unat_take_bit_less [of 2 b] by simp
    then have "unat (b AND 3) \<in> {0, 1, 2, 3}" by auto
    then show ?thesis by (auto simp: word_unat_eq_iff)
  qed
  obtain b g' where bg: "get_byte g = (b, g')" by force
  then have r: "gen_reach g g'" by (rule gen_reach_byte') auto
  have inv: "t \<noteq> INVALID \<Longrightarrow> \<exists>u. info_of t = info_of u \<and> u \<noteq> INVALID" for t
    by blast
  show ?thesis
    using assms and3 [of b]
    by (auto simp: select_for_slot_def Let_def bg r inv reach_refl)
qed

section \<open>Register selection\<close>

lemma select_register_some:
  assumes "select_register av g = (Some r, g')" "length av \<le> 8"
  shows "r \<in> set av \<and> gen_reach g g'"
proof -
  have "unat (v mod of_nat (length av) :: u32) < length av" if "1 < length av" for v
  proof -
    have "unat (of_nat (length av) :: u32) = length av"
      using assms(2) by (simp add: unat_of_nat)
    then show ?thesis using that mod_less_divisor [of "length av" "unat v"]
      by (simp only: unat_mod)
  qed
  then show ?thesis
    using assms(1)
    by (auto simp: select_register_def split: if_splits prod.splits intro: gen_reach_u32')
qed

lemma select_register_none:
  "select_register av g = (None, g') \<Longrightarrow> g' = g"
  by (auto simp: select_register_def split: if_splits prod.splits)

text \<open>What register selection leaves alone.\<close>

definition same_instr :: "working_instruction \<Rightarrow> working_instruction \<Rightarrow> bool" where
  "same_instr w w' \<longleftrightarrow>
     wi_info w' = wi_info w \<and> wi_imm32 w' = wi_imm32 w \<and> wi_can_reuse w' = wi_can_reuse w"

lemma length_available [simp]:
  "length (available_sources c rs) \<le> 8" "length (available_destinations w c a rs) \<le> 8"
  by (auto simp: available_sources_def available_destinations_def
      intro: order_trans [OF length_filter_le])

lemma select_source_post:
  assumes "select_source w c rs g = (found, w', g')"
  shows "same_instr w w' \<and> wi_dst w' = wi_dst w \<and> gen_reach g g' \<and>
     (if found then 0 \<le> wi_src w' \<and> wi_src w' \<le> 7 else w' = w)"
proof -
  let ?av = "available_sources c rs"
  have av: "r \<in> set ?av \<Longrightarrow> 0 \<le> r \<and> r \<le> 7" for r
    by (auto simp: available_sources_def)
  show ?thesis
  proof (cases "length ?av = 2 \<and> info_type (wi_info w) = IADD_RS \<and>
      (?av ! 0 = REGISTER_NEEDS_DISPLACEMENT \<or> ?av ! 1 = REGISTER_NEEDS_DISPLACEMENT)")
    case True
    then show ?thesis
      using assms by (auto simp: select_source_def same_instr_def Let_def ss_consts)
  next
    case False
    note nd = this
    show ?thesis
    proof (cases "fst (select_register ?av g)")
      case None
      then show ?thesis
        using assms nd by (auto simp: select_source_def same_instr_def Let_def
            split: prod.splits if_split_asm dest!: select_register_none)
    next
      case (Some r)
      then have sel: "select_register ?av g = (Some r, g')" and found: "found"
        "w' = (if wi_group_par_is_source w then w\<lparr>wi_src := r, wi_op_group_par := r\<rparr>
               else w\<lparr>wi_src := r\<rparr>)"
        using assms nd by (auto simp: select_source_def Let_def split: prod.splits)
      from select_register_some [OF sel length_available(1)] av found show ?thesis
        by (auto simp: same_instr_def)
    qed
  qed
qed

lemma select_destination_post:
  assumes "select_destination w c a rs g = (found, w', g')"
  shows "same_instr w w' \<and> wi_src w' = wi_src w \<and> gen_reach g g' \<and>
     (if found then 0 \<le> wi_dst w' \<and> wi_dst w' \<le> 7 \<and> (wi_can_reuse w \<or> wi_dst w' \<noteq> wi_src w) \<and>
        (info_type (wi_info w) = IADD_RS \<longrightarrow> wi_dst w' \<noteq> 5)
      else w' = w)"
proof -
  let ?av = "available_destinations w c a rs"
  have av: "r \<in> set ?av \<Longrightarrow> 0 \<le> r \<and> r \<le> 7 \<and> (wi_can_reuse w \<or> r \<noteq> wi_src w) \<and>
      (info_type (wi_info w) = IADD_RS \<longrightarrow> r \<noteq> 5)" for r
    by (auto simp: available_destinations_def REGISTER_NEEDS_DISPLACEMENT_def Let_def)
  show ?thesis
  proof (cases "fst (select_register ?av g)")
    case None
    then show ?thesis
      using assms by (auto simp: select_destination_def same_instr_def
          split: prod.splits dest!: select_register_none)
  next
    case (Some r)
    then have sel: "select_register ?av g = (Some r, g')" and found: "found" "w' = w\<lparr>wi_dst := r\<rparr>"
      using assms by (auto simp: select_destination_def split: prod.splits)
    from select_register_some [OF sel length_available(2)] av found show ?thesis
      by (auto simp: same_instr_def)
  qed
qed

section \<open>Scheduling keeps the shape of the port map\<close>

definition ports_ok :: "int list list \<Rightarrow> bool" where
  "ports_ok pb \<longleftrightarrow> length pb = CYCLE_MAP_SIZE \<and> list_all (\<lambda>row. length row = 3) pb"

lemma schedule_uop_shape:
  "ports_ok pb \<Longrightarrow> ports_ok (snd (schedule_uop u pb c commit)) \<and> -1 \<le> fst (schedule_uop u pb c commit)"
proof (induction u pb c commit rule: schedule_uop.induct)
  case (1 u pb c commit)
  then show ?case
    by (subst (1 2) schedule_uop.simps)
      (auto simp: Let_def ports_ok_def list_all_iff dest!: set_update_subset_insert [THEN subsetD])
qed

lemma schedule_pair_shape:
  "ports_ok pb \<Longrightarrow> ports_ok (snd (schedule_pair u v pb c commit))"
proof (induction u v pb c commit rule: schedule_pair.induct)
  case (1 u v pb c commit)
  then show ?case
    by (subst schedule_pair.simps) (auto simp: Let_def schedule_uop_shape)
qed

lemma schedule_mop_shape:
  "ports_ok pb \<Longrightarrow> schedule_mop m pb c d commit = (sc, pb') \<Longrightarrow> ports_ok pb'"
proof -
  assume pb: "ports_ok pb" and eq: "schedule_mop m pb c d commit = (sc, pb')"
  from pb have "ports_ok (snd (schedule_mop m pb c d commit))"
    by (simp add: schedule_mop_def Let_def schedule_uop_shape schedule_pair_shape)
  then show ?thesis by (simp only: eq snd_conv)
qed

section \<open>The invariant of the loops\<close>

text \<open>The instruction in progress, between two macro-operations.\<close>

definition pos_ok :: "ss_gen \<Rightarrow> bool" where
  "pos_ok st \<longleftrightarrow>
     0 \<le> sg_macro_op_index st \<and>
     (sg_macro_op_index st < int (length (cur_ops st)) \<longrightarrow>
        sg_program_size st < SUPERSCALAR_MAX_SIZE \<and>
        (info_dst_op (cur_info st) < sg_macro_op_index st \<longrightarrow> 0 \<le> wi_dst (sg_current st)))"

definition sg_core :: "blake2_generator \<Rightarrow> ss_gen \<Rightarrow> bool" where
  "sg_core g st \<longleftrightarrow>
     gen_reach g (sg_blake st) \<and> length (sg_registers st) = 8 \<and> ports_ok (sg_port_busy st) \<and>
     wi_ok (sg_current st) \<and> 0 \<le> sg_cycle st \<and>
     sg_program_size st = int (length (sg_output st)) \<and>
     sg_program_size st \<le> SUPERSCALAR_MAX_SIZE \<and> list_all ssi_ok (sg_output st)"

definition sg_inv :: "blake2_generator \<Rightarrow> ss_gen \<Rightarrow> bool" where
  "sg_inv g st \<longleftrightarrow> sg_core g st \<and> pos_ok st"

lemma info_invalid_ops: "info_ops (info_of INVALID) = []"
  by (simp add: info_of.simps mk_info_def)

lemma wi_null_info [simp]: "wi_info wi_null = info_of INVALID"
  by (simp add: wi_null_def wi_new_def)

lemma sg_init_inv: "sg_inv g (sg_init g)"
  using wi_null_ok
  by (auto simp: sg_inv_def sg_core_def pos_ok_def sg_init_def ports_ok_def ss_consts list_all_iff
      wi_null_info info_invalid_ops reach_refl)

text \<open>Every instruction has at least one macro-operation, and its operand and result
  positions are positions of the list, the destination's first.\<close>

lemma info_positions:
  assumes "t \<noteq> INVALID"
  shows "0 < length (info_ops (info_of t)) \<and>
     0 \<le> info_dst_op (info_of t) \<and> info_dst_op (info_of t) \<le> info_result_op (info_of t) \<and>
     info_dst_op (info_of t) < int (length (info_ops (info_of t)))"
  using assms by (cases t) (simp_all add: info_of.simps mk_info_def)

text \<open>For the two-register instructions source and destination are chosen in one step.\<close>

lemma info_src_single:
  assumes "t \<in> {ISUB_R, IXOR_R, IADD_RS, IMUL_R}"
  shows "info_src_op (info_of t) = 0 \<and> info_dst_op (info_of t) = 0 \<and>
    length (info_ops (info_of t)) = 1"
  using assms by (auto simp: info_of.simps mk_info_def)

lemma wi_ok_info: "wi_ok w \<Longrightarrow> \<exists>t. wi_info w = info_of t \<and> t = info_type (wi_info w)"
  by (auto simp: wi_ok_def)

section \<open>Each part of the body\<close>

lemma flow_cases_post:
  "(\<And>x. fl = Go x \<Longrightarrow> P (Go x)) \<Longrightarrow> (\<And>s. fl = Next s \<Longrightarrow> P (Next s)) \<Longrightarrow>
     (\<And>s. fl = Stop s \<Longrightarrow> P (Stop s)) \<Longrightarrow> P fl"
  by (cases fl) auto

text \<open>What a part of the body leaves: the invariant on \<open>continue\<close> and \<open>break\<close>, \<open>Q\<close> on \<open>Go\<close>.\<close>

fun flow_ok :: "blake2_generator \<Rightarrow> ('a \<Rightarrow> bool) \<Rightarrow> 'a flow \<Rightarrow> bool" where
  "flow_ok g Q (Go x) = Q x"
| "flow_ok g Q (Next s) = sg_inv g s"
| "flow_ok g Q (Stop s) = sg_inv g s"

definition buf_ok :: "decode_buffer \<Rightarrow> bool" where
  "buf_ok b \<longleftrightarrow> list_all (\<lambda>s. s \<in> {3, 4, 7, 8, 9, 10}) (buf_slots b)"

lemma only_rejection_mono:
  "only_rejection fuel h e \<Longrightarrow> gen_reach g h \<Longrightarrow> only_rejection fuel g e"
  by (auto simp: only_rejection_def draws_rejected_def intro: gen_reach_trans)

definition in_progress :: "ss_gen \<Rightarrow> bool" where
  "in_progress st \<longleftrightarrow> sg_macro_op_index st < int (length (cur_ops st))"

lemma issue_new_post:
  assumes inv: "sg_inv g st" and b: "buf_ok b" "i < length (buf_slots b)"
  shows "post (flow_ok g (\<lambda>st'. sg_inv g st' \<and> in_progress st' \<and> sg_cycle st' = sg_cycle st))
     (only_rejection fuel g) (issue_new fuel b i st)"
proof (cases "int (length (cur_ops st)) \<le> sg_macro_op_index st \<and> \<not> sg_ports_saturated st \<and>
    sg_program_size st < SUPERSCALAR_MAX_SIZE")
  case False
  then show ?thesis using inv by (auto simp: issue_new_def in_progress_def)
next
  case True
  have slot: "buf_slots b ! i \<in> {3, 4, 7, 8, 9, 10}"
    using b by (simp only: buf_ok_def list_all_length)
  have reach: "gen_reach g (sg_blake st)" using inv by (simp add: sg_inv_def sg_core_def)
  have "post (\<lambda>fl. flow_ok g (\<lambda>st'. sg_inv g st' \<and> in_progress st' \<and> sg_cycle st' = sg_cycle st) fl)
     (only_rejection fuel g)
     (and_then (select_for_slot (sg_blake st) (buf_slots b ! i) (buf_index b)
          (i + 1 = length (buf_slots b)))
        (\<lambda>(info, g). and_then (wi_create fuel info g)
           (\<lambda>(w, g'). Inr (Go (st\<lparr>sg_current := w, sg_blake := g', sg_macro_op_index := 0\<rparr>)))))"
  proof (rule post_and_then, rule post_mono [OF select_for_slot_post [OF slot]], assumption)
    fix x assume x: "case x of (info, g') \<Rightarrow>
        (\<exists>t. info = info_of t \<and> t \<noteq> INVALID) \<and> gen_reach (sg_blake st) g'"
    then obtain t h where th: "x = (info_of t, h)" "t \<noteq> INVALID" "gen_reach (sg_blake st) h"
      by auto
    then have gh: "gen_reach g h" using reach gen_reach_trans by blast
    have "post (flow_ok g (\<lambda>st'. sg_inv g st' \<and> in_progress st' \<and> sg_cycle st' = sg_cycle st))
       (only_rejection fuel g) (and_then (wi_create fuel (info_of t) h)
         (\<lambda>(w, g'). Inr (Go (st\<lparr>sg_current := w, sg_blake := g', sg_macro_op_index := 0\<rparr>))))"
      by (rule post_and_then, rule post_mono [OF wi_create_post], assumption)
        (use inv True info_positions [OF th(2)] gh in
          \<open>auto simp: sg_inv_def sg_core_def pos_ok_def in_progress_def
             intro: only_rejection_mono gen_reach_trans\<close>)
    then show "post (flow_ok g (\<lambda>st'. sg_inv g st' \<and> in_progress st' \<and> sg_cycle st' = sg_cycle st))
       (only_rejection fuel g) (case x of (info, g) \<Rightarrow> and_then (wi_create fuel info g)
         (\<lambda>(w, g'). Inr (Go (st\<lparr>sg_current := w, sg_blake := g', sg_macro_op_index := 0\<rparr>))))"
      by (simp add: th(1))
  qed simp
  then show ?thesis using True by (simp add: issue_new_def Let_def)
qed

text \<open>What the look-forward loops keep.\<close>

definition loop_frame :: "ss_gen \<Rightarrow> ss_gen \<Rightarrow> bool" where
  "loop_frame st st' \<longleftrightarrow>
     same_instr (sg_current st) (sg_current st') \<and>
     sg_macro_op_index st' = sg_macro_op_index st \<and> sg_program_size st' = sg_program_size st"

lemma loop_frame_refl [simp]: "loop_frame st st"
  by (simp add: loop_frame_def same_instr_def)

lemma loop_frame_trans: "loop_frame s t \<Longrightarrow> loop_frame t u \<Longrightarrow> loop_frame s u"
  by (simp add: loop_frame_def same_instr_def)

lemma wi_ok_same:
  "wi_ok w \<Longrightarrow> same_instr w w' \<Longrightarrow> -1 \<le> wi_src w' \<Longrightarrow> wi_src w' \<le> 7 \<Longrightarrow> -1 \<le> wi_dst w' \<Longrightarrow>
     wi_dst w' \<le> 7 \<Longrightarrow> (info_type (wi_info w) = IADD_RS \<Longrightarrow> wi_dst w' \<noteq> 5) \<Longrightarrow> wi_ok w'"
  by (auto simp: wi_ok_def same_instr_def)

lemma wi_ok_bounds:
  "wi_ok w \<Longrightarrow> -1 \<le> wi_src w \<and> wi_src w \<le> 7 \<and> -1 \<le> wi_dst w \<and> wi_dst w \<le> 7 \<and>
     (info_type (wi_info w) = IADD_RS \<longrightarrow> wi_dst w \<noteq> 5)"
  by (simp add: wi_ok_def)

lemma source_loop_post:
  "source_loop n sc st = (found, sc', st') \<Longrightarrow> sg_core g st \<Longrightarrow>
     sg_core g st' \<and> sc \<le> sc' \<and> loop_frame st st' \<and>
     wi_dst (sg_current st') = wi_dst (sg_current st) \<and> (found \<longrightarrow> 0 \<le> wi_src (sg_current st'))"
proof (induction n arbitrary: sc st)
  case (Suc n)
  obtain f w h where sel: "select_source (sg_current st) sc (sg_registers st) (sg_blake st) = (f, w, h)"
    by (rule prod_cases3)
  let ?st = "st\<lparr>sg_current := w, sg_blake := h\<rparr>"
  have post: "same_instr (sg_current st) w" "wi_dst w = wi_dst (sg_current st)"
    "gen_reach (sg_blake st) h" "if f then 0 \<le> wi_src w \<and> wi_src w \<le> 7 else w = sg_current st"
    using select_source_post [OF sel] by auto
  have ok: "wi_ok (sg_current st)" using Suc.prems(2) by (simp add: sg_core_def)
  have "wi_ok w"
    by (rule wi_ok_same [OF ok post(1)])
      (use wi_ok_bounds [OF ok] post in \<open>auto split: if_splits\<close>)
  then have core: "sg_core g ?st" "sg_core g (?st\<lparr>sg_cycle := sg_cycle st + 1\<rparr>)"
    using Suc.prems(2) post(3) by (auto simp: sg_core_def intro: gen_reach_trans)
  show ?case
  proof (cases f)
    case True
    then show ?thesis using Suc.prems(1) sel core post by (auto simp: loop_frame_def Let_def)
  next
    case False
    then have "source_loop n (sc + 1) (?st\<lparr>sg_cycle := sg_cycle st + 1\<rparr>) = (found, sc', st')"
      using Suc.prems(1) sel by (simp add: Let_def)
    from Suc.IH [OF this core(2)] show ?thesis
      using post by (auto simp: loop_frame_def same_instr_def)
  qed
qed simp

lemma dest_loop_post:
  "dest_loop n sc st = (found, sc', st') \<Longrightarrow> sg_core g st \<Longrightarrow>
     sg_core g st' \<and> sc \<le> sc' \<and> loop_frame st st' \<and>
     wi_src (sg_current st') = wi_src (sg_current st) \<and>
     (found \<longrightarrow> 0 \<le> wi_dst (sg_current st') \<and>
        (wi_can_reuse (sg_current st') \<or> wi_dst (sg_current st') \<noteq> wi_src (sg_current st')))"
proof (induction n arbitrary: sc st)
  case (Suc n)
  obtain f w h where sel: "select_destination (sg_current st) sc (sg_throw_away_count st > 0)
      (sg_registers st) (sg_blake st) = (f, w, h)"
    by (rule prod_cases3)
  let ?st = "st\<lparr>sg_current := w, sg_blake := h\<rparr>"
  have post: "same_instr (sg_current st) w" "wi_src w = wi_src (sg_current st)"
    "gen_reach (sg_blake st) h"
    "if f then 0 \<le> wi_dst w \<and> wi_dst w \<le> 7 \<and>
        (wi_can_reuse (sg_current st) \<or> wi_dst w \<noteq> wi_src (sg_current st)) \<and>
        (info_type (wi_info (sg_current st)) = IADD_RS \<longrightarrow> wi_dst w \<noteq> 5)
     else w = sg_current st"
    using select_destination_post [OF sel] by auto
  have ok: "wi_ok (sg_current st)" using Suc.prems(2) by (simp add: sg_core_def)
  have "wi_ok w"
    by (rule wi_ok_same [OF ok post(1)])
      (use wi_ok_bounds [OF ok] post in \<open>auto split: if_splits\<close>)
  then have core: "sg_core g ?st" "sg_core g (?st\<lparr>sg_cycle := sg_cycle st + 1\<rparr>)"
    using Suc.prems(2) post(3) by (auto simp: sg_core_def intro: gen_reach_trans)
  show ?case
  proof (cases f)
    case True
    then show ?thesis using Suc.prems(1) sel core post
      by (auto simp: loop_frame_def same_instr_def Let_def)
  next
    case False
    then have "dest_loop n (sc + 1) (?st\<lparr>sg_cycle := sg_cycle st + 1\<rparr>) = (found, sc', st')"
      using Suc.prems(1) sel by (simp add: Let_def)
    from Suc.IH [OF this core(2)] show ?thesis
      using post by (auto simp: loop_frame_def same_instr_def)
  qed
qed simp

lemma throw_away_post:
  "sg_core g st \<Longrightarrow> 0 \<le> sg_macro_op_index st \<Longrightarrow> flow_ok g Q (throw_away st)"
  using wi_null_ok
  by (auto simp: throw_away_def sg_inv_def sg_core_def pos_ok_def info_invalid_ops)

text \<open>The operands chosen before a macro-operation commits.\<close>

definition operands_ok :: "ss_gen \<Rightarrow> bool" where
  "operands_ok st \<longleftrightarrow>
     (let w = sg_current st; i = sg_macro_op_index st; info = wi_info w
      in (i = info_src_op info \<longrightarrow> 0 \<le> wi_src w) \<and>
         (info_dst_op info \<le> i \<longrightarrow> 0 \<le> wi_dst w) \<and>
         (i = info_dst_op info \<longrightarrow> wi_can_reuse w \<or> wi_dst w \<noteq> wi_src w))"

lemma frame_inv:
  assumes "sg_inv g st" "in_progress st" "loop_frame st st'" "sg_core g st'"
    "wi_dst (sg_current st') = wi_dst (sg_current st) \<or> 0 \<le> wi_dst (sg_current st')"
  shows "sg_inv g st' \<and> in_progress st'"
  using assms by (auto simp: sg_inv_def pos_ok_def in_progress_def loop_frame_def same_instr_def)

lemma choose_source_post:
  assumes "sg_inv g st" "in_progress st"
  shows "flow_ok g (\<lambda>(sc', st'). sg_inv g st' \<and> in_progress st' \<and> sc \<le> sc' \<and>
     (sg_macro_op_index st' = info_src_op (cur_info st') \<longrightarrow> 0 \<le> wi_src (sg_current st')))
     (choose_source sc st)"
proof (cases "sg_macro_op_index st = info_src_op (cur_info st)")
  case True
  obtain found sc' st' where l: "source_loop LOOK_FORWARD_CYCLES sc st = (found, sc', st')"
    by (rule prod_cases3)
  have core: "sg_core g st" "0 \<le> sg_macro_op_index st"
    using assms(1) by (simp_all add: sg_inv_def pos_ok_def)
  note post = source_loop_post [OF l core(1)]
  then have "0 \<le> sg_macro_op_index st'" using core(2) by (simp add: loop_frame_def)
  then have "flow_ok g Q (throw_away st')" for Q :: "int \<times> ss_gen \<Rightarrow> bool"
    using post by (simp add: throw_away_post)
  moreover have "sg_inv g st' \<and> in_progress st'"
    using frame_inv [OF assms, of st'] post by blast
  ultimately show ?thesis
    using True l post by (auto simp: choose_source_def)
qed (use assms in \<open>simp add: choose_source_def\<close>)

lemma choose_dest_post:
  assumes inv: "sg_inv g st" "in_progress st"
    and src: "sg_macro_op_index st = info_src_op (cur_info st) \<longrightarrow> 0 \<le> wi_src (sg_current st)"
  shows "flow_ok g (\<lambda>(sc', st'). sg_inv g st' \<and> in_progress st' \<and> sc \<le> sc' \<and> operands_ok st')
     (choose_dest sc st)"
proof (cases "sg_macro_op_index st = info_dst_op (cur_info st)")
  case True
  obtain found sc' st' where l: "dest_loop LOOK_FORWARD_CYCLES sc st = (found, sc', st')"
    by (rule prod_cases3)
  have core: "sg_core g st" "0 \<le> sg_macro_op_index st"
    using inv(1) by (simp_all add: sg_inv_def pos_ok_def)
  note post = dest_loop_post [OF l core(1)]
  then have "0 \<le> sg_macro_op_index st'" using core(2) by (simp add: loop_frame_def)
  then have "flow_ok g Q (throw_away st')" for Q :: "int \<times> ss_gen \<Rightarrow> bool"
    using post by (simp add: throw_away_post)
  moreover have "found \<Longrightarrow> sg_inv g st' \<and> in_progress st'"
    using frame_inv [OF inv, of st'] post by blast
  moreover have "found \<Longrightarrow> operands_ok st'"
    using post src by (auto simp: operands_ok_def loop_frame_def same_instr_def Let_def)
  ultimately show ?thesis
    using True l post by (auto simp: choose_dest_def)
next
  case False
  then show ?thesis
    using inv src by (auto simp: choose_dest_def operands_ok_def Let_def sg_inv_def pos_ok_def
        in_progress_def)
qed

section \<open>Emitted instructions\<close>

lemma unat_reg_int:
  fixes d :: int
  assumes "0 \<le> d" "d \<le> 7"
  shows "unat (of_int d :: u8) = nat d"
proof -
  have "(of_int d :: u8) = of_nat (nat d)" using assms(1) by simp
  also have "unat \<dots> = nat d" using assms by (simp only: unat_of_nat) simp
  finally show ?thesis .
qed

lemma to_output_ok:
  assumes ok: "wi_ok w" "0 \<le> wi_dst w" "info_type (wi_info w) \<noteq> INVALID"
    and rr: "info_type (wi_info w) \<in> {ISUB_R, IXOR_R, IADD_RS, IMUL_R} \<Longrightarrow>
      0 \<le> wi_src w \<and> wi_dst w \<noteq> wi_src w"
  shows "ssi_ok (to_output w)"
proof -
  have d: "unat (of_int (wi_dst w) :: u8) = nat (wi_dst w)"
    using ok(2) wi_ok_bounds [OF ok(1)] by (simp add: unat_reg_int)
  have s: "0 \<le> wi_src w \<Longrightarrow> unat (of_int (wi_src w) :: u8) = nat (wi_src w)"
    using wi_ok_bounds [OF ok(1)] by (simp add: unat_reg_int)
  have dst5: "info_type (wi_info w) = IADD_RS \<Longrightarrow> nat (wi_dst w) \<noteq> 5"
    using wi_ok_bounds [OF ok(1)] by auto
  have bounds: "nat (wi_dst w) < 8" "nat (wi_src w) < 8"
    using wi_ok_bounds [OF ok(1)] by auto
  have ne: "info_type (wi_info w) \<in> {ISUB_R, IXOR_R, IADD_RS, IMUL_R} \<Longrightarrow>
      0 \<le> wi_src w \<and> nat (wi_src w) \<noteq> nat (wi_dst w)"
    using rr ok(2) by auto
  show ?thesis
    using ok(1) ok(3) d s dst5 bounds ne
    by (cases "info_type (wi_info w)")
      (auto simp: ssi_ok_def to_output_def wi_ok_def word_less_nat_alt word_le_nat_alt
        word_unat_eq_iff)
qed

lemma in_progress_type:
  assumes "wi_ok (sg_current st)" "in_progress st" "0 \<le> sg_macro_op_index st"
  shows "info_type (cur_info st) \<noteq> INVALID"
proof
  assume "info_type (cur_info st) = INVALID"
  then have "wi_info (sg_current st) = info_of INVALID"
    using wi_ok_info [OF assms(1)] by auto
  then show False using assms(2, 3) by (simp add: in_progress_def info_invalid_ops)
qed

lemma emission_ok:
  assumes inv: "sg_inv g st" "in_progress st" "operands_ok st"
    and lst: "int (length (cur_ops st)) \<le> sg_macro_op_index st + 1"
  shows "ssi_ok (to_output (sg_current st))"
proof -
  let ?w = "sg_current st"
  have ok: "wi_ok ?w" "0 \<le> sg_macro_op_index st"
    using inv(1) by (simp_all add: sg_inv_def sg_core_def pos_ok_def)
  have t: "info_type (wi_info ?w) \<noteq> INVALID" by (rule in_progress_type [OF ok(1) inv(2) ok(2)])
  obtain t where t': "wi_info ?w = info_of t" "t \<noteq> INVALID"
    using wi_ok_info [OF ok(1)] t by auto
  have "0 \<le> wi_dst ?w"
    using inv(3) lst info_positions [OF t'(2)] by (simp add: operands_ok_def Let_def t'(1))
  moreover have "0 \<le> wi_src ?w \<and> wi_dst ?w \<noteq> wi_src ?w"
    if rr: "info_type (wi_info ?w) \<in> {ISUB_R, IXOR_R, IADD_RS, IMUL_R}"
  proof -
    have rr': "t \<in> {ISUB_R, IXOR_R, IADD_RS, IMUL_R}" using rr by (simp add: t'(1))
    have "sg_macro_op_index st = 0"
      using inv(2) ok(2) info_src_single [OF rr'] by (simp add: in_progress_def t'(1))
    moreover have "\<not> wi_can_reuse ?w" using ok(1) rr by (auto simp: wi_ok_def)
    ultimately show ?thesis
      using inv(3) info_src_single [OF rr'] by (simp add: operands_ok_def Let_def t'(1))
  qed
  ultimately show ?thesis using to_output_ok [OF ok(1) _ t] by blast
qed

lemma record_result_post:
  assumes "sg_inv g st" "operands_ok st" "in_progress st"
  shows "\<exists>st'. record_result st = Inr st' \<and> length (sg_registers st') = 8 \<and>
     st' = st\<lparr>sg_retire_cycle := sg_retire_cycle st', sg_registers := sg_registers st'\<rparr>"
proof -
  have ok: "wi_ok (sg_current st)" "0 \<le> sg_macro_op_index st" "length (sg_registers st) = 8"
    using assms(1) by (simp_all add: sg_inv_def sg_core_def pos_ok_def)
  obtain t where t: "cur_info st = info_of t" "t \<noteq> INVALID"
    using wi_ok_info [OF ok(1)] in_progress_type [OF ok(1) assms(3) ok(2)] by auto
  have "sg_macro_op_index st = info_result_op (cur_info st) \<Longrightarrow>
      0 \<le> wi_dst (sg_current st) \<and> wi_dst (sg_current st) < 8"
    using assms(2) info_positions [OF t(2)] wi_ok_bounds [OF ok(1)]
    by (simp add: operands_ok_def Let_def t(1))
  then show ?thesis
    using ok(3) by (auto simp: record_result_def Let_def)
qed

lemma commit_mop_post:
  assumes inv: "sg_inv g st" "in_progress st" "operands_ok st" and top: "0 \<le> top_cycle"
  shows "post (flow_ok g (sg_inv g)) (\<lambda>e. False) (commit_mop mop top_cycle sc st)"
proof -
  obtain sc' busy where sch: "schedule_mop mop (sg_port_busy st) sc sc True = (sc', busy)"
    by force
  have "ports_ok (sg_port_busy st)" using inv(1) by (simp add: sg_inv_def sg_core_def)
  then have busy: "ports_ok busy" using sch by (rule schedule_mop_shape)
  let ?st = "st\<lparr>sg_throw_away_count := 0, sg_port_busy := busy\<rparr>"
  let ?st1 = "?st\<lparr>sg_dep_cycle := sc' + mop_latency mop\<rparr>"
  have inv1: "sg_inv g ?st1" "operands_ok ?st1" "in_progress ?st1"
    using inv busy by (auto simp: sg_inv_def sg_core_def pos_ok_def operands_ok_def in_progress_def)
  obtain st2 where st2: "record_result ?st1 = Inr st2" "length (sg_registers st2) = 8"
    "st2 = ?st1\<lparr>sg_retire_cycle := sg_retire_cycle st2, sg_registers := sg_registers st2\<rparr>"
    using record_result_post [OF inv1] by blast
  have same: "sg_current st2 = sg_current st" "sg_macro_op_index st2 = sg_macro_op_index st"
    "sg_program_size st2 = sg_program_size st" "sg_output st2 = sg_output st"
    "sg_blake st2 = sg_blake st" "sg_port_busy st2 = busy"
    by (subst st2(3), simp)+
  let ?st3 = "emit_instruction (st2\<lparr>sg_macro_op_index := sg_macro_op_index st2 + 1,
      sg_ports_saturated := (sg_ports_saturated st2 \<or> sc' \<ge> RANDOMX_SUPERSCALAR_LATENCY),
      sg_cycle := top_cycle\<rparr>)"
  have size: "sg_program_size st < SUPERSCALAR_MAX_SIZE"
    using inv(1, 2) by (simp add: sg_inv_def pos_ok_def in_progress_def)
  have dst: "info_dst_op (cur_info st) \<le> sg_macro_op_index st \<Longrightarrow> 0 \<le> wi_dst (sg_current st)"
    using inv(3) by (simp add: operands_ok_def Let_def)
  have "sg_inv g ?st3"
  proof (cases "int (length (cur_ops st)) \<le> sg_macro_op_index st + 1")
    case True
    then show ?thesis
      using inv(1) emission_ok [OF inv True] busy size st2(2) top same
      by (auto simp: emit_instruction_def sg_inv_def sg_core_def pos_ok_def)
  next
    case False
    then show ?thesis
      using inv(1) busy size st2(2) top same dst
      by (auto simp: emit_instruction_def sg_inv_def sg_core_def pos_ok_def)
  qed
  moreover have "sg_inv g (?st\<lparr>sg_ports_saturated := True\<rparr>)"
    using inv(1) busy by (auto simp: sg_inv_def sg_core_def pos_ok_def)
  ultimately show ?thesis
    using st2(1) by (simp add: commit_mop_def Let_def sch)
qed

lemma run_mop_post:
  assumes st: "sg_inv g st" "in_progress st" and top: "0 \<le> top_cycle"
  shows "post (flow_ok g (sg_inv g)) (\<lambda>e. False) (run_mop mop top_cycle sc st)"
proof (cases "choose_source sc st")
  case (Go x)
  obtain sc1 st1 where x: "x = (sc1, st1)" by force
  have s1: "sg_inv g st1" "in_progress st1"
    "sg_macro_op_index st1 = info_src_op (cur_info st1) \<longrightarrow> 0 \<le> wi_src (sg_current st1)"
    using choose_source_post [OF st, of sc] Go x by auto
  show ?thesis
  proof (cases "choose_dest sc1 st1")
    case (Go y)
    obtain sc2 st2 where y: "y = (sc2, st2)" by force
    have s2: "sg_inv g st2" "in_progress st2" "operands_ok st2"
      using choose_dest_post [OF s1, of sc1] Go y by auto
    show ?thesis
      using commit_mop_post [OF s2 top] Go y \<open>choose_source sc st = Go x\<close> x
      by (simp add: run_mop_def)
  qed (use choose_dest_post [OF s1, of sc1] Go x in \<open>auto simp: run_mop_def\<close>)
qed (use choose_source_post [OF st, of sc] in \<open>auto simp: run_mop_def\<close>)

lemma issue_mop_post:
  assumes st: "sg_inv g st" "in_progress st" and top: "0 \<le> top_cycle"
  shows "post (flow_ok g (sg_inv g)) (\<lambda>e. False) (issue_mop top_cycle st)"
proof -
  have "0 \<le> sg_macro_op_index st" "sg_macro_op_index st < int (length (cur_ops st))"
    "sg_inv g (st\<lparr>sg_ports_saturated := True\<rparr>)"
    using st by (auto simp: sg_inv_def sg_core_def pos_ok_def in_progress_def)
  then show ?thesis by (simp add: issue_mop_def Let_def run_mop_post [OF assms])
qed

lemma slot_body_post:
  assumes inv: "sg_inv g st" and b: "buf_ok b" "i < length (buf_slots b)"
  shows "post (flow_ok g (sg_inv g)) (only_rejection fuel g) (slot_body fuel b i st)"
  unfolding slot_body_def
proof (rule post_and_then [OF issue_new_post [OF inv b]])
  fix fl assume fl: "flow_ok g (\<lambda>st'. sg_inv g st' \<and> in_progress st' \<and> sg_cycle st' = sg_cycle st) fl"
  have top: "0 \<le> sg_cycle st" using inv by (simp add: sg_inv_def sg_core_def)
  show "post (flow_ok g (sg_inv g)) (only_rejection fuel g)
     (case fl of Go st' \<Rightarrow> issue_mop (sg_cycle st) st'
      | Next st' \<Rightarrow> Inr (Next st') | Stop st' \<Rightarrow> Inr (Stop st'))"
  proof (cases fl)
    case (Go st')
    then have "post (flow_ok g (sg_inv g)) (\<lambda>e. False) (issue_mop (sg_cycle st) st')"
      using fl top by (auto intro: issue_mop_post)
    then show ?thesis using Go by (auto elim: post_mono)
  qed (use fl in auto)
qed

section \<open>The loops\<close>

lemma slots_loop_post:
  "buf_ok b \<Longrightarrow> sg_inv g st \<Longrightarrow>
     post (sg_inv g) (only_rejection fuel g) (slots_loop fuel b i st)"
proof (induction fuel b i st rule: slots_loop.induct)
  case (1 fuel b i st)
  show ?case
  proof (cases "i < length (buf_slots b)")
    case True
    have body: "post (flow_ok g (sg_inv g)) (only_rejection fuel g) (slot_body fuel b i st)"
      using 1(3, 4) True by (auto intro: slot_body_post)
    show ?thesis
    proof (cases "slot_body fuel b i st")
      case (Inl e)
      then show ?thesis using body True by (subst slots_loop.simps) simp
    next
      case (Inr fl)
      then show ?thesis
        using body True 1(1) [OF True Inr _ 1(3)] 1(2) [OF True Inr _ 1(3)]
        by (subst slots_loop.simps) (cases fl, simp_all)
    qed
  next
    case False
    then show ?thesis using 1(4) by (subst slots_loop.simps) simp
  qed
qed

lemma fetch_next_post:
  "fetch_next t d m h = (b, h') \<Longrightarrow> gen_reach g h \<Longrightarrow> buf_ok b \<and> gen_reach g h'"
proof -
  assume eq: "fetch_next t d m h = (b, h')" and reach: "gen_reach g h"
  have "unat (x AND 3) < length DEFAULT_BUFFERS" for x :: u8
  proof -
    have "x AND 3 = take_bit 2 x" by (simp add: take_bit_eq_mask mask_eq_exp_minus_1)
    then show ?thesis using unat_take_bit_less [of 2 x] by (simp add: DEFAULT_BUFFERS_def)
  qed
  then have "DEFAULT_BUFFERS ! unat (x AND 3) \<in> set DEFAULT_BUFFERS" for x :: u8
    by (rule nth_mem)
  moreover have bufs: "list_all buf_ok (BUF_3310 # BUF_4444 # DEFAULT_BUFFERS)"
    by (simp add: buf_ok_def BUF_3310_def BUF_4444_def DEFAULT_BUFFERS_def BUF_484_def
        BUF_7333_def BUF_3733_def BUF_493_def)
  ultimately have sel: "buf_ok (DEFAULT_BUFFERS ! unat (x AND 3))" for x :: u8
    by (simp only: list_all_iff) auto
  have fixed: "buf_ok BUF_3310" "buf_ok BUF_4444" "buf_ok BUF_484" "buf_ok BUF_493"
    using bufs by (simp_all add: DEFAULT_BUFFERS_def)
  obtain x k where "get_byte h = (x, k)" by force
  then show ?thesis
    using eq reach sel fixed gen_reach_byte'
    by (auto simp: fetch_next_def split: if_splits)
qed

lemma decode_loop_post:
  "sg_inv g st \<Longrightarrow> post (sg_inv g) (only_rejection fuel g) (decode_loop fuel ds st)"
proof (induction ds arbitrary: st)
  case (Cons d ds)
  show ?case
  proof (cases "sg_ports_saturated st \<or> sg_program_size st \<ge> SUPERSCALAR_MAX_SIZE")
    case False
    obtain b h where f: "fetch_next (info_type (cur_info st)) d (sg_mul_count st) (sg_blake st) = (b, h)"
      by force
    have bh: "buf_ok b" "gen_reach g h"
      using fetch_next_post [OF f] Cons.prems by (auto simp: sg_inv_def sg_core_def)
    have inv: "sg_inv g (st\<lparr>sg_blake := h\<rparr>)"
      using Cons.prems bh(2) by (auto simp: sg_inv_def sg_core_def pos_ok_def)
    have "post (sg_inv g) (only_rejection fuel g)
       (and_then (slots_loop fuel b 0 (st\<lparr>sg_blake := h\<rparr>))
          (\<lambda>st. decode_loop fuel ds (st\<lparr>sg_cycle := sg_cycle st + 1\<rparr>)))"
      by (rule post_and_then [OF slots_loop_post [OF bh(1) inv]], rule Cons.IH)
        (auto simp: sg_inv_def sg_core_def pos_ok_def)
    then show ?thesis using False by (simp add: f)
  qed (use Cons.prems in simp)
qed simp

lemma asic_latency_loop_post:
  "list_all ssi_ok is \<Longrightarrow> length lat = 8 \<Longrightarrow>
     post (\<lambda>lat'. length lat' = 8) (\<lambda>e. False) (asic_latency_loop lat is)"
proof (induction "is" arbitrary: lat)
  case (Cons i "is")
  then have "unat (ssi_dst i) < 8" "unat (ssi_src i) < 8"
    by (auto simp: ssi_ok_def unat_reg_less)
  then show ?case using Cons by (simp add: Let_def)
qed simp

lemma find_address_register_less: "find_address_register lat < 8"
proof -
  have "snd (foldl (\<lambda>(m, r) i. if lat ! i > m then (lat ! i, i) else (m, r)) (m, r) is) < 8"
    if "r < 8" "\<forall>i \<in> set is. i < 8" for m r "is"
    using that by (induction "is" arbitrary: m r) auto
  then show ?thesis by (simp add: find_address_register_def)
qed

theorem generate_superscalar_gen:
  "post (\<lambda>(p, g'). ssp_ok p \<and> gen_reach g g') (only_rejection fuel g) (generate_superscalar fuel g)"
  unfolding generate_superscalar_def
proof (rule post_and_then [OF decode_loop_post [OF sg_init_inv]])
  fix st assume "sg_inv g st"
  then have ok: "list_all ssi_ok (sg_output st)" "length (sg_output st) \<le> 512" "gen_reach g (sg_blake st)"
    by (auto simp: sg_inv_def sg_core_def ss_consts)
  have "post (\<lambda>lat'. length lat' = 8) (only_rejection fuel g)
      (asic_latency_loop (replicate 8 0) (sg_output st))"
    by (rule post_mono [OF asic_latency_loop_post [OF ok(1)]]) auto
  then show "post (\<lambda>(p, g'). ssp_ok p \<and> gen_reach g g') (only_rejection fuel g)
     (and_then (asic_latency_loop (replicate 8 0) (sg_output st)) (\<lambda>lat.
         Inr (\<lparr>ssp_instructions = sg_output st,
               ssp_address_register = find_address_register lat\<rparr>, sg_blake st)))"
    by (rule post_and_then) (use ok in \<open>simp add: ssp_ok_def find_address_register_less\<close>)
qed

end
