(* ===== verification/Vm_Hash.thy ===== *)
theory Vm_Hash
  imports Vm_Execute Superscalar_Safe
begin

text \<open>
  \<open>src/randomx/vm.rs\<close>, the hash: \<open>calculate_hash_versioned\<close>, and \<open>RandomXVm\<close> with its light and
  full mode, plain and pipelined hashing. The programs run in \<open>execute_vm_inner\<close>, in the native
  loop, the body JIT or the interpreter as the VM's fields say. The operations take and return the
  floating-point control word of the thread: they save it, set the mode, run the chains under it and
  restore it. \<open>bytecode\<close>, the buffer of the program being run, is not part of the state (its old
  contents are never read). \<open>hash_with_items\<close> is the hash as a function of the input and the dataset
  items alone, with fresh buffers and the interpreter: what the operations are measured against.
  \<open>fuel\<close> bounds the two rejection loops of \<open>generate_superscalar\<close>; \<open>None\<close> is a panic or a bound that
  was too small.
\<close>

section \<open>Keys\<close>

fun generate_programs ::
  "nat \<Rightarrow> nat \<Rightarrow> blake2_generator \<Rightarrow> (ss_error + ss_program list \<times> blake2_generator)" where
  "generate_programs fuel 0 g = Inr ([], g)"
| "generate_programs fuel (Suc n) g =
     and_then (generate_superscalar fuel g) (\<lambda>(p, g).
     and_then (generate_programs fuel n g) (\<lambda>(ps, g). Inr (p # ps, g)))"

definition key_programs :: "nat \<Rightarrow> bytes \<Rightarrow> ss_program list option" where
  "key_programs fuel key =
     (case generate_programs fuel 8 (gen_new key 0) of Inl e \<Rightarrow> None | Inr (ps, g) \<Rightarrow> Some ps)"

section \<open>The register file as bytes\<close>

definition f128_le :: "f128 list \<Rightarrow> bytes" where
  "f128_le fs = concat (map f128_to_bytes fs)"

definition serialize_register_file :: "native_register_file \<Rightarrow> bytes" where
  "serialize_register_file nreg =
     concat (map (le_bytes 8) (rf_r nreg)) @ f128_le (rf_f nreg) @ f128_le (rf_e nreg) @ f128_le (rf_a nreg)"

text \<open>The digest of the scratchpad becomes the \<open>a\<close> registers.\<close>

definition set_a_registers :: "bytes \<Rightarrow> native_register_file \<Rightarrow> native_register_file" where
  "set_a_registers aes_hash nreg =
     nreg\<lparr>rf_a := map (\<lambda>i. (from_le (slice (i * 16) 8 aes_hash), from_le (slice (i * 16 + 8) 8 aes_hash)))
            [0..<REGISTER_COUNT_FLT]\<rparr>"

section \<open>The hash of an input, given the items\<close>

text \<open>State: machine, seed of the next program, program buffer.\<close>

type_synonym chain_state = "machine \<times> bytes \<times> bytes"

definition item_chain_step ::
  "fpu \<Rightarrow> cpu \<Rightarrow> rx_version \<Rightarrow> (u64 \<Rightarrow> u64 list option) \<Rightarrow> nat \<Rightarrow> chain_state \<Rightarrow> chain_state option" where
  "item_chain_step fpu cpu version item chain = (\<lambda>(m, temp_hash, program_bytes). do {
     program_bytes \<leftarrow> fill_aes_4rx4 cpu temp_hash program_bytes;
     (m, ls) \<leftarrow> interpret_vm fpu cpu version RANDOMX_PROGRAM_ITERATIONS item program_bytes m;
     Some (m, if chain < RANDOMX_PROGRAM_COUNT - 1
              then blake2b_512 (serialize_register_file (m_nreg m)) else temp_hash, program_bytes)
   })"

definition item_chains ::
  "fpu \<Rightarrow> cpu \<Rightarrow> rx_version \<Rightarrow> (u64 \<Rightarrow> u64 list option) \<Rightarrow> bytes \<Rightarrow> bytes \<Rightarrow> bytes \<Rightarrow> chain_state option" where
  "item_chains fpu cpu version item scratchpad temp_hash program_bytes =
     for_each (item_chain_step fpu cpu version item) [0..<RANDOMX_PROGRAM_COUNT]
       (\<lparr>m_nreg = nreg_new, m_sp = scratchpad, m_rm = 0\<rparr>, temp_hash, program_bytes)"

definition hash_with_items ::
  "fpu \<Rightarrow> cpu \<Rightarrow> rx_version \<Rightarrow> (u64 \<Rightarrow> u64 list option) \<Rightarrow> bytes \<Rightarrow> bytes option" where
  "hash_with_items fpu cpu version item input = do {
     let temp_hash = blake2b_512 input;
     (temp_hash, scratchpad) \<leftarrow> fill_aes_1rx4 cpu temp_hash (replicate SCRATCHPAD_L3_SIZE 0);
     (m, temp_hash, program_bytes) \<leftarrow> item_chains fpu cpu version item scratchpad temp_hash
       (replicate (program_bytes_size version) 0);
     aes_hash \<leftarrow> hash_aes_1rx4 cpu (m_sp m);
     blake2b 32 (serialize_register_file (set_a_registers aes_hash (m_nreg m)))
   }"

section \<open>The eight programs\<close>

text \<open>Cache, programs and dataset of a VM.\<close>

type_synonym line_source = "bytes \<times> ss_program list \<times> u64 list list option"

definition chain_step ::
  "fpu \<Rightarrow> cpu \<Rightarrow> placement \<Rightarrow> line_source \<Rightarrow> rx_version \<Rightarrow> bool \<Rightarrow> nat \<Rightarrow>
     machine \<times> jit_compiler option \<times> bytes \<times> bytes \<Rightarrow> (machine \<times> jit_compiler option \<times> bytes \<times> bytes) option" where
  "chain_step fpu cpu pl = (\<lambda>(cache_memory, ss_programs, dataset) version use_native_loop chain
       (m, jit, temp_hash, program_bytes). do {
     program_bytes \<leftarrow> fill_aes_4rx4 cpu temp_hash program_bytes;
     (m, ls, jit) \<leftarrow> execute_vm_inner fpu cpu pl cache_memory ss_programs dataset jit version
       RANDOMX_PROGRAM_ITERATIONS use_native_loop program_bytes m;
     Some (m, jit, if chain < RANDOMX_PROGRAM_COUNT - 1
              then blake2b_512 (serialize_register_file (m_nreg m)) else temp_hash, program_bytes)
   })"

text \<open>The chains under a control word, which \<open>CFROUND\<close> changes through \<open>set_rounding_mode\<close>: the
  mode of the arithmetic at the start is the one the word has.\<close>

definition run_chains ::
  "fpu \<Rightarrow> cpu \<Rightarrow> placement \<Rightarrow> line_source \<Rightarrow> rx_version \<Rightarrow> bool \<Rightarrow> jit_compiler option \<Rightarrow> u32 \<Rightarrow> bytes \<Rightarrow>
     bytes \<Rightarrow> bytes \<Rightarrow> (machine \<times> jit_compiler option \<times> bytes \<times> u32) option" where
  "run_chains fpu cpu pl source version use_native_loop jit fp_control scratchpad temp_hash program_bytes = do {
     rm \<leftarrow> control_mode cpu fp_control;
     (m, jit, temp_hash, program_bytes) \<leftarrow>
       for_each (chain_step fpu cpu pl source version use_native_loop) [0..<RANDOMX_PROGRAM_COUNT]
         (\<lparr>m_nreg = nreg_new, m_sp = scratchpad, m_rm = rm\<rparr>, jit, temp_hash, program_bytes);
     Some (m, jit, program_bytes, set_rounding_mode cpu (of_nat (m_rm m)) fp_control)
   }"

section \<open>The one-shot hash\<close>

definition calculate_hash_versioned ::
  "fpu \<Rightarrow> cpu \<Rightarrow> placement \<Rightarrow> nat \<Rightarrow> bytes \<Rightarrow> bytes \<Rightarrow> rx_version \<Rightarrow> u32 \<Rightarrow> (bytes \<times> u32) option" where
  "calculate_hash_versioned fpu cpu pl fuel key input version fp_control = do {
     let saved_rm = save_rounding_mode cpu fp_control;
     cache_memory \<leftarrow> argon2d_cache key;
     ss_programs \<leftarrow> key_programs fuel key;
     let temp_hash = blake2b_512 input;
     (temp_hash, scratchpad) \<leftarrow> fill_aes_1rx4 cpu temp_hash (replicate SCRATCHPAD_L3_SIZE 0);
     let fp_control = set_rounding_mode cpu 0 fp_control;
     (m, jit, program_bytes, fp_control) \<leftarrow> run_chains fpu cpu pl (cache_memory, ss_programs, None) version
       False None fp_control scratchpad temp_hash (replicate (program_bytes_size version) 0);
     aes_hash \<leftarrow> hash_aes_1rx4 cpu (m_sp m);
     result \<leftarrow> blake2b 32 (serialize_register_file (set_a_registers aes_hash (m_nreg m)));
     let fp_control = restore_rounding_mode cpu saved_rm fp_control;
     Some (result, fp_control)
   }"

definition calculate_commitment :: "bytes \<Rightarrow> bytes \<Rightarrow> bytes" where
  "calculate_commitment input hash = blake2b_256 (input @ hash)"

section \<open>RandomXVm\<close>

record random_x_vm =
  vm_cache_memory :: bytes
  vm_ss_programs :: "ss_program list"
  vm_dataset :: "u64 list list option"
  vm_scratchpad :: bytes
  vm_program_bytes :: bytes
  vm_version :: rx_version
  vm_nreg :: native_register_file
  vm_pipeline_state :: bytes
  vm_jit :: "jit_compiler option"
  vm_use_native_loop :: bool

text \<open>The buffers every constructor starts from; \<open>jit\<close> is what \<open>new_jit\<close> gave, nothing when
  \<open>JitCompiler::new\<close> failed.\<close>

definition vm_fresh ::
  "rx_version \<Rightarrow> jit_compiler option \<Rightarrow> bytes \<Rightarrow> ss_program list \<Rightarrow> u64 list list option \<Rightarrow> random_x_vm" where
  "vm_fresh version jit cache programs dataset =
     \<lparr>vm_cache_memory = cache, vm_ss_programs = programs, vm_dataset = dataset,
      vm_scratchpad = replicate SCRATCHPAD_L3_SIZE 0,
      vm_program_bytes = replicate (program_bytes_size version) 0, vm_version = version,
      vm_nreg = nreg_new, vm_pipeline_state = replicate 64 0, vm_jit = jit, vm_use_native_loop = True\<rparr>"

definition new_versioned :: "nat \<Rightarrow> jit_compiler option \<Rightarrow> bytes \<Rightarrow> rx_version \<Rightarrow> random_x_vm option" where
  "new_versioned fuel jit key version = do {
     cache_memory \<leftarrow> argon2d_cache key;
     ss_programs \<leftarrow> key_programs fuel key;
     Some (vm_fresh version jit cache_memory ss_programs None)
   }"

definition new_full_versioned ::
  "nat \<Rightarrow> jit_compiler option \<Rightarrow> bytes \<Rightarrow> u64 list list \<Rightarrow> rx_version \<Rightarrow> random_x_vm option" where
  "new_full_versioned fuel jit key dataset version = do {
     ss_programs \<leftarrow> key_programs fuel key;
     Some (vm_fresh version jit [] ss_programs (Some dataset))
   }"

definition reinit :: "nat \<Rightarrow> random_x_vm \<Rightarrow> bytes \<Rightarrow> u64 list list option \<Rightarrow> random_x_vm option" where
  "reinit fuel vm key dataset = do {
     cache_memory \<leftarrow> (case dataset of Some _ \<Rightarrow> Some [] | None \<Rightarrow> argon2d_cache key);
     ss_programs \<leftarrow> key_programs fuel key;
     Some (vm\<lparr>vm_cache_memory := cache_memory, vm_ss_programs := ss_programs, vm_dataset := dataset\<rparr>)
   }"

definition native_loop_effective :: "cpu \<Rightarrow> random_x_vm \<Rightarrow> bool" where
  "native_loop_effective cpu vm \<longleftrightarrow>
     cpu_arch cpu = Aarch64 \<and>
     native_loop_applies (vm_use_native_loop vm) (vm_version vm) (vm_dataset vm \<noteq> None)
       (vm_jit vm \<noteq> None)"

definition set_native_loop :: "bool \<Rightarrow> random_x_vm \<Rightarrow> random_x_vm" where
  "set_native_loop enabled vm = vm\<lparr>vm_use_native_loop := enabled\<rparr>"

definition cache_and_programs :: "random_x_vm \<Rightarrow> bytes \<times> ss_program list" where
  "cache_and_programs vm = (vm_cache_memory vm, vm_ss_programs vm)"

definition vm_item :: "random_x_vm \<Rightarrow> u64 \<Rightarrow> u64 list option" where
  "vm_item vm = dataset_line (vm_cache_memory vm) (vm_ss_programs vm) (vm_dataset vm)"

definition vm_source :: "random_x_vm \<Rightarrow> line_source" where
  "vm_source vm = (vm_cache_memory vm, vm_ss_programs vm, vm_dataset vm)"

definition calculate_hash ::
  "fpu \<Rightarrow> cpu \<Rightarrow> placement \<Rightarrow> random_x_vm \<Rightarrow> u32 \<Rightarrow> bytes \<Rightarrow> (bytes \<times> random_x_vm \<times> u32) option" where
  "calculate_hash fpu cpu pl vm fp_control input = do {
     let saved_rm = save_rounding_mode cpu fp_control;
     let temp_hash = blake2b_512 input;
     (temp_hash, scratchpad) \<leftarrow> fill_aes_1rx4 cpu temp_hash (vm_scratchpad vm);
     let fp_control = set_rounding_mode cpu 0 fp_control;
     (m, jit, program_bytes, fp_control) \<leftarrow> run_chains fpu cpu pl (vm_source vm) (vm_version vm)
       (vm_use_native_loop vm) (vm_jit vm) fp_control scratchpad temp_hash (vm_program_bytes vm);
     aes_hash \<leftarrow> hash_aes_1rx4 cpu (m_sp m);
     let nreg = set_a_registers aes_hash (m_nreg m);
     result \<leftarrow> blake2b 32 (serialize_register_file nreg);
     let fp_control = restore_rounding_mode cpu saved_rm fp_control;
     Some (result, vm\<lparr>vm_scratchpad := m_sp m, vm_program_bytes := program_bytes, vm_nreg := nreg, vm_jit := jit\<rparr>,
           fp_control)
   }"

definition prepare_scratchpad :: "cpu \<Rightarrow> random_x_vm \<Rightarrow> bytes \<Rightarrow> random_x_vm option" where
  "prepare_scratchpad cpu vm input = do {
     let temp_hash = blake2b_512 input;
     (temp_hash, scratchpad) \<leftarrow> fill_aes_1rx4 cpu temp_hash (vm_scratchpad vm);
     Some (vm\<lparr>vm_scratchpad := scratchpad, vm_pipeline_state := temp_hash\<rparr>)
   }"

definition calculate_hash_pipelined ::
  "fpu \<Rightarrow> cpu \<Rightarrow> placement \<Rightarrow> random_x_vm \<Rightarrow> u32 \<Rightarrow> bytes \<Rightarrow> (bytes \<times> random_x_vm \<times> u32) option" where
  "calculate_hash_pipelined fpu cpu pl vm fp_control next_input = do {
     let saved_rm = save_rounding_mode cpu fp_control;
     let fp_control = set_rounding_mode cpu 0 fp_control;
     let temp_hash = vm_pipeline_state vm;
     (m, jit, program_bytes, fp_control) \<leftarrow> run_chains fpu cpu pl (vm_source vm) (vm_version vm)
       (vm_use_native_loop vm) (vm_jit vm) fp_control (vm_scratchpad vm) temp_hash (vm_program_bytes vm);
     let next_temp_hash = blake2b_512 next_input;
     (scratchpad, aes_hash, next_temp_hash) \<leftarrow>
       hash_and_fill_aes_1rx4 cpu (m_sp m) (replicate 64 0) next_temp_hash;
     let nreg = set_a_registers aes_hash (m_nreg m);
     result \<leftarrow> blake2b 32 (serialize_register_file nreg);
     let fp_control = restore_rounding_mode cpu saved_rm fp_control;
     Some (result, vm\<lparr>vm_scratchpad := scratchpad, vm_program_bytes := program_bytes, vm_nreg := nreg,
              vm_pipeline_state := next_temp_hash, vm_jit := jit\<rparr>, fp_control)
   }"

text \<open>The mining loop over successive inputs: each call hashes the previous one.\<close>

fun pipelined_hashes ::
  "fpu \<Rightarrow> cpu \<Rightarrow> placement \<Rightarrow> random_x_vm \<Rightarrow> u32 \<Rightarrow> bytes list \<Rightarrow> (bytes list \<times> random_x_vm \<times> u32) option" where
  "pipelined_hashes fpu cpu pl vm fp_control [] = Some ([], vm, fp_control)"
| "pipelined_hashes fpu cpu pl vm fp_control (b # bs) = do {
     (h, vm, fp_control) \<leftarrow> calculate_hash_pipelined fpu cpu pl vm fp_control b;
     (hs, vm, fp_control) \<leftarrow> pipelined_hashes fpu cpu pl vm fp_control bs;
     Some (h # hs, vm, fp_control)
   }"

end
