(* ===== verification/Vm_Hash_Props.thy ===== *)
theory Vm_Hash_Props
  imports Vm_Hash
begin

text \<open>
  Hashing with a \<open>RandomXVm\<close> (\<open>src/randomx/vm.rs\<close>): it always returns 32 bytes, it gives the
  one-shot hash whatever the buffers held before and whether the programs ran in the native loop, the
  body JIT or the interpreter, and it leaves the control word as it found it; light and full mode
  agree, and the pipelined loop gives the hashes of its inputs in order, one call late.
\<close>

section \<open>Keys\<close>

lemma generate_programs_ok:
  "post (\<lambda>(ps, g'). length ps = n \<and> (\<forall>p \<in> set ps. ssp_ok p) \<and> gen_reach g g')
     (\<lambda>e. e = No_return) (generate_programs fuel n g)"
proof (induction n arbitrary: g)
  case 0
  then show ?case by (auto intro: reach_refl)
next
  case (Suc n)
  have trans: "gen_reach g k" if "gen_reach h k" "gen_reach g h" for g h k
    using that by (induction rule: gen_reach.induct) auto
  have one: "post (\<lambda>(p, g'). ssp_ok p \<and> gen_reach g g') (\<lambda>e. e = No_return) (generate_superscalar fuel g)"
    by (rule post_mono [OF generate_superscalar_gen]) (auto simp: only_rejection_def)
  show ?case
    unfolding generate_programs.simps
  proof (rule post_and_then [OF one], clarify)
    fix p h assume p: "ssp_ok p" "gen_reach g h"
    show "post (\<lambda>(ps, g'). length ps = Suc n \<and> (\<forall>p \<in> set ps. ssp_ok p) \<and> gen_reach g g')
       (\<lambda>e. e = No_return) (and_then (generate_programs fuel n h) (\<lambda>(ps, g). Inr (p # ps, g)))"
      by (rule post_and_then [OF Suc.IH]) (use p trans in auto)
  qed
qed

lemma key_programs_ok: "key_programs fuel key = Some ps \<Longrightarrow> programs_ok ps"
  using generate_programs_ok [of 8 "gen_new key 0" fuel]
  by (auto simp: key_programs_def programs_ok_def split: sum.splits)

section \<open>Buffers\<close>

lemma program_bytes_groups: "program_bytes_size version mod 64 = 0"
  by (cases version) (simp_all add: program_bytes_size_def vm_sizes)

lemma scratchpad_groups: "SCRATCHPAD_L3_SIZE mod 64 = 0"
  by (simp add: SCRATCHPAD_L3_SIZE_def)

lemma fill_aes_4rx4_soft_fresh:
  assumes "length st = 64" "length out mod 64 = 0" "length out' = length out"
  shows "fill_aes_4rx4_soft st out = fill_aes_4rx4_soft st out'"
proof -
  have "ok4 (load4 st 0)" using assms(1) by (simp add: load4_ok)
  then show ?thesis
    using soft.fill_loop_fresh [of "load4 st 0" out out' "step_4rx4 soft_aesenc soft_aesdec"] assms
    by (simp add: fill_aes_4rx4_soft_def fill_4rx4_by_def soft.step_4rx4_ok)
qed

text \<open>The scratchpad and seed an input gives, from any buffer of the right size.\<close>

definition seeded :: "bytes \<Rightarrow> bytes \<times> bytes" where
  "seeded input = fill_aes_1rx4_soft (blake2b_512 input) (replicate SCRATCHPAD_L3_SIZE 0)"

lemma seeded_length: "length (fst (seeded input)) = 64 \<and> length (snd (seeded input)) = SCRATCHPAD_L3_SIZE"
  using fill_aes_1rx4_soft_length [of "blake2b_512 input" "replicate SCRATCHPAD_L3_SIZE 0"]
  by (simp add: seeded_def scratchpad_groups)

lemma fill_seeded:
  assumes "length sp = SCRATCHPAD_L3_SIZE"
  shows "fill_aes_1rx4 cpu (blake2b_512 input) sp = Some (seeded input)"
  using assms fill_aes_1rx4_soft_fresh [of "blake2b_512 input" sp "replicate SCRATCHPAD_L3_SIZE 0"]
  by (simp add: fill_aes_1rx4_soft_gen scratchpad_groups seeded_def)

section \<open>The chains\<close>

definition chain_ok :: "rx_version \<Rightarrow> chain_state \<Rightarrow> bool" where
  "chain_ok version = (\<lambda>(m, temp_hash, pb).
     machine_ok m \<and> length temp_hash = 64 \<and> length pb = program_bytes_size version)"

lemma fill_program:
  assumes "length t = 64" "length pb = program_bytes_size version"
  shows "fill_aes_4rx4 cpu t pb = Some (fill_aes_4rx4_soft t (replicate (program_bytes_size version) 0))"
  using assms fill_aes_4rx4_soft_fresh [of t pb "replicate (program_bytes_size version) 0"]
  by (simp add: fill_aes_4rx4_soft_gen program_bytes_groups)

lemma item_chain_step_fresh:
  assumes "length t = 64" "length pb = program_bytes_size version" "length pb' = program_bytes_size version"
  shows "item_chain_step fpu cpu version item chain (m, t, pb) = item_chain_step fpu cpu version item chain (m, t, pb')"
  using assms by (simp add: item_chain_step_def fill_program)

lemma item_chains_fresh:
  assumes "length t = 64" "length pb = program_bytes_size version"
  shows "item_chains fpu cpu version item sp t pb =
     item_chains fpu cpu version item sp t (replicate (program_bytes_size version) 0)"
proof -
  have "[0..<RANDOMX_PROGRAM_COUNT] = 0 # [1..<RANDOMX_PROGRAM_COUNT]"
    by (simp add: RANDOMX_PROGRAM_COUNT_def upt_conv_Cons)
  then show ?thesis
    unfolding item_chains_def
    by (simp add: item_chain_step_fresh [OF assms, of "replicate (program_bytes_size version) 0"])
qed

lemma nreg_new_ok: "length sp = SCRATCHPAD_L3_SIZE \<Longrightarrow> machine_ok \<lparr>m_nreg = nreg_new, m_sp = sp, m_rm = 0\<rparr>"
  by (simp add: machine_ok_def nreg_new_def reg_counts)

context item_source
begin

lemma item_chain_step_ok:
  assumes "source_ok s" "chain_ok version st"
  shows "returns (chain_ok version) (item_chain_step fpu cpu version (item s) chain st)"
proof -
  obtain m t pb where st: "st = (m, t, pb)" by (rule prod_cases3)
  let ?pb = "fill_aes_4rx4_soft t (replicate (program_bytes_size version) 0)"
  have ok: "machine_ok m" "length t = 64" "length pb = program_bytes_size version"
    using assms(2) by (simp_all add: chain_ok_def st)
  have pb: "length ?pb = program_bytes_size version"
    using fill_aes_4rx4_soft_length [OF ok(2)] by (simp add: program_bytes_groups)
  show ?thesis
    unfolding item_chain_step_def st prod.case fill_program [OF ok(2,3)] bind.simps
    by (rule returns_bind [OF interpret_vm_ok [OF assms(1) ok(1) pb]])
      (use ok pb in \<open>auto simp: chain_ok_def\<close>)
qed

lemma item_chains_ok:
  assumes "source_ok s" "length sp = SCRATCHPAD_L3_SIZE" "length t = 64" "length pb = program_bytes_size version"
  shows "returns (chain_ok version) (item_chains fpu cpu version (item s) sp t pb)"
  unfolding item_chains_def
  by (rule returns_for_each)
    (use assms nreg_new_ok [OF assms(2)] item_chain_step_ok [OF assms(1)] in \<open>simp_all add: chain_ok_def\<close>)

end

section \<open>A VM that can hash\<close>

definition vm_ok :: "random_x_vm \<Rightarrow> bool" where
  "vm_ok vm \<longleftrightarrow>
     line_source_ok (vm_cache_memory vm, vm_ss_programs vm, vm_dataset vm) \<and>
     length (vm_scratchpad vm) = SCRATCHPAD_L3_SIZE \<and>
     length (vm_program_bytes vm) = program_bytes_size (vm_version vm)"

text \<open>What no hash changes: the key material, the version, whether there is no JIT, and
  the switch.\<close>

definition vm_key ::
  "random_x_vm \<Rightarrow> bytes \<times> ss_program list \<times> u64 list list option \<times> rx_version \<times> bool \<times> bool" where
  "vm_key vm = (vm_cache_memory vm, vm_ss_programs vm, vm_dataset vm, vm_version vm, Option.is_none (vm_jit vm),
     vm_use_native_loop vm)"

lemma vm_item_key: "vm_key vm = vm_key vm' \<Longrightarrow> vm_item vm = vm_item vm' \<and> vm_version vm = vm_version vm'"
  by (simp add: vm_key_def vm_item_def)

lemma vm_item_source: "vm_item vm =
    (\<lambda>(cache, programs, dataset). dataset_line cache programs dataset)
      (vm_cache_memory vm, vm_ss_programs vm, vm_dataset vm)"
  by (simp add: vm_item_def)

text \<open>The chains of the code are those of the interpreter.\<close>

lemma chain_step_items:
  assumes src: "line_source_ok (cache, programs, dataset)" and ok: "chain_ok version (m, t, pb)"
  shows "\<exists>m' jit' t' pb'. chain_step fpu cpu pl (cache, programs, dataset) version native k (m, jit, t, pb) =
      Some (m', jit', t', pb') \<and>
    item_chain_step fpu cpu version (dataset_line cache programs dataset) k (m, t, pb) = Some (m', t', pb') \<and>
    chain_ok version (m', t', pb') \<and> (jit' = None \<longleftrightarrow> jit = None)"
proof -
  let ?pb = "fill_aes_4rx4_soft t (replicate (program_bytes_size version) 0)"
  have o: "machine_ok m" "length t = 64" "length pb = program_bytes_size version"
    using ok by (simp_all add: chain_ok_def)
  have pb: "length ?pb = program_bytes_size version"
    using fill_aes_4rx4_soft_length [OF o(2)] by (simp add: program_bytes_groups)
  have n: "0 < RANDOMX_PROGRAM_ITERATIONS" "RANDOMX_PROGRAM_ITERATIONS < 2 ^ 64"
    by (simp_all add: RANDOMX_PROGRAM_ITERATIONS_def)
  obtain m' ls' jit' where x: "execute_vm_inner fpu cpu pl cache programs dataset jit version
      RANDOMX_PROGRAM_ITERATIONS native ?pb m = Some (m', ls', jit')"
    "interpret_vm fpu cpu version RANDOMX_PROGRAM_ITERATIONS (dataset_line cache programs dataset) ?pb m = Some (m', ls')"
    "machine_ok m'" "jit' = None \<longleftrightarrow> jit = None"
    using execute_vm_inner_interprets [OF src o(1) pb n, of fpu cpu pl jit native] by blast
  then show ?thesis
    using o pb by (simp add: chain_step_def item_chain_step_def fill_program chain_ok_def)
qed

lemma chains_items:
  assumes src: "line_source_ok (cache, programs, dataset)" and ok: "chain_ok version (m, t, pb)"
  shows "\<exists>m' jit' t' pb'. for_each (chain_step fpu cpu pl (cache, programs, dataset) version native) ks (m, jit, t, pb) =
      Some (m', jit', t', pb') \<and>
    for_each (item_chain_step fpu cpu version (dataset_line cache programs dataset)) ks (m, t, pb) = Some (m', t', pb') \<and>
    chain_ok version (m', t', pb') \<and> (jit' = None \<longleftrightarrow> jit = None)"
  using ok
proof (induction ks arbitrary: m jit t pb)
  case (Cons k ks)
  obtain m1 jit1 t1 pb1 where 1: "chain_step fpu cpu pl (cache, programs, dataset) version native k (m, jit, t, pb) =
      Some (m1, jit1, t1, pb1)"
    "item_chain_step fpu cpu version (dataset_line cache programs dataset) k (m, t, pb) = Some (m1, t1, pb1)"
    "chain_ok version (m1, t1, pb1)" "jit1 = None \<longleftrightarrow> jit = None"
    using chain_step_items [OF src Cons.prems, of fpu cpu pl native k jit] by blast
  show ?case using Cons.IH [OF 1(3), of jit1] 1 by simp
qed simp

lemma vm_run_chains:
  assumes "vm_ok vm" "length sp = SCRATCHPAD_L3_SIZE" "length t = 64"
  obtains m jit' t' pb' c' where
    "run_chains fpu cpu pl (vm_source vm) (vm_version vm) (vm_use_native_loop vm) (vm_jit vm)
       (set_rounding_mode cpu 0 c) sp t (vm_program_bytes vm) = Some (m, jit', pb', c')"
    "item_chains fpu cpu (vm_version vm) (vm_item vm) sp t
       (replicate (program_bytes_size (vm_version vm)) 0) = Some (m, t', pb')"
    "machine_ok m" "length pb' = program_bytes_size (vm_version vm)" "jit' = None \<longleftrightarrow> vm_jit vm = None"
proof -
  let ?m = "\<lparr>m_nreg = nreg_new, m_sp = sp, m_rm = 0\<rparr>"
  have src: "line_source_ok (vm_cache_memory vm, vm_ss_programs vm, vm_dataset vm)"
    and pb: "length (vm_program_bytes vm) = program_bytes_size (vm_version vm)"
    using assms(1) by (simp_all add: vm_ok_def)
  have ok: "chain_ok (vm_version vm) (?m, t, vm_program_bytes vm)"
    using nreg_new_ok [OF assms(2)] assms(3) pb by (simp add: chain_ok_def)
  obtain m jit' t' pb' where r: "for_each (chain_step fpu cpu pl (vm_source vm) (vm_version vm) (vm_use_native_loop vm))
      [0..<RANDOMX_PROGRAM_COUNT] (?m, vm_jit vm, t, vm_program_bytes vm) = Some (m, jit', t', pb')"
    "for_each (item_chain_step fpu cpu (vm_version vm) (vm_item vm)) [0..<RANDOMX_PROGRAM_COUNT] (?m, t, vm_program_bytes vm) =
      Some (m, t', pb')"
    "chain_ok (vm_version vm) (m, t', pb')" "jit' = None \<longleftrightarrow> vm_jit vm = None"
    using chains_items [OF src ok, of fpu cpu pl "vm_use_native_loop vm" "[0..<RANDOMX_PROGRAM_COUNT]" "vm_jit vm",
        folded vm_source_def vm_item_def] by (elim exE conjE) (rule that)
  have "control_mode cpu (set_rounding_mode cpu 0 c) = Some 0" using control_mode_set [of 0 cpu c] by simp
  then have a: "run_chains fpu cpu pl (vm_source vm) (vm_version vm) (vm_use_native_loop vm) (vm_jit vm)
      (set_rounding_mode cpu 0 c) sp t (vm_program_bytes vm) =
      Some (m, jit', pb', set_rounding_mode cpu (of_nat (m_rm m)) (set_rounding_mode cpu 0 c))"
    by (simp add: run_chains_def r(1))
  have "item_chains fpu cpu (vm_version vm) (vm_item vm) sp t (vm_program_bytes vm) = Some (m, t', pb')"
    unfolding item_chains_def by (rule r(2))
  then have b: "item_chains fpu cpu (vm_version vm) (vm_item vm) sp t
      (replicate (program_bytes_size (vm_version vm)) 0) = Some (m, t', pb')"
    unfolding item_chains_fresh [OF assms(3) pb] .
  show ?thesis by (rule that [OF a b _ _ r(4)]) (use r(3) in \<open>simp_all add: chain_ok_def\<close>)
qed

lemma finish_hash:
  assumes "machine_ok m"
  obtains h where "hash_aes_1rx4 cpu (m_sp m) = Some (hash_aes_1rx4_soft (m_sp m))"
    "blake2b 32 (serialize_register_file (set_a_registers (hash_aes_1rx4_soft (m_sp m)) (m_nreg m))) = Some h"
    "length h = 32"
proof -
  have "(1 :: nat) \<le> 32" "(32 :: nat) \<le> 64" by simp_all
  from blake2b_Some [OF this] obtain h where
    "blake2b 32 (serialize_register_file (set_a_registers (hash_aes_1rx4_soft (m_sp m)) (m_nreg m))) = Some h"
    "length h = 32" by blast
  then show ?thesis
    using that assms by (simp add: hash_aes_1rx4_soft_gen machine_ok_sp scratchpad_groups)
qed

text \<open>Hashing with a VM is the one-shot hash.\<close>

lemma calculate_hash_gen:
  assumes "vm_ok vm"
  shows "\<exists>h vm'. calculate_hash fpu cpu pl vm c input = Some (h, vm', c) \<and>
    hash_with_items fpu cpu (vm_version vm) (vm_item vm) input = Some h \<and> length h = 32 \<and>
    vm_ok vm' \<and> vm_key vm' = vm_key vm"
proof -
  obtain t sp where s: "seeded input = (t, sp)" by (rule prod.exhaust)
  have len: "length t = 64" "length sp = SCRATCHPAD_L3_SIZE" using seeded_length [of input] by (simp_all add: s)
  obtain m jit' t' pb' c' where run:
    "run_chains fpu cpu pl (vm_source vm) (vm_version vm) (vm_use_native_loop vm) (vm_jit vm)
       (set_rounding_mode cpu 0 c) sp t (vm_program_bytes vm) = Some (m, jit', pb', c')"
    "item_chains fpu cpu (vm_version vm) (vm_item vm) sp t
       (replicate (program_bytes_size (vm_version vm)) 0) = Some (m, t', pb')"
    "machine_ok m" "length pb' = program_bytes_size (vm_version vm)" "jit' = None \<longleftrightarrow> vm_jit vm = None"
    by (rule vm_run_chains [OF assms len(2,1), where fpu = fpu and cpu = cpu and pl = pl and c = c])
  obtain h where h: "hash_aes_1rx4 cpu (m_sp m) = Some (hash_aes_1rx4_soft (m_sp m))"
    "blake2b 32 (serialize_register_file (set_a_registers (hash_aes_1rx4_soft (m_sp m)) (m_nreg m))) = Some h"
    "length h = 32"
    using finish_hash [OF run(3)] by blast
  have f: "fill_aes_1rx4 cpu (blake2b_512 input) (vm_scratchpad vm) = Some (t, sp)"
    "fill_aes_1rx4 cpu (blake2b_512 input) (replicate SCRATCHPAD_L3_SIZE 0) = Some (t, sp)"
    using assms fill_seeded [of "vm_scratchpad vm" cpu input] fill_seeded [of "replicate SCRATCHPAD_L3_SIZE 0" cpu input]
    by (simp_all add: s vm_ok_def)
  show ?thesis
    using assms run(3-5) h(3)
    by (simp add: calculate_hash_def hash_with_items_def Let_def f run(1,2) h(1,2) vm_ok_def vm_key_def machine_ok_sp Option.is_none_def)
qed

text \<open>The one-shot functions of the module: light mode, no JIT.\<close>

lemma calculate_hash_versioned_gen:
  assumes "argon2d_cache key = Some cache" "key_programs fuel key = Some programs"
  shows "\<exists>h. calculate_hash_versioned fpu cpu pl fuel key input version c = Some (h, c) \<and>
    hash_with_items fpu cpu version (dataset_line cache programs None) input = Some h \<and> length h = 32"
proof -
  let ?vm = "vm_fresh version None cache programs None\<lparr>vm_use_native_loop := False\<rparr>"
  have ok: "vm_ok ?vm"
    using assms argon2d_cache_ok [of key] key_programs_ok
    by (auto simp: vm_ok_def vm_fresh_def line_source_ok_def cache_ok_def CACHE_SIZE_def CACHE_BYTES_def)
  obtain h vm' where "calculate_hash fpu cpu pl ?vm c input = Some (h, vm', c)"
    "hash_with_items fpu cpu version (dataset_line cache programs None) input = Some h" "length h = 32"
    using calculate_hash_gen [OF ok, of fpu cpu pl c input] by (auto simp: vm_item_def vm_fresh_def)
  then show ?thesis
    using assms by (auto simp: calculate_hash_versioned_def calculate_hash_def vm_fresh_def vm_source_def Let_def
        split: Option.bind_splits)
qed

section \<open>The pipeline\<close>

text \<open>A VM whose scratchpad and seed are those of \<open>input\<close>.\<close>

definition prepared :: "random_x_vm \<Rightarrow> bytes \<Rightarrow> bool" where
  "prepared vm input \<longleftrightarrow> vm_ok vm \<and> (vm_pipeline_state vm, vm_scratchpad vm) = seeded input"

lemma prepare_scratchpad_gen:
  assumes "vm_ok vm"
  shows "\<exists>vm'. prepare_scratchpad cpu vm input = Some vm' \<and> prepared vm' input \<and> vm_key vm' = vm_key vm"
proof -
  obtain t sp where s: "seeded input = (t, sp)" by (rule prod.exhaust)
  have len: "length sp = SCRATCHPAD_L3_SIZE" using seeded_length [of input] by (simp add: s)
  have f: "fill_aes_1rx4 cpu (blake2b_512 input) (vm_scratchpad vm) = Some (t, sp)"
    using assms fill_seeded [of "vm_scratchpad vm" cpu input] by (simp add: s vm_ok_def)
  show ?thesis
    using assms len by (simp add: prepare_scratchpad_def Let_def f prepared_def s vm_ok_def vm_key_def)
qed

lemma hash_and_fill_seeded:
  assumes "length sp = SCRATCHPAD_L3_SIZE"
  shows "hash_and_fill_aes_1rx4 cpu sp (replicate 64 0) (blake2b_512 input) =
     Some (snd (seeded input), hash_aes_1rx4_soft sp, fst (seeded input))"
  using assms fill_aes_1rx4_soft_fresh [of "blake2b_512 input" sp "replicate SCRATCHPAD_L3_SIZE 0"]
  by (simp add: hash_and_fill_soft_gen scratchpad_groups seeded_def)

lemma calculate_hash_pipelined_gen:
  assumes "prepared vm a"
  shows "\<exists>h vm'. calculate_hash_pipelined fpu cpu pl vm c b = Some (h, vm', c) \<and>
    hash_with_items fpu cpu (vm_version vm) (vm_item vm) a = Some h \<and>
    prepared vm' b \<and> vm_key vm' = vm_key vm"
proof -
  have ok: "vm_ok vm" and s: "seeded a = (vm_pipeline_state vm, vm_scratchpad vm)"
    using assms by (simp_all add: prepared_def)
  have len: "length (vm_pipeline_state vm) = 64" "length (vm_scratchpad vm) = SCRATCHPAD_L3_SIZE"
    using seeded_length [of a] by (simp_all add: s)
  obtain m jit' t' pb' c' where run:
    "run_chains fpu cpu pl (vm_source vm) (vm_version vm) (vm_use_native_loop vm) (vm_jit vm)
       (set_rounding_mode cpu 0 c) (vm_scratchpad vm) (vm_pipeline_state vm) (vm_program_bytes vm) = Some (m, jit', pb', c')"
    "item_chains fpu cpu (vm_version vm) (vm_item vm) (vm_scratchpad vm) (vm_pipeline_state vm)
       (replicate (program_bytes_size (vm_version vm)) 0) = Some (m, t', pb')"
    "machine_ok m" "length pb' = program_bytes_size (vm_version vm)" "jit' = None \<longleftrightarrow> vm_jit vm = None"
    by (rule vm_run_chains [OF ok len(2,1), where fpu = fpu and cpu = cpu and pl = pl and c = c])
  obtain h where h: "hash_aes_1rx4 cpu (m_sp m) = Some (hash_aes_1rx4_soft (m_sp m))"
    "blake2b 32 (serialize_register_file (set_a_registers (hash_aes_1rx4_soft (m_sp m)) (m_nreg m))) = Some h"
    "length h = 32"
    using finish_hash [OF run(3)] by blast
  have f: "fill_aes_1rx4 cpu (blake2b_512 a) (replicate SCRATCHPAD_L3_SIZE 0) =
      Some (vm_pipeline_state vm, vm_scratchpad vm)"
    using fill_seeded [of "replicate SCRATCHPAD_L3_SIZE 0" cpu a] by (simp add: s)
  have hf: "hash_and_fill_aes_1rx4 cpu (m_sp m) (replicate 64 0) (blake2b_512 b) =
      Some (snd (seeded b), hash_aes_1rx4_soft (m_sp m), fst (seeded b))"
    by (rule hash_and_fill_seeded) (use run(3) in \<open>simp add: machine_ok_sp\<close>)
  show ?thesis
    using ok run(4,5) seeded_length [of b]
    by (simp add: calculate_hash_pipelined_def hash_with_items_def Let_def f run(1,2) h(1,2) hf
        prepared_def vm_ok_def vm_key_def Option.is_none_def)
qed

text \<open>A run of the pipeline over \<open>bs\<close>, prepared with \<open>a\<close>: the hashes of \<open>a\<close> and of all but the
  last of \<open>bs\<close>.\<close>

lemma pipelined_hashes_gen:
  assumes "prepared vm a"
  shows "\<exists>hs vm'. pipelined_hashes fpu cpu pl vm c bs = Some (hs, vm', c) \<and>
    map Some hs = map (hash_with_items fpu cpu (vm_version vm) (vm_item vm)) (butlast (a # bs)) \<and>
    prepared vm' (last (a # bs)) \<and> vm_key vm' = vm_key vm"
  using assms
proof (induction bs arbitrary: vm a)
  case Nil
  then show ?case by simp
next
  case (Cons b bs)
  obtain h vm1 where 1: "calculate_hash_pipelined fpu cpu pl vm c b = Some (h, vm1, c)"
    "hash_with_items fpu cpu (vm_version vm) (vm_item vm) a = Some h" "prepared vm1 b" "vm_key vm1 = vm_key vm"
    using calculate_hash_pipelined_gen [OF Cons.prems, where fpu = fpu and cpu = cpu and pl = pl and c = c and b = b]
    by auto
  obtain hs vm2 where 2: "pipelined_hashes fpu cpu pl vm1 c bs = Some (hs, vm2, c)"
    "map Some hs = map (hash_with_items fpu cpu (vm_version vm1) (vm_item vm1)) (butlast (b # bs))"
    "prepared vm2 (last (b # bs))" "vm_key vm2 = vm_key vm1"
    using Cons.IH [OF 1(3)] by auto
  show ?case using 1 2 vm_item_key [OF 1(4)] by auto
qed

section \<open>Light and full mode\<close>

lemma mix_dataset_cong:
  assumes "offset_ok d" "\<And>n. unat n < DATASET_ITEM_COUNT \<Longrightarrow> item n = item' n"
  shows "mix_dataset version item config d ls m = mix_dataset version item' config d ls m"
  unfolding mix_dataset_def Let_def
  by (simp add: assms(2) [OF item_number_bound [OF assms(1)]])

lemma interpret_vm_cong:
  assumes "\<And>n. unat n < DATASET_ITEM_COUNT \<Longrightarrow> item n = item' n"
  shows "interpret_vm fpu cpu version iterations item pb m =
    interpret_vm fpu cpu version iterations item' pb m"
proof (cases "INSTRUCTIONS_OFFSET \<le> length pb")
  case True
  obtain config ma mx d where p: "derive_program_params pb = Some (config, ma, mx, d)" "offset_ok d"
    using derive_params_ok [OF True] by (auto simp: returns_iff)
  have "mix_dataset version item config d ls m = mix_dataset version item' config d ls m" for ls m
    by (rule mix_dataset_cong [OF p(2)]) (rule assms)
  then have "vm_iteration cpu version item body config d = vm_iteration cpu version item' body config d" for body
    by (simp add: vm_iteration_def)
  then show ?thesis by (simp add: interpret_vm_def p(1))
next
  case False
  then show ?thesis by (simp add: interpret_vm_def derive_program_params_def)
qed

lemma hash_with_items_cong:
  assumes "\<And>n. unat n < DATASET_ITEM_COUNT \<Longrightarrow> item n = item' n"
  shows "hash_with_items fpu cpu version item input = hash_with_items fpu cpu version item' input"
proof -
  have "item_chain_step fpu cpu version item = item_chain_step fpu cpu version item'"
  proof
    fix chain
    have "interpret_vm fpu cpu version n item pb m = interpret_vm fpu cpu version n item' pb m" for n pb m
      by (rule interpret_vm_cong) (rule assms)
    then show "item_chain_step fpu cpu version item chain = item_chain_step fpu cpu version item' chain"
      by (simp add: item_chain_step_def)
  qed
  then show ?thesis by (simp add: hash_with_items_def item_chains_def)
qed

lemma light_full_gen:
  assumes "cache_ok cache" "programs_ok programs" "generate cache programs threads = Some ds"
  shows "hash_with_items fpu cpu version (dataset_line cache' programs' (Some ds)) input =
    hash_with_items fpu cpu version (dataset_line cache programs None) input"
  by (rule hash_with_items_cong)
    (use generate_ok [OF assms(1,2), of threads] assms(3) in \<open>auto simp: dataset_line_def\<close>)

section \<open>Construction\<close>

lemma argon2d_cache_cache_ok: "argon2d_cache key = Some c \<Longrightarrow> cache_ok c"
  using argon2d_cache_ok [of key] by (simp add: cache_ok_def CACHE_SIZE_def CACHE_BYTES_def)

lemma vm_fresh_ok:
  "line_source_ok (cache, programs, dataset) \<Longrightarrow> vm_ok (vm_fresh version jit cache programs dataset)"
  by (simp add: vm_ok_def vm_fresh_def)

lemma new_versioned_ok: "new_versioned fuel jit key version = Some vm \<Longrightarrow> vm_ok vm"
  by (auto simp: new_versioned_def line_source_ok_def intro!: vm_fresh_ok
      split: Option.bind_splits dest: argon2d_cache_cache_ok key_programs_ok)

lemma new_full_ok: "dataset_ok ds \<Longrightarrow> new_full_versioned fuel jit key ds version = Some vm \<Longrightarrow> vm_ok vm"
  by (auto simp: new_full_versioned_def line_source_ok_def intro!: vm_fresh_ok split: Option.bind_splits)

lemma reinit_ok:
  "vm_ok vm \<Longrightarrow> reinit fuel vm key dataset = Some vm' \<Longrightarrow> (\<And>ds. dataset = Some ds \<Longrightarrow> dataset_ok ds) \<Longrightarrow>
     vm_ok vm'"
  by (auto simp: reinit_def vm_ok_def line_source_ok_def split: Option.bind_splits option.splits
      dest: argon2d_cache_cache_ok key_programs_ok)

end
