(* ===== verification/Rust_Text.thy ===== *)
theory Rust_Text
  imports Rust_Base
begin

text \<open>
  Text as the Rust code handles it. A \<open>String\<close> or \<open>&str\<close> is the list of its UTF-8 bytes.
  The theory holds the standard-library functions the pool code uses on text:
  \<open>String::from_utf8\<close>, \<open>String::from_utf8_lossy\<close>, \<open>str::trim\<close>, \<open>str::rsplit_once\<close>
  and \<open>str::parse::<u16>\<close>. The decoder follows the tables of the standard library
  (a maximal invalid prefix becomes one U+FFFD), and trimming removes the characters
  with the Unicode property \<open>White_Space\<close>.
\<close>

definition str :: "string \<Rightarrow> bytes" where
  "str s = map of_char s"

section \<open>UTF-8\<close>

definition cont_byte :: "u8 \<Rightarrow> bool" where
  "cont_byte b \<longleftrightarrow> b AND 192 = 128"

definition byte_at :: "bytes \<Rightarrow> nat \<Rightarrow> u8" where
  "byte_at bs i = (if i < length bs then bs ! i else 0)"

definition second_of_3 :: "u8 \<Rightarrow> u8 \<Rightarrow> bool" where
  "second_of_3 a b \<longleftrightarrow>
     a = 0xE0 \<and> 0xA0 \<le> b \<and> b \<le> 0xBF \<or>
     0xE1 \<le> a \<and> a \<le> 0xEC \<and> 0x80 \<le> b \<and> b \<le> 0xBF \<or>
     a = 0xED \<and> 0x80 \<le> b \<and> b \<le> 0x9F \<or>
     0xEE \<le> a \<and> a \<le> 0xEF \<and> 0x80 \<le> b \<and> b \<le> 0xBF"

definition second_of_4 :: "u8 \<Rightarrow> u8 \<Rightarrow> bool" where
  "second_of_4 a b \<longleftrightarrow>
     a = 0xF0 \<and> 0x90 \<le> b \<and> b \<le> 0xBF \<or>
     0xF1 \<le> a \<and> a \<le> 0xF3 \<and> 0x80 \<le> b \<and> b \<le> 0xBF \<or>
     a = 0xF4 \<and> 0x80 \<le> b \<and> b \<le> 0x8F"

text \<open>The first character: whether it is valid, and how many bytes it (or the invalid
  prefix) has.\<close>

definition utf8_next :: "bytes \<Rightarrow> bool \<times> nat" where
  "utf8_next bs =
     (let a = byte_at bs 0 in
      if a < 0x80 then (True, 1)
      else if 0xC2 \<le> a \<and> a \<le> 0xDF then
        (if cont_byte (byte_at bs 1) then (True, 2) else (False, 1))
      else if 0xE0 \<le> a \<and> a \<le> 0xEF then
        (if \<not> second_of_3 a (byte_at bs 1) then (False, 1)
         else if \<not> cont_byte (byte_at bs 2) then (False, 2) else (True, 3))
      else if 0xF0 \<le> a \<and> a \<le> 0xF4 then
        (if \<not> second_of_4 a (byte_at bs 1) then (False, 1)
         else if \<not> cont_byte (byte_at bs 2) then (False, 2)
         else if \<not> cont_byte (byte_at bs 3) then (False, 3) else (True, 4))
      else (False, 1))"

lemma utf8_next_pos: "0 < snd (utf8_next bs)"
  by (simp add: utf8_next_def Let_def)

text \<open>A text as its characters, each one with its bytes.\<close>

function utf8_chars :: "bytes \<Rightarrow> (bool \<times> bytes) list" where
  "utf8_chars bs =
     (if bs = [] then []
      else let (ok, n) = utf8_next bs in (ok, take n bs) # utf8_chars (drop n bs))"
  by auto
termination
  by (relation "measure length") (auto simp: utf8_next_pos dest: sym [of _ "utf8_next _"]
      intro!: diff_less, metis snd_conv utf8_next_pos)

declare utf8_chars.simps [simp del]

definition REPLACEMENT :: bytes where "REPLACEMENT = [0xEF, 0xBF, 0xBD]"

definition lossy_chars :: "bytes \<Rightarrow> bytes list" where
  "lossy_chars bs = map (\<lambda>(ok, c). if ok then c else REPLACEMENT) (utf8_chars bs)"

definition from_utf8_lossy :: "bytes \<Rightarrow> bytes" where
  "from_utf8_lossy bs = concat (lossy_chars bs)"

definition from_utf8 :: "bytes \<Rightarrow> bytes option" where
  "from_utf8 bs = (if list_all fst (utf8_chars bs) then Some bs else None)"

lemma utf8_chars_concat: "concat (map snd (utf8_chars bs)) = bs"
proof (induction bs rule: utf8_chars.induct)
  case (1 bs)
  then show ?case
    by (subst utf8_chars.simps) (cases "utf8_next bs", simp)
qed

lemma lossy_of_valid: "list_all fst (utf8_chars bs) \<Longrightarrow> from_utf8_lossy bs = bs"
proof -
  assume ok: "list_all fst (utf8_chars bs)"
  have "map (\<lambda>(ok, c). if ok then c else REPLACEMENT) (utf8_chars bs) = map snd (utf8_chars bs)"
    using ok by (auto simp: list_all_iff)
  then show ?thesis
    unfolding from_utf8_lossy_def lossy_chars_def by (simp only: utf8_chars_concat)
qed

section \<open>Trimming\<close>

definition WHITE_SPACE :: "bytes list" where
  "WHITE_SPACE =
     [[0x09], [0x0A], [0x0B], [0x0C], [0x0D], [0x20], [0xC2, 0x85], [0xC2, 0xA0],
      [0xE1, 0x9A, 0x80],
      [0xE2, 0x80, 0x80], [0xE2, 0x80, 0x81], [0xE2, 0x80, 0x82], [0xE2, 0x80, 0x83],
      [0xE2, 0x80, 0x84], [0xE2, 0x80, 0x85], [0xE2, 0x80, 0x86], [0xE2, 0x80, 0x87],
      [0xE2, 0x80, 0x88], [0xE2, 0x80, 0x89], [0xE2, 0x80, 0x8A],
      [0xE2, 0x80, 0xA8], [0xE2, 0x80, 0xA9], [0xE2, 0x80, 0xAF], [0xE2, 0x81, 0x9F],
      [0xE3, 0x80, 0x80]]"

definition is_white :: "bytes \<Rightarrow> bool" where
  "is_white c \<longleftrightarrow> c \<in> set WHITE_SPACE"

definition trim_chars :: "bytes list \<Rightarrow> bytes list" where
  "trim_chars cs = rev (dropWhile is_white (rev (dropWhile is_white cs)))"

text \<open>\<open>String::from_utf8_lossy(&raw).trim().to_string()\<close>: the characters of the decoded
  text are those of \<open>lossy_chars\<close>.\<close>

definition lossy_trim :: "bytes \<Rightarrow> bytes" where
  "lossy_trim raw = concat (trim_chars (lossy_chars raw))"

lemma trim_chars_ends:
  assumes "trim_chars cs \<noteq> []"
  shows "\<not> is_white (hd (trim_chars cs)) \<and> \<not> is_white (last (trim_chars cs))"
proof -
  let ?d = "dropWhile is_white cs"
  let ?r = "dropWhile is_white (rev ?d)"
  have r: "?r \<noteq> []" using assms by (simp add: trim_chars_def)
  then have "\<not> is_white (hd ?r)" by (rule hd_dropWhile)
  then have l: "\<not> is_white (last (trim_chars cs))"
    using r by (simp add: trim_chars_def last_rev)
  have d: "?d \<noteq> []" using r by (metis dropWhile.simps(1) rev.simps(1))
  then have w: "\<not> is_white (hd ?d)" by (rule hd_dropWhile)
  have "?d = trim_chars cs @ rev (takeWhile is_white (rev ?d))"
    unfolding trim_chars_def by (metis rev_append rev_rev_ident takeWhile_dropWhile_id)
  then have "hd ?d = hd (trim_chars cs)" using assms by (metis hd_append2)
  then show ?thesis using w l by simp
qed

section \<open>Splitting and numbers\<close>

text \<open>\<open>s.rsplit_once(c)\<close> for an ASCII character.\<close>

definition rsplit_once :: "u8 \<Rightarrow> bytes \<Rightarrow> (bytes \<times> bytes) option" where
  "rsplit_once c s =
     (if c \<in> set s
      then Some (rev (tl (dropWhile (\<lambda>b. b \<noteq> c) (rev s))), rev (takeWhile (\<lambda>b. b \<noteq> c) (rev s)))
      else None)"

lemma rsplit_once_iff:
  "rsplit_once c s = Some (a, b) \<longleftrightarrow> s = a @ c # b \<and> c \<notin> set b"
proof
  assume "rsplit_once c s = Some (a, b)"
  then have c: "c \<in> set s"
    and a: "a = rev (tl (dropWhile (\<lambda>b. b \<noteq> c) (rev s)))"
    and b: "b = rev (takeWhile (\<lambda>b. b \<noteq> c) (rev s))"
    by (auto simp: rsplit_once_def split: if_splits)
  let ?d = "dropWhile (\<lambda>b. b \<noteq> c) (rev s)"
  have "?d \<noteq> []" using c by (auto simp: dropWhile_eq_Nil_conv)
  moreover have "hd ?d = c" using hd_dropWhile [OF calculation] by simp
  ultimately have "?d = c # tl ?d" by (metis list.collapse)
  then have "rev s = takeWhile (\<lambda>b. b \<noteq> c) (rev s) @ c # tl ?d"
    by (metis takeWhile_dropWhile_id)
  then have "s = a @ c # b" unfolding a b by (metis append.assoc append_Cons append_Nil
      rev.simps(2) rev_append rev_rev_ident)
  moreover have "c \<notin> set b" unfolding b by (auto dest: set_takeWhileD)
  ultimately show "s = a @ c # b \<and> c \<notin> set b" by simp
next
  assume "s = a @ c # b \<and> c \<notin> set b"
  then have r: "rev s = rev b @ c # rev a" and c: "c \<in> set s"
    and b: "\<And>x. x \<in> set (rev b) \<Longrightarrow> x \<noteq> c" by auto
  have "takeWhile (\<lambda>x. x \<noteq> c) (rev s) = rev b" "dropWhile (\<lambda>x. x \<noteq> c) (rev s) = c # rev a"
    unfolding r using b by (subst takeWhile_append2 dropWhile_append2; simp)+
  then show "rsplit_once c s = Some (a, b)" using c by (simp add: rsplit_once_def)
qed

lemma rsplit_once_None: "rsplit_once c s = None \<longleftrightarrow> c \<notin> set s"
  by (simp add: rsplit_once_def)

definition is_digit :: "u8 \<Rightarrow> bool" where
  "is_digit b \<longleftrightarrow> 0x30 \<le> b \<and> b \<le> 0x39"

definition digits_value :: "bytes \<Rightarrow> nat" where
  "digits_value ds = foldl (\<lambda>n d. n * 10 + unat (d - 0x30)) 0 ds"

text \<open>\<open>p.parse::<u16>().ok()\<close>: an optional \<open>+\<close>, then at least one digit, at most 65535.\<close>

definition parse_u16 :: "bytes \<Rightarrow> u16 option" where
  "parse_u16 p =
     (let ds = (case p of [] \<Rightarrow> [] | b # bs \<Rightarrow> if b = 0x2B then bs else p)
      in if ds \<noteq> [] \<and> list_all is_digit ds \<and> digits_value ds \<le> 65535
         then Some (of_nat (digits_value ds)) else None)"

end
