(* ===== verification/Pool_Job.thy ===== *)
theory Pool_Job
  imports Rust_Text Hex
begin

text \<open>
  \<open>src/pool_connection.rs\<close>, the parts without state: which ports are TLS, the pinned
  certificate, the \<open>Job\<close> a pool sends and how it is read from JSON, and the difficulty of
  a target. The JSON library is not part of the repository: \<open>json_api\<close> is the record of
  the operations the code calls on a \<open>serde_json::Value\<close>, and every definition that uses
  JSON takes one. SHA-256 and the WebPKI verifier are parameters in the same way.
\<close>

section \<open>TLS by port\<close>

definition TLS_PORTS :: "u16 list" where
  "TLS_PORTS = [443, 993, 995, 3333, 9999, 14433]"

definition colon :: u8 where "colon = 0x3A"

definition is_tls_port :: "bytes \<Rightarrow> bool" where
  "is_tls_port address =
     (case Option.bind (rsplit_once colon address) (\<lambda>(_, p). parse_u16 p) of
        None \<Rightarrow> True
      | Some port \<Rightarrow> port \<in> set TLS_PORTS)"

text \<open>The host of an address, as \<open>connect\<close> takes it for the server name.\<close>

definition host_of :: "bytes \<Rightarrow> bytes" where
  "host_of address = (case rsplit_once colon address of None \<Rightarrow> address | Some (h, _) \<Rightarrow> h)"

section \<open>Certificates\<close>

definition parse_cert_fingerprint :: "bytes \<Rightarrow> bytes option" where
  "parse_cert_fingerprint text =
     (let cleaned = filter (\<lambda>c. c \<noteq> colon) text
      in if length cleaned \<noteq> 64 then None
         else Option.bind (hex_decode cleaned) (\<lambda>bytes. if length bytes = 32 then Some bytes else None))"

text \<open>What the code calls of the WebPKI verifier: the certificate check (with the
  intermediates, the server name, the OCSP response and the time) and the two signature
  checks.\<close>

record webpki =
  pki_cert :: "bytes \<Rightarrow> bytes list \<Rightarrow> bytes \<Rightarrow> bytes \<Rightarrow> nat \<Rightarrow> bool"
  pki_tls12 :: "bytes \<Rightarrow> bytes \<Rightarrow> bytes \<Rightarrow> bool"
  pki_tls13 :: "bytes \<Rightarrow> bytes \<Rightarrow> bytes \<Rightarrow> bool"

text \<open>\<open>PinnedCertVerifier\<close>; the other alternative is the WebPKI verifier itself.\<close>

datatype cert_verifier = WebPki webpki | Pinned webpki bytes

definition server_verifier :: "webpki \<Rightarrow> bytes option \<Rightarrow> cert_verifier" where
  "server_verifier inner fingerprint =
     (case fingerprint of Some expected \<Rightarrow> Pinned inner expected | None \<Rightarrow> WebPki inner)"

fun verify_server_cert ::
  "(bytes \<Rightarrow> bytes) \<Rightarrow> cert_verifier \<Rightarrow> bytes \<Rightarrow> bytes list \<Rightarrow> bytes \<Rightarrow> bytes \<Rightarrow> nat \<Rightarrow> bool" where
  "verify_server_cert sha256 (Pinned inner expected) cert chain name ocsp now =
     (sha256 cert = expected)"
| "verify_server_cert sha256 (WebPki inner) cert chain name ocsp now =
     pki_cert inner cert chain name ocsp now"

fun verify_tls12_signature :: "cert_verifier \<Rightarrow> bytes \<Rightarrow> bytes \<Rightarrow> bytes \<Rightarrow> bool" where
  "verify_tls12_signature (Pinned inner expected) message cert dss = pki_tls12 inner message cert dss"
| "verify_tls12_signature (WebPki inner) message cert dss = pki_tls12 inner message cert dss"

fun verify_tls13_signature :: "cert_verifier \<Rightarrow> bytes \<Rightarrow> bytes \<Rightarrow> bytes \<Rightarrow> bool" where
  "verify_tls13_signature (Pinned inner expected) message cert dss = pki_tls13 inner message cert dss"
| "verify_tls13_signature (WebPki inner) message cert dss = pki_tls13 inner message cert dss"

text \<open>The spelling \<open>openssl\<close> prints: the hex digits with colons anywhere, in either case.\<close>

lemma length_hex_decode: "hex_decode h = Some bs \<Longrightarrow> length h = 2 * length bs"
  using length_hex_pairs by (auto simp: hex_decode_def split: if_splits)

lemma parse_cert_fingerprint_iff:
  "parse_cert_fingerprint text = Some fp \<longleftrightarrow>
     length fp = 32 \<and> hex_decode (filter (\<lambda>c. c \<noteq> colon) text) = Some fp"
  by (auto simp: parse_cert_fingerprint_def Let_def bind_eq_Some_conv
      dest: length_hex_decode split: if_splits)

section \<open>JSON values\<close>

text \<open>\<open>v.get(key)\<close>, \<open>v.as_str()\<close>, \<open>v.as_u64()\<close>, \<open>v.is_null()\<close> and \<open>from_str(line)\<close>.\<close>

record 'v json_api =
  json_get :: "'v \<Rightarrow> bytes \<Rightarrow> 'v option"
  json_str :: "'v \<Rightarrow> bytes option"
  json_u64 :: "'v \<Rightarrow> u64 option"
  json_null :: "'v \<Rightarrow> bool"
  json_parse :: "bytes \<Rightarrow> 'v option"

text \<open>\<open>v.get(key)?.as_str()?\<close>.\<close>

definition get_str :: "'v json_api \<Rightarrow> 'v \<Rightarrow> string \<Rightarrow> bytes option" where
  "get_str api v key = Option.bind (json_get api v (str key)) (json_str api)"

text \<open>\<open>v.get(key).filter(|v| !v.is_null())\<close>.\<close>

definition get_some :: "'v json_api \<Rightarrow> 'v \<Rightarrow> string \<Rightarrow> 'v option" where
  "get_some api v key =
     (case json_get api v (str key) of
        None \<Rightarrow> None
      | Some x \<Rightarrow> if json_null api x then None else Some x)"

section \<open>Jobs\<close>

record job =
  job_blob :: bytes
  job_target :: bytes
  job_id :: bytes
  job_seed_hash :: bytes
  job_generation :: u64

definition parse_job :: "'v json_api \<Rightarrow> 'v \<Rightarrow> u64 \<Rightarrow> job option" where
  "parse_job api data gen =
     Option.bind (get_str api data ''blob'') (\<lambda>blob_hex.
     Option.bind (get_str api data ''target'') (\<lambda>target_hex.
     Option.bind (get_str api data ''job_id'') (\<lambda>id.
     Option.bind (get_str api data ''seed_hash'') (\<lambda>seed_hash_hex.
     Option.bind (hex_decode blob_hex) (\<lambda>blob.
     Option.bind (hex_decode target_hex) (\<lambda>target.
     Option.bind (hex_decode seed_hash_hex) (\<lambda>seed_hash.
       Some \<lparr>job_blob = blob, job_target = target, job_id = id, job_seed_hash = seed_hash,
             job_generation = gen\<rparr>)))))))"

lemma parse_job_generation: "parse_job api data gen = Some j \<Longrightarrow> job_generation j = gen"
  by (auto simp: parse_job_def bind_eq_Some_conv)

section \<open>Difficulty\<close>

definition target_to_difficulty :: "bytes \<Rightarrow> u64" where
  "target_to_difficulty target =
     (if 8 \<le> length target then
        (let t = from_le (take 8 target) :: u64 in if t = 0 then 0 else 0xFFFFFFFFFFFFFFFF div t)
      else if 4 \<le> length target then
        (let t = from_le (take 4 target) :: u32
         in if t = 0 then 0xFFFFFFFFFFFFFFFF else 0xFFFFFFFF div ucast t)
      else 0)"

text \<open>The difficulty \<open>d\<close> is the largest with \<open>d * t\<close> within the range of the target.\<close>

lemma div_bounds: "0 < (t :: nat) \<Longrightarrow> (n div t) * t \<le> n \<and> n < (n div t + 1) * t"
  by (simp add: dividend_less_div_times)

lemma difficulty_8:
  assumes "8 \<le> length target" "t = (from_le (take 8 target) :: u64)" "t \<noteq> 0"
  shows "unat (target_to_difficulty target) = (2 ^ 64 - 1) div unat t"
  using assms by (simp add: target_to_difficulty_def Let_def unat_div_distrib)

lemma difficulty_4:
  assumes "4 \<le> length target" "length target < 8" "t = (from_le (take 4 target) :: u32)" "t \<noteq> 0"
  shows "unat (target_to_difficulty target) = (2 ^ 32 - 1) div unat t"
  using assms by (simp add: target_to_difficulty_def Let_def unat_div_distrib unat_ucast_up)

end
