(* ===== verification/Pool_Lines.thy ===== *)
theory Pool_Lines
  imports Rust_Text
begin

text \<open>
  \<open>src/pool_connection.rs\<close>, line framing: \<open>take_complete_lines\<close>, which the receiver
  applies to its buffer after every read, and \<open>read_line\<close>, which reads the answer to a
  login byte by byte. Both are bounded by \<open>MAX_LINE_BYTES\<close>. The lemmas show that the
  lines do not depend on how the bytes were split across reads, that the buffer stays
  bounded, and that \<open>read_line\<close> returns after a bounded number of reads.
\<close>

definition MAX_LINE_BYTES :: nat where "MAX_LINE_BYTES = 2 ^ 20"

definition newline :: u8 where "newline = 0x0A"

section \<open>take_complete_lines\<close>

text \<open>\<open>pending.iter().position(|&b| b == b'\n')\<close>.\<close>

fun position :: "u8 \<Rightarrow> bytes \<Rightarrow> nat option" where
  "position c [] = None"
| "position c (b # bs) = (if b = c then Some 0 else map_option Suc (position c bs))"

lemma position_Some:
  "position c bs = Some i \<Longrightarrow> i < length bs \<and> bs ! i = c \<and> c \<notin> set (take i bs)"
  by (induction bs arbitrary: i) (auto split: if_splits)

lemma position_None: "position c bs = None \<longleftrightarrow> c \<notin> set bs"
  by (induction bs) auto

lemma position_append:
  "position c (xs @ ys) =
     (case position c xs of Some i \<Rightarrow> Some i
      | None \<Rightarrow> map_option (\<lambda>i. length xs + i) (position c ys))"
proof (induction xs)
  case Nil
  then show ?case by (cases "position c ys") simp_all
next
  case (Cons x xs)
  then show ?case by (cases "position c xs"; cases "position c ys") simp_all
qed

text \<open>The loop: it returns the non-empty lines, trimmed, and what is left of the buffer.\<close>

function drain_lines :: "bytes \<Rightarrow> bytes list \<times> bytes" where
  "drain_lines pending =
     (case position newline pending of
        None \<Rightarrow> ([], pending)
      | Some pos \<Rightarrow>
          let line = lossy_trim (take (Suc pos) pending);
              (lines, rest) = drain_lines (drop (Suc pos) pending)
          in (if line = [] then lines else line # lines, rest))"
  by auto
termination
  by (relation "measure length") (auto dest: position_Some)

declare drain_lines.simps [simp del]

text \<open>The result and the buffer the call leaves behind.\<close>

definition take_complete_lines :: "bytes \<Rightarrow> (nat + bytes list) \<times> bytes" where
  "take_complete_lines pending =
     (let (lines, rest) = drain_lines pending
      in if MAX_LINE_BYTES < length rest then (Inl (length rest), rest) else (Inr lines, rest))"

lemma drain_none: "newline \<notin> set bs \<Longrightarrow> drain_lines bs = ([], bs)"
  by (subst drain_lines.simps) (simp add: position_None [symmetric])

lemma drain_rest: "newline \<notin> set (snd (drain_lines bs))"
proof (induction bs rule: drain_lines.induct)
  case (1 bs)
  show ?case
  proof (cases "position newline bs")
    case None
    then show ?thesis by (simp add: drain_none position_None)
  next
    case (Some pos)
    then have "snd (drain_lines bs) = snd (drain_lines (drop (Suc pos) bs))"
      by (subst drain_lines.simps) (simp add: Let_def split: prod.splits)
    then show ?thesis using 1 [OF Some refl] by simp
  qed
qed

lemma drain_append:
  "drain_lines (xs @ ys) =
     (fst (drain_lines xs) @ fst (drain_lines (snd (drain_lines xs) @ ys)),
      snd (drain_lines (snd (drain_lines xs) @ ys)))"
proof (induction xs rule: drain_lines.induct)
  case (1 xs)
  show ?case
  proof (cases "position newline xs")
    case None
    then show ?thesis by (simp add: drain_none position_None)
  next
    case (Some pos)
    then have lt: "pos < length xs" by (simp add: position_Some)
    obtain ls rest where d: "drain_lines (drop (Suc pos) xs) = (ls, rest)" by fastforce
    have x: "drain_lines xs =
        (let line = lossy_trim (take (Suc pos) xs)
         in (if line = [] then ls else line # ls, rest))"
      using Some d by (subst drain_lines.simps) (simp add: Let_def)
    have "drain_lines (drop (Suc pos) xs @ ys) =
        (ls @ fst (drain_lines (rest @ ys)), snd (drain_lines (rest @ ys)))"
      using 1 [OF Some refl] d by simp
    moreover have "position newline (xs @ ys) = Some pos"
      using Some by (simp add: position_append)
    moreover have "take (Suc pos) (xs @ ys) = take (Suc pos) xs"
      "drop (Suc pos) (xs @ ys) = drop (Suc pos) xs @ ys"
      using lt by simp_all
    ultimately show ?thesis
      by (subst drain_lines.simps) (simp add: x Let_def del: take_append drop_append)
  qed
qed

lemma drain_lines_trimmed:
  "line \<in> set (fst (drain_lines bs)) \<Longrightarrow> \<exists>raw. line = lossy_trim raw \<and> line \<noteq> []"
proof (induction bs rule: drain_lines.induct)
  case (1 bs)
  show ?case
  proof (cases "position newline bs")
    case None
    then show ?thesis using 1 by (simp add: drain_none position_None)
  next
    case (Some pos)
    obtain ls rest where d: "drain_lines (drop (Suc pos) bs) = (ls, rest)" by fastforce
    have "fst (drain_lines bs) =
        (let l = lossy_trim (take (Suc pos) bs) in if l = [] then ls else l # ls)"
      using Some d by (subst drain_lines.simps) (simp add: Let_def)
    then have "line \<in> set ls \<or> line = lossy_trim (take (Suc pos) bs) \<and> line \<noteq> []"
      using "1.prems" by (auto simp: Let_def split: if_splits)
    then show ?thesis using "1.IH" [OF Some refl] d by auto
  qed
qed

text \<open>The receiver's use of it: one chunk after the other is appended to the buffer and the
  complete lines are taken out. \<open>None\<close> is the overflow, after which the buffer is dropped
  and the connection replaced.\<close>

fun feed_chunks :: "bytes \<Rightarrow> bytes list \<Rightarrow> (bytes list \<times> bytes) option" where
  "feed_chunks pending [] = Some ([], pending)"
| "feed_chunks pending (chunk # chunks) =
     (case take_complete_lines (pending @ chunk) of
        (Inl n, _) \<Rightarrow> None
      | (Inr lines, rest) \<Rightarrow>
          map_option (\<lambda>(more, final). (lines @ more, final)) (feed_chunks rest chunks))"

lemma feed_chunks_gen:
  "newline \<notin> set pending \<Longrightarrow> feed_chunks pending chunks = Some (lines, rest) \<Longrightarrow>
     drain_lines (pending @ concat chunks) = (lines, rest)"
proof (induction chunks arbitrary: pending lines)
  case Nil
  then show ?case by (simp add: drain_none)
next
  case (Cons chunk chunks)
  obtain ls r where d: "drain_lines (pending @ chunk) = (ls, r)" by fastforce
  obtain more where f: "feed_chunks r chunks = Some (more, rest)" and l: "lines = ls @ more"
    using Cons.prems(2) d by (auto simp: take_complete_lines_def split: if_splits)
  have "newline \<notin> set r" using drain_rest [of "pending @ chunk"] d by simp
  then have "drain_lines (r @ concat chunks) = (more, rest)" using f by (rule Cons.IH)
  then show ?case using drain_append [of "pending @ chunk" "concat chunks"] d l by simp
qed

lemma feed_chunks_bound:
  "length pending \<le> MAX_LINE_BYTES \<Longrightarrow> feed_chunks pending chunks = Some (lines, rest) \<Longrightarrow>
     length rest \<le> MAX_LINE_BYTES"
proof (induction chunks arbitrary: pending lines)
  case Nil
  then show ?case by simp
next
  case (Cons chunk chunks)
  obtain ls r where d: "drain_lines (pending @ chunk) = (ls, r)" by fastforce
  then have "length r \<le> MAX_LINE_BYTES" "\<exists>more. feed_chunks r chunks = Some (more, rest)"
    using Cons.prems(2) by (auto simp: take_complete_lines_def split: if_splits)
  then show ?case using Cons.IH by blast
qed

section \<open>read_line\<close>

text \<open>What one \<open>read\<close> of a single byte returned. The environment is the sequence of these
  answers.\<close>

datatype read1 = Got u8 | Eof | Read_Failed

datatype line_error = Line_Too_Long | Line_Read_Failed | Line_Not_Utf8

text \<open>The loop, from the \<open>i\<close>-th answer on; it also returns the number of answers used.\<close>

function read_line_loop :: "(nat \<Rightarrow> read1) \<Rightarrow> nat \<Rightarrow> bytes \<Rightarrow> (line_error + bytes) \<times> nat" where
  "read_line_loop reads i line =
     (case reads i of
        Eof \<Rightarrow> (Inr line, Suc i)
      | Got b \<Rightarrow>
          if b = newline then (Inr line, Suc i)
          else if MAX_LINE_BYTES < length (line @ [b]) then (Inl Line_Too_Long, Suc i)
          else read_line_loop reads (Suc i) (line @ [b])
      | Read_Failed \<Rightarrow> (Inl Line_Read_Failed, Suc i))"
  by pat_completeness auto
termination
  by (relation "measure (\<lambda>(reads, i, line). MAX_LINE_BYTES - length line)") auto

declare read_line_loop.simps [simp del]

definition read_line :: "(nat \<Rightarrow> read1) \<Rightarrow> (line_error + bytes) \<times> nat" where
  "read_line reads =
     (case read_line_loop reads 0 [] of
        (Inl e, n) \<Rightarrow> (Inl e, n)
      | (Inr line, n) \<Rightarrow>
          ((case from_utf8 line of None \<Rightarrow> Inl Line_Not_Utf8 | Some s \<Rightarrow> Inr s), n))"

lemma read_line_loop_bound:
  "length line \<le> MAX_LINE_BYTES \<Longrightarrow>
     snd (read_line_loop reads i line) + length line \<le> i + MAX_LINE_BYTES + 1"
proof (induction reads i line rule: read_line_loop.induct)
  case (1 reads i line)
  show ?case
  proof (cases "reads i")
    case (Got b)
    show ?thesis
    proof (cases "b = newline \<or> MAX_LINE_BYTES < length (line @ [b])")
      case True
      then show ?thesis using Got "1.prems"
        by (subst read_line_loop.simps) auto
    next
      case False
      then have "snd (read_line_loop reads (Suc i) (line @ [b])) + length (line @ [b])
          \<le> Suc i + MAX_LINE_BYTES + 1"
        using "1.IH" [OF Got] by simp
      then show ?thesis using Got False
        by (subst read_line_loop.simps) simp
    qed
  qed (use "1.prems" in \<open>subst read_line_loop.simps, simp\<close>)+
qed

text \<open>A line that arrives whole.\<close>

lemma read_line_loop_whole:
  "length (line @ bs) \<le> MAX_LINE_BYTES \<Longrightarrow> newline \<notin> set bs \<Longrightarrow>
     (\<And>k. k < length bs \<Longrightarrow> reads (i + k) = Got (bs ! k)) \<Longrightarrow>
     reads (i + length bs) = Got newline \<Longrightarrow>
     read_line_loop reads i line = (Inr (line @ bs), i + length bs + 1)"
proof (induction bs arbitrary: i line)
  case Nil
  then show ?case by (subst read_line_loop.simps) simp
next
  case (Cons b bs)
  have "reads i = Got b" using Cons.prems(3) [of 0] by simp
  moreover have "b \<noteq> newline" using Cons.prems(2) by auto
  moreover have "reads (Suc i + k) = Got (bs ! k)" if "k < length bs" for k
    using Cons.prems(3) [of "Suc k"] that by simp
  then have "read_line_loop reads (Suc i) (line @ [b]) =
      (Inr ((line @ [b]) @ bs), Suc i + length bs + 1)"
    using Cons.prems by (intro Cons.IH) auto
  ultimately show ?case using Cons.prems(1)
    by (subst read_line_loop.simps) simp
qed

text \<open>What a returned line is.\<close>

lemma read_line_loop_gen:
  "read_line_loop reads i line = (Inr full, n) \<Longrightarrow> length line \<le> MAX_LINE_BYTES \<Longrightarrow>
     \<exists>bs. full = line @ bs \<and> length full \<le> MAX_LINE_BYTES \<and> newline \<notin> set bs \<and>
        n = i + length bs + 1 \<and> (\<forall>k < length bs. reads (i + k) = Got (bs ! k)) \<and>
        reads (i + length bs) \<in> {Got newline, Eof}"
proof (induction reads i line rule: read_line_loop.induct)
  case (1 reads i line)
  show ?case
  proof (cases "reads i")
    case (Got b)
    show ?thesis
    proof (cases "b = newline \<or> MAX_LINE_BYTES < length (line @ [b])")
      case True
      then have "b = newline \<and> full = line \<and> n = Suc i"
        using "1.prems"(1) Got by (subst (asm) read_line_loop.simps) (auto split: if_splits)
      then show ?thesis using "1.prems"(2) Got by (intro exI [of _ "[]"]) simp
    next
      case False
      then have r: "read_line_loop reads (Suc i) (line @ [b]) = (Inr full, n)"
        using "1.prems"(1) Got by (subst (asm) read_line_loop.simps) simp
      then obtain bs where bs: "full = (line @ [b]) @ bs" "length full \<le> MAX_LINE_BYTES"
        "newline \<notin> set bs" "n = Suc i + length bs + 1"
        "\<forall>k < length bs. reads (Suc i + k) = Got (bs ! k)"
        "reads (Suc i + length bs) \<in> {Got newline, Eof}"
        using "1.IH" [OF Got] False by fastforce
      have "reads (i + k) = Got ((b # bs) ! k)" if "k < length (b # bs)" for k
        using that bs(5) Got by (cases k) simp_all
      then show ?thesis using bs False by (intro exI [of _ "b # bs"]) simp
    qed
  next
    case Eof
    then have "full = line \<and> n = Suc i"
      using "1.prems"(1) by (subst (asm) read_line_loop.simps) simp
    then show ?thesis using "1.prems"(2) Eof by (intro exI [of _ "[]"]) simp
  next
    case Read_Failed
    then show ?thesis using "1.prems"(1) by (subst (asm) read_line_loop.simps) simp
  qed
qed

lemma read_line_gen:
  "snd (read_line reads) \<le> MAX_LINE_BYTES + 1 \<and>
   (case fst (read_line reads) of
      Inl e \<Rightarrow> True
    | Inr line \<Rightarrow>
        length line \<le> MAX_LINE_BYTES \<and> newline \<notin> set line \<and> from_utf8 line = Some line \<and>
        snd (read_line reads) = length line + 1 \<and>
        (list_all (\<lambda>k. reads k = Got (line ! k)) [0..<length line]) \<and>
        reads (length line) \<in> {Got newline, Eof})"
proof -
  obtain r n where l: "read_line_loop reads 0 [] = (r, n)" by fastforce
  have n: "n \<le> MAX_LINE_BYTES + 1" using read_line_loop_bound [of "[]" reads 0] l by simp
  show ?thesis
  proof (cases r)
    case (Inl e)
    then show ?thesis using l n by (simp add: read_line_def)
  next
    case (Inr line)
    then have "length line \<le> MAX_LINE_BYTES \<and> newline \<notin> set line \<and> n = length line + 1 \<and>
        (\<forall>k < length line. reads k = Got (line ! k)) \<and> reads (length line) \<in> {Got newline, Eof}"
      using read_line_loop_gen [of reads 0 "[]" line n] l by auto
    then show ?thesis using l n Inr
      by (simp add: read_line_def from_utf8_def list_all_iff)
  qed
qed

end
