(* ===== verification/Pool.thy ===== *)
theory Pool
  imports Pool_Job Pool_Lines Donate "HOL-Library.AList"
begin

text \<open>
  \<open>src/pool_connection.rs\<close>: the state of \<open>PoolConnection\<close> and its operations, each one a
  function that takes what the outside world answered (the socket, the clock) and returns
  its result with the new state. A \<open>Mutex\<close> that is only read or written whole is a field;
  the operations that several threads may interleave are built from the pieces that
  \<open>Pool_Threads\<close> takes as its atomic steps. Log lines are left out. Times are milliseconds.
\<close>

section \<open>The stream\<close>

text \<open>\<open>JsonRpcRequest\<close>, with the string parameters the code puts in.\<close>

record rpc_request =
  rq_id :: u64
  rq_method :: bytes
  rq_params :: "(bytes \<times> bytes) list"

text \<open>The socket: its options and the requests written to it.\<close>

record tcp_stream =
  read_timeout :: nat
  write_timeout :: nat
  nodelay :: bool
  written :: "rpc_request list"

datatype pool_stream = Plain tcp_stream | Tls tcp_stream

fun stream_tcp :: "pool_stream \<Rightarrow> tcp_stream" where
  "stream_tcp (Plain s) = s"
| "stream_tcp (Tls s) = s"

fun map_tcp :: "(tcp_stream \<Rightarrow> tcp_stream) \<Rightarrow> pool_stream \<Rightarrow> pool_stream" where
  "map_tcp f (Plain s) = Plain (f s)"
| "map_tcp f (Tls s) = Tls (f s)"

lemma stream_tcp_map [simp]: "stream_tcp (map_tcp f s) = f (stream_tcp s)"
  by (cases s) simp_all

definition RECV_POLL_INTERVAL :: nat where "RECV_POLL_INTERVAL = 50"
definition KEEPALIVE_INTERVAL :: nat where "KEEPALIVE_INTERVAL = 60000"
definition POOL_SILENCE_TIMEOUT :: nat where "POOL_SILENCE_TIMEOUT = 3 * KEEPALIVE_INTERVAL"
definition ROTATION_SETTLE_LIMIT :: nat where "ROTATION_SETTLE_LIMIT = 5000"

section \<open>The connection\<close>

record pending_share =
  ps_job_id :: bytes
  ps_nonce :: bytes
  ps_sent_at :: nat

text \<open>An \<open>Arc<Job>\<close>: the allocation it points to and the job. Two are the same object
  (\<open>Arc::ptr_eq\<close>) when the allocations are.\<close>

record arc_job =
  arc_ptr :: nat
  arc_val :: job

text \<open>\<open>allocations\<close> counts the \<open>Arc::new\<close> calls, so that every one gets a new address. \<open>HashMap\<close>
  of the pending shares is an association list.\<close>

record pool =
  stream :: "pool_stream option"
  current_job :: "arc_job option"
  connected :: bool
  request_id :: u64
  generation :: u64
  address :: bytes
  wallet :: bytes
  user_wallet :: bytes
  donation :: donation_schedule
  tls_verifier :: cert_verifier
  pinned_fingerprint :: "bytes option"
  session_id :: bytes
  accepted_shares :: u32
  rejected_shares :: u32
  pending_shares :: "(u64 \<times> pending_share) list"
  lost_shares :: u32
  unsent_shares :: u32
  submits_in_flight :: u32
  silence_timeout_ms :: nat
  rotation_settle_ms :: nat
  rotation_wait_since :: "(beneficiary \<times> nat) option"
  allocations :: nat

definition with_tls_fingerprint :: "webpki \<Rightarrow> nat \<Rightarrow> bytes option \<Rightarrow> pool" where
  "with_tls_fingerprint pki donate_level fingerprint =
     \<lparr>stream = None, current_job = None, connected = False, request_id = 1, generation = 0,
      address = [], wallet = [], user_wallet = [], donation = donation_new donate_level,
      tls_verifier = server_verifier pki fingerprint, pinned_fingerprint = fingerprint,
      session_id = [], accepted_shares = 0, rejected_shares = 0, pending_shares = [],
      lost_shares = 0, unsent_shares = 0, submits_in_flight = 0,
      silence_timeout_ms = POOL_SILENCE_TIMEOUT, rotation_settle_ms = ROTATION_SETTLE_LIMIT,
      rotation_wait_since = None, allocations = 0\<rparr>"

datatype pool_error =
    Pinned_Plaintext | Tcp_Connect | Set_Read_Timeout | Set_Write_Timeout | Set_Nodelay
  | Bad_Server_Name | Tls_Setup | Not_Connected | Stale_Job u64 u64
  | Serialize_Error | Write_Error | Flush_Error | Read_Error line_error | Parse_Error
  | Login_Error | No_Session_Id | Unexpected_Login | No_Address

section \<open>Writing\<close>

text \<open>What the environment makes of one write.\<close>

datatype write_answer = Written | Serialize_Fails | Write_Fails | Flush_Fails

text \<open>\<open>write_request\<close>. A request whose flush fails has been handed to the socket.\<close>

fun write_request :: "write_answer \<Rightarrow> rpc_request \<Rightarrow> pool_stream \<Rightarrow> (pool_error + unit) \<times> pool_stream"
  where
  "write_request Written rq s = (Inr (), map_tcp (\<lambda>t. t\<lparr>written := written t @ [rq]\<rparr>) s)"
| "write_request Serialize_Fails rq s = (Inl Serialize_Error, s)"
| "write_request Write_Fails rq s = (Inl Write_Error, s)"
| "write_request Flush_Fails rq s = (Inl Flush_Error, map_tcp (\<lambda>t. t\<lparr>written := written t @ [rq]\<rparr>) s)"

definition next_request_id :: "pool \<Rightarrow> u64 \<times> pool" where
  "next_request_id p = (request_id p, p\<lparr>request_id := request_id p + 1\<rparr>)"

definition set_read_timeout :: "bool \<Rightarrow> nat \<Rightarrow> pool \<Rightarrow> pool" where
  "set_read_timeout ok ms p =
     (case stream p of
        Some s \<Rightarrow> if ok then p\<lparr>stream := Some (map_tcp (\<lambda>t. t\<lparr>read_timeout := ms\<rparr>) s)\<rparr> else p
      | None \<Rightarrow> p)"

definition send_message ::
  "write_answer \<Rightarrow> bytes \<Rightarrow> (bytes \<times> bytes) list \<Rightarrow> pool \<Rightarrow> (pool_error + unit) \<times> pool" where
  "send_message w meth params p =
     (case stream p of
        None \<Rightarrow> (Inl Not_Connected, p)
      | Some s \<Rightarrow>
          let (rid, p) = next_request_id p;
              (r, s) = write_request w \<lparr>rq_id = rid, rq_method = meth, rq_params = params\<rparr> s
          in (r, p\<lparr>stream := Some s\<rparr>))"

section \<open>connect\<close>

record connect_env =
  tcp_connects :: bool
  sets_read_timeout :: bool
  sets_write_timeout :: bool
  sets_nodelay :: bool
  valid_name :: "bytes \<Rightarrow> bool"
  tls_starts :: bool

text \<open>The part of \<open>connect\<close> before the connection's own state changes.\<close>

definition open_stream :: "connect_env \<Rightarrow> bytes option \<Rightarrow> bytes \<Rightarrow> pool_error + pool_stream" where
  "open_stream env pin addr =
     (if pin \<noteq> None \<and> \<not> is_tls_port addr then Inl Pinned_Plaintext
      else if \<not> tcp_connects env then Inl Tcp_Connect
      else if \<not> sets_read_timeout env then Inl Set_Read_Timeout
      else if \<not> sets_write_timeout env then Inl Set_Write_Timeout
      else if \<not> sets_nodelay env then Inl Set_Nodelay
      else let tcp = \<lparr>read_timeout = 30000, write_timeout = 10000, nodelay = True, written = []\<rparr>
        in if is_tls_port addr then
             (if \<not> valid_name env (host_of addr) then Inl Bad_Server_Name
              else if \<not> tls_starts env then Inl Tls_Setup
              else Inr (Tls tcp))
           else Inr (Plain tcp))"

text \<open>The critical section: install and bump.\<close>

definition install_stream :: "pool_stream \<Rightarrow> pool \<Rightarrow> pool" where
  "install_stream s p = p\<lparr>stream := Some s, generation := generation p + 1\<rparr>"

definition connect :: "connect_env \<Rightarrow> bytes \<Rightarrow> pool \<Rightarrow> (pool_error + unit) \<times> pool" where
  "connect env addr p =
     (case open_stream env (pinned_fingerprint p) addr of
        Inl e \<Rightarrow> (Inl e, p)
      | Inr s \<Rightarrow> (Inr (), (install_stream s (p\<lparr>address := addr\<rparr>))\<lparr>connected := True\<rparr>))"

section \<open>login\<close>

record login_env =
  login_write :: write_answer
  login_sets_timeout :: bool
  login_reads :: "nat \<Rightarrow> read1"

definition send_request ::
  "'v json_api \<Rightarrow> login_env \<Rightarrow> bytes \<Rightarrow> (bytes \<times> bytes) list \<Rightarrow> pool \<Rightarrow>
     (pool_error + 'v) \<times> pool" where
  "send_request api env meth params p =
     (case stream p of
        None \<Rightarrow> (Inl Not_Connected, p)
      | Some s \<Rightarrow>
          let (rid, p) = next_request_id p;
              (r, s) = write_request (login_write env)
                         \<lparr>rq_id = rid, rq_method = meth, rq_params = params\<rparr> s;
              p = p\<lparr>stream := Some s\<rparr>
          in case r of
               Inl e \<Rightarrow> (Inl e, p)
             | Inr _ \<Rightarrow>
                 let p = set_read_timeout (login_sets_timeout env) 30000 p
                 in case fst (read_line (login_reads env)) of
                      Inl e \<Rightarrow> (Inl (Read_Error e), p)
                    | Inr line \<Rightarrow>
                        (case json_parse api line of
                           None \<Rightarrow> (Inl Parse_Error, p)
                         | Some v \<Rightarrow> (Inr v, p)))"

text \<open>\<open>Arc::new\<close> and the store into \<open>current_job\<close>.\<close>

definition install_job :: "job \<Rightarrow> pool \<Rightarrow> pool" where
  "install_job j p =
     p\<lparr>current_job := Some \<lparr>arc_ptr = allocations p, arc_val = j\<rparr>,
       allocations := Suc (allocations p)\<rparr>"

definition begin_login :: "bytes \<Rightarrow> pool \<Rightarrow> pool" where
  "begin_login w p =
     p\<lparr>wallet := w, user_wallet := (if user_wallet p = [] then w else user_wallet p)\<rparr>"

text \<open>The handling of the reply: the error before the result, then the session id, and only
  then a job.\<close>

definition login_check :: "'v json_api \<Rightarrow> 'v \<Rightarrow> pool_error + 'v \<times> bytes" where
  "login_check api response =
     (case get_some api response ''error'' of
        Some _ \<Rightarrow> Inl Login_Error
      | None \<Rightarrow>
          (case get_some api response ''result'' of
             None \<Rightarrow> Inl Unexpected_Login
           | Some result \<Rightarrow>
               (case get_str api result ''id'' of
                  None \<Rightarrow> Inl No_Session_Id
                | Some sid \<Rightarrow> Inr (result, sid))))"

definition login_job :: "'v json_api \<Rightarrow> 'v \<Rightarrow> pool \<Rightarrow> pool" where
  "login_job api result p =
     (case Option.bind (json_get api result (str ''job''))
             (\<lambda>data. parse_job api data (generation p)) of
        Some j \<Rightarrow> install_job j p
      | None \<Rightarrow> p)"

definition login_reply :: "'v json_api \<Rightarrow> 'v \<Rightarrow> pool \<Rightarrow> (pool_error + unit) \<times> pool" where
  "login_reply api response p =
     (case login_check api response of
        Inl e \<Rightarrow> (Inl e, p)
      | Inr (result, sid) \<Rightarrow> (Inr (), login_job api result (p\<lparr>session_id := sid\<rparr>)))"

definition login_params :: "bytes \<Rightarrow> bytes \<Rightarrow> (bytes \<times> bytes) list" where
  "login_params agent w =
     [(str ''login'', w), (str ''pass'', str ''x''), (str ''agent'', agent),
      (str ''algo'', str ''rx/0'')]"

definition login ::
  "'v json_api \<Rightarrow> bytes \<Rightarrow> login_env \<Rightarrow> bytes \<Rightarrow> pool \<Rightarrow> (pool_error + unit) \<times> pool" where
  "login api agent env w p =
     (case send_request api env (str ''login'') (login_params agent w) (begin_login w p) of
        (Inl e, p) \<Rightarrow> (Inl e, p)
      | (Inr response, p) \<Rightarrow> login_reply api response p)"

definition get_work :: "pool \<Rightarrow> arc_job option" where
  "get_work p = current_job p"

end
