(* ===== verification/Pool_Shares.thy ===== *)
theory Pool_Shares
  imports Pool
begin

text \<open>
  \<open>src/pool_connection.rs\<close>: the life of a share, from \<open>submit_share\<close> over the pool's answer
  in \<open>handle_pool_message\<close> to \<open>drain_pending_shares\<close>. A share ends in exactly one of the
  counters accepted, rejected, lost and unsent.
\<close>

section \<open>submit_share\<close>

text \<open>The pieces of \<open>submit_share\<close> in the order of the code: count the call, read the session
  id, draw a request id, check and write under the stream lock, register while the lock is
  still held, and the counter for a share that was not sent.\<close>

definition enter_submit :: "pool \<Rightarrow> pool" where
  "enter_submit p = p\<lparr>submits_in_flight := submits_in_flight p + 1\<rparr>"

definition leave_submit :: "pool \<Rightarrow> pool" where
  "leave_submit p = p\<lparr>submits_in_flight := submits_in_flight p - 1\<rparr>"

definition submit_params :: "bytes \<Rightarrow> bytes \<Rightarrow> bytes \<Rightarrow> bytes \<Rightarrow> (bytes \<times> bytes) list" where
  "submit_params sid jid nonce result =
     [(str ''id'', sid), (str ''job_id'', jid), (str ''nonce'', nonce), (str ''result'', result)]"

definition write_submit ::
  "write_answer \<Rightarrow> u64 \<Rightarrow> (bytes \<times> bytes) list \<Rightarrow> u64 \<Rightarrow> pool \<Rightarrow> (pool_error + unit) \<times> pool" where
  "write_submit w rpc_id params job_gen p =
     (case stream p of
        None \<Rightarrow> (Inl Not_Connected, p)
      | Some s \<Rightarrow>
          if job_gen \<noteq> generation p then (Inl (Stale_Job job_gen (generation p)), p)
          else let (r, s) = write_request w
                     \<lparr>rq_id = rpc_id, rq_method = str ''submit'', rq_params = params\<rparr> s
               in (r, p\<lparr>stream := Some s\<rparr>))"

definition register_pending :: "u64 \<Rightarrow> pending_share \<Rightarrow> pool \<Rightarrow> pool" where
  "register_pending rpc_id e p =
     p\<lparr>pending_shares := AList.update rpc_id e (pending_shares p)\<rparr>"

definition write_and_register ::
  "write_answer \<Rightarrow> nat \<Rightarrow> u64 \<Rightarrow> (bytes \<times> bytes) list \<Rightarrow> bytes \<Rightarrow> bytes \<Rightarrow> u64 \<Rightarrow> pool \<Rightarrow>
     (pool_error + unit) \<times> pool" where
  "write_and_register w now rpc_id params jid nonce job_gen p =
     (case write_submit w rpc_id params job_gen p of
        (Inl e, p) \<Rightarrow> (Inl e, p)
      | (Inr _, p) \<Rightarrow>
          (Inr (), register_pending rpc_id \<lparr>ps_job_id = jid, ps_nonce = nonce, ps_sent_at = now\<rparr> p))"

definition count_unsent :: "pool \<Rightarrow> pool" where
  "count_unsent p = p\<lparr>unsent_shares := unsent_shares p + 1\<rparr>"

definition submit_share ::
  "write_answer \<Rightarrow> nat \<Rightarrow> bytes \<Rightarrow> bytes \<Rightarrow> bytes \<Rightarrow> u64 \<Rightarrow> pool \<Rightarrow> (pool_error + unit) \<times> pool" where
  "submit_share w now jid nonce result job_gen p =
     (let p = enter_submit p;
          params = submit_params (session_id p) jid nonce result;
          (rpc_id, p) = next_request_id p
      in case write_and_register w now rpc_id params jid nonce job_gen p of
           (Inl e, p) \<Rightarrow> (Inl e, leave_submit (count_unsent p))
         | (Inr _, p) \<Rightarrow> (Inr (), leave_submit p))"

section \<open>Counters\<close>

definition get_pending_shares :: "pool \<Rightarrow> nat" where
  "get_pending_shares p = length (pending_shares p)"

definition count_lost :: "pool \<Rightarrow> pool" where
  "count_lost p = p\<lparr>lost_shares := lost_shares p + 1\<rparr>"

definition take_pending :: "pool \<Rightarrow> (u64 \<times> pending_share) list \<times> pool" where
  "take_pending p = (pending_shares p, p\<lparr>pending_shares := []\<rparr>)"

definition drain_pending_shares :: "pool \<Rightarrow> pool" where
  "drain_pending_shares p =
     (let (drained, p) = take_pending p in foldl (\<lambda>p _. count_lost p) p drained)"

definition reset_share_counters :: "pool \<Rightarrow> pool" where
  "reset_share_counters p =
     p\<lparr>accepted_shares := 0, rejected_shares := 0, lost_shares := 0, unsent_shares := 0\<rparr>"

section \<open>handle_pool_message\<close>

text \<open>The job part of a message: where the job is, and its installation.\<close>

definition job_params :: "'v json_api \<Rightarrow> 'v \<Rightarrow> 'v option" where
  "job_params api msg =
     (if get_str api msg ''method'' = Some (str ''job'') then json_get api msg (str ''params'')
      else Option.bind (json_get api msg (str ''result'')) (\<lambda>r. json_get api r (str ''job'')))"

definition take_job :: "'v json_api \<Rightarrow> 'v \<Rightarrow> pool \<Rightarrow> pool" where
  "take_job api msg p =
     (case Option.bind (job_params api msg) (\<lambda>data. parse_job api data (generation p)) of
        Some j \<Rightarrow> install_job j p
      | None \<Rightarrow> p)"

text \<open>The id of a message that can be an answer: it has a numeric id and no method.\<close>

definition answer_id :: "'v json_api \<Rightarrow> 'v \<Rightarrow> u64 option" where
  "answer_id api msg =
     (if json_get api msg (str ''method'') = None
      then Option.bind (json_get api msg (str ''id'')) (json_u64 api) else None)"

definition remove_pending :: "u64 \<Rightarrow> pool \<Rightarrow> pool" where
  "remove_pending rpc_id p = p\<lparr>pending_shares := AList.delete rpc_id (pending_shares p)\<rparr>"

text \<open>The verdict of an answer, and the counter it goes to.\<close>

definition answer_ok :: "'v json_api \<Rightarrow> 'v \<Rightarrow> bool" where
  "answer_ok api msg =
     (get_some api msg ''error'' = None \<and>
      Option.bind (json_get api msg (str ''result'')) (\<lambda>r. get_str api r ''status'') = Some (str ''OK''))"

definition count_answer :: "bool \<Rightarrow> pool \<Rightarrow> pool" where
  "count_answer ok p =
     (if ok then p\<lparr>accepted_shares := accepted_shares p + 1\<rparr>
      else p\<lparr>rejected_shares := rejected_shares p + 1\<rparr>)"

definition take_answer :: "'v json_api \<Rightarrow> 'v \<Rightarrow> pool \<Rightarrow> pool" where
  "take_answer api msg p =
     (case answer_id api msg of
        None \<Rightarrow> p
      | Some rpc_id \<Rightarrow>
          (case map_of (pending_shares p) rpc_id of
             None \<Rightarrow> p
           | Some e \<Rightarrow> count_answer (answer_ok api msg) (remove_pending rpc_id p)))"

definition handle_pool_message :: "'v json_api \<Rightarrow> bytes \<Rightarrow> pool \<Rightarrow> pool" where
  "handle_pool_message api line p =
     (case json_parse api line of
        None \<Rightarrow> p
      | Some msg \<Rightarrow> take_answer api msg (take_job api msg p))"

section \<open>The ledger\<close>

text \<open>The shares that have been settled or wait for an answer. The counters are \<open>u32\<close> and
  wrap, so the sum is taken in \<open>u32\<close>.\<close>

definition settled :: "pool \<Rightarrow> u32" where
  "settled p = accepted_shares p + rejected_shares p + lost_shares p + unsent_shares p"

definition ledger :: "pool \<Rightarrow> u32" where
  "ledger p = settled p + of_nat (length (pending_shares p))"

text \<open>The pending entries of a \<open>HashMap\<close> have distinct keys.\<close>

definition ids_ok :: "pool \<Rightarrow> bool" where
  "ids_ok p \<longleftrightarrow> distinct (map fst (pending_shares p))"

named_theorems share_steps

lemmas [share_steps] =
  enter_submit_def leave_submit_def next_request_id_def count_unsent_def count_lost_def
  register_pending_def remove_pending_def count_answer_def take_pending_def

lemma length_update_fresh:
  "k \<notin> fst ` set xs \<Longrightarrow> length (AList.update k v xs) = Suc (length xs)"
  by (induction xs) auto

lemma delete_fresh: "k \<notin> fst ` set xs \<Longrightarrow> AList.delete k xs = xs"
  by (induction xs) (auto simp: AList.delete_eq)

lemma length_delete_once:
  "distinct (map fst xs) \<Longrightarrow> k \<in> fst ` set xs \<Longrightarrow>
     Suc (length (AList.delete k xs)) = length xs"
proof (induction xs)
  case Nil
  then show ?case by simp
next
  case (Cons x xs)
  obtain k' v where x: "x = (k', v)" by fastforce
  show ?case
  proof (cases "k' = k")
    case True
    then show ?thesis using Cons.prems(1) x delete_fresh [of k xs] by (simp add: AList.delete_eq)
  next
    case False
    then show ?thesis using Cons x by (auto simp: AList.delete_eq)
  qed
qed

lemma ledger_register:
  assumes "rpc_id \<notin> fst ` set (pending_shares p)"
  shows "ledger (register_pending rpc_id e p) = ledger p + 1"
  using assms by (simp add: ledger_def settled_def register_pending_def length_update_fresh)

lemma ledger_unsent: "ledger (count_unsent p) = ledger p + 1"
  by (simp add: ledger_def settled_def count_unsent_def)

lemma ledger_lost: "ledger (count_lost p) = ledger p + 1"
  by (simp add: ledger_def settled_def count_lost_def)

lemma ledger_answer: "ledger (count_answer ok p) = ledger p + 1"
  by (simp add: ledger_def settled_def count_answer_def)

lemma ledger_remove:
  assumes "ids_ok p" "rpc_id \<in> fst ` set (pending_shares p)"
  shows "ledger (remove_pending rpc_id p) + 1 = ledger p"
proof -
  have "Suc (length (AList.delete rpc_id (pending_shares p))) = length (pending_shares p)"
    using assms by (intro length_delete_once) (simp_all add: ids_ok_def)
  then have "of_nat (length (pending_shares p)) =
      (of_nat (length (AList.delete rpc_id (pending_shares p))) + 1 :: u32)"
    by (metis of_nat_Suc add.commute)
  then show ?thesis by (simp add: ledger_def settled_def remove_pending_def)
qed

lemma ledger_take: "ledger (snd (take_pending p)) + of_nat (length (fst (take_pending p))) = ledger p"
  by (simp add: ledger_def settled_def take_pending_def)

lemma foldl_count_lost:
  "foldl (\<lambda>p _. count_lost p) p xs = p\<lparr>lost_shares := lost_shares p + of_nat (length xs)\<rparr>"
  by (induction xs arbitrary: p) (simp_all add: count_lost_def algebra_simps)

lemma drain_pending_shares_eq:
  "drain_pending_shares p =
     p\<lparr>pending_shares := [], lost_shares := lost_shares p + of_nat (length (pending_shares p))\<rparr>"
  by (simp add: drain_pending_shares_def take_pending_def foldl_count_lost)

lemma ledger_drain: "ledger (drain_pending_shares p) = ledger p"
  by (simp add: drain_pending_shares_eq ledger_def settled_def)

lemma ledger_take_answer: "ids_ok p \<Longrightarrow> ledger (take_answer api msg p) = ledger p"
  by (auto simp: take_answer_def ledger_answer intro!: ledger_remove
      dest: map_of_SomeD intro: rev_image_eqI split: option.splits)

end
