(* ===== verification/Miner_Share.thy ===== *)
theory Miner_Share
  imports Pool_Shares Vm_Hash_Props
begin

text \<open>
  \<open>src/miner.rs\<close>: what a worker decides about one hash. The nonce is written into the blob,
  the hash is compared with the target, and a candidate share is checked on the reference
  path by a \<open>ShareVerifier\<close> before it is submitted. The operations the miner calls on a
  \<open>RandomXVm\<close> are an interface: the locale \<open>reference_hasher\<close> has the laws of the reference
  path, which says something about a hash only on a VM whose native loop is off; \<open>hasher\<close> adds
  those of the pipelined mining path, and the model of \<open>vm.rs\<close> interprets both. What is shown with
  the smaller locale holds whatever the mining path and a VM with the native loop on compute.
\<close>

section \<open>Nonce and target\<close>

text \<open>\<open>write_nonce_le\<close>; indexing a blob shorter than 43 bytes panics.\<close>

definition write_nonce_le :: "bytes \<Rightarrow> u32 \<Rightarrow> bytes option" where
  "write_nonce_le blob nonce =
     (if 43 \<le> length blob then Some (splice 39 (le_bytes 4 nonce) blob) else None)"

definition meets_target :: "bytes \<Rightarrow> bytes \<Rightarrow> bool" where
  "meets_target hash target =
     (if 8 \<le> length target then
        (let target_val = from_le (take 8 target) :: u64 in
         if target_val = 0 then False else (from_le (slice 24 8 hash) :: u64) \<le> target_val)
      else if 4 \<le> length target then
        (let target_val = from_le (take 4 target) :: u32 in
         if target_val = 0 then False else (from_le (slice 28 4 hash) :: u32) \<le> target_val)
      else False)"

text \<open>\<open>is_new_job\<close>: identity of the \<open>Arc\<close>, not of its content.\<close>

definition is_new_job :: "arc_job option \<Rightarrow> arc_job \<Rightarrow> bool" where
  "is_new_job cached fetched \<longleftrightarrow>
     \<not> (case cached of Some c \<Rightarrow> arc_ptr c = arc_ptr fetched | None \<Rightarrow> False)"

section \<open>The verdict\<close>

datatype share_verdict = Submit_Unverified | Submit_Verified | Submit_Verifier_Unavailable | Withhold

fun should_submit :: "share_verdict \<Rightarrow> bool" where
  "should_submit Withhold = False"
| "should_submit _ = True"

definition classify_share :: "bool \<Rightarrow> bytes \<Rightarrow> bytes option \<Rightarrow> share_verdict" where
  "classify_share verification_applies mined ref =
     (if \<not> verification_applies then Submit_Unverified
      else case ref of
        None \<Rightarrow> Submit_Verifier_Unavailable
      | Some r \<Rightarrow> if r = mined then Submit_Verified else Withhold)"

section \<open>The interface of RandomXVm\<close>

type_synonym dataset = "u64 list list"

record 'vm vm_ops =
  op_new_full :: "bytes \<Rightarrow> dataset \<Rightarrow> 'vm option"
  op_reinit :: "'vm \<Rightarrow> bytes \<Rightarrow> dataset \<Rightarrow> 'vm option"
  op_set_native_loop :: "bool \<Rightarrow> 'vm \<Rightarrow> 'vm"
  op_native_loop_effective :: "'vm \<Rightarrow> bool"
  op_prepare_scratchpad :: "'vm \<Rightarrow> bytes \<Rightarrow> 'vm option"
  op_calculate_hash_pipelined :: "'vm \<Rightarrow> bytes \<Rightarrow> (bytes \<times> 'vm) option"
  op_calculate_hash :: "'vm \<Rightarrow> bytes \<Rightarrow> (bytes \<times> 'vm) option"

text \<open>\<open>vm_for vm ds\<close>: the VM is in order and hashes against the dataset \<open>ds\<close>; \<open>native_off vm\<close>: its
  native loop is off; \<open>digest ds input\<close> is the hash and \<open>gen_ds seed\<close> the dataset of a seed.\<close>

locale reference_hasher =
  fixes ops :: "'vm vm_ops"
    and data_ok :: "dataset \<Rightarrow> bool"
    and vm_for :: "'vm \<Rightarrow> dataset \<Rightarrow> bool"
    and native_off :: "'vm \<Rightarrow> bool"
    and digest :: "dataset \<Rightarrow> bytes \<Rightarrow> bytes option"
    and gen_ds :: "bytes \<Rightarrow> dataset option"
  assumes gen_law: "gen_ds seed = Some ds \<Longrightarrow> data_ok ds"
    and new_full_law: "data_ok ds \<Longrightarrow> op_new_full ops key ds = Some vm \<Longrightarrow> vm_for vm ds"
    and reinit_law: "vm_for vm ds' \<Longrightarrow> data_ok ds \<Longrightarrow> op_reinit ops vm key ds = Some vm' \<Longrightarrow> vm_for vm' ds"
    and set_native_loop_law: "vm_for vm ds \<Longrightarrow> vm_for (op_set_native_loop ops enabled vm) ds"
    and native_off_law: "native_off (op_set_native_loop ops False vm)"
    and calculate_hash_law: "vm_for vm ds \<Longrightarrow> native_off vm \<Longrightarrow>
      \<exists>h vm'. op_calculate_hash ops vm input = Some (h, vm') \<and> digest ds input = Some h \<and>
        vm_for vm' ds \<and> native_off vm'"

text \<open>The mining path: \<open>prepared_with vm input\<close> says that the scratchpad holds \<open>input\<close>.\<close>

locale hasher = reference_hasher ops data_ok vm_for native_off digest gen_ds
  for ops :: "'vm vm_ops" and data_ok :: "dataset \<Rightarrow> bool" and vm_for :: "'vm \<Rightarrow> dataset \<Rightarrow> bool"
    and native_off :: "'vm \<Rightarrow> bool" and digest :: "dataset \<Rightarrow> bytes \<Rightarrow> bytes option"
    and gen_ds :: "bytes \<Rightarrow> dataset option" +
  fixes prepared_with :: "'vm \<Rightarrow> bytes \<Rightarrow> bool"
  assumes prepare_law: "vm_for vm ds \<Longrightarrow>
      \<exists>vm'. op_prepare_scratchpad ops vm input = Some vm' \<and> vm_for vm' ds \<and> prepared_with vm' input"
    and pipelined_law: "vm_for vm ds \<Longrightarrow> prepared_with vm input \<Longrightarrow>
      \<exists>h vm'. op_calculate_hash_pipelined ops vm following = Some (h, vm') \<and>
        digest ds input = Some h \<and> vm_for vm' ds \<and> prepared_with vm' following"

text \<open>A VM can be made for the usable seeds and for no others.\<close>

locale total_hasher = hasher ops data_ok vm_for native_off digest gen_ds prepared_with
  for ops :: "'vm vm_ops" and data_ok :: "dataset \<Rightarrow> bool" and vm_for :: "'vm \<Rightarrow> dataset \<Rightarrow> bool"
    and native_off :: "'vm \<Rightarrow> bool" and digest :: "dataset \<Rightarrow> bytes \<Rightarrow> bytes option"
    and gen_ds :: "bytes \<Rightarrow> dataset option" and prepared_with :: "'vm \<Rightarrow> bytes \<Rightarrow> bool" +
  fixes usable :: "bytes \<Rightarrow> bool"
  assumes gen_total: "usable seed \<Longrightarrow> \<exists>ds. gen_ds seed = Some ds"
    and new_full_total: "op_new_full ops seed ds = None \<longleftrightarrow> \<not> usable seed"
    and reinit_total: "op_reinit ops vm seed ds = None \<longleftrightarrow> \<not> usable seed"

section \<open>RandomXVm as the model has it\<close>

text \<open>A worker's thread enters every operation with the control word \<open>fp_control\<close>: the hash functions
  restore it (\<open>calculate_hash_gen\<close>), and nothing else in the loop touches it.\<close>

definition rx_hash_result :: "(bytes \<times> random_x_vm \<times> u32) option \<Rightarrow> (bytes \<times> random_x_vm) option" where
  "rx_hash_result r = map_option (\<lambda>(h, vm, c). (h, vm)) r"

definition rx_ops ::
  "fpu \<Rightarrow> cpu \<Rightarrow> placement \<Rightarrow> u32 \<Rightarrow> nat \<Rightarrow> jit_compiler option \<Rightarrow> random_x_vm vm_ops" where
  "rx_ops fpu cpu pl fp_control fuel jit =
     \<lparr>op_new_full = (\<lambda>key ds. new_full_versioned fuel jit key ds V1),
      op_reinit = (\<lambda>vm key ds. reinit fuel vm key (Some ds)),
      op_set_native_loop = set_native_loop,
      op_native_loop_effective = native_loop_effective cpu,
      op_prepare_scratchpad = prepare_scratchpad cpu,
      op_calculate_hash_pipelined = (\<lambda>vm b. rx_hash_result (calculate_hash_pipelined fpu cpu pl vm fp_control b)),
      op_calculate_hash = (\<lambda>vm b. rx_hash_result (calculate_hash fpu cpu pl vm fp_control b))\<rparr>"

definition rx_vm_for :: "random_x_vm \<Rightarrow> dataset \<Rightarrow> bool" where
  "rx_vm_for vm ds \<longleftrightarrow> vm_ok vm \<and> vm_dataset vm = Some ds \<and> vm_version vm = V1"

definition rx_native_off :: "random_x_vm \<Rightarrow> bool" where
  "rx_native_off vm \<longleftrightarrow> \<not> vm_use_native_loop vm"

definition rx_digest :: "fpu \<Rightarrow> cpu \<Rightarrow> dataset \<Rightarrow> bytes \<Rightarrow> bytes option" where
  "rx_digest fpu cpu ds input = hash_with_items fpu cpu V1 (dataset_line [] [] (Some ds)) input"

lemma dataset_line_full: "dataset_line cache programs (Some ds) = dataset_line [] [] (Some ds)"
  by (simp add: dataset_line_def fun_eq_iff)

lemma rx_vm_for_key:
  "vm_key vm' = vm_key vm \<Longrightarrow> vm_ok vm' \<Longrightarrow> rx_vm_for vm ds \<Longrightarrow> rx_vm_for vm' ds"
  by (simp add: rx_vm_for_def vm_key_def)

lemma vm_key_native: "vm_key vm' = vm_key vm \<Longrightarrow> vm_use_native_loop vm' = vm_use_native_loop vm"
  by (simp add: vm_key_def)

lemma rx_digest_vm:
  "rx_vm_for vm ds \<Longrightarrow>
     hash_with_items fpu cpu (vm_version vm) (vm_item vm) input = rx_digest fpu cpu ds input"
  by (simp add: rx_vm_for_def rx_digest_def vm_item_def dataset_line_full [of "vm_cache_memory vm"])

text \<open>The generation in \<open>get_or_generate_dataset\<close>: a light VM for the seed lends its cache and
  its programs.\<close>

definition make_dataset :: "nat \<Rightarrow> jit_compiler option \<Rightarrow> nat \<Rightarrow> bytes \<Rightarrow> dataset option" where
  "make_dataset fuel jit num_cpus seed_hash = do {
     vm \<leftarrow> new_versioned fuel jit seed_hash V1;
     let (cache_memory, ss_programs) = cache_and_programs vm;
     generate cache_memory ss_programs num_cpus
   }"

lemma make_dataset_ok: "make_dataset fuel jit num_cpus seed = Some ds \<Longrightarrow> dataset_ok ds"
proof -
  assume "make_dataset fuel jit num_cpus seed = Some ds"
  then obtain vm where vm: "new_versioned fuel jit seed V1 = Some vm"
      "generate (vm_cache_memory vm) (vm_ss_programs vm) num_cpus = Some ds"
    by (auto simp: make_dataset_def cache_and_programs_def split: Option.bind_splits)
  have "cache_ok (vm_cache_memory vm) \<and> programs_ok (vm_ss_programs vm)"
    using vm(1) by (auto simp: new_versioned_def vm_fresh_def split: Option.bind_splits
        dest: argon2d_cache_cache_ok key_programs_ok)
  then show "dataset_ok ds"
    using generate_ok [of "vm_cache_memory vm" "vm_ss_programs vm" num_cpus] vm(2) by simp
qed

interpretation rx: hasher "rx_ops fpu cpu pl c fuel jit" dataset_ok rx_vm_for rx_native_off "rx_digest fpu cpu"
  "make_dataset fuel jit num_cpus" prepared
  for fpu cpu pl c fuel jit num_cpus
proof
  fix seed ds
  assume "make_dataset fuel jit num_cpus seed = Some ds"
  then show "dataset_ok ds" by (rule make_dataset_ok)
next
  fix ds key vm
  assume "dataset_ok ds" "op_new_full (rx_ops fpu cpu pl c fuel jit) key ds = Some vm"
  then have n: "new_full_versioned fuel jit key ds V1 = Some vm" by (simp add: rx_ops_def)
  then have "vm_ok vm" using \<open>dataset_ok ds\<close> by (intro new_full_ok)
  then show "rx_vm_for vm ds" using n
    by (auto simp: rx_vm_for_def new_full_versioned_def vm_fresh_def split: Option.bind_splits)
next
  fix vm ds' ds key vm'
  assume "rx_vm_for vm ds'" "dataset_ok ds" "op_reinit (rx_ops fpu cpu pl c fuel jit) vm key ds = Some vm'"
  then have r: "reinit fuel vm key (Some ds) = Some vm'" "vm_ok vm" "vm_version vm = V1"
    by (simp_all add: rx_ops_def rx_vm_for_def)
  then have "vm_ok vm'" using \<open>dataset_ok ds\<close> by (auto intro: reinit_ok)
  then show "rx_vm_for vm' ds" using r
    by (auto simp: rx_vm_for_def reinit_def split: Option.bind_splits)
next
  fix vm ds enabled
  assume "rx_vm_for vm ds"
  then show "rx_vm_for (op_set_native_loop (rx_ops fpu cpu pl c fuel jit) enabled vm) ds"
    by (auto simp: rx_vm_for_def rx_ops_def set_native_loop_def vm_ok_def)
next
  fix vm
  show "rx_native_off (op_set_native_loop (rx_ops fpu cpu pl c fuel jit) False vm)"
    by (simp add: rx_native_off_def rx_ops_def set_native_loop_def)
next
  fix vm ds input
  assume v: "rx_vm_for vm ds" and off: "rx_native_off vm"
  from v have "vm_ok vm" by (simp add: rx_vm_for_def)
  from calculate_hash_gen [OF this, of fpu cpu pl c input] v off
  show "\<exists>h vm'. op_calculate_hash (rx_ops fpu cpu pl c fuel jit) vm input = Some (h, vm') \<and>
      rx_digest fpu cpu ds input = Some h \<and> rx_vm_for vm' ds \<and> rx_native_off vm'"
    by (auto simp: rx_ops_def rx_hash_result_def rx_digest_vm [symmetric] rx_native_off_def dest: vm_key_native
        intro: rx_vm_for_key)
next
  fix vm ds input
  assume v: "rx_vm_for vm ds"
  then have "vm_ok vm" by (simp add: rx_vm_for_def)
  from prepare_scratchpad_gen [OF this, of cpu input] v
  show "\<exists>vm'. op_prepare_scratchpad (rx_ops fpu cpu pl c fuel jit) vm input = Some vm' \<and>
      rx_vm_for vm' ds \<and> prepared vm' input"
    by (auto simp: rx_ops_def prepared_def intro: rx_vm_for_key)
next
  fix vm ds input following
  assume v: "rx_vm_for vm ds" and p: "prepared vm input"
  from calculate_hash_pipelined_gen [OF p, of fpu cpu pl c following] v
  show "\<exists>h vm'. op_calculate_hash_pipelined (rx_ops fpu cpu pl c fuel jit) vm following = Some (h, vm') \<and>
      rx_digest fpu cpu ds input = Some h \<and> rx_vm_for vm' ds \<and> prepared vm' following"
    by (auto simp: rx_ops_def rx_hash_result_def rx_digest_vm [symmetric] prepared_def
        intro: rx_vm_for_key)
qed

text \<open>A seed is usable when the generation of its eight programs ends within the bound; the
  cache and the dataset always exist.\<close>

definition seed_usable :: "nat \<Rightarrow> bytes \<Rightarrow> bool" where
  "seed_usable fuel seed \<longleftrightarrow> key_programs fuel seed \<noteq> None"

lemma make_dataset_total: "seed_usable fuel seed \<Longrightarrow> \<exists>ds. make_dataset fuel jit num_cpus seed = Some ds"
proof -
  assume "seed_usable fuel seed"
  then obtain ps where ps: "key_programs fuel seed = Some ps" by (auto simp: seed_usable_def)
  obtain c where c: "argon2d_cache seed = Some c" using argon2d_cache_ok [of seed] by (auto simp: returns_iff)
  have "cache_ok c" "programs_ok ps" using c ps by (auto dest: argon2d_cache_cache_ok key_programs_ok)
  from generate_ok [OF this, of num_cpus] show ?thesis using c ps
    by (auto simp: make_dataset_def new_versioned_def cache_and_programs_def vm_fresh_def returns_iff)
qed

interpretation rx: total_hasher "rx_ops fpu cpu pl c fuel jit" dataset_ok rx_vm_for rx_native_off
  "rx_digest fpu cpu" "make_dataset fuel jit num_cpus" prepared "seed_usable fuel"
  for fpu cpu pl c fuel jit num_cpus
  by unfold_locales
    (auto simp: make_dataset_total rx_ops_def new_full_versioned_def reinit_def seed_usable_def
      split: Option.bind_splits)

text \<open>The reference path alone, with anything at all for the mining path and for the hashes of a VM
  whose native loop is on.\<close>

definition with_mining_path ::
  "(random_x_vm \<Rightarrow> bytes \<Rightarrow> random_x_vm option) \<Rightarrow> (random_x_vm \<Rightarrow> bytes \<Rightarrow> (bytes \<times> random_x_vm) option) \<Rightarrow>
     (random_x_vm \<Rightarrow> bytes \<Rightarrow> (bytes \<times> random_x_vm) option) \<Rightarrow> random_x_vm vm_ops \<Rightarrow> random_x_vm vm_ops"
  where
  "with_mining_path prep pipe native ops =
     ops\<lparr>op_prepare_scratchpad := prep, op_calculate_hash_pipelined := pipe,
         op_calculate_hash := (\<lambda>vm b. if vm_use_native_loop vm then native vm b else op_calculate_hash ops vm b)\<rparr>"

interpretation any: reference_hasher "with_mining_path prep pipe native (rx_ops fpu cpu pl c fuel jit)"
  dataset_ok rx_vm_for rx_native_off "rx_digest fpu cpu" "make_dataset fuel jit num_cpus"
  for prep pipe native fpu cpu pl c fuel jit num_cpus
  by unfold_locales
    (use rx.gen_law rx.new_full_law rx.reinit_law rx.set_native_loop_law rx.native_off_law rx.calculate_hash_law in
      \<open>auto simp: with_mining_path_def rx_native_off_def\<close>)

section \<open>ShareVerifier\<close>

record 'vm share_verifier =
  sv_vm :: "'vm option"
  sv_dataset :: "dataset option"
  sv_key :: bytes
  sv_enabled :: bool

definition verifier_new :: "bool \<Rightarrow> 'vm share_verifier" where
  "verifier_new enabled = \<lparr>sv_vm = None, sv_dataset = None, sv_key = [], sv_enabled = enabled\<rparr>"

definition rekey :: "bytes \<Rightarrow> dataset \<Rightarrow> 'vm share_verifier \<Rightarrow> 'vm share_verifier" where
  "rekey key ds v = v\<lparr>sv_vm := None, sv_dataset := Some ds, sv_key := key\<rparr>"

text \<open>\<open>reference\<close>. The outer option is a panic of the VM, the inner one that verification does
  not apply.\<close>

definition reference_hash ::
  "'vm vm_ops \<Rightarrow> bytes \<Rightarrow> 'vm share_verifier \<Rightarrow> (bytes option \<times> 'vm share_verifier) option" where
  "reference_hash ops blob v =
     (if \<not> sv_enabled v then Some (None, v)
      else case sv_dataset v of
        None \<Rightarrow> Some (None, v)
      | Some ds \<Rightarrow> do {
          vm \<leftarrow> (case sv_vm v of
                   Some vm \<Rightarrow> Some vm
                 | None \<Rightarrow> map_option (op_set_native_loop ops False) (op_new_full ops (sv_key v) ds));
          (h, vm) \<leftarrow> op_calculate_hash ops vm blob;
          Some (Some h, v\<lparr>sv_vm := Some vm\<rparr>)
        })"

definition set_enabled :: "bool \<Rightarrow> 'vm share_verifier \<Rightarrow> 'vm share_verifier" where
  "set_enabled enabled v = v\<lparr>sv_enabled := enabled\<rparr>"

context reference_hasher
begin

text \<open>A cached VM is one for the verifier's dataset, with the native loop off.\<close>

definition verifier_ok :: "'vm share_verifier \<Rightarrow> bool" where
  "verifier_ok v \<longleftrightarrow>
     (\<forall>ds. sv_dataset v = Some ds \<longrightarrow> data_ok ds \<and> (\<forall>vm. sv_vm v = Some vm \<longrightarrow> vm_for vm ds \<and> native_off vm))"

lemma verifier_new_ok: "verifier_ok (verifier_new enabled)"
  by (simp add: verifier_ok_def verifier_new_def)

lemma rekey_ok: "data_ok ds \<Longrightarrow> verifier_ok (rekey key ds v)"
  by (simp add: verifier_ok_def rekey_def)

lemma set_enabled_ok: "verifier_ok v \<Longrightarrow> verifier_ok (set_enabled enabled v)"
  by (simp add: verifier_ok_def set_enabled_def)

lemma reference_hash_gen:
  assumes "verifier_ok v" "reference_hash ops blob v = Some (r, v')"
  shows "verifier_ok v' \<and> sv_dataset v' = sv_dataset v \<and> sv_enabled v' = sv_enabled v \<and>
    r = (if sv_enabled v then Option.bind (sv_dataset v) (\<lambda>ds. digest ds blob) else None)"
proof (cases "sv_enabled v \<and> sv_dataset v \<noteq> None")
  case False
  then show ?thesis using assms by (auto simp: reference_hash_def)
next
  case True
  then obtain ds where ds: "sv_dataset v = Some ds" "sv_enabled v" by auto
  obtain vm h vm' where vm: "sv_vm v = Some vm \<or>
        (\<exists>w. op_new_full ops (sv_key v) ds = Some w \<and> vm = op_set_native_loop ops False w)"
      and h: "op_calculate_hash ops vm blob = Some (h, vm')" "r = Some h" "v' = v\<lparr>sv_vm := Some vm'\<rparr>"
    using assms(2) ds by (auto simp: reference_hash_def split: Option.bind_splits option.splits)
  have ok: "data_ok ds" using assms(1) ds by (simp add: verifier_ok_def)
  have "vm_for vm ds \<and> native_off vm" using vm assms(1) ds ok
    by (auto simp: verifier_ok_def intro: set_native_loop_law native_off_law new_full_law)
  then have "digest ds blob = Some h \<and> vm_for vm' ds \<and> native_off vm'"
    using calculate_hash_law [of vm ds blob] h(1) by auto
  then show ?thesis using ds h ok by (simp add: verifier_ok_def)
qed

end

end
