(* ===== verification/Miner_Worker.thy ===== *)
theory Miner_Worker
  imports Complex_Main Miner_Share
begin

text \<open>
  \<open>src/miner.rs\<close>: \<open>worker_loop\<close>. One iteration is cut into the parts the code has: take up a
  new job, follow the seed, hash one nonce, note the hash, check a candidate share, flush the
  hash counter. The VM operations and the generation of a dataset are the interface of
  \<open>Miner_Share\<close>; the clock is a parameter, a panic is \<open>None\<close>, log lines are left out.
  The invariants follow in the two locales: \<open>worker_ok\<close> with the reference path alone,
  \<open>mining_ok\<close> when the mining path is right as well.
\<close>

section \<open>State\<close>

record worker_config =
  cfg_thread_id :: u32
  cfg_thread_count :: u32
  cfg_native_loop :: bool
  cfg_verify_shares :: bool

record mining_stats =
  best_hash_val :: u32
  current_difficulty :: u64
  shares_found :: u64
  last_share_time_ms :: u64
  start_time_ms :: u64
  verify_failures :: u64

text \<open>\<open>DatasetCache\<close> behind its mutex: the seed and its dataset.\<close>

type_synonym dataset_cache = "(bytes \<times> dataset) option"

text \<open>What the workers share besides the connection. The hashrate is the quotient itself, not
  its rounding to a double.\<close>

record shared =
  sh_cache :: dataset_cache
  sh_stats :: mining_stats
  sh_total_hashes :: u64
  sh_hashrate :: rat

text \<open>The locals of \<open>worker_loop\<close>.\<close>

record 'vm worker =
  w_vm :: "'vm option"
  w_key :: bytes
  w_job :: "arc_job option"
  w_cur :: bytes
  w_next :: bytes
  w_warned :: bool
  w_nonce :: u64
  w_local :: u64
  w_ready :: bool
  w_verifier :: "'vm share_verifier"
  w_reported :: bool

definition worker_start :: "worker_config \<Rightarrow> 'vm worker" where
  "worker_start cfg =
     \<lparr>w_vm = None, w_key = [], w_job = None, w_cur = [], w_next = [], w_warned = False,
      w_nonce = ucast (cfg_thread_id cfg), w_local = 0, w_ready = False,
      w_verifier = verifier_new False, w_reported = False\<rparr>"

text \<open>A share for \<open>submit_share\<close>: the job, the nonce bytes of the blob, the hash, and the verdict
  that let it pass.\<close>

record found_share =
  fs_job :: arc_job
  fs_nonce :: bytes
  fs_hash :: bytes
  fs_verdict :: share_verdict

section \<open>get_or_generate_dataset\<close>

text \<open>The mutex is held to the end, so the function is atomic. \<open>gen_ds\<close> is the generation.\<close>

definition get_or_generate_dataset ::
  "(bytes \<Rightarrow> dataset option) \<Rightarrow> bytes \<Rightarrow> dataset_cache \<Rightarrow> (dataset \<times> dataset_cache) option" where
  "get_or_generate_dataset gen_ds seed_hash guard =
     (case (case guard of Some (s, ds) \<Rightarrow> if s = seed_hash then Some ds else None | None \<Rightarrow> None) of
        Some ds \<Rightarrow> Some (ds, guard)
      | None \<Rightarrow> do { ds \<leftarrow> gen_ds seed_hash; Some (ds, Some (seed_hash, ds)) })"

section \<open>The parts of an iteration\<close>

definition note_job :: "arc_job \<Rightarrow> 'vm worker \<Rightarrow> 'vm worker" where
  "note_job a w =
     (if is_new_job (w_job w) a
      then w\<lparr>w_job := Some a, w_ready := False, w_warned := False,
             w_cur := job_blob (arc_val a), w_next := job_blob (arc_val a)\<rparr>
      else w)"

definition follow_seed ::
  "'vm vm_ops \<Rightarrow> (bytes \<Rightarrow> dataset option) \<Rightarrow> worker_config \<Rightarrow> bytes \<Rightarrow> 'vm worker \<Rightarrow>
     dataset_cache \<Rightarrow> ('vm worker \<times> dataset_cache) option" where
  "follow_seed ops gen_ds cfg seed_hash w cache =
     (if seed_hash \<noteq> w_key w \<or> Option.is_none (w_vm w) then do {
        (ds, cache) \<leftarrow> get_or_generate_dataset gen_ds seed_hash cache;
        vm \<leftarrow> (case w_vm w of
                 Some existing_vm \<Rightarrow> op_reinit ops existing_vm seed_hash ds
               | None \<Rightarrow> map_option (op_set_native_loop ops (cfg_native_loop cfg))
                           (op_new_full ops seed_hash ds));
        let native_effective = op_native_loop_effective ops vm;
        Some (w\<lparr>w_vm := Some vm,
                w_verifier := set_enabled (cfg_verify_shares cfg \<and> native_effective)
                                (rekey seed_hash ds (w_verifier w)),
                w_reported := True, w_key := seed_hash, w_ready := False\<rparr>, cache)
      } else Some (w, cache))"

definition hash_once ::
  "'vm vm_ops \<Rightarrow> worker_config \<Rightarrow> 'vm worker \<Rightarrow> (bytes \<times> 'vm worker) option" where
  "hash_once ops cfg w = do {
     rx_vm \<leftarrow> w_vm w;
     let next_nonce = w_nonce w + ucast (cfg_thread_count cfg);
     cur \<leftarrow> write_nonce_le (w_cur w) (ucast (w_nonce w));
     nxt \<leftarrow> write_nonce_le (w_next w) (ucast next_nonce);
     rx_vm \<leftarrow> (if w_ready w then Some rx_vm else op_prepare_scratchpad ops rx_vm cur);
     (hash, rx_vm) \<leftarrow> op_calculate_hash_pipelined ops rx_vm nxt;
     Some (hash, w\<lparr>w_vm := Some rx_vm, w_cur := cur, w_next := nxt, w_ready := True,
                   w_local := w_local w + 1, w_nonce := next_nonce\<rparr>)
   }"

definition note_hash :: "bytes \<Rightarrow> bytes \<Rightarrow> mining_stats \<Rightarrow> mining_stats" where
  "note_hash hash target stats =
     (let hash_val = from_le (slice 28 4 hash) :: u32;
          stats = (if hash_val < best_hash_val stats then stats\<lparr>best_hash_val := hash_val\<rparr> else stats);
          difficulty = target_to_difficulty target
      in if 0 < difficulty then stats\<lparr>current_difficulty := difficulty\<rparr> else stats)"

definition check_share ::
  "'vm vm_ops \<Rightarrow> u64 \<Rightarrow> arc_job \<Rightarrow> bytes \<Rightarrow> 'vm worker \<Rightarrow> mining_stats \<Rightarrow>
     (found_share option \<times> 'vm worker \<times> mining_stats) option" where
  "check_share ops now_ms a hash w stats =
     (if \<not> meets_target hash (job_target (arc_val a)) then Some (None, w, stats)
      else do {
        let stats = stats\<lparr>shares_found := shares_found stats + 1, last_share_time_ms := now_ms\<rparr>;
        (ref, v) \<leftarrow> reference_hash ops (w_cur w) (w_verifier w);
        let verdict = classify_share (sv_enabled v) hash ref;
        let stats = (if verdict = Withhold
                     then stats\<lparr>verify_failures := verify_failures stats + 1\<rparr> else stats);
        Some (if should_submit verdict
              then Some \<lparr>fs_job = a, fs_nonce = slice 39 4 (w_cur w), fs_hash = hash,
                         fs_verdict = verdict\<rparr>
              else None, w\<lparr>w_verifier := v\<rparr>, stats)
      })"

text \<open>The clock at the end of an iteration: whether five seconds have passed since the last
  flush, and the seconds since the worker's start.\<close>

record turn_env =
  env_now_ms :: u64
  env_flush_due :: bool
  env_elapsed :: rat

definition flush_hashes ::
  "worker_config \<Rightarrow> turn_env \<Rightarrow> 'vm worker \<Rightarrow> shared \<Rightarrow> 'vm worker \<times> shared" where
  "flush_hashes cfg env w sh =
     (if env_flush_due env then
        (let sh = sh\<lparr>sh_total_hashes := sh_total_hashes sh + w_local w\<rparr>;
             w = w\<lparr>w_local := 0\<rparr>;
             sh = (if cfg_thread_id cfg = 0 \<and> 0 < env_elapsed env
                   then sh\<lparr>sh_hashrate := of_nat (unat (sh_total_hashes sh)) / env_elapsed env\<rparr>
                   else sh)
         in (w, sh))
      else (w, sh))"

section \<open>worker_loop\<close>

text \<open>The body of the loop once \<open>get_work\<close> has given a job, up to the call of \<open>submit_share\<close>;
  the hash is absent for a malformed job, which is skipped.\<close>

definition worker_iteration ::
  "'vm vm_ops \<Rightarrow> (bytes \<Rightarrow> dataset option) \<Rightarrow> worker_config \<Rightarrow> turn_env \<Rightarrow> arc_job \<Rightarrow> 'vm worker \<Rightarrow>
     shared \<Rightarrow> (bytes option \<times> found_share option \<times> 'vm worker \<times> shared) option" where
  "worker_iteration ops gen_ds cfg env a w sh = do {
     let w = note_job a w;
     (w, cache) \<leftarrow> follow_seed ops gen_ds cfg (job_seed_hash (arc_val a)) w (sh_cache sh);
     let sh = sh\<lparr>sh_cache := cache\<rparr>;
     if length (w_cur w) < 43 \<or> length (w_next w) < 43
     then Some (None, None, w\<lparr>w_warned := True\<rparr>, sh)
     else do {
       (hash, w) \<leftarrow> hash_once ops cfg w;
       let stats = note_hash hash (job_target (arc_val a)) (sh_stats sh);
       (found, w, stats) \<leftarrow> check_share ops (env_now_ms env) a hash w stats;
       let (w, sh) = flush_hashes cfg env w (sh\<lparr>sh_stats := stats\<rparr>);
       Some (Some hash, found, w, sh)
     }
   }"

text \<open>An iteration on the connection, undisturbed by the receiver; \<open>ans\<close> is the socket's answer
  to the write and \<open>now\<close> the time of the submission. The interleaved version is \<open>Miner_Rig\<close>.\<close>

definition submit_found ::
  "write_answer \<Rightarrow> nat \<Rightarrow> found_share \<Rightarrow> pool \<Rightarrow> (pool_error + unit) \<times> pool" where
  "submit_found ans now fs p =
     submit_share ans now (job_id (arc_val (fs_job fs))) (hex_encode (fs_nonce fs))
       (hex_encode (fs_hash fs)) (job_generation (arc_val (fs_job fs))) p"

definition worker_turn ::
  "'vm vm_ops \<Rightarrow> (bytes \<Rightarrow> dataset option) \<Rightarrow> worker_config \<Rightarrow> turn_env \<Rightarrow> write_answer \<Rightarrow> nat \<Rightarrow>
     'vm worker \<times> shared \<times> pool \<Rightarrow> ('vm worker \<times> shared \<times> pool) option" where
  "worker_turn ops gen_ds cfg env ans now = (\<lambda>(w, sh, p).
     case get_work p of
       None \<Rightarrow> Some (w, sh, p)
     | Some a \<Rightarrow> do {
         (h, found, w, sh) \<leftarrow> worker_iteration ops gen_ds cfg env a w sh;
         Some (w, sh, case found of None \<Rightarrow> p | Some fs \<Rightarrow> snd (submit_found ans now fs p))
       })"

text \<open>\<open>worker_loop\<close> for as long as \<open>mining_active\<close> stays set, one environment per iteration, with
  the flush at its end.\<close>

fun worker_loop ::
  "'vm vm_ops \<Rightarrow> (bytes \<Rightarrow> dataset option) \<Rightarrow> worker_config \<Rightarrow> (turn_env \<times> write_answer \<times> nat) list \<Rightarrow>
     'vm worker \<times> shared \<times> pool \<Rightarrow> ('vm worker \<times> shared \<times> pool) option" where
  "worker_loop ops gen_ds cfg [] (w, sh, p) =
     Some (w, sh\<lparr>sh_total_hashes := sh_total_hashes sh + w_local w\<rparr>, p)"
| "worker_loop ops gen_ds cfg ((env, ans, now) # rest) s =
     Option.bind (worker_turn ops gen_ds cfg env ans now s) (worker_loop ops gen_ds cfg rest)"

end
