(* ===== verification/Miner_Worker_Props.thy ===== *)
theory Miner_Worker_Props
  imports Miner_Worker
begin

text \<open>
  What a worker keeps: its blobs are the job's blob up to the nonce, its verifier holds the
  dataset of the current seed, and, when the mining path is right, its VM is one for that
  dataset and has the next nonce prepared. A share that comes out of an iteration meets the
  target and is the hash of the job's blob with the nonce it names.
\<close>

section \<open>The blob and its nonce\<close>

lemma write_nonce_le_Some: "(\<exists>b'. write_nonce_le b n = Some b') \<longleftrightarrow> 43 \<le> length b"
  by (simp add: write_nonce_le_def)

lemma write_nonce_le_slice: "write_nonce_le b n = Some b' \<Longrightarrow> slice 39 4 b' = le_bytes 4 n"
  by (auto simp: write_nonce_le_def splice_def slice_def split: if_splits)

text \<open>A later nonce replaces an earlier one.\<close>

lemma write_nonce_le_again:
  "write_nonce_le b m = Some b' \<Longrightarrow> write_nonce_le b' n = write_nonce_le b n"
  by (auto simp: write_nonce_le_def splice_def split: if_splits)

definition same_blob :: "bytes \<Rightarrow> bytes \<Rightarrow> bool" where
  "same_blob b blob \<longleftrightarrow> (\<forall>n. write_nonce_le b n = write_nonce_le blob n)"

lemma same_blob_refl [simp]: "same_blob b b"
  by (simp add: same_blob_def)

lemma same_blob_write: "same_blob b blob \<Longrightarrow> write_nonce_le b n = Some b' \<Longrightarrow> same_blob b' blob"
  by (simp add: same_blob_def write_nonce_le_again)

lemma same_blob_long: "same_blob b blob \<Longrightarrow> 43 \<le> length b \<longleftrightarrow> 43 \<le> length blob"
  by (metis same_blob_def write_nonce_le_Some)

definition blobs_ok :: "'vm worker \<Rightarrow> bool" where
  "blobs_ok w \<longleftrightarrow> (\<forall>a. w_job w = Some a \<longrightarrow>
     same_blob (w_cur w) (job_blob (arc_val a)) \<and> same_blob (w_next w) (job_blob (arc_val a)))"

text \<open>The job a worker keeps is alive, so an equal address means the same object.\<close>

definition same_object :: "arc_job option \<Rightarrow> arc_job \<Rightarrow> bool" where
  "same_object cached fetched \<longleftrightarrow> (\<forall>c. cached = Some c \<longrightarrow> arc_ptr c = arc_ptr fetched \<longrightarrow> c = fetched)"

definition takes_nonce :: "arc_job \<Rightarrow> bytes \<Rightarrow> u32 \<Rightarrow> bool" where
  "takes_nonce a blob n \<longleftrightarrow> write_nonce_le (job_blob (arc_val a)) n = Some blob"

lemma note_job_blobs:
  "blobs_ok w \<Longrightarrow> same_object (w_job w) a \<Longrightarrow>
     blobs_ok (note_job a w) \<and> w_job (note_job a w) = Some a"
  by (auto simp: note_job_def is_new_job_def blobs_ok_def same_object_def split: option.splits)

lemma note_job_frame [simp]:
  "w_vm (note_job a w) = w_vm w" "w_key (note_job a w) = w_key w"
  "w_nonce (note_job a w) = w_nonce w" "w_verifier (note_job a w) = w_verifier w"
  by (simp_all add: note_job_def)

section \<open>Frames of the parts\<close>

lemma follow_seed_frame:
  "follow_seed ops gen_ds cfg seed w cache = Some (w', cache') \<Longrightarrow>
     w_job w' = w_job w \<and> w_cur w' = w_cur w \<and> w_next w' = w_next w \<and> w_nonce w' = w_nonce w \<and>
     w_key w' = seed \<and> w_vm w' \<noteq> None"
  by (auto simp: follow_seed_def Let_def Option.is_none_def split: if_splits Option.bind_splits)

lemma hash_once_frame:
  "hash_once ops cfg w = Some (h, w') \<Longrightarrow>
     w_job w' = w_job w \<and> w_key w' = w_key w \<and> w_verifier w' = w_verifier w \<and>
     w_nonce w' = w_nonce w + ucast (cfg_thread_count cfg) \<and> w_vm w' \<noteq> None \<and> w_ready w' \<and>
     write_nonce_le (w_cur w) (ucast (w_nonce w)) = Some (w_cur w') \<and>
     write_nonce_le (w_next w) (ucast (w_nonce w')) = Some (w_next w')"
  by (auto simp: hash_once_def Let_def split: Option.bind_splits)

lemma hash_once_blobs: "hash_once ops cfg w = Some (h, w') \<Longrightarrow> blobs_ok w \<Longrightarrow> blobs_ok w'"
  unfolding blobs_ok_def by (metis hash_once_frame same_blob_write)

lemma flush_hashes_frame:
  "flush_hashes cfg env w sh = (w', sh') \<Longrightarrow>
     (\<exists>n. w' = w\<lparr>w_local := n\<rparr>) \<and> sh_cache sh' = sh_cache sh \<and> sh_stats sh' = sh_stats sh"
  by (auto simp: flush_hashes_def Let_def split: if_splits) (metis worker.surjective worker.update_convs(8))

lemma note_hash_counts [simp]:
  "shares_found (note_hash h t stats) = shares_found stats"
  "verify_failures (note_hash h t stats) = verify_failures stats"
  by (simp_all add: note_hash_def Let_def)

text \<open>A share that is let through.\<close>

lemma check_share_found:
  assumes "check_share ops now a h w stats = Some (found, w', stats')"
  shows "(w' = w \<and> found = None \<or>
      (\<exists>r v. reference_hash ops (w_cur w) (w_verifier w) = Some (r, v) \<and> w' = w\<lparr>w_verifier := v\<rparr> \<and>
        (\<forall>fs. found = Some fs \<longrightarrow> fs_verdict fs = classify_share (sv_enabled v) h r))) \<and>
    (\<forall>fs. found = Some fs \<longrightarrow> fs_job fs = a \<and> fs_hash fs = h \<and> fs_nonce fs = slice 39 4 (w_cur w) \<and>
      meets_target h (job_target (arc_val a)) \<and> should_submit (fs_verdict fs))"
  using assms by (auto simp: check_share_def Let_def split: if_splits Option.bind_splits)

text \<open>The two ways through an iteration.\<close>

lemma iteration_cases:
  assumes "worker_iteration ops gen_ds cfg env a w sh = Some (h, found, w', sh')"
  obtains (Skipped) w1 cache
    where "follow_seed ops gen_ds cfg (job_seed_hash (arc_val a)) (note_job a w) (sh_cache sh) = Some (w1, cache)"
      "h = None" "found = None" "w' = w1\<lparr>w_warned := True\<rparr>" "sh' = sh\<lparr>sh_cache := cache\<rparr>"
  | (Hashed) w1 cache g w2 w3 stats
    where "follow_seed ops gen_ds cfg (job_seed_hash (arc_val a)) (note_job a w) (sh_cache sh) = Some (w1, cache)"
      "43 \<le> length (w_cur w1)" "43 \<le> length (w_next w1)" "hash_once ops cfg w1 = Some (g, w2)"
      "check_share ops (env_now_ms env) a g w2 (note_hash g (job_target (arc_val a)) (sh_stats sh))
         = Some (found, w3, stats)"
      "flush_hashes cfg env w3 (sh\<lparr>sh_cache := cache, sh_stats := stats\<rparr>) = (w', sh')" "h = Some g"
  using assms
  by (auto simp: worker_iteration_def Let_def split: Option.bind_splits prod.splits if_splits)

section \<open>The reference path\<close>

definition cache_made :: "(bytes \<Rightarrow> dataset option) \<Rightarrow> dataset_cache \<Rightarrow> bool" where
  "cache_made gen_ds cache \<longleftrightarrow> (\<forall>s ds. cache = Some (s, ds) \<longrightarrow> gen_ds s = Some ds)"

lemma get_or_generate_dataset_gen:
  assumes "cache_made gen_ds cache" "get_or_generate_dataset gen_ds seed cache = Some (ds, cache')"
  shows "gen_ds seed = Some ds \<and> cache' = Some (seed, ds) \<and> cache_made gen_ds cache'"
  using assms
  by (auto simp: get_or_generate_dataset_def cache_made_def split: option.splits if_splits prod.splits
      Option.bind_splits)

text \<open>The right share: some nonce, the job's blob with it, the dataset of the job's seed, and the
  hash of that blob.\<close>

definition right_share ::
  "(bytes \<Rightarrow> dataset option) \<Rightarrow> (dataset \<Rightarrow> bytes \<Rightarrow> bytes option) \<Rightarrow> found_share \<Rightarrow> bool" where
  "right_share gen_ds digest fs \<longleftrightarrow> (\<exists>n blob ds.
     fs_nonce fs = le_bytes 4 n \<and> write_nonce_le (job_blob (arc_val (fs_job fs))) n = Some blob \<and>
     gen_ds (job_seed_hash (arc_val (fs_job fs))) = Some ds \<and> digest ds blob = Some (fs_hash fs))"

definition admissible :: "found_share \<Rightarrow> bool" where
  "admissible fs \<longleftrightarrow> meets_target (fs_hash fs) (job_target (arc_val (fs_job fs))) \<and>
     (fs_verdict fs = Submit_Verified \<or> fs_verdict fs = Submit_Unverified)"

lemma reference_hash_available:
  "reference_hash ops blob v = Some (r, v') \<Longrightarrow> sv_enabled v \<Longrightarrow> sv_dataset v \<noteq> None \<Longrightarrow> r \<noteq> None"
  by (auto simp: reference_hash_def split: Option.bind_splits)

context reference_hasher
begin

definition worker_ok :: "'vm worker \<Rightarrow> bool" where
  "worker_ok w \<longleftrightarrow> blobs_ok w \<and> verifier_ok (w_verifier w) \<and>
     (w_vm w \<noteq> None \<longrightarrow> (\<exists>ds. gen_ds (w_key w) = Some ds \<and> sv_dataset (w_verifier w) = Some ds))"

lemma worker_start_ok: "worker_ok (worker_start cfg)"
  by (simp add: worker_ok_def worker_start_def blobs_ok_def verifier_new_ok)

lemma note_job_ok:
  "worker_ok w \<Longrightarrow> same_object (w_job w) a \<Longrightarrow> worker_ok (note_job a w) \<and> w_job (note_job a w) = Some a"
  using note_job_blobs by (fastforce simp: worker_ok_def)

lemma follow_seed_ok:
  assumes w: "worker_ok w" and c: "cache_made gen_ds cache"
    and f: "follow_seed ops gen_ds cfg seed w cache = Some (w', cache')"
  shows "worker_ok w' \<and> cache_made gen_ds cache'"
proof (cases "seed \<noteq> w_key w \<or> Option.is_none (w_vm w)")
  case False
  then show ?thesis using assms by (simp add: follow_seed_def)
next
  case True
  then obtain ds vm where g: "get_or_generate_dataset gen_ds seed cache = Some (ds, cache')"
      and w': "w' = w\<lparr>w_vm := Some vm,
                w_verifier := set_enabled (cfg_verify_shares cfg \<and> op_native_loop_effective ops vm)
                                (rekey seed ds (w_verifier w)),
                w_reported := True, w_key := seed, w_ready := False\<rparr>"
    using f by (auto simp: follow_seed_def Let_def split: Option.bind_splits)
  have ds: "gen_ds seed = Some ds" "cache_made gen_ds cache'"
    using get_or_generate_dataset_gen [OF c g] by auto
  have "verifier_ok (w_verifier w')" using gen_law [OF ds(1)]
    by (simp add: w' set_enabled_ok rekey_ok)
  moreover have "sv_dataset (w_verifier w') = Some ds" by (simp add: w' set_enabled_def rekey_def)
  ultimately show ?thesis using w ds by (simp add: worker_ok_def blobs_ok_def w')
qed

lemma hash_once_ok: "worker_ok w \<Longrightarrow> hash_once ops cfg w = Some (h, w') \<Longrightarrow> w_vm w \<noteq> None \<Longrightarrow> worker_ok w'"
  using hash_once_blobs hash_once_frame by (fastforce simp: worker_ok_def)

text \<open>A verifier that is on compares with the hash of the reference path, and its verdict is
  right either way.\<close>

lemma check_share_verdict:
  assumes w: "worker_ok w" "w_vm w \<noteq> None"
    and c: "check_share ops now a h w stats = Some (found, w', stats')"
    and on: "sv_enabled (w_verifier w')" and t: "meets_target h (job_target (arc_val a))"
  shows "\<exists>ds g. gen_ds (w_key w) = Some ds \<and> digest ds (w_cur w) = Some g \<and>
    (if h = g then verify_failures stats' = verify_failures stats \<and>
       found = Some \<lparr>fs_job = a, fs_nonce = slice 39 4 (w_cur w), fs_hash = h, fs_verdict = Submit_Verified\<rparr>
     else verify_failures stats' = verify_failures stats + 1 \<and> found = None)"
proof -
  obtain r v where r: "reference_hash ops (w_cur w) (w_verifier w) = Some (r, v)" and w': "w' = w\<lparr>w_verifier := v\<rparr>"
    using c t by (auto simp: check_share_def Let_def split: Option.bind_splits)
  obtain ds where ds: "gen_ds (w_key w) = Some ds" "sv_dataset (w_verifier w) = Some ds"
    and v: "verifier_ok (w_verifier w)" using w by (auto simp: worker_ok_def)
  have v': "sv_enabled v" "r = digest ds (w_cur w)"
    using reference_hash_gen [OF v r] ds(2) on w' by auto
  obtain g where g: "r = Some g"
    using reference_hash_available [OF r] reference_hash_gen [OF v r] ds(2) v'(1) by auto
  then show ?thesis using c t r ds(1) v'
    by (auto simp: check_share_def classify_share_def Let_def)
qed

text \<open>A verdict of the verifier is about the hash of the reference path.\<close>

lemma check_share_ok:
  assumes w: "worker_ok w" "w_vm w \<noteq> None" and c: "check_share ops now a h w stats = Some (found, w', stats')"
  shows "worker_ok w' \<and> w' = w\<lparr>w_verifier := w_verifier w'\<rparr> \<and>
    (\<forall>fs. found = Some fs \<longrightarrow> admissible fs \<and> fs_job fs = a \<and> fs_hash fs = h \<and>
       fs_nonce fs = slice 39 4 (w_cur w) \<and> (fs_verdict fs = Submit_Unverified \<longrightarrow> \<not> sv_enabled (w_verifier w)) \<and>
       (fs_verdict fs = Submit_Verified \<longrightarrow>
          (\<exists>ds. gen_ds (w_key w) = Some ds \<and> digest ds (w_cur w) = Some h)))"
proof -
  note found = check_share_found [OF c]
  show ?thesis
  proof (cases "w' = w \<and> found = None")
    case True
    then show ?thesis using w by simp
  next
    case False
    then obtain r v where r: "reference_hash ops (w_cur w) (w_verifier w) = Some (r, v)"
        "w' = w\<lparr>w_verifier := v\<rparr>" "\<forall>fs. found = Some fs \<longrightarrow> fs_verdict fs = classify_share (sv_enabled v) h r"
      using found by blast
    obtain ds where ds: "gen_ds (w_key w) = Some ds" "sv_dataset (w_verifier w) = Some ds"
      and v: "verifier_ok (w_verifier w)" using w by (auto simp: worker_ok_def)
    have v': "verifier_ok v" "sv_dataset v = Some ds" "sv_enabled v = sv_enabled (w_verifier w)"
        "r = (if sv_enabled v then digest ds (w_cur w) else None)"
      using reference_hash_gen [OF v r(1)] ds(2) by auto
    have g: "sv_enabled v \<Longrightarrow> digest ds (w_cur w) \<noteq> None"
      using reference_hash_available [OF r(1)] v' ds(2) by simp
    have "worker_ok w'" using w(1) ds v' by (simp add: worker_ok_def r(2) blobs_ok_def)
    moreover have "admissible fs \<and> fs_job fs = a \<and> fs_hash fs = h \<and> fs_nonce fs = slice 39 4 (w_cur w) \<and>
        (fs_verdict fs = Submit_Unverified \<longrightarrow> \<not> sv_enabled (w_verifier w)) \<and>
        (fs_verdict fs = Submit_Verified \<longrightarrow> digest ds (w_cur w) = Some h)" if "found = Some fs" for fs
    proof -
      have f: "fs_job fs = a" "fs_hash fs = h" "fs_nonce fs = slice 39 4 (w_cur w)"
          "meets_target h (job_target (arc_val a))" "should_submit (fs_verdict fs)"
          "fs_verdict fs = classify_share (sv_enabled v) h r" using found r(3) that by blast+
      show ?thesis
      proof (cases "sv_enabled v")
        case False
        then show ?thesis using f v'(3) by (simp add: classify_share_def admissible_def)
      next
        case True
        then obtain d where "digest ds (w_cur w) = Some d" "r = Some d" using g v'(4) by auto
        then show ?thesis using f v'(3) True
          by (cases "d = h") (simp_all add: classify_share_def admissible_def)
      qed
    qed
    ultimately show ?thesis using r(2) ds(1) by (intro conjI allI impI) auto
  qed
qed

lemma iteration_ok:
  assumes w: "worker_ok w" "cache_made gen_ds (sh_cache sh)" "same_object (w_job w) a"
    and i: "worker_iteration ops gen_ds cfg env a w sh = Some (h, found, w', sh')"
  shows "worker_ok w' \<and> cache_made gen_ds (sh_cache sh') \<and> w_job w' = Some a \<and>
    (\<forall>fs. found = Some fs \<longrightarrow> admissible fs \<and> fs_job fs = a \<and>
       (fs_verdict fs = Submit_Verified \<longrightarrow> right_share gen_ds digest fs))"
proof -
  have n: "worker_ok (note_job a w)" "w_job (note_job a w) = Some a" using note_job_ok [OF w(1,3)] by auto
  note seed = follow_seed_ok [OF n(1) w(2)]
  from i show ?thesis
  proof (cases rule: iteration_cases)
    case (Skipped w1 cache)
    then show ?thesis using seed [OF Skipped(1)] follow_seed_frame [OF Skipped(1)] n(2)
      by (simp add: worker_ok_def blobs_ok_def)
  next
    case (Hashed w1 cache g w2 w3 stats)
    have w1: "worker_ok w1" "cache_made gen_ds cache" using seed [OF Hashed(1)] by auto
    have f1: "w_job w1 = Some a" "w_key w1 = job_seed_hash (arc_val a)" "w_vm w1 \<noteq> None"
      using follow_seed_frame [OF Hashed(1)] n(2) by auto
    have w2: "worker_ok w2" using hash_once_ok [OF w1(1) Hashed(4) f1(3)] .
    have f2: "w_job w2 = Some a" "w_key w2 = w_key w1" "w_vm w2 \<noteq> None"
        "write_nonce_le (w_cur w1) (ucast (w_nonce w1)) = Some (w_cur w2)"
      using hash_once_frame [OF Hashed(4)] f1 by auto
    have blob: "write_nonce_le (job_blob (arc_val a)) (ucast (w_nonce w1)) = Some (w_cur w2)"
      using w1(1) f1(1) f2(4) by (simp add: worker_ok_def blobs_ok_def same_blob_def)
    note c3 = check_share_ok [OF w2 f2(3) Hashed(5)]
    obtain k where k: "w' = w3\<lparr>w_local := k\<rparr>" "sh_cache sh' = cache"
      using flush_hashes_frame [OF Hashed(6)] by auto
    have "worker_ok w'" using c3 by (simp add: k worker_ok_def blobs_ok_def)
    moreover have "w_job w' = Some a" using c3 f2(1)
      by (metis k(1) worker.select_convs(3) worker.surjective worker.update_convs(8,10))
    moreover have "right_share gen_ds digest fs" if "found = Some fs" "fs_verdict fs = Submit_Verified" for fs
      using c3 that f1(2) f2(2) blob write_nonce_le_slice [OF f2(4)] by (fastforce simp: right_share_def)
    ultimately show ?thesis using c3 w1(2) k(2) by blast
  qed
qed

lemma iteration_verdict:
  assumes w: "worker_ok w" "cache_made gen_ds (sh_cache sh)" "same_object (w_job w) a"
    and i: "worker_iteration ops gen_ds cfg env a w sh = Some (Some h, found, w', sh')"
    and on: "sv_enabled (w_verifier w')" and t: "meets_target h (job_target (arc_val a))"
  shows "\<exists>blob ds g. write_nonce_le (job_blob (arc_val a)) (ucast (w_nonce w)) = Some blob \<and>
    gen_ds (job_seed_hash (arc_val a)) = Some ds \<and> digest ds blob = Some g \<and>
    (if h = g then verify_failures (sh_stats sh') = verify_failures (sh_stats sh) \<and>
       found = Some \<lparr>fs_job = a, fs_nonce = le_bytes 4 (ucast (w_nonce w) :: u32), fs_hash = h,
                      fs_verdict = Submit_Verified\<rparr>
     else verify_failures (sh_stats sh') = verify_failures (sh_stats sh) + 1 \<and> found = None)"
proof -
  have n: "worker_ok (note_job a w)" "w_job (note_job a w) = Some a" using note_job_ok [OF w(1,3)] by auto
  from i show ?thesis
  proof (cases rule: iteration_cases)
    case (Skipped w1 cache)
    then show ?thesis by simp
  next
    case (Hashed w1 cache g w2 w3 stats)
    have h: "g = h" using Hashed(7) by simp
    have w1: "worker_ok w1" using follow_seed_ok [OF n(1) w(2) Hashed(1)] by simp
    have f1: "w_job w1 = Some a" "w_key w1 = job_seed_hash (arc_val a)" "w_vm w1 \<noteq> None" "w_nonce w1 = w_nonce w"
      using follow_seed_frame [OF Hashed(1)] n(2) by auto
    have w2: "worker_ok w2" using hash_once_ok [OF w1 Hashed(4) f1(3)] .
    have f2: "w_key w2 = w_key w1" "w_vm w2 \<noteq> None"
        "write_nonce_le (w_cur w1) (ucast (w_nonce w1)) = Some (w_cur w2)"
      using hash_once_frame [OF Hashed(4)] by auto
    have blob: "write_nonce_le (job_blob (arc_val a)) (ucast (w_nonce w)) = Some (w_cur w2)"
      using w1 f1(1,4) f2(3) by (simp add: worker_ok_def blobs_ok_def same_blob_def)
    have k: "sh_stats sh' = stats" "w_verifier w' = w_verifier w3"
      using flush_hashes_frame [OF Hashed(6)] by auto
    obtain ds r where r: "gen_ds (w_key w2) = Some ds" "digest ds (w_cur w2) = Some r"
        "if g = r then verify_failures stats =
             verify_failures (note_hash g (job_target (arc_val a)) (sh_stats sh)) \<and>
           found = Some \<lparr>fs_job = a, fs_nonce = slice 39 4 (w_cur w2), fs_hash = g, fs_verdict = Submit_Verified\<rparr>
         else verify_failures stats =
             verify_failures (note_hash g (job_target (arc_val a)) (sh_stats sh)) + 1 \<and> found = None"
      using check_share_verdict [OF w2 f2(2) Hashed(5)] on t k(2) h by auto
    then show ?thesis using blob f1(2,4) f2(1) k(1) h write_nonce_le_slice [OF f2(3)]
      by (intro exI [of _ "w_cur w2"] exI [of _ ds] exI [of _ r]) (simp split: if_splits)
  qed
qed

end

section \<open>The mining path\<close>

context hasher
begin

definition mining_ok :: "'vm worker \<Rightarrow> bool" where
  "mining_ok w \<longleftrightarrow> worker_ok w \<and> (\<forall>vm. w_vm w = Some vm \<longrightarrow>
     (\<exists>ds. gen_ds (w_key w) = Some ds \<and> vm_for vm ds) \<and>
     (w_ready w \<longrightarrow> (\<exists>b. write_nonce_le (w_next w) (ucast (w_nonce w)) = Some b \<and> prepared_with vm b)))"

lemma worker_start_mining: "mining_ok (worker_start cfg)"
  by (simp add: mining_ok_def worker_start_ok) (simp add: worker_start_def)

lemma note_job_mining: "mining_ok w \<Longrightarrow> same_object (w_job w) a \<Longrightarrow> mining_ok (note_job a w)"
  using note_job_ok by (fastforce simp: mining_ok_def note_job_def)

lemma follow_seed_mining:
  assumes w: "mining_ok w" and c: "cache_made gen_ds cache"
    and f: "follow_seed ops gen_ds cfg seed w cache = Some (w', cache')"
  shows "mining_ok w'"
proof (cases "seed \<noteq> w_key w \<or> Option.is_none (w_vm w)")
  case False
  then show ?thesis using w f by (simp add: follow_seed_def)
next
  case True
  then obtain ds vm where g: "get_or_generate_dataset gen_ds seed cache = Some (ds, cache')"
      and v: "(case w_vm w of Some existing_vm \<Rightarrow> op_reinit ops existing_vm seed ds
               | None \<Rightarrow> map_option (op_set_native_loop ops (cfg_native_loop cfg))
                           (op_new_full ops seed ds)) = Some vm"
      and w': "w_vm w' = Some vm" "w_key w' = seed" "\<not> w_ready w'"
    using f by (auto simp: follow_seed_def Let_def split: Option.bind_splits)
  have ds: "gen_ds seed = Some ds" using get_or_generate_dataset_gen [OF c g] by auto
  have "vm_for vm ds" using v w gen_law [OF ds]
    by (auto simp: mining_ok_def split: option.splits intro: reinit_law set_native_loop_law new_full_law)
  moreover have "worker_ok w'" using follow_seed_ok [OF _ c f] w by (simp add: mining_ok_def)
  ultimately show ?thesis using w' ds by (simp add: mining_ok_def)
qed

text \<open>One nonce: the hash is that of the blob with the nonce, whether the scratchpad was prepared
  by the previous call or is prepared now.\<close>

lemma hash_once_mining:
  assumes w: "mining_ok w" "w_job w = Some a" and vm: "w_vm w = Some vm"
    and long: "43 \<le> length (w_cur w)" "43 \<le> length (w_next w)"
  shows "\<exists>h w' ds. hash_once ops cfg w = Some (h, w') \<and> mining_ok w' \<and>
    gen_ds (w_key w) = Some ds \<and> digest ds (w_cur w') = Some h"
proof -
  let ?n = "ucast (w_nonce w) :: u32" and ?m = "w_nonce w + ucast (cfg_thread_count cfg)"
  obtain cur nxt where b: "write_nonce_le (w_cur w) ?n = Some cur"
      "write_nonce_le (w_next w) (ucast ?m) = Some nxt" using long write_nonce_le_Some by metis
  obtain ds where ds: "gen_ds (w_key w) = Some ds" "vm_for vm ds" using w vm by (auto simp: mining_ok_def)
  have same: "write_nonce_le (w_next w) ?n = Some cur" using w b(1)
    by (simp add: mining_ok_def worker_ok_def blobs_ok_def same_blob_def)
  obtain vm1 where vm1: "(if w_ready w then Some vm else op_prepare_scratchpad ops vm cur) = Some vm1"
      "vm_for vm1 ds" "prepared_with vm1 cur"
    using prepare_law [OF ds(2), of cur] ds(2) w(1) vm same by (cases "w_ready w") (auto simp: mining_ok_def)
  obtain h vm2 where h: "op_calculate_hash_pipelined ops vm1 nxt = Some (h, vm2)" "digest ds cur = Some h"
      "vm_for vm2 ds" "prepared_with vm2 nxt" using pipelined_law [OF vm1(2,3), of nxt] by auto
  let ?w = "w\<lparr>w_vm := Some vm2, w_cur := cur, w_next := nxt, w_ready := True,
              w_local := w_local w + 1, w_nonce := ?m\<rparr>"
  have once: "hash_once ops cfg w = Some (h, ?w)" using b vm vm1(1) h(1) by (simp add: hash_once_def Let_def)
  have "worker_ok ?w" using hash_once_ok [OF _ once] w(1) vm by (simp add: mining_ok_def)
  moreover have "write_nonce_le nxt (ucast ?m) = Some nxt"
    using write_nonce_le_again [OF b(2)] b(2) by metis
  ultimately have "mining_ok ?w" using ds h(3,4) by (simp add: mining_ok_def)
  then show ?thesis using once ds(1) h(2) by auto
qed

lemma check_share_mining:
  assumes w: "mining_ok w" "w_vm w \<noteq> None" and c: "check_share ops now a h w stats = Some (found, w', stats')"
  shows "mining_ok w'"
proof -
  have k: "worker_ok w'" "w' = w\<lparr>w_verifier := w_verifier w'\<rparr>"
    using check_share_ok [OF _ w(2) c] w(1) by (auto simp: mining_ok_def)
  then have "w_vm w' = w_vm w" "w_key w' = w_key w" "w_ready w' = w_ready w" "w_next w' = w_next w"
      "w_nonce w' = w_nonce w" by (metis worker.surjective worker.update_convs(10) worker.select_convs)+
  then show ?thesis using w(1) k(1) by (simp add: mining_ok_def)
qed

text \<open>The whole iteration: the invariant, and every share it lets through is the right one.\<close>

lemma iteration_mining:
  assumes w: "mining_ok w" "cache_made gen_ds (sh_cache sh)" "same_object (w_job w) a"
    and i: "worker_iteration ops gen_ds cfg env a w sh = Some (h, found, w', sh')"
  shows "mining_ok w' \<and> cache_made gen_ds (sh_cache sh') \<and> w_job w' = Some a \<and>
    (\<forall>fs. found = Some fs \<longrightarrow> admissible fs \<and> fs_job fs = a \<and> right_share gen_ds digest fs)"
proof -
  have wk: "worker_ok w" using w(1) by (simp add: mining_ok_def)
  note base = iteration_ok [OF wk w(2,3) i]
  note seed = follow_seed_mining [OF note_job_mining [OF w(1,3)] w(2)]
  from i have "mining_ok w' \<and> (\<forall>fs. found = Some fs \<longrightarrow> right_share gen_ds digest fs)"
  proof (cases rule: iteration_cases)
    case (Skipped w1 cache)
    then show ?thesis using seed [OF Skipped(1)] base by (simp add: mining_ok_def)
  next
    case (Hashed w1 cache g w2 w3 stats)
    have w1: "mining_ok w1" using seed [OF Hashed(1)] .
    have f1: "w_job w1 = Some a" "w_key w1 = job_seed_hash (arc_val a)"
      using follow_seed_frame [OF Hashed(1)] note_job_ok [OF wk w(3)] by auto
    obtain vm where vm: "w_vm w1 = Some vm" using follow_seed_frame [OF Hashed(1)] by auto
    obtain ds where w2: "mining_ok w2" "gen_ds (w_key w1) = Some ds" "digest ds (w_cur w2) = Some g"
      using hash_once_mining [OF w1 f1(1) vm Hashed(2,3), of cfg] Hashed(4) by auto
    have f2: "w_vm w2 \<noteq> None" "write_nonce_le (w_cur w1) (ucast (w_nonce w1)) = Some (w_cur w2)"
      using hash_once_frame [OF Hashed(4)] by auto
    have blob: "write_nonce_le (job_blob (arc_val a)) (ucast (w_nonce w1)) = Some (w_cur w2)"
      using w1 f1(1) f2(2) by (simp add: mining_ok_def worker_ok_def blobs_ok_def same_blob_def)
    have w3: "mining_ok w3" using check_share_mining [OF w2(1) f2(1) Hashed(5)] .
    obtain k where k: "w' = w3\<lparr>w_local := k\<rparr>" using flush_hashes_frame [OF Hashed(6)] by auto
    then have "mining_ok w'" using w3 base by (simp add: mining_ok_def)
    moreover have "right_share gen_ds digest fs" if "found = Some fs" for fs
      using check_share_found [OF Hashed(5)] that f1(2) w2(2,3) blob write_nonce_le_slice [OF f2(2)]
      by (auto simp: right_share_def)
    ultimately show ?thesis by blast
  qed
  then show ?thesis using base by blast
qed

end

section \<open>No panic\<close>

context total_hasher
begin

text \<open>What a restart of either VM needs: the current seed is usable.\<close>

definition usable_ok :: "'vm worker \<Rightarrow> bool" where
  "usable_ok w \<longleftrightarrow> mining_ok w \<and> (w_vm w \<noteq> None \<longrightarrow> usable (w_key w) \<and> sv_key (w_verifier w) = w_key w)"

lemma worker_start_usable: "usable_ok (worker_start cfg)"
  by (simp add: usable_ok_def worker_start_mining) (simp add: worker_start_def)

lemma follow_seed_total:
  assumes "usable_ok w" "cache_made gen_ds cache" "usable seed"
  shows "\<exists>w' cache'. follow_seed ops gen_ds cfg seed w cache = Some (w', cache') \<and> usable_ok w'"
proof -
  have "\<exists>w' cache'. follow_seed ops gen_ds cfg seed w cache = Some (w', cache') \<and>
      usable (w_key w') \<and> sv_key (w_verifier w') = w_key w'"
  proof (cases "seed \<noteq> w_key w \<or> Option.is_none (w_vm w)")
    case False
    then show ?thesis using assms(1,3) by (auto simp: follow_seed_def usable_ok_def Option.is_none_def)
  next
    case True
    obtain ds cache' where g: "get_or_generate_dataset gen_ds seed cache = Some (ds, cache')"
      using gen_total [OF assms(3)]
      by (fastforce simp: get_or_generate_dataset_def split: option.splits)
    obtain vm where "(case w_vm w of Some existing_vm \<Rightarrow> op_reinit ops existing_vm seed ds
               | None \<Rightarrow> map_option (op_set_native_loop ops (cfg_native_loop cfg))
                           (op_new_full ops seed ds)) = Some vm"
      using new_full_total [of seed ds] reinit_total [of _ seed ds] assms(3)
      by (cases "w_vm w") auto
    then show ?thesis using True g assms(3)
      by (simp add: follow_seed_def Let_def set_enabled_def rekey_def)
  qed
  then show ?thesis using follow_seed_mining [OF _ assms(2)] assms(1) by (auto simp: usable_ok_def)
qed

text \<open>A seed that was taken up is a usable one.\<close>

lemma follow_seed_usable:
  assumes "usable_ok w" "follow_seed ops gen_ds cfg seed w cache = Some (w', cache')"
  shows "usable seed"
proof (cases "seed \<noteq> w_key w \<or> Option.is_none (w_vm w)")
  case False
  then show ?thesis using assms(1) by (simp add: usable_ok_def Option.is_none_def)
next
  case True
  then obtain ds vm where "(case w_vm w of Some existing_vm \<Rightarrow> op_reinit ops existing_vm seed ds
               | None \<Rightarrow> map_option (op_set_native_loop ops (cfg_native_loop cfg))
                           (op_new_full ops seed ds)) = Some vm"
    using assms(2) by (auto simp: follow_seed_def split: Option.bind_splits)
  then show ?thesis using new_full_total [of seed ds] reinit_total [of _ seed ds]
    by (cases "w_vm w") auto
qed

lemma check_share_total:
  assumes "usable_ok w" "w_vm w \<noteq> None"
  shows "\<exists>found w' stats'. check_share ops now a h w stats = Some (found, w', stats') \<and> usable_ok w'"
proof -
  obtain ds where ds: "sv_dataset (w_verifier w) = Some ds" "verifier_ok (w_verifier w)" "data_ok ds"
      "usable (sv_key (w_verifier w))"
    using assms by (fastforce simp: usable_ok_def mining_ok_def worker_ok_def verifier_ok_def)
  obtain vm where vm: "(case sv_vm (w_verifier w) of Some vm \<Rightarrow> Some vm
      | None \<Rightarrow> map_option (op_set_native_loop ops False) (op_new_full ops (sv_key (w_verifier w)) ds)) = Some vm"
    using new_full_total [of "sv_key (w_verifier w)" ds] ds(4) by (cases "sv_vm (w_verifier w)") auto
  then have "vm_for vm ds \<and> native_off vm" using ds(1-3)
    by (auto simp: verifier_ok_def split: option.splits
        intro: new_full_law set_native_loop_law native_off_law)
  then obtain r vm' where "op_calculate_hash ops vm (w_cur w) = Some (r, vm')"
    using calculate_hash_law by blast
  then obtain r v where r: "reference_hash ops (w_cur w) (w_verifier w) = Some (r, v)"
      "sv_key v = sv_key (w_verifier w)"
    using vm ds(1) by (cases "sv_enabled (w_verifier w)") (auto simp: reference_hash_def)
  obtain found w' stats' where c: "check_share ops now a h w stats = Some (found, w', stats')"
      "w' = w \<or> w' = w\<lparr>w_verifier := v\<rparr>"
    using r(1) by (cases "meets_target h (job_target (arc_val a))") (auto simp: check_share_def Let_def)
  have "mining_ok w'" using check_share_mining [OF _ assms(2) c(1)] assms(1) by (simp add: usable_ok_def)
  then show ?thesis using c assms(1) r(2) by (auto simp: usable_ok_def)
qed

lemma iteration_total:
  assumes w: "usable_ok w" "cache_made gen_ds (sh_cache sh)" "same_object (w_job w) a"
    and seed: "usable (job_seed_hash (arc_val a))"
  shows "\<exists>h found w' sh'. worker_iteration ops gen_ds cfg env a w sh = Some (h, found, w', sh') \<and> usable_ok w'"
proof -
  have n: "usable_ok (note_job a w)" using note_job_mining w(1,3) by (auto simp: usable_ok_def)
  obtain w1 cache where s: "follow_seed ops gen_ds cfg (job_seed_hash (arc_val a)) (note_job a w) (sh_cache sh)
      = Some (w1, cache)" "usable_ok w1" using follow_seed_total [OF n w(2) seed] by blast
  have f1: "w_job w1 = Some a" "w_vm w1 \<noteq> None"
    using follow_seed_frame [OF s(1)] note_job_ok [OF _ w(3)] w(1) by (auto simp: usable_ok_def mining_ok_def)
  show ?thesis
  proof (cases "length (w_cur w1) < 43 \<or> length (w_next w1) < 43")
    case True
    then show ?thesis using s
      by (auto simp: worker_iteration_def Let_def usable_ok_def mining_ok_def worker_ok_def blobs_ok_def)
  next
    case False
    obtain vm where vm: "w_vm w1 = Some vm" using f1(2) by auto
    obtain g w2 where h: "hash_once ops cfg w1 = Some (g, w2)" "mining_ok w2"
      using hash_once_mining [OF _ f1(1) vm, of cfg] False s(2) by (auto simp: usable_ok_def)
    have w2: "usable_ok w2" "w_vm w2 \<noteq> None" using h hash_once_frame [OF h(1)] s(2) f1(2)
      by (auto simp: usable_ok_def)
    obtain found w3 stats where c: "check_share ops (env_now_ms env) a g w2
        (note_hash g (job_target (arc_val a)) (sh_stats sh)) = Some (found, w3, stats)" "usable_ok w3"
      using check_share_total [OF w2] by blast
    obtain w4 sh4 where fl: "flush_hashes cfg env w3 (sh\<lparr>sh_cache := cache, sh_stats := stats\<rparr>) = (w4, sh4)"
      by fastforce
    then have "usable_ok w4" using flush_hashes_frame [OF fl] c(2)
      by (auto simp: usable_ok_def mining_ok_def worker_ok_def blobs_ok_def)
    then show ?thesis using s(1) h(1) c(1) fl False by (auto simp: worker_iteration_def Let_def)
  qed
qed

text \<open>So the iteration returns exactly when the seed of the job is usable.\<close>

lemma iteration_usable:
  assumes "usable_ok w" "same_object (w_job w) a"
    and i: "worker_iteration ops gen_ds cfg env a w sh = Some (h, found, w', sh')"
  shows "usable (job_seed_hash (arc_val a))"
proof -
  have n: "usable_ok (note_job a w)" using note_job_mining assms(1,2) by (auto simp: usable_ok_def)
  from i show ?thesis by (cases rule: iteration_cases) (rule follow_seed_usable [OF n], assumption)+
qed

end

end
