(* ===== verification/Pool_Receiver.thy ===== *)
theory Pool_Receiver
  imports Pool_Shares
begin

text \<open>
  \<open>src/pool_connection.rs\<close>: the receiver. It owns the connection's life: it replaces the
  stream (\<open>reconnect\<close>, \<open>relogin_as\<close>), rotates the wallet of a donation slice once the
  submissions have settled, and runs \<open>receiver_loop\<close>, here one iteration as a function of
  the environment's answers.
\<close>

section \<open>reconnect and relogin_as\<close>

text \<open>The part of \<open>reconnect\<close> before the attempts.\<close>

definition tear_down :: "pool \<Rightarrow> pool" where
  "tear_down p =
     drain_pending_shares
       (p\<lparr>connected := False, current_job := None, stream := None, rotation_wait_since := None\<rparr>)"

text \<open>\<open>self.connect(address).and_then(|_| self.login(wallet))\<close>.\<close>

definition connect_login ::
  "'v json_api \<Rightarrow> bytes \<Rightarrow> connect_env \<Rightarrow> login_env \<Rightarrow> bytes \<Rightarrow> bytes \<Rightarrow> pool \<Rightarrow>
     (pool_error + unit) \<times> pool" where
  "connect_login api agent cenv lenv addr w p =
     (case connect cenv addr p of
        (Inl e, p) \<Rightarrow> (Inl e, p)
      | (Inr _, p) \<Rightarrow> login api agent lenv w p)"

text \<open>One element of the list is what the environment answers to one attempt, with whether
  the final \<open>set_read_timeout\<close> succeeds. The loop has no bound; \<open>None\<close> says that it is
  still retrying after all of them.\<close>

type_synonym attempt = "connect_env \<times> login_env \<times> bool"

fun retry_loop ::
  "'v json_api \<Rightarrow> bytes \<Rightarrow> attempt list \<Rightarrow> bytes \<Rightarrow> bytes \<Rightarrow> pool \<Rightarrow> pool option" where
  "retry_loop api agent [] addr w p = None"
| "retry_loop api agent ((cenv, lenv, sets) # attempts) addr w p =
     (case connect_login api agent cenv lenv addr w p of
        (Inr _, p) \<Rightarrow> Some (set_read_timeout sets RECV_POLL_INTERVAL p)
      | (Inl e, p) \<Rightarrow> retry_loop api agent attempts addr w (p\<lparr>stream := None\<rparr>))"

text \<open>\<open>Some (False, _)\<close> is the early return without an address or wallet.\<close>

definition reconnect :: "'v json_api \<Rightarrow> bytes \<Rightarrow> attempt list \<Rightarrow> pool \<Rightarrow> (bool \<times> pool) option" where
  "reconnect api agent attempts p =
     (let p = tear_down p
      in if address p = [] \<or> wallet p = [] then Some (False, p)
         else map_option (Pair True) (retry_loop api agent attempts (address p) (wallet p) p))"

definition relogin_as ::
  "'v json_api \<Rightarrow> bytes \<Rightarrow> attempt \<Rightarrow> bytes \<Rightarrow> pool \<Rightarrow> (pool_error + unit) \<times> pool" where
  "relogin_as api agent att w p =
     (if address p = [] then (Inl No_Address, p)
      else
        let p = drain_pending_shares (p\<lparr>current_job := None, stream := None\<rparr>);
            (cenv, lenv, sets) = att
        in case connect_login api agent cenv lenv (address p) w p of
             (Inl e, p) \<Rightarrow> (Inl e, p\<lparr>stream := None\<rparr>)
           | (Inr _, p) \<Rightarrow> (Inr (), set_read_timeout sets RECV_POLL_INTERVAL p))"

section \<open>Donation rotation\<close>

text \<open>The two addresses are data of \<open>donate.rs\<close>.\<close>

definition beneficiary_address :: "bytes \<Rightarrow> bytes \<Rightarrow> beneficiary \<Rightarrow> pool \<Rightarrow> bytes" where
  "beneficiary_address author xmrig who p =
     (case who of User \<Rightarrow> user_wallet p | Author \<Rightarrow> author | Xmrig \<Rightarrow> xmrig)"

definition note_donation_target ::
  "beneficiary \<Rightarrow> beneficiary \<Rightarrow> pool \<Rightarrow> beneficiary \<times> pool" where
  "note_donation_target want last_want p =
     (if want \<noteq> last_want then (want, p\<lparr>rotation_wait_since := None\<rparr>) else (last_want, p))"

definition rotation_may_proceed :: "u32 \<Rightarrow> nat \<Rightarrow> nat \<Rightarrow> nat \<Rightarrow> bool" where
  "rotation_may_proceed in_flight pending waited limit \<longleftrightarrow>
     in_flight = 0 \<and> pending = 0 \<or> limit \<le> waited"

text \<open>The decision of \<open>rotation_settled\<close>, with the value of \<open>submits_in_flight\<close> that was read
  before the pending shares. \<open>now\<close> is the time of the call; \<open>Instant\<close> is monotone, so
  \<open>t.elapsed()\<close> is \<open>now - t\<close>.\<close>

definition rotation_decide :: "nat \<Rightarrow> beneficiary \<Rightarrow> u32 \<Rightarrow> pool \<Rightarrow> bool \<times> pool" where
  "rotation_decide now want in_flight p =
     (let since = (case rotation_wait_since p of
                     Some (b, t) \<Rightarrow> if b \<noteq> want then None else Some (b, t)
                   | None \<Rightarrow> None);
          waited = (case since of Some (_, t) \<Rightarrow> now - t | None \<Rightarrow> 0)
      in if \<not> rotation_may_proceed in_flight (get_pending_shares p) waited (rotation_settle_ms p)
         then (False, p\<lparr>rotation_wait_since :=
                          (case since of None \<Rightarrow> Some (want, now) | Some _ \<Rightarrow> since)\<rparr>)
         else (True, p\<lparr>rotation_wait_since := None\<rparr>))"

definition rotation_settled :: "nat \<Rightarrow> beneficiary \<Rightarrow> pool \<Rightarrow> bool \<times> pool" where
  "rotation_settled now want p = rotation_decide now want (submits_in_flight p) p"

section \<open>One iteration of receiver_loop\<close>

text \<open>The locals of the loop.\<close>

record receiver =
  rx_pending :: bytes
  last_keepalive :: nat
  last_recv :: nat
  donation_start :: nat
  active :: beneficiary
  last_want :: beneficiary

datatype read_answer = Read_Bytes bytes | Read_Timeout | Read_Error_Kind

text \<open>What the environment answers in one iteration: the clock where the code reads it, the
  socket, and the attempts of each place that may reconnect.\<close>

record iter_env =
  t_start :: nat
  t_rotate :: nat
  relogin_attempt :: attempt
  t_relogin :: nat
  socket_read :: read_answer
  t_read :: nat
  read_attempts :: "attempt list"
  t_reconnected :: nat
  t_keepalive :: nat
  keepalive_write :: write_answer
  keepalive_attempts :: "attempt list"
  t_keepalive_reconnected :: nat
  t_silence :: nat
  silence_attempts :: "attempt list"
  t_silence_reconnected :: nat

text \<open>How a part of an iteration goes on: with the next part, with the next iteration, with
  the end of the thread, or still retrying to reconnect.\<close>

datatype flow = Next receiver pool | Continue receiver pool | Stopped pool | Retrying

text \<open>\<open>if !self.reconnect() { return; } last_recv = now; pending.clear();\<close>, and how the
  iteration goes on after it.\<close>

definition reconnect_or_stop ::
  "'v json_api \<Rightarrow> bytes \<Rightarrow> attempt list \<Rightarrow> nat \<Rightarrow> (receiver \<Rightarrow> pool \<Rightarrow> flow) \<Rightarrow> receiver \<Rightarrow> pool \<Rightarrow> flow" where
  "reconnect_or_stop api agent attempts now k rx p =
     (case reconnect api agent attempts p of
        None \<Rightarrow> Retrying
      | Some (False, p) \<Rightarrow> Stopped p
      | Some (True, p) \<Rightarrow> k (rx\<lparr>last_recv := now, rx_pending := []\<rparr>) p)"

definition rotate_part ::
  "'v json_api \<Rightarrow> bytes \<Rightarrow> bytes \<Rightarrow> bytes \<Rightarrow> iter_env \<Rightarrow> receiver \<Rightarrow> pool \<Rightarrow> flow" where
  "rotate_part api agent author xmrig env rx p =
     (let want = beneficiary_at (donation p) ((t_start env - donation_start rx) div 1000);
          (lw, p) = note_donation_target want (last_want rx) p;
          rx = rx\<lparr>last_want := lw\<rparr>
      in if want = active rx then Next rx p
         else case rotation_settled (t_rotate env) want p of
           (False, p) \<Rightarrow> Next rx p
         | (True, p) \<Rightarrow>
             let rx = rx\<lparr>active := want\<rparr>;
                 addr = beneficiary_address author xmrig want p;
                 p = p\<lparr>wallet := addr\<rparr>
             in case relogin_as api agent (relogin_attempt env) addr p of
                  (Inr _, p) \<Rightarrow> Continue (rx\<lparr>last_recv := t_relogin env, rx_pending := []\<rparr>) p
                | (Inl e, p) \<Rightarrow> Next rx p)"

definition handle_lines :: "'v json_api \<Rightarrow> bytes list \<Rightarrow> pool \<Rightarrow> pool" where
  "handle_lines api lines p = foldl (\<lambda>p line. handle_pool_message api line p) p lines"

text \<open>A read of a missing stream is an error of the kind \<open>NotConnected\<close>; the buffer given to
  \<open>read\<close> has 4096 bytes.\<close>

definition read_part :: "'v json_api \<Rightarrow> bytes \<Rightarrow> iter_env \<Rightarrow> receiver \<Rightarrow> pool \<Rightarrow> flow" where
  "read_part api agent env rx p =
     (let again = reconnect_or_stop api agent (read_attempts env) (t_reconnected env) Next
      in case (if stream p = None then Read_Error_Kind else socket_read env) of
           Read_Timeout \<Rightarrow> Next rx p
         | Read_Error_Kind \<Rightarrow> again rx p
         | Read_Bytes chunk \<Rightarrow>
             if chunk = [] then again rx p
             else
               let rx = rx\<lparr>last_recv := t_read env\<rparr>
               in case take_complete_lines (rx_pending rx @ take 4096 chunk) of
                    (Inr lines, rest) \<Rightarrow> Next (rx\<lparr>rx_pending := rest\<rparr>) (handle_lines api lines p)
                  | (Inl overflow, rest) \<Rightarrow> again (rx\<lparr>rx_pending := []\<rparr>) p)"

definition keepalive_part :: "'v json_api \<Rightarrow> bytes \<Rightarrow> iter_env \<Rightarrow> receiver \<Rightarrow> pool \<Rightarrow> flow" where
  "keepalive_part api agent env rx p =
     (if KEEPALIVE_INTERVAL \<le> t_keepalive env - last_keepalive rx then
        let rx = rx\<lparr>last_keepalive := t_keepalive env\<rparr>
        in case send_message (keepalive_write env) (str ''keepalived'')
                  [(str ''id'', session_id p)] p of
             (Inl e, p) \<Rightarrow>
               reconnect_or_stop api agent (keepalive_attempts env) (t_keepalive_reconnected env)
                 Continue rx p
           | (Inr _, p) \<Rightarrow> Next rx p
      else Next rx p)"

definition silence_part :: "'v json_api \<Rightarrow> bytes \<Rightarrow> iter_env \<Rightarrow> receiver \<Rightarrow> pool \<Rightarrow> flow" where
  "silence_part api agent env rx p =
     (if silence_timeout_ms p \<le> t_silence env - last_recv rx then
        reconnect_or_stop api agent (silence_attempts env) (t_silence_reconnected env) Continue rx p
      else Continue rx p)"

fun flow_bind :: "flow \<Rightarrow> (receiver \<Rightarrow> pool \<Rightarrow> flow) \<Rightarrow> flow" where
  "flow_bind (Next rx p) k = k rx p"
| "flow_bind (Continue rx p) k = Continue rx p"
| "flow_bind (Stopped p) k = Stopped p"
| "flow_bind Retrying k = Retrying"

definition receiver_iteration ::
  "'v json_api \<Rightarrow> bytes \<Rightarrow> bytes \<Rightarrow> bytes \<Rightarrow> iter_env \<Rightarrow> receiver \<Rightarrow> pool \<Rightarrow> flow" where
  "receiver_iteration api agent author xmrig env rx p =
     flow_bind (rotate_part api agent author xmrig env rx p) (\<lambda>rx p.
     flow_bind (read_part api agent env rx p) (\<lambda>rx p.
     flow_bind (keepalive_part api agent env rx p) (silence_part api agent env)))"

definition receiver_start :: "bool \<Rightarrow> nat \<Rightarrow> pool \<Rightarrow> receiver \<times> pool" where
  "receiver_start sets now p =
     (\<lparr>rx_pending = [], last_keepalive = now, last_recv = now, donation_start = now,
       active = User, last_want = User\<rparr>,
      set_read_timeout sets RECV_POLL_INTERVAL p)"

end
