(* ===== verification/Pool_Threads.thy ===== *)
theory Pool_Threads
  imports Pool_Receiver
begin

text \<open>
  \<open>src/pool_connection.rs\<close> as its threads run it: any number of workers that submit shares
  and the one receiver, interleaved at the granularity of the locks and atomics. A worker
  holds the stream lock over the check, the write and the registration of its share
  (\<open>write_and_register\<close>); the receiver's critical sections on the stream are single steps
  that need the lock free. The state has ghost components that the code does not have (they
  are never read by a step's guard): how many calls, request ids and streams there have been,
  on which stream each job arrived, and which share was written to which stream.
\<close>

section \<open>Program counters\<close>

text \<open>A worker in the order of \<open>submit_share\<close>: it has a job from \<open>get_work\<close>, is counted in
  flight, has read the session id, has a request id, holds the stream lock, has written,
  has registered, was refused under the lock, has to count the share as unsent, and leaves.\<close>

datatype sub_pc =
    Idle
  | Working arc_job
  | Entered nat arc_job bytes bytes
  | Has_Params nat arc_job bytes "(bytes \<times> bytes) list"
  | Ready nat arc_job bytes "(bytes \<times> bytes) list" u64
  | Holding nat arc_job bytes "(bytes \<times> bytes) list" u64
  | Wrote nat arc_job bytes u64
  | Registered nat arc_job
  | Refused nat arc_job
  | Failed nat arc_job
  | Leaving nat arc_job

text \<open>The receiver: at the top of its loop, between the two reads of the rotation gate, in
  the stages of replacing the connection, and in the handling of the lines it has read.\<close>

datatype purpose = Reconnect | Relogin

datatype 'v recv_pc =
    R_Poll
  | R_Gated beneficiary u32 nat
  | R_Drop purpose
  | R_Close purpose
  | R_Clear purpose
  | R_Take purpose
  | R_Count "(u64 \<times> pending_share) list" purpose
  | R_Attempt purpose
  | R_Install pool_stream purpose
  | R_Connected purpose
  | R_Login purpose
  | R_Reply 'v purpose
  | R_Job 'v purpose
  | R_Settle purpose
  | R_Abort purpose
  | R_Handle nat "bytes list"
  | R_Answer nat 'v "bytes list"
  | R_Credit nat u64 bool "bytes list"
  | R_Stopped

text \<open>\<open>lock\<close> is the worker that holds the stream lock. \<open>buf\<close> is the receiver's buffer, each byte
  with the stream it was read from (a ghost). The other ghosts are \<open>calls\<close>, \<open>drawn\<close>, \<open>epoch\<close>,
  \<open>origins\<close> (by allocation, the stream a job arrived on) and \<open>sent\<close>.\<close>

record 'v sys =
  sp :: pool
  lock :: "nat option"
  subs :: "sub_pc list"
  recv :: "'v recv_pc"
  buf :: "(nat \<times> u8) list"
  calls :: nat
  drawn :: nat
  epoch :: nat
  origins :: "nat list"
  sent :: "(u64 \<times> nat \<times> arc_job) list"

definition at_sub :: "nat \<Rightarrow> sub_pc \<Rightarrow> 'v sys \<Rightarrow> bool" where
  "at_sub i pc s \<longleftrightarrow> i < length (subs s) \<and> subs s ! i = pc"

definition set_sub :: "nat \<Rightarrow> sub_pc \<Rightarrow> 'v sys \<Rightarrow> 'v sys" where
  "set_sub i pc s = s\<lparr>subs := (subs s)[i := pc]\<rparr>"

section \<open>Steps of a worker\<close>

inductive sub_step :: "nat \<Rightarrow> 'v sys \<Rightarrow> 'v sys \<Rightarrow> bool" for i :: nat where
  Fetch: "at_sub i Idle s \<Longrightarrow> get_work (sp s) = Some a \<Longrightarrow>
    sub_step i s (set_sub i (Working a) s)"
| Give_Up: "at_sub i (Working a) s \<Longrightarrow> sub_step i s (set_sub i Idle s)"
| Enter: "at_sub i (Working a) s \<Longrightarrow>
    sub_step i s (set_sub i (Entered (calls s) a nonce result)
      (s\<lparr>sp := enter_submit (sp s), calls := Suc (calls s)\<rparr>))"
| Read_Sid: "at_sub i (Entered k a nonce result) s \<Longrightarrow>
    sub_step i s (set_sub i (Has_Params k a nonce
      (submit_params (session_id (sp s)) (job_id (arc_val a)) nonce result)) s)"
| Draw_Id: "at_sub i (Has_Params k a nonce params) s \<Longrightarrow>
    sub_step i s (set_sub i (Ready k a nonce params (fst (next_request_id (sp s))))
      (s\<lparr>sp := snd (next_request_id (sp s)), drawn := Suc (drawn s)\<rparr>))"
| Take_Lock: "at_sub i (Ready k a nonce params rid) s \<Longrightarrow> lock s = None \<Longrightarrow>
    sub_step i s (set_sub i (Holding k a nonce params rid) (s\<lparr>lock := Some i\<rparr>))"
| Write_Ok: "at_sub i (Holding k a nonce params rid) s \<Longrightarrow>
    write_submit w rid params (job_generation (arc_val a)) (sp s) = (Inr (), p) \<Longrightarrow>
    sub_step i s (set_sub i (Wrote k a nonce rid)
      (s\<lparr>sp := p, sent := (rid, epoch s, a) # sent s\<rparr>))"
| Write_Refused: "at_sub i (Holding k a nonce params rid) s \<Longrightarrow>
    write_submit w rid params (job_generation (arc_val a)) (sp s) = (Inl e, p) \<Longrightarrow>
    sub_step i s (set_sub i (Refused k a)
      (s\<lparr>sp := p, sent := (if e = Flush_Error then [(rid, epoch s, a)] else []) @ sent s\<rparr>))"
| Register: "at_sub i (Wrote k a nonce rid) s \<Longrightarrow>
    sub_step i s (set_sub i (Registered k a)
      (s\<lparr>sp := register_pending rid
                 \<lparr>ps_job_id = job_id (arc_val a), ps_nonce = nonce, ps_sent_at = now\<rparr> (sp s)\<rparr>))"
| Unlock_Ok: "at_sub i (Registered k a) s \<Longrightarrow>
    sub_step i s (set_sub i (Leaving k a) (s\<lparr>lock := None\<rparr>))"
| Unlock_Refused: "at_sub i (Refused k a) s \<Longrightarrow>
    sub_step i s (set_sub i (Failed k a) (s\<lparr>lock := None\<rparr>))"
| Unsent: "at_sub i (Failed k a) s \<Longrightarrow>
    sub_step i s (set_sub i (Leaving k a) (s\<lparr>sp := count_unsent (sp s)\<rparr>))"
| Leave: "at_sub i (Leaving k a) s \<Longrightarrow>
    sub_step i s (set_sub i Idle (s\<lparr>sp := leave_submit (sp s)\<rparr>))"

section \<open>Steps of the receiver\<close>

text \<open>A stage that only changes the connection's state and goes on.\<close>

definition goto :: "'v recv_pc \<Rightarrow> pool \<Rightarrow> 'v sys \<Rightarrow> 'v sys" where
  "goto pc p s = s\<lparr>sp := p, recv := pc\<rparr>"

text \<open>The request ids that a send draws: none without a stream.\<close>

definition drawn_by :: "pool \<Rightarrow> nat" where
  "drawn_by p = (if stream p = None then 0 else 1)"

text \<open>Replacing the connection.\<close>

inductive link_step :: "'v json_api \<Rightarrow> bytes \<Rightarrow> 'v sys \<Rightarrow> 'v sys \<Rightarrow> bool"
  for api :: "'v json_api" and agent :: bytes where
  Drop_Job: "recv s = R_Drop u \<Longrightarrow>
    link_step api agent s (goto (R_Close u) ((sp s)\<lparr>current_job := None\<rparr>) s)"
| Close: "recv s = R_Close u \<Longrightarrow> lock s = None \<Longrightarrow>
    link_step api agent s (goto (R_Clear u) ((sp s)\<lparr>stream := None\<rparr>) s)"
| Clear_Reconnect: "recv s = R_Clear Reconnect \<Longrightarrow>
    link_step api agent s (goto (R_Take Reconnect) ((sp s)\<lparr>rotation_wait_since := None\<rparr>) s)"
| Clear_Relogin: "recv s = R_Clear Relogin \<Longrightarrow>
    link_step api agent s (goto (R_Take Relogin) (sp s) s)"
| Take: "recv s = R_Take u \<Longrightarrow> take_pending (sp s) = (es, p) \<Longrightarrow>
    link_step api agent s (goto (R_Count es u) p s)"
| Count: "recv s = R_Count (e # es) u \<Longrightarrow>
    link_step api agent s (goto (R_Count es u) (count_lost (sp s)) s)"
| Counted: "recv s = R_Count [] u \<Longrightarrow> address (sp s) \<noteq> [] \<Longrightarrow> wallet (sp s) \<noteq> [] \<or> u = Relogin \<Longrightarrow>
    link_step api agent s (goto (R_Attempt u) (sp s) s)"
| Cannot: "recv s = R_Count [] Reconnect \<Longrightarrow> address (sp s) = [] \<or> wallet (sp s) = [] \<Longrightarrow>
    link_step api agent s (goto R_Stopped (sp s) s)"
| No_Stream: "recv s = R_Attempt u \<Longrightarrow>
    open_stream env (pinned_fingerprint (sp s)) (address (sp s)) = Inl e \<Longrightarrow>
    link_step api agent s (goto (R_Abort u) (sp s) s)"
| Got_Stream: "recv s = R_Attempt u \<Longrightarrow>
    open_stream env (pinned_fingerprint (sp s)) (address (sp s)) = Inr st \<Longrightarrow>
    link_step api agent s (goto (R_Install st u) ((sp s)\<lparr>address := address (sp s)\<rparr>) s)"
| Install: "recv s = R_Install st u \<Longrightarrow> lock s = None \<Longrightarrow>
    link_step api agent s
      (goto (R_Connected u) (install_stream st (sp s)) (s\<lparr>epoch := Suc (epoch s)\<rparr>))"
| Connected: "recv s = R_Connected u \<Longrightarrow>
    link_step api agent s
      (goto (R_Login u) (begin_login (wallet (sp s)) ((sp s)\<lparr>connected := True\<rparr>)) s)"
| Login_Failed: "recv s = R_Login u \<Longrightarrow> lock s = None \<Longrightarrow>
    send_request api env (str ''login'') (login_params agent (wallet (sp s))) (sp s) = (Inl e, p) \<Longrightarrow>
    link_step api agent s (goto (R_Abort u) p (s\<lparr>drawn := drawn s + drawn_by (sp s)\<rparr>))"
| Login_Answered: "recv s = R_Login u \<Longrightarrow> lock s = None \<Longrightarrow>
    send_request api env (str ''login'') (login_params agent (wallet (sp s))) (sp s) = (Inr v, p) \<Longrightarrow>
    link_step api agent s (goto (R_Reply v u) p (s\<lparr>drawn := drawn s + drawn_by (sp s)\<rparr>))"
| Login_Refused: "recv s = R_Reply v u \<Longrightarrow> login_check api v = Inl e \<Longrightarrow>
    link_step api agent s (goto (R_Abort u) (sp s) s)"
| Session: "recv s = R_Reply v u \<Longrightarrow> login_check api v = Inr (result, sid) \<Longrightarrow>
    link_step api agent s (goto (R_Job result u) ((sp s)\<lparr>session_id := sid\<rparr>) s)"
| Job: "recv s = R_Job v u \<Longrightarrow> login_job api v (sp s) = p \<Longrightarrow>
    link_step api agent s (goto (R_Settle u) p
      (s\<lparr>origins := origins s @ replicate (allocations p - allocations (sp s)) (epoch s)\<rparr>))"
| Settle: "recv s = R_Settle u \<Longrightarrow> lock s = None \<Longrightarrow>
    link_step api agent s
      (goto R_Poll (set_read_timeout ok RECV_POLL_INTERVAL (sp s)) (s\<lparr>buf := []\<rparr>))"
| Abort_Reconnect: "recv s = R_Abort Reconnect \<Longrightarrow> lock s = None \<Longrightarrow>
    link_step api agent s (goto (R_Attempt Reconnect) ((sp s)\<lparr>stream := None\<rparr>) s)"
| Abort_Relogin: "recv s = R_Abort Relogin \<Longrightarrow> lock s = None \<Longrightarrow>
    link_step api agent s (goto R_Poll ((sp s)\<lparr>stream := None\<rparr>) s)"

text \<open>The loop itself. \<open>Give_Up_Link\<close> is any of the reasons to reconnect (the read, an
  over-long line, the keepalive, the silence); which one applies depends on the clock and
  the socket, so the step leaves it open.\<close>

inductive loop_step :: "'v json_api \<Rightarrow> bytes \<Rightarrow> bytes \<Rightarrow> 'v sys \<Rightarrow> 'v sys \<Rightarrow> bool"
  for api :: "'v json_api" and author xmrig :: bytes where
  Note: "recv s = R_Poll \<Longrightarrow>
    loop_step api author xmrig s (s\<lparr>sp := snd (note_donation_target want prev (sp s))\<rparr>)"
| Gate: "recv s = R_Poll \<Longrightarrow>
    loop_step api author xmrig s (s\<lparr>recv := R_Gated want (submits_in_flight (sp s)) (calls s)\<rparr>)"
| Defer: "recv s = R_Gated want v k \<Longrightarrow> rotation_decide now want v (sp s) = (False, p) \<Longrightarrow>
    loop_step api author xmrig s (goto R_Poll p s)"
| Rotate: "recv s = R_Gated want v k \<Longrightarrow> rotation_decide now want v (sp s) = (True, p) \<Longrightarrow>
    loop_step api author xmrig s
      (goto (if address p = [] then R_Poll else R_Drop Relogin)
        (p\<lparr>wallet := beneficiary_address author xmrig want p\<rparr>) s)"
| Read: "recv s = R_Poll \<Longrightarrow> lock s = None \<Longrightarrow> stream (sp s) \<noteq> None \<Longrightarrow> chunk \<noteq> [] \<Longrightarrow>
    b = buf s @ map (Pair (epoch s)) chunk \<Longrightarrow>
    take_complete_lines (map snd b) = (Inr lines, rest) \<Longrightarrow>
    loop_step api author xmrig s
      (s\<lparr>recv := R_Handle (fst (hd b)) lines, buf := drop (length b - length rest) b\<rparr>)"
| Give_Up_Link: "recv s = R_Poll \<Longrightarrow>
    loop_step api author xmrig s (goto (R_Drop Reconnect) ((sp s)\<lparr>connected := False\<rparr>) s)"
| Keepalive: "recv s = R_Poll \<Longrightarrow> lock s = None \<Longrightarrow>
    send_message w (str ''keepalived'') [(str ''id'', session_id (sp s))] (sp s) = (r, p) \<Longrightarrow>
    loop_step api author xmrig s
      (s\<lparr>sp := p, drawn := drawn s + drawn_by (sp s)\<rparr>)"
| Handled: "recv s = R_Handle e [] \<Longrightarrow> loop_step api author xmrig s (s\<lparr>recv := R_Poll\<rparr>)"
| Unparsed: "recv s = R_Handle e (line # lines) \<Longrightarrow> json_parse api line = None \<Longrightarrow>
    loop_step api author xmrig s (s\<lparr>recv := R_Handle e lines\<rparr>)"
| Parsed: "recv s = R_Handle e (line # lines) \<Longrightarrow> json_parse api line = Some msg \<Longrightarrow>
    take_job api msg (sp s) = p \<Longrightarrow>
    loop_step api author xmrig s (goto (R_Answer e msg lines) p
      (s\<lparr>origins := origins s @ replicate (allocations p - allocations (sp s)) e\<rparr>))"
| No_Answer: "recv s = R_Answer e msg lines \<Longrightarrow>
    answer_id api msg = None \<or>
    answer_id api msg = Some rid \<and> map_of (pending_shares (sp s)) rid = None \<Longrightarrow>
    loop_step api author xmrig s (s\<lparr>recv := R_Handle e lines\<rparr>)"
| Answer: "recv s = R_Answer e msg lines \<Longrightarrow> answer_id api msg = Some rid \<Longrightarrow>
    map_of (pending_shares (sp s)) rid \<noteq> None \<Longrightarrow>
    loop_step api author xmrig s
      (goto (R_Credit e rid (answer_ok api msg) lines) (remove_pending rid (sp s)) s)"
| Credit: "recv s = R_Credit e rid ok lines \<Longrightarrow>
    loop_step api author xmrig s (goto (R_Handle e lines) (count_answer ok (sp s)) s)"

section \<open>Runs\<close>

text \<open>The state \<open>Miner::initialize\<close> leaves: connected, logged in, the receiver spawned and the
  counters reset; \<open>n\<close> workers.\<close>

definition start_sys :: "nat \<Rightarrow> pool \<Rightarrow> 'v sys" where
  "start_sys n p =
     \<lparr>sp = p, lock = None, subs = replicate n Idle, recv = R_Poll, buf = [], calls = 0,
      drawn = 1, epoch = 1, origins = replicate (allocations p) 1, sent = []\<rparr>"

inductive reachable ::
  "'v json_api \<Rightarrow> bytes \<Rightarrow> bytes \<Rightarrow> bytes \<Rightarrow> webpki \<Rightarrow> nat \<Rightarrow> bytes option \<Rightarrow> nat \<Rightarrow> 'v sys \<Rightarrow> bool"
  for api :: "'v json_api" and agent author xmrig :: bytes and pki :: webpki
    and level :: nat and pin :: "bytes option" and n :: nat where
  Start: "connect_login api agent cenv lenv addr w (with_tls_fingerprint pki level pin) = (Inr (), p)
    \<Longrightarrow> snd (receiver_start sets now p) = p' \<Longrightarrow>
    reachable api agent author xmrig pki level pin n (start_sys n (reset_share_counters p'))"
| Sub: "reachable api agent author xmrig pki level pin n s \<Longrightarrow> sub_step i s s' \<Longrightarrow>
    reachable api agent author xmrig pki level pin n s'"
| Link: "reachable api agent author xmrig pki level pin n s \<Longrightarrow> link_step api agent s s' \<Longrightarrow>
    reachable api agent author xmrig pki level pin n s'"
| Loop: "reachable api agent author xmrig pki level pin n s \<Longrightarrow> loop_step api author xmrig s s' \<Longrightarrow>
    reachable api agent author xmrig pki level pin n s'"

end
