(* ===== verification/Pool_Invariants.thy ===== *)
theory Pool_Invariants
  imports Pool_Threads "HOL-Library.Multiset"
begin

text \<open>
  Invariants of the threads of \<open>Pool_Threads\<close>, each shown for every step of the workers and of
  the receiver: mutual exclusion on the stream, the count of submissions in flight, the ledger
  of the shares, the request ids, and the tie between jobs, shares and streams.
\<close>

section \<open>What the operations leave alone\<close>

text \<open>Each operation changes the fields named here and no others; the stream stays present
  or absent.\<close>

lemma write_submit_frame:
  "write_submit w rid params g p = (r, p') \<Longrightarrow>
     \<exists>st. p' = p\<lparr>stream := st\<rparr> \<and> (st = None \<longleftrightarrow> stream p = None)"
  by (rule exI [of _ "stream p'"])
    (auto simp: write_submit_def split: option.splits prod.splits if_splits)

lemma write_submit_ok:
  "write_submit w rid params g p = (Inr (), p') \<Longrightarrow> stream p \<noteq> None \<and> g = generation p"
  by (auto simp: write_submit_def split: option.splits if_splits)

lemma write_submit_flush:
  "write_submit w rid params g p = (Inl Flush_Error, p') \<Longrightarrow> stream p \<noteq> None \<and> g = generation p"
  by (auto simp: write_submit_def split: option.splits if_splits)

lemma set_read_timeout_frame:
  "\<exists>st. set_read_timeout ok ms p = p\<lparr>stream := st\<rparr> \<and> (st = None \<longleftrightarrow> stream p = None)"
  by (rule exI [of _ "stream (set_read_timeout ok ms p)"])
    (auto simp: set_read_timeout_def split: option.splits)

lemma send_message_frame:
  "send_message w m params p = (r, p') \<Longrightarrow>
     \<exists>st. p' = p\<lparr>stream := st, request_id := request_id p + of_nat (drawn_by p)\<rparr> \<and>
          (st = None \<longleftrightarrow> stream p = None)"
  by (rule exI [of _ "stream p'"])
    (auto simp: send_message_def drawn_by_def next_request_id_def split: option.splits prod.splits)

lemma send_request_frame:
  assumes "send_request api env m params p = (r, p')"
  shows "\<exists>st. p' = p\<lparr>stream := st, request_id := request_id p + of_nat (drawn_by p)\<rparr> \<and>
          (st = None \<longleftrightarrow> stream p = None)"
proof (cases "stream p")
  case None
  then show ?thesis using assms
    by (intro exI [of _ None]) (auto simp: send_request_def drawn_by_def)
next
  case (Some s)
  let ?rq = "\<lparr>rq_id = request_id p, rq_method = m, rq_params = params\<rparr>"
  obtain r1 s1 where w: "write_request (login_write env) ?rq s = (r1, s1)" by fastforce
  let ?p1 = "p\<lparr>request_id := request_id p + 1, stream := Some s1\<rparr>"
  obtain st where t: "set_read_timeout (login_sets_timeout env) 30000 ?p1 = ?p1\<lparr>stream := st\<rparr>"
      "st = None \<longleftrightarrow> stream ?p1 = None"
    using set_read_timeout_frame by blast
  have "p' = ?p1 \<or> p' = ?p1\<lparr>stream := st\<rparr>"
    using assms Some w t(1)
    by (auto simp: send_request_def next_request_id_def Let_def split: sum.splits option.splits)
  then show ?thesis using Some t(2)
    by (intro exI [of _ "stream p'"]) (auto simp: drawn_by_def)
qed

lemma take_job_frame:
  "take_job api msg p = p \<or>
   (\<exists>j. take_job api msg p = install_job j p \<and> job_generation j = generation p)"
  by (auto simp: take_job_def parse_job_generation split: option.splits bind_splits)

lemma login_job_frame:
  "login_job api v p = p \<or>
   (\<exists>j. login_job api v p = install_job j p \<and> job_generation j = generation p)"
  by (auto simp: login_job_def parse_job_generation split: option.splits bind_splits)

lemma decide_frame:
  "rotation_decide now want v p = (r, p') \<Longrightarrow> \<exists>w. p' = p\<lparr>rotation_wait_since := w\<rparr>"
  by (rule exI [of _ "rotation_wait_since p'"])
    (auto simp: rotation_decide_def Let_def split: if_splits)

text \<open>The fields as rewrite rules.\<close>

lemma set_read_timeout_fields [simp]:
  "current_job (set_read_timeout ok ms p) = current_job p"
  "generation (set_read_timeout ok ms p) = generation p"
  "address (set_read_timeout ok ms p) = address p"
  "wallet (set_read_timeout ok ms p) = wallet p"
  "user_wallet (set_read_timeout ok ms p) = user_wallet p"
  "pinned_fingerprint (set_read_timeout ok ms p) = pinned_fingerprint p"
  "accepted_shares (set_read_timeout ok ms p) = accepted_shares p"
  "rejected_shares (set_read_timeout ok ms p) = rejected_shares p"
  "pending_shares (set_read_timeout ok ms p) = pending_shares p"
  "lost_shares (set_read_timeout ok ms p) = lost_shares p"
  "unsent_shares (set_read_timeout ok ms p) = unsent_shares p"
  "submits_in_flight (set_read_timeout ok ms p) = submits_in_flight p"
  "allocations (set_read_timeout ok ms p) = allocations p"
  "request_id (set_read_timeout ok ms p) = request_id p"
  by (simp_all add: set_read_timeout_def split: option.split)

lemma note_donation_target_fields [simp]:
  "current_job (snd (note_donation_target want prev p)) = current_job p"
  "generation (snd (note_donation_target want prev p)) = generation p"
  "address (snd (note_donation_target want prev p)) = address p"
  "wallet (snd (note_donation_target want prev p)) = wallet p"
  "user_wallet (snd (note_donation_target want prev p)) = user_wallet p"
  "pinned_fingerprint (snd (note_donation_target want prev p)) = pinned_fingerprint p"
  "accepted_shares (snd (note_donation_target want prev p)) = accepted_shares p"
  "rejected_shares (snd (note_donation_target want prev p)) = rejected_shares p"
  "pending_shares (snd (note_donation_target want prev p)) = pending_shares p"
  "lost_shares (snd (note_donation_target want prev p)) = lost_shares p"
  "unsent_shares (snd (note_donation_target want prev p)) = unsent_shares p"
  "submits_in_flight (snd (note_donation_target want prev p)) = submits_in_flight p"
  "allocations (snd (note_donation_target want prev p)) = allocations p"
  "request_id (snd (note_donation_target want prev p)) = request_id p"
  "stream (snd (note_donation_target want prev p)) = stream p"
  by (simp_all add: note_donation_target_def split: option.split)

lemma login_job_fields [simp]:
  "generation (login_job api v p) = generation p"
  "address (login_job api v p) = address p"
  "wallet (login_job api v p) = wallet p"
  "user_wallet (login_job api v p) = user_wallet p"
  "pinned_fingerprint (login_job api v p) = pinned_fingerprint p"
  "accepted_shares (login_job api v p) = accepted_shares p"
  "rejected_shares (login_job api v p) = rejected_shares p"
  "pending_shares (login_job api v p) = pending_shares p"
  "lost_shares (login_job api v p) = lost_shares p"
  "unsent_shares (login_job api v p) = unsent_shares p"
  "submits_in_flight (login_job api v p) = submits_in_flight p"
  "request_id (login_job api v p) = request_id p"
  "stream (login_job api v p) = stream p"
  by (simp_all add: login_job_def install_job_def split: option.split)

lemma take_job_fields [simp]:
  "generation (take_job api v p) = generation p"
  "address (take_job api v p) = address p"
  "wallet (take_job api v p) = wallet p"
  "user_wallet (take_job api v p) = user_wallet p"
  "pinned_fingerprint (take_job api v p) = pinned_fingerprint p"
  "accepted_shares (take_job api v p) = accepted_shares p"
  "rejected_shares (take_job api v p) = rejected_shares p"
  "pending_shares (take_job api v p) = pending_shares p"
  "lost_shares (take_job api v p) = lost_shares p"
  "unsent_shares (take_job api v p) = unsent_shares p"
  "submits_in_flight (take_job api v p) = submits_in_flight p"
  "request_id (take_job api v p) = request_id p"
  "stream (take_job api v p) = stream p"
  by (simp_all add: take_job_def install_job_def split: option.split)

lemma count_unsent_fields [simp]:
  "current_job (count_unsent p) = current_job p"
  "generation (count_unsent p) = generation p"
  "address (count_unsent p) = address p"
  "wallet (count_unsent p) = wallet p"
  "user_wallet (count_unsent p) = user_wallet p"
  "pinned_fingerprint (count_unsent p) = pinned_fingerprint p"
  "accepted_shares (count_unsent p) = accepted_shares p"
  "rejected_shares (count_unsent p) = rejected_shares p"
  "pending_shares (count_unsent p) = pending_shares p"
  "lost_shares (count_unsent p) = lost_shares p"
  "submits_in_flight (count_unsent p) = submits_in_flight p"
  "allocations (count_unsent p) = allocations p"
  "request_id (count_unsent p) = request_id p"
  "stream (count_unsent p) = stream p"
  by (simp_all add: share_steps split: option.split)

lemma count_lost_fields [simp]:
  "current_job (count_lost p) = current_job p"
  "generation (count_lost p) = generation p"
  "address (count_lost p) = address p"
  "wallet (count_lost p) = wallet p"
  "user_wallet (count_lost p) = user_wallet p"
  "pinned_fingerprint (count_lost p) = pinned_fingerprint p"
  "accepted_shares (count_lost p) = accepted_shares p"
  "rejected_shares (count_lost p) = rejected_shares p"
  "pending_shares (count_lost p) = pending_shares p"
  "unsent_shares (count_lost p) = unsent_shares p"
  "submits_in_flight (count_lost p) = submits_in_flight p"
  "allocations (count_lost p) = allocations p"
  "request_id (count_lost p) = request_id p"
  "stream (count_lost p) = stream p"
  by (simp_all add: share_steps split: option.split)

lemma count_answer_fields [simp]:
  "current_job (count_answer ok p) = current_job p"
  "generation (count_answer ok p) = generation p"
  "address (count_answer ok p) = address p"
  "wallet (count_answer ok p) = wallet p"
  "user_wallet (count_answer ok p) = user_wallet p"
  "pinned_fingerprint (count_answer ok p) = pinned_fingerprint p"
  "pending_shares (count_answer ok p) = pending_shares p"
  "lost_shares (count_answer ok p) = lost_shares p"
  "unsent_shares (count_answer ok p) = unsent_shares p"
  "submits_in_flight (count_answer ok p) = submits_in_flight p"
  "allocations (count_answer ok p) = allocations p"
  "request_id (count_answer ok p) = request_id p"
  "stream (count_answer ok p) = stream p"
  by (simp_all add: share_steps split: option.split)

lemma register_pending_fields [simp]:
  "current_job (register_pending rid e p) = current_job p"
  "generation (register_pending rid e p) = generation p"
  "address (register_pending rid e p) = address p"
  "wallet (register_pending rid e p) = wallet p"
  "user_wallet (register_pending rid e p) = user_wallet p"
  "pinned_fingerprint (register_pending rid e p) = pinned_fingerprint p"
  "accepted_shares (register_pending rid e p) = accepted_shares p"
  "rejected_shares (register_pending rid e p) = rejected_shares p"
  "lost_shares (register_pending rid e p) = lost_shares p"
  "unsent_shares (register_pending rid e p) = unsent_shares p"
  "submits_in_flight (register_pending rid e p) = submits_in_flight p"
  "allocations (register_pending rid e p) = allocations p"
  "request_id (register_pending rid e p) = request_id p"
  "stream (register_pending rid e p) = stream p"
  by (simp_all add: share_steps split: option.split)

lemma remove_pending_fields [simp]:
  "current_job (remove_pending rid p) = current_job p"
  "generation (remove_pending rid p) = generation p"
  "address (remove_pending rid p) = address p"
  "wallet (remove_pending rid p) = wallet p"
  "user_wallet (remove_pending rid p) = user_wallet p"
  "pinned_fingerprint (remove_pending rid p) = pinned_fingerprint p"
  "accepted_shares (remove_pending rid p) = accepted_shares p"
  "rejected_shares (remove_pending rid p) = rejected_shares p"
  "lost_shares (remove_pending rid p) = lost_shares p"
  "unsent_shares (remove_pending rid p) = unsent_shares p"
  "submits_in_flight (remove_pending rid p) = submits_in_flight p"
  "allocations (remove_pending rid p) = allocations p"
  "request_id (remove_pending rid p) = request_id p"
  "stream (remove_pending rid p) = stream p"
  by (simp_all add: share_steps split: option.split)

lemma next_request_id_fields [simp]:
  "current_job (snd (next_request_id p)) = current_job p"
  "generation (snd (next_request_id p)) = generation p"
  "address (snd (next_request_id p)) = address p"
  "wallet (snd (next_request_id p)) = wallet p"
  "user_wallet (snd (next_request_id p)) = user_wallet p"
  "pinned_fingerprint (snd (next_request_id p)) = pinned_fingerprint p"
  "accepted_shares (snd (next_request_id p)) = accepted_shares p"
  "rejected_shares (snd (next_request_id p)) = rejected_shares p"
  "pending_shares (snd (next_request_id p)) = pending_shares p"
  "lost_shares (snd (next_request_id p)) = lost_shares p"
  "unsent_shares (snd (next_request_id p)) = unsent_shares p"
  "submits_in_flight (snd (next_request_id p)) = submits_in_flight p"
  "allocations (snd (next_request_id p)) = allocations p"
  "stream (snd (next_request_id p)) = stream p"
  by (simp_all add: share_steps split: option.split)

lemma install_stream_fields [simp]:
  "current_job (install_stream st p) = current_job p"
  "address (install_stream st p) = address p"
  "wallet (install_stream st p) = wallet p"
  "user_wallet (install_stream st p) = user_wallet p"
  "pinned_fingerprint (install_stream st p) = pinned_fingerprint p"
  "accepted_shares (install_stream st p) = accepted_shares p"
  "rejected_shares (install_stream st p) = rejected_shares p"
  "pending_shares (install_stream st p) = pending_shares p"
  "lost_shares (install_stream st p) = lost_shares p"
  "unsent_shares (install_stream st p) = unsent_shares p"
  "submits_in_flight (install_stream st p) = submits_in_flight p"
  "allocations (install_stream st p) = allocations p"
  "request_id (install_stream st p) = request_id p"
  by (simp_all add: install_stream_def split: option.split)

lemma begin_login_fields [simp]:
  "current_job (begin_login w p) = current_job p"
  "generation (begin_login w p) = generation p"
  "address (begin_login w p) = address p"
  "pinned_fingerprint (begin_login w p) = pinned_fingerprint p"
  "accepted_shares (begin_login w p) = accepted_shares p"
  "rejected_shares (begin_login w p) = rejected_shares p"
  "pending_shares (begin_login w p) = pending_shares p"
  "lost_shares (begin_login w p) = lost_shares p"
  "unsent_shares (begin_login w p) = unsent_shares p"
  "submits_in_flight (begin_login w p) = submits_in_flight p"
  "allocations (begin_login w p) = allocations p"
  "request_id (begin_login w p) = request_id p"
  "stream (begin_login w p) = stream p"
  by (simp_all add: begin_login_def split: option.split)

lemma enter_submit_fields [simp]:
  "current_job (enter_submit p) = current_job p"
  "generation (enter_submit p) = generation p"
  "address (enter_submit p) = address p"
  "wallet (enter_submit p) = wallet p"
  "user_wallet (enter_submit p) = user_wallet p"
  "pinned_fingerprint (enter_submit p) = pinned_fingerprint p"
  "accepted_shares (enter_submit p) = accepted_shares p"
  "rejected_shares (enter_submit p) = rejected_shares p"
  "pending_shares (enter_submit p) = pending_shares p"
  "lost_shares (enter_submit p) = lost_shares p"
  "unsent_shares (enter_submit p) = unsent_shares p"
  "allocations (enter_submit p) = allocations p"
  "request_id (enter_submit p) = request_id p"
  "stream (enter_submit p) = stream p"
  by (simp_all add: share_steps split: option.split)

lemma leave_submit_fields [simp]:
  "current_job (leave_submit p) = current_job p"
  "generation (leave_submit p) = generation p"
  "address (leave_submit p) = address p"
  "wallet (leave_submit p) = wallet p"
  "user_wallet (leave_submit p) = user_wallet p"
  "pinned_fingerprint (leave_submit p) = pinned_fingerprint p"
  "accepted_shares (leave_submit p) = accepted_shares p"
  "rejected_shares (leave_submit p) = rejected_shares p"
  "pending_shares (leave_submit p) = pending_shares p"
  "lost_shares (leave_submit p) = lost_shares p"
  "unsent_shares (leave_submit p) = unsent_shares p"
  "allocations (leave_submit p) = allocations p"
  "request_id (leave_submit p) = request_id p"
  "stream (leave_submit p) = stream p"
  by (simp_all add: share_steps split: option.split)

lemma set_read_timeout_stream [simp]:
  "stream (set_read_timeout ok ms p) = None \<longleftrightarrow> stream p = None"
  by (auto simp: set_read_timeout_def split: option.splits)

section \<open>Sums over the workers\<close>

lemma sum_map_update:
  fixes w :: "'a \<Rightarrow> 'b::ab_group_add"
  assumes "i < length xs"
  shows "sum_list (map w (xs[i := x])) = sum_list (map w xs) + w x - w (xs ! i)"
  using assms
proof (induction xs arbitrary: i)
  case Nil
  then show ?case by simp
next
  case (Cons y ys)
  then show ?case by (cases i) auto
qed

lemma sum_mset_update:
  fixes w :: "'a \<Rightarrow> 'b multiset"
  assumes "i < length xs"
  shows "sum_list (map w (xs[i := x])) + w (xs ! i) = sum_list (map w xs) + w x"
  using assms
proof (induction xs arbitrary: i)
  case Nil
  then show ?case by simp
next
  case (Cons y ys)
  then show ?case by (cases i) (auto simp: ac_simps)
qed

section \<open>Submissions in flight and the ledger\<close>

text \<open>A call is in flight from \<open>Entered\<close> to \<open>Leaving\<close>; it is still owed to the ledger until it
  is registered or counted as unsent. What the receiver has taken out of the pending shares
  and not yet counted is in its hand.\<close>

fun flight :: "sub_pc \<Rightarrow> u32" where
  "flight Idle = 0"
| "flight (Working a) = 0"
| "flight _ = 1"

fun owed :: "sub_pc \<Rightarrow> u32" where
  "owed Idle = 0"
| "owed (Working a) = 0"
| "owed (Registered k a) = 0"
| "owed (Leaving k a) = 0"
| "owed _ = 1"

fun in_hand :: "'v recv_pc \<Rightarrow> u32" where
  "in_hand (R_Count es u) = of_nat (length es)"
| "in_hand (R_Credit e rid ok lines) = 1"
| "in_hand _ = 0"

definition inv_flight :: "'v sys \<Rightarrow> bool" where
  "inv_flight s \<longleftrightarrow> submits_in_flight (sp s) = sum_list (map flight (subs s))"

definition inv_ledger :: "'v sys \<Rightarrow> bool" where
  "inv_ledger s \<longleftrightarrow>
     of_nat (calls s) = ledger (sp s) + sum_list (map owed (subs s)) + in_hand (recv s)"

lemmas step_simps = set_sub_def at_sub_def goto_def

text \<open>Only \<open>enter_submit\<close> and \<open>leave_submit\<close> touch the count in flight.\<close>

lemma flight_ops [simp]:
  "submits_in_flight (enter_submit p) = submits_in_flight p + 1"
  "submits_in_flight (leave_submit p) = submits_in_flight p - 1"
  by (simp_all add: share_steps)

lemma sub_step_flight: "sub_step i s s' \<Longrightarrow> inv_flight s \<Longrightarrow> inv_flight s'"
  by (erule sub_step.cases)
    (auto simp: inv_flight_def step_simps sum_map_update dest!: write_submit_frame)

lemma link_step_flight: "link_step api agent s s' \<Longrightarrow> inv_flight s \<Longrightarrow> inv_flight s'"
  by (erule link_step.cases)
    (auto simp: inv_flight_def step_simps take_pending_def dest!: send_request_frame)

lemma loop_step_flight: "loop_step api author xmrig s s' \<Longrightarrow> inv_flight s \<Longrightarrow> inv_flight s'"
  by (erule loop_step.cases)
    (auto simp: inv_flight_def step_simps dest!: send_message_frame decide_frame)

section \<open>The ledger\<close>

text \<open>The pending ids that a step may rely on: distinct keys, and a worker that has written
  registers a new one. Both follow from the invariant on the ids below.\<close>

definition register_fresh :: "'v sys \<Rightarrow> bool" where
  "register_fresh s \<longleftrightarrow>
     ids_ok (sp s) \<and>
     (\<forall>i k a nonce rid. at_sub i (Wrote k a nonce rid) s \<longrightarrow>
        rid \<notin> fst ` set (pending_shares (sp s)))"

lemma ledger_stream [simp]:
  "ledger (p\<lparr>stream := st\<rparr>) = ledger p"
  "ledger (p\<lparr>stream := st, request_id := r\<rparr>) = ledger p"
  "ledger (p\<lparr>rotation_wait_since := w\<rparr>) = ledger p"
  "ledger (p\<lparr>rotation_wait_since := w, wallet := wl\<rparr>) = ledger p"
  "ledger (p\<lparr>current_job := j\<rparr>) = ledger p"
  "ledger (p\<lparr>connected := c\<rparr>) = ledger p"
  "ledger (p\<lparr>session_id := sid\<rparr>) = ledger p"
  "ledger (p\<lparr>address := a\<rparr>) = ledger p"
  "ledger (enter_submit p) = ledger p"
  "ledger (leave_submit p) = ledger p"
  "ledger (snd (next_request_id p)) = ledger p"
  "ledger (set_read_timeout ok ms p) = ledger p"
  "ledger (snd (note_donation_target want prev p)) = ledger p"
  "ledger (login_job api v p) = ledger p"
  "ledger (take_job api v p) = ledger p"
  "ledger (install_stream s p) = ledger p"
  "ledger (begin_login w' p) = ledger p"
  by (simp_all add: ledger_def settled_def)

lemma sub_step_ledger:
  "sub_step i s s' \<Longrightarrow> inv_ledger s \<Longrightarrow> register_fresh s \<Longrightarrow> inv_ledger s'"
  by (erule sub_step.cases)
    (auto simp: inv_ledger_def register_fresh_def step_simps sum_map_update ledger_unsent
      ledger_register algebra_simps dest!: write_submit_frame)

lemma link_step_ledger: "link_step api agent s s' \<Longrightarrow> inv_ledger s \<Longrightarrow> inv_ledger s'"
proof (erule link_step.cases, goal_cases)
  case (5 s1 u es p)
  then have "ledger p + of_nat (length es) = ledger (sp s)"
    using ledger_take [of "sp s"] by simp
  then show ?case using 5 by (simp add: inv_ledger_def step_simps)
qed (auto simp: inv_ledger_def step_simps ledger_lost algebra_simps dest!: send_request_frame)

lemma loop_step_ledger:
  "loop_step api author xmrig s s' \<Longrightarrow> inv_ledger s \<Longrightarrow> ids_ok (sp s) \<Longrightarrow> inv_ledger s'"
proof (erule loop_step.cases, goal_cases)
  case (12 s1 e msg lines rid)
  then have "rid \<in> fst ` set (pending_shares (sp s))"
    by (auto dest!: map_of_SomeD intro: rev_image_eqI)
  then have "ledger (remove_pending rid (sp s)) + 1 = ledger (sp s)"
    using 12 by (intro ledger_remove) simp_all
  then show ?case using 12 by (simp add: inv_ledger_def step_simps algebra_simps)
qed (auto simp: inv_ledger_def step_simps ledger_answer algebra_simps
    dest!: send_message_frame decide_frame)

section \<open>The stream lock\<close>

fun holds_lock :: "sub_pc \<Rightarrow> bool" where
  "holds_lock (Holding k a nonce params rid) = True"
| "holds_lock (Wrote k a nonce rid) = True"
| "holds_lock (Registered k a) = True"
| "holds_lock (Refused k a) = True"
| "holds_lock _ = False"

definition inv_lock :: "'v sys \<Rightarrow> bool" where
  "inv_lock s \<longleftrightarrow> (\<forall>i < length (subs s). holds_lock (subs s ! i) \<longleftrightarrow> lock s = Some i)"

lemma sub_step_lock: "sub_step i s s' \<Longrightarrow> inv_lock s \<Longrightarrow> inv_lock s'"
  by (erule sub_step.cases)
    (auto simp: inv_lock_def step_simps nth_list_update split: if_splits)

lemma link_step_lock: "link_step api agent s s' \<Longrightarrow> inv_lock s \<Longrightarrow> inv_lock s'"
  by (erule link_step.cases) (auto simp: inv_lock_def step_simps)

lemma loop_step_lock: "loop_step api author xmrig s s' \<Longrightarrow> inv_lock s \<Longrightarrow> inv_lock s'"
  by (erule loop_step.cases) (auto simp: inv_lock_def step_simps)

section \<open>Request ids\<close>

text \<open>The ids of the workers that are about to write, and of those that have written and not
  yet registered.\<close>

fun held_id :: "sub_pc \<Rightarrow> u64 multiset" where
  "held_id (Ready k a nonce params rid) = {#rid#}"
| "held_id (Holding k a nonce params rid) = {#rid#}"
| "held_id _ = {#}"

fun wrote_id :: "sub_pc \<Rightarrow> u64 multiset" where
  "wrote_id (Wrote k a nonce rid) = {#rid#}"
| "wrote_id _ = {#}"

definition unique :: "'a multiset \<Rightarrow> bool" where
  "unique M \<longleftrightarrow> (\<forall>x. count M x \<le> 1)"

text \<open>\<open>S\<close> are the ids written, \<open>H\<close> those held by workers, \<open>B\<close> those that are pending or about
  to be; \<open>d\<close> ids have been drawn. The ids are \<open>1\<close>, \<open>2\<close> and so on.\<close>

definition ids_inv :: "nat \<Rightarrow> u64 multiset \<Rightarrow> u64 multiset \<Rightarrow> u64 multiset \<Rightarrow> bool" where
  "ids_inv d S H B \<longleftrightarrow>
     unique (S + H) \<and> unique B \<and> set_mset (S + H) \<subseteq> of_nat ` {1..d} \<and> set_mset B \<subseteq> set_mset S"

definition inv_ids :: "'v sys \<Rightarrow> bool" where
  "inv_ids s \<longleftrightarrow>
     request_id (sp s) = of_nat (drawn s) + 1 \<and>
     (drawn s < 2 ^ 64 \<longrightarrow>
        ids_inv (drawn s) (mset (map fst (sent s))) (sum_list (map held_id (subs s)))
          (mset (map fst (pending_shares (sp s))) + sum_list (map wrote_id (subs s))))"

lemma unique_mono: "unique M \<Longrightarrow> N \<subseteq># M \<Longrightarrow> unique N"
  unfolding unique_def by (meson le_trans mset_subset_eq_count)

lemma unique_add: "unique (add_mset x M) \<longleftrightarrow> unique M \<and> x \<notin># M"
proof
  assume u: "unique (add_mset x M)"
  then have "count (add_mset x M) x \<le> 1" unfolding unique_def by blast
  then have "x \<notin># M" by (simp add: not_in_iff)
  moreover have "unique M" using u by (rule unique_mono) simp
  ultimately show "unique M \<and> x \<notin># M" by simp
next
  assume "unique M \<and> x \<notin># M"
  then show "unique (add_mset x M)" by (simp add: unique_def not_in_iff)
qed

lemma unique_mset: "unique (mset xs) \<longleftrightarrow> distinct xs"
  by (induction xs) (auto simp: unique_add unique_def [of "{#}"])

lemma ids_mono:
  assumes "ids_inv d S H B" "d \<le> d'" "H' \<subseteq># H" "B' \<subseteq># B"
  shows "ids_inv d' S H' B'"
proof -
  have "S + H' \<subseteq># S + H" using assms(3) by simp
  moreover have "set_mset (S + H') \<subseteq> set_mset (S + H)" "set_mset B' \<subseteq> set_mset B"
    using assms(3,4) by (auto dest: mset_subset_eqD)
  moreover have "of_nat ` {1..d} \<subseteq> (of_nat ` {1..d'} :: u64 set)" using assms(2) by auto
  ultimately show ?thesis using assms unfolding ids_inv_def by (blast intro: unique_mono)
qed

lemma ids_draw:
  assumes "ids_inv d S H B" "Suc d < 2 ^ 64"
  shows "ids_inv (Suc d) S (add_mset (of_nat d + 1) H) B"
proof -
  have "(of_nat (Suc d) :: u64) \<notin> of_nat ` {1..d}"
  proof
    assume "(of_nat (Suc d) :: u64) \<in> of_nat ` {1..d}"
    then obtain k where k: "(of_nat (Suc d) :: u64) = of_nat k" "k \<in> {1..d}" by blast
    then have "unat (of_nat (Suc d) :: u64) = unat (of_nat k :: u64)" by simp
    then have "Suc d = k" using assms(2) k(2) unfolding unat_of_nat by simp
    then show False using k(2) by simp
  qed
  then have fresh: "of_nat d + 1 \<notin> (of_nat ` {1..d} :: u64 set)"
    by (simp add: add.commute)
  have "(of_nat d + 1 :: u64) = of_nat (Suc d)" by simp
  then have new: "of_nat d + 1 \<in> (of_nat ` {1..Suc d} :: u64 set)"
    by (metis atLeastAtMost_iff imageI le_refl One_nat_def Suc_le_mono le0)
  have "of_nat ` {1..d} \<subseteq> (of_nat ` {1..Suc d} :: u64 set)" by auto
  then show ?thesis using assms(1) fresh new unfolding ids_inv_def
    by (simp only: unique_add union_mset_add_mset_right set_mset_add_mset_insert) blast
qed

lemma ids_write:
  assumes "ids_inv d S (add_mset rid H) B"
  shows "ids_inv d (add_mset rid S) H (add_mset rid B)"
  using assms unfolding ids_inv_def by (auto simp: unique_add)

lemma ids_flush:
  assumes "ids_inv d S (add_mset rid H) B"
  shows "ids_inv d (add_mset rid S) H B"
  using assms unfolding ids_inv_def by (auto simp: unique_add)

text \<open>A worker's move as it changes the sums.\<close>

lemma sum_same:
  fixes w :: "'a \<Rightarrow> 'b multiset"
  assumes "i < length xs" "w x = w (xs ! i)"
  shows "sum_list (map w (xs[i := x])) = sum_list (map w xs)"
  using sum_mset_update [OF assms(1), of w x] assms(2) by simp

lemma sum_gain:
  fixes w :: "'a \<Rightarrow> 'b multiset"
  assumes "i < length xs" "w (xs ! i) = {#}"
  shows "sum_list (map w (xs[i := x])) = w x + sum_list (map w xs)"
  using sum_mset_update [OF assms(1), of w x] assms(2) by simp

lemma sum_loss:
  fixes w :: "'a \<Rightarrow> 'b multiset"
  assumes "i < length xs" "w x = {#}"
  shows "sum_list (map w xs) = w (xs ! i) + sum_list (map w (xs[i := x]))"
  using sum_mset_update [OF assms(1), of w x] assms(2) by (simp add: add.commute)

lemma update_fresh_keys:
  "k \<notin> fst ` set xs \<Longrightarrow> 
     image_mset fst (mset (AList.update k v xs)) = add_mset k (image_mset fst (mset xs))"
  by (induction xs) auto

lemma mset_delete_keys: "mset (map fst (AList.delete k xs)) \<subseteq># mset (map fst xs)"
  by (induction xs) (auto simp: AList.delete_eq intro: subset_mset.order_trans)

lemma inv_ids_fresh:
  assumes "inv_ids s" "drawn s < 2 ^ 64"
  shows "register_fresh s"
proof -
  let ?P = "mset (map fst (pending_shares (sp s)))"
  have u: "unique (?P + sum_list (map wrote_id (subs s)))"
    using assms by (simp add: inv_ids_def ids_inv_def)
  then have "unique ?P" by (rule unique_mono) simp
  then have "ids_ok (sp s)" unfolding ids_ok_def unique_mset .
  moreover have "rid \<notin> fst ` set (pending_shares (sp s))"
    if "at_sub i (Wrote k a nonce rid) s" for i k a nonce rid
  proof -
    have i: "i < length (subs s)" "subs s ! i = Wrote k a nonce rid"
      using that by (simp_all add: at_sub_def)
    have "sum_list (map wrote_id (subs s)) =
        add_mset rid (sum_list (map wrote_id ((subs s)[i := Idle])))"
      using sum_loss [OF i(1), of wrote_id Idle] i(2) by simp
    then have "unique (add_mset rid (?P + sum_list (map wrote_id ((subs s)[i := Idle]))))"
      using u by simp
    then have "rid \<notin># ?P" by (simp add: unique_add)
    then show ?thesis by simp
  qed
  ultimately show ?thesis by (simp add: register_fresh_def)
qed

text \<open>The weights of a step are evaluated at its two program counters.\<close>

lemma sub_step_ids:
  assumes "sub_step i s s'" "inv_ids s"
  shows "inv_ids s'"
  using assms(1)
proof cases
  case (Draw_Id k a nonce params)
  then show ?thesis using assms(2) ids_draw [of "drawn s"]
    by (auto simp: inv_ids_def step_simps sum_same sum_gain next_request_id_def)
next
  case (Write_Ok k a nonce params rid w p)
  then obtain st where p: "p = (sp s)\<lparr>stream := st\<rparr>" by (auto dest: write_submit_frame)
  let ?x = "Wrote k a nonce rid"
  have i: "i < length (subs s)" "subs s ! i = Holding k a nonce params rid"
    using Write_Ok by (simp_all add: at_sub_def)
  have "sum_list (map held_id (subs s)) = add_mset rid (sum_list (map held_id ((subs s)[i := ?x])))"
    using sum_loss [OF i(1), of held_id ?x] i(2) by simp
  moreover have "sum_list (map wrote_id ((subs s)[i := ?x])) = add_mset rid (sum_list (map wrote_id (subs s)))"
    using sum_gain [OF i(1), of wrote_id ?x] i(2) by simp
  ultimately show ?thesis using assms(2) Write_Ok p
    by (auto simp: inv_ids_def step_simps dest!: ids_write)
next
  case (Write_Refused k a nonce params rid w e p)
  then obtain st where p: "p = (sp s)\<lparr>stream := st\<rparr>" by (auto dest: write_submit_frame)
  let ?x = "Refused k a"
  have i: "i < length (subs s)" "subs s ! i = Holding k a nonce params rid"
    using Write_Refused by (simp_all add: at_sub_def)
  have h: "sum_list (map held_id (subs s)) = add_mset rid (sum_list (map held_id ((subs s)[i := ?x])))"
    using sum_loss [OF i(1), of held_id ?x] i(2) by simp
  have w: "sum_list (map wrote_id ((subs s)[i := ?x])) = sum_list (map wrote_id (subs s))"
    using sum_same [OF i(1), of wrote_id ?x] i(2) by simp
  show ?thesis
  proof (cases "e = Flush_Error")
    case True
    then show ?thesis using assms(2) Write_Refused p h w
      by (auto simp: inv_ids_def step_simps dest!: ids_flush)
  next
    case False
    then show ?thesis using assms(2) Write_Refused p h w
      by (auto simp: inv_ids_def step_simps elim!: ids_mono)
  qed
next
  case (Register k a nonce rid now)
  let ?x = "Registered k a"
  have i: "i < length (subs s)" "subs s ! i = Wrote k a nonce rid"
    using Register by (simp_all add: at_sub_def)
  have h: "sum_list (map held_id ((subs s)[i := ?x])) = sum_list (map held_id (subs s))"
    using sum_same [OF i(1), of held_id ?x] i(2) by simp
  have w: "sum_list (map wrote_id (subs s)) = add_mset rid (sum_list (map wrote_id ((subs s)[i := ?x])))"
    using sum_loss [OF i(1), of wrote_id ?x] i(2) by simp
  have "rid \<notin> fst ` set (pending_shares (sp s))" if "drawn s < 2 ^ 64"
    using inv_ids_fresh [OF assms(2) that] Register(2) by (auto simp: register_fresh_def)
  then show ?thesis using assms(2) Register h w
    by (auto simp: inv_ids_def step_simps register_pending_def update_fresh_keys)
qed (use assms(2) in \<open>auto simp: inv_ids_def step_simps sum_same\<close>)

lemma inv_ids_same:
  assumes "inv_ids s" "request_id p = request_id (sp s) + of_nat n" "pending_shares p = pending_shares (sp s)"
    "sp s' = p" "drawn s' = drawn s + n" "sent s' = sent s" "subs s' = subs s"
  shows "inv_ids s'"
  using assms by (auto simp: inv_ids_def algebra_simps elim!: ids_mono)

lemma link_step_ids:
  assumes "link_step api agent s s'" "inv_ids s"
  shows "inv_ids s'"
  using assms(1)
proof cases
  case (Login_Failed u env e p)
  then show ?thesis
    by (intro inv_ids_same [OF assms(2), where n = "drawn_by (sp s)"])
      (auto simp: step_simps dest!: send_request_frame)
next
  case (Login_Answered u env v p)
  then show ?thesis
    by (intro inv_ids_same [OF assms(2), where n = "drawn_by (sp s)"])
      (auto simp: step_simps dest!: send_request_frame)
qed (use assms(2) in \<open>auto simp: inv_ids_def step_simps take_pending_def elim!: ids_mono\<close>)

lemma loop_step_ids:
  assumes "loop_step api author xmrig s s'" "inv_ids s"
  shows "inv_ids s'"
  using assms(1)
proof cases
  case (Keepalive w r p)
  then show ?thesis
    by (intro inv_ids_same [OF assms(2), where n = "drawn_by (sp s)"])
      (auto simp: step_simps dest!: send_message_frame)
next
  case (Answer e msg lines rid)
  then show ?thesis using assms(2) mset_delete_keys [of rid "pending_shares (sp s)"]
    by (auto simp: inv_ids_def step_simps remove_pending_def elim!: ids_mono)
qed (use assms(2) in \<open>auto simp: inv_ids_def step_simps dest!: decide_frame\<close>)

end
