(* ===== verification/Pool_Streams.thy ===== *)
theory Pool_Streams
  imports Pool_Invariants
begin

text \<open>
  The tie between jobs, shares and streams in the threads of \<open>Pool_Threads\<close>: a job is stamped
  with the stream it arrived on, a share is only written to the stream its job arrived on, and
  a counted answer is for a share written to the stream the answer was read from.
\<close>

section \<open>The invariant\<close>

fun sub_job :: "sub_pc \<Rightarrow> arc_job option" where
  "sub_job Idle = None"
| "sub_job (Working a) = Some a"
| "sub_job (Entered k a nonce result) = Some a"
| "sub_job (Has_Params k a nonce params) = Some a"
| "sub_job (Ready k a nonce params rid) = Some a"
| "sub_job (Holding k a nonce params rid) = Some a"
| "sub_job (Wrote k a nonce rid) = Some a"
| "sub_job (Registered k a) = Some a"
| "sub_job (Refused k a) = Some a"
| "sub_job (Failed k a) = Some a"
| "sub_job (Leaving k a) = Some a"

text \<open>The stages of the receiver in which there is no current job, no stream, nothing pending,
  no job of the stream in place, and in which it works on what it has read.\<close>

fun no_job :: "'v recv_pc \<Rightarrow> bool" where
  "no_job R_Poll = False"
| "no_job (R_Gated b v k) = False"
| "no_job (R_Drop u) = False"
| "no_job (R_Settle u) = False"
| "no_job (R_Handle e lines) = False"
| "no_job (R_Answer e msg lines) = False"
| "no_job (R_Credit e rid ok lines) = False"
| "no_job R_Stopped = True"
| "no_job _ = True"

fun offline :: "'v recv_pc \<Rightarrow> bool" where
  "offline (R_Clear u) = True"
| "offline (R_Take u) = True"
| "offline (R_Count es u) = True"
| "offline (R_Attempt u) = True"
| "offline (R_Install st u) = True"
| "offline _ = False"

fun new_link :: "'v recv_pc \<Rightarrow> bool" where
  "new_link (R_Connected u) = True"
| "new_link (R_Login u) = True"
| "new_link (R_Reply v u) = True"
| "new_link (R_Job v u) = True"
| "new_link _ = False"

fun aborting :: "'v recv_pc \<Rightarrow> bool" where
  "aborting (R_Abort u) = True"
| "aborting _ = False"

fun counted :: "'v recv_pc \<Rightarrow> bool" where
  "counted (R_Count es u) = True"
| "counted (R_Attempt u) = True"
| "counted (R_Install st u) = True"
| "counted pc = (new_link pc \<or> aborting pc)"

fun reading :: "'v recv_pc \<Rightarrow> nat option" where
  "reading (R_Handle e lines) = Some e"
| "reading (R_Answer e msg lines) = Some e"
| "reading (R_Credit e rid ok lines) = Some e"
| "reading _ = None"

fun listening :: "'v recv_pc \<Rightarrow> bool" where
  "listening R_Poll = True"
| "listening (R_Gated b v k) = True"
| "listening pc = (reading pc \<noteq> None)"

definition job_ok :: "'v sys \<Rightarrow> arc_job \<Rightarrow> bool" where
  "job_ok s a \<longleftrightarrow>
     arc_ptr a < length (origins s) \<and>
     job_generation (arc_val a) = of_nat (origins s ! arc_ptr a)"

definition origin :: "'v sys \<Rightarrow> arc_job \<Rightarrow> nat" where
  "origin s a = origins s ! arc_ptr a"

text \<open>Every job object knows the stream it arrived on.\<close>

definition inv_jobs :: "'v sys \<Rightarrow> bool" where
  "inv_jobs s \<longleftrightarrow>
     length (origins s) = allocations (sp s) \<and>
     generation (sp s) = of_nat (epoch s) \<and>
     (\<forall>x \<in> set (origins s). x \<le> epoch s) \<and>
     (\<forall>a. current_job (sp s) = Some a \<longrightarrow> job_ok s a \<and> origin s a = epoch s) \<and>
     (\<forall>i < length (subs s). \<forall>a. sub_job (subs s ! i) = Some a \<longrightarrow> job_ok s a)"

text \<open>The receiver's stages.\<close>

definition inv_link :: "'v sys \<Rightarrow> bool" where
  "inv_link s \<longleftrightarrow>
     (no_job (recv s) \<longrightarrow> current_job (sp s) = None) \<and>
     (offline (recv s) \<longrightarrow> stream (sp s) = None) \<and>
     (counted (recv s) \<longrightarrow> pending_shares (sp s) = []) \<and>
     (new_link (recv s) \<longrightarrow> (\<forall>x \<in> set (origins s). x < epoch s)) \<and>
     (aborting (recv s) \<longrightarrow> stream (sp s) = None \<or> (\<forall>x \<in> set (origins s). x < epoch s))"

text \<open>What has been written, and what has been read.\<close>

definition to_its_stream :: "'v sys \<Rightarrow> u64 \<times> nat \<times> arc_job \<Rightarrow> bool" where
  "to_its_stream s x \<longleftrightarrow> job_ok s (snd (snd x)) \<and> fst (snd x) = origin s (snd (snd x))"

definition on_this_stream :: "'v sys \<Rightarrow> u64 \<Rightarrow> bool" where
  "on_this_stream s rid \<longleftrightarrow> (\<exists>a. (rid, epoch s, a) \<in> set (sent s))"

definition wrote_ok :: "'v sys \<Rightarrow> arc_job \<Rightarrow> u64 \<Rightarrow> bool" where
  "wrote_ok s a rid \<longleftrightarrow>
     stream (sp s) \<noteq> None \<and> origin s a = epoch s \<and> (rid, epoch s, a) \<in> set (sent s)"

definition inv_sent :: "'v sys \<Rightarrow> bool" where
  "inv_sent s \<longleftrightarrow>
     (\<forall>x \<in> set (sent s). to_its_stream s x) \<and>
     (\<forall>rid \<in> fst ` set (pending_shares (sp s)). on_this_stream s rid) \<and>
     (\<forall>i k a nonce rid. at_sub i (Wrote k a nonce rid) s \<longrightarrow> wrote_ok s a rid)"

definition inv_read :: "'v sys \<Rightarrow> bool" where
  "inv_read s \<longleftrightarrow>
     (\<forall>e. reading (recv s) = Some e \<longrightarrow> e = epoch s \<and> stream (sp s) \<noteq> None) \<and>
     (listening (recv s) \<and> stream (sp s) \<noteq> None \<longrightarrow> (\<forall>x \<in> set (buf s). fst x = epoch s))"

definition inv_streams :: "'v sys \<Rightarrow> bool" where
  "inv_streams s \<longleftrightarrow> inv_jobs s \<and> inv_link s \<and> inv_sent s \<and> inv_read s"

section \<open>Workers\<close>

lemma of_nat_eq_u64:
  "(of_nat m :: u64) = of_nat n \<Longrightarrow> m < 2 ^ 64 \<Longrightarrow> n < 2 ^ 64 \<Longrightarrow> m = n"
  by (drule arg_cong [of _ _ unat]) (simp add: unat_of_nat)

text \<open>A share that passes the check under the lock has a job of the current stream.\<close>

lemma written_origin:
  assumes "inv_jobs s" "job_ok s a" "job_generation (arc_val a) = generation (sp s)"
    "epoch s < 2 ^ 64"
  shows "origin s a = epoch s"
proof (rule of_nat_eq_u64)
  show "(of_nat (origin s a) :: u64) = of_nat (epoch s)"
    using assms(1-3) by (simp add: inv_jobs_def job_ok_def origin_def)
  have "origin s a \<in> set (origins s)" using assms(2) by (simp add: job_ok_def origin_def)
  then have "origin s a \<le> epoch s" using assms(1) by (simp add: inv_jobs_def)
  then show "origin s a < 2 ^ 64" using assms(4) by simp
qed (rule assms(4))

lemma job_ok_cong:
  "origins s' = origins s \<Longrightarrow> job_ok s' a = job_ok s a"
  "origins s' = origins s \<Longrightarrow> origin s' a = origin s a"
  by (simp_all add: job_ok_def origin_def)

lemma sub_step_jobs: "sub_step i s s' \<Longrightarrow> inv_jobs s \<Longrightarrow> inv_jobs s'"
  by (erule sub_step.cases)
    (auto simp: inv_jobs_def job_ok_def origin_def step_simps nth_list_update get_work_def
      split: if_splits dest!: write_submit_frame)

text \<open>No worker is between its write and its registration while the link is replaced.\<close>

lemma no_write_when_counted:
  assumes "inv_streams s" "at_sub i (Wrote k a nonce rid) s"
  shows "\<not> counted (recv s)"
proof -
  have w: "stream (sp s) \<noteq> None" "origin s a = epoch s"
    using assms by (auto simp: inv_streams_def inv_sent_def wrote_ok_def)
  have "job_ok s a" using assms
    by (auto simp: inv_streams_def inv_jobs_def at_sub_def)
  then have "epoch s \<in> set (origins s)"
    using w(2) nth_mem [of "arc_ptr a" "origins s"] by (simp add: job_ok_def origin_def)
  then have n: "\<not> (\<forall>x \<in> set (origins s). x < epoch s)" by auto
  have "\<not> offline (recv s)" "\<not> new_link (recv s)" "\<not> aborting (recv s)"
    using assms(1) w(1) n by (auto simp: inv_streams_def inv_link_def)
  then show ?thesis by (cases "recv s") simp_all
qed

lemma sub_step_link: "sub_step i s s' \<Longrightarrow> inv_streams s \<Longrightarrow> inv_link s'"
proof (erule sub_step.cases, goal_cases)
  case (9 s1 k a nonce rid now)
  then have "\<not> counted (recv s)" using no_write_when_counted by blast
  then show ?case using 9 by (auto simp: inv_streams_def inv_link_def step_simps)
qed (auto simp: inv_streams_def inv_link_def step_simps dest!: write_submit_frame)

lemma sub_step_read: "sub_step i s s' \<Longrightarrow> inv_read s \<Longrightarrow> inv_read s'"
  by (erule sub_step.cases) (auto simp: inv_read_def step_simps dest!: write_submit_frame)

text \<open>A step that leaves the streams alone keeps what has been written.\<close>

lemma inv_sentD:
  assumes "inv_sent s"
  shows "x \<in> set (sent s) \<Longrightarrow> to_its_stream s x"
    and "rid \<in> fst ` set (pending_shares (sp s)) \<Longrightarrow> on_this_stream s rid"
    and "at_sub i (Wrote k a nonce rid) s \<Longrightarrow> wrote_ok s a rid"
  using assms unfolding inv_sent_def by (elim conjE, metis)+

lemma inv_sent_keep:
  assumes "inv_sent s" "origins s' = origins s" "epoch s' = epoch s"
    "stream (sp s') = None \<longleftrightarrow> stream (sp s) = None" "sent s' = xs @ sent s"
    "\<And>x. x \<in> set xs \<Longrightarrow> to_its_stream s x"
    "\<And>rid. rid \<in> fst ` set (pending_shares (sp s')) \<Longrightarrow>
       rid \<in> fst ` set (pending_shares (sp s)) \<or> on_this_stream s rid"
    "\<And>i k a nonce rid. at_sub i (Wrote k a nonce rid) s' \<Longrightarrow>
       at_sub i (Wrote k a nonce rid) s \<or> wrote_ok s' a rid"
  shows "inv_sent s'"
proof -
  have keep: "wrote_ok s a rid \<Longrightarrow> wrote_ok s' a rid" for a rid
    using assms(3-5) by (simp add: wrote_ok_def job_ok_cong [OF assms(2)])
  have "to_its_stream s x" if "x \<in> set (sent s')" for x
    using that inv_sentD(1) [OF assms(1), of x] assms(6) [of x] assms(5) by auto
  then have 1: "to_its_stream s' x" if "x \<in> set (sent s')" for x
    using that by (simp add: to_its_stream_def job_ok_cong [OF assms(2)])
  have "on_this_stream s rid" if "rid \<in> fst ` set (pending_shares (sp s'))" for rid
    using assms(7) [OF that] inv_sentD(2) [OF assms(1), of rid] by (elim disjE)
  then have 2: "on_this_stream s' rid" if "rid \<in> fst ` set (pending_shares (sp s'))" for rid
    using that assms(3,5) by (fastforce simp: on_this_stream_def)
  have 3: "wrote_ok s' a rid" if "at_sub i (Wrote k a nonce rid) s'" for i k a nonce rid
    by (rule disjE [OF assms(8) [OF that]]) (erule keep [OF inv_sentD(3) [OF assms(1)]])
  show ?thesis unfolding inv_sent_def using 1 2 3 by (intro conjI allI ballI impI)
qed

lemma at_sub_set [simp]:
  "at_sub j pc (set_sub i x s) \<longleftrightarrow>
     (if j = i then i < length (subs s) \<and> pc = x else at_sub j pc s)"
  by (auto simp: at_sub_def set_sub_def nth_list_update)

lemma at_sub_update [simp]:
  "at_sub i pc (s\<lparr>sp := p\<rparr>) = at_sub i pc s"
  "at_sub i pc (s\<lparr>lock := l\<rparr>) = at_sub i pc s"
  "at_sub i pc (s\<lparr>calls := c\<rparr>) = at_sub i pc s"
  "at_sub i pc (s\<lparr>drawn := d\<rparr>) = at_sub i pc s"
  "at_sub i pc (s\<lparr>sent := t\<rparr>) = at_sub i pc s"
  "at_sub i pc (s\<lparr>recv := r\<rparr>) = at_sub i pc s"
  "at_sub i pc (s\<lparr>buf := b\<rparr>) = at_sub i pc s"
  "at_sub i pc (s\<lparr>epoch := e\<rparr>) = at_sub i pc s"
  "at_sub i pc (s\<lparr>origins := os\<rparr>) = at_sub i pc s"
  by (simp_all add: at_sub_def)

lemma sub_fields [simp]:
  "sp (set_sub i x s) = sp s" "origins (set_sub i x s) = origins s"
  "epoch (set_sub i x s) = epoch s" "sent (set_sub i x s) = sent s"
  "recv (set_sub i x s) = recv s" "buf (set_sub i x s) = buf s"
  by (simp_all add: set_sub_def)

lemma sub_step_sent:
  assumes "sub_step i s s'" "inv_streams s" "epoch s < 2 ^ 64"
  shows "inv_sent s'"
proof -
  have inv: "inv_sent s" using assms(2) by (simp add: inv_streams_def)
  have ok: "to_its_stream s (rid, epoch s, a)"
    if "at_sub i (Holding k a nonce params rid) s" "job_generation (arc_val a) = generation (sp s)"
    for k a nonce params rid
  proof -
    have "job_ok s a" using assms(2) that(1)
      by (auto simp: inv_streams_def inv_jobs_def at_sub_def)
    moreover have "origin s a = epoch s"
      using assms(2,3) that(2) calculation by (auto simp: inv_streams_def intro: written_origin)
    ultimately show ?thesis by (simp add: to_its_stream_def)
  qed
  show ?thesis
    using assms(1)
  proof cases
    case (Write_Ok k a nonce params rid w p)
    obtain st where p: "p = (sp s)\<lparr>stream := st\<rparr>" "st = None \<longleftrightarrow> stream (sp s) = None"
      using Write_Ok(3) by (auto dest: write_submit_frame)
    have w: "stream (sp s) \<noteq> None" "job_generation (arc_val a) = generation (sp s)"
      using Write_Ok(3) by (auto dest: write_submit_ok)
    note t = ok [OF Write_Ok(2) w(2)]
    have "wrote_ok s' a rid"
      using Write_Ok(1) p w t by (simp add: wrote_ok_def to_its_stream_def origin_def)
    then show ?thesis using Write_Ok(1) p t
      by (intro inv_sent_keep [OF inv, where xs = "[(rid, epoch s, a)]"]) (auto split: if_splits)
  next
    case (Write_Refused k a nonce params rid w e p)
    obtain st where p: "p = (sp s)\<lparr>stream := st\<rparr>" "st = None \<longleftrightarrow> stream (sp s) = None"
      using Write_Refused(3) by (auto dest: write_submit_frame)
    have "to_its_stream s (rid, epoch s, a)" if "e = Flush_Error"
      using ok [OF Write_Refused(2)] Write_Refused(3) that by (auto dest: write_submit_flush)
    then show ?thesis using Write_Refused(1) p
      by (intro inv_sent_keep [OF inv, where xs = "if e = Flush_Error then [(rid, epoch s, a)] else []"])
        (auto split: if_splits)
  next
    case (Register k a nonce rid now)
    then have "wrote_ok s a rid" by (intro inv_sentD(3) [OF inv])
    then have "on_this_stream s rid" unfolding wrote_ok_def on_this_stream_def by blast
    then show ?thesis using Register(1)
      by (intro inv_sent_keep [OF inv, where xs = "[]"])
        (auto simp: register_pending_def dom_update split: if_splits)
  qed (auto intro!: inv_sent_keep [OF inv, where xs = "[]"] split: if_splits)
qed

section \<open>The receiver\<close>

text \<open>A step that installs no job and no stream.\<close>

lemma inv_jobs_keep:
  assumes "inv_jobs s" "origins s' = origins s" "epoch s' = epoch s" "subs s' = subs s"
    "allocations (sp s') = allocations (sp s)" "generation (sp s') = generation (sp s)"
    "current_job (sp s') = current_job (sp s) \<or> current_job (sp s') = None"
  shows "inv_jobs s'"
  using assms(1,3-7) unfolding inv_jobs_def
  by (auto simp: job_ok_cong [OF assms(2)] assms(2))

text \<open>A job installed from a message that was read on the current stream.\<close>

lemma job_ok_append:
  "job_ok s a \<Longrightarrow> origins s' = origins s @ xs \<Longrightarrow> job_ok s' a \<and> origin s' a = origin s a"
  by (simp add: job_ok_def origin_def nth_append)

lemma inv_jobs_install:
  assumes "inv_jobs s" "job_generation j = generation (sp s)"
    "sp s' = install_job j (sp s)" "origins s' = origins s @ [epoch s]"
    "epoch s' = epoch s" "subs s' = subs s"
  shows "inv_jobs s'"
proof -
  have keep: "job_ok s' a" if "job_ok s a" for a
    using job_ok_append [OF that assms(4)] by simp
  show ?thesis using assms(1-3,5,6) keep unfolding inv_jobs_def
    by (auto simp: assms(4) install_job_def job_ok_def origin_def nth_append)
qed

lemma link_step_jobs:
  assumes "link_step api agent s s'" "inv_jobs s" "inv_link s"
  shows "inv_jobs s'"
  using assms(1)
proof cases
  case (Install st u)
  then show ?thesis using assms(2,3)
    by (auto simp: inv_jobs_def inv_link_def goto_def install_stream_def job_ok_def origin_def)
next
  case (Job v u p)
  have "login_job api v (sp s) = sp s \<or>
      (\<exists>j. login_job api v (sp s) = install_job j (sp s) \<and> job_generation j = generation (sp s))"
    by (rule login_job_frame)
  then show ?thesis
  proof
    assume "login_job api v (sp s) = sp s"
    then show ?thesis using Job
      by (intro inv_jobs_keep [OF assms(2)]) (auto simp: goto_def)
  next
    assume "\<exists>j. login_job api v (sp s) = install_job j (sp s) \<and>
        job_generation j = generation (sp s)"
    then obtain j where "login_job api v (sp s) = install_job j (sp s)"
      "job_generation j = generation (sp s)" by blast
    then show ?thesis using Job
      by (intro inv_jobs_install [OF assms(2), of j]) (auto simp: goto_def install_job_def)
  qed
qed (auto intro!: inv_jobs_keep [OF assms(2)] simp: goto_def take_pending_def
      dest!: send_request_frame)

lemma loop_step_jobs:
  assumes "loop_step api author xmrig s s'" "inv_jobs s" "inv_read s"
  shows "inv_jobs s'"
  using assms(1)
proof cases
  case (Parsed e line lines msg p)
  have e: "e = epoch s" using assms(3) Parsed by (simp add: inv_read_def)
  have "take_job api msg (sp s) = sp s \<or>
      (\<exists>j. take_job api msg (sp s) = install_job j (sp s) \<and> job_generation j = generation (sp s))"
    by (rule take_job_frame)
  then show ?thesis
  proof
    assume "take_job api msg (sp s) = sp s"
    then show ?thesis using Parsed
      by (intro inv_jobs_keep [OF assms(2)]) (auto simp: goto_def)
  next
    assume "\<exists>j. take_job api msg (sp s) = install_job j (sp s) \<and>
        job_generation j = generation (sp s)"
    then obtain j where "take_job api msg (sp s) = install_job j (sp s)"
      "job_generation j = generation (sp s)" by blast
    then show ?thesis using Parsed e
      by (intro inv_jobs_install [OF assms(2), of j]) (auto simp: goto_def install_job_def)
  qed
qed (auto intro!: inv_jobs_keep [OF assms(2)] simp: goto_def
      dest!: send_message_frame decide_frame)

lemma link_step_link:
  assumes "link_step api agent s s'" "inv_jobs s" "inv_link s"
  shows "inv_link s'"
  using assms(1)
proof cases
  case (Install st u)
  then show ?thesis using assms(2,3)
    by (auto simp: inv_link_def inv_jobs_def goto_def less_Suc_eq_le)
qed (use assms(2,3) in \<open>auto simp: inv_link_def inv_jobs_def goto_def take_pending_def
      dest!: send_request_frame\<close>)

lemma loop_step_link: "loop_step api author xmrig s s' \<Longrightarrow> inv_link s \<Longrightarrow> inv_link s'"
  by (erule loop_step.cases)
    (auto simp: inv_link_def goto_def dest!: send_message_frame decide_frame)

text \<open>No worker is between its write and its registration when the lock is free.\<close>

lemma no_write_when_free:
  assumes "inv_lock s" "lock s = None"
  shows "\<not> at_sub i (Wrote k a nonce rid) s"
  using assms by (auto simp: inv_lock_def at_sub_def)

lemma goto_fields [simp]:
  "sp (goto pc p s) = p" "origins (goto pc p s) = origins s" "epoch (goto pc p s) = epoch s"
  "sent (goto pc p s) = sent s" "recv (goto pc p s) = pc" "buf (goto pc p s) = buf s"
  "subs (goto pc p s) = subs s" "at_sub i x (goto pc p s) = at_sub i x s"
  by (simp_all add: goto_def)

lemma inv_sent_free:
  assumes "inv_sent s" "\<And>i k a nonce rid. \<not> at_sub i (Wrote k a nonce rid) s"
    "origins s' = origins s" "sent s' = sent s" "subs s' = subs s"
    "epoch s' = epoch s \<and> pending_shares (sp s') = pending_shares (sp s) \<or> pending_shares (sp s') = []"
  shows "inv_sent s'"
proof -
  have "to_its_stream s' x" if "x \<in> set (sent s')" for x
    using inv_sentD(1) [OF assms(1), of x] that assms(4)
    by (simp add: to_its_stream_def job_ok_cong [OF assms(3)])
  moreover have "on_this_stream s' rid" if "rid \<in> fst ` set (pending_shares (sp s'))" for rid
  proof -
    have "pending_shares (sp s') \<noteq> []" using that by auto
    then have e: "epoch s' = epoch s" "pending_shares (sp s') = pending_shares (sp s)"
      using assms(6) by auto
    then have "on_this_stream s rid" using that by (intro inv_sentD(2) [OF assms(1)]) simp
    then show ?thesis using e(1) assms(4) by (simp add: on_this_stream_def)
  qed
  moreover have "\<not> at_sub i (Wrote k a nonce rid) s'" for i k a nonce rid
    using assms(2) [of i k a nonce rid] assms(5) by (simp add: at_sub_def)
  ultimately show ?thesis unfolding inv_sent_def by (intro conjI allI ballI impI) simp_all
qed

lemma link_step_sent:
  assumes "link_step api agent s s'" "inv_streams s" "inv_lock s"
  shows "inv_sent s'"
proof -
  have inv: "inv_sent s" "inv_jobs s" "inv_link s" using assms(2) by (simp_all add: inv_streams_def)
  note free = inv_sent_free [OF inv(1) no_write_when_free [OF assms(3)]]
  show ?thesis
    using assms(1)
  proof cases
    case (Close u)
    then show ?thesis by (intro free) simp_all
  next
    case (Install st u)
    then show ?thesis using inv(3) by (intro free) (auto simp: inv_link_def)
  next
    case Abort_Reconnect
    then show ?thesis by (intro free) simp_all
  next
    case Abort_Relogin
    then show ?thesis by (intro free) simp_all
  next
    case (Job v u p)
    have app: "to_its_stream s' x" if "to_its_stream s x" for x
      using that job_ok_append [of s "snd (snd x)" s'] Job(1) by (simp add: to_its_stream_def)
    have "\<not> counted (recv s) \<or> \<not> at_sub i (Wrote k a nonce rid) s" for i k a nonce rid
      using no_write_when_counted [OF assms(2)] by blast
    then have w: "\<not> at_sub i (Wrote k a nonce rid) s" for i k a nonce rid
      using Job(2) by simp
    have "to_its_stream s' x" if "x \<in> set (sent s')" for x
      using inv_sentD(1) [OF inv(1), of x] that Job(1) by (intro app) simp
    moreover have "pending_shares (sp s') = []"
      using inv(3) Job by (auto simp: inv_link_def)
    moreover have "\<not> at_sub i (Wrote k a nonce rid) s'" for i k a nonce rid
      using w Job(1) by simp
    ultimately show ?thesis unfolding inv_sent_def by simp
  qed (auto intro!: inv_sent_keep [OF inv(1), where xs = "[]"] simp: take_pending_def
      dest!: send_request_frame)
qed

lemma loop_step_sent:
  assumes "loop_step api author xmrig s s'" "inv_sent s"
  shows "inv_sent s'"
  using assms(1)
proof cases
  case (Parsed e line lines msg p)
  have app: "to_its_stream s' x" if "to_its_stream s x" for x
    using that job_ok_append [of s "snd (snd x)" s'] Parsed(1) by (simp add: to_its_stream_def)
  have "to_its_stream s' x" if "x \<in> set (sent s')" for x
    using inv_sentD(1) [OF assms(2), of x] that Parsed(1) by (intro app) simp
  moreover have "on_this_stream s' rid" if "rid \<in> fst ` set (pending_shares (sp s'))" for rid
  proof -
    have "pending_shares (sp s') = pending_shares (sp s)" using Parsed by auto
    then have "on_this_stream s rid" using that by (intro inv_sentD(2) [OF assms(2)]) simp
    then show ?thesis using Parsed(1) by (simp add: on_this_stream_def)
  qed
  moreover have "wrote_ok s' a rid" if "at_sub i (Wrote k a nonce rid) s'" for i k a nonce rid
  proof -
    have "wrote_ok s a rid" using that Parsed(1) by (intro inv_sentD(3) [OF assms(2)]) simp
    then show ?thesis
      using Parsed app [of "(rid, epoch s, a)"] inv_sentD(1) [OF assms(2), of "(rid, epoch s, a)"]
      by (auto simp: wrote_ok_def to_its_stream_def)
  qed
  ultimately show ?thesis unfolding inv_sent_def by (intro conjI allI ballI impI)
next
  case (Answer e msg lines rid)
  have "fst ` set (AList.delete rid (pending_shares (sp s))) \<subseteq> fst ` set (pending_shares (sp s))"
    by (auto simp: AList.delete_eq)
  then show ?thesis using Answer(1)
    by (intro inv_sent_keep [OF assms(2), where xs = "[]"]) (auto simp: remove_pending_def)
qed (auto intro!: inv_sent_keep [OF assms(2), where xs = "[]"] dest!: send_message_frame decide_frame)

lemma link_step_read: "link_step api agent s s' \<Longrightarrow> inv_read s'"
  by (erule link_step.cases) (auto simp: inv_read_def)

lemma loop_step_read:
  assumes "loop_step api author xmrig s s'" "inv_read s"
  shows "inv_read s'"
  using assms(1)
proof cases
  case (Read chunk b lines rest)
  have b: "\<forall>x \<in> set b. fst x = epoch s" "b \<noteq> []"
    using assms(2) Read by (auto simp: inv_read_def)
  then have "fst (hd b) = epoch s" by simp
  moreover have "\<forall>x \<in> set (drop n b). fst x = epoch s" for n
    using b(1) by (meson in_set_dropD)
  ultimately show ?thesis using Read(1) Read(4) by (simp add: inv_read_def del: drop_append)
qed (use assms(2) in \<open>auto simp: inv_read_def dest!: send_message_frame decide_frame\<close>)

section \<open>Every reachable state\<close>

text \<open>The first connection, from a new \<open>PoolConnection\<close>.\<close>

lemma connect_login_fresh:
  assumes "connect_login api agent cenv lenv addr w (with_tls_fingerprint pki level pin) = (Inr (), p)"
  shows "request_id p = 2 \<and> generation p = 1 \<and> pending_shares p = [] \<and>
     submits_in_flight p = 0 \<and> stream p \<noteq> None \<and> allocations p \<le> 1 \<and>
     (\<forall>a. current_job p = Some a \<longrightarrow>
        allocations p = 1 \<and> arc_ptr a = 0 \<and> job_generation (arc_val a) = 1)"
proof -
  let ?p0 = "with_tls_fingerprint pki level pin"
  obtain st where st: "open_stream cenv (pinned_fingerprint ?p0) addr = Inr st"
    using assms by (auto simp: connect_login_def connect_def split: sum.splits)
  let ?p1 = "(install_stream st (?p0\<lparr>address := addr\<rparr>))\<lparr>connected := True\<rparr>"
  have l: "login api agent lenv w ?p1 = (Inr (), p)"
    using assms st by (simp add: connect_login_def connect_def)
  let ?p2 = "begin_login w ?p1"
  obtain v p3 where r: "send_request api lenv (str ''login'') (login_params agent w) ?p2 = (Inr v, p3)"
      and lr: "login_reply api v p3 = (Inr (), p)"
    using l by (auto simp: login_def split: prod.splits sum.splits)
  have d: "drawn_by ?p2 = 1" by (simp add: drawn_by_def install_stream_def)
  obtain st' where p3: "p3 = ?p2\<lparr>stream := st', request_id := request_id ?p2 + 1\<rparr>"
      "st' = None \<longleftrightarrow> stream ?p2 = None"
    using send_request_frame [OF r] d by auto
  obtain result sid where p: "p = login_job api result (p3\<lparr>session_id := sid\<rparr>)"
    using lr by (auto simp: login_reply_def split: sum.splits prod.splits)
  have "login_job api result (p3\<lparr>session_id := sid\<rparr>) = p3\<lparr>session_id := sid\<rparr> \<or>
      (\<exists>j. login_job api result (p3\<lparr>session_id := sid\<rparr>) = install_job j (p3\<lparr>session_id := sid\<rparr>) \<and>
           job_generation j = generation (p3\<lparr>session_id := sid\<rparr>))"
    by (rule login_job_frame)
  then show ?thesis
    using p3 unfolding p
    by (auto simp: install_job_def begin_login_def install_stream_def with_tls_fingerprint_def)
qed

definition all_inv :: "'v sys \<Rightarrow> bool" where
  "all_inv s \<longleftrightarrow> inv_flight s \<and> inv_lock s \<and> inv_ids s \<and>
     (drawn s < 2 ^ 64 \<longrightarrow> inv_ledger s) \<and> (epoch s < 2 ^ 64 \<longrightarrow> inv_streams s)"

lemma reset_fields [simp]:
  "stream (reset_share_counters p) = stream p"
  "current_job (reset_share_counters p) = current_job p"
  "request_id (reset_share_counters p) = request_id p"
  "generation (reset_share_counters p) = generation p"
  "pending_shares (reset_share_counters p) = pending_shares p"
  "submits_in_flight (reset_share_counters p) = submits_in_flight p"
  "allocations (reset_share_counters p) = allocations p"
  "settled (reset_share_counters p) = 0"
  by (simp_all add: reset_share_counters_def settled_def)

lemma start_inv:
  assumes "connect_login api agent cenv lenv addr w (with_tls_fingerprint pki level pin) = (Inr (), p)"
    "snd (receiver_start sets now p) = p'"
  shows "all_inv (start_sys n (reset_share_counters p'))"
proof -
  have p': "p' = set_read_timeout sets RECV_POLL_INTERVAL p"
    using assms(2) by (simp add: receiver_start_def)
  note f = connect_login_fresh [OF assms(1)]
  have "sum_list (map g (replicate n Idle)) = 0" if "g Idle = 0" for g :: "sub_pc \<Rightarrow> u32"
    using that by (induction n) simp_all
  moreover have "sum_list (map g (replicate n Idle)) = {#}" if "g Idle = {#}"
    for g :: "sub_pc \<Rightarrow> u64 multiset"
    using that by (induction n) simp_all
  ultimately show ?thesis using f
    by (auto simp: all_inv_def inv_streams_def start_sys_def p' inv_flight_def inv_lock_def inv_ids_def inv_jobs_def
        inv_link_def inv_read_def inv_ledger_def inv_sent_def ledger_def ids_inv_def unique_def
        job_ok_def origin_def at_sub_def nth_replicate less_Suc_eq_le)
qed

lemma sub_step_mono: "sub_step i s s' \<Longrightarrow> drawn s \<le> drawn s' \<and> epoch s = epoch s'"
  by (erule sub_step.cases) (simp_all add: set_sub_def)

lemma link_step_mono: "link_step api agent s s' \<Longrightarrow> drawn s \<le> drawn s' \<and> epoch s \<le> epoch s'"
  by (erule link_step.cases) (simp_all add: goto_def)

lemma loop_step_mono: "loop_step api author xmrig s s' \<Longrightarrow> drawn s \<le> drawn s' \<and> epoch s = epoch s'"
  by (erule loop_step.cases) (simp_all add: goto_def)

lemma sub_step_inv:
  assumes "sub_step i s s'" "all_inv s"
  shows "all_inv s'"
proof -
  note inv = assms(2) [unfolded all_inv_def]
  have l: "inv_ledger s'" if "drawn s' < 2 ^ 64"
  proof -
    have "drawn s < 2 ^ 64" using that sub_step_mono [OF assms(1)] by simp
    then show ?thesis using inv sub_step_ledger [OF assms(1)] inv_ids_fresh by blast
  qed
  have s: "inv_streams s'" if "epoch s' < 2 ^ 64"
  proof -
    have e: "epoch s < 2 ^ 64" using that sub_step_mono [OF assms(1)] by simp
    then have i: "inv_streams s" using inv by blast
    then show ?thesis
      using sub_step_jobs [OF assms(1)] sub_step_link [OF assms(1) i] sub_step_sent [OF assms(1) i e]
        sub_step_read [OF assms(1)] by (simp add: inv_streams_def)
  qed
  show ?thesis unfolding all_inv_def
    using inv l s sub_step_flight [OF assms(1)] sub_step_lock [OF assms(1)]
      sub_step_ids [OF assms(1)] by blast
qed

lemma link_step_inv:
  assumes "link_step api agent s s'" "all_inv s"
  shows "all_inv s'"
proof -
  note inv = assms(2) [unfolded all_inv_def]
  have l: "inv_ledger s'" if "drawn s' < 2 ^ 64"
    using that link_step_mono [OF assms(1)] inv link_step_ledger [OF assms(1)] by auto
  have s: "inv_streams s'" if "epoch s' < 2 ^ 64"
  proof -
    have i: "inv_streams s" using that link_step_mono [OF assms(1)] inv by auto
    have lk: "inv_lock s" using inv by blast
    from i show ?thesis
      using link_step_jobs [OF assms(1)] link_step_link [OF assms(1)]
        link_step_sent [OF assms(1) i lk] link_step_read [OF assms(1)]
      by (simp add: inv_streams_def)
  qed
  show ?thesis unfolding all_inv_def
    using inv l s link_step_flight [OF assms(1)] link_step_lock [OF assms(1)]
      link_step_ids [OF assms(1)] by blast
qed

lemma loop_step_inv:
  assumes "loop_step api author xmrig s s'" "all_inv s"
  shows "all_inv s'"
proof -
  note inv = assms(2) [unfolded all_inv_def]
  have l: "inv_ledger s'" if "drawn s' < 2 ^ 64"
  proof -
    have d: "drawn s < 2 ^ 64" using that loop_step_mono [OF assms(1)] by simp
    then have "ids_ok (sp s)" using inv inv_ids_fresh by (auto simp: register_fresh_def)
    then show ?thesis using d inv loop_step_ledger [OF assms(1)] by blast
  qed
  have s: "inv_streams s'" if "epoch s' < 2 ^ 64"
  proof -
    have "inv_streams s" using that loop_step_mono [OF assms(1)] inv by simp
    then show ?thesis
      using loop_step_jobs [OF assms(1)] loop_step_link [OF assms(1)]
        loop_step_sent [OF assms(1)] loop_step_read [OF assms(1)]
      by (simp add: inv_streams_def)
  qed
  show ?thesis unfolding all_inv_def
    using inv l s loop_step_flight [OF assms(1)] loop_step_lock [OF assms(1)]
      loop_step_ids [OF assms(1)] by blast
qed

lemma reachable_inv: "reachable api agent author xmrig pki level pin n s \<Longrightarrow> all_inv s"
proof (induction rule: reachable.induct)
  case (Start cenv lenv addr w p sets now p')
  then show ?case by (rule start_inv)
qed (blast intro: sub_step_inv link_step_inv loop_step_inv)+

end
