(* ===== verification/Pool_Safety.thy ===== *)
theory Pool_Safety
  imports Pool_Streams
begin

text \<open>
  More invariants of the threads: with a pinned certificate no stream is ever plaintext, the
  wallet logged in with is the user's or one of the two donation addresses, and the rotation
  gate, which reads the count in flight before the pending shares, only lets a rotation pass
  when every earlier submission has been settled or the wait has reached its limit.
\<close>

section \<open>The pin\<close>

fun plain :: "pool_stream option \<Rightarrow> bool" where
  "plain (Some (Plain t)) = True"
| "plain _ = False"

lemma plain_map [simp]: "plain (Some (map_tcp f s)) = plain (Some s)"
  by (cases s) simp_all

lemma write_request_plain:
  "write_request w rq s = (r, s') \<Longrightarrow> plain (Some s') = plain (Some s)"
  by (cases w) auto

lemma set_read_timeout_plain [simp]: "plain (stream (set_read_timeout ok ms p)) = plain (stream p)"
  by (auto simp: set_read_timeout_def split: option.splits)

lemma write_submit_plain:
  "write_submit w rid params g p = (r, p') \<Longrightarrow> plain (stream p') = plain (stream p)"
  by (auto simp: write_submit_def write_request_plain split: option.splits if_splits prod.splits)

lemma send_message_plain:
  "send_message w m params p = (r, p') \<Longrightarrow> plain (stream p') = plain (stream p)"
  by (auto simp: send_message_def next_request_id_def write_request_plain
      split: option.splits prod.splits)

lemma send_request_plain:
  assumes "send_request api env m params p = (r, p')"
  shows "plain (stream p') = plain (stream p)"
proof (cases "stream p")
  case None
  then show ?thesis using assms by (auto simp: send_request_def)
next
  case (Some s)
  let ?rq = "\<lparr>rq_id = request_id p, rq_method = m, rq_params = params\<rparr>"
  obtain r1 s1 where w: "write_request (login_write env) ?rq s = (r1, s1)" by fastforce
  let ?p1 = "p\<lparr>request_id := request_id p + 1, stream := Some s1\<rparr>"
  have "p' = ?p1 \<or> p' = set_read_timeout (login_sets_timeout env) 30000 ?p1"
    using assms Some w
    by (auto simp: send_request_def next_request_id_def Let_def split: sum.splits option.splits)
  then show ?thesis using Some write_request_plain [OF w] by auto
qed

lemma open_stream_pinned:
  "open_stream env (Some fp) addr = Inr st \<Longrightarrow> is_tls_port addr \<and> \<not> plain (Some st)"
  by (auto simp: open_stream_def Let_def split: if_splits)

text \<open>The invariant covers a stream that has been opened and not yet installed.\<close>

fun opened :: "'v recv_pc \<Rightarrow> pool_stream option" where
  "opened (R_Install st u) = Some st"
| "opened _ = None"

definition inv_pin :: "bytes option \<Rightarrow> 'v sys \<Rightarrow> bool" where
  "inv_pin pin s \<longleftrightarrow>
     pinned_fingerprint (sp s) = pin \<and>
     (pin \<noteq> None \<longrightarrow> \<not> plain (stream (sp s)) \<and> \<not> plain (opened (recv s)))"

lemma sub_step_pin: "sub_step i s s' \<Longrightarrow> inv_pin pin s \<Longrightarrow> inv_pin pin s'"
  by (erule sub_step.cases)
    (auto simp: inv_pin_def write_submit_plain dest: write_submit_frame)

lemma link_step_pin:
  assumes "link_step api agent s s'" "inv_pin pin s"
  shows "inv_pin pin s'"
  using assms(1)
proof cases
  case (Got_Stream u env st)
  then show ?thesis using assms(2) open_stream_pinned by (auto simp: inv_pin_def)
next
  case (Install st u)
  then show ?thesis using assms(2) by (auto simp: inv_pin_def install_stream_def)
next
  case (Login_Failed u env e p)
  then show ?thesis using assms(2) send_request_plain send_request_frame
    by (fastforce simp: inv_pin_def)
next
  case (Login_Answered u env v p)
  then show ?thesis using assms(2) send_request_plain send_request_frame
    by (fastforce simp: inv_pin_def)
qed (use assms(2) in \<open>auto simp: inv_pin_def take_pending_def\<close>)

lemma loop_step_pin:
  assumes "loop_step api author xmrig s s'" "inv_pin pin s"
  shows "inv_pin pin s'"
  using assms(1)
proof cases
  case (Keepalive w r p)
  then show ?thesis using assms(2) send_message_plain send_message_frame
    by (fastforce simp: inv_pin_def)
qed (use assms(2) in \<open>auto simp: inv_pin_def dest!: decide_frame\<close>)

section \<open>The wallets\<close>

definition inv_wallet :: "bytes \<Rightarrow> bytes \<Rightarrow> 'v sys \<Rightarrow> bool" where
  "inv_wallet author xmrig s \<longleftrightarrow> wallet (sp s) \<in> {user_wallet (sp s), author, xmrig}"

lemma send_request_wallet:
  "send_request api env m params p = (r, p') \<Longrightarrow>
     user_wallet p' = user_wallet p \<and> wallet p' = wallet p"
  by (auto dest!: send_request_frame)

lemma sub_step_wallet: "sub_step i s s' \<Longrightarrow> inv_wallet a x s \<Longrightarrow> inv_wallet a x s'"
  by (erule sub_step.cases) (auto simp: inv_wallet_def dest!: write_submit_frame)

lemma link_step_wallet: "link_step api agent s s' \<Longrightarrow> inv_wallet a x s \<Longrightarrow> inv_wallet a x s'"
  by (erule link_step.cases)
    (auto simp: inv_wallet_def take_pending_def begin_login_def dest!: send_request_wallet)

lemma loop_step_wallet:
  assumes "loop_step api author xmrig s s'" "inv_wallet author xmrig s"
  shows "inv_wallet author xmrig s'"
  using assms(1)
proof cases
  case (Rotate want v k now p)
  then show ?thesis
    by (cases want) (auto simp: inv_wallet_def beneficiary_address_def)
qed (use assms(2) in \<open>auto simp: inv_wallet_def dest!: decide_frame send_message_frame\<close>)

text \<open>Once set, the user's wallet stays.\<close>

lemma sub_step_user: "sub_step i s s' \<Longrightarrow> user_wallet (sp s') = user_wallet (sp s)"
  by (erule sub_step.cases) (auto dest!: write_submit_frame)

lemma link_step_user:
  "link_step api agent s s' \<Longrightarrow> user_wallet (sp s) \<noteq> [] \<Longrightarrow>
     user_wallet (sp s') = user_wallet (sp s)"
  by (erule link_step.cases)
    (auto simp: take_pending_def begin_login_def dest!: send_request_wallet)

lemma loop_step_user: "loop_step api author xmrig s s' \<Longrightarrow> user_wallet (sp s') = user_wallet (sp s)"
  by (erule loop_step.cases) (auto dest!: decide_frame send_message_frame)

section \<open>The rotation gate\<close>

text \<open>The number of the call a worker is in.\<close>

fun call_no :: "sub_pc \<Rightarrow> nat option" where
  "call_no Idle = None"
| "call_no (Working a) = None"
| "call_no (Entered k a nonce result) = Some k"
| "call_no (Has_Params k a nonce params) = Some k"
| "call_no (Ready k a nonce params rid) = Some k"
| "call_no (Holding k a nonce params rid) = Some k"
| "call_no (Wrote k a nonce rid) = Some k"
| "call_no (Registered k a) = Some k"
| "call_no (Refused k a) = Some k"
| "call_no (Failed k a) = Some k"
| "call_no (Leaving k a) = Some k"

text \<open>When the gate has read zero, every call still running is a later one.\<close>

definition inv_gate :: "nat \<Rightarrow> 'v sys \<Rightarrow> bool" where
  "inv_gate n s \<longleftrightarrow>
     length (subs s) = n \<and>
     (\<forall>want k. recv s = R_Gated want 0 k \<longrightarrow>
        k \<le> calls s \<and> (\<forall>i < n. \<forall>j. call_no (subs s ! i) = Some j \<longrightarrow> k \<le> j))"

lemma flight_sum:
  "sum_list (map flight xs) = of_nat (length (filter (\<lambda>pc. call_no pc \<noteq> None) xs))"
proof (induction xs)
  case Nil
  then show ?case by simp
next
  case (Cons x xs)
  then show ?case by (cases x) (simp_all add: add.commute)
qed

lemma of_nat_zero_u32: "(of_nat m :: u32) = 0 \<Longrightarrow> m < 2 ^ 32 \<Longrightarrow> m = 0"
  by (drule arg_cong [of _ _ unat]) (simp add: unat_of_nat)

lemma no_flight:
  assumes "sum_list (map flight xs) = 0" "length xs < 2 ^ 32" "i < length xs"
  shows "call_no (xs ! i) = None"
proof -
  let ?l = "length (filter (\<lambda>pc. call_no pc \<noteq> None) xs)"
  have "?l < 2 ^ 32" using assms(2) by (meson length_filter_le le_less_trans)
  with assms(1) have "?l = 0" unfolding flight_sum by (rule of_nat_zero_u32)
  then show ?thesis using assms(3) by (auto simp: filter_empty_conv)
qed

lemma sub_step_gate: "sub_step i s s' \<Longrightarrow> inv_gate n s \<Longrightarrow> inv_gate n s'"
  by (erule sub_step.cases)
    (auto simp: inv_gate_def step_simps nth_list_update split: if_splits)

lemma link_step_gate: "link_step api agent s s' \<Longrightarrow> inv_gate n s \<Longrightarrow> inv_gate n s'"
  by (erule link_step.cases) (auto simp: inv_gate_def goto_def)

lemma loop_step_gate:
  assumes "loop_step api author xmrig s s'" "inv_gate n s" "inv_flight s" "n < 2 ^ 32"
  shows "inv_gate n s'"
  using assms(1)
proof cases
  case (Gate want)
  have "call_no (subs s ! i) = None" if "submits_in_flight (sp s) = 0" "i < n" for i
    using no_flight [of "subs s" i] that assms(2-4) by (simp add: inv_gate_def inv_flight_def)
  then show ?thesis using Gate assms(2) by (auto simp: inv_gate_def)
qed (use assms(2) in \<open>auto simp: inv_gate_def goto_def\<close>)

section \<open>Every reachable state\<close>

lemma login_wallet:
  "login api agent lenv w p = (Inr (), p') \<Longrightarrow>
     wallet p' = w \<and> pinned_fingerprint p' = pinned_fingerprint p \<and>
     plain (stream p') = plain (stream p) \<and>
     user_wallet p' = (if user_wallet p = [] then w else user_wallet p)"
proof -
  assume l: "login api agent lenv w p = (Inr (), p')"
  let ?p = "begin_login w p"
  obtain v p3 where r: "send_request api lenv (str ''login'') (login_params agent w) ?p = (Inr v, p3)"
      and lr: "login_reply api v p3 = (Inr (), p')"
    using l by (auto simp: login_def split: prod.splits sum.splits)
  have "wallet p3 = w \<and> pinned_fingerprint p3 = pinned_fingerprint p \<and>
      user_wallet p3 = (if user_wallet p = [] then w else user_wallet p)"
    using send_request_frame [OF r] by (auto simp: begin_login_def)
  moreover have "plain (stream p3) = plain (stream p)"
    using send_request_plain [OF r] by simp
  ultimately show ?thesis using lr
    by (auto simp: login_reply_def split: sum.splits prod.splits)
qed

lemma start_safety:
  assumes "connect_login api agent cenv lenv addr w (with_tls_fingerprint pki level pin) = (Inr (), p)"
    "snd (receiver_start sets now p) = p'"
  shows "inv_pin pin (start_sys n (reset_share_counters p')) \<and>
     inv_wallet author xmrig (start_sys n (reset_share_counters p')) \<and>
     inv_gate n (start_sys n (reset_share_counters p'))"
proof -
  let ?p0 = "with_tls_fingerprint pki level pin"
  obtain st where st: "open_stream cenv pin addr = Inr st"
    using assms(1)
    by (auto simp: connect_login_def connect_def with_tls_fingerprint_def split: sum.splits)
  then have "login api agent lenv w ((install_stream st (?p0\<lparr>address := addr\<rparr>))\<lparr>connected := True\<rparr>)
      = (Inr (), p)"
    using assms(1) by (simp add: connect_login_def connect_def with_tls_fingerprint_def)
  note f = login_wallet [OF this]
  moreover have "pin \<noteq> None \<Longrightarrow> \<not> plain (Some st)" using st open_stream_pinned by fastforce
  ultimately show ?thesis using assms(2)
    by (auto simp: inv_pin_def inv_wallet_def inv_gate_def start_sys_def receiver_start_def
        reset_share_counters_def install_stream_def with_tls_fingerprint_def)
qed

lemma reachable_safety:
  assumes "reachable api agent author xmrig pki level pin n s"
  shows "inv_pin pin s \<and> inv_wallet author xmrig s"
  using assms
proof (induction rule: reachable.induct)
  case (Start cenv lenv addr w p sets now p')
  then show ?case using start_safety by blast
next
  case (Sub s i s')
  then show ?case using sub_step_pin sub_step_wallet by blast
next
  case (Link s s')
  then show ?case using link_step_pin link_step_wallet by blast
next
  case (Loop s s')
  then show ?case using loop_step_pin loop_step_wallet by blast
qed

lemma reachable_gate:
  assumes "reachable api agent author xmrig pki level pin n s" "n < 2 ^ 32"
  shows "inv_gate n s"
  using assms(1)
proof (induction rule: reachable.induct)
  case (Start cenv lenv addr w p sets now p')
  then show ?case using start_safety by blast
next
  case (Sub s i s')
  then show ?case using sub_step_gate by blast
next
  case (Link s s')
  then show ?case using link_step_gate by blast
next
  case (Loop s s')
  have "inv_flight s" using reachable_inv [OF Loop.hyps(1)] by (simp add: all_inv_def)
  then show ?case using Loop loop_step_gate [OF _ _ _ assms(2)] by blast
qed

section \<open>Attempts\<close>

text \<open>What an attempt needs to succeed: a stream, a written request, a complete answer line
  that is JSON, and in it no error, a result and a session id.\<close>

fun good_attempt :: "'v json_api \<Rightarrow> bytes option \<Rightarrow> bytes \<Rightarrow> attempt \<Rightarrow> bool" where
  "good_attempt api pin addr (cenv, lenv, sets) \<longleftrightarrow>
     (case open_stream cenv pin addr of Inl e \<Rightarrow> False | Inr st \<Rightarrow>
        login_write lenv = Written \<and>
        (case fst (read_line (login_reads lenv)) of Inl e \<Rightarrow> False | Inr line \<Rightarrow>
           (case json_parse api line of None \<Rightarrow> False | Some v \<Rightarrow>
              (case login_check api v of Inl e \<Rightarrow> False | Inr x \<Rightarrow> True))))"

lemma write_request_ok: "fst (write_request w rq s) = Inr () \<longleftrightarrow> w = Written"
  by (cases w) simp_all

lemma send_request_ok:
  assumes "stream p \<noteq> None" "send_request api env m params p = (r, p')"
  shows "r = Inr v \<longleftrightarrow> login_write env = Written \<and>
    (\<exists>line. fst (read_line (login_reads env)) = Inr line \<and> json_parse api line = Some v)"
proof -
  obtain s where s: "stream p = Some s" using assms(1) by auto
  let ?rq = "\<lparr>rq_id = request_id p, rq_method = m, rq_params = params\<rparr>"
  obtain r1 s1 where w: "write_request (login_write env) ?rq s = (r1, s1)" by fastforce
  then have "r1 = Inr () \<longleftrightarrow> login_write env = Written"
    using write_request_ok [of "login_write env" ?rq s] by simp
  then show ?thesis using assms(2) s w
    by (cases r1) (auto simp: send_request_def next_request_id_def Let_def
        split: sum.splits option.splits)
qed

text \<open>A login that fails leaves job, session and generation as they were; one that succeeds
  sets the session and leaves the stream in place.\<close>

lemma login_outcome:
  assumes "login api agent env w p = (r, p')" "stream p \<noteq> None"
  shows "r = Inr () \<longleftrightarrow> login_write env = Written \<and>
      (\<exists>line v x. fst (read_line (login_reads env)) = Inr line \<and> json_parse api line = Some v \<and>
         login_check api v = Inr x)"
    and "r = Inl e \<Longrightarrow> current_job p' = current_job p \<and> session_id p' = session_id p"
    and "stream p' \<noteq> None \<and> connected p' = connected p \<and> lost_shares p' = lost_shares p \<and>
      pending_shares p' = pending_shares p \<and> pinned_fingerprint p' = pinned_fingerprint p \<and>
      generation p' = generation p"
proof -
  let ?p1 = "begin_login w p"
  have st: "stream ?p1 \<noteq> None" using assms(2) by simp
  obtain r1 p2 where rq: "send_request api env (str ''login'') (login_params agent w) ?p1 = (r1, p2)"
    by fastforce
  from send_request_frame [OF rq]
  obtain st' where p2: "p2 = ?p1\<lparr>stream := st', request_id := request_id ?p1 + of_nat (drawn_by ?p1)\<rparr>"
      "st' = None \<longleftrightarrow> stream ?p1 = None"
    by (elim exE conjE)
  have l: "(r, p') = (case r1 of Inl e \<Rightarrow> (Inl e, p2) | Inr v \<Rightarrow> login_reply api v p2)"
    using assms(1) rq by (simp add: login_def split: sum.splits)
  have ok: "r1 = Inr v \<longleftrightarrow> login_write env = Written \<and>
    (\<exists>line. fst (read_line (login_reads env)) = Inr line \<and> json_parse api line = Some v)" for v
    by (rule send_request_ok [OF st rq])
  have reply: "fst (login_reply api v p2) = Inr () \<longleftrightarrow> (\<exists>x. login_check api v = Inr x)" for v
    by (auto simp: login_reply_def split: sum.splits)
  have "r = Inr () \<longleftrightarrow> (\<exists>v. r1 = Inr v \<and> (\<exists>x. login_check api v = Inr x))"
    using l reply by (cases r1) (auto simp: prod_eq_iff)
  then show "r = Inr () \<longleftrightarrow> login_write env = Written \<and>
      (\<exists>line v x. fst (read_line (login_reads env)) = Inr line \<and> json_parse api line = Some v \<and>
         login_check api v = Inr x)" unfolding ok by blast
  show "current_job p' = current_job p \<and> session_id p' = session_id p" if "r = Inl e"
    using l that p2(1)
    by (auto simp: login_reply_def begin_login_def split: sum.splits prod.splits)
  have "stream p2 \<noteq> None" using p2 st by simp
  then show "stream p' \<noteq> None \<and> connected p' = connected p \<and> lost_shares p' = lost_shares p \<and>
      pending_shares p' = pending_shares p \<and> pinned_fingerprint p' = pinned_fingerprint p \<and>
      generation p' = generation p"
  proof (cases r1)
    case (Inl e)
    then show ?thesis using l p2(1) \<open>stream p2 \<noteq> None\<close> by (simp add: begin_login_def)
  next
    case (Inr v)
    then have "p' = snd (login_reply api v p2)" using l by (metis snd_conv sum.case(2))
    moreover have "connected (login_job api x q) = connected q" for x q
      by (simp add: login_job_def install_job_def split: option.split)
    ultimately show ?thesis using p2(1) \<open>stream p2 \<noteq> None\<close>
      by (simp add: login_reply_def begin_login_def split: sum.split prod.split)
  qed
qed

lemma connect_login_good:
  assumes "connect_login api agent cenv lenv addr w p = (r, p')"
  shows "r = Inr () \<longleftrightarrow> good_attempt api (pinned_fingerprint p) addr (cenv, lenv, sets)"
    and "pinned_fingerprint p' = pinned_fingerprint p \<and> pending_shares p' = pending_shares p \<and>
      lost_shares p' = lost_shares p"
    and "r = Inr () \<Longrightarrow> stream p' \<noteq> None \<and> connected p' \<and> generation p' = generation p + 1"
proof -
  consider (closed) e where "open_stream cenv (pinned_fingerprint p) addr = Inl e"
    | (opened) st where "open_stream cenv (pinned_fingerprint p) addr = Inr st"
    by (cases "open_stream cenv (pinned_fingerprint p) addr") auto
  then have "(r = Inr () \<longleftrightarrow> good_attempt api (pinned_fingerprint p) addr (cenv, lenv, sets)) \<and>
      pinned_fingerprint p' = pinned_fingerprint p \<and> pending_shares p' = pending_shares p \<and>
      lost_shares p' = lost_shares p \<and>
      (r = Inr () \<longrightarrow> stream p' \<noteq> None \<and> connected p' \<and> generation p' = generation p + 1)"
  proof cases
    case closed
    then show ?thesis using assms by (auto simp: connect_login_def connect_def)
  next
    case opened
    let ?p1 = "(install_stream st (p\<lparr>address := addr\<rparr>))\<lparr>connected := True\<rparr>"
    have l: "login api agent lenv w ?p1 = (r, p')" and st: "stream ?p1 \<noteq> None"
      using assms opened by (simp_all add: connect_login_def connect_def install_stream_def)
    note o = login_outcome [OF l st]
    have "r = Inr () \<longleftrightarrow> good_attempt api (pinned_fingerprint p) addr (cenv, lenv, sets)"
      unfolding o(1) using opened
      by (auto split: sum.split option.split) (metis sum.exhaust surj_pair)
    then show ?thesis using o(3) by (simp add: install_stream_def)
  qed
  then show "r = Inr () \<longleftrightarrow> good_attempt api (pinned_fingerprint p) addr (cenv, lenv, sets)"
    and "pinned_fingerprint p' = pinned_fingerprint p \<and> pending_shares p' = pending_shares p \<and>
      lost_shares p' = lost_shares p"
    and "r = Inr () \<Longrightarrow> stream p' \<noteq> None \<and> connected p' \<and> generation p' = generation p + 1"
    by auto
qed

text \<open>The retry loop ends exactly when some attempt is good.\<close>

lemma retry_failed:
  "connect_login api agent cenv lenv addr w p = (Inl e, p1) \<Longrightarrow>
     retry_loop api agent ((cenv, lenv, sets) # attempts) addr w p =
     retry_loop api agent attempts addr w (p1\<lparr>stream := None\<rparr>)"
  by simp

lemma retry_done:
  "connect_login api agent cenv lenv addr w p = (Inr x, p1) \<Longrightarrow>
     retry_loop api agent ((cenv, lenv, sets) # attempts) addr w p =
     Some (set_read_timeout sets RECV_POLL_INTERVAL p1)"
  by simp

lemma retry_loop_good:
  "(\<exists>p'. retry_loop api agent attempts addr w p = Some p') \<longleftrightarrow>
     (\<exists>att \<in> set attempts. good_attempt api (pinned_fingerprint p) addr att)"
proof (induction attempts arbitrary: p)
  case Nil
  then show ?case by simp
next
  case (Cons att attempts)
  obtain cenv lenv sets where att: "att = (cenv, lenv, sets)" by (cases att)
  obtain r p1 where c: "connect_login api agent cenv lenv addr w p = (r, p1)" by fastforce
  note g = connect_login_good(1) [OF c, where sets = sets] connect_login_good(2,3) [OF c]
  show ?case
  proof (cases r)
    case (Inl e)
    then have "\<not> good_attempt api (pinned_fingerprint p) addr att" using g(1) att by blast
    then show ?thesis
      using Cons.IH [of "p1\<lparr>stream := None\<rparr>"] g(2)
      unfolding att retry_failed [OF c [unfolded Inl]] by (simp del: good_attempt.simps)
  next
    case (Inr x)
    then have "good_attempt api (pinned_fingerprint p) addr att" using g(1) att by simp
    then show ?thesis using retry_done [OF c [unfolded Inr]] att by auto
  qed
qed

lemma retry_loop_result:
  "retry_loop api agent attempts addr w p = Some p' \<Longrightarrow>
     stream p' \<noteq> None \<and> connected p' \<and> pending_shares p' = pending_shares p \<and>
     lost_shares p' = lost_shares p"
proof (induction attempts arbitrary: p)
  case Nil
  then show ?case by simp
next
  case (Cons att attempts)
  obtain cenv lenv sets where att: "att = (cenv, lenv, sets)" by (cases att)
  obtain r p1 where c: "connect_login api agent cenv lenv addr w p = (r, p1)" by fastforce
  note g = connect_login_good(2,3) [OF c]
  show ?case
  proof (cases r)
    case (Inl e)
    then have "retry_loop api agent attempts addr w (p1\<lparr>stream := None\<rparr>) = Some p'"
      using Cons.prems retry_failed [OF c [unfolded Inl]] att by metis
    then show ?thesis using Cons.IH g(1) by fastforce
  next
    case (Inr x)
    then have "p' = set_read_timeout sets RECV_POLL_INTERVAL p1"
      using Cons.prems retry_done [OF c [unfolded Inr], where sets = sets] att by simp
    then show ?thesis using g Inr by (simp add: set_read_timeout_def split: option.split)
  qed
qed

end
