(* ===== verification/Pool_Wire.thy ===== *)
theory Pool_Wire
  imports Pool_Safety
begin

text \<open>
  What is written to the streams, and how the jobs change. Only a worker that holds the
  stream lock writes a \<open>submit\<close> request, with the nonce and the result it was called with;
  the job of the connection only changes to a new allocation.
\<close>

section \<open>The submissions on a stream\<close>

definition submits :: "pool_stream option \<Rightarrow> (bytes \<times> bytes) list set" where
  "submits st = (case st of
     None \<Rightarrow> {}
   | Some s \<Rightarrow> rq_params ` {rq \<in> set (written (stream_tcp s)). rq_method rq = str ''submit''})"

lemma submits_None [simp]: "submits None = {}"
  by (simp add: submits_def)

lemma submits_timeout [simp]:
  "submits (Some (map_tcp (\<lambda>t. t\<lparr>read_timeout := ms\<rparr>) s)) = submits (Some s)"
  by (simp add: submits_def)

lemma write_request_submits:
  "write_request w rq s = (r, s') \<Longrightarrow>
     submits (Some s') \<subseteq> submits (Some s) \<union> (if rq_method rq = str ''submit'' then {rq_params rq} else {})"
  by (cases w) (auto simp: submits_def)

lemma set_read_timeout_submits [simp]: "submits (stream (set_read_timeout ok ms p)) = submits (stream p)"
  by (auto simp: set_read_timeout_def split: option.splits)

lemma write_submit_submits:
  "write_submit w rid params g p = (r, p') \<Longrightarrow> submits (stream p') \<subseteq> insert params (submits (stream p))"
  by (fastforce simp: write_submit_def split: option.splits if_splits prod.splits
      dest: write_request_submits)

lemma send_message_submits:
  "send_message w m params p = (r, p') \<Longrightarrow> m \<noteq> str ''submit'' \<Longrightarrow>
     submits (stream p') \<subseteq> submits (stream p)"
  by (fastforce simp: send_message_def next_request_id_def split: option.splits prod.splits
      dest: write_request_submits)

lemma send_request_submits:
  assumes "send_request api env m params p = (r, p')" "m \<noteq> str ''submit''"
  shows "submits (stream p') \<subseteq> submits (stream p)"
proof (cases "stream p")
  case None
  then show ?thesis using assms by (auto simp: send_request_def)
next
  case (Some s)
  let ?rq = "\<lparr>rq_id = request_id p, rq_method = m, rq_params = params\<rparr>"
  obtain r1 s1 where w: "write_request (login_write env) ?rq s = (r1, s1)" by fastforce
  let ?p1 = "p\<lparr>request_id := request_id p + 1, stream := Some s1\<rparr>"
  have "p' = ?p1 \<or> p' = set_read_timeout (login_sets_timeout env) 30000 ?p1"
    using assms Some w
    by (auto simp: send_request_def next_request_id_def Let_def split: sum.splits option.splits)
  then show ?thesis using Some write_request_submits [OF w] assms(2) by auto
qed

lemma open_stream_submits: "open_stream env pin addr = Inr st \<Longrightarrow> submits (Some st) = {}"
  by (auto simp: open_stream_def submits_def Let_def split: if_splits)

lemma methods_differ:
  "str ''login'' \<noteq> str ''submit''" "str ''keepalived'' \<noteq> str ''submit''"
  by (simp_all add: str_def)

section \<open>Every submission is one a worker called for\<close>

text \<open>\<open>P a nonce result\<close>: a call of \<open>submit_share\<close> for the job \<open>a\<close> with these strings.\<close>

definition called_for :: "(arc_job \<Rightarrow> bytes \<Rightarrow> bytes \<Rightarrow> bool) \<Rightarrow> arc_job \<Rightarrow> (bytes \<times> bytes) list \<Rightarrow> bool" where
  "called_for P a params \<longleftrightarrow>
     (\<exists>sid nonce result. params = submit_params sid (job_id (arc_val a)) nonce result \<and> P a nonce result)"

fun pc_called :: "(arc_job \<Rightarrow> bytes \<Rightarrow> bytes \<Rightarrow> bool) \<Rightarrow> sub_pc \<Rightarrow> bool" where
  "pc_called P (Entered k a nonce result) = P a nonce result"
| "pc_called P (Has_Params k a nonce params) = called_for P a params"
| "pc_called P (Ready k a nonce params rid) = called_for P a params"
| "pc_called P (Holding k a nonce params rid) = called_for P a params"
| "pc_called P _ = True"

definition inv_wire :: "(arc_job \<Rightarrow> bytes \<Rightarrow> bytes \<Rightarrow> bool) \<Rightarrow> 'v sys \<Rightarrow> bool" where
  "inv_wire P s \<longleftrightarrow>
     (\<forall>pc \<in> set (subs s). pc_called P pc) \<and>
     (\<forall>params \<in> submits (stream (sp s)). \<exists>a. called_for P a params) \<and>
     submits (opened (recv s)) = {}"

text \<open>A worker inside \<open>get_work\<close> or \<open>submit_share\<close>; at \<open>Working\<close> it mines.\<close>

definition in_call :: "sub_pc \<Rightarrow> bool" where
  "in_call pc \<longleftrightarrow> (\<forall>a. pc \<noteq> Working a)"

lemma at_sub_called: "inv_wire P s \<Longrightarrow> at_sub i pc s \<Longrightarrow> pc_called P pc"
  by (auto simp: inv_wire_def at_sub_def)

lemma sub_step_wire:
  assumes "sub_step i s s'" "in_call (subs s ! i)" "inv_wire P s"
  shows "inv_wire P s'"
proof -
  note w = assms(3) [unfolded inv_wire_def]
  have "\<exists>pc X. set (subs s') \<subseteq> insert pc (set (subs s)) \<and> pc_called P pc \<and> recv s' = recv s \<and>
      submits (stream (sp s')) \<subseteq> X \<union> submits (stream (sp s)) \<and> (\<forall>params \<in> X. \<exists>a. called_for P a params)"
    using assms(1)
  proof cases
    case (Enter a nonce result)
    then show ?thesis using assms(2) by (simp add: in_call_def at_sub_def)
  next
    case (Read_Sid k a nonce result)
    have "pc_called P (Entered k a nonce result)" using at_sub_called [OF assms(3) Read_Sid(2)] .
    then show ?thesis unfolding Read_Sid(1)
      by (intro exI [of _ "{}"] exI [of _ "Has_Params k a nonce
            (submit_params (session_id (sp s)) (job_id (arc_val a)) nonce result)"])
        (auto simp: set_sub_def called_for_def dest!: subsetD [OF set_update_subset_insert])
  next
    case (Draw_Id k a nonce params)
    have "pc_called P (Has_Params k a nonce params)" using at_sub_called [OF assms(3) Draw_Id(2)] .
    then show ?thesis unfolding Draw_Id(1)
      by (intro exI [of _ "{}"] exI [of _ "Ready k a nonce params (fst (next_request_id (sp s)))"])
        (auto simp: set_sub_def dest!: subsetD [OF set_update_subset_insert])
  next
    case (Take_Lock k a nonce params rid)
    have "pc_called P (Ready k a nonce params rid)" using at_sub_called [OF assms(3) Take_Lock(2)] .
    then show ?thesis unfolding Take_Lock(1)
      by (intro exI [of _ "{}"] exI [of _ "Holding k a nonce params rid"])
        (auto simp: set_sub_def dest!: subsetD [OF set_update_subset_insert])
  next
    case (Write_Ok k a nonce params rid w' p)
    have "pc_called P (Holding k a nonce params rid)" using at_sub_called [OF assms(3) Write_Ok(2)] .
    then show ?thesis unfolding Write_Ok(1) using write_submit_submits [OF Write_Ok(3)]
      by (intro exI [of _ "{params}"] exI [of _ "Wrote k a nonce rid"])
        (auto simp: set_sub_def dest!: subsetD [OF set_update_subset_insert])
  next
    case (Write_Refused k a nonce params rid w' e p)
    have "pc_called P (Holding k a nonce params rid)" using at_sub_called [OF assms(3) Write_Refused(2)] .
    then show ?thesis unfolding Write_Refused(1) using write_submit_submits [OF Write_Refused(3)]
      by (intro exI [of _ "{params}"] exI [of _ "Refused k a"])
        (auto simp: set_sub_def dest!: subsetD [OF set_update_subset_insert])
  qed (fastforce simp: set_sub_def dest!: subsetD [OF set_update_subset_insert])+
  then obtain pc X where x: "set (subs s') \<subseteq> insert pc (set (subs s))" "pc_called P pc" "recv s' = recv s"
      "submits (stream (sp s')) \<subseteq> X \<union> submits (stream (sp s))" "\<forall>params \<in> X. \<exists>a. called_for P a params"
    by (elim exE conjE)
  show ?thesis unfolding inv_wire_def
  proof (intro conjI ballI)
    show "pc_called P c" if "c \<in> set (subs s')" for c using that x(1,2) w by blast
    show "\<exists>a. called_for P a params" if "params \<in> submits (stream (sp s'))" for params
      using that x(4,5) w by blast
    show "submits (opened (recv s')) = {}" using x(3) w by simp
  qed
qed

lemma inv_wire_recv:
  assumes "inv_wire P s" "subs s' = subs s" "submits (stream (sp s')) \<subseteq> submits (stream (sp s))"
    "submits (opened (recv s')) = {}"
  shows "inv_wire P s'"
  using assms unfolding inv_wire_def by auto

lemma link_step_wire:
  assumes "link_step api agent s s'" "inv_wire P s"
  shows "inv_wire P s'"
  using assms(1)
proof cases
  case (Got_Stream u env st)
  then show ?thesis using open_stream_submits
    by (intro inv_wire_recv [OF assms(2)]) (auto simp: goto_def)
next
  case (Install st u)
  have "submits (Some st) = {}" using assms(2) Install(2) by (simp add: inv_wire_def)
  then show ?thesis unfolding Install(1)
    by (intro inv_wire_recv [OF assms(2)]) (auto simp: goto_def install_stream_def)
next
  case (Login_Failed u env e p)
  then show ?thesis using send_request_submits [OF Login_Failed(4) methods_differ(1)]
    by (intro inv_wire_recv [OF assms(2)]) (auto simp: goto_def)
next
  case (Login_Answered u env v p)
  then show ?thesis using send_request_submits [OF Login_Answered(4) methods_differ(1)]
    by (intro inv_wire_recv [OF assms(2)]) (auto simp: goto_def)
qed (auto intro!: inv_wire_recv [OF assms(2)] simp: goto_def take_pending_def)

lemma loop_step_wire:
  assumes "loop_step api author xmrig s s'" "inv_wire P s"
  shows "inv_wire P s'"
  using assms(1)
proof cases
  case (Keepalive w r p)
  then show ?thesis using send_message_submits [OF Keepalive(4) methods_differ(2)]
    by (intro inv_wire_recv [OF assms(2)]) auto
qed (auto intro!: inv_wire_recv [OF assms(2)] simp: goto_def dest!: decide_frame)

lemma login_submits:
  assumes "login api agent lenv w p = (Inr (), p')"
  shows "submits (stream p') \<subseteq> submits (stream p)"
proof -
  let ?p = "begin_login w p"
  obtain v p3 where r: "send_request api lenv (str ''login'') (login_params agent w) ?p = (Inr v, p3)"
      and lr: "login_reply api v p3 = (Inr (), p')"
    using assms by (auto simp: login_def split: prod.splits sum.splits)
  show ?thesis using lr send_request_submits [OF r methods_differ(1)]
    by (auto simp: login_reply_def split: sum.splits prod.splits)
qed

lemma start_wire:
  assumes "connect_login api agent cenv lenv addr w (with_tls_fingerprint pki level pin) = (Inr (), p)"
    "snd (receiver_start sets now p) = p'"
  shows "inv_wire P (start_sys n (reset_share_counters p'))"
proof -
  obtain st where st: "open_stream cenv pin addr = Inr st"
    using assms(1)
    by (auto simp: connect_login_def connect_def with_tls_fingerprint_def split: sum.splits)
  then have "login api agent lenv w
      ((install_stream st ((with_tls_fingerprint pki level pin)\<lparr>address := addr\<rparr>))\<lparr>connected := True\<rparr>)
      = (Inr (), p)"
    using assms(1) by (simp add: connect_login_def connect_def with_tls_fingerprint_def)
  then have "submits (stream p) = {}" using login_submits open_stream_submits [OF st]
    by (fastforce simp: install_stream_def)
  then show ?thesis using assms(2)
    by (auto simp: inv_wire_def start_sys_def receiver_start_def)
qed

section \<open>New jobs are new objects\<close>

definition jobs_grow :: "pool \<Rightarrow> pool \<Rightarrow> bool" where
  "jobs_grow p p' \<longleftrightarrow> allocations p \<le> allocations p' \<and>
     (\<forall>a. current_job p' = Some a \<longrightarrow> current_job p = Some a \<or>
        arc_ptr a = allocations p \<and> allocations p < allocations p')"

lemma jobs_same: "allocations p' = allocations p \<Longrightarrow> current_job p' = current_job p \<or> current_job p' = None
    \<Longrightarrow> jobs_grow p p'"
  by (auto simp: jobs_grow_def)

lemma jobs_install: "jobs_grow p (install_job j p)"
  by (simp add: jobs_grow_def install_job_def)

lemma sub_step_grow: "sub_step i s s' \<Longrightarrow> jobs_grow (sp s) (sp s')"
  by (erule sub_step.cases) (auto intro!: jobs_same simp: set_sub_def dest!: write_submit_frame)

lemma link_step_grow: "link_step api agent s s' \<Longrightarrow> jobs_grow (sp s) (sp s')"
proof (erule link_step.cases, goal_cases)
  case (17 s1 v u p)
  then show ?case using login_job_frame [of api v "sp s"]
    by (auto simp: goto_def jobs_same jobs_install)
qed (auto intro!: jobs_same simp: goto_def take_pending_def dest!: send_request_frame)

lemma loop_step_grow: "loop_step api author xmrig s s' \<Longrightarrow> jobs_grow (sp s) (sp s')"
proof (erule loop_step.cases, goal_cases)
  case (10 s1 e line lines msg p)
  then show ?case using take_job_frame [of api msg "sp s"]
    by (auto simp: goto_def jobs_same jobs_install)
qed (auto intro!: jobs_same simp: goto_def dest!: send_message_frame decide_frame)

end
