(* ===== verification/Miner_Rig.thy ===== *)
theory Miner_Rig
  imports Miner_Worker_Props Pool_Wire
begin

text \<open>
  The running miner: the connection with its receiver (\<open>Pool_Threads\<close>) and the workers of
  \<open>src/miner.rs\<close>, interleaved. A worker fetches a job, runs one iteration up to the call of
  \<open>submit_share\<close> in one step, and then goes through the steps of \<open>submit_share\<close> with the share it
  found; between any two steps the other workers and the receiver move. The iteration is one
  step because all it shares is the dataset cache, whose mutex it holds while it generates,
  and the counters, which are atomic and only added to or lowered.
\<close>

section \<open>State\<close>

text \<open>\<open>found\<close> is the share a worker is about to submit. \<open>tried\<close> is a ghost: who has hashed which
  nonce, in order.\<close>

record ('v, 'vm) rig =
  net :: "'v sys"
  crew :: "'vm worker list"
  found :: "found_share option list"
  common :: shared
  tried :: "(nat \<times> u32) list"

text \<open>What is fixed for a run: the VM, the dataset generation, and the switches of \<open>Miner\<close>.\<close>

record 'vm rig_setup =
  rs_ops :: "'vm vm_ops"
  rs_gen :: "bytes \<Rightarrow> dataset option"
  rs_native_loop :: bool
  rs_verify_shares :: bool
  rs_threads :: nat

definition worker_cfg :: "'vm rig_setup \<Rightarrow> nat \<Rightarrow> worker_config" where
  "worker_cfg rs thread_id =
     \<lparr>cfg_thread_id = of_nat thread_id, cfg_thread_count = of_nat (rs_threads rs),
      cfg_native_loop = rs_native_loop rs, cfg_verify_shares = rs_verify_shares rs\<rparr>"

text \<open>The state \<open>Miner::start\<close> builds around the connection.\<close>

definition stats_new :: "u64 \<Rightarrow> mining_stats" where
  "stats_new now_ms =
     \<lparr>best_hash_val = 0xFFFFFFFF, current_difficulty = 0, shares_found = 0, last_share_time_ms = 0,
      start_time_ms = now_ms, verify_failures = 0\<rparr>"

definition start_rig :: "'vm rig_setup \<Rightarrow> u64 \<Rightarrow> 'v sys \<Rightarrow> ('v, 'vm) rig" where
  "start_rig rs now_ms s =
     \<lparr>net = s, crew = map (\<lambda>i. worker_start (worker_cfg rs i)) [0..<rs_threads rs],
      found = replicate (rs_threads rs) None,
      common = \<lparr>sh_cache = None, sh_stats = stats_new now_ms, sh_total_hashes = 0, sh_hashrate = 0\<rparr>,
      tried = []\<rparr>"

section \<open>Steps\<close>

definition after_turn ::
  "nat \<Rightarrow> bytes option \<times> found_share option \<times> 'vm worker \<times> shared \<Rightarrow> ('v, 'vm) rig \<Rightarrow> ('v, 'vm) rig"
  where
  "after_turn i res r = (case res of (h, fs, w, sh) \<Rightarrow>
     r\<lparr>net := (case fs of None \<Rightarrow> set_sub i Idle (net r) | Some _ \<Rightarrow> net r),
       crew := (crew r)[i := w], found := (found r)[i := fs], common := sh,
       tried := tried r @ (case h of None \<Rightarrow> [] | Some _ \<Rightarrow> [(i, ucast (w_nonce (crew r ! i)))])\<rparr>)"

definition call_submit :: "nat \<Rightarrow> arc_job \<Rightarrow> found_share \<Rightarrow> ('v, 'vm) rig \<Rightarrow> ('v, 'vm) rig" where
  "call_submit i a fs r =
     r\<lparr>net := set_sub i (Entered (calls (net r)) a (hex_encode (fs_nonce fs)) (hex_encode (fs_hash fs)))
                ((net r)\<lparr>sp := enter_submit (sp (net r)), calls := Suc (calls (net r))\<rparr>),
       found := (found r)[i := None]\<rparr>"

inductive rig_step ::
  "'v json_api \<Rightarrow> bytes \<Rightarrow> bytes \<Rightarrow> bytes \<Rightarrow> 'vm rig_setup \<Rightarrow> ('v, 'vm) rig \<Rightarrow> ('v, 'vm) rig \<Rightarrow> bool"
  for api :: "'v json_api" and agent author xmrig :: bytes and rs :: "'vm rig_setup" where
  Link: "link_step api agent (net r) s \<Longrightarrow> rig_step api agent author xmrig rs r (r\<lparr>net := s\<rparr>)"
| Loop: "loop_step api author xmrig (net r) s \<Longrightarrow> rig_step api agent author xmrig rs r (r\<lparr>net := s\<rparr>)"
| Call: "in_call (subs (net r) ! i) \<Longrightarrow> sub_step i (net r) s \<Longrightarrow>
    rig_step api agent author xmrig rs r (r\<lparr>net := s\<rparr>)"
| Turn: "at_sub i (Working a) (net r) \<Longrightarrow> found r ! i = None \<Longrightarrow>
    worker_iteration (rs_ops rs) (rs_gen rs) (worker_cfg rs i) env a (crew r ! i) (common r) = Some res \<Longrightarrow>
    rig_step api agent author xmrig rs r (after_turn i res r)"
| Submit: "at_sub i (Working a) (net r) \<Longrightarrow> found r ! i = Some fs \<Longrightarrow>
    rig_step api agent author xmrig rs r (call_submit i a fs r)"

inductive rig_reachable ::
  "'v json_api \<Rightarrow> bytes \<Rightarrow> bytes \<Rightarrow> bytes \<Rightarrow> webpki \<Rightarrow> nat \<Rightarrow> bytes option \<Rightarrow> 'vm rig_setup \<Rightarrow>
     ('v, 'vm) rig \<Rightarrow> bool"
  for api :: "'v json_api" and agent author xmrig :: bytes and pki :: webpki
    and level :: nat and pin :: "bytes option" and rs :: "'vm rig_setup" where
  Start: "connect_login api agent cenv lenv addr w (with_tls_fingerprint pki level pin) = (Inr (), p)
    \<Longrightarrow> snd (receiver_start sets now p) = p' \<Longrightarrow>
    rig_reachable api agent author xmrig pki level pin rs
      (start_rig rs now_ms (start_sys (rs_threads rs) (reset_share_counters p')))"
| Step: "rig_reachable api agent author xmrig pki level pin rs r \<Longrightarrow>
    rig_step api agent author xmrig rs r r' \<Longrightarrow>
    rig_reachable api agent author xmrig pki level pin rs r'"

section \<open>The connection in the rig\<close>

lemma after_turn_net:
  "at_sub i (Working a) (net r) \<Longrightarrow>
     net (after_turn i res r) = net r \<or> sub_step i (net r) (net (after_turn i res r))"
  by (auto simp: after_turn_def split: prod.splits option.splits intro: sub_step.Give_Up)

lemma call_submit_net: "at_sub i (Working a) (net r) \<Longrightarrow> sub_step i (net r) (net (call_submit i a fs r))"
  by (simp add: call_submit_def sub_step.Enter)

text \<open>A run of the rig is a run of the threads of \<open>Pool_Threads\<close>, so their invariants hold.\<close>

lemma rig_net:
  "rig_reachable api agent author xmrig pki level pin rs r \<Longrightarrow>
     reachable api agent author xmrig pki level pin (rs_threads rs) (net r)"
proof (induction rule: rig_reachable.induct)
  case (Start cenv lenv addr w p sets now p' now_ms)
  then show ?case by (simp add: start_rig_def reachable.Start)
next
  case (Step r r')
  from Step(2) show ?case
  proof cases
    case (Turn i a env res)
    then show ?thesis using after_turn_net [OF Turn(2), of res] Step(3) reachable.Sub [OF Step(3)] by auto
  next
    case (Submit i a fs)
    then show ?thesis using reachable.Sub [OF Step(3) call_submit_net] by simp
  qed (use Step(3) in \<open>auto intro: reachable.Link reachable.Loop reachable.Sub\<close>)
qed

section \<open>Sizes\<close>

definition inv_size :: "'vm rig_setup \<Rightarrow> ('v, 'vm) rig \<Rightarrow> bool" where
  "inv_size rs r \<longleftrightarrow> length (crew r) = rs_threads rs \<and> length (found r) = rs_threads rs \<and>
     length (subs (net r)) = rs_threads rs"

lemma sub_step_size: "sub_step i s s' \<Longrightarrow> length (subs s') = length (subs s)"
  by (erule sub_step.cases) (auto simp: set_sub_def)

lemma link_step_size: "link_step api agent s s' \<Longrightarrow> subs s' = subs s"
  by (erule link_step.cases) (auto simp: goto_def)

lemma loop_step_size: "loop_step api author xmrig s s' \<Longrightarrow> subs s' = subs s"
  by (erule loop_step.cases) (auto simp: goto_def)

lemma rig_step_size: "rig_step api agent author xmrig rs r r' \<Longrightarrow> inv_size rs r \<Longrightarrow> inv_size rs r'"
  by (erule rig_step.cases)
    (auto simp: inv_size_def after_turn_def call_submit_def set_sub_def link_step_size loop_step_size
      sub_step_size split: option.splits prod.splits)

lemma start_rig_size: "inv_size rs (start_rig rs now_ms (start_sys (rs_threads rs) p))"
  by (simp add: inv_size_def start_rig_def start_sys_def)

section \<open>Jobs are objects\<close>

text \<open>Every job that is still held somewhere, and one heap they all agree with.\<close>

definition arcs :: "('v, 'vm) rig \<Rightarrow> arc_job set" where
  "arcs r = {a. current_job (sp (net r)) = Some a} \<union> {a. \<exists>pc \<in> set (subs (net r)). pc = Working a} \<union>
     {a. \<exists>w \<in> set (crew r). w_job w = Some a}"

definition inv_heap :: "('v, 'vm) rig \<Rightarrow> bool" where
  "inv_heap r \<longleftrightarrow> (\<exists>heap. \<forall>a \<in> arcs r. arc_ptr a < allocations (sp (net r)) \<and> arc_val a = heap (arc_ptr a))"

lemma inv_heap_same: "inv_heap r \<Longrightarrow> a \<in> arcs r \<Longrightarrow> b \<in> arcs r \<Longrightarrow> arc_ptr a = arc_ptr b \<Longrightarrow> a = b"
  by (metis arc_job.equality inv_heap_def old.unit.exhaust)

lemma inv_heap_keep:
  assumes "inv_heap r" "arcs r' \<subseteq> arcs r" "allocations (sp (net r)) \<le> allocations (sp (net r'))"
  shows "inv_heap r'"
  using assms unfolding inv_heap_def by (metis order_less_le_trans subsetD)

lemma inv_heap_grow:
  assumes h: "inv_heap r" and g: "jobs_grow (sp (net r)) (sp (net r'))"
    and a: "\<And>a. a \<in> arcs r' \<Longrightarrow> current_job (sp (net r')) = Some a \<or> a \<in> arcs r"
  shows "inv_heap r'"
proof -
  obtain heap where heap: "\<And>a. a \<in> arcs r \<Longrightarrow> arc_ptr a < allocations (sp (net r)) \<and> arc_val a = heap (arc_ptr a)"
    using h unfolding inv_heap_def by blast
  show ?thesis
  proof (cases "current_job (sp (net r')) = None \<or> current_job (sp (net r')) = current_job (sp (net r))")
    case True
    have "x \<in> arcs r" if "x \<in> arcs r'" for x
      using a [OF that] True by (auto simp: arcs_def [of r])
    then have "arcs r' \<subseteq> arcs r" ..
    then show ?thesis by (rule inv_heap_keep [OF h]) (use g in \<open>simp add: jobs_grow_def\<close>)
  next
    case False
    then obtain b where b: "current_job (sp (net r')) = Some b" "arc_ptr b = allocations (sp (net r))"
        "allocations (sp (net r)) < allocations (sp (net r'))" using g by (auto simp: jobs_grow_def)
    let ?heap = "heap(arc_ptr b := arc_val b)"
    have "arc_ptr c < allocations (sp (net r')) \<and> arc_val c = ?heap (arc_ptr c)" if "c \<in> arcs r'" for c
      using a [OF that] b heap [of c] by auto
    then show ?thesis unfolding inv_heap_def by blast
  qed
qed

lemma set_update_job: "c \<in> set (xs[i := x]) \<Longrightarrow> c = x \<and> i < length xs \<or> c \<in> set xs"
  using set_update_subset_insert [of xs i x] by (cases "i < length xs") (auto simp: list_update_beyond)

lemma sub_step_arcs:
  "sub_step i s s' \<Longrightarrow> in_call (subs s ! i) \<Longrightarrow> Working a \<in> set (subs s') \<Longrightarrow>
     current_job (sp s') = Some a \<or> Working a \<in> set (subs s)"
  by (erule sub_step.cases) (auto simp: set_sub_def get_work_def dest!: set_update_job)

lemma iteration_job:
  assumes "worker_iteration ops gen_ds cfg env a w sh = Some (h, fs, w', sh')"
  shows "\<forall>b. w_job w' = Some b \<longrightarrow> b = a \<or> w_job w = Some b"
proof -
  from assms have "w_job w' = w_job (note_job a w)"
  proof (cases rule: iteration_cases)
    case (Skipped w1 cache)
    then show ?thesis using follow_seed_frame [OF Skipped(1)] by simp
  next
    case (Hashed w1 cache g w2 w3 stats)
    then show ?thesis using follow_seed_frame [OF Hashed(1)] hash_once_frame [OF Hashed(4)]
        check_share_found [OF Hashed(5)] flush_hashes_frame [OF Hashed(6)] by auto
  qed
  then show ?thesis by (auto simp: note_job_def split: if_splits)
qed

lemma rig_step_heap: "rig_step api agent author xmrig rs r r' \<Longrightarrow> inv_heap r \<Longrightarrow> inv_heap r'"
proof (erule rig_step.cases, goal_cases)
  case (1 r1 s)
  then show ?case
    by (intro inv_heap_grow [OF 1(1)]) (auto simp: arcs_def link_step_grow dest!: link_step_size)
next
  case (2 r1 s)
  then show ?case
    by (intro inv_heap_grow [OF 2(1)]) (auto simp: arcs_def loop_step_grow dest!: loop_step_size)
next
  case (3 r1 i s)
  then show ?case using sub_step_arcs [OF 3(5,4)]
    by (intro inv_heap_grow [OF 3(1)]) (auto simp: arcs_def sub_step_grow)
next
  case (4 i a r1 env res)
  obtain h fs w sh where res: "res = (h, fs, w, sh)" by (cases res) auto
  have j: "\<forall>b. w_job w = Some b \<longrightarrow> b = a \<or> w_job (crew r ! i) = Some b" using iteration_job 4 res by fastforce
  have sub: "arcs r' \<subseteq> arcs r"
  proof
    fix b assume b: "b \<in> arcs r'"
    have i: "Working a \<in> set (subs (net r))" using 4 by (metis at_sub_def nth_mem)
    show "b \<in> arcs r" using b i j nth_mem [of i "crew r"] unfolding 4(2,3) res
      by (auto simp: arcs_def after_turn_def set_sub_def split: option.splits dest!: set_update_job)
  qed
  have "allocations (sp (net r')) = allocations (sp (net r))" using 4 res
    by (auto simp: after_turn_def set_sub_def split: option.splits)
  then show ?case by (intro inv_heap_keep [OF 4(1)]) (use sub 4(2) in auto)
next
  case (5 i a r1 fs)
  have "arcs r' \<subseteq> arcs r" using 5
    by (auto simp: arcs_def call_submit_def set_sub_def enter_submit_def dest!: set_update_job)
  then show ?case
    by (intro inv_heap_keep [OF 5(1)]) (use 5 in \<open>auto simp: call_submit_def set_sub_def enter_submit_def\<close>)
qed

end
