(* ===== verification/Miner_Safety.thy ===== *)
theory Miner_Safety
  imports Miner_Rig
begin

text \<open>
  Invariants of the running miner: every worker is in order, and a share that waits for its
  submission is an admissible one. At the end, what the difficulty of a target says of a hash that
  meets it.
\<close>

section \<open>Shares on their way\<close>

definition inv_found :: "(found_share \<Rightarrow> bool) \<Rightarrow> ('v, 'vm) rig \<Rightarrow> bool" where
  "inv_found Q r \<longleftrightarrow> (\<forall>i < length (found r). \<forall>fs. found r ! i = Some fs \<longrightarrow>
     Q fs \<and> subs (net r) ! i = Working (fs_job fs))"

text \<open>What the invariants ask of an iteration.\<close>

definition turns_find :: "(found_share \<Rightarrow> bool) \<Rightarrow> 'vm rig_setup \<Rightarrow> ('v, 'vm) rig \<Rightarrow> bool" where
  "turns_find Q rs r \<longleftrightarrow> (\<forall>i a env h fs w sh. at_sub i (Working a) (net r) \<longrightarrow>
     worker_iteration (rs_ops rs) (rs_gen rs) (worker_cfg rs i) env a (crew r ! i) (common r)
       = Some (h, Some fs, w, sh) \<longrightarrow> Q fs \<and> fs_job fs = a)"

lemma sub_step_other: "sub_step i s s' \<Longrightarrow> j \<noteq> i \<Longrightarrow> subs s' ! j = subs s ! j"
  by (erule sub_step.cases) (auto simp: set_sub_def)

lemma rig_step_found:
  assumes "rig_step api agent author xmrig rs r r'" "inv_size rs r" "inv_found Q r" "turns_find Q rs r"
  shows "inv_found Q r'"
  using assms(1)
proof cases
  case (Link s)
  then show ?thesis using assms(3) by (auto simp: inv_found_def dest!: link_step_size)
next
  case (Loop s)
  then show ?thesis using assms(3) by (auto simp: inv_found_def dest!: loop_step_size)
next
  case (Call i s)
  have "subs s ! j = subs (net r) ! j" if "found r ! j = Some fs" "j < length (found r)" for j fs
  proof (cases "j = i")
    case True
    then show ?thesis using that assms(3) Call(2) by (auto simp: inv_found_def in_call_def)
  qed (use sub_step_other [OF Call(3)] in auto)
  then show ?thesis using assms(3) by (auto simp: inv_found_def Call(1))
next
  case (Turn i a env res)
  obtain h fo w sh where res: "res = (h, fo, w, sh)" by (cases res) auto
  have i: "i < length (subs (net r))" "subs (net r) ! i = Working a" "length (subs (net r)) = length (found r)"
    using Turn(2) assms(2) by (auto simp: at_sub_def inv_size_def)
  have new: "Q fs \<and> fs_job fs = a" if "fo = Some fs" for fs
    using assms(4) Turn(2,4) that res unfolding turns_find_def by blast
  show ?thesis unfolding inv_found_def
  proof (intro allI impI)
    fix j fs assume j: "j < length (found r')" "found r' ! j = Some fs"
    show "Q fs \<and> subs (net r') ! j = Working (fs_job fs)"
    proof (cases "j = i")
      case True
      then have fo: "fo = Some fs" using j Turn(1) res by (simp add: after_turn_def)
      then have "net r' = net r" using Turn(1) res by (simp add: after_turn_def)
      then show ?thesis using new [OF fo] i True by simp
    next
      case False
      then have "found r ! j = Some fs" "j < length (found r)" "subs (net r') ! j = subs (net r) ! j"
        using j Turn(1) res by (auto simp: after_turn_def set_sub_def split: option.splits)
      then show ?thesis using assms(3) by (simp add: inv_found_def)
    qed
  qed
next
  case (Submit i a fs)
  show ?thesis unfolding inv_found_def
  proof (intro allI impI)
    fix j gs assume j: "j < length (found r')" "found r' ! j = Some gs"
    then have "j \<noteq> i" by (auto simp: Submit(1) call_submit_def)
    then show "Q gs \<and> subs (net r') ! j = Working (fs_job gs)"
      using j assms(3) by (simp add: Submit(1) call_submit_def set_sub_def inv_found_def)
  qed
qed

section \<open>The crew\<close>

lemma inv_heap_object:
  assumes "inv_heap r" "at_sub i (Working a) (net r)" "i < length (crew r)"
  shows "same_object (w_job (crew r ! i)) a"
proof -
  have "Working a \<in> set (subs (net r))" using assms(2) by (metis at_sub_def nth_mem)
  then have "a \<in> arcs r" by (simp add: arcs_def)
  moreover have "c \<in> arcs r" if "w_job (crew r ! i) = Some c" for c
    using that nth_mem [OF assms(3)] by (auto simp: arcs_def)
  ultimately show ?thesis using inv_heap_same [OF assms(1)] by (auto simp: same_object_def)
qed

definition inv_crew :: "('vm worker \<Rightarrow> bool) \<Rightarrow> 'vm rig_setup \<Rightarrow> ('v, 'vm) rig \<Rightarrow> bool" where
  "inv_crew ok rs r \<longleftrightarrow> (\<forall>w \<in> set (crew r). ok w) \<and> cache_made (rs_gen rs) (sh_cache (common r))"

text \<open>An invariant of the iteration carries over to the crew.\<close>

definition turn_keeps :: "('vm worker \<Rightarrow> bool) \<Rightarrow> (found_share \<Rightarrow> bool) \<Rightarrow> 'vm rig_setup \<Rightarrow> bool" where
  "turn_keeps ok Q rs \<longleftrightarrow> (\<forall>cfg env a w sh h fo w' sh'. ok w \<longrightarrow> cache_made (rs_gen rs) (sh_cache sh) \<longrightarrow>
     same_object (w_job w) a \<longrightarrow>
     worker_iteration (rs_ops rs) (rs_gen rs) cfg env a w sh = Some (h, fo, w', sh') \<longrightarrow>
     ok w' \<and> cache_made (rs_gen rs) (sh_cache sh') \<and> (\<forall>fs. fo = Some fs \<longrightarrow> Q fs \<and> fs_job fs = a))"

lemma turn_keepsD:
  "turn_keeps ok Q rs \<Longrightarrow> ok w \<Longrightarrow> cache_made (rs_gen rs) (sh_cache sh) \<Longrightarrow> same_object (w_job w) a \<Longrightarrow>
     worker_iteration (rs_ops rs) (rs_gen rs) cfg env a w sh = Some (h, fo, w', sh') \<Longrightarrow>
     ok w' \<and> cache_made (rs_gen rs) (sh_cache sh') \<and> (\<forall>fs. fo = Some fs \<longrightarrow> Q fs \<and> fs_job fs = a)"
  unfolding turn_keeps_def by blast

lemma crew_turn:
  assumes "turn_keeps ok Q rs" "inv_crew ok rs r" "inv_size rs r" "inv_heap r"
    "at_sub i (Working a) (net r)"
    "worker_iteration (rs_ops rs) (rs_gen rs) (worker_cfg rs i) env a (crew r ! i) (common r)
       = Some (h, fo, w, sh)"
  shows "ok w \<and> cache_made (rs_gen rs) (sh_cache sh) \<and> (\<forall>fs. fo = Some fs \<longrightarrow> Q fs \<and> fs_job fs = a)"
proof -
  have i: "i < length (crew r)" using assms(3,5) by (auto simp: at_sub_def inv_size_def)
  then have "ok (crew r ! i)" "cache_made (rs_gen rs) (sh_cache (common r))"
    using assms(2) by (simp_all add: inv_crew_def)
  then show ?thesis using turn_keepsD [OF assms(1)] inv_heap_object [OF assms(4,5) i] assms(6) by blast
qed

lemma rig_step_crew:
  assumes "rig_step api agent author xmrig rs r r'" "turn_keeps ok Q rs" "inv_size rs r" "inv_heap r"
    "inv_crew ok rs r"
  shows "inv_crew ok rs r'"
  using assms(1)
proof cases
  case (Turn i a env res)
  obtain h fo w sh where res: "res = (h, fo, w, sh)" by (cases res) auto
  show ?thesis using crew_turn [OF assms(2,5,3,4) Turn(2)] Turn(4) assms(5) unfolding Turn(1) res
    by (auto simp: inv_crew_def after_turn_def dest!: set_update_job)
next
  case (Submit i a fs)
  then show ?thesis using assms(5) by (simp add: inv_crew_def call_submit_def)
qed (use assms(5) in \<open>auto simp: inv_crew_def\<close>)

definition rig_ok :: "('vm worker \<Rightarrow> bool) \<Rightarrow> (found_share \<Rightarrow> bool) \<Rightarrow> 'vm rig_setup \<Rightarrow> ('v, 'vm) rig \<Rightarrow> bool" where
  "rig_ok ok Q rs r \<longleftrightarrow> inv_size rs r \<and> inv_heap r \<and> inv_crew ok rs r \<and> inv_found Q r"

lemma rig_step_ok:
  assumes "rig_step api agent author xmrig rs r r'" "turn_keeps ok Q rs" "rig_ok ok Q rs r"
  shows "rig_ok ok Q rs r'"
proof -
  have i: "inv_size rs r" "inv_heap r" "inv_crew ok rs r" "inv_found Q r"
    using assms(3) by (simp_all add: rig_ok_def)
  have "turns_find Q rs r" unfolding turns_find_def
    using crew_turn [OF assms(2) i(3,1,2)] by blast
  then show ?thesis
    using rig_step_size [OF assms(1) i(1)] rig_step_heap [OF assms(1) i(2)]
      rig_step_crew [OF assms(1,2) i(1-3)] rig_step_found [OF assms(1) i(1,4)]
    by (simp add: rig_ok_def)
qed

lemma worker_start_job [simp]: "w_job (worker_start cfg) = None"
  by (simp add: worker_start_def)

lemma start_rig_ok:
  assumes "connect_login api agent cenv lenv addr w (with_tls_fingerprint pki level pin) = (Inr (), p)"
    "snd (receiver_start sets now p) = p'" "\<And>cfg. ok (worker_start cfg)"
  shows "rig_ok ok Q rs (start_rig rs now_ms (start_sys (rs_threads rs) (reset_share_counters p')))"
proof -
  have p': "p' = set_read_timeout sets RECV_POLL_INTERVAL p" using assms(2) by (simp add: receiver_start_def)
  let ?r = "start_rig rs now_ms (start_sys (rs_threads rs) (reset_share_counters p'))"
  have "arc_ptr a < allocations p" if "current_job p = Some a" for a
    using connect_login_fresh [OF assms(1)] that by auto
  moreover have "\<not> Working a \<in> set (replicate k Idle)" for a k
    by auto
  ultimately have "inv_heap ?r" unfolding inv_heap_def
    by (intro exI [of _ "\<lambda>_. arc_val (the (current_job p))"])
      (auto simp: arcs_def start_rig_def start_sys_def p')
  moreover have "inv_crew ok rs ?r" using assms(3) by (auto simp: inv_crew_def start_rig_def cache_made_def)
  moreover have "inv_found Q ?r" by (simp add: inv_found_def start_rig_def)
  ultimately show ?thesis using start_rig_size by (auto simp: rig_ok_def)
qed

lemma rig_reachable_ok:
  assumes "rig_reachable api agent author xmrig pki level pin rs r" "turn_keeps ok Q rs"
    "\<And>cfg. ok (worker_start cfg)"
  shows "rig_ok ok Q rs r"
  using assms(1)
proof (induction rule: rig_reachable.induct)
  case (Start cenv lenv addr w p sets now p' now_ms)
  then show ?case using start_rig_ok assms(3) by blast
next
  case (Step r r')
  then show ?case using rig_step_ok assms(2) by blast
qed

context reference_hasher
begin

lemma turn_keeps_ok:
  "turn_keeps worker_ok
     (\<lambda>fs. admissible fs \<and> (fs_verdict fs = Submit_Verified \<longrightarrow> right_share gen_ds digest fs))
     \<lparr>rs_ops = ops, rs_gen = gen_ds, rs_native_loop = native, rs_verify_shares = verify, rs_threads = n\<rparr>"
  unfolding turn_keeps_def rig_setup.simps
  by (intro allI impI) (drule iteration_ok, assumption+, blast)

end

context hasher
begin

lemma turn_keeps_mining:
  "turn_keeps mining_ok (\<lambda>fs. admissible fs \<and> right_share gen_ds digest fs)
     \<lparr>rs_ops = ops, rs_gen = gen_ds, rs_native_loop = native, rs_verify_shares = verify, rs_threads = n\<rparr>"
  unfolding turn_keeps_def rig_setup.simps
  by (intro allI impI) (drule iteration_mining, assumption+, blast)

end

text \<open>The crew keeps what its next iterations need to return.\<close>

context total_hasher
begin

lemma turn_keeps_usable:
  "turn_keeps usable_ok (\<lambda>fs. admissible fs \<and> right_share gen_ds digest fs)
     \<lparr>rs_ops = ops, rs_gen = gen_ds, rs_native_loop = native, rs_verify_shares = verify, rs_threads = n\<rparr>"
  unfolding turn_keeps_def rig_setup.simps
proof (intro allI impI)
  fix cfg env a w sh h fo w' sh'
  assume w: "usable_ok w" "cache_made gen_ds (sh_cache sh)" "same_object (w_job w) a"
    and i: "worker_iteration ops gen_ds cfg env a w sh = Some (h, fo, w', sh')"
  have "usable_ok w'" using iteration_total [OF w iteration_usable [OF w(1,3) i], of cfg env] i by auto
  moreover have "mining_ok w" using w(1) by (simp add: usable_ok_def)
  ultimately show "usable_ok w' \<and> cache_made gen_ds (sh_cache sh') \<and>
      (\<forall>fs. fo = Some fs \<longrightarrow> (admissible fs \<and> right_share gen_ds digest fs) \<and> fs_job fs = a)"
    using iteration_mining [OF _ w(2,3) i] by blast
qed

lemma turn_returns:
  assumes "rig_ok usable_ok Q \<lparr>rs_ops = ops, rs_gen = gen_ds, rs_native_loop = native,
      rs_verify_shares = verify, rs_threads = n\<rparr> r" (is "rig_ok _ _ ?rs _")
    "at_sub i (Working a) (net r)"
  shows "worker_iteration ops gen_ds cfg env a (crew r ! i) (common r) \<noteq> None \<longleftrightarrow>
    usable (job_seed_hash (arc_val a))"
proof -
  have i: "i < length (crew r)" using assms(1,2) by (auto simp: rig_ok_def inv_size_def at_sub_def)
  then have w: "usable_ok (crew r ! i)" "cache_made gen_ds (sh_cache (common r))"
    using assms(1) by (simp_all add: rig_ok_def inv_crew_def)
  have same: "same_object (w_job (crew r ! i)) a"
    using inv_heap_object [OF _ assms(2) i] assms(1) by (simp add: rig_ok_def)
  show ?thesis
  proof
    assume "worker_iteration ops gen_ds cfg env a (crew r ! i) (common r) \<noteq> None"
    then obtain h fo w' sh' where "worker_iteration ops gen_ds cfg env a (crew r ! i) (common r) = Some (h, fo, w', sh')"
      by auto
    then show "usable (job_seed_hash (arc_val a))" by (rule iteration_usable [OF w(1) same])
  next
    assume "usable (job_seed_hash (arc_val a))"
    then show "worker_iteration ops gen_ds cfg env a (crew r ! i) (common r) \<noteq> None"
      using iteration_total [OF w same, of cfg env] by auto
  qed
qed

end

text \<open>The worker, the cache and the job of an iteration in a running miner.\<close>

lemma rig_ok_turn:
  assumes "rig_ok ok Q rs r" "at_sub i (Working a) (net r)"
  shows "ok (crew r ! i)" "cache_made (rs_gen rs) (sh_cache (common r))" "same_object (w_job (crew r ! i)) a"
proof -
  have i: "i < length (crew r)" using assms by (auto simp: rig_ok_def inv_size_def at_sub_def)
  then show "ok (crew r ! i)" "cache_made (rs_gen rs) (sh_cache (common r))"
    using assms(1) by (simp_all add: rig_ok_def inv_crew_def)
  show "same_object (w_job (crew r ! i)) a"
    using inv_heap_object [OF _ assms(2) i] assms(1) by (simp add: rig_ok_def)
qed

section \<open>Target and difficulty\<close>

text \<open>\<open>h * (m div t)\<close> stays within \<open>m\<close> when \<open>h\<close> is at most \<open>t\<close>.\<close>

lemma mult_div_le: "(h :: nat) \<le> t \<Longrightarrow> h * (m div t) \<le> m"
  by (metis dual_order.trans mult.commute mult_le_mono1 div_times_less_eq_dividend)

lemma meets_target_difficulty:
  assumes "meets_target h t"
  shows "0 < target_to_difficulty t \<and>
    (if 8 \<le> length t
     then (from_le (take 8 t) :: u64) \<noteq> 0 \<and>
       unat (from_le (slice 24 8 h) :: u64) * unat (target_to_difficulty t) < 2 ^ 64
     else 4 \<le> length t \<and> (from_le (take 4 t) :: u32) \<noteq> 0 \<and>
       unat (from_le (slice 28 4 h) :: u32) * unat (target_to_difficulty t) < 2 ^ 32)"
proof (cases "8 \<le> length t")
  case True
  let ?t = "from_le (take 8 t) :: u64" and ?h = "from_le (slice 24 8 h) :: u64"
  have t: "?t \<noteq> 0" "?h \<le> ?t" using assms True by (auto simp: meets_target_def Let_def split: if_splits)
  have d: "unat (target_to_difficulty t) = (2 ^ 64 - 1) div unat ?t" by (rule difficulty_8 [OF True refl t(1)])
  have "unat ?h * unat (target_to_difficulty t) \<le> 2 ^ 64 - 1"
    unfolding d by (rule mult_div_le) (use t(2) in \<open>simp add: word_le_nat_alt\<close>)
  moreover have "0 < unat (target_to_difficulty t)"
    unfolding d using t(1) unsigned_less [of ?t, where 'a = nat] by (simp add: div_greater_zero_iff unat_gt_0)
  ultimately show ?thesis using True t(1) by (auto simp: word_greater_zero_iff)
next
  case False
  let ?t = "from_le (take 4 t) :: u32" and ?h = "from_le (slice 28 4 h) :: u32"
  have t: "?t \<noteq> 0" "?h \<le> ?t" "4 \<le> length t" using assms False
    by (auto simp: meets_target_def Let_def split: if_splits)
  have d: "unat (target_to_difficulty t) = (2 ^ 32 - 1) div unat ?t"
    by (rule difficulty_4 [OF t(3) _ refl t(1)]) (use False in simp)
  have "unat ?h * unat (target_to_difficulty t) \<le> 2 ^ 32 - 1"
    unfolding d by (rule mult_div_le) (use t(2) in \<open>simp add: word_le_nat_alt\<close>)
  moreover have "0 < unat (target_to_difficulty t)"
    unfolding d using t(1) unsigned_less [of ?t, where 'a = nat] by (simp add: div_greater_zero_iff unat_gt_0)
  ultimately show ?thesis using False t(1,3) by (auto simp: word_greater_zero_iff)
qed

end
