(* ===== verification/Miner_Origin.thy ===== *)
theory Miner_Origin
  imports Miner_Safety
begin

text \<open>
  Where the submissions on the wire come from: every job that is mined was the connection's current
  one earlier in the run, as \<open>parse_job\<close> read it from a message of the pool, and every \<open>submit\<close>
  request is for a share that a worker found for such a job.
\<close>

section \<open>Jobs come from the pool\<close>

definition job_read :: "'v json_api \<Rightarrow> arc_job \<Rightarrow> bool" where
  "job_read api a \<longleftrightarrow> (\<exists>data. parse_job api data (job_generation (arc_val a)) = Some (arc_val a))"

lemma login_job_current:
  "current_job (login_job api v p) = Some a \<Longrightarrow> current_job p = Some a \<or> job_read api a"
  by (auto simp: login_job_def install_job_def job_read_def parse_job_generation
      split: option.splits Option.bind_splits dest: parse_job_generation)

lemma take_job_current:
  "current_job (take_job api v p) = Some a \<Longrightarrow> current_job p = Some a \<or> job_read api a"
  by (auto simp: take_job_def install_job_def job_read_def parse_job_generation
      split: option.splits Option.bind_splits dest: parse_job_generation)

definition jobs_read :: "'v json_api \<Rightarrow> pool \<Rightarrow> bool" where
  "jobs_read api p \<longleftrightarrow> (\<forall>a. current_job p = Some a \<longrightarrow> job_read api a)"

lemma jobs_read_same:
  "jobs_read api p \<Longrightarrow> current_job p' = current_job p \<or> current_job p' = None \<Longrightarrow> jobs_read api p'"
  by (auto simp: jobs_read_def)

lemma link_step_jobs_read: "link_step api agent s s' \<Longrightarrow> jobs_read api (sp s) \<Longrightarrow> jobs_read api (sp s')"
proof (erule link_step.cases, goal_cases)
  case (17 s1 v u p)
  then show ?case using login_job_current [of api v "sp s"] by (auto simp: goto_def jobs_read_def)
qed (auto elim!: jobs_read_same simp: goto_def take_pending_def dest!: send_request_frame)

lemma loop_step_jobs_read: "loop_step api author xmrig s s' \<Longrightarrow> jobs_read api (sp s) \<Longrightarrow> jobs_read api (sp s')"
proof (erule loop_step.cases, goal_cases)
  case (10 s1 e line lines msg p)
  then show ?case using take_job_current [of api msg "sp s"] by (auto simp: goto_def jobs_read_def)
qed (auto elim!: jobs_read_same simp: goto_def dest!: send_message_frame decide_frame)

lemma sub_step_jobs_read: "sub_step i s s' \<Longrightarrow> jobs_read api (sp s) \<Longrightarrow> jobs_read api (sp s')"
  by (erule sub_step.cases) (auto elim!: jobs_read_same simp: set_sub_def dest!: write_submit_frame)

lemma connect_login_read:
  assumes "connect_login api agent cenv lenv addr w (with_tls_fingerprint pki level pin) = (Inr (), p)"
  shows "jobs_read api p"
proof -
  let ?p0 = "with_tls_fingerprint pki level pin"
  obtain st where "open_stream cenv (pinned_fingerprint ?p0) addr = Inr st"
    using assms by (auto simp: connect_login_def connect_def split: sum.splits)
  then have l: "login api agent lenv w ((install_stream st (?p0\<lparr>address := addr\<rparr>))\<lparr>connected := True\<rparr>) = (Inr (), p)"
      (is "login _ _ _ _ ?p1 = _")
    using assms by (simp add: connect_login_def connect_def)
  obtain v p3 where r: "send_request api lenv (str ''login'') (login_params agent w) (begin_login w ?p1) = (Inr v, p3)"
      and lr: "login_reply api v p3 = (Inr (), p)"
    using l by (auto simp: login_def split: prod.splits sum.splits)
  have "current_job p3 = None" using send_request_frame [OF r]
    by (auto simp: begin_login_def install_stream_def with_tls_fingerprint_def)
  then show ?thesis using lr login_job_current
    by (fastforce simp: jobs_read_def login_reply_def split: sum.splits prod.splits)
qed

lemma rig_step_jobs_read:
  "rig_step api agent author xmrig rs r r' \<Longrightarrow> jobs_read api (sp (net r)) \<Longrightarrow> jobs_read api (sp (net r'))"
proof (erule rig_step.cases, goal_cases)
  case (4 i a r1 env res)
  then show ?case by (auto simp: after_turn_def set_sub_def split: prod.splits option.splits)
next
  case (5 i a r1 fs)
  then show ?case by (auto simp: call_submit_def set_sub_def enter_submit_def elim!: jobs_read_same)
qed (auto intro: link_step_jobs_read loop_step_jobs_read sub_step_jobs_read)

lemma rig_jobs_read:
  "rig_reachable api agent author xmrig pki level pin rs r \<Longrightarrow> jobs_read api (sp (net r))"
proof (induction rule: rig_reachable.induct)
  case (Start cenv lenv addr w p sets now p' now_ms)
  have "current_job p' = current_job p" using Start(2) by (auto simp: receiver_start_def)
  then show ?case using connect_login_read [OF Start(1)] by (simp add: start_rig_def start_sys_def jobs_read_def)
next
  case (Step r r')
  then show ?case using rig_step_jobs_read by blast
qed

section \<open>Mined jobs were current\<close>

text \<open>\<open>held_earlier R step r a\<close>: an earlier state of the run, reachable by \<open>R\<close> and followed by the
  steps that lead to \<open>r\<close>, had the job \<open>a\<close> as the connection's current one.\<close>

definition held_earlier ::
  "(('v, 'vm) rig \<Rightarrow> bool) \<Rightarrow> (('v, 'vm) rig \<Rightarrow> ('v, 'vm) rig \<Rightarrow> bool) \<Rightarrow> ('v, 'vm) rig \<Rightarrow> arc_job \<Rightarrow> bool" where
  "held_earlier R step r a \<longleftrightarrow> (\<exists>r0. R r0 \<and> step\<^sup>*\<^sup>* r0 r \<and> current_job (sp (net r0)) = Some a)"

lemma held_now: "R r \<Longrightarrow> current_job (sp (net r)) = Some a \<Longrightarrow> held_earlier R step r a"
  by (auto simp: held_earlier_def)

lemma held_later: "held_earlier R step r a \<Longrightarrow> step r r' \<Longrightarrow> held_earlier R step r' a"
  unfolding held_earlier_def by (meson rtranclp.rtrancl_into_rtrancl)

definition inv_held :: "(arc_job \<Rightarrow> bool) \<Rightarrow> 'v sys \<Rightarrow> bool" where
  "inv_held W s \<longleftrightarrow> (\<forall>a. Working a \<in> set (subs s) \<longrightarrow> W a)"

lemma rig_step_held:
  assumes "rig_step api agent author xmrig rs r r'" "inv_held W (net r)"
    "\<And>a. current_job (sp (net r')) = Some a \<Longrightarrow> W a"
  shows "inv_held W (net r')"
  using assms(1)
proof cases
  case (Call i s)
  then show ?thesis using sub_step_arcs [OF Call(3,2)] assms(2,3) by (auto simp: inv_held_def)
next
  case (Turn i a env res)
  then show ?thesis using assms(2)
    by (auto simp: inv_held_def after_turn_def set_sub_def split: prod.splits option.splits dest!: set_update_job)
next
  case (Submit i a fs)
  then show ?thesis using assms(2)
    by (auto simp: inv_held_def call_submit_def set_sub_def dest!: set_update_job)
qed (use assms(2) in \<open>auto simp: inv_held_def dest!: link_step_size loop_step_size\<close>)

section \<open>The submissions\<close>

text \<open>A call of \<open>submit_share\<close> for a share with \<open>Q\<close>, of a job with \<open>W\<close>.\<close>

definition calls_of ::
  "(found_share \<Rightarrow> bool) \<Rightarrow> (arc_job \<Rightarrow> bool) \<Rightarrow> arc_job \<Rightarrow> bytes \<Rightarrow> bytes \<Rightarrow> bool" where
  "calls_of Q W a nonce result \<longleftrightarrow> W a \<and>
     (\<exists>fs. Q fs \<and> fs_job fs = a \<and> nonce = hex_encode (fs_nonce fs) \<and> result = hex_encode (fs_hash fs))"

lemma called_for_mono:
  "called_for P a params \<Longrightarrow> (\<And>a n x. P a n x \<Longrightarrow> P' a n x) \<Longrightarrow> called_for P' a params"
  unfolding called_for_def by blast

lemma inv_wire_mono:
  assumes "inv_wire P s" and m: "\<And>a n x. P a n x \<Longrightarrow> P' a n x"
  shows "inv_wire P' s"
proof -
  have c: "called_for P a params \<Longrightarrow> called_for P' a params" for a params
    by (erule called_for_mono) (rule m)
  have "pc_called P pc \<Longrightarrow> pc_called P' pc" for pc
    by (cases pc) (simp_all add: m c)
  then show ?thesis using assms(1) c unfolding inv_wire_def by blast
qed

lemma rig_step_wire:
  assumes "rig_step api agent author xmrig rs r r'" "inv_size rs r" "inv_found Q r" "inv_held W (net r)"
    "inv_wire (calls_of Q W) (net r)"
  shows "inv_wire (calls_of Q W) (net r')"
  using assms(1)
proof cases
  case (Turn i a env res)
  obtain h fo w sh where res: "res = (h, fo, w, sh)" by (cases res) auto
  show ?thesis using assms(5) unfolding Turn(1) res
    by (auto simp: inv_wire_def after_turn_def set_sub_def split: option.splits dest!: set_update_job)
next
  case (Submit i a fs)
  have "i < length (found r)" using Submit(2) assms(2) by (auto simp: at_sub_def inv_size_def)
  then have "Q fs \<and> fs_job fs = a" using assms(3) Submit(2,3) by (auto simp: inv_found_def at_sub_def)
  moreover have "W a" using assms(4) Submit(2) nth_mem unfolding inv_held_def at_sub_def by metis
  ultimately have "calls_of Q W a (hex_encode (fs_nonce fs)) (hex_encode (fs_hash fs))"
    by (auto simp: calls_of_def)
  then show ?thesis using assms(5) unfolding Submit(1)
    by (auto simp: inv_wire_def call_submit_def set_sub_def enter_submit_def dest!: set_update_job)
qed (use assms(5) in \<open>auto intro: link_step_wire loop_step_wire sub_step_wire\<close>)

lemma rig_reachable_wire:
  assumes "rig_reachable api agent author xmrig pki level pin rs r" "turn_keeps ok Q rs"
    "\<And>cfg. ok (worker_start cfg)"
  defines "W \<equiv> held_earlier (rig_reachable api agent author xmrig pki level pin rs)
    (rig_step api agent author xmrig rs)"
  shows "inv_held (W r) (net r) \<and> inv_wire (calls_of Q (W r)) (net r)"
  using assms(1)
proof (induction rule: rig_reachable.induct)
  case (Start cenv lenv addr w p sets now p' now_ms)
  then show ?case using start_wire [OF Start(1,2)]
    by (auto simp: inv_held_def start_rig_def start_sys_def)
next
  case (Step r r')
  have ok: "inv_size rs r" "inv_found Q r"
    using rig_reachable_ok [OF Step(1) assms(2,3)] by (simp_all add: rig_ok_def)
  have later: "W r a \<Longrightarrow> W r' a" for a unfolding W_def
    by (erule held_later) (rule Step(2))
  have now: "W r' a" if "current_job (sp (net r')) = Some a" for a
    unfolding W_def by (rule held_now) (rule rig_reachable.Step [OF Step(1,2)], rule that)
  have held: "inv_held (W r') (net r)" using Step(3) later by (auto simp: inv_held_def)
  have "inv_wire (calls_of Q (W r')) (net r)"
    by (rule inv_wire_mono [OF Step(3) [THEN conjunct2]]) (auto simp: calls_of_def later)
  then show ?case using rig_step_held [OF Step(2) held now] rig_step_wire [OF Step(2) ok held] by blast
qed

text \<open>Every \<open>submit\<close> request on the wire is for such a share.\<close>

lemma wire_share:
  assumes "rig_reachable api agent author xmrig pki level pin rs r" "turn_keeps ok Q rs"
    "\<And>cfg. ok (worker_start cfg)"
    "stream (sp (net r)) = Some st" "rq \<in> set (tcp_stream.written (stream_tcp st))"
    "rq_method rq = str ''submit''"
  obtains r0 sid fs where "rig_reachable api agent author xmrig pki level pin rs r0"
    "(rig_step api agent author xmrig rs)\<^sup>*\<^sup>* r0 r" "current_job (sp (net r0)) = Some (fs_job fs)"
    "job_read api (fs_job fs)" "Q fs"
    "rq_params rq = submit_params sid (job_id (arc_val (fs_job fs))) (hex_encode (fs_nonce fs)) (hex_encode (fs_hash fs))"
proof -
  have "rq_params rq \<in> submits (stream (sp (net r)))" using assms(4-6) by (auto simp: submits_def)
  then obtain sid fs where f: "Q fs"
    "held_earlier (rig_reachable api agent author xmrig pki level pin rs) (rig_step api agent author xmrig rs) r (fs_job fs)"
    "rq_params rq = submit_params sid (job_id (arc_val (fs_job fs))) (hex_encode (fs_nonce fs)) (hex_encode (fs_hash fs))"
    using rig_reachable_wire [OF assms(1-3)] unfolding inv_wire_def called_for_def calls_of_def by metis
  then obtain r0 where r0: "rig_reachable api agent author xmrig pki level pin rs r0"
    "(rig_step api agent author xmrig rs)\<^sup>*\<^sup>* r0 r" "current_job (sp (net r0)) = Some (fs_job fs)"
    by (auto simp: held_earlier_def)
  then show ?thesis using that f(1,3) rig_jobs_read [OF r0(1)] by (auto simp: jobs_read_def)
qed

end
