(* ===== verification/Miner_Counts.thy ===== *)
theory Miner_Counts
  imports Miner_Rig
begin

text \<open>
  Counting in the running miner. Worker \<open>i\<close> of \<open>n\<close> hashes the nonces \<open>i\<close>, \<open>i + n\<close>, \<open>i + 2 * n\<close>, \<dots>,
  whatever jobs come in between, so no nonce is tried twice before the counters pass \<open>2 ^ 32\<close>.
  A share that has been found is withheld, waits for its call of \<open>submit_share\<close>, or has been
  counted by one.
\<close>

section \<open>Nonces\<close>

definition tries :: "nat \<Rightarrow> (nat \<times> u32) list \<Rightarrow> nat" where
  "tries i ts = length (filter (\<lambda>(j, _). j = i) ts)"

lemma tries_simps [simp]:
  "tries i [] = 0" "tries i (ts @ [(j, x)]) = tries i ts + (if j = i then 1 else 0)"
  by (simp_all add: tries_def)

lemma tries_take: "p \<le> q \<Longrightarrow> tries i (take p ts) \<le> tries i (take q ts)"
proof -
  assume "p \<le> q"
  then have "take q ts = take p ts @ drop p (take q ts)" by (metis append_take_drop_id min.absorb1 take_take)
  then show ?thesis by (metis filter_append le_add1 length_append tries_def)
qed

lemma tries_take_Suc: "p < length ts \<Longrightarrow> tries (fst (ts ! p)) (take (Suc p) ts) = Suc (tries (fst (ts ! p)) (take p ts))"
  by (simp add: take_Suc_conv_app_nth tries_def case_prod_beta)

definition nonce_no :: "nat \<Rightarrow> (nat \<times> u32) list \<Rightarrow> nat \<Rightarrow> nat" where
  "nonce_no n ts p = fst (ts ! p) + tries (fst (ts ! p)) (take p ts) * n"

definition strides :: "nat \<Rightarrow> (nat \<times> u32) list \<Rightarrow> bool" where
  "strides n ts \<longleftrightarrow> (\<forall>p < length ts. fst (ts ! p) < n \<and> snd (ts ! p) = of_nat (nonce_no n ts p))"

lemma strides_snoc:
  "strides n ts \<Longrightarrow> i < n \<Longrightarrow> x = of_nat (i + tries i ts * n) \<Longrightarrow> strides n (ts @ [(i, x)])"
  by (auto simp: strides_def nonce_no_def nth_append less_Suc_eq)

lemma nonce_no_less:
  assumes "p < q" "q < length ts" "fst (ts ! p) < n" "fst (ts ! q) < n"
  shows "nonce_no n ts p \<noteq> nonce_no n ts q"
proof (cases "fst (ts ! p) = fst (ts ! q)")
  case True
  have "tries (fst (ts ! p)) (take p ts) < tries (fst (ts ! p)) (take q ts)"
    using tries_take [of "Suc p" q "fst (ts ! p)" ts] tries_take_Suc [of p ts] assms(1,2) by simp
  then show ?thesis using True assms(3) by (simp add: nonce_no_def)
next
  case False
  have "nonce_no n ts p mod n = fst (ts ! p)" "nonce_no n ts q mod n = fst (ts ! q)"
    using assms(3,4) by (simp_all add: nonce_no_def)
  then show ?thesis using False by metis
qed

lemma nonce_no_last:
  assumes "p < length ts" "\<forall>i < n. i + tries i ts * n \<le> 2 ^ 32" "fst (ts ! p) < n"
  shows "nonce_no n ts p < 2 ^ 32"
proof -
  have "Suc (tries (fst (ts ! p)) (take p ts)) \<le> tries (fst (ts ! p)) ts"
    using tries_take [of "Suc p" "length ts" "fst (ts ! p)" ts] tries_take_Suc [of p ts] assms(1) by simp
  then have "Suc (tries (fst (ts ! p)) (take p ts)) * n \<le> tries (fst (ts ! p)) ts * n" by (rule mult_le_mono1)
  then have "nonce_no n ts p + n \<le> fst (ts ! p) + tries (fst (ts ! p)) ts * n"
    by (simp add: nonce_no_def)
  moreover have "fst (ts ! p) + tries (fst (ts ! p)) ts * n \<le> 2 ^ 32" using assms(2,3) by blast
  ultimately show ?thesis using assms(3) by linarith
qed

lemma strides_distinct:
  assumes "strides n ts" "\<forall>i < n. i + tries i ts * n \<le> 2 ^ 32"
  shows "distinct (map snd ts)"
proof -
  have "snd (ts ! p) \<noteq> snd (ts ! q)" if pq: "p < q" "q < length ts" for p q
  proof -
    have f: "fst (ts ! p) < n" "fst (ts ! q) < n" "snd (ts ! p) = of_nat (nonce_no n ts p)"
        "snd (ts ! q) = of_nat (nonce_no n ts q)"
      using assms(1) pq by (auto simp: strides_def)
    have "nonce_no n ts p < 2 ^ 32" "nonce_no n ts q < 2 ^ 32"
      using nonce_no_last [OF _ assms(2)] f(1,2) pq by auto
    then have "nonce_no n ts p = nonce_no n ts q" if "(of_nat (nonce_no n ts p) :: u32) = of_nat (nonce_no n ts q)"
      using arg_cong [OF that, of unat] by (simp add: unat_of_nat)
    then show ?thesis using nonce_no_less [OF pq f(1,2)] f(3,4) by auto
  qed
  then show ?thesis by (auto simp: distinct_conv_nth neq_iff)
qed

lemma iteration_nonce:
  "worker_iteration ops gen_ds cfg env a w sh = Some (h, fo, w', sh') \<Longrightarrow>
     w_nonce w' = (case h of None \<Rightarrow> w_nonce w | Some _ \<Rightarrow> w_nonce w + ucast (cfg_thread_count cfg))"
proof (erule iteration_cases, goal_cases)
  case (1 w1 cache)
  then show ?case using follow_seed_frame [OF 1(1)] by simp
next
  case (2 w1 cache g w2 w3 stats)
  then show ?case using follow_seed_frame [OF 2(1)] hash_once_frame [OF 2(4)]
      check_share_found [OF 2(5)] flush_hashes_frame [OF 2(6)] by auto
qed

definition inv_nonce :: "'vm rig_setup \<Rightarrow> ('v, 'vm) rig \<Rightarrow> bool" where
  "inv_nonce rs r \<longleftrightarrow> strides (rs_threads rs) (tried r) \<and>
     (\<forall>i < rs_threads rs. w_nonce (crew r ! i) = of_nat (i + tries i (tried r) * rs_threads rs))"

lemma ucast_of_nat_u64: "n < 2 ^ 32 \<Longrightarrow> (ucast (of_nat n :: u32) :: u64) = of_nat n"
  by (rule word_unat_eq_iff [THEN iffD2]) (simp add: unat_ucast_up unat_of_nat)

lemma ucast_of_nat_u32: "(ucast (of_nat n :: u64) :: u32) = of_nat n"
  by transfer simp

lemma ucast_add_down: "(ucast (a + b :: u64) :: u32) = ucast a + ucast b"
proof -
  have "(ucast (of_nat (unat a + unat b) :: u64) :: u32) = ucast (of_nat (unat a) :: u64) + ucast (of_nat (unat b) :: u64)"
    unfolding ucast_of_nat_u32 by (rule of_nat_add)
  then show ?thesis by simp
qed

lemma rig_step_nonce:
  assumes "rig_step api agent author xmrig rs r r'" "inv_size rs r" "rs_threads rs < 2 ^ 32" "inv_nonce rs r"
  shows "inv_nonce rs r'"
  using assms(1)
proof cases
  case (Turn i a env res)
  obtain h fo w sh where res: "res = (h, fo, w, sh)" by (cases res) auto
  have i: "i < rs_threads rs" "i < length (crew r)" using Turn(2) assms(2) by (auto simp: at_sub_def inv_size_def)
  have n: "w_nonce (crew r ! i) = of_nat (i + tries i (tried r) * rs_threads rs)"
    using assms(4) i(1) by (simp add: inv_nonce_def)
  have w: "w_nonce w = (case h of None \<Rightarrow> w_nonce (crew r ! i)
      | Some _ \<Rightarrow> w_nonce (crew r ! i) + of_nat (rs_threads rs))"
    using iteration_nonce [OF Turn(4) [unfolded res]] assms(3)
    by (cases h) (simp_all add: worker_cfg_def ucast_of_nat_u64)
  show ?thesis
  proof (cases h)
    case None
    then show ?thesis using assms(4) w i n unfolding Turn(1) res
      by (auto simp: inv_nonce_def after_turn_def nth_list_update)
  next
    case (Some b)
    have "strides (rs_threads rs) (tried r @ [(i, ucast (w_nonce (crew r ! i)))])"
      using assms(4) i(1) n by (intro strides_snoc) (simp_all add: inv_nonce_def ucast_of_nat_u32 del: of_nat_add of_nat_mult)
    then show ?thesis using assms(4) w i n Some unfolding Turn(1) res
      by (auto simp: inv_nonce_def after_turn_def nth_list_update algebra_simps)
  qed
next
  case (Submit i a fs)
  then show ?thesis using assms(4) by (simp add: inv_nonce_def call_submit_def)
qed (use assms(4) in \<open>auto simp: inv_nonce_def\<close>)

lemma start_rig_nonce:
  "rs_threads rs < 2 ^ 32 \<Longrightarrow> inv_nonce rs (start_rig rs now_ms s)"
  by (simp add: inv_nonce_def strides_def start_rig_def worker_start_def worker_cfg_def ucast_of_nat_u64)

section \<open>Found shares\<close>

definition waiting :: "found_share option \<Rightarrow> u64" where
  "waiting f = (if f = None then 0 else 1)"

lemma check_share_counts:
  "check_share ops now a h w stats = Some (fo, w', stats') \<Longrightarrow>
     shares_found stats' - verify_failures stats' = shares_found stats - verify_failures stats + waiting fo"
  by (auto simp: check_share_def waiting_def Let_def split: if_splits Option.bind_splits)
    (metis should_submit.elims(3))

lemma iteration_counts:
  "worker_iteration ops gen_ds cfg env a w sh = Some (h, fo, w', sh') \<Longrightarrow>
     shares_found (sh_stats sh') - verify_failures (sh_stats sh') =
       shares_found (sh_stats sh) - verify_failures (sh_stats sh) + waiting fo"
proof (erule iteration_cases, goal_cases)
  case (1 w1 cache)
  then show ?case by (simp add: waiting_def)
next
  case (2 w1 cache g w2 w3 stats)
  then show ?case using check_share_counts [OF 2(5)] flush_hashes_frame [OF 2(6)] by simp
qed

definition inv_counts :: "('v, 'vm) rig \<Rightarrow> bool" where
  "inv_counts r \<longleftrightarrow> shares_found (sh_stats (common r)) - verify_failures (sh_stats (common r)) =
     of_nat (calls (net r)) + sum_list (map waiting (found r))"

lemma sub_step_calls: "sub_step i s s' \<Longrightarrow> in_call (subs s ! i) \<Longrightarrow> calls s' = calls s"
  by (erule sub_step.cases) (auto simp: set_sub_def at_sub_def in_call_def)

lemma link_step_calls: "link_step api agent s s' \<Longrightarrow> calls s' = calls s"
  by (erule link_step.cases) (auto simp: goto_def)

lemma loop_step_calls: "loop_step api author xmrig s s' \<Longrightarrow> calls s' = calls s"
  by (erule loop_step.cases) (auto simp: goto_def)

lemma rig_step_counts:
  assumes "rig_step api agent author xmrig rs r r'" "inv_size rs r" "inv_counts r"
  shows "inv_counts r'"
  using assms(1)
proof cases
  case (Turn i a env res)
  obtain h fo w sh where res: "res = (h, fo, w, sh)" by (cases res) auto
  have i: "i < length (found r)" using Turn(2) assms(2) by (auto simp: at_sub_def inv_size_def)
  show ?thesis using iteration_counts [OF Turn(4) [unfolded res]] assms(3) Turn(3) unfolding Turn(1) res
    by (simp add: inv_counts_def after_turn_def set_sub_def sum_map_update [OF i] waiting_def [of None]
        split: option.splits)
next
  case (Submit i a fs)
  have i: "i < length (found r)" using Submit(2) assms(2) by (auto simp: at_sub_def inv_size_def)
  show ?thesis using assms(3) Submit(3) unfolding Submit(1)
    by (simp add: inv_counts_def call_submit_def set_sub_def sum_map_update [OF i] waiting_def)
qed (use assms(3) in \<open>auto simp: inv_counts_def link_step_calls loop_step_calls sub_step_calls\<close>)

lemma start_rig_counts: "inv_counts (start_rig rs now_ms (start_sys (rs_threads rs) p))"
proof -
  have "sum_list (map waiting (replicate k None)) = 0" for k by (induction k) (simp_all add: waiting_def)
  then show ?thesis by (simp add: inv_counts_def start_rig_def start_sys_def stats_new_def)
qed

section \<open>Every reachable state\<close>

lemma rig_reachable_counts:
  assumes "rig_reachable api agent author xmrig pki level pin rs r"
  shows "inv_size rs r \<and> inv_counts r \<and> (rs_threads rs < 2 ^ 32 \<longrightarrow> inv_nonce rs r)"
  using assms
proof (induction rule: rig_reachable.induct)
  case (Start cenv lenv addr w p sets now p' now_ms)
  then show ?case using start_rig_size start_rig_counts start_rig_nonce by blast
next
  case (Step r r')
  then show ?case
    using rig_step_size [OF Step(2)] rig_step_counts [OF Step(2)] rig_step_nonce [OF Step(2)] by blast
qed

text \<open>In the width of the connection's counters.\<close>

lemma sum_waiting: "sum_list (map waiting fs) = of_nat (length (filter (\<lambda>f. f \<noteq> None) fs))"
  by (induction fs) (simp_all add: waiting_def)

lemma found_split:
  assumes "inv_counts r"
  shows "(ucast (shares_found (sh_stats (common r))) :: u32) =
    ucast (verify_failures (sh_stats (common r))) + of_nat (calls (net r)) +
    of_nat (length (filter (\<lambda>f. f \<noteq> None) (found r)))"
proof -
  have "shares_found (sh_stats (common r)) = verify_failures (sh_stats (common r)) +
      of_nat (calls (net r) + length (filter (\<lambda>f. f \<noteq> None) (found r)))"
    using assms by (simp add: inv_counts_def sum_waiting algebra_simps)
  then have "(ucast (shares_found (sh_stats (common r))) :: u32) =
      ucast (verify_failures (sh_stats (common r))) +
      ucast (of_nat (calls (net r) + length (filter (\<lambda>f. f \<noteq> None) (found r))) :: u64)"
    by (simp only: ucast_add_down)
  then show ?thesis unfolding ucast_of_nat_u32 by simp
qed

end
