(* ===== verification/Miner.thy ===== *)
theory Miner
  imports Miner_Origin Miner_Counts
begin

text \<open>
  \<open>src/miner.rs\<close>: \<open>HashrateTracker\<close> and the public operations of \<open>Miner\<close>. Instants are seconds
  as exact fractions and so are the hashrates: the rounding of the code's \<open>f64\<close> values is left
  out. The workers and the receiver that \<open>start\<close> and \<open>initialize\<close> spawn are \<open>Miner_Rig\<close>;
  \<open>Miner\<close> itself only reads the counters they share with it.
\<close>

section \<open>HashrateTracker\<close>

record hash_sample =
  hs_time :: rat
  hs_hashes :: u64

type_synonym hashrate_tracker = "hash_sample list"

definition tracker_record :: "rat \<Rightarrow> u64 \<Rightarrow> hashrate_tracker \<Rightarrow> hashrate_tracker" where
  "tracker_record now hashes samples =
     dropWhile (\<lambda>s. hs_time s < now - 660) (samples @ [\<lparr>hs_time = now, hs_hashes = hashes\<rparr>])"

definition saturating_sub_u64 :: "u64 \<Rightarrow> u64 \<Rightarrow> u64" where
  "saturating_sub_u64 a b = (if a < b then 0 else a - b)"

definition rate_over :: "rat \<Rightarrow> nat \<Rightarrow> hashrate_tracker \<Rightarrow> rat option" where
  "rate_over now window_secs samples =
     (if length samples < 2 then None
      else let cutoff = now - of_nat window_secs in
        case find (\<lambda>s. cutoff \<le> hs_time s) samples of
          None \<Rightarrow> None
        | Some oldest \<Rightarrow>
            let newest = last samples;
                elapsed = hs_time newest - hs_time oldest
            in if elapsed < 1 then None
               else Some (of_nat (unat (saturating_sub_u64 (hs_hashes newest) (hs_hashes oldest))) / elapsed))"

record hashrate_snapshot =
  rate_1m :: "rat option"
  rate_5m :: "rat option"
  rate_10m :: "rat option"

section \<open>Miner\<close>

text \<open>\<open>m_workers\<close> are the numbers of the spawned threads.\<close>

record miner =
  m_native_loop :: bool
  m_verify_shares :: bool
  m_pool :: "pool option"
  m_workers :: "nat list"
  m_thread_count :: u32
  m_hashrate :: rat
  m_active :: bool
  m_start_time :: "rat option"
  m_total_hashes :: u64
  m_stats :: "mining_stats option"
  m_tracker :: hashrate_tracker

definition miner_new :: "bool \<Rightarrow> miner" where
  "miner_new mining_active =
     \<lparr>m_native_loop = True, m_verify_shares = True, m_pool = None, m_workers = [], m_thread_count = 2,
      m_hashrate = 0, m_active = mining_active, m_start_time = None, m_total_hashes = 0,
      m_stats = None, m_tracker = []\<rparr>"

definition miner_set_native_loop :: "bool \<Rightarrow> miner \<Rightarrow> miner" where
  "miner_set_native_loop enabled m = m\<lparr>m_native_loop := enabled\<rparr>"

definition miner_set_verify_shares :: "bool \<Rightarrow> miner \<Rightarrow> miner" where
  "miner_set_verify_shares enabled m = m\<lparr>m_verify_shares := enabled\<rparr>"

text \<open>\<open>clamp\<close> panics when its bounds are out of order; the parallelism is never zero.\<close>

definition clamp_u32 :: "u32 \<Rightarrow> u32 \<Rightarrow> u32 \<Rightarrow> u32" where
  "clamp_u32 x lo hi = (if x < lo then lo else if hi < x then hi else x)"

definition parallelism :: "u32 option \<Rightarrow> u32" where
  "parallelism cores = (case cores of Some n \<Rightarrow> n | None \<Rightarrow> 4)"

definition set_thread_count :: "u32 option \<Rightarrow> u32 \<Rightarrow> miner \<Rightarrow> miner" where
  "set_thread_count cores n m = m\<lparr>m_thread_count := clamp_u32 n 1 (parallelism cores)\<rparr>"

definition recommended_thread_count :: "u32 option \<Rightarrow> u32" where
  "recommended_thread_count cores =
     (let total = parallelism cores in max (if total < 1 then 0 else total - 1) 1)"

text \<open>\<open>initialize\<close>: the answers of the socket to the first connection, and of the last
  \<open>set_read_timeout\<close> by the receiver that is spawned, are parameters.\<close>

datatype miner_error = Connection_Failed pool_error | Login_Failed pool_error | Not_Initialized | Spawn_Failed nat

record init_env =
  ie_cores :: "u32 option"
  ie_connect :: connect_env
  ie_login :: login_env
  ie_sets_timeout :: bool
  ie_now :: nat

definition initialize ::
  "'v json_api \<Rightarrow> bytes \<Rightarrow> webpki \<Rightarrow> init_env \<Rightarrow> bytes \<Rightarrow> bytes \<Rightarrow> u32 \<Rightarrow> nat \<Rightarrow> bytes option \<Rightarrow> miner \<Rightarrow>
     (miner_error + unit) \<times> miner" where
  "initialize api agent pki env addr w threads donate_level fingerprint m =
     (let m = m\<lparr>m_thread_count := clamp_u32 threads 1 (parallelism (ie_cores env))\<rparr>
      in case connect (ie_connect env) addr (with_tls_fingerprint pki donate_level fingerprint) of
           (Inl e, p) \<Rightarrow> (Inl (Connection_Failed e), m)
         | (Inr _, p) \<Rightarrow>
             (case login api agent (ie_login env) w p of
                (Inl e, p) \<Rightarrow> (Inl (Login_Failed e), m)
              | (Inr _, p) \<Rightarrow>
                  let p = (if connected p then snd (receiver_start (ie_sets_timeout env) (ie_now env) p) else p);
                      p = reset_share_counters p
                  in (Inr (), m\<lparr>m_pool := Some p, m_total_hashes := 0, m_hashrate := 0\<rparr>)))"

text \<open>\<open>start\<close>: \<open>spawns i\<close> tells whether thread \<open>i\<close> could be spawned. A failure leaves the workers
  before it running and the statistics unset.\<close>

fun spawn_workers :: "(nat \<Rightarrow> bool) \<Rightarrow> nat list \<Rightarrow> nat list \<Rightarrow> (miner_error + unit) \<times> nat list" where
  "spawn_workers spawns [] workers = (Inr (), workers)"
| "spawn_workers spawns (thread_id # ids) workers =
     (if spawns thread_id then spawn_workers spawns ids (workers @ [thread_id])
      else (Inl (Spawn_Failed thread_id), workers))"

definition start :: "(nat \<Rightarrow> bool) \<Rightarrow> rat \<Rightarrow> u64 \<Rightarrow> miner \<Rightarrow> (miner_error + unit) \<times> miner" where
  "start spawns now now_ms m =
     (case m_pool m of
        None \<Rightarrow> (Inl Not_Initialized, m)
      | Some p \<Rightarrow>
          let m = m\<lparr>m_start_time := Some now, m_total_hashes := 0\<rparr>;
              stats = stats_new now_ms;
              (res, workers) = spawn_workers spawns [0..<unat (m_thread_count m)] (m_workers m);
              m = m\<lparr>m_workers := workers\<rparr>
          in case res of Inl e \<Rightarrow> (Inl e, m) | Inr _ \<Rightarrow> (Inr (), m\<lparr>m_stats := Some stats\<rparr>))"

definition stop :: "miner \<Rightarrow> miner" where
  "stop m = m\<lparr>m_active := False, m_workers := []\<rparr>"

section \<open>Reading the counters\<close>

definition get_difficulty :: "miner \<Rightarrow> u64" where
  "get_difficulty m = (case m_stats m of Some s \<Rightarrow> current_difficulty s | None \<Rightarrow> 0)"

definition get_best_hash_val :: "miner \<Rightarrow> u32" where
  "get_best_hash_val m = (case m_stats m of Some s \<Rightarrow> best_hash_val s | None \<Rightarrow> 0xFFFFFFFF)"

definition get_verify_failures :: "miner \<Rightarrow> u64" where
  "get_verify_failures m = (case m_stats m of Some s \<Rightarrow> verify_failures s | None \<Rightarrow> 0)"

record share_stats =
  total_found :: u64
  last_found_elapsed_secs :: "rat option"

text \<open>The differences are of \<open>u64\<close> values and wrap in a release build.\<close>

definition get_share_stats :: "u64 \<Rightarrow> miner \<Rightarrow> share_stats" where
  "get_share_stats now_ms m =
     (case m_stats m of
        None \<Rightarrow> \<lparr>total_found = 0, last_found_elapsed_secs = None\<rparr>
      | Some stats \<Rightarrow>
          let last_ms = last_share_time_ms stats;
              start_ms = start_time_ms stats;
              elapsed = (if 0 < last_ms then Some (of_nat (unat (now_ms - last_ms)) / 1000)
                         else if 0 < start_ms then Some (of_nat (unat (now_ms - start_ms)) / 1000)
                         else None)
          in \<lparr>total_found = shares_found stats, last_found_elapsed_secs = elapsed\<rparr>)"

definition snapshot_hashrates :: "rat \<Rightarrow> miner \<Rightarrow> hashrate_snapshot \<times> miner" where
  "snapshot_hashrates now m =
     (let m = m\<lparr>m_tracker := tracker_record now (m_total_hashes m) (m_tracker m)\<rparr>
      in (\<lparr>rate_1m = rate_over now 60 (m_tracker m), rate_5m = rate_over now 300 (m_tracker m),
           rate_10m = rate_over now 600 (m_tracker m)\<rparr>, m))"

definition pool_count :: "(pool \<Rightarrow> 'a :: zero) \<Rightarrow> miner \<Rightarrow> 'a" where
  "pool_count field m = (case m_pool m of Some p \<Rightarrow> field p | None \<Rightarrow> 0)"

definition get_accepted_shares :: "miner \<Rightarrow> u32" where
  "get_accepted_shares = pool_count accepted_shares"

definition get_rejected_shares :: "miner \<Rightarrow> u32" where
  "get_rejected_shares = pool_count rejected_shares"

definition get_lost_shares :: "miner \<Rightarrow> u32" where
  "get_lost_shares = pool_count lost_shares"

definition get_unsent_shares :: "miner \<Rightarrow> u32" where
  "get_unsent_shares = pool_count unsent_shares"

definition miner_pending_shares :: "miner \<Rightarrow> nat" where
  "miner_pending_shares = pool_count get_pending_shares"

section \<open>Lemmas\<close>

text \<open>A miner that is initialized and started is the first state of a run.\<close>

definition miner_setup :: "'vm vm_ops \<Rightarrow> (bytes \<Rightarrow> dataset option) \<Rightarrow> miner \<Rightarrow> 'vm rig_setup" where
  "miner_setup ops gen_ds m =
     \<lparr>rs_ops = ops, rs_gen = gen_ds, rs_native_loop = m_native_loop m,
      rs_verify_shares = m_verify_shares m, rs_threads = unat (m_thread_count m)\<rparr>"

lemma spawn_workers_all:
  "spawn_workers spawns ids ws = (Inr (), ws') \<Longrightarrow> ws' = ws @ ids \<and> (\<forall>i \<in> set ids. spawns i)"
  by (induction spawns ids ws rule: spawn_workers.induct) (auto split: if_splits)

lemma login_job_connected [simp]: "connected (login_job api v p) = connected p"
  using login_job_frame [of api v p] by (auto simp: install_job_def)

lemma login_connected: "login api agent env w p = (Inr (), p') \<Longrightarrow> connected p' = connected p"
proof -
  assume "login api agent env w p = (Inr (), p')"
  then obtain v p3 where r: "send_request api env (str ''login'') (login_params agent w) (begin_login w p) = (Inr v, p3)"
      and lr: "login_reply api v p3 = (Inr (), p')"
    by (auto simp: login_def split: prod.splits sum.splits)
  show ?thesis using send_request_frame [OF r] lr
    by (auto simp: login_reply_def begin_login_def split: sum.splits prod.splits)
qed

lemma initialize_run:
  assumes "initialize api agent pki env addr w threads level pin m = (Inr (), m1)"
  shows "\<exists>p. connect_login api agent (ie_connect env) (ie_login env) addr w (with_tls_fingerprint pki level pin)
      = (Inr (), p) \<and>
    m_pool m1 = Some (reset_share_counters (snd (receiver_start (ie_sets_timeout env) (ie_now env) p))) \<and>
    m_thread_count m1 = clamp_u32 threads 1 (parallelism (ie_cores env)) \<and>
    m_native_loop m1 = m_native_loop m \<and> m_verify_shares m1 = m_verify_shares m \<and>
    m_workers m1 = m_workers m"
proof -
  let ?p0 = "with_tls_fingerprint pki level pin"
  obtain p1 p where c: "connect (ie_connect env) addr ?p0 = (Inr (), p1)"
      and l: "login api agent (ie_login env) w p1 = (Inr (), p)"
      and m1: "m1 = m\<lparr>m_thread_count := clamp_u32 threads 1 (parallelism (ie_cores env)),
        m_pool := Some (reset_share_counters
          (if connected p then snd (receiver_start (ie_sets_timeout env) (ie_now env) p) else p)),
        m_total_hashes := 0, m_hashrate := 0\<rparr>"
    using assms by (auto simp: initialize_def Let_def split: prod.splits sum.splits)
  have "connected p1" using c by (auto simp: connect_def split: sum.splits)
  then have "connected p" using login_connected [OF l] by simp
  then show ?thesis using c l m1 by (auto simp: connect_login_def)
qed

lemma initialize_ok:
  assumes "connect_login api agent (ie_connect env) (ie_login env) addr w (with_tls_fingerprint pki level pin)
      = (Inr (), p)"
  shows "fst (initialize api agent pki env addr w threads level pin m) = Inr ()"
  using assms by (auto simp: initialize_def connect_login_def Let_def split: prod.splits sum.splits)

lemma spawn_workers_ok: "(\<And>i. spawns i) \<Longrightarrow> fst (spawn_workers spawns ids ws) = Inr ()"
  by (induction ids arbitrary: ws) simp_all

lemma start_ok: "m_pool m = Some p \<Longrightarrow> \<exists>m'. start (\<lambda>_. True) now now_ms m = (Inr (), m')"
  using spawn_workers_ok [of "\<lambda>_. True" "[0..<unat (m_thread_count m)]" "m_workers m"]
  by (auto simp: start_def Let_def split: prod.splits sum.splits)

lemma start_result:
  assumes "start spawns now now_ms m = (Inr (), m')"
  shows "m_pool m' = m_pool m \<and> m_pool m \<noteq> None \<and> m_thread_count m' = m_thread_count m \<and>
    m_workers m' = m_workers m @ [0..<unat (m_thread_count m)] \<and> m_stats m' = Some (stats_new now_ms) \<and>
    m_native_loop m' = m_native_loop m \<and> m_verify_shares m' = m_verify_shares m"
  using assms by (auto simp: start_def Let_def dest: spawn_workers_all split: option.splits prod.splits sum.splits)

lemma clamp_bounds: "lo \<le> hi \<Longrightarrow> lo \<le> clamp_u32 x lo hi \<and> clamp_u32 x lo hi \<le> hi"
  by (auto simp: clamp_u32_def)

text \<open>The tracker: samples in order of time stay so, none is older than eleven minutes, and a
  rate is that of two samples in the window that are at least a second apart.\<close>

definition tracker_ok :: "rat \<Rightarrow> hashrate_tracker \<Rightarrow> bool" where
  "tracker_ok now samples \<longleftrightarrow> sorted (map hs_time samples) \<and> (\<forall>s \<in> set samples. hs_time s \<le> now)"

lemma sorted_dropWhile_ge:
  fixes f :: "'a \<Rightarrow> 'b :: linorder"
  shows "sorted (map f xs) \<Longrightarrow> s \<in> set (dropWhile (\<lambda>s. f s < c) xs) \<Longrightarrow> c \<le> f s"
  by (induction xs) (auto simp: not_less intro: order_trans split: if_splits)

lemma tracker_record_ok:
  assumes "tracker_ok earlier samples" "earlier \<le> now"
  shows "tracker_ok now (tracker_record now h samples) \<and>
    (\<forall>s \<in> set (tracker_record now h samples). now - 660 \<le> hs_time s) \<and>
    last (tracker_record now h samples) = \<lparr>hs_time = now, hs_hashes = h\<rparr>"
proof -
  let ?new = "\<lparr>hs_time = now, hs_hashes = h\<rparr>"
  have s: "sorted (map hs_time (samples @ [?new]))" "\<forall>s \<in> set (samples @ [?new]). hs_time s \<le> now"
    using assms by (fastforce simp: tracker_ok_def sorted_append)+
  have l: "last (dropWhile (\<lambda>s. hs_time s < now - 660) (samples @ [?new])) = ?new"
    by (simp add: dropWhile_append3)
  have "sorted (map hs_time (dropWhile (\<lambda>s. hs_time s < now - 660) (samples @ [?new])))"
    using s(1) by (metis dropWhile_eq_drop drop_map sorted_wrt_drop)
  then show ?thesis using s l sorted_dropWhile_ge [OF s(1)]
    by (auto simp: tracker_record_def tracker_ok_def dest!: set_dropWhileD)
qed

lemma rate_over_Some:
  assumes "rate_over now w samples = Some r"
  shows "\<exists>s \<in> set samples. now - of_nat w \<le> hs_time s \<and> 1 \<le> hs_time (last samples) - hs_time s \<and>
    r = of_nat (unat (saturating_sub_u64 (hs_hashes (last samples)) (hs_hashes s))) /
        (hs_time (last samples) - hs_time s)"
  using assms
  by (auto simp: rate_over_def Let_def find_Some_iff not_less split: if_splits option.splits
      intro!: bexI [OF _ nth_mem])

end
