(* ===== verification/Pool_Refine.thy ===== *)
theory Pool_Refine
  imports Pool_Safety
begin

text \<open>
  The two models of the receiver fit together: an iteration of \<open>receiver_loop\<close> as
  \<open>Pool_Receiver\<close> has it, one function composed of whole operations, is a run of the atomic
  steps of \<open>Pool_Threads\<close>. So what holds of every state the steps reach holds at every
  iteration of the loop.
\<close>

section \<open>Runs of the receiver\<close>

definition recv_step ::
  "'v json_api \<Rightarrow> bytes \<Rightarrow> bytes \<Rightarrow> bytes \<Rightarrow> 'v sys \<Rightarrow> 'v sys \<Rightarrow> bool" where
  "recv_step api agent author xmrig s s' \<longleftrightarrow>
     link_step api agent s s' \<or> loop_step api author xmrig s s'"

text \<open>The receiver is at \<open>pc\<close> with the connection \<open>p\<close> and the buffer \<open>b\<close>, no worker holds the
  lock, and the workers are \<open>ws\<close>.\<close>

definition here :: "sub_pc list \<Rightarrow> 'v recv_pc \<Rightarrow> pool \<Rightarrow> bytes \<Rightarrow> 'v sys \<Rightarrow> bool" where
  "here ws pc p b s \<longleftrightarrow>
     recv s = pc \<and> sp s = p \<and> map snd (buf s) = b \<and> lock s = None \<and> subs s = ws"

definition runs ::
  "'v json_api \<Rightarrow> bytes \<Rightarrow> bytes \<Rightarrow> bytes \<Rightarrow> sub_pc list \<Rightarrow>
     'v recv_pc \<times> pool \<times> bytes \<Rightarrow> 'v recv_pc \<times> pool \<times> bytes \<Rightarrow> bool" where
  "runs api agent author xmrig ws x y \<longleftrightarrow>
     (\<forall>s. here ws (fst x) (fst (snd x)) (snd (snd x)) s \<longrightarrow>
        (\<exists>s'. (recv_step api agent author xmrig)\<^sup>*\<^sup>* s s' \<and>
              here ws (fst y) (fst (snd y)) (snd (snd y)) s'))"

lemma runs_refl: "runs api agent author xmrig ws x x"
  unfolding runs_def by blast

lemma runs_trans:
  "runs api agent author xmrig ws x y \<Longrightarrow> runs api agent author xmrig ws y z \<Longrightarrow>
     runs api agent author xmrig ws x z"
  unfolding runs_def by (meson rtranclp_trans)

lemma runs_link:
  assumes "\<And>s. recv s = pc \<Longrightarrow> sp s = p \<Longrightarrow> map snd (buf s) = b \<Longrightarrow> lock s = None \<Longrightarrow>
    subs s = ws \<Longrightarrow> \<exists>s'. link_step api agent s s' \<and> here ws pc' p' b' s'"
  shows "runs api agent author xmrig ws (pc, p, b) (pc', p', b')"
  unfolding runs_def fst_conv snd_conv
proof (intro allI impI)
  fix s assume "here ws pc p b s"
  then obtain s' where "recv_step api agent author xmrig s s'" "here ws pc' p' b' s'"
    using assms by (auto simp: here_def recv_step_def)
  then show "\<exists>s'. (recv_step api agent author xmrig)\<^sup>*\<^sup>* s s' \<and> here ws pc' p' b' s'"
    by (blast intro: r_into_rtranclp)
qed

lemma runs_loop:
  assumes "\<And>s. recv s = pc \<Longrightarrow> sp s = p \<Longrightarrow> map snd (buf s) = b \<Longrightarrow> lock s = None \<Longrightarrow>
    subs s = ws \<Longrightarrow> \<exists>s'. loop_step api author xmrig s s' \<and> here ws pc' p' b' s'"
  shows "runs api agent author xmrig ws (pc, p, b) (pc', p', b')"
  unfolding runs_def fst_conv snd_conv
proof (intro allI impI)
  fix s assume "here ws pc p b s"
  then obtain s' where "recv_step api agent author xmrig s s'" "here ws pc' p' b' s'"
    using assms by (auto simp: here_def recv_step_def)
  then show "\<exists>s'. (recv_step api agent author xmrig)\<^sup>*\<^sup>* s s' \<and> here ws pc' p' b' s'"
    by (blast intro: r_into_rtranclp)
qed

lemma here_goto [simp]:
  "here ws pc p b (goto pc' p' s) \<longleftrightarrow>
     pc' = pc \<and> p' = p \<and> map snd (buf s) = b \<and> lock s = None \<and> subs s = ws"
  by (auto simp: here_def goto_def)

lemma goto_lock [simp]: "lock (goto pc p s) = lock s"
  by (simp add: goto_def)

section \<open>Replacing the connection\<close>

lemma runs_count:
  "runs api agent author xmrig ws (R_Count es u, p, b)
     (R_Count [] u, foldl (\<lambda>p _. count_lost p) p es, b)"
proof (induction es arbitrary: p)
  case Nil
  then show ?case by (simp add: runs_refl)
next
  case (Cons e es)
  have "runs api agent author xmrig ws (R_Count (e # es) u, p, b) (R_Count es u, count_lost p, b)"
    by (intro runs_link exI conjI, erule link_step.Count) auto
  then show ?case using Cons by (auto intro: runs_trans)
qed

text \<open>From the decision to replace the connection to the first attempt. \<open>relogin_as\<close> does not
  clear the wait.\<close>

definition cleared :: "purpose \<Rightarrow> pool \<Rightarrow> pool" where
  "cleared u p = (if u = Reconnect then p\<lparr>rotation_wait_since := None\<rparr> else p)"

lemma runs_clear_reconnect:
  "runs api agent author xmrig ws (R_Clear Reconnect, p, b)
     (R_Take Reconnect, p\<lparr>rotation_wait_since := None\<rparr>, b)"
  by (intro runs_link exI conjI, erule link_step.Clear_Reconnect) auto

lemma runs_clear_relogin:
  "runs api agent author xmrig ws (R_Clear Relogin, p, b) (R_Take Relogin, p, b)"
  by (intro runs_link exI conjI, erule link_step.Clear_Relogin) auto

lemma runs_drop:
  "runs api agent author xmrig ws (R_Drop u, p, b)
     (R_Count [] u, drain_pending_shares (cleared u (p\<lparr>current_job := None, stream := None\<rparr>)), b)"
proof -
  let ?p1 = "p\<lparr>current_job := None\<rparr>"
  let ?p2 = "p\<lparr>current_job := None, stream := None\<rparr>"
  let ?p3 = "cleared u ?p2"
  have "runs api agent author xmrig ws (R_Drop u, p, b) (R_Close u, ?p1, b)"
    by (intro runs_link exI conjI, erule link_step.Drop_Job) auto
  moreover have "runs api agent author xmrig ws (R_Close u, ?p1, b) (R_Clear u, ?p2, b)"
    by (intro runs_link exI conjI, erule link_step.Close) auto
  moreover have "runs api agent author xmrig ws (R_Clear u, ?p2, b) (R_Take u, ?p3, b)"
    using runs_clear_reconnect runs_clear_relogin by (cases u) (simp_all add: cleared_def)
  moreover have "runs api agent author xmrig ws (R_Take u, ?p3, b)
      (R_Count (pending_shares ?p3) u, ?p3\<lparr>pending_shares := []\<rparr>, b)"
    by (intro runs_link exI conjI, erule link_step.Take, simp add: take_pending_def) auto
  moreover have "runs api agent author xmrig ws
      (R_Count (pending_shares ?p3) u, ?p3\<lparr>pending_shares := []\<rparr>, b)
      (R_Count [] u, drain_pending_shares ?p3, b)"
    using runs_count by (simp add: drain_pending_shares_def take_pending_def)
  ultimately show ?thesis by (blast intro: runs_trans)
qed

text \<open>One attempt. The address and the wallet are the connection's own.\<close>

lemma runs_login:
  assumes "login api agent lenv (wallet p) (p\<lparr>connected := True\<rparr>) = (r, p')"
  shows "r = Inr () \<Longrightarrow> runs api agent author xmrig ws (R_Connected u, p, b) (R_Settle u, p', b)"
    and "r = Inl e \<Longrightarrow> runs api agent author xmrig ws (R_Connected u, p, b) (R_Abort u, p', b)"
proof -
  let ?p1 = "begin_login (wallet p) (p\<lparr>connected := True\<rparr>)"
  let ?ps = "login_params agent (wallet ?p1)"
  have w: "wallet ?p1 = wallet p" by (simp add: begin_login_def)
  obtain r1 p2 where rq: "send_request api lenv (str ''login'') ?ps ?p1 = (r1, p2)" by fastforce
  have 1: "runs api agent author xmrig ws (R_Connected u, p, b) (R_Login u, ?p1, b)"
    by (intro runs_link exI conjI, erule link_step.Connected) auto
  have failed: "runs api agent author xmrig ws (R_Login u, ?p1, b) (R_Abort u, p2, b)" if "r1 = Inl e" for e
    by (intro runs_link exI conjI, erule link_step.Login_Failed) (use rq that in auto)
  have answered: "runs api agent author xmrig ws (R_Login u, ?p1, b) (R_Reply v u, p2, b)" if "r1 = Inr v" for v
    by (intro runs_link exI conjI, erule link_step.Login_Answered) (use rq that in auto)
  have refused: "runs api agent author xmrig ws (R_Reply v u, p2, b) (R_Abort u, p2, b)"
    if "login_check api v = Inl e" for v e
    by (intro runs_link exI conjI, erule link_step.Login_Refused) (use that in auto)
  have installed: "runs api agent author xmrig ws (R_Reply v u, p2, b)
      (R_Settle u, login_job api result (p2\<lparr>session_id := sid\<rparr>), b)"
    if "login_check api v = Inr (result, sid)" for v result sid
  proof -
    have "runs api agent author xmrig ws (R_Reply v u, p2, b) (R_Job result u, p2\<lparr>session_id := sid\<rparr>, b)"
      by (intro runs_link exI conjI, erule link_step.Session) (use that in auto)
    moreover have "runs api agent author xmrig ws (R_Job result u, p2\<lparr>session_id := sid\<rparr>, b)
        (R_Settle u, login_job api result (p2\<lparr>session_id := sid\<rparr>), b)"
      by (intro runs_link exI conjI, erule link_step.Job) auto
    ultimately show ?thesis by (rule runs_trans)
  qed
  have l: "(r, p') = (case r1 of Inl e \<Rightarrow> (Inl e, p2) | Inr v \<Rightarrow> login_reply api v p2)"
    using assms rq w by (auto simp: login_def split: sum.splits)
  show "runs api agent author xmrig ws (R_Connected u, p, b) (R_Settle u, p', b)" if "r = Inr ()"
    using l that 1 answered installed
    by (auto simp: login_reply_def split: sum.splits prod.splits intro: runs_trans)
  show "runs api agent author xmrig ws (R_Connected u, p, b) (R_Abort u, p', b)" if "r = Inl e"
    using l that 1 answered failed refused
    by (auto simp: login_reply_def split: sum.splits prod.splits intro: runs_trans)
qed

lemma runs_attempt:
  assumes "connect_login api agent cenv lenv (address p) (wallet p) p = (r, p')"
  shows "r = Inr () \<Longrightarrow> runs api agent author xmrig ws (R_Attempt u, p, b) (R_Settle u, p', b)"
    and "r = Inl e \<Longrightarrow> runs api agent author xmrig ws (R_Attempt u, p, b) (R_Abort u, p', b)"
proof -
  let ?p1 = "p\<lparr>address := address p\<rparr>"
  have refused: "runs api agent author xmrig ws (R_Attempt u, p, b) (R_Abort u, p, b)"
    if "open_stream cenv (pinned_fingerprint p) (address p) = Inl e" for e
    by (intro runs_link exI conjI, erule link_step.No_Stream) (use that in auto)
  have opened: "runs api agent author xmrig ws (R_Attempt u, p, b) (R_Connected u, install_stream st ?p1, b)"
    if "open_stream cenv (pinned_fingerprint p) (address p) = Inr st" for st
  proof -
    have "runs api agent author xmrig ws (R_Attempt u, p, b) (R_Install st u, ?p1, b)"
      by (intro runs_link exI conjI, erule link_step.Got_Stream) (use that in auto)
    moreover have "runs api agent author xmrig ws (R_Install st u, ?p1, b)
        (R_Connected u, install_stream st ?p1, b)"
      by (intro runs_link exI conjI, erule link_step.Install) auto
    ultimately show ?thesis by (rule runs_trans)
  qed
  have w: "wallet (install_stream st ?p1) = wallet p" for st by simp
  show "runs api agent author xmrig ws (R_Attempt u, p, b) (R_Settle u, p', b)" if "r = Inr ()"
    using assms that w
    by (auto simp: connect_login_def connect_def split: sum.splits
        intro!: runs_trans [OF opened runs_login(1)])
  show "runs api agent author xmrig ws (R_Attempt u, p, b) (R_Abort u, p', b)" if "r = Inl e"
    using assms that w refused
    by (auto simp: connect_login_def connect_def split: sum.splits
        intro!: runs_trans [OF opened runs_login(2)])
qed

lemma login_keeps:
  assumes "login api agent lenv w p = (r, p')"
  shows "address p' = address p \<and> wallet p' = w"
proof -
  obtain r1 p2 where rq: "send_request api lenv (str ''login'') (login_params agent w)
      (begin_login w p) = (r1, p2)" by fastforce
  have "address p2 = address p \<and> wallet p2 = w"
    using send_request_frame [OF rq] by (auto simp: begin_login_def)
  then show ?thesis using assms rq
    by (auto simp: login_def login_reply_def split: sum.splits prod.splits)
qed

lemma connect_login_keeps:
  "connect_login api agent cenv lenv addr w p = (r, p') \<Longrightarrow> address p = addr \<Longrightarrow> wallet p = w \<Longrightarrow>
     address p' = addr \<and> wallet p' = w"
  by (auto simp: connect_login_def connect_def split: sum.splits dest!: login_keeps)

lemma runs_settle:
  "runs api agent author xmrig ws (R_Settle u, p, b)
     (R_Poll, set_read_timeout sets RECV_POLL_INTERVAL p, [])"
  by (intro runs_link exI conjI, erule link_step.Settle) auto

lemma runs_retry:
  "retry_loop api agent attempts addr w p = Some p' \<Longrightarrow> address p = addr \<Longrightarrow> wallet p = w \<Longrightarrow>
     runs api agent author xmrig ws (R_Attempt Reconnect, p, b) (R_Poll, p', [])"
proof (induction attempts arbitrary: p)
  case Nil
  then show ?case by simp
next
  case (Cons att attempts)
  obtain cenv lenv sets where att: "att = (cenv, lenv, sets)" by (cases att)
  obtain r p1 where c: "connect_login api agent cenv lenv (address p) (wallet p) p = (r, p1)"
    by fastforce
  show ?case
  proof (cases r)
    case (Inl e)
    have "runs api agent author xmrig ws (R_Attempt Reconnect, p, b) (R_Abort Reconnect, p1, b)"
      using c Inl by (rule runs_attempt)
    moreover have "runs api agent author xmrig ws (R_Abort Reconnect, p1, b)
        (R_Attempt Reconnect, p1\<lparr>stream := None\<rparr>, b)"
      by (intro runs_link exI conjI, erule link_step.Abort_Reconnect) auto
    moreover have "runs api agent author xmrig ws (R_Attempt Reconnect, p1\<lparr>stream := None\<rparr>, b)
        (R_Poll, p', [])"
      using Cons.prems c Inl att connect_login_keeps [OF c]
      by (intro Cons.IH) simp_all
    ultimately show ?thesis by (blast intro: runs_trans)
  next
    case (Inr x)
    then have "runs api agent author xmrig ws (R_Attempt Reconnect, p, b) (R_Settle Reconnect, p1, b)"
      using c by (intro runs_attempt) simp_all
    moreover have "p' = set_read_timeout sets RECV_POLL_INTERVAL p1"
      using Cons.prems c Inr att by simp
    ultimately show ?thesis by (auto intro: runs_trans runs_settle)
  qed
qed

lemma drain_keeps [simp]:
  "address (drain_pending_shares p) = address p" "wallet (drain_pending_shares p) = wallet p"
  by (simp_all add: drain_pending_shares_eq)

lemma tear_down_eq:
  "tear_down p = drain_pending_shares
     (cleared Reconnect ((p\<lparr>connected := False\<rparr>)\<lparr>current_job := None, stream := None\<rparr>))"
  by (simp add: tear_down_def cleared_def)

lemma runs_reconnect:
  assumes "reconnect api agent attempts p = Some (ok, p')"
  shows "runs api agent author xmrig ws (R_Poll, p, b)
    (if ok then (R_Poll, p', []) else (R_Stopped, p', b))"
proof -
  let ?t = "tear_down p"
  have "runs api agent author xmrig ws (R_Poll, p, b) (R_Drop Reconnect, p\<lparr>connected := False\<rparr>, b)"
    by (intro runs_loop exI conjI, erule loop_step.Give_Up_Link) auto
  then have start: "runs api agent author xmrig ws (R_Poll, p, b) (R_Count [] Reconnect, ?t, b)"
    unfolding tear_down_eq by (rule runs_trans [OF _ runs_drop])
  show ?thesis
  proof (cases "address ?t = [] \<or> wallet ?t = []")
    case True
    have "runs api agent author xmrig ws (R_Count [] Reconnect, ?t, b) (R_Stopped, ?t, b)"
      by (intro runs_link exI conjI, erule link_step.Cannot) (use True in auto)
    then show ?thesis using start True assms
      by (auto simp: reconnect_def Let_def intro: runs_trans)
  next
    case False
    have "runs api agent author xmrig ws (R_Count [] Reconnect, ?t, b) (R_Attempt Reconnect, ?t, b)"
      by (intro runs_link exI conjI, erule link_step.Counted) (use False in auto)
    moreover have "ok" "retry_loop api agent attempts (address ?t) (wallet ?t) ?t = Some p'"
      using assms False by (auto simp: reconnect_def Let_def)
    ultimately show ?thesis using start
      by (auto intro: runs_trans [OF start] runs_trans [OF _ runs_retry])
  qed
qed

lemma runs_relogin:
  assumes "relogin_as api agent att (wallet p) p = (r, p')" "address p \<noteq> []"
  shows "runs api agent author xmrig ws (R_Drop Relogin, p, b)
    (R_Poll, p', if r = Inr () then [] else b)"
proof -
  obtain cenv lenv sets where att: "att = (cenv, lenv, sets)" by (cases att)
  let ?d = "drain_pending_shares (p\<lparr>current_job := None, stream := None\<rparr>)"
  obtain r1 p1 where c: "connect_login api agent cenv lenv (address ?d) (wallet ?d) ?d = (r1, p1)"
    by fastforce
  have "runs api agent author xmrig ws (R_Drop Relogin, p, b) (R_Count [] Relogin, ?d, b)"
    using runs_drop [where u = Relogin] by (simp add: cleared_def)
  moreover have "runs api agent author xmrig ws (R_Count [] Relogin, ?d, b) (R_Attempt Relogin, ?d, b)"
    by (intro runs_link exI conjI, erule link_step.Counted) (use assms(2) in auto)
  ultimately have start: "runs api agent author xmrig ws (R_Drop Relogin, p, b) (R_Attempt Relogin, ?d, b)"
    by (rule runs_trans)
  show ?thesis
  proof (cases r1)
    case (Inl e)
    have "runs api agent author xmrig ws (R_Attempt Relogin, ?d, b) (R_Abort Relogin, p1, b)"
      using c Inl by (rule runs_attempt)
    moreover have "runs api agent author xmrig ws (R_Abort Relogin, p1, b) (R_Poll, p1\<lparr>stream := None\<rparr>, b)"
      by (intro runs_link exI conjI, erule link_step.Abort_Relogin) auto
    moreover have "r = Inl e" "p' = p1\<lparr>stream := None\<rparr>"
      using assms att c Inl by (auto simp: relogin_as_def)
    ultimately show ?thesis using start by (auto intro: runs_trans)
  next
    case (Inr x)
    then have "runs api agent author xmrig ws (R_Attempt Relogin, ?d, b) (R_Settle Relogin, p1, b)"
      using c by (intro runs_attempt) simp_all
    moreover have "r = Inr ()" "p' = set_read_timeout sets RECV_POLL_INTERVAL p1"
      using assms att c Inr by (auto simp: relogin_as_def)
    ultimately show ?thesis using start by (auto intro: runs_trans runs_settle)
  qed
qed

section \<open>The parts of an iteration\<close>

text \<open>Where an iteration that goes on leaves the receiver.\<close>

fun reaches ::
  "'v json_api \<Rightarrow> bytes \<Rightarrow> bytes \<Rightarrow> bytes \<Rightarrow> sub_pc list \<Rightarrow> 'v recv_pc \<times> pool \<times> bytes \<Rightarrow> flow \<Rightarrow> bool"
  where
  "reaches api agent author xmrig ws x (Next rx p) =
     runs api agent author xmrig ws x (R_Poll, p, rx_pending rx)"
| "reaches api agent author xmrig ws x (Continue rx p) =
     runs api agent author xmrig ws x (R_Poll, p, rx_pending rx)"
| "reaches api agent author xmrig ws x (Stopped p) =
     (\<exists>b. runs api agent author xmrig ws x (R_Stopped, p, b))"
| "reaches api agent author xmrig ws x Retrying = True"

lemma reaches_trans:
  "runs api agent author xmrig ws x y \<Longrightarrow> reaches api agent author xmrig ws y fl \<Longrightarrow>
     reaches api agent author xmrig ws x fl"
  by (cases fl) (auto intro: runs_trans)

lemma reaches_bind:
  assumes "reaches api agent author xmrig ws x fl"
    "\<And>rx p. reaches api agent author xmrig ws (R_Poll, p, rx_pending rx) (k rx p)"
  shows "reaches api agent author xmrig ws x (flow_bind fl k)"
  using assms(1) by (cases fl) (auto intro: reaches_trans [OF _ assms(2)])

lemma reaches_reconnect:
  assumes "\<And>rx p. reaches api agent author xmrig ws (R_Poll, p, rx_pending rx) (k rx p)"
  shows "reaches api agent author xmrig ws (R_Poll, p, b)
    (reconnect_or_stop api agent attempts now k rx p)"
proof (cases "reconnect api agent attempts p")
  case None
  then show ?thesis by (simp add: reconnect_or_stop_def)
next
  case (Some x)
  obtain ok p' where x: "x = (ok, p')" by fastforce
  then have r: "runs api agent author xmrig ws (R_Poll, p, b)
      (if ok then (R_Poll, p', []) else (R_Stopped, p', b))"
    using Some by (intro runs_reconnect) simp
  show ?thesis
  proof (cases ok)
    case True
    have "reaches api agent author xmrig ws (R_Poll, p', [])
        (k (rx\<lparr>last_recv := now, rx_pending := []\<rparr>) p')"
      using assms [of p' "rx\<lparr>last_recv := now, rx_pending := []\<rparr>"] by simp
    then show ?thesis using r True Some x
      by (auto simp: reconnect_or_stop_def intro: reaches_trans)
  next
    case False
    then show ?thesis using r Some x by (auto simp: reconnect_or_stop_def)
  qed
qed

lemma rotate_reaches:
  "reaches api agent author xmrig ws (R_Poll, p, rx_pending rx)
     (rotate_part api agent author xmrig env rx p)"
proof -
  let ?want = "beneficiary_at (donation p) ((t_start env - donation_start rx) div 1000)"
  obtain lw p1 where n: "note_donation_target ?want (last_want rx) p = (lw, p1)" by fastforce
  have p1: "p1 = snd (note_donation_target ?want (last_want rx) p)" using n by simp
  let ?b = "rx_pending rx"
  have 1: "runs api agent author xmrig ws (R_Poll, p, ?b) (R_Poll, p1, ?b)"
    unfolding p1
    by (intro runs_loop exI conjI, erule loop_step.Note) (auto simp: here_def)
  obtain ok p2 where d: "rotation_settled (t_rotate env) ?want p1 = (ok, p2)" by fastforce
  have gate: "\<exists>k. recv s' = R_Gated ?want (submits_in_flight p1) k \<and> sp s' = p1 \<and>
      map snd (buf s') = ?b \<and> lock s' = None \<and> subs s' = ws \<and>
      (recv_step api agent author xmrig) s s'"
    if "here ws R_Poll p1 ?b s" "s' = s\<lparr>recv := R_Gated ?want (submits_in_flight (sp s)) (calls s)\<rparr>"
    for s s'
    using that by (auto simp: here_def recv_step_def intro: loop_step.Gate)
  have wait: "runs api agent author xmrig ws (R_Poll, p1, ?b) (R_Poll, p2, ?b)" if "\<not> ok"
    unfolding runs_def fst_conv snd_conv
  proof (intro allI impI)
    fix s :: "'a sys" assume "here ws R_Poll p1 ?b s"
    from gate [OF this refl] obtain s' k where s': "recv s' = R_Gated ?want (submits_in_flight p1) k"
      "sp s' = p1" "map snd (buf s') = ?b" "lock s' = None" "subs s' = ws"
      "recv_step api agent author xmrig s s'" by blast
    have "rotation_decide (t_rotate env) ?want (submits_in_flight p1) (sp s') = (False, p2)"
      using d that s'(2) by (simp add: rotation_settled_def)
    then have "recv_step api agent author xmrig s' (goto R_Poll p2 s')"
      using s'(1) by (auto simp: recv_step_def intro: loop_step.Defer)
    then show "\<exists>s'. (recv_step api agent author xmrig)\<^sup>*\<^sup>* s s' \<and> here ws R_Poll p2 ?b s'"
      using s' by (intro exI [of _ "goto R_Poll p2 s'"]) simp
  qed
  let ?p3 = "p2\<lparr>wallet := beneficiary_address author xmrig ?want p2\<rparr>"
  let ?pc = "if address p2 = [] then R_Poll else R_Drop Relogin"
  have rotate: "runs api agent author xmrig ws (R_Poll, p1, ?b) (?pc, ?p3, ?b)" if "ok"
    unfolding runs_def fst_conv snd_conv
  proof (intro allI impI)
    fix s :: "'a sys" assume "here ws R_Poll p1 ?b s"
    from gate [OF this refl] obtain s' k where s': "recv s' = R_Gated ?want (submits_in_flight p1) k"
      "sp s' = p1" "map snd (buf s') = ?b" "lock s' = None" "subs s' = ws"
      "recv_step api agent author xmrig s s'" by blast
    have "rotation_decide (t_rotate env) ?want (submits_in_flight p1) (sp s') = (True, p2)"
      using d that s'(2) by (simp add: rotation_settled_def)
    then have "recv_step api agent author xmrig s' (goto ?pc ?p3 s')"
      using loop_step.Rotate [OF s'(1), of "t_rotate env" p2] unfolding recv_step_def by blast
    then show "\<exists>s'. (recv_step api agent author xmrig)\<^sup>*\<^sup>* s s' \<and> here ws ?pc ?p3 ?b s'"
      using s' by (intro exI [of _ "goto ?pc ?p3 s'"]) simp
  qed
  obtain r p4 where rl: "relogin_as api agent (relogin_attempt env) (wallet ?p3) ?p3 = (r, p4)"
    by fastforce
  have login: "runs api agent author xmrig ws (R_Poll, p1, ?b) (R_Poll, p4, if r = Inr () then [] else ?b)"
    if "ok"
  proof (cases "address p2 = []")
    case True
    then show ?thesis using rl rotate [OF that] by (auto simp: relogin_as_def)
  next
    case False
    have "runs api agent author xmrig ws (R_Drop Relogin, ?p3, ?b) (R_Poll, p4, if r = Inr () then [] else ?b)"
      using rl False by (intro runs_relogin) simp_all
    then show ?thesis using rotate [OF that] False by (auto intro: runs_trans)
  qed
  show ?thesis
    using 1 n d wait login rl
    by (auto simp: rotate_part_def Let_def intro: runs_trans split: sum.splits prod.splits bool.splits)
qed

lemma runs_message:
  "runs api agent author xmrig ws (R_Handle e (line # lines), p, b)
     (R_Handle e lines, handle_pool_message api line p, b)"
proof (cases "json_parse api line")
  case None
  have "runs api agent author xmrig ws (R_Handle e (line # lines), p, b) (R_Handle e lines, p, b)"
    by (intro runs_loop exI conjI, erule loop_step.Unparsed) (use None in \<open>auto simp: here_def\<close>)
  then show ?thesis using None by (simp add: handle_pool_message_def)
next
  case (Some msg)
  let ?p1 = "take_job api msg p"
  have 1: "runs api agent author xmrig ws (R_Handle e (line # lines), p, b) (R_Answer e msg lines, ?p1, b)"
    by (intro runs_loop exI conjI, erule loop_step.Parsed) (use Some in auto)
  have none: "runs api agent author xmrig ws (R_Answer e msg lines, ?p1, b) (R_Handle e lines, ?p1, b)"
    if "answer_id api msg = None \<or>
      answer_id api msg = Some rid \<and> map_of (pending_shares ?p1) rid = None" for rid
    by (intro runs_loop exI conjI, erule loop_step.No_Answer [where rid = rid])
      (use that in \<open>auto simp: here_def\<close>)
  have some: "runs api agent author xmrig ws (R_Answer e msg lines, ?p1, b)
      (R_Handle e lines, count_answer (answer_ok api msg) (remove_pending rid ?p1), b)"
    if "answer_id api msg = Some rid" "map_of (pending_shares ?p1) rid \<noteq> None" for rid
  proof (rule runs_trans)
    show "runs api agent author xmrig ws (R_Answer e msg lines, ?p1, b)
        (R_Credit e rid (answer_ok api msg) lines, remove_pending rid ?p1, b)"
      by (intro runs_loop exI conjI, erule loop_step.Answer) (use that in auto)
    show "runs api agent author xmrig ws
        (R_Credit e rid (answer_ok api msg) lines, remove_pending rid ?p1, b)
        (R_Handle e lines, count_answer (answer_ok api msg) (remove_pending rid ?p1), b)"
      by (intro runs_loop exI conjI, erule loop_step.Credit) auto
  qed
  have "runs api agent author xmrig ws (R_Answer e msg lines, ?p1, b)
      (R_Handle e lines, take_answer api msg ?p1, b)"
    using none some by (auto simp: take_answer_def split: option.split)
  then show ?thesis using 1 Some by (auto simp: handle_pool_message_def intro: runs_trans)
qed

lemma runs_lines:
  "runs api agent author xmrig ws (R_Handle e lines, p, b) (R_Poll, handle_lines api lines p, b)"
proof (induction lines arbitrary: p)
  case Nil
  show ?case
    by (intro runs_loop exI conjI, erule loop_step.Handled) (auto simp: here_def handle_lines_def)
next
  case (Cons line lines)
  have "runs api agent author xmrig ws (R_Handle e lines, handle_pool_message api line p, b)
      (R_Poll, handle_lines api lines (handle_pool_message api line p), b)" by (rule Cons)
  then have "runs api agent author xmrig ws (R_Handle e (line # lines), p, b)
      (R_Poll, handle_lines api lines (handle_pool_message api line p), b)"
    by (rule runs_trans [OF runs_message])
  then show ?case by (simp add: handle_lines_def)
qed

text \<open>What \<open>take_complete_lines\<close> leaves is the end of the buffer.\<close>

lemma drain_rest_drop: "snd (drain_lines bs) = drop (length bs - length (snd (drain_lines bs))) bs"
proof (induction bs rule: drain_lines.induct)
  case (1 bs)
  show ?case
  proof (cases "position newline bs")
    case None
    then show ?thesis by (simp add: drain_none position_None)
  next
    case (Some pos)
    let ?r = "drop (Suc pos) bs"
    have r: "snd (drain_lines bs) = snd (drain_lines ?r)"
      using Some by (subst drain_lines.simps) (simp add: Let_def split: prod.splits)
    have ih: "snd (drain_lines ?r) = drop (length ?r - length (snd (drain_lines ?r))) ?r"
      using 1 [OF Some refl] by simp
    then have le: "length (snd (drain_lines ?r)) \<le> length ?r"
      by (metis diff_le_self length_drop)
    have "pos < length bs" using Some by (simp add: position_Some)
    then have "length bs - length (snd (drain_lines ?r)) =
        length ?r - length (snd (drain_lines ?r)) + Suc pos"
      using le by simp
    then show ?thesis using ih r by (metis drop_drop)
  qed
qed

lemma take_complete_rest:
  "take_complete_lines bs = (Inr lines, rest) \<Longrightarrow> rest = drop (length bs - length rest) bs"
  using drain_rest_drop [of bs] by (auto simp: take_complete_lines_def split: prod.splits if_splits)

lemma runs_read:
  assumes "stream p \<noteq> None" "chunk \<noteq> []" "take_complete_lines (b @ chunk) = (Inr lines, rest)"
  shows "runs api agent author xmrig ws (R_Poll, p, b) (R_Poll, handle_lines api lines p, rest)"
  unfolding runs_def fst_conv snd_conv
proof (intro allI impI)
  fix s :: "'a sys" assume h: "here ws R_Poll p b s"
  let ?b = "buf s @ map (Pair (epoch s)) chunk"
  let ?s = "s\<lparr>recv := R_Handle (fst (hd ?b)) lines, buf := drop (length ?b - length rest) ?b\<rparr>"
  have m: "map snd ?b = b @ chunk" using h by (simp add: here_def o_def)
  have "length ?b = length (b @ chunk)" using m by (metis length_map)
  then have "map snd (drop (length ?b - length rest) ?b) = rest"
    using take_complete_rest [OF assms(3)] m by (metis drop_map)
  then have "here ws (R_Handle (fst (hd ?b)) lines) p rest ?s"
    using h by (simp add: here_def)
  then obtain s' where s': "(recv_step api agent author xmrig)\<^sup>*\<^sup>* ?s s'"
      "here ws R_Poll (handle_lines api lines p) rest s'"
    using runs_lines [of api agent author xmrig ws "fst (hd ?b)" lines p rest]
    unfolding runs_def fst_conv snd_conv by blast
  have "loop_step api author xmrig s ?s"
    using h assms m by (intro loop_step.Read [where b = ?b and chunk = chunk]) (auto simp: here_def)
  then have "recv_step api agent author xmrig s ?s" by (simp add: recv_step_def)
  then show "\<exists>s'. (recv_step api agent author xmrig)\<^sup>*\<^sup>* s s' \<and>
      here ws R_Poll (handle_lines api lines p) rest s'"
    using s' by (meson converse_rtranclp_into_rtranclp)
qed

lemma next_reaches:
  "reaches api agent author xmrig ws (R_Poll, p, rx_pending rx) (Next rx p)"
  by (simp add: runs_refl)

lemma continue_reaches:
  "reaches api agent author xmrig ws (R_Poll, p, rx_pending rx) (Continue rx p)"
  by (simp add: runs_refl)

lemma read_reaches:
  "reaches api agent author xmrig ws (R_Poll, p, rx_pending rx) (read_part api agent env rx p)"
proof -
  let ?b = "rx_pending rx"
  note again = reaches_reconnect [where k = Next, OF next_reaches]
  show ?thesis
  proof (cases "if stream p = None then Read_Error_Kind else socket_read env")
    case Read_Timeout
    then show ?thesis using next_reaches by (simp add: read_part_def)
  next
    case Read_Error_Kind
    then show ?thesis using again by (simp add: read_part_def)
  next
    case (Read_Bytes chunk)
    then have st: "stream p \<noteq> None" by (auto split: if_splits)
    show ?thesis
    proof (cases "chunk = []")
      case True
      then show ?thesis using Read_Bytes again by (simp add: read_part_def)
    next
      case False
      obtain r rest where t: "take_complete_lines (?b @ take 4096 chunk) = (r, rest)" by fastforce
      show ?thesis
      proof (cases r)
        case (Inl n)
        then show ?thesis using Read_Bytes False t again by (simp add: read_part_def)
      next
        case (Inr lines)
        have "runs api agent author xmrig ws (R_Poll, p, ?b) (R_Poll, handle_lines api lines p, rest)"
          using t Inr False by (intro runs_read [OF st, of "take 4096 chunk"]) simp_all
        then show ?thesis using Read_Bytes False t Inr by (simp add: read_part_def)
      qed
    qed
  qed
qed

lemma keepalive_reaches:
  "reaches api agent author xmrig ws (R_Poll, p, rx_pending rx) (keepalive_part api agent env rx p)"
proof -
  let ?b = "rx_pending rx"
  obtain r p1 where m: "send_message (keepalive_write env) (str ''keepalived'')
      [(str ''id'', session_id p)] p = (r, p1)" by fastforce
  have 1: "runs api agent author xmrig ws (R_Poll, p, ?b) (R_Poll, p1, ?b)"
    by (intro runs_loop exI conjI, erule loop_step.Keepalive) (use m in \<open>auto simp: here_def\<close>)
  have "reaches api agent author xmrig ws (R_Poll, p1, ?b)
      (reconnect_or_stop api agent attempts now Continue rx' p1)" for attempts now rx'
    by (rule reaches_reconnect [OF continue_reaches])
  then show ?thesis using 1 m next_reaches
    by (auto simp: keepalive_part_def Let_def intro: reaches_trans split: sum.splits)
qed

lemma silence_reaches:
  "reaches api agent author xmrig ws (R_Poll, p, rx_pending rx) (silence_part api agent env rx p)"
  unfolding silence_part_def
  by (auto intro!: reaches_reconnect continue_reaches simp del: reaches.simps)

text \<open>A whole iteration.\<close>

lemma iteration_reaches:
  "reaches api agent author xmrig ws (R_Poll, p, rx_pending rx)
     (receiver_iteration api agent author xmrig env rx p)"
  unfolding receiver_iteration_def
  by (intro reaches_bind rotate_reaches read_reaches keepalive_reaches silence_reaches)

text \<open>A run of the receiver from a reachable state stays among the reachable ones.\<close>

lemma reachable_run:
  assumes "(recv_step api agent author xmrig)\<^sup>*\<^sup>* s s'"
    "reachable api agent author xmrig pki level pin n s"
  shows "reachable api agent author xmrig pki level pin n s'"
  using assms
proof (induction rule: rtranclp_induct)
  case base
  then show ?case .
next
  case (step y z)
  then show ?case by (auto simp: recv_step_def intro: reachable.Link reachable.Loop)
qed

end
