(* ===== verification/Pool_Sample.thy ===== *)
theory Pool_Sample
  imports Pool_Refine Pool_Wire
begin

text \<open>
  A concrete pool and a concrete run: a JSON library for a few messages, a server that accepts
  the login and sends a job, and a worker that submits one share which the pool accepts. The
  witnesses of the pool's properties are states of this run.
\<close>

section \<open>Texts\<close>

lemma of_char_u8: "(of_char c :: u8) = of_nat (of_char c)"
  by (simp only: of_nat_of_char)

lemma of_char_u8_inj: "(of_char c :: u8) = of_char d \<Longrightarrow> c = d"
proof -
  assume "(of_char c :: u8) = of_char d"
  then have "unat (of_nat (of_char c) :: u8) = unat (of_nat (of_char d) :: u8)"
    by (simp only: of_char_u8)
  then have "(of_char c :: nat) mod 256 = of_char d mod 256" by (simp add: unat_of_nat)
  then show ?thesis by simp
qed

lemma str_eq [simp]: "str a = str b \<longleftrightarrow> a = b"
proof
  assume "str a = str b"
  then show "a = b" unfolding str_def
    by (rule map_injective) (simp add: inj_def of_char_u8_inj)
qed simp

section \<open>A JSON library for the messages of the run\<close>

datatype sample = S_Null | S_Str bytes | S_Num u64 | S_Obj "(bytes \<times> sample) list"

fun sample_get :: "sample \<Rightarrow> bytes \<Rightarrow> sample option" where
  "sample_get (S_Obj kvs) key = map_of kvs key"
| "sample_get _ key = None"

fun sample_str :: "sample \<Rightarrow> bytes option" where
  "sample_str (S_Str s) = Some s"
| "sample_str _ = None"

fun sample_u64 :: "sample \<Rightarrow> u64 option" where
  "sample_u64 (S_Num n) = Some n"
| "sample_u64 _ = None"

definition sample_job :: sample where
  "sample_job = S_Obj [(str ''blob'', S_Str (replicate 86 0x30)), (str ''target'', S_Str (replicate 16 0x66)),
     (str ''job_id'', S_Str (str ''j1'')), (str ''seed_hash'', S_Str [])]"

definition sample_login :: sample where
  "sample_login = S_Obj [(str ''id'', S_Num 1), (str ''error'', S_Null),
     (str ''result'', S_Obj [(str ''id'', S_Str (str ''s1'')), (str ''job'', sample_job)])]"

definition sample_answer :: sample where
  "sample_answer = S_Obj [(str ''id'', S_Num 2), (str ''error'', S_Null),
     (str ''result'', S_Obj [(str ''status'', S_Str (str ''OK''))])]"

definition sample_api :: "sample json_api" where
  "sample_api = \<lparr>json_get = sample_get, json_str = sample_str, json_u64 = sample_u64,
     json_null = (\<lambda>v. v = S_Null),
     json_parse = (\<lambda>line. if line = [0x4C] then Some sample_login
                          else if line = [0x41] then Some sample_answer else None)\<rparr>"

definition sample_pki :: webpki where
  "sample_pki = \<lparr>pki_cert = (\<lambda>_ _ _ _ _. True), pki_tls12 = (\<lambda>_ _ _. True), pki_tls13 = (\<lambda>_ _ _. True)\<rparr>"

definition sample_connect :: connect_env where
  "sample_connect = \<lparr>tcp_connects = True, sets_read_timeout = True, sets_write_timeout = True,
     sets_nodelay = True, valid_name = (\<lambda>_. True), tls_starts = True\<rparr>"

definition sample_reads :: "nat \<Rightarrow> read1" where
  "sample_reads i = (if i = 0 then Got 0x4C else Got newline)"

definition sample_login_env :: login_env where
  "sample_login_env = \<lparr>login_write = Written, login_sets_timeout = True, login_reads = sample_reads\<rparr>"

definition sample_arc :: arc_job where
  "sample_arc = \<lparr>arc_ptr = 0, arc_val = \<lparr>job_blob = replicate 43 0, job_target = replicate 8 0xFF, job_id = str ''j1'',
     job_seed_hash = [], job_generation = 1\<rparr>\<rparr>"

lemmas sample_defs =
  sample_api_def sample_login_def sample_job_def sample_answer_def sample_pki_def
  sample_connect_def sample_login_env_def

lemma sample_read_line: "fst (read_line sample_reads) = Inr [0x4C]"
proof -
  have "read_line_loop sample_reads 0 [] = (Inr ([] @ [0x4C]), 0 + length [0x4C :: u8] + 1)"
    by (rule read_line_loop_whole)
      (auto simp: sample_reads_def newline_def MAX_LINE_BYTES_def less_Suc_eq)
  moreover have "from_utf8 [0x4C] = Some [0x4C]" by code_simp
  ultimately show ?thesis by (simp add: read_line_def)
qed

lemma sample_connects:
  "open_stream sample_connect (Some fp) [1] =
     Inr (Tls \<lparr>read_timeout = 30000, write_timeout = 10000, nodelay = True, written = []\<rparr>)"
  by (simp add: open_stream_def is_tls_port_def rsplit_once_def colon_def sample_connect_def)

lemma sample_session:
  "login_check sample_api sample_login = Inr (S_Obj [(str ''id'', S_Str (str ''s1'')), (str ''job'', sample_job)], str ''s1'')"
  by (simp add: login_check_def get_some_def get_str_def sample_defs)

lemma sample_hex:
  "hex_decode (replicate 86 0x30) = Some (replicate 43 0)"
  "hex_decode (replicate 16 0x66) = Some (replicate 8 0xFF)"
  "hex_decode [] = Some []"
  by code_simp+

lemma sample_parse_job:
  "parse_job sample_api sample_job 1 = Some (arc_val sample_arc)"
  unfolding sample_job_def
  by (simp add: parse_job_def get_str_def sample_api_def sample_arc_def sample_hex del: replicate.simps)

section \<open>The run\<close>

definition sample_start :: pool where
  "sample_start =
     \<lparr>stream = Some (Tls \<lparr>read_timeout = RECV_POLL_INTERVAL, write_timeout = 10000, nodelay = True,
        written = [\<lparr>rq_id = 1, rq_method = str ''login'', rq_params = login_params [] [2]\<rparr>]\<rparr>),
      current_job = Some sample_arc, connected = True, request_id = 2, generation = 1,
      address = [1], wallet = [2], user_wallet = [2], donation = donation_new 5,
      tls_verifier = Pinned sample_pki [7], pinned_fingerprint = Some [7],
      session_id = str ''s1'', accepted_shares = 0, rejected_shares = 0, pending_shares = [],
      lost_shares = 0, unsent_shares = 0, submits_in_flight = 0,
      silence_timeout_ms = POOL_SILENCE_TIMEOUT, rotation_settle_ms = ROTATION_SETTLE_LIMIT,
      rotation_wait_since = None, allocations = 1\<rparr>"

definition sample_first :: pool where
  "sample_first = snd (connect_login sample_api [] sample_connect sample_login_env [1] [2]
     (with_tls_fingerprint sample_pki 5 (Some [7])))"

lemma sample_login_ok:
  "connect_login sample_api [] sample_connect sample_login_env [1] [2]
     (with_tls_fingerprint sample_pki 5 (Some [7])) = (Inr (), sample_first)"
  and sample_started:
  "reset_share_counters (snd (receiver_start True 0 sample_first)) = sample_start"
proof -
  let ?new = "with_tls_fingerprint sample_pki 5 (Some [7])"
  let ?p = "sample_start\<lparr>stream := Some (Tls \<lparr>read_timeout = 30000, write_timeout = 10000, nodelay = True,
        written = [\<lparr>rq_id = 1, rq_method = str ''login'', rq_params = login_params [] [2]\<rparr>]\<rparr>)\<rparr>"
  have st: "open_stream sample_connect (pinned_fingerprint ?new) [1] =
      Inr (Tls \<lparr>read_timeout = 30000, write_timeout = 10000, nodelay = True, written = []\<rparr>)"
    unfolding with_tls_fingerprint_def by (simp add: sample_connects)
  have job: "json_get sample_api (S_Obj [(str ''id'', S_Str (str ''s1'')), (str ''job'', sample_job)])
      (str ''job'') = Some sample_job" by (simp add: sample_api_def)
  have parse: "json_parse sample_api [0x4C] = Some sample_login" by (simp add: sample_api_def)
  have env: "login_write sample_login_env = Written" "login_sets_timeout sample_login_env = True"
    "login_reads sample_login_env = sample_reads" by (simp_all add: sample_login_env_def)
  have l: "connect_login sample_api [] sample_connect sample_login_env [1] [2] ?new = (Inr (), ?p)"
    unfolding connect_login_def connect_def st
    by (simp add: login_def send_request_def next_request_id_def env sample_read_line parse
        login_reply_def sample_session login_job_def job sample_parse_job install_job_def
        begin_login_def install_stream_def with_tls_fingerprint_def sample_start_def
        set_read_timeout_def server_verifier_def sample_arc_def)
  then show "connect_login sample_api [] sample_connect sample_login_env [1] [2] ?new
      = (Inr (), sample_first)" by (simp add: sample_first_def)
  show "reset_share_counters (snd (receiver_start True 0 sample_first)) = sample_start"
    unfolding sample_first_def l
    by (simp add: receiver_start_def reset_share_counters_def set_read_timeout_def sample_start_def)
qed

abbreviation sample_reachable :: "sample sys \<Rightarrow> bool" where
  "sample_reachable \<equiv> reachable sample_api [] [3] [4] sample_pki 5 (Some [7]) 1"

lemma sample_reach_start: "sample_reachable (start_sys 1 sample_start)"
  unfolding sample_started [symmetric]
  by (rule reachable.Start [OF sample_login_ok refl])

text \<open>A worker that has called \<open>submit_share\<close>, and the same when the call is about to return.\<close>

definition sample_entered :: "bytes \<Rightarrow> bytes \<Rightarrow> sample sys" where
  "sample_entered nonce result =
     (start_sys 1 sample_start)\<lparr>sp := enter_submit sample_start, calls := 1,
        subs := [Entered 0 sample_arc nonce result]\<rparr>"

definition sample_sent :: "bytes \<Rightarrow> bytes \<Rightarrow> sample sys" where
  "sample_sent nonce result =
     \<lparr>sp = sample_start\<lparr>submits_in_flight := 1, request_id := 3,
        stream := Some (Tls \<lparr>read_timeout = RECV_POLL_INTERVAL, write_timeout = 10000,
          nodelay = True,
          written = [\<lparr>rq_id = 1, rq_method = str ''login'', rq_params = login_params [] [2]\<rparr>,
            \<lparr>rq_id = 2, rq_method = str ''submit'',
             rq_params = submit_params (str ''s1'') (str ''j1'') nonce result\<rparr>]\<rparr>),
        pending_shares := [(2, \<lparr>ps_job_id = str ''j1'', ps_nonce = nonce, ps_sent_at = 9\<rparr>)]\<rparr>,
      lock = None, subs = [Leaving 0 sample_arc], recv = R_Poll, buf = [], calls = 1, drawn = 2,
      epoch = 1, origins = [1], sent = [(2, 1, sample_arc)]\<rparr>"

abbreviation sample_written :: "sample sys" where
  "sample_written \<equiv> sample_sent [5] [6]"

lemmas sample_written_def = sample_sent_def

definition sample_gated :: "sample sys" where
  "sample_gated = (start_sys 1 sample_start)\<lparr>recv := R_Gated Author 0 0\<rparr>"

definition sample_answering :: "sample sys" where
  "sample_answering = sample_written\<lparr>recv := R_Answer 1 sample_answer []\<rparr>"

lemma sample_reach_gated: "sample_reachable sample_gated"
proof -
  have "loop_step sample_api [3] [4] (start_sys 1 sample_start)
      ((start_sys 1 sample_start)\<lparr>recv := R_Gated Author
         (submits_in_flight (sp (start_sys 1 sample_start :: sample sys)))
         (calls (start_sys 1 sample_start :: sample sys))\<rparr>)"
    by (rule loop_step.Gate) (simp add: start_sys_def)
  then have "loop_step sample_api [3] [4] (start_sys 1 sample_start) sample_gated"
    by (simp add: sample_gated_def start_sys_def sample_start_def)
  then show ?thesis by (rule reachable.Loop [OF sample_reach_start])
qed

text \<open>The steps of \<open>submit_share\<close> in between.\<close>

definition sample_call :: "sample sys \<Rightarrow> sample sys \<Rightarrow> bool" where
  "sample_call s s' \<longleftrightarrow> in_call (subs s ! 0) \<and> sub_step 0 s s'"

lemma sample_calls: "sample_call\<^sup>*\<^sup>* (sample_entered nonce result) (sample_sent nonce result)"
proof -
  let ?a = sample_arc and ?ps = "submit_params (str ''s1'') (str ''j1'') nonce result"
  let ?s = "start_sys 1 sample_start :: sample sys"
  let ?p2 = "enter_submit sample_start"
  let ?p4 = "snd (next_request_id ?p2)"
  obtain p6 where w: "write_submit Written 2 ?ps (job_generation (arc_val ?a)) ?p4 = (Inr (), p6)"
    and p6: "p6 = ?p4\<lparr>stream := stream (sp (sample_sent nonce result))\<rparr>"
    by (simp add: write_submit_def sample_start_def share_steps sample_arc_def sample_sent_def)
  have fields: "session_id ?p2 = str ''s1''" "request_id ?p2 = 2" "job_id (arc_val ?a) = str ''j1''"
    by (simp_all add: sample_start_def share_steps sample_arc_def)
  let ?s2 = "?s\<lparr>sp := ?p2, calls := 1, subs := [Entered 0 ?a nonce result]\<rparr>"
  let ?s3 = "?s2\<lparr>subs := [Has_Params 0 ?a nonce ?ps]\<rparr>"
  let ?s4 = "?s2\<lparr>sp := ?p4, drawn := Suc 1, subs := [Ready 0 ?a nonce ?ps 2]\<rparr>"
  let ?s5 = "?s4\<lparr>lock := Some 0, subs := [Holding 0 ?a nonce ?ps 2]\<rparr>"
  let ?s6 = "?s5\<lparr>sp := p6, sent := [(2, 1, ?a)], subs := [Wrote 0 ?a nonce 2]\<rparr>"
  let ?e = "\<lparr>ps_job_id = job_id (arc_val ?a), ps_nonce = nonce, ps_sent_at = 9\<rparr>"
  let ?s7 = "?s6\<lparr>sp := register_pending 2 ?e p6, subs := [Registered 0 ?a]\<rparr>"
  let ?s8 = "?s7\<lparr>lock := None, subs := [Leaving 0 ?a]\<rparr>"
  note simps = at_sub_def set_sub_def start_sys_def sample_call_def in_call_def
  have c2: "sample_call ?s2 ?s3"
    using sub_step.Read_Sid [where i = 0 and s = ?s2 and k = 0 and a = ?a and nonce = nonce
      and result = result] fields by (simp add: simps)
  have c3: "sample_call ?s3 ?s4"
    using sub_step.Draw_Id [where i = 0 and s = ?s3 and k = 0 and a = ?a and nonce = nonce
      and params = ?ps] fields
    by (simp add: simps next_request_id_def)
  have c4: "sample_call ?s4 ?s5"
    using sub_step.Take_Lock [where i = 0 and s = ?s4 and k = 0 and a = ?a and nonce = nonce
      and params = ?ps and rid = 2] by (simp add: simps)
  have c5: "sample_call ?s5 ?s6"
    using sub_step.Write_Ok [where i = 0 and s = ?s5 and k = 0 and a = ?a and nonce = nonce
      and params = ?ps and rid = 2 and w = Written and p = p6] w by (simp add: simps)
  have c6: "sample_call ?s6 ?s7"
    using sub_step.Register [where i = 0 and s = ?s6 and k = 0 and a = ?a and nonce = nonce
      and rid = 2 and now = 9] by (simp add: simps)
  have c7: "sample_call ?s7 ?s8"
    using sub_step.Unlock_Ok [where i = 0 and s = ?s7 and k = 0 and a = ?a] by (simp add: simps)
  have e8: "?s8 = sample_sent nonce result"
    by (simp add: sample_sent_def start_sys_def p6 share_steps sample_start_def sample_arc_def)
  have e2: "?s2 = sample_entered nonce result" by (simp add: sample_entered_def)
  have "sample_call\<^sup>*\<^sup>* ?s2 ?s8"
    by (rule converse_rtranclp_into_rtranclp, rule c2, rule converse_rtranclp_into_rtranclp, rule c3,
        rule converse_rtranclp_into_rtranclp, rule c4, rule converse_rtranclp_into_rtranclp, rule c5,
        rule converse_rtranclp_into_rtranclp, rule c6, rule r_into_rtranclp, rule c7)
  then show ?thesis unfolding e8 unfolding e2 .
qed

definition sample_working :: "sample sys" where
  "sample_working = (start_sys 1 sample_start)\<lparr>subs := [Working sample_arc]\<rparr>"

lemma sample_fetch: "sub_step 0 (start_sys 1 sample_start) sample_working"
  using sub_step.Fetch [where i = 0 and s = "start_sys 1 sample_start" and a = sample_arc]
  by (simp add: sample_working_def at_sub_def set_sub_def start_sys_def get_work_def sample_start_def)

lemma sample_reach_written: "sample_reachable sample_written"
proof -
  have "sub_step 0 sample_working (sample_entered [5] [6])"
    using sub_step.Enter [where i = 0 and s = sample_working and a = sample_arc
      and nonce = "[5]" and result = "[6]"]
    by (simp add: sample_working_def sample_entered_def at_sub_def set_sub_def start_sys_def)
  then have "sample_reachable (sample_entered [5] [6])"
    using reachable.Sub [OF reachable.Sub [OF sample_reach_start sample_fetch]] by blast
  with sample_calls show ?thesis
    by (induction rule: rtranclp_induct) (auto simp: sample_call_def intro: reachable.Sub)
qed

lemma sample_lines: "take_complete_lines [0x41, newline] = (Inr [[0x41]], [])"
proof -
  have "lossy_trim [0x41, 0x0A] = [0x41]" by code_simp
  then have "drain_lines [0x41, newline] = ([[0x41]], [])"
    by (subst drain_lines.simps) (simp add: newline_def drain_none)
  then show ?thesis by (simp add: take_complete_lines_def)
qed

lemma sample_reach_answering: "sample_reachable sample_answering"
proof -
  let ?h = "sample_written\<lparr>recv := R_Handle 1 [[0x41]]\<rparr>"
  have "loop_step sample_api [3] [4] sample_written ?h"
    using loop_step.Read [where s = sample_written and chunk = "[0x41, newline]"
      and lines = "[[0x41]]" and rest = "[]"] sample_lines
    by (simp add: sample_written_def)
  then have 1: "sample_reachable ?h" by (rule reachable.Loop [OF sample_reach_written])
  have "job_params sample_api sample_answer = None"
    by (simp add: job_params_def get_str_def sample_api_def sample_answer_def)
  then have "take_job sample_api sample_answer p = p" for p by (simp add: take_job_def)
  then have "loop_step sample_api [3] [4] ?h sample_answering"
    using loop_step.Parsed [where s = ?h and e = 1 and line = "[0x41]" and lines = "[]"
      and api = sample_api and msg = sample_answer and p = "sp ?h"]
    by (simp add: sample_answering_def goto_def sample_api_def sample_written_def)
  then show ?thesis by (rule reachable.Loop [OF 1])
qed

text \<open>An iteration of the receiver in which one byte of an unfinished line arrives.\<close>

definition sample_quiet_rx :: receiver where
  "sample_quiet_rx = \<lparr>rx_pending = [], last_keepalive = 0, last_recv = 0, donation_start = 0,
     active = User, last_want = User\<rparr>"

definition sample_quiet_env :: iter_env where
  "sample_quiet_env = (let att = (sample_connect, sample_login_env, True) in
     \<lparr>t_start = 10, t_rotate = 10, relogin_attempt = att, t_relogin = 10,
      socket_read = Read_Bytes [0x42], t_read = 20, read_attempts = [att], t_reconnected = 20,
      t_keepalive = 30, keepalive_write = Written, keepalive_attempts = [att],
      t_keepalive_reconnected = 30, t_silence = 30, silence_attempts = [att],
      t_silence_reconnected = 30\<rparr>)"

lemma sample_quiet:
  "receiver_iteration sample_api [] [3] [4] sample_quiet_env sample_quiet_rx sample_start =
     Continue (sample_quiet_rx\<lparr>rx_pending := [0x42], last_recv := 20\<rparr>) sample_start"
proof -
  have "drain_lines [0x42] = ([], [0x42])" by (simp add: drain_none newline_def)
  then have "take_complete_lines [0x42] = (Inr [], [0x42])"
    by (simp add: take_complete_lines_def MAX_LINE_BYTES_def)
  moreover have "beneficiary_at (donation_new 5) 0 = User"
    by (simp add: beneficiary_at_def donation_new_def clamp_level_def donate_consts)
  ultimately show ?thesis
    by (simp add: receiver_iteration_def rotate_part_def read_part_def keepalive_part_def
        silence_part_def sample_quiet_env_def sample_quiet_rx_def sample_start_def Let_def
        note_donation_target_def handle_lines_def KEEPALIVE_INTERVAL_def POOL_SILENCE_TIMEOUT_def)
qed

end
