(* ===== verification/Miner_Sample.thy ===== *)
theory Miner_Sample
  imports Miner Pool_Sample
begin

text \<open>
  A concrete run of the miner for the witnesses: the pool of \<open>Pool_Sample\<close>, one worker, and a
  hash function that is easy to evaluate, since RandomX itself is not. Its VM is the dataset, the
  prepared blob and the native-loop switch, and the hash ends in the nonce.
\<close>

section \<open>A small hasher\<close>

definition toy_digest :: "dataset \<Rightarrow> bytes \<Rightarrow> bytes option" where
  "toy_digest ds b = Some (replicate 28 0 @ slice 39 4 b)"

definition toy_hash :: "bytes \<Rightarrow> bytes" where
  "toy_hash b = replicate 28 0 @ slice 39 4 b"

type_synonym toy_vm = "dataset \<times> bytes \<times> bool"

definition toy_ops :: "toy_vm vm_ops" where
  "toy_ops =
     \<lparr>op_new_full = (\<lambda>key ds. Some (ds, [], True)), op_reinit = (\<lambda>vm key ds. Some (ds, snd vm)),
      op_set_native_loop = (\<lambda>enabled vm. (fst vm, fst (snd vm), enabled)),
      op_native_loop_effective = (\<lambda>vm. snd (snd vm)),
      op_prepare_scratchpad = (\<lambda>vm b. Some (fst vm, b, snd (snd vm))),
      op_calculate_hash_pipelined = (\<lambda>vm b. Some (toy_hash (fst (snd vm)), (fst vm, b, snd (snd vm)))),
      op_calculate_hash = (\<lambda>vm b. Some (toy_hash b, vm))\<rparr>"

definition toy_gen :: "bytes \<Rightarrow> dataset option" where
  "toy_gen seed = Some [map ucast seed]"

definition toy_for :: "toy_vm \<Rightarrow> dataset \<Rightarrow> bool" where
  "toy_for vm ds \<longleftrightarrow> fst vm = ds"

definition toy_off :: "toy_vm \<Rightarrow> bool" where
  "toy_off vm \<longleftrightarrow> \<not> snd (snd vm)"

definition toy_prepared :: "toy_vm \<Rightarrow> bytes \<Rightarrow> bool" where
  "toy_prepared vm b \<longleftrightarrow> fst (snd vm) = b"

lemma toy_hasher: "hasher toy_ops (\<lambda>_. True) toy_for toy_off toy_digest toy_gen toy_prepared"
  by unfold_locales
    (auto simp: toy_ops_def toy_for_def toy_off_def toy_prepared_def toy_digest_def toy_hash_def toy_gen_def)

text \<open>A mining path with a defect: the hash it returns is that of another nonce, and the native loop
  is wrong for the one-shot hash as well.\<close>

definition bad_ops :: "toy_vm vm_ops" where
  "bad_ops = toy_ops\<lparr>op_calculate_hash_pipelined := (\<lambda>vm b. Some (toy_hash b, (fst vm, b, snd (snd vm)))),
     op_calculate_hash := (\<lambda>vm b. if snd (snd vm) then Some ([], vm) else Some (toy_hash b, vm))\<rparr>"

lemma bad_reference: "reference_hasher bad_ops (\<lambda>_. True) toy_for toy_off toy_digest toy_gen"
  by unfold_locales (auto simp: bad_ops_def toy_ops_def toy_for_def toy_off_def toy_digest_def toy_hash_def)

section \<open>The run\<close>

definition toy_setup :: "toy_vm vm_ops \<Rightarrow> toy_vm rig_setup" where
  "toy_setup ops = \<lparr>rs_ops = ops, rs_gen = toy_gen, rs_native_loop = True, rs_verify_shares = True,
     rs_threads = 1\<rparr>"

abbreviation sample_reachable where
  "sample_reachable rs \<equiv> rig_reachable sample_api [] [3] [4] sample_pki 5 (Some [7]) rs"

text \<open>One worker, with any VM: it has been started, and it has fetched the job.\<close>

definition started_rig :: "'vm rig_setup \<Rightarrow> (sample, 'vm) rig" where
  "started_rig rs = start_rig rs 100 (start_sys 1 sample_start)"

definition working_rig :: "'vm rig_setup \<Rightarrow> (sample, 'vm) rig" where
  "working_rig rs = (started_rig rs)\<lparr>net := sample_working\<rparr>"

lemma started_rig_reachable: "rs_threads rs = 1 \<Longrightarrow> sample_reachable rs (started_rig rs)"
  using rig_reachable.Start [OF sample_login_ok refl, where rs = rs and now_ms = 100
      and sets = True and now = 0]
  by (simp add: started_rig_def sample_started)

lemma working_rig_reachable: "rs_threads rs = 1 \<Longrightarrow> sample_reachable rs (working_rig rs)"
proof (rule rig_reachable.Step [OF started_rig_reachable])
  have "rig_step sample_api [] [3] [4] rs (started_rig rs) ((started_rig rs)\<lparr>net := sample_working\<rparr>)"
    using sample_fetch
    by (intro rig_step.Call [where i = 0]) (simp_all add: started_rig_def start_rig_def start_sys_def in_call_def)
  then show "rig_step sample_api [] [3] [4] rs (started_rig rs) (working_rig rs)"
    by (simp add: working_rig_def)
qed

lemma working_rig_at: "at_sub 0 (Working sample_arc) (net (working_rig rs))"
  by (simp add: working_rig_def sample_working_def at_sub_def start_sys_def)

abbreviation toy_reachable where
  "toy_reachable ops \<equiv> sample_reachable (toy_setup ops)"

definition toy_start :: "toy_vm vm_ops \<Rightarrow> (sample, toy_vm) rig" where
  "toy_start ops = started_rig (toy_setup ops)"

definition toy_working :: "toy_vm vm_ops \<Rightarrow> (sample, toy_vm) rig" where
  "toy_working ops = working_rig (toy_setup ops)"

lemma toy_reach_start: "toy_reachable ops (toy_start ops)"
  unfolding toy_start_def by (rule started_rig_reachable) (simp add: toy_setup_def)

lemma toy_reach_working: "toy_reachable ops (toy_working ops)"
  unfolding toy_working_def by (rule working_rig_reachable) (simp add: toy_setup_def)

definition toy_env :: turn_env where
  "toy_env = \<lparr>env_now_ms = 7, env_flush_due = False, env_elapsed = 0\<rparr>"

definition toy_blob :: "u8 \<Rightarrow> bytes" where
  "toy_blob n = replicate 39 0 @ [n, 0, 0, 0]"

definition toy_share :: found_share where
  "toy_share = \<lparr>fs_job = sample_arc, fs_nonce = [0, 0, 0, 0], fs_hash = replicate 32 0,
     fs_verdict = Submit_Verified\<rparr>"

text \<open>The worker after its first nonce.\<close>

definition toy_worker :: "toy_vm worker" where
  "toy_worker = \<lparr>w_vm = Some ([[]], toy_blob 1, True), w_key = [], w_job = Some sample_arc,
     w_cur = toy_blob 0, w_next = toy_blob 1, w_warned = False, w_nonce = 1, w_local = 1, w_ready = True,
     w_verifier = \<lparr>sv_vm = Some ([[]], [], False), sv_dataset = Some [[]], sv_key = [], sv_enabled = True\<rparr>,
     w_reported = True\<rparr>"

definition toy_shared :: shared where
  "toy_shared = \<lparr>sh_cache = Some ([], [[]]), sh_stats =
     \<lparr>best_hash_val = 0, current_difficulty = 1, shares_found = 1, last_share_time_ms = 7,
      start_time_ms = 100, verify_failures = 0\<rparr>, sh_total_hashes = 0, sh_hashrate = 0\<rparr>"

lemma toy_nonces:
  "write_nonce_le (replicate 43 0) 0 = Some (toy_blob 0)"
  "write_nonce_le (replicate 43 0) 1 = Some (toy_blob 1)"
  "slice 39 4 (toy_blob 0) = [0, 0, 0, 0]" "slice 39 4 (toy_blob 1) = [1, 0, 0, 0]"
  "length (toy_blob n) = 43"
  by (code_simp, code_simp, code_simp, code_simp, simp add: toy_blob_def)

lemma toy_zero: "replicate 28 0 @ [0, 0, 0, 0] = (replicate 32 0 :: bytes)"
  "(replicate 28 0 @ [1, 0, 0, 0] :: bytes) \<noteq> replicate 32 0"
  "(replicate 32 0 :: bytes) \<noteq> replicate 28 0 @ [1, 0, 0, 0]"
  by code_simp+

lemma toy_target:
  "meets_target (replicate 32 0) (replicate 8 0xFF)"
  "note_hash (replicate 32 0) (replicate 8 0xFF) (stats_new 100) =
     (stats_new 100)\<lparr>best_hash_val := 0, current_difficulty := 1\<rparr>"
  "meets_target (replicate 28 0 @ [1, 0, 0, 0]) (replicate 8 0xFF)"
  by code_simp+

lemma toy_turn:
  "worker_iteration toy_ops toy_gen (worker_cfg (toy_setup toy_ops) 0) toy_env sample_arc
     (worker_start (worker_cfg (toy_setup toy_ops) 0)) (common (toy_start toy_ops)) =
   Some (Some (replicate 32 0), Some toy_share, toy_worker, toy_shared)"
  by (simp add: worker_iteration_def follow_seed_def note_job_def is_new_job_def worker_start_def
      hash_once_def check_share_def flush_hashes_def reference_hash_def classify_share_def
      get_or_generate_dataset_def verifier_new_def rekey_def set_enabled_def Let_def
      toy_setup_def worker_cfg_def toy_ops_def toy_gen_def toy_env_def toy_start_def started_rig_def start_rig_def
      sample_arc_def toy_nonces toy_hash_def toy_target toy_share_def toy_worker_def toy_shared_def
      toy_zero del: replicate.simps)
    (simp add: stats_new_def)

text \<open>The defect: the hash of the next nonce meets the target as well, but it is withheld.\<close>

lemma bad_turn:
  "\<exists>sh. worker_iteration bad_ops toy_gen (worker_cfg (toy_setup bad_ops) 0) toy_env sample_arc
     (worker_start (worker_cfg (toy_setup bad_ops) 0)) (common (toy_start bad_ops)) =
   Some (Some (toy_hash (toy_blob 1)), None, toy_worker, sh)"
  by (simp add: worker_iteration_def follow_seed_def note_job_def is_new_job_def worker_start_def
      hash_once_def check_share_def flush_hashes_def reference_hash_def classify_share_def
      get_or_generate_dataset_def verifier_new_def rekey_def set_enabled_def Let_def
      toy_setup_def worker_cfg_def toy_ops_def bad_ops_def toy_gen_def toy_env_def toy_start_def started_rig_def start_rig_def
      sample_arc_def toy_nonces toy_hash_def toy_target toy_worker_def toy_zero del: replicate.simps)

text \<open>The good worker's share on its way to the pool.\<close>

definition toy_found :: "(sample, toy_vm) rig" where
  "toy_found = \<lparr>net = sample_working, crew = [toy_worker], found = [Some toy_share], common = toy_shared,
     tried = [(0, 0)]\<rparr>"

lemma toy_reach_found: "toy_reachable toy_ops toy_found"
proof (rule rig_reachable.Step [OF toy_reach_working])
  let ?r = "toy_working toy_ops" and ?res = "(Some (replicate 32 0), Some toy_share, toy_worker, toy_shared)"
  have c: "crew ?r ! 0 = worker_start (worker_cfg (toy_setup toy_ops) 0)" "found ?r ! 0 = None"
      "common ?r = common (toy_start toy_ops)" "at_sub 0 (Working sample_arc) (net ?r)"
      "rs_ops (toy_setup toy_ops) = toy_ops" "rs_gen (toy_setup toy_ops) = toy_gen"
    by (simp_all add: toy_working_def working_rig_def toy_start_def started_rig_def start_rig_def
        toy_setup_def at_sub_def sample_working_def start_sys_def)
  have "rig_step sample_api [] [3] [4] (toy_setup toy_ops) ?r (after_turn 0 ?res ?r)"
    by (rule rig_step.Turn [OF c(4,2), where env = toy_env]) (simp only: c toy_turn)
  moreover have "after_turn 0 ?res ?r = toy_found"
    by (simp add: after_turn_def toy_found_def toy_working_def working_rig_def toy_start_def started_rig_def start_rig_def toy_setup_def
        worker_start_def worker_cfg_def)
  ultimately show "rig_step sample_api [] [3] [4] (toy_setup toy_ops) ?r toy_found" by simp
qed

abbreviation toy_nonce_hex :: bytes where
  "toy_nonce_hex \<equiv> hex_encode [0, 0, 0, 0]"

abbreviation toy_hash_hex :: bytes where
  "toy_hash_hex \<equiv> hex_encode (replicate 32 0)"

definition toy_sent :: "(sample, toy_vm) rig" where
  "toy_sent = toy_found\<lparr>net := sample_sent toy_nonce_hex toy_hash_hex, found := [None]\<rparr>"

lemma toy_reach_sent: "toy_reachable toy_ops toy_sent"
proof -
  let ?r = "\<lambda>s. \<lparr>net = s, crew = [toy_worker], found = [None], common = toy_shared, tried = [(0, 0)]\<rparr>"
  have "rig_step sample_api [] [3] [4] (toy_setup toy_ops) toy_found (call_submit 0 sample_arc toy_share toy_found)"
    by (intro rig_step.Submit) (simp_all add: toy_found_def at_sub_def sample_working_def start_sys_def)
  moreover have "call_submit 0 sample_arc toy_share toy_found = ?r (sample_entered toy_nonce_hex toy_hash_hex)"
    by (simp add: call_submit_def toy_found_def sample_entered_def sample_working_def set_sub_def
        start_sys_def toy_share_def)
  ultimately have e: "toy_reachable toy_ops (?r (sample_entered toy_nonce_hex toy_hash_hex))"
    using rig_reachable.Step [OF toy_reach_found] by metis
  from sample_calls have "toy_reachable toy_ops (?r (sample_sent toy_nonce_hex toy_hash_hex))"
  proof (induction rule: rtranclp_induct)
    case base
    then show ?case by (rule e)
  next
    case (step y z)
    have "rig_step sample_api [] [3] [4] (toy_setup toy_ops) (?r y) ((?r y)\<lparr>net := z\<rparr>)"
      using step(2) by (intro rig_step.Call [where i = 0]) (simp_all add: sample_call_def)
    then show ?case using rig_reachable.Step [OF step(3)] by simp
  qed
  then show ?thesis by (simp add: toy_sent_def toy_found_def)
qed

end
