(* ===== verification/Jit_Memory.thy ===== *)
theory Jit_Memory
  imports Jit_Native
begin

text \<open>
  \<open>src/randomx/jit/memory.rs\<close>: the executable region. Its protection, the write protection that
  macOS keeps per thread, and the instruction side: a byte that was stored and not yet flushed is
  stale, and fetching it is undefined. The answers of \<open>mmap\<close> and \<open>mprotect\<close> are parameters. A
  store to a region that is not writable is a fault.
\<close>

section \<open>The region\<close>

datatype jit_os = Macos | Linux

datatype jit_panic = Code_Too_Long | Mprotect_Failed | Segfault

record jit_region =
  rg_data :: bytes
  rg_stale :: "bool list"
  rg_prot_write :: bool
  rg_prot_exec :: bool
  rg_thread_protect :: bool

definition can_write :: "jit_os \<Rightarrow> jit_region \<Rightarrow> bool" where
  "can_write os r \<longleftrightarrow> rg_prot_write r \<and> (os = Macos \<longrightarrow> \<not> rg_thread_protect r)"

definition can_execute :: "jit_os \<Rightarrow> jit_region \<Rightarrow> bool" where
  "can_execute os r \<longleftrightarrow> rg_prot_exec r \<and> (os = Macos \<longrightarrow> rg_thread_protect r)"

text \<open>\<open>platform::alloc\<close>. The state of the thread's write protection is what it was before.\<close>

definition region_alloc :: "jit_os \<Rightarrow> bool \<Rightarrow> bool \<Rightarrow> nat \<Rightarrow> jit_region option" where
  "region_alloc os mmap_ok thread_protect bytes_mapped =
     (if mmap_ok
      then Some \<lparr>rg_data = replicate bytes_mapped 0, rg_stale = replicate bytes_mapped True, rg_prot_write = True,
             rg_prot_exec = (os = Macos), rg_thread_protect = thread_protect\<rparr>
      else None)"

text \<open>Linux: \<open>protect\<close>, which panics when \<open>mprotect\<close> fails.\<close>

definition region_protect :: "bool \<Rightarrow> bool \<Rightarrow> bool \<Rightarrow> jit_region \<Rightarrow> (jit_panic + unit) \<times> jit_region" where
  "region_protect ok w x r =
     (if ok then (Inr (), r\<lparr>rg_prot_write := w, rg_prot_exec := x\<rparr>) else (Inl Mprotect_Failed, r))"

text \<open>\<open>sys_icache_invalidate\<close> and \<open>__clear_cache\<close>: the first \<open>n\<close> bytes.\<close>

definition flush_icache :: "nat \<Rightarrow> jit_region \<Rightarrow> jit_region" where
  "flush_icache n r = r\<lparr>rg_stale := replicate (min n (length (rg_stale r))) False @ drop n (rg_stale r)\<rparr>"

definition enable_write :: "jit_os \<Rightarrow> bool \<Rightarrow> jit_region \<Rightarrow> (jit_panic + unit) \<times> jit_region" where
  "enable_write os ok r =
     (case os of Macos \<Rightarrow> (Inr (), r\<lparr>rg_thread_protect := False\<rparr>) | Linux \<Rightarrow> region_protect ok True False r)"

definition enable_execute :: "jit_os \<Rightarrow> bool \<Rightarrow> nat \<Rightarrow> jit_region \<Rightarrow> (jit_panic + unit) \<times> jit_region" where
  "enable_execute os ok code_len r =
     (case os of
        Macos \<Rightarrow> (Inr (), flush_icache code_len (r\<lparr>rg_thread_protect := True\<rparr>))
      | Linux \<Rightarrow> (case region_protect ok False True r of
                    (Inl e, r) \<Rightarrow> (Inl e, r)
                  | (Inr _, r) \<Rightarrow> (Inr (), flush_icache code_len r)))"

text \<open>\<open>copy_nonoverlapping\<close> to the start of the region.\<close>

definition code_bytes :: "u32 list \<Rightarrow> bytes" where
  "code_bytes code = concat (map (le_bytes 4) code)"

definition copy_code :: "jit_os \<Rightarrow> u32 list \<Rightarrow> jit_region \<Rightarrow> jit_region option" where
  "copy_code os code r =
     (if can_write os r
      then Some (r\<lparr>rg_data := splice 0 (code_bytes code) (rg_data r),
             rg_stale := splice 0 (replicate (4 * length code) True) (rg_stale r)\<rparr>)
      else None)"

text \<open>What the processor fetches as word \<open>i\<close>.\<close>

definition fetch :: "jit_os \<Rightarrow> jit_region \<Rightarrow> nat \<Rightarrow> u32 option" where
  "fetch os r i =
     (if can_execute os r \<and> 4 * i + 4 \<le> length (rg_data r) \<and> list_all Not (slice (4 * i) 4 (rg_stale r))
      then Some (from_le (slice (4 * i) 4 (rg_data r))) else None)"

section \<open>JitMemory\<close>

record jit_memory =
  jm_region :: jit_region
  jm_size :: nat
  jm_code_len :: nat

definition jit_memory_new :: "jit_os \<Rightarrow> bool \<Rightarrow> bool \<Rightarrow> nat \<Rightarrow> jit_memory option" where
  "jit_memory_new os mmap_ok thread_protect bytes_mapped =
     map_option (\<lambda>r. \<lparr>jm_region = r, jm_size = bytes_mapped, jm_code_len = 0\<rparr>) (region_alloc os mmap_ok thread_protect bytes_mapped)"

definition region_write_code ::
  "jit_os \<Rightarrow> bool \<times> bool \<Rightarrow> u32 list \<Rightarrow> jit_memory \<Rightarrow> (jit_panic + unit) \<times> jit_memory" where
  "region_write_code os oks code m =
     (let byte_len = length code * 4
      in if \<not> byte_len \<le> jm_size m then (Inl Code_Too_Long, m)
         else case enable_write os (fst oks) (jm_region m) of
                (Inl e, r) \<Rightarrow> (Inl e, m\<lparr>jm_region := r\<rparr>)
              | (Inr _, r) \<Rightarrow>
                  (case copy_code os code r of
                     None \<Rightarrow> (Inl Segfault, m\<lparr>jm_region := r\<rparr>)
                   | Some r \<Rightarrow>
                       let (res, r) = enable_execute os (snd oks) byte_len r
                       in (res, m\<lparr>jm_region := r, jm_code_len := byte_len\<rparr>)))"

text \<open>A sequence of calls, whatever each of them answers.\<close>

fun write_all ::
  "jit_os \<Rightarrow> ((bool \<times> bool) \<times> u32 list) list \<Rightarrow> jit_memory \<Rightarrow> jit_memory" where
  "write_all os [] m = m"
| "write_all os ((oks, code) # calls) m = write_all os calls (snd (region_write_code os oks code m))"

section \<open>The bytes of the code\<close>

lemma length_code_bytes [simp]: "length (code_bytes code) = 4 * length code"
  by (induction code) (simp_all add: code_bytes_def)

lemma slice_code:
  "i < length code \<Longrightarrow> slice (4 * i) 4 (code_bytes code) = le_bytes 4 (code ! i)"
proof (induction code arbitrary: i)
  case (Cons w code)
  show ?case using Cons.IH [of "i - 1"] Cons.prems by (cases i) (auto simp: code_bytes_def slice_def)
qed simp

section \<open>Never writable and executable\<close>

definition region_ok :: "jit_os \<Rightarrow> jit_memory \<Rightarrow> bool" where
  "region_ok os m \<longleftrightarrow>
     length (rg_data (jm_region m)) = jm_size m \<and> length (rg_stale (jm_region m)) = jm_size m \<and>
     (case os of
        Macos \<Rightarrow> rg_prot_write (jm_region m) \<and> rg_prot_exec (jm_region m)
      | Linux \<Rightarrow> rg_prot_write (jm_region m) \<noteq> rg_prot_exec (jm_region m))"

lemma region_ok_new: "jit_memory_new os ok tp n = Some m \<Longrightarrow> region_ok os m \<and> jm_size m = n"
  by (cases os) (auto simp: jit_memory_new_def region_alloc_def region_ok_def split: if_splits)

lemmas region_defs = enable_write_def enable_execute_def region_protect_def copy_code_def flush_icache_def
  can_write_def can_execute_def

lemma region_write_ok:
  assumes "region_ok os m"
  shows "region_ok os (snd (region_write_code os oks code m)) \<and>
    jm_size (snd (region_write_code os oks code m)) = jm_size m \<and>
    fst (region_write_code os oks code m) \<noteq> Inl Segfault \<and>
    (fst (region_write_code os oks code m) = Inr ()) =
      (length code * 4 \<le> jm_size m \<and> (os = Macos \<or> oks = (True, True)))"
  using assms
  by (cases os; cases oks) (auto simp: region_write_code_def region_defs region_ok_def Let_def split: if_splits)

lemma region_write_fetch:
  assumes ok: "region_ok os m" and run: "fst (region_write_code os oks code m) = Inr ()"
  shows "map (fetch os (jm_region (snd (region_write_code os oks code m)))) [0..<length code] = map Some code"
proof (rule nth_equalityI)
  fix i assume "i < length (map (fetch os (jm_region (snd (region_write_code os oks code m)))) [0..<length code])"
  then have i: "i < length code" by simp
  let ?r = "jm_region (snd (region_write_code os oks code m))"
  have fit: "length code * 4 \<le> jm_size m" and o: "os = Macos \<or> oks = (True, True)"
    using region_write_ok [OF ok] run by blast+
  have len: "length (rg_data (jm_region m)) = jm_size m" "length (rg_stale (jm_region m)) = jm_size m"
    using ok by (simp_all add: region_ok_def)
  have r: "rg_data ?r = splice 0 (code_bytes code) (rg_data (jm_region m))"
    "rg_stale ?r = replicate (4 * length code) False @ drop (4 * length code) (rg_stale (jm_region m))" "can_execute os ?r"
    using fit o ok len
    by (cases os; auto simp: region_write_code_def region_defs region_ok_def Let_def splice_def min_def mult.commute)+
  have s: "slice (4 * i) 4 (splice 0 (code_bytes code) (rg_data (jm_region m))) = slice (4 * i) 4 (code_bytes code)"
    using i by (simp add: slice_def splice_def)
  have f: "slice (4 * i) 4 (rg_stale ?r) = replicate 4 False" using i unfolding r(2) by (simp add: slice_def)
  have "length (rg_data ?r) = jm_size m" using r(1) len fit by simp
  then show "map (fetch os ?r) [0..<length code] ! i = map Some code ! i"
    using i fit r(1, 3) s f slice_code [OF i] by (simp add: fetch_def list_all_iff)
qed simp

lemma write_all_ok: "region_ok os m \<Longrightarrow> region_ok os (write_all os calls m) \<and> jm_size (write_all os calls m) = jm_size m"
proof (induction os calls m rule: write_all.induct)
  case (2 os oks code calls m)
  then show ?case using region_write_ok [OF 2(2), of oks code] by simp
qed simp

lemma region_ok_exclusive: "region_ok os m \<Longrightarrow> \<not> (can_write os (jm_region m) \<and> can_execute os (jm_region m))"
  by (cases os) (auto simp: region_ok_def can_write_def can_execute_def)

end
