(* ===== verification/Cli.thy ===== *)
theory Cli
  imports Miner
begin

text \<open>
  \<open>src/bin/minertim.rs\<close>: the settings. Arguments and environment variables are byte strings;
  \<open>std::env::args\<close> panics on an argument that is not UTF-8, so the arguments are the bytes of
  texts. The loops over the arguments run by index, as in the code. What is printed to
  standard error is a list of warnings next to each result.
\<close>

section \<open>Text\<close>

definition strip_prefix :: "bytes \<Rightarrow> bytes \<Rightarrow> bytes option" where
  "strip_prefix p s = (if take (length p) s = p then Some (drop (length p) s) else None)"

text \<open>\<open>v.trim().is_empty()\<close>.\<close>

definition is_blank :: "bytes \<Rightarrow> bool" where
  "is_blank v \<longleftrightarrow> lossy_trim v = []"

definition to_ascii_lowercase :: "bytes \<Rightarrow> bytes" where
  "to_ascii_lowercase = map (\<lambda>b. if 0x41 \<le> b \<and> b \<le> 0x5A then b + 0x20 else b)"

text \<open>\<open>s.parse()\<close> for an unsigned type with the given maximum.\<close>

definition parse_uint :: "nat \<Rightarrow> bytes \<Rightarrow> nat option" where
  "parse_uint largest s =
     (let ds = (case s of [] \<Rightarrow> [] | b # bs \<Rightarrow> if b = 0x2B then bs else s)
      in if ds \<noteq> [] \<and> list_all is_digit ds \<and> digits_value ds \<le> largest then Some (digits_value ds) else None)"

text \<open>\<open>std::env::var(name).ok()\<close>: \<open>None\<close> when it is unset, and also when it is not UTF-8.\<close>

definition env_var :: "bytes option \<Rightarrow> bytes option" where
  "env_var raw = Option.bind raw from_utf8"

definition opt_or :: "'a option \<Rightarrow> 'a option \<Rightarrow> 'a option" where
  "opt_or a b = (case a of Some x \<Rightarrow> Some x | None \<Rightarrow> b)"

datatype cli_warning =
    Empty_Value bytes
  | Unrecognised bytes bytes bool
  | No_Value bytes bool
  | Tls_Env_Empty
  | Tls_No_Value
  | Tls_Empty_Value
  | Unverified_Native_Loop
  | Native_Loop_Disabled bytes

section \<open>The donation level\<close>

function donate_scan :: "bytes list \<Rightarrow> nat \<Rightarrow> nat \<Rightarrow> nat" where
  "donate_scan args i level =
     (if i < length args then
        (case strip_prefix (str ''--donate-level='') (args ! i) of
           Some v \<Rightarrow> donate_scan args (i + 1) (case parse_uint 255 v of Some n \<Rightarrow> n | None \<Rightarrow> level)
         | None \<Rightarrow>
             if args ! i = str ''--donate-level''
             then donate_scan args (i + 2)
               (case Option.bind (at_index args (i + 1)) (parse_uint 255) of Some n \<Rightarrow> n | None \<Rightarrow> level)
             else donate_scan args (i + 1) level)
      else level)"
  by auto
termination by (relation "measure (\<lambda>(args, i, level). length args - i)") auto

definition parse_donate_level :: "bytes list \<Rightarrow> nat" where
  "parse_donate_level args = clamp_level (donate_scan args 0 DEFAULT_DONATE_LEVEL)"

section \<open>Switches\<close>

definition warn_if_empty :: "bytes \<Rightarrow> bytes \<Rightarrow> cli_warning list" where
  "warn_if_empty label v = (if is_blank v then [Empty_Value label] else [])"

definition as_bool :: "bytes \<Rightarrow> bool \<Rightarrow> bytes \<Rightarrow> bool option \<times> cli_warning list" where
  "as_bool flag fail_safe v =
     (if is_blank v then (None, [])
      else let w = to_ascii_lowercase (lossy_trim v)
        in if w \<in> {str ''on'', str ''true'', str ''yes'', str ''1''} then (Some True, [])
           else if w \<in> {str ''off'', str ''false'', str ''no'', str ''0''} then (Some False, [])
           else (Some fail_safe, [Unrecognised flag v fail_safe]))"

text \<open>One value: the warning for an empty one, then what it says.\<close>

definition take_value ::
  "bytes \<Rightarrow> bytes \<Rightarrow> bool \<Rightarrow> bytes \<Rightarrow> bool option \<times> cli_warning list \<Rightarrow> bool option \<times> cli_warning list" where
  "take_value label flag fail_safe v = (\<lambda>(value, ws).
     let (b, w) = as_bool flag fail_safe v in (opt_or b value, ws @ warn_if_empty label v @ w))"

function switch_scan ::
  "bytes \<Rightarrow> bool \<Rightarrow> bytes list \<Rightarrow> nat \<Rightarrow> bool option \<times> cli_warning list \<Rightarrow> bool option \<times> cli_warning list" where
  "switch_scan flag fail_safe args i st =
     (if i < length args then
        (case strip_prefix (flag @ str ''='') (args ! i) of
           Some v \<Rightarrow> switch_scan flag fail_safe args (i + 1) (take_value flag flag fail_safe v st)
         | None \<Rightarrow>
             if args ! i = flag
             then switch_scan flag fail_safe args (i + 2)
               (case at_index args (i + 1) of
                  Some v \<Rightarrow> take_value flag flag fail_safe v st
                | None \<Rightarrow> (Some fail_safe, snd st @ [No_Value flag fail_safe]))
             else switch_scan flag fail_safe args (i + 1) st)
      else st)"
  by auto
termination by (relation "measure (\<lambda>(flag, fail_safe, args, i, st). length args - i)") auto

definition parse_switch_with ::
  "bytes list \<Rightarrow> bytes \<Rightarrow> bytes \<Rightarrow> bytes option \<Rightarrow> bool \<Rightarrow> bool \<Rightarrow> bool \<times> cli_warning list" where
  "parse_switch_with args flag env_label env_value default_on fail_safe =
     (let (value, ws) = switch_scan flag fail_safe args 0
        (case env_value of Some v \<Rightarrow> take_value env_label flag fail_safe v (None, []) | None \<Rightarrow> (None, []))
      in (case value of Some b \<Rightarrow> b | None \<Rightarrow> default_on, ws))"

text \<open>The two switches; the last argument is the variable as the environment holds it.\<close>

definition parse_native_loop :: "bytes list \<Rightarrow> bytes option \<Rightarrow> bool \<times> cli_warning list" where
  "parse_native_loop args raw =
     parse_switch_with args (str ''--native-loop'') (str ''MINERTIM_NATIVE_LOOP'') (env_var raw) True False"

definition parse_verify_shares :: "bytes list \<Rightarrow> bytes option \<Rightarrow> bool \<times> cli_warning list" where
  "parse_verify_shares args raw =
     parse_switch_with args (str ''--verify-shares'') (str ''MINERTIM_VERIFY_SHARES'') (env_var raw) True True"

section \<open>The certificate pin\<close>

text \<open>The error carries the trimmed value it reports.\<close>

definition parse_pin :: "bytes \<Rightarrow> bytes + bytes option" where
  "parse_pin v =
     (if is_blank v then Inr None
      else case parse_cert_fingerprint (lossy_trim v) of
             Some fp \<Rightarrow> Inr (Some fp)
           | None \<Rightarrow> Inl (lossy_trim v))"

function pin_scan ::
  "bytes list \<Rightarrow> nat \<Rightarrow> bytes option \<Rightarrow> cli_warning list \<Rightarrow> (bytes + bytes option) \<times> cli_warning list" where
  "pin_scan args i resolved ws =
     (if i < length args then
        (let (value, j, ws) =
           (case strip_prefix (str ''--tls-fingerprint='') (args ! i) of
              Some v \<Rightarrow> (Some v, i, ws)
            | None \<Rightarrow>
                if args ! i = str ''--tls-fingerprint''
                then (case at_index args (i + 1) of
                        Some v \<Rightarrow> (Some v, i + 1, ws)
                      | None \<Rightarrow> (None, i + 1, ws @ [Tls_No_Value]))
                else (None, i, ws))
         in case value of
              None \<Rightarrow> pin_scan args (j + 1) resolved ws
            | Some v \<Rightarrow>
                let ws = (if is_blank v then ws @ [Tls_Empty_Value] else ws)
                in case parse_pin v of
                     Inl e \<Rightarrow> (Inl e, ws)
                   | Inr fp \<Rightarrow> pin_scan args (j + 1) (opt_or fp resolved) ws)
      else (Inr resolved, ws))"
  by pat_completeness auto
termination
  by (relation "measure (\<lambda>(args, i, resolved, ws). length args - i)")
    (auto split: option.splits if_splits)

definition parse_tls_fingerprint_with ::
  "bytes list \<Rightarrow> bytes option \<Rightarrow> (bytes + bytes option) \<times> cli_warning list" where
  "parse_tls_fingerprint_with args env_value =
     (case env_value of
        None \<Rightarrow> pin_scan args 0 None []
      | Some v \<Rightarrow>
          if is_blank v then pin_scan args 0 None [Tls_Env_Empty]
          else (case parse_pin v of Inl e \<Rightarrow> (Inl e, []) | Inr fp \<Rightarrow> pin_scan args 0 fp []))"

definition parse_tls_fingerprint ::
  "bytes list \<Rightarrow> bytes option \<Rightarrow> (bytes + bytes option) \<times> cli_warning list" where
  "parse_tls_fingerprint args raw = parse_tls_fingerprint_with args (env_var raw)"

declare donate_scan.simps [simp del] switch_scan.simps [simp del] pin_scan.simps [simp del]

section \<open>The values that are offered\<close>

text \<open>What a flag is given, in order, read off the argument list by its structure.\<close>

datatype offer = Given bytes | Missing

fun offers :: "bytes \<Rightarrow> bytes list \<Rightarrow> offer list" where
  "offers flag [] = []"
| "offers flag (a # rest) =
     (case strip_prefix (flag @ str ''='') a of
        Some v \<Rightarrow> Given v # offers flag rest
      | None \<Rightarrow>
          if a = flag
          then (case rest of [] \<Rightarrow> [Missing] | v # rest' \<Rightarrow> Given v # offers flag rest')
          else offers flag rest)"

lemma str_append: "str (a @ b) = str a @ str b"
  by (simp add: str_def)

lemma offers_drop:
  assumes "i < length args"
  shows "offers flag (drop i args) =
     (case strip_prefix (flag @ str ''='') (args ! i) of
        Some v \<Rightarrow> Given v # offers flag (drop (i + 1) args)
      | None \<Rightarrow>
          if args ! i = flag
          then (case at_index args (i + 1) of None \<Rightarrow> Missing | Some v \<Rightarrow> Given v) # offers flag (drop (i + 2) args)
          else offers flag (drop (i + 1) args))"
proof -
  have d: "drop i args = args ! i # drop (i + 1) args" using assms by (simp add: Cons_nth_drop_Suc)
  show ?thesis
  proof (cases "i + 1 < length args")
    case True
    then have "drop (i + 1) args = args ! (i + 1) # drop (i + 2) args" by (simp add: Cons_nth_drop_Suc)
    then show ?thesis unfolding d using True by (simp add: at_index_def split: option.splits)
  next
    case False
    then have "drop (i + 1) args = []" "drop (i + 2) args = []" by simp_all
    then show ?thesis unfolding d using False by (simp add: at_index_def split: option.splits)
  qed
qed

fun donate_offer :: "offer \<Rightarrow> nat \<Rightarrow> nat" where
  "donate_offer (Given v) level = (case parse_uint 255 v of Some n \<Rightarrow> n | None \<Rightarrow> level)"
| "donate_offer Missing level = level"

lemma donate_scan_offers:
  "donate_scan args i level = fold donate_offer (offers (str ''--donate-level'') (drop i args)) level"
proof (induction args i level rule: donate_scan.induct)
  case (1 args i level)
  have f: "str ''--donate-level'' @ str ''='' = str ''--donate-level=''" by (simp add: str_def)
  show ?case
    using 1 offers_drop [of i args "str ''--donate-level''"]
    by (subst donate_scan.simps) (auto simp: f split: option.splits)
qed

fun switch_offer :: "bytes \<Rightarrow> bool \<Rightarrow> offer \<Rightarrow> bool option \<times> cli_warning list \<Rightarrow> bool option \<times> cli_warning list" where
  "switch_offer flag fail_safe (Given v) st = take_value flag flag fail_safe v st"
| "switch_offer flag fail_safe Missing st = (Some fail_safe, snd st @ [No_Value flag fail_safe])"

lemma switch_scan_offers:
  "switch_scan flag fail_safe args i st = fold (switch_offer flag fail_safe) (offers flag (drop i args)) st"
proof (induction flag fail_safe args i st rule: switch_scan.induct)
  case (1 flag fail_safe args i st)
  show ?case
    using 1 offers_drop [of i args flag]
    by (subst switch_scan.simps) (auto split: option.splits)
qed

section \<open>What a switch resolves to\<close>

text \<open>The last entry that is there.\<close>

definition last_word :: "'a option list \<Rightarrow> 'a option" where
  "last_word xs = (case List.map_filter id xs of [] \<Rightarrow> None | y # ys \<Rightarrow> Some (last (y # ys)))"

lemma last_word_Nil [simp]: "last_word [] = None"
  by (simp add: last_word_def map_filter_simps)

lemma last_word_Cons [simp]: "last_word (x # xs) = opt_or (last_word xs) x"
  by (cases x) (auto simp: last_word_def map_filter_simps opt_or_def split: list.splits)

text \<open>The words of a switch. A blank value says nothing; a missing or unknown one says something
  that cannot be read.\<close>

definition switch_word :: "bytes \<Rightarrow> bool option" where
  "switch_word v =
     (let w = to_ascii_lowercase (lossy_trim v)
      in if w \<in> {str ''on'', str ''true'', str ''yes'', str ''1''} then Some True
         else if w \<in> {str ''off'', str ''false'', str ''no'', str ''0''} then Some False else None)"

fun said :: "offer \<Rightarrow> bool option option" where
  "said (Given v) = (if is_blank v then None else Some (switch_word v))"
| "said Missing = Some None"

definition env_offer :: "bytes option \<Rightarrow> offer list" where
  "env_offer env = (case env of Some v \<Rightarrow> [Given v] | None \<Rightarrow> [])"

definition resolve :: "bool \<Rightarrow> bool option \<Rightarrow> bool" where
  "resolve fail_safe w = (case w of Some b \<Rightarrow> b | None \<Rightarrow> fail_safe)"

definition readable :: "offer \<Rightarrow> bool" where
  "readable x \<longleftrightarrow> (case said x of Some (Some b) \<Rightarrow> True | _ \<Rightarrow> False)"

lemma take_value_said:
  "fst (take_value label flag fail_safe v st) = opt_or (map_option (resolve fail_safe) (said (Given v))) (fst st)"
  "(snd (take_value label flag fail_safe v st) = []) = (snd st = [] \<and> readable (Given v))"
  by (cases st, simp add: take_value_def as_bool_def switch_word_def resolve_def opt_or_def readable_def
      warn_if_empty_def Let_def split: if_splits)+

lemma switch_fold:
  "fst (fold (switch_offer flag fail_safe) xs st) =
     opt_or (map_option (resolve fail_safe) (last_word (map said xs))) (fst st) \<and>
   ((snd (fold (switch_offer flag fail_safe) xs st) = []) = (snd st = [] \<and> list_all readable xs))"
proof (induction xs arbitrary: st)
  case Nil
  then show ?case by (simp add: opt_or_def)
next
  case (Cons x xs)
  show ?case
  proof (cases x)
    case (Given v)
    then show ?thesis
      using Cons.IH [of "take_value flag flag fail_safe v st"] take_value_said [of flag flag fail_safe v st]
      by (auto simp: opt_or_def split: option.splits)
  next
    case Missing
    then show ?thesis
      using Cons.IH [of "(Some fail_safe, snd st @ [No_Value flag fail_safe])"]
      by (auto simp: opt_or_def resolve_def readable_def split: option.splits)
  qed
qed

lemma parse_switch_said:
  "fst (parse_switch_with args flag label env default_on fail_safe) =
     (case last_word (map said (env_offer env @ offers flag args)) of
        None \<Rightarrow> default_on | Some w \<Rightarrow> resolve fail_safe w) \<and>
   ((snd (parse_switch_with args flag label env default_on fail_safe) = []) =
     list_all readable (env_offer env @ offers flag args))"
proof -
  let ?st = "case env of Some v \<Rightarrow> take_value label flag fail_safe v (None, []) | None \<Rightarrow> (None, [])"
  show ?thesis
    using switch_fold [of flag fail_safe "offers flag args" ?st]
      take_value_said [of label flag fail_safe "the env" "(None, [])"]
    by (auto simp: parse_switch_with_def switch_scan_offers env_offer_def Let_def opt_or_def
        split: prod.splits option.splits)
qed

section \<open>What the pin resolves to\<close>

fun pin_text :: "offer \<Rightarrow> bytes list" where
  "pin_text (Given v) = (if is_blank v then [] else [lossy_trim v])"
| "pin_text Missing = []"

definition pin_texts :: "offer list \<Rightarrow> bytes list" where
  "pin_texts xs = concat (map pin_text xs)"

definition pin_result :: "bytes option \<Rightarrow> bytes list \<Rightarrow> bytes + bytes option" where
  "pin_result resolved texts =
     (case find (\<lambda>t. parse_cert_fingerprint t = None) texts of
        Some t \<Rightarrow> Inl t
      | None \<Rightarrow> Inr (if texts = [] then resolved else parse_cert_fingerprint (last texts)))"

lemma pin_result_Cons:
  "parse_cert_fingerprint t = Some fp \<Longrightarrow> pin_result resolved (t # ts) = pin_result (Some fp) ts"
  by (cases ts) (simp_all add: pin_result_def split: option.splits)

lemma pin_result_take:
  assumes "\<And>fp ws. fst (pin_scan args j fp ws) = pin_result fp ts"
  shows "fst (let ws = ws' in case parse_pin v of Inl e \<Rightarrow> (Inl e, ws) | Inr fp \<Rightarrow> pin_scan args j (opt_or fp resolved) ws) =
     pin_result resolved (pin_text (Given v) @ ts)"
proof (cases "is_blank v")
  case True
  then show ?thesis using assms by (simp add: parse_pin_def opt_or_def)
next
  case False
  then show ?thesis
    using assms pin_result_Cons [of "lossy_trim v" _ resolved ts]
    by (cases "parse_cert_fingerprint (lossy_trim v)") (simp_all add: parse_pin_def opt_or_def, simp add: pin_result_def)
qed

lemma pin_scan_offers:
  "fst (pin_scan args i resolved ws) = pin_result resolved (pin_texts (offers (str ''--tls-fingerprint'') (drop i args)))"
proof (induction "length args - i" arbitrary: i resolved ws rule: less_induct)
  case less
  let ?flag = "str ''--tls-fingerprint''" and ?ts = "\<lambda>j. pin_texts (offers (str ''--tls-fingerprint'') (drop j args))"
  have f: "?flag @ str ''='' = str ''--tls-fingerprint=''" by (simp add: str_def)
  show ?case
  proof (cases "i < length args")
    case True
    note off = offers_drop [OF True, of ?flag, unfolded f]
    have ih: "i < j \<Longrightarrow> fst (pin_scan args j fp ws) = pin_result fp (?ts j)" for j fp ws
      using less True by simp
    show ?thesis
    proof (cases "strip_prefix (str ''--tls-fingerprint='') (args ! i)")
      case (Some v)
      have e: "pin_scan args i resolved ws =
        (let ws = (if is_blank v then ws @ [Tls_Empty_Value] else ws)
         in case parse_pin v of Inl e \<Rightarrow> (Inl e, ws) | Inr fp \<Rightarrow> pin_scan args (i + 1) (opt_or fp resolved) ws)"
        by (subst pin_scan.simps) (simp add: True Some)
      have "fst (pin_scan args i resolved ws) = pin_result resolved (pin_text (Given v) @ ?ts (i + 1))"
        unfolding e by (rule pin_result_take [OF ih]) simp
      then show ?thesis using off Some by (simp add: pin_texts_def)
    next
      case None
      note n = None
      show ?thesis
      proof (cases "args ! i = ?flag")
        case False
        have "pin_scan args i resolved ws = pin_scan args (i + 1) resolved ws"
          by (subst pin_scan.simps) (simp add: True n False)
        then show ?thesis using ih off n False by simp
      next
        case flag: True
        show ?thesis
        proof (cases "at_index args (i + 1)")
          case None
          have "pin_scan args i resolved ws = pin_scan args (i + 2) resolved (ws @ [Tls_No_Value])"
            using None n flag by (subst pin_scan.simps) (simp add: True)
          then show ?thesis using ih [of "i + 2"] off n flag None by (simp add: pin_texts_def)
        next
          case (Some v)
          have e: "pin_scan args i resolved ws =
            (let ws = (if is_blank v then ws @ [Tls_Empty_Value] else ws)
             in case parse_pin v of Inl e \<Rightarrow> (Inl e, ws) | Inr fp \<Rightarrow> pin_scan args (i + 2) (opt_or fp resolved) ws)"
            using Some n flag by (subst pin_scan.simps) (simp add: True Let_def split: sum.split)
          have "fst (pin_scan args i resolved ws) = pin_result resolved (pin_text (Given v) @ ?ts (i + 2))"
            unfolding e by (rule pin_result_take [OF ih]) simp
          then show ?thesis using off Some n flag by (simp add: pin_texts_def)
        qed
      qed
    qed
  next
    case False
    then show ?thesis by (subst pin_scan.simps) (simp add: pin_texts_def pin_result_def)
  qed
qed

lemma parse_tls_fingerprint_result:
  "fst (parse_tls_fingerprint_with args env) =
     pin_result None (pin_texts (env_offer env @ offers (str ''--tls-fingerprint'') args))"
proof (cases env)
  case None
  then show ?thesis by (simp add: parse_tls_fingerprint_with_def env_offer_def pin_scan_offers)
next
  case (Some v)
  let ?ts = "pin_texts (offers (str ''--tls-fingerprint'') args)"
  have p: "pin_texts (env_offer env @ offers (str ''--tls-fingerprint'') args) = pin_text (Given v) @ ?ts"
    by (simp add: Some env_offer_def pin_texts_def)
  show ?thesis
    unfolding p using Some pin_result_Cons [of "lossy_trim v" _ None ?ts]
    by (cases "parse_cert_fingerprint (lossy_trim v)")
      (auto simp: parse_tls_fingerprint_with_def pin_scan_offers parse_pin_def, simp add: pin_result_def)
qed

end
