(* ===== verification/Cli_Main.thy ===== *)
theory Cli_Main
  imports Cli
begin

text \<open>
  \<open>src/bin/minertim.rs\<close>: \<open>main\<close>. From the arguments and the environment to a started \<open>Miner\<close> or
  an exit code, the Ctrl+C handler, and the line of statistics. Rates and durations are exact
  fractions; they are printed rounded to the digits shown, ties to even.
\<close>

section \<open>Reports\<close>

definition EM_DASH :: bytes where "EM_DASH = [0xE2, 0x80, 0x94]"

definition startup_state_line :: "bool \<Rightarrow> bool \<Rightarrow> bool \<Rightarrow> bytes" where
  "startup_state_line native_loop verify_shares target_has_native_loop =
     (let on_off = (\<lambda>b. if b then str ''on'' else str ''off'');
          unavailable = native_loop \<and> \<not> target_has_native_loop
      in str ''Native-loop JIT: '' @ on_off (native_loop \<and> target_has_native_loop) @ str '' ('' @
         (if unavailable then str ''requested on; unavailable on this target'' else str ''requested'') @
         str '') | share verification: '' @ on_off (verify_shares \<and> native_loop \<and> target_has_native_loop) @
         str '' '' @ EM_DASH @
         str '' requested state only; each worker reports its own effective state once its VM is built'')"

definition native_loop_disabled_warning :: "bool \<Rightarrow> bytes" where
  "native_loop_disabled_warning target_has_native_loop =
     (if target_has_native_loop
      then str ''Native-loop JIT DISABLED '' @ EM_DASH @ str '' running the per-iteration body JIT. '' @
        str ''Expect roughly 7% lower hashrate. Unset --native-loop / MINERTIM_NATIVE_LOOP to restore it.''
      else str ''Native-loop JIT unavailable on this architecture (aarch64 only).'')"

text \<open>The two warnings of \<open>main\<close>; \<open>aarch64\<close> is \<open>cfg!(target_arch = "aarch64")\<close>.\<close>

definition startup_warnings :: "bool \<Rightarrow> bool \<Rightarrow> bool \<Rightarrow> cli_warning list" where
  "startup_warnings aarch64 native_loop verify_shares =
     (let native_requested_here = native_loop \<and> aarch64
      in (if \<not> verify_shares \<and> native_requested_here then [Unverified_Native_Loop] else []) @
         (if \<not> native_loop then [Native_Loop_Disabled (native_loop_disabled_warning aarch64)] else []))"

section \<open>From arguments to settings\<close>

record cli_env =
  ce_fingerprint :: "bytes option"
  ce_native_loop :: "bytes option"
  ce_verify_shares :: "bytes option"

record cli_config =
  cc_pool :: bytes
  cc_wallet :: bytes
  cc_threads :: u32
  cc_donate_level :: nat
  cc_fingerprint :: "bytes option"
  cc_native_loop :: bool
  cc_verify_shares :: bool

text \<open>How the process ends before it mines. \<open>No_Program_Name\<close> is the panic of \<open>args[0]\<close> in the
  usage text.\<close>

datatype cli_exit =
    No_Program_Name
  | Usage_Shown nat
  | Malformed_Pin bytes
  | Init_Failed miner_error
  | Start_Failed miner_error

fun exit_code :: "cli_exit \<Rightarrow> nat" where
  "exit_code No_Program_Name = 101"
| "exit_code (Usage_Shown code) = code"
| "exit_code (Malformed_Pin v) = 2"
| "exit_code (Init_Failed e) = 1"
| "exit_code (Start_Failed e) = 1"

definition parse_threads :: "u32 option \<Rightarrow> bytes list \<Rightarrow> u32" where
  "parse_threads cores args =
     (case Option.bind (at_index args 3)
        (\<lambda>s. if take 1 s = str ''-'' then None else parse_uint (2 ^ 32 - 1) s) of
        Some n \<Rightarrow> of_nat n
      | None \<Rightarrow> recommended_thread_count cores)"

definition parse_cli ::
  "u32 option \<Rightarrow> cli_env \<Rightarrow> bytes list \<Rightarrow> (cli_exit + cli_config) \<times> cli_warning list" where
  "parse_cli cores env args =
     (if length args < 3 \<or> list_ex (\<lambda>a. a = str ''--help'' \<or> a = str ''-h'') args
      then (Inl (if args = [] then No_Program_Name else Usage_Shown (if length args < 3 then 1 else 0)), [])
      else case parse_tls_fingerprint args (ce_fingerprint env) of
             (Inl e, ws) \<Rightarrow> (Inl (Malformed_Pin e), ws)
           | (Inr tls_fingerprint, ws) \<Rightarrow>
               let (native_loop, ws1) = parse_native_loop args (ce_native_loop env);
                   (verify_shares, ws2) = parse_verify_shares args (ce_verify_shares env)
               in (Inr \<lparr>cc_pool = args ! 1, cc_wallet = args ! 2, cc_threads = parse_threads cores args,
                     cc_donate_level = parse_donate_level args, cc_fingerprint = tls_fingerprint,
                     cc_native_loop = native_loop, cc_verify_shares = verify_shares\<rparr>, ws @ ws1 @ ws2))"

section \<open>Starting\<close>

definition cli_start ::
  "bool \<Rightarrow> 'v json_api \<Rightarrow> bytes \<Rightarrow> webpki \<Rightarrow> cli_env \<Rightarrow> init_env \<Rightarrow> (nat \<Rightarrow> bool) \<Rightarrow> rat \<Rightarrow> u64 \<Rightarrow>
     bytes list \<Rightarrow> (cli_exit + miner) \<times> cli_warning list" where
  "cli_start aarch64 api agent pki env ienv spawns now now_ms args =
     (case parse_cli (ie_cores ienv) env args of
        (Inl e, ws) \<Rightarrow> (Inl e, ws)
      | (Inr c, ws) \<Rightarrow>
          let m = miner_new False;
              m = miner_set_native_loop (cc_native_loop c) m;
              m = miner_set_verify_shares (cc_verify_shares c) m;
              ws = ws @ startup_warnings aarch64 (cc_native_loop c) (cc_verify_shares c)
          in case initialize api agent pki ienv (cc_pool c) (cc_wallet c) (cc_threads c)
                 (cc_donate_level c) (cc_fingerprint c) m of
               (Inl e, m) \<Rightarrow> (Inl (Init_Failed e), ws)
             | (Inr _, m) \<Rightarrow>
                 (case start spawns now now_ms (m\<lparr>m_active := True\<rparr>) of
                    (Inl e, m) \<Rightarrow> (Inl (Start_Failed e), ws)
                  | (Inr _, m) \<Rightarrow> (Inr m, ws)))"

text \<open>The handler of Ctrl+C: the process ends at once when nothing is mined yet.\<close>

definition ctrl_c :: "miner \<Rightarrow> nat option \<times> miner" where
  "ctrl_c m = (if \<not> m_active m then (Some 0, m) else (None, m\<lparr>m_active := False\<rparr>))"

section \<open>The line of statistics\<close>

fun decimal :: "nat \<Rightarrow> bytes" where
  "decimal n = (if n < 10 then [0x30 + of_nat n] else decimal (n div 10) @ [0x30 + of_nat (n mod 10)])"

declare decimal.simps [simp del]

definition round_half_even :: "rat \<Rightarrow> int" where
  "round_half_even x =
     (let f = floor x; d = x - of_int f
      in if d < 1 / 2 then f else if 1 / 2 < d then f + 1 else if even f then f else f + 1)"

text \<open>\<open>{:.0}\<close> and \<open>{:.1}\<close> for a value that is not negative.\<close>

definition fixed0 :: "rat \<Rightarrow> bytes" where
  "fixed0 x = decimal (nat (round_half_even x))"

definition fixed1 :: "rat \<Rightarrow> bytes" where
  "fixed1 x = (let n = nat (round_half_even (x * 10)) in decimal (n div 10) @ str ''.'' @ decimal (n mod 10))"

definition format_duration :: "rat \<Rightarrow> bytes" where
  "format_duration secs =
     (let secs = min (nat (floor (max secs 0))) (2 ^ 64 - 1)
      in if secs < 60 then decimal secs @ str ''s''
         else if secs < 3600 then decimal (secs div 60) @ str ''m'' @ decimal (secs mod 60) @ str ''s''
         else decimal (secs div 3600) @ str ''h'' @ decimal (secs mod 3600 div 60) @ str ''m'')"

definition fmt_rate :: "rat option \<Rightarrow> bytes" where
  "fmt_rate r = (case r of Some v \<Rightarrow> fixed1 v | None \<Rightarrow> str ''-'')"

text \<open>The share of the target that the best value reaches, at most 999%. A best value of zero is a
  division by zero, which is infinite in the code.\<close>

definition progress :: "u64 \<Rightarrow> u32 \<Rightarrow> bytes" where
  "progress difficulty best =
     (let target_val = (if difficulty = 0 then 0 else 0xFFFFFFFF div difficulty)
      in if 0 < target_val \<and> best < 0xFFFFFFFF
         then let pct = (if best = 0 then 999
                         else min (of_nat (unat target_val) / of_nat (unat best) * 100) 999)
           in str ''best='' @ decimal (unat best) @ str '' target='' @ decimal (unat target_val) @
              str '' ('' @ fixed0 pct @ str ''%)''
         else str ''waiting'')"

text \<open>A field that is shown only when it is not zero.\<close>

definition nonzero_field :: "string \<Rightarrow> nat \<Rightarrow> bytes" where
  "nonzero_field name n = (if 0 < n then str ('' ('' @ name @ '':'') @ decimal n @ str '')'' else [])"

definition avg_share_secs :: "hashrate_snapshot \<Rightarrow> u64 \<Rightarrow> rat option" where
  "avg_share_secs snap difficulty =
     (let current = (case opt_or (rate_1m snap) (rate_5m snap) of Some r \<Rightarrow> r | None \<Rightarrow> 0)
      in if 0 < current \<and> 0 < difficulty then Some (of_nat (unat difficulty) / current) else None)"

definition duration_or_unknown :: "rat option \<Rightarrow> bytes" where
  "duration_or_unknown secs = (case secs of Some e \<Rightarrow> format_duration e | None \<Rightarrow> str ''?'')"

definition stats_line :: "hashrate_snapshot \<Rightarrow> share_stats \<Rightarrow> miner \<Rightarrow> bytes" where
  "stats_line snap shares m =
     str ''H/s 1m:'' @ fmt_rate (rate_1m snap) @ str '' 5m:'' @ fmt_rate (rate_5m snap) @
     str '' 10m:'' @ fmt_rate (rate_10m snap) @
     str '' | Shares: '' @ decimal (unat (get_accepted_shares m)) @ str ''/'' @
     decimal (unat (get_rejected_shares m)) @ nonzero_field ''lost'' (unat (get_lost_shares m)) @
     nonzero_field ''unsent'' (unat (get_unsent_shares m)) @ nonzero_field ''pending'' (miner_pending_shares m) @
     str '' (found:'' @ decimal (unat (total_found shares)) @ str '') | Diff: '' @
     decimal (unat (get_difficulty m)) @ str '' | '' @
     duration_or_unknown (last_found_elapsed_secs shares) @ str '' elapsed ('' @
     (if 0 < total_found shares then str ''since last share'' else str ''no shares yet'') @
     str '', avg '' @ duration_or_unknown (avg_share_secs snap (get_difficulty m)) @ str '') | '' @
     progress (get_difficulty m) (get_best_hash_val m)"

text \<open>One turn of the loop: whether withheld shares are reported, and the line.\<close>

definition stats_tick :: "rat \<Rightarrow> u64 \<Rightarrow> miner \<Rightarrow> (u64 option \<times> bytes) \<times> miner" where
  "stats_tick now now_ms m =
     (let (snap, m) = snapshot_hashrates now m;
          verify_failures = get_verify_failures m
      in ((if 0 < verify_failures then Some verify_failures else None,
           stats_line snap (get_share_stats now_ms m) m), m))"

text \<open>The loop. A turn has the flag before and after the sleep, what the other threads did to the
  shared counters meanwhile, and the two clocks. Once the flag is down the miner is stopped.\<close>

record stats_turn =
  st_running :: bool
  st_others :: "miner \<Rightarrow> miner"
  st_still_running :: bool
  st_now :: rat
  st_now_ms :: u64

fun stats_loop ::
  "stats_turn list \<Rightarrow> miner \<Rightarrow> (u64 option \<times> bytes) list \<Rightarrow> (u64 option \<times> bytes) list \<times> bool \<times> miner" where
  "stats_loop [] m out = (out, False, m)"
| "stats_loop (t # ts) m out =
     (if \<not> st_running t then (out, True, stop m)
      else if \<not> st_still_running t then (out, True, stop (st_others t m))
      else let (line, m) = stats_tick (st_now t) (st_now_ms t) (st_others t m) in stats_loop ts m (out @ [line]))"

definition final_line :: "miner \<Rightarrow> bytes" where
  "final_line m =
     str ''Miner stopped. Final stats: '' @ decimal (unat (get_accepted_shares m)) @ str '' accepted, '' @
     decimal (unat (get_rejected_shares m)) @ str '' rejected, '' @ decimal (unat (get_lost_shares m)) @
     str '' lost, '' @ decimal (unat (get_unsent_shares m)) @ str '' unsent, '' @
     decimal (miner_pending_shares m) @ str '' pending''"

section \<open>Numbers read back\<close>

lemma digits_value_snoc: "digits_value (ds @ [d]) = digits_value ds * 10 + unat (d - 0x30)"
  by (simp add: digits_value_def)

lemma digit_value: "n < 10 \<Longrightarrow> unat ((0x30 + of_nat n :: u8) - 0x30) = n \<and> is_digit (0x30 + of_nat n) \<and> 0x30 + of_nat n \<noteq> (0x2B :: u8)"
proof -
  assume "n < 10"
  then have "n = 0 \<or> n = 1 \<or> n = 2 \<or> n = 3 \<or> n = 4 \<or> n = 5 \<or> n = 6 \<or> n = 7 \<or> n = 8 \<or> n = 9" by arith
  then show ?thesis by (elim disjE; simp add: is_digit_def)
qed

lemma decimal_digits: "decimal n \<noteq> [] \<and> list_all is_digit (decimal n) \<and> digits_value (decimal n) = n \<and> hd (decimal n) \<noteq> 0x2B"
proof (induction n rule: decimal.induct)
  case (1 n)
  show ?case
  proof (cases "n < 10")
    case True
    then show ?thesis using digit_value [of n] by (subst (1 2 3 4) decimal.simps) (simp add: digits_value_def)
  next
    case False
    have e: "decimal n = decimal (n div 10) @ [0x30 + of_nat (n mod 10)]" using False by (simp add: decimal.simps [of n])
    show ?thesis unfolding e using 1 [OF False] digit_value [of "n mod 10"] by (simp add: digits_value_snoc)
  qed
qed

lemma parse_decimal: "parse_uint largest (decimal n) = (if n \<le> largest then Some n else None)"
  using decimal_digits [of n] by (cases "decimal n") (auto simp: parse_uint_def)

section \<open>A started miner\<close>

lemma login_job_keeps [simp]: "donation (login_job api v p) = donation p" "tls_verifier (login_job api v p) = tls_verifier p"
  using login_job_frame [of api v p] by (auto simp: install_job_def)

lemma login_keeps_schedule:
  assumes "login api agent env w p = (Inr (), p')"
  shows "donation p' = donation p \<and> tls_verifier p' = tls_verifier p"
proof -
  obtain v p3 where r: "send_request api env (str ''login'') (login_params agent w) (begin_login w p) = (Inr v, p3)"
      and lr: "login_reply api v p3 = (Inr (), p')"
    using assms by (auto simp: login_def split: prod.splits sum.splits)
  show ?thesis using send_request_frame [OF r] lr
    by (auto simp: login_reply_def begin_login_def split: sum.splits prod.splits)
qed

lemma connect_login_keeps_schedule:
  assumes "connect_login api agent cenv lenv addr w p = (Inr (), p')"
  shows "donation p' = donation p \<and> tls_verifier p' = tls_verifier p"
proof -
  obtain p1 where c: "connect cenv addr p = (Inr (), p1)" and l: "login api agent lenv w p1 = (Inr (), p')"
    using assms by (auto simp: connect_login_def split: prod.splits sum.splits)
  have "donation p1 = donation p \<and> tls_verifier p1 = tls_verifier p"
    using c by (auto simp: connect_def install_stream_def split: sum.splits)
  then show ?thesis using login_keeps_schedule [OF l] by simp
qed

lemma start_pool_keeps:
  "donation (reset_share_counters (snd (receiver_start sets now p))) = donation p"
  "tls_verifier (reset_share_counters (snd (receiver_start sets now p))) = tls_verifier p"
  by (simp_all add: reset_share_counters_def receiver_start_def set_read_timeout_def split: option.splits)

lemma parse_cli_config:
  assumes "parse_cli cores env args = (Inr c, ws)"
  shows "3 \<le> length args" "cc_pool c = args ! 1" "cc_wallet c = args ! 2" "cc_threads c = parse_threads cores args"
    "cc_donate_level c = parse_donate_level args"
    "fst (parse_tls_fingerprint args (ce_fingerprint env)) = Inr (cc_fingerprint c)"
    "cc_native_loop c = fst (parse_native_loop args (ce_native_loop env))"
    "cc_verify_shares c = fst (parse_verify_shares args (ce_verify_shares env))"
  using assms by (auto simp: parse_cli_def Let_def split: if_splits prod.splits sum.splits)

lemma cli_started:
  assumes "cli_start aarch64 api agent pki env ienv spawns now now_ms args = (Inr m, ws)"
  obtains c p where "fst (parse_cli (ie_cores ienv) env args) = Inr c"
    "connect_login api agent (ie_connect ienv) (ie_login ienv) (cc_pool c) (cc_wallet c)
      (with_tls_fingerprint pki (cc_donate_level c) (cc_fingerprint c)) = (Inr (), p)"
    "m_pool m = Some (reset_share_counters (snd (receiver_start (ie_sets_timeout ienv) (ie_now ienv) p)))"
    "m_thread_count m = clamp_u32 (cc_threads c) 1 (parallelism (ie_cores ienv))"
    "m_workers m = [0..<unat (m_thread_count m)]" "m_native_loop m = cc_native_loop c"
    "m_verify_shares m = cc_verify_shares c" "m_active m" "m_stats m = Some (stats_new now_ms)"
proof -
  obtain c ws1 m1 where c: "parse_cli (ie_cores ienv) env args = (Inr c, ws1)"
    "initialize api agent pki ienv (cc_pool c) (cc_wallet c) (cc_threads c) (cc_donate_level c) (cc_fingerprint c)
      (miner_set_verify_shares (cc_verify_shares c) (miner_set_native_loop (cc_native_loop c) (miner_new False))) = (Inr (), m1)"
    "start spawns now now_ms (m1\<lparr>m_active := True\<rparr>) = (Inr (), m)"
    using assms by (auto simp: cli_start_def Let_def split: prod.splits sum.splits)
  have act: "m_active m" using c(3) by (auto simp: start_def Let_def split: option.splits prod.splits sum.splits)
  obtain p where "connect_login api agent (ie_connect ienv) (ie_login ienv) (cc_pool c) (cc_wallet c)
      (with_tls_fingerprint pki (cc_donate_level c) (cc_fingerprint c)) = (Inr (), p)"
    "m_pool m1 = Some (reset_share_counters (snd (receiver_start (ie_sets_timeout ienv) (ie_now ienv) p)))"
    "m_thread_count m1 = clamp_u32 (cc_threads c) 1 (parallelism (ie_cores ienv))"
    "m_native_loop m1 = cc_native_loop c" "m_verify_shares m1 = cc_verify_shares c" "m_workers m1 = []"
    using initialize_run [OF c(2)]
    by (auto simp: miner_set_verify_shares_def miner_set_native_loop_def miner_new_def)
  then show thesis using that [of c p] c(1) start_result [OF c(3)] act by simp
qed

lemma started_pin:
  assumes "cli_start aarch64 api agent pki env ienv spawns now now_ms args = (Inr m, ws)"
  shows "\<exists>pin p. pin_result None (pin_texts (env_offer (env_var (ce_fingerprint env)) @
        offers (str ''--tls-fingerprint'') args)) = Inr pin \<and> m_pool m = Some p \<and>
      tls_verifier p = server_verifier pki pin \<and> donation p = donation_new (parse_donate_level args) \<and>
      (\<forall>n. reachable api agent author xmrig pki (parse_donate_level args) pin n (start_sys n p))"
proof -
  obtain c p where c: "fst (parse_cli (ie_cores ienv) env args) = Inr c"
    and p: "connect_login api agent (ie_connect ienv) (ie_login ienv) (cc_pool c) (cc_wallet c)
      (with_tls_fingerprint pki (cc_donate_level c) (cc_fingerprint c)) = (Inr (), p)"
    "m_pool m = Some (reset_share_counters (snd (receiver_start (ie_sets_timeout ienv) (ie_now ienv) p)))"
    using cli_started [OF assms] by metis
  obtain ws' where c': "parse_cli (ie_cores ienv) env args = (Inr c, ws')" using c by (cases "parse_cli (ie_cores ienv) env args") auto
  note cfg = parse_cli_config [OF c']
  have pin: "pin_result None (pin_texts (env_offer (env_var (ce_fingerprint env)) @ offers (str ''--tls-fingerprint'') args)) =
      Inr (cc_fingerprint c)"
    using cfg(6) parse_tls_fingerprint_result [of args "env_var (ce_fingerprint env)"] by (simp add: parse_tls_fingerprint_def)
  have "reachable api agent author xmrig pki (parse_donate_level args) (cc_fingerprint c) n
      (start_sys n (reset_share_counters (snd (receiver_start (ie_sets_timeout ienv) (ie_now ienv) p))))" for n
    using reachable.Start [OF p(1) refl] cfg(5) by metis
  then show ?thesis
    using pin p connect_login_keeps_schedule [OF p(1)] cfg(5) by (auto simp: start_pool_keeps with_tls_fingerprint_def)
qed

lemma pin_result_32: "pin_result None texts = Inr (Some fp) \<Longrightarrow> length fp = 32"
  by (auto simp: pin_result_def parse_cert_fingerprint_iff split: option.splits if_splits)

lemma pin_result_given:
  assumes "texts \<noteq> []" "pin_result None texts = Inr pin"
  shows "\<exists>fp. pin = Some fp \<and> parse_cert_fingerprint (last texts) = Some fp"
proof -
  have "find (\<lambda>t. parse_cert_fingerprint t = None) texts = None" "pin = parse_cert_fingerprint (last texts)"
    using assms by (auto simp: pin_result_def split: option.splits)
  then show ?thesis using assms(1) by (auto simp: find_None_iff)
qed

end
