(* ===== verification/Cli_Sample.thy ===== *)
theory Cli_Sample
  imports Cli_Main Miner_Sample
begin

text \<open>
  A start of the program with concrete arguments: a pinned pool that answers the login, on a
  machine with four cores.
\<close>

lemma sample_login_any:
  "\<exists>p. connect_login sample_api [] sample_connect sample_login_env [1] [2]
     (with_tls_fingerprint sample_pki 5 (Some fp)) = (Inr (), p)"
proof -
  let ?new = "with_tls_fingerprint sample_pki 5 (Some fp)"
  have st: "open_stream sample_connect (pinned_fingerprint ?new) [1] =
      Inr (Tls \<lparr>read_timeout = 30000, write_timeout = 10000, nodelay = True, written = []\<rparr>)"
    unfolding with_tls_fingerprint_def by (simp add: sample_connects)
  have parse: "json_parse sample_api [0x4C] = Some sample_login" by (simp add: sample_api_def)
  have env: "login_write sample_login_env = Written" "login_sets_timeout sample_login_env = True"
    "login_reads sample_login_env = sample_reads" by (simp_all add: sample_login_env_def)
  show ?thesis
    unfolding connect_login_def connect_def st
    by (simp add: login_def send_request_def next_request_id_def env sample_read_line parse
        login_reply_def sample_session begin_login_def install_stream_def with_tls_fingerprint_def)
qed

definition sample_args :: "bytes list" where
  "sample_args = [str ''minertim'', [1], [2], str ''--tls-fingerprint'', replicate 64 0x61]"

definition sample_env :: cli_env where
  "sample_env = \<lparr>ce_fingerprint = None, ce_native_loop = None, ce_verify_shares = Some (str ''of'')\<rparr>"

definition sample_init :: init_env where
  "sample_init = \<lparr>ie_cores = Some 4, ie_connect = sample_connect, ie_login = sample_login_env,
     ie_sets_timeout = True, ie_now = 0\<rparr>"

lemma sample_pin:
  "pin_texts (env_offer (env_var (ce_fingerprint sample_env)) @ offers (str ''--tls-fingerprint'') sample_args) =
     [replicate 64 0x61]"
  "parse_cert_fingerprint (replicate 64 0x61) = Some (replicate 32 0xAA)"
  by code_simp+

lemma sample_settings:
  "parse_donate_level sample_args = 5" "parse_threads (Some 4) sample_args = 3"
  "fst (parse_native_loop sample_args None) = True" "fst (parse_verify_shares sample_args (Some (str ''of''))) = True"
  "list_ex (\<lambda>a. a = str ''--help'' \<or> a = str ''-h'') sample_args = False"
  by code_simp+

lemma sample_cli_start:
  "\<exists>m ws. cli_start True sample_api [] sample_pki sample_env sample_init (\<lambda>_. True) 0 100 sample_args = (Inr m, ws)"
proof -
  have pin: "fst (parse_tls_fingerprint sample_args (ce_fingerprint sample_env)) = Inr (Some (replicate 32 0xAA))"
    unfolding parse_tls_fingerprint_def parse_tls_fingerprint_result sample_pin(1)
    by (simp add: pin_result_def sample_pin(2))
  have a: "length sample_args = 5" "sample_args ! 1 = [1]" "sample_args ! 2 = [2]" by (simp_all add: sample_args_def)
  have "\<exists>c ws. parse_cli (ie_cores sample_init) sample_env sample_args = (Inr c, ws)"
    using pin sample_settings(5) a(1)
    by (cases "parse_tls_fingerprint sample_args (ce_fingerprint sample_env)") (auto simp: parse_cli_def Let_def split: prod.split)
  then obtain c ws where c1: "parse_cli (ie_cores sample_init) sample_env sample_args = (Inr c, ws)" by blast
  note cfg = parse_cli_config [OF c1]
  have c: "parse_cli (ie_cores sample_init) sample_env sample_args = (Inr c, ws)"
    "cc_pool c = [1]" "cc_wallet c = [2]" "cc_donate_level c = 5" "cc_fingerprint c = Some (replicate 32 0xAA)"
    using c1 cfg pin a sample_settings(1) by simp_all
  let ?m = "miner_set_verify_shares (cc_verify_shares c) (miner_set_native_loop (cc_native_loop c) (miner_new False))"
  have "fst (initialize sample_api [] sample_pki sample_init (cc_pool c) (cc_wallet c) (cc_threads c)
      (cc_donate_level c) (cc_fingerprint c) ?m) = Inr ()"
  proof -
    obtain p where "connect_login sample_api [] (ie_connect sample_init) (ie_login sample_init) (cc_pool c) (cc_wallet c)
        (with_tls_fingerprint sample_pki (cc_donate_level c) (cc_fingerprint c)) = (Inr (), p)"
      using sample_login_any [of "replicate 32 0xAA"] c by (auto simp: sample_init_def)
    then show ?thesis by (rule initialize_ok)
  qed
  then obtain m1 where m1: "initialize sample_api [] sample_pki sample_init (cc_pool c) (cc_wallet c) (cc_threads c)
      (cc_donate_level c) (cc_fingerprint c) ?m = (Inr (), m1)" by (metis prod.collapse)
  then obtain p where "m_pool (m1\<lparr>m_active := True\<rparr>) = Some p" using initialize_run [OF m1] by auto
  then obtain m2 where m2: "start (\<lambda>_. True) 0 100 (m1\<lparr>m_active := True\<rparr>) = (Inr (), m2)" using start_ok by blast
  show ?thesis unfolding cli_start_def c(1) by (simp add: m1 m2)
qed

section \<open>Two values that are ignored\<close>

text \<open>A level that does not fit in a byte is not brought into the range: the default stays.\<close>

lemma level_above_a_byte_is_ignored:
  "parse_donate_level [str ''minertim'', [1], [2], str ''--donate-level=255''] = 100"
  "parse_donate_level [str ''minertim'', [1], [2], str ''--donate-level=300''] = 5"
  by code_simp+

text \<open>A pin in the environment that is not UTF-8 counts as unset, without a warning.\<close>

lemma unreadable_pin_is_ignored:
  "from_utf8 raw = None \<Longrightarrow> parse_tls_fingerprint args (Some raw) = parse_tls_fingerprint args None"
  by (simp add: parse_tls_fingerprint_def env_var_def)

end
