(* ===== verification/Pool_Traffic.thy ===== *)
theory Pool_Traffic
  imports Pool_Wire
begin

text \<open>
  The request ids on the wire (\<open>next_request_id\<close>, \<open>write_request\<close> and their callers in
  \<open>src/pool_connection.rs\<close>): no two requests on a stream bear the same id, whatever their methods,
  none bears the id that a worker is about to use, and the id of a share that was written is on the
  stream as that share's \<open>submit\<close>. So an answer's id tells which request it answers.
\<close>

section \<open>What an operation appends\<close>

definition on_wire :: "pool \<Rightarrow> rpc_request list" where
  "on_wire p = (case stream p of None \<Rightarrow> [] | Some st \<Rightarrow> written (stream_tcp st))"

definition wire_ids :: "pool \<Rightarrow> u64 multiset" where
  "wire_ids p = mset (map rq_id (on_wire p))"

lemma on_wire_timeout [simp]: "on_wire (set_read_timeout ok ms p) = on_wire p"
  by (auto simp: on_wire_def set_read_timeout_def split: option.splits)

lemma write_request_wire:
  "write_request w rq s = (r, s') \<Longrightarrow>
     written (stream_tcp s') = written (stream_tcp s) @ (if r = Inr () \<or> r = Inl Flush_Error then [rq] else [])"
  by (cases w) auto

lemma write_submit_wire:
  "write_submit w rid params g p = (r, p') \<Longrightarrow>
     on_wire p' = on_wire p @ (if r = Inr () \<or> r = Inl Flush_Error
       then [\<lparr>rq_id = rid, rq_method = str ''submit'', rq_params = params\<rparr>] else [])"
  by (auto simp: write_submit_def on_wire_def split: option.splits if_splits prod.splits
      dest!: write_request_wire)

text \<open>\<open>send_message\<close> and \<open>send_request\<close> append at most one request, under the next id.\<close>

definition one_more :: "pool \<Rightarrow> pool \<Rightarrow> bool" where
  "one_more p p' \<longleftrightarrow> on_wire p' = on_wire p \<or>
     stream p \<noteq> None \<and> (\<exists>rq. on_wire p' = on_wire p @ [rq] \<and> rq_id rq = request_id p)"

lemma send_message_wire: "send_message w m params p = (r, p') \<Longrightarrow> one_more p p'"
  by (cases w) (auto simp: send_message_def next_request_id_def on_wire_def one_more_def split: option.splits prod.splits)

lemma send_request_wire:
  assumes "send_request api env m params p = (r, p')"
  shows "one_more p p'"
proof (cases "stream p")
  case None
  then show ?thesis using assms by (auto simp: send_request_def one_more_def)
next
  case (Some s)
  let ?rq = "\<lparr>rq_id = request_id p, rq_method = m, rq_params = params\<rparr>"
  obtain r1 s1 where w: "write_request (login_write env) ?rq s = (r1, s1)" by fastforce
  let ?p1 = "p\<lparr>request_id := request_id p + 1, stream := Some s1\<rparr>"
  have "on_wire p' = on_wire ?p1"
    using assms Some w
    by (auto simp: send_request_def next_request_id_def Let_def split: sum.splits option.splits)
  moreover have "on_wire ?p1 = on_wire p @ (if r1 = Inr () \<or> r1 = Inl Flush_Error then [?rq] else [])"
    using write_request_wire [OF w] Some by (simp add: on_wire_def)
  ultimately show ?thesis using Some by (auto simp: one_more_def)
qed

lemma open_stream_wire: "open_stream env pin addr = Inr st \<Longrightarrow> written (stream_tcp st) = []"
  by (auto simp: open_stream_def Let_def split: if_splits)

section \<open>The invariant\<close>

definition submit_for :: "u64 \<Rightarrow> arc_job \<Rightarrow> rpc_request \<Rightarrow> bool" where
  "submit_for rid a rq \<longleftrightarrow> rq_id rq = rid \<and> rq_method rq = str ''submit'' \<and>
     called_for (\<lambda>_ _ _. True) a (rq_params rq)"

definition sent_on_wire :: "'v sys \<Rightarrow> bool" where
  "sent_on_wire s \<longleftrightarrow> (\<forall>(rid, e, a) \<in> set (sent s). e \<le> epoch s \<and>
     (e = epoch s \<and> stream (sp s) \<noteq> None \<longrightarrow> (\<exists>rq \<in> set (on_wire (sp s)). submit_for rid a rq)))"

definition inv_traffic :: "'v sys \<Rightarrow> bool" where
  "inv_traffic s \<longleftrightarrow>
     (drawn s < 2 ^ 64 \<longrightarrow> ids_inv (drawn s) (wire_ids (sp s)) (sum_list (map held_id (subs s))) {#}) \<and>
     sent_on_wire s \<and> (\<forall>st. opened (recv s) = Some st \<longrightarrow> written (stream_tcp st) = [])"

lemma ids_fresh_wire: "ids_inv d S H B \<Longrightarrow> ids_inv d {#} H {#}"
  unfolding ids_inv_def by (auto simp: unique_def intro: add_leD2)

text \<open>A step that leaves the workers alone and appends at most one request.\<close>

lemma traffic_recv:
  assumes t: "inv_traffic s" and n: "request_id (sp s) = of_nat (drawn s) + 1"
    and m: "one_more (sp s) (sp s')" "stream (sp s') = None \<longleftrightarrow> stream (sp s) = None"
    and same: "subs s' = subs s" "sent s' = sent s" "epoch s' = epoch s"
    and d: "drawn s' = drawn s + (if on_wire (sp s') = on_wire (sp s) then k else 1)"
    and open': "\<And>st. opened (recv s') = Some st \<Longrightarrow> written (stream_tcp st) = []"
  shows "inv_traffic s'"
proof -
  have ids: "ids_inv (drawn s') (wire_ids (sp s')) (sum_list (map held_id (subs s'))) {#}" if b: "drawn s' < 2 ^ 64"
  proof -
    have i: "ids_inv (drawn s) (wire_ids (sp s)) (sum_list (map held_id (subs s))) {#}"
      using t b d by (simp add: inv_traffic_def split: if_splits)
    show ?thesis
    proof (cases "on_wire (sp s') = on_wire (sp s)")
      case True
      then show ?thesis using ids_mono [OF i, of "drawn s'"] d same(1) by (simp add: wire_ids_def)
    next
      case False
      then obtain rq where rq: "on_wire (sp s') = on_wire (sp s) @ [rq]" "rq_id rq = of_nat (drawn s) + 1"
        using m(1) n by (auto simp: one_more_def)
      then have "drawn s' = Suc (drawn s)" using d by simp
      moreover have "wire_ids (sp s') = add_mset (of_nat (drawn s) + 1) (wire_ids (sp s))"
        by (simp add: wire_ids_def rq)
      ultimately show ?thesis using ids_flush [OF ids_draw [OF i]] b same(1) by simp
    qed
  qed
  have "set (on_wire (sp s)) \<subseteq> set (on_wire (sp s'))" using m(1) by (auto simp: one_more_def)
  then have "sent_on_wire s'" using t m(2) same unfolding inv_traffic_def sent_on_wire_def by fastforce
  then show ?thesis using ids open' by (simp add: inv_traffic_def)
qed

text \<open>A step after which the stream is gone, or is a new one.\<close>

lemma traffic_new:
  assumes t: "inv_traffic s" and w: "on_wire (sp s') = []" "stream (sp s') = None \<or> epoch s < epoch s'"
    and same: "subs s' = subs s" "sent s' = sent s" "epoch s \<le> epoch s'" "drawn s' = drawn s"
    and open': "\<And>st. opened (recv s') = Some st \<Longrightarrow> written (stream_tcp st) = []"
  shows "inv_traffic s'"
proof -
  have "ids_inv (drawn s') (wire_ids (sp s')) (sum_list (map held_id (subs s'))) {#}" if "drawn s' < 2 ^ 64"
    using t that same w(1) ids_fresh_wire by (auto simp: inv_traffic_def wire_ids_def)
  moreover have "sent_on_wire s'"
    using t w(2) same unfolding inv_traffic_def sent_on_wire_def by fastforce
  ultimately show ?thesis using open' by (simp add: inv_traffic_def)
qed

text \<open>The workers' calls: \<open>inv_wire\<close> of the weakest kind.\<close>

lemma sub_step_called:
  assumes "sub_step i s s'" "inv_wire (\<lambda>_ _ _. True) s"
  shows "inv_wire (\<lambda>_ _ _. True) s'"
proof (cases "in_call (subs s ! i)")
  case True
  then show ?thesis using sub_step_wire assms by blast
next
  case False
  then obtain a where a: "subs s ! i = Working a" by (auto simp: in_call_def)
  show ?thesis using assms(1)
  proof cases
    case Give_Up
    then show ?thesis using assms(2)
      by (auto simp: inv_wire_def set_sub_def dest!: subsetD [OF set_update_subset_insert])
  next
    case Enter
    then show ?thesis using assms(2)
      by (auto simp: inv_wire_def set_sub_def dest!: subsetD [OF set_update_subset_insert])
  qed (use a in \<open>simp_all add: at_sub_def\<close>)
qed

section \<open>Steps\<close>

lemma traffic_write:
  assumes t: "inv_traffic s" and pc: "at_sub i (Holding k a nonce params rid) s" "held_id x = {#}"
    and w: "write_submit w rid params g (sp s) = (r, p)" and called: "called_for (\<lambda>_ _ _. True) a params"
    and sent': "sent s' = (if r = Inr () \<or> r = Inl Flush_Error then [(rid, epoch s, a)] else []) @ sent s"
    and same: "sp s' = p" "subs s' = (subs s)[i := x]" "drawn s' = drawn s" "epoch s' = epoch s" "recv s' = recv s"
  shows "inv_traffic s'"
proof -
  let ?rq = "\<lparr>rq_id = rid, rq_method = str ''submit'', rq_params = params\<rparr>"
  let ?H = "sum_list (map held_id ((subs s)[i := x]))"
  note wire = write_submit_wire [OF w]
  have i: "i < length (subs s)" "subs s ! i = Holding k a nonce params rid" using pc(1) by (simp_all add: at_sub_def)
  have h: "sum_list (map held_id (subs s)) = add_mset rid ?H" using sum_loss [OF i(1), of held_id x] i(2) pc(2) by simp
  have str: "stream p = None \<longleftrightarrow> stream (sp s) = None" using write_submit_frame [OF w] by auto
  have ids: "ids_inv (drawn s) (wire_ids p) ?H {#}" if "drawn s < 2 ^ 64"
  proof -
    have old: "ids_inv (drawn s) (wire_ids (sp s)) (add_mset rid ?H) {#}" using t that h by (simp add: inv_traffic_def)
    show ?thesis
    proof (cases "r = Inr () \<or> r = Inl Flush_Error")
      case True
      then have "wire_ids p = add_mset rid (wire_ids (sp s))" using wire by (auto simp: wire_ids_def)
      then show ?thesis using ids_flush [OF old] by simp
    next
      case False
      then have "wire_ids p = wire_ids (sp s)" using wire by (simp add: wire_ids_def)
      then show ?thesis using ids_mono [OF old, of "drawn s" ?H "{#}"] by simp
    qed
  qed
  have "submit_for rid a ?rq" using called by (simp add: submit_for_def)
  moreover have "set (on_wire p) = set (on_wire (sp s)) \<union> (if r = Inr () \<or> r = Inl Flush_Error then {?rq} else {})"
    using wire by auto
  ultimately have "sent_on_wire s'" using t str sent' same(1, 4) unfolding inv_traffic_def sent_on_wire_def by fastforce
  then show ?thesis using t ids same by (simp add: inv_traffic_def)
qed

text \<open>The other steps of a worker write nothing.\<close>

lemma traffic_same:
  assumes "inv_traffic s" "on_wire (sp s') = on_wire (sp s)" "stream (sp s') = None \<longleftrightarrow> stream (sp s) = None"
    "sum_list (map held_id (subs s')) = sum_list (map held_id (subs s))"
    "sent s' = sent s" "drawn s' = drawn s" "epoch s' = epoch s" "recv s' = recv s"
  shows "inv_traffic s'"
  using assms by (simp add: inv_traffic_def sent_on_wire_def wire_ids_def)

lemma sub_step_traffic:
  assumes "sub_step i s s'" "inv_traffic s" "inv_ids s" "inv_wire (\<lambda>_ _ _. True) s"
  shows "inv_traffic s'"
  using assms(1)
proof cases
  case (Draw_Id k a nonce params)
  let ?x = "Ready k a nonce params (fst (next_request_id (sp s)))"
  have i: "i < length (subs s)" "subs s ! i = Has_Params k a nonce params" using Draw_Id(2) by (simp_all add: at_sub_def)
  have "fst (next_request_id (sp s)) = of_nat (drawn s) + 1" using assms(3) by (simp add: inv_ids_def next_request_id_def)
  then have h: "sum_list (map held_id ((subs s)[i := ?x])) = add_mset (of_nat (drawn s) + 1) (sum_list (map held_id (subs s)))"
    using sum_gain [OF i(1), of held_id ?x] i(2) by simp
  have "on_wire (snd (next_request_id (sp s))) = on_wire (sp s)" by (simp add: on_wire_def next_request_id_def)
  then show ?thesis using assms(2) h ids_draw [of "drawn s" "wire_ids (sp s)" "sum_list (map held_id (subs s))" "{#}"]
    unfolding Draw_Id(1)
    by (auto simp: inv_traffic_def sent_on_wire_def wire_ids_def set_sub_def next_request_id_def)
next
  case (Write_Ok k a nonce params rid w p)
  have c: "called_for (\<lambda>_ _ _. True) a params" using at_sub_called [OF assms(4) Write_Ok(2)] by simp
  show ?thesis by (rule traffic_write [OF assms(2) Write_Ok(2) _ Write_Ok(3) c, of "Wrote k a nonce rid"])
      (simp_all add: Write_Ok(1) set_sub_def)
next
  case (Write_Refused k a nonce params rid w e p)
  have c: "called_for (\<lambda>_ _ _. True) a params" using at_sub_called [OF assms(4) Write_Refused(2)] by simp
  show ?thesis by (rule traffic_write [OF assms(2) Write_Refused(2) _ Write_Refused(3) c, of "Refused k a"])
      (simp_all add: Write_Refused(1) set_sub_def)
qed (auto intro!: traffic_same [OF assms(2)] simp: step_simps sum_same on_wire_def)

lemma link_step_traffic:
  assumes "link_step api agent s s'" "inv_traffic s" "inv_ids s"
  shows "inv_traffic s'"
proof -
  have n: "request_id (sp s) = of_nat (drawn s) + 1" using assms(3) by (simp add: inv_ids_def)
  have db: "drawn_by (sp s) = 1" if "on_wire p \<noteq> on_wire (sp s)" "one_more (sp s) p" for p
    using that by (auto simp: one_more_def drawn_by_def)
  show ?thesis using assms(1)
  proof cases
    case (Install st u)
    have "written (stream_tcp st) = []" using assms(2) Install(2) by (simp add: inv_traffic_def)
    then show ?thesis unfolding Install(1)
      by (intro traffic_new [OF assms(2)]) (simp_all add: goto_def on_wire_def install_stream_def)
  next
    case (Close u)
    then show ?thesis by (intro traffic_new [OF assms(2)]) (simp_all add: goto_def on_wire_def)
  next
    case Abort_Reconnect
    then show ?thesis by (intro traffic_new [OF assms(2)]) (simp_all add: goto_def on_wire_def)
  next
    case Abort_Relogin
    then show ?thesis by (intro traffic_new [OF assms(2)]) (simp_all add: goto_def on_wire_def)
  next
    case (Login_Failed u env e p)
    then show ?thesis using send_request_wire [OF Login_Failed(4)] send_request_frame [OF Login_Failed(4)] db [of p]
      by (intro traffic_recv [OF assms(2) n, where k = "drawn_by (sp s)"]) (auto simp: goto_def)
  next
    case (Login_Answered u env v p)
    then show ?thesis using send_request_wire [OF Login_Answered(4)] send_request_frame [OF Login_Answered(4)] db [of p]
      by (intro traffic_recv [OF assms(2) n, where k = "drawn_by (sp s)"]) (auto simp: goto_def)
  next
    case (Got_Stream u env st)
    then show ?thesis using open_stream_wire
      by (intro traffic_recv [OF assms(2) n, where k = 0]) (auto simp: goto_def one_more_def on_wire_def)
  next
    case (Settle u ok)
    then show ?thesis by (intro traffic_recv [OF assms(2) n, where k = 0]) (auto simp: goto_def one_more_def)
  qed (auto intro!: traffic_recv [OF assms(2) n, where k = 0] simp: goto_def one_more_def on_wire_def take_pending_def)
qed

lemma loop_step_traffic:
  assumes "loop_step api author xmrig s s'" "inv_traffic s" "inv_ids s"
  shows "inv_traffic s'"
proof -
  have n: "request_id (sp s) = of_nat (drawn s) + 1" using assms(3) by (simp add: inv_ids_def)
  have db: "drawn_by (sp s) = 1" if "on_wire p \<noteq> on_wire (sp s)" "one_more (sp s) p" for p
    using that by (auto simp: one_more_def drawn_by_def)
  have o: "opened (recv s) = None" if "recv s = R_Poll" using that by simp
  show ?thesis using assms(1)
  proof cases
    case (Keepalive w r p)
    then show ?thesis using send_message_wire [OF Keepalive(4)] send_message_frame [OF Keepalive(4)] db [of p]
      by (intro traffic_recv [OF assms(2) n, where k = "drawn_by (sp s)"]) auto
  qed (auto intro!: traffic_recv [OF assms(2) n, where k = 0] simp: goto_def one_more_def on_wire_def dest!: decide_frame)
qed

section \<open>Every reachable state\<close>

lemma connect_login_wire:
  assumes "connect_login api agent cenv lenv addr w (with_tls_fingerprint pki level pin) = (Inr (), p)"
  shows "set (map rq_id (on_wire p)) \<subseteq> {1}" "length (on_wire p) \<le> 1"
proof -
  let ?p0 = "with_tls_fingerprint pki level pin"
  obtain st where st: "open_stream cenv (pinned_fingerprint ?p0) addr = Inr st"
    using assms by (auto simp: connect_login_def connect_def split: sum.splits)
  let ?p1 = "(install_stream st (?p0\<lparr>address := addr\<rparr>))\<lparr>connected := True\<rparr>"
  let ?p2 = "begin_login w ?p1"
  have l: "login api agent lenv w ?p1 = (Inr (), p)" using assms st by (simp add: connect_login_def connect_def)
  obtain v p3 where r: "send_request api lenv (str ''login'') (login_params agent w) ?p2 = (Inr v, p3)"
      and lr: "login_reply api v p3 = (Inr (), p)"
    using l by (auto simp: login_def split: prod.splits sum.splits)
  have "on_wire ?p2 = []" "request_id ?p2 = 1"
    using open_stream_wire [OF st] by (simp_all add: on_wire_def install_stream_def begin_login_def with_tls_fingerprint_def)
  moreover have "on_wire p = on_wire p3"
    using lr by (auto simp: login_reply_def on_wire_def split: sum.splits prod.splits)
  ultimately show "set (map rq_id (on_wire p)) \<subseteq> {1}" "length (on_wire p) \<le> 1"
    using send_request_wire [OF r] by (auto simp: one_more_def)
qed

lemma start_traffic:
  assumes "connect_login api agent cenv lenv addr w (with_tls_fingerprint pki level pin) = (Inr (), p)"
    "snd (receiver_start sets now p) = p'"
  shows "inv_traffic (start_sys n (reset_share_counters p'))"
proof -
  have p': "on_wire (reset_share_counters p') = on_wire p"
    using assms(2) on_wire_timeout [of sets RECV_POLL_INTERVAL p]
    by (simp add: receiver_start_def on_wire_def del: on_wire_timeout)
  note w = connect_login_wire [OF assms(1)]
  have "on_wire p = [] \<or> (\<exists>rq. on_wire p = [rq] \<and> rq_id rq = 1)"
    using w by (cases "on_wire p"; cases "tl (on_wire p)") auto
  then have "wire_ids (reset_share_counters p') = {#} \<or> wire_ids (reset_share_counters p') = {#1#}"
    by (auto simp: wire_ids_def p')
  moreover have "sum_list (map held_id (replicate n Idle)) = {#}" by (induction n) simp_all
  ultimately show ?thesis
    by (auto simp: inv_traffic_def sent_on_wire_def start_sys_def ids_inv_def unique_def)
qed

lemma reachable_traffic:
  "reachable api agent author xmrig pki level pin n s \<Longrightarrow> inv_traffic s \<and> inv_wire (\<lambda>_ _ _. True) s"
proof (induction rule: reachable.induct)
  case (Start cenv lenv addr w p sets now p')
  then show ?case by (auto intro: start_traffic start_wire)
next
  case (Sub s i s')
  then show ?case using sub_step_traffic sub_step_called reachable_inv [OF Sub(1)] by (auto simp: all_inv_def)
next
  case (Link s s')
  then show ?case using link_step_traffic link_step_wire reachable_inv [OF Link(1)] by (auto simp: all_inv_def)
next
  case (Loop s s')
  then show ?case using loop_step_traffic loop_step_wire reachable_inv [OF Loop(1)] by (auto simp: all_inv_def)
qed

text \<open>The one request on the stream that bears the id of a written share.\<close>

lemma one_request:
  assumes "unique (mset (map rq_id rqs))" "rq \<in> set rqs" "rq_id rq = rid"
  shows "filter (\<lambda>x. rq_id x = rid) rqs = [rq]"
proof -
  have d: "distinct (map rq_id rqs)" using assms(1) by (simp only: unique_mset)
  from d assms(2) show ?thesis
  proof (induction rqs)
    case (Cons x rqs)
    show ?case
    proof (cases "x = rq")
      case True
      then have "rq_id y \<noteq> rid" if "y \<in> set rqs" for y
        using Cons.prems(1) assms(3) that by (metis distinct.simps(2) image_eqI list.simps(9) set_map)
      then have "filter (\<lambda>x. rq_id x = rid) rqs = []" by (simp add: filter_empty_conv)
      then show ?thesis using True assms(3) by simp
    next
      case False
      then have "rq \<in> set rqs" using Cons.prems(2) by simp
      moreover from this have "rq_id x \<noteq> rid" using Cons.prems(1) assms(3) by auto
      ultimately show ?thesis using Cons by simp
    qed
  qed simp
qed

lemma written_request:
  assumes "inv_traffic s" "drawn s < 2 ^ 64" "(rid, epoch s, a) \<in> set (sent s)" "stream (sp s) \<noteq> None"
  shows "\<exists>rq. submit_for rid a rq \<and> filter (\<lambda>x. rq_id x = rid) (on_wire (sp s)) = [rq]"
proof -
  obtain rq where rq: "rq \<in> set (on_wire (sp s))" "submit_for rid a rq"
    using assms(1, 3, 4) unfolding inv_traffic_def sent_on_wire_def by blast
  have "unique (wire_ids (sp s) + sum_list (map held_id (subs s)))"
    using assms(1, 2) by (simp add: inv_traffic_def ids_inv_def)
  then have "unique (mset (map rq_id (on_wire (sp s))))" unfolding wire_ids_def by (rule unique_mono) simp
  then show ?thesis using one_request [of "on_wire (sp s)" rq rid] rq by (auto simp: submit_for_def)
qed

end
