(* ===== verification/Spec2Isabelle.thy ===== *)
theory Spec2Isabelle
  imports Hex Donate Aes_Hash_Props Vm_Hash_Props Miner_Sample Jit_Memory Cli_Sample Pool_Traffic
begin

text \<open>
  A verification library for \<open>minertim\<close>, a Monero CPU miner in Rust.

  The program. \<open>src/bin/minertim.rs\<close> reads the options and starts a \<open>Miner\<close> (\<open>src/miner.rs\<close>). The
  miner opens one connection to a pool (\<open>src/pool_connection.rs\<close>), whose receiver thread reads
  jobs and answers, reconnects, and from time to time logs in with a donation address
  (\<open>src/donate.rs\<close>). Worker threads take the current job, write nonces into its blob, hash it with
  RandomX (\<open>src/randomx\<close>) and submit the hashes that meet the target. RandomX itself derives a
  256 MiB cache from the seed with Argon2d, eight SuperscalarHash programs from a BLAKE2b
  generator, the 2 GiB dataset from both, and runs eight random programs per hash on a virtual
  machine, interpreted or compiled to AArch64.

  Which theory models what:

  \<^item> \<open>Rust_Base\<close>, \<open>Rust_Loops\<close>, \<open>Rust_Text\<close>: the parts of Rust the source uses: words as byte lists,
    slices with their panics, loops as bounded recursion, UTF-8. A panic or an out-of-bounds
    access is \<open>None\<close>.
  \<^item> \<open>Hex\<close> (\<open>hex.rs\<close>) and \<open>Donate\<close> (\<open>donate.rs\<close>).
  \<^item> \<open>Blake2b\<close>, \<open>Blake2Gen\<close> (\<open>blake2b.rs\<close>, \<open>blake2gen.rs\<close>), \<open>Superscalar_Gen\<close>, \<open>Superscalar_Loop\<close>,
    \<open>Superscalar_Safe\<close>, \<open>Superscalar_Exec\<close> (\<open>superscalar.rs\<close>), \<open>Soft_Aes\<close>, \<open>Aes_Spec\<close>, \<open>Aes_Hash\<close>,
    \<open>Aes_Hash_Props\<close> (\<open>soft_aes.rs\<close>, \<open>aes_hash.rs\<close>), \<open>Argon2d\<close>, \<open>Argon2d_Props\<close> (\<open>argon2d.rs\<close>), \<open>Dataset\<close>
    (\<open>dataset.rs\<close>).
  \<^item> \<open>Vm_Bytecode\<close>, \<open>Vm_Compile\<close> (\<open>compile_program\<close>), \<open>Vm_Exec\<close>, \<open>Vm_Run\<close> (\<open>execute_bytecode\<close>), \<open>Vm_Loop\<close>
    (the interpreter loop of \<open>execute_vm_inner\<close>, \<open>interpret_vm\<close>), \<open>Vm_Execute\<close> (\<open>execute_vm_inner\<close> itself with
    the calls of compiled code, and the floating-point control word), \<open>Vm_Hash\<close>, \<open>Vm_Hash_Props\<close>
    (\<open>RandomXVm\<close>): \<open>vm.rs\<close>.
  \<^item> \<open>Jit_A64\<close> (the \<open>Emitter\<close> of \<open>jit/aarch64.rs\<close>: every method as the words it appends) and
    \<open>Jit_Compile\<close> (\<open>jit/compiler.rs\<close>: \<open>compile\<close>, \<open>compile_native_loop\<close>). \<open>A64\<close> is the processor: a decoder for the encodings the emitter uses, their
    effect on registers and memory, and \<open>a64_steps\<close>, a run of code. \<open>Jit_Words\<close>, \<open>Jit_Imm\<close> and
    \<open>Jit_Bitmask\<close> decode what the encoder wrote; \<open>Jit_Rel\<close> relates the registers of the processor to
    the machine of the interpreter, \<open>Jit_Arms\<close> and \<open>Jit_Arms_Fp\<close> treat the instructions,
    \<open>Jit_Size\<close> and \<open>Jit_Body\<close> the layout and the branches, \<open>Jit_Mem\<close>, \<open>Jit_Call\<close> and \<open>Jit_Fn\<close> the
    call of the compiled function. \<open>Jit_Iter\<close> and \<open>Jit_Iter2\<close> treat one iteration of the native loop
    before and after the body, \<open>Jit_Loop\<close> the counted loop, \<open>Jit_Native\<close> the whole function from its
    call to its return. \<open>Jit_Memory\<close> is \<open>jit/memory.rs\<close>: the protection of the region on Linux
    and macOS and what the processor fetches from it.
  \<^item> \<open>Pool_Lines\<close>, \<open>Pool_Job\<close>, \<open>Pool\<close>, \<open>Pool_Shares\<close>, \<open>Pool_Receiver\<close>: \<open>pool_connection.rs\<close> as functions on
    the record \<open>pool\<close> (the struct \<open>PoolConnection\<close>). \<open>Pool_Threads\<close> runs the workers inside
    \<open>submit_share\<close> and the receiver against each other in atomic steps (a lock, a store, an
    atomic operation); \<open>Pool_Invariants\<close>, \<open>Pool_Streams\<close>, \<open>Pool_Safety\<close>, \<open>Pool_Wire\<close>,
    \<open>Pool_Traffic\<close> are its invariants and \<open>Pool_Refine\<close> shows that the functions are runs of the steps.
  \<^item> \<open>Miner_Share\<close>, \<open>Miner_Worker\<close>, \<open>Miner_Worker_Props\<close>, \<open>Miner_Rig\<close>, \<open>Miner_Safety\<close>, \<open>Miner_Origin\<close>,
    \<open>Miner_Counts\<close>, \<open>Miner\<close>: \<open>miner.rs\<close>. \<open>worker\<close> is the locals of \<open>worker_loop\<close>, \<open>rig\<close> the workers together with the
    connection of \<open>Pool_Threads\<close>, \<open>miner\<close> the struct \<open>Miner\<close>.
  \<^item> \<open>Cli\<close>, \<open>Cli_Main\<close>: \<open>bin/minertim.rs\<close>. \<open>Cli\<close> reads the settings from arguments and environment,
    \<open>Cli_Main\<close> starts the \<open>miner\<close> with them and prints the statistics; \<open>cli_exit\<close> is how the process
    ends before it mines.
  \<^item> \<open>Pool_Sample\<close>, \<open>Miner_Sample\<close> and \<open>Cli_Sample\<close> hold concrete runs for the witnesses.

  Interfaces. The miner uses a \<open>RandomXVm\<close> through the locales \<open>reference_hasher\<close>, \<open>hasher\<close> and
  \<open>total_hasher\<close> of \<open>Miner_Share\<close>; the model of \<open>vm.rs\<close> interprets all three. The smaller one has no
  law for the mining path and a law for \<open>calculate_hash\<close> only on a VM whose native loop has been
  switched off, so what is proved with it holds for a defective native loop too.
  The Argon2d lemmas are stated in the locale of a lane and interpreted at RandomX's size.

  What is shown. The RandomX side: no index out of range and no panic for any input, every
  optimised version equals its reference (AES by tables, AES-NI and NEON; fused hash and fill;
  pipelined and plain hashing; threaded and sequential generation; light and full mode; the
  machine code of the compiler, body and native loop, and the interpreter, which \<open>execute_vm_inner\<close>
  may select between freely), and loops end; the floating-point control word is as before after
  every hash; the executable region is never writable and executable at once. The pool side: every interleaving keeps the share ledger, writes a share only to
  the stream its job came from, counts an answer only for its own share (the one request on the
  stream with that id), and keeps the pin of the certificate. The miner side: what goes out on the
  wire is a valid share of one job that was current at an earlier state of the same run, read
  from a message of the pool; the iteration of a worker returns whenever the programs of the
  seed can be generated; the counters of miner and pool add up, no nonce is tried twice, a verified worker
  lets a hash pass exactly when the reference path agrees. The command line: a switch and the
  pin are the last value that says anything (an environment variable that is not UTF-8 counts as
  unset and nothing is printed, unlike what the doc of \<open>parse_switch\<close> says), a pin that was given is
  enforced on every connection, and the settings of a started miner are in range.

  Bounds and fuel. The two rejection loops of the superscalar generator take a bound \<open>fuel\<close> on
  the number of draws; what depends on it says so (\<open>seed_usable\<close>). \<open>execute_bytecode\<close> needs at most
  three times as many steps as the program is long, which is proved. Compiled code runs until it
  returns: \<open>a64_reaches\<close> says that some number of steps of the processor leads from one state to
  another; the native loop is shown for any positive number of iterations below \<open>2 ^ 64\<close>, and \<open>a64_run\<close>, with which
  \<open>execute_vm_inner\<close> calls it, has no bound of its own. \<open>partial_function\<close> \<open>bytecode_loop\<close> has no bound. The retry loop of
  \<open>reconnect\<close> takes the list of attempts the environment answers. Counters that wrap are words;
  invariants on request ids and streams assume fewer than \<open>2 ^ 64\<close> of them.

  Parameters. Code that is not in the repository is a parameter: the JSON library
  (\<open>json_api\<close>), SHA-256 and WebPKI, the socket and the clock (the environments \<open>connect_env\<close>,
  \<open>login_env\<close>, \<open>iter_env\<close>, \<open>turn_env\<close>, \<open>init_env\<close>), hardware floating point (\<open>fpu\<close>) and the processor's
  features (\<open>cpu\<close>). Where the buffers of a call lie in memory, and the registers and the memory of
  the caller, are the parameter \<open>placement\<close>: any addresses that keep register file, scratchpad, dataset,
  configuration, result buffer and stack apart, as Rust's allocations do. Whether
  \<open>JitCompiler::new\<close> succeeds is the caller's \<open>jit_compiler option\<close>. The interpreter and the compiled code use the same \<open>fpu\<close>. In the processor
  model an access to unmapped memory, an instruction outside the emitter's repertoire and
  floating-point arithmetic under a control word that RandomX never sets have no result, so
  a run that returns did none of these.

  Not modelled: the text of log lines other than the statistics and the reports of the switches,
  the thread priorities and core counts of macOS (system calls), the prefetches (no effect on
  the state), the unmapping of executable memory, the benches and the tests. Hashrates are
  exact fractions where the code rounds to \<open>f64\<close>. Arithmetic raises exception flags in MXCSR; they
  do not influence a result, are restored with the word, and are left out in between. The upper half of FPCR is
  reserved, so the control word has 32 bits, as in \<open>save_rounding_mode\<close>. The system calls behind \<open>mprotect\<close>
  are \<open>Jit_Memory\<close>; inside \<open>execute_vm_inner\<close> the words that \<open>get_fn\<close> and \<open>get_loop_fn\<close> give are what runs.
\<close>

text \<open>C1: However workers, receiver and reconnects interleave, every submit request on the wire is a valid share of one job that the pool sent: at an earlier state r0 of this very run the job a was the current one of the connection, as parse_job read it from a message, and the request names the id of a and a nonce and a result such that the result is the hash of the blob of a with that nonce, computed against the dataset of the seed of a, and meets the target of a. So id, blob, seed and target are never those of two jobs, and a blob, a prepared scratchpad or a VM of an earlier job or seed is never used. The hasher is any VM with the laws that randomx_vm_is_a_hasher shows of RandomXVm.\<close>

theorem worker_submits_only_valid_shares:
  fixes ops :: "'vm vm_ops" and gen_ds :: "bytes \<Rightarrow> dataset option" and native verify :: bool and n :: nat
  defines "rs \<equiv> \<lparr>rs_ops = ops, rs_gen = gen_ds, rs_native_loop = native, rs_verify_shares = verify, rs_threads = n\<rparr>"
  assumes "hasher ops data_ok vm_for native_off digest gen_ds prepared_with"
    "rig_reachable api agent author xmrig pki level pin rs r"
    "stream (sp (net r)) = Some st" "rq \<in> set (tcp_stream.written (stream_tcp st))"
    "rq_method rq = str ''submit''"
  shows "\<exists>r0 a sid nonce blob ds h.
    rig_reachable api agent author xmrig pki level pin rs r0 \<and>
    (rig_step api agent author xmrig rs)\<^sup>*\<^sup>* r0 r \<and> current_job (sp (net r0)) = Some a \<and>
    (\<exists>data. parse_job api data (job_generation (arc_val a)) = Some (arc_val a)) \<and>
    rq_params rq = submit_params sid (job_id (arc_val a)) (hex_encode (le_bytes 4 (nonce :: u32))) (hex_encode h) \<and>
    write_nonce_le (job_blob (arc_val a)) nonce = Some blob \<and> gen_ds (job_seed_hash (arc_val a)) = Some ds \<and>
    digest ds blob = Some h \<and> meets_target h (job_target (arc_val a))"
proof -
  obtain r0 sid fs where r0: "rig_reachable api agent author xmrig pki level pin rs r0"
      "(rig_step api agent author xmrig rs)\<^sup>*\<^sup>* r0 r" "current_job (sp (net r0)) = Some (fs_job fs)"
      "job_read api (fs_job fs)"
    and fs: "admissible fs \<and> right_share gen_ds digest fs" "rq_params rq =
      submit_params sid (job_id (arc_val (fs_job fs))) (hex_encode (fs_nonce fs)) (hex_encode (fs_hash fs))"
    by (rule wire_share [OF assms(3) hasher.turn_keeps_mining [OF assms(2), where native = native and
          verify = verify and n = n, folded rs_def] hasher.worker_start_mining [OF assms(2)] assms(4-6)])
  obtain k blob ds where b: "fs_nonce fs = le_bytes 4 (k :: u32)"
      "write_nonce_le (job_blob (arc_val (fs_job fs))) k = Some blob"
      "gen_ds (job_seed_hash (arc_val (fs_job fs))) = Some ds" "digest ds blob = Some (fs_hash fs)"
    using fs(1) unfolding right_share_def by blast
  show ?thesis
    by (rule exI [where x = r0], rule exI [where x = "fs_job fs"], rule exI [where x = sid],
        rule exI [where x = k], rule exI [where x = blob], rule exI [where x = ds], rule exI [where x = "fs_hash fs"])
      (use r0 fs b in \<open>simp add: admissible_def job_read_def\<close>)
qed

theorem worker_submits_only_valid_shares_witness:
  "\<exists>r0 a sid nonce blob ds h.
    toy_reachable toy_ops r0 \<and> (rig_step sample_api [] [3] [4] (toy_setup toy_ops))\<^sup>*\<^sup>* r0 toy_sent \<and>
    current_job (sp (net r0)) = Some a \<and>
    (\<exists>data. parse_job sample_api data (job_generation (arc_val a)) = Some (arc_val a)) \<and>
    submit_params (str ''s1'') (str ''j1'') (hex_encode [0, 0, 0, 0]) (hex_encode (replicate 32 0)) =
      submit_params sid (job_id (arc_val a)) (hex_encode (le_bytes 4 (nonce :: u32))) (hex_encode h) \<and>
    write_nonce_le (job_blob (arc_val a)) nonce = Some blob \<and> toy_gen (job_seed_hash (arc_val a)) = Some ds \<and>
    toy_digest ds blob = Some h \<and> meets_target h (job_target (arc_val a))"
  using worker_submits_only_valid_shares [OF toy_hasher toy_reach_sent [unfolded toy_setup_def],
      where rq = "\<lparr>rq_id = 2, rq_method = str ''submit'', rq_params =
        submit_params (str ''s1'') (str ''j1'') (hex_encode [0, 0, 0, 0]) (hex_encode (replicate 32 0))\<rparr>"]
  unfolding toy_setup_def
  by (simp add: toy_sent_def toy_found_def sample_sent_def)


text \<open>C2: Whatever bytes a program consists of (at least the 128 bytes of entropy and 8 per instruction, and no more instructions than the bytecode buffer of 384 has room for, which is what the code asserts), compile_program returns bytecode of the requested size, and interpreting it from any machine returns: no unchecked register, scratchpad or bytecode access is out of bounds, the loop ends after at most three times as many instructions as the program has, and register file and scratchpad keep their sizes.\<close>

theorem interpreter_memory_safe:
  assumes "INSTRUCTIONS_OFFSET + n * 8 \<le> length program_bytes" "n \<le> RANDOMX_PROGRAM_SIZE_MAX" "machine_ok m"
  shows "\<exists>bc usage m'. compile_program program_bytes n = Some (bc, usage) \<and> length bc = n \<and>
    execute_bytecode fpu version config bc m = Some m' \<and>
    bytecode_fuel fpu version config bc (3 * n) (0, m) = Some m' \<and> machine_ok m'"
proof -
  obtain bc usage where c: "compile_program program_bytes n = Some (bc, usage)" "bytecode_ok bc" "length bc = n"
    using compile_program_gen [OF assms(1,2)] by (auto simp: returns_iff)
  have "returns machine_ok (bytecode_fuel fpu version config bc (3 * n) (0, m))"
    using bytecode_run_bounded [OF c(2) le0 assms(3) le0, of fpu version config] c(3) by simp
  then show ?thesis
    using c bytecode_fuel_loop by (fastforce simp: returns_iff execute_bytecode_def)
qed

theorem interpreter_memory_safe_witness:
  "\<exists>bc usage m'. compile_program (replicate 144 0xef) 2 = Some (bc, usage) \<and> length bc = 2 \<and>
    execute_bytecode \<lparr>fp_add = \<lambda>r a b. a, fp_sub = \<lambda>r a b. a, fp_mul = \<lambda>r a b. a, fp_div = \<lambda>r a b. a, fp_sqrt = \<lambda>r a. a\<rparr>
      V1 \<lparr>e_mask = (0, 0), read_reg0 = 0, read_reg1 = 2, read_reg2 = 4, read_reg3 = 6\<rparr> bc
      \<lparr>m_nreg = nreg_new, m_sp = replicate SCRATCHPAD_L3_SIZE 0, m_rm = 0\<rparr> = Some m' \<and>
    bytecode_fuel \<lparr>fp_add = \<lambda>r a b. a, fp_sub = \<lambda>r a b. a, fp_mul = \<lambda>r a b. a, fp_div = \<lambda>r a b. a, fp_sqrt = \<lambda>r a. a\<rparr>
      V1 \<lparr>e_mask = (0, 0), read_reg0 = 0, read_reg1 = 2, read_reg2 = 4, read_reg3 = 6\<rparr> bc (3 * 2)
      (0, \<lparr>m_nreg = nreg_new, m_sp = replicate SCRATCHPAD_L3_SIZE 0, m_rm = 0\<rparr>) = Some m' \<and> machine_ok m'"
  by (rule interpreter_memory_safe) (simp_all add: INSTRUCTIONS_OFFSET_def RANDOMX_PROGRAM_SIZE_MAX_def nreg_new_ok)


text \<open>C3: For the bytecode of any program bytes, JitCompiler::compile succeeds (the code fits the region), and the machine code it leaves, run by the processor model from a call with any register file, scratchpad and configuration in disjoint memory, returns to its caller with exactly the register file, scratchpad and rounding mode that execute_bytecode computes; callee-saved registers, the stack pointer and all other memory are as before.\<close>

theorem compiled_body_is_interpreter:
  assumes "INSTRUCTIONS_OFFSET + program_size version * 8 \<le> length program_bytes"
    and "body_call config nb base cb stk m s"
  shows "\<exists>bc usage jc' code m' s'. compile_program program_bytes (program_size version) = Some (bc, usage) \<and>
    jit_compile bc version jc = Some jc' \<and> get_fn jc' = Some code \<and>
    execute_bytecode fpu version config bc m = Some m' \<and>
    a64_reaches fpu code (At 0, s) (Returned (xr s 30), s') \<and> body_result nb base stk m' s s'"
proof -
  obtain bc usage where c: "compile_program program_bytes (program_size version) = Some (bc, usage)"
    "bytecode_ok bc" "length bc = program_size version"
    using compile_program_gen [OF assms(1) program_size_fits] by (auto simp: returns_iff)
  have "length bc \<le> RANDOMX_PROGRAM_SIZE_MAX" unfolding c(3) by (rule program_size_fits)
  then obtain jc' code where j: "jit_compile bc version jc = Some jc'" "get_fn jc' = Some code"
    "body_code bc version = Some code" "length code < 0x40000"
    using compiled_body [OF c(2)] by blast
  have m: "machine_ok m" using assms(2) by (simp add: body_call_def)
  obtain m' where m': "execute_bytecode fpu version config bc m = Some m'"
    using execute_bytecode_returns [OF c(2) m, of fpu version config] by (auto simp: returns_iff)
  show ?thesis using c(1) j(1, 2) m' body_runs [OF c(2) j(3, 4) assms(2) m'] by blast
qed

theorem compiled_body_is_interpreter_witness:
  "\<exists>bc usage jc' code m' s'. compile_program (replicate 2176 7) (program_size V1) = Some (bc, usage) \<and>
    jit_compile bc V1 jit_new = Some jc' \<and> get_fn jc' = Some code \<and>
    execute_bytecode \<lparr>fp_add = \<lambda>r a b. a, fp_sub = \<lambda>r a b. a, fp_mul = \<lambda>r a b. a, fp_div = \<lambda>r a b. a, fp_sqrt = \<lambda>r a. a\<rparr>
      V1 \<lparr>e_mask = (0, 0), read_reg0 = 0, read_reg1 = 2, read_reg2 = 4, read_reg3 = 6\<rparr> bc zero_machine = Some m' \<and>
    a64_reaches \<lparr>fp_add = \<lambda>r a b. a, fp_sub = \<lambda>r a b. a, fp_mul = \<lambda>r a b. a, fp_div = \<lambda>r a b. a, fp_sqrt = \<lambda>r a. a\<rparr>
      code (At 0, zero_state) (Returned (xr zero_state 30), s') \<and>
    body_result 0x1000 0x10000000 0x3000 m' zero_state s'"
  by (rule compiled_body_is_interpreter [where cb = "0x2000", OF _ zero_call])
    (simp_all add: RANDOMX_PROGRAM_SIZE_def INSTRUCTIONS_OFFSET_def)


text \<open>C4: For the program bytes of any version 1 program, compiling the native loop succeeds, and the machine code, run by the processor model from the call that execute_vm_inner makes (register file, scratchpad, dataset, iteration count and LoopState buffer in disjoint memory), returns to its caller with exactly what the interpreter loop computes in that many iterations: register file, scratchpad, rounding mode and the four words of LoopState; callee-saved registers, the stack pointer, the dataset and all other memory are as before.\<close>

theorem native_loop_is_interpreter_loop:
  assumes "length program_bytes = program_bytes_size V1" "dataset_ok ds" "machine_ok m"
    and "loop_call nb base out stk dsb (get_item ds) n (init_registers program_bytes m) s" "0 < n" "n < 2 ^ 64"
  shows "\<exists>jc' code m' ls' s' ws. native_program program_bytes jc = Some (jc', code) \<and>
    interpret_vm fpu cpu V1 n (get_item ds) program_bytes m = Some (m', ls') \<and>
    a64_reaches fpu code (At 0, s) (Returned (xr s 30), s') \<and>
    loop_result nb base out stk (m', ls') s s' \<and> region (memory s') out ws \<and> loop_state_of ws = ls'"
proof -
  obtain jc' code m' ls' s' where r: "native_program program_bytes jc = Some (jc', code)"
    "interpret_vm fpu cpu V1 n (get_item ds) program_bytes m = Some (m', ls')"
    "a64_reaches fpu code (At 0, s) (Returned (xr s 30), s')" "loop_result nb base out stk (m', ls') s s'"
    using native_program_runs [OF assms(1, 2, 4, 5, 6, 3), of jc fpu cpu] by blast
  moreover have "region (memory s') out (loop_words ls')" using r(4) by (simp add: loop_result_def)
  ultimately show ?thesis using loop_state_words by blast
qed

theorem native_loop_is_interpreter_loop_witness:
  "\<exists>jc' code m' ls' s' ws. native_program (replicate 2176 7) jit_new = Some (jc', code) \<and>
    interpret_vm \<lparr>fp_add = \<lambda>r a b. a, fp_sub = \<lambda>r a b. a, fp_mul = \<lambda>r a b. a, fp_div = \<lambda>r a b. a, fp_sqrt = \<lambda>r a. a\<rparr>
      \<lparr>cpu_arch = Aarch64, cpu_aes = True\<rparr> V1 2048 (get_item zero_dataset) (replicate 2176 7) zero_machine = Some (m', ls') \<and>
    a64_reaches \<lparr>fp_add = \<lambda>r a b. a, fp_sub = \<lambda>r a b. a, fp_mul = \<lambda>r a b. a, fp_div = \<lambda>r a b. a, fp_sqrt = \<lambda>r a. a\<rparr>
      code (At 0, zero_loop_state (init_registers (replicate 2176 7) zero_machine) 2048)
      (Returned (xr (zero_loop_state (init_registers (replicate 2176 7) zero_machine) 2048) 30), s') \<and>
    loop_result 0x1000 0x10000000 0x4000 0x3000 (m', ls')
      (zero_loop_state (init_registers (replicate 2176 7) zero_machine) 2048) s' \<and>
    region (memory s') 0x4000 ws \<and> loop_state_of ws = ls'"
  by (rule native_loop_is_interpreter_loop [OF _ zero_dataset_ok zero_machine_ok zero_loop_call])
    (simp_all add: program_bytes_size_def RANDOMX_PROGRAM_SIZE_def INSTRUCTIONS_OFFSET_def)


text \<open>C5: The identity the code documents for its counters, across miner and connection and at every moment of every interleaving: the shares found are the withheld ones, plus accepted, rejected, lost, unsent and pending ones, plus those that are on their way (found and not yet passed to submit_share, inside submit_share, or in the hands of the receiver); in u32 arithmetic.\<close>

theorem found_shares_are_accounted_for:
  assumes "rig_reachable api agent author xmrig pki level pin rs r" "drawn (net r) < 2 ^ 64"
  shows "ucast (shares_found (sh_stats (common r))) = ucast (verify_failures (sh_stats (common r))) +
    accepted_shares (sp (net r)) + rejected_shares (sp (net r)) + lost_shares (sp (net r)) +
    unsent_shares (sp (net r)) + of_nat (length (pending_shares (sp (net r)))) +
    of_nat (length (filter (\<lambda>f. f \<noteq> None) (found r))) +
    sum_list (map owed (subs (net r))) + in_hand (recv (net r))"
proof -
  have "all_inv (net r)" using reachable_inv [OF rig_net [OF assms(1)]] .
  then have l: "of_nat (calls (net r)) = ledger (sp (net r)) + sum_list (map owed (subs (net r))) + in_hand (recv (net r))"
    using assms(2) by (simp add: all_inv_def inv_ledger_def)
  have "inv_counts r" using rig_reachable_counts [OF assms(1)] by simp
  note found_split [OF this]
  then show ?thesis unfolding l by (simp add: ledger_def settled_def algebra_simps)
qed

theorem found_shares_are_accounted_for_witness:
  "(ucast (shares_found (sh_stats (common toy_sent))) :: u32) =
    ucast (verify_failures (sh_stats (common toy_sent))) + 1"
  using found_shares_are_accounted_for [OF toy_reach_sent]
  by (simp add: toy_sent_def toy_found_def sample_sent_def sample_start_def)


text \<open>C6: Whatever the mining path computes - a native loop with a defect included - in every state of the running miner: when the verifier of the worker is on, a hash that meets the target is let through as a share exactly when it is the hash of the reference path for the current blob and the dataset of the current seed; otherwise no share comes out and the failure counter goes up by one. Nothing is assumed of pipelined hashing, and of calculate_hash only on a VM whose native loop is off, so the set_native_loop(false) of the verifier is needed; a stale verifier after a seed rotation is excluded as well.\<close>

theorem any_mining_path_is_checked:
  assumes "reference_hasher ops data_ok vm_for native_off digest gen_ds"
    "rig_reachable api agent author xmrig pki level pin
       \<lparr>rs_ops = ops, rs_gen = gen_ds, rs_native_loop = native, rs_verify_shares = verify, rs_threads = n\<rparr> r"
    "at_sub i (Working a) (net r)"
    "worker_iteration ops gen_ds cfg env a (crew r ! i) (common r) = Some (Some h, share, w', sh')"
    "sv_enabled (w_verifier w')" "meets_target h (job_target (arc_val a))"
  shows "\<exists>blob ds g.
    write_nonce_le (job_blob (arc_val a)) (ucast (w_nonce (crew r ! i))) = Some blob \<and>
    gen_ds (job_seed_hash (arc_val a)) = Some ds \<and> digest ds blob = Some g \<and>
    (if h = g then verify_failures (sh_stats sh') = verify_failures (sh_stats (common r)) \<and>
       share = Some \<lparr>fs_job = a, fs_nonce = le_bytes 4 (ucast (w_nonce (crew r ! i)) :: u32), fs_hash = h,
                      fs_verdict = Submit_Verified\<rparr>
     else verify_failures (sh_stats sh') = verify_failures (sh_stats (common r)) + 1 \<and> share = None)"
proof -
  note ok = rig_reachable_ok [OF assms(2) reference_hasher.turn_keeps_ok [OF assms(1)]
      reference_hasher.worker_start_ok [OF assms(1)]]
  note turn = rig_ok_turn [OF ok assms(3)]
  show ?thesis
    using reference_hasher.iteration_verdict [OF assms(1) turn(1) _ turn(3) assms(4-6)] turn(2) by simp
qed

theorem any_mining_path_is_checked_witness:
  "\<exists>sh'. verify_failures (sh_stats sh') = verify_failures (sh_stats (common (toy_working bad_ops))) + 1 \<and>
    worker_iteration bad_ops toy_gen (worker_cfg (toy_setup bad_ops) 0) toy_env sample_arc
      (crew (toy_working bad_ops) ! 0) (common (toy_working bad_ops)) =
    Some (Some (toy_hash (toy_blob 1)), None, toy_worker, sh')"
proof -
  have start: "crew (toy_working bad_ops) ! 0 = worker_start (worker_cfg (toy_setup bad_ops) 0)"
      "common (toy_working bad_ops) = common (toy_start bad_ops)"
      "at_sub 0 (Working sample_arc) (net (toy_working bad_ops))"
    by (simp_all add: toy_working_def working_rig_def toy_start_def started_rig_def start_rig_def
        toy_setup_def at_sub_def sample_working_def start_sys_def)
  obtain sh' where turn: "worker_iteration bad_ops toy_gen (worker_cfg (toy_setup bad_ops) 0) toy_env
      sample_arc (crew (toy_working bad_ops) ! 0) (common (toy_working bad_ops)) =
      Some (Some (toy_hash (toy_blob 1)), None, toy_worker, sh')"
    using bad_turn start(1,2) by auto
  have "meets_target (toy_hash (toy_blob 1)) (job_target (arc_val sample_arc))"
    by (simp add: toy_hash_def toy_nonces toy_target sample_arc_def del: replicate.simps)
  then show ?thesis
    using any_mining_path_is_checked [OF bad_reference toy_reach_working [unfolded toy_setup_def]
        start(3) turn [unfolded toy_setup_def]] turn
    by (auto simp: toy_worker_def split: if_splits)
qed


text \<open>C7: Hashing with a RandomXVm never panics and never reads or writes out of bounds, on any path execute_vm_inner may take - the native loop, the compiled body or the interpreter, as the switch, the version, the dataset and the JIT of the VM say - and under any floating-point control word: it gives 32 bytes, exactly those of the one-shot computation with zeroed buffers and the interpreter, whatever earlier hashes left in the scratchpad, the program buffer and the register file. It keeps the key material and the switch, and the control word, which it saves, changes and runs the programs under, is back as it was. The second part is the single program: on the path the VM selects, execute_vm_inner ends with the same machine and the same four words of LoopState as the interpreter loop, from any machine and for any program bytes.\<close>

theorem vm_hash_is_one_shot_hash:
  assumes "vm_ok vm" "machine_ok m" "length program_bytes = program_bytes_size (vm_version vm)" "0 < n" "n < 2 ^ 64"
  shows "(\<exists>h vm'. calculate_hash fpu cpu pl vm c input = Some (h, vm', c) \<and>
      hash_with_items fpu cpu (vm_version vm) (vm_item vm) input = Some h \<and> length h = 32 \<and>
      vm_ok vm' \<and> vm_key vm' = vm_key vm) \<and>
    (\<exists>m' ls jit'. execute_vm_inner fpu cpu pl (vm_cache_memory vm) (vm_ss_programs vm) (vm_dataset vm) (vm_jit vm)
        (vm_version vm) n (vm_use_native_loop vm) program_bytes m = Some (m', ls, jit') \<and>
      interpret_vm fpu cpu (vm_version vm) n (vm_item vm) program_bytes m = Some (m', ls) \<and> machine_ok m')"
proof (rule conjI [OF calculate_hash_gen [OF assms(1)]])
  have "line_source_ok (vm_cache_memory vm, vm_ss_programs vm, vm_dataset vm)" using assms(1) by (simp add: vm_ok_def)
  from execute_vm_inner_interprets [OF this assms(2-5), of fpu cpu pl "vm_jit vm" "vm_use_native_loop vm"]
  show "\<exists>m' ls jit'. execute_vm_inner fpu cpu pl (vm_cache_memory vm) (vm_ss_programs vm) (vm_dataset vm) (vm_jit vm)
        (vm_version vm) n (vm_use_native_loop vm) program_bytes m = Some (m', ls, jit') \<and>
      interpret_vm fpu cpu (vm_version vm) n (vm_item vm) program_bytes m = Some (m', ls) \<and> machine_ok m'"
    unfolding vm_item_def by blast
qed

theorem vm_hash_is_one_shot_hash_witness:
  "let vm = vm_fresh V1 (Some jit_new) [] [] (Some (replicate DATASET_ITEM_COUNT (replicate 8 7)));
       fpu = \<lparr>fp_add = \<lambda>r a b. a, fp_sub = \<lambda>r a b. a, fp_mul = \<lambda>r a b. a, fp_div = \<lambda>r a b. a, fp_sqrt = \<lambda>r a. a\<rparr>;
       cpu = \<lparr>cpu_arch = Aarch64, cpu_aes = True\<rparr>; pl = Placement zero_place;
       m = \<lparr>m_nreg = nreg_new, m_sp = replicate SCRATCHPAD_L3_SIZE 0, m_rm = 0\<rparr>; pb = replicate 2176 7
   in (\<exists>h vm'. calculate_hash fpu cpu pl vm 0x400000 [1, 2, 3] = Some (h, vm', 0x400000) \<and>
      hash_with_items fpu cpu (vm_version vm) (vm_item vm) [1, 2, 3] = Some h \<and> length h = 32 \<and>
      vm_ok vm' \<and> vm_key vm' = vm_key vm) \<and>
    (\<exists>m' ls jit'. execute_vm_inner fpu cpu pl (vm_cache_memory vm) (vm_ss_programs vm) (vm_dataset vm) (vm_jit vm)
        (vm_version vm) 2048 (vm_use_native_loop vm) pb m = Some (m', ls, jit') \<and>
      interpret_vm fpu cpu (vm_version vm) 2048 (vm_item vm) pb m = Some (m', ls) \<and> machine_ok m')"
  unfolding Let_def
  by (rule vm_hash_is_one_shot_hash)
    (rule vm_fresh_ok, simp add: line_source_ok_def dataset_ok_def, rule nreg_new_ok,
      simp_all add: vm_fresh_def program_bytes_size_def RANDOMX_PROGRAM_SIZE_def INSTRUCTIONS_OFFSET_def)


text \<open>C8: The pipelined mining loop gives the hashes of its inputs, on every path of execute_vm_inner: after prepare_scratchpad on the first input, each calculate_hash_pipelined returns the one-shot hash of the input given one call earlier, the last input is left prepared, and the floating-point control word is back as it was.\<close>

theorem pipelined_hashing_is_hashing:
  assumes "vm_ok vm"
  shows "\<exists>vm0 hs vm'. prepare_scratchpad cpu vm a = Some vm0 \<and>
    pipelined_hashes fpu cpu pl vm0 c bs = Some (hs, vm', c) \<and>
    map Some hs = map (hash_with_items fpu cpu (vm_version vm) (vm_item vm)) (butlast (a # bs)) \<and>
    prepared vm' (last (a # bs)) \<and> vm_key vm' = vm_key vm"
proof -
  obtain vm0 where 0: "prepare_scratchpad cpu vm a = Some vm0" "prepared vm0 a" "vm_key vm0 = vm_key vm"
    using prepare_scratchpad_gen [OF assms, of cpu a] by auto
  show ?thesis
    using 0 vm_item_key [OF 0(3)]
      pipelined_hashes_gen [OF 0(2), where fpu = fpu and cpu = cpu and pl = pl and c = c and bs = bs]
    by auto
qed

theorem pipelined_hashing_is_hashing_witness:
  "let vm = vm_fresh V1 (Some jit_new) [] [] (Some (replicate DATASET_ITEM_COUNT (replicate 8 7)));
       fpu = \<lparr>fp_add = \<lambda>r a b. a, fp_sub = \<lambda>r a b. a, fp_mul = \<lambda>r a b. a, fp_div = \<lambda>r a b. a, fp_sqrt = \<lambda>r a. a\<rparr>;
       cpu = \<lparr>cpu_arch = Aarch64, cpu_aes = True\<rparr>; pl = Placement zero_place
   in \<exists>vm0 hs vm'. prepare_scratchpad cpu vm [1] = Some vm0 \<and>
    pipelined_hashes fpu cpu pl vm0 0x400000 [[2], [3]] = Some (hs, vm', 0x400000) \<and>
    map Some hs = map (hash_with_items fpu cpu (vm_version vm) (vm_item vm)) (butlast ([1] # [[2], [3]])) \<and>
    prepared vm' (last ([1] # [[2], [3]])) \<and> vm_key vm' = vm_key vm"
  unfolding Let_def
  by (rule pipelined_hashing_is_hashing) (auto intro!: vm_fresh_ok simp: line_source_ok_def dataset_ok_def)


text \<open>C9: A share is only ever written to the stream its job arrived on, as long as there have been fewer than 2^64 connections: the generation stamp compared under the stream lock stops a share whose connection has been replaced, even between the read of the session id and the write.\<close>

theorem share_goes_to_its_stream:
  assumes "reachable api agent author xmrig pki level pin n s" "epoch s < 2 ^ 64"
    "(rid, e, a) \<in> set (sent s)"
  shows "origin s a = e \<and> job_generation (arc_val a) = of_nat e"
proof -
  have "inv_sent s" using reachable_inv [OF assms(1)] assms(2)
    by (simp add: all_inv_def inv_streams_def)
  then have "to_its_stream s (rid, e, a)" using assms(3) by (rule inv_sentD(1))
  then show ?thesis by (simp add: to_its_stream_def job_ok_def origin_def)
qed

theorem share_goes_to_its_stream_witness:
  "origin sample_written sample_arc = 1 \<and> job_generation (arc_val sample_arc) = of_nat 1"
  by (rule share_goes_to_its_stream [OF sample_reach_written, where rid = 2])
    (simp_all add: sample_written_def)


text \<open>C10: An answer that is counted as accepted or rejected is for a share that was written to the very stream the answer was read from, and the request id identifies that share: no other share was ever written under it, and of all requests on that stream - logins, keepalives and submits of other shares included - exactly one bears the id, the submit of that share. So neither a late reply from a replaced connection nor the reply to a keepalive or a login is ever counted.\<close>

theorem counted_answer_is_for_its_share:
  assumes "reachable api agent author xmrig pki level pin n s" "drawn s < 2 ^ 64" "epoch s < 2 ^ 64"
    "recv s = R_Answer e msg lines" "map_of (pending_shares (sp s)) rid = Some ps"
  shows "\<exists>a rq. (rid, e, a) \<in> set (sent s) \<and>
    (\<forall>e' a'. (rid, e', a') \<in> set (sent s) \<longrightarrow> e' = e \<and> a' = a) \<and>
    filter (\<lambda>x. rq_id x = rid) (on_wire (sp s)) = [rq] \<and> rq_method rq = str ''submit'' \<and>
    (\<exists>sid nonce result. rq_params rq = submit_params sid (job_id (arc_val a)) nonce result)"
proof -
  have i: "inv_ids s" "inv_sent s" "inv_read s"
    using reachable_inv [OF assms(1)] assms(3) by (simp_all add: all_inv_def inv_streams_def)
  have "rid \<in> fst ` set (pending_shares (sp s))"
    using assms(5) by (auto dest!: map_of_SomeD intro: rev_image_eqI)
  then have "on_this_stream s rid" by (rule inv_sentD(2) [OF i(2)])
  moreover have e: "e = epoch s" "stream (sp s) \<noteq> None" using i(3) assms(4) by (simp_all add: inv_read_def)
  ultimately obtain a where a: "(rid, e, a) \<in> set (sent s)" by (auto simp: on_this_stream_def)
  have "unique (mset (map fst (sent s)) + sum_list (map held_id (subs s)))"
    using i(1) assms(2) by (simp add: inv_ids_def ids_inv_def)
  then have "unique (mset (map fst (sent s)))" by (rule unique_mono) simp
  then have "distinct (map fst (sent s))" unfolding unique_mset .
  then have one: "(e', a') = (e, a)" if "(rid, e', a') \<in> set (sent s)" for e' a'
    using a that by (metis eq_key_imp_eq_value)
  obtain rq where "submit_for rid a rq" "filter (\<lambda>x. rq_id x = rid) (on_wire (sp s)) = [rq]"
    using written_request [OF reachable_traffic [OF assms(1), THEN conjunct1] assms(2) a [unfolded e(1)] e(2)] by blast
  then have "filter (\<lambda>x. rq_id x = rid) (on_wire (sp s)) = [rq] \<and> rq_method rq = str ''submit'' \<and>
      (\<exists>sid nonce result. rq_params rq = submit_params sid (job_id (arc_val a)) nonce result)"
    unfolding submit_for_def called_for_def by blast
  then show ?thesis using a one by blast
qed

theorem counted_answer_is_for_its_share_witness:
  "\<exists>a rq. (2, 1, a) \<in> set (sent sample_answering) \<and>
    (\<forall>e' a'. (2, e', a') \<in> set (sent sample_answering) \<longrightarrow> e' = 1 \<and> a' = a) \<and>
    filter (\<lambda>x. rq_id x = 2) (on_wire (sp sample_answering)) = [rq] \<and> rq_method rq = str ''submit'' \<and>
    (\<exists>sid nonce result. rq_params rq = submit_params sid (job_id (arc_val a)) nonce result)"
  by (rule counted_answer_is_for_its_share [OF sample_reach_answering, where msg = sample_answer
        and lines = "[]" and ps = "\<lparr>ps_job_id = str ''j1'', ps_nonce = [5], ps_sent_at = 9\<rparr>"])
    (simp_all add: sample_answering_def sample_written_def)


text \<open>C11: An iteration of receiver_loop, as the composition of the whole operations (rotation, read, keepalive, silence, with reconnect and relogin inside), is a run of the atomic steps: from a reachable state at the top of the loop it ends in a reachable state at the top of the loop with the same connection and buffer as the function computes. The invariants of the steps therefore hold at every iteration.\<close>

theorem receiver_loop_is_a_run:
  assumes "reachable api agent author xmrig pki level pin n s"
    "recv s = R_Poll" "lock s = None" "map snd (buf s) = rx_pending rx"
    "receiver_iteration api agent author xmrig env rx (sp s) = Continue rx' p'"
  shows "\<exists>s'. reachable api agent author xmrig pki level pin n s' \<and> recv s' = R_Poll \<and>
    sp s' = p' \<and> map snd (buf s') = rx_pending rx' \<and> lock s' = None \<and> subs s' = subs s"
proof -
  have h: "here (subs s) R_Poll (sp s) (rx_pending rx) s" using assms(2-4) by (simp add: here_def)
  have "runs api agent author xmrig (subs s) (R_Poll, sp s, rx_pending rx) (R_Poll, p', rx_pending rx')"
    using iteration_reaches [of api agent author xmrig "subs s" "sp s" rx env] assms(5) by simp
  then obtain s' where "(recv_step api agent author xmrig)\<^sup>*\<^sup>* s s'"
      "here (subs s) R_Poll p' (rx_pending rx') s'"
    using h unfolding runs_def fst_conv snd_conv by blast
  then show ?thesis using reachable_run assms(1) by (fastforce simp: here_def)
qed

theorem receiver_loop_is_a_run_witness:
  "\<exists>s'. reachable sample_api [] [3] [4] sample_pki 5 (Some [7]) 1 s' \<and> recv s' = R_Poll \<and>
    sp s' = sample_start \<and> map snd (buf s') = [0x42] \<and> lock s' = None \<and> subs s' = [Idle]"
  using receiver_loop_is_a_run [OF sample_reach_start, of sample_quiet_rx sample_quiet_env
      "sample_quiet_rx\<lparr>rx_pending := [0x42], last_recv := 20\<rparr>" sample_start] sample_quiet
  by (simp add: start_sys_def sample_quiet_rx_def)


text \<open>C12: RandomXVm implements the interface the miner relies on, whatever its native-loop switch says and whether or not JitCompiler::new succeeded: new_full and reinit give a VM for the dataset they are passed exactly when the programs of the key can be generated within the bound, prepare_scratchpad and calculate_hash_pipelined return and give the hash of the prepared input against that dataset, on the native path as well, calculate_hash does so after set_native_loop(false), which switches the native loop off, and get_or_generate_dataset makes a complete dataset for every usable seed. The hash functions select the native loop, the body JIT or the interpreter as the code does, in execute_vm_inner; that each of the three also ends with the same machine and LoopState is vm_hash_is_one_shot_hash.\<close>

theorem randomx_vm_is_a_hasher:
  "total_hasher (rx_ops fpu cpu pl c fuel jit) dataset_ok rx_vm_for rx_native_off (rx_digest fpu cpu)
     (make_dataset fuel jit num_cpus) prepared (seed_usable fuel)"
  by (rule rx.total_hasher_axioms)


text \<open>C13: The running miner with RandomXVm as its VM, in any reachable state and with any job: the iteration of a worker returns exactly when the seed of the job is usable, that is, when the generation of its eight programs ends within the bound. So nothing else panics or fails to return: every slice of the blob is in range (jobs with short blobs are skipped), the dataset is generated, the VM exists, and each hash - on the native path, in the body JIT or in the interpreter - and each verification returns. For the seeds whose programs can be generated this is the absence of panics; the bound stands for the two rejection loops of generate_superscalar.\<close>

theorem mining_never_panics:
  assumes "rig_reachable api agent author xmrig pki level pin
      \<lparr>rs_ops = rx_ops fpu cpu pl c fuel jit, rs_gen = make_dataset fuel jit num_cpus, rs_native_loop = native,
        rs_verify_shares = verify, rs_threads = n\<rparr> r"
    "at_sub i (Working a) (net r)"
  shows "(\<exists>h share w' sh'. worker_iteration (rx_ops fpu cpu pl c fuel jit) (make_dataset fuel jit num_cpus)
      cfg env a (crew r ! i) (common r) = Some (h, share, w', sh')) \<longleftrightarrow>
    seed_usable fuel (job_seed_hash (arc_val a))"
  using rx.turn_returns [OF rig_reachable_ok [OF assms(1) rx.turn_keeps_usable rx.worker_start_usable] assms(2),
      of cfg env]
  by auto

theorem mining_never_panics_witness:
  "let fpu = \<lparr>fp_add = \<lambda>r a b. a, fp_sub = \<lambda>r a b. a, fp_mul = \<lambda>r a b. a, fp_div = \<lambda>r a b. a, fp_sqrt = \<lambda>r a. a\<rparr>; cpu = \<lparr>cpu_arch = Aarch64, cpu_aes = True\<rparr>; ops = rx_ops fpu cpu (Placement zero_place) 0 9 (Some jit_new);
       gen = make_dataset 9 (Some jit_new) 4;
       r = working_rig \<lparr>rs_ops = ops, rs_gen = gen, rs_native_loop = True, rs_verify_shares = True, rs_threads = 1\<rparr>
   in (\<exists>h share w' sh'. worker_iteration ops gen \<lparr>cfg_thread_id = 0, cfg_thread_count = 1, cfg_native_loop = True,
        cfg_verify_shares = True\<rparr> toy_env sample_arc (crew r ! 0) (common r) = Some (h, share, w', sh')) \<longleftrightarrow>
    seed_usable 9 (job_seed_hash (arc_val sample_arc))"
  unfolding Let_def
  by (rule mining_never_panics [OF working_rig_reachable working_rig_at]) simp





text \<open>C15: A miner on which initialize and then start have succeeded is the first state of a run of the concurrent model: the connection is the one that connect, login and the receiver left, with its counters reset, the workers are numbered from 0 to the thread count, which lies between 1 and the number of cores, and the statistics are fresh. Every invariant of the runs therefore holds of the program as it is started.\<close>

theorem started_miner_is_a_run:
  assumes "initialize api agent pki env addr w threads level pin m = (Inr (), m1)"
    "start spawns now now_ms m1 = (Inr (), m2)" "m_workers m = []" "1 \<le> parallelism (ie_cores env)"
  shows "\<exists>p. m_pool m2 = Some p \<and> rig_reachable api agent author xmrig pki level pin
      (miner_setup ops gen_ds m2) (start_rig (miner_setup ops gen_ds m2) now_ms
        (start_sys (unat (m_thread_count m2)) p)) \<and>
    m_workers m2 = [0..<unat (m_thread_count m2)] \<and> m_stats m2 = Some (stats_new now_ms) \<and>
    1 \<le> m_thread_count m2 \<and> m_thread_count m2 \<le> parallelism (ie_cores env) \<and>
    m_native_loop m2 = m_native_loop m \<and> m_verify_shares m2 = m_verify_shares m"
proof -
  obtain p where p: "connect_login api agent (ie_connect env) (ie_login env) addr w
        (with_tls_fingerprint pki level pin) = (Inr (), p)"
      "m_pool m1 = Some (reset_share_counters (snd (receiver_start (ie_sets_timeout env) (ie_now env) p)))"
      "m_thread_count m1 = clamp_u32 threads 1 (parallelism (ie_cores env))"
      "m_native_loop m1 = m_native_loop m" "m_verify_shares m1 = m_verify_shares m"
      "m_workers m1 = m_workers m"
    using initialize_run [OF assms(1)] by blast
  note m2 = start_result [OF assms(2)]
  note run = rig_reachable.Start [OF p(1) refl, where rs = "miner_setup ops gen_ds m2" and now_ms = now_ms]
  show ?thesis using run m2 p assms(3) clamp_bounds [OF assms(4), of threads]
    by (auto simp: miner_setup_def)
qed

theorem started_miner_is_a_run_witness:
  "\<exists>m1 m2 p. initialize sample_api [] sample_pki \<lparr>ie_cores = Some 4, ie_connect = sample_connect,
       ie_login = sample_login_env, ie_sets_timeout = True, ie_now = 0\<rparr> [1] [2] 9 5 (Some [7])
       (miner_new True) = (Inr (), m1) \<and>
    start (\<lambda>_. True) 0 100 m1 = (Inr (), m2) \<and> m_pool m2 = Some p \<and>
    rig_reachable sample_api [] [3] [4] sample_pki 5 (Some [7]) (miner_setup toy_ops toy_gen m2)
      (start_rig (miner_setup toy_ops toy_gen m2) 100 (start_sys 4 p)) \<and> m_workers m2 = [0, 1, 2, 3]"
proof -
  let ?env = "\<lparr>ie_cores = Some 4, ie_connect = sample_connect, ie_login = sample_login_env,
    ie_sets_timeout = True, ie_now = 0\<rparr>"
  have "fst (initialize sample_api [] sample_pki ?env [1] [2] 9 5 (Some [7]) (miner_new True)) = Inr ()"
    by (rule initialize_ok) (simp add: sample_login_ok)
  then obtain m1 where m1: "initialize sample_api [] sample_pki ?env [1] [2] 9 5 (Some [7]) (miner_new True) = (Inr (), m1)"
    by (metis prod.collapse)
  obtain m2 where m2: "start (\<lambda>_. True) 0 100 m1 = (Inr (), m2)"
    using start_ok initialize_run [OF m1] by blast
  have t: "m_thread_count m2 = 4"
    using initialize_run [OF m1] start_result [OF m2] by (auto simp: clamp_u32_def parallelism_def)
  show ?thesis
    using started_miner_is_a_run [OF m1 m2, where author = "[3]" and xmrig = "[4]" and ops = toy_ops
        and gen_ds = toy_gen] m1 m2 t
    by (auto simp: miner_new_def parallelism_def upt_rec)
qed


text \<open>C16: However the workers and the receiver interleave: the submit_share calls made so far are, in the u32 arithmetic of the counters, the accepted, rejected, lost and unsent shares, plus the pending ones, plus those a worker has not yet registered or counted, plus those the receiver has taken out of the pending shares and is about to count. No share is forgotten or counted twice, across reconnects and donation switches.\<close>

theorem share_ledger_balances:
  assumes "reachable api agent author xmrig pki level pin n s" "drawn s < 2 ^ 64"
  shows "of_nat (calls s) =
    accepted_shares (sp s) + rejected_shares (sp s) + lost_shares (sp s) + unsent_shares (sp s) +
    of_nat (length (pending_shares (sp s))) + sum_list (map owed (subs s)) + in_hand (recv s)"
  using reachable_inv [OF assms(1)] assms(2)
  by (simp add: all_inv_def inv_ledger_def ledger_def settled_def)

theorem share_ledger_balances_witness:
  "of_nat (calls sample_answering) =
    accepted_shares (sp sample_answering) + rejected_shares (sp sample_answering) +
    lost_shares (sp sample_answering) + unsent_shares (sp sample_answering) +
    of_nat (length (pending_shares (sp sample_answering))) +
    sum_list (map owed (subs sample_answering)) + in_hand (recv sample_answering)"
  by (rule share_ledger_balances [OF sample_reach_answering])
    (simp add: sample_answering_def sample_written_def)


text \<open>C17: From a cache of the right size and well-formed programs, dataset generation returns for every number of threads, and hashing against the generated dataset gives the hash of light mode, whatever cache and programs the full-mode VM holds.\<close>

theorem light_and_full_mode_agree:
  assumes "cache_ok cache" "programs_ok programs"
  shows "\<exists>ds. generate cache programs threads = Some ds \<and> dataset_ok ds \<and>
    hash_with_items fpu cpu version (dataset_line cache' programs' (Some ds)) input =
    hash_with_items fpu cpu version (dataset_line cache programs None) input"
proof -
  obtain ds where "generate cache programs threads = Some ds" "dataset_ok ds"
    using generate_ok [OF assms, of threads] by (auto simp: returns_iff)
  then show ?thesis using light_full_gen [OF assms] by blast
qed

theorem light_and_full_mode_agree_witness:
  "let cache = replicate CACHE_SIZE 3; programs = replicate 8 \<lparr>ssp_instructions = [], ssp_address_register = 1\<rparr>;
       fpu = \<lparr>fp_add = \<lambda>r a b. a, fp_sub = \<lambda>r a b. a, fp_mul = \<lambda>r a b. a, fp_div = \<lambda>r a b. a, fp_sqrt = \<lambda>r a. a\<rparr>;
       cpu = \<lparr>cpu_arch = Aarch64, cpu_aes = True\<rparr>
   in \<exists>ds. generate cache programs 11 = Some ds \<and> dataset_ok ds \<and>
    hash_with_items fpu cpu V1 (dataset_line [] [] (Some ds)) [1] =
    hash_with_items fpu cpu V1 (dataset_line cache programs None) [1]"
  unfolding Let_def
  by (rule light_and_full_mode_agree) (simp_all add: cache_ok_def programs_ok_def ssp_ok_def)


text \<open>C18: A donation rotation proceeds only when the wait for this beneficiary has reached the limit, or when no share is pending and every submission that is still running was started after the gate read the count in flight (the order of the two reads matters). So no earlier share is thrown away by an early switch.\<close>

theorem rotation_waits_for_shares:
  assumes "reachable api agent author xmrig pki level pin n s" "n < 2 ^ 32"
    "recv s = R_Gated want v k" "rotation_decide now want v (sp s) = (True, p)"
  shows "rotation_settle_ms (sp s) \<le>
      (case rotation_wait_since (sp s) of Some (b, t) \<Rightarrow> if b = want then now - t else 0 | None \<Rightarrow> 0)
    \<or> pending_shares (sp s) = [] \<and>
      (\<forall>i < n. \<forall>j. call_no (subs s ! i) = Some j \<longrightarrow> k \<le> j)"
proof -
  have "inv_gate n s" using reachable_gate [OF assms(1,2)] .
  then show ?thesis using assms(3,4)
    by (auto simp: inv_gate_def rotation_decide_def rotation_may_proceed_def get_pending_shares_def
        Let_def split: if_splits option.splits)
qed

theorem rotation_waits_for_shares_witness:
  "rotation_settle_ms (sp sample_gated) \<le>
      (case rotation_wait_since (sp sample_gated) of
         Some (b, t) \<Rightarrow> if b = Author then 7 - t else 0 | None \<Rightarrow> 0)
    \<or> pending_shares (sp sample_gated) = [] \<and>
      (\<forall>i < 1. \<forall>j. call_no (subs sample_gated ! i) = Some j \<longrightarrow> 0 \<le> j)"
  by (rule rotation_waits_for_shares [OF sample_reach_gated, where v = 0 and p = sample_start])
    (simp_all add: sample_gated_def start_sys_def rotation_decide_def rotation_may_proceed_def
      get_pending_shares_def sample_start_def)


text \<open>C19: With a pinned certificate no reachable connection is ever plaintext, and a connect to a port that is not a TLS port fails before a socket is opened, whatever the socket would have answered.\<close>

theorem pinned_pool_is_never_plaintext:
  assumes "reachable api agent author xmrig pki level (Some fp) n s"
  shows "pinned_fingerprint (sp s) = Some fp \<and> (\<forall>t. stream (sp s) \<noteq> Some (Plain t)) \<and>
    (\<forall>env addr. is_tls_port addr \<or> connect env addr (sp s) = (Inl Pinned_Plaintext, sp s))"
proof -
  have "inv_pin (Some fp) s" using reachable_safety [OF assms] by simp
  then show ?thesis by (auto simp: inv_pin_def connect_def open_stream_def)
qed

theorem pinned_pool_is_never_plaintext_witness:
  "pinned_fingerprint (sp sample_written) = Some [7] \<and>
    (\<forall>t. stream (sp sample_written) \<noteq> Some (Plain t)) \<and>
    (\<forall>env addr. is_tls_port addr \<or>
       connect env addr (sp sample_written) = (Inl Pinned_Plaintext, sp sample_written))"
  by (rule pinned_pool_is_never_plaintext [OF sample_reach_written])


text \<open>C20: When the operator gives any value for the pin that is not blank and the program starts mining, then the last such value is a valid fingerprint, the connection of the miner is TLS with the verifier that accepts this certificate only, and no connection it ever makes, in any interleaving, is without it.\<close>

theorem configured_pin_is_enforced:
  assumes "cli_start aarch64 api agent pki env ienv spawns now now_ms args = (Inr m, ws)"
    and "pin_texts (env_offer (env_var (ce_fingerprint env)) @ offers (str ''--tls-fingerprint'') args) = texts"
    and "texts \<noteq> []"
  shows "\<exists>fp p. parse_cert_fingerprint (last texts) = Some fp \<and> m_pool m = Some p \<and>
    tls_verifier p = server_verifier pki (Some fp) \<and> pinned_fingerprint p = Some fp \<and>
    (\<forall>t. stream p \<noteq> Some (Plain t)) \<and>
    reachable api agent author xmrig pki (parse_donate_level args) (Some fp) (unat (m_thread_count m))
      (start_sys (unat (m_thread_count m)) p)"
proof -
  obtain pin p where p: "pin_result None texts = Inr pin" "m_pool m = Some p" "tls_verifier p = server_verifier pki pin"
    "reachable api agent author xmrig pki (parse_donate_level args) pin (unat (m_thread_count m))
      (start_sys (unat (m_thread_count m)) p)"
    using started_pin [OF assms(1), where author = author and xmrig = xmrig] assms(2) by auto
  obtain fp where fp: "pin = Some fp" "parse_cert_fingerprint (last texts) = Some fp"
    using pin_result_given [OF assms(3) p(1)] by blast
  have "inv_pin pin (start_sys (unat (m_thread_count m)) p :: 'a sys)" using reachable_safety [OF p(4)] by simp
  then have "pinned_fingerprint p = Some fp" "\<forall>t. stream p \<noteq> Some (Plain t)"
    using fp(1) by (auto simp: inv_pin_def start_sys_def)
  then show ?thesis using p fp by blast
qed

theorem configured_pin_is_enforced_witness:
  "\<exists>m ws fp p. cli_start True sample_api [] sample_pki sample_env sample_init (\<lambda>_. True) 0 100 sample_args = (Inr m, ws) \<and>
    parse_cert_fingerprint (last [replicate 64 0x61]) = Some fp \<and> m_pool m = Some p \<and>
    tls_verifier p = server_verifier sample_pki (Some fp) \<and> pinned_fingerprint p = Some fp \<and>
    (\<forall>t. stream p \<noteq> Some (Plain t)) \<and>
    reachable sample_api [] [3] [4] sample_pki (parse_donate_level sample_args) (Some fp) (unat (m_thread_count m))
      (start_sys (unat (m_thread_count m)) p)"
proof -
  obtain m ws where s: "cli_start True sample_api [] sample_pki sample_env sample_init (\<lambda>_. True) 0 100 sample_args = (Inr m, ws)"
    using sample_cli_start by blast
  show ?thesis using configured_pin_is_enforced [OF s sample_pin(1), where author = "[3]" and xmrig = "[4]"] s by auto
qed


text \<open>C21: A switch (--native-loop, --verify-shares) resolves to the last value it is given, the environment first and the arguments in order: a blank value says nothing and so never erases an earlier one, a missing or unreadable value counts as the safe direction, and without any the default holds. Nothing is printed exactly when every value that reaches the resolution could be read. A value of the environment variable that is not UTF-8 does not reach it: it counts as unset, the default holds and nothing is printed, although the doc of parse_switch promises the safe direction for malformed input (a finding of the manifest); the last three conjuncts state this behaviour of the code.\<close>

theorem switch_is_its_last_word:
  shows "fst (parse_switch_with args flag label env default_on fail_safe) =
      (case last_word (map said (env_offer env @ offers flag args)) of
         None \<Rightarrow> default_on | Some None \<Rightarrow> fail_safe | Some (Some b) \<Rightarrow> b) \<and>
    (snd (parse_switch_with args flag label env default_on fail_safe) = []) =
      list_all readable (env_offer env @ offers flag args) \<and>
    fst (parse_native_loop args raw) =
      (last_word (map said (env_offer (env_var raw) @ offers (str ''--native-loop'') args)) \<in> {None, Some (Some True)}) \<and>
    fst (parse_verify_shares args raw) =
      (last_word (map said (env_offer (env_var raw) @ offers (str ''--verify-shares'') args)) \<noteq> Some (Some False)) \<and>
    (snd (parse_native_loop args raw) = []) =
      list_all readable (env_offer (env_var raw) @ offers (str ''--native-loop'') args) \<and>
    (snd (parse_verify_shares args raw) = []) =
      list_all readable (env_offer (env_var raw) @ offers (str ''--verify-shares'') args) \<and>
    parse_native_loop args raw = parse_native_loop args (if Option.bind raw from_utf8 = None then None else raw) \<and>
    parse_verify_shares args raw = parse_verify_shares args (if Option.bind raw from_utf8 = None then None else raw) \<and>
    parse_native_loop [] (Some [0xFF]) = (True, [])"
proof (intro conjI)
  have sw: "fst (parse_switch_with args flag label env d fs) =
      (case last_word (map said (env_offer env @ offers flag args)) of None \<Rightarrow> d | Some None \<Rightarrow> fs | Some (Some b) \<Rightarrow> b)"
    for flag label env d fs
    using parse_switch_said [of args flag label env d fs] by (simp add: resolve_def split: option.split)
  have on: "(case r of None \<Rightarrow> True | Some None \<Rightarrow> False | Some (Some b) \<Rightarrow> b) = (r \<in> {None, Some (Some True)})"
    and off: "(case r of None \<Rightarrow> True | Some None \<Rightarrow> True | Some (Some b) \<Rightarrow> b) = (r \<noteq> Some (Some False))"
    for r :: "bool option option" by (auto split: option.split)
  show "fst (parse_switch_with args flag label env default_on fail_safe) =
      (case last_word (map said (env_offer env @ offers flag args)) of
         None \<Rightarrow> default_on | Some None \<Rightarrow> fail_safe | Some (Some b) \<Rightarrow> b)" by (rule sw)
  show "(snd (parse_switch_with args flag label env default_on fail_safe) = []) =
      list_all readable (env_offer env @ offers flag args)" using parse_switch_said by blast
  show "fst (parse_native_loop args raw) =
      (last_word (map said (env_offer (env_var raw) @ offers (str ''--native-loop'') args)) \<in> {None, Some (Some True)})"
    unfolding parse_native_loop_def sw by (rule on)
  show "fst (parse_verify_shares args raw) =
      (last_word (map said (env_offer (env_var raw) @ offers (str ''--verify-shares'') args)) \<noteq> Some (Some False))"
    unfolding parse_verify_shares_def sw by (rule off)
  show "(snd (parse_native_loop args raw) = []) =
      list_all readable (env_offer (env_var raw) @ offers (str ''--native-loop'') args)"
    unfolding parse_native_loop_def using parse_switch_said by blast
  show "(snd (parse_verify_shares args raw) = []) =
      list_all readable (env_offer (env_var raw) @ offers (str ''--verify-shares'') args)"
    unfolding parse_verify_shares_def using parse_switch_said by blast
  show "parse_native_loop args raw = parse_native_loop args (if Option.bind raw from_utf8 = None then None else raw)"
    "parse_verify_shares args raw = parse_verify_shares args (if Option.bind raw from_utf8 = None then None else raw)"
    by (simp_all add: parse_native_loop_def parse_verify_shares_def env_var_def)
  show "parse_native_loop [] (Some [0xFF]) = (True, [])" by code_simp
qed


text \<open>C22: The certificate pin resolves to the last value given that is not blank, the environment first and the arguments in order; when any such value is not a SHA-256 fingerprint the first of them is an error, wherever it stands; and certificates are verified without a pin exactly when every value given is blank. So a blank value never erases a pin and a malformed one is never dropped.\<close>

theorem pin_is_its_last_value:
  fixes args :: "bytes list" and env :: "bytes option"
  defines "texts \<equiv> pin_texts (env_offer env @ offers (str ''--tls-fingerprint'') args)"
  shows "fst (parse_tls_fingerprint_with args env) =
      (case find (\<lambda>t. parse_cert_fingerprint t = None) texts of
         Some t \<Rightarrow> Inl t
       | None \<Rightarrow> Inr (if texts = [] then None else parse_cert_fingerprint (last texts))) \<and>
    (fst (parse_tls_fingerprint_with args env) = Inr None) = (texts = [])"
proof -
  have r: "fst (parse_tls_fingerprint_with args env) = pin_result None texts"
    unfolding texts_def by (rule parse_tls_fingerprint_result)
  have iff: "(pin_result None ts = Inr None) = (ts = [])" for ts
  proof
    show "ts = []" if "pin_result None ts = Inr None" using pin_result_given [OF _ that] by blast
  qed (simp add: pin_result_def)
  show ?thesis unfolding r iff by (rule conjI [OF _ refl]) (rule pin_result_def)
qed


text \<open>C23: Whatever the arguments and the environment hold, a miner that the program has started runs between 1 and as many threads as there are cores, numbered from 0; its connection has the donation schedule of the last readable --donate-level, or of the default, brought into the range 1 to 100, and a pin that is absent or 32 bytes long; and its two switches are those of the arguments.\<close>

theorem started_settings_in_range:
  assumes "cli_start aarch64 api agent pki env ienv spawns now now_ms args = (Inr m, ws)"
    and "1 \<le> parallelism (ie_cores ienv)"
  shows "1 \<le> m_thread_count m \<and> m_thread_count m \<le> parallelism (ie_cores ienv) \<and>
    m_workers m = [0..<unat (m_thread_count m)] \<and> m_active m \<and>
    m_native_loop m = fst (parse_native_loop args (ce_native_loop env)) \<and>
    m_verify_shares m = fst (parse_verify_shares args (ce_verify_shares env)) \<and>
    parse_donate_level args = clamp_level (fold donate_offer (offers (str ''--donate-level'') args) DEFAULT_DONATE_LEVEL) \<and>
    MIN_DONATE_LEVEL \<le> parse_donate_level args \<and> parse_donate_level args \<le> MAX_DONATE_LEVEL \<and>
    (\<exists>p. m_pool m = Some p \<and> donation p = donation_new (parse_donate_level args) \<and>
      map_option length (pinned_fingerprint p) \<in> {None, Some 32})"
proof -
  obtain c p where c: "fst (parse_cli (ie_cores ienv) env args) = Inr c"
    "m_thread_count m = clamp_u32 (cc_threads c) 1 (parallelism (ie_cores ienv))"
    "m_workers m = [0..<unat (m_thread_count m)]" "m_native_loop m = cc_native_loop c"
    "m_verify_shares m = cc_verify_shares c" "m_active m"
    using cli_started [OF assms(1)] by metis
  then obtain ws' where "parse_cli (ie_cores ienv) env args = (Inr c, ws')" by (cases "parse_cli (ie_cores ienv) env args") auto
  note cfg = parse_cli_config [OF this]
  have lvl: "parse_donate_level args = clamp_level (fold donate_offer (offers (str ''--donate-level'') args) DEFAULT_DONATE_LEVEL)"
    by (simp add: parse_donate_level_def donate_scan_offers)
  obtain pin q where q: "pin_result None (pin_texts (env_offer (env_var (ce_fingerprint env)) @
        offers (str ''--tls-fingerprint'') args)) = Inr pin" "m_pool m = Some q" "donation q = donation_new (parse_donate_level args)"
    "reachable api agent [] [] pki (parse_donate_level args) pin 0 (start_sys 0 q)"
    using started_pin [OF assms(1), where author = "[]" and xmrig = "[]"] by metis
  have "inv_pin pin (start_sys 0 q :: 'a sys)" using reachable_safety [OF q(4)] by simp
  then have "pinned_fingerprint q = pin" by (simp add: inv_pin_def start_sys_def)
  then have "map_option length (pinned_fingerprint q) \<in> {None, Some 32}" using pin_result_32 q(1) by (cases pin) auto
  then show ?thesis
    using c cfg q(2, 3) clamp_bounds [OF assms(2), of "cc_threads c"] lvl
      clamp_level_range [of "fold donate_offer (offers (str ''--donate-level'') args) DEFAULT_DONATE_LEVEL"] by auto
qed

theorem started_settings_in_range_witness:
  "\<exists>m ws. cli_start True sample_api [] sample_pki sample_env sample_init (\<lambda>_. True) 0 100 sample_args = (Inr m, ws) \<and>
    1 \<le> m_thread_count m \<and> m_thread_count m \<le> 4 \<and> m_workers m = [0..<unat (m_thread_count m)] \<and> m_verify_shares m"
proof -
  obtain m ws where s: "cli_start True sample_api [] sample_pki sample_env sample_init (\<lambda>_. True) 0 100 sample_args = (Inr m, ws)"
    using sample_cli_start by blast
  show ?thesis
    using started_settings_in_range [OF s] s sample_settings(4) by (auto simp: sample_init_def parallelism_def sample_env_def)
qed


text \<open>C24: Whatever sequence of write_code calls a region has seen, on either system and whatever mprotect answered: it is never writable and executable at once (and on Linux never mapped so), the next write_code never stores to a region that is not writable, and it succeeds exactly when the code fits and, on Linux, both changes of protection do. When it succeeds, the processor fetches exactly the words just written, whatever the region held before.\<close>

theorem jit_region_writes_then_executes:
  assumes "jit_memory_new os mmap_ok thread_protect JIT_CODE_SIZE = Some m0"
    and "write_all os earlier m0 = m" "region_write_code os oks code m = (res, m')"
  shows "\<not> (can_write os (jm_region m) \<and> can_execute os (jm_region m)) \<and>
    \<not> (os = Linux \<and> rg_prot_write (jm_region m) \<and> rg_prot_exec (jm_region m)) \<and> res \<noteq> Inl Segfault \<and>
    (res = Inr ()) = (write_code code = Some code \<and> (os = Macos \<or> oks = (True, True))) \<and>
    (res \<noteq> Inr () \<or> map (fetch os (jm_region m')) [0..<length code] = map Some code)"
proof -
  have ok: "region_ok os m" "jm_size m = JIT_CODE_SIZE"
    using region_ok_new [OF assms(1)] write_all_ok [of os m0 earlier] assms(2) by auto
  have r: "fst (region_write_code os oks code m) = res" "snd (region_write_code os oks code m) = m'" using assms(3) by simp_all
  note w = region_write_ok [OF ok(1), of oks code, unfolded r ok(2)]
  have "map (fetch os (jm_region m')) [0..<length code] = map Some code" if "res = Inr ()"
    using region_write_fetch [OF ok(1), of oks code, unfolded r] that by simp
  moreover have "\<not> (os = Linux \<and> rg_prot_write (jm_region m) \<and> rg_prot_exec (jm_region m))"
    using ok(1) by (auto simp: region_ok_def)
  ultimately show ?thesis using w region_ok_exclusive [OF ok(1)] by (auto simp: write_code_def)
qed

theorem jit_region_writes_then_executes_witness:
  "\<exists>m0 m m'. jit_memory_new Linux True False JIT_CODE_SIZE = Some m0 \<and>
    write_all Linux [((True, True), [0xD2800540, 0xD65F03C0]), ((True, False), [0])] m0 = m \<and>
    region_write_code Linux (True, True) [0xD28006E0, 0xD65F03C0] m = (Inr (), m') \<and>
    map (fetch Linux (jm_region m')) [0..<length [0xD28006E0, 0xD65F03C0 :: u32]] = map Some [0xD28006E0, 0xD65F03C0]"
proof -
  obtain m0 where m0: "jit_memory_new Linux True False JIT_CODE_SIZE = Some m0"
    by (simp add: jit_memory_new_def region_alloc_def)
  obtain res m' where w: "region_write_code Linux (True, True) [0xD28006E0, 0xD65F03C0]
      (write_all Linux [((True, True), [0xD2800540, 0xD65F03C0]), ((True, False), [0])] m0) = (res, m')"
    by (cases "region_write_code Linux (True, True) [0xD28006E0, 0xD65F03C0]
      (write_all Linux [((True, True), [0xD2800540, 0xD65F03C0]), ((True, False), [0])] m0)")
  have "res = Inr () \<and> map (fetch Linux (jm_region m')) [0..<length [0xD28006E0, 0xD65F03C0 :: u32]] = map Some [0xD28006E0, 0xD65F03C0]"
    using jit_region_writes_then_executes [OF m0 refl w] by (auto simp: write_code_def JIT_CODE_SIZE_def)
  then show ?thesis using m0 w by blast
qed


text \<open>C25: A compiled branch is taken at most twice in a row: whatever its register holds, adding the increment three times cannot leave all eight condition bits zero each time.\<close>

theorem branch_taken_at_most_twice:
  "let b = compile_cbranch i usage; zero = (\<lambda>x. x AND ucast (bi_mem_mask b) = 0)
   in \<not> (zero (r + bi_imm b) \<and> zero (r + bi_imm b + bi_imm b) \<and> zero (r + bi_imm b + bi_imm b + bi_imm b))"
  using compile_cbranch_ok [of i usage]
    not_taken_thrice [of "bi_imm (compile_cbranch i usage)" "bi_mem_mask (compile_cbranch i usage)"
      "r + bi_imm (compile_cbranch i usage)"]
  unfolding Let_def by (auto simp only: bi_ok_def instruction_type.simps)


text \<open>C26: and_bitmask and tst_bitmask compute the AND, and the zero flag of the AND, of a register with any 64-bit mask: when encode_bitmask_imm finds an encoding, the processor decodes it to exactly that mask, and otherwise the mask goes through the scratch register, the only other register that changes.\<close>

theorem bitmask_operands_exact:
  assumes "rd < 31" "rn < 31" "tmp < 31" "rn \<noteq> tmp"
  shows "\<exists>v. exec_words fpu (and_bitmask rd rn msk tmp) s =
      Some (set_x (unat rd) (xr s (unat rn) AND msk) (if encode_bitmask_imm msk = None then set_x (unat tmp) v s else s)) \<and>
    (\<exists>v. exec_words fpu (tst_bitmask rn msk tmp) s =
      Some (set_z (xr s (unat rn) AND msk = 0) (if encode_bitmask_imm msk = None then set_x (unat tmp) v s else s)))"
  using and_bitmask_exec [OF assms, of fpu msk s] tst_bitmask_exec [OF assms(2-4), of fpu msk s] by blast

theorem bitmask_operands_exact_witness:
  "\<exists>v. exec_words \<lparr>fp_add = \<lambda>r a b. a, fp_sub = \<lambda>r a b. a, fp_mul = \<lambda>r a b. a, fp_div = \<lambda>r a b. a, fp_sqrt = \<lambda>r a. a\<rparr>
      (and_bitmask 0 8 0x1FFFC0 1) zero_state =
      Some (set_x (unat (0 :: u32)) (xr zero_state (unat (8 :: u32)) AND 0x1FFFC0)
        (if encode_bitmask_imm 0x1FFFC0 = None then set_x (unat (1 :: u32)) v zero_state else zero_state)) \<and>
    (\<exists>v. exec_words \<lparr>fp_add = \<lambda>r a b. a, fp_sub = \<lambda>r a b. a, fp_mul = \<lambda>r a b. a, fp_div = \<lambda>r a b. a, fp_sqrt = \<lambda>r a. a\<rparr>
      (tst_bitmask 8 0x1FFFC0 1) zero_state =
      Some (set_z (xr zero_state (unat (8 :: u32)) AND 0x1FFFC0 = 0)
        (if encode_bitmask_imm 0x1FFFC0 = None then set_x (unat (1 :: u32)) v zero_state else zero_state)))"
  by (rule bitmask_operands_exact) simp_all


text \<open>C27: For every key, argon2d_cache returns a cache of 256 MiB: no index is out of range and no u32 overflow check fails in the whole fill.\<close>

theorem argon2d_cache_total:
  "\<exists>cache. argon2d_cache key = Some cache \<and> length cache = 262144 * 1024"
  using argon2d_cache_ok [of key] by (auto simp: returns_iff CACHE_BYTES_def)


text \<open>C28: The threaded generation, in chunks of the ceiling of the item count by the number of threads, is the sequential map of init_dataset_item; it panics on an empty cache.\<close>

theorem dataset_generation_sequential:
  assumes "0 < item_count"
  shows "dataset_generate item_count cache_memory programs num_threads =
    (if cache_memory = [] then None
     else map_all (\<lambda>i. init_dataset_item cache_memory programs (of_nat i)) [0..<item_count])"
  using dataset_generate_sequential [OF _ assms]
  by (simp add: dataset_generate_def)

theorem dataset_generation_sequential_witness:
  "dataset_generate 10 [1, 2] [] 3 =
    (if [1, 2] = ([] :: bytes) then None
     else map_all (\<lambda>i. init_dataset_item [1, 2] [] (of_nat i)) [0..<10])"
  by (rule dataset_generation_sequential) simp


text \<open>C29: From any generator state, program generation does not panic; the program it returns has at most 512 instructions, every one of them well formed (register numbers below 8, distinct operands where the opcode needs them, a rotation count from 1 to 63, a divisor that is neither 0 nor a power of two), and an address register below 8. It fails to return only if a reachable generator state rejects the whole run of draws of one of the two rejection loops.\<close>

theorem superscalar_generation_safe:
  "post (\<lambda>(p, g'). ssp_ok p \<and> gen_reach g g') (\<lambda>e. e = No_return \<and> draws_rejected fuel g)
     (generate_superscalar fuel g)"
  using generate_superscalar_gen by (rule post_mono) (auto simp: only_rejection_def)


text \<open>C30: For a divisor that is neither 0 nor a power of two, randomx_reciprocal is the truncated quotient of 2^(63 + k) by the divisor, k its bit length: the highest power of two whose quotient is below 2^64, since the result has its top bit set.\<close>

theorem reciprocal_exact:
  assumes "\<not> is_zero_or_power_of_2 divisor"
  shows "\<exists>rcp. randomx_reciprocal divisor = Some rcp \<and>
    unat rcp = 2 ^ (63 + bit_len (unat divisor)) div unat divisor \<and> 2 ^ 63 \<le> unat rcp"
proof -
  obtain rcp where "randomx_reciprocal divisor = Some rcp"
    using assms by (auto simp: randomx_reciprocal_def is_zero_or_power_of_2_def Let_def)
  then show ?thesis using reciprocal_general [OF assms] by blast
qed

theorem reciprocal_exact_witness:
  "\<exists>rcp. randomx_reciprocal 13 = Some rcp \<and>
    unat rcp = 2 ^ (63 + bit_len (unat (13 :: u32))) div unat (13 :: u32) \<and> 2 ^ 63 \<le> unat rcp"
  by (rule reciprocal_exact) (simp add: is_zero_or_power_of_2_def)


text \<open>C31: The table look-ups of soft_aesenc and soft_aesdec compute the AES rounds of FIPS-197: SubBytes, ShiftRows, MixColumns, AddRoundKey, and the inverse round InvShiftRows, InvSubBytes, InvMixColumns, AddRoundKey.\<close>

theorem aes_tables_implement_rounds:
  assumes "length s = 16" "length k = 16"
  shows "soft_aesenc s k = xor_bytes (mix_columns (shift_rows (sub_bytes s))) k \<and>
    soft_aesdec s k = xor_bytes (inv_mix_columns (inv_sub_bytes (inv_shift_rows s))) k"
  using soft_aesenc_round [OF assms] soft_aesdec_round [OF assms]
  by (simp add: aes_enc_round_def aes_dec_round_def)

theorem aes_tables_implement_rounds_witness:
  "soft_aesenc (replicate 16 7) (replicate 16 9) =
     xor_bytes (mix_columns (shift_rows (sub_bytes (replicate 16 7)))) (replicate 16 9) \<and>
   soft_aesdec (replicate 16 7) (replicate 16 9) =
     xor_bytes (inv_mix_columns (inv_sub_bytes (inv_shift_rows (replicate 16 7)))) (replicate 16 9)"
  by (rule aes_tables_implement_rounds) simp_all


text \<open>C32: On every processor, the combined pass hash_and_fill_aes_1rx4 leaves in the scratchpad what fill_aes_1rx4 would write, in hash_out the hash_aes_1rx4 digest of the scratchpad as it was, and in fill_state the final generator state; it panics exactly when they do.\<close>

theorem hash_and_fill_is_hash_then_fill:
  assumes "length fill_state = 64" "length hash_out = 64"
  shows "hash_and_fill_aes_1rx4 cpu scratchpad hash_out fill_state =
    Option.bind (hash_aes_1rx4 cpu scratchpad) (\<lambda>digest.
      map_option (\<lambda>(state, filled). (filled, digest, state))
        (fill_aes_1rx4 cpu fill_state scratchpad))"
  using assms
  by (simp add: hash_and_fill_soft_gen hash_aes_1rx4_soft_gen fill_aes_1rx4_soft_gen split: prod.split)

theorem hash_and_fill_is_hash_then_fill_witness:
  "hash_and_fill_aes_1rx4 \<lparr>cpu_arch = Aarch64, cpu_aes = True\<rparr> (replicate 128 3) (replicate 64 0)
      (replicate 64 1) =
    Option.bind (hash_aes_1rx4 \<lparr>cpu_arch = Aarch64, cpu_aes = True\<rparr> (replicate 128 3)) (\<lambda>digest.
      map_option (\<lambda>(state, filled). (filled, digest, state))
        (fill_aes_1rx4 \<lparr>cpu_arch = Aarch64, cpu_aes = True\<rparr> (replicate 64 1) (replicate 128 3)))"
  by (rule hash_and_fill_is_hash_then_fill) simp_all


text \<open>C33: The NEON, AES-NI and table versions of the two generators, the hash and the F/E mix compute the same function: the public functions do not depend on the processor.\<close>

theorem aes_versions_agree:
  assumes "length state = 64" "ok4 f" "\<forall>k \<in> set e. length k = 16"
  shows "fill_aes_1rx4 cpu state out = fill_aes_1rx4 cpu' state out \<and>
    fill_aes_4rx4 cpu state out = fill_aes_4rx4 cpu' state out \<and>
    hash_aes_1rx4 cpu inp = hash_aes_1rx4 cpu' inp \<and>
    aes_mix_fe cpu f e = aes_mix_fe cpu' f e"
  using assms
  by (simp add: fill_aes_1rx4_soft_gen fill_aes_4rx4_soft_gen hash_aes_1rx4_soft_gen
      aes_mix_fe_soft_gen)

theorem aes_versions_agree_witness:
  "let c = \<lparr>cpu_arch = X86_64, cpu_aes = True\<rparr>; c' = \<lparr>cpu_arch = Aarch64, cpu_aes = True\<rparr>;
       b = replicate 16 5; f = (b, b, b, b); z = replicate 64 0
   in fill_aes_1rx4 c z z = fill_aes_1rx4 c' z z \<and> fill_aes_4rx4 c z z = fill_aes_4rx4 c' z z \<and>
      hash_aes_1rx4 c z = hash_aes_1rx4 c' z \<and> aes_mix_fe c f [b, b] = aes_mix_fe c' f [b, b]"
  unfolding Let_def by (rule aes_versions_agree) simp_all


text \<open>C34: The byte-at-a-time loop of blake2b_full implements the block-wise definition of RFC 7693: the key block (when there is a key) followed by the input is cut into 128-byte blocks, all but the last compressed with the running count and the last with the finalisation flag. It panics exactly when the output length is not in 1..=64 or the key is longer than 64 bytes.\<close>

theorem blake2b_is_blockwise:
  "blake2b_full out_len key input =
     (if out_len = 0 \<or> 64 < out_len \<or> 64 < length key then None
      else Some (blake_output out_len
        (blake2b_blocks (bs_h (blake_init out_len key)) 0 (blake2b_data key input))))"
proof (cases "out_len = 0 \<or> 64 < out_len \<or> 64 < length key")
  case False
  have "bs_t (blake_init out_len key) = 0" by (simp add: blake_init_def Let_def)
  then show ?thesis
    using False blake_loop_blocks [OF blake_init_inv, of key out_len input]
      blake_held_init [of key out_len input]
    by (simp add: blake2b_full_def)
qed (auto simp: blake2b_full_def)


text \<open>C35: Decoding an encoding gives the bytes back, and every accepted string decodes to bytes whose encoding is the string in lower case; the accepted strings are exactly those of even length with hex digits only.\<close>

theorem hex_round_trips:
  "hex_decode (hex_encode bs) = Some bs \<and>
   (hex_decode h \<noteq> None \<longleftrightarrow> even (length h) \<and> list_all hex_digit h) \<and>
   map_option hex_encode (hex_decode h) = map_option (\<lambda>_. map to_lower h) (hex_decode h)"
  using hex_pairs_Some_iff [of h] hex_encode_pairs [of h]
  by (cases "hex_pairs h") (auto simp: hex_pairs_encode hex_decode_def)


text \<open>C36: The wallet logged in with is the user's or one of the two donation addresses, and no step of a worker or of the receiver changes the user's wallet once it is set, so every slice can rotate back to it.\<close>

theorem donation_keeps_the_user_wallet:
  assumes "reachable api agent author xmrig pki level pin n s" "user_wallet (sp s) \<noteq> []"
    "sub_step i s s' \<or> link_step api agent s s' \<or> loop_step api author xmrig s s'"
  shows "user_wallet (sp s') = user_wallet (sp s) \<and>
    wallet (sp s') \<in> {user_wallet (sp s), author, xmrig}"
proof -
  have "reachable api agent author xmrig pki level pin n s'"
    using assms(1,3) by (blast intro: reachable.intros)
  then have "inv_wallet author xmrig s'" using reachable_safety by blast
  moreover have "user_wallet (sp s') = user_wallet (sp s)"
    using assms(2,3) sub_step_user link_step_user loop_step_user by blast
  ultimately show ?thesis by (simp add: inv_wallet_def)
qed

theorem donation_keeps_the_user_wallet_witness:
  "user_wallet (sp (sample_written\<lparr>recv := R_Drop Reconnect, sp := (sp sample_written)\<lparr>connected := False\<rparr>\<rparr>)) =
    user_wallet (sp sample_written) \<and>
    wallet (sp (sample_written\<lparr>recv := R_Drop Reconnect, sp := (sp sample_written)\<lparr>connected := False\<rparr>\<rparr>)) \<in>
      {user_wallet (sp sample_written), [3], [4]}"
  by (rule donation_keeps_the_user_wallet [OF sample_reach_written, where i = 0])
    (use loop_step.Give_Up_Link [of sample_written sample_api "[3]" "[4]"] in
      \<open>auto simp: sample_written_def sample_start_def goto_def\<close>)


text \<open>C37: With an address and a wallet, reconnect returns exactly when some attempt opens a stream and is answered with a session id (in any order of failures before it), and it never gives up before; whenever it returns it reports success, the connection is up with a stream, nothing is pending and every share that was pending has been counted as lost.\<close>

theorem reconnect_ends_with_a_good_attempt:
  assumes "address p \<noteq> []" "wallet p \<noteq> []"
  shows "case reconnect api agent attempts p of
      None \<Rightarrow> \<not> (\<exists>att \<in> set attempts. good_attempt api (pinned_fingerprint p) (address p) att)
    | Some (success, p') \<Rightarrow>
        (\<exists>att \<in> set attempts. good_attempt api (pinned_fingerprint p) (address p) att) \<and>
        success \<and> connected p' \<and> stream p' \<noteq> None \<and> pending_shares p' = [] \<and>
        lost_shares p' = lost_shares p + of_nat (length (pending_shares p))"
proof -
  let ?t = "tear_down p"
  have t: "address ?t = address p" "wallet ?t = wallet p" "pinned_fingerprint ?t = pinned_fingerprint p"
    "pending_shares ?t = []" "lost_shares ?t = lost_shares p + of_nat (length (pending_shares p))"
    by (simp_all add: tear_down_def drain_pending_shares_eq)
  have r: "reconnect api agent attempts p =
      map_option (Pair True) (retry_loop api agent attempts (address p) (wallet p) ?t)"
    using assms t by (simp add: reconnect_def Let_def)
  note g = retry_loop_good [of api agent attempts "address p" "wallet p" ?t, unfolded t(3)]
  show ?thesis
  proof (cases "retry_loop api agent attempts (address p) (wallet p) ?t")
    case None
    then show ?thesis using g r by auto
  next
    case (Some p')
    show ?thesis using g retry_loop_result [OF Some] t(4,5) unfolding r Some by auto
  qed
qed

theorem reconnect_ends_with_a_good_attempt_witness:
  "case reconnect sample_api [] [(sample_connect\<lparr>tcp_connects := False\<rparr>, sample_login_env, True),
        (sample_connect, sample_login_env, True)] sample_start of
      None \<Rightarrow> \<not> (\<exists>att \<in> set [(sample_connect\<lparr>tcp_connects := False\<rparr>, sample_login_env, True),
        (sample_connect, sample_login_env, True)].
        good_attempt sample_api (pinned_fingerprint sample_start) (address sample_start) att)
    | Some (success, p') \<Rightarrow>
        (\<exists>att \<in> set [(sample_connect\<lparr>tcp_connects := False\<rparr>, sample_login_env, True),
          (sample_connect, sample_login_env, True)].
          good_attempt sample_api (pinned_fingerprint sample_start) (address sample_start) att) \<and>
        success \<and> connected p' \<and> stream p' \<noteq> None \<and> pending_shares p' = [] \<and>
        lost_shares p' = lost_shares sample_start + of_nat (length (pending_shares sample_start))"
  by (rule reconnect_ends_with_a_good_attempt) (simp_all add: sample_start_def)


text \<open>C38: A login on an open stream succeeds exactly when the request is written, a complete line of valid UTF-8 arrives that is JSON, and it carries no error, a result and in it a session id; a login that fails installs no job and leaves the session id as it was, so a misread reply can not pass for a login.\<close>

theorem login_succeeds_only_with_a_session:
  assumes "login api agent env w p = (r, p')" "stream p \<noteq> None"
  shows "(r = Inr () \<longleftrightarrow> login_write env = Written \<and>
      (\<exists>line v result sid. fst (read_line (login_reads env)) = Inr line \<and> json_parse api line = Some v \<and>
         get_some api v ''error'' = None \<and> get_some api v ''result'' = Some result \<and>
         get_str api result ''id'' = Some sid)) \<and>
    (r = Inr () \<or> current_job p' = current_job p \<and> session_id p' = session_id p)"
proof -
  have c: "(\<exists>x. login_check api v = Inr x) \<longleftrightarrow>
      (\<exists>result sid. get_some api v ''error'' = None \<and> get_some api v ''result'' = Some result \<and>
         get_str api result ''id'' = Some sid)" for v
    by (auto simp: login_check_def split: option.splits)
  have "r = Inr () \<longleftrightarrow> login_write env = Written \<and>
      (\<exists>line v. fst (read_line (login_reads env)) = Inr line \<and> json_parse api line = Some v \<and>
         (\<exists>x. login_check api v = Inr x))"
    unfolding login_outcome(1) [OF assms] by blast
  moreover have "r = Inr () \<or> current_job p' = current_job p \<and> session_id p' = session_id p"
    using login_outcome(2) [OF assms] by (cases r) simp_all
  ultimately show ?thesis unfolding c by blast
qed

theorem login_succeeds_only_with_a_session_witness:
  "let p = sample_start\<lparr>current_job := None\<rparr>; env = sample_login_env\<lparr>login_write := Write_Fails\<rparr>;
       q = snd (login sample_api [] env [2] p); r = fst (login sample_api [] env [2] p)
   in (r = Inr () \<longleftrightarrow> login_write env = Written \<and>
      (\<exists>line v result sid. fst (read_line (login_reads env)) = Inr line \<and> json_parse sample_api line = Some v \<and>
         get_some sample_api v ''error'' = None \<and> get_some sample_api v ''result'' = Some result \<and>
         get_str sample_api result ''id'' = Some sid)) \<and>
    (r = Inr () \<or> current_job q = current_job p \<and> session_id q = session_id p)"
  unfolding Let_def
  by (rule login_succeeds_only_with_a_session, rule surjective_pairing) (simp add: sample_start_def)


text \<open>C39: However the bytes of the pool are split across reads, the receiver gets the lines of the whole text, each trimmed and non-empty, and between reads it holds only the unfinished line, at most MAX_LINE_BYTES long; the only other outcome is the overflow.\<close>

theorem lines_do_not_depend_on_reads:
  assumes "feed_chunks [] pieces = Some (lines, rest)"
  shows "drain_lines (concat pieces) = (lines, rest) \<and> newline \<notin> set rest \<and>
    length rest \<le> MAX_LINE_BYTES \<and>
    (\<forall>line \<in> set lines. line \<noteq> [] \<and> (\<exists>raw. line = lossy_trim raw))"
proof -
  have d: "drain_lines (concat pieces) = (lines, rest)"
    using feed_chunks_gen [of "[]"] assms by simp
  then show ?thesis
    using feed_chunks_bound [OF _ assms] drain_rest [of "concat pieces"] drain_lines_trimmed [of _ "concat pieces"]
    by auto
qed

theorem lines_do_not_depend_on_reads_witness:
  "drain_lines (concat [[0x41], [newline, 0x42]]) = ([[0x41]], [0x42]) \<and> newline \<notin> set [0x42 :: u8] \<and>
    (\<exists>raw. [0x41] = lossy_trim raw)"
proof -
  have "lossy_trim [0x41, 0x0A] = [0x41]" by code_simp
  then have "drain_lines [0x41, newline, 0x42] = ([[0x41]], [0x42])"
    by (subst drain_lines.simps) (simp add: newline_def drain_none)
  moreover have "drain_lines [0x41] = ([], [0x41])" by (simp add: drain_none newline_def)
  ultimately have "feed_chunks [] [[0x41], [newline, 0x42]] = Some ([[0x41]], [0x42])"
    by (simp add: take_complete_lines_def MAX_LINE_BYTES_def)
  from lines_do_not_depend_on_reads [OF this] show ?thesis by simp
qed


text \<open>C40: A hash that meets the target of a job is worth the difficulty that is reported for it: its leading 64 bits (32 for a compact target) times target_to_difficulty stay below 2^64 (2^32), and that difficulty is positive. The target it meets is neither zero, in its first 8 bytes or in its first 4 when it is compact, nor shorter than 4 bytes.\<close>

theorem share_is_worth_its_difficulty:
  assumes "meets_target h t"
  shows "0 < target_to_difficulty t \<and>
    (if 8 \<le> length t
     then (from_le (take 8 t) :: u64) \<noteq> 0 \<and>
       unat (from_le (slice 24 8 h) :: u64) * unat (target_to_difficulty t) < 2 ^ 64
     else 4 \<le> length t \<and> (from_le (take 4 t) :: u32) \<noteq> 0 \<and>
       unat (from_le (slice 28 4 h) :: u32) * unat (target_to_difficulty t) < 2 ^ 32)"
  using assms by (rule meets_target_difficulty)

theorem share_is_worth_its_difficulty_witness:
  "(from_le [0, 0, 4, 0] :: u32) \<noteq> 0 \<and>
    unat (from_le (slice 28 4 (replicate 30 0 @ [1, 0])) :: u32) *
    unat (target_to_difficulty [0, 0, 4, 0]) < 2 ^ 32"
proof -
  have "meets_target (replicate 30 0 @ [1, 0]) [0, 0, 4, 0]" by code_simp
  from share_is_worth_its_difficulty [OF this] show ?thesis by simp
qed


section \<open>Further theorems\<close>

text \<open>Loading the bytes a block was stored to gives the block back.\<close>

theorem block_bytes_round_trip:
  assumes "length b = 128"
  shows "load_from_bytes (store_to_bytes b) = Some b"
  using assms by (intro load_store_gen) (simp add: block_ok_def)

theorem block_bytes_round_trip_witness:
  "load_from_bytes (store_to_bytes (replicate 128 0x0123456789abcdef)) = Some (replicate 128 0x0123456789abcdef)"
  by (rule block_bytes_round_trip) simp


text \<open>For every program, the byte offset the loop reads at, dataset_offset plus the masked ma, lies in an item of the dataset: the worst case the code asserts at compile time.\<close>

theorem dataset_read_in_bounds:
  assumes "derive_program_params program_bytes = Some (config, ma, mx, dataset_offset)"
  shows "unat ((dataset_offset + (ucast (mem_ma :: u32) AND ucast CACHE_LINE_ALIGN_MASK)) div
      of_nat CACHE_LINE_SIZE) < DATASET_ITEM_COUNT"
proof -
  have "INSTRUCTIONS_OFFSET \<le> length program_bytes"
    using assms by (auto simp: derive_program_params_def split: if_splits)
  from derive_params_ok [OF this] assms have "offset_ok dataset_offset" by (simp add: returns_iff)
  then show ?thesis by (rule item_number_bound)
qed

theorem dataset_read_in_bounds_witness:
  "unat ((snd (snd (snd (the (derive_program_params (replicate 128 0xff))))) +
      (ucast (0xffffffff :: u32) AND ucast CACHE_LINE_ALIGN_MASK)) div of_nat CACHE_LINE_SIZE) < DATASET_ITEM_COUNT"
proof -
  have "INSTRUCTIONS_OFFSET \<le> length (replicate 128 (0xff :: u8))" by (simp add: INSTRUCTIONS_OFFSET_def)
  from derive_params_ok [OF this] obtain config ma mx d where
    p: "derive_program_params (replicate 128 0xff) = Some (config, ma, mx, d)"
    by (auto simp: returns_iff)
  show ?thesis unfolding p option.sel snd_conv by (rule dataset_read_in_bounds [OF p])
qed


text \<open>The memory after the fill depends on the first two blocks only: what the other blocks held before is never used.\<close>

theorem first_pass_overwrites_memory:
  assumes "length mem = 262144" "length mem' = 262144" "\<forall>b \<in> set mem \<union> set mem'. length b = 128"
    "take 2 mem = take 2 mem'"
  shows "fill_memory 1 262144 65536 mem = fill_memory 1 262144 65536 mem'"
proof -
  have "randomx_lane.agree 2 mem mem'"
    using assms by (simp add: randomx_lane.agree_def randomx_lane.mem_ok_def block_ok_def ARGON2_SYNC_POINTS_def)
  from randomx_lane.fill_memory_agree [OF this] show ?thesis
    by (simp add: ARGON2_SYNC_POINTS_def)
qed

theorem first_pass_overwrites_memory_witness:
  "let z = replicate 128 0; b = replicate 128 1
   in fill_memory 1 262144 65536 (b # b # replicate 262142 z) =
      fill_memory 1 262144 65536 (b # b # replicate 262142 b)"
  unfolding Let_def by (rule first_pass_overwrites_memory) auto


text \<open>With the one lane of RandomX, index_alpha returns a block of the lane that is neither the block being written nor the one before it; in the first pass it is one that has been written already.\<close>

theorem reference_block_in_window:
  assumes "slice' < 4" "index < 65536" "pseudo_rand < 2 ^ 32" "pass = 0 \<and> slice' = 0 \<longrightarrow> 2 \<le> index"
  shows "\<exists>r. index_alpha pass slice' index pseudo_rand True 262144 65536 = Some r \<and> r < 262144 \<and>
    r \<noteq> slice' * 65536 + index \<and> (r + 1) mod 262144 \<noteq> slice' * 65536 + index \<and>
    (pass = 0 \<longrightarrow> r + 1 < slice' * 65536 + index)"
proof -
  have "randomx_lane.start_ok pass slice' index"
    using assms by (simp add: randomx_lane.start_ok_def)
  from randomx_lane.index_alpha_window [OF this assms(3)]
  show ?thesis
    by (auto simp: returns_iff randomx_lane.window_def ARGON2_SYNC_POINTS_def)
qed

theorem reference_block_in_window_witness:
  "\<exists>r. index_alpha 1 3 65535 0xffffffff True 262144 65536 = Some r \<and> r < 262144 \<and>
    r \<noteq> 3 * 65536 + 65535 \<and> (r + 1) mod 262144 \<noteq> 3 * 65536 + 65535 \<and>
    (1 = (0 :: nat) \<longrightarrow> r + 1 < 3 * 65536 + 65535)"
  by (rule reference_block_in_window) simp_all


text \<open>Whatever level is requested, each 6000-second cycle gives the user 60 seconds per percent not donated and splits the donated seconds evenly between the author and XMRig; the schedule repeats every cycle.\<close>

theorem donation_shares:
  "let s = donation_new level
   in cycle_share s User = 6000 - 60 * clamp_level level \<and>
      cycle_share s Author = 30 * clamp_level level \<and>
      cycle_share s Xmrig = 30 * clamp_level level \<and>
      1 \<le> clamp_level level \<and> clamp_level level \<le> 100 \<and>
      beneficiary_at s (t + 6000 * k) = beneficiary_at s t"
  using clamp_level_range [of level] cycle_share_user [of "donation_new level"]
    cycle_share_author [of "donation_new level"] cycle_share_xmrig [of "donation_new level"]
    beneficiary_periodic [of "donation_new level" t k]
  by (simp add: donate_consts)


text \<open>A Blake2Generator keeps a 64-byte buffer and a position of at most 64, from construction on through every read, and each read leaves the position past the bytes it took, within the buffer.\<close>

theorem generator_reads_in_bounds:
  assumes "gen_reach (gen_new seed nonce) g"
  shows "gen_inv g \<and>
    0 < gen_index (snd (get_byte g)) \<and> gen_index (snd (get_byte g)) \<le> length (gen_data (snd (get_byte g))) \<and>
    4 \<le> gen_index (snd (get_u32 g)) \<and> gen_index (snd (get_u32 g)) \<le> length (gen_data (snd (get_u32 g)))"
proof -
  have "gen_inv g" using gen_reach_inv [OF assms] by simp
  then show ?thesis
    using get_byte_inv [of g] get_u32_inv [of g]
    by (simp add: get_byte_def get_u32_def gen_inv_def Let_def)
qed

theorem generator_reads_in_bounds_witness:
  "let g = snd (get_u32 (gen_new [1, 2, 3] 7))
   in gen_inv g \<and>
    0 < gen_index (snd (get_byte g)) \<and> gen_index (snd (get_byte g)) \<le> length (gen_data (snd (get_byte g))) \<and>
    4 \<le> gen_index (snd (get_u32 g)) \<and> gen_index (snd (get_u32 g)) \<le> length (gen_data (snd (get_u32 g)))"
  unfolding Let_def by (rule generator_reads_in_bounds) (rule reach_u32, rule reach_refl)


text \<open>read_line returns after at most MAX_LINE_BYTES + 1 single-byte reads, whatever the peer sends: with the bytes up to a newline or the end of the stream when they are valid UTF-8 and no longer than the limit, and with an error otherwise.\<close>

theorem read_line_is_bounded:
  "snd (read_line reads) \<le> MAX_LINE_BYTES + 1 \<and>
   (case fst (read_line reads) of
      Inl e \<Rightarrow> True
    | Inr line \<Rightarrow>
        length line \<le> MAX_LINE_BYTES \<and> newline \<notin> set line \<and> from_utf8 line = Some line \<and>
        snd (read_line reads) = length line + 1 \<and>
        (list_all (\<lambda>k. reads k = Got (line ! k)) [0..<length line]) \<and>
        reads (length line) \<in> {Got newline, Eof})"
  using read_line_gen [of reads] .


text \<open>A well-formed SuperscalarHash program runs to its end on any eight registers: no register index is out of range and no reciprocal is taken of zero.\<close>

theorem superscalar_execution_total:
  assumes "ssp_ok p" "length r = 8"
  shows "\<exists>r'. execute_superscalar r p = Some r' \<and> length r' = 8"
  using assms by (rule execute_superscalar_ok)

theorem superscalar_execution_total_witness:
  "let p = \<lparr>ssp_instructions =
        [\<lparr>ssi_opcode = 0, ssi_dst = 1, ssi_src = 2, ssi_mod = 0, ssi_imm32 = 0\<rparr>,
         \<lparr>ssi_opcode = 13, ssi_dst = 3, ssi_src = 3, ssi_mod = 0, ssi_imm32 = 7\<rparr>],
      ssp_address_register = 3\<rparr>
   in \<exists>r'. execute_superscalar [1, 2, 3, 4, 5, 6, 7, 8] p = Some r' \<and> length r' = 8"
  unfolding Let_def
  by (rule superscalar_execution_total) (simp_all add: ssp_ok_def ssi_ok_def is_zero_or_power_of_2_def)


end
